(* ===== verification/Ufcs_Prelude.thy ===== *)
theory Ufcs_Prelude
  imports Main "HOL-Library.Word" "HOL-Library.Monad_Syntax"
begin

unbundle bit_operations_syntax

text \<open>
  Shared vocabulary of the development: the C integer types as words, the kernel's error
  numbers, \<^verbatim>\<open>struct completion\<close>, byte buffers (reading and writing a slice, reversing a
  slice in place as the \<^verbatim>\<open>be64_to_cpu\<close> family does on a little-endian CPU, little-endian
  words over bytes), and the lemma collections the component theories fill.
\<close>

section \<open>Lemma collections\<close>

named_theorems ufcs_frame \<open>which fields an operation leaves alone\<close>
named_theorems ufcs_wire \<open>lengths and slices of byte buffers\<close>

section \<open>Types and error numbers\<close>

type_synonym u8 = "8 word"
type_synonym u16 = "16 word"
type_synonym u32 = "32 word"
type_synonym u64 = "64 word"
type_synonym bytes = "8 word list"

text \<open>C functions return \<^verbatim>\<open>0\<close> (or a positive value) on success and a negated error
  number on failure; the numbers are those of the kernel's \<^verbatim>\<open>errno\<close> headers.\<close>

type_synonym rc = int

abbreviation EIO :: int where "EIO \<equiv> 5"
abbreviation EAGAIN :: int where "EAGAIN \<equiv> 11"
abbreviation ENOMEM :: int where "ENOMEM \<equiv> 12"
abbreviation EFAULT :: int where "EFAULT \<equiv> 14"
abbreviation EBUSY :: int where "EBUSY \<equiv> 16"
abbreviation EEXIST :: int where "EEXIST \<equiv> 17"
abbreviation ENODEV :: int where "ENODEV \<equiv> 19"
abbreviation EINVAL :: int where "EINVAL \<equiv> 22"
abbreviation ENODATA :: int where "ENODATA \<equiv> 61"
abbreviation EPROTO :: int where "EPROTO \<equiv> 71"
abbreviation ETIMEDOUT :: int where "ETIMEDOUT \<equiv> 110"
abbreviation ENOTSUPP :: int where "ENOTSUPP \<equiv> 524"

section \<open>Completions\<close>

text \<open>A \<^verbatim>\<open>struct completion\<close> is its \<^verbatim>\<open>done\<close> counter: \<^verbatim>\<open>complete\<close> increments it
  unless it is saturated, \<^verbatim>\<open>complete_all\<close> saturates it, a waiter that gets through
  decrements it unless it is saturated, \<^verbatim>\<open>reinit_completion\<close> clears it.\<close>

type_synonym completion = u32

definition complete :: "completion \<Rightarrow> completion" where
  "complete c = (if c = - 1 then c else c + 1)"

definition complete_all :: "completion \<Rightarrow> completion" where
  "complete_all c = - 1"

definition completion_taken :: "completion \<Rightarrow> completion" where
  "completion_taken c = (if c = - 1 then c else c - 1)"

definition completed :: "completion \<Rightarrow> bool" where
  "completed c \<longleftrightarrow> c \<noteq> 0"

lemma completed_complete [simp]: "completed (complete c)"
proof (cases "c = - 1")
  case False
  then have "c + 1 \<noteq> 0" by (metis add.inverse_unique add.commute minus_minus)
  with False show ?thesis by (simp add: completed_def complete_def)
qed (simp add: completed_def complete_def)

lemma completed_complete_all [simp]: "completed (complete_all c)"
  by (simp add: completed_def complete_all_def)

lemma completed_zero [simp]: "\<not> completed 0"
  by (simp add: completed_def)

lemma completion_taken_complete [simp]: "completion_taken (complete 0) = 0"
  by (simp add: completion_taken_def complete_def)

section \<open>Slices of byte buffers\<close>

text \<open>\<open>get_bytes off n b\<close> reads \<open>n\<close> bytes at \<open>off\<close>; \<open>put_bytes off xs b\<close> is
  \<^verbatim>\<open>memcpy(b + off, xs, |xs|)\<close>.\<close>

definition get_bytes :: "nat \<Rightarrow> nat \<Rightarrow> 'a list \<Rightarrow> 'a list" where
  "get_bytes off n b = take n (drop off b)"

definition put_bytes :: "nat \<Rightarrow> 'a list \<Rightarrow> 'a list \<Rightarrow> 'a list" where
  "put_bytes off xs b = take off b @ xs @ drop (off + length xs) b"

definition rev_bytes :: "nat \<Rightarrow> nat \<Rightarrow> 'a list \<Rightarrow> 'a list" where
  "rev_bytes off n b = put_bytes off (rev (get_bytes off n b)) b"

lemma length_get_bytes [ufcs_wire]: "off + n \<le> length b \<Longrightarrow> length (get_bytes off n b) = n"
  by (simp add: get_bytes_def)

lemma length_put_bytes [ufcs_wire]:
  "off + length xs \<le> length b \<Longrightarrow> length (put_bytes off xs b) = length b"
  by (simp add: put_bytes_def)

lemma length_rev_bytes [ufcs_wire]: "off + n \<le> length b \<Longrightarrow> length (rev_bytes off n b) = length b"
  by (simp add: rev_bytes_def length_put_bytes length_get_bytes)

lemma nth_get_bytes: "off + n \<le> length b \<Longrightarrow> i < n \<Longrightarrow> get_bytes off n b ! i = b ! (off + i)"
  by (simp add: get_bytes_def)

lemma nth_put_bytes:
  "off + length xs \<le> length b \<Longrightarrow> i < length b \<Longrightarrow>
   put_bytes off xs b ! i =
     (if off \<le> i \<and> i < off + length xs then xs ! (i - off) else b ! i)"
  by (auto simp: put_bytes_def nth_append min_def)

lemma nth_rev_bytes:
  "off + n \<le> length b \<Longrightarrow> i < length b \<Longrightarrow>
   rev_bytes off n b ! i =
     (if off \<le> i \<and> i < off + n then b ! (off + (n - 1 - (i - off))) else b ! i)"
  by (auto simp: rev_bytes_def nth_put_bytes length_get_bytes rev_nth nth_get_bytes)

lemma get_put_bytes_same [simp]:
  "off + length xs \<le> length b \<Longrightarrow> get_bytes off (length xs) (put_bytes off xs b) = xs"
  by (simp add: get_bytes_def put_bytes_def)

lemma get_put_bytes_other:
  "off + length xs \<le> length b \<Longrightarrow> o' + n \<le> length b \<Longrightarrow> o' + n \<le> off \<or> off + length xs \<le> o' \<Longrightarrow>
   get_bytes o' n (put_bytes off xs b) = get_bytes o' n b"
  by (rule nth_equalityI) (auto simp: length_get_bytes length_put_bytes nth_get_bytes nth_put_bytes)

lemma put_get_bytes_same [simp]: "off + n \<le> length b \<Longrightarrow> put_bytes off (get_bytes off n b) b = b"
  by (rule nth_equalityI) (auto simp: length_get_bytes length_put_bytes nth_get_bytes nth_put_bytes)

text \<open>Swapping the same slice twice gives the buffer back: the byte-order conversions of the
  wire format are involutions.\<close>

lemma rev_bytes_rev_bytes [simp]:
  assumes "off + n \<le> length b"
  shows "rev_bytes off n (rev_bytes off n b) = b"
  using assms by (intro nth_equalityI) (auto simp: length_rev_bytes nth_rev_bytes)

lemma rev_bytes_commute:
  assumes "off + n \<le> length b" and "o' + m \<le> length b" and "off + n \<le> o' \<or> o' + m \<le> off"
  shows "rev_bytes off n (rev_bytes o' m b) = rev_bytes o' m (rev_bytes off n b)"
  using assms by (intro nth_equalityI) (auto simp: length_rev_bytes nth_rev_bytes)

lemma get_rev_bytes_same:
  "off + n \<le> length b \<Longrightarrow> get_bytes off n (rev_bytes off n b) = rev (get_bytes off n b)"
  by (rule nth_equalityI)
    (auto simp: length_get_bytes length_rev_bytes nth_get_bytes nth_rev_bytes rev_nth)

lemma get_rev_bytes_other:
  "off + n \<le> length b \<Longrightarrow> o' + m \<le> length b \<Longrightarrow> o' + m \<le> off \<or> off + n \<le> o' \<Longrightarrow>
   get_bytes o' m (rev_bytes off n b) = get_bytes o' m b"
  by (rule nth_equalityI) (auto simp: length_get_bytes length_rev_bytes nth_get_bytes nth_rev_bytes)

section \<open>Little-endian words over bytes\<close>

fun le_word :: "bytes \<Rightarrow> 'a::len word" where
  "le_word [] = 0"
| "le_word (b # bs) = ucast b OR push_bit 8 (le_word bs)"

fun le_bytes :: "nat \<Rightarrow> 'a::len word \<Rightarrow> bytes" where
  "le_bytes 0 w = []"
| "le_bytes (Suc n) w = ucast w # le_bytes n (drop_bit 8 w)"

lemma length_le_bytes [simp]: "length (le_bytes n w) = n"
  by (induction n arbitrary: w) auto

lemma bit_le_word:
  "bit (le_word bs :: 'a::len word) i \<longleftrightarrow>
     i < LENGTH('a) \<and> i div 8 < length bs \<and> bit (bs ! (i div 8)) (i mod 8)"
proof (induction bs arbitrary: i)
  case Nil
  then show ?case by simp
next
  case (Cons b bs)
  show ?case
  proof (cases "i < 8")
    case True
    then show ?thesis by (auto simp: bit_or_iff bit_push_bit_iff bit_ucast_iff)
  next
    case False
    then obtain j where j: "i = j + 8" by (metis add.commute le_Suc_ex not_less)
    then have "bit (le_word bs :: 'a word) j \<longleftrightarrow>
      j < LENGTH('a) \<and> j div 8 < length bs \<and> bit (bs ! (j div 8)) (j mod 8)"
      using Cons.IH by simp
    moreover have "\<not> bit b i" using False by (simp add: bit_word.rep_eq bit_take_bit_iff)
    moreover have "i div 8 = Suc (j div 8)" and "i mod 8 = j mod 8" using j by auto
    ultimately show ?thesis using j by (auto simp: bit_or_iff bit_push_bit_iff bit_ucast_iff)
  qed
qed

lemma nth_le_bytes: "i < n \<Longrightarrow> le_bytes n w ! i = ucast (drop_bit (8 * i) w)"
proof (induction n arbitrary: w i)
  case (Suc n)
  then show ?case by (cases i) (auto simp: ac_simps)
qed simp

lemma le_word_le_bytes:
  fixes w :: "'a::len word"
  assumes "LENGTH('a) \<le> 8 * n"
  shows "le_word (le_bytes n w) = w"
proof (rule bit_word_eqI)
  fix i assume "i < LENGTH('a)"
  then have "i div 8 < n" and "8 * (i div 8) + i mod 8 = i" using assms by auto
  then show "bit (le_word (le_bytes n w) :: 'a word) i = bit w i"
    using \<open>i < LENGTH('a)\<close>
    by (simp add: bit_le_word nth_le_bytes bit_ucast_iff bit_drop_bit_eq)
qed

lemma le_bytes_le_word:
  assumes "8 * length bs \<le> LENGTH('a::len)"
  shows "le_bytes (length bs) (le_word bs :: 'a word) = bs"
proof (rule nth_equalityI)
  fix i assume "i < length (le_bytes (length bs) (le_word bs :: 'a word))"
  then have i: "i < length bs" by simp
  show "le_bytes (length bs) (le_word bs :: 'a word) ! i = bs ! i"
  proof (rule bit_word_eqI)
    fix j assume "j < LENGTH(8)"
    then have "j < 8" by simp
    moreover have "8 * i + j < LENGTH('a)" using assms i \<open>j < 8\<close> by linarith
    moreover have "(8 * i + j) div 8 = i" and "(8 * i + j) mod 8 = j" using \<open>j < 8\<close> by auto
    ultimately show "bit (le_bytes (length bs) (le_word bs :: 'a word) ! i) j = bit (bs ! i) j"
      using i by (simp add: nth_le_bytes bit_ucast_iff bit_drop_bit_eq bit_le_word)
  qed
qed simp

section \<open>Widening\<close>

lemma unat_ucast_u8: "unat (ucast (c :: u8) :: u32) = unat c"
proof -
  have "unat c < 2 ^ LENGTH(8)" by (rule unsigned_less)
  then show ?thesis by (simp add: unsigned_ucast_eq take_bit_nat_eq_self)
qed

lemma unat_ucast_u32: "unat (ucast (w :: u32) :: u64) = unat w"
proof -
  have "unat w < 2 ^ LENGTH(32)" by (rule unsigned_less)
  then show ?thesis by (simp add: unsigned_ucast_eq take_bit_nat_eq_self)
qed

section \<open>Searches\<close>

lemma find_upt_Some: "find P [a..<b] = Some i \<longleftrightarrow> a \<le> i \<and> i < b \<and> P i \<and> (\<forall>j\<in>{a..<i}. \<not> P j)"
proof
  assume "find P [a..<b] = Some i"
  then obtain k where k: "k < b - a" "P (a + k)" "i = a + k" "\<forall>j<k. \<not> P (a + j)" by (auto simp: find_Some_iff)
  then show "a \<le> i \<and> i < b \<and> P i \<and> (\<forall>j\<in>{a..<i}. \<not> P j)" by (auto simp: Ball_def dest: le_Suc_ex)
next
  assume "a \<le> i \<and> i < b \<and> P i \<and> (\<forall>j\<in>{a..<i}. \<not> P j)"
  then show "find P [a..<b] = Some i" unfolding find_Some_iff by (intro exI [of _ "i - a"]) auto
qed

lemma find_upt_None: "find P [a..<b] = None \<longleftrightarrow> (\<forall>j\<in>{a..<b}. \<not> P j)"
  by (auto simp: find_None_iff)

lemma find_upt0_Some: "find P [0..<n] = Some i \<longleftrightarrow> i < n \<and> P i \<and> (\<forall>j<i. \<not> P j)"
  by (auto simp: find_Some_iff)

section \<open>Queues\<close>

text \<open>Fetching \<open>n\<close> elements.\<close>

fun take_n :: "('s \<Rightarrow> ('a \<times> 's) option) \<Rightarrow> nat \<Rightarrow> 's \<Rightarrow> 'a list" where
  "take_n fetch 0 s = []"
| "take_n fetch (Suc n) s = (case fetch s of None \<Rightarrow> [] | Some (x, s') \<Rightarrow> x # take_n fetch n s')"

text \<open>What a queue promises: an element that fits goes to the end, fetching takes the first one.
  \<open>ok\<close> is the representation's invariant.\<close>

locale fifo =
  fixes items :: "'s \<Rightarrow> 'a list" and ok fits :: "'s \<Rightarrow> bool"
    and put :: "'a \<Rightarrow> 's \<Rightarrow> 's" and fetch :: "'s \<Rightarrow> ('a \<times> 's) option"
  assumes put_items: "ok s \<Longrightarrow> fits s \<Longrightarrow> items (put x s) = items s @ [x]"
    and put_ok: "ok s \<Longrightarrow> ok (put x s)"
    and fetch_Nil: "ok s \<Longrightarrow> items s = [] \<Longrightarrow> fetch s = None"
    and fetch_Cons: "ok s \<Longrightarrow> items s = x # xs \<Longrightarrow> \<exists>s'. fetch s = Some (x, s') \<and> items s' = xs \<and> ok s'"
begin

lemma take_n_items: "ok s \<Longrightarrow> take_n fetch (length (items s)) s = items s"
proof (induction "items s" arbitrary: s)
  case Nil
  then show ?case using fetch_Nil [of s] by (cases "items s") auto
next
  case (Cons x xs)
  then obtain s' where "fetch s = Some (x, s')" "items s' = xs" "ok s'"
    using fetch_Cons [of s x xs] by auto
  with Cons show ?case by (metis case_prod_conv length_Cons option.simps(5) take_n.simps(2))
qed

end

locale unbounded_fifo = fifo +
  assumes always_fits: "fits s"
begin

lemma fold_put_items: "ok s \<Longrightarrow> ok (fold put xs s) \<and> items (fold put xs s) = items s @ xs"
  by (induction xs arbitrary: s) (simp_all add: put_ok put_items always_fits)

lemma first_in_first_out: "ok s \<Longrightarrow> take_n fetch (length (items s) + length xs) (fold put xs s) = items s @ xs"
  using take_n_items [of "fold put xs s"] fold_put_items [of s xs] by simp

end

text \<open>A queue that drops what does not fit.\<close>

locale bounded_fifo = fifo +
  fixes capacity :: "'a \<Rightarrow> nat"
  assumes fits_iff: "fits s \<longleftrightarrow> length (items s) < capacity s"
    and capacity_put: "capacity (put x s) = capacity s"
    and put_full: "\<not> fits s \<Longrightarrow> items (put x s) = items s"
begin

lemma fold_put_full:
  "ok s \<Longrightarrow> \<not> fits s \<Longrightarrow> ok (fold put xs s) \<and> items (fold put xs s) = items s"
  by (induction xs arbitrary: s) (simp_all add: put_ok put_full capacity_put fits_iff)

lemma fold_put_items:
  "ok s \<Longrightarrow> length (items s) \<le> capacity s \<Longrightarrow>
   ok (fold put xs s) \<and> items (fold put xs s) = take (capacity s) (items s @ xs)"
proof (induction xs arbitrary: s)
  case (Cons x xs)
  show ?case
  proof (cases "fits s")
    case True
    then show ?thesis using Cons by (simp add: put_ok put_items capacity_put fits_iff take_Cons')
  next
    case False
    then show ?thesis using Cons.prems fold_put_full [of s "x # xs"] by (simp add: fits_iff)
  qed
qed simp

lemma first_in_first_out:
  assumes "ok s" and "length (items s) \<le> capacity s"
  shows "take_n fetch (capacity s) (fold put xs s) = take (capacity s) (items s @ xs)"
proof -
  note f = fold_put_items [OF assms, of xs]
  have "take_n fetch n s = items s" if "ok s" "length (items s) \<le> n" for n s
    using that
  proof (induction n arbitrary: s)
    case (Suc n)
    then show ?case
      using fetch_Nil [of s] fetch_Cons [of s "hd (items s)" "tl (items s)"]
      by (cases "items s") fastforce+
  qed simp
  with f show ?thesis by simp
qed

end

end
