(* ===== verification/Ufcs_Msg.thy ===== *)
theory Ufcs_Msg
  imports Ufcs_Prelude
begin

unbundle bit_operations_syntax

text \<open>
  The message vocabulary of the UFCS stack, \<^verbatim>\<open>include/internal/ufcs_msg.h\<close>: the message
  and command enumerations with their wire codes, the message structures, and the bit-field
  macros that read and build the 16-, 32- and 64-bit payload words. Commands arrive as raw
  bytes, so each enumeration comes with its code function and the decoder a C \<^verbatim>\<open>switch\<close>
  over the raw byte amounts to.
\<close>

section \<open>Enumerations\<close>

datatype ufcs_msg_type = UFCS_CTRL_MSG | UFCS_DATA_MSG | UFCS_VENDOR_MSG

fun msg_type_code :: "ufcs_msg_type \<Rightarrow> u8" where
  "msg_type_code UFCS_CTRL_MSG = 0"
| "msg_type_code UFCS_DATA_MSG = 1"
| "msg_type_code UFCS_VENDOR_MSG = 2"

definition msg_type_of :: "u8 \<Rightarrow> ufcs_msg_type option" where
  "msg_type_of c =
     (if c = 0 then Some UFCS_CTRL_MSG
      else if c = 1 then Some UFCS_DATA_MSG
      else if c = 2 then Some UFCS_VENDOR_MSG
      else None)"

datatype ufcs_device_addr = UFCS_DEVICE_SOURCE | UFCS_DEVICE_SINK | UFCS_DEVICE_CABLE

fun device_addr_code :: "ufcs_device_addr \<Rightarrow> u8" where
  "device_addr_code UFCS_DEVICE_SOURCE = 1"
| "device_addr_code UFCS_DEVICE_SINK = 2"
| "device_addr_code UFCS_DEVICE_CABLE = 3"

definition UFCS_VER_CURR :: u8 where
  "UFCS_VER_CURR = 1"

datatype ufcs_ctrl_msg_type =
    CTRL_MSG_PING | CTRL_MSG_ACK | CTRL_MSG_NCK | CTRL_MSG_ACCEPT | CTRL_MSG_SOFT_RESET
  | CTRL_MSG_POWER_READY | CTRL_MSG_GET_OUTPUT_CAPABILITIES | CTRL_MSG_GET_SOURCE_INFO
  | CTRL_MSG_GET_SINK_INFO | CTRL_MSG_GET_CABLE_INFO | CTRL_MSG_GET_DEVICE_INFO
  | CTRL_MSG_GET_ERROR_INFO | CTRL_MSG_DETECT_CABLE_INFO | CTRL_MSG_START_CABLE_DETECT
  | CTRL_MSG_END_CABLE_DETECT | CTRL_MSG_EXIT_UFCS_MODE

fun ctrl_code :: "ufcs_ctrl_msg_type \<Rightarrow> u8" where
  "ctrl_code CTRL_MSG_PING = 0"
| "ctrl_code CTRL_MSG_ACK = 1"
| "ctrl_code CTRL_MSG_NCK = 2"
| "ctrl_code CTRL_MSG_ACCEPT = 3"
| "ctrl_code CTRL_MSG_SOFT_RESET = 4"
| "ctrl_code CTRL_MSG_POWER_READY = 5"
| "ctrl_code CTRL_MSG_GET_OUTPUT_CAPABILITIES = 6"
| "ctrl_code CTRL_MSG_GET_SOURCE_INFO = 7"
| "ctrl_code CTRL_MSG_GET_SINK_INFO = 8"
| "ctrl_code CTRL_MSG_GET_CABLE_INFO = 9"
| "ctrl_code CTRL_MSG_GET_DEVICE_INFO = 10"
| "ctrl_code CTRL_MSG_GET_ERROR_INFO = 11"
| "ctrl_code CTRL_MSG_DETECT_CABLE_INFO = 12"
| "ctrl_code CTRL_MSG_START_CABLE_DETECT = 13"
| "ctrl_code CTRL_MSG_END_CABLE_DETECT = 14"
| "ctrl_code CTRL_MSG_EXIT_UFCS_MODE = 15"

definition ctrl_msgs :: "ufcs_ctrl_msg_type list" where
  "ctrl_msgs =
     [CTRL_MSG_PING, CTRL_MSG_ACK, CTRL_MSG_NCK, CTRL_MSG_ACCEPT, CTRL_MSG_SOFT_RESET,
      CTRL_MSG_POWER_READY, CTRL_MSG_GET_OUTPUT_CAPABILITIES, CTRL_MSG_GET_SOURCE_INFO,
      CTRL_MSG_GET_SINK_INFO, CTRL_MSG_GET_CABLE_INFO, CTRL_MSG_GET_DEVICE_INFO,
      CTRL_MSG_GET_ERROR_INFO, CTRL_MSG_DETECT_CABLE_INFO, CTRL_MSG_START_CABLE_DETECT,
      CTRL_MSG_END_CABLE_DETECT, CTRL_MSG_EXIT_UFCS_MODE]"

definition ctrl_msg_of :: "u8 \<Rightarrow> ufcs_ctrl_msg_type option" where
  "ctrl_msg_of c = find (\<lambda>m. ctrl_code m = c) ctrl_msgs"

datatype ufcs_data_msg_type =
    DATA_MSG_OUTPUT_CAPABILITIES | DATA_MSG_REQUEST | DATA_MSG_SOURCE_INFO | DATA_MSG_SINK_INFO
  | DATA_MSG_CABLE_INFO | DATA_MSG_DEVICE_INFO | DATA_MSG_ERROR_INFO | DATA_MSG_CONFIG_WATCHDOG
  | DATA_MSG_REFUSE | DATA_MSG_VERIFY_REQUEST | DATA_MSG_VERIFY_RESPONSE | DATA_MSG_POWER_CHANGE
  | DATA_MSG_TEST_REQUEST

fun data_code :: "ufcs_data_msg_type \<Rightarrow> u8" where
  "data_code DATA_MSG_OUTPUT_CAPABILITIES = 1"
| "data_code DATA_MSG_REQUEST = 2"
| "data_code DATA_MSG_SOURCE_INFO = 3"
| "data_code DATA_MSG_SINK_INFO = 4"
| "data_code DATA_MSG_CABLE_INFO = 5"
| "data_code DATA_MSG_DEVICE_INFO = 6"
| "data_code DATA_MSG_ERROR_INFO = 7"
| "data_code DATA_MSG_CONFIG_WATCHDOG = 8"
| "data_code DATA_MSG_REFUSE = 9"
| "data_code DATA_MSG_VERIFY_REQUEST = 10"
| "data_code DATA_MSG_VERIFY_RESPONSE = 11"
| "data_code DATA_MSG_POWER_CHANGE = 12"
| "data_code DATA_MSG_TEST_REQUEST = 0xff"

definition data_msgs :: "ufcs_data_msg_type list" where
  "data_msgs =
     [DATA_MSG_OUTPUT_CAPABILITIES, DATA_MSG_REQUEST, DATA_MSG_SOURCE_INFO, DATA_MSG_SINK_INFO,
      DATA_MSG_CABLE_INFO, DATA_MSG_DEVICE_INFO, DATA_MSG_ERROR_INFO, DATA_MSG_CONFIG_WATCHDOG,
      DATA_MSG_REFUSE, DATA_MSG_VERIFY_REQUEST, DATA_MSG_VERIFY_RESPONSE, DATA_MSG_POWER_CHANGE,
      DATA_MSG_TEST_REQUEST]"

definition data_msg_of :: "u8 \<Rightarrow> ufcs_data_msg_type option" where
  "data_msg_of c = find (\<lambda>m. data_code m = c) data_msgs"

datatype ufcs_oplus_vnd_msg_type =
    OPLUS_MSG_GET_EMARK_INFO | OPLUS_MSG_RESP_EMARK_INFO
  | OPLUS_MSG_GET_POWER_INFO_EXT | OPLUS_MSG_RESP_POWER_INFO_EXT

fun oplus_code :: "ufcs_oplus_vnd_msg_type \<Rightarrow> u8" where
  "oplus_code OPLUS_MSG_GET_EMARK_INFO = 1"
| "oplus_code OPLUS_MSG_RESP_EMARK_INFO = 2"
| "oplus_code OPLUS_MSG_GET_POWER_INFO_EXT = 3"
| "oplus_code OPLUS_MSG_RESP_POWER_INFO_EXT = 4"

definition oplus_msgs :: "ufcs_oplus_vnd_msg_type list" where
  "oplus_msgs =
     [OPLUS_MSG_GET_EMARK_INFO, OPLUS_MSG_RESP_EMARK_INFO,
      OPLUS_MSG_GET_POWER_INFO_EXT, OPLUS_MSG_RESP_POWER_INFO_EXT]"

definition oplus_msg_of :: "u8 \<Rightarrow> ufcs_oplus_vnd_msg_type option" where
  "oplus_msg_of c = find (\<lambda>m. oplus_code m = c) oplus_msgs"

datatype ufcs_refuse_reason =
    REFUSE_UNKNOWN_CMD | REFUSE_NOT_SUPPORT_CMD | REFUSE_DEVICE_BUSY | REFUSE_OUT_OF_RANGE
  | REFUSE_OTHER

fun refuse_code :: "ufcs_refuse_reason \<Rightarrow> u32" where
  "refuse_code REFUSE_UNKNOWN_CMD = 1"
| "refuse_code REFUSE_NOT_SUPPORT_CMD = 2"
| "refuse_code REFUSE_DEVICE_BUSY = 3"
| "refuse_code REFUSE_OUT_OF_RANGE = 4"
| "refuse_code REFUSE_OTHER = 5"

text \<open>Decoding inverts the codes.\<close>

lemma msg_type_of_code [simp]: "msg_type_of (msg_type_code t) = Some t"
  by (cases t) (simp_all add: msg_type_of_def)

lemma ctrl_msg_of_code [simp]: "ctrl_msg_of (ctrl_code m) = Some m"
  by (cases m) (simp_all add: ctrl_msg_of_def ctrl_msgs_def)

lemma data_msg_of_code [simp]: "data_msg_of (data_code m) = Some m"
  by (cases m) (simp_all add: data_msg_of_def data_msgs_def)

lemma oplus_msg_of_code [simp]: "oplus_msg_of (oplus_code m) = Some m"
  by (cases m) (simp_all add: oplus_msg_of_def oplus_msgs_def)

lemma ctrl_msg_of_Some: "ctrl_msg_of c = Some m \<longleftrightarrow> c = ctrl_code m"
  using ctrl_msg_of_code [of m] by (auto simp: ctrl_msg_of_def find_Some_iff)

lemma data_msg_of_Some: "data_msg_of c = Some m \<longleftrightarrow> c = data_code m"
  using data_msg_of_code [of m] by (auto simp: data_msg_of_def find_Some_iff)

lemma msg_type_of_Some: "msg_type_of c = Some t \<longleftrightarrow> c = msg_type_code t"
  using msg_type_of_code [of t] by (cases t) (auto simp: msg_type_of_def split: if_splits)

lemma ctrl_code_inj [simp]: "ctrl_code m = ctrl_code n \<longleftrightarrow> m = n"
  by (metis ctrl_msg_of_Some option.inject)

lemma data_code_inj [simp]: "data_code m = data_code n \<longleftrightarrow> m = n"
  by (metis data_msg_of_Some option.inject)

section \<open>Sizes and structures\<close>

definition UFCS_MSG_SIZE_MAX :: nat where "UFCS_MSG_SIZE_MAX = 64"
definition UFCS_DATA_MSG_DATA_SIZE_MAX :: nat where "UFCS_DATA_MSG_DATA_SIZE_MAX = 59"
definition UFCS_VENDOR_MSG_DATA_SIZE_MAX :: nat where "UFCS_VENDOR_MSG_DATA_SIZE_MAX = 58"
definition UFCS_OUTPUT_MODE_MAX :: nat where "UFCS_OUTPUT_MODE_MAX = 7"
definition UFCS_OPLUS_VND_POWER_INFO_MAX :: nat where "UFCS_OPLUS_VND_POWER_INFO_MAX = 7"
definition UFCS_VERIFY_RANDOM_DATA_SIZE :: nat where "UFCS_VERIFY_RANDOM_DATA_SIZE = 16"
definition UFCS_VERIFY_ENCRYPTED_DATA_SIZE :: nat where "UFCS_VERIFY_ENCRYPTED_DATA_SIZE = 32"
definition UFCS_VERIFY_AUTH_DATA_SIZE :: nat where "UFCS_VERIFY_AUTH_DATA_SIZE = 16"
definition MSG_RETRY_COUNT_MAX :: u8 where "MSG_RETRY_COUNT_MAX = 3"
definition MSG_NUMBER_COUNT_MAX :: u8 where "MSG_NUMBER_COUNT_MAX = 15"

lemmas msg_sizes =
  UFCS_MSG_SIZE_MAX_def UFCS_DATA_MSG_DATA_SIZE_MAX_def UFCS_VENDOR_MSG_DATA_SIZE_MAX_def
  UFCS_OUTPUT_MODE_MAX_def UFCS_OPLUS_VND_POWER_INFO_MAX_def UFCS_VERIFY_RANDOM_DATA_SIZE_def
  UFCS_VERIFY_ENCRYPTED_DATA_SIZE_def UFCS_VERIFY_AUTH_DATA_SIZE_def

record ufcs_msg_head =
  head_type :: u8
  head_version :: u8
  head_index :: u8
  head_addr :: u8

text \<open>The payload unions are kept as the byte arrays they overlay; the accessors below read the
  member a message type selects, at the offset and in the byte order of the packed struct on a
  little-endian CPU.\<close>

record ufcs_data_msg =
  dm_command :: u8
  dm_length :: u8
  dm_data :: bytes

record ufcs_vendor_msg =
  vm_vnd_id :: u16
  vm_length :: u8
  vm_data :: bytes

text \<open>The three members of the union of \<^verbatim>\<open>struct ufcs_msg\<close> are kept side by side: the code
  reads only the member that \<^verbatim>\<open>head.type\<close> selects. The constant \<^verbatim>\<open>magic\<close> is never read.\<close>

record ufcs_msg =
  msg_head :: ufcs_msg_head
  ctrl_command :: u8
  data_msg :: ufcs_data_msg
  vendor_msg :: ufcs_vendor_msg
  msg_crc :: u8
  msg_crc_good :: bool

definition zero_msg :: ufcs_msg where
  "zero_msg = \<lparr>msg_head = \<lparr>head_type = 0, head_version = 0, head_index = 0, head_addr = 0\<rparr>,
     ctrl_command = 0,
     data_msg = \<lparr>dm_command = 0, dm_length = 0, dm_data = replicate 59 0\<rparr>,
     vendor_msg = \<lparr>vm_vnd_id = 0, vm_length = 0, vm_data = replicate 58 0\<rparr>,
     msg_crc = 0, msg_crc_good = False\<rparr>"

text \<open>Reading \<^verbatim>\<open>output_cap.output_mode[i]\<close>, the single 64-bit information words, the 32- and
  16-bit payloads, \<^verbatim>\<open>power_change.data[i]\<close>, the verification arrays, and, one byte further,
  the members of \<^verbatim>\<open>vnd_msg\<close>.\<close>

definition dm_u64 :: "ufcs_data_msg \<Rightarrow> nat \<Rightarrow> u64" where
  "dm_u64 d i = le_word (get_bytes (8 * i) 8 (dm_data d))"

definition dm_u32 :: "ufcs_data_msg \<Rightarrow> nat \<Rightarrow> u32" where
  "dm_u32 d i = le_word (get_bytes (4 * i) 4 (dm_data d))"

definition dm_u16 :: "ufcs_data_msg \<Rightarrow> u16" where
  "dm_u16 d = le_word (get_bytes 0 2 (dm_data d))"

definition vr_encrypted_data :: "ufcs_data_msg \<Rightarrow> bytes" where
  "vr_encrypted_data d = get_bytes 0 32 (dm_data d)"

definition vr_random_data :: "ufcs_data_msg \<Rightarrow> bytes" where
  "vr_random_data d = get_bytes 32 16 (dm_data d)"

definition vm_type :: "ufcs_vendor_msg \<Rightarrow> u8" where
  "vm_type v = vm_data v ! 0"

definition vm_u64 :: "ufcs_vendor_msg \<Rightarrow> nat \<Rightarrow> u64" where
  "vm_u64 v i = le_word (get_bytes (1 + 8 * i) 8 (vm_data v))"

section \<open>Bit-field macros\<close>

definition UFCS_OUTPUT_MODE_INDEX :: "u64 \<Rightarrow> u64" where
  "UFCS_OUTPUT_MODE_INDEX mode = drop_bit 60 mode AND 0xf"
definition UFCS_OUTPUT_MODE_CURR_STEP :: "u64 \<Rightarrow> u64" where
  "UFCS_OUTPUT_MODE_CURR_STEP mode = ((drop_bit 57 mode AND 0x7) + 1) * 10"
definition UFCS_OUTPUT_MODE_VOL_STEP :: "u64 \<Rightarrow> u64" where
  "UFCS_OUTPUT_MODE_VOL_STEP mode = ((drop_bit 56 mode AND 0x1) + 1) * 10"
definition UFCS_OUTPUT_MODE_VOL_MAX :: "u64 \<Rightarrow> u64" where
  "UFCS_OUTPUT_MODE_VOL_MAX mode = (drop_bit 40 mode AND 0xffff) * 10"
definition UFCS_OUTPUT_MODE_VOL_MIN :: "u64 \<Rightarrow> u64" where
  "UFCS_OUTPUT_MODE_VOL_MIN mode = (drop_bit 24 mode AND 0xffff) * 10"
definition UFCS_OUTPUT_MODE_CURR_MAX :: "u64 \<Rightarrow> u64" where
  "UFCS_OUTPUT_MODE_CURR_MAX mode = (drop_bit 8 mode AND 0xffff) * 10"
definition UFCS_OUTPUT_MODE_CURR_MIN :: "u64 \<Rightarrow> u64" where
  "UFCS_OUTPUT_MODE_CURR_MIN mode = (mode AND 0xff) * 10"

definition UFCS_OUTPUT_MODE_DATA ::
  "u64 \<Rightarrow> u64 \<Rightarrow> u64 \<Rightarrow> u64 \<Rightarrow> u64 \<Rightarrow> u64 \<Rightarrow> u64 \<Rightarrow> u64" where
  "UFCS_OUTPUT_MODE_DATA index curr_step vol_step vol_max vol_min curr_max curr_min =
     push_bit 60 (index AND 0xf) OR push_bit 57 ((curr_step div 10 - 1) AND 0x7) OR
     push_bit 56 ((vol_step div 10 - 1) AND 0x1) OR push_bit 40 ((vol_max div 10) AND 0xffff) OR
     push_bit 24 ((vol_min div 10) AND 0xffff) OR push_bit 8 ((curr_max div 10) AND 0xffff) OR
     ((curr_min div 10) AND 0xff)"

definition UFCS_REQUEST_OUTPUT_MODE_INDEX :: "u64 \<Rightarrow> u64" where
  "UFCS_REQUEST_OUTPUT_MODE_INDEX req = drop_bit 60 req AND 0xf"
definition UFCS_REQUEST_VOL :: "u64 \<Rightarrow> u64" where
  "UFCS_REQUEST_VOL req = (drop_bit 16 req AND 0xffff) * 10"
definition UFCS_REQUEST_CURR :: "u64 \<Rightarrow> u64" where
  "UFCS_REQUEST_CURR req = (req AND 0xffff) * 10"
definition UFCS_REQUEST_DATA :: "u64 \<Rightarrow> u64 \<Rightarrow> u64 \<Rightarrow> u64" where
  "UFCS_REQUEST_DATA index vol cur =
     push_bit 60 (index AND 0xf) OR push_bit 16 ((vol div 10) AND 0xffff) OR
     ((cur div 10) AND 0xffff)"

text \<open>\<^verbatim>\<open>UFCS_SINK_INFO_DATA\<close>: the temperatures are C \<^verbatim>\<open>int\<close>s, converted to \<^verbatim>\<open>u64\<close>
  after the offset of 50 is added, voltage and current are converted before the division.\<close>

definition UFCS_SINK_INFO_DATA :: "int \<Rightarrow> int \<Rightarrow> int \<Rightarrow> int \<Rightarrow> u64" where
  "UFCS_SINK_INFO_DATA batt_temp usb_temp vol cur =
     push_bit 40 (word_of_int (batt_temp + 50) AND 0xff) OR
     push_bit 32 (word_of_int (usb_temp + 50) AND 0xff) OR
     push_bit 16 ((word_of_int vol div 10) AND 0xffff) OR
     ((word_of_int cur div 10) AND 0xffff)"
definition UFCS_SINK_INFO_TEMP :: "u64 \<Rightarrow> int" where
  "UFCS_SINK_INFO_TEMP info = uint (drop_bit 40 info AND 0xff) - 50"
definition UFCS_SINK_INFO_USB_TEMP :: "u64 \<Rightarrow> int" where
  "UFCS_SINK_INFO_USB_TEMP info = uint (drop_bit 32 info AND 0xff) - 50"
definition UFCS_SINK_INFO_VOL :: "u64 \<Rightarrow> u64" where
  "UFCS_SINK_INFO_VOL info = (drop_bit 16 info AND 0xffff) * 10"
definition UFCS_SINK_INFO_CURR :: "u64 \<Rightarrow> u64" where
  "UFCS_SINK_INFO_CURR info = (info AND 0xffff) * 10"
definition UFCS_SINK_INFO_INVALID_TEMP :: int where
  "UFCS_SINK_INFO_INVALID_TEMP = - 50"

definition UFCS_DEVICE_INFO_DEV_VENDOR :: "u64 \<Rightarrow> u64" where
  "UFCS_DEVICE_INFO_DEV_VENDOR info = drop_bit 48 info AND 0xffff"
definition UFCS_DEVICE_INFO_IC_VENDOR :: "u64 \<Rightarrow> u64" where
  "UFCS_DEVICE_INFO_IC_VENDOR info = drop_bit 32 info AND 0xffff"
definition UFCS_DEVICE_INFO_HW_VER :: "u64 \<Rightarrow> u64" where
  "UFCS_DEVICE_INFO_HW_VER info = drop_bit 16 info AND 0xffff"
definition UFCS_DEVICE_INFO_SW_VER :: "u64 \<Rightarrow> u64" where
  "UFCS_DEVICE_INFO_SW_VER info = info AND 0xffff"
definition UFCS_DEVICE_INFO_DATA :: "u64 \<Rightarrow> u64 \<Rightarrow> u64 \<Rightarrow> u64 \<Rightarrow> u64" where
  "UFCS_DEVICE_INFO_DATA dev_vnd ic_vnd hw_ver sw_ver =
     push_bit 48 (dev_vnd AND 0xffff) OR push_bit 32 (ic_vnd AND 0xffff) OR
     push_bit 16 (hw_ver AND 0xffff) OR (sw_ver AND 0xffff)"

definition UFCS_CABLE_INFO_IMP :: "u64 \<Rightarrow> u64" where
  "UFCS_CABLE_INFO_IMP info = drop_bit 16 info AND 0xffff"
definition UFCS_CABLE_INFO_VOL_MAX :: "u64 \<Rightarrow> u64" where
  "UFCS_CABLE_INFO_VOL_MAX info = (drop_bit 8 info AND 0xff) * 1000"
definition UFCS_CABLE_INFO_CURR_MAX :: "u64 \<Rightarrow> u64" where
  "UFCS_CABLE_INFO_CURR_MAX info = (info AND 0xff) * 1000"
definition UFCS_CABLE_INFO_DATA :: "u64 \<Rightarrow> u64 \<Rightarrow> u64 \<Rightarrow> u64" where
  "UFCS_CABLE_INFO_DATA imp vol_max curr_max =
     push_bit 16 (imp AND 0xffff) OR push_bit 8 ((vol_max div 1000) AND 0xff) OR
     ((curr_max div 1000) AND 0xff)"

definition UFCS_REFUSE_INFO_MSG_INDEX :: "u32 \<Rightarrow> u32" where
  "UFCS_REFUSE_INFO_MSG_INDEX d = drop_bit 24 d AND 0xf"
definition UFCS_REFUSE_INFO_MSG_TYPE :: "u32 \<Rightarrow> u32" where
  "UFCS_REFUSE_INFO_MSG_TYPE d = drop_bit 16 d AND 0x7"
definition UFCS_REFUSE_INFO_MSG_CMD :: "u32 \<Rightarrow> u32" where
  "UFCS_REFUSE_INFO_MSG_CMD d = drop_bit 8 d AND 0xf"
definition UFCS_REFUSE_INFO_REASON :: "u32 \<Rightarrow> u32" where
  "UFCS_REFUSE_INFO_REASON d = d AND 0xf"
definition UFCS_REFUSE_INFO_DATA :: "u32 \<Rightarrow> u32 \<Rightarrow> u32 \<Rightarrow> u32 \<Rightarrow> u32" where
  "UFCS_REFUSE_INFO_DATA msg_index msg_type msg_cmd reason =
     push_bit 24 (msg_index AND 0xf) OR push_bit 16 (msg_type AND 0x7) OR
     push_bit 8 (msg_cmd AND 0xf) OR (reason AND 0xf)"

definition UFCS_POWER_CHANGE_INDEX :: "u32 \<Rightarrow> u32" where
  "UFCS_POWER_CHANGE_INDEX d = drop_bit 20 d AND 0xf"
definition UFCS_POWER_CHANGE_CURR_MAX :: "u32 \<Rightarrow> u32" where
  "UFCS_POWER_CHANGE_CURR_MAX d = (d AND 0xffff) * 10"
definition UFCS_POWER_CHANGE_DATA :: "u32 \<Rightarrow> u32 \<Rightarrow> u32" where
  "UFCS_POWER_CHANGE_DATA index curr_max =
     push_bit 20 (index AND 0xf) OR (curr_max AND 0xffff)"

definition UFCS_TEST_REQUEST_ENABLE_TEST_MODE :: "u16 \<Rightarrow> u16" where
  "UFCS_TEST_REQUEST_ENABLE_TEST_MODE d = drop_bit 15 d AND 0x1"
definition UFCS_TEST_REQUEST_ENABLE_VOL_ACC_TEST_MODE :: "u16 \<Rightarrow> u16" where
  "UFCS_TEST_REQUEST_ENABLE_VOL_ACC_TEST_MODE d = drop_bit 14 d AND 0x1"
definition UFCS_TEST_REQUEST_DEV_ADDR :: "u16 \<Rightarrow> u16" where
  "UFCS_TEST_REQUEST_DEV_ADDR d = drop_bit 11 d AND 0x7"
definition UFCS_TEST_REQUEST_MSG_TYPE :: "u16 \<Rightarrow> u16" where
  "UFCS_TEST_REQUEST_MSG_TYPE d = drop_bit 8 d AND 0x7"
definition UFCS_TEST_REQUEST_MSG_CMD :: "u16 \<Rightarrow> u16" where
  "UFCS_TEST_REQUEST_MSG_CMD d = d AND 0xf"
definition UFCS_TEST_REQUEST_DATA :: "u16 \<Rightarrow> u16 \<Rightarrow> u16 \<Rightarrow> u16 \<Rightarrow> u16 \<Rightarrow> u16" where
  "UFCS_TEST_REQUEST_DATA test_mode vol_acc_test_mode dev_addr msg_type msg_cmd =
     push_bit 15 (test_mode AND 0x1) OR push_bit 14 (vol_acc_test_mode AND 0x1) OR
     push_bit 11 (dev_addr AND 0x7) OR push_bit 8 (msg_type AND 0x7) OR (msg_cmd AND 0xf)"
definition UFCS_IS_TEST_CTRL_MSG :: "u16 \<Rightarrow> bool" where
  "UFCS_IS_TEST_CTRL_MSG d \<longleftrightarrow> d AND 0x3fff = 0x3fff"

definition UFCS_OPLUS_VND_EMARK_INFO :: "u64 \<Rightarrow> u64" where
  "UFCS_OPLUS_VND_EMARK_INFO d = drop_bit 40 d AND 0x3"
definition UFCS_OPLUS_VND_EMARK_HW_VER :: "u64 \<Rightarrow> u64" where
  "UFCS_OPLUS_VND_EMARK_HW_VER d = drop_bit 32 d AND 0xff"
definition UFCS_OPLUS_VND_EMARK_VOL_MAX :: "u64 \<Rightarrow> u64" where
  "UFCS_OPLUS_VND_EMARK_VOL_MAX d = (drop_bit 16 d AND 0xffff) * 10"
definition UFCS_OPLUS_VND_EMARK_CURR_MAX :: "u64 \<Rightarrow> u64" where
  "UFCS_OPLUS_VND_EMARK_CURR_MAX d = (d AND 0xffff) * 10"
definition UFCS_OPLUS_VND_EMARK_DATA :: "u64 \<Rightarrow> u64 \<Rightarrow> u64 \<Rightarrow> u64 \<Rightarrow> u64" where
  "UFCS_OPLUS_VND_EMARK_DATA info hw_ver vol_max curr_max =
     push_bit 40 (info AND 0x3) OR push_bit 32 (hw_ver AND 0xff) OR
     push_bit 16 ((vol_max div 10) AND 0xffff) OR ((curr_max div 10) AND 0xffff)"

end
