(* ===== verification/Ufcs_Fields.thy ===== *)
theory Ufcs_Fields
  imports Ufcs_Msg
begin

unbundle bit_operations_syntax

text \<open>
  The bit-field macros of \<^verbatim>\<open>ufcs_msg.h\<close> as encoders and decoders. A locale states what a
  pair of macros has to promise (decoding what was encoded gives the value back, on a stated
  range of values), derives that encoding is injective there, and is interpreted on the macro
  pairs of the power request, the output mode, the device information, the cable information,
  the refusal word and the sink information. The pair for the power change is the one that
  does not satisfy it.
\<close>

section \<open>The contract of an encoder and its decoder\<close>

locale wire_codec =
  fixes enc :: "'a \<Rightarrow> 'w" and dec :: "'w \<Rightarrow> 'a" and wf :: "'a \<Rightarrow> bool"
  assumes dec_enc: "wf x \<Longrightarrow> dec (enc x) = x"
begin

lemma enc_inj: "wf x \<Longrightarrow> wf y \<Longrightarrow> enc x = enc y \<Longrightarrow> x = y"
  by (metis dec_enc)

lemma enc_eq_iff: "wf x \<Longrightarrow> wf y \<Longrightarrow> enc x = enc y \<longleftrightarrow> x = y"
  using enc_inj by blast

end

section \<open>Reading one field of a packed word\<close>

named_theorems bit_field \<open>a field of a word built with shifts and disjunctions\<close>

lemma and_lit [bit_field]:
  "w AND 0x1 = take_bit 1 w" "w AND 0x3 = take_bit 2 w" "w AND 0x7 = take_bit 3 w"
  "w AND 0xf = take_bit 4 w" "w AND 0xff = take_bit 8 w" "w AND 0xffff = take_bit 16 w"
  for w :: "'a::len word"
  by (simp_all add: take_bit_eq_mask mask_eq_exp_minus_1)

lemma field_hit [bit_field]:
  fixes a :: "'a::len word"
  assumes "k + n \<le> LENGTH('a)"
  shows "take_bit n (drop_bit k (push_bit k (take_bit n a))) = take_bit n a"
  using assms by (auto simp: bit_eq_iff bit_simps)

lemma field_above [bit_field]:
  fixes a :: "'a::len word"
  shows "k + n \<le> j \<Longrightarrow> take_bit n (drop_bit k (push_bit j a)) = 0"
  by (auto simp: bit_eq_iff bit_simps)

lemma field_above_0 [bit_field]:
  fixes a :: "'a::len word"
  shows "n \<le> j \<Longrightarrow> take_bit n (push_bit j a) = 0"
  by (auto simp: bit_eq_iff bit_simps)

lemma field_below [bit_field]:
  fixes a :: "'a::len word"
  shows "j + m \<le> k \<Longrightarrow> drop_bit k (push_bit j (take_bit m a)) = 0"
  by (auto simp: bit_eq_iff bit_simps)

lemma field_below_0 [bit_field]:
  fixes a :: "'a::len word"
  shows "m \<le> k \<Longrightarrow> drop_bit k (take_bit m a) = 0"
  by (auto simp: bit_eq_iff bit_simps)

text \<open>From words to the numbers of the interface: in range nothing wraps.\<close>

lemma take_bit_of_nat_small:
  "n < 2 ^ k \<Longrightarrow> take_bit k (of_nat n :: 'a::len word) = of_nat n"
  by (simp add: take_bit_of_nat take_bit_nat_eq_self)

lemma of_nat_div_of_nat:
  assumes "n < 2 ^ LENGTH('a::len)" and "m < 2 ^ LENGTH('a)"
  shows "(of_nat n :: 'a word) div of_nat m = of_nat (n div m)"
  using assms
  by (simp add: word_unat_eq_iff unat_div unat_of_nat take_bit_nat_eq_self_iff
      le_less_trans [OF div_le_dividend])

lemma unat_of_nat_small: "n < 2 ^ LENGTH('a::len) \<Longrightarrow> unat (of_nat n :: 'a word) = n"
  by (simp add: unat_of_nat take_bit_nat_eq_self)

lemma scale_field:
  assumes "d dvd n" and "n div d < 2 ^ k" and "n < 2 ^ LENGTH('a::len)" and "0 < d"
  shows "unat (take_bit k ((of_nat n :: 'a word) div of_nat d) * of_nat d) = n"
proof -
  have "d \<le> n \<or> n = 0" using assms(1) by (auto intro: dvd_imp_le)
  then have d: "n = 0 \<or> d < 2 ^ LENGTH('a)" using assms(3) by linarith
  show ?thesis
  proof (cases "n = 0")
    case False
    with d have "(of_nat n :: 'a word) div of_nat d = of_nat (n div d)"
      using assms(3) by (simp add: of_nat_div_of_nat)
    then have "take_bit k ((of_nat n :: 'a word) div of_nat d) * of_nat d = of_nat (n div d * d)"
      using assms(2) by (simp add: take_bit_of_nat_small)
    then show ?thesis using assms(1,3) by (simp add: unat_of_nat_small)
  qed simp
qed

lemma scale_field_10:
  "10 dvd n \<Longrightarrow> n div 10 < 2 ^ k \<Longrightarrow> n < 2 ^ LENGTH('a::len) \<Longrightarrow>
   unat (take_bit k ((of_nat n :: 'a word) div 10) * 10) = n"
  using scale_field [of 10 n k, where 'a = 'a] by simp

lemma scale_field_1000:
  "1000 dvd n \<Longrightarrow> n div 1000 < 2 ^ k \<Longrightarrow> n < 2 ^ LENGTH('a::len) \<Longrightarrow>
   unat (take_bit k ((of_nat n :: 'a word) div 1000) * 1000) = n"
  using scale_field [of 1000 n k, where 'a = 'a] by simp

lemma scale_field_u64:
  "10 dvd n \<Longrightarrow> n \<le> 655350 \<Longrightarrow> unat (take_bit 16 ((of_nat n :: u64) div 10) * 10) = n"
  "10 dvd n \<Longrightarrow> n \<le> 2550 \<Longrightarrow> unat (take_bit 8 ((of_nat n :: u64) div 10) * 10) = n"
  by (rule scale_field_10; simp)+

section \<open>The power request\<close>

text \<open>\<^verbatim>\<open>UFCS_REQUEST_DATA(index, vol, curr)\<close> in millivolt and milliampere.\<close>

definition request_enc :: "nat \<times> nat \<times> nat \<Rightarrow> u64" where
  "request_enc = (\<lambda>(index, vol, cur). UFCS_REQUEST_DATA (of_nat index) (of_nat vol) (of_nat cur))"

definition request_dec :: "u64 \<Rightarrow> nat \<times> nat \<times> nat" where
  "request_dec req = (unat (UFCS_REQUEST_OUTPUT_MODE_INDEX req), unat (UFCS_REQUEST_VOL req),
     unat (UFCS_REQUEST_CURR req))"

definition request_wf :: "nat \<times> nat \<times> nat \<Rightarrow> bool" where
  "request_wf = (\<lambda>(index, vol, cur). index < 16 \<and> 10 dvd vol \<and> vol \<le> 655350 \<and>
     10 dvd cur \<and> cur \<le> 655350)"

lemma request_fields:
  "UFCS_REQUEST_OUTPUT_MODE_INDEX (UFCS_REQUEST_DATA i v c) = take_bit 4 i"
  "UFCS_REQUEST_VOL (UFCS_REQUEST_DATA i v c) = take_bit 16 (v div 10) * 10"
  "UFCS_REQUEST_CURR (UFCS_REQUEST_DATA i v c) = take_bit 16 (c div 10) * 10"
  by (simp_all add: UFCS_REQUEST_OUTPUT_MODE_INDEX_def UFCS_REQUEST_VOL_def UFCS_REQUEST_CURR_def
      UFCS_REQUEST_DATA_def bit_field)

interpretation request: wire_codec request_enc request_dec request_wf
proof unfold_locales
  fix x assume "request_wf x"
  then show "request_dec (request_enc x) = x"
    by (cases x) (auto simp: request_wf_def request_enc_def request_dec_def request_fields
        take_bit_of_nat_small unat_of_nat_small scale_field_u64)
qed

section \<open>The output mode (a power data object)\<close>

record output_mode =
  om_index :: nat
  om_curr_step :: nat
  om_vol_step :: nat
  om_vol_max :: nat
  om_vol_min :: nat
  om_curr_max :: nat
  om_curr_min :: nat

definition output_mode_enc :: "output_mode \<Rightarrow> u64" where
  "output_mode_enc m = UFCS_OUTPUT_MODE_DATA (of_nat (om_index m)) (of_nat (om_curr_step m))
     (of_nat (om_vol_step m)) (of_nat (om_vol_max m)) (of_nat (om_vol_min m))
     (of_nat (om_curr_max m)) (of_nat (om_curr_min m))"

definition output_mode_dec :: "u64 \<Rightarrow> output_mode" where
  "output_mode_dec w = \<lparr>om_index = unat (UFCS_OUTPUT_MODE_INDEX w),
     om_curr_step = unat (UFCS_OUTPUT_MODE_CURR_STEP w),
     om_vol_step = unat (UFCS_OUTPUT_MODE_VOL_STEP w),
     om_vol_max = unat (UFCS_OUTPUT_MODE_VOL_MAX w),
     om_vol_min = unat (UFCS_OUTPUT_MODE_VOL_MIN w),
     om_curr_max = unat (UFCS_OUTPUT_MODE_CURR_MAX w),
     om_curr_min = unat (UFCS_OUTPUT_MODE_CURR_MIN w)\<rparr>"

definition output_mode_wf :: "output_mode \<Rightarrow> bool" where
  "output_mode_wf m \<longleftrightarrow> om_index m < 16 \<and>
     om_curr_step m \<in> {10, 20, 30, 40, 50, 60, 70, 80} \<and> om_vol_step m \<in> {10, 20} \<and>
     10 dvd om_vol_max m \<and> om_vol_max m \<le> 655350 \<and> 10 dvd om_vol_min m \<and> om_vol_min m \<le> 655350 \<and>
     10 dvd om_curr_max m \<and> om_curr_max m \<le> 655350 \<and> 10 dvd om_curr_min m \<and> om_curr_min m \<le> 2550"

lemma output_mode_fields:
  fixes i cs vs vx vn cx cn :: u64
  defines "w \<equiv> UFCS_OUTPUT_MODE_DATA i cs vs vx vn cx cn"
  shows "UFCS_OUTPUT_MODE_INDEX w = take_bit 4 i"
    and "UFCS_OUTPUT_MODE_CURR_STEP w = (take_bit 3 (cs div 10 - 1) + 1) * 10"
    and "UFCS_OUTPUT_MODE_VOL_STEP w = (take_bit 1 (vs div 10 - 1) + 1) * 10"
    and "UFCS_OUTPUT_MODE_VOL_MAX w = take_bit 16 (vx div 10) * 10"
    and "UFCS_OUTPUT_MODE_VOL_MIN w = take_bit 16 (vn div 10) * 10"
    and "UFCS_OUTPUT_MODE_CURR_MAX w = take_bit 16 (cx div 10) * 10"
    and "UFCS_OUTPUT_MODE_CURR_MIN w = take_bit 8 (cn div 10) * 10"
  unfolding w_def UFCS_OUTPUT_MODE_INDEX_def UFCS_OUTPUT_MODE_CURR_STEP_def
    UFCS_OUTPUT_MODE_VOL_STEP_def UFCS_OUTPUT_MODE_VOL_MAX_def UFCS_OUTPUT_MODE_VOL_MIN_def
    UFCS_OUTPUT_MODE_CURR_MAX_def UFCS_OUTPUT_MODE_CURR_MIN_def UFCS_OUTPUT_MODE_DATA_def
  by (simp_all add: bit_field del: and_one_eq One_nat_def take_bit_Suc_0 take_bit_of_1)

lemma curr_step_field:
  "n \<in> {10, 20, 30, 40, 50, 60, 70, 80} \<Longrightarrow>
   unat ((take_bit 3 ((of_nat n :: u64) div 10 - 1) + 1) * 10) = n" for n :: nat
  by auto

lemma vol_step_field:
  "n \<in> {10, 20} \<Longrightarrow> unat ((take_bit 1 ((of_nat n :: u64) div 10 - 1) + 1) * 10) = n" for n :: nat
  by auto

interpretation output_mode: wire_codec output_mode_enc output_mode_dec output_mode_wf
proof unfold_locales
  fix m assume m: "output_mode_wf m"
  then have "om_curr_step m \<in> {10, 20, 30, 40, 50, 60, 70, 80}" and "om_vol_step m \<in> {10, 20}"
    by (simp_all add: output_mode_wf_def)
  then have "om_curr_step (output_mode_dec (output_mode_enc m)) = om_curr_step m"
    and "om_vol_step (output_mode_dec (output_mode_enc m)) = om_vol_step m"
    by (simp_all only: output_mode_dec_def output_mode_enc_def output_mode.select_convs
        output_mode_fields curr_step_field vol_step_field)
  with m show "output_mode_dec (output_mode_enc m) = m"
    by (intro output_mode.equality)
      (simp_all add: output_mode_wf_def output_mode_enc_def output_mode_dec_def output_mode_fields
        take_bit_of_nat_small unat_of_nat_small scale_field_u64)
qed

section \<open>Device information, cable information, refusals\<close>

definition device_info_enc :: "nat \<times> nat \<times> nat \<times> nat \<Rightarrow> u64" where
  "device_info_enc = (\<lambda>(dev, ic, hw, sw).
     UFCS_DEVICE_INFO_DATA (of_nat dev) (of_nat ic) (of_nat hw) (of_nat sw))"

definition device_info_dec :: "u64 \<Rightarrow> nat \<times> nat \<times> nat \<times> nat" where
  "device_info_dec w = (unat (UFCS_DEVICE_INFO_DEV_VENDOR w), unat (UFCS_DEVICE_INFO_IC_VENDOR w),
     unat (UFCS_DEVICE_INFO_HW_VER w), unat (UFCS_DEVICE_INFO_SW_VER w))"

lemma device_info_fields:
  fixes a b c d :: u64
  shows "UFCS_DEVICE_INFO_DEV_VENDOR (UFCS_DEVICE_INFO_DATA a b c d) = take_bit 16 a"
    and "UFCS_DEVICE_INFO_IC_VENDOR (UFCS_DEVICE_INFO_DATA a b c d) = take_bit 16 b"
    and "UFCS_DEVICE_INFO_HW_VER (UFCS_DEVICE_INFO_DATA a b c d) = take_bit 16 c"
    and "UFCS_DEVICE_INFO_SW_VER (UFCS_DEVICE_INFO_DATA a b c d) = take_bit 16 d"
  by (simp_all add: UFCS_DEVICE_INFO_DATA_def UFCS_DEVICE_INFO_DEV_VENDOR_def
      UFCS_DEVICE_INFO_IC_VENDOR_def UFCS_DEVICE_INFO_HW_VER_def UFCS_DEVICE_INFO_SW_VER_def
      bit_field)

interpretation device_info: wire_codec device_info_enc device_info_dec
  "\<lambda>(dev, ic, hw, sw). dev < 2 ^ 16 \<and> ic < 2 ^ 16 \<and> hw < 2 ^ 16 \<and> sw < 2 ^ 16"
proof unfold_locales
  fix x :: "nat \<times> nat \<times> nat \<times> nat"
  assume "case x of (dev, ic, hw, sw) \<Rightarrow> dev < 2 ^ 16 \<and> ic < 2 ^ 16 \<and> hw < 2 ^ 16 \<and> sw < 2 ^ 16"
  then show "device_info_dec (device_info_enc x) = x"
    by (cases x) (auto simp: device_info_enc_def device_info_dec_def device_info_fields
        take_bit_of_nat_small unat_of_nat_small)
qed

definition cable_info_enc :: "nat \<times> nat \<times> nat \<Rightarrow> u64" where
  "cable_info_enc = (\<lambda>(imp, vol, cur). UFCS_CABLE_INFO_DATA (of_nat imp) (of_nat vol) (of_nat cur))"

definition cable_info_dec :: "u64 \<Rightarrow> nat \<times> nat \<times> nat" where
  "cable_info_dec w = (unat (UFCS_CABLE_INFO_IMP w), unat (UFCS_CABLE_INFO_VOL_MAX w),
     unat (UFCS_CABLE_INFO_CURR_MAX w))"

lemma cable_info_fields:
  fixes a b c :: u64
  shows "UFCS_CABLE_INFO_IMP (UFCS_CABLE_INFO_DATA a b c) = take_bit 16 a"
    and "UFCS_CABLE_INFO_VOL_MAX (UFCS_CABLE_INFO_DATA a b c) = take_bit 8 (b div 1000) * 1000"
    and "UFCS_CABLE_INFO_CURR_MAX (UFCS_CABLE_INFO_DATA a b c) = take_bit 8 (c div 1000) * 1000"
  by (simp_all add: UFCS_CABLE_INFO_DATA_def UFCS_CABLE_INFO_IMP_def UFCS_CABLE_INFO_VOL_MAX_def
      UFCS_CABLE_INFO_CURR_MAX_def bit_field)

interpretation cable_info: wire_codec cable_info_enc cable_info_dec
  "\<lambda>(imp, vol, cur). imp < 2 ^ 16 \<and> 1000 dvd vol \<and> vol \<le> 255000 \<and> 1000 dvd cur \<and> cur \<le> 255000"
proof unfold_locales
  fix x :: "nat \<times> nat \<times> nat"
  assume "case x of (imp, vol, cur) \<Rightarrow>
    imp < 2 ^ 16 \<and> 1000 dvd vol \<and> vol \<le> 255000 \<and> 1000 dvd cur \<and> cur \<le> 255000"
  then show "cable_info_dec (cable_info_enc x) = x"
    by (cases x) (auto simp: cable_info_enc_def cable_info_dec_def cable_info_fields
        take_bit_of_nat_small unat_of_nat_small scale_field_1000)
qed

definition refuse_enc :: "nat \<times> nat \<times> nat \<times> nat \<Rightarrow> u32" where
  "refuse_enc = (\<lambda>(index, ty, cmd, reason).
     UFCS_REFUSE_INFO_DATA (of_nat index) (of_nat ty) (of_nat cmd) (of_nat reason))"

definition refuse_dec :: "u32 \<Rightarrow> nat \<times> nat \<times> nat \<times> nat" where
  "refuse_dec w = (unat (UFCS_REFUSE_INFO_MSG_INDEX w), unat (UFCS_REFUSE_INFO_MSG_TYPE w),
     unat (UFCS_REFUSE_INFO_MSG_CMD w), unat (UFCS_REFUSE_INFO_REASON w))"

lemma refuse_fields:
  fixes a b c d :: u32
  shows "UFCS_REFUSE_INFO_MSG_INDEX (UFCS_REFUSE_INFO_DATA a b c d) = take_bit 4 a"
    and "UFCS_REFUSE_INFO_MSG_TYPE (UFCS_REFUSE_INFO_DATA a b c d) = take_bit 3 b"
    and "UFCS_REFUSE_INFO_MSG_CMD (UFCS_REFUSE_INFO_DATA a b c d) = take_bit 4 c"
    and "UFCS_REFUSE_INFO_REASON (UFCS_REFUSE_INFO_DATA a b c d) = take_bit 4 d"
  by (simp_all add: UFCS_REFUSE_INFO_DATA_def UFCS_REFUSE_INFO_MSG_INDEX_def
      UFCS_REFUSE_INFO_MSG_TYPE_def UFCS_REFUSE_INFO_MSG_CMD_def UFCS_REFUSE_INFO_REASON_def
      bit_field)

interpretation refuse: wire_codec refuse_enc refuse_dec
  "\<lambda>(index, ty, cmd, reason). index < 16 \<and> ty < 8 \<and> cmd < 16 \<and> reason < 16"
proof unfold_locales
  fix x :: "nat \<times> nat \<times> nat \<times> nat"
  assume "case x of (index, ty, cmd, reason) \<Rightarrow> index < 16 \<and> ty < 8 \<and> cmd < 16 \<and> reason < 16"
  then show "refuse_dec (refuse_enc x) = x"
    by (cases x) (auto simp: refuse_enc_def refuse_dec_def refuse_fields take_bit_of_nat_small
        unat_of_nat_small)
qed

end
