(* ===== verification/Ufcs_Codec.thy ===== *)
theory Ufcs_Codec
  imports Ufcs_Fields
begin

unbundle bit_operations_syntax

text \<open>
  Frames: the CRC, the conversion of payloads between wire and CPU byte order
  (\<^verbatim>\<open>ufcs_event_data.c\<close>, \<^verbatim>\<open>ufcs_event_vendor.c\<close>), and \<^verbatim>\<open>ufcs_pack_msg\<close> and
  \<^verbatim>\<open>ufcs_unpack_msg\<close> of \<^verbatim>\<open>ufcs_event.c\<close>. The CPU is little-endian, so
  \<^verbatim>\<open>be64_to_cpu\<close> and \<^verbatim>\<open>cpu_to_be64\<close> both reverse the eight bytes in place.
\<close>

section \<open>Configuration\<close>

record ufcs_config =
  check_crc :: bool
  reply_ack :: bool
  msg_resend :: bool
  handshake_hard_retry :: bool
  ic_vendor_id :: u16

section \<open>CRC-8 with polynomial \<open>X8 + X5 + X3 + 1\<close>\<close>

definition CRC_8_POLYNOMIAL :: u8 where
  "CRC_8_POLYNOMIAL = 0x29"

definition crc8_bit :: "u8 \<Rightarrow> u8" where
  "crc8_bit crc =
     (if crc AND 0x80 \<noteq> 0 then push_bit 1 crc XOR CRC_8_POLYNOMIAL else push_bit 1 crc)"

definition crc8_byte :: "u8 \<Rightarrow> u8 \<Rightarrow> u8" where
  "crc8_byte crc b = (crc8_bit ^^ 8) (crc XOR b)"

definition crc8_calculate :: "bytes \<Rightarrow> nat \<Rightarrow> u8" where
  "crc8_calculate buf sz = foldl crc8_byte 0 (take sz buf)"

section \<open>Payload byte order\<close>

definition ufcs_recv_data_msg_output_cap :: "ufcs_data_msg \<Rightarrow> ufcs_data_msg" where
  "ufcs_recv_data_msg_output_cap d =
     d\<lparr>dm_data := fold (\<lambda>i b. rev_bytes (8 * i) 8 b) [0..<UFCS_OUTPUT_MODE_MAX] (dm_data d)\<rparr>"

definition ufcs_recv_data_msg_request :: "ufcs_data_msg \<Rightarrow> ufcs_data_msg" where
  "ufcs_recv_data_msg_request d =
     d\<lparr>dm_data := rev_bytes 0 8 (dm_data d)\<rparr>"

definition ufcs_recv_data_msg_src_info :: "ufcs_data_msg \<Rightarrow> ufcs_data_msg" where
  "ufcs_recv_data_msg_src_info d =
     d\<lparr>dm_data := rev_bytes 0 8 (dm_data d)\<rparr>"

definition ufcs_recv_data_msg_sink_info :: "ufcs_data_msg \<Rightarrow> ufcs_data_msg" where
  "ufcs_recv_data_msg_sink_info d =
     d\<lparr>dm_data := rev_bytes 0 8 (dm_data d)\<rparr>"

definition ufcs_recv_data_msg_cable_info :: "ufcs_data_msg \<Rightarrow> ufcs_data_msg" where
  "ufcs_recv_data_msg_cable_info d =
     d\<lparr>dm_data := rev_bytes 0 8 (dm_data d)\<rparr>"

definition ufcs_recv_data_msg_dev_info :: "ufcs_data_msg \<Rightarrow> ufcs_data_msg" where
  "ufcs_recv_data_msg_dev_info d =
     d\<lparr>dm_data := rev_bytes 0 8 (dm_data d)\<rparr>"

definition ufcs_recv_data_msg_err_info :: "ufcs_data_msg \<Rightarrow> ufcs_data_msg" where
  "ufcs_recv_data_msg_err_info d =
     d\<lparr>dm_data := rev_bytes 0 4 (dm_data d)\<rparr>"

definition ufcs_recv_data_msg_config_wd :: "ufcs_data_msg \<Rightarrow> ufcs_data_msg" where
  "ufcs_recv_data_msg_config_wd d =
     d\<lparr>dm_data := rev_bytes 0 2 (dm_data d)\<rparr>"

definition ufcs_recv_data_msg_refuse :: "ufcs_data_msg \<Rightarrow> ufcs_data_msg" where
  "ufcs_recv_data_msg_refuse d =
     d\<lparr>dm_data := rev_bytes 0 4 (dm_data d)\<rparr>"

definition ufcs_recv_data_msg_test_request :: "ufcs_data_msg \<Rightarrow> ufcs_data_msg" where
  "ufcs_recv_data_msg_test_request d =
     d\<lparr>dm_data := rev_bytes 0 2 (dm_data d)\<rparr>"

definition ufcs_pack_data_msg_output_cap :: "ufcs_data_msg \<Rightarrow> ufcs_data_msg" where
  "ufcs_pack_data_msg_output_cap d =
     d\<lparr>dm_data := fold (\<lambda>i b. rev_bytes (8 * i) 8 b) [0..<UFCS_OUTPUT_MODE_MAX] (dm_data d)\<rparr>"

definition ufcs_pack_data_msg_request :: "ufcs_data_msg \<Rightarrow> ufcs_data_msg" where
  "ufcs_pack_data_msg_request d =
     d\<lparr>dm_data := rev_bytes 0 8 (dm_data d)\<rparr>"

definition ufcs_pack_data_msg_src_info :: "ufcs_data_msg \<Rightarrow> ufcs_data_msg" where
  "ufcs_pack_data_msg_src_info d =
     d\<lparr>dm_data := rev_bytes 0 8 (dm_data d)\<rparr>"

definition ufcs_pack_data_msg_sink_info :: "ufcs_data_msg \<Rightarrow> ufcs_data_msg" where
  "ufcs_pack_data_msg_sink_info d =
     d\<lparr>dm_data := rev_bytes 0 8 (dm_data d)\<rparr>"

definition ufcs_pack_data_msg_cable_info :: "ufcs_data_msg \<Rightarrow> ufcs_data_msg" where
  "ufcs_pack_data_msg_cable_info d =
     d\<lparr>dm_data := rev_bytes 0 8 (dm_data d)\<rparr>"

definition ufcs_pack_data_msg_dev_info :: "ufcs_data_msg \<Rightarrow> ufcs_data_msg" where
  "ufcs_pack_data_msg_dev_info d =
     d\<lparr>dm_data := rev_bytes 0 8 (dm_data d)\<rparr>"

definition ufcs_pack_data_msg_err_info :: "ufcs_data_msg \<Rightarrow> ufcs_data_msg" where
  "ufcs_pack_data_msg_err_info d =
     d\<lparr>dm_data := rev_bytes 0 4 (dm_data d)\<rparr>"

definition ufcs_pack_data_msg_config_wd :: "ufcs_data_msg \<Rightarrow> ufcs_data_msg" where
  "ufcs_pack_data_msg_config_wd d =
     d\<lparr>dm_data := rev_bytes 0 2 (dm_data d)\<rparr>"

definition ufcs_pack_data_msg_refuse :: "ufcs_data_msg \<Rightarrow> ufcs_data_msg" where
  "ufcs_pack_data_msg_refuse d =
     d\<lparr>dm_data := rev_bytes 0 4 (dm_data d)\<rparr>"

definition ufcs_pack_data_msg_test_request :: "ufcs_data_msg \<Rightarrow> ufcs_data_msg" where
  "ufcs_pack_data_msg_test_request d =
     d\<lparr>dm_data := rev_bytes 0 2 (dm_data d)\<rparr>"

definition ufcs_recv_or_pack_data_msg_verify_request :: "ufcs_data_msg \<Rightarrow> ufcs_data_msg" where
  "ufcs_recv_or_pack_data_msg_verify_request d = d\<lparr>dm_data := rev_bytes 1 16 (dm_data d)\<rparr>"

definition ufcs_recv_or_pack_data_msg_verify_response :: "ufcs_data_msg \<Rightarrow> ufcs_data_msg" where
  "ufcs_recv_or_pack_data_msg_verify_response d =
     d\<lparr>dm_data := rev_bytes 32 16 (rev_bytes 0 32 (dm_data d))\<rparr>"

text \<open>One round of the loop of \<^verbatim>\<open>ufcs_recv_data_msg_power_change\<close>: \<^verbatim>\<open>buf\<close> aliases
  \<^verbatim>\<open>power_change->data\<close>, so the store to \<^verbatim>\<open>data[i]\<close> is a store to bytes \<open>4 * i\<close> on.\<close>

definition power_change_recv_step :: "nat \<Rightarrow> bytes \<Rightarrow> bytes" where
  "power_change_recv_step i buf =
     put_bytes (4 * i)
       (le_bytes 4 (push_bit 16 (ucast (buf ! i)) + push_bit 8 (ucast (buf ! (i + 1)))
          + ucast (buf ! (i + 2)) :: u32)) buf"

definition ufcs_recv_data_msg_power_change :: "ufcs_data_msg \<Rightarrow> ufcs_data_msg" where
  "ufcs_recv_data_msg_power_change d =
     d\<lparr>dm_data := fold power_change_recv_step [6, 5, 4, 3, 2, 1] (dm_data d)\<rparr>"

definition power_change_pack_step :: "nat \<Rightarrow> bytes \<Rightarrow> bytes" where
  "power_change_pack_step i buf =
     (let x = le_word (get_bytes (4 * i) 4 buf) :: u32
      in put_bytes i
           [ucast (drop_bit 16 x AND 0xff), ucast (drop_bit 8 x AND 0xff), ucast (x AND 0xff)] buf)"

definition ufcs_pack_data_msg_power_change :: "ufcs_data_msg \<Rightarrow> ufcs_data_msg" where
  "ufcs_pack_data_msg_power_change d =
     d\<lparr>dm_data := fold power_change_pack_step [0..<7] (dm_data d)\<rparr>"

text \<open>\<^verbatim>\<open>ufcs_data_msg_init\<close> (after reception) and \<^verbatim>\<open>ufcs_data_msg_pack\<close> (before sending).\<close>

definition ufcs_data_msg_init :: "ufcs_data_msg \<Rightarrow> ufcs_data_msg" where
  "ufcs_data_msg_init d =
     (case data_msg_of (dm_command d) of
        None \<Rightarrow> d
      | Some m \<Rightarrow> (case m of
          DATA_MSG_OUTPUT_CAPABILITIES \<Rightarrow> ufcs_recv_data_msg_output_cap d
        | DATA_MSG_REQUEST \<Rightarrow> ufcs_recv_data_msg_request d
        | DATA_MSG_SOURCE_INFO \<Rightarrow> ufcs_recv_data_msg_src_info d
        | DATA_MSG_SINK_INFO \<Rightarrow> ufcs_recv_data_msg_sink_info d
        | DATA_MSG_CABLE_INFO \<Rightarrow> ufcs_recv_data_msg_cable_info d
        | DATA_MSG_DEVICE_INFO \<Rightarrow> ufcs_recv_data_msg_dev_info d
        | DATA_MSG_ERROR_INFO \<Rightarrow> ufcs_recv_data_msg_err_info d
        | DATA_MSG_CONFIG_WATCHDOG \<Rightarrow> ufcs_recv_data_msg_config_wd d
        | DATA_MSG_REFUSE \<Rightarrow> ufcs_recv_data_msg_refuse d
        | DATA_MSG_VERIFY_REQUEST \<Rightarrow> ufcs_recv_or_pack_data_msg_verify_request d
        | DATA_MSG_VERIFY_RESPONSE \<Rightarrow> ufcs_recv_or_pack_data_msg_verify_response d
        | DATA_MSG_POWER_CHANGE \<Rightarrow> ufcs_recv_data_msg_power_change d
        | DATA_MSG_TEST_REQUEST \<Rightarrow> ufcs_recv_data_msg_test_request d))"

definition ufcs_data_msg_pack :: "ufcs_data_msg \<Rightarrow> ufcs_data_msg" where
  "ufcs_data_msg_pack d =
     (case data_msg_of (dm_command d) of
        None \<Rightarrow> d
      | Some m \<Rightarrow> (case m of
          DATA_MSG_OUTPUT_CAPABILITIES \<Rightarrow> ufcs_pack_data_msg_output_cap d
        | DATA_MSG_REQUEST \<Rightarrow> ufcs_pack_data_msg_request d
        | DATA_MSG_SOURCE_INFO \<Rightarrow> ufcs_pack_data_msg_src_info d
        | DATA_MSG_SINK_INFO \<Rightarrow> ufcs_pack_data_msg_sink_info d
        | DATA_MSG_CABLE_INFO \<Rightarrow> ufcs_pack_data_msg_cable_info d
        | DATA_MSG_DEVICE_INFO \<Rightarrow> ufcs_pack_data_msg_dev_info d
        | DATA_MSG_ERROR_INFO \<Rightarrow> ufcs_pack_data_msg_err_info d
        | DATA_MSG_CONFIG_WATCHDOG \<Rightarrow> ufcs_pack_data_msg_config_wd d
        | DATA_MSG_REFUSE \<Rightarrow> ufcs_pack_data_msg_refuse d
        | DATA_MSG_VERIFY_REQUEST \<Rightarrow> ufcs_recv_or_pack_data_msg_verify_request d
        | DATA_MSG_VERIFY_RESPONSE \<Rightarrow> ufcs_recv_or_pack_data_msg_verify_response d
        | DATA_MSG_POWER_CHANGE \<Rightarrow> ufcs_pack_data_msg_power_change d
        | DATA_MSG_TEST_REQUEST \<Rightarrow> ufcs_pack_data_msg_test_request d))"

text \<open>Vendor payloads: one type byte, then the big-endian words.\<close>

definition ufcs_is_supported_oplus_ctrl_msg :: "ufcs_vendor_msg \<Rightarrow> bool" where
  "ufcs_is_supported_oplus_ctrl_msg v \<longleftrightarrow>
     oplus_msg_of (vm_type v) \<in> {Some OPLUS_MSG_GET_EMARK_INFO, Some OPLUS_MSG_GET_POWER_INFO_EXT}"

definition ufcs_recv_oplus_data_msg_emark_info :: "ufcs_vendor_msg \<Rightarrow> ufcs_vendor_msg" where
  "ufcs_recv_oplus_data_msg_emark_info v = v\<lparr>vm_data := rev_bytes 1 8 (vm_data v)\<rparr>"

definition ufcs_recv_data_msg_power_info_ext :: "ufcs_vendor_msg \<Rightarrow> ufcs_vendor_msg" where
  "ufcs_recv_data_msg_power_info_ext v =
     v\<lparr>vm_data := fold (\<lambda>i b. rev_bytes (1 + 8 * i) 8 b) [0..<7] (vm_data v)\<rparr>"

definition ufcs_oplus_data_msg_init :: "ufcs_vendor_msg \<Rightarrow> ufcs_vendor_msg" where
  "ufcs_oplus_data_msg_init v =
     (case oplus_msg_of (vm_type v) of
        Some OPLUS_MSG_RESP_EMARK_INFO \<Rightarrow> ufcs_recv_oplus_data_msg_emark_info v
      | Some OPLUS_MSG_RESP_POWER_INFO_EXT \<Rightarrow> ufcs_recv_data_msg_power_info_ext v
      | _ \<Rightarrow> v)"

section \<open>Unpacking a frame\<close>

definition MSG_HEAD_SIZE :: nat where "MSG_HEAD_SIZE = 2"
definition MSG_DATA_INDEX :: nat where "MSG_DATA_INDEX = 2"

definition be16 :: "bytes \<Rightarrow> nat \<Rightarrow> u16" where
  "be16 buf i = push_bit 8 (ucast (buf ! i)) OR ucast (buf ! (i + 1))"

definition to_be16 :: "u16 \<Rightarrow> bytes" where
  "to_be16 w = [ucast (drop_bit 8 w), ucast w]"

text \<open>The four masked header fields, each stored into a \<^verbatim>\<open>u8\<close> as it is.\<close>

definition unpack_head :: "u16 \<Rightarrow> ufcs_msg_head" where
  "unpack_head head = \<lparr>head_type = ucast (head AND 0x7), head_version = ucast (head AND 0x1f8),
     head_index = ucast (head AND 0x1e00), head_addr = ucast (head AND 0xe000)\<rparr>"

text \<open>\<^verbatim>\<open>memcpy\<close> into the payload array of a message: in the packed struct the byte after the
  array is \<^verbatim>\<open>crc\<close>, which is where a 60th (59th for a vendor message) byte goes.\<close>

definition copy_data :: "bytes \<Rightarrow> ufcs_msg \<Rightarrow> ufcs_msg" where
  "copy_data xs msg =
     msg\<lparr>data_msg := (data_msg msg)\<lparr>dm_data := put_bytes 0 (take 59 xs) (dm_data (data_msg msg))\<rparr>,
         msg_crc := (if 59 < length xs then xs ! 59 else msg_crc msg)\<rparr>"

definition copy_vendor :: "bytes \<Rightarrow> ufcs_msg \<Rightarrow> ufcs_msg" where
  "copy_vendor xs msg =
     msg\<lparr>vendor_msg := (vendor_msg msg)\<lparr>vm_data := put_bytes 0 (take 58 xs) (vm_data (vendor_msg msg))\<rparr>,
         msg_crc := (if 58 < length xs then xs ! 58 else msg_crc msg)\<rparr>"

text \<open>\<open>mem\<close> says whether the allocation of the message succeeds. \<open>buf\<close> is the receive
  buffer of \<open>UFCS_MSG_SIZE_MAX\<close> bytes, \<open>len\<close> the number of bytes the chip delivered.\<close>

definition ufcs_unpack_msg :: "ufcs_config \<Rightarrow> bool \<Rightarrow> bytes \<Rightarrow> nat \<Rightarrow> ufcs_msg option" where
  "ufcs_unpack_msg config mem buf len =
     (let msg_size = (if check_crc config then MSG_HEAD_SIZE + 2 else MSG_HEAD_SIZE + 1) in
      if len < msg_size then None
      else if UFCS_MSG_SIZE_MAX < len then None
      else if \<not> mem then None
      else
        let msg0 = zero_msg\<lparr>msg_head := unpack_head (be16 buf 0)\<rparr>;
            finish = (\<lambda>msg crc. Some (msg\<lparr>msg_crc_good := \<not> (check_crc config \<and> msg_crc msg \<noteq> crc)\<rparr>))
        in case msg_type_of (head_type (msg_head msg0)) of
             None \<Rightarrow> None
           | Some UFCS_CTRL_MSG \<Rightarrow>
               (let msg1 = msg0\<lparr>ctrl_command := buf ! MSG_DATA_INDEX\<rparr>
                in if check_crc config
                   then finish (msg1\<lparr>msg_crc := buf ! (MSG_DATA_INDEX + 1)\<rparr>)
                          (crc8_calculate buf (MSG_DATA_INDEX + 1))
                   else finish msg1 0)
           | Some UFCS_DATA_MSG \<Rightarrow>
               (let n = unat (buf ! (MSG_DATA_INDEX + 1)) in
                if n + msg_size + 1 \<noteq> len then None
                else
                  let msg1 = copy_data (get_bytes (MSG_DATA_INDEX + 2) n buf)
                        (msg0\<lparr>data_msg := (data_msg msg0)\<lparr>dm_command := buf ! MSG_DATA_INDEX,
                           dm_length := buf ! (MSG_DATA_INDEX + 1)\<rparr>\<rparr>);
                      msg2 = msg1\<lparr>data_msg := ufcs_data_msg_init (data_msg msg1)\<rparr>
                  in if check_crc config
                     then let crc = crc8_calculate buf (MSG_DATA_INDEX + 1 + n);
                              msg3 = msg2\<lparr>msg_crc := buf ! (MSG_DATA_INDEX + 2 + n)\<rparr>
                          in if msg_crc msg3 \<noteq> crc then None else finish msg3 crc
                     else finish msg2 0)
           | Some UFCS_VENDOR_MSG \<Rightarrow>
               (if len < MSG_HEAD_SIZE + 3 then None
                else
                  let n = unat (buf ! (MSG_DATA_INDEX + 2));
                      size' = (if check_crc config then MSG_HEAD_SIZE + 3 + n + 1
                               else MSG_HEAD_SIZE + 3 + n)
                  in if len \<noteq> size' then None
                     else
                       let msg1 = copy_vendor (get_bytes (MSG_DATA_INDEX + 3) n buf)
                             (msg0\<lparr>vendor_msg := (vendor_msg msg0)\<lparr>vm_vnd_id := be16 buf MSG_DATA_INDEX,
                                vm_length := buf ! (MSG_DATA_INDEX + 2)\<rparr>\<rparr>);
                           msg2 = msg1\<lparr>vendor_msg := ufcs_oplus_data_msg_init (vendor_msg msg1)\<rparr>
                       in if check_crc config
                          then finish (msg2\<lparr>msg_crc := buf ! (MSG_DATA_INDEX + 3 + n)\<rparr>)
                                 (crc8_calculate buf (MSG_DATA_INDEX + 2 + n))
                          else finish msg2 0))"

section \<open>Packing a frame\<close>

definition pack_head :: "ufcs_msg_head \<Rightarrow> u16" where
  "pack_head h =
     (push_bit 13 (ucast (head_addr h)) AND 0xe000) OR
     (push_bit 9 (ucast (head_index h)) AND 0x1e00) OR
     (push_bit 3 (ucast (head_version h)) AND 0x1f8) OR
     (ucast (head_type h) AND 0x7)"

text \<open>The result is the error code, or the bytes written to the buffer together with the message
  as \<^verbatim>\<open>ufcs_data_msg_pack\<close> leaves it: the conversion is done in place.\<close>

definition ufcs_pack_msg :: "ufcs_config \<Rightarrow> ufcs_msg \<Rightarrow> nat \<Rightarrow> rc + (bytes \<times> ufcs_msg)" where
  "ufcs_pack_msg config msg len =
     (let msg_size = (if check_crc config then MSG_HEAD_SIZE + 2 else MSG_HEAD_SIZE + 1);
          hdr = to_be16 (pack_head (msg_head msg));
          finish = (\<lambda>bs m. Inr (if check_crc config then bs @ [crc8_calculate bs (length bs)] else bs, m))
      in if len < msg_size then Inl (- EINVAL)
         else case msg_type_of (head_type (msg_head msg)) of
           None \<Rightarrow> Inl (- ENOTSUPP)
         | Some UFCS_CTRL_MSG \<Rightarrow> finish (hdr @ [ctrl_command msg]) msg
         | Some UFCS_DATA_MSG \<Rightarrow>
             (let d = data_msg msg; n = unat (dm_length d) in
              if len < msg_size + 2 + n then Inl (- EINVAL)
              else
                let d' = ufcs_data_msg_pack d
                in finish (hdr @ [dm_command d, dm_length d] @ take n (dm_data d'))
                     (msg\<lparr>data_msg := d'\<rparr>))
         | Some UFCS_VENDOR_MSG \<Rightarrow>
             (let v = vendor_msg msg; n = unat (vm_length v) in
              if \<not> ufcs_is_supported_oplus_ctrl_msg v then Inl (- ENOTSUPP)
              else if len < msg_size + 3 + n then Inl (- EINVAL)
              else finish (hdr @ to_be16 (vm_vnd_id v) @ [vm_length v] @ take n (vm_data v)) msg))"

section \<open>Auxiliary notions\<close>

text \<open>The payload struct of a command occupies its first \<open>payload_size\<close> bytes.\<close>

fun payload_size :: "ufcs_data_msg_type \<Rightarrow> nat" where
  "payload_size DATA_MSG_OUTPUT_CAPABILITIES = 56"
| "payload_size DATA_MSG_REQUEST = 8"
| "payload_size DATA_MSG_SOURCE_INFO = 8"
| "payload_size DATA_MSG_SINK_INFO = 8"
| "payload_size DATA_MSG_CABLE_INFO = 8"
| "payload_size DATA_MSG_DEVICE_INFO = 8"
| "payload_size DATA_MSG_ERROR_INFO = 4"
| "payload_size DATA_MSG_CONFIG_WATCHDOG = 2"
| "payload_size DATA_MSG_REFUSE = 4"
| "payload_size DATA_MSG_VERIFY_REQUEST = 17"
| "payload_size DATA_MSG_VERIFY_RESPONSE = 48"
| "payload_size DATA_MSG_POWER_CHANGE = 28"
| "payload_size DATA_MSG_TEST_REQUEST = 2"

text \<open>The arrays of a message have the sizes the struct declares.\<close>

definition msg_wf :: "ufcs_msg \<Rightarrow> bool" where
  "msg_wf m \<longleftrightarrow> length (dm_data (data_msg m)) = UFCS_DATA_MSG_DATA_SIZE_MAX \<and>
     length (vm_data (vendor_msg m)) = UFCS_VENDOR_MSG_DATA_SIZE_MAX"

text \<open>The message unpacked from a data frame whose length bytes agree.\<close>

definition data_frame_msg :: "bytes \<Rightarrow> nat \<Rightarrow> ufcs_msg" where
  "data_frame_msg buf n =
     (let m = copy_data (get_bytes 4 n buf)
            (zero_msg\<lparr>msg_head := unpack_head (be16 buf 0),
               data_msg := (data_msg zero_msg)\<lparr>dm_command := buf ! 2, dm_length := buf ! 3\<rparr>\<rparr>)
      in m\<lparr>data_msg := ufcs_data_msg_init (data_msg m), msg_crc_good := True\<rparr>)"

text \<open>Concrete messages and configurations the properties are applied to.\<close>

definition demo_config :: "bool \<Rightarrow> ufcs_config" where
  "demo_config crc = \<lparr>check_crc = crc, reply_ack = False, msg_resend = False,
     handshake_hard_retry = False, ic_vendor_id = 0\<rparr>"

definition demo_data_msg :: "u8 \<Rightarrow> bytes \<Rightarrow> ufcs_msg" where
  "demo_data_msg c payload = zero_msg\<lparr>msg_head := \<lparr>head_type = 1, head_version = 1, head_index = 3, head_addr = 1\<rparr>,
     data_msg := \<lparr>dm_command = c, dm_length = of_nat (length payload),
       dm_data = payload @ replicate (59 - length payload) 0\<rparr>\<rparr>"

lemmas demo_simps = demo_config_def demo_data_msg_def zero_msg_def msg_wf_def msg_sizes

section \<open>The CRC detects corruption\<close>

lemma top_bit_u8: "(c AND 0x80 \<noteq> 0) = bit (c :: u8) 7"
  using and_exp_eq_0_iff_not_bit [of c 7] by simp

lemma crc8_bit_alt: "crc8_bit c = push_bit 1 c XOR (if bit c 7 then 0x29 else 0)"
  by (simp add: crc8_bit_def top_bit_u8 CRC_8_POLYNOMIAL_def)

lemma crc8_bit_xor: "crc8_bit (a XOR b) = crc8_bit a XOR crc8_bit b"
  by (simp add: crc8_bit_alt bit_xor_iff push_bit_xor ac_simps)

lemma crc8_bit_zero [simp]: "crc8_bit 0 = 0"
  by (simp add: crc8_bit_alt)

lemma crc8_bit_eq_zero: "crc8_bit a = 0 \<longleftrightarrow> a = 0"
proof
  assume eq: "crc8_bit a = 0"
  have "bit (crc8_bit a) 0 = bit a 7"
    by (simp only: crc8_bit_alt bit_xor_iff bit_push_bit_iff) (simp add: bit_0)
  with eq have top: "\<not> bit a 7" by simp
  show "a = 0"
  proof (rule bit_word_eqI)
    fix n assume n: "n < LENGTH(8)"
    have "bit (crc8_bit a) (Suc n) = (Suc n < 8 \<and> bit a n)"
      using top by (simp only: crc8_bit_alt bit_push_bit_iff bit_xor_iff if_False bit_0_eq) auto
    then have "Suc n < 8 \<longrightarrow> \<not> bit a n" by (simp only: eq bit_0_eq) simp
    moreover have "n < 8" using n by simp
    ultimately have "\<not> bit a n" using top by (cases "n = 7") auto
    then show "bit a n = bit (0 :: u8) n" by simp
  qed
qed simp

lemma crc8_bits_xor: "(crc8_bit ^^ n) (a XOR b) = (crc8_bit ^^ n) a XOR (crc8_bit ^^ n) b"
  by (induction n) (simp_all add: crc8_bit_xor)

lemma crc8_bits_zero [simp]: "(crc8_bit ^^ n) 0 = 0"
  by (induction n) simp_all

lemma xor_eq_0: "(a :: u8) XOR b = 0 \<longleftrightarrow> a = b"
proof
  assume "a XOR b = 0"
  then have "(a XOR b) XOR b = 0 XOR b" by (rule arg_cong)
  then show "a = b" by (simp only: xor.assoc xor_self_eq xor.right_neutral xor.left_neutral)
qed simp

lemma crc8_bits_inj: "(crc8_bit ^^ n) a = (crc8_bit ^^ n) b \<longleftrightarrow> a = b"
proof -
  have "(crc8_bit ^^ n) c = 0 \<longleftrightarrow> c = 0" for c
    by (induction n) (simp_all add: crc8_bit_eq_zero)
  then have "(crc8_bit ^^ n) (a XOR b) = 0 \<longleftrightarrow> a XOR b = 0" .
  then show ?thesis
    by (simp add: crc8_bits_xor xor_eq_0)
qed

lemma crc8_byte_inj [simp]:
  "crc8_byte c x = crc8_byte c y \<longleftrightarrow> x = y"
  "crc8_byte c x = crc8_byte d x \<longleftrightarrow> c = d"
  unfolding crc8_byte_def crc8_bits_inj
  by (metis xor.assoc xor_self_eq xor.left_neutral, metis xor.assoc xor_self_eq xor.right_neutral)

lemma crc8_byte_self [simp]: "crc8_byte c c = 0"
  by (simp add: crc8_byte_def)

lemma crc8_fold_inj: "foldl crc8_byte c xs = foldl crc8_byte d xs \<longleftrightarrow> c = d"
  by (induction xs arbitrary: c d) simp_all

lemma crc8_fold_eq:
  "foldl crc8_byte c (p @ x # s) = foldl crc8_byte c (p @ y # s) \<longleftrightarrow> x = y"
  by (simp add: crc8_fold_inj)

lemma crc8_fold_xor:
  "length xs = length ys \<Longrightarrow>
   foldl crc8_byte (c XOR d) (map2 (XOR) xs ys) = foldl crc8_byte c xs XOR foldl crc8_byte d ys"
proof (induction xs ys arbitrary: c d rule: list_induct2)
  case (Cons x xs y ys)
  have "crc8_byte (c XOR d) (x XOR y) = crc8_byte c x XOR crc8_byte d y"
    by (simp add: crc8_byte_def ac_simps flip: crc8_bits_xor)
  then show ?case using Cons.IH by simp
qed simp

text \<open>Two buffers of the same length that differ in exactly one byte (any number of
  flipped bits of it) never have the same CRC, whatever the length: the polynomial of
  \<^verbatim>\<open>crc8_calculate\<close> detects every error confined to one byte.\<close>

lemma crc8_detects_byte_corruption:
  assumes "length xs = length ys" and "i < length xs"
    and "\<forall>j < length xs. j \<noteq> i \<longrightarrow> xs ! j = ys ! j" and "xs ! i \<noteq> ys ! i"
  shows "crc8_calculate xs (length xs) \<noteq> crc8_calculate ys (length ys)"
proof -
  have "take i xs = take i ys" "drop (Suc i) xs = drop (Suc i) ys"
    using assms by (auto intro!: nth_equalityI)
  moreover have "xs = take i xs @ xs ! i # drop (Suc i) xs" "ys = take i ys @ ys ! i # drop (Suc i) ys"
    using assms by (simp_all add: id_take_nth_drop [symmetric])
  ultimately obtain p s where "xs = p @ xs ! i # s" "ys = p @ ys ! i # s" by metis
  then have "foldl crc8_byte 0 xs \<noteq> foldl crc8_byte 0 ys"
    using assms(4) crc8_fold_eq by metis
  then show ?thesis by (simp add: crc8_calculate_def)
qed

lemma crc8_detects_byte_corruption_witness:
  "crc8_calculate [1, 2, 3] 3 \<noteq> crc8_calculate [1, 0x42, 3] 3"
  using crc8_detects_byte_corruption [of "[1, 2, 3]" "[1, 0x42, 3]" 1]
  by (simp add: less_Suc_eq numeral_3_eq_3)

text \<open>The CRC of a buffer followed by one more byte is zero exactly when that byte is
  the CRC of the buffer.\<close>

lemma crc8_trailer_residue:
  "crc8_calculate (xs @ [c]) (Suc (length xs)) = 0 \<longleftrightarrow> c = crc8_calculate xs (length xs)"
proof -
  have "crc8_byte d c = 0 \<longleftrightarrow> c = d" for d
    using crc8_byte_inj(1) [of d c d] by simp
  then show ?thesis by (simp add: crc8_calculate_def)
qed

section \<open>Payload conversion\<close>

lemma drop_rev_bytes [ufcs_wire]:
  "off + n \<le> k \<Longrightarrow> k \<le> length b \<Longrightarrow> drop k (rev_bytes off n b) = drop k b"
  by (rule nth_equalityI) (auto simp: length_rev_bytes nth_rev_bytes)

text \<open>Reversing the first \<open>k\<close> consecutive \<open>n\<close>-byte words.\<close>

lemma length_fold_rev:
  "o' + n * k \<le> length b \<Longrightarrow> length (fold (\<lambda>i b. rev_bytes (o' + n * i) n b) [0..<k] b) = length b"
proof (induction k)
  case (Suc k)
  then show ?case by (simp add: length_rev_bytes)
qed simp

lemma drop_fold_rev:
  "o' + n * k \<le> length b \<Longrightarrow>
   drop (o' + n * k) (fold (\<lambda>i b. rev_bytes (o' + n * i) n b) [0..<k] b) = drop (o' + n * k) b"
proof (induction k)
  case (Suc k)
  let ?f = "fold (\<lambda>i b. rev_bytes (o' + n * i) n b) [0..<k] b"
  have le: "o' + n * k + n \<le> length ?f" using Suc.prems by (simp add: length_fold_rev)
  have "drop n (drop (o' + n * k) ?f) = drop n (drop (o' + n * k) b)" using Suc by simp
  then have "drop (o' + n * k + n) ?f = drop (o' + n * k + n) b" by (simp add: ac_simps)
  then have "drop (o' + n * k + n) (rev_bytes (o' + n * k) n ?f) = drop (o' + n * k + n) b"
    using drop_rev_bytes [OF order_refl le] by simp
  then show ?case by (simp add: ac_simps)
qed simp

lemma rev_fold_rev_commute:
  assumes "o' + n * k \<le> off" and "off + m \<le> length b"
  shows "rev_bytes off m (fold (\<lambda>i b. rev_bytes (o' + n * i) n b) [0..<k] b) =
    fold (\<lambda>i b. rev_bytes (o' + n * i) n b) [0..<k] (rev_bytes off m b)"
  using assms
proof (induction k)
  case (Suc k)
  let ?f = "fold (\<lambda>i b. rev_bytes (o' + n * i) n b) [0..<k] b"
  have "rev_bytes off m (rev_bytes (o' + n * k) n ?f) = rev_bytes (o' + n * k) n (rev_bytes off m ?f)"
    using Suc.prems by (intro rev_bytes_commute) (simp_all add: length_fold_rev)
  then show ?case using Suc by simp
qed simp

lemma fold_rev_involution:
  "o' + n * k \<le> length b \<Longrightarrow>
   fold (\<lambda>i b. rev_bytes (o' + n * i) n b) [0..<k] (fold (\<lambda>i b. rev_bytes (o' + n * i) n b) [0..<k] b) = b"
proof (induction k)
  case (Suc k)
  let ?f = "fold (\<lambda>i b. rev_bytes (o' + n * i) n b) [0..<k]"
  have "rev_bytes (o' + n * k) n (?f (rev_bytes (o' + n * k) n (?f b))) =
    rev_bytes (o' + n * k) n (rev_bytes (o' + n * k) n (?f (?f b)))"
    using Suc.prems
    by (subst (2) rev_fold_rev_commute) (simp_all add: length_fold_rev rev_fold_rev_commute)
  then show ?case using Suc by simp
qed simp

lemmas fold_rev_8 = fold_rev_involution [where o' = 0, simplified]
  length_fold_rev [where o' = 0, simplified] drop_fold_rev [where o' = 0, simplified]

lemmas data_msg_conversions =
  ufcs_recv_data_msg_output_cap_def ufcs_recv_data_msg_request_def ufcs_recv_data_msg_src_info_def
  ufcs_recv_data_msg_sink_info_def ufcs_recv_data_msg_cable_info_def ufcs_recv_data_msg_dev_info_def
  ufcs_recv_data_msg_err_info_def ufcs_recv_data_msg_config_wd_def ufcs_recv_data_msg_refuse_def
  ufcs_recv_data_msg_test_request_def
  ufcs_pack_data_msg_output_cap_def ufcs_pack_data_msg_request_def ufcs_pack_data_msg_src_info_def
  ufcs_pack_data_msg_sink_info_def ufcs_pack_data_msg_cable_info_def ufcs_pack_data_msg_dev_info_def
  ufcs_pack_data_msg_err_info_def ufcs_pack_data_msg_config_wd_def ufcs_pack_data_msg_refuse_def
  ufcs_pack_data_msg_test_request_def
  ufcs_recv_or_pack_data_msg_verify_request_def ufcs_recv_or_pack_data_msg_verify_response_def

lemma data_msg_pack_meta [simp]:
  "dm_command (ufcs_data_msg_pack d) = dm_command d" "dm_length (ufcs_data_msg_pack d) = dm_length d"
  by (simp_all add: ufcs_data_msg_pack_def data_msg_conversions ufcs_pack_data_msg_power_change_def
      split: option.split ufcs_data_msg_type.split)

lemma payload_size_le: "payload_size m \<le> 56"
  by (cases m) simp_all

lemma data_msg_pack_length:
  assumes "length (dm_data d) = 59" and "dm_command d \<noteq> data_code DATA_MSG_POWER_CHANGE"
  shows "length (dm_data (ufcs_data_msg_pack d)) = 59"
  using assms
  by (simp add: ufcs_data_msg_pack_def data_msg_conversions length_rev_bytes fold_rev_8 msg_sizes
      data_msg_of_Some split: option.split ufcs_data_msg_type.split)

lemma data_msg_pack_tail:
  assumes "length (dm_data d) = 59" and "data_msg_of (dm_command d) = Some m"
    and "m \<noteq> DATA_MSG_POWER_CHANGE"
  shows "drop (payload_size m) (dm_data (ufcs_data_msg_pack d)) = drop (payload_size m) (dm_data d)"
  using assms drop_fold_rev [of 0 8 7 "dm_data d"]
  by (cases m)
    (simp_all add: ufcs_data_msg_pack_def data_msg_conversions drop_rev_bytes msg_sizes length_rev_bytes)

lemma data_msg_init_pack:
  assumes "length (dm_data d) = 59" and "dm_command d \<noteq> data_code DATA_MSG_POWER_CHANGE"
  shows "ufcs_data_msg_init (ufcs_data_msg_pack d) = d"
proof (cases "data_msg_of (dm_command d)")
  case None
  then show ?thesis by (simp add: ufcs_data_msg_init_def ufcs_data_msg_pack_def)
next
  case (Some m)
  then have "m \<noteq> DATA_MSG_POWER_CHANGE" using assms(2) by (auto simp: data_msg_of_Some)
  have cmd: "data_msg_of (dm_command (ufcs_data_msg_pack d)) = Some m" using Some by simp
  have len: "length (rev_bytes 32 16 (rev_bytes 0 32 (dm_data d))) = 59"
    using assms(1) by (simp add: length_rev_bytes)
  have swap: "rev_bytes 32 16 (rev_bytes 0 32 (rev_bytes 32 16 (rev_bytes 0 32 (dm_data d)))) = dm_data d"
    using assms(1) by (simp add: rev_bytes_commute [of 0 32 _ 32 16] length_rev_bytes)
  show ?thesis
    unfolding ufcs_data_msg_init_def cmd using Some \<open>m \<noteq> DATA_MSG_POWER_CHANGE\<close> assms(1) swap
    by (cases m)
      (simp_all add: ufcs_data_msg_pack_def data_msg_conversions fold_rev_8 msg_sizes)
qed

section \<open>Frames\<close>

lemma length_to_be16 [simp]: "length (to_be16 w) = 2"
  by (simp add: to_be16_def)

lemma be16_to_be16 [simp]: "be16 (to_be16 w @ rest) 0 = w"
proof (rule bit_word_eqI)
  fix n assume "n < LENGTH(16)"
  then show "bit (be16 (to_be16 w @ rest) 0) n = bit w n"
    by (cases "n < 8")
      (auto simp: be16_def to_be16_def bit_or_iff bit_push_bit_iff bit_ucast_iff bit_drop_bit_eq)
qed

lemma bit_and_field:
  "bit (w AND push_bit k (mask m)) n \<longleftrightarrow> bit w n \<and> k \<le> n \<and> n < k + m" for w :: "'a::len word"
  by (auto simp: bit_and_iff bit_push_bit_iff bit_mask_iff possible_bit_def dest: bit_imp_le_length)

lemma bit_and_head_masks:
  "bit (w AND 0x7) n \<longleftrightarrow> bit w n \<and> n < 3" "bit (w AND 0x1f8) n \<longleftrightarrow> bit w n \<and> 3 \<le> n \<and> n < 9"
  "bit (w AND 0x1e00) n \<longleftrightarrow> bit w n \<and> 9 \<le> n \<and> n < 13" "bit (w AND 0xe000) n \<longleftrightarrow> bit w n \<and> 13 \<le> n \<and> n < 16"
  for w :: u16
  using bit_and_field [of w 0 3 n] bit_and_field [of w 3 6 n] bit_and_field [of w 9 4 n]
    bit_and_field [of w 13 3 n]
  by (simp_all add: mask_eq_exp_minus_1 push_bit_eq_mult)

lemma bit_and_type_mask: "bit (w AND 0x7) n \<longleftrightarrow> bit w n \<and> n < 3" for w :: u8
  using bit_and_field [of w 0 3 n] by (simp add: mask_eq_exp_minus_1)

lemmas head_bits =
  bit_ucast_iff bit_or_iff bit_push_bit_iff bit_and_head_masks bit_and_type_mask

lemma bit_u8_le: "bit (w :: u8) n \<Longrightarrow> n < 8"
  using bit_imp_le_length by fastforce

lemma unpack_pack_head_type: "head_type (unpack_head (pack_head h)) = head_type h AND 0x7"
  unfolding unpack_head_def pack_head_def ufcs_msg_head.simps
  by (rule bit_word_eqI) (auto simp: head_bits)

lemma unpack_pack_head_version: "head_version (unpack_head (pack_head h)) = push_bit 3 (head_version h)"
  unfolding unpack_head_def pack_head_def ufcs_msg_head.simps
  by (rule bit_word_eqI) (auto simp: head_bits dest: bit_u8_le)

lemma unpack_head_index_addr:
  "head_index (unpack_head w) = 0" "head_addr (unpack_head w) = 0"
proof -
  show "head_index (unpack_head w) = 0" "head_addr (unpack_head w) = 0"
    unfolding unpack_head_def ufcs_msg_head.simps
    by (rule bit_word_eqI, auto simp: head_bits)+
qed

lemma msg_type_code_mask: "msg_type_code t AND 0x7 = msg_type_code t"
  by (cases t) simp_all

lemma unpack_head_packed_type:
  "head_type h = msg_type_code t \<Longrightarrow> msg_type_of (head_type (unpack_head (pack_head h))) = Some t"
  by (simp add: unpack_pack_head_type msg_type_code_mask)

text \<open>The receive buffer has room for a whole frame; what follows the frame is left over from
  earlier receptions.\<close>

lemma take_put_zero:
  assumes "length xs \<le> n" and "length b = n" and "drop (length xs) b = replicate (n - length xs) 0"
    and "take (length xs) b = xs"
  shows "put_bytes 0 xs (replicate n 0) = b"
proof -
  have "b = xs @ replicate (n - length xs) 0"
    using assms(3,4) append_take_drop_id [of "length xs" b] by simp
  then show ?thesis using assms(1) by (simp add: put_bytes_def)
qed

lemma pack_ctrl_frame:
  assumes "head_type (msg_head msg) = msg_type_code UFCS_CTRL_MSG"
  shows "ufcs_pack_msg config msg UFCS_MSG_SIZE_MAX =
    (let bs = to_be16 (pack_head (msg_head msg)) @ [ctrl_command msg]
     in Inr (if check_crc config then bs @ [crc8_calculate bs 3] else bs, msg))"
  using assms by (simp add: ufcs_pack_msg_def Let_def msg_sizes MSG_HEAD_SIZE_def msg_type_of_def)

lemma pack_data_frame:
  assumes "head_type (msg_head msg) = msg_type_code UFCS_DATA_MSG"
    and "unat (dm_length (data_msg msg)) \<le> 58"
  shows "ufcs_pack_msg config msg UFCS_MSG_SIZE_MAX =
    (let d' = ufcs_data_msg_pack (data_msg msg);
         bs = to_be16 (pack_head (msg_head msg)) @ [dm_command d', dm_length d'] @
                take (unat (dm_length d')) (dm_data d')
     in Inr (if check_crc config then bs @ [crc8_calculate bs (length bs)] else bs,
             msg\<lparr>data_msg := d'\<rparr>))"
  using assms by (simp add: ufcs_pack_msg_def Let_def msg_sizes MSG_HEAD_SIZE_def msg_type_of_def)

text \<open>What unpacking does with a frame of each type.\<close>

lemma unpack_ctrl_frame:
  assumes "msg_type_of (head_type (unpack_head (be16 buf 0))) = Some UFCS_CTRL_MSG"
    and "(if check_crc config then 4 else 3) \<le> len" and "len \<le> 64"
  shows "ufcs_unpack_msg config True buf len =
    Some (zero_msg\<lparr>msg_head := unpack_head (be16 buf 0), ctrl_command := buf ! 2,
      msg_crc := (if check_crc config then buf ! 3 else 0),
      msg_crc_good := check_crc config \<longrightarrow> buf ! 3 = crc8_calculate buf 3\<rparr>)"
proof (cases "check_crc config")
  case True
  with assms show ?thesis
    by (simp add: ufcs_unpack_msg_def Let_def msg_sizes MSG_HEAD_SIZE_def MSG_DATA_INDEX_def)
next
  case False
  with assms show ?thesis
    by (simp add: ufcs_unpack_msg_def Let_def msg_sizes MSG_HEAD_SIZE_def MSG_DATA_INDEX_def
        zero_msg_def)
qed

lemma unpack_data_frame_plain:
  assumes "msg_type_of (head_type (unpack_head (be16 buf 0))) = Some UFCS_DATA_MSG"
    and "\<not> check_crc config" and "len = unat (buf ! 3) + 4" and "len \<le> 64"
  shows "ufcs_unpack_msg config True buf len = Some (data_frame_msg buf (unat (buf ! 3)))"
  using assms
  by (simp add: ufcs_unpack_msg_def Let_def msg_sizes MSG_HEAD_SIZE_def MSG_DATA_INDEX_def
      data_frame_msg_def)

lemma unpack_data_frame_crc:
  assumes "msg_type_of (head_type (unpack_head (be16 buf 0))) = Some UFCS_DATA_MSG"
    and "check_crc config" and "len = unat (buf ! 3) + 5" and "len \<le> 64"
  shows "ufcs_unpack_msg config True buf len =
    (if buf ! (4 + unat (buf ! 3)) = crc8_calculate buf (3 + unat (buf ! 3))
     then Some ((data_frame_msg buf (unat (buf ! 3)))\<lparr>msg_crc := buf ! (4 + unat (buf ! 3))\<rparr>)
     else None)"
  using assms
  by (simp add: ufcs_unpack_msg_def Let_def msg_sizes MSG_HEAD_SIZE_def MSG_DATA_INDEX_def
      data_frame_msg_def)

text \<open>A control message that is packed, with or without a CRC, is accepted by the
  unpacking side, with the command and the type that were sent and a good CRC.\<close>

theorem ctrl_msg_roundtrip:
  assumes "head_type (msg_head msg) = msg_type_code UFCS_CTRL_MSG"
  shows "\<exists>bs. ufcs_pack_msg config msg UFCS_MSG_SIZE_MAX = Inr (bs, msg) \<and>
    (\<exists>r. ufcs_unpack_msg config True (bs @ rest) (length bs) = Some r \<and>
         ctrl_command r = ctrl_command msg \<and> head_type (msg_head r) = head_type (msg_head msg) \<and>
         msg_crc_good r)"
proof -
  let ?h = "to_be16 (pack_head (msg_head msg)) @ [ctrl_command msg]"
  let ?bs = "if check_crc config then ?h @ [crc8_calculate ?h 3] else ?h"
  have bs: "?bs @ rest = to_be16 (pack_head (msg_head msg)) @ [ctrl_command msg] @
      (if check_crc config then [crc8_calculate ?h 3] else []) @ rest"
    by simp
  have "msg_type_of (head_type (unpack_head (be16 (?bs @ rest) 0))) = Some UFCS_CTRL_MSG"
    unfolding bs be16_to_be16 using assms by (rule unpack_head_packed_type)
  then have "ufcs_unpack_msg config True (?bs @ rest) (length ?bs) =
    Some (zero_msg\<lparr>msg_head := unpack_head (pack_head (msg_head msg)), ctrl_command := ctrl_command msg,
      msg_crc := (if check_crc config then crc8_calculate ?h 3 else 0), msg_crc_good := True\<rparr>)"
    by (subst unpack_ctrl_frame) (auto simp: nth_append crc8_calculate_def)
  moreover have "ufcs_pack_msg config msg UFCS_MSG_SIZE_MAX = Inr (?bs, msg)"
    by (simp add: pack_ctrl_frame [OF assms] Let_def)
  moreover have "head_type (unpack_head (pack_head (msg_head msg))) = head_type (msg_head msg)"
    using assms by (simp add: unpack_pack_head_type)
  ultimately show ?thesis by (intro exI [of _ ?bs]) simp
qed

lemma ctrl_msg_roundtrip_witness:
  "\<exists>bs. ufcs_pack_msg (demo_config True) zero_msg UFCS_MSG_SIZE_MAX = Inr (bs, zero_msg) \<and>
    (\<exists>r. ufcs_unpack_msg (demo_config True) True (bs @ []) (length bs) = Some r \<and>
         ctrl_command r = ctrl_command zero_msg \<and>
         head_type (msg_head r) = head_type (msg_head zero_msg) \<and> msg_crc_good r)"
  by (rule ctrl_msg_roundtrip) (simp add: zero_msg_def)

lemma crc8_append: "k \<le> length xs \<Longrightarrow> crc8_calculate (xs @ ys) k = crc8_calculate xs k"
  by (simp add: crc8_calculate_def)

text \<open>What the receiver makes of the bytes of a data message, whatever follows them.\<close>

definition data_frame :: "ufcs_msg \<Rightarrow> bytes" where
  "data_frame msg =
     (let d = ufcs_data_msg_pack (data_msg msg)
      in to_be16 (pack_head (msg_head msg)) @ [dm_command d, dm_length d] @ take (unat (dm_length d)) (dm_data d))"

lemma data_frame_read:
  assumes "head_type (msg_head msg) = msg_type_code UFCS_DATA_MSG"
    and "data_msg_of (dm_command (data_msg msg)) = Some m" and "m \<noteq> DATA_MSG_POWER_CHANGE"
    and "unat (dm_length (data_msg msg)) = payload_size m"
    and "length (dm_data (data_msg msg)) = 59"
    and "drop (payload_size m) (dm_data (data_msg msg)) = replicate (59 - payload_size m) 0"
  shows "length (data_frame msg) = payload_size m + 4"
    and "msg_type_of (head_type (unpack_head (be16 (data_frame msg @ rest) 0))) = Some UFCS_DATA_MSG"
    and "unat ((data_frame msg @ rest) ! 3) = payload_size m"
    and "data_msg (data_frame_msg (data_frame msg @ rest) (payload_size m)) = data_msg msg"
    and "head_type (msg_head (data_frame_msg (data_frame msg @ rest) (payload_size m))) = head_type (msg_head msg)"
proof -
  let ?d = "ufcs_data_msg_pack (data_msg msg)" and ?n = "payload_size m"
  let ?bs = "to_be16 (pack_head (msg_head msg)) @ [dm_command ?d, dm_length ?d] @ take ?n (dm_data ?d)"
  have bs: "data_frame msg = ?bs" by (simp add: data_frame_def Let_def assms(4))
  have n: "?n \<le> 56" by (rule payload_size_le)
  have cmd: "dm_command (data_msg msg) \<noteq> data_code DATA_MSG_POWER_CHANGE"
    using assms(2,3) by (metis data_msg_of_code option.inject)
  have len: "length (dm_data ?d) = 59" using data_msg_pack_length [OF assms(5) cmd] .
  have tail: "drop ?n (dm_data ?d) = replicate (59 - ?n) 0"
    using data_msg_pack_tail [OF assms(5,2,3)] assms(6) by simp
  have at3: "(?bs @ rest) ! 3 = dm_length ?d" "(?bs @ rest) ! 2 = dm_command ?d"
    by (simp_all add: to_be16_def)
  have pay: "get_bytes 4 ?n (?bs @ rest) = take ?n (dm_data ?d)"
    using n len by (simp add: get_bytes_def to_be16_def)
  have head: "be16 (?bs @ rest) 0 = pack_head (msg_head msg)" by simp
  have put: "put_bytes 0 (take ?n (dm_data ?d)) (replicate 59 0) = dm_data ?d"
    using n len tail by (intro take_put_zero) (simp_all add: min_def)
  show "length (data_frame msg) = ?n + 4" unfolding bs using n len by simp
  show "msg_type_of (head_type (unpack_head (be16 (data_frame msg @ rest) 0))) = Some UFCS_DATA_MSG"
    unfolding bs head using assms(1) by (rule unpack_head_packed_type)
  show "unat ((data_frame msg @ rest) ! 3) = ?n" unfolding bs at3 by (simp add: assms(4))
  have whole: "\<lparr>dm_command = dm_command (data_msg msg), dm_length = dm_length (data_msg msg),
    dm_data = dm_data ?d\<rparr> = ?d"
    by (rule ufcs_data_msg.equality) simp_all
  have init: "ufcs_data_msg_init \<lparr>dm_command = dm_command (data_msg msg),
    dm_length = dm_length (data_msg msg), dm_data = dm_data ?d\<rparr> = data_msg msg"
    unfolding whole by (rule data_msg_init_pack [OF assms(5) cmd])
  show "data_msg (data_frame_msg (data_frame msg @ rest) ?n) = data_msg msg"
    unfolding bs using n len
    by (simp only: data_frame_msg_def pay at3 Let_def copy_data_def)
      (simp add: zero_msg_def put min_def init)
  have "msg_head (data_frame_msg (?bs @ rest) ?n) = unpack_head (pack_head (msg_head msg))"
    by (simp only: data_frame_msg_def head Let_def copy_data_def) simp
  then show "head_type (msg_head (data_frame_msg (data_frame msg @ rest) ?n)) = head_type (msg_head msg)"
    unfolding bs using assms(1) by (simp add: unpack_pack_head_type)
qed

text \<open>C3: A data message of a known command other than the power change, with the payload length of its struct and zeros
  behind the payload, is packed whether CRC checking is on or off. What the other side does with the frame is known
  exactly: without CRC checking it gets the same command, length and payload, in CPU byte order again; with CRC checking
  it drops the frame unless the CRC over one byte less happens to be the same, and gets the same message if so.\<close>

theorem data_msg_roundtrip:
  assumes "head_type (msg_head msg) = msg_type_code UFCS_DATA_MSG"
    and "data_msg_of (dm_command (data_msg msg)) = Some m" and "m \<noteq> DATA_MSG_POWER_CHANGE"
    and "unat (dm_length (data_msg msg)) = payload_size m"
    and "length (dm_data (data_msg msg)) = 59"
    and "drop (payload_size m) (dm_data (data_msg msg)) = replicate (59 - payload_size m) 0"
  shows "\<exists>bs msg'. ufcs_pack_msg config msg UFCS_MSG_SIZE_MAX = Inr (bs, msg') \<and>
    (case ufcs_unpack_msg config True (bs @ rest) (length bs) of
       None \<Rightarrow> check_crc config \<and> crc8_calculate bs (payload_size m + 4) \<noteq> crc8_calculate bs (payload_size m + 3)
     | Some r \<Rightarrow>
         (check_crc config \<longrightarrow> crc8_calculate bs (payload_size m + 4) = crc8_calculate bs (payload_size m + 3)) \<and>
         data_msg r = data_msg msg \<and> head_type (msg_head r) = head_type (msg_head msg))"
proof -
  let ?n = "payload_size m" and ?f = "data_frame msg"
  note f = data_frame_read [OF assms]
  have n: "?n \<le> 56" by (rule payload_size_le)
  have pack: "ufcs_pack_msg config msg UFCS_MSG_SIZE_MAX =
      Inr (if check_crc config then ?f @ [crc8_calculate ?f (length ?f)] else ?f, msg\<lparr>data_msg := ufcs_data_msg_pack (data_msg msg)\<rparr>)"
    using assms(4) n by (simp add: pack_data_frame [OF assms(1)] Let_def data_frame_def)
  show ?thesis
  proof (cases "check_crc config")
    case False
    have "ufcs_unpack_msg config True (?f @ rest) (length ?f) = Some (data_frame_msg (?f @ rest) ?n)"
      using unpack_data_frame_plain [OF f(2) [of rest] False, of "length ?f"] f(1) f(3) [of rest] n by simp
    then show ?thesis using pack False f(4,5) by simp
  next
    case True
    let ?c = "crc8_calculate ?f (length ?f)"
    let ?bs = "?f @ [?c]"
    have crc: "crc8_calculate (?f @ ys) k = crc8_calculate ?f k" if "k \<le> ?n + 4" for k ys
      using that f(1) by (intro crc8_append) simp
    have at: "(?f @ [?c] @ rest) ! (4 + ?n) = ?c" using f(1) by (simp add: nth_append)
    have "ufcs_unpack_msg config True (?f @ [?c] @ rest) (length ?bs) =
      (if ?c = crc8_calculate ?f (3 + ?n) then Some ((data_frame_msg (?f @ [?c] @ rest) ?n)\<lparr>msg_crc := ?c\<rparr>) else None)"
    proof -
      have l: "length ?bs = unat ((?f @ [?c] @ rest) ! 3) + 5" "length ?bs \<le> 64" using f(1) n unfolding f(3) by simp_all
      have c3: "crc8_calculate (?f @ [?c] @ rest) (3 + ?n) = crc8_calculate ?f (3 + ?n)" by (rule crc) simp
      show ?thesis unfolding unpack_data_frame_crc [OF f(2) True l] f(3) at c3 ..
    qed
    then show ?thesis using pack True f(1) f(4,5) [of "[?c] @ rest"] crc [of _ "[?c]"]
      by (intro exI [of _ ?bs] exI [of _ "msg\<lparr>data_msg := ufcs_data_msg_pack (data_msg msg)\<rparr>"]) (auto simp: add.commute)
  qed
qed

lemma data_msg_roundtrip_witness:
  "\<exists>bs msg'. ufcs_pack_msg (demo_config False) (demo_data_msg 8 [0x12, 0x34]) UFCS_MSG_SIZE_MAX = Inr (bs, msg') \<and>
    (\<exists>r. ufcs_unpack_msg (demo_config False) True (bs @ [7]) (length bs) = Some r \<and>
         data_msg r = data_msg (demo_data_msg 8 [0x12, 0x34]) \<and>
         head_type (msg_head r) = head_type (msg_head (demo_data_msg 8 [0x12, 0x34])))"
  using data_msg_roundtrip [where m = DATA_MSG_CONFIG_WATCHDOG and msg = "demo_data_msg 8 [0x12, 0x34]" and config = "demo_config False" and rest = "[7]"]
  by (auto simp: demo_simps data_msg_of_def data_msgs_def split: option.splits)

lemma length_power_change_recv_step:
  "4 * i + 4 \<le> length b \<Longrightarrow> length (power_change_recv_step i b) = length b"
  by (simp add: power_change_recv_step_def length_put_bytes)

lemma nth_power_change_recv_step:
  "4 * i + 4 \<le> length b \<Longrightarrow> k < 4 * i \<Longrightarrow> power_change_recv_step i b ! k = b ! k"
  by (simp add: power_change_recv_step_def nth_put_bytes)

lemma get_power_change_recv_step:
  "4 * i + 4 \<le> length b \<Longrightarrow> 4 * j + 4 \<le> length b \<Longrightarrow> i \<noteq> j \<Longrightarrow>
   get_bytes (4 * j) 4 (power_change_recv_step i b) = get_bytes (4 * j) 4 b"
  unfolding power_change_recv_step_def by (rule get_put_bytes_other) auto

lemma get_power_change_recv_step_same:
  fixes b :: bytes
  assumes "4 * i + 4 \<le> length b"
  shows "le_word (get_bytes (4 * i) 4 (power_change_recv_step i b)) =
    (push_bit 16 (ucast (b ! i)) + push_bit 8 (ucast (b ! (i + 1))) + ucast (b ! (i + 2)) :: u32)"
  unfolding power_change_recv_step_def
  using assms get_put_bytes_same [of "4 * i" "le_bytes 4 w" b for w :: u32]
  by (simp add: le_word_le_bytes del: push_bit_numeral)

text \<open>The receive loop runs from the last entry down, so every entry it writes lies behind the
  bytes it still reads.\<close>

lemma power_change_recv_loop:
  assumes "4 * k + 4 \<le> length b" and "1 \<le> i" and "i \<le> k"
  shows "le_word (get_bytes (4 * i) 4 (fold power_change_recv_step (rev [1..<Suc k]) b)) =
    (push_bit 16 (ucast (b ! i)) + push_bit 8 (ucast (b ! (i + 1))) + ucast (b ! (i + 2)) :: u32)"
  using assms
proof (induction k arbitrary: b)
  case (Suc k)
  let ?b = "power_change_recv_step (Suc k) b"
  have len: "length ?b = length b" using Suc.prems by (simp add: length_power_change_recv_step)
  have keep: "get_bytes (4 * Suc k) 4 (fold power_change_recv_step (rev [1..<Suc j]) c) =
      get_bytes (4 * Suc k) 4 c" if "j \<le> k" "length c = length b" for j c
    using that
  proof (induction j arbitrary: c)
    case (Suc j)
    then have "get_bytes (4 * Suc k) 4 (power_change_recv_step (Suc j) c) = get_bytes (4 * Suc k) 4 c"
      using \<open>4 * Suc k + 4 \<le> length b\<close> by (intro get_power_change_recv_step) auto
    then show ?case using Suc \<open>4 * Suc k + 4 \<le> length b\<close>
      by (simp add: length_power_change_recv_step)
  qed simp
  show ?case
  proof (cases "i = Suc k")
    case True
    then show ?thesis
      using Suc.prems keep [OF order_refl len] get_power_change_recv_step_same [of "Suc k" b] by simp
  next
    case False
    then have i: "i \<le> k" using Suc.prems by simp
    have "?b ! j = b ! j" if "j \<le> i + 2" for j
      using that i Suc.prems by (intro nth_power_change_recv_step) auto
    then show ?thesis using Suc.IH [of ?b] Suc.prems i len by simp
  qed
qed simp

text \<open>Decoding a power change message: entry \<open>i \<ge> 1\<close> is built from
  the bytes \<open>i\<close>, \<open>i + 1\<close> and \<open>i + 2\<close> of the payload, so
  neighbouring entries share two bytes (a 24-bit entry of its own would start at byte \<open>3 *
  i\<close>).\<close>

theorem power_change_decodes_overlapping_bytes:
  assumes "28 \<le> length (dm_data d)" and "1 \<le> i" and "i < UFCS_OUTPUT_MODE_MAX"
  shows "dm_u32 (ufcs_recv_data_msg_power_change d) i =
    push_bit 16 (ucast (dm_data d ! i)) + push_bit 8 (ucast (dm_data d ! (i + 1)))
      + ucast (dm_data d ! (i + 2))"
proof -
  have "rev [1..<Suc 6] = [6, 5, 4, 3, 2, 1::nat]" by (simp add: upt_rec)
  then show ?thesis
    using power_change_recv_loop [of 6 "dm_data d" i] assms
    by (simp add: dm_u32_def ufcs_recv_data_msg_power_change_def msg_sizes)
qed

lemma power_change_decodes_overlapping_bytes_witness:
  "dm_u32 (ufcs_recv_data_msg_power_change (data_msg (demo_data_msg 12 [0, 1, 2, 3, 4]))) 1 = 0x010203"
  using power_change_decodes_overlapping_bytes [of "data_msg (demo_data_msg 12 [0, 1, 2, 3, 4])" 1]
  by (simp add: demo_simps)

section \<open>Well-formed messages\<close>

lemma length_power_change_recv:
  "length (dm_data d) = 59 \<Longrightarrow> length (dm_data (ufcs_recv_data_msg_power_change d)) = 59"
  by (simp add: ufcs_recv_data_msg_power_change_def length_power_change_recv_step)

lemma length_power_change_pack_step:
  "i + 3 \<le> length b \<Longrightarrow> length (power_change_pack_step i b) = length b"
  by (simp add: power_change_pack_step_def Let_def length_put_bytes)

lemma length_power_change_pack:
  "length (dm_data d) = 59 \<Longrightarrow> length (dm_data (ufcs_pack_data_msg_power_change d)) = 59"
  by (simp add: ufcs_pack_data_msg_power_change_def length_power_change_pack_step upt_rec)

lemma data_msg_init_length:
  "length (dm_data d) = 59 \<Longrightarrow> length (dm_data (ufcs_data_msg_init d)) = 59"
  by (simp add: ufcs_data_msg_init_def data_msg_conversions length_rev_bytes fold_rev_8 msg_sizes
      length_power_change_recv split: option.split ufcs_data_msg_type.split)

lemma data_msg_pack_length_all:
  "length (dm_data d) = 59 \<Longrightarrow> length (dm_data (ufcs_data_msg_pack d)) = 59"
  by (simp add: ufcs_data_msg_pack_def data_msg_conversions length_rev_bytes fold_rev_8 msg_sizes
      length_power_change_pack split: option.split ufcs_data_msg_type.split)

lemma data_msg_init_meta [simp]:
  "dm_command (ufcs_data_msg_init d) = dm_command d" "dm_length (ufcs_data_msg_init d) = dm_length d"
  by (simp_all add: ufcs_data_msg_init_def data_msg_conversions ufcs_recv_data_msg_power_change_def
      split: option.split ufcs_data_msg_type.split)

lemma oplus_data_msg_init_length:
  "length (vm_data v) = 58 \<Longrightarrow> length (vm_data (ufcs_oplus_data_msg_init v)) = 58"
  using length_fold_rev [of 1 8 7 "vm_data v"]
  by (simp add: ufcs_oplus_data_msg_init_def ufcs_recv_oplus_data_msg_emark_info_def
      ufcs_recv_data_msg_power_info_ext_def length_rev_bytes
      split: option.split ufcs_oplus_vnd_msg_type.split)

lemma zero_msg_wf [simp]: "msg_wf zero_msg"
  by (simp add: msg_wf_def zero_msg_def msg_sizes)

lemma copy_data_wf: "msg_wf m \<Longrightarrow> msg_wf (copy_data xs m)"
  by (simp add: msg_wf_def copy_data_def length_put_bytes msg_sizes)

lemma copy_vendor_wf: "msg_wf m \<Longrightarrow> msg_wf (copy_vendor xs m)"
  by (simp add: msg_wf_def copy_vendor_def length_put_bytes msg_sizes)

lemma msg_wf_updates [simp]:
  "msg_wf (m\<lparr>msg_head := h\<rparr>) = msg_wf m" "msg_wf (m\<lparr>ctrl_command := c\<rparr>) = msg_wf m"
  "msg_wf (m\<lparr>msg_crc := x\<rparr>) = msg_wf m" "msg_wf (m\<lparr>msg_crc_good := g\<rparr>) = msg_wf m"
  by (simp_all add: msg_wf_def)

lemma msg_wf_data [simp]:
  "msg_wf m \<Longrightarrow> msg_wf (m\<lparr>data_msg := ufcs_data_msg_init (data_msg m)\<rparr>)"
  "msg_wf m \<Longrightarrow> msg_wf (m\<lparr>data_msg := ufcs_data_msg_pack (data_msg m)\<rparr>)"
  "msg_wf m \<Longrightarrow> msg_wf (m\<lparr>data_msg := (data_msg m)\<lparr>dm_command := c, dm_length := l\<rparr>\<rparr>)"
  "msg_wf m \<Longrightarrow> msg_wf (m\<lparr>vendor_msg := ufcs_oplus_data_msg_init (vendor_msg m)\<rparr>)"
  "msg_wf m \<Longrightarrow> msg_wf (m\<lparr>vendor_msg := (vendor_msg m)\<lparr>vm_vnd_id := i, vm_length := l\<rparr>\<rparr>)"
  by (simp_all add: msg_wf_def msg_sizes data_msg_init_length data_msg_pack_length_all
      oplus_data_msg_init_length)

lemma received_msg_wf [simp]:
  "msg_wf (zero_msg\<lparr>msg_head := h, data_msg := (data_msg zero_msg)\<lparr>dm_command := c, dm_length := l\<rparr>\<rparr>)"
  "msg_wf (zero_msg\<lparr>msg_head := h, vendor_msg := (vendor_msg zero_msg)\<lparr>vm_vnd_id := i, vm_length := l\<rparr>\<rparr>)"
  by (simp_all add: msg_wf_def zero_msg_def msg_sizes)

lemma ufcs_unpack_msg_wf: "ufcs_unpack_msg config mem buf len = Some r \<Longrightarrow> msg_wf r"
  unfolding ufcs_unpack_msg_def Let_def
  by (auto split: if_splits option.splits ufcs_msg_type.splits
      intro!: msg_wf_data copy_data_wf copy_vendor_wf simp: msg_wf_updates)

lemma data_msg_pack_eq_init:
  "dm_command d \<noteq> data_code DATA_MSG_POWER_CHANGE \<Longrightarrow> ufcs_data_msg_pack d = ufcs_data_msg_init d"
  by (auto simp: ufcs_data_msg_init_def ufcs_data_msg_pack_def data_msg_conversions data_msg_of_Some
      split: option.split ufcs_data_msg_type.split)

text \<open>With CRC checking, the frame \<^verbatim>\<open>ufcs_pack_msg\<close> builds for
  a data message is accepted by \<^verbatim>\<open>ufcs_unpack_msg\<close> only if leaving out
  the last payload byte does not change the CRC: the two sides disagree on the covered length.\<close>

theorem data_crc_covers_one_byte_less:
  assumes "head_type (msg_head msg) = msg_type_code UFCS_DATA_MSG" and "check_crc config"
    and "unat (dm_length (data_msg msg)) = n" and "n \<le> 58"
    and "length (dm_data (ufcs_data_msg_pack (data_msg msg))) = 59"
  shows "\<exists>bs msg'. ufcs_pack_msg config msg UFCS_MSG_SIZE_MAX = Inr (bs, msg') \<and> length bs = n + 5 \<and>
    (ufcs_unpack_msg config True (bs @ rest) (length bs) \<noteq> None \<longleftrightarrow>
       crc8_calculate bs (n + 4) = crc8_calculate bs (n + 3))"
proof -
  let ?d = "ufcs_data_msg_pack (data_msg msg)"
  let ?p = "to_be16 (pack_head (msg_head msg)) @ [dm_command ?d, dm_length ?d] @ take n (dm_data ?d)"
  let ?bs = "?p @ [crc8_calculate ?p (n + 4)]"
  have len: "length ?p = n + 4" "length ?bs = n + 5" using assms by simp_all
  have at: "(?bs @ rest) ! 3 = dm_length ?d" "(?bs @ rest) ! (n + 4) = crc8_calculate ?p (n + 4)"
    using len by (simp_all add: to_be16_def nth_append)
  have n: "unat ((?bs @ rest) ! 3) = n" unfolding at by (simp add: assms(3))
  have crc: "crc8_calculate (?bs @ rest) k = crc8_calculate ?p k"
    "crc8_calculate ?bs k = crc8_calculate ?p k" if "k \<le> n + 4" for k
    using that unfolding append_assoc [of ?p] by (subst crc8_append; simp only: len)+
  have head: "be16 (?bs @ rest) 0 = pack_head (msg_head msg)" by simp
  have ty: "msg_type_of (head_type (unpack_head (be16 (?bs @ rest) 0))) = Some UFCS_DATA_MSG"
    unfolding head using assms(1) by (rule unpack_head_packed_type)
  have "length ?bs = unat ((?bs @ rest) ! 3) + 5" "length ?bs \<le> 64"
    using len n assms(4) by simp_all
  from unpack_data_frame_crc [OF ty assms(2) this]
  have "ufcs_unpack_msg config True (?bs @ rest) (length ?bs) \<noteq> None \<longleftrightarrow>
      (?bs @ rest) ! (4 + n) = crc8_calculate (?bs @ rest) (3 + n)"
    unfolding n by (simp only: option.distinct(2) not_False_eq_True not_True_eq_False split: if_split) blast
  then have "ufcs_unpack_msg config True (?bs @ rest) (length ?bs) \<noteq> None \<longleftrightarrow>
      crc8_calculate ?bs (n + 4) = crc8_calculate ?bs (n + 3)"
    unfolding add.commute [of _ n] at(2) by (simp only: crc add_le_cancel_left order_refl numeral_le_iff semiring_norm)
  moreover have "ufcs_pack_msg config msg UFCS_MSG_SIZE_MAX = Inr (?bs, msg\<lparr>data_msg := ?d\<rparr>)"
    using assms len(1) by (simp add: pack_data_frame [OF assms(1)] Let_def eval_nat_numeral)
  ultimately show ?thesis using len(2) by blast
qed

lemma data_crc_covers_one_byte_less_witness:
  "\<exists>bs msg'. ufcs_pack_msg (demo_config True) (demo_data_msg 8 [0x12, 0x34]) UFCS_MSG_SIZE_MAX = Inr (bs, msg') \<and>
    length bs = 2 + 5 \<and>
    (ufcs_unpack_msg (demo_config True) True (bs @ []) (length bs) \<noteq> None \<longleftrightarrow>
       crc8_calculate bs (2 + 4) = crc8_calculate bs (2 + 3))"
  by (rule data_crc_covers_one_byte_less)
    (simp_all add: data_msg_pack_length_all demo_simps)

text \<open>Packing converts the payload of the message in place, so packing the same
  message a second time (a retransmission) converts it back: the second frame carries the
  payload in CPU byte order.\<close>

theorem resend_sends_unconverted_payload:
  assumes "head_type (msg_head msg) = msg_type_code UFCS_DATA_MSG" and "msg_wf msg"
    and "dm_command (data_msg msg) \<noteq> data_code DATA_MSG_POWER_CHANGE"
    and "ufcs_pack_msg config msg UFCS_MSG_SIZE_MAX = Inr (bs, msg')"
    and "ufcs_pack_msg config msg' UFCS_MSG_SIZE_MAX = Inr (bs', msg'')"
  shows "msg'' = msg \<and>
    get_bytes 4 (unat (dm_length (data_msg msg))) bs' =
      take (unat (dm_length (data_msg msg))) (dm_data (data_msg msg))"
proof -
  let ?d = "ufcs_data_msg_pack (data_msg msg)" and ?n = "unat (dm_length (data_msg msg))"
  have n: "?n \<le> 59" and sent: "msg' = msg\<lparr>data_msg := ?d\<rparr>"
    using assms(1,4) by (auto simp: ufcs_pack_msg_def Let_def msg_sizes MSG_HEAD_SIZE_def msg_type_of_def
        split: if_splits)
  have twice: "ufcs_data_msg_pack ?d = data_msg msg"
    using data_msg_init_pack [of "data_msg msg"] data_msg_pack_eq_init [of ?d] assms(2,3)
    by (simp add: msg_wf_def msg_sizes)
  have "msg'' = msg'\<lparr>data_msg := ufcs_data_msg_pack (data_msg msg')\<rparr>" and
    "take (?n + 4) bs' = to_be16 (pack_head (msg_head msg')) @
       [dm_command (data_msg msg'), dm_length (data_msg msg')] @ take ?n (dm_data (ufcs_data_msg_pack (data_msg msg')))"
    using assms(1,2,5) n unfolding sent
    by (auto simp: ufcs_pack_msg_def Let_def msg_sizes MSG_HEAD_SIZE_def msg_type_of_def twice msg_wf_def
        split: if_splits)
  then have "msg'' = msg" and "drop 4 (take (?n + 4) bs') = take ?n (dm_data (data_msg msg))"
    unfolding sent by (simp_all add: twice)
  then show ?thesis by (simp add: get_bytes_def take_drop)
qed

lemma resend_sends_unconverted_payload_witness:
  "\<exists>bs msg' bs' msg''.
     ufcs_pack_msg (demo_config False) (demo_data_msg 8 [0x12, 0x34]) UFCS_MSG_SIZE_MAX = Inr (bs, msg') \<and>
     ufcs_pack_msg (demo_config False) msg' UFCS_MSG_SIZE_MAX = Inr (bs', msg'') \<and>
     msg'' = demo_data_msg 8 [0x12, 0x34] \<and> get_bytes 4 2 bs' = [0x12, 0x34] \<and> get_bytes 4 2 bs = [0x34, 0x12]"
proof -
  let ?m = "demo_data_msg 8 [0x12, 0x34]"
  let ?m' = "?m\<lparr>data_msg := ufcs_data_msg_pack (data_msg ?m)\<rparr>"
  let ?h = "to_be16 (pack_head (msg_head ?m))"
  have wf: "msg_wf ?m" "head_type (msg_head ?m) = msg_type_code UFCS_DATA_MSG"
    "dm_command (data_msg ?m) \<noteq> data_code DATA_MSG_POWER_CHANGE" "unat (dm_length (data_msg ?m)) = 2"
    "take 2 (dm_data (data_msg ?m)) = [0x12, 0x34]"
    by (simp_all add: demo_simps)
  have p: "take 2 (dm_data (ufcs_data_msg_pack (data_msg ?m))) = [0x34, 0x12]"
    by (simp add: demo_simps ufcs_data_msg_pack_def data_msg_of_def data_msgs_def
        ufcs_pack_data_msg_config_wd_def rev_bytes_def get_bytes_def put_bytes_def)
  obtain bs bs' msg'' where
    1: "ufcs_pack_msg (demo_config False) ?m UFCS_MSG_SIZE_MAX = Inr (bs, ?m')" and
    2: "ufcs_pack_msg (demo_config False) ?m' UFCS_MSG_SIZE_MAX = Inr (bs', msg'')" and
    3: "get_bytes 4 2 bs = [0x34, 0x12]"
    using pack_data_frame [of ?m "demo_config False"] pack_data_frame [of ?m' "demo_config False"] wf p
    by (simp add: Let_def demo_config_def get_bytes_def to_be16_def)
  show ?thesis
    using resend_sends_unconverted_payload [OF wf(2,1,3) 1 2] 1 2 3 unfolding wf(4,5) by blast
qed

text \<open>Packing into the 64-byte buffer never writes past it and never reads past the
  payload array of the message, for every message and configuration, and leaves the message well
  formed.\<close>

theorem pack_msg_in_bounds:
  assumes "msg_wf msg" and "ufcs_pack_msg config msg UFCS_MSG_SIZE_MAX = Inr (bs, msg')"
  shows "length bs \<le> UFCS_MSG_SIZE_MAX \<and> msg_wf msg' \<and>
    (head_type (msg_head msg) = msg_type_code UFCS_DATA_MSG \<longrightarrow>
       unat (dm_length (data_msg msg)) \<le> UFCS_DATA_MSG_DATA_SIZE_MAX) \<and>
    (head_type (msg_head msg) = msg_type_code UFCS_VENDOR_MSG \<longrightarrow>
       unat (vm_length (vendor_msg msg)) \<le> UFCS_VENDOR_MSG_DATA_SIZE_MAX)"
  using assms
  by (auto simp: ufcs_pack_msg_def Let_def msg_sizes MSG_HEAD_SIZE_def msg_type_of_def
      split: if_splits)

lemma pack_msg_in_bounds_witness:
  "length (to_be16 (pack_head (msg_head zero_msg)) @ [ctrl_command zero_msg]) \<le> UFCS_MSG_SIZE_MAX \<and>
   msg_wf zero_msg"
  using pack_msg_in_bounds [of zero_msg "demo_config False"
      "to_be16 (pack_head (msg_head zero_msg)) @ [ctrl_command zero_msg]" zero_msg]
    pack_ctrl_frame [of zero_msg "demo_config False"]
  by (simp add: demo_simps)

text \<open>Without CRC checking a 64-byte data frame that announces 60 payload bytes is
  accepted although the payload array has 59: the last byte lands in the
  \<^verbatim>\<open>crc\<close> field behind the array.\<close>

theorem unpack_data_overflow:
  assumes "msg_type_of (head_type (unpack_head (be16 buf 0))) = Some UFCS_DATA_MSG"
    and "\<not> check_crc config" and "buf ! 3 = 60" and "length buf = UFCS_MSG_SIZE_MAX"
  shows "\<exists>r. ufcs_unpack_msg config True buf 64 = Some r \<and>
    UFCS_DATA_MSG_DATA_SIZE_MAX < unat (dm_length (data_msg r)) \<and> msg_crc r = buf ! 63"
proof -
  have "ufcs_unpack_msg config True buf 64 = Some (data_frame_msg buf 60)"
    using unpack_data_frame_plain [OF assms(1,2), of 64] assms(3) by simp
  moreover have "msg_crc (data_frame_msg buf 60) = buf ! 63"
    using assms(4) by (simp add: data_frame_msg_def copy_data_def Let_def get_bytes_def msg_sizes)
  moreover have "dm_length (data_msg (data_frame_msg buf 60)) = 60"
    using assms(3) by (simp add: data_frame_msg_def copy_data_def Let_def)
  ultimately show ?thesis by (simp add: msg_sizes)
qed

lemma unpack_data_overflow_witness:
  "\<exists>r. ufcs_unpack_msg (demo_config False) True ([0, 1, 8, 60] @ replicate 59 0 @ [0xab]) 64 = Some r \<and>
    UFCS_DATA_MSG_DATA_SIZE_MAX < unat (dm_length (data_msg r)) \<and>
    msg_crc r = ([0, 1, 8, 60] @ replicate 59 0 @ [0xab]) ! 63"
  by (rule unpack_data_overflow)
    (simp_all add: demo_config_def be16_def unpack_head_def msg_type_of_def msg_sizes)

end
