(* ===== verification/Ufcs_Sha256.thy ===== *)
theory Ufcs_Sha256
  imports Ufcs_Prelude
begin

unbundle bit_operations_syntax

text \<open>
  \<^verbatim>\<open>ufcs_sha256.c\<close>: the digest both sides of the authentication compute. The model follows
  the C function loop by loop, with the static 64-byte buffer as a state that is passed in and
  out. The reference is the SHA-256 of FIPS 180-4 for messages of any length: padding, blocks,
  the message schedule as a recursive function, rotations as the library's
  \<^term>\<open>word_rotr\<close>, and the round constants and initial values defined as fractional parts of
  cube and square roots of primes instead of as tables.
\<close>

section \<open>The function of the driver\<close>

definition ufcs_source_data :: bytes where
  "ufcs_source_data =
     [0x00, 0x00, 0x00, 0x00, 0x00, 0x00, 0x00, 0x00, 0x00, 0x00, 0x00,
      0x00, 0x00, 0x00, 0x00, 0x00, 0x24, 0x8d, 0x6a, 0x61, 0xd2, 0x06,
      0x38, 0xb8, 0xe5, 0xc0, 0x26, 0x93, 0x0c, 0x3e, 0x60, 0x39, 0x00,
      0x00, 0x00, 0x00, 0x00, 0x00, 0x00, 0x00, 0x00, 0x00, 0x00, 0x00,
      0x00, 0x00, 0x00, 0x00, 0x80, 0x00, 0x00, 0x00, 0x00, 0x00, 0x00,
      0x00, 0x00, 0x00, 0x00, 0x00, 0x00, 0x00, 0x01, 0x80]"

text \<open>The rows are those of the table in the source.\<close>

definition ufcs_verify :: "u32 list" where
  "ufcs_verify =
     [0x428a2f98, 0x71374491, 0xb5c0fbcf, 0xe9b5dba5, 0x3956c25b, 0x59f111f1] @
     [0x923f82a4, 0xab1c5ed5, 0xd807aa98, 0x12835b01, 0x243185be, 0x550c7dc3] @
     [0x72be5d74, 0x80deb1fe, 0x9bdc06a7, 0xc19bf174, 0xe49b69c1, 0xefbe4786] @
     [0x0fc19dc6, 0x240ca1cc, 0x2de92c6f, 0x4a7484aa, 0x5cb0a9dc, 0x76f988da] @
     [0x983e5152, 0xa831c66d, 0xb00327c8, 0xbf597fc7, 0xc6e00bf3, 0xd5a79147] @
     [0x06ca6351, 0x14292967, 0x27b70a85, 0x2e1b2138, 0x4d2c6dfc, 0x53380d13] @
     [0x650a7354, 0x766a0abb, 0x81c2c92e, 0x92722c85, 0xa2bfe8a1, 0xa81a664b] @
     [0xc24b8b70, 0xc76c51a3, 0xd192e819, 0xd6990624, 0xf40e3585, 0x106aa070] @
     [0x19a4c116, 0x1e376c08, 0x2748774c, 0x34b0bcb5, 0x391c0cb3, 0x4ed8aa4a] @
     [0x5b9cca4f, 0x682e6ff3, 0x748f82ee, 0x78a5636f, 0x84c87814, 0x8cc70208] @
     [0x90befffa, 0xa4506ceb, 0xbef9a3f7, 0xc67178f2]"

definition ROTRIGHT :: "u32 \<Rightarrow> nat \<Rightarrow> u32" where
  "ROTRIGHT a b = drop_bit b a OR push_bit (32 - b) a"
definition CH :: "u32 \<Rightarrow> u32 \<Rightarrow> u32 \<Rightarrow> u32" where
  "CH x y z = (x AND y) XOR (NOT x AND z)"
definition MAJ :: "u32 \<Rightarrow> u32 \<Rightarrow> u32 \<Rightarrow> u32" where
  "MAJ x y z = (x AND y) XOR (x AND z) XOR (y AND z)"
definition EP0 :: "u32 \<Rightarrow> u32" where
  "EP0 x = ROTRIGHT x 2 XOR ROTRIGHT x 13 XOR ROTRIGHT x 22"
definition EP1 :: "u32 \<Rightarrow> u32" where
  "EP1 x = ROTRIGHT x 6 XOR ROTRIGHT x 11 XOR ROTRIGHT x 25"
definition SIG0 :: "u32 \<Rightarrow> u32" where
  "SIG0 x = ROTRIGHT x 7 XOR ROTRIGHT x 18 XOR drop_bit 3 x"
definition SIG1 :: "u32 \<Rightarrow> u32" where
  "SIG1 x = ROTRIGHT x 17 XOR ROTRIGHT x 19 XOR drop_bit 10 x"

type_synonym hash_vars = "u32 \<times> u32 \<times> u32 \<times> u32 \<times> u32 \<times> u32 \<times> u32 \<times> u32"

definition UFCS_ENCRYPTION_HASH :: hash_vars where
  "UFCS_ENCRYPTION_HASH = (0x6a09e667, 0xbb67ae85, 0x3c6ef372, 0xa54ff53a,
     0x510e527f, 0x9b05688c, 0x1f83d9ab, 0x5be0cd19)"

text \<open>The loops of \<^verbatim>\<open>ufcs_get_encrypt_data\<close>: loading the buffer, the first sixteen words of
  \<^verbatim>\<open>m\<close>, the other forty-eight (\<^verbatim>\<open>m\<close> starts uninitialised; every entry is written before it
  is read), the rounds, and the output.\<close>

definition load_source :: "bytes \<Rightarrow> bytes \<Rightarrow> bytes \<Rightarrow> bytes \<Rightarrow> bytes" where
  "load_source random_a random_b auth_msg src =
     (let s1 = fold (\<lambda>i s. s[i := random_a ! i]) [0..<16] src;
          s2 = fold (\<lambda>i s. s[32 + i := random_b ! i]) [0..<16] s1
      in fold (\<lambda>i s. s[16 + i := auth_msg ! i]) [0..<16] s2)"

definition block_word :: "bytes \<Rightarrow> nat \<Rightarrow> u32" where
  "block_word s j = push_bit 24 (ucast (s ! j)) OR push_bit 16 (ucast (s ! (j + 1)))
     OR push_bit 8 (ucast (s ! (j + 2))) OR ucast (s ! (j + 3))"

definition load_words :: "bytes \<Rightarrow> u32 list \<Rightarrow> u32 list" where
  "load_words s m = fold (\<lambda>i m. m[i := block_word s (4 * i)]) [0..<16] m"

definition schedule_step :: "nat \<Rightarrow> u32 list \<Rightarrow> u32 list" where
  "schedule_step i m =
     m[i := SIG1 (m ! (i - 2)) + m ! (i - 7) + SIG0 (m ! (i - 15)) + m ! (i - 16)]"

fun hash_round :: "u32 list \<Rightarrow> nat \<Rightarrow> hash_vars \<Rightarrow> hash_vars" where
  "hash_round m i (a, b, c, d, e, f, g, h) =
     (let t1 = h + EP1 e + CH e f g + ufcs_verify ! i + m ! i;
          t2 = EP0 a + MAJ a b c
      in (t1 + t2, a, b, c, d + t1, e, f, g))"

fun hash_add :: "hash_vars \<Rightarrow> hash_vars \<Rightarrow> hash_vars" where
  "hash_add (a, b, c, d, e, f, g, h) (a', b', c', d', e', f', g', h') =
     (a + a', b + b', c + c', d + d', e + e', f + f', g + g', h + h')"

fun store_step :: "hash_vars \<Rightarrow> nat \<Rightarrow> bytes \<Rightarrow> bytes" where
  "store_step (a, b, c, d, e, f, g, h) i out =
     (let byte = (\<lambda>x :: u32. ucast (drop_bit (24 - i * 8) x AND 0xff))
      in out[i := byte a, i + 4 := byte b, i + 8 := byte c, i + 12 := byte d,
             i + 16 := byte e, i + 20 := byte f, i + 24 := byte g, i + 28 := byte h])"

definition ufcs_get_encrypt_data ::
  "bytes \<Rightarrow> bytes \<Rightarrow> bytes \<Rightarrow> bytes \<Rightarrow> bytes \<Rightarrow> bytes \<times> bytes" where
  "ufcs_get_encrypt_data src random_a random_b auth_msg encrypt_data =
     (let s = load_source random_a random_b auth_msg src;
          m = fold schedule_step [16..<64] (load_words s (replicate 64 0));
          vars = fold (hash_round m) [0..<64] UFCS_ENCRYPTION_HASH;
          vars' = hash_add vars UFCS_ENCRYPTION_HASH
      in (s, fold (store_step vars') [0..<4] encrypt_data))"

section \<open>Reference: SHA-256\<close>

definition floor_root :: "nat \<Rightarrow> nat \<Rightarrow> nat" where
  "floor_root k n = Max {r. r ^ k \<le> n}"

text \<open>The first 32 bits of the fractional part of the \<open>k\<close>-th root of \<open>p\<close>.\<close>

definition frac_root :: "nat \<Rightarrow> nat \<Rightarrow> u32" where
  "frac_root k p = of_nat (floor_root k (p * 2 ^ (32 * k)))"

text \<open>The primes below 312, by trial division with every number up to 17 (\<open>18 * 18 > 311\<close>).\<close>

definition small_primes :: "nat list" where
  "small_primes = map nat (filter (\<lambda>p. list_all (\<lambda>d. d < p \<longrightarrow> p mod d \<noteq> 0) [2..17]) [2..311])"

definition sha_k :: "nat \<Rightarrow> u32" where
  "sha_k t = frac_root 3 (small_primes ! t)"

definition sha_init :: hash_vars where
  "sha_init = (let h = (\<lambda>i. frac_root 2 (small_primes ! i))
     in (h 0, h 1, h 2, h 3, h 4, h 5, h 6, h 7))"

definition sha_sum0 :: "u32 \<Rightarrow> u32" where
  "sha_sum0 x = word_rotr 2 x XOR word_rotr 13 x XOR word_rotr 22 x"
definition sha_sum1 :: "u32 \<Rightarrow> u32" where
  "sha_sum1 x = word_rotr 6 x XOR word_rotr 11 x XOR word_rotr 25 x"
definition sha_sigma0 :: "u32 \<Rightarrow> u32" where
  "sha_sigma0 x = word_rotr 7 x XOR word_rotr 18 x XOR drop_bit 3 x"
definition sha_sigma1 :: "u32 \<Rightarrow> u32" where
  "sha_sigma1 x = word_rotr 17 x XOR word_rotr 19 x XOR drop_bit 10 x"

fun sha_w :: "(nat \<Rightarrow> u32) \<Rightarrow> nat \<Rightarrow> u32" where
  "sha_w M t = (if t < 16 then M t
     else sha_sigma1 (sha_w M (t - 2)) + sha_w M (t - 7) + sha_sigma0 (sha_w M (t - 15)) + sha_w M (t - 16))"

declare sha_w.simps [simp del]

fun sha_vars :: "(nat \<Rightarrow> u32) \<Rightarrow> hash_vars \<Rightarrow> nat \<Rightarrow> hash_vars" where
  "sha_vars M H 0 = H"
| "sha_vars M H (Suc t) =
     (case sha_vars M H t of (a, b, c, d, e, f, g, h) \<Rightarrow>
        let T1 = h + sha_sum1 e + ((e AND f) XOR (NOT e AND g)) + sha_k t + sha_w M t;
            T2 = sha_sum0 a + ((a AND b) XOR (a AND c) XOR (b AND c))
        in (T1 + T2, a, b, c, d + T1, e, f, g))"

definition sha_block :: "hash_vars \<Rightarrow> bytes \<Rightarrow> hash_vars" where
  "sha_block H blk = hash_add (sha_vars (\<lambda>t. le_word (rev (get_bytes (4 * t) 4 blk))) H 64) H"

definition sha_pad :: "bytes \<Rightarrow> bytes" where
  "sha_pad msg = msg @ [0x80] @ replicate ((119 - length msg mod 64) mod 64) 0
     @ rev (le_bytes 8 (of_nat (8 * length msg) :: u64))"

fun sha_chunks :: "bytes \<Rightarrow> bytes list" where
  "sha_chunks bs = (if bs = [] then [] else take 64 bs # sha_chunks (drop 64 bs))"

declare sha_chunks.simps [simp del]

fun hash_bytes :: "hash_vars \<Rightarrow> bytes" where
  "hash_bytes (a, b, c, d, e, f, g, h) = concat (map (\<lambda>x. rev (le_bytes 4 x)) [a, b, c, d, e, f, g, h])"

definition sha256 :: "bytes \<Rightarrow> bytes" where
  "sha256 msg = hash_bytes (foldl sha_block sha_init (sha_chunks (sha_pad msg)))"

section \<open>Auxiliary notions\<close>

text \<open>The integer roots the constants are the low words of.\<close>

definition cube_roots :: "nat list" where
  "cube_roots = [5411319704, 6194414737, 7344290767, 8215976869, 9551921755, 10098905585, 11043570340, 11460697813,
    12214315672, 13195500289, 13492127166, 14311783875, 14809980276, 15046980094, 15499789991, 16133124468,
    16720292289, 16907126662, 17444216262, 17784676812, 17950125167, 18429019306, 18734950876, 19175934170,
    19734090066, 20001703533, 20132865992, 20390182855, 20516441075, 20764397895, 21588763473, 21813078375,
    22141143685, 22248366392, 22769593852, 22871018771, 23170020180, 23461497531, 23651862830, 23931792517,
    24205322401, 24295138891, 24734567280, 24820601251, 24990902297, 25075189284, 25569408389, 26045227120,
    26200031510, 26276752392, 26428864332, 26653801653, 26727943347, 27092625994, 27306805839, 27517677555,
    27725365998, 27793908591, 27997534228, 28131656200, 28198240250, 28526537963, 28973835255, 29099129074]"

text \<open>The static buffer always holds the padding of a 48-byte message behind the three inputs.\<close>

definition source_padded :: "bytes \<Rightarrow> bool" where
  "source_padded s \<longleftrightarrow> length s = 64 \<and> drop 48 s = drop 48 ufcs_source_data"

section \<open>The driver computes SHA-256\<close>

lemma floor_root_eq:
  assumes "0 < k" and "r ^ k \<le> n" and "n < Suc r ^ k"
  shows "floor_root k n = r"
proof -
  have "s \<le> r" if "s ^ k \<le> n" for s
  proof (rule ccontr)
    assume "\<not> s \<le> r"
    then have "Suc r ^ k \<le> s ^ k" by (intro power_mono) auto
    with that assms(3) show False by simp
  qed
  then have "{s. s ^ k \<le> n} \<subseteq> {..r}" by auto
  then have "finite {s. s ^ k \<le> n}" using finite_subset by blast
  then show ?thesis
    unfolding floor_root_def using assms(2) \<open>\<And>s. s ^ k \<le> n \<Longrightarrow> s \<le> r\<close> by (intro Max_eqI) auto
qed

lemma frac_root_eq:
  assumes "r ^ k \<le> p * 2 ^ (32 * k)" and "p * 2 ^ (32 * k) < Suc r ^ k" and "0 < k"
  shows "frac_root k p = of_nat r"
  using floor_root_eq assms by (simp add: frac_root_def)

lemma small_primes_eq:
  "small_primes = [2, 3, 5, 7, 11, 13, 17, 19, 23, 29, 31, 37, 41, 43, 47, 53,
    59, 61, 67, 71, 73, 79, 83, 89, 97, 101, 103, 107, 109, 113, 127, 131,
    137, 139, 149, 151, 157, 163, 167, 173, 179, 181, 191, 193, 197, 199, 211, 223,
    227, 229, 233, 239, 241, 251, 257, 263, 269, 271, 277, 281, 283, 293, 307, 311]"
  by code_simp

lemma cube_roots_ok:
  "list_all2 (\<lambda>r p. r ^ 3 \<le> p * 2 ^ (32 * 3) \<and> p * 2 ^ (32 * 3) < Suc r ^ 3) cube_roots small_primes"
  by (simp add: cube_roots_def small_primes_eq power3_eq_cube)

lemma cube_roots_verify: "map of_nat cube_roots = ufcs_verify"
  by (simp add: cube_roots_def ufcs_verify_def)

lemma ufcs_verify_is_sha_k: "t < 64 \<Longrightarrow> ufcs_verify ! t = sha_k t"
proof -
  assume t: "t < 64"
  have len: "length cube_roots = 64" by (simp add: cube_roots_def)
  have "cube_roots ! t ^ 3 \<le> small_primes ! t * 2 ^ (32 * 3) \<and>
      small_primes ! t * 2 ^ (32 * 3) < Suc (cube_roots ! t) ^ 3"
    using list_all2_nthD [OF cube_roots_ok] t len by simp
  then have "sha_k t = of_nat (cube_roots ! t)"
    unfolding sha_k_def by (intro frac_root_eq) auto
  then show ?thesis using t len by (simp flip: cube_roots_verify)
qed

lemma sha_init_eq: "sha_init = UFCS_ENCRYPTION_HASH"
proof -
  have *: "frac_root 2 p = of_nat r" if "r\<^sup>2 \<le> p * 2 ^ (32 * 2)" "p * 2 ^ (32 * 2) < (Suc r)\<^sup>2" for r p
    using frac_root_eq [of r 2 p] that by simp
  show ?thesis
    unfolding sha_init_def Let_def small_primes_eq UFCS_ENCRYPTION_HASH_def
    by (simp add: * [of 6074000999 2] * [of 7439101573 3] * [of 9603838834 5] * [of 11363415354 7] * [of 14244795007 11] * [of 15485724812 13] * [of 17708603819 17] * [of 18721328409 19])
qed

lemma ROTRIGHT_word_rotr:
  assumes "0 < n" and "n < 32"
  shows "ROTRIGHT x n = word_rotr n x"
proof (rule bit_word_eqI)
  fix i assume "i < LENGTH(32)"
  then have i: "i < 32" by simp
  show "bit (ROTRIGHT x n) i = bit (word_rotr n x) i"
  proof (cases "i + n < 32")
    case True
    then show ?thesis using assms i
      by (auto simp: ROTRIGHT_def bit_word_rotr_iff bit_or_iff bit_drop_bit_eq bit_push_bit_iff ac_simps)
  next
    case False
    then have "(i + n) mod 32 = i + n - 32" using assms i by (simp add: mod_if)
    then show ?thesis using assms i False
      by (auto simp: ROTRIGHT_def bit_word_rotr_iff bit_or_iff bit_drop_bit_eq bit_push_bit_iff
          ac_simps bit_imp_le_length dest: bit_imp_le_length)
  qed
qed

lemmas sha_functions =
  EP0_def EP1_def SIG0_def SIG1_def sha_sum0_def sha_sum1_def sha_sigma0_def sha_sigma1_def
  CH_def MAJ_def

lemma sha_function_eqs:
  "EP0 = sha_sum0" "EP1 = sha_sum1" "SIG0 = sha_sigma0" "SIG1 = sha_sigma1"
  by (simp_all add: fun_eq_iff sha_functions ROTRIGHT_word_rotr)

lemma length_schedule_step: "length (schedule_step i m) = length m"
  by (simp add: schedule_step_def)

lemma schedule_step_nth:
  "t < length m \<Longrightarrow> schedule_step i m ! t =
     (if t = i then sha_sigma1 (m ! (i - 2)) + m ! (i - 7) + sha_sigma0 (m ! (i - 15)) + m ! (i - 16)
      else m ! t)"
  by (simp add: schedule_step_def sha_function_eqs nth_list_update)

lemma schedule_is_sha_w:
  assumes "length m = 64" and "\<forall>t < 16. m ! t = M t" and "k \<le> 64" and "16 \<le> k"
  shows "length (fold schedule_step [16..<k] m) = 64 \<and>
    (\<forall>t < k. fold schedule_step [16..<k] m ! t = sha_w M t)"
  using assms(3,4)
proof (induction k)
  case (Suc k)
  show ?case
  proof (cases "k < 16")
    case True
    then have "Suc k = 16" using Suc.prems by simp
    then show ?thesis using assms(1,2) by (simp add: sha_w.simps)
  next
    case False
    then have IH: "length (fold schedule_step [16..<k] m) = 64"
      "\<And>t. t < k \<Longrightarrow> fold schedule_step [16..<k] m ! t = sha_w M t"
      using Suc by simp_all
    have "sha_w M k = sha_sigma1 (sha_w M (k - 2)) + sha_w M (k - 7) + sha_sigma0 (sha_w M (k - 15))
        + sha_w M (k - 16)"
      using False by (subst sha_w.simps) simp
    moreover have "[16..<Suc k] = [16..<k] @ [k]" using False by simp
    ultimately show ?thesis
      using False IH Suc.prems schedule_step_nth [where i = k and m = "fold schedule_step [16..<k] m"]
      by (auto simp: less_Suc_eq length_schedule_step)
  qed
qed simp

lemma rounds_are_sha_vars:
  "k \<le> 64 \<Longrightarrow> (\<forall>t < 64. m ! t = sha_w M t) \<Longrightarrow>
   fold (hash_round m) [0..<k] H = sha_vars M H k"
proof (induction k)
  case (Suc k)
  obtain a b c d e f g h where "sha_vars M H k = (a, b, c, d, e, f, g, h)"
    by (metis surj_pair)
  then show ?case
    using Suc by (simp add: sha_function_eqs ufcs_verify_is_sha_k CH_def MAJ_def Let_def)
qed simp

lemma fold_store:
  assumes "off + k \<le> length s"
  shows "fold (\<lambda>i s. s[off + i := xs ! i]) [0..<k] s = put_bytes off (map ((!) xs) [0..<k]) s"
  using assms
proof (induction k)
  case 0
  then show ?case by (simp add: put_bytes_def)
next
  case (Suc k)
  then have "off + length (map ((!) xs) [0..<Suc k]) \<le> length s"
    "off + length (map ((!) xs) [0..<k]) \<le> length s" by simp_all
  then show ?case
    using Suc by (intro nth_equalityI) (auto simp: length_put_bytes nth_put_bytes nth_list_update nth_append
        length_put_bytes [of off "map ((!) xs) [0..<k]" s, simplified])
qed

lemma map_nth_all: "length xs = n \<Longrightarrow> map ((!) xs) [0..<n] = xs"
  using map_nth by blast

lemma load_source_eq:
  assumes "source_padded s" and "length ra = 16" and "length rb = 16" and "length au = 16"
  shows "load_source ra rb au s = ra @ au @ rb @ drop 48 ufcs_source_data"
proof -
  have len: "length s = 64" and tail: "drop 48 s = drop 48 ufcs_source_data"
    using assms(1) by (simp_all add: source_padded_def)
  have "load_source ra rb au s = put_bytes 16 au (put_bytes 32 rb (put_bytes 0 ra s))"
    using len assms(2-4) fold_store [of 0 16 s ra] fold_store [of 32 16 "put_bytes 0 ra s" rb]
      fold_store [of 16 16 "put_bytes 32 rb (put_bytes 0 ra s)" au]
    by (simp add: load_source_def Let_def map_nth_all length_put_bytes)
  also have "\<dots> = ra @ au @ rb @ drop 48 s"
    using len assms(2-4) by (simp add: put_bytes_def)
  finally show ?thesis using tail by simp
qed

lemma sha_pad_48: "length x = 48 \<Longrightarrow> sha_pad x = x @ drop 48 ufcs_source_data"
proof -
  assume x: "length x = 48"
  have eight: "(8 :: nat) = Suc (Suc (Suc (Suc (Suc (Suc (Suc (Suc 0)))))))" by simp
  have "le_bytes 8 (384 :: u64) = [0x80, 1, 0, 0, 0, 0, 0, 0]"
    by (simp only: eight le_bytes.simps) simp
  moreover have "replicate 7 (0 :: u8) = [0, 0, 0, 0, 0, 0, 0]"
    by (simp add: numeral_eq_Suc)
  moreover have "(119 - 48 mod 64) mod 64 = (7 :: nat)" by simp
  moreover have "drop 48 ufcs_source_data = [0x80, 0, 0, 0, 0, 0, 0, 0, 0, 0, 0, 0, 0, 0, 0x01, 0x80]"
    by (simp add: ufcs_source_data_def)
  ultimately show ?thesis by (simp add: sha_pad_def x)
qed

lemma block_word_be:
  "j + 4 \<le> length s \<Longrightarrow> block_word s j = le_word (rev (get_bytes j 4 s))"
proof -
  assume "j + 4 \<le> length s"
  then have "get_bytes j 4 s = [s ! j, s ! (j + 1), s ! (j + 2), s ! (j + 3)]"
    by (intro nth_equalityI) (auto simp: length_get_bytes nth_get_bytes less_Suc_eq numeral_eq_Suc)
  then show ?thesis
    by (simp add: block_word_def push_bit_or ac_simps)
qed

lemma bit_and_byte: "bit (w AND 0xff) n \<longleftrightarrow> bit w n \<and> n < 8" for w :: u32
proof -
  have "(0xff :: u32) = mask 8" by (simp add: mask_eq_exp_minus_1)
  then show ?thesis by (auto simp only: bit_and_iff bit_mask_iff possible_bit_word dest: bit_imp_le_length)
qed

lemma hash_bytes_store:
  assumes "length out = 32"
  shows "fold (store_step v) [0..<4] out = hash_bytes v"
proof -
  obtain a b c d e f g h where v: "v = (a, b, c, d, e, f, g, h)" by (metis surj_pair)
  have be: "rev (le_bytes 4 x) = [ucast (drop_bit 24 x), ucast (drop_bit 16 x), ucast (drop_bit 8 x), ucast x]"
    for x :: u32
    by (simp add: numeral_eq_Suc)
  have low: "(ucast (x AND 0xff) :: u8) = ucast x" for x :: u32
    by (rule bit_word_eqI) (auto simp: bit_ucast_iff bit_and_byte)
  have idx: "[0..<4] = [0, 1, 2, 3 :: nat]" by (simp add: upt_rec)
  have "length (fold (store_step v) [0..<4] out) = 32"
    using assms by (simp add: v idx Let_def)
  moreover have "length (hash_bytes v) = 32" by (simp add: v)
  moreover have "fold (store_step v) [0..<4] out ! i = hash_bytes v ! i" if "i < 32" for i
  proof -
    have "[0..<32] = [0, 1, 2, 3, 4, 5, 6, 7, 8, 9, 10, 11, 12, 13, 14, 15, 16, 17, 18, 19, 20, 21,
      22, 23, 24, 25, 26, 27, 28, 29, 30, 31 :: nat]" by (simp add: upt_rec)
    moreover have "i \<in> set [0..<32]" using that by simp
    ultimately have "i \<in> set [0, 1, 2, 3, 4, 5, 6, 7, 8, 9, 10, 11, 12, 13, 14, 15, 16, 17, 18, 19,
      20, 21, 22, 23, 24, 25, 26, 27, 28, 29, 30, 31 :: nat]" by (simp only:)
    then show ?thesis using assms
      by (simp only: list.set insert_iff empty_iff simp_thms, elim disjE) (simp_all add: v idx Let_def low be)
  qed
  ultimately show ?thesis by (intro nth_equalityI) simp_all
qed

lemma encrypt_data_sha256:
  assumes "source_padded src" and "length random_a = 16" and "length random_b = 16"
    and "length auth_msg = 16" and "length encrypt_data = 32"
  shows "\<exists>src'. source_padded src' \<and>
    ufcs_get_encrypt_data src random_a random_b auth_msg encrypt_data =
      (src', sha256 (random_a @ auth_msg @ random_b))"
proof -
  let ?s = "random_a @ auth_msg @ random_b @ drop 48 ufcs_source_data"
  let ?M = "\<lambda>t. le_word (rev (get_bytes (4 * t) 4 ?s)) :: u32"
  let ?m = "load_words ?s (replicate 64 0)"
  have tail: "length (drop 48 ufcs_source_data) = 16" by (simp add: ufcs_source_data_def)
  then have len: "length ?s = 64" using assms by simp
  have load: "load_source random_a random_b auth_msg src = ?s"
    using assms by (simp add: load_source_eq)
  have "load_words ?s (replicate 64 0) = put_bytes 0 (map ((!) (map (\<lambda>i. block_word ?s (4 * i)) [0..<16])) [0..<16]) (replicate 64 0)"
  proof -
    have "fold (\<lambda>i m. m[i := block_word ?s (4 * i)]) [0..<16] (replicate 64 0) =
      fold (\<lambda>i m. m[0 + i := map (\<lambda>i. block_word ?s (4 * i)) [0..<16] ! i]) [0..<16] (replicate 64 0)"
      by (rule fold_cong) simp_all
    also have "\<dots> = put_bytes 0 (map ((!) (map (\<lambda>i. block_word ?s (4 * i)) [0..<16])) [0..<16]) (replicate 64 0)"
      by (rule fold_store) simp
    finally show ?thesis unfolding load_words_def .
  qed
  then have m: "length ?m = 64" "\<forall>t < 16. ?m ! t = ?M t"
    using len by (simp_all add: length_put_bytes nth_put_bytes block_word_be map_nth_all)
  have sched: "\<forall>t < 64. fold schedule_step [16..<64] ?m ! t = sha_w ?M t"
    using schedule_is_sha_w [OF m, of 64] by simp
  have "sha256 (random_a @ auth_msg @ random_b) = hash_bytes (sha_block sha_init ?s)"
  proof -
    have "sha_chunks ?s = [?s]" using len by (subst sha_chunks.simps) (auto simp: sha_chunks.simps)
    then show ?thesis using assms by (simp add: sha256_def sha_pad_48)
  qed
  moreover have "ufcs_get_encrypt_data src random_a random_b auth_msg encrypt_data =
      (?s, hash_bytes (sha_block sha_init ?s))"
    using rounds_are_sha_vars [OF order_refl sched, of UFCS_ENCRYPTION_HASH] assms(5)
    by (simp add: ufcs_get_encrypt_data_def load Let_def hash_bytes_store sha_block_def sha_init_eq)
  moreover have "source_padded ?s" using len assms by (simp add: source_padded_def)
  ultimately show ?thesis by auto
qed

text \<open>C4: The digest the driver computes for the authentication is SHA-256 as FIPS 180-4 defines it,
  of the concatenation of the first random number, the key and the second random number, for all
  16-byte inputs; the static source buffer keeps the padding behind the inputs, so the next
  computation starts from the same situation.\<close>

theorem ufcs_get_encrypt_data_is_sha256:
  assumes "source_padded src" and "length random_a = 16" and "length random_b = 16"
    and "length auth_msg = 16" and "length encrypt_data = 32"
  shows "\<exists>src'. source_padded src' \<and>
    ufcs_get_encrypt_data src random_a random_b auth_msg encrypt_data =
      (src', sha256 (random_a @ auth_msg @ random_b))"
  using assms by (rule encrypt_data_sha256)

lemma ufcs_get_encrypt_data_is_sha256_witness:
  "\<exists>src'. source_padded src' \<and>
    ufcs_get_encrypt_data ufcs_source_data (replicate 16 1) (replicate 16 2) (replicate 16 3) (replicate 32 0) =
      (src', sha256 (replicate 16 1 @ replicate 16 3 @ replicate 16 2))"
  by (rule ufcs_get_encrypt_data_is_sha256)
    (simp_all add: source_padded_def ufcs_source_data_def)

end
