(* ===== verification/Ufcs_Class.thy ===== *)
theory Ufcs_Class
  imports Ufcs_Codec Ufcs_Sha256
begin

text \<open>
  The state of the UFCS class device (\<^verbatim>\<open>struct ufcs_class\<close> and \<^verbatim>\<open>struct ufcs_dev\<close> of
  \<^verbatim>\<open>ufcs_core.h\<close> and \<^verbatim>\<open>ufcs_class.h\<close>) together with the part of the surroundings the
  code depends on: the results of allocations and of the chip driver's operations, the frames in
  the chip's receive buffer, and the interrupts, timer expirations and exit requests that arrive
  while a thread of the driver sleeps. On top of it the event list of \<^verbatim>\<open>ufcs_event.c\<close>, the
  timers of \<^verbatim>\<open>ufcs_timer.c\<close> and the resets of \<^verbatim>\<open>ufcs_policy_engine.c\<close>,
  \<^verbatim>\<open>ufcs_core.c\<close> and \<^verbatim>\<open>ufcs_intf.c\<close> that every component uses.
\<close>

section \<open>Enumerations\<close>

datatype msg_send_status =
    MSG_ACK_TIMEOUT | MSG_RETRY_OVER | MSG_NCK | MSG_SEND_OK | MSG_SEND_PENDIGN | MSG_SEND_FAIL
  | MSG_SEND_START | MSG_WAIT_ACK

datatype (plugins only: code) ufcs_event_type =
    UFCS_EVENT_SEND_HW_RESET | UFCS_EVENT_SEND_PING | UFCS_EVENT_SEND_ACK | UFCS_EVENT_SEND_NCK
  | UFCS_EVENT_SEND_ACCEPT | UFCS_EVENT_SEND_SOFT_RESET | UFCS_EVENT_SEND_POWER_READY
  | UFCS_EVENT_SEND_GET_OUTPUT_CAP | UFCS_EVENT_SEND_GET_SOURCE_INFO
  | UFCS_EVENT_SEND_GET_SINK_INFO | UFCS_EVENT_SEND_GET_DEVICE_INFO
  | UFCS_EVENT_SEND_GET_ERROR_INFO | UFCS_EVENT_SEND_DETECT_CABLE_INFO
  | UFCS_EVENT_SEND_START_CABLE_DETECT | UFCS_EVENT_SEND_END_CABLE_DETECT
  | UFCS_EVENT_SEND_EXIT_UFCS_MODE
  | UFCS_EVENT_RECV_HW_RESET | UFCS_EVENT_RECV_PING | UFCS_EVENT_RECV_ACK | UFCS_EVENT_RECV_NCK
  | UFCS_EVENT_RECV_ACCEPT | UFCS_EVENT_RECV_SOFT_RESET | UFCS_EVENT_RECV_POWER_READY
  | UFCS_EVENT_RECV_GET_OUTPUT_CAP | UFCS_EVENT_RECV_GET_SOURCE_INFO
  | UFCS_EVENT_RECV_GET_SINK_INFO | UFCS_EVENT_RECV_GET_DEVICE_INFO
  | UFCS_EVENT_RECV_GET_ERROR_INFO | UFCS_EVENT_RECV_DETECT_CABLE_INFO
  | UFCS_EVENT_RECV_START_CABLE_DETECT | UFCS_EVENT_RECV_END_CABLE_DETECT
  | UFCS_EVENT_RECV_EXIT_UFCS_MODE
  | UFCS_EVENT_RECV_VERIFY_REQUEST | UFCS_EVENT_RECV_VERIFY_RESPONSE | UFCS_EVENT_RECV_OUTPUT_CAP
  | UFCS_EVENT_RECV_REQUEST | UFCS_EVENT_RECV_SOURCE_INFO | UFCS_EVENT_RECV_SINK_INFO
  | UFCS_EVENT_RECV_DEVICE_INFO | UFCS_EVENT_RECV_CABLE_INFO | UFCS_EVENT_RECV_ERROR_INFO
  | UFCS_EVENT_RECV_CONFIG_WD | UFCS_EVENT_RECV_REFUSE | UFCS_EVENT_RECV_POWER_CHANGE
  | UFCS_EVENT_RECV_TEST_REQUEST
  | UFCS_EVENT_SEND_VERIFY_REQUEST | UFCS_EVENT_SEND_VERIFY_RESPONSE | UFCS_EVENT_SEND_OUTPUT_CAP
  | UFCS_EVENT_SEND_REQUEST | UFCS_EVENT_SEND_SOURCE_INFO | UFCS_EVENT_SEND_SINK_INFO
  | UFCS_EVENT_SEND_DEVICE_INFO | UFCS_EVENT_SEND_CABLE_INFO | UFCS_EVENT_SEND_ERROR_INFO
  | UFCS_EVENT_SEND_CONFIG_WD | UFCS_EVENT_SEND_REFUSE | UFCS_EVENT_SEND_POWER_CHANGE
  | UFCS_EVENT_SEND_TEST_REQUEST
  | UFCS_EVENT_OPLUS_SEND_GET_EMARK_INFO_MSG | UFCS_EVENT_OPLUS_SEND_GET_POWER_INFO_MSG
  | UFCS_EVENT_OPLUS_RECV_EMARK_INFO_MSG | UFCS_EVENT_OPLUS_RECV_POWER_INFO_MSG
  | UFCS_EVENT_HANDSHAKE | UFCS_EVENT_TIMEOUT

datatype ufcs_pe_state =
    PE_STATE_IDEL | PE_STATE_SOFT_RESET | PE_STATE_HW_RESET | PE_STATE_SEND_EXIT
  | PE_STATE_RECV_EXIT | PE_STATE_HANDSHAKE | PE_STATE_PING | PE_STATE_OUTPUT_CAP
  | PE_STATE_REQUEST | PE_STATE_SEND_SINK_INFO | PE_STATE_GET_SOURCE_INFO
  | PE_STATE_GET_CABLE_INFO | PE_STATE_GET_DEVICE_INFO | PE_STATE_GET_ERROR_INFO
  | PE_STATE_SEND_DEVICE_INFO | PE_STATE_SEND_ERROR_INFO | PE_STATE_CONFIG_WD
  | PE_STATE_VERIFY_REQUEST | PE_STATE_VERIFY_RESPONSE | PE_STATE_POWER_CHANGE
  | PE_STATE_GET_EMARK_INFO | PE_STATE_GET_POWER_INFO | PE_STATE_TEST_REQUEST

datatype ufcs_timer =
    ACK_RECEIVE_TIMER | SENDER_RESPONSE_TIMER | POWER_SUPPLY_TIMER | CABLE_INFO_TIMER
  | RESTART_TRANS_TIMER | CABLE_TRANS_TIMER | MSG_TRANS_DELAY_TIMER | HANDSHAKE_TIMER
  | WAIT_MSG_TIMER | EMARK_MSG_TIMER

datatype ufcs_notify_state =
    UFCS_NOTIFY_SOURCE_HW_RESET | UFCS_NOTIFY_CABLE_HW_RESET | UFCS_NOTIFY_POWER_CHANGE
  | UFCS_NOTIFY_EXIT | UFCS_NOTIFY_TEST_MODE_CHANGED | UFCS_NOTIFY_VOL_ACC_TEST_MODE_CHANGED
  | UFCS_NOTIFY_ERR_FLAG | UFCS_NOTIFY_FIFO_OVERFLOW | UFCS_NOTIFY_RESTART

datatype ufcs_baud_rate = UFCS_BAUD_115200 | UFCS_BAUD_57600 | UFCS_BAUD_38400 | UFCS_BAUD_19200

datatype ufcs_handshake_state = UFCS_HS_IDLE | UFCS_HS_WAIT | UFCS_HS_SUCCESS | UFCS_HS_FAIL

text \<open>The bit numbers of \<^verbatim>\<open>enum ufcs_err_type\<close> that the receive path tests.\<close>

definition UFCS_HW_ERR_HARD_RESET :: nat where "UFCS_HW_ERR_HARD_RESET = 4"
definition UFCS_RECV_ERR_SENT_CMP :: nat where "UFCS_RECV_ERR_SENT_CMP = 5"
definition UFCS_RECV_ERR_TRANS_FAIL :: nat where "UFCS_RECV_ERR_TRANS_FAIL = 6"
definition UFCS_RECV_ERR_ACK_TIMEOUT :: nat where "UFCS_RECV_ERR_ACK_TIMEOUT = 7"
definition UFCS_RECV_ERR_DATA_READY :: nat where "UFCS_RECV_ERR_DATA_READY = 8"
definition UFCS_COMM_ERR_BUS_CONFLICT :: nat where "UFCS_COMM_ERR_BUS_CONFLICT = 18"

lemmas err_bits =
  UFCS_HW_ERR_HARD_RESET_def UFCS_RECV_ERR_SENT_CMP_def UFCS_RECV_ERR_TRANS_FAIL_def
  UFCS_RECV_ERR_ACK_TIMEOUT_def UFCS_RECV_ERR_DATA_READY_def UFCS_COMM_ERR_BUS_CONFLICT_def

section \<open>State\<close>

text \<open>\<^verbatim>\<open>event->data\<close> points to a copy of the request's payload behind the event.\<close>

datatype event_data = Request_data u64 | Watchdog_data u16 | Verify_data u8 bytes

text \<open>\<open>ev_id\<close> is the identity of the heap object: the state machine holds a pointer to an event
  that stays linked in the list until it is freed.\<close>

record ufcs_event =
  ev_id :: nat
  ev_type :: ufcs_event_type
  ev_msg :: "ufcs_msg option"
  ev_data :: "event_data option"

record ufcs_msg_sender =
  s_msg :: "ufcs_msg option"
  s_ack :: completion
  s_status :: msg_send_status
  s_counter :: u8
  s_retry :: u8
  s_locked :: bool

datatype kthread_work = Recv_work | Event_work | Msg_send_work

text \<open>What the driver does to the outside: operations of \<^verbatim>\<open>struct ufcs_dev_ops\<close> and
  notifications.\<close>

datatype io =
    Io_write bytes | Io_handshake | Io_set_baud_rate ufcs_baud_rate | Io_source_hard_reset
  | Io_cable_hard_reset | Io_enable | Io_disable | Io_watchdog_config u32
  | Io_baudrate_end_check_config | Io_retrieve_flags | Io_notify ufcs_notify_state

text \<open>What can happen while a thread sleeps: the chip's interrupt handler reports an error flag
  (possibly after setting the handshake state, possibly with a frame that
  \<^verbatim>\<open>read_msg\<close> will return), a timer expires, or another thread runs \<^verbatim>\<open>ufcs_force_exit\<close>
  with the USB supply already gone.\<close>

datatype hw_input =
    In_irq u32 "ufcs_handshake_state option" "bytes option"
  | In_timer ufcs_timer
  | In_exit

text \<open>\<open>env_battery\<close> is the supply \<^verbatim>\<open>battery\<close>, if there is one, with its temperature, voltage and
  current properties as far as they can be read; \<open>env_usb_online\<close> likewise for \<^verbatim>\<open>usb\<close>. The
  fields \<open>next_id\<close>, \<open>freed\<close> and \<open>io_trace\<close> only record what happened. Locks that are taken
  and released inside one function (\<^verbatim>\<open>event_list_lock\<close>, \<^verbatim>\<open>err_flag_lock\<close>,
  \<^verbatim>\<open>handshake_lock\<close>) and \<^verbatim>\<open>ext_req_lock\<close>, which keeps external requests apart, have no field.\<close>

record ufcs_class =
  config :: ufcs_config
  sender :: ufcs_msg_sender
  recv_msg :: "ufcs_msg option"
  events :: "ufcs_event list"
  ev_exit :: bool
  ev_ack :: completion
  st_curr :: ufcs_pe_state
  st_err :: int
  pdo_num :: nat
  pdo_data :: "u64 list"
  verify_random :: bytes
  verify_auth :: bytes
  src_info :: u64
  cable_info :: u64
  dev_info :: u64
  err_info :: u32
  pwr_change_info :: "u32 list"
  test_request :: u16
  power_changed :: bool
  test_mode :: bool
  vol_acc_test :: bool
  verify_pass :: bool
  emark_info :: u64
  pie_num :: nat
  pie_data :: "u64 list"
  handshake_success :: bool
  sm_task_wakeup :: bool
  start_cable_detect :: bool
  exit_ufcs_ack_received :: bool
  pe_locked :: bool
  request_ack :: completion
  timer_on :: "ufcs_timer \<Rightarrow> bool"
  timeout_event :: "ufcs_timer \<Rightarrow> bool"
  works :: "kthread_work list"
  test_work :: bool
  overflow_work :: bool
  handshake_state :: ufcs_handshake_state
  err_flag_fifo :: "u32 list"
  err_flag_save :: u32
  dev_err_flag :: u32
  source_data :: bytes
  next_id :: nat
  freed :: "nat list"
  io_trace :: "io list"
  env_in :: "hw_input list"
  env_alloc :: "bool list"
  env_write :: "int list"
  env_rx :: "bytes list"
  env_fifo_slots :: nat
  env_op_rc :: "io \<Rightarrow> int"
  env_battery :: "(int option \<times> int option \<times> int option) option"
  env_usb_online :: "int option option"

text \<open>A device right after a successful handshake, with the inputs it will get.\<close>

definition connected_class :: "ufcs_config \<Rightarrow> hw_input list \<Rightarrow> ufcs_class" where
  "connected_class c is =
     \<lparr>config = c,
      sender = \<lparr>s_msg = None, s_ack = 0, s_status = MSG_SEND_START, s_counter = 0, s_retry = 0, s_locked = False\<rparr>,
      recv_msg = None, events = [], ev_exit = False, ev_ack = 0, st_curr = PE_STATE_IDEL, st_err = 0,
      pdo_num = 0, pdo_data = replicate 7 0, verify_random = replicate 16 0, verify_auth = replicate 16 0,
      src_info = 0, cable_info = 0, dev_info = 0, err_info = 0, pwr_change_info = replicate 7 0,
      test_request = 0, power_changed = False, test_mode = False, vol_acc_test = False,
      verify_pass = False, emark_info = 0, pie_num = 0, pie_data = replicate 7 0,
      handshake_success = True, sm_task_wakeup = False, start_cable_detect = False,
      exit_ufcs_ack_received = False, pe_locked = False, request_ack = 0, timer_on = (\<lambda>_. False),
      timeout_event = (\<lambda>_. False), works = [], test_work = False, overflow_work = False,
      handshake_state = UFCS_HS_IDLE, err_flag_fifo = [], err_flag_save = 0, dev_err_flag = 0,
      source_data = ufcs_source_data, next_id = 0, freed = [], io_trace = [], env_in = is,
      env_alloc = [], env_write = [], env_rx = [], env_fifo_slots = 5, env_op_rc = (\<lambda>_. 0),
      env_battery = None, env_usb_online = None\<rparr>"

section \<open>Small operations\<close>

text \<open>\<^verbatim>\<open>devm_kzalloc\<close>: the surroundings decide; an exhausted list stands for success.\<close>

definition kzalloc :: "ufcs_class \<Rightarrow> bool \<times> ufcs_class" where
  "kzalloc s = (case env_alloc s of [] \<Rightarrow> (True, s) | ok # oks \<Rightarrow> (ok, s\<lparr>env_alloc := oks\<rparr>))"

definition emit :: "io \<Rightarrow> ufcs_class \<Rightarrow> ufcs_class" where
  "emit x s = s\<lparr>io_trace := io_trace s @ [x]\<rparr>"

definition ufcs_send_state :: "ufcs_notify_state \<Rightarrow> ufcs_class \<Rightarrow> ufcs_class" where
  "ufcs_send_state n s = emit (Io_notify n) s"

text \<open>\<^verbatim>\<open>kthread_queue_work\<close> does nothing when the work is already pending;
  \<^verbatim>\<open>kthread_cancel_work_sync\<close> removes it.\<close>

definition kthread_queue_work :: "kthread_work \<Rightarrow> ufcs_class \<Rightarrow> ufcs_class" where
  "kthread_queue_work w s = (if w \<in> set (works s) then s else s\<lparr>works := works s @ [w]\<rparr>)"

definition kthread_cancel_work :: "kthread_work \<Rightarrow> ufcs_class \<Rightarrow> ufcs_class" where
  "kthread_cancel_work w s = s\<lparr>works := filter (\<lambda>x. x \<noteq> w) (works s)\<rparr>"

abbreviation set_status :: "msg_send_status \<Rightarrow> ufcs_class \<Rightarrow> ufcs_class" where
  "set_status x s \<equiv> s\<lparr>sender := (sender s)\<lparr>s_status := x\<rparr>\<rparr>"

abbreviation complete_sender :: "ufcs_class \<Rightarrow> ufcs_class" where
  "complete_sender s \<equiv> s\<lparr>sender := (sender s)\<lparr>s_ack := complete (s_ack (sender s))\<rparr>\<rparr>"

abbreviation complete_request :: "ufcs_class \<Rightarrow> ufcs_class" where
  "complete_request s \<equiv> s\<lparr>request_ack := complete (request_ack s)\<rparr>"

section \<open>The event list\<close>

definition ufcs_push_event ::
  "ufcs_event_type \<Rightarrow> ufcs_msg option \<Rightarrow> event_data option \<Rightarrow> ufcs_class \<Rightarrow> ufcs_class" where
  "ufcs_push_event t m d s =
     s\<lparr>events := events s @ [\<lparr>ev_id = next_id s, ev_type = t, ev_msg = m, ev_data = d\<rparr>],
       next_id := Suc (next_id s), ev_ack := complete (ev_ack s)\<rparr>"

definition ufcs_free_event :: "ufcs_event \<Rightarrow> ufcs_class \<Rightarrow> ufcs_class" where
  "ufcs_free_event e s =
     s\<lparr>events := filter (\<lambda>x. ev_id x \<noteq> ev_id e) (events s), freed := ev_id e # freed s\<rparr>"

definition ufcs_free_all_event :: "ufcs_class \<Rightarrow> ufcs_class" where
  "ufcs_free_all_event s =
     (if events s = [] then s
      else s\<lparr>events := [], freed := rev (map ev_id (events s)) @ freed s\<rparr>)"

section \<open>Timers\<close>

definition hrtimer_start :: "ufcs_timer \<Rightarrow> ufcs_class \<Rightarrow> ufcs_class" where
  "hrtimer_start t s = s\<lparr>timer_on := (timer_on s)(t := True)\<rparr>"

definition hrtimer_cancel :: "ufcs_timer \<Rightarrow> ufcs_class \<Rightarrow> ufcs_class" where
  "hrtimer_cancel t s = s\<lparr>timer_on := (timer_on s)(t := False)\<rparr>"

text \<open>A timer whose expiration pushes an event allocates the event when it is started; without
  the memory the timer is not started.\<close>

definition start_event_timer :: "ufcs_timer \<Rightarrow> ufcs_class \<Rightarrow> ufcs_class" where
  "start_event_timer t s =
     (if timeout_event s t then hrtimer_start t s
      else let (ok, s1) = kzalloc s
           in if ok then hrtimer_start t (s1\<lparr>timeout_event := (timeout_event s1)(t := True)\<rparr>) else s1)"

definition stop_event_timer :: "ufcs_timer \<Rightarrow> ufcs_class \<Rightarrow> ufcs_class" where
  "stop_event_timer t s =
     (let s1 = hrtimer_cancel t s in s1\<lparr>timeout_event := (timeout_event s1)(t := False)\<rparr>)"

definition start_ack_receive_timer :: "ufcs_class \<Rightarrow> ufcs_class" where
  "start_ack_receive_timer = hrtimer_start ACK_RECEIVE_TIMER"
definition stop_ack_receive_timer :: "ufcs_class \<Rightarrow> ufcs_class" where
  "stop_ack_receive_timer = hrtimer_cancel ACK_RECEIVE_TIMER"
definition start_msg_trans_delay_timer :: "ufcs_class \<Rightarrow> ufcs_class" where
  "start_msg_trans_delay_timer = hrtimer_start MSG_TRANS_DELAY_TIMER"
definition stop_msg_trans_delay_timer :: "ufcs_class \<Rightarrow> ufcs_class" where
  "stop_msg_trans_delay_timer = hrtimer_cancel MSG_TRANS_DELAY_TIMER"
definition start_sender_response_timer :: "ufcs_class \<Rightarrow> ufcs_class" where
  "start_sender_response_timer = start_event_timer SENDER_RESPONSE_TIMER"
definition stop_sender_response_timer :: "ufcs_class \<Rightarrow> ufcs_class" where
  "stop_sender_response_timer = stop_event_timer SENDER_RESPONSE_TIMER"
definition start_power_supply_timer :: "ufcs_class \<Rightarrow> ufcs_class" where
  "start_power_supply_timer = start_event_timer POWER_SUPPLY_TIMER"
definition stop_power_supply_timer :: "ufcs_class \<Rightarrow> ufcs_class" where
  "stop_power_supply_timer = stop_event_timer POWER_SUPPLY_TIMER"
definition start_cable_info_timer :: "ufcs_class \<Rightarrow> ufcs_class" where
  "start_cable_info_timer = start_event_timer CABLE_INFO_TIMER"
definition stop_cable_info_timer :: "ufcs_class \<Rightarrow> ufcs_class" where
  "stop_cable_info_timer = stop_event_timer CABLE_INFO_TIMER"
definition start_restart_trans_timer :: "ufcs_class \<Rightarrow> ufcs_class" where
  "start_restart_trans_timer = start_event_timer RESTART_TRANS_TIMER"
definition stop_restart_trans_timer :: "ufcs_class \<Rightarrow> ufcs_class" where
  "stop_restart_trans_timer = stop_event_timer RESTART_TRANS_TIMER"
definition start_cable_trans_timer :: "ufcs_class \<Rightarrow> ufcs_class" where
  "start_cable_trans_timer = start_event_timer CABLE_TRANS_TIMER"
definition stop_cable_trans_timer :: "ufcs_class \<Rightarrow> ufcs_class" where
  "stop_cable_trans_timer = stop_event_timer CABLE_TRANS_TIMER"
definition start_handshake_timer :: "ufcs_class \<Rightarrow> ufcs_class" where
  "start_handshake_timer = start_event_timer HANDSHAKE_TIMER"
definition stop_handshake_timer :: "ufcs_class \<Rightarrow> ufcs_class" where
  "stop_handshake_timer = stop_event_timer HANDSHAKE_TIMER"
definition start_wait_msg_timer :: "ufcs_class \<Rightarrow> ufcs_class" where
  "start_wait_msg_timer = start_event_timer WAIT_MSG_TIMER"
definition stop_wait_msg_timer :: "ufcs_class \<Rightarrow> ufcs_class" where
  "stop_wait_msg_timer = stop_event_timer WAIT_MSG_TIMER"
definition start_emark_response_timer :: "ufcs_class \<Rightarrow> ufcs_class" where
  "start_emark_response_timer = start_event_timer EMARK_MSG_TIMER"
definition stop_emark_response_timer :: "ufcs_class \<Rightarrow> ufcs_class" where
  "stop_emark_response_timer = stop_event_timer EMARK_MSG_TIMER"

text \<open>Expirations.\<close>

definition event_timeout :: "ufcs_timer \<Rightarrow> ufcs_class \<Rightarrow> ufcs_class" where
  "event_timeout t s =
     (let s1 = s\<lparr>timeout_event := (timeout_event s)(t := False)\<rparr>
      in if timeout_event s t then ufcs_push_event UFCS_EVENT_TIMEOUT None None s1 else s1)"

definition ack_receive_timeout :: "ufcs_class \<Rightarrow> ufcs_class" where
  "ack_receive_timeout s = kthread_queue_work Msg_send_work (set_status MSG_ACK_TIMEOUT s)"

definition msg_trans_delay_timeout :: "ufcs_class \<Rightarrow> ufcs_class" where
  "msg_trans_delay_timeout s =
     (if s_status (sender s) \<noteq> MSG_SEND_PENDIGN then s
      else let s1 = set_status MSG_SEND_START s
           in if s_msg (sender s1) \<noteq> None then kthread_queue_work Msg_send_work s1 else s1)"

definition sender_response_timeout :: "ufcs_class \<Rightarrow> ufcs_class" where
  "sender_response_timeout = event_timeout SENDER_RESPONSE_TIMER"
definition sender_emark_timeout :: "ufcs_class \<Rightarrow> ufcs_class" where
  "sender_emark_timeout = event_timeout EMARK_MSG_TIMER"
definition power_supply_timeout :: "ufcs_class \<Rightarrow> ufcs_class" where
  "power_supply_timeout = event_timeout POWER_SUPPLY_TIMER"
definition cable_info_timeout :: "ufcs_class \<Rightarrow> ufcs_class" where
  "cable_info_timeout = event_timeout CABLE_INFO_TIMER"
definition restart_trans_timeout :: "ufcs_class \<Rightarrow> ufcs_class" where
  "restart_trans_timeout = event_timeout RESTART_TRANS_TIMER"
definition cable_trans_timeout :: "ufcs_class \<Rightarrow> ufcs_class" where
  "cable_trans_timeout = event_timeout CABLE_TRANS_TIMER"
definition handshake_timeout :: "ufcs_class \<Rightarrow> ufcs_class" where
  "handshake_timeout = event_timeout HANDSHAKE_TIMER"
definition wait_msg_timeout :: "ufcs_class \<Rightarrow> ufcs_class" where
  "wait_msg_timeout = event_timeout WAIT_MSG_TIMER"

definition ufcs_timer_init :: "ufcs_class \<Rightarrow> ufcs_class" where
  "ufcs_timer_init s = s\<lparr>timer_on := (\<lambda>_. False), timeout_event := (\<lambda>_. False)\<rparr>"

fun timer_function :: "ufcs_timer \<Rightarrow> ufcs_class \<Rightarrow> ufcs_class" where
  "timer_function ACK_RECEIVE_TIMER = ack_receive_timeout"
| "timer_function SENDER_RESPONSE_TIMER = sender_response_timeout"
| "timer_function POWER_SUPPLY_TIMER = power_supply_timeout"
| "timer_function CABLE_INFO_TIMER = cable_info_timeout"
| "timer_function RESTART_TRANS_TIMER = restart_trans_timeout"
| "timer_function CABLE_TRANS_TIMER = cable_trans_timeout"
| "timer_function MSG_TRANS_DELAY_TIMER = msg_trans_delay_timeout"
| "timer_function HANDSHAKE_TIMER = handshake_timeout"
| "timer_function WAIT_MSG_TIMER = wait_msg_timeout"
| "timer_function EMARK_MSG_TIMER = sender_emark_timeout"

text \<open>A timer that is not armed does not expire; every handler returns
  \<^verbatim>\<open>HRTIMER_NORESTART\<close>.\<close>

definition timer_expire :: "ufcs_timer \<Rightarrow> ufcs_class \<Rightarrow> ufcs_class" where
  "timer_expire t s = (if timer_on s t then timer_function t (hrtimer_cancel t s) else s)"

lemmas timeout_defs =
  timer_expire_def ack_receive_timeout_def msg_trans_delay_timeout_def sender_response_timeout_def
  sender_emark_timeout_def power_supply_timeout_def cable_info_timeout_def restart_trans_timeout_def
  cable_trans_timeout_def handshake_timeout_def wait_msg_timeout_def event_timeout_def

section \<open>Error flags\<close>

definition ufcs_clr_error_flag :: "ufcs_class \<Rightarrow> ufcs_class" where
  "ufcs_clr_error_flag s = s\<lparr>err_flag_save := 0, err_flag_fifo := []\<rparr>"

definition ufcs_set_error_flag :: "u32 \<Rightarrow> ufcs_class \<Rightarrow> rc \<times> ufcs_class" where
  "ufcs_set_error_flag flag s =
     (if length (err_flag_fifo s) < env_fifo_slots s
      then (0, s\<lparr>err_flag_fifo := err_flag_fifo s @ [flag]\<rparr>)
      else (- EFAULT, s\<lparr>overflow_work := True\<rparr>))"

definition ufcs_get_error_flag :: "ufcs_class \<Rightarrow> rc \<times> ufcs_class" where
  "ufcs_get_error_flag s =
     (case err_flag_fifo s of
        [] \<Rightarrow> (- EFAULT, s)
      | f # fs \<Rightarrow> (0, s\<lparr>err_flag_fifo := fs, dev_err_flag := f\<rparr>))"

definition UFCS_ERR_FLAG_BUF_LEN :: nat where "UFCS_ERR_FLAG_BUF_LEN = 5"

definition ufcs_check_error_flag_all :: "ufcs_class \<Rightarrow> u32" where
  "ufcs_check_error_flag_all s =
     foldl (OR) 0 (take UFCS_ERR_FLAG_BUF_LEN (err_flag_fifo s)) OR err_flag_save s"

definition ufcs_fifo_overflow_work :: "ufcs_class \<Rightarrow> ufcs_class" where
  "ufcs_fifo_overflow_work s = ufcs_send_state UFCS_NOTIFY_FIFO_OVERFLOW (s\<lparr>overflow_work := False\<rparr>)"

definition ufcs_msg_handler :: "ufcs_class \<Rightarrow> ufcs_class" where
  "ufcs_msg_handler s = kthread_queue_work Recv_work s"

section \<open>Resets\<close>

definition ufcs_clean_process_info :: "ufcs_class \<Rightarrow> ufcs_class" where
  "ufcs_clean_process_info s =
     s\<lparr>pwr_change_info := replicate UFCS_OUTPUT_MODE_MAX 0, power_changed := False,
       src_info := 0, cable_info := 0, dev_info := 0, err_info := 0, handshake_success := False,
       pdo_num := 0, emark_info := 0, pie_num := 0, pdo_data := replicate UFCS_OUTPUT_MODE_MAX 0,
       verify_random := replicate UFCS_VERIFY_RANDOM_DATA_SIZE 0,
       verify_auth := replicate UFCS_VERIFY_AUTH_DATA_SIZE 0\<rparr>"

definition ufcs_exit_sm_work :: "ufcs_class \<Rightarrow> ufcs_class" where
  "ufcs_exit_sm_work s =
     (let s1 = ufcs_free_all_event s
      in s1\<lparr>handshake_success := False, start_cable_detect := False, st_curr := PE_STATE_IDEL,
           st_err := - EIO, request_ack := complete_all (request_ack s1),
           sender := (sender s1)\<lparr>s_counter := 0, s_status := MSG_RETRY_OVER,
             s_ack := complete_all (s_ack (sender s1))\<rparr>\<rparr>)"

definition ufcs_reset_sm_work :: "ufcs_class \<Rightarrow> ufcs_class" where
  "ufcs_reset_sm_work s =
     (let s1 = ufcs_free_all_event s
      in s1\<lparr>st_curr := PE_STATE_IDEL, st_err := - EAGAIN,
           request_ack := complete_all (request_ack s1), sender := (sender s1)\<lparr>s_counter := 0\<rparr>\<rparr>)"

definition ufcs_source_hard_reset :: "ufcs_class \<Rightarrow> rc \<times> ufcs_class" where
  "ufcs_source_hard_reset s =
     (let s1 = ufcs_clean_process_info (ufcs_exit_sm_work s);
          s2 = ufcs_send_state UFCS_NOTIFY_SOURCE_HW_RESET (emit Io_source_hard_reset s1);
          s3 = emit Io_disable (s2\<lparr>handshake_success := False\<rparr>)
      in (env_op_rc s3 Io_disable, s3))"

definition ufcs_intf_source_hard_reset :: "ufcs_class \<Rightarrow> rc \<times> ufcs_class" where
  "ufcs_intf_source_hard_reset s =
     (let s1 = ufcs_clean_process_info (ufcs_exit_sm_work s);
          s2 = emit Io_source_hard_reset s1;
          s3 = emit Io_disable (s2\<lparr>handshake_success := False\<rparr>)
      in (env_op_rc s3 Io_disable, s3))"

definition ufcs_cable_hard_reset :: "ufcs_class \<Rightarrow> rc \<times> ufcs_class" where
  "ufcs_cable_hard_reset s =
     (env_op_rc s Io_cable_hard_reset,
      ufcs_send_state UFCS_NOTIFY_CABLE_HW_RESET (emit Io_cable_hard_reset s))"

definition ufcs_intf_cable_hard_reset :: "ufcs_class \<Rightarrow> rc \<times> ufcs_class" where
  "ufcs_intf_cable_hard_reset s =
     (env_op_rc s Io_cable_hard_reset, emit Io_cable_hard_reset s)"

text \<open>The part of \<^verbatim>\<open>ufcs_force_exit\<close> after the exit message, which is all of it when the
  adapter is gone or there was no handshake.\<close>

definition force_exit_tail :: "ufcs_class \<Rightarrow> ufcs_class" where
  "force_exit_tail s =
     (let s1 = emit Io_disable s;
          s2 = s1\<lparr>ev_exit := True, test_mode := False, sm_task_wakeup := False,
                 ev_ack := complete_all (ev_ack s1)\<rparr>;
          s3 = ufcs_exit_sm_work (ufcs_clean_process_info s2)
      in s3\<lparr>pe_locked := False\<rparr>)"

definition ufcs_msg_sender_init :: "ufcs_class \<Rightarrow> ufcs_class" where
  "ufcs_msg_sender_init s =
     s\<lparr>sender := (sender s)\<lparr>s_ack := 0, s_locked := False, s_status := MSG_SEND_START,
         s_counter := 0, s_retry := 0\<rparr>\<rparr>"

definition ufcs_msg_sender_reset :: "ufcs_class \<Rightarrow> ufcs_class" where
  "ufcs_msg_sender_reset s =
     s\<lparr>sender := (sender s)\<lparr>s_status := MSG_SEND_START, s_counter := 0, s_retry := 0\<rparr>\<rparr>"

definition ufcs_event_init :: "ufcs_class \<Rightarrow> ufcs_class" where
  "ufcs_event_init s =
     ufcs_msg_sender_init (s\<lparr>recv_msg := None, events := [], ev_exit := False, ev_ack := 0\<rparr>)"

definition ufcs_event_reset :: "ufcs_class \<Rightarrow> ufcs_class" where
  "ufcs_event_reset s = ufcs_msg_sender_reset (s\<lparr>recv_msg := None, ev_exit := False\<rparr>)"

section \<open>Interrupts\<close>

fun deliver :: "hw_input \<Rightarrow> ufcs_class \<Rightarrow> ufcs_class" where
  "deliver (In_irq flag hs frame) s =
     (let s1 = (case hs of None \<Rightarrow> s | Some h \<Rightarrow> s\<lparr>handshake_state := h\<rparr>);
          s2 = (case frame of None \<Rightarrow> s1 | Some f \<Rightarrow> s1\<lparr>env_rx := env_rx s1 @ [f]\<rparr>)
      in ufcs_msg_handler (snd (ufcs_set_error_flag flag s2)))"
| "deliver (In_timer t) s = timer_expire t s"
| "deliver In_exit s = force_exit_tail s"

text \<open>\<^verbatim>\<open>wait_for_completion\<close> and its like: as long as the condition does not hold, the next
  input is delivered and \<open>drain\<close> lets the worker thread run. The result \<open>None\<close> says that the
  caller sleeps for good.\<close>

partial_function (option) sleep_until ::
  "(ufcs_class \<Rightarrow> bool) \<Rightarrow> (ufcs_class \<Rightarrow> ufcs_class option) \<Rightarrow> ufcs_class \<Rightarrow> ufcs_class option"
where
  "sleep_until P drain s =
     (if P s then Some s
      else case env_in s of
        [] \<Rightarrow> None
      | i # is \<Rightarrow> do { s' \<leftarrow> drain (deliver i (s\<lparr>env_in := is\<rparr>)); sleep_until P drain s' })"

declare sleep_until.simps [code]

section \<open>Frame lemmas\<close>

text \<open>Which fields the small operations leave alone.\<close>

lemma kzalloc_frame [simp]:
  "config (snd (kzalloc s)) = config s" "sender (snd (kzalloc s)) = sender s"
  "recv_msg (snd (kzalloc s)) = recv_msg s" "events (snd (kzalloc s)) = events s"
  "ev_exit (snd (kzalloc s)) = ev_exit s" "ev_ack (snd (kzalloc s)) = ev_ack s"
  "st_curr (snd (kzalloc s)) = st_curr s" "st_err (snd (kzalloc s)) = st_err s"
  "pdo_num (snd (kzalloc s)) = pdo_num s" "pdo_data (snd (kzalloc s)) = pdo_data s"
  "verify_random (snd (kzalloc s)) = verify_random s"
  "verify_auth (snd (kzalloc s)) = verify_auth s" "src_info (snd (kzalloc s)) = src_info s"
  "cable_info (snd (kzalloc s)) = cable_info s" "dev_info (snd (kzalloc s)) = dev_info s"
  "err_info (snd (kzalloc s)) = err_info s" "test_mode (snd (kzalloc s)) = test_mode s"
  "verify_pass (snd (kzalloc s)) = verify_pass s"
  "handshake_success (snd (kzalloc s)) = handshake_success s"
  "start_cable_detect (snd (kzalloc s)) = start_cable_detect s"
  "exit_ufcs_ack_received (snd (kzalloc s)) = exit_ufcs_ack_received s"
  "pe_locked (snd (kzalloc s)) = pe_locked s" "request_ack (snd (kzalloc s)) = request_ack s"
  "timer_on (snd (kzalloc s)) = timer_on s" "timeout_event (snd (kzalloc s)) = timeout_event s"
  "works (snd (kzalloc s)) = works s" "handshake_state (snd (kzalloc s)) = handshake_state s"
  "err_flag_fifo (snd (kzalloc s)) = err_flag_fifo s"
  "dev_err_flag (snd (kzalloc s)) = dev_err_flag s"
  "source_data (snd (kzalloc s)) = source_data s" "freed (snd (kzalloc s)) = freed s"
  "io_trace (snd (kzalloc s)) = io_trace s" "env_in (snd (kzalloc s)) = env_in s"
  "env_rx (snd (kzalloc s)) = env_rx s" "env_fifo_slots (snd (kzalloc s)) = env_fifo_slots s"
  by (simp_all add: kzalloc_def split: list.split)

lemma emit_frame [simp]:
  "config (emit x s) = config s" "sender (emit x s) = sender s" "recv_msg (emit x s) = recv_msg s"
  "events (emit x s) = events s" "ev_exit (emit x s) = ev_exit s" "ev_ack (emit x s) = ev_ack s"
  "st_curr (emit x s) = st_curr s" "st_err (emit x s) = st_err s" "pdo_num (emit x s) = pdo_num s"
  "pdo_data (emit x s) = pdo_data s" "verify_random (emit x s) = verify_random s"
  "verify_auth (emit x s) = verify_auth s" "src_info (emit x s) = src_info s"
  "cable_info (emit x s) = cable_info s" "dev_info (emit x s) = dev_info s"
  "err_info (emit x s) = err_info s" "test_mode (emit x s) = test_mode s"
  "verify_pass (emit x s) = verify_pass s" "handshake_success (emit x s) = handshake_success s"
  "start_cable_detect (emit x s) = start_cable_detect s"
  "exit_ufcs_ack_received (emit x s) = exit_ufcs_ack_received s"
  "pe_locked (emit x s) = pe_locked s" "request_ack (emit x s) = request_ack s"
  "timer_on (emit x s) = timer_on s" "timeout_event (emit x s) = timeout_event s"
  "works (emit x s) = works s" "handshake_state (emit x s) = handshake_state s"
  "err_flag_fifo (emit x s) = err_flag_fifo s" "dev_err_flag (emit x s) = dev_err_flag s"
  "source_data (emit x s) = source_data s" "freed (emit x s) = freed s"
  "env_in (emit x s) = env_in s" "env_rx (emit x s) = env_rx s"
  "env_fifo_slots (emit x s) = env_fifo_slots s"
  by (simp_all add: emit_def)

lemma ufcs_send_state_frame [simp]:
  "config (ufcs_send_state x s) = config s" "sender (ufcs_send_state x s) = sender s"
  "recv_msg (ufcs_send_state x s) = recv_msg s" "events (ufcs_send_state x s) = events s"
  "ev_exit (ufcs_send_state x s) = ev_exit s" "ev_ack (ufcs_send_state x s) = ev_ack s"
  "st_curr (ufcs_send_state x s) = st_curr s" "st_err (ufcs_send_state x s) = st_err s"
  "pdo_num (ufcs_send_state x s) = pdo_num s" "pdo_data (ufcs_send_state x s) = pdo_data s"
  "verify_random (ufcs_send_state x s) = verify_random s"
  "verify_auth (ufcs_send_state x s) = verify_auth s"
  "src_info (ufcs_send_state x s) = src_info s" "cable_info (ufcs_send_state x s) = cable_info s"
  "dev_info (ufcs_send_state x s) = dev_info s" "err_info (ufcs_send_state x s) = err_info s"
  "test_mode (ufcs_send_state x s) = test_mode s"
  "verify_pass (ufcs_send_state x s) = verify_pass s"
  "handshake_success (ufcs_send_state x s) = handshake_success s"
  "start_cable_detect (ufcs_send_state x s) = start_cable_detect s"
  "exit_ufcs_ack_received (ufcs_send_state x s) = exit_ufcs_ack_received s"
  "pe_locked (ufcs_send_state x s) = pe_locked s"
  "request_ack (ufcs_send_state x s) = request_ack s"
  "timer_on (ufcs_send_state x s) = timer_on s"
  "timeout_event (ufcs_send_state x s) = timeout_event s" "works (ufcs_send_state x s) = works s"
  "handshake_state (ufcs_send_state x s) = handshake_state s"
  "err_flag_fifo (ufcs_send_state x s) = err_flag_fifo s"
  "dev_err_flag (ufcs_send_state x s) = dev_err_flag s"
  "source_data (ufcs_send_state x s) = source_data s" "freed (ufcs_send_state x s) = freed s"
  "env_in (ufcs_send_state x s) = env_in s" "env_rx (ufcs_send_state x s) = env_rx s"
  "env_fifo_slots (ufcs_send_state x s) = env_fifo_slots s"
  by (simp_all add: ufcs_send_state_def)

lemma kthread_queue_work_frame [simp]:
  "config (kthread_queue_work w s) = config s" "sender (kthread_queue_work w s) = sender s"
  "recv_msg (kthread_queue_work w s) = recv_msg s" "events (kthread_queue_work w s) = events s"
  "ev_exit (kthread_queue_work w s) = ev_exit s" "ev_ack (kthread_queue_work w s) = ev_ack s"
  "st_curr (kthread_queue_work w s) = st_curr s" "st_err (kthread_queue_work w s) = st_err s"
  "pdo_num (kthread_queue_work w s) = pdo_num s" "pdo_data (kthread_queue_work w s) = pdo_data s"
  "verify_random (kthread_queue_work w s) = verify_random s"
  "verify_auth (kthread_queue_work w s) = verify_auth s"
  "src_info (kthread_queue_work w s) = src_info s"
  "cable_info (kthread_queue_work w s) = cable_info s"
  "dev_info (kthread_queue_work w s) = dev_info s"
  "err_info (kthread_queue_work w s) = err_info s"
  "test_mode (kthread_queue_work w s) = test_mode s"
  "verify_pass (kthread_queue_work w s) = verify_pass s"
  "handshake_success (kthread_queue_work w s) = handshake_success s"
  "start_cable_detect (kthread_queue_work w s) = start_cable_detect s"
  "exit_ufcs_ack_received (kthread_queue_work w s) = exit_ufcs_ack_received s"
  "pe_locked (kthread_queue_work w s) = pe_locked s"
  "request_ack (kthread_queue_work w s) = request_ack s"
  "timer_on (kthread_queue_work w s) = timer_on s"
  "timeout_event (kthread_queue_work w s) = timeout_event s"
  "handshake_state (kthread_queue_work w s) = handshake_state s"
  "err_flag_fifo (kthread_queue_work w s) = err_flag_fifo s"
  "dev_err_flag (kthread_queue_work w s) = dev_err_flag s"
  "source_data (kthread_queue_work w s) = source_data s"
  "freed (kthread_queue_work w s) = freed s" "io_trace (kthread_queue_work w s) = io_trace s"
  "env_in (kthread_queue_work w s) = env_in s" "env_rx (kthread_queue_work w s) = env_rx s"
  "env_fifo_slots (kthread_queue_work w s) = env_fifo_slots s"
  by (simp_all add: kthread_queue_work_def)

lemma kthread_cancel_work_frame [simp]:
  "config (kthread_cancel_work w s) = config s" "sender (kthread_cancel_work w s) = sender s"
  "recv_msg (kthread_cancel_work w s) = recv_msg s" "events (kthread_cancel_work w s) = events s"
  "ev_exit (kthread_cancel_work w s) = ev_exit s" "ev_ack (kthread_cancel_work w s) = ev_ack s"
  "st_curr (kthread_cancel_work w s) = st_curr s" "st_err (kthread_cancel_work w s) = st_err s"
  "pdo_num (kthread_cancel_work w s) = pdo_num s"
  "pdo_data (kthread_cancel_work w s) = pdo_data s"
  "verify_random (kthread_cancel_work w s) = verify_random s"
  "verify_auth (kthread_cancel_work w s) = verify_auth s"
  "src_info (kthread_cancel_work w s) = src_info s"
  "cable_info (kthread_cancel_work w s) = cable_info s"
  "dev_info (kthread_cancel_work w s) = dev_info s"
  "err_info (kthread_cancel_work w s) = err_info s"
  "test_mode (kthread_cancel_work w s) = test_mode s"
  "verify_pass (kthread_cancel_work w s) = verify_pass s"
  "handshake_success (kthread_cancel_work w s) = handshake_success s"
  "start_cable_detect (kthread_cancel_work w s) = start_cable_detect s"
  "exit_ufcs_ack_received (kthread_cancel_work w s) = exit_ufcs_ack_received s"
  "pe_locked (kthread_cancel_work w s) = pe_locked s"
  "request_ack (kthread_cancel_work w s) = request_ack s"
  "timer_on (kthread_cancel_work w s) = timer_on s"
  "timeout_event (kthread_cancel_work w s) = timeout_event s"
  "handshake_state (kthread_cancel_work w s) = handshake_state s"
  "err_flag_fifo (kthread_cancel_work w s) = err_flag_fifo s"
  "dev_err_flag (kthread_cancel_work w s) = dev_err_flag s"
  "source_data (kthread_cancel_work w s) = source_data s"
  "freed (kthread_cancel_work w s) = freed s" "io_trace (kthread_cancel_work w s) = io_trace s"
  "env_in (kthread_cancel_work w s) = env_in s" "env_rx (kthread_cancel_work w s) = env_rx s"
  "env_fifo_slots (kthread_cancel_work w s) = env_fifo_slots s"
  by (simp_all add: kthread_cancel_work_def)

lemma ufcs_push_event_frame [simp]:
  "config (ufcs_push_event t m d s) = config s" "sender (ufcs_push_event t m d s) = sender s"
  "recv_msg (ufcs_push_event t m d s) = recv_msg s"
  "ev_exit (ufcs_push_event t m d s) = ev_exit s" "st_curr (ufcs_push_event t m d s) = st_curr s"
  "st_err (ufcs_push_event t m d s) = st_err s" "pdo_num (ufcs_push_event t m d s) = pdo_num s"
  "pdo_data (ufcs_push_event t m d s) = pdo_data s"
  "verify_random (ufcs_push_event t m d s) = verify_random s"
  "verify_auth (ufcs_push_event t m d s) = verify_auth s"
  "src_info (ufcs_push_event t m d s) = src_info s"
  "cable_info (ufcs_push_event t m d s) = cable_info s"
  "dev_info (ufcs_push_event t m d s) = dev_info s"
  "err_info (ufcs_push_event t m d s) = err_info s"
  "test_mode (ufcs_push_event t m d s) = test_mode s"
  "verify_pass (ufcs_push_event t m d s) = verify_pass s"
  "handshake_success (ufcs_push_event t m d s) = handshake_success s"
  "start_cable_detect (ufcs_push_event t m d s) = start_cable_detect s"
  "exit_ufcs_ack_received (ufcs_push_event t m d s) = exit_ufcs_ack_received s"
  "pe_locked (ufcs_push_event t m d s) = pe_locked s"
  "request_ack (ufcs_push_event t m d s) = request_ack s"
  "timer_on (ufcs_push_event t m d s) = timer_on s"
  "timeout_event (ufcs_push_event t m d s) = timeout_event s"
  "works (ufcs_push_event t m d s) = works s"
  "handshake_state (ufcs_push_event t m d s) = handshake_state s"
  "err_flag_fifo (ufcs_push_event t m d s) = err_flag_fifo s"
  "dev_err_flag (ufcs_push_event t m d s) = dev_err_flag s"
  "source_data (ufcs_push_event t m d s) = source_data s"
  "freed (ufcs_push_event t m d s) = freed s" "io_trace (ufcs_push_event t m d s) = io_trace s"
  "env_in (ufcs_push_event t m d s) = env_in s" "env_rx (ufcs_push_event t m d s) = env_rx s"
  "env_fifo_slots (ufcs_push_event t m d s) = env_fifo_slots s"
  by (simp_all add: ufcs_push_event_def)

lemma ufcs_free_event_frame [simp]:
  "config (ufcs_free_event e s) = config s" "sender (ufcs_free_event e s) = sender s"
  "recv_msg (ufcs_free_event e s) = recv_msg s" "ev_exit (ufcs_free_event e s) = ev_exit s"
  "ev_ack (ufcs_free_event e s) = ev_ack s" "st_curr (ufcs_free_event e s) = st_curr s"
  "st_err (ufcs_free_event e s) = st_err s" "pdo_num (ufcs_free_event e s) = pdo_num s"
  "pdo_data (ufcs_free_event e s) = pdo_data s"
  "verify_random (ufcs_free_event e s) = verify_random s"
  "verify_auth (ufcs_free_event e s) = verify_auth s"
  "src_info (ufcs_free_event e s) = src_info s" "cable_info (ufcs_free_event e s) = cable_info s"
  "dev_info (ufcs_free_event e s) = dev_info s" "err_info (ufcs_free_event e s) = err_info s"
  "test_mode (ufcs_free_event e s) = test_mode s"
  "verify_pass (ufcs_free_event e s) = verify_pass s"
  "handshake_success (ufcs_free_event e s) = handshake_success s"
  "start_cable_detect (ufcs_free_event e s) = start_cable_detect s"
  "exit_ufcs_ack_received (ufcs_free_event e s) = exit_ufcs_ack_received s"
  "pe_locked (ufcs_free_event e s) = pe_locked s"
  "request_ack (ufcs_free_event e s) = request_ack s"
  "timer_on (ufcs_free_event e s) = timer_on s"
  "timeout_event (ufcs_free_event e s) = timeout_event s" "works (ufcs_free_event e s) = works s"
  "handshake_state (ufcs_free_event e s) = handshake_state s"
  "err_flag_fifo (ufcs_free_event e s) = err_flag_fifo s"
  "dev_err_flag (ufcs_free_event e s) = dev_err_flag s"
  "source_data (ufcs_free_event e s) = source_data s"
  "io_trace (ufcs_free_event e s) = io_trace s" "env_in (ufcs_free_event e s) = env_in s"
  "env_rx (ufcs_free_event e s) = env_rx s"
  "env_fifo_slots (ufcs_free_event e s) = env_fifo_slots s"
  by (simp_all add: ufcs_free_event_def)

lemma ufcs_free_all_event_frame [simp]:
  "config (ufcs_free_all_event s) = config s" "sender (ufcs_free_all_event s) = sender s"
  "recv_msg (ufcs_free_all_event s) = recv_msg s" "ev_exit (ufcs_free_all_event s) = ev_exit s"
  "ev_ack (ufcs_free_all_event s) = ev_ack s" "st_curr (ufcs_free_all_event s) = st_curr s"
  "st_err (ufcs_free_all_event s) = st_err s" "pdo_num (ufcs_free_all_event s) = pdo_num s"
  "pdo_data (ufcs_free_all_event s) = pdo_data s"
  "verify_random (ufcs_free_all_event s) = verify_random s"
  "verify_auth (ufcs_free_all_event s) = verify_auth s"
  "src_info (ufcs_free_all_event s) = src_info s"
  "cable_info (ufcs_free_all_event s) = cable_info s"
  "dev_info (ufcs_free_all_event s) = dev_info s" "err_info (ufcs_free_all_event s) = err_info s"
  "test_mode (ufcs_free_all_event s) = test_mode s"
  "verify_pass (ufcs_free_all_event s) = verify_pass s"
  "handshake_success (ufcs_free_all_event s) = handshake_success s"
  "start_cable_detect (ufcs_free_all_event s) = start_cable_detect s"
  "exit_ufcs_ack_received (ufcs_free_all_event s) = exit_ufcs_ack_received s"
  "pe_locked (ufcs_free_all_event s) = pe_locked s"
  "request_ack (ufcs_free_all_event s) = request_ack s"
  "timer_on (ufcs_free_all_event s) = timer_on s"
  "timeout_event (ufcs_free_all_event s) = timeout_event s"
  "works (ufcs_free_all_event s) = works s"
  "handshake_state (ufcs_free_all_event s) = handshake_state s"
  "err_flag_fifo (ufcs_free_all_event s) = err_flag_fifo s"
  "dev_err_flag (ufcs_free_all_event s) = dev_err_flag s"
  "source_data (ufcs_free_all_event s) = source_data s"
  "io_trace (ufcs_free_all_event s) = io_trace s" "env_in (ufcs_free_all_event s) = env_in s"
  "env_rx (ufcs_free_all_event s) = env_rx s"
  "env_fifo_slots (ufcs_free_all_event s) = env_fifo_slots s"
  by (simp_all add: ufcs_free_all_event_def)

lemma hrtimer_start_frame [simp]:
  "config (hrtimer_start t s) = config s" "sender (hrtimer_start t s) = sender s"
  "recv_msg (hrtimer_start t s) = recv_msg s" "events (hrtimer_start t s) = events s"
  "ev_exit (hrtimer_start t s) = ev_exit s" "ev_ack (hrtimer_start t s) = ev_ack s"
  "st_curr (hrtimer_start t s) = st_curr s" "st_err (hrtimer_start t s) = st_err s"
  "pdo_num (hrtimer_start t s) = pdo_num s" "pdo_data (hrtimer_start t s) = pdo_data s"
  "verify_random (hrtimer_start t s) = verify_random s"
  "verify_auth (hrtimer_start t s) = verify_auth s" "src_info (hrtimer_start t s) = src_info s"
  "cable_info (hrtimer_start t s) = cable_info s" "dev_info (hrtimer_start t s) = dev_info s"
  "err_info (hrtimer_start t s) = err_info s" "test_mode (hrtimer_start t s) = test_mode s"
  "verify_pass (hrtimer_start t s) = verify_pass s"
  "handshake_success (hrtimer_start t s) = handshake_success s"
  "start_cable_detect (hrtimer_start t s) = start_cable_detect s"
  "exit_ufcs_ack_received (hrtimer_start t s) = exit_ufcs_ack_received s"
  "pe_locked (hrtimer_start t s) = pe_locked s" "request_ack (hrtimer_start t s) = request_ack s"
  "timeout_event (hrtimer_start t s) = timeout_event s" "works (hrtimer_start t s) = works s"
  "handshake_state (hrtimer_start t s) = handshake_state s"
  "err_flag_fifo (hrtimer_start t s) = err_flag_fifo s"
  "dev_err_flag (hrtimer_start t s) = dev_err_flag s"
  "source_data (hrtimer_start t s) = source_data s" "freed (hrtimer_start t s) = freed s"
  "io_trace (hrtimer_start t s) = io_trace s" "env_in (hrtimer_start t s) = env_in s"
  "env_rx (hrtimer_start t s) = env_rx s" "env_fifo_slots (hrtimer_start t s) = env_fifo_slots s"
  by (simp_all add: hrtimer_start_def)

lemma hrtimer_cancel_frame [simp]:
  "config (hrtimer_cancel t s) = config s" "sender (hrtimer_cancel t s) = sender s"
  "recv_msg (hrtimer_cancel t s) = recv_msg s" "events (hrtimer_cancel t s) = events s"
  "ev_exit (hrtimer_cancel t s) = ev_exit s" "ev_ack (hrtimer_cancel t s) = ev_ack s"
  "st_curr (hrtimer_cancel t s) = st_curr s" "st_err (hrtimer_cancel t s) = st_err s"
  "pdo_num (hrtimer_cancel t s) = pdo_num s" "pdo_data (hrtimer_cancel t s) = pdo_data s"
  "verify_random (hrtimer_cancel t s) = verify_random s"
  "verify_auth (hrtimer_cancel t s) = verify_auth s" "src_info (hrtimer_cancel t s) = src_info s"
  "cable_info (hrtimer_cancel t s) = cable_info s" "dev_info (hrtimer_cancel t s) = dev_info s"
  "err_info (hrtimer_cancel t s) = err_info s" "test_mode (hrtimer_cancel t s) = test_mode s"
  "verify_pass (hrtimer_cancel t s) = verify_pass s"
  "handshake_success (hrtimer_cancel t s) = handshake_success s"
  "start_cable_detect (hrtimer_cancel t s) = start_cable_detect s"
  "exit_ufcs_ack_received (hrtimer_cancel t s) = exit_ufcs_ack_received s"
  "pe_locked (hrtimer_cancel t s) = pe_locked s"
  "request_ack (hrtimer_cancel t s) = request_ack s"
  "timeout_event (hrtimer_cancel t s) = timeout_event s" "works (hrtimer_cancel t s) = works s"
  "handshake_state (hrtimer_cancel t s) = handshake_state s"
  "err_flag_fifo (hrtimer_cancel t s) = err_flag_fifo s"
  "dev_err_flag (hrtimer_cancel t s) = dev_err_flag s"
  "source_data (hrtimer_cancel t s) = source_data s" "freed (hrtimer_cancel t s) = freed s"
  "io_trace (hrtimer_cancel t s) = io_trace s" "env_in (hrtimer_cancel t s) = env_in s"
  "env_rx (hrtimer_cancel t s) = env_rx s"
  "env_fifo_slots (hrtimer_cancel t s) = env_fifo_slots s"
  by (simp_all add: hrtimer_cancel_def)

lemma start_event_timer_frame [simp]:
  "config (start_event_timer t s) = config s" "sender (start_event_timer t s) = sender s"
  "recv_msg (start_event_timer t s) = recv_msg s" "events (start_event_timer t s) = events s"
  "ev_exit (start_event_timer t s) = ev_exit s" "ev_ack (start_event_timer t s) = ev_ack s"
  "st_curr (start_event_timer t s) = st_curr s" "st_err (start_event_timer t s) = st_err s"
  "pdo_num (start_event_timer t s) = pdo_num s" "pdo_data (start_event_timer t s) = pdo_data s"
  "verify_random (start_event_timer t s) = verify_random s"
  "verify_auth (start_event_timer t s) = verify_auth s"
  "src_info (start_event_timer t s) = src_info s"
  "cable_info (start_event_timer t s) = cable_info s"
  "dev_info (start_event_timer t s) = dev_info s" "err_info (start_event_timer t s) = err_info s"
  "test_mode (start_event_timer t s) = test_mode s"
  "verify_pass (start_event_timer t s) = verify_pass s"
  "handshake_success (start_event_timer t s) = handshake_success s"
  "start_cable_detect (start_event_timer t s) = start_cable_detect s"
  "exit_ufcs_ack_received (start_event_timer t s) = exit_ufcs_ack_received s"
  "pe_locked (start_event_timer t s) = pe_locked s"
  "request_ack (start_event_timer t s) = request_ack s" "works (start_event_timer t s) = works s"
  "handshake_state (start_event_timer t s) = handshake_state s"
  "err_flag_fifo (start_event_timer t s) = err_flag_fifo s"
  "dev_err_flag (start_event_timer t s) = dev_err_flag s"
  "source_data (start_event_timer t s) = source_data s" "freed (start_event_timer t s) = freed s"
  "io_trace (start_event_timer t s) = io_trace s" "env_in (start_event_timer t s) = env_in s"
  "env_rx (start_event_timer t s) = env_rx s"
  "env_fifo_slots (start_event_timer t s) = env_fifo_slots s"
  by (simp_all add: start_event_timer_def Let_def case_prod_unfold)

lemma stop_event_timer_frame [simp]:
  "config (stop_event_timer t s) = config s" "sender (stop_event_timer t s) = sender s"
  "recv_msg (stop_event_timer t s) = recv_msg s" "events (stop_event_timer t s) = events s"
  "ev_exit (stop_event_timer t s) = ev_exit s" "ev_ack (stop_event_timer t s) = ev_ack s"
  "st_curr (stop_event_timer t s) = st_curr s" "st_err (stop_event_timer t s) = st_err s"
  "pdo_num (stop_event_timer t s) = pdo_num s" "pdo_data (stop_event_timer t s) = pdo_data s"
  "verify_random (stop_event_timer t s) = verify_random s"
  "verify_auth (stop_event_timer t s) = verify_auth s"
  "src_info (stop_event_timer t s) = src_info s"
  "cable_info (stop_event_timer t s) = cable_info s"
  "dev_info (stop_event_timer t s) = dev_info s" "err_info (stop_event_timer t s) = err_info s"
  "test_mode (stop_event_timer t s) = test_mode s"
  "verify_pass (stop_event_timer t s) = verify_pass s"
  "handshake_success (stop_event_timer t s) = handshake_success s"
  "start_cable_detect (stop_event_timer t s) = start_cable_detect s"
  "exit_ufcs_ack_received (stop_event_timer t s) = exit_ufcs_ack_received s"
  "pe_locked (stop_event_timer t s) = pe_locked s"
  "request_ack (stop_event_timer t s) = request_ack s" "works (stop_event_timer t s) = works s"
  "handshake_state (stop_event_timer t s) = handshake_state s"
  "err_flag_fifo (stop_event_timer t s) = err_flag_fifo s"
  "dev_err_flag (stop_event_timer t s) = dev_err_flag s"
  "source_data (stop_event_timer t s) = source_data s" "freed (stop_event_timer t s) = freed s"
  "io_trace (stop_event_timer t s) = io_trace s" "env_in (stop_event_timer t s) = env_in s"
  "env_rx (stop_event_timer t s) = env_rx s"
  "env_fifo_slots (stop_event_timer t s) = env_fifo_slots s"
  by (simp_all add: stop_event_timer_def Let_def)

section \<open>Sleeping\<close>

text \<open>What every input, with what the worker does after it, leaves true is true after the sleep;
  so is the condition that was slept for.\<close>

lemma sleep_until_invariant:
  assumes "sleep_until P drain s = Some s'" and "Q s"
    and drain: "\<And>i is s s'. drain (deliver i (s\<lparr>env_in := is\<rparr>)) = Some s' \<Longrightarrow> Q s \<Longrightarrow> Q s'"
  shows "Q s' \<and> P s'"
proof -
  let ?R = "\<lambda>x s'. fst (fst x) = P \<and> snd (fst x) = drain \<longrightarrow> Q (snd x) \<longrightarrow> Q s' \<and> P s'"
  have "?R ((P, drain), s) s'"
    by (rule sleep_until.raw_induct [where Pa = ?R, OF _ assms(1)])
      (auto split: if_splits list.splits simp: bind_eq_Some_conv dest: drain)
  then show ?thesis using assms(2) by simp
qed

section \<open>The event list and the error flags are queues\<close>

text \<open>The identities of the events are the addresses of distinct live objects.\<close>

definition event_ids_ok :: "ufcs_class \<Rightarrow> bool" where
  "event_ids_ok s \<longleftrightarrow> distinct (map ev_id (events s)) \<and> list_all (\<lambda>e. ev_id e < next_id s) (events s)"

definition event_payload :: "ufcs_event \<Rightarrow> ufcs_event_type \<times> ufcs_msg option \<times> event_data option" where
  "event_payload e = (ev_type e, ev_msg e, ev_data e)"

definition put_event :: "ufcs_event_type \<times> ufcs_msg option \<times> event_data option \<Rightarrow> ufcs_class \<Rightarrow> ufcs_class" where
  "put_event p s = (case p of (t, m, d) \<Rightarrow> ufcs_push_event t m d s)"

definition fetch_event ::
  "ufcs_class \<Rightarrow> ((ufcs_event_type \<times> ufcs_msg option \<times> event_data option) \<times> ufcs_class) option" where
  "fetch_event s = (case events s of [] \<Rightarrow> None | e # _ \<Rightarrow> Some (event_payload e, ufcs_free_event e s))"

lemma free_head: "event_ids_ok s \<Longrightarrow> events s = e # es \<Longrightarrow> events (ufcs_free_event e s) = es"
  by (auto simp: event_ids_ok_def ufcs_free_event_def image_iff intro!: filter_True)

interpretation event_list: unbounded_fifo
  "\<lambda>s. map event_payload (events s)" event_ids_ok "\<lambda>_. True" put_event fetch_event
proof
  fix s p assume "event_ids_ok s"
  then show "event_ids_ok (put_event p s)" "map event_payload (events (put_event p s)) = map event_payload (events s) @ [p]"
    by (auto simp: event_ids_ok_def put_event_def ufcs_push_event_def event_payload_def list_all_iff less_Suc_eq
        split: prod.split)
next
  fix s x xs assume o: "event_ids_ok s" and "map event_payload (events s) = x # xs"
  then obtain e es where e: "events s = e # es" "x = event_payload e" "xs = map event_payload es" by auto
  then show "\<exists>s'. fetch_event s = Some (x, s') \<and> map event_payload (events s') = xs \<and> event_ids_ok s'"
    using o free_head [OF o e(1)]
    by (auto simp: fetch_event_def event_ids_ok_def) (simp_all add: ufcs_free_event_def)
qed (simp_all add: fetch_event_def)

definition fetch_flag :: "ufcs_class \<Rightarrow> (u32 \<times> ufcs_class) option" where
  "fetch_flag s = (case ufcs_get_error_flag s of (rc, s') \<Rightarrow> if rc < 0 then None else Some (dev_err_flag s', s'))"

interpretation err_flags: bounded_fifo err_flag_fifo "\<lambda>_. True"
  "\<lambda>s. length (err_flag_fifo s) < env_fifo_slots s" "\<lambda>f s. snd (ufcs_set_error_flag f s)" fetch_flag env_fifo_slots
  by unfold_locales
    (auto simp: ufcs_set_error_flag_def fetch_flag_def ufcs_get_error_flag_def split: list.splits)

text \<open>The list alone, without the waiting and the refusals of \<^verbatim>\<open>ufcs_get_next_event\<close>, which only reads the head: taking
  the head and freeing it, as the handlers do, gives the pushed events in their order.\<close>

theorem event_list_fifo:
  assumes "event_ids_ok s"
  shows "take_n fetch_event (length (events s) + length xs) (fold put_event xs s) =
    map event_payload (events s) @ xs"
  using event_list.first_in_first_out [OF assms, of xs] by simp

lemma event_list_fifo_witness:
  "take_n fetch_event (length (events (connected_class (demo_config False) [])) + 2)
     (fold put_event [(UFCS_EVENT_TIMEOUT, None, None), (UFCS_EVENT_HANDSHAKE, None, None)]
       (connected_class (demo_config False) [])) =
   [(UFCS_EVENT_TIMEOUT, None, None), (UFCS_EVENT_HANDSHAKE, None, None)]"
proof -
  have "event_ids_ok (connected_class (demo_config False) [])"
    and "events (connected_class (demo_config False) []) = []"
    by (simp_all add: connected_class_def event_ids_ok_def)
  then show ?thesis
    using event_list_fifo [of "connected_class (demo_config False) []"
      "[(UFCS_EVENT_TIMEOUT, None, None), (UFCS_EVENT_HANDSHAKE, None, None)]"]
    by (simp only: list.size list.map append_Nil add_Suc_right add_0_right numeral_2_eq_2)
qed

text \<open>The error flags are a bounded queue: reading returns the reported flags in order, and of
  the flags reported while the queue is full none is queued: the oldest survive, the newest are
  lost.\<close>

theorem err_flags_fifo:
  assumes "length (err_flag_fifo s) \<le> env_fifo_slots s"
  shows "take_n fetch_flag (env_fifo_slots s) (fold (\<lambda>f s. snd (ufcs_set_error_flag f s)) xs s) =
    take (env_fifo_slots s) (err_flag_fifo s @ xs)"
  using err_flags.first_in_first_out [OF _ assms, of xs] by simp

lemma err_flags_fifo_witness:
  "take_n fetch_flag 5 (fold (\<lambda>f s. snd (ufcs_set_error_flag f s)) [1, 2, 3, 4, 5, 6]
     (connected_class (demo_config False) [])) = [1, 2, 3, 4, 5]"
  using err_flags_fifo [of "connected_class (demo_config False) []" "[1, 2, 3, 4, 5, 6]"]
  by (simp add: connected_class_def)

section \<open>What an input leaves alone\<close>

lemma timer_expire_frame [simp]:
  "s_ack (sender (timer_expire t s)) = s_ack (sender s)" "env_in (timer_expire t s) = env_in s"
  by (cases t; simp add: timeout_defs Let_def)+

lemma deliver_env_in [simp]: "env_in (deliver i s) = env_in s"
  by (cases i) (simp_all add: Let_def ufcs_msg_handler_def ufcs_set_error_flag_def
      force_exit_tail_def ufcs_exit_sm_work_def ufcs_clean_process_info_def split: option.split)

lemma deliver_sender_ack: "i \<noteq> In_exit \<Longrightarrow> s_ack (sender (deliver i s)) = s_ack (sender s)"
  by (cases i) (simp_all add: Let_def ufcs_msg_handler_def ufcs_set_error_flag_def
      split: option.split)

lemma sleep_alone_forever:
  assumes "s_ack (sender s) = 0" and "In_exit \<notin> set (env_in s)"
  shows "sleep_until (\<lambda>s. completed (s_ack (sender s))) Some s = None"
  using assms
proof (induction "env_in s" arbitrary: s)
  case Nil
  then have "env_in s = []" by simp
  with Nil.prems(1) show ?case by (subst sleep_until.simps) simp
next
  case (Cons i js)
  note e = Cons.hyps(2) [symmetric]
  have "sleep_until (\<lambda>s. completed (s_ack (sender s))) Some (deliver i (s\<lparr>env_in := js\<rparr>)) = None"
    using Cons.prems e by (intro Cons.hyps(1)) (auto simp: deliver_sender_ack)
  with Cons.prems(1) e show ?case by (subst sleep_until.simps) simp
qed

end
