(* ===== verification/Ufcs_Sender.thy ===== *)
theory Ufcs_Sender
  imports Ufcs_Class
begin

text \<open>
  The sending side: \<^verbatim>\<open>ufcs_write_msg\<close>, the send work and the retry logic of
  \<^verbatim>\<open>ufcs_event.c\<close>, and the functions of \<^verbatim>\<open>ufcs_event_ctrl.c\<close>,
  \<^verbatim>\<open>ufcs_event_data.c\<close> and \<^verbatim>\<open>ufcs_event_vendor.c\<close> that build and send one message.
  A send sleeps until the send work, which runs on the worker thread, has reported. The argument
  \<open>drain\<close> is what the worker does while the caller sleeps: it runs its queue when the caller is
  another thread, and nothing when the caller is the worker itself.
\<close>

section \<open>Messages\<close>

definition init_msg_head :: "ufcs_msg_type \<Rightarrow> u8 \<Rightarrow> ufcs_msg_head" where
  "init_msg_head t idx = \<lparr>head_type = msg_type_code t, head_version = UFCS_VER_CURR,
     head_index = idx, head_addr = device_addr_code UFCS_DEVICE_SOURCE\<rparr>"

definition ctrl_message :: "ufcs_ctrl_msg_type \<Rightarrow> u8 \<Rightarrow> ufcs_msg" where
  "ctrl_message c idx =
     zero_msg\<lparr>msg_head := init_msg_head UFCS_CTRL_MSG idx, ctrl_command := ctrl_code c\<rparr>"

definition data_message :: "ufcs_data_msg_type \<Rightarrow> bytes \<Rightarrow> u8 \<Rightarrow> ufcs_msg" where
  "data_message c payload idx =
     zero_msg\<lparr>msg_head := init_msg_head UFCS_DATA_MSG idx,
       data_msg := \<lparr>dm_command = data_code c, dm_length = of_nat (length payload),
         dm_data = put_bytes 0 payload (dm_data (data_msg zero_msg))\<rparr>\<rparr>"

definition UFCS_OPLUS_DEV_ID :: u16 where "UFCS_OPLUS_DEV_ID = 0x22d9"

definition oplus_message :: "ufcs_oplus_vnd_msg_type \<Rightarrow> u8 \<Rightarrow> ufcs_msg" where
  "oplus_message t idx =
     zero_msg\<lparr>msg_head := init_msg_head UFCS_VENDOR_MSG idx,
       vendor_msg := \<lparr>vm_vnd_id = UFCS_OPLUS_DEV_ID, vm_length = 1,
         vm_data = put_bytes 0 [oplus_code t] (vm_data (vendor_msg zero_msg))\<rparr>\<rparr>"

definition ufcs_is_ack_nck_msg :: "u8 \<Rightarrow> bool" where
  "ufcs_is_ack_nck_msg cmd \<longleftrightarrow> cmd = ctrl_code CTRL_MSG_ACK \<or> cmd = ctrl_code CTRL_MSG_NCK"
definition ufcs_is_soft_reset_msg :: "u8 \<Rightarrow> bool" where
  "ufcs_is_soft_reset_msg cmd \<longleftrightarrow> cmd = ctrl_code CTRL_MSG_SOFT_RESET"
definition ufcs_is_ping_msg :: "u8 \<Rightarrow> bool" where
  "ufcs_is_ping_msg cmd \<longleftrightarrow> cmd = ctrl_code CTRL_MSG_PING"
definition ufcs_is_supported_ctrl_msg :: "u8 \<Rightarrow> bool" where
  "ufcs_is_supported_ctrl_msg cmd \<longleftrightarrow> ctrl_msg_of cmd \<noteq> None"
definition ufcs_is_supported_data_msg :: "u8 \<Rightarrow> bool" where
  "ufcs_is_supported_data_msg cmd \<longleftrightarrow> data_msg_of cmd \<noteq> None"

text \<open>\<^verbatim>\<open>ufcs_dump_msg_info\<close> only prints; its result is the check of the message type.\<close>

definition ufcs_dump_msg_info :: "ufcs_msg \<Rightarrow> rc" where
  "ufcs_dump_msg_info msg = (if msg_type_of (head_type (msg_head msg)) = None then - EINVAL else 0)"

section \<open>The send work\<close>

definition ufcs_write_msg :: "ufcs_msg \<Rightarrow> ufcs_class \<Rightarrow> rc \<times> ufcs_msg \<times> ufcs_class" where
  "ufcs_write_msg msg s =
     (case ufcs_pack_msg (config s) msg UFCS_MSG_SIZE_MAX of
        Inl rc \<Rightarrow> (rc, msg, s)
      | Inr (buf, msg') \<Rightarrow>
          (let s1 = emit (Io_write buf) s
           in case env_write s1 of
                [] \<Rightarrow> (0, msg', s1)
              | rc # rcs \<Rightarrow> (if rc < 0 then rc else 0, msg', s1\<lparr>env_write := rcs\<rparr>)))"

definition retry_max :: "ufcs_config \<Rightarrow> u8" where
  "retry_max c = (if msg_resend c then MSG_RETRY_COUNT_MAX else 1)"

definition ufcs_send_attempt :: "ufcs_msg \<Rightarrow> bool \<Rightarrow> ufcs_class \<Rightarrow> ufcs_class" where
  "ufcs_send_attempt msg ack_nck s =
     (if s_retry (sender s) \<ge> retry_max (config s)
      then complete_sender (set_status MSG_RETRY_OVER (stop_ack_receive_timer s))
      else if ufcs_dump_msg_info msg < 0 then s
      else let (rc, msg', s1) = ufcs_write_msg msg s;
               s2 = s1\<lparr>sender := (sender s1)\<lparr>s_msg := Some msg'\<rparr>\<rparr>
           in if rc < 0 then complete_sender (set_status MSG_SEND_FAIL s2)
              else if \<not> ack_nck then start_ack_receive_timer (set_status MSG_WAIT_ACK s2)
              else complete_sender (set_status MSG_SEND_OK s2))"

definition ufcs_msg_send_work :: "ufcs_class \<Rightarrow> ufcs_class" where
  "ufcs_msg_send_work s =
     (case s_msg (sender s) of
        None \<Rightarrow> s
      | Some msg \<Rightarrow>
          (let ack_nck = (head_type (msg_head msg) = msg_type_code UFCS_CTRL_MSG \<and>
                            ufcs_is_ack_nck_msg (ctrl_command msg))
           in if ack_nck then ufcs_send_attempt msg True s
              else case s_status (sender s) of
                MSG_ACK_TIMEOUT \<Rightarrow>
                  ufcs_send_attempt msg False (s\<lparr>sender := (sender s)\<lparr>s_retry := s_retry (sender s) + 1\<rparr>\<rparr>)
              | MSG_NCK \<Rightarrow>
                  ufcs_send_attempt msg False (s\<lparr>sender := (sender s)\<lparr>s_retry := s_retry (sender s) + 1\<rparr>\<rparr>)
              | MSG_RETRY_OVER \<Rightarrow> complete_sender s
              | MSG_SEND_OK \<Rightarrow> complete_sender s
              | MSG_SEND_FAIL \<Rightarrow> complete_sender s
              | MSG_SEND_PENDIGN \<Rightarrow> s
              | MSG_WAIT_ACK \<Rightarrow> s
              | MSG_SEND_START \<Rightarrow> ufcs_send_attempt msg False s))"

section \<open>Sending and waiting\<close>

text \<open>\<^verbatim>\<open>sender->msg\<close> points to the caller's message, which \<^verbatim>\<open>ufcs_pack_msg\<close> converts in
  place, so the message comes back with the result.\<close>

definition wait_sender_ack ::
  "(ufcs_class \<Rightarrow> ufcs_class option) \<Rightarrow> ufcs_class \<Rightarrow> ufcs_class option" where
  "wait_sender_ack drain s =
     do { s0 \<leftarrow> drain s;
          s1 \<leftarrow> sleep_until (\<lambda>s. completed (s_ack (sender s))) drain s0;
          Some (s1\<lparr>sender := (sender s1)\<lparr>s_ack := completion_taken (s_ack (sender s1))\<rparr>\<rparr>) }"

definition send_result :: "ufcs_class \<Rightarrow> rc" where
  "send_result s =
     (case s_status (sender s) of
        MSG_SEND_OK \<Rightarrow> 0
      | MSG_RETRY_OVER \<Rightarrow> - EAGAIN
      | _ \<Rightarrow> - EINVAL)"

definition next_counter :: "u8 \<Rightarrow> u8" where
  "next_counter c = (if c + 1 > MSG_NUMBER_COUNT_MAX then 0 else c + 1)"

definition do_ufcs_send_msg ::
  "(ufcs_class \<Rightarrow> ufcs_class option) \<Rightarrow> ufcs_msg \<Rightarrow> ufcs_class \<Rightarrow> (rc \<times> ufcs_msg \<times> ufcs_class) option"
where
  "do_ufcs_send_msg drain msg s =
     do { let s1 = s\<lparr>sender := (sender s)\<lparr>s_msg := Some msg, s_retry := 0, s_ack := 0\<rparr>\<rparr>;
          s2 \<leftarrow> wait_sender_ack drain (kthread_queue_work Msg_send_work s1);
          let s3 = kthread_cancel_work Msg_send_work s2;
          let msg' = (case s_msg (sender s3) of Some m \<Rightarrow> m | None \<Rightarrow> msg);
          let rc = send_result s3;
          let s4 = s3\<lparr>sender := (sender s3)\<lparr>s_msg := None, s_status := MSG_SEND_PENDIGN,
                        s_counter := next_counter (s_counter (sender s3))\<rparr>\<rparr>;
          Some (rc, msg', start_msg_trans_delay_timer s4) }"

text \<open>Messages whose failure is not answered with a soft reset.\<close>

definition plain_msg :: "ufcs_msg \<Rightarrow> bool" where
  "plain_msg msg \<longleftrightarrow> head_type (msg_head msg) = msg_type_code UFCS_CTRL_MSG \<and>
     (ufcs_is_ack_nck_msg (ctrl_command msg) \<or> ufcs_is_soft_reset_msg (ctrl_command msg) \<or>
      ufcs_is_ping_msg (ctrl_command msg))"

abbreviation lock_sender :: "ufcs_class \<Rightarrow> ufcs_class" where
  "lock_sender s \<equiv> s\<lparr>sender := (sender s)\<lparr>s_locked := True\<rparr>\<rparr>"

abbreviation unlock_sender :: "ufcs_class \<Rightarrow> ufcs_class" where
  "unlock_sender s \<equiv> s\<lparr>sender := (sender s)\<lparr>s_locked := False\<rparr>\<rparr>"

text \<open>\<^verbatim>\<open>ufcs_send_msg\<close>, with the loop variable \<^verbatim>\<open>soft_reset\<close> as an argument: after a failed
  attempt a soft reset is sent (by this same function, in \<^verbatim>\<open>ufcs_send_ctrl_msg\<close>), and the
  message is sent once more if \<open>retry\<close> asks for it. A mutex that is already held is held by a
  thread that waits for this one.\<close>

function ufcs_send_msg ::
  "(ufcs_class \<Rightarrow> ufcs_class option) \<Rightarrow> bool \<Rightarrow> ufcs_msg \<Rightarrow> bool \<Rightarrow> ufcs_class \<Rightarrow> (rc \<times> ufcs_class) option"
where
  "ufcs_send_msg drain soft_reset msg retry s =
     (if msg_type_of (head_type (msg_head msg)) = None then Some (- ENOTSUPP, s)
      else if s_locked (sender s) then None
      else do { (rc, msg', s1) \<leftarrow> do_ufcs_send_msg drain msg (lock_sender s);
                if rc \<ge> 0 \<or> rc \<noteq> - EAGAIN then Some (rc, unlock_sender s1)
                else if soft_reset then Some (- EIO, unlock_sender s1)
                else if plain_msg msg then Some (rc, unlock_sender s1)
                else do { let (ok, s2) = kzalloc (unlock_sender s1);
                          (rc2, s3) \<leftarrow>
                            (if ok then ufcs_send_msg drain False
                                          (ctrl_message CTRL_MSG_SOFT_RESET (s_counter (sender s2))) False s2
                             else Some (- ENOMEM, s2));
                          if rc2 < 0 then Some (- EIO, s3)
                          else if retry then ufcs_send_msg drain True msg' retry s3
                          else Some (- EAGAIN, s3) } })"
  by pat_completeness auto

termination ufcs_send_msg
proof (relation "measure (\<lambda>(drain, soft_reset, msg, retry, s).
    if plain_msg msg then 0 else if soft_reset then 1 else 2)", goal_cases)
  case 1
  show ?case by simp
next
  case 2
  then show ?case
    by (simp add: plain_msg_def ctrl_message_def init_msg_head_def ufcs_is_soft_reset_msg_def)
next
  case 3
  then show ?case by simp
qed

declare ufcs_send_msg.simps [simp del]

section \<open>One function per message\<close>

definition ufcs_send_ctrl_msg ::
  "(ufcs_class \<Rightarrow> ufcs_class option) \<Rightarrow> ufcs_ctrl_msg_type \<Rightarrow> bool \<Rightarrow> ufcs_class \<Rightarrow> (rc \<times> ufcs_class) option"
where
  "ufcs_send_ctrl_msg drain c retry s =
     (let (ok, s1) = kzalloc s
      in if ok then ufcs_send_msg drain False (ctrl_message c (s_counter (sender s1))) retry s1
         else Some (- ENOMEM, s1))"

text \<open>The common shape of the \<^verbatim>\<open>__ufcs_send_data_msg_*\<close> functions: allocate, fill in the
  header and the payload, send.\<close>

definition send_data_payload ::
  "(ufcs_class \<Rightarrow> ufcs_class option) \<Rightarrow> ufcs_data_msg_type \<Rightarrow> bytes \<Rightarrow> bool \<Rightarrow> ufcs_class \<Rightarrow> (rc \<times> ufcs_class) option"
where
  "send_data_payload drain c payload retry s =
     (let (ok, s1) = kzalloc s
      in if ok then ufcs_send_msg drain False (data_message c payload (s_counter (sender s1))) retry s1
         else Some (- ENOMEM, s1))"

definition ufcs_oplus_send_ctrl_msg ::
  "(ufcs_class \<Rightarrow> ufcs_class option) \<Rightarrow> ufcs_oplus_vnd_msg_type \<Rightarrow> bool \<Rightarrow> ufcs_class \<Rightarrow> (rc \<times> ufcs_class) option"
where
  "ufcs_oplus_send_ctrl_msg drain t retry s =
     (let (ok, s1) = kzalloc s
      in if ok then ufcs_send_msg drain False (oplus_message t (s_counter (sender s1))) retry s1
         else Some (- ENOMEM, s1))"

definition do_ufcs_send_data_msg_request ::
  "(ufcs_class \<Rightarrow> ufcs_class option) \<Rightarrow> u64 \<Rightarrow> bool \<Rightarrow> ufcs_class \<Rightarrow> (rc \<times> ufcs_class) option"
where
  "do_ufcs_send_data_msg_request drain request retry s = send_data_payload drain DATA_MSG_REQUEST (le_bytes 8 request) retry s"

definition ufcs_send_data_msg_request ::
  "(ufcs_class \<Rightarrow> ufcs_class option) \<Rightarrow> u8 \<Rightarrow> u32 \<Rightarrow> u32 \<Rightarrow> ufcs_class \<Rightarrow> (rc \<times> ufcs_class) option"
where
  "ufcs_send_data_msg_request drain idx vol cur s = 
     do_ufcs_send_data_msg_request drain (UFCS_REQUEST_DATA (ucast idx) (ucast vol) (ucast cur)) False s"

definition ufcs_send_data_msg_request_retry ::
  "(ufcs_class \<Rightarrow> ufcs_class option) \<Rightarrow> u8 \<Rightarrow> u32 \<Rightarrow> u32 \<Rightarrow> ufcs_class \<Rightarrow> (rc \<times> ufcs_class) option"
where
  "ufcs_send_data_msg_request_retry drain idx vol cur s = 
     do_ufcs_send_data_msg_request drain (UFCS_REQUEST_DATA (ucast idx) (ucast vol) (ucast cur)) True s"

definition do_ufcs_send_data_msg_sink_info ::
  "(ufcs_class \<Rightarrow> ufcs_class option) \<Rightarrow> u64 \<Rightarrow> bool \<Rightarrow> ufcs_class \<Rightarrow> (rc \<times> ufcs_class) option"
where
  "do_ufcs_send_data_msg_sink_info drain info retry s = send_data_payload drain DATA_MSG_SINK_INFO (le_bytes 8 info) retry s"

definition ufcs_send_data_msg_sink_info ::
  "(ufcs_class \<Rightarrow> ufcs_class option) \<Rightarrow> u64 \<Rightarrow> ufcs_class \<Rightarrow> (rc \<times> ufcs_class) option"
where
  "ufcs_send_data_msg_sink_info drain info s = do_ufcs_send_data_msg_sink_info drain info False s"

definition ufcs_send_data_msg_sink_info_retry ::
  "(ufcs_class \<Rightarrow> ufcs_class option) \<Rightarrow> u64 \<Rightarrow> ufcs_class \<Rightarrow> (rc \<times> ufcs_class) option"
where
  "ufcs_send_data_msg_sink_info_retry drain info s = do_ufcs_send_data_msg_sink_info drain info True s"

definition do_ufcs_send_data_msg_cable_info ::
  "(ufcs_class \<Rightarrow> ufcs_class option) \<Rightarrow> u64 \<Rightarrow> bool \<Rightarrow> ufcs_class \<Rightarrow> (rc \<times> ufcs_class) option"
where
  "do_ufcs_send_data_msg_cable_info drain info retry s = send_data_payload drain DATA_MSG_CABLE_INFO (le_bytes 8 info) retry s"

definition ufcs_send_data_msg_cable_info ::
  "(ufcs_class \<Rightarrow> ufcs_class option) \<Rightarrow> u64 \<Rightarrow> ufcs_class \<Rightarrow> (rc \<times> ufcs_class) option"
where
  "ufcs_send_data_msg_cable_info drain info s = do_ufcs_send_data_msg_cable_info drain info False s"

definition ufcs_send_data_msg_cable_info_retry ::
  "(ufcs_class \<Rightarrow> ufcs_class option) \<Rightarrow> u64 \<Rightarrow> ufcs_class \<Rightarrow> (rc \<times> ufcs_class) option"
where
  "ufcs_send_data_msg_cable_info_retry drain info s = do_ufcs_send_data_msg_cable_info drain info True s"

definition do_ufcs_send_data_msg_dev_info ::
  "(ufcs_class \<Rightarrow> ufcs_class option) \<Rightarrow> u64 \<Rightarrow> bool \<Rightarrow> ufcs_class \<Rightarrow> (rc \<times> ufcs_class) option"
where
  "do_ufcs_send_data_msg_dev_info drain info retry s = send_data_payload drain DATA_MSG_DEVICE_INFO (le_bytes 8 info) retry s"

definition ufcs_send_data_msg_dev_info ::
  "(ufcs_class \<Rightarrow> ufcs_class option) \<Rightarrow> u64 \<Rightarrow> ufcs_class \<Rightarrow> (rc \<times> ufcs_class) option"
where
  "ufcs_send_data_msg_dev_info drain info s = do_ufcs_send_data_msg_dev_info drain info False s"

definition ufcs_send_data_msg_dev_info_retry ::
  "(ufcs_class \<Rightarrow> ufcs_class option) \<Rightarrow> u64 \<Rightarrow> ufcs_class \<Rightarrow> (rc \<times> ufcs_class) option"
where
  "ufcs_send_data_msg_dev_info_retry drain info s = do_ufcs_send_data_msg_dev_info drain info True s"

definition do_ufcs_send_data_msg_err_info ::
  "(ufcs_class \<Rightarrow> ufcs_class option) \<Rightarrow> u32 \<Rightarrow> bool \<Rightarrow> ufcs_class \<Rightarrow> (rc \<times> ufcs_class) option"
where
  "do_ufcs_send_data_msg_err_info drain info retry s = send_data_payload drain DATA_MSG_ERROR_INFO (le_bytes 4 info) retry s"

definition ufcs_send_data_msg_err_info ::
  "(ufcs_class \<Rightarrow> ufcs_class option) \<Rightarrow> u32 \<Rightarrow> ufcs_class \<Rightarrow> (rc \<times> ufcs_class) option"
where
  "ufcs_send_data_msg_err_info drain info s = do_ufcs_send_data_msg_err_info drain info False s"

definition ufcs_send_data_msg_err_info_retry ::
  "(ufcs_class \<Rightarrow> ufcs_class option) \<Rightarrow> u32 \<Rightarrow> ufcs_class \<Rightarrow> (rc \<times> ufcs_class) option"
where
  "ufcs_send_data_msg_err_info_retry drain info s = do_ufcs_send_data_msg_err_info drain info True s"

definition do_ufcs_send_data_msg_config_wd ::
  "(ufcs_class \<Rightarrow> ufcs_class option) \<Rightarrow> u16 \<Rightarrow> bool \<Rightarrow> ufcs_class \<Rightarrow> (rc \<times> ufcs_class) option"
where
  "do_ufcs_send_data_msg_config_wd drain info retry s = send_data_payload drain DATA_MSG_CONFIG_WATCHDOG (le_bytes 2 info) retry s"

definition ufcs_send_data_msg_config_wd ::
  "(ufcs_class \<Rightarrow> ufcs_class option) \<Rightarrow> u16 \<Rightarrow> ufcs_class \<Rightarrow> (rc \<times> ufcs_class) option"
where
  "ufcs_send_data_msg_config_wd drain info s = do_ufcs_send_data_msg_config_wd drain info False s"

definition ufcs_send_data_msg_config_wd_retry ::
  "(ufcs_class \<Rightarrow> ufcs_class option) \<Rightarrow> u16 \<Rightarrow> ufcs_class \<Rightarrow> (rc \<times> ufcs_class) option"
where
  "ufcs_send_data_msg_config_wd_retry drain info s = do_ufcs_send_data_msg_config_wd drain info True s"

text \<open>A refusal names the refused message; the header of a received message was unpacked by
  \<^verbatim>\<open>ufcs_unpack_msg\<close>.\<close>

definition refuse_data :: "ufcs_msg \<Rightarrow> ufcs_refuse_reason \<Rightarrow> u32" where
  "refuse_data msg reason =
     (let h = msg_head msg;
          (cmd, reason') =
            (case msg_type_of (head_type h) of
               Some UFCS_CTRL_MSG \<Rightarrow> (ctrl_command msg, reason)
             | Some UFCS_DATA_MSG \<Rightarrow> (dm_command (data_msg msg), reason)
             | Some UFCS_VENDOR_MSG \<Rightarrow> (0, reason)
             | None \<Rightarrow> (0, REFUSE_UNKNOWN_CMD))
      in UFCS_REFUSE_INFO_DATA (ucast (head_index h)) (ucast (head_type h)) (ucast cmd)
           (refuse_code reason'))"

definition do_ufcs_send_data_msg_refuse ::
  "(ufcs_class \<Rightarrow> ufcs_class option) \<Rightarrow> u32 \<Rightarrow> bool \<Rightarrow> ufcs_class \<Rightarrow> (rc \<times> ufcs_class) option"
where
  "do_ufcs_send_data_msg_refuse drain info retry s = send_data_payload drain DATA_MSG_REFUSE (le_bytes 4 info) retry s"

definition ufcs_send_data_msg_refuse ::
  "(ufcs_class \<Rightarrow> ufcs_class option) \<Rightarrow> ufcs_msg \<Rightarrow> ufcs_refuse_reason \<Rightarrow> ufcs_class \<Rightarrow> (rc \<times> ufcs_class) option"
where
  "ufcs_send_data_msg_refuse drain msg reason s = 
     do_ufcs_send_data_msg_refuse drain (refuse_data msg reason) False s"

definition ufcs_send_data_msg_refuse_retry ::
  "(ufcs_class \<Rightarrow> ufcs_class option) \<Rightarrow> ufcs_msg \<Rightarrow> ufcs_refuse_reason \<Rightarrow> ufcs_class \<Rightarrow> (rc \<times> ufcs_class) option"
where
  "ufcs_send_data_msg_refuse_retry drain msg reason s = 
     do_ufcs_send_data_msg_refuse drain (refuse_data msg reason) True s"

definition do_ufcs_send_data_msg_verify_request ::
  "(ufcs_class \<Rightarrow> ufcs_class option) \<Rightarrow> u8 \<Rightarrow> bytes \<Rightarrow> bool \<Rightarrow> ufcs_class \<Rightarrow> (rc \<times> ufcs_class) option"
where
  "do_ufcs_send_data_msg_verify_request drain idx random retry s = send_data_payload drain DATA_MSG_VERIFY_REQUEST (idx # random) retry s"

definition ufcs_send_data_msg_verify_request ::
  "(ufcs_class \<Rightarrow> ufcs_class option) \<Rightarrow> u8 \<Rightarrow> bytes \<Rightarrow> ufcs_class \<Rightarrow> (rc \<times> ufcs_class) option"
where
  "ufcs_send_data_msg_verify_request drain idx random s = 
     do_ufcs_send_data_msg_verify_request drain idx random False s"

definition ufcs_send_data_msg_verify_request_retry ::
  "(ufcs_class \<Rightarrow> ufcs_class option) \<Rightarrow> u8 \<Rightarrow> bytes \<Rightarrow> ufcs_class \<Rightarrow> (rc \<times> ufcs_class) option"
where
  "ufcs_send_data_msg_verify_request_retry drain idx random s = 
     do_ufcs_send_data_msg_verify_request drain idx random True s"

definition do_ufcs_send_data_msg_verify_response ::
  "(ufcs_class \<Rightarrow> ufcs_class option) \<Rightarrow> bytes \<Rightarrow> bytes \<Rightarrow> bool \<Rightarrow> ufcs_class \<Rightarrow> (rc \<times> ufcs_class) option"
where
  "do_ufcs_send_data_msg_verify_response drain encrypted random retry s = send_data_payload drain DATA_MSG_VERIFY_RESPONSE (encrypted @ random) retry s"

definition ufcs_send_data_msg_verify_response ::
  "(ufcs_class \<Rightarrow> ufcs_class option) \<Rightarrow> bytes \<Rightarrow> bytes \<Rightarrow> ufcs_class \<Rightarrow> (rc \<times> ufcs_class) option"
where
  "ufcs_send_data_msg_verify_response drain encrypted random s = 
     do_ufcs_send_data_msg_verify_response drain encrypted random False s"

definition ufcs_send_data_msg_verify_response_retry ::
  "(ufcs_class \<Rightarrow> ufcs_class option) \<Rightarrow> bytes \<Rightarrow> bytes \<Rightarrow> ufcs_class \<Rightarrow> (rc \<times> ufcs_class) option"
where
  "ufcs_send_data_msg_verify_response_retry drain encrypted random s = 
     do_ufcs_send_data_msg_verify_response drain encrypted random True s"

text \<open>Messages a sink does not send.\<close>

definition ufcs_send_data_msg_output_cap :: "ufcs_class \<Rightarrow> rc \<times> ufcs_class" where
  "ufcs_send_data_msg_output_cap s = (- ENOTSUPP, s)"

definition ufcs_send_data_msg_src_info :: "ufcs_class \<Rightarrow> rc \<times> ufcs_class" where
  "ufcs_send_data_msg_src_info s = (- ENOTSUPP, s)"

definition ufcs_send_data_msg_src_info_retry :: "ufcs_class \<Rightarrow> rc \<times> ufcs_class" where
  "ufcs_send_data_msg_src_info_retry s = (- ENOTSUPP, s)"

definition ufcs_send_data_msg_power_change :: "ufcs_class \<Rightarrow> rc \<times> ufcs_class" where
  "ufcs_send_data_msg_power_change s = (- ENOTSUPP, s)"

definition ufcs_send_data_msg_power_change_retry :: "ufcs_class \<Rightarrow> rc \<times> ufcs_class" where
  "ufcs_send_data_msg_power_change_retry s = (- ENOTSUPP, s)"

definition ufcs_send_data_msg_test_request :: "ufcs_class \<Rightarrow> rc \<times> ufcs_class" where
  "ufcs_send_data_msg_test_request s = (- ENOTSUPP, s)"

definition ufcs_send_data_msg_test_request_retry :: "ufcs_class \<Rightarrow> rc \<times> ufcs_class" where
  "ufcs_send_data_msg_test_request_retry s = (- ENOTSUPP, s)"

section \<open>What a send leaves behind\<close>

text \<open>The sender between two messages.\<close>

definition sender_idle :: "ufcs_class \<Rightarrow> bool" where
  "sender_idle s \<longleftrightarrow> s_msg (sender s) = None \<and> s_status (sender s) = MSG_SEND_PENDIGN \<and>
     s_counter (sender s) \<le> MSG_NUMBER_COUNT_MAX \<and> timer_on s MSG_TRANS_DELAY_TIMER"

text \<open>How a send can go: the message type is unknown; the message is sent and the result
  reported; there is no memory for the soft reset; the soft reset is all that follows; the
  message is sent a second time.\<close>

lemma send_msg_step:
  assumes "ufcs_send_msg drain sr msg retry s = Some (rc, s')"
  obtains (unsupported) "msg_type_of (head_type (msg_head msg)) = None" "rc = - ENOTSUPP" "s' = s"
  | (sent) rc1 msg1 s1 where "do_ufcs_send_msg drain msg (lock_sender s) = Some (rc1, msg1, s1)"
      "s' = unlock_sender s1" "rc = rc1 \<or> rc = - EIO"
  | (no_memory) rc1 msg1 s1 where "do_ufcs_send_msg drain msg (lock_sender s) = Some (rc1, msg1, s1)"
      "s' = snd (kzalloc (unlock_sender s1))" "rc = - EIO"
  | (reset) rc1 msg1 s1 rc2 where "do_ufcs_send_msg drain msg (lock_sender s) = Some (rc1, msg1, s1)"
      "\<not> sr" "\<not> plain_msg msg"
      "ufcs_send_msg drain False (ctrl_message CTRL_MSG_SOFT_RESET (s_counter (sender s1))) False
         (snd (kzalloc (unlock_sender s1))) = Some (rc2, s')" "rc = - EIO \<or> rc = - EAGAIN"
  | (again) rc1 msg1 s1 rc2 s3 where "do_ufcs_send_msg drain msg (lock_sender s) = Some (rc1, msg1, s1)"
      "\<not> sr" "\<not> plain_msg msg"
      "ufcs_send_msg drain False (ctrl_message CTRL_MSG_SOFT_RESET (s_counter (sender s1))) False
         (snd (kzalloc (unlock_sender s1))) = Some (rc2, s3)"
      "ufcs_send_msg drain True msg1 retry s3 = Some (rc, s')"
proof -
  note step = assms [unfolded ufcs_send_msg.simps [of drain sr msg retry s]]
  show thesis
  proof (cases "msg_type_of (head_type (msg_head msg)) = None")
    case True
    with step show thesis by (simp add: unsupported)
  next
    case False
    with step have "\<not> s_locked (sender s)" by (simp split: if_splits)
    with step False obtain rc1 msg1 s1
      where d: "do_ufcs_send_msg drain msg (lock_sender s) = Some (rc1, msg1, s1)"
      by (auto simp: bind_eq_Some_conv)
    show thesis
    proof (cases "rc1 \<noteq> - EAGAIN \<or> sr \<or> plain_msg msg")
      case True
      with step d False \<open>\<not> s_locked (sender s)\<close> show thesis
        by (intro sent [OF d]) (auto split: if_splits)
    next
      case retry: False
      define s2 where "s2 = snd (kzalloc (unlock_sender s1))"
      have c: "s_counter (sender s2) = s_counter (sender s1)" by (simp add: s2_def)
      let ?send = "if fst (kzalloc (unlock_sender s1))
         then ufcs_send_msg drain False (ctrl_message CTRL_MSG_SOFT_RESET (s_counter (sender s1))) False s2
         else Some (- ENOMEM, s2)"
      obtain rc2 s3 where r: "?send = Some (rc2, s3)"
        and *: "(if rc2 < 0 then Some (- EIO, s3) else if retry then ufcs_send_msg drain True msg1 retry s3
             else Some (- EAGAIN, s3)) = Some (rc, s')"
        using step d False \<open>\<not> s_locked (sender s)\<close> retry
        by (auto simp: Let_def case_prod_unfold bind_eq_Some_conv s2_def cong: if_cong)
      show thesis
      proof (cases "fst (kzalloc (unlock_sender s1))")
        case False
        with r * show thesis by (intro no_memory [OF d]) (auto simp: s2_def)
      next
        case True
        with r have "ufcs_send_msg drain False (ctrl_message CTRL_MSG_SOFT_RESET (s_counter (sender s1))) False
            (snd (kzalloc (unlock_sender s1))) = Some (rc2, s3)"
          by (simp add: s2_def)
        with retry * show thesis
          by (cases "rc2 < 0"; cases retry) (auto intro: again [OF d] reset [OF d])
      qed
    qed
  qed
qed

lemma plain_soft_reset [simp]: "plain_msg (ctrl_message CTRL_MSG_SOFT_RESET i)"
  by (simp add: plain_msg_def ctrl_message_def init_msg_head_def ufcs_is_soft_reset_msg_def)

lemma send_msg_invariant:
  assumes "ufcs_send_msg drain sr msg retry s = Some (rc, s')" and "P s" and "Q msg"
    and do: "\<And>m s rc m' s'. do_ufcs_send_msg drain m s = Some (rc, m', s') \<Longrightarrow> P s \<Longrightarrow> Q m \<Longrightarrow> P s' \<and> Q m'"
    and prim: "\<And>s. P s \<Longrightarrow> P (lock_sender s)" "\<And>s. P s \<Longrightarrow> P (unlock_sender s)"
      "\<And>s. P s \<Longrightarrow> P (snd (kzalloc s))"
    and msg: "\<And>i. Q (ctrl_message CTRL_MSG_SOFT_RESET i)"
  shows "P s'"
  using assms(1-3)
proof (induction "if plain_msg msg then 0 else if sr then 1 else 2 :: nat"
    arbitrary: sr msg retry s rc s' rule: less_induct)
  case less
  from less.prems(1) show ?case
  proof (cases rule: send_msg_step)
    case unsupported
    then show ?thesis using less.prems by simp
  next
    case (sent rc1 msg1 s1)
    then show ?thesis using do [OF sent(1)] less.prems prim by blast
  next
    case (no_memory rc1 msg1 s1)
    then show ?thesis using do [OF no_memory(1)] less.prems prim by blast
  next
    case (reset rc1 msg1 s1 rc2)
    then have "P (snd (kzalloc (unlock_sender s1)))"
      using do [OF reset(1)] less.prems prim by blast
    then show ?thesis using less.hyps [OF _ reset(4) _ msg] reset(2,3) by simp
  next
    case (again rc1 msg1 s1 rc2 s3)
    then have "P (snd (kzalloc (unlock_sender s1)))" and "Q msg1"
      using do [OF again(1)] less.prems prim by blast+
    then show ?thesis
      using less.hyps [OF _ again(4) _ msg] less.hyps [OF _ again(5)] again(2,3) by simp
  qed
qed

lemma send_result_cases: "send_result s \<in> {0, - EAGAIN, - EINVAL}"
  by (cases "s_status (sender s)") (simp_all add: send_result_def)

lemma do_send_result:
  "do_ufcs_send_msg drain msg s = Some (rc, msg', s') \<Longrightarrow> rc \<in> {0, - EAGAIN, - EINVAL}"
  using send_result_cases by (auto simp: do_ufcs_send_msg_def bind_eq_Some_conv Let_def)

lemma send_msg_result:
  "ufcs_send_msg drain sr msg retry s = Some (rc, s') \<Longrightarrow> rc \<in> {0, - EAGAIN, - EINVAL, - EIO, - ENOTSUPP}"
proof (induction "if plain_msg msg then 0 else if sr then 1 else 2 :: nat"
    arbitrary: sr msg retry s rc s' rule: less_induct)
  case less
  from less.prems show ?case
  proof (cases rule: send_msg_step)
    case (sent rc1 msg1 s1)
    then show ?thesis using do_send_result [OF sent(1)] by auto
  next
    case (again rc1 msg1 s1 rc2 s3)
    then show ?thesis using less.hyps [OF _ again(5)] by simp
  qed auto
qed

lemma next_counter_le [simp]: "next_counter c \<le> MSG_NUMBER_COUNT_MAX"
  by (simp add: next_counter_def MSG_NUMBER_COUNT_MAX_def not_less)

lemma do_send_idle:
  "do_ufcs_send_msg drain msg s = Some (rc, msg', s') \<Longrightarrow> sender_idle s'"
  by (auto simp: do_ufcs_send_msg_def bind_eq_Some_conv Let_def sender_idle_def
      start_msg_trans_delay_timer_def hrtimer_start_def)

lemma sender_idle_frame [simp]:
  "sender_idle (lock_sender s) = sender_idle s" "sender_idle (unlock_sender s) = sender_idle s"
  "sender_idle (snd (kzalloc s)) = sender_idle s"
  by (simp_all add: sender_idle_def)

lemma message_type [simp]:
  "msg_type_of (head_type (msg_head (ctrl_message c i))) = Some UFCS_CTRL_MSG"
  "msg_type_of (head_type (msg_head (data_message d p i))) = Some UFCS_DATA_MSG"
  "msg_type_of (head_type (msg_head (oplus_message t i))) = Some UFCS_VENDOR_MSG"
  by (simp_all add: ctrl_message_def data_message_def oplus_message_def init_msg_head_def msg_type_of_def)

lemma send_msg_idle:
  "ufcs_send_msg drain sr msg retry s = Some (rc, s') \<Longrightarrow> rc \<noteq> - ENOTSUPP \<Longrightarrow>
   sender_idle s' \<and> \<not> s_locked (sender s')"
proof (induction "if plain_msg msg then 0 else if sr then 1 else 2 :: nat"
    arbitrary: sr msg retry s rc s' rule: less_induct)
  case less
  from less.prems(1) show ?case
  proof (cases rule: send_msg_step)
    case unsupported
    then show ?thesis using less.prems by simp
  next
    case (reset rc1 msg1 s1 rc2)
    from reset(4) have "rc2 \<noteq> - ENOTSUPP"
      by (cases rule: send_msg_step) (auto dest: do_send_result)
    then show ?thesis using less.hyps [OF _ reset(4)] reset(2,3) by simp
  next
    case (again rc1 msg1 s1 rc2 s3)
    then show ?thesis using less.hyps [OF _ again(5)] less.prems(2) by simp
  qed (auto dest: do_send_idle)
qed

lemma send_ctrl_result:
  "ufcs_send_ctrl_msg drain c retry s = Some (rc, s') \<Longrightarrow>
   rc \<in> {0, - EAGAIN, - EINVAL, - EIO, - ENOTSUPP, - ENOMEM}"
  by (auto simp: ufcs_send_ctrl_msg_def case_prod_unfold Let_def split: if_splits dest: send_msg_result)

lemma send_from_worker_never_returns:
  assumes "fst (kzalloc s)" and "In_exit \<notin> set (env_in s)"
  shows "ufcs_send_ctrl_msg Some c retry s = None"
proof -
  have "do_ufcs_send_msg Some msg s1 = None" if "env_in s1 = env_in s" for msg s1
    using assms(2) that sleep_alone_forever
    by (simp add: do_ufcs_send_msg_def wait_sender_ack_def Let_def)
  then have "ufcs_send_msg Some False (ctrl_message c i) retry (snd (kzalloc s)) = None" for i
    by (simp add: ufcs_send_msg.simps)
  then show ?thesis using assms(1) by (simp add: ufcs_send_ctrl_msg_def case_prod_unfold Let_def)
qed

lemma pack_unknown_type: "msg_type_of (head_type (msg_head msg)) = None \<Longrightarrow> ufcs_pack_msg c msg n \<noteq> Inr x"
  by (simp add: ufcs_pack_msg_def Let_def)

lemma send_work_writes:
  assumes "ufcs_pack_msg (config s) msg UFCS_MSG_SIZE_MAX = Inr (bs, msg')" and "env_write s = []"
    and "s_msg (sender s) = Some msg" and "s_status (sender s) = MSG_SEND_START" and "s_retry (sender s) = 0"
    and "\<not> (head_type (msg_head msg) = msg_type_code UFCS_CTRL_MSG \<and> ufcs_is_ack_nck_msg (ctrl_command msg))"
  shows "ufcs_msg_send_work s = hrtimer_start ACK_RECEIVE_TIMER ((emit (Io_write bs) s)
     \<lparr>sender := (sender s)\<lparr>s_msg := Some msg', s_status := MSG_WAIT_ACK\<rparr>\<rparr>)"
proof -
  have "msg_type_of (head_type (msg_head msg)) \<noteq> None"
    using assms(1) pack_unknown_type by fastforce
  moreover have "\<not> retry_max (config s) \<le> 0" by (simp add: retry_max_def MSG_RETRY_COUNT_MAX_def)
  ultimately show ?thesis using assms
    by (auto simp: ufcs_msg_send_work_def ufcs_send_attempt_def ufcs_write_msg_def ufcs_dump_msg_info_def
       Let_def emit_def start_ack_receive_timer_def)
qed

text \<open>C7: Whatever the worker thread and the interrupts do, a send that returns has one of five
  results, never \<^verbatim>\<open>-EBUSY\<close>; and unless the message type is unknown it leaves the sender ready
  for the next message: no message attached, the mutex released, the transmission gap running and
  the message number within 0 to 15.\<close>

theorem send_msg_contract:
  assumes "ufcs_send_msg drain soft_reset msg retry s = Some (rc, s')"
  shows "rc \<in> {0, - EAGAIN, - EINVAL, - EIO, - ENOTSUPP} \<and>
    (rc \<noteq> - ENOTSUPP \<longrightarrow> sender_idle s' \<and> \<not> s_locked (sender s'))"
  using send_msg_result [OF assms] send_msg_idle [OF assms] by simp

lemma send_msg_contract_witness:
  "\<exists>s'. ufcs_send_msg (\<lambda>s. Some (ufcs_msg_send_work s)) False (ctrl_message CTRL_MSG_PING 0) False
     (connected_class (demo_config False) [In_exit]) = Some (- EAGAIN, s') \<and>
     sender_idle s' \<and> \<not> s_locked (sender s')"
proof -
  let ?r = "ufcs_send_msg (\<lambda>s. Some (ufcs_msg_send_work s)) False (ctrl_message CTRL_MSG_PING 0) False
     (connected_class (demo_config False) [In_exit])"
  have "map_option fst ?r = Some (- EAGAIN)" by code_simp
  then obtain s' where "?r = Some (- EAGAIN, s')" by auto
  with send_msg_contract [OF this] show ?thesis by auto
qed

end
