(* ===== verification/Ufcs_Event.thy ===== *)
theory Ufcs_Event
  imports Ufcs_Sender
begin

text \<open>
  The receiving side of \<^verbatim>\<open>ufcs_event.c\<close>: acknowledgements, the handshake result, the error
  flags, the receive work that unpacks a frame, the event work that turns a message into an event
  for the state machine, the worker thread that runs the three works in the order they were
  queued, and the function with which the state machine fetches its next event.
\<close>

section \<open>Acknowledgements, handshake and error flags\<close>

definition ufcs_recv_ack_nck_msg :: "u8 \<Rightarrow> ufcs_class \<Rightarrow> bool \<times> ufcs_class" where
  "ufcs_recv_ack_nck_msg cmd s =
     (if \<not> ufcs_is_ack_nck_msg cmd then (False, s)
      else let s1 = stop_ack_receive_timer s
           in if s_status (sender s1) \<noteq> MSG_WAIT_ACK then (False, s1)
              else if cmd = ctrl_code CTRL_MSG_ACK
              then (True, complete_sender (set_status MSG_SEND_OK s1))
              else (True, kthread_queue_work Msg_send_work (set_status MSG_NCK s1)))"

definition alloc_and_push :: "ufcs_event_type \<Rightarrow> ufcs_class \<Rightarrow> ufcs_class" where
  "alloc_and_push t s = (let (ok, s1) = kzalloc s in if ok then ufcs_push_event t None None s1 else s1)"

definition ufcs_check_handshake :: "ufcs_class \<Rightarrow> bool \<times> ufcs_class" where
  "ufcs_check_handshake s =
     (if st_curr s \<noteq> PE_STATE_HANDSHAKE \<or>
         (handshake_state s \<noteq> UFCS_HS_SUCCESS \<and> handshake_state s \<noteq> UFCS_HS_FAIL)
      then (False, s)
      else if handshake_state s = UFCS_HS_FAIL
      then (True, alloc_and_push UFCS_EVENT_TIMEOUT
                    (stop_handshake_timer (s\<lparr>handshake_state := UFCS_HS_IDLE\<rparr>)))
      else (True, alloc_and_push UFCS_EVENT_RECV_ACK (s\<lparr>handshake_state := UFCS_HS_IDLE\<rparr>)))"

text \<open>The result \<open>0\<close> means that a message has to be read, \<open>1\<close> that the flag reported no more than
  a completed transmission, a negative one that there is nothing to read.\<close>

definition sender_gives_up :: "ufcs_class \<Rightarrow> ufcs_class" where
  "sender_gives_up s = complete_sender (set_status MSG_RETRY_OVER s)"

definition note_exit_ack :: "ufcs_class \<Rightarrow> ufcs_class" where
  "note_exit_ack s =
     (case s_msg (sender s) of
        Some m \<Rightarrow>
          (if head_type (msg_head m) = msg_type_code UFCS_CTRL_MSG \<and>
              ctrl_command m = ctrl_code CTRL_MSG_EXIT_UFCS_MODE
           then s\<lparr>exit_ufcs_ack_received := True\<rparr> else s)
      | None \<Rightarrow> s)"

definition ufcs_check_error_info :: "u32 \<Rightarrow> ufcs_class \<Rightarrow> rc \<times> ufcs_class" where
  "ufcs_check_error_info flag s =
     (if exit_ufcs_ack_received s then (- EINVAL, s)
      else if bit flag UFCS_HW_ERR_HARD_RESET
      then (- EINVAL, sender_gives_up
              (if start_cable_detect s then ufcs_send_state UFCS_NOTIFY_CABLE_HW_RESET s
               else ufcs_send_state UFCS_NOTIFY_SOURCE_HW_RESET (s\<lparr>handshake_success := False\<rparr>)))
      else if bit flag UFCS_COMM_ERR_BUS_CONFLICT
      then (- EINVAL, sender_gives_up (stop_ack_receive_timer s))
      else if bit flag UFCS_RECV_ERR_SENT_CMP
      then (if bit flag UFCS_RECV_ERR_TRANS_FAIL
            then (if s_status (sender s) = MSG_WAIT_ACK
                  then (if bit flag UFCS_RECV_ERR_DATA_READY then 0 else - EINVAL,
                        sender_gives_up (stop_ack_receive_timer s))
                  else (- EINVAL, s))
            else if bit flag UFCS_RECV_ERR_ACK_TIMEOUT then (0, s)
            else (if bit flag UFCS_RECV_ERR_DATA_READY then 0 else 1,
                  if s_status (sender s) = MSG_WAIT_ACK
                  then complete_sender (set_status MSG_SEND_OK (note_exit_ack (stop_ack_receive_timer s)))
                  else s))
      else if \<not> bit flag UFCS_RECV_ERR_DATA_READY then (- EINVAL, s)
      else (0, s))"

section \<open>The receive work\<close>

text \<open>The chip's \<^verbatim>\<open>read_msg\<close> hands over at most the 64 bytes of the buffer; an empty receive
  buffer gives the length \<open>0\<close>.\<close>

definition read_msg :: "ufcs_class \<Rightarrow> bytes \<times> nat \<times> ufcs_class" where
  "read_msg s =
     (case env_rx s of
        [] \<Rightarrow> (replicate 64 0, 0, s)
      | f # fs \<Rightarrow> (take 64 f @ replicate (64 - length f) 0, length (take 64 f), s\<lparr>env_rx := fs\<rparr>))"

definition rearm_trans_delay :: "ufcs_class \<Rightarrow> ufcs_class" where
  "rearm_trans_delay s =
     (if reply_ack (config s) \<or> s_locked (sender s) then s
      else start_msg_trans_delay_timer (stop_msg_trans_delay_timer (set_status MSG_SEND_PENDIGN s)))"

text \<open>One round of the loop, for a flag that was fetched.\<close>

definition recv_round :: "ufcs_class \<Rightarrow> ufcs_class" where
  "recv_round s =
     (let (hs, s1) = ufcs_check_handshake s
      in if hs then s1
         else let (rc, s2) = ufcs_check_error_info (dev_err_flag s1)
                               (ufcs_send_state UFCS_NOTIFY_ERR_FLAG s1)
              in if rc \<noteq> 0 then s2
                 else let (buf, len, s3) = read_msg s2
                      in if len = 0 then s3
                         else let (ok, s4) = kzalloc (emit Io_retrieve_flags s3)
                              in case ufcs_unpack_msg (config s4) ok buf len of
                                   None \<Rightarrow> s4
                                 | Some msg \<Rightarrow>
                                     (let ack = (head_type (msg_head msg) = msg_type_code UFCS_CTRL_MSG \<and>
                                                  ufcs_is_ack_nck_msg (ctrl_command msg));
                                          (taken, s5) = (if ack then ufcs_recv_ack_nck_msg (ctrl_command msg) s4
                                                         else (False, rearm_trans_delay s4))
                                      in if taken then s5
                                         else kthread_queue_work Event_work (s5\<lparr>recv_msg := Some msg\<rparr>)))"

text \<open>No step of a round touches the flags that are still waiting.\<close>

lemmas timer_defs =
  start_ack_receive_timer_def stop_ack_receive_timer_def start_msg_trans_delay_timer_def
  stop_msg_trans_delay_timer_def start_sender_response_timer_def stop_sender_response_timer_def
  start_power_supply_timer_def stop_power_supply_timer_def start_cable_info_timer_def
  stop_cable_info_timer_def start_restart_trans_timer_def stop_restart_trans_timer_def
  start_cable_trans_timer_def stop_cable_trans_timer_def start_handshake_timer_def
  stop_handshake_timer_def start_wait_msg_timer_def stop_wait_msg_timer_def
  start_emark_response_timer_def stop_emark_response_timer_def

lemma check_handshake_fifo [simp]:
  "err_flag_fifo (snd (ufcs_check_handshake s)) = err_flag_fifo s"
  by (simp add: ufcs_check_handshake_def alloc_and_push_def case_prod_unfold Let_def timer_defs)

lemma check_error_info_fifo [simp]:
  "err_flag_fifo (snd (ufcs_check_error_info flag s)) = err_flag_fifo s"
  by (simp add: ufcs_check_error_info_def sender_gives_up_def note_exit_ack_def timer_defs
      split: option.split)

lemma read_msg_fifo [simp]: "err_flag_fifo (snd (snd (read_msg s))) = err_flag_fifo s"
  by (simp add: read_msg_def split: list.split)

lemma recv_ack_nck_fifo [simp]:
  "err_flag_fifo (snd (ufcs_recv_ack_nck_msg cmd s)) = err_flag_fifo s"
  by (simp add: ufcs_recv_ack_nck_msg_def Let_def timer_defs)

lemma recv_round_fifo [simp]: "err_flag_fifo (recv_round s) = err_flag_fifo s"
  by (simp add: recv_round_def rearm_trans_delay_def timer_defs case_prod_unfold Let_def
      split: option.split)

function ufcs_recv_work :: "ufcs_class \<Rightarrow> ufcs_class" where
  "ufcs_recv_work s =
     (let (rc, s1) = ufcs_get_error_flag s
      in if rc < 0 then s1
         else let s2 = recv_round s1
              in if err_flag_fifo s2 \<noteq> [] then ufcs_recv_work s2 else s2)"
  by pat_completeness auto
termination ufcs_recv_work
  by (relation "measure (\<lambda>s. length (err_flag_fifo s))")
    (auto simp: ufcs_get_error_flag_def split: list.splits)

declare ufcs_recv_work.simps [simp del]

section \<open>The event work\<close>

definition ufcs_process_ctrl_msg_event :: "u8 \<Rightarrow> ufcs_event_type option" where
  "ufcs_process_ctrl_msg_event cmd =
     (case ctrl_msg_of cmd of
        None \<Rightarrow> None
      | Some c \<Rightarrow> (case c of
          CTRL_MSG_PING \<Rightarrow> Some UFCS_EVENT_RECV_PING
        | CTRL_MSG_ACK \<Rightarrow> Some UFCS_EVENT_RECV_ACK
        | CTRL_MSG_NCK \<Rightarrow> Some UFCS_EVENT_RECV_NCK
        | CTRL_MSG_ACCEPT \<Rightarrow> Some UFCS_EVENT_RECV_ACCEPT
        | CTRL_MSG_SOFT_RESET \<Rightarrow> Some UFCS_EVENT_RECV_SOFT_RESET
        | CTRL_MSG_POWER_READY \<Rightarrow> Some UFCS_EVENT_RECV_POWER_READY
        | CTRL_MSG_GET_SINK_INFO \<Rightarrow> Some UFCS_EVENT_RECV_GET_SINK_INFO
        | CTRL_MSG_GET_DEVICE_INFO \<Rightarrow> Some UFCS_EVENT_RECV_GET_DEVICE_INFO
        | CTRL_MSG_GET_ERROR_INFO \<Rightarrow> Some UFCS_EVENT_RECV_GET_ERROR_INFO
        | CTRL_MSG_DETECT_CABLE_INFO \<Rightarrow> Some UFCS_EVENT_RECV_DETECT_CABLE_INFO
        | CTRL_MSG_START_CABLE_DETECT \<Rightarrow> Some UFCS_EVENT_RECV_START_CABLE_DETECT
        | CTRL_MSG_END_CABLE_DETECT \<Rightarrow> Some UFCS_EVENT_RECV_END_CABLE_DETECT
        | CTRL_MSG_EXIT_UFCS_MODE \<Rightarrow> Some UFCS_EVENT_RECV_EXIT_UFCS_MODE
        | _ \<Rightarrow> None))"

definition ufcs_process_data_msg_event :: "u8 \<Rightarrow> ufcs_event_type option" where
  "ufcs_process_data_msg_event cmd =
     (case data_msg_of cmd of
        None \<Rightarrow> None
      | Some d \<Rightarrow> Some (case d of
          DATA_MSG_OUTPUT_CAPABILITIES \<Rightarrow> UFCS_EVENT_RECV_OUTPUT_CAP
        | DATA_MSG_REQUEST \<Rightarrow> UFCS_EVENT_RECV_REQUEST
        | DATA_MSG_SOURCE_INFO \<Rightarrow> UFCS_EVENT_RECV_SOURCE_INFO
        | DATA_MSG_SINK_INFO \<Rightarrow> UFCS_EVENT_RECV_SINK_INFO
        | DATA_MSG_CABLE_INFO \<Rightarrow> UFCS_EVENT_RECV_CABLE_INFO
        | DATA_MSG_DEVICE_INFO \<Rightarrow> UFCS_EVENT_RECV_DEVICE_INFO
        | DATA_MSG_ERROR_INFO \<Rightarrow> UFCS_EVENT_RECV_ERROR_INFO
        | DATA_MSG_CONFIG_WATCHDOG \<Rightarrow> UFCS_EVENT_RECV_CONFIG_WD
        | DATA_MSG_REFUSE \<Rightarrow> UFCS_EVENT_RECV_REFUSE
        | DATA_MSG_VERIFY_REQUEST \<Rightarrow> UFCS_EVENT_RECV_VERIFY_REQUEST
        | DATA_MSG_VERIFY_RESPONSE \<Rightarrow> UFCS_EVENT_RECV_VERIFY_RESPONSE
        | DATA_MSG_POWER_CHANGE \<Rightarrow> UFCS_EVENT_RECV_POWER_CHANGE
        | DATA_MSG_TEST_REQUEST \<Rightarrow> UFCS_EVENT_RECV_TEST_REQUEST))"

definition ufcs_process_vendor_msg_event :: "ufcs_vendor_msg \<Rightarrow> ufcs_event_type option" where
  "ufcs_process_vendor_msg_event v =
     (case oplus_msg_of (vm_type v) of
        Some OPLUS_MSG_RESP_EMARK_INFO \<Rightarrow> Some UFCS_EVENT_OPLUS_RECV_EMARK_INFO_MSG
      | Some OPLUS_MSG_RESP_POWER_INFO_EXT \<Rightarrow> Some UFCS_EVENT_OPLUS_RECV_POWER_INFO_MSG
      | _ \<Rightarrow> None)"

text \<open>A message without an event of its own becomes a refusal to be sent.\<close>

definition event_of_msg :: "ufcs_msg \<Rightarrow> ufcs_event_type" where
  "event_of_msg msg =
     (case (case msg_type_of (head_type (msg_head msg)) of
              Some UFCS_CTRL_MSG \<Rightarrow> ufcs_process_ctrl_msg_event (ctrl_command msg)
            | Some UFCS_DATA_MSG \<Rightarrow> ufcs_process_data_msg_event (dm_command (data_msg msg))
            | Some UFCS_VENDOR_MSG \<Rightarrow> ufcs_process_vendor_msg_event (vendor_msg msg)
            | None \<Rightarrow> None) of
        Some t \<Rightarrow> t
      | None \<Rightarrow> UFCS_EVENT_SEND_REFUSE)"

definition ufcs_process_event :: "ufcs_msg \<Rightarrow> ufcs_class \<Rightarrow> rc \<times> ufcs_class" where
  "ufcs_process_event msg s = (0, ufcs_push_event (event_of_msg msg) (Some msg) None s)"

text \<open>The acknowledgements are sent from the worker thread itself, so nothing runs the send work
  while the worker sleeps.\<close>

definition ufcs_event_work :: "ufcs_class \<Rightarrow> ufcs_class option" where
  "ufcs_event_work s =
     (case recv_msg s of
        None \<Rightarrow> Some s
      | Some msg \<Rightarrow>
          (let t = msg_type_of (head_type (msg_head msg));
               exempt = (t = Some UFCS_CTRL_MSG \<and> ufcs_is_ack_nck_msg (ctrl_command msg))
           in if t = None then Some (snd (ufcs_source_hard_reset s))
              else if \<not> exempt \<and> check_crc (config s) \<and> \<not> msg_crc_good msg
              then do { (rc, s1) \<leftarrow> ufcs_send_ctrl_msg Some CTRL_MSG_NCK False s; Some s1 }
              else do { s1 \<leftarrow> (if reply_ack (config s)
                              then do { (rc, s') \<leftarrow> ufcs_send_ctrl_msg Some CTRL_MSG_ACK False s; Some s' }
                              else Some s);
                        let (ok, s2) = kzalloc s1;
                        if ok then Some (snd (ufcs_process_event msg s2)) else Some s2 }))"

section \<open>The worker thread\<close>

fun run_work :: "kthread_work \<Rightarrow> ufcs_class \<Rightarrow> ufcs_class option" where
  "run_work Recv_work s = Some (ufcs_recv_work s)"
| "run_work Event_work s = ufcs_event_work s"
| "run_work Msg_send_work s = Some (ufcs_msg_send_work s)"

partial_function (option) run_worker :: "ufcs_class \<Rightarrow> ufcs_class option" where
  "run_worker s =
     (case works s of
        [] \<Rightarrow> Some s
      | w # ws \<Rightarrow> do { s' \<leftarrow> run_work w (s\<lparr>works := ws\<rparr>); run_worker s' })"

declare run_worker.simps [code]

section \<open>Fetching the next event\<close>

definition ufcs_handle_unsupported_msg :: "ufcs_msg \<Rightarrow> ufcs_class \<Rightarrow> ufcs_class option" where
  "ufcs_handle_unsupported_msg msg s =
     do { (rc, s1) \<leftarrow> ufcs_send_data_msg_refuse run_worker msg REFUSE_NOT_SUPPORT_CMD s; Some s1 }"

definition wait_event_ack :: "ufcs_class \<Rightarrow> ufcs_class option" where
  "wait_event_ack s =
     do { s1 \<leftarrow> sleep_until (\<lambda>s. completed (ev_ack s)) run_worker (s\<lparr>ev_ack := 0\<rparr>);
          Some (s1\<lparr>ev_ack := completion_taken (ev_ack s1)\<rparr>) }"

partial_function (option) ufcs_get_next_event ::
  "ufcs_class \<Rightarrow> (ufcs_event option \<times> ufcs_class) option"
where
  "ufcs_get_next_event s =
     (case events s of
        [] \<Rightarrow> do { s1 \<leftarrow> wait_event_ack s;
                    if ev_exit s1 then Some (None, s1) else ufcs_get_next_event s1 }
      | e # es \<Rightarrow>
          (if ev_type e \<noteq> UFCS_EVENT_SEND_REFUSE then Some (Some e, s)
           else case ev_msg e of
             None \<Rightarrow> ufcs_get_next_event s
           | Some m \<Rightarrow> do { s1 \<leftarrow> ufcs_handle_unsupported_msg m s;
                            ufcs_get_next_event (ufcs_free_event e s1) }))"

declare ufcs_get_next_event.simps [code]

section \<open>Invariant rules\<close>

text \<open>What holds of an event that was fetched: it is still at the head of the list, and the
  refusals were handled on the way. Without an event the state machine was told to exit.\<close>

definition fetched :: "ufcs_event option \<Rightarrow> ufcs_class \<Rightarrow> bool" where
  "fetched eo s \<longleftrightarrow> (case eo of
      None \<Rightarrow> ev_exit s
    | Some e \<Rightarrow> events s \<noteq> [] \<and> hd (events s) = e \<and> ev_type e \<noteq> UFCS_EVENT_SEND_REFUSE)"

lemma fetched_simps [simp]:
  "fetched None s = ev_exit s"
  "fetched (Some e) s \<longleftrightarrow> events s \<noteq> [] \<and> hd (events s) = e \<and> ev_type e \<noteq> UFCS_EVENT_SEND_REFUSE"
  by (simp_all add: fetched_def)

lemma get_next_event_invariant:
  assumes "ufcs_get_next_event s = Some (eo, s')" and "P s"
    and wait: "\<And>s s'. P s \<Longrightarrow> wait_event_ack s = Some s' \<Longrightarrow> P s'"
    and unsupported: "\<And>m s s' e. P s \<Longrightarrow> ufcs_handle_unsupported_msg m s = Some s' \<Longrightarrow> P (ufcs_free_event e s')"
  shows "P s' \<and> fetched eo s'"
proof -
  let ?Q = "\<lambda>s r. P s \<longrightarrow> P (snd r) \<and> fetched (fst r) (snd r)"
  have "?Q s (eo, s')"
    by (rule ufcs_get_next_event.raw_induct [where P = ?Q, OF _ assms(1)])
      (fastforce simp: bind_eq_Some_conv split: list.splits if_splits option.splits
        dest: wait unsupported)
  with assms(2) show ?thesis by simp
qed

lemma fetch_fetched: "ufcs_get_next_event s = Some (eo, s') \<Longrightarrow> fetched eo s'"
  using get_next_event_invariant [where P = "\<lambda>_. True"] by blast

text \<open>Rules for the loops of the receive work and of the worker thread.\<close>

lemma recv_work_invariant:
  assumes "P s" and "\<And>s. P s \<Longrightarrow> P (snd (ufcs_get_error_flag s))" and "\<And>s. P s \<Longrightarrow> P (recv_round s)"
  shows "P (ufcs_recv_work s)"
  using assms(1)
proof (induction s rule: ufcs_recv_work.induct)
  case (1 s)
  obtain rc s1 where g: "ufcs_get_error_flag s = (rc, s1)" by fastforce
  then have "P s1" and "P (recv_round s1)" using 1 assms(2) [of s] assms(3) by auto
  with g "1.IH" [OF g [symmetric] refl] show ?case by (simp add: ufcs_recv_work.simps [of s] Let_def)
qed

lemma run_worker_invariant:
  assumes "run_worker s = Some s'" and "P s"
    and step: "\<And>s w ws s'. P s \<Longrightarrow> works s = w # ws \<Longrightarrow> run_work w (s\<lparr>works := ws\<rparr>) = Some s' \<Longrightarrow> P s'"
  shows "P s' \<and> works s' = []"
proof -
  have "P s \<longrightarrow> P s' \<and> works s' = []"
    by (rule run_worker.raw_induct [where P = "\<lambda>s s'. P s \<longrightarrow> P s' \<and> works s' = []", OF _ assms(1)])
      (auto simp: bind_eq_Some_conv split: list.splits dest: step)
  with assms(2) show ?thesis by simp
qed

section \<open>The worker thread comes to rest\<close>

lemma works_check [simp]:
  "works (alloc_and_push t s) = works s"
  "works (snd (ufcs_check_handshake s)) = works s"
  "works (snd (ufcs_check_error_info flag s)) = works s"
  "works (snd (snd (read_msg s))) = works s"
  "works (rearm_trans_delay s) = works s"
  "works (snd (ufcs_get_error_flag s)) = works s"
  by (simp_all add: alloc_and_push_def ufcs_check_handshake_def ufcs_check_error_info_def
      sender_gives_up_def note_exit_ack_def read_msg_def rearm_trans_delay_def ufcs_get_error_flag_def
      case_prod_unfold Let_def timer_defs split: list.split option.split)

lemma config_check [simp]:
  "config (alloc_and_push t s) = config s"
  "config (snd (ufcs_check_handshake s)) = config s"
  "config (snd (ufcs_check_error_info flag s)) = config s"
  "config (snd (snd (read_msg s))) = config s"
  "config (rearm_trans_delay s) = config s"
  "config (snd (ufcs_get_error_flag s)) = config s"
  "config (snd (ufcs_recv_ack_nck_msg cmd s)) = config s"
  by (simp_all add: alloc_and_push_def ufcs_check_handshake_def ufcs_check_error_info_def
      sender_gives_up_def note_exit_ack_def read_msg_def rearm_trans_delay_def ufcs_get_error_flag_def
      ufcs_recv_ack_nck_msg_def case_prod_unfold Let_def timer_defs split: list.split option.split)

text \<open>The receive work queues the two other works, at most once each.\<close>

definition no_recv :: "ufcs_class \<Rightarrow> bool" where
  "no_recv s \<longleftrightarrow> distinct (works s) \<and> Recv_work \<notin> set (works s)"

lemma recv_round_no_recv: "no_recv s \<Longrightarrow> no_recv (recv_round s)"
  by (auto simp: no_recv_def recv_round_def ufcs_recv_ack_nck_msg_def kthread_queue_work_def
      case_prod_unfold Let_def timer_defs split: option.split)

lemma recv_work_no_recv: "no_recv s \<Longrightarrow> no_recv (ufcs_recv_work s)"
  by (rule recv_work_invariant) (auto simp: no_recv_def [of "snd _"] recv_round_no_recv, simp_all add: no_recv_def)

lemma config_recv_round [simp]: "config (recv_round s) = config s"
  by (simp add: recv_round_def case_prod_unfold Let_def split: option.split)

lemma config_recv_work [simp]: "config (ufcs_recv_work s) = config s"
  by (rule recv_work_invariant [where P = "\<lambda>x. config x = config s"]) simp_all

lemma send_work_frame [simp]:
  "works (ufcs_msg_send_work s) = works s" "config (ufcs_msg_send_work s) = config s"
  by (simp_all add: ufcs_msg_send_work_def ufcs_send_attempt_def ufcs_write_msg_def Let_def case_prod_unfold
      timer_defs split: option.split msg_send_status.split sum.split list.split)

lemma hard_reset_frame [simp]:
  "works (snd (ufcs_source_hard_reset s)) = works s" "config (snd (ufcs_source_hard_reset s)) = config s"
  by (simp_all add: ufcs_source_hard_reset_def ufcs_clean_process_info_def ufcs_exit_sm_work_def Let_def)

lemma event_work_plain:
  assumes "\<not> reply_ack (config s)" and "\<not> check_crc (config s)"
  shows "\<exists>s'. ufcs_event_work s = Some s' \<and> works s' = works s \<and> config s' = config s"
  using assms
  by (simp add: ufcs_event_work_def ufcs_process_event_def case_prod_unfold Let_def split: option.split)

definition works_left :: "ufcs_class \<Rightarrow> nat" where
  "works_left s = length (works s) + (if Recv_work \<in> set (works s) then 3 else 0)"

lemma length_works: "distinct ws \<Longrightarrow> length ws \<le> 3" for ws :: "kthread_work list"
proof -
  assume "distinct ws"
  then have "length ws = card (set ws)" by (simp add: distinct_card)
  also have "\<dots> \<le> card {Recv_work, Event_work, Msg_send_work}"
    by (rule card_mono) (use kthread_work.exhaust in auto)
  finally show ?thesis by simp
qed

lemma run_work_returns:
  assumes "\<not> reply_ack (config s)" and "\<not> check_crc (config s)" and "distinct (works s)"
    and "works s = w # ws"
  obtains s' where "run_work w (s\<lparr>works := ws\<rparr>) = Some s'" and "config s' = config s"
    and "distinct (works s')" and "works_left s' < works_left s"
proof (cases w)
  case Recv_work
  let ?s' = "ufcs_recv_work (s\<lparr>works := ws\<rparr>)"
  have "no_recv ?s'" using assms(3,4) Recv_work by (intro recv_work_no_recv) (simp add: no_recv_def)
  then have "distinct (works ?s')" and "works_left ?s' \<le> 3"
    using length_works [of "works ?s'"] by (simp_all add: no_recv_def works_left_def)
  then show thesis using Recv_work assms(4) by (intro that [of ?s']) (simp_all add: works_left_def)
next
  case Event_work
  then show thesis using event_work_plain [of "s\<lparr>works := ws\<rparr>"] assms
    by (auto simp: works_left_def intro: that)
next
  case Msg_send_work
  then show thesis using assms
    by (intro that [of "ufcs_msg_send_work (s\<lparr>works := ws\<rparr>)"]) (auto simp: works_left_def)
qed

text \<open>C6: Without acknowledgements and CRC checking, which is how every chip of the repository
  configures the stack, the worker thread comes to rest: whatever works are queued, each at most
  once, and whatever the finite list of inputs brings, it returns with an empty queue.\<close>

theorem worker_terminates:
  assumes "\<not> reply_ack (config s)" and "\<not> check_crc (config s)" and "distinct (works s)"
  shows "\<exists>s'. run_worker s = Some s' \<and> works s' = [] \<and> config s' = config s"
  using assms
proof (induction "works_left s" arbitrary: s rule: less_induct)
  case less
  show ?case
  proof (cases "works s")
    case Nil
    then show ?thesis by (simp add: run_worker.simps)
  next
    case (Cons w ws)
    obtain s1 where s1: "run_work w (s\<lparr>works := ws\<rparr>) = Some s1" "config s1 = config s"
      "distinct (works s1)" "works_left s1 < works_left s"
      by (rule run_work_returns [OF less.prems Cons])
    then obtain s' where "run_worker s1 = Some s' \<and> works s' = [] \<and> config s' = config s1"
      using less.hyps [of s1] less.prems by auto
    then show ?thesis using Cons s1 by (subst run_worker.simps) simp
  qed
qed

lemma worker_terminates_witness:
  "\<exists>s'. run_worker ((connected_class (demo_config False) [])\<lparr>works := [Recv_work, Event_work]\<rparr>) = Some s' \<and>
    works s' = []"
  using worker_terminates [of "(connected_class (demo_config False) [])\<lparr>works := [Recv_work, Event_work]\<rparr>"]
  by (auto simp: connected_class_def demo_config_def)

text \<open>With acknowledgements switched on (or a message whose CRC is wrong while CRCs are
  checked) the event work sends its ACK or NCK from the worker thread and sleeps until the send
  work, which only the worker thread could run, has reported: it never returns, unless the
  connection is torn down from outside.\<close>

theorem worker_waits_for_itself:
  assumes "recv_msg s = Some msg" and "msg_type_of (head_type (msg_head msg)) = Some t"
    and "\<not> (t = UFCS_CTRL_MSG \<and> ufcs_is_ack_nck_msg (ctrl_command msg))"
    and "reply_ack (config s) \<or> check_crc (config s) \<and> \<not> msg_crc_good msg"
    and "fst (kzalloc s)" and "In_exit \<notin> set (env_in s)"
  shows "ufcs_event_work s = None"
  using assms by (auto simp: ufcs_event_work_def Let_def send_from_worker_never_returns)

lemma worker_waits_for_itself_witness:
  "ufcs_event_work ((connected_class ((demo_config False)\<lparr>reply_ack := True\<rparr>) [In_timer ACK_RECEIVE_TIMER])
     \<lparr>recv_msg := Some (ctrl_message CTRL_MSG_PING 0)\<rparr>) = None"
  by (rule worker_waits_for_itself [where msg = "ctrl_message CTRL_MSG_PING 0" and t = UFCS_CTRL_MSG])
    (simp_all add: connected_class_def demo_config_def kzalloc_def ufcs_is_ack_nck_msg_def,
      simp add: ctrl_message_def)

section \<open>From a frame to an event\<close>

definition data_ready_only :: "u32 \<Rightarrow> bool" where
  "data_ready_only flag \<longleftrightarrow> bit flag UFCS_RECV_ERR_DATA_READY \<and> \<not> bit flag UFCS_HW_ERR_HARD_RESET \<and>
     \<not> bit flag UFCS_COMM_ERR_BUS_CONFLICT \<and> \<not> bit flag UFCS_RECV_ERR_SENT_CMP"

definition rx_ready :: "ufcs_class \<Rightarrow> bool" where
  "rx_ready s \<longleftrightarrow> works s = [] \<and> err_flag_fifo s = [] \<and> env_rx s = [] \<and> env_alloc s = [] \<and>
     st_curr s \<noteq> PE_STATE_HANDSHAKE \<and> \<not> exit_ufcs_ack_received s \<and>
     \<not> reply_ack (config s) \<and> \<not> check_crc (config s)"

definition frame_msg :: "ufcs_config \<Rightarrow> bytes \<Rightarrow> ufcs_msg \<Rightarrow> bool" where
  "frame_msg c f msg \<longleftrightarrow> f \<noteq> [] \<and> length f \<le> UFCS_MSG_SIZE_MAX \<and>
     ufcs_unpack_msg c True (f @ replicate (64 - length f) 0) (length f) = Some msg \<and>
     msg_type_of (head_type (msg_head msg)) \<noteq> None \<and>
     \<not> (head_type (msg_head msg) = msg_type_code UFCS_CTRL_MSG \<and> ufcs_is_ack_nck_msg (ctrl_command msg))"

definition recv_event :: "nat \<Rightarrow> ufcs_msg \<Rightarrow> ufcs_event" where
  "recv_event i msg = \<lparr>ev_id = i, ev_type = event_of_msg msg, ev_msg = Some msg, ev_data = None\<rparr>"

definition rx_state :: "ufcs_class \<Rightarrow> ufcs_class \<Rightarrow> bool" where
  "rx_state s t \<longleftrightarrow> events t = events s \<and> next_id t = next_id s \<and> config t = config s \<and> env_alloc t = [] \<and>
     st_curr t \<noteq> PE_STATE_HANDSHAKE \<and> \<not> exit_ufcs_ack_received t"

lemma recv_round_data:
  assumes "rx_state s t" and "data_ready_only (dev_err_flag t)" and "env_rx t = f # fs" and "frame_msg (config s) f msg"
    and "works t = [] \<or> works t = [Event_work]"
  shows "rx_state s (recv_round t) \<and> works (recv_round t) = [Event_work] \<and> recv_msg (recv_round t) = Some msg \<and>
    env_rx (recv_round t) = fs \<and> err_flag_fifo (recv_round t) = err_flag_fifo t"
  using assms
  by (auto simp: rx_state_def recv_round_def ufcs_check_handshake_def ufcs_check_error_info_def data_ready_only_def
    read_msg_def frame_msg_def kzalloc_def Let_def msg_sizes rearm_trans_delay_def timer_defs kthread_queue_work_def ufcs_send_state_def emit_def
   hrtimer_start_def hrtimer_cancel_def)


lemma event_work_pushes:
  assumes "rx_state s t" and "works t = [Event_work]" and "recv_msg t = Some msg" and "frame_msg (config s) f msg"
    and "\<not> reply_ack (config s)" and "\<not> check_crc (config s)"
  shows "\<exists>s'. run_worker t = Some s' \<and> events s' = events s @ [recv_event (next_id s) msg] \<and> works s' = [] \<and>
    completed (ev_ack s')"
  using assms
  by (auto simp: rx_state_def frame_msg_def run_worker.simps [of t] run_worker.simps ufcs_event_work_def kzalloc_def Let_def
      ufcs_process_event_def ufcs_push_event_def recv_event_def)

lemma recv_work_Cons:
  "err_flag_fifo s = flag # fs \<Longrightarrow> ufcs_recv_work s =
     (let t = recv_round (s\<lparr>err_flag_fifo := fs, dev_err_flag := flag\<rparr>)
      in if fs \<noteq> [] then ufcs_recv_work t else t)"
  by (subst ufcs_recv_work.simps) (simp add: ufcs_get_error_flag_def Let_def)

text \<open>While no work is pending, a frame that arrives with an interrupt and unpacks to a message
  (other than an acknowledgement) becomes exactly one event: the worker thread comes to rest with
  the event of that message appended to the list and the state machine woken.\<close>

theorem frame_becomes_event:
  assumes "rx_ready s" and "1 \<le> env_fifo_slots s" and "data_ready_only flag" and "frame_msg (config s) f msg"
  shows "\<exists>s'. run_worker (deliver (In_irq flag None (Some f)) s) = Some s' \<and>
    events s' = events s @ [recv_event (next_id s) msg] \<and> works s' = [] \<and> completed (ev_ack s')"
proof -
  let ?d = "deliver (In_irq flag None (Some f)) s"
  let ?t = "?d\<lparr>works := [], err_flag_fifo := [], dev_err_flag := flag\<rparr>"
  have d: "works ?d = [Recv_work]" "err_flag_fifo ?d = [flag]" "env_rx ?d = [f]"
    using assms(1,2) by (simp_all add: rx_ready_def ufcs_msg_handler_def ufcs_set_error_flag_def kthread_queue_work_def)
  have "rx_state s ?t"
    using assms(1,2) by (simp add: rx_ready_def rx_state_def ufcs_msg_handler_def ufcs_set_error_flag_def kthread_queue_work_def)
  then have r: "rx_state s (recv_round ?t)" "works (recv_round ?t) = [Event_work]" "recv_msg (recv_round ?t) = Some msg"
    using recv_round_data [of s ?t f "[]" msg] assms(3,4) d by simp_all
  have "run_worker ?d = run_worker (recv_round ?t)"
    using d recv_work_Cons [of "?d\<lparr>works := []\<rparr>" flag "[]"]
    by (subst run_worker.simps) simp
  then show ?thesis using event_work_pushes [OF r assms(4)] assms(1) by (simp add: rx_ready_def)
qed

abbreviation demo_frame :: "u8 \<Rightarrow> bytes" where
  "demo_frame cmd \<equiv> [0x20, 0x08, cmd]"

definition demo_msg :: "u8 \<Rightarrow> ufcs_msg" where
  "demo_msg cmd = the (ufcs_unpack_msg (demo_config False) True (demo_frame cmd @ replicate 61 0) 3)"

lemma demo_frame_msg: "frame_msg (demo_config False) (demo_frame 5) (demo_msg 5)"
  "frame_msg (demo_config False) (demo_frame 3) (demo_msg 3)"
  unfolding frame_msg_def demo_msg_def by code_simp+

lemma demo_rx_ready: "rx_ready (connected_class (demo_config False) is)"
  by (simp add: rx_ready_def connected_class_def demo_config_def)

lemma frame_becomes_event_witness:
  "\<exists>s'. run_worker (deliver (In_irq 0x100 None (Some (demo_frame 5))) (connected_class (demo_config False) [])) = Some s' \<and>
    events s' = [recv_event 0 (demo_msg 5)]"
  using frame_becomes_event [OF demo_rx_ready [of "[]"], of "0x100" "demo_frame 5" "demo_msg 5"] demo_frame_msg(1)
  by (auto simp: connected_class_def data_ready_only_def err_bits)

text \<open>Two frames that arrive before the worker thread has run give one event, that of the
  second frame: the receive work handles both flags before the event work is run and the second
  message overwrites the first, which is lost.\<close>

theorem second_frame_replaces_first:
  assumes "rx_ready s" and "2 \<le> env_fifo_slots s" and "data_ready_only flag1" and "data_ready_only flag2"
    and "frame_msg (config s) f1 msg1" and "frame_msg (config s) f2 msg2"
  shows "\<exists>s'. run_worker (deliver (In_irq flag2 None (Some f2)) (deliver (In_irq flag1 None (Some f1)) s)) = Some s' \<and>
    events s' = events s @ [recv_event (next_id s) msg2]"
proof -
  let ?d = "deliver (In_irq flag2 None (Some f2)) (deliver (In_irq flag1 None (Some f1)) s)"
  let ?t = "?d\<lparr>works := [], err_flag_fifo := [flag2], dev_err_flag := flag1\<rparr>"
  let ?u = "(recv_round ?t)\<lparr>err_flag_fifo := [], dev_err_flag := flag2\<rparr>"
  have d: "works ?d = [Recv_work]" "err_flag_fifo ?d = [flag1, flag2]" "env_rx ?d = [f1, f2]"
    using assms(1,2) by (simp_all add: rx_ready_def ufcs_msg_handler_def ufcs_set_error_flag_def kthread_queue_work_def)
  have "rx_state s ?t"
    using assms(1,2) by (simp add: rx_ready_def rx_state_def ufcs_msg_handler_def ufcs_set_error_flag_def kthread_queue_work_def)
  then have r: "rx_state s (recv_round ?t)" "works (recv_round ?t) = [Event_work]" "env_rx (recv_round ?t) = [f2]"
     "err_flag_fifo (recv_round ?t) = [flag2]"
    using recv_round_data [of s ?t f1 "[f2]" msg1] assms(3,5) d by simp_all
  then have "rx_state s ?u" by (simp add: rx_state_def)
  then have r2: "rx_state s (recv_round ?u)" "works (recv_round ?u) = [Event_work]" "recv_msg (recv_round ?u) = Some msg2"
    using recv_round_data [of s ?u f2 "[]" msg2] assms(4,6) r by simp_all
  have "ufcs_recv_work (?d\<lparr>works := []\<rparr>) = recv_round ?u"
    using d r recv_work_Cons [of "?d\<lparr>works := []\<rparr>" flag1 "[flag2]"] recv_work_Cons [of "recv_round ?t" flag2 "[]"]
    by simp
  then have "run_worker ?d = run_worker (recv_round ?u)"
    using d(1) by (subst run_worker.simps) simp
  then show ?thesis using event_work_pushes [OF r2 assms(6)] assms(1) by (auto simp: rx_ready_def)
qed

lemma second_frame_replaces_first_witness:
  "\<exists>s'. run_worker (deliver (In_irq 0x100 None (Some (demo_frame 5)))
      (deliver (In_irq 0x100 None (Some (demo_frame 3))) (connected_class (demo_config False) []))) = Some s' \<and>
    events s' = [recv_event 0 (demo_msg 5)]"
  using second_frame_replaces_first [OF demo_rx_ready [of "[]"], of "0x100" "0x100" "demo_frame 3" "demo_msg 3"
      "demo_frame 5" "demo_msg 5"] demo_frame_msg
  by (auto simp: connected_class_def data_ready_only_def err_bits)

section \<open>A transmission\<close>

definition sent_only :: "u32 \<Rightarrow> bool" where
  "sent_only flag \<longleftrightarrow> bit flag UFCS_RECV_ERR_SENT_CMP \<and> \<not> bit flag UFCS_HW_ERR_HARD_RESET \<and>
     \<not> bit flag UFCS_COMM_ERR_BUS_CONFLICT \<and> \<not> bit flag UFCS_RECV_ERR_TRANS_FAIL \<and>
     \<not> bit flag UFCS_RECV_ERR_ACK_TIMEOUT \<and> \<not> bit flag UFCS_RECV_ERR_DATA_READY"

definition tx_ready :: "ufcs_class \<Rightarrow> bool" where
  "tx_ready s \<longleftrightarrow> works s = [] \<and> err_flag_fifo s = [] \<and> 1 \<le> env_fifo_slots s \<and> env_write s = [] \<and>
     st_curr s \<noteq> PE_STATE_HANDSHAKE \<and> \<not> exit_ufcs_ack_received s \<and>
     \<not> s_locked (sender s) \<and> s_status (sender s) = MSG_SEND_START"

lemma works_update_same: "works s = ws \<Longrightarrow> s\<lparr>works := ws\<rparr> = s"
  by (cases s) simp

lemma sent_flag_completes:
  assumes "sent_only flag" and "works t = [Recv_work]" and "err_flag_fifo t = [flag]" and "s_status (sender t) = MSG_WAIT_ACK"
     "st_curr t \<noteq> PE_STATE_HANDSHAKE" and "\<not> exit_ufcs_ack_received t"
  shows "\<exists>t'. run_worker t = Some t' \<and> s_status (sender t') = MSG_SEND_OK \<and> completed (s_ack (sender t')) \<and>
    s_counter (sender t') = s_counter (sender t) \<and> io_trace t' = io_trace t @ [Io_notify UFCS_NOTIFY_ERR_FLAG]"
  using assms
  apply (auto simp: sent_only_def run_worker.simps [of t] run_worker.simps ufcs_recv_work.simps ufcs_get_error_flag_def 
     recv_round_def ufcs_check_handshake_def ufcs_check_error_info_def Let_def ufcs_send_state_def emit_def timer_defs hrtimer_cancel_def
     note_exit_ack_def split: option.split)
  done

text \<open>When the sender is ready and the chip reports the transmission as completed, sending a
  message writes exactly its packed frame to the chip, once, returns \<open>0\<close> and advances the message
  number.\<close>

theorem send_msg_succeeds:
  assumes "tx_ready s" and "ufcs_pack_msg (config s) msg UFCS_MSG_SIZE_MAX = Inr (bs, msg')"
    and "\<not> (head_type (msg_head msg) = msg_type_code UFCS_CTRL_MSG \<and> ufcs_is_ack_nck_msg (ctrl_command msg))"
    and "env_in s = In_irq flag None None # rest" and "sent_only flag"
  shows "\<exists>s'. ufcs_send_msg run_worker False msg retry s = Some (0, s') \<and>
    io_trace s' = io_trace s @ [Io_write bs, Io_notify UFCS_NOTIFY_ERR_FLAG] \<and>
    s_counter (sender s') = next_counter (s_counter (sender s))"
proof -
  define s1 where "s1 = (lock_sender s)\<lparr>sender := (sender (lock_sender s))\<lparr>s_msg := Some msg, s_retry := 0, s_ack := 0\<rparr>\<rparr>"
  define s2 where "s2 = ufcs_msg_send_work s1"
  have s2: "s2 = hrtimer_start ACK_RECEIVE_TIMER ((emit (Io_write bs) s1)
     \<lparr>sender := (sender s1)\<lparr>s_msg := Some msg', s_status := MSG_WAIT_ACK\<rparr>\<rparr>)"
    unfolding s2_def using assms by (intro send_work_writes) (simp_all add: s1_def tx_ready_def)
  have w: "run_worker (kthread_queue_work Msg_send_work s1) = Some s2"
  proof -
    have n: "works s1 = []" "works s2 = []" using assms(1) by (simp_all add: s2 s1_def tx_ready_def)
    then have "(kthread_queue_work Msg_send_work s1)\<lparr>works := []\<rparr> = s1"
      by (simp add: kthread_queue_work_def works_update_same)
    moreover have "works (kthread_queue_work Msg_send_work s1) = [Msg_send_work]"
      using n by (simp add: kthread_queue_work_def)
    ultimately show ?thesis
      using n(2) by (subst run_worker.simps) (simp add: run_worker.simps [of s2] flip: s2_def)
  qed
  let ?t = "deliver (In_irq flag None None) (s2\<lparr>env_in := rest\<rparr>)"
  obtain t' where t': "run_worker ?t = Some t'" "s_status (sender t') = MSG_SEND_OK" "completed (s_ack (sender t'))"
    "s_counter (sender t') = s_counter (sender ?t)" "io_trace t' = io_trace ?t @ [Io_notify UFCS_NOTIFY_ERR_FLAG]"
    using sent_flag_completes [of flag ?t] assms(1,5)
    by (auto simp: s2 s1_def tx_ready_def ufcs_set_error_flag_def ufcs_msg_handler_def kthread_queue_work_def)
  have "completed (s_ack (sender s2)) = False" "env_in s2 = In_irq flag None None # rest"
    using assms(4) by (simp_all add: s2 s1_def)
  then have "sleep_until (\<lambda>s. completed (s_ack (sender s))) run_worker s2 = Some t'"
    using t' by (subst sleep_until.simps) (simp add: sleep_until.simps)
  then have "wait_sender_ack run_worker (kthread_queue_work Msg_send_work s1) =
      Some (t'\<lparr>sender := (sender t')\<lparr>s_ack := completion_taken (s_ack (sender t'))\<rparr>\<rparr>)"
    by (simp add: wait_sender_ack_def w)
  moreover have "msg_type_of (head_type (msg_head msg)) \<noteq> None"
    using assms(2) pack_unknown_type by fastforce
  moreover have "s_counter (sender ?t) = s_counter (sender s)" "io_trace ?t = io_trace s @ [Io_write bs]"
    by (simp_all add: s2 s1_def ufcs_set_error_flag_def ufcs_msg_handler_def emit_def Let_def)
  ultimately show ?thesis
    using assms(1) t'
    by (auto simp: ufcs_send_msg.simps do_ufcs_send_msg_def Let_def s1_def tx_ready_def send_result_def
        start_msg_trans_delay_timer_def)
qed

lemma send_msg_succeeds_witness:
  "\<exists>s'. ufcs_send_msg run_worker False (ctrl_message CTRL_MSG_PING 0) False
      (connected_class (demo_config False) [In_irq 0x20 None None]) = Some (0, s') \<and>
    io_trace s' = [Io_write [0x20, 0x08, 0], Io_notify UFCS_NOTIFY_ERR_FLAG] \<and> s_counter (sender s') = 1"
proof -
  let ?s = "connected_class (demo_config False) [In_irq 0x20 None None]" and ?m = "ctrl_message CTRL_MSG_PING 0"
  have "ufcs_pack_msg (config ?s) ?m UFCS_MSG_SIZE_MAX = Inr ([0x20, 0x08, 0], ?m)"
    by (simp add: connected_class_def demo_config_def ctrl_message_def init_msg_head_def ufcs_pack_msg_def
        msg_type_of_def msg_sizes MSG_HEAD_SIZE_def pack_head_def to_be16_def UFCS_VER_CURR_def)
  moreover have "tx_ready ?s" and "sent_only 0x20"
    by (simp_all add: tx_ready_def sent_only_def connected_class_def err_bits)
  ultimately have "\<exists>s'. ufcs_send_msg run_worker False ?m False ?s = Some (0, s') \<and>
    io_trace s' = io_trace ?s @ [Io_write [0x20, 0x08, 0], Io_notify UFCS_NOTIFY_ERR_FLAG] \<and>
    s_counter (sender s') = next_counter (s_counter (sender ?s))"
    by (intro send_msg_succeeds [where flag = "0x20" and rest = "[]"])
      (simp_all add: connected_class_def ctrl_message_def init_msg_head_def ufcs_is_ack_nck_msg_def)
  then show ?thesis by (simp add: connected_class_def next_counter_def MSG_NUMBER_COUNT_MAX_def)
qed

end
