(* ===== verification/Ufcs_Pe_Exchange.thy ===== *)
theory Ufcs_Pe_Exchange
  imports Ufcs_Event
begin

text \<open>
  What the states of the policy engine have in common: a request is sent, its answer is awaited
  under a timer, and \<^verbatim>\<open>goto retry\<close> and \<^verbatim>\<open>goto re_recv\<close> lead back to the two places. The
  control flow is a datatype, the two places of a handler are two functions, and \<open>pe_run\<close> follows
  the jumps. This theory has the refusal check of \<^verbatim>\<open>ufcs_policy_engine.c\<close>, the cable exchanges
  of \<^verbatim>\<open>ufcs_pe_cable.c\<close> and the vendor exchanges of \<^verbatim>\<open>ufcs_pe_vendor.c\<close>.
\<close>

section \<open>Jumps\<close>

datatype 'v pe_goto = Goto_retry 'v | Goto_re_recv 'v | Return_rc int

partial_function (option) pe_run ::
  "('v \<Rightarrow> ufcs_class \<Rightarrow> ('v pe_goto \<times> ufcs_class) option) \<Rightarrow>
   ('v \<Rightarrow> ufcs_class \<Rightarrow> ('v pe_goto \<times> ufcs_class) option) \<Rightarrow>
   'v pe_goto \<Rightarrow> ufcs_class \<Rightarrow> (int \<times> ufcs_class) option"
where
  "pe_run retry recv g s =
     (case g of
        Return_rc rc \<Rightarrow> Some (rc, s)
      | Goto_retry v \<Rightarrow> do { (g', s') \<leftarrow> retry v s; pe_run retry recv g' s' }
      | Goto_re_recv v \<Rightarrow> do { (g', s') \<leftarrow> recv v s; pe_run retry recv g' s' })"

declare pe_run.simps [code]

lemma pe_run_simps:
  "pe_run retry recv (Return_rc rc) s = Some (rc, s)"
  "pe_run retry recv (Goto_retry v) s = do { (g', s') \<leftarrow> retry v s; pe_run retry recv g' s' }"
  "pe_run retry recv (Goto_re_recv v) s = do { (g', s') \<leftarrow> recv v s; pe_run retry recv g' s' }"
  by (subst pe_run.simps, simp)+

section \<open>Refusals\<close>

definition ufcs_check_refuse_msg :: "ufcs_msg \<Rightarrow> ufcs_msg_type \<Rightarrow> u8 \<Rightarrow> rc" where
  "ufcs_check_refuse_msg msg t cmd =
     (let d = dm_u32 (data_msg msg) 0
      in if UFCS_REFUSE_INFO_MSG_TYPE d \<noteq> ucast (msg_type_code t) \<or>
            (t \<noteq> UFCS_VENDOR_MSG \<and> UFCS_REFUSE_INFO_MSG_CMD d \<noteq> ucast cmd)
         then - EIO
         else if UFCS_REFUSE_INFO_REASON d = refuse_code REFUSE_DEVICE_BUSY then - EAGAIN
         else - EIO)"

section \<open>Exchanges inside a state\<close>

text \<open>The exchanges of the cable and of the vendor messages share their text up to the message
  sent, the timer, the reply and whether the timer is stopped again on the way out of
  \<^verbatim>\<open>UFCS_EVENT_TIMEOUT\<close>. The locals are \<^verbatim>\<open>soft_reset\<close> and \<^verbatim>\<open>rc\<close>. The result is \<open>1\<close>
  when the state machine has to exit, \<open>0\<close> on success and an error otherwise.\<close>

record sub_exchange =
  sx_send :: "ufcs_class \<Rightarrow> (rc \<times> ufcs_class) option"
  sx_start :: "ufcs_class \<Rightarrow> ufcs_class"
  sx_stop :: "ufcs_class \<Rightarrow> ufcs_class"
  sx_type :: ufcs_msg_type
  sx_cmd :: u8
  sx_reply :: ufcs_event_type
  sx_needs_msg :: bool
  sx_take :: "ufcs_msg option \<Rightarrow> ufcs_class \<Rightarrow> ufcs_class"
  sx_result :: "rc \<Rightarrow> rc"
  sx_stop_on_timeout :: bool

definition sx_out :: "sub_exchange \<Rightarrow> ufcs_event option \<Rightarrow> rc \<Rightarrow> ufcs_class \<Rightarrow>
    ((bool \<times> rc) pe_goto \<times> ufcs_class) option" where
  "sx_out x eo rc s =
     Some (Return_rc rc,
           case eo of None \<Rightarrow> sx_stop x s | Some e \<Rightarrow> ufcs_free_event e (sx_stop x s))"

definition sx_timeout :: "sub_exchange \<Rightarrow> ufcs_event \<Rightarrow> ufcs_class \<Rightarrow>
    ((bool \<times> rc) pe_goto \<times> ufcs_class) option" where
  "sx_timeout x e s =
     Some (Return_rc (- EPROTO),
           (ufcs_free_event e (if sx_stop_on_timeout x then sx_stop x s else s))
             \<lparr>st_curr := PE_STATE_IDEL\<rparr>)"

definition sx_retry :: "sub_exchange \<Rightarrow> bool \<times> rc \<Rightarrow> ufcs_class \<Rightarrow>
    ((bool \<times> rc) pe_goto \<times> ufcs_class) option" where
  "sx_retry x v s =
     do { (rc, s1) \<leftarrow> sx_send x s;
          if rc < 0 then sx_out x None rc s1
          else Some (Goto_re_recv (fst v, rc), sx_start x s1) }"

definition sx_refused :: "sub_exchange \<Rightarrow> bool \<times> rc \<Rightarrow> ufcs_event \<Rightarrow> ufcs_msg \<Rightarrow> ufcs_class \<Rightarrow>
    ((bool \<times> rc) pe_goto \<times> ufcs_class) option" where
  "sx_refused x v e msg s =
     (let rc = ufcs_check_refuse_msg msg (sx_type x) (sx_cmd x)
      in if rc \<ge> 0 then Some (Goto_re_recv (fst v, rc), ufcs_free_event e s)
         else let s1 = sx_stop x s
              in if rc = - EAGAIN
                 then (if fst v then sx_out x (Some e) rc s1
                       else do { (rc', s2) \<leftarrow> ufcs_send_ctrl_msg run_worker CTRL_MSG_SOFT_RESET False s1;
                                 Some (Goto_retry (True, rc), ufcs_free_event e s2) })
                 else sx_timeout x e s1)"

definition sx_recv :: "sub_exchange \<Rightarrow> bool \<times> rc \<Rightarrow> ufcs_class \<Rightarrow>
    ((bool \<times> rc) pe_goto \<times> ufcs_class) option" where
  "sx_recv x v s =
     do { (eo, s1) \<leftarrow> ufcs_get_next_event s;
          case eo of
            None \<Rightarrow> Some (if ev_exit s1 then Return_rc 1 else Goto_re_recv v, s1)
          | Some e \<Rightarrow>
              (if ev_type e = UFCS_EVENT_RECV_REFUSE
               then (case ev_msg e of
                       None \<Rightarrow> Some (Goto_re_recv v, ufcs_free_event e s1)
                     | Some msg \<Rightarrow> sx_refused x v e msg s1)
               else if ev_type e = UFCS_EVENT_TIMEOUT then sx_timeout x e s1
               else if ev_type e = sx_reply x
               then (if sx_needs_msg x \<and> ev_msg e = None
                     then Some (Goto_re_recv v, ufcs_free_event e s1)
                     else sx_out x (Some e) (sx_result x (snd v)) (sx_take x (ev_msg e) (sx_stop x s1)))
               else if ev_type e = UFCS_EVENT_RECV_SOFT_RESET
               then Some (Return_rc (- EPROTO), (sx_stop x s1)\<lparr>st_curr := PE_STATE_SOFT_RESET\<rparr>)
               else if ev_msg e \<noteq> None then sx_out x (Some e) (- ENOTSUPP) s1
               else Some (Goto_re_recv v, ufcs_free_event e s1)) }"

definition sx_run :: "sub_exchange \<Rightarrow> ufcs_class \<Rightarrow> (int \<times> ufcs_class) option" where
  "sx_run x s = pe_run (sx_retry x) (sx_recv x) (Goto_retry (False, 0)) s"

section \<open>Cable\<close>

definition start_cable_detect_exchange :: sub_exchange where
  "start_cable_detect_exchange =
     \<lparr>sx_send = ufcs_send_ctrl_msg run_worker CTRL_MSG_START_CABLE_DETECT True,
      sx_start = start_sender_response_timer, sx_stop = stop_sender_response_timer,
      sx_type = UFCS_CTRL_MSG, sx_cmd = ctrl_code CTRL_MSG_START_CABLE_DETECT,
      sx_reply = UFCS_EVENT_RECV_ACCEPT, sx_needs_msg = False, sx_take = (\<lambda>_ s. s),
      sx_result = (\<lambda>_. 0), sx_stop_on_timeout = True\<rparr>"

definition ufcs_pe_start_cable_detect :: "ufcs_class \<Rightarrow> (int \<times> ufcs_class) option" where
  "ufcs_pe_start_cable_detect s =
     sx_run start_cable_detect_exchange (s\<lparr>start_cable_detect := True\<rparr>)"

definition get_cable_info_exchange :: sub_exchange where
  "get_cable_info_exchange =
     \<lparr>sx_send = ufcs_send_ctrl_msg run_worker CTRL_MSG_GET_CABLE_INFO True,
      sx_start = start_sender_response_timer, sx_stop = stop_sender_response_timer,
      sx_type = UFCS_CTRL_MSG, sx_cmd = ctrl_code CTRL_MSG_GET_CABLE_INFO,
      sx_reply = UFCS_EVENT_RECV_CABLE_INFO, sx_needs_msg = True,
      sx_take = (\<lambda>m s. case m of Some msg \<Rightarrow> s\<lparr>cable_info := dm_u64 (data_msg msg) 0\<rparr> | None \<Rightarrow> s),
      sx_result = (\<lambda>_. 0), sx_stop_on_timeout = True\<rparr>"

definition ufcs_pe_get_cable_info :: "ufcs_class \<Rightarrow> (int \<times> ufcs_class) option" where
  "ufcs_pe_get_cable_info s = sx_run get_cable_info_exchange s"

definition ufcs_pe_end_cable_detect :: "ufcs_class \<Rightarrow> (int \<times> ufcs_class) option" where
  "ufcs_pe_end_cable_detect s =
     do { (rc, s1) \<leftarrow> ufcs_send_ctrl_msg run_worker CTRL_MSG_END_CABLE_DETECT True s;
          Some (if rc < 0 then rc else 0, s1\<lparr>start_cable_detect := False\<rparr>) }"

text \<open>\<^verbatim>\<open>ufcs_pe_detect_cable_info\<close> lets the source examine the cable: the accept starts the
  cable-info timer, the start and the end of the detection switch the restart timer. Locals:
  \<^verbatim>\<open>soft_reset\<close> and the three \<^verbatim>\<open>wait\<close> flags, and \<^verbatim>\<open>rc\<close>.\<close>

record detect_locals =
  dl_soft_reset :: bool
  dl_wait_start :: bool
  dl_wait_end :: bool
  dl_wait_cable_info :: bool

definition detect_stop_all :: "ufcs_class \<Rightarrow> ufcs_class" where
  "detect_stop_all s =
     stop_restart_trans_timer (stop_cable_info_timer (stop_sender_response_timer s))"

definition detect_out :: "ufcs_event option \<Rightarrow> rc \<Rightarrow> ufcs_class \<Rightarrow>
    (detect_locals pe_goto \<times> ufcs_class) option" where
  "detect_out eo rc s =
     Some (Return_rc rc,
           case eo of None \<Rightarrow> detect_stop_all s | Some e \<Rightarrow> ufcs_free_event e (detect_stop_all s))"

definition detect_timeout :: "detect_locals \<Rightarrow> ufcs_event \<Rightarrow> ufcs_class \<Rightarrow>
    (detect_locals pe_goto \<times> ufcs_class) option" where
  "detect_timeout v e s =
     (let s1 = (if dl_wait_start v then stop_cable_info_timer s else s);
          s2 = (if dl_wait_end v then stop_restart_trans_timer (stop_cable_info_timer s1) else s1);
          s3 = (if dl_wait_cable_info v then stop_restart_trans_timer (stop_cable_info_timer s2) else s2)
      in Some (Return_rc (- EPROTO), (ufcs_free_event e s3)\<lparr>st_curr := PE_STATE_IDEL\<rparr>))"

definition detect_retry :: "detect_locals \<Rightarrow> ufcs_class \<Rightarrow> (detect_locals pe_goto \<times> ufcs_class) option" where
  "detect_retry v s =
     do { (rc, s1) \<leftarrow> ufcs_send_ctrl_msg run_worker CTRL_MSG_DETECT_CABLE_INFO True s;
          if rc < 0 then detect_out None rc s1
          else Some (Goto_re_recv v, start_sender_response_timer s1) }"

definition detect_refused :: "detect_locals \<Rightarrow> ufcs_event \<Rightarrow> ufcs_msg \<Rightarrow> ufcs_class \<Rightarrow>
    (detect_locals pe_goto \<times> ufcs_class) option" where
  "detect_refused v e msg s =
     (let rc = ufcs_check_refuse_msg msg UFCS_CTRL_MSG (ctrl_code CTRL_MSG_DETECT_CABLE_INFO)
      in if rc \<ge> 0 then Some (Goto_re_recv v, ufcs_free_event e s)
         else let s1 = stop_sender_response_timer s
              in if rc = - EAGAIN
                 then (if dl_soft_reset v then detect_out (Some e) rc s1
                       else do { (rc', s2) \<leftarrow> ufcs_send_ctrl_msg run_worker CTRL_MSG_SOFT_RESET False s1;
                                 Some (Goto_retry (v\<lparr>dl_soft_reset := True\<rparr>), ufcs_free_event e s2) })
                 else detect_timeout v e s1)"

definition detect_recv :: "detect_locals \<Rightarrow> ufcs_class \<Rightarrow> (detect_locals pe_goto \<times> ufcs_class) option" where
  "detect_recv v s =
     do { (eo, s1) \<leftarrow> ufcs_get_next_event s;
          case eo of
            None \<Rightarrow> Some (if ev_exit s1 then Return_rc 1 else Goto_re_recv v, s1)
          | Some e \<Rightarrow>
              (if ev_type e = UFCS_EVENT_RECV_REFUSE
               then (case ev_msg e of
                       None \<Rightarrow> Some (Goto_re_recv v, ufcs_free_event e s1)
                     | Some msg \<Rightarrow> detect_refused v e msg s1)
               else if ev_type e = UFCS_EVENT_TIMEOUT then detect_timeout v e s1
               else if ev_type e = UFCS_EVENT_RECV_ACCEPT
               then Some (Goto_re_recv (v\<lparr>dl_wait_start := True\<rparr>),
                          ufcs_free_event e (start_cable_info_timer (stop_sender_response_timer s1)))
               else if ev_type e = UFCS_EVENT_RECV_START_CABLE_DETECT
               then Some (Goto_re_recv (v\<lparr>dl_wait_start := False, dl_wait_end := True\<rparr>),
                          ufcs_free_event e (start_restart_trans_timer s1))
               else if ev_type e = UFCS_EVENT_RECV_END_CABLE_DETECT
               then Some (Goto_re_recv (v\<lparr>dl_wait_end := False, dl_wait_cable_info := True\<rparr>),
                          ufcs_free_event e (stop_restart_trans_timer s1))
               else if ev_type e = UFCS_EVENT_RECV_CABLE_INFO
               then (case ev_msg e of
                       None \<Rightarrow> Some (Goto_re_recv v, ufcs_free_event e s1)
                     | Some msg \<Rightarrow>
                         detect_out (Some e) 0
                           ((stop_cable_info_timer s1)\<lparr>cable_info := dm_u64 (data_msg msg) 0\<rparr>))
               else if ev_type e = UFCS_EVENT_RECV_SOFT_RESET
               then Some (Return_rc (- EPROTO), (detect_stop_all s1)\<lparr>st_curr := PE_STATE_SOFT_RESET\<rparr>)
               else if ev_msg e \<noteq> None then detect_out (Some e) (- ENOTSUPP) s1
               else Some (Goto_re_recv v, ufcs_free_event e s1)) }"

definition ufcs_pe_detect_cable_info :: "ufcs_class \<Rightarrow> (int \<times> ufcs_class) option" where
  "ufcs_pe_detect_cable_info s =
     pe_run detect_retry detect_recv
       (Goto_retry \<lparr>dl_soft_reset = False, dl_wait_start = False, dl_wait_end = False,
          dl_wait_cable_info = False\<rparr>) s"

section \<open>Vendor\<close>

definition emark_exchange :: sub_exchange where
  "emark_exchange =
     \<lparr>sx_send = ufcs_oplus_send_ctrl_msg run_worker OPLUS_MSG_GET_EMARK_INFO True,
      sx_start = start_emark_response_timer, sx_stop = stop_emark_response_timer,
      sx_type = UFCS_VENDOR_MSG, sx_cmd = 0,
      sx_reply = UFCS_EVENT_OPLUS_RECV_EMARK_INFO_MSG, sx_needs_msg = True,
      sx_take = (\<lambda>m s. case m of Some msg \<Rightarrow> s\<lparr>emark_info := vm_u64 (vendor_msg msg) 0\<rparr> | None \<Rightarrow> s),
      sx_result = (\<lambda>rc. rc), sx_stop_on_timeout = False\<rparr>"

definition ufcs_pe_oplus_get_emark_info :: "ufcs_class \<Rightarrow> (int \<times> ufcs_class) option" where
  "ufcs_pe_oplus_get_emark_info s = sx_run emark_exchange s"

text \<open>Copying a zero-terminated array of at most seven words.\<close>

definition take_words :: "u64 list \<Rightarrow> u64 list \<Rightarrow> nat \<times> u64 list" where
  "take_words old ws = (let ys = takeWhile (\<lambda>w. w \<noteq> 0) ws in (length ys, ys @ drop (length ys) old))"

definition power_info_exchange :: sub_exchange where
  "power_info_exchange =
     \<lparr>sx_send = ufcs_oplus_send_ctrl_msg run_worker OPLUS_MSG_GET_POWER_INFO_EXT True,
      sx_start = start_sender_response_timer, sx_stop = stop_sender_response_timer,
      sx_type = UFCS_VENDOR_MSG, sx_cmd = 0,
      sx_reply = UFCS_EVENT_OPLUS_RECV_POWER_INFO_MSG, sx_needs_msg = True,
      sx_take = (\<lambda>m s. case m of
          Some msg \<Rightarrow>
            (let (n, xs) = take_words (pie_data s)
                   (map (vm_u64 (vendor_msg msg)) [0..<UFCS_OPLUS_VND_POWER_INFO_MAX])
             in s\<lparr>pie_num := n, pie_data := xs\<rparr>)
        | None \<Rightarrow> s),
      sx_result = (\<lambda>rc. rc), sx_stop_on_timeout = False\<rparr>"

definition ufcs_pe_oplus_get_power_info :: "ufcs_class \<Rightarrow> (int \<times> ufcs_class) option" where
  "ufcs_pe_oplus_get_power_info s = sx_run power_info_exchange s"

section \<open>Assertions about the loops\<close>

text \<open>A loop between the two labels of a handler, with an assertion for every place.\<close>

locale pe_loop =
  fixes retry recv :: "'v \<Rightarrow> ufcs_class \<Rightarrow> ('v pe_goto \<times> ufcs_class) option"
    and A :: "'v pe_goto \<Rightarrow> ufcs_class \<Rightarrow> bool"
  assumes retry_step: "retry v s = Some (g, s') \<Longrightarrow> A (Goto_retry v) s \<Longrightarrow> A g s'"
    and recv_step: "recv v s = Some (g, s') \<Longrightarrow> A (Goto_re_recv v) s \<Longrightarrow> A g s'"
begin

lemma run:
  assumes "pe_run retry recv g s = Some (rc, s')" and "A g s"
  shows "A (Return_rc rc) s'"
proof -
  let ?Q = "\<lambda>r c g s x. r = retry \<and> c = recv \<longrightarrow> A g s \<longrightarrow> A (Return_rc (fst x)) (snd x)"
  have "?Q retry recv g s (rc, s')"
    by (rule pe_run.raw_induct [where P = ?Q, OF _ assms(1)])
      (auto simp: bind_eq_Some_conv split: pe_goto.splits dest: retry_step recv_step)
  with assms(2) show ?thesis by simp
qed

end

section \<open>Refusals and copied words\<close>

text \<open>A refusal is read the way the encoder of refusals writes it: the result is
  \<^verbatim>\<open>-EAGAIN\<close> exactly when the refusal names the type and (except for vendor messages) the
  command of the request and gives \<open>busy\<close> as the reason, and \<^verbatim>\<open>-EIO\<close> otherwise; no refusal is ever
  ignored.\<close>

theorem refuse_msg_result:
  "case refuse_dec (dm_u32 (data_msg msg) 0) of (i, ty, c, reason) \<Rightarrow>
     ufcs_check_refuse_msg msg t cmd =
       (if ty = unat (msg_type_code t) \<and> (t = UFCS_VENDOR_MSG \<or> c = unat cmd) \<and>
           reason = unat (refuse_code REFUSE_DEVICE_BUSY)
        then - EAGAIN else - EIO)"
  by (auto simp: refuse_dec_def ufcs_check_refuse_msg_def Let_def unat_ucast_u8 word_unat_eq_iff)

lemma take_words_length:
  "length ws \<le> length old \<Longrightarrow> fst (take_words old ws) \<le> length ws"
  "length ws \<le> length old \<Longrightarrow> length (snd (take_words old ws)) = length old"
  using length_takeWhile_le [of "\<lambda>w. w \<noteq> 0" ws] by (auto simp: take_words_def Let_def)

lemma nth_take_words:
  assumes "length ws = length old"
  shows "i < fst (take_words old ws) \<Longrightarrow> snd (take_words old ws) ! i = ws ! i \<and> ws ! i \<noteq> 0"
    and "fst (take_words old ws) < length ws \<Longrightarrow> ws ! fst (take_words old ws) = 0"
    and "fst (take_words old ws) \<le> i \<Longrightarrow> i < length old \<Longrightarrow> snd (take_words old ws) ! i = old ! i"
  using assms takeWhile_nth [of i "\<lambda>w. w \<noteq> 0" ws] nth_mem [of i "takeWhile (\<lambda>w. w \<noteq> 0) ws"]
    nth_length_takeWhile [of "\<lambda>w. w \<noteq> 0" ws]
  by (auto simp: take_words_def Let_def nth_append dest!: set_takeWhileD)

end
