(* ===== verification/Ufcs_Policy_Engine.thy ===== *)
theory Ufcs_Policy_Engine
  imports Ufcs_Pe_Exchange "HOL-Library.Signed_Division"
begin

text \<open>
  The states of the policy engine, \<^verbatim>\<open>ufcs_policy_engine.c\<close>, with the test requests of
  \<^verbatim>\<open>ufcs_pe_test.c\<close>: one definition per handler, the handler table, and one round of the
  state machine thread.
\<close>

section \<open>Idle and resets\<close>

definition idle_next :: "ufcs_event_type \<Rightarrow> ufcs_pe_state option" where
  "idle_next t =
     (if t = UFCS_EVENT_RECV_HW_RESET then Some PE_STATE_HW_RESET
      else if t = UFCS_EVENT_RECV_SOFT_RESET then Some PE_STATE_SOFT_RESET
      else if t = UFCS_EVENT_RECV_GET_SINK_INFO then Some PE_STATE_SEND_SINK_INFO
      else if t = UFCS_EVENT_RECV_GET_DEVICE_INFO then Some PE_STATE_SEND_DEVICE_INFO
      else if t = UFCS_EVENT_RECV_GET_ERROR_INFO then Some PE_STATE_SEND_ERROR_INFO
      else if t = UFCS_EVENT_SEND_GET_DEVICE_INFO then Some PE_STATE_GET_DEVICE_INFO
      else if t = UFCS_EVENT_SEND_GET_ERROR_INFO then Some PE_STATE_GET_ERROR_INFO
      else if t = UFCS_EVENT_SEND_GET_SOURCE_INFO then Some PE_STATE_GET_SOURCE_INFO
      else if t = UFCS_EVENT_SEND_REQUEST then Some PE_STATE_REQUEST
      else if t = UFCS_EVENT_SEND_GET_OUTPUT_CAP then Some PE_STATE_OUTPUT_CAP
      else if t = UFCS_EVENT_RECV_EXIT_UFCS_MODE then Some PE_STATE_RECV_EXIT
      else if t = UFCS_EVENT_SEND_EXIT_UFCS_MODE then Some PE_STATE_SEND_EXIT
      else if t = UFCS_EVENT_HANDSHAKE then Some PE_STATE_HANDSHAKE
      else if t = UFCS_EVENT_SEND_VERIFY_REQUEST then Some PE_STATE_VERIFY_REQUEST
      else if t = UFCS_EVENT_RECV_POWER_CHANGE then Some PE_STATE_POWER_CHANGE
      else if t = UFCS_EVENT_SEND_CONFIG_WD then Some PE_STATE_CONFIG_WD
      else if t = UFCS_EVENT_SEND_START_CABLE_DETECT then Some PE_STATE_GET_CABLE_INFO
      else if t = UFCS_EVENT_OPLUS_SEND_GET_EMARK_INFO_MSG then Some PE_STATE_GET_EMARK_INFO
      else if t = UFCS_EVENT_OPLUS_SEND_GET_POWER_INFO_MSG then Some PE_STATE_GET_POWER_INFO
      else if t = UFCS_EVENT_RECV_TEST_REQUEST then Some PE_STATE_TEST_REQUEST
      else None)"

text \<open>The idle handler takes \<^verbatim>\<open>pe_lock\<close>, which the thread releases when the engine is idle
  again, and leaves the event in the list for the handler of the state it selects.\<close>

definition ufcs_state_idel_handle :: "ufcs_event \<Rightarrow> ufcs_class \<Rightarrow> ufcs_class option" where
  "ufcs_state_idel_handle e s =
     (if pe_locked s then None
      else let s1 = s\<lparr>pe_locked := True, st_err := 0\<rparr>
           in case idle_next (ev_type e) of
                Some st \<Rightarrow> Some (s1\<lparr>st_curr := st\<rparr>)
              | None \<Rightarrow>
                  (if ev_type e = UFCS_EVENT_RECV_PING then Some (ufcs_free_event e s1)
                   else case ev_msg e of
                     None \<Rightarrow> Some (ufcs_free_event e s1)
                   | Some msg \<Rightarrow>
                       do { (rc, s2) \<leftarrow> ufcs_send_data_msg_refuse run_worker msg REFUSE_UNKNOWN_CMD s1;
                            if rc < 0 \<and> rc \<noteq> - EAGAIN
                            then Some (snd (ufcs_source_hard_reset (ufcs_free_event e s2)))
                            else Some (ufcs_free_event e s2) }))"

definition ufcs_state_soft_reset_handle :: "ufcs_event \<Rightarrow> ufcs_class \<Rightarrow> ufcs_class option" where
  "ufcs_state_soft_reset_handle e s = Some (ufcs_reset_sm_work (ufcs_free_event e s))"

definition ufcs_state_hw_reset_handle :: "ufcs_event \<Rightarrow> ufcs_class \<Rightarrow> ufcs_class option" where
  "ufcs_state_hw_reset_handle e s =
     Some (ufcs_send_state UFCS_NOTIFY_SOURCE_HW_RESET (ufcs_exit_sm_work (ufcs_free_event e s)))"

definition ufcs_state_send_exit_handle :: "ufcs_event \<Rightarrow> ufcs_class \<Rightarrow> ufcs_class option" where
  "ufcs_state_send_exit_handle e s =
     do { (rc, s1) \<leftarrow> ufcs_send_ctrl_msg run_worker CTRL_MSG_EXIT_UFCS_MODE True (ufcs_free_event e s);
          if rc < 0 then Some (snd (ufcs_source_hard_reset s1)) else Some (complete_request s1) }"

definition ufcs_state_recv_exit_handle :: "ufcs_event \<Rightarrow> ufcs_class \<Rightarrow> ufcs_class option" where
  "ufcs_state_recv_exit_handle e s =
     Some (ufcs_send_state UFCS_NOTIFY_EXIT ((ufcs_free_event e s)\<lparr>handshake_success := False\<rparr>))"

section \<open>Handshake\<close>

definition HANDSHAKE_RETRY_MAX :: nat where "HANDSHAKE_RETRY_MAX = 3"

text \<open>The loop over the baud rates ends at the first answer that is not \<^verbatim>\<open>-EBUSY\<close>; the result
  says whether a rate was found.\<close>

fun try_baud_rates :: "ufcs_baud_rate list \<Rightarrow> ufcs_class \<Rightarrow> (bool \<times> ufcs_class) option" where
  "try_baud_rates [] s = Some (False, s)"
| "try_baud_rates (b # bs) s =
     do { (rc, s1) \<leftarrow> ufcs_send_ctrl_msg run_worker CTRL_MSG_PING False (emit (Io_set_baud_rate b) s);
          if rc < 0 \<and> rc \<noteq> - EBUSY then Some (False, s1)
          else if rc \<ge> 0 then Some (True, s1)
          else try_baud_rates bs s1 }"

definition baud_rates :: "ufcs_baud_rate list" where
  "baud_rates = [UFCS_BAUD_115200, UFCS_BAUD_57600, UFCS_BAUD_38400, UFCS_BAUD_19200]"

definition pe_error :: "ufcs_event option \<Rightarrow> ufcs_class \<Rightarrow> ufcs_class" where
  "pe_error eo s =
     snd (ufcs_source_hard_reset (case eo of None \<Rightarrow> s | Some e \<Rightarrow> ufcs_free_event e s))"

text \<open>The local is \<^verbatim>\<open>retry_count\<close>.\<close>

definition handshake_retry :: "nat \<Rightarrow> ufcs_class \<Rightarrow> (nat pe_goto \<times> ufcs_class) option" where
  "handshake_retry n s =
     Some (Goto_re_recv n, start_handshake_timer (emit Io_handshake (s\<lparr>handshake_state := UFCS_HS_WAIT\<rparr>)))"

definition handshake_failed :: "nat \<Rightarrow> ufcs_event \<Rightarrow> ufcs_class \<Rightarrow> (nat pe_goto \<times> ufcs_class) option" where
  "handshake_failed n e s =
     Some (if n < HANDSHAKE_RETRY_MAX \<and> \<not> handshake_hard_retry (config s)
           then (Goto_retry (Suc n), ufcs_free_event e s)
           else (Return_rc 0, pe_error (Some e) s))"

definition handshake_recv :: "nat \<Rightarrow> ufcs_class \<Rightarrow> (nat pe_goto \<times> ufcs_class) option" where
  "handshake_recv n s =
     do { (eo, s1) \<leftarrow> ufcs_get_next_event s;
          case eo of
            None \<Rightarrow>
              Some (if ev_exit s1
                    then (Return_rc 0, ufcs_exit_sm_work (s1\<lparr>handshake_success := False\<rparr>))
                    else (Goto_re_recv n, s1))
          | Some e \<Rightarrow>
              (if ev_type e = UFCS_EVENT_RECV_ACK
               then do { (ok, s2) \<leftarrow> try_baud_rates baud_rates (stop_handshake_timer s1);
                         Some (Return_rc 0,
                               if ok
                               then ufcs_free_event e ((complete_request (s2\<lparr>handshake_success := True\<rparr>))
                                      \<lparr>st_curr := PE_STATE_IDEL\<rparr>)
                               else pe_error (Some e) s2) }
               else if ev_type e = UFCS_EVENT_RECV_NCK then handshake_failed n e (stop_handshake_timer s1)
               else if ev_type e = UFCS_EVENT_TIMEOUT then handshake_failed n e s1
               else if ev_type e = UFCS_EVENT_RECV_SOFT_RESET
               then Some (Return_rc 0, (stop_handshake_timer s1)\<lparr>st_curr := PE_STATE_SOFT_RESET\<rparr>)
               else if ev_msg e \<noteq> None then Some (Return_rc 0, pe_error (Some e) s1)
               else Some (Goto_re_recv n, ufcs_free_event e s1)) }"

definition ufcs_state_handshake_handle :: "ufcs_event \<Rightarrow> ufcs_class \<Rightarrow> ufcs_class option" where
  "ufcs_state_handshake_handle e s =
     do { (rc, s1) \<leftarrow> pe_run handshake_retry handshake_recv (Goto_retry 1) (ufcs_free_event e s); Some s1 }"

section \<open>Requests with one answer\<close>

text \<open>The handlers for the output capabilities, the source, device and error information and the
  watchdog have the same text up to the message sent, the refusal it may get and the answer. The
  local is \<^verbatim>\<open>soft_reset\<close>.\<close>

record exchange =
  x_send :: "ufcs_class \<Rightarrow> (rc \<times> ufcs_class) option"
  x_type :: ufcs_msg_type
  x_cmd :: u8
  x_reply :: ufcs_event_type
  x_needs_msg :: bool
  x_take :: "ufcs_msg option \<Rightarrow> ufcs_class \<Rightarrow> ufcs_class"

definition x_err :: "ufcs_event option \<Rightarrow> ufcs_class \<Rightarrow> (bool pe_goto \<times> ufcs_class) option" where
  "x_err eo s = Some (Return_rc 0, pe_error eo (stop_sender_response_timer s))"

definition x_exit :: "ufcs_event \<Rightarrow> ufcs_class \<Rightarrow> (bool pe_goto \<times> ufcs_class) option" where
  "x_exit e s =
     Some (Return_rc 0,
           complete_request ((ufcs_free_event e (stop_sender_response_timer s))
             \<lparr>st_curr := PE_STATE_IDEL, st_err := - EAGAIN\<rparr>))"

definition x_retry :: "exchange \<Rightarrow> bool \<Rightarrow> ufcs_class \<Rightarrow> (bool pe_goto \<times> ufcs_class) option" where
  "x_retry x soft_reset s =
     do { (rc, s1) \<leftarrow> x_send x s;
          if rc < 0 then x_err None s1
          else Some (Goto_re_recv soft_reset, start_sender_response_timer s1) }"

definition x_refused ::
  "exchange \<Rightarrow> bool \<Rightarrow> ufcs_event \<Rightarrow> ufcs_msg \<Rightarrow> ufcs_class \<Rightarrow> (bool pe_goto \<times> ufcs_class) option" where
  "x_refused x soft_reset e msg s =
     (let rc = ufcs_check_refuse_msg msg (x_type x) (x_cmd x)
      in if rc \<ge> 0 then Some (Goto_re_recv soft_reset, ufcs_free_event e s)
         else if rc \<noteq> - EAGAIN then x_exit e s
         else if soft_reset then x_err (Some e) s
         else do { (rc', s1) \<leftarrow> ufcs_send_ctrl_msg run_worker CTRL_MSG_SOFT_RESET False
                                  (stop_sender_response_timer s);
                   Some (Goto_retry True, ufcs_free_event e s1) })"

definition x_recv :: "exchange \<Rightarrow> bool \<Rightarrow> ufcs_class \<Rightarrow> (bool pe_goto \<times> ufcs_class) option" where
  "x_recv x soft_reset s =
     do { (eo, s1) \<leftarrow> ufcs_get_next_event s;
          case eo of
            None \<Rightarrow> Some (if ev_exit s1 then (Return_rc 0, ufcs_exit_sm_work s1)
                          else (Goto_re_recv soft_reset, s1))
          | Some e \<Rightarrow>
              (if ev_type e = UFCS_EVENT_RECV_REFUSE
               then (case ev_msg e of
                       None \<Rightarrow> Some (Goto_re_recv soft_reset, ufcs_free_event e s1)
                     | Some msg \<Rightarrow> x_refused x soft_reset e msg s1)
               else if ev_type e = UFCS_EVENT_TIMEOUT then x_exit e s1
               else if ev_type e = x_reply x
               then (if x_needs_msg x \<and> ev_msg e = None
                     then Some (Goto_re_recv soft_reset, ufcs_free_event e s1)
                     else Some (Return_rc 0,
                            ufcs_free_event e ((complete_request
                              (x_take x (ev_msg e) (stop_sender_response_timer s1)))
                                \<lparr>st_curr := PE_STATE_IDEL\<rparr>)))
               else if ev_type e = UFCS_EVENT_RECV_SOFT_RESET
               then Some (Return_rc 0, (stop_sender_response_timer s1)\<lparr>st_curr := PE_STATE_SOFT_RESET\<rparr>)
               else if ev_msg e \<noteq> None then x_err (Some e) s1
               else Some (Goto_re_recv soft_reset, ufcs_free_event e s1)) }"

definition x_run :: "exchange \<Rightarrow> ufcs_class \<Rightarrow> ufcs_class option" where
  "x_run x s = do { (rc, s1) \<leftarrow> pe_run (x_retry x) (x_recv x) (Goto_retry False) s; Some s1 }"

definition ctrl_exchange ::
  "ufcs_ctrl_msg_type \<Rightarrow> ufcs_event_type \<Rightarrow> (ufcs_msg \<Rightarrow> ufcs_class \<Rightarrow> ufcs_class) \<Rightarrow> exchange" where
  "ctrl_exchange c reply take_msg =
     \<lparr>x_send = ufcs_send_ctrl_msg run_worker c True, x_type = UFCS_CTRL_MSG, x_cmd = ctrl_code c,
      x_reply = reply, x_needs_msg = True,
      x_take = (\<lambda>m s. case m of Some msg \<Rightarrow> take_msg msg s | None \<Rightarrow> s)\<rparr>"

definition take_output_cap :: "ufcs_msg \<Rightarrow> ufcs_class \<Rightarrow> ufcs_class" where
  "take_output_cap msg s =
     (let (n, xs) = take_words (pdo_data s) (map (dm_u64 (data_msg msg)) [0..<UFCS_OUTPUT_MODE_MAX])
      in s\<lparr>pdo_num := n, pdo_data := xs\<rparr>)"

definition ufcs_state_output_cap_handle :: "ufcs_event \<Rightarrow> ufcs_class \<Rightarrow> ufcs_class option" where
  "ufcs_state_output_cap_handle e s =
     x_run (ctrl_exchange CTRL_MSG_GET_OUTPUT_CAPABILITIES UFCS_EVENT_RECV_OUTPUT_CAP take_output_cap)
       (ufcs_free_event e s)"

definition ufcs_state_get_src_info_handle :: "ufcs_event \<Rightarrow> ufcs_class \<Rightarrow> ufcs_class option" where
  "ufcs_state_get_src_info_handle e s =
     x_run (ctrl_exchange CTRL_MSG_GET_SOURCE_INFO UFCS_EVENT_RECV_SOURCE_INFO
              (\<lambda>msg s. s\<lparr>src_info := dm_u64 (data_msg msg) 0\<rparr>))
       (ufcs_free_event e s)"

definition UFCS_TEST_MODE_DEV_VND :: u64 where "UFCS_TEST_MODE_DEV_VND = 0xffff"
definition UFCS_TEST_MODE_IC_VND :: u64 where "UFCS_TEST_MODE_IC_VND = 0xffff"

definition take_dev_info :: "ufcs_msg \<Rightarrow> ufcs_class \<Rightarrow> ufcs_class" where
  "take_dev_info msg s =
     (let s1 = s\<lparr>dev_info := dm_u64 (data_msg msg) 0\<rparr>
      in if UFCS_DEVICE_INFO_DEV_VENDOR (dev_info s1) = UFCS_TEST_MODE_DEV_VND \<and>
            UFCS_DEVICE_INFO_IC_VENDOR (dev_info s1) = UFCS_TEST_MODE_IC_VND
         then emit Io_baudrate_end_check_config (emit (Io_watchdog_config 0)
                (ufcs_send_state UFCS_NOTIFY_TEST_MODE_CHANGED (s1\<lparr>test_mode := True\<rparr>)))
         else s1)"

definition ufcs_state_get_dev_info_handle :: "ufcs_event \<Rightarrow> ufcs_class \<Rightarrow> ufcs_class option" where
  "ufcs_state_get_dev_info_handle e s =
     x_run (ctrl_exchange CTRL_MSG_GET_DEVICE_INFO UFCS_EVENT_RECV_DEVICE_INFO take_dev_info)
       (ufcs_free_event e s)"

definition ufcs_state_get_error_info_handle :: "ufcs_event \<Rightarrow> ufcs_class \<Rightarrow> ufcs_class option" where
  "ufcs_state_get_error_info_handle e s =
     x_run (ctrl_exchange CTRL_MSG_GET_ERROR_INFO UFCS_EVENT_RECV_ERROR_INFO
              (\<lambda>msg s. s\<lparr>err_info := dm_u32 (data_msg msg) 0\<rparr>))
       (ufcs_free_event e s)"

text \<open>An event without its data is answered with \<^verbatim>\<open>-EINVAL\<close>.\<close>

definition pe_no_data :: "ufcs_event \<Rightarrow> ufcs_class \<Rightarrow> ufcs_class" where
  "pe_no_data e s =
     (ufcs_free_event e (complete_request (s\<lparr>st_err := - EINVAL\<rparr>)))\<lparr>st_curr := PE_STATE_IDEL\<rparr>"

definition config_wd_exchange :: "u16 \<Rightarrow> exchange" where
  "config_wd_exchange ms =
     \<lparr>x_send = ufcs_send_data_msg_config_wd_retry run_worker ms, x_type = UFCS_DATA_MSG,
      x_cmd = data_code DATA_MSG_CONFIG_WATCHDOG, x_reply = UFCS_EVENT_RECV_ACCEPT,
      x_needs_msg = False, x_take = (\<lambda>_ s. s)\<rparr>"

definition ufcs_state_config_wd_handle :: "ufcs_event \<Rightarrow> ufcs_class \<Rightarrow> ufcs_class option" where
  "ufcs_state_config_wd_handle e s =
     (case ev_data e of
        Some (Watchdog_data ms) \<Rightarrow> x_run (config_wd_exchange ms) (ufcs_free_event e s)
      | _ \<Rightarrow> Some (pe_no_data e s))"

section \<open>The power request\<close>

record request_locals =
  rl_soft_reset :: bool
  rl_wait_power_ready :: bool

definition request_stop :: "ufcs_class \<Rightarrow> ufcs_class" where
  "request_stop s = stop_power_supply_timer (stop_sender_response_timer s)"

definition request_err :: "ufcs_event option \<Rightarrow> ufcs_class \<Rightarrow> (request_locals pe_goto \<times> ufcs_class) option" where
  "request_err eo s = Some (Return_rc 0, pe_error eo (request_stop s))"

definition request_exit :: "ufcs_event \<Rightarrow> ufcs_class \<Rightarrow> (request_locals pe_goto \<times> ufcs_class) option" where
  "request_exit e s =
     Some (Return_rc 0,
           complete_request ((ufcs_free_event e (request_stop s))
             \<lparr>st_curr := PE_STATE_IDEL, st_err := - EAGAIN\<rparr>))"

definition request_retry ::
  "u8 \<times> u32 \<times> u32 \<Rightarrow> request_locals \<Rightarrow> ufcs_class \<Rightarrow> (request_locals pe_goto \<times> ufcs_class) option" where
  "request_retry r v s =
     (case r of (pdo_index, pdo_vol, pdo_curr) \<Rightarrow>
        do { (rc, s1) \<leftarrow> ufcs_send_data_msg_request_retry run_worker pdo_index pdo_vol pdo_curr s;
             if rc < 0 then request_err None s1
             else Some (Goto_re_recv v, start_sender_response_timer s1) })"

definition request_refused :: "request_locals \<Rightarrow> ufcs_event \<Rightarrow> ufcs_msg \<Rightarrow> ufcs_class \<Rightarrow>
    (request_locals pe_goto \<times> ufcs_class) option" where
  "request_refused v e msg s =
     (let rc = ufcs_check_refuse_msg msg UFCS_DATA_MSG (data_code DATA_MSG_REQUEST)
      in if rc \<ge> 0 then Some (Goto_re_recv v, ufcs_free_event e s)
         else if rc \<noteq> - EAGAIN then request_exit e s
         else if rl_soft_reset v then request_err (Some e) s
         else do { (rc', s1) \<leftarrow> ufcs_send_ctrl_msg run_worker CTRL_MSG_SOFT_RESET False
                                  (stop_sender_response_timer s);
                   Some (Goto_retry (v\<lparr>rl_soft_reset := True\<rparr>), ufcs_free_event e s1) })"

definition request_recv :: "request_locals \<Rightarrow> ufcs_class \<Rightarrow> (request_locals pe_goto \<times> ufcs_class) option" where
  "request_recv v s =
     do { (eo, s1) \<leftarrow> ufcs_get_next_event s;
          case eo of
            None \<Rightarrow> Some (if ev_exit s1 then (Return_rc 0, ufcs_exit_sm_work s1) else (Goto_re_recv v, s1))
          | Some e \<Rightarrow>
              (if ev_type e = UFCS_EVENT_RECV_REFUSE
               then (case ev_msg e of
                       None \<Rightarrow> Some (Goto_re_recv v, ufcs_free_event e s1)
                     | Some msg \<Rightarrow> request_refused v e msg s1)
               else if ev_type e = UFCS_EVENT_TIMEOUT then request_exit e s1
               else if ev_type e = UFCS_EVENT_RECV_ACCEPT
               then Some (Goto_re_recv (v\<lparr>rl_wait_power_ready := True\<rparr>),
                          ufcs_free_event e (start_power_supply_timer (stop_sender_response_timer s1)))
               else if ev_type e = UFCS_EVENT_RECV_POWER_READY
               then Some (Return_rc 0,
                          ufcs_free_event e ((complete_request (stop_power_supply_timer s1))
                            \<lparr>st_curr := PE_STATE_IDEL\<rparr>))
               else if ev_type e = UFCS_EVENT_RECV_SOFT_RESET
               then Some (Return_rc 0, (request_stop s1)\<lparr>st_curr := PE_STATE_SOFT_RESET\<rparr>)
               else if ev_msg e \<noteq> None then request_err (Some e) s1
               else Some (Goto_re_recv v, ufcs_free_event e s1)) }"

definition request_fields :: "u64 \<Rightarrow> u8 \<times> u32 \<times> u32" where
  "request_fields r =
     (ucast (UFCS_REQUEST_OUTPUT_MODE_INDEX r), ucast (UFCS_REQUEST_VOL r), ucast (UFCS_REQUEST_CURR r))"

definition ufcs_state_request_handle :: "ufcs_event \<Rightarrow> ufcs_class \<Rightarrow> ufcs_class option" where
  "ufcs_state_request_handle e s =
     (case ev_data e of
        Some (Request_data r) \<Rightarrow>
          do { (rc, s1) \<leftarrow> pe_run (request_retry (request_fields r)) request_recv
                 (Goto_retry \<lparr>rl_soft_reset = False, rl_wait_power_ready = False\<rparr>) (ufcs_free_event e s);
               Some s1 }
      | _ \<Rightarrow> Some (pe_no_data e s))"

section \<open>Answers to the adapter\<close>

text \<open>C's division truncates towards zero, so it is \<^term>\<open>(sdiv)\<close>.\<close>

definition sink_info_word :: "(int option \<times> int option \<times> int option) option \<Rightarrow> u64" where
  "sink_info_word psy =
     (case psy of
        None \<Rightarrow> UFCS_SINK_INFO_DATA UFCS_SINK_INFO_INVALID_TEMP UFCS_SINK_INFO_INVALID_TEMP 0 0
      | Some (temp, volt, cur) \<Rightarrow>
          UFCS_SINK_INFO_DATA
            (case temp of None \<Rightarrow> UFCS_SINK_INFO_INVALID_TEMP | Some t \<Rightarrow> t sdiv 10)
            UFCS_SINK_INFO_INVALID_TEMP
            (case volt of None \<Rightarrow> 0 | Some v \<Rightarrow> v sdiv 1000)
            (case cur of None \<Rightarrow> 0 | Some c \<Rightarrow> \<bar>c sdiv 1000\<bar>))"

definition ufcs_state_send_sink_info_handle :: "ufcs_event \<Rightarrow> ufcs_class \<Rightarrow> ufcs_class option" where
  "ufcs_state_send_sink_info_handle e s =
     do { (rc, s1) \<leftarrow> ufcs_send_data_msg_sink_info run_worker (sink_info_word (env_battery s)) s;
          Some (ufcs_free_event e (s1\<lparr>st_curr := PE_STATE_IDEL\<rparr>)) }"

definition UFCS_SW_VERSION :: u64 where "UFCS_SW_VERSION = 1"
definition UFCS_HW_VERSION :: u64 where "UFCS_HW_VERSION = 1"

definition ufcs_send_dev_info :: "ufcs_class \<Rightarrow> (rc \<times> ufcs_class) option" where
  "ufcs_send_dev_info s =
     ufcs_send_data_msg_dev_info run_worker
       (UFCS_DEVICE_INFO_DATA (ucast UFCS_OPLUS_DEV_ID) (ucast (ic_vendor_id (config s)))
          UFCS_HW_VERSION UFCS_SW_VERSION) s"

definition ufcs_state_send_dev_info_handle :: "ufcs_event \<Rightarrow> ufcs_class \<Rightarrow> ufcs_class option" where
  "ufcs_state_send_dev_info_handle e s =
     do { (rc, s1) \<leftarrow> ufcs_send_dev_info s;
          Some (ufcs_free_event e (s1\<lparr>st_curr := PE_STATE_IDEL\<rparr>)) }"

definition ufcs_state_send_error_info_handle :: "ufcs_event \<Rightarrow> ufcs_class \<Rightarrow> ufcs_class option" where
  "ufcs_state_send_error_info_handle e s =
     do { (rc, s1) \<leftarrow> ufcs_send_data_msg_err_info run_worker 0 s;
          Some (ufcs_free_event e (s1\<lparr>st_curr := PE_STATE_IDEL\<rparr>)) }"

definition ufcs_state_power_change_handle :: "ufcs_event \<Rightarrow> ufcs_class \<Rightarrow> ufcs_class option" where
  "ufcs_state_power_change_handle e s =
     (let s1 = (case ev_msg e of
                  None \<Rightarrow> s
                | Some msg \<Rightarrow>
                    ufcs_send_state UFCS_NOTIFY_POWER_CHANGE
                      (s\<lparr>pwr_change_info := map (dm_u32 (data_msg msg)) [0..<UFCS_OUTPUT_MODE_MAX],
                         power_changed := True\<rparr>))
      in Some (ufcs_free_event e (s1\<lparr>st_curr := PE_STATE_IDEL\<rparr>)))"

section \<open>Authentication\<close>

definition ufcs_check_verify_response_msg :: "ufcs_msg \<Rightarrow> ufcs_class \<Rightarrow> ufcs_class" where
  "ufcs_check_verify_response_msg msg s =
     (let (src, digest) = ufcs_get_encrypt_data (source_data s) (vr_random_data (data_msg msg))
            (verify_random s) (verify_auth s) (replicate UFCS_VERIFY_ENCRYPTED_DATA_SIZE 0)
      in complete_request
           (s\<lparr>source_data := src, verify_pass := (vr_encrypted_data (data_msg msg) = digest), st_err := 0\<rparr>))"

record verify_locals =
  vl_soft_reset :: bool
  vl_wait_get_dev_info :: bool
  vl_wait_verify_response :: bool

definition verify_stop :: "ufcs_class \<Rightarrow> ufcs_class" where
  "verify_stop s = stop_wait_msg_timer (stop_sender_response_timer s)"

definition verify_err :: "ufcs_event option \<Rightarrow> ufcs_class \<Rightarrow> (verify_locals pe_goto \<times> ufcs_class) option" where
  "verify_err eo s = Some (Return_rc 0, pe_error eo (verify_stop s))"

definition verify_exit :: "ufcs_event \<Rightarrow> ufcs_class \<Rightarrow> (verify_locals pe_goto \<times> ufcs_class) option" where
  "verify_exit e s =
     Some (Return_rc 0,
           complete_request ((ufcs_free_event e (verify_stop s))
             \<lparr>st_curr := PE_STATE_IDEL, st_err := - EAGAIN\<rparr>))"

definition verify_retry ::
  "u8 \<Rightarrow> bytes \<Rightarrow> verify_locals \<Rightarrow> ufcs_class \<Rightarrow> (verify_locals pe_goto \<times> ufcs_class) option" where
  "verify_retry key_index random v s =
     do { (rc, s1) \<leftarrow> ufcs_send_data_msg_verify_request_retry run_worker key_index random s;
          if rc < 0 then verify_err None s1
          else Some (Goto_re_recv v, start_sender_response_timer s1) }"

definition verify_refused :: "verify_locals \<Rightarrow> ufcs_event \<Rightarrow> ufcs_msg \<Rightarrow> ufcs_class \<Rightarrow>
    (verify_locals pe_goto \<times> ufcs_class) option" where
  "verify_refused v e msg s =
     (let rc = ufcs_check_refuse_msg msg UFCS_DATA_MSG (data_code DATA_MSG_VERIFY_REQUEST)
      in if rc \<ge> 0 then Some (Goto_re_recv v, ufcs_free_event e s)
         else if rc \<noteq> - EAGAIN then verify_exit e s
         else if vl_soft_reset v then verify_err (Some e) s
         else do { (rc', s1) \<leftarrow> ufcs_send_ctrl_msg run_worker CTRL_MSG_SOFT_RESET False
                                  (stop_sender_response_timer s);
                   Some (Goto_retry (v\<lparr>vl_soft_reset := True\<rparr>), ufcs_free_event e s1) })"

definition verify_send_dev_info :: "verify_locals \<Rightarrow> ufcs_event \<Rightarrow> ufcs_class \<Rightarrow>
    (verify_locals pe_goto \<times> ufcs_class) option" where
  "verify_send_dev_info v e s =
     do { (rc, s1) \<leftarrow> ufcs_send_dev_info (stop_wait_msg_timer s);
          if rc < 0 then verify_err (Some e) s1
          else Some (Goto_re_recv (v\<lparr>vl_wait_get_dev_info := False, vl_wait_verify_response := True\<rparr>),
                     ufcs_free_event e (start_wait_msg_timer s1)) }"

definition verify_recv :: "verify_locals \<Rightarrow> ufcs_class \<Rightarrow> (verify_locals pe_goto \<times> ufcs_class) option" where
  "verify_recv v s =
     do { (eo, s1) \<leftarrow> ufcs_get_next_event s;
          case eo of
            None \<Rightarrow> Some (if ev_exit s1 then (Return_rc 0, ufcs_exit_sm_work s1) else (Goto_re_recv v, s1))
          | Some e \<Rightarrow>
              (if ev_type e = UFCS_EVENT_RECV_REFUSE
               then (case ev_msg e of
                       None \<Rightarrow> Some (Goto_re_recv v, ufcs_free_event e s1)
                     | Some msg \<Rightarrow> verify_refused v e msg s1)
               else if ev_type e = UFCS_EVENT_TIMEOUT then verify_exit e s1
               else if ev_type e = UFCS_EVENT_RECV_ACCEPT
               then Some (Goto_re_recv (v\<lparr>vl_wait_get_dev_info := True, vl_wait_verify_response := False\<rparr>),
                          ufcs_free_event e (start_wait_msg_timer (stop_sender_response_timer s1)))
               else if ev_type e = UFCS_EVENT_RECV_GET_DEVICE_INFO then verify_send_dev_info v e s1
               else if ev_type e = UFCS_EVENT_RECV_VERIFY_RESPONSE
               then (case ev_msg e of
                       None \<Rightarrow> Some (Goto_re_recv v, ufcs_free_event e s1)
                     | Some msg \<Rightarrow>
                         Some (Return_rc 0,
                               ufcs_free_event e ((ufcs_check_verify_response_msg msg (stop_wait_msg_timer s1))
                                 \<lparr>st_curr := PE_STATE_IDEL\<rparr>)))
               else if ev_type e = UFCS_EVENT_RECV_SOFT_RESET
               then Some (Return_rc 0, (stop_sender_response_timer s1)\<lparr>st_curr := PE_STATE_SOFT_RESET\<rparr>)
               else if ev_msg e \<noteq> None then verify_err (Some e) s1
               else Some (Goto_re_recv v, ufcs_free_event e s1)) }"

definition ufcs_state_verify_request_handle :: "ufcs_event \<Rightarrow> ufcs_class \<Rightarrow> ufcs_class option" where
  "ufcs_state_verify_request_handle e s =
     (case ev_data e of
        Some (Verify_data key_index random) \<Rightarrow>
          do { (rc, s1) \<leftarrow> pe_run (verify_retry key_index random) verify_recv
                 (Goto_retry \<lparr>vl_soft_reset = False, vl_wait_get_dev_info = False,
                    vl_wait_verify_response = False\<rparr>)
                 (ufcs_free_event e (s\<lparr>verify_random := random\<rparr>));
               Some s1 }
      | _ \<Rightarrow> Some (pe_no_data e s))"

section \<open>Cable and vendor information\<close>

definition pe_protocol_error :: "rc \<Rightarrow> ufcs_class \<Rightarrow> ufcs_class" where
  "pe_protocol_error rc s = complete_request (s\<lparr>st_err := rc\<rparr>)"

definition ufcs_state_get_cable_info_handle :: "ufcs_event \<Rightarrow> ufcs_class \<Rightarrow> ufcs_class option" where
  "ufcs_state_get_cable_info_handle e s =
     do { (rc, s1) \<leftarrow> ufcs_pe_start_cable_detect (ufcs_free_event e s);
          if rc > 0 then Some (ufcs_exit_sm_work (s1\<lparr>start_cable_detect := False\<rparr>))
          else if rc = - EPROTO then Some (pe_protocol_error rc (s1\<lparr>start_cable_detect := False\<rparr>))
          else if rc < 0 then Some (snd (ufcs_source_hard_reset (s1\<lparr>start_cable_detect := False\<rparr>)))
          else do { (rc, s2) \<leftarrow> ufcs_pe_get_cable_info s1;
                    if rc > 0 then Some (ufcs_exit_sm_work (s2\<lparr>start_cable_detect := False\<rparr>))
                    else if rc = 0
                    then do { (rc, s3) \<leftarrow> ufcs_pe_end_cable_detect (complete_request s2);
                              Some (s3\<lparr>start_cable_detect := False, st_curr := PE_STATE_IDEL\<rparr>) }
                    else if rc = - EPROTO
                    then Some (pe_protocol_error rc (s2\<lparr>start_cable_detect := False\<rparr>))
                    else do { (rc, s3) \<leftarrow> ufcs_pe_end_cable_detect s2;
                              (rc, s4) \<leftarrow> ufcs_pe_detect_cable_info (s3\<lparr>start_cable_detect := False\<rparr>);
                              if rc > 0 then Some (ufcs_exit_sm_work s4)
                              else if rc = - EPROTO then Some (pe_protocol_error rc s4)
                              else if rc < 0 then Some (snd (ufcs_source_hard_reset s4))
                              else Some (complete_request (s4\<lparr>st_curr := PE_STATE_IDEL\<rparr>)) } } }"

definition vendor_handle :: "(int \<times> ufcs_class) option \<Rightarrow> ufcs_class option" where
  "vendor_handle r =
     do { (rc, s1) \<leftarrow> r;
          if rc > 0 then Some (ufcs_exit_sm_work s1)
          else if rc = - EPROTO then Some (pe_protocol_error rc s1)
          else if rc < 0 then Some (snd (ufcs_source_hard_reset s1))
          else Some (complete_request (s1\<lparr>st_curr := PE_STATE_IDEL\<rparr>)) }"

definition ufcs_state_get_emark_info_handle :: "ufcs_event \<Rightarrow> ufcs_class \<Rightarrow> ufcs_class option" where
  "ufcs_state_get_emark_info_handle e s =
     vendor_handle (ufcs_pe_oplus_get_emark_info (ufcs_free_event e s))"

definition ufcs_state_get_power_info_handle :: "ufcs_event \<Rightarrow> ufcs_class \<Rightarrow> ufcs_class option" where
  "ufcs_state_get_power_info_handle e s =
     vendor_handle (ufcs_pe_oplus_get_power_info (ufcs_free_event e s))"

section \<open>Test requests\<close>

definition ufcs_pe_test_request_handle :: "u16 \<Rightarrow> ufcs_class \<Rightarrow> ufcs_class" where
  "ufcs_pe_test_request_handle request s = s\<lparr>test_request := request, test_work := True\<rparr>"

text \<open>The handler reads through \<^verbatim>\<open>event->msg\<close> without a check; \<open>None\<close> is the fault.\<close>

definition ufcs_state_test_request_handle :: "ufcs_event \<Rightarrow> ufcs_class \<Rightarrow> ufcs_class option" where
  "ufcs_state_test_request_handle e s =
     (case ev_msg e of
        None \<Rightarrow> None
      | Some msg \<Rightarrow>
          Some ((ufcs_pe_test_request_handle (dm_u16 (data_msg msg)) (ufcs_free_event e s))
            \<lparr>st_curr := PE_STATE_IDEL\<rparr>))"

section \<open>The state machine thread\<close>

text \<open>The handler table; the two states without an entry have a null pointer.\<close>

fun pe_handler :: "ufcs_pe_state \<Rightarrow> ufcs_event \<Rightarrow> ufcs_class \<Rightarrow> ufcs_class option" where
  "pe_handler PE_STATE_IDEL = ufcs_state_idel_handle"
| "pe_handler PE_STATE_SOFT_RESET = ufcs_state_soft_reset_handle"
| "pe_handler PE_STATE_HW_RESET = ufcs_state_hw_reset_handle"
| "pe_handler PE_STATE_SEND_EXIT = ufcs_state_send_exit_handle"
| "pe_handler PE_STATE_RECV_EXIT = ufcs_state_recv_exit_handle"
| "pe_handler PE_STATE_HANDSHAKE = ufcs_state_handshake_handle"
| "pe_handler PE_STATE_OUTPUT_CAP = ufcs_state_output_cap_handle"
| "pe_handler PE_STATE_REQUEST = ufcs_state_request_handle"
| "pe_handler PE_STATE_GET_SOURCE_INFO = ufcs_state_get_src_info_handle"
| "pe_handler PE_STATE_SEND_SINK_INFO = ufcs_state_send_sink_info_handle"
| "pe_handler PE_STATE_GET_CABLE_INFO = ufcs_state_get_cable_info_handle"
| "pe_handler PE_STATE_GET_DEVICE_INFO = ufcs_state_get_dev_info_handle"
| "pe_handler PE_STATE_GET_ERROR_INFO = ufcs_state_get_error_info_handle"
| "pe_handler PE_STATE_SEND_DEVICE_INFO = ufcs_state_send_dev_info_handle"
| "pe_handler PE_STATE_SEND_ERROR_INFO = ufcs_state_send_error_info_handle"
| "pe_handler PE_STATE_CONFIG_WD = ufcs_state_config_wd_handle"
| "pe_handler PE_STATE_VERIFY_REQUEST = ufcs_state_verify_request_handle"
| "pe_handler PE_STATE_POWER_CHANGE = ufcs_state_power_change_handle"
| "pe_handler PE_STATE_GET_EMARK_INFO = ufcs_state_get_emark_info_handle"
| "pe_handler PE_STATE_GET_POWER_INFO = ufcs_state_get_power_info_handle"
| "pe_handler PE_STATE_TEST_REQUEST = ufcs_state_test_request_handle"
| "pe_handler _ = (\<lambda>_ _. None)"

text \<open>One round of \<^verbatim>\<open>ufcs_sm_task\<close> after the thread was woken: fetch an event and hand it to the
  handler of the current state, or leave the loop on exit. The result says whether the thread goes
  on with the next event.\<close>

definition sm_round :: "ufcs_class \<Rightarrow> (bool \<times> ufcs_class) option" where
  "sm_round s =
     do { (eo, s1) \<leftarrow> ufcs_get_next_event s;
          case eo of
            None \<Rightarrow>
              (if \<not> ev_exit s1 then Some (True, s1)
               else Some (False, (ufcs_exit_sm_work s1)\<lparr>pe_locked := False\<rparr>))
          | Some e \<Rightarrow>
              do { s2 \<leftarrow> pe_handler (st_curr s1) e s1;
                   let s3 = (if st_curr s2 = PE_STATE_IDEL then s2\<lparr>pe_locked := False\<rparr> else s2);
                   Some (\<not> ev_exit s3, s3) } }"

definition ufcs_policy_engine_init :: "ufcs_class \<Rightarrow> ufcs_class" where
  "ufcs_policy_engine_init s = s\<lparr>sm_task_wakeup := False\<rparr>"

section \<open>Baud rates\<close>

text \<open>The fallback to lower baud rates never happens: whatever rates follow the first, the
  handshake sets the first one only, because it goes on after \<^verbatim>\<open>-EBUSY\<close> and sending never
  returns that.\<close>

theorem baud_rate_fallback_is_dead: "try_baud_rates (b # bs) s = try_baud_rates [b] s"
proof (cases "ufcs_send_ctrl_msg run_worker CTRL_MSG_PING False (emit (Io_set_baud_rate b) s)")
  case (Some r)
  then show ?thesis using send_ctrl_result by (cases r) fastforce
qed simp

section \<open>Timers that outlive their exchange\<close>

lemma next_event_head:
  "events s = e # es \<Longrightarrow> ev_type e \<noteq> UFCS_EVENT_SEND_REFUSE \<Longrightarrow> ufcs_get_next_event s = Some (Some e, s)"
  by (subst ufcs_get_next_event.simps) simp

text \<open>Two returns leave a timer as it was: a power-ready without a preceding accept ends the
  power request with the sender-response timer still armed, and a soft reset during the
  authentication ends it with the wait-message timer still armed. The expiration is then taken
  for a timeout of the next exchange.\<close>

theorem stale_timers:
  assumes "events s = e # es"
  shows "(ev_type e = UFCS_EVENT_RECV_POWER_READY \<longrightarrow>
      (\<exists>s'. request_recv v s = Some (Return_rc 0, s') \<and> st_curr s' = PE_STATE_IDEL \<and>
        timer_on s' SENDER_RESPONSE_TIMER = timer_on s SENDER_RESPONSE_TIMER)) \<and>
    (ev_type e = UFCS_EVENT_RECV_SOFT_RESET \<longrightarrow>
      (\<exists>s'. verify_recv u s = Some (Return_rc 0, s') \<and> st_curr s' = PE_STATE_SOFT_RESET \<and>
        timer_on s' WAIT_MSG_TIMER = timer_on s WAIT_MSG_TIMER))"
  using next_event_head [OF assms]
  by (auto simp: request_recv_def verify_recv_def timer_defs stop_event_timer_def hrtimer_cancel_def Let_def)

definition pending_event :: "ufcs_event_type \<Rightarrow> ufcs_msg option \<Rightarrow> ufcs_event" where
  "pending_event t m = \<lparr>ev_id = 0, ev_type = t, ev_msg = m, ev_data = None\<rparr>"

lemma stale_timers_witness:
  "\<exists>s'. request_recv \<lparr>rl_soft_reset = False, rl_wait_power_ready = False\<rparr>
      (start_sender_response_timer ((connected_class (demo_config False) [])
        \<lparr>events := [pending_event UFCS_EVENT_RECV_POWER_READY None]\<rparr>)) = Some (Return_rc 0, s') \<and>
    timer_on s' SENDER_RESPONSE_TIMER"
proof -
  let ?s = "start_sender_response_timer ((connected_class (demo_config False) [])
      \<lparr>events := [pending_event UFCS_EVENT_RECV_POWER_READY None]\<rparr>)"
  have "events ?s = [pending_event UFCS_EVENT_RECV_POWER_READY None]" and "timer_on ?s SENDER_RESPONSE_TIMER"
    by (simp_all add: connected_class_def start_sender_response_timer_def start_event_timer_def
        kzalloc_def hrtimer_start_def)
  then show ?thesis
    using stale_timers [of ?s "pending_event UFCS_EVENT_RECV_POWER_READY None" "[]"]
    by (auto simp: pending_event_def)
qed

section \<open>Exit while a message is being sent\<close>

text \<open>A handler that answers the adapter holds its event while it sends. When the connection is
  torn down during that send, the event is freed with the whole list and then freed again by the
  handler: the same object is freed twice.\<close>

theorem exit_during_answer_frees_twice:
  "map_option freed (ufcs_state_send_sink_info_handle
      (pending_event UFCS_EVENT_RECV_GET_SINK_INFO (Some zero_msg))
      ((connected_class (demo_config False)
          [In_exit, In_timer MSG_TRANS_DELAY_TIMER, In_timer ACK_RECEIVE_TIMER])
        \<lparr>events := [pending_event UFCS_EVENT_RECV_GET_SINK_INFO (Some zero_msg)], next_id := 1\<rparr>)) =
   Some [0, 0]"
  by code_simp

text \<open>An exit request that arrives while the thread waits for an event ends the round. One that
  arrives while the thread refuses an unsupported message is lost: the completion is reset before
  the thread waits again, and the thread sleeps on although the exit flag is set.\<close>

theorem exit_wakeup_lost:
  "map_option fst (sm_round (connected_class (demo_config False) [In_exit])) = Some False \<and>
   map_option fst (sm_round
      ((connected_class (demo_config False)
          [In_exit, In_timer MSG_TRANS_DELAY_TIMER, In_timer ACK_RECEIVE_TIMER])
        \<lparr>events := [pending_event UFCS_EVENT_SEND_REFUSE (Some zero_msg)], next_id := 1\<rparr>)) = None"
  by code_simp

end
