(* ===== verification/Ufcs_Intf.thy ===== *)
theory Ufcs_Intf
  imports Ufcs_Policy_Engine
begin

text \<open>
  The interface of the class device, \<^verbatim>\<open>ufcs_intf.c\<close>: external requests are turned into events
  for the state machine and wait for its acknowledgement, one at a time; the voltage and current
  of a request select a power data object. The last section has the test requests of
  \<^verbatim>\<open>ufcs_pe_test.c\<close>, which use the same functions from a work item.
\<close>

section \<open>Requests to the state machine\<close>

text \<open>While a caller waits for \<^verbatim>\<open>pe_lock\<close> or for the acknowledgement the state machine thread
  runs; the thread sleeps after a round that reports the exit.\<close>

partial_function (option) lock_pe :: "ufcs_class \<Rightarrow> ufcs_class option" where
  "lock_pe s =
     (if \<not> pe_locked s then Some s
      else do { (go, s1) \<leftarrow> sm_round s;
                if go then lock_pe s1 else if pe_locked s1 then None else Some s1 })"

declare lock_pe.simps [code]

partial_function (option) wait_request_ack :: "ufcs_class \<Rightarrow> ufcs_class option" where
  "wait_request_ack s =
     (if completed (request_ack s) then Some (s\<lparr>request_ack := completion_taken (request_ack s)\<rparr>)
      else do { (go, s1) \<leftarrow> sm_round s;
                if go then wait_request_ack s1
                else if completed (request_ack s1)
                then Some (s1\<lparr>request_ack := completion_taken (request_ack s1)\<rparr>) else None })"

declare wait_request_ack.simps [code]

text \<open>The part the external requests share: allocate the event, take the lock, check that there
  still is a connection, push the event and wait. The result is the error of the engine.\<close>

definition external_request ::
  "ufcs_event_type \<Rightarrow> event_data option \<Rightarrow> (ufcs_class \<Rightarrow> ufcs_class) \<Rightarrow> ufcs_class \<Rightarrow> (rc \<times> ufcs_class) option"
where
  "external_request t d prepare s =
     (let (ok, s1) = kzalloc s
      in if \<not> ok then Some (- ENOMEM, s1)
         else do { s2 \<leftarrow> lock_pe s1;
                   let s3 = (prepare s2)\<lparr>request_ack := 0\<rparr>;
                   if \<not> handshake_success s3 then Some (- EINVAL, s3)
                   else do { s4 \<leftarrow> wait_request_ack (ufcs_push_event t None d s3);
                             Some (st_err s4, s4) } })"

section \<open>Power requests\<close>

text \<open>One power data object is tried. \<^verbatim>\<open>vol_mv\<close> and \<^verbatim>\<open>curr_ma\<close> are C \<^verbatim>\<open>int\<close>s; compared with
  the 64-bit fields of the object they are converted to \<^verbatim>\<open>u64\<close>, compared with
  \<^verbatim>\<open>max_curr\<close> to \<^verbatim>\<open>u32\<close>.\<close>

definition pdo_max_curr :: "ufcs_class \<Rightarrow> nat \<Rightarrow> u32" where
  "pdo_max_curr s i =
     (let pdo = pdo_data s ! i;
          m = (if power_changed s then UFCS_POWER_CHANGE_CURR_MAX (pwr_change_info s ! i) else 0)
      in if m = 0 \<or> ucast m > UFCS_OUTPUT_MODE_CURR_MAX pdo
         then ucast (UFCS_OUTPUT_MODE_CURR_MAX pdo) else m)"

definition pdo_fits :: "ufcs_class \<Rightarrow> int \<Rightarrow> int \<Rightarrow> nat \<Rightarrow> bool" where
  "pdo_fits s vol_mv curr_ma i =
     (let pdo = pdo_data s ! i; vol = (word_of_int vol_mv :: u64); cur = (word_of_int curr_ma :: u64)
      in \<not> vol < UFCS_OUTPUT_MODE_VOL_MIN pdo \<and> \<not> vol > UFCS_OUTPUT_MODE_VOL_MAX pdo \<and>
         \<not> cur < UFCS_OUTPUT_MODE_CURR_MIN pdo \<and>
         \<not> (word_of_int curr_ma :: u32) > pdo_max_curr s i)"

definition ufcs_pdo_select :: "ufcs_class \<Rightarrow> int \<Rightarrow> int \<Rightarrow> int" where
  "ufcs_pdo_select s vol_mv curr_ma =
     (if test_mode s then 1
      else if pdo_num s = 0 then - ENODATA
      else case find (pdo_fits s vol_mv curr_ma) [0..<pdo_num s] of
             Some i \<Rightarrow> int i + 1
           | None \<Rightarrow> - ENODATA)"

definition do_ufcs_pdo_set :: "int \<Rightarrow> int \<Rightarrow> int \<Rightarrow> ufcs_class \<Rightarrow> (rc \<times> ufcs_class) option" where
  "do_ufcs_pdo_set idx vol_mv curr_ma s =
     do { (rc, s1) \<leftarrow> external_request UFCS_EVENT_SEND_REQUEST
              (Some (Request_data (UFCS_REQUEST_DATA (word_of_int idx) (word_of_int vol_mv)
                 (word_of_int curr_ma)))) (\<lambda>s. s) s;
          Some (if rc < 0 then rc else 0, s1) }"

definition ufcs_pdo_set :: "int \<Rightarrow> int \<Rightarrow> ufcs_class \<Rightarrow> (rc \<times> ufcs_class) option" where
  "ufcs_pdo_set vol_mv curr_ma s =
     (if \<not> handshake_success s then Some (- EINVAL, s)
      else let rc = ufcs_pdo_select s vol_mv curr_ma
           in if rc < 0 then Some (rc, s) else do_ufcs_pdo_set rc vol_mv curr_ma s)"

definition ufcs_intf_pdo_set :: "int \<Rightarrow> int \<Rightarrow> ufcs_class \<Rightarrow> (rc \<times> ufcs_class) option" where
  "ufcs_intf_pdo_set vol_mv curr_ma s =
     (if \<not> handshake_success s then Some (- EINVAL, s)
      else let rc = ufcs_pdo_select s vol_mv curr_ma
           in if rc < 0 then Some (rc, s) else do_ufcs_pdo_set rc vol_mv curr_ma s)"

section \<open>Handshake and exit\<close>

definition ufcs_handshake :: "ufcs_class \<Rightarrow> (rc \<times> ufcs_class) option" where
  "ufcs_handshake s =
     (let (ok, s1) = kzalloc (s\<lparr>start_cable_detect := False, exit_ufcs_ack_received := False\<rparr>)
      in if \<not> ok then Some (- ENOMEM, s1)
         else do { let s2 = ufcs_clr_error_flag (emit Io_enable (ufcs_event_reset s1));
                   s3 \<leftarrow> lock_pe (s2\<lparr>sm_task_wakeup := False\<rparr>);
                   s4 \<leftarrow> wait_request_ack
                          ((ufcs_push_event UFCS_EVENT_HANDSHAKE None None (s3\<lparr>request_ack := 0\<rparr>))
                             \<lparr>handshake_success := False\<rparr>);
                   if handshake_success s4 then Some (0, s4) else Some (- EIO, emit Io_disable s4) })"

definition ufcs_send_exit_ufcs_mode :: "ufcs_class \<Rightarrow> (rc \<times> ufcs_class) option" where
  "ufcs_send_exit_ufcs_mode s =
     (if test_mode s then Some (- EBUSY, s)
      else if \<not> handshake_success s then Some (- EINVAL, s)
      else let (ok, s1) = kzalloc s
           in if \<not> ok then Some (- ENOMEM, s1)
              else do { s2 \<leftarrow> lock_pe s1;
                        let s3 = s2\<lparr>request_ack := 0\<rparr>;
                        if \<not> handshake_success s3 then Some (- EINVAL, s3)
                        else do { s4 \<leftarrow> wait_request_ack
                                         (ufcs_push_event UFCS_EVENT_SEND_EXIT_UFCS_MODE None None s3);
                                  let s5 = s4\<lparr>handshake_success := False\<rparr>;
                                  Some (if st_err s5 < 0 then st_err s5 else 0, s5) } })"

definition usb_online :: "ufcs_class \<Rightarrow> bool" where
  "usb_online s = (case env_usb_online s of Some (Some v) \<Rightarrow> v \<noteq> 0 | _ \<Rightarrow> True)"

definition ufcs_force_exit :: "ufcs_class \<Rightarrow> (rc \<times> ufcs_class) option" where
  "ufcs_force_exit s =
     do { s1 \<leftarrow> (if handshake_success s \<and> usb_online s
                 then do { (rc, s') \<leftarrow> ufcs_send_exit_ufcs_mode s;
                           Some (if rc < 0 then snd (ufcs_source_hard_reset s') else s') }
                 else Some s);
          Some (0, force_exit_tail s1) }"

section \<open>Watchdog and information requests\<close>

definition ufcs_config_watchdog :: "u16 \<Rightarrow> ufcs_class \<Rightarrow> (rc \<times> ufcs_class) option" where
  "ufcs_config_watchdog time_ms s =
     (if \<not> handshake_success s then Some (- EINVAL, s)
      else do { (rc, s1) \<leftarrow> external_request UFCS_EVENT_SEND_CONFIG_WD (Some (Watchdog_data time_ms)) (\<lambda>s. s) s;
                Some (if rc < 0 then rc else 0, s1) })"

definition ufcs_intf_config_watchdog :: "u16 \<Rightarrow> ufcs_class \<Rightarrow> (rc \<times> ufcs_class) option" where
  "ufcs_intf_config_watchdog time_ms s =
     (if test_mode s then Some (- EBUSY, s) else ufcs_config_watchdog time_ms s)"

text \<open>The functions that return information: the value is delivered with the result \<open>0\<close> only.\<close>

definition info_request :: "ufcs_event_type \<Rightarrow> (ufcs_class \<Rightarrow> 'a) \<Rightarrow> ufcs_class \<Rightarrow>
    ((rc \<times> 'a option) \<times> ufcs_class) option" where
  "info_request t field s =
     (if \<not> handshake_success s then Some ((- EINVAL, None), s)
      else do { (rc, s1) \<leftarrow> external_request t None (\<lambda>s. s) s;
                Some (if rc < 0 then (rc, None) else (0, Some (field s1)), s1) })"

definition ufcs_get_device_info :: "ufcs_class \<Rightarrow> ((rc \<times> u64 option) \<times> ufcs_class) option" where
  "ufcs_get_device_info s = info_request UFCS_EVENT_SEND_GET_DEVICE_INFO dev_info s"

definition ufcs_intf_get_device_info :: "ufcs_class \<Rightarrow> ((rc \<times> u64 option) \<times> ufcs_class) option" where
  "ufcs_intf_get_device_info s = (if test_mode s then Some ((- EBUSY, None), s) else ufcs_get_device_info s)"

definition ufcs_get_error_info :: "ufcs_class \<Rightarrow> ((rc \<times> u64 option) \<times> ufcs_class) option" where
  "ufcs_get_error_info s = info_request UFCS_EVENT_SEND_GET_ERROR_INFO (\<lambda>s. ucast (err_info s)) s"

definition ufcs_intf_get_error_info :: "ufcs_class \<Rightarrow> ((rc \<times> u64 option) \<times> ufcs_class) option" where
  "ufcs_intf_get_error_info s = (if test_mode s then Some ((- EBUSY, None), s) else ufcs_get_error_info s)"

definition ufcs_get_source_info :: "ufcs_class \<Rightarrow> ((rc \<times> u64 option) \<times> ufcs_class) option" where
  "ufcs_get_source_info s = info_request UFCS_EVENT_SEND_GET_SOURCE_INFO src_info s"

definition ufcs_intf_get_source_info :: "ufcs_class \<Rightarrow> ((rc \<times> u64 option) \<times> ufcs_class) option" where
  "ufcs_intf_get_source_info s = (if test_mode s then Some ((- EBUSY, None), s) else ufcs_get_source_info s)"

definition ufcs_get_cable_info :: "ufcs_class \<Rightarrow> ((rc \<times> u64 option) \<times> ufcs_class) option" where
  "ufcs_get_cable_info s = info_request UFCS_EVENT_SEND_START_CABLE_DETECT cable_info s"

definition ufcs_intf_get_cable_info :: "ufcs_class \<Rightarrow> ((rc \<times> u64 option) \<times> ufcs_class) option" where
  "ufcs_intf_get_cable_info s = (if test_mode s then Some ((- EBUSY, None), s) else ufcs_get_cable_info s)"

definition ufcs_get_emark_info :: "ufcs_class \<Rightarrow> ((rc \<times> u64 option) \<times> ufcs_class) option" where
  "ufcs_get_emark_info s = info_request UFCS_EVENT_OPLUS_SEND_GET_EMARK_INFO_MSG emark_info s"

definition ufcs_intf_get_emark_info :: "ufcs_class \<Rightarrow> ((rc \<times> u64 option) \<times> ufcs_class) option" where
  "ufcs_intf_get_emark_info s = (if test_mode s then Some ((- EBUSY, None), s) else ufcs_get_emark_info s)"

text \<open>The functions that fill an array of \<open>num\<close> entries return how many they filled.\<close>

definition fill_array :: "int \<Rightarrow> nat \<Rightarrow> 'a list \<Rightarrow> int \<times> 'a list" where
  "fill_array num n xs = (let k = (if num < int n then num else int n) in (k, take (nat k) xs))"

definition ufcs_get_pdo_info :: "int \<Rightarrow> ufcs_class \<Rightarrow> ((rc \<times> u64 list) \<times> ufcs_class) option" where
  "ufcs_get_pdo_info num s =
     (if \<not> handshake_success s then Some ((- EINVAL, []), s)
      else do { (rc, s1) \<leftarrow> external_request UFCS_EVENT_SEND_GET_OUTPUT_CAP None (\<lambda>s. s) s;
                Some (if rc < 0 then (rc, []) else fill_array num (pdo_num s1) (pdo_data s1), s1) })"

definition ufcs_intf_get_pdo_info :: "int \<Rightarrow> ufcs_class \<Rightarrow> ((rc \<times> u64 list) \<times> ufcs_class) option" where
  "ufcs_intf_get_pdo_info num s = (if test_mode s then Some ((- EBUSY, []), s) else ufcs_get_pdo_info num s)"

definition ufcs_get_power_info_ext :: "int \<Rightarrow> ufcs_class \<Rightarrow> ((rc \<times> u64 list) \<times> ufcs_class) option" where
  "ufcs_get_power_info_ext num s =
     (if \<not> handshake_success s then Some ((- EINVAL, []), s)
      else do { (rc, s1) \<leftarrow> external_request UFCS_EVENT_OPLUS_SEND_GET_POWER_INFO_MSG None (\<lambda>s. s) s;
                Some (if rc < 0 then (rc, []) else fill_array num (pie_num s1) (pie_data s1), s1) })"

definition ufcs_intf_get_power_info_ext :: "int \<Rightarrow> ufcs_class \<Rightarrow> ((rc \<times> u64 list) \<times> ufcs_class) option" where
  "ufcs_intf_get_power_info_ext num s = (if test_mode s then Some ((- EBUSY, []), s) else ufcs_get_power_info_ext num s)"

definition ufcs_get_power_change_info :: "int \<Rightarrow> ufcs_class \<Rightarrow> rc \<times> u32 list" where
  "ufcs_get_power_change_info num s =
     (if \<not> handshake_success s then (- EINVAL, [])
      else if pdo_num s = 0 then (- EINVAL, [])
      else fill_array num (pdo_num s) (pwr_change_info s))"

definition ufcs_intf_get_power_change_info :: "int \<Rightarrow> ufcs_class \<Rightarrow> rc \<times> u32 list" where
  "ufcs_intf_get_power_change_info num s =
     (if test_mode s then (- EBUSY, []) else ufcs_get_power_change_info num s)"

section \<open>Authentication\<close>

text \<open>\<open>random\<close> are the sixteen bytes of \<^verbatim>\<open>get_random_bytes\<close>.\<close>

definition ufcs_verify_adapter :: "bytes \<Rightarrow> u8 \<Rightarrow> bytes \<Rightarrow> u8 \<Rightarrow> ufcs_class \<Rightarrow> (rc \<times> ufcs_class) option" where
  "ufcs_verify_adapter random key_index auth_data data_len s =
     (if \<not> handshake_success s then Some (- EINVAL, s)
      else if unat data_len \<noteq> UFCS_VERIFY_AUTH_DATA_SIZE then Some (- EINVAL, s)
      else do { (rc, s1) \<leftarrow> external_request UFCS_EVENT_SEND_VERIFY_REQUEST
                    (Some (Verify_data key_index random)) (\<lambda>s. s\<lparr>verify_pass := False\<rparr>)
                    (s\<lparr>verify_auth := take UFCS_VERIFY_AUTH_DATA_SIZE auth_data\<rparr>);
                Some (if rc < 0 then rc else if verify_pass s1 then 1 else 0, s1) })"

definition ufcs_intf_verify_adapter :: "bytes \<Rightarrow> u8 \<Rightarrow> bytes \<Rightarrow> u8 \<Rightarrow> ufcs_class \<Rightarrow> (rc \<times> ufcs_class) option" where
  "ufcs_intf_verify_adapter random key_index auth_data data_len s =
     (if test_mode s then Some (- EBUSY, s) else ufcs_verify_adapter random key_index auth_data data_len s)"

section \<open>Test requests\<close>

definition UFCS_TEST_MODE_POWER_VOLT :: int where "UFCS_TEST_MODE_POWER_VOLT = 5000"
definition UFCS_TEST_MODE_POWER_CURR :: int where "UFCS_TEST_MODE_POWER_CURR = 1000"
definition UFCS_TEST_MODE_WATCHDOG :: u16 where "UFCS_TEST_MODE_WATCHDOG = 3000"

definition drop_value :: "((rc \<times> 'a) \<times> ufcs_class) option \<Rightarrow> (rc \<times> ufcs_class) option" where
  "drop_value r = map_option (\<lambda>((rc, _), s). (rc, s)) r"

definition ufcs_pe_test_ctrl_request_handle :: "u16 \<Rightarrow> ufcs_class \<Rightarrow> (rc \<times> ufcs_class) option" where
  "ufcs_pe_test_ctrl_request_handle t s =
     (let c = ctrl_msg_of (ucast t)
      in if c = Some CTRL_MSG_GET_OUTPUT_CAPABILITIES
         then drop_value (ufcs_get_pdo_info (int UFCS_OUTPUT_MODE_MAX) s)
         else if c = Some CTRL_MSG_GET_SOURCE_INFO then drop_value (ufcs_get_source_info s)
         else if c = Some CTRL_MSG_GET_CABLE_INFO then drop_value (ufcs_get_cable_info s)
         else if c = Some CTRL_MSG_GET_DEVICE_INFO then drop_value (ufcs_get_device_info s)
         else if c = Some CTRL_MSG_GET_ERROR_INFO then drop_value (ufcs_get_error_info s)
         else Some (- EINVAL, s))"

definition ufcs_pe_test_data_request_handle :: "u16 \<Rightarrow> ufcs_class \<Rightarrow> (rc \<times> ufcs_class) option" where
  "ufcs_pe_test_data_request_handle t s =
     (let d = data_msg_of (ucast t)
      in if d = Some DATA_MSG_REQUEST
         then ufcs_pdo_set UFCS_TEST_MODE_POWER_VOLT UFCS_TEST_MODE_POWER_CURR s
         else if d = Some DATA_MSG_CONFIG_WATCHDOG then ufcs_config_watchdog UFCS_TEST_MODE_WATCHDOG s
         else Some (- EINVAL, s))"

definition ufcs_pe_test_handle_work :: "ufcs_class \<Rightarrow> ufcs_class option" where
  "ufcs_pe_test_handle_work s =
     (let request = test_request s;
          s0 = s\<lparr>test_work := False\<rparr>;
          enable_test_mode = (UFCS_TEST_REQUEST_ENABLE_TEST_MODE request \<noteq> 0);
          enable_vol_acc_test = (UFCS_TEST_REQUEST_ENABLE_VOL_ACC_TEST_MODE request \<noteq> 0);
          s1 = (if test_mode s0 \<noteq> enable_test_mode
                then ufcs_send_state UFCS_NOTIFY_TEST_MODE_CHANGED (s0\<lparr>test_mode := enable_test_mode\<rparr>)
                else s0);
          s2 = (if vol_acc_test s1 \<noteq> enable_vol_acc_test
                then ufcs_send_state UFCS_NOTIFY_VOL_ACC_TEST_MODE_CHANGED
                       (s1\<lparr>vol_acc_test := enable_vol_acc_test\<rparr>)
                else s1)
      in if UFCS_IS_TEST_CTRL_MSG request then Some s2
         else if \<not> test_mode s2 then Some s2
         else let t = UFCS_TEST_REQUEST_MSG_TYPE request; c = UFCS_TEST_REQUEST_MSG_CMD request
              in if t = ucast (msg_type_code UFCS_CTRL_MSG)
                 then map_option snd (ufcs_pe_test_ctrl_request_handle c s2)
                 else if t = ucast (msg_type_code UFCS_DATA_MSG)
                 then map_option snd (ufcs_pe_test_data_request_handle c s2)
                 else Some s2)"

section \<open>Queries\<close>

definition ufcs_is_test_mode :: "ufcs_class \<Rightarrow> bool" where
  "ufcs_is_test_mode s = test_mode s"
definition ufcs_is_vol_acc_test_mode :: "ufcs_class \<Rightarrow> bool" where
  "ufcs_is_vol_acc_test_mode s = vol_acc_test s"
definition ufcs_handshake_success :: "ufcs_class \<Rightarrow> bool" where
  "ufcs_handshake_success s = handshake_success s"

section \<open>The selected power data object\<close>

text \<open>What a power data object accepts, over the numbers it stands for: the voltage lies in its
  range, the current between its minimum and the smaller of its maximum and the limit of the last
  power change (if there was one and it is not zero).\<close>

definition pdo_curr_limit :: "ufcs_class \<Rightarrow> nat \<Rightarrow> nat" where
  "pdo_curr_limit s i =
     (let m = om_curr_max (output_mode_dec (pdo_data s ! i));
          c = unat (UFCS_POWER_CHANGE_CURR_MAX (pwr_change_info s ! i))
      in if power_changed s \<and> c \<noteq> 0 then min c m else m)"

definition pdo_accepts :: "ufcs_class \<Rightarrow> int \<Rightarrow> int \<Rightarrow> nat \<Rightarrow> bool" where
  "pdo_accepts s vol_mv curr_ma i \<longleftrightarrow>
     (let m = output_mode_dec (pdo_data s ! i)
      in int (om_vol_min m) \<le> vol_mv \<and> vol_mv \<le> int (om_vol_max m) \<and>
         int (om_curr_min m) \<le> curr_ma \<and> curr_ma \<le> int (pdo_curr_limit s i))"

text \<open>The range of a C \<^verbatim>\<open>int\<close>.\<close>

definition c_int :: "int \<Rightarrow> bool" where
  "c_int x \<longleftrightarrow> - (2 ^ 31) \<le> x \<and> x < 2 ^ 31"

lemma field_times_10: "unat ((w AND 0xffff) * 10 :: u64) \<le> 655350"
proof -
  have "w AND 0xffff \<le> 0xffff" by (rule word_and_le1)
  then have "unat (w AND 0xffff) \<le> 0xffff" by (simp add: word_le_nat_alt)
  then show ?thesis by (simp add: unat_word_ariths)
qed

lemma curr_min_bound: "unat (UFCS_OUTPUT_MODE_CURR_MIN p) \<le> 2550"
proof -
  have "p AND 0xff \<le> 0xff" by (rule word_and_le1)
  then have "unat (p AND 0xff) \<le> 0xff" by (simp add: word_le_nat_alt)
  then show ?thesis by (simp add: UFCS_OUTPUT_MODE_CURR_MIN_def unat_word_ariths)
qed

lemma output_mode_bounds:
  "unat (UFCS_OUTPUT_MODE_VOL_MAX p) \<le> 655350" "unat (UFCS_OUTPUT_MODE_VOL_MIN p) \<le> 655350"
  "unat (UFCS_OUTPUT_MODE_CURR_MAX p) \<le> 655350"
  by (simp_all add: UFCS_OUTPUT_MODE_VOL_MAX_def UFCS_OUTPUT_MODE_VOL_MIN_def
      UFCS_OUTPUT_MODE_CURR_MAX_def field_times_10)

lemma uint_c_int:
  assumes "c_int x" and "32 \<le> LENGTH('a::len)"
  shows "uint (word_of_int x :: 'a word) = (if 0 \<le> x then x else x + 2 ^ LENGTH('a))"
proof -
  have "(2::int) ^ 32 \<le> 2 ^ LENGTH('a)" using assms(2) by (rule power_increasing) simp
  then have b: "- (2 ^ LENGTH('a)) \<le> x" "x < 2 ^ LENGTH('a)" using assms(1) by (simp_all add: c_int_def)
  have "x mod 2 ^ LENGTH('a) = (if 0 \<le> x then x else x + 2 ^ LENGTH('a))"
  proof (cases "0 \<le> x")
    case True
    then show ?thesis using b by simp
  next
    case False
    then have "(x + 2 ^ LENGTH('a)) mod 2 ^ LENGTH('a) = x + 2 ^ LENGTH('a)"
      using b by (intro mod_pos_pos_trivial) simp_all
    then show ?thesis using False by simp
  qed
  then show ?thesis by (simp add: uint_word_of_int)
qed

lemma c_int_less:
  fixes w :: "'a::len word"
  assumes "c_int x" and "32 \<le> LENGTH('a)" and "unat w \<le> 655350"
  shows "w < word_of_int x \<longleftrightarrow> int (unat w) < x \<or> x < 0"
    and "(word_of_int x < w) \<longleftrightarrow> 0 \<le> x \<and> x < int (unat w)"
proof -
  define M where "M = (2::int) ^ LENGTH('a)"
  have M: "2 ^ 32 \<le> M" unfolding M_def using assms(2) by (rule power_increasing) simp
  have e: "int (unat w) = uint w" by simp
  have "int (unat w) \<le> int 655350" using assms(3) by (simp only: of_nat_le_iff)
  then have u: "0 \<le> uint w" "uint w \<le> 655350" unfolding e by simp_all
  have x: "- (2 ^ 31) \<le> x" "x < 2 ^ 31" using assms(1) by (simp_all add: c_int_def)
  show "w < word_of_int x \<longleftrightarrow> int (unat w) < x \<or> x < 0"
    unfolding word_less_def e uint_c_int [OF assms(1,2)] M_def [symmetric]
    using M u x by (cases "0 \<le> x") auto
  show "word_of_int x < w \<longleftrightarrow> 0 \<le> x \<and> x < int (unat w)"
    unfolding word_less_def e uint_c_int [OF assms(1,2)] M_def [symmetric]
    using M u x by (cases "0 \<le> x") auto
qed

lemma pdo_max_curr_limit: "unat (pdo_max_curr s i) = pdo_curr_limit s i"
proof -
  let ?m = "UFCS_OUTPUT_MODE_CURR_MAX (pdo_data s ! i)"
  let ?c = "if power_changed s then UFCS_POWER_CHANGE_CURR_MAX (pwr_change_info s ! i) else 0"
  have "unat ?m < 2 ^ 32" using output_mode_bounds(3) [of "pdo_data s ! i"] by simp
  then have m: "unat (ucast ?m :: u32) = unat ?m" by (simp add: unsigned_ucast_eq take_bit_nat_eq_self)
  have c: "unat (ucast ?c :: u64) = unat ?c" by (rule unat_ucast_u32)
  have "ucast ?c > ?m \<longleftrightarrow> unat ?m < unat ?c" by (simp add: word_less_nat_alt c)
  then show ?thesis
    using m by (auto simp: pdo_max_curr_def pdo_curr_limit_def output_mode_dec_def Let_def unat_eq_0)
qed

lemma pdo_fits_iff:
  assumes "c_int vol_mv" and "c_int curr_ma"
  shows "pdo_fits s vol_mv curr_ma i = pdo_accepts s vol_mv curr_ma i"
proof -
  let ?p = "pdo_data s ! i"
  have cmin: "unat (UFCS_OUTPUT_MODE_CURR_MIN ?p) \<le> 655350" using curr_min_bound [of ?p] by simp
  have L: "32 \<le> LENGTH(64)" "32 \<le> LENGTH(32)" by simp_all
  have "pdo_curr_limit s i \<le> 655350"
    using output_mode_bounds(3) [of ?p] by (auto simp: pdo_curr_limit_def output_mode_dec_def Let_def)
  then have lim: "unat (pdo_max_curr s i) \<le> 655350" by (simp add: pdo_max_curr_limit)
  show ?thesis
    unfolding pdo_fits_def pdo_accepts_def Let_def output_mode_dec_def output_mode.select_convs
      pdo_max_curr_limit [symmetric] c_int_less [OF assms(1) L(1) output_mode_bounds(1)]
      c_int_less [OF assms(1) L(1) output_mode_bounds(2)] c_int_less [OF assms(2) L(1) cmin]
      c_int_less [OF assms(2) L(2) lim]
    by (auto simp del: of_nat_unat)
qed

text \<open>C8: Outside the test mode the selection returns, for all C \<^verbatim>\<open>int\<close> arguments (negative ones
  and all conversions included), the number of the first power data object that accepts the
  voltage and the current, counted from one, and \<^verbatim>\<open>-ENODATA\<close> if none does.\<close>

theorem pdo_select_spec:
  assumes "c_int vol_mv" and "c_int curr_ma" and "\<not> test_mode s"
  shows "(\<forall>i. ufcs_pdo_select s vol_mv curr_ma = int i + 1 \<longleftrightarrow>
        i < pdo_num s \<and> pdo_accepts s vol_mv curr_ma i \<and> (\<forall>j<i. \<not> pdo_accepts s vol_mv curr_ma j)) \<and>
     ((\<forall>i<pdo_num s. \<not> pdo_accepts s vol_mv curr_ma i) \<longrightarrow>
        ufcs_pdo_select s vol_mv curr_ma = - ENODATA)"
proof -
  have "pdo_fits s vol_mv curr_ma = pdo_accepts s vol_mv curr_ma"
    using pdo_fits_iff [OF assms(1,2)] by blast
  then show ?thesis using assms(3)
    by (auto simp: ufcs_pdo_select_def find_None_iff find_upt0_Some split: option.split)
      (metis nat_neq_iff)
qed

lemma pdo_select_spec_witness:
  "ufcs_pdo_select ((connected_class (demo_config False) [])
     \<lparr>pdo_num := 1, pdo_data := 0x10044C015401F400 # replicate 6 0\<rparr>) 5000 1000 = int 0 + 1"
proof -
  let ?s = "(connected_class (demo_config False) [])\<lparr>pdo_num := 1, pdo_data := 0x10044C015401F400 # replicate 6 0\<rparr>"
  have "pdo_accepts ?s 5000 1000 0"
    by (simp add: pdo_accepts_def pdo_curr_limit_def output_mode_dec_def connected_class_def
        UFCS_OUTPUT_MODE_VOL_MIN_def UFCS_OUTPUT_MODE_VOL_MAX_def UFCS_OUTPUT_MODE_CURR_MIN_def
        UFCS_OUTPUT_MODE_CURR_MAX_def)
  moreover have "c_int 5000" and "c_int 1000" and "\<not> test_mode ?s" and n: "0 < pdo_num ?s"
    by (simp_all add: c_int_def connected_class_def)
  note pdo_select_spec [OF this(1-3), THEN conjunct1, THEN spec, of 0, THEN iffD2]
  ultimately show ?thesis using n by blast
qed

section \<open>The request that goes out\<close>

lemma floor_field:
  assumes "n \<le> 655359"
  shows "unat (take_bit 16 ((of_nat n :: u64) div 10) * 10) = n - n mod 10"
proof -
  have d: "(of_nat n :: u64) div 10 = of_nat (n div 10)"
    using of_nat_div_of_nat [of n 10, where 'a = 64] assms by simp
  have "n div 10 < 2 ^ 16" using assms by auto
  then have "take_bit 16 ((of_nat n :: u64) div 10) = of_nat (n div 10)"
    unfolding d by (rule take_bit_of_nat_small)
  then have "take_bit 16 ((of_nat n :: u64) div 10) * 10 = of_nat (n - n mod 10)"
    by (simp add: minus_mod_eq_div_mult del: of_nat_diff)
  moreover have "n - n mod 10 < 2 ^ LENGTH(64)" using assms by auto
  ultimately show ?thesis by (simp only: unat_of_nat_small)
qed

lemma request_word_decodes:
  assumes "idx < 16" and "vol \<le> 655359" and "cur \<le> 655359"
  shows "request_dec (UFCS_REQUEST_DATA (of_nat idx) (of_nat vol) (of_nat cur)) =
    (idx, vol - vol mod 10, cur - cur mod 10)"
  using assms
  by (simp add: request_dec_def Ufcs_Fields.request_fields floor_field take_bit_of_nat_small unat_of_nat_small)

lemma ten_field:
  obtains k where "k < 65536" and "take_bit 16 (v :: u64) = of_nat k" and "take_bit 16 v * 10 = of_nat (k * 10)"
proof
  show "unat (take_bit 16 v) < 65536" by (simp add: unsigned_take_bit_eq take_bit_nat_def)
qed simp_all

lemma ten_div: "(take_bit 16 (v :: u64) * 10) div 10 = take_bit 16 v"
proof -
  obtain k where k: "k < 65536" "take_bit 16 v = of_nat k" "take_bit 16 v * 10 = of_nat (k * 10)"
    by (rule ten_field)
  then show ?thesis using of_nat_div_of_nat [of "k * 10" 10, where 'a = 64] by simp
qed

lemma ten_ucast: "(ucast (ucast (take_bit 16 (v :: u64) * 10) :: u32) :: u64) = take_bit 16 v * 10"
proof -
  obtain k where k: "k < 65536" "take_bit 16 v = of_nat k" "take_bit 16 v * 10 = of_nat (k * 10)"
    by (rule ten_field)
  have "unat (ucast (ucast (of_nat (k * 10) :: u64) :: u32) :: u64) = unat (of_nat (k * 10) :: u64)"
    using k(1) by (simp add: unsigned_ucast_eq unsigned_of_nat take_bit_nat_eq_self del: of_nat_mult)
  then show ?thesis unfolding k(3) by (simp only: word_unat_eq_iff)
qed

lemma request_word_resent:
  "case request_fields (UFCS_REQUEST_DATA i v c) of (idx, vol, cur) \<Rightarrow>
     UFCS_REQUEST_DATA (ucast idx) (ucast vol) (ucast cur) = UFCS_REQUEST_DATA i v c"
proof -
  have "(ucast (ucast (take_bit 4 i) :: u8) :: u64) = take_bit 4 i"
    by (auto simp: bit_eq_iff bit_simps)
  then have f: "request_fields (UFCS_REQUEST_DATA i v c) =
      (ucast (take_bit 4 i), ucast (take_bit 16 (v div 10) * 10), ucast (take_bit 16 (c div 10) * 10))"
    by (simp add: request_fields_def Ufcs_Fields.request_fields)
  show ?thesis
    unfolding f prod.case unfolding UFCS_REQUEST_DATA_def
    by (simp add: \<open>ucast (ucast (take_bit 4 i) :: u8) = take_bit 4 i\<close> ten_ucast ten_div and_lit)
qed

text \<open>The word of a power request carries the index of the object and the voltage and the
  current rounded down to 10 mV and 10 mA; and the policy engine, which takes the word apart and
  builds it again before sending, sends the word it was given.\<close>

theorem request_word:
  assumes "idx < 16" and "vol \<le> 655359" and "cur \<le> 655359"
    and "r = UFCS_REQUEST_DATA (of_nat idx) (of_nat vol) (of_nat cur)"
  shows "request_dec r = (idx, vol - vol mod 10, cur - cur mod 10) \<and>
    (case request_fields r of (i, v, c) \<Rightarrow> UFCS_REQUEST_DATA (ucast i) (ucast v) (ucast c) = r)"
  unfolding assms(4) by (rule conjI [OF request_word_decodes [OF assms(1-3)] request_word_resent])

lemma request_word_witness:
  "request_dec (UFCS_REQUEST_DATA (of_nat 1) (of_nat 5003) (of_nat 1009)) = (1, 5000, 1000)"
  using request_word [OF _ _ _ refl, of 1 5003 1009] by simp

section \<open>Connecting and disconnecting\<close>

text \<open>A device without a connection: nothing queued, nothing remembered, nobody waiting.\<close>

definition disconnected :: "ufcs_class \<Rightarrow> bool" where
  "disconnected s \<longleftrightarrow> events s = [] \<and> st_curr s = PE_STATE_IDEL \<and> \<not> handshake_success s \<and>
     \<not> test_mode s \<and> \<not> pe_locked s \<and> pdo_num s = 0 \<and> src_info s = 0 \<and> dev_info s = 0 \<and>
     cable_info s = 0 \<and> s_counter (sender s) = 0 \<and> ev_exit s \<and>
     completed (request_ack s) \<and> completed (ev_ack s) \<and> completed (s_ack (sender s))"

lemma force_exit_tail_disconnects: "disconnected (force_exit_tail s)"
  by (simp add: disconnected_def force_exit_tail_def ufcs_exit_sm_work_def ufcs_clean_process_info_def
      ufcs_free_all_event_def Let_def)

text \<open>A forced exit always succeeds and leaves the device disconnected: the engine idle and
  unlocked, its queue, tables and message number cleared and all three waiters woken; the
  requests of the interface are then rejected without touching the state.\<close>

theorem force_exit_disconnects:
  assumes "ufcs_force_exit s = Some (rc, s')"
  shows "rc = 0 \<and> disconnected s' \<and>
    ufcs_intf_pdo_set v c s' = Some (- EINVAL, s') \<and>
    ufcs_intf_config_watchdog ms s' = Some (- EINVAL, s') \<and>
    ufcs_intf_get_pdo_info n s' = Some ((- EINVAL, []), s') \<and>
    ufcs_intf_get_source_info s' = Some ((- EINVAL, None), s') \<and>
    ufcs_intf_verify_adapter random k auth len s' = Some (- EINVAL, s')"
proof -
  obtain s1 where "rc = 0" and "s' = force_exit_tail s1"
    using assms by (auto simp: ufcs_force_exit_def bind_eq_Some_conv split: if_splits)
  then have "rc = 0" and d: "disconnected s'" by (simp_all add: force_exit_tail_disconnects)
  moreover have "\<not> handshake_success s'" "\<not> test_mode s'" using d by (simp_all add: disconnected_def)
  ultimately show ?thesis
    by (simp add: ufcs_intf_pdo_set_def ufcs_intf_config_watchdog_def ufcs_config_watchdog_def
        ufcs_intf_get_pdo_info_def ufcs_get_pdo_info_def ufcs_intf_get_source_info_def
        ufcs_get_source_info_def info_request_def ufcs_intf_verify_adapter_def ufcs_verify_adapter_def)
qed

lemma force_exit_disconnects_witness:
  "ufcs_intf_pdo_set 5000 1000 (force_exit_tail ((connected_class (demo_config False) [])\<lparr>handshake_success := False\<rparr>)) =
     Some (- EINVAL, force_exit_tail ((connected_class (demo_config False) [])\<lparr>handshake_success := False\<rparr>))"
proof -
  let ?s = "(connected_class (demo_config False) [])\<lparr>handshake_success := False\<rparr>"
  have "ufcs_force_exit ?s = Some (0, force_exit_tail ?s)" by (simp add: ufcs_force_exit_def)
  then show ?thesis using force_exit_disconnects [of ?s 0 "force_exit_tail ?s" 5000 1000] by blast
qed

lemma handshake_cases:
  assumes "ufcs_handshake s = Some (rc, s')"
  obtains (no_memory) "rc = - ENOMEM"
      "s' = snd (kzalloc (s\<lparr>start_cable_detect := False, exit_ufcs_ack_received := False\<rparr>))"
  | (waited) s2 s3 s4 where
      "s2 = snd (kzalloc (s\<lparr>start_cable_detect := False, exit_ufcs_ack_received := False\<rparr>))"
      "lock_pe ((ufcs_clr_error_flag (emit Io_enable (ufcs_event_reset s2)))\<lparr>sm_task_wakeup := False\<rparr>) = Some s3"
      "wait_request_ack ((ufcs_push_event UFCS_EVENT_HANDSHAKE None None (s3\<lparr>request_ack := 0\<rparr>))
         \<lparr>handshake_success := False\<rparr>) = Some s4"
      "rc = (if handshake_success s4 then 0 else - EIO)"
      "s' = (if handshake_success s4 then s4 else emit Io_disable s4)"
proof (cases "fst (kzalloc (s\<lparr>start_cable_detect := False, exit_ufcs_ack_received := False\<rparr>))")
  case False
  with assms show thesis by (intro no_memory) (auto simp: ufcs_handshake_def case_prod_unfold Let_def)
next
  case True
  with assms obtain s3 s4 where
      l: "lock_pe ((ufcs_clr_error_flag (emit Io_enable (ufcs_event_reset
         (snd (kzalloc (s\<lparr>start_cable_detect := False, exit_ufcs_ack_received := False\<rparr>)))))) 
         \<lparr>sm_task_wakeup := False\<rparr>) = Some s3"
      and w: "wait_request_ack ((ufcs_push_event UFCS_EVENT_HANDSHAKE None None (s3\<lparr>request_ack := 0\<rparr>))
         \<lparr>handshake_success := False\<rparr>) = Some s4"
      and r: "(if handshake_success s4 then Some (0, s4) else Some (- EIO, emit Io_disable s4)) = Some (rc, s')"
    unfolding ufcs_handshake_def case_prod_unfold Let_def by (simp only: if_True not_True_eq_False if_False bind_eq_Some_conv) blast
  from r show thesis by (intro waited [OF refl l w]) (simp_all split: if_splits)
qed

text \<open>The handshake returns \<open>0\<close> exactly with a connection; when it fails there is no connection
  and the chip was disabled last; without memory nothing was done to the chip.\<close>

theorem handshake_result:
  assumes "ufcs_handshake s = Some (rc, s')"
  shows "rc = 0 \<and> handshake_success s' \<or>
    rc = - EIO \<and> \<not> handshake_success s' \<and> last (io_trace s') = Io_disable \<or>
    rc = - ENOMEM \<and> io_trace s' = io_trace s"
  using assms by (cases rule: handshake_cases) (simp_all add: emit_def)

lemma handshake_result_witness:
  "\<exists>s'. ufcs_handshake ((connected_class (demo_config False)
      [In_irq 0 (Some UFCS_HS_SUCCESS) None, In_irq 0x20 None None])\<lparr>handshake_success := False\<rparr>) = Some (0, s') \<and>
    handshake_success s'"
proof -
  let ?r = "ufcs_handshake ((connected_class (demo_config False)
      [In_irq 0 (Some UFCS_HS_SUCCESS) None, In_irq 0x20 None None])\<lparr>handshake_success := False\<rparr>)"
  have "map_option fst ?r = Some 0" by code_simp
  then obtain s' where r: "?r = Some (0, s')" by auto
  with handshake_result [OF r] show ?thesis by auto
qed

section \<open>Complete exchanges\<close>

text \<open>The request for the source information, from the call of the interface over the event
  list, the engine, the sender, the interrupt, the receive work and back: when the adapter
  answers with a source information message, the caller gets, for all eight payload bytes, the
  word they spell in network order.\<close>

theorem source_info_end_to_end:
  "map_option fst (ufcs_get_source_info (connected_class (demo_config False)
      [In_irq 0x20 None None, In_irq 0x100 None (Some [0x20, 0x09, 3, 8, b0, b1, b2, b3, b4, b5, b6, b7])])) =
   Some (0, Some (le_word [b7, b6, b5, b4, b3, b2, b1, b0]))"
  by code_simp

text \<open>A successful exit leaves the engine in the state of the exit and \<^verbatim>\<open>pe_lock\<close> taken, because the thread releases it in
  the idle state only. The function that calls it releases the lock itself.\<close>

lemma successful_exit_keeps_lock:
  "map_option (\<lambda>(rc, s). (rc, st_curr s, pe_locked s)) (ufcs_send_exit_ufcs_mode (connected_class (demo_config False) [In_irq 0x20 None None])) =
     Some (0, PE_STATE_SEND_EXIT, True)"
  "map_option (\<lambda>(rc, s). (rc, st_curr s, pe_locked s)) (ufcs_force_exit (connected_class (demo_config False) [In_irq 0x20 None None])) =
     Some (0, PE_STATE_IDEL, False)"
  by code_simp+

text \<open>Configuring the watchdog, for every timeout: exactly one frame is written, with the timeout
  in network order as its payload, and the accept of the adapter completes the request.\<close>

theorem watchdog_end_to_end:
  "map_option (\<lambda>(rc, s). (rc, io_trace s))
     (ufcs_intf_config_watchdog ms (connected_class (demo_config False)
        [In_irq 0x20 None None, In_irq 0x100 None (Some [0x20, 0x08, 3])])) =
   Some (0, [Io_write [0x20, 0x09, 8, 2, ucast (drop_bit 8 ms), ucast ms],
     Io_notify UFCS_NOTIFY_ERR_FLAG, Io_notify UFCS_NOTIFY_ERR_FLAG, Io_retrieve_flags])"
  by code_simp

end
