(* ===== verification/Ufcs_Core.thy ===== *)
theory Ufcs_Core
  imports Ufcs_Intf
begin

text \<open>
  Registration of the class device, \<^verbatim>\<open>ufcs_core.c\<close>: which resources are acquired in which
  order, what each error label releases, and what unregistering releases. The model records the
  acquisitions and releases; the results of the kernel functions are the arguments. Dropping the
  last reference of the device runs its release function \<^verbatim>\<open>ufcs_release\<close>, which frees the two
  structures.
\<close>

section \<open>Resources\<close>

datatype resource = Class_mem | Dev_mem | Fifo | Device | Worker | Sm_task

datatype res_op = Acquire resource | Release resource

record reg_env =
  parent_ok :: bool
  ops_ok :: bool
  drv_data_ok :: bool
  config_ok :: bool
  class_alloc_ok :: bool
  dev_alloc_ok :: bool
  fifo_rc :: rc
  set_name_rc :: rc
  wakeup_rc :: rc
  device_add_rc :: rc
  create_file_rc :: rc
  worker_ok :: bool
  sm_task_rc :: rc
  op_init_rc :: rc

definition ufcs_release :: "res_op list" where
  "ufcs_release = [Release Dev_mem, Release Class_mem]"

text \<open>\<^verbatim>\<open>device_initialize\<close> takes the first reference, \<^verbatim>\<open>put_device\<close> drops it.\<close>

definition put_device :: "res_op list" where
  "put_device = Release Device # ufcs_release"

definition free_ufcs_mem :: "res_op list" where
  "free_ufcs_mem = [Release Fifo, Release Dev_mem, Release Class_mem]"

definition free_ufcs :: "res_op list" where
  "free_ufcs = put_device @ free_ufcs_mem"

definition policy_engine_init_err :: "res_op list" where
  "policy_engine_init_err = Release Worker # free_ufcs"

definition dev_init_err :: "res_op list" where
  "dev_init_err = Release Sm_task # policy_engine_init_err"

text \<open>The result is the error or \<open>0\<close>, with the acquisitions and releases in order.
  \<^verbatim>\<open>ufcs_timer_init\<close> and \<^verbatim>\<open>ufcs_event_init\<close> only fail on a null pointer.\<close>

definition ufcs_device_register :: "reg_env \<Rightarrow> rc \<times> res_op list" where
  "ufcs_device_register r =
     (if \<not> parent_ok r then (- ENODEV, [])
      else if \<not> ops_ok r \<or> \<not> drv_data_ok r \<or> \<not> config_ok r then (- EINVAL, [])
      else if \<not> class_alloc_ok r then (- ENOMEM, [])
      else if \<not> dev_alloc_ok r then (- ENOMEM, [Acquire Class_mem, Release Class_mem])
      else
        let mem = [Acquire Class_mem, Acquire Dev_mem, Acquire Device];
            fifo = mem @ [Acquire Fifo];
            worker = fifo @ [Acquire Worker];
            task = worker @ [Acquire Sm_task]
        in if fifo_rc r < 0 then (fifo_rc r, mem @ free_ufcs_mem)
           else if set_name_rc r \<noteq> 0 then (set_name_rc r, fifo @ free_ufcs)
           else if wakeup_rc r \<noteq> 0 then (wakeup_rc r, fifo @ free_ufcs)
           else if device_add_rc r \<noteq> 0 then (device_add_rc r, fifo @ free_ufcs)
           else if create_file_rc r \<noteq> 0 then (create_file_rc r, fifo @ free_ufcs)
           else if \<not> worker_ok r then (- ENOMEM, fifo @ free_ufcs)
           else if sm_task_rc r \<noteq> 0 then (sm_task_rc r, worker @ policy_engine_init_err)
           else if op_init_rc r < 0 then (op_init_rc r, task @ dev_init_err)
           else (0, task))"

definition ufcs_device_unregister :: "res_op list" where
  "ufcs_device_unregister =
     [Release Sm_task, Release Worker] @ put_device @ [Release Fifo, Release Dev_mem, Release Class_mem]"

text \<open>A resource that is released twice in a sequence of operations without being acquired
  again in between.\<close>

fun released_twice :: "resource set \<Rightarrow> res_op list \<Rightarrow> bool" where
  "released_twice dead [] = False"
| "released_twice dead (Acquire r # ops) = released_twice (dead - {r}) ops"
| "released_twice dead (Release r # ops) = (r \<in> dead \<or> released_twice (insert r dead) ops)"

section \<open>Releases\<close>

lemmas release_defs =
  free_ufcs_def free_ufcs_mem_def put_device_def ufcs_release_def policy_engine_init_err_def
  dev_init_err_def

text \<open>Every failure of the registration after the flag queue has been allocated frees the two
  structures twice: dropping the device reference runs the release function, which frees them,
  and the error path goes on to free them again.\<close>

theorem register_late_error_double_free:
  assumes "ufcs_device_register r = (rc, ops)" and "rc \<noteq> 0" and "Acquire Fifo \<in> set ops"
  shows "released_twice {} ops"
  using assms by (auto simp: ufcs_device_register_def Let_def release_defs split: if_splits)

definition demo_reg :: reg_env where
  "demo_reg = \<lparr>parent_ok = True, ops_ok = True, drv_data_ok = True, config_ok = True,
     class_alloc_ok = True, dev_alloc_ok = True, fifo_rc = 0, set_name_rc = 0, wakeup_rc = 0,
     device_add_rc = 0, create_file_rc = 0, worker_ok = True, sm_task_rc = 0, op_init_rc = 0\<rparr>"

lemma register_late_error_double_free_witness:
  "released_twice {} (snd (ufcs_device_register (demo_reg\<lparr>worker_ok := False\<rparr>)))"
  by (rule register_late_error_double_free [of "demo_reg\<lparr>worker_ok := False\<rparr>" "- ENOMEM"])
    (simp_all add: demo_reg_def ufcs_device_register_def)

text \<open>A registration that succeeds acquires all six resources and releases nothing; unregistering
  the device then releases all of them, and the two structures twice.\<close>

theorem unregister_double_free:
  assumes "ufcs_device_register r = (0, ops)"
  shows "ops = map Acquire [Class_mem, Dev_mem, Device, Fifo, Worker, Sm_task] \<and>
    (\<forall>x\<in>{Class_mem, Dev_mem, Device, Fifo, Worker, Sm_task}. Release x \<in> set ufcs_device_unregister) \<and>
    released_twice {} (ops @ ufcs_device_unregister)"
  using assms
  by (auto simp: ufcs_device_register_def ufcs_device_unregister_def Let_def release_defs split: if_splits)

lemma unregister_double_free_witness:
  "released_twice {} (snd (ufcs_device_register demo_reg) @ ufcs_device_unregister)"
  using unregister_double_free [of demo_reg "snd (ufcs_device_register demo_reg)"]
  by (simp add: demo_reg_def ufcs_device_register_def)

end
