(* ===== verification/Ufcs_Invariant.thy ===== *)
theory Ufcs_Invariant
  imports Ufcs_Intf
begin

text \<open>
  The invariant of the class device: the message counter and the messages of the sender, the
  events and works, the tables the protocol fills, the timers, the current state. This theory
  proves that the operations of the device, the send functions, the works of the worker thread
  and the fetching of events keep it. What a sender relies on while it sleeps is a locale,
  interpreted on the worker thread and on the worker that waits for itself.
\<close>

section \<open>The invariant\<close>

definition opt_msg_wf :: "ufcs_msg option \<Rightarrow> bool" where
  "opt_msg_wf m = (case m of None \<Rightarrow> True | Some msg \<Rightarrow> msg_wf msg)"

definition event_wf :: "nat \<Rightarrow> ufcs_event \<Rightarrow> bool" where
  "event_wf n e \<longleftrightarrow> ev_id e < n \<and> opt_msg_wf (ev_msg e) \<and>
     (case ev_data e of Some (Verify_data _ random) \<Rightarrow> length random = UFCS_VERIFY_RANDOM_DATA_SIZE
      | _ \<Rightarrow> True)"

definition event_timers :: "ufcs_timer list" where
  "event_timers = [SENDER_RESPONSE_TIMER, POWER_SUPPLY_TIMER, CABLE_INFO_TIMER, RESTART_TRANS_TIMER,
     CABLE_TRANS_TIMER, HANDSHAKE_TIMER, WAIT_MSG_TIMER, EMARK_MSG_TIMER]"

definition sender_inv :: "ufcs_msg_sender \<Rightarrow> bool" where
  "sender_inv x \<longleftrightarrow> s_counter x \<le> MSG_NUMBER_COUNT_MAX \<and> opt_msg_wf (s_msg x)"

definition queue_inv :: "ufcs_class \<Rightarrow> bool" where
  "queue_inv s \<longleftrightarrow> distinct (map ev_id (events s)) \<and> list_all (event_wf (next_id s)) (events s) \<and>
     opt_msg_wf (recv_msg s) \<and> distinct (works s) \<and> length (err_flag_fifo s) \<le> env_fifo_slots s"

definition table_inv :: "ufcs_class \<Rightarrow> bool" where
  "table_inv s \<longleftrightarrow> pdo_num s \<le> UFCS_OUTPUT_MODE_MAX \<and> length (pdo_data s) = UFCS_OUTPUT_MODE_MAX \<and>
     pie_num s \<le> UFCS_OPLUS_VND_POWER_INFO_MAX \<and> length (pie_data s) = UFCS_OPLUS_VND_POWER_INFO_MAX \<and>
     length (pwr_change_info s) = UFCS_OUTPUT_MODE_MAX \<and>
     length (verify_random s) = UFCS_VERIFY_RANDOM_DATA_SIZE \<and>
     length (verify_auth s) = UFCS_VERIFY_AUTH_DATA_SIZE \<and> source_padded (source_data s)"

definition timer_inv :: "ufcs_class \<Rightarrow> bool" where
  "timer_inv s = list_all (\<lambda>t. timer_on s t \<longrightarrow> timeout_event s t) event_timers"

definition class_inv :: "ufcs_class \<Rightarrow> bool" where
  "class_inv s \<longleftrightarrow> sender_inv (sender s) \<and> queue_inv s \<and> table_inv s \<and> timer_inv s \<and>
     st_curr s \<noteq> PE_STATE_PING \<and> st_curr s \<noteq> PE_STATE_VERIFY_RESPONSE"

lemmas inv_defs = class_inv_def sender_inv_def queue_inv_def table_inv_def timer_inv_def event_timers_def

named_theorems inv \<open>operations that keep the invariant\<close>

lemma opt_msg_wf_simps [simp]: "opt_msg_wf None" "opt_msg_wf (Some m) = msg_wf m"
  by (simp_all add: opt_msg_wf_def)

lemma class_inv_irrelevant [simp]:
  "class_inv (s\<lparr>env_alloc := v1\<rparr>) = class_inv s" "class_inv (s\<lparr>io_trace := v2\<rparr>) = class_inv s"
  "class_inv (s\<lparr>ev_ack := v3\<rparr>) = class_inv s" "class_inv (s\<lparr>ev_exit := v4\<rparr>) = class_inv s"
  "class_inv (s\<lparr>st_err := v5\<rparr>) = class_inv s" "class_inv (s\<lparr>src_info := v6\<rparr>) = class_inv s"
  "class_inv (s\<lparr>cable_info := v6\<rparr>) = class_inv s" "class_inv (s\<lparr>dev_info := v6\<rparr>) = class_inv s"
  "class_inv (s\<lparr>err_info := v7\<rparr>) = class_inv s" "class_inv (s\<lparr>emark_info := v6\<rparr>) = class_inv s"
  "class_inv (s\<lparr>power_changed := v4\<rparr>) = class_inv s" "class_inv (s\<lparr>test_mode := v4\<rparr>) = class_inv s"
  "class_inv (s\<lparr>vol_acc_test := v4\<rparr>) = class_inv s" "class_inv (s\<lparr>verify_pass := v4\<rparr>) = class_inv s"
  "class_inv (s\<lparr>handshake_success := v4\<rparr>) = class_inv s"
  "class_inv (s\<lparr>sm_task_wakeup := v4\<rparr>) = class_inv s"
  "class_inv (s\<lparr>start_cable_detect := v4\<rparr>) = class_inv s"
  "class_inv (s\<lparr>exit_ufcs_ack_received := v4\<rparr>) = class_inv s"
  "class_inv (s\<lparr>pe_locked := v4\<rparr>) = class_inv s" "class_inv (s\<lparr>request_ack := v3\<rparr>) = class_inv s"
  "class_inv (s\<lparr>test_request := v8\<rparr>) = class_inv s" "class_inv (s\<lparr>test_work := v4\<rparr>) = class_inv s"
  "class_inv (s\<lparr>overflow_work := v4\<rparr>) = class_inv s"
  "class_inv (s\<lparr>handshake_state := v9\<rparr>) = class_inv s"
  "class_inv (s\<lparr>err_flag_save := v7\<rparr>) = class_inv s" "class_inv (s\<lparr>dev_err_flag := v7\<rparr>) = class_inv s"
  "class_inv (s\<lparr>env_in := v10\<rparr>) = class_inv s" "class_inv (s\<lparr>env_write := v11\<rparr>) = class_inv s"
  "class_inv (s\<lparr>env_rx := v12\<rparr>) = class_inv s" "class_inv (s\<lparr>freed := v13\<rparr>) = class_inv s"
  by (simp_all add: inv_defs)

lemma class_inv_sender [simp]: "class_inv s \<Longrightarrow> class_inv (s\<lparr>sender := x\<rparr>) = sender_inv x"
  by (simp add: inv_defs)

lemma class_inv_senderD [simp]: "class_inv s \<Longrightarrow> sender_inv (sender s)"
  by (simp add: class_inv_def)

lemma sender_inv_updates [simp]:
  "sender_inv (x\<lparr>s_status := v1\<rparr>) = sender_inv x" "sender_inv (x\<lparr>s_ack := v2\<rparr>) = sender_inv x"
  "sender_inv (x\<lparr>s_retry := v3\<rparr>) = sender_inv x" "sender_inv (x\<lparr>s_locked := v4\<rparr>) = sender_inv x"
  "sender_inv x \<Longrightarrow> sender_inv (x\<lparr>s_msg := m\<rparr>) = opt_msg_wf m"
  "sender_inv x \<Longrightarrow> sender_inv (x\<lparr>s_counter := c\<rparr>) = (c \<le> MSG_NUMBER_COUNT_MAX)"
  by (simp_all add: sender_inv_def)

lemma class_inv_st_curr [simp]:
  "class_inv s \<Longrightarrow> class_inv (s\<lparr>st_curr := st\<rparr>) = (st \<noteq> PE_STATE_PING \<and> st \<noteq> PE_STATE_VERIFY_RESPONSE)"
  by (simp add: inv_defs)

lemma class_inv_recv_msg [simp]: "class_inv s \<Longrightarrow> class_inv (s\<lparr>recv_msg := m\<rparr>) = opt_msg_wf m"
  by (simp add: inv_defs)

lemma class_inv_works [simp]: "class_inv s \<Longrightarrow> class_inv (s\<lparr>works := ws\<rparr>) = distinct ws"
  by (simp add: inv_defs)

lemma class_inv_works_tl [inv]: "class_inv s \<Longrightarrow> works s = w # ws \<Longrightarrow> class_inv (s\<lparr>works := ws\<rparr>)"
  by (simp add: inv_defs)

lemma inv_small [inv]:
  assumes "class_inv s"
  shows "class_inv (snd (kzalloc s))" "class_inv (emit x s)" "class_inv (ufcs_send_state n s)"
    "class_inv (kthread_queue_work w s)" "class_inv (kthread_cancel_work w s)"
  using assms
  by (auto simp: kzalloc_def emit_def ufcs_send_state_def kthread_queue_work_def
      kthread_cancel_work_def inv_defs split: list.split)

lemma inv_free_event [inv]: "class_inv s \<Longrightarrow> class_inv (ufcs_free_event e s)"
  by (auto simp: ufcs_free_event_def inv_defs list_all_iff distinct_map inj_on_def)

lemma inv_free_all [inv]: "class_inv s \<Longrightarrow> class_inv (ufcs_free_all_event s)"
  by (simp add: ufcs_free_all_event_def inv_defs)

lemma event_wf_mono: "event_wf n e \<Longrightarrow> n \<le> k \<Longrightarrow> event_wf k e"
  by (simp add: event_wf_def)

lemma class_inv_events:
  assumes "class_inv s" and "distinct (map ev_id es)" and "list_all (event_wf n) es"
  shows "class_inv (s\<lparr>events := es, next_id := n, ev_ack := a\<rparr>)"
  using assms by (simp add: inv_defs)

lemma inv_push_event [inv]:
  assumes "class_inv s" and "opt_msg_wf m"
    and "case d of Some (Verify_data _ r) \<Rightarrow> length r = UFCS_VERIFY_RANDOM_DATA_SIZE | _ \<Rightarrow> True"
  shows "class_inv (ufcs_push_event t m d s)"
proof -
  have ev: "distinct (map ev_id (events s))" "list_all (event_wf (next_id s)) (events s)"
    using assms(1) by (simp_all add: class_inv_def queue_inv_def)
  then have "list_all (event_wf (Suc (next_id s))) (events s)"
    by (auto simp: list_all_iff intro: event_wf_mono)
  moreover have "next_id s \<notin> ev_id ` set (events s)"
    using ev(2) by (auto simp: list_all_iff event_wf_def)
  ultimately show ?thesis
    unfolding ufcs_push_event_def using assms ev(1)
    by (intro class_inv_events) (simp_all add: event_wf_def)
qed

lemma class_inv_timers [simp]:
  "class_inv s \<Longrightarrow> class_inv (s\<lparr>timer_on := f\<rparr>) = list_all (\<lambda>t. f t \<longrightarrow> timeout_event s t) event_timers"
  "class_inv s \<Longrightarrow> class_inv (s\<lparr>timer_on := f, timeout_event := g\<rparr>) = list_all (\<lambda>t. f t \<longrightarrow> g t) event_timers"
  "class_inv s \<Longrightarrow> class_inv (s\<lparr>timeout_event := g, timer_on := f\<rparr>) = list_all (\<lambda>t. f t \<longrightarrow> g t) event_timers"
  by (simp_all add: class_inv_def timer_inv_def queue_inv_def table_inv_def)

lemma timer_invD: "class_inv s \<Longrightarrow> t \<in> set event_timers \<Longrightarrow> timer_on s t \<Longrightarrow> timeout_event s t"
  by (simp add: class_inv_def timer_inv_def list_all_iff)

lemma inv_hrtimers [inv]:
  assumes "class_inv s"
  shows "class_inv (hrtimer_cancel t s)" "class_inv (stop_event_timer t s)"
    "t \<notin> set event_timers \<Longrightarrow> class_inv (hrtimer_start t s)"
  using assms timer_invD [OF assms]
  by (auto simp: hrtimer_cancel_def hrtimer_start_def stop_event_timer_def Let_def list_all_iff)

lemma inv_hrtimer_start: "class_inv s \<Longrightarrow> timeout_event s t \<Longrightarrow> class_inv (hrtimer_start t s)"
  using timer_invD [of s] by (auto simp: hrtimer_start_def list_all_iff)

lemma hrtimer_cancel_off [simp]: "\<not> timer_on (hrtimer_cancel t s) t"
  by (simp add: hrtimer_cancel_def)

lemma inv_start_event_timer [inv]:
  assumes "class_inv s" shows "class_inv (start_event_timer t s)"
  using assms timer_invD [OF assms] inv_small(1) [OF assms]
  by (auto simp: start_event_timer_def Let_def case_prod_unfold list_all_iff hrtimer_start_def inv_hrtimer_start)

section \<open>Timers, flags, resets\<close>

lemma inv_timer_wrappers [inv]:
  assumes "class_inv s"
  shows "class_inv (start_ack_receive_timer s)" "class_inv (start_msg_trans_delay_timer s)"
    "class_inv (start_sender_response_timer s)" "class_inv (start_power_supply_timer s)"
    "class_inv (start_cable_info_timer s)" "class_inv (start_restart_trans_timer s)"
    "class_inv (start_handshake_timer s)" "class_inv (start_wait_msg_timer s)"
    "class_inv (start_emark_response_timer s)" "class_inv (start_cable_trans_timer s)"
    "class_inv (stop_ack_receive_timer s)" "class_inv (stop_msg_trans_delay_timer s)"
    "class_inv (stop_sender_response_timer s)" "class_inv (stop_power_supply_timer s)"
    "class_inv (stop_cable_info_timer s)" "class_inv (stop_restart_trans_timer s)"
    "class_inv (stop_handshake_timer s)" "class_inv (stop_wait_msg_timer s)"
    "class_inv (stop_emark_response_timer s)" "class_inv (stop_cable_trans_timer s)"
  using assms by (auto simp: timer_defs event_timers_def intro!: inv)

lemma class_inv_event_taken:
  assumes "class_inv s" and "\<not> timer_on s t"
  shows "class_inv (s\<lparr>timeout_event := (timeout_event s)(t := False)\<rparr>)"
  using assms by (auto simp: class_inv_def timer_inv_def queue_inv_def table_inv_def list_all_iff)

lemma inv_event_timeout [inv]:
  "class_inv s \<Longrightarrow> \<not> timer_on s t \<Longrightarrow> class_inv (event_timeout t s)"
  by (auto simp: event_timeout_def Let_def intro!: inv class_inv_event_taken)

lemma inv_timer_expire [inv]: "class_inv s \<Longrightarrow> class_inv (timer_expire t s)"
  by (cases t)
    (auto simp: timer_expire_def ack_receive_timeout_def msg_trans_delay_timeout_def Let_def
      sender_response_timeout_def sender_emark_timeout_def power_supply_timeout_def
      cable_info_timeout_def restart_trans_timeout_def cable_trans_timeout_def handshake_timeout_def
      wait_msg_timeout_def inv)

lemma class_inv_fifo [simp]:
  "class_inv s \<Longrightarrow> class_inv (s\<lparr>err_flag_fifo := fs\<rparr>) = (length fs \<le> env_fifo_slots s)"
  "class_inv s \<Longrightarrow> class_inv (s\<lparr>err_flag_fifo := fs, dev_err_flag := f\<rparr>) = (length fs \<le> env_fifo_slots s)"
  by (simp_all add: class_inv_def queue_inv_def table_inv_def timer_inv_def)

lemma class_inv_fifoD: "class_inv s \<Longrightarrow> length (err_flag_fifo s) \<le> env_fifo_slots s"
  by (simp add: class_inv_def queue_inv_def)

lemma inv_error_flags [inv]:
  assumes "class_inv s"
  shows "class_inv (ufcs_clr_error_flag s)" "class_inv (snd (ufcs_set_error_flag f s))"
    "class_inv (snd (ufcs_get_error_flag s))"
  using assms class_inv_fifoD [OF assms]
  by (auto simp: ufcs_clr_error_flag_def ufcs_set_error_flag_def ufcs_get_error_flag_def
      split: list.split)

lemma inv_clean_process_info [inv]: "class_inv s \<Longrightarrow> class_inv (ufcs_clean_process_info s)"
  by (auto simp: ufcs_clean_process_info_def class_inv_def queue_inv_def table_inv_def timer_inv_def)

lemma inv_exit_sm_work [inv]: "class_inv s \<Longrightarrow> class_inv (ufcs_exit_sm_work s)"
  using inv_free_all [of s]
  by (simp add: ufcs_exit_sm_work_def Let_def class_inv_def queue_inv_def table_inv_def
      timer_inv_def sender_inv_def)

lemma inv_reset_sm_work [inv]: "class_inv s \<Longrightarrow> class_inv (ufcs_reset_sm_work s)"
  using inv_free_all [of s]
  by (simp add: ufcs_reset_sm_work_def Let_def class_inv_def queue_inv_def table_inv_def
      timer_inv_def sender_inv_def)

lemma inv_hard_resets [inv]:
  assumes "class_inv s"
  shows "class_inv (snd (ufcs_source_hard_reset s))" "class_inv (snd (ufcs_intf_source_hard_reset s))"
    "class_inv (snd (ufcs_cable_hard_reset s))" "class_inv (snd (ufcs_intf_cable_hard_reset s))"
    "class_inv (force_exit_tail s)"
  using assms
  by (auto simp: ufcs_source_hard_reset_def ufcs_intf_source_hard_reset_def ufcs_cable_hard_reset_def
      ufcs_intf_cable_hard_reset_def force_exit_tail_def Let_def intro!: inv)

lemma inv_deliver [inv]: "class_inv s \<Longrightarrow> class_inv (deliver i s)"
  by (cases i) (auto simp: Let_def ufcs_msg_handler_def split: option.split intro!: inv)

lemma inv_event_reset [inv]: "class_inv s \<Longrightarrow> class_inv (ufcs_event_reset s)"
  by (simp add: ufcs_event_reset_def ufcs_msg_sender_reset_def)

lemma sleep_until_inv:
  assumes "sleep_until P drain s = Some s'" and "class_inv s"
    and "\<And>s s'. drain s = Some s' \<Longrightarrow> class_inv s \<Longrightarrow> class_inv s'"
  shows "class_inv s'"
  using sleep_until_invariant [where Q = class_inv, OF assms(1,2)] assms(3) by (simp add: inv)

section \<open>Sending\<close>

lemma message_wf [simp]:
  "msg_wf (ctrl_message c i)" "msg_wf (oplus_message t i)"
  "length payload \<le> UFCS_DATA_MSG_DATA_SIZE_MAX \<Longrightarrow> msg_wf (data_message d payload i)"
  by (simp_all add: ctrl_message_def oplus_message_def data_message_def msg_wf_def zero_msg_def
      put_bytes_def msg_sizes)

lemma pack_msg_wf: "ufcs_pack_msg c msg n = Inr (bs, msg') \<Longrightarrow> msg_wf msg \<Longrightarrow> msg_wf msg'"
  by (auto simp: ufcs_pack_msg_def Let_def split: if_splits option.splits ufcs_msg_type.splits)

lemma write_msg_inv:
  assumes "ufcs_write_msg msg s = (rc, msg', s')" and "class_inv s" and "msg_wf msg"
  shows "class_inv s'" and "msg_wf msg'"
  using assms
  by (auto simp: ufcs_write_msg_def Let_def inv
      split: sum.splits prod.splits list.splits if_splits intro: pack_msg_wf)

lemma inv_send_attempt [inv]:
  "class_inv s \<Longrightarrow> msg_wf msg \<Longrightarrow> class_inv (ufcs_send_attempt msg b s)"
  using write_msg_inv [of msg s]
  by (auto simp: ufcs_send_attempt_def Let_def inv split: prod.split)

lemma sender_msg_wf: "class_inv s \<Longrightarrow> opt_msg_wf (s_msg (sender s))"
  by (simp add: class_inv_def sender_inv_def)

lemma inv_msg_send_work [inv]: "class_inv s \<Longrightarrow> class_inv (ufcs_msg_send_work s)"
  using sender_msg_wf [of s]
  by (auto simp: ufcs_msg_send_work_def Let_def inv split: option.split msg_send_status.split)

text \<open>What a sender relies on: the worker that runs while it sleeps keeps the invariant.\<close>

locale sender_worker =
  fixes drain :: "ufcs_class \<Rightarrow> ufcs_class option"
  assumes drain_inv: "drain s = Some s' \<Longrightarrow> class_inv s \<Longrightarrow> class_inv s'"
begin

lemma wait_sender_ack_inv: "wait_sender_ack drain s = Some s' \<Longrightarrow> class_inv s \<Longrightarrow> class_inv s'"
  by (auto simp: wait_sender_ack_def bind_eq_Some_conv
      dest!: sleep_until_inv [OF _ _ drain_inv] dest: drain_inv)

lemma do_send_inv:
  assumes "do_ufcs_send_msg drain msg s = Some (rc, msg', s')" and "class_inv s" and "msg_wf msg"
  shows "class_inv s'" and "msg_wf msg'"
proof -
  let ?s1 = "kthread_queue_work Msg_send_work
    (s\<lparr>sender := (sender s)\<lparr>s_msg := Some msg, s_retry := 0, s_ack := 0\<rparr>\<rparr>)"
  have "class_inv ?s1" using assms(2,3) by (simp add: inv)
  moreover obtain s2 where s2: "wait_sender_ack drain ?s1 = Some s2"
    using assms(1) by (auto simp: do_ufcs_send_msg_def bind_eq_Some_conv Let_def)
  ultimately have i: "class_inv s2"
    by (simp add: wait_sender_ack_inv)
  have "opt_msg_wf (s_msg (sender s2))" and "sender_inv (sender s2)"
    using sender_msg_wf [OF i] i by simp_all
  then show "class_inv s'" and "msg_wf msg'" using assms(1,3) s2 i
    by (auto simp: do_ufcs_send_msg_def Let_def inv split: option.splits)
qed

lemma send_msg_inv:
  "ufcs_send_msg drain sr msg retry s = Some (rc, s') \<Longrightarrow> class_inv s \<Longrightarrow> msg_wf msg \<Longrightarrow> class_inv s'"
  by (erule send_msg_invariant [where Q = msg_wf]) (auto simp: inv dest: do_send_inv)

lemma send_ctrl_inv: "ufcs_send_ctrl_msg drain c retry s = Some (rc, s') \<Longrightarrow> class_inv s \<Longrightarrow> class_inv s'"
  by (auto simp: ufcs_send_ctrl_msg_def case_prod_unfold Let_def inv split: if_splits
      dest!: send_msg_inv)

lemma send_oplus_inv:
  "ufcs_oplus_send_ctrl_msg drain t retry s = Some (rc, s') \<Longrightarrow> class_inv s \<Longrightarrow> class_inv s'"
  by (auto simp: ufcs_oplus_send_ctrl_msg_def case_prod_unfold Let_def inv split: if_splits
      dest!: send_msg_inv)

lemma send_payload_inv:
  "send_data_payload drain c payload retry s = Some (rc, s') \<Longrightarrow> class_inv s \<Longrightarrow>
   length payload \<le> UFCS_DATA_MSG_DATA_SIZE_MAX \<Longrightarrow> class_inv s'"
  by (auto simp: send_data_payload_def case_prod_unfold Let_def inv split: if_splits
      dest!: send_msg_inv)

lemma send_words_inv:
  assumes "class_inv s"
  shows "do_ufcs_send_data_msg_request drain w retry s = Some (rc, s') \<Longrightarrow> class_inv s'"
    and "do_ufcs_send_data_msg_sink_info drain w retry s = Some (rc, s') \<Longrightarrow> class_inv s'"
    and "do_ufcs_send_data_msg_dev_info drain w retry s = Some (rc, s') \<Longrightarrow> class_inv s'"
    and "do_ufcs_send_data_msg_err_info drain v retry s = Some (rc, s') \<Longrightarrow> class_inv s'"
    and "do_ufcs_send_data_msg_config_wd drain u retry s = Some (rc, s') \<Longrightarrow> class_inv s'"
    and "do_ufcs_send_data_msg_refuse drain v retry s = Some (rc, s') \<Longrightarrow> class_inv s'"
    and "do_ufcs_send_data_msg_verify_request drain i random retry s = Some (rc, s') \<Longrightarrow>
      length random = UFCS_VERIFY_RANDOM_DATA_SIZE \<Longrightarrow> class_inv s'"
  using assms
  by (auto simp: do_ufcs_send_data_msg_request_def do_ufcs_send_data_msg_sink_info_def
      do_ufcs_send_data_msg_dev_info_def do_ufcs_send_data_msg_err_info_def
      do_ufcs_send_data_msg_config_wd_def do_ufcs_send_data_msg_refuse_def
      do_ufcs_send_data_msg_verify_request_def msg_sizes dest!: send_payload_inv)

end

interpretation no_worker: sender_worker Some
  by unfold_locales simp

section \<open>Receiving\<close>

lemma inv_alloc_and_push [inv]: "class_inv s \<Longrightarrow> class_inv (alloc_and_push t s)"
  by (simp add: alloc_and_push_def case_prod_unfold Let_def inv)

lemma inv_receive [inv]:
  assumes "class_inv s"
  shows "class_inv (snd (ufcs_recv_ack_nck_msg cmd s))" "class_inv (snd (ufcs_check_handshake s))"
    "class_inv (snd (ufcs_check_error_info flag s))" "class_inv (snd (snd (read_msg s)))"
    "class_inv (rearm_trans_delay s)"
  using assms
  by (auto simp: ufcs_recv_ack_nck_msg_def ufcs_check_handshake_def ufcs_check_error_info_def
      sender_gives_up_def note_exit_ack_def read_msg_def rearm_trans_delay_def Let_def inv
      split: list.split option.split)

lemma inv_recv_round [inv]: "class_inv s \<Longrightarrow> class_inv (recv_round s)"
  by (auto simp: recv_round_def case_prod_unfold Let_def inv split: option.split
      dest: ufcs_unpack_msg_wf)

lemma inv_recv_work [inv]: "class_inv s \<Longrightarrow> class_inv (ufcs_recv_work s)"
  by (rule recv_work_invariant) (auto simp: inv)

lemma recv_msg_wf: "class_inv s \<Longrightarrow> opt_msg_wf (recv_msg s)"
  by (simp add: class_inv_def queue_inv_def)

lemma event_work_inv: "ufcs_event_work s = Some s' \<Longrightarrow> class_inv s \<Longrightarrow> class_inv s'"
  using recv_msg_wf [of s]
  by (auto simp: ufcs_event_work_def ufcs_process_event_def case_prod_unfold Let_def bind_eq_Some_conv inv
      split: option.splits if_splits dest!: no_worker.send_ctrl_inv)

lemma run_work_inv: "run_work w s = Some s' \<Longrightarrow> class_inv s \<Longrightarrow> class_inv s'"
  by (cases w) (auto simp: inv dest: event_work_inv)

lemma run_worker_inv: "run_worker s = Some s' \<Longrightarrow> class_inv s \<Longrightarrow> class_inv s'"
  using run_worker_invariant [where P = class_inv] run_work_inv class_inv_works_tl by blast

interpretation worker: sender_worker run_worker
  by unfold_locales (rule run_worker_inv)

section \<open>Fetching events\<close>

lemmas send_word_functions =
  ufcs_send_data_msg_request_def ufcs_send_data_msg_request_retry_def
  ufcs_send_data_msg_sink_info_def ufcs_send_data_msg_dev_info_def ufcs_send_data_msg_err_info_def
  ufcs_send_data_msg_config_wd_retry_def ufcs_send_data_msg_refuse_def
  ufcs_send_data_msg_verify_request_retry_def ufcs_send_dev_info_def

lemma wait_event_ack_inv: "wait_event_ack s = Some s' \<Longrightarrow> class_inv s \<Longrightarrow> class_inv s'"
  by (auto simp: wait_event_ack_def bind_eq_Some_conv dest!: sleep_until_inv [OF _ _ run_worker_inv])

lemma unsupported_inv: "ufcs_handle_unsupported_msg m s = Some s' \<Longrightarrow> class_inv s \<Longrightarrow> class_inv s'"
  by (auto simp: ufcs_handle_unsupported_msg_def bind_eq_Some_conv send_word_functions
      dest: worker.send_words_inv)

lemma get_next_event_inv:
  "ufcs_get_next_event s = Some (eo, s') \<Longrightarrow> class_inv s \<Longrightarrow> class_inv s' \<and> fetched eo s'"
  by (erule get_next_event_invariant [where P = class_inv])
    (auto simp: inv dest: wait_event_ack_inv unsupported_inv)

lemma fetched_event_wf:
  "class_inv s \<Longrightarrow> fetched (Some e) s \<Longrightarrow> event_wf (next_id s) e"
  by (cases "events s") (auto simp: class_inv_def queue_inv_def)

end
