(* ===== verification/Ufcs_Pe_Invariant.thy ===== *)
theory Ufcs_Pe_Invariant
  imports Ufcs_Invariant
begin

text \<open>
  The handlers of the policy engine keep the invariant of the class device, and a handler that
  serves a request has woken the requester when it returns. The exchanges are loops between two
  labels; their contracts are locales, interpreted on the exchanges of the code.
\<close>

section \<open>Exchanges\<close>


text \<open>The part of the engine's state that tells whoever waits that a handler is done.\<close>

definition settled :: "ufcs_class \<Rightarrow> bool" where
  "settled s \<longleftrightarrow> st_curr s = PE_STATE_SOFT_RESET \<or> (st_curr s = PE_STATE_IDEL \<and> completed (request_ack s))"

definition at_return :: "(ufcs_class \<Rightarrow> bool) \<Rightarrow> 'v pe_goto \<Rightarrow> ufcs_class \<Rightarrow> bool" where
  "at_return Q g s = (case g of Return_rc _ \<Rightarrow> Q s | _ \<Rightarrow> True)"

lemma at_return_simps [simp]:
  "at_return Q (Return_rc rc) s = Q s" "at_return Q (Goto_retry v) s" "at_return Q (Goto_re_recv v) s"
  by (simp_all add: at_return_def)

lemma settled_frame [simp]:
  "settled (ufcs_free_event e s) = settled s" "settled (emit x s) = settled s"
  "settled (ufcs_send_state n s) = settled s"
  "settled (s\<lparr>handshake_success := b\<rparr>) = settled s"
  by (simp_all add: settled_def)

lemma reset_settles [simp]:
  "st_curr (ufcs_reset_sm_work s) = PE_STATE_IDEL" "completed (request_ack (ufcs_reset_sm_work s))"
  by (simp_all add: ufcs_reset_sm_work_def Let_def)

lemma settled_exit [simp]: "settled (ufcs_exit_sm_work s)" "settled (ufcs_reset_sm_work s)"
  by (simp_all add: settled_def ufcs_exit_sm_work_def ufcs_reset_sm_work_def Let_def)

lemma settled_clean [simp]: "settled (ufcs_clean_process_info s) = settled s"
  by (simp add: settled_def ufcs_clean_process_info_def)

lemma hard_reset_settles [simp]:
  "st_curr (snd (ufcs_source_hard_reset s)) = PE_STATE_IDEL"
  "completed (request_ack (snd (ufcs_source_hard_reset s)))"
  by (simp_all add: ufcs_source_hard_reset_def ufcs_clean_process_info_def ufcs_exit_sm_work_def Let_def)

lemma pe_error_settles [simp]:
  "st_curr (pe_error eo s) = PE_STATE_IDEL" "completed (request_ack (pe_error eo s))"
  by (simp_all add: pe_error_def)

lemma settled_resets [simp]: "settled (snd (ufcs_source_hard_reset s))" "settled (pe_error eo s)"
  by (simp_all add: settled_def)

lemma exit_settles [simp]:
  "st_curr (ufcs_exit_sm_work s) = PE_STATE_IDEL" "completed (request_ack (ufcs_exit_sm_work s))"
  by (simp_all add: ufcs_exit_sm_work_def Let_def)

lemma inv_pe_error [inv]: "class_inv s \<Longrightarrow> class_inv (pe_error eo s)"
  by (auto simp: pe_error_def inv split: option.split)

lemma inv_pe_no_data [inv]: "class_inv s \<Longrightarrow> class_inv (pe_no_data e s)"
  by (simp add: pe_no_data_def inv)

lemma event_msg_wf: "event_wf n e \<Longrightarrow> opt_msg_wf (ev_msg e)"
  by (simp add: event_wf_def)

lemma fetchedE:
  assumes "ufcs_get_next_event s = Some (eo, s')" and "class_inv s"
  shows "class_inv s'" and "eo = Some e \<Longrightarrow> opt_msg_wf (ev_msg e)"
  using get_next_event_inv [OF assms] fetched_event_wf [of s' e] event_msg_wf by auto

lemma exit_timers [simp]:
  "timer_on (ufcs_exit_sm_work s) = timer_on s" "ev_exit (ufcs_exit_sm_work s) = ev_exit s"
  "timer_on (ufcs_clean_process_info s) = timer_on s" "ev_exit (ufcs_clean_process_info s) = ev_exit s"
  by (simp_all add: ufcs_exit_sm_work_def ufcs_clean_process_info_def Let_def)

lemma pe_error_timers [simp]:
  "timer_on (pe_error eo s) = timer_on s" "ev_exit (pe_error eo s) = ev_exit s"
  by (simp_all add: pe_error_def ufcs_source_hard_reset_def Let_def split: option.split)

lemma stop_event_timer_off [simp]:
  "timer_on (stop_event_timer t s) t' = (t' \<noteq> t \<and> timer_on s t')"
  by (simp add: stop_event_timer_def hrtimer_cancel_def Let_def)

definition x_done :: "ufcs_class \<Rightarrow> bool" where
  "x_done s \<longleftrightarrow> settled s \<and> (timer_on s SENDER_RESPONSE_TIMER \<longrightarrow> ev_exit s)"

text \<open>What the five handlers with one answer rely on.\<close>

locale exchange_contract =
  fixes x :: exchange
  assumes send_inv: "x_send x s = Some (rc, s') \<Longrightarrow> class_inv s \<Longrightarrow> class_inv s'"
    and take_inv: "class_inv s \<Longrightarrow> opt_msg_wf m \<Longrightarrow> class_inv (x_take x m s)"
    and take_timers: "timer_on (x_take x m s) = timer_on s"
begin

lemma retry_inv: "x_retry x v s = Some (g, s') \<Longrightarrow> class_inv s \<Longrightarrow> class_inv s'"
  by (auto simp: x_retry_def x_err_def bind_eq_Some_conv inv split: if_splits dest: send_inv)

lemma refused_inv: "x_refused x v e msg s = Some (g, s') \<Longrightarrow> class_inv s \<Longrightarrow> class_inv s'"
  by (auto simp: x_refused_def x_err_def x_exit_def Let_def bind_eq_Some_conv inv split: if_splits
      dest!: worker.send_ctrl_inv)

lemma recv_inv:
  assumes "x_recv x v s = Some (g, s')" and "class_inv s" shows "class_inv s'"
proof -
  obtain eo s1 where f: "ufcs_get_next_event s = Some (eo, s1)"
    using assms(1) by (auto simp: x_recv_def bind_eq_Some_conv)
  note i = fetchedE [OF f assms(2)]
  show ?thesis using assms(1) f i
    by (auto simp: x_recv_def x_err_def x_exit_def inv take_inv split: option.splits if_splits
      dest: refused_inv)
qed

lemma retry_done: "x_retry x v s = Some (g, s') \<Longrightarrow> at_return x_done g s'"
  by (auto simp: x_retry_def x_err_def bind_eq_Some_conv x_done_def timer_defs split: if_splits)

lemma refused_done: "x_refused x v e msg s = Some (g, s') \<Longrightarrow> at_return x_done g s'"
  by (auto simp: x_refused_def x_err_def x_exit_def Let_def bind_eq_Some_conv x_done_def
      settled_def timer_defs split: if_splits)

lemma recv_done:
  assumes "x_recv x v s = Some (g, s')" shows "at_return x_done g s'"
proof -
  obtain eo s1 where f: "ufcs_get_next_event s = Some (eo, s1)"
    using assms(1) by (auto simp: x_recv_def bind_eq_Some_conv)
  show ?thesis using assms(1) f fetch_fetched [OF f]
    by (auto simp: x_recv_def x_err_def x_exit_def x_done_def settled_def timer_defs take_timers
      split: option.splits if_splits dest: refused_done)
qed

end

sublocale exchange_contract \<subseteq> inv_loop: pe_loop "x_retry x" "x_recv x" "\<lambda>_. class_inv"
  by unfold_locales (auto dest: retry_inv recv_inv)

sublocale exchange_contract \<subseteq> done_loop: pe_loop "x_retry x" "x_recv x" "at_return x_done"
  by unfold_locales (auto dest: retry_done recv_done)

context exchange_contract
begin

lemma run_inv: "x_run x s = Some s' \<Longrightarrow> class_inv s \<Longrightarrow> class_inv s'"
  by (auto simp: x_run_def bind_eq_Some_conv dest: inv_loop.run)

lemma run_done: "x_run x s = Some s' \<Longrightarrow> x_done s'"
  by (auto simp: x_run_def bind_eq_Some_conv dest: done_loop.run)

end

lemma class_inv_tables [simp]:
  "class_inv s \<Longrightarrow> class_inv (s\<lparr>pdo_num := n, pdo_data := xs\<rparr>) =
     (n \<le> UFCS_OUTPUT_MODE_MAX \<and> length xs = UFCS_OUTPUT_MODE_MAX)"
  "class_inv s \<Longrightarrow> class_inv (s\<lparr>pie_num := n, pie_data := xs\<rparr>) =
     (n \<le> UFCS_OPLUS_VND_POWER_INFO_MAX \<and> length xs = UFCS_OPLUS_VND_POWER_INFO_MAX)"
  "class_inv s \<Longrightarrow> class_inv (s\<lparr>pwr_change_info := ys\<rparr>) = (length ys = UFCS_OUTPUT_MODE_MAX)"
  "class_inv s \<Longrightarrow> class_inv (s\<lparr>verify_random := zs\<rparr>) = (length zs = UFCS_VERIFY_RANDOM_DATA_SIZE)"
  "class_inv s \<Longrightarrow> class_inv (s\<lparr>verify_auth := zs\<rparr>) = (length zs = UFCS_VERIFY_AUTH_DATA_SIZE)"
  "class_inv s \<Longrightarrow> class_inv (s\<lparr>source_data := zs\<rparr>) = source_padded zs"
  by (auto simp: class_inv_def table_inv_def queue_inv_def timer_inv_def)

lemma class_inv_tablesD:
  assumes "class_inv s"
  shows "length (pdo_data s) = UFCS_OUTPUT_MODE_MAX" "length (pie_data s) = UFCS_OPLUS_VND_POWER_INFO_MAX"
    "length (pwr_change_info s) = UFCS_OUTPUT_MODE_MAX" "pdo_num s \<le> UFCS_OUTPUT_MODE_MAX"
    "source_padded (source_data s)" "length (verify_random s) = UFCS_VERIFY_RANDOM_DATA_SIZE"
    "length (verify_auth s) = UFCS_VERIFY_AUTH_DATA_SIZE"
  using assms by (simp_all add: class_inv_def table_inv_def)

lemma ctrl_exchange_contract:
  assumes "\<And>s msg. class_inv s \<Longrightarrow> msg_wf msg \<Longrightarrow> class_inv (take_msg msg s)"
    and "\<And>s msg. timer_on (take_msg msg s) = timer_on s"
  shows "exchange_contract (ctrl_exchange c reply take_msg)"
  by unfold_locales
    (auto simp: ctrl_exchange_def assms split: option.split dest: worker.send_ctrl_inv)

interpretation output_cap: exchange_contract
  "ctrl_exchange CTRL_MSG_GET_OUTPUT_CAPABILITIES UFCS_EVENT_RECV_OUTPUT_CAP take_output_cap"
proof (rule ctrl_exchange_contract)
  fix s msg assume "class_inv s"
  then show "class_inv (take_output_cap msg s)"
    using take_words_length [of "map (dm_u64 (data_msg msg)) [0..<UFCS_OUTPUT_MODE_MAX]" "pdo_data s"]
    by (simp add: take_output_cap_def case_prod_unfold Let_def class_inv_tablesD)
qed (simp add: take_output_cap_def case_prod_unfold Let_def)

interpretation src_info: exchange_contract
  "ctrl_exchange CTRL_MSG_GET_SOURCE_INFO UFCS_EVENT_RECV_SOURCE_INFO
     (\<lambda>msg s. s\<lparr>src_info := dm_u64 (data_msg msg) 0\<rparr>)"
  by (rule ctrl_exchange_contract) simp_all

interpretation dev_info: exchange_contract
  "ctrl_exchange CTRL_MSG_GET_DEVICE_INFO UFCS_EVENT_RECV_DEVICE_INFO take_dev_info"
  by (rule ctrl_exchange_contract) (auto simp: take_dev_info_def Let_def inv)

interpretation err_info: exchange_contract
  "ctrl_exchange CTRL_MSG_GET_ERROR_INFO UFCS_EVENT_RECV_ERROR_INFO
     (\<lambda>msg s. s\<lparr>err_info := dm_u32 (data_msg msg) 0\<rparr>)"
  by (rule ctrl_exchange_contract) simp_all

interpretation config_wd: exchange_contract "config_wd_exchange ms"
  by unfold_locales
    (auto simp: config_wd_exchange_def send_word_functions dest: worker.send_words_inv)

section \<open>The power request\<close>

lemma inv_request_stop [inv]: "class_inv s \<Longrightarrow> class_inv (request_stop s)"
  by (simp add: request_stop_def inv)

lemma request_refused_inv: "request_refused v e msg s = Some (g, s') \<Longrightarrow> class_inv s \<Longrightarrow> class_inv s'"
  by (auto simp: request_refused_def request_err_def request_exit_def Let_def bind_eq_Some_conv inv
      split: if_splits dest!: worker.send_ctrl_inv)

lemma request_recv_inv:
  assumes "request_recv v s = Some (g, s')" and "class_inv s" shows "class_inv s'"
proof -
  obtain eo s1 where f: "ufcs_get_next_event s = Some (eo, s1)"
    using assms(1) by (auto simp: request_recv_def bind_eq_Some_conv)
  show ?thesis using assms(1) f fetchedE [OF f assms(2)]
    by (auto simp: request_recv_def request_err_def request_exit_def inv
      split: option.splits if_splits dest: request_refused_inv)
qed

interpretation request_inv: pe_loop "request_retry r" request_recv "\<lambda>_. class_inv"
proof
  fix v s g s' assume "request_retry r v s = Some (g, s')" and "class_inv s"
  then show "class_inv s'"
    by (auto simp: request_retry_def request_err_def send_word_functions bind_eq_Some_conv inv
        split: prod.splits if_splits dest: worker.send_words_inv)
qed (rule request_recv_inv)

lemma request_refused_done: "request_refused v e msg s = Some (g, s') \<Longrightarrow> at_return settled g s'"
  by (auto simp: request_refused_def request_err_def request_exit_def Let_def bind_eq_Some_conv
      settled_def split: if_splits)

lemma request_recv_done:
  assumes "request_recv v s = Some (g, s')" shows "at_return settled g s'"
proof -
  obtain eo s1 where f: "ufcs_get_next_event s = Some (eo, s1)"
    using assms(1) by (auto simp: request_recv_def bind_eq_Some_conv)
  show ?thesis using assms(1) f
    by (auto simp: request_recv_def request_err_def request_exit_def settled_def
      split: option.splits if_splits dest: request_refused_done)
qed

interpretation request_done: pe_loop "request_retry r" request_recv "at_return settled"
proof
  fix v s g s' assume "request_retry r v s = Some (g, s')"
  then show "at_return settled g s'"
    by (auto simp: request_retry_def request_err_def bind_eq_Some_conv split: prod.splits if_splits)
qed (rule request_recv_done)

section \<open>Authentication and handshake\<close>

lemma inv_verify_stop [inv]: "class_inv s \<Longrightarrow> class_inv (verify_stop s)"
  by (simp add: verify_stop_def inv)

lemma vr_random_length: "msg_wf m \<Longrightarrow> length (vr_random_data (data_msg m)) = 16"
  by (simp add: vr_random_data_def msg_wf_def get_bytes_def msg_sizes)

lemma verify_digest:
  assumes "class_inv s" and "msg_wf msg"
  obtains src where "source_padded src"
    and "ufcs_get_encrypt_data (source_data s) (vr_random_data (data_msg msg)) (verify_random s)
           (verify_auth s) (replicate UFCS_VERIFY_ENCRYPTED_DATA_SIZE 0) =
         (src, sha256 (vr_random_data (data_msg msg) @ verify_auth s @ verify_random s))"
  using encrypt_data_sha256 [of "source_data s" "vr_random_data (data_msg msg)" "verify_random s"
      "verify_auth s" "replicate UFCS_VERIFY_ENCRYPTED_DATA_SIZE 0"]
    class_inv_tablesD [OF assms(1)] vr_random_length [OF assms(2)]
  by (auto simp: msg_sizes)

lemma inv_check_verify_response [inv]:
  assumes "class_inv s" and "msg_wf msg"
  shows "class_inv (ufcs_check_verify_response_msg msg s)"
  by (rule verify_digest [OF assms]) (simp add: ufcs_check_verify_response_msg_def assms)

lemma verify_refused_inv: "verify_refused v e msg s = Some (g, s') \<Longrightarrow> class_inv s \<Longrightarrow> class_inv s'"
  by (auto simp: verify_refused_def verify_err_def verify_exit_def Let_def bind_eq_Some_conv inv
      split: if_splits dest!: worker.send_ctrl_inv)

lemma verify_send_dev_info_inv:
  "verify_send_dev_info v e s = Some (g, s') \<Longrightarrow> class_inv s \<Longrightarrow> class_inv s'"
  by (auto simp: verify_send_dev_info_def verify_err_def send_word_functions bind_eq_Some_conv inv
      split: if_splits dest!: worker.send_words_inv [rotated])

lemma verify_recv_inv:
  assumes "verify_recv v s = Some (g, s')" and "class_inv s" shows "class_inv s'"
proof -
  obtain eo s1 where f: "ufcs_get_next_event s = Some (eo, s1)"
    using assms(1) by (auto simp: verify_recv_def bind_eq_Some_conv)
  show ?thesis using assms(1) f fetchedE [OF f assms(2)]
    by (auto simp: verify_recv_def verify_err_def verify_exit_def inv
      split: option.splits if_splits dest: verify_refused_inv verify_send_dev_info_inv)
qed

lemma verify_retry_inv:
  "verify_retry k r v s = Some (g, s') \<Longrightarrow> class_inv s \<Longrightarrow> length r = UFCS_VERIFY_RANDOM_DATA_SIZE \<Longrightarrow> class_inv s'"
  by (auto simp: verify_retry_def verify_err_def send_word_functions bind_eq_Some_conv inv
        split: if_splits dest: worker.send_words_inv)

interpretation verify_inv: pe_loop "verify_retry k r" verify_recv
  "\<lambda>_ s. class_inv s \<and> length r = UFCS_VERIFY_RANDOM_DATA_SIZE"
  by unfold_locales (auto dest: verify_retry_inv verify_recv_inv)

lemma verify_refused_done: "verify_refused v e msg s = Some (g, s') \<Longrightarrow> at_return settled g s'"
  by (auto simp: verify_refused_def verify_err_def verify_exit_def Let_def bind_eq_Some_conv
      settled_def split: if_splits)

lemma verify_send_dev_info_done: "verify_send_dev_info v e s = Some (g, s') \<Longrightarrow> at_return settled g s'"
  by (auto simp: verify_send_dev_info_def verify_err_def bind_eq_Some_conv split: if_splits)

lemma check_verify_completes [simp]: "completed (request_ack (ufcs_check_verify_response_msg msg s))"
  by (simp add: ufcs_check_verify_response_msg_def case_prod_unfold Let_def)

lemma verify_recv_done:
  assumes "verify_recv v s = Some (g, s')" shows "at_return settled g s'"
proof -
  obtain eo s1 where f: "ufcs_get_next_event s = Some (eo, s1)"
    using assms(1) by (auto simp: verify_recv_def bind_eq_Some_conv)
  show ?thesis using assms(1) f
    by (auto simp: verify_recv_def verify_err_def verify_exit_def settled_def
      split: option.splits if_splits dest: verify_refused_done verify_send_dev_info_done)
qed

interpretation verify_done: pe_loop "verify_retry k r" verify_recv "at_return settled"
proof
  fix v s g s' assume "verify_retry k r v s = Some (g, s')"
  then show "at_return settled g s'"
    by (auto simp: verify_retry_def verify_err_def bind_eq_Some_conv split: if_splits)
qed (rule verify_recv_done)

lemma try_baud_rates_inv: "try_baud_rates bs s = Some (ok, s') \<Longrightarrow> class_inv s \<Longrightarrow> class_inv s'"
proof (induction bs arbitrary: s)
  case (Cons b bs)
  then obtain rc s1 where
    m: "ufcs_send_ctrl_msg run_worker CTRL_MSG_PING False (emit (Io_set_baud_rate b) s) = Some (rc, s1)"
    by (auto simp: bind_eq_Some_conv)
  then have "class_inv s1" using Cons.prems(2) by (auto simp: inv dest: worker.send_ctrl_inv)
  then show ?case using Cons m by (auto split: if_splits)
qed simp

lemma handshake_recv_inv:
  assumes "handshake_recv n s = Some (g, s')" and "class_inv s" shows "class_inv s'"
proof -
  obtain eo s1 where f: "ufcs_get_next_event s = Some (eo, s1)"
    using assms(1) by (auto simp: handshake_recv_def bind_eq_Some_conv)
  show ?thesis using assms(1) f fetchedE [OF f assms(2)]
    by (auto simp: handshake_recv_def handshake_failed_def bind_eq_Some_conv inv
      split: option.splits if_splits dest!: try_baud_rates_inv)
qed

interpretation handshake_inv: pe_loop handshake_retry handshake_recv "\<lambda>_. class_inv"
  by unfold_locales (auto simp: handshake_retry_def inv dest: handshake_recv_inv)

lemma handshake_recv_done:
  assumes "handshake_recv n s = Some (g, s')" shows "at_return settled g s'"
proof -
  obtain eo s1 where f: "ufcs_get_next_event s = Some (eo, s1)"
    using assms(1) by (auto simp: handshake_recv_def bind_eq_Some_conv)
  show ?thesis using assms(1) f
    by (auto simp: handshake_recv_def handshake_failed_def bind_eq_Some_conv settled_def
      split: option.splits if_splits)
qed

interpretation handshake_done: pe_loop handshake_retry handshake_recv "at_return settled"
  by unfold_locales (auto simp: handshake_retry_def dest: handshake_recv_done)

section \<open>Cable and vendor exchanges\<close>

text \<open>A protocol error is reported with the engine idle or about to handle a soft reset.\<close>

definition eproto_settles :: "rc \<Rightarrow> ufcs_class \<Rightarrow> bool" where
  "eproto_settles rc s \<longleftrightarrow>
     (rc = - EPROTO \<longrightarrow> st_curr s = PE_STATE_IDEL \<or> st_curr s = PE_STATE_SOFT_RESET)"

definition sx_assertion :: "(bool \<times> rc) pe_goto \<Rightarrow> ufcs_class \<Rightarrow> bool" where
  "sx_assertion g s = (case g of
     Goto_retry _ \<Rightarrow> True | Goto_re_recv v \<Rightarrow> snd v \<ge> 0 | Return_rc rc \<Rightarrow> eproto_settles rc s)"

lemma sx_assertion_simps [simp]:
  "sx_assertion (Goto_retry v) s" "sx_assertion (Goto_re_recv v) s = (snd v \<ge> 0)"
  "sx_assertion (Return_rc rc) s = eproto_settles rc s"
  by (simp_all add: sx_assertion_def)

lemma refuse_result [simp]: "ufcs_check_refuse_msg m t c < 0" "ufcs_check_refuse_msg m t c \<noteq> - EPROTO"
  by (simp_all add: ufcs_check_refuse_msg_def Let_def)

lemma send_ctrl_no_eproto: "ufcs_send_ctrl_msg drain c retry s = Some (rc, s') \<Longrightarrow> rc \<noteq> - EPROTO"
  by (auto simp: ufcs_send_ctrl_msg_def case_prod_unfold Let_def split: if_splits dest: send_msg_result)

lemma send_oplus_no_eproto: "ufcs_oplus_send_ctrl_msg drain t retry s = Some (rc, s') \<Longrightarrow> rc \<noteq> - EPROTO"
  by (auto simp: ufcs_oplus_send_ctrl_msg_def case_prod_unfold Let_def split: if_splits
      dest: send_msg_result)

locale sub_exchange_contract =
  fixes x :: sub_exchange
  assumes send_inv: "sx_send x s = Some (rc, s') \<Longrightarrow> class_inv s \<Longrightarrow> class_inv s'"
    and timers_inv: "class_inv s \<Longrightarrow> class_inv (sx_start x s)" "class_inv s \<Longrightarrow> class_inv (sx_stop x s)"
    and take_inv: "class_inv s \<Longrightarrow> opt_msg_wf m \<Longrightarrow> class_inv (sx_take x m s)"
    and no_eproto: "sx_send x s = Some (rc, s') \<Longrightarrow> rc \<noteq> - EPROTO" "rc \<ge> 0 \<Longrightarrow> sx_result x rc \<ge> 0"
begin

lemma retry_inv: "sx_retry x v s = Some (g, s') \<Longrightarrow> class_inv s \<Longrightarrow> class_inv s'"
  by (auto simp: sx_retry_def sx_out_def bind_eq_Some_conv timers_inv split: if_splits dest: send_inv)

lemma refused_inv: "sx_refused x v e msg s = Some (g, s') \<Longrightarrow> class_inv s \<Longrightarrow> class_inv s'"
  by (auto simp: sx_refused_def sx_out_def sx_timeout_def Let_def bind_eq_Some_conv inv timers_inv
      split: if_splits dest!: worker.send_ctrl_inv)

lemma recv_inv:
  assumes "sx_recv x v s = Some (g, s')" and "class_inv s" shows "class_inv s'"
proof -
  obtain eo s1 where f: "ufcs_get_next_event s = Some (eo, s1)"
    using assms(1) by (auto simp: sx_recv_def bind_eq_Some_conv)
  show ?thesis using assms(1) f fetchedE [OF f assms(2)]
    by (auto simp: sx_recv_def sx_out_def sx_timeout_def inv take_inv timers_inv
      split: option.splits if_splits dest: refused_inv)
qed

lemma refused_done: "sx_refused x v e msg s = Some (g, s') \<Longrightarrow> sx_assertion g s'"
  by (auto simp: sx_refused_def sx_out_def sx_timeout_def Let_def bind_eq_Some_conv eproto_settles_def
      split: if_splits)

lemma recv_done:
  assumes "sx_recv x v s = Some (g, s')" and "snd v \<ge> 0" shows "sx_assertion g s'"
proof -
  obtain eo s1 where f: "ufcs_get_next_event s = Some (eo, s1)"
    using assms(1) by (auto simp: sx_recv_def bind_eq_Some_conv)
  show ?thesis using assms f no_eproto(2) [of "snd v"]
    by (auto simp: sx_recv_def sx_out_def sx_timeout_def eproto_settles_def
      split: option.splits if_splits dest: refused_done)
qed

end

sublocale sub_exchange_contract \<subseteq> inv_loop: pe_loop "sx_retry x" "sx_recv x" "\<lambda>_. class_inv"
  by unfold_locales (auto dest: retry_inv recv_inv)

sublocale sub_exchange_contract \<subseteq> done_loop: pe_loop "sx_retry x" "sx_recv x" sx_assertion
proof
  fix v s g s' assume "sx_retry x v s = Some (g, s')"
  then show "sx_assertion g s'"
    by (auto simp: sx_retry_def sx_out_def bind_eq_Some_conv eproto_settles_def
        split: if_splits dest: no_eproto(1))
qed (auto dest: recv_done)

context sub_exchange_contract
begin

lemma run_inv: "sx_run x s = Some (rc, s') \<Longrightarrow> class_inv s \<Longrightarrow> class_inv s'"
  by (auto simp: sx_run_def dest: inv_loop.run)

lemma run_done: "sx_run x s = Some (rc, s') \<Longrightarrow> eproto_settles rc s'"
  by (auto simp: sx_run_def dest: done_loop.run)

end

interpretation start_detect: sub_exchange_contract start_cable_detect_exchange
  by unfold_locales
    (auto simp: start_cable_detect_exchange_def inv dest: worker.send_ctrl_inv send_ctrl_no_eproto)

interpretation get_cable: sub_exchange_contract get_cable_info_exchange
  by unfold_locales
    (auto simp: get_cable_info_exchange_def inv split: option.split
      dest: worker.send_ctrl_inv send_ctrl_no_eproto)

interpretation emark: sub_exchange_contract emark_exchange
  by unfold_locales
    (auto simp: emark_exchange_def inv split: option.split dest: worker.send_oplus_inv send_oplus_no_eproto)

lemma take_power_info_inv:
  assumes "class_inv s"
  shows "class_inv (case take_words (pie_data s) (map f [0..<UFCS_OPLUS_VND_POWER_INFO_MAX]) of
    (n, xs) \<Rightarrow> s\<lparr>pie_num := n, pie_data := xs\<rparr>)"
  using take_words_length [of "map f [0..<UFCS_OPLUS_VND_POWER_INFO_MAX]" "pie_data s"]
  by (simp add: case_prod_unfold assms class_inv_tablesD)

interpretation power_info: sub_exchange_contract power_info_exchange
  by unfold_locales
    (auto simp: power_info_exchange_def inv Let_def take_power_info_inv split: option.split
      dest: worker.send_oplus_inv send_oplus_no_eproto)

section \<open>Acknowledgements are not lost while sending\<close>

abbreviation acked :: "ufcs_class \<Rightarrow> bool" where
  "acked s \<equiv> completed (request_ack s)"

lemma deliver_acked: "acked s \<Longrightarrow> acked (deliver i s)"
proof (cases i)
  case (In_timer t)
  then show "acked s \<Longrightarrow> acked (deliver i s)"
    by (cases t) (simp_all add: timeout_defs Let_def)
qed (simp_all add: Let_def ufcs_msg_handler_def ufcs_set_error_flag_def force_exit_tail_def split: option.split)

lemma request_ack_receive [simp]:
  "request_ack (snd (ufcs_recv_ack_nck_msg cmd s)) = request_ack s"
  "request_ack (snd (ufcs_check_handshake s)) = request_ack s"
  "request_ack (snd (ufcs_check_error_info flag s)) = request_ack s"
  "request_ack (snd (snd (read_msg s))) = request_ack s"
  "request_ack (rearm_trans_delay s) = request_ack s"
  by (simp_all add: ufcs_recv_ack_nck_msg_def ufcs_check_handshake_def ufcs_check_error_info_def
      sender_gives_up_def note_exit_ack_def read_msg_def rearm_trans_delay_def alloc_and_push_def
      case_prod_unfold Let_def timer_defs split: list.split option.split)

lemma recv_work_acked: "acked s \<Longrightarrow> acked (ufcs_recv_work s)"
  by (rule recv_work_invariant)
    (auto simp: recv_round_def ufcs_get_error_flag_def case_prod_unfold Let_def split: option.split list.split)

lemma request_ack_write [simp]: "request_ack (snd (snd (ufcs_write_msg msg s))) = request_ack s"
  by (simp add: ufcs_write_msg_def Let_def split: sum.split prod.split list.split)

lemma request_ack_send_work [simp]: "request_ack (ufcs_msg_send_work s) = request_ack s"
  by (simp add: ufcs_msg_send_work_def ufcs_send_attempt_def Let_def case_prod_unfold timer_defs
      split: option.split msg_send_status.split)

lemma wait_sender_ack_acked:
  assumes "wait_sender_ack drain s = Some s'" and "acked s"
    and "\<And>s s'. drain s = Some s' \<Longrightarrow> acked s \<Longrightarrow> acked s'"
  shows "acked s'"
proof -
  obtain s0 s1 where "drain s = Some s0" and w: "sleep_until (\<lambda>s. completed (s_ack (sender s))) drain s0 = Some s1"
    and s': "s' = s1\<lparr>sender := (sender s1)\<lparr>s_ack := completion_taken (s_ack (sender s1))\<rparr>\<rparr>"
    using assms(1) by (auto simp: wait_sender_ack_def bind_eq_Some_conv)
  then have "acked s0" using assms by blast
  with w have "acked s1"
    using sleep_until_invariant [where Q = acked, OF w] assms(3) by (simp add: deliver_acked)
  with s' show ?thesis by simp
qed

lemma send_ctrl_acked:
  assumes "ufcs_send_ctrl_msg drain c retry s = Some (rc, s')" and "acked s"
    and drain: "\<And>s s'. drain s = Some s' \<Longrightarrow> acked s \<Longrightarrow> acked s'"
  shows "acked s'"
proof -
  have do: "acked s'" if "do_ufcs_send_msg drain m s = Some (rc, m', s')" and "acked s" for m s rc m' s'
    using that wait_sender_ack_acked [OF _ _ drain]
    by (auto simp: do_ufcs_send_msg_def Let_def bind_eq_Some_conv timer_defs)
  have "acked s'" if "ufcs_send_msg drain sr m retry s = Some (rc, s')" and "acked s" for m s sr
    by (rule send_msg_invariant [where P = acked and Q = "\<lambda>_. True", OF that]) (auto dest: do)
  then show ?thesis using assms(1,2)
    by (auto simp: ufcs_send_ctrl_msg_def case_prod_unfold Let_def split: if_splits)
qed

lemma run_worker_acked: "run_worker s = Some s' \<Longrightarrow> acked s \<Longrightarrow> acked s'"
proof -
  have "acked s'" if "acked s" and "run_work w (s\<lparr>works := ws\<rparr>) = Some s'" for s s' w ws
    using that
    by (cases w) (auto simp: recv_work_acked ufcs_event_work_def ufcs_process_event_def case_prod_unfold Let_def
        bind_eq_Some_conv split: option.splits if_splits dest!: send_ctrl_acked)
  then show "run_worker s = Some s' \<Longrightarrow> acked s \<Longrightarrow> acked s'"
    using run_worker_invariant [where P = acked] by blast
qed

lemmas worker_send_acked = send_ctrl_acked [OF _ _ run_worker_acked]

section \<open>Detection of the cable by the source\<close>

lemma inv_detect_stop_all [inv]: "class_inv s \<Longrightarrow> class_inv (detect_stop_all s)"
  by (simp add: detect_stop_all_def inv)

lemma detect_timeout_inv: "detect_timeout v e s = Some (g, s') \<Longrightarrow> class_inv s \<Longrightarrow> class_inv s'"
  by (auto simp: detect_timeout_def Let_def inv)

lemma detect_refused_inv: "detect_refused v e msg s = Some (g, s') \<Longrightarrow> class_inv s \<Longrightarrow> class_inv s'"
  by (auto simp: detect_refused_def detect_out_def Let_def bind_eq_Some_conv inv
      split: if_splits dest!: worker.send_ctrl_inv detect_timeout_inv)

lemma detect_recv_inv:
  assumes "detect_recv v s = Some (g, s')" and "class_inv s" shows "class_inv s'"
proof -
  obtain eo s1 where f: "ufcs_get_next_event s = Some (eo, s1)"
    using assms(1) by (auto simp: detect_recv_def bind_eq_Some_conv)
  show ?thesis using assms(1) f fetchedE [OF f assms(2)]
    by (auto simp: detect_recv_def detect_out_def inv
      split: option.splits if_splits dest: detect_refused_inv detect_timeout_inv)
qed

interpretation detect_inv: pe_loop detect_retry detect_recv "\<lambda>_. class_inv"
proof
  fix v s g s' assume "detect_retry v s = Some (g, s')" and "class_inv s"
  then show "class_inv s'"
    by (auto simp: detect_retry_def detect_out_def bind_eq_Some_conv inv split: if_splits
        dest!: worker.send_ctrl_inv)
qed (rule detect_recv_inv)

definition rc_assertion :: "'v pe_goto \<Rightarrow> ufcs_class \<Rightarrow> bool" where
  "rc_assertion g s = (case g of Return_rc rc \<Rightarrow> eproto_settles rc s | _ \<Rightarrow> True)"

lemma rc_assertion_simps [simp]:
  "rc_assertion (Goto_retry v) s" "rc_assertion (Goto_re_recv v) s"
  "rc_assertion (Return_rc rc) s = eproto_settles rc s"
  by (simp_all add: rc_assertion_def)

lemma detect_timeout_done: "detect_timeout v e s = Some (g, s') \<Longrightarrow> rc_assertion g s'"
  by (auto simp: detect_timeout_def Let_def eproto_settles_def)

lemma detect_refused_done: "detect_refused v e msg s = Some (g, s') \<Longrightarrow> rc_assertion g s'"
  by (auto simp: detect_refused_def detect_out_def Let_def bind_eq_Some_conv eproto_settles_def
      split: if_splits dest!: detect_timeout_done)

lemma detect_recv_done:
  assumes "detect_recv v s = Some (g, s')" shows "rc_assertion g s'"
proof -
  obtain eo s1 where f: "ufcs_get_next_event s = Some (eo, s1)"
    using assms(1) by (auto simp: detect_recv_def bind_eq_Some_conv)
  show ?thesis using assms f
    by (auto simp: detect_recv_def detect_out_def eproto_settles_def
      split: option.splits if_splits dest: detect_refused_done detect_timeout_done)
qed

interpretation detect_done: pe_loop detect_retry detect_recv rc_assertion
proof
  fix v s g s' assume "detect_retry v s = Some (g, s')"
  then show "rc_assertion g s'"
    by (auto simp: detect_retry_def detect_out_def bind_eq_Some_conv eproto_settles_def
        split: if_splits dest: send_ctrl_no_eproto)
qed (rule detect_recv_done)

section \<open>Handlers\<close>

lemma detect_cable_inv: "ufcs_pe_detect_cable_info s = Some (rc, s') \<Longrightarrow> class_inv s \<Longrightarrow> class_inv s'"
  by (auto simp: ufcs_pe_detect_cable_info_def dest: detect_inv.run)

lemma detect_cable_done: "ufcs_pe_detect_cable_info s = Some (rc, s') \<Longrightarrow> eproto_settles rc s'"
  by (auto simp: ufcs_pe_detect_cable_info_def dest: detect_done.run)

lemma end_detect_inv: "ufcs_pe_end_cable_detect s = Some (rc, s') \<Longrightarrow> class_inv s \<Longrightarrow> class_inv s'"
  by (auto simp: ufcs_pe_end_cable_detect_def bind_eq_Some_conv dest: worker.send_ctrl_inv)

lemma end_detect_acked: "ufcs_pe_end_cable_detect s = Some (rc, s') \<Longrightarrow> acked s \<Longrightarrow> acked s'"
  by (auto simp: ufcs_pe_end_cable_detect_def bind_eq_Some_conv dest: worker_send_acked)

lemma inv_protocol_error [inv]: "class_inv s \<Longrightarrow> class_inv (pe_protocol_error rc s)"
  by (simp add: pe_protocol_error_def)

lemma settled_protocol_error: "eproto_settles (- EPROTO) s \<Longrightarrow> settled (pe_protocol_error rc s)"
  by (auto simp: pe_protocol_error_def settled_def eproto_settles_def)

lemma vendor_inv: "vendor_handle r = Some s' \<Longrightarrow> (\<And>rc s. r = Some (rc, s) \<Longrightarrow> class_inv s) \<Longrightarrow> class_inv s'"
  by (auto simp: vendor_handle_def bind_eq_Some_conv inv split: if_splits)

lemma vendor_done:
  assumes "vendor_handle r = Some s'" and "\<And>rc s. r = Some (rc, s) \<Longrightarrow> eproto_settles rc s"
  shows "settled s'"
proof -
  obtain rc s where r: "r = Some (rc, s)" using assms(1) by (auto simp: vendor_handle_def bind_eq_Some_conv)
  then have "eproto_settles rc s" by (rule assms(2))
  with assms(1) r show ?thesis
    by (auto simp: vendor_handle_def pe_protocol_error_def eproto_settles_def settled_def
        split: if_splits)
qed

lemma inv_cable_flag: "class_inv s \<Longrightarrow> class_inv (s\<lparr>start_cable_detect := b\<rparr>)"
  by simp

lemma idle_next_handled: "idle_next t = Some st \<Longrightarrow> st \<noteq> PE_STATE_PING \<and> st \<noteq> PE_STATE_VERIFY_RESPONSE"
  by (auto simp: idle_next_def split: if_splits)

lemma idle_inv: "ufcs_state_idel_handle e s = Some s' \<Longrightarrow> class_inv s \<Longrightarrow> class_inv s'"
  by (auto simp: ufcs_state_idel_handle_def Let_def bind_eq_Some_conv send_word_functions inv idle_next_handled
      split: if_splits option.splits dest!: worker.send_words_inv [rotated])

lemma send_exit_inv: "ufcs_state_send_exit_handle e s = Some s' \<Longrightarrow> class_inv s \<Longrightarrow> class_inv s'"
  by (auto simp: ufcs_state_send_exit_handle_def bind_eq_Some_conv inv split: if_splits
      dest!: worker.send_ctrl_inv)

lemma request_handle_inv: "ufcs_state_request_handle e s = Some s' \<Longrightarrow> class_inv s \<Longrightarrow> class_inv s'"
  by (auto simp: ufcs_state_request_handle_def bind_eq_Some_conv inv
      split: option.splits event_data.splits dest!: request_inv.run)

lemma verify_handle_inv:
  "ufcs_state_verify_request_handle e s = Some s' \<Longrightarrow> class_inv s \<Longrightarrow> event_wf n e \<Longrightarrow> class_inv s'"
  by (auto simp: ufcs_state_verify_request_handle_def bind_eq_Some_conv inv event_wf_def
      split: option.splits event_data.splits dest!: verify_inv.run)

lemma handshake_handle_inv: "ufcs_state_handshake_handle e s = Some s' \<Longrightarrow> class_inv s \<Longrightarrow> class_inv s'"
  by (auto simp: ufcs_state_handshake_handle_def bind_eq_Some_conv inv dest!: handshake_inv.run)

lemma exchange_handles_inv:
  assumes "class_inv s"
  shows "ufcs_state_output_cap_handle e s = Some s' \<Longrightarrow> class_inv s'"
    and "ufcs_state_get_src_info_handle e s = Some s' \<Longrightarrow> class_inv s'"
    and "ufcs_state_get_dev_info_handle e s = Some s' \<Longrightarrow> class_inv s'"
    and "ufcs_state_get_error_info_handle e s = Some s' \<Longrightarrow> class_inv s'"
    and "ufcs_state_config_wd_handle e s = Some s' \<Longrightarrow> class_inv s'"
  using assms
  by (auto simp: ufcs_state_output_cap_handle_def ufcs_state_get_src_info_handle_def
      ufcs_state_get_dev_info_handle_def ufcs_state_get_error_info_handle_def
      ufcs_state_config_wd_handle_def inv split: option.splits event_data.splits
      dest: output_cap.run_inv src_info.run_inv dev_info.run_inv err_info.run_inv config_wd.run_inv)

lemma answer_handles_inv:
  assumes "class_inv s"
  shows "ufcs_state_send_sink_info_handle e s = Some s' \<Longrightarrow> class_inv s'"
    and "ufcs_state_send_dev_info_handle e s = Some s' \<Longrightarrow> class_inv s'"
    and "ufcs_state_send_error_info_handle e s = Some s' \<Longrightarrow> class_inv s'"
    and "ufcs_state_power_change_handle e s = Some s' \<Longrightarrow> class_inv s'"
    and "ufcs_state_test_request_handle e s = Some s' \<Longrightarrow> class_inv s'"
  using assms
  by (auto simp: ufcs_state_send_sink_info_handle_def ufcs_state_send_dev_info_handle_def
      ufcs_state_send_error_info_handle_def ufcs_state_power_change_handle_def
      ufcs_state_test_request_handle_def ufcs_pe_test_request_handle_def send_word_functions
      bind_eq_Some_conv Let_def inv split: option.splits dest!: worker.send_words_inv [rotated])

lemma vendor_handles_inv:
  assumes "class_inv s"
  shows "ufcs_state_get_emark_info_handle e s = Some s' \<Longrightarrow> class_inv s'"
    and "ufcs_state_get_power_info_handle e s = Some s' \<Longrightarrow> class_inv s'"
  unfolding ufcs_state_get_emark_info_handle_def ufcs_state_get_power_info_handle_def
    ufcs_pe_oplus_get_emark_info_def ufcs_pe_oplus_get_power_info_def
  by (erule vendor_inv, erule emark.run_inv [OF _ inv_free_event [OF assms]])
    (erule vendor_inv, erule power_info.run_inv [OF _ inv_free_event [OF assms]])

lemma cable_handle_inv:
  assumes "ufcs_state_get_cable_info_handle e s = Some s'" and "class_inv s"
  shows "class_inv s'"
proof -
  obtain rc1 s1 where 1: "ufcs_pe_start_cable_detect (ufcs_free_event e s) = Some (rc1, s1)"
    using assms(1) by (auto simp: ufcs_state_get_cable_info_handle_def bind_eq_Some_conv)
  then have i1: "class_inv s1"
    unfolding ufcs_pe_start_cable_detect_def using assms(2) by (auto simp: inv dest: start_detect.run_inv)
  show ?thesis
  proof (cases "rc1 = 0")
    case False
    with assms(1) 1 i1 show ?thesis
      by (auto simp: ufcs_state_get_cable_info_handle_def inv split: if_splits)
  next
    case True
    then obtain rc2 s2 where 2: "ufcs_pe_get_cable_info s1 = Some (rc2, s2)"
      using assms(1) 1 by (auto simp: ufcs_state_get_cable_info_handle_def bind_eq_Some_conv)
    then have i2: "class_inv s2"
      unfolding ufcs_pe_get_cable_info_def using i1 by (rule get_cable.run_inv)
    with assms(1) 1 2 True show ?thesis
      by (auto simp: ufcs_state_get_cable_info_handle_def bind_eq_Some_conv inv split: if_splits
          dest!: end_detect_inv detect_cable_inv)
  qed
qed

lemma pe_handler_inv:
  "pe_handler st e s = Some s' \<Longrightarrow> class_inv s \<Longrightarrow> event_wf n e \<Longrightarrow> class_inv s'"
  by (cases st)
    (auto simp: ufcs_state_soft_reset_handle_def ufcs_state_hw_reset_handle_def
      ufcs_state_recv_exit_handle_def inv
      dest: idle_inv send_exit_inv request_handle_inv verify_handle_inv handshake_handle_inv
        exchange_handles_inv answer_handles_inv vendor_handles_inv cable_handle_inv)

lemma sm_round_inv:
  assumes "sm_round s = Some (go, s')" and "class_inv s" shows "class_inv s'"
proof -
  obtain eo s1 where f: "ufcs_get_next_event s = Some (eo, s1)"
    using assms(1) by (auto simp: sm_round_def bind_eq_Some_conv)
  have "class_inv s1" and "eo = Some e \<Longrightarrow> event_wf (next_id s1) e" for e
    using get_next_event_inv [OF f assms(2)] fetched_event_wf [of s1 e] by auto
  with assms(1) f show ?thesis
    by (auto simp: sm_round_def bind_eq_Some_conv Let_def inv split: option.splits if_splits
        dest!: pe_handler_inv)
qed

section \<open>A handler that returns wakes the requester\<close>

lemma cable_handle_done:
  assumes "ufcs_state_get_cable_info_handle e s = Some s'" shows "settled s'"
proof -
  obtain rc1 s1 where 1: "ufcs_pe_start_cable_detect (ufcs_free_event e s) = Some (rc1, s1)"
    using assms(1) by (auto simp: ufcs_state_get_cable_info_handle_def bind_eq_Some_conv)
  then have d1: "eproto_settles rc1 s1"
    unfolding ufcs_pe_start_cable_detect_def by (auto dest: start_detect.run_done)
  show ?thesis
  proof (cases "rc1 = 0")
    case False
    with assms(1) 1 d1 show ?thesis
      by (auto simp: ufcs_state_get_cable_info_handle_def settled_def pe_protocol_error_def
          eproto_settles_def split: if_splits)
  next
    case True
    then obtain rc2 s2 where 2: "ufcs_pe_get_cable_info s1 = Some (rc2, s2)"
      using assms(1) 1 by (auto simp: ufcs_state_get_cable_info_handle_def bind_eq_Some_conv)
    then have d2: "eproto_settles rc2 s2"
      unfolding ufcs_pe_get_cable_info_def by (rule get_cable.run_done)
    with assms(1) 1 2 True show ?thesis
      by (auto simp: ufcs_state_get_cable_info_handle_def bind_eq_Some_conv settled_def
          pe_protocol_error_def eproto_settles_def split: if_splits
          dest!: end_detect_acked detect_cable_done)
  qed
qed

lemma vendor_handles_done:
  shows "ufcs_state_get_emark_info_handle e s = Some s' \<Longrightarrow> settled s'"
    and "ufcs_state_get_power_info_handle e s = Some s' \<Longrightarrow> settled s'"
  unfolding ufcs_state_get_emark_info_handle_def ufcs_state_get_power_info_handle_def
    ufcs_pe_oplus_get_emark_info_def ufcs_pe_oplus_get_power_info_def
  by (erule vendor_done, erule emark.run_done) (erule vendor_done, erule power_info.run_done)

lemma exchange_handles_done:
  shows "ufcs_state_output_cap_handle e s = Some s' \<Longrightarrow> x_done s'"
    and "ufcs_state_get_src_info_handle e s = Some s' \<Longrightarrow> x_done s'"
    and "ufcs_state_get_dev_info_handle e s = Some s' \<Longrightarrow> x_done s'"
    and "ufcs_state_get_error_info_handle e s = Some s' \<Longrightarrow> x_done s'"
  by (auto simp: ufcs_state_output_cap_handle_def ufcs_state_get_src_info_handle_def
      ufcs_state_get_dev_info_handle_def ufcs_state_get_error_info_handle_def
      dest: output_cap.run_done src_info.run_done dev_info.run_done err_info.run_done)

lemma settled_no_data [simp]: "settled (pe_no_data e s)"
  by (simp add: pe_no_data_def settled_def)

lemma config_wd_done: "ufcs_state_config_wd_handle e s = Some s' \<Longrightarrow> settled s'"
  by (auto simp: ufcs_state_config_wd_handle_def x_done_def split: option.splits event_data.splits
      dest!: config_wd.run_done)

lemma request_handle_done: "ufcs_state_request_handle e s = Some s' \<Longrightarrow> settled s'"
  by (auto simp: ufcs_state_request_handle_def bind_eq_Some_conv
      split: option.splits event_data.splits dest!: request_done.run)

lemma verify_handle_done: "ufcs_state_verify_request_handle e s = Some s' \<Longrightarrow> settled s'"
  by (auto simp: ufcs_state_verify_request_handle_def bind_eq_Some_conv
      split: option.splits event_data.splits dest!: verify_done.run)

lemma handshake_handle_done: "ufcs_state_handshake_handle e s = Some s' \<Longrightarrow> settled s'"
  by (auto simp: ufcs_state_handshake_handle_def bind_eq_Some_conv dest!: handshake_done.run)

lemmas handlers_done = config_wd_done request_handle_done verify_handle_done handshake_handle_done
  vendor_handles_done cable_handle_done exchange_handles_done [unfolded x_done_def, THEN conjunct1]

text \<open>The events that the interface functions of \<^verbatim>\<open>ufcs_intf.c\<close> push and wait for, in the order of that file.\<close>

definition request_events :: "ufcs_event_type list" where
  "request_events = [UFCS_EVENT_SEND_REQUEST, UFCS_EVENT_HANDSHAKE, UFCS_EVENT_SEND_EXIT_UFCS_MODE,
     UFCS_EVENT_SEND_CONFIG_WD, UFCS_EVENT_SEND_GET_DEVICE_INFO, UFCS_EVENT_SEND_GET_ERROR_INFO,
     UFCS_EVENT_SEND_GET_SOURCE_INFO, UFCS_EVENT_SEND_START_CABLE_DETECT, UFCS_EVENT_SEND_GET_OUTPUT_CAP,
     UFCS_EVENT_SEND_VERIFY_REQUEST, UFCS_EVENT_OPLUS_SEND_GET_EMARK_INFO_MSG, UFCS_EVENT_OPLUS_SEND_GET_POWER_INFO_MSG]"

lemma send_exit_handle_done: "ufcs_state_send_exit_handle e s = Some s' \<Longrightarrow> completed (request_ack s')"
  by (auto simp: ufcs_state_send_exit_handle_def bind_eq_Some_conv split: if_splits)

lemma request_handlers_settle:
  assumes "pe_handler st e s = Some s'" and "t \<in> set request_events" and "idle_next t = Some st"
  shows "settled s' \<or> t = UFCS_EVENT_SEND_EXIT_UFCS_MODE \<and> completed (request_ack s')"
  using assms by (auto simp: request_events_def idle_next_def handlers_done dest!: send_exit_handle_done)

section \<open>Properties of the policy engine\<close>

text \<open>C5: A verify response passes exactly when its digest is the SHA-256 digest of the adapter's
  random bytes, the authentication bytes and the random bytes of the request, in this order: the
  in-place padding of the static buffer never leaks from one verification into the next.\<close>

theorem verify_pass_iff_sha256:
  assumes "class_inv s" and "msg_wf msg"
  shows "verify_pass (ufcs_check_verify_response_msg msg s) \<longleftrightarrow>
    vr_encrypted_data (data_msg msg) = sha256 (vr_random_data (data_msg msg) @ verify_auth s @ verify_random s)"
  by (rule verify_digest [OF assms]) (simp add: ufcs_check_verify_response_msg_def)

lemma connected_inv: "class_inv (connected_class c is)"
  by (simp add: connected_class_def class_inv_def sender_inv_def queue_inv_def
      table_inv_def timer_inv_def list_all_iff source_padded_def ufcs_source_data_def UFCS_OUTPUT_MODE_MAX_def UFCS_OPLUS_VND_POWER_INFO_MAX_def
      UFCS_VERIFY_RANDOM_DATA_SIZE_def UFCS_VERIFY_AUTH_DATA_SIZE_def)

lemma verify_pass_iff_sha256_witness:
  "verify_pass (ufcs_check_verify_response_msg zero_msg (connected_class (demo_config False) [])) \<longleftrightarrow>
    vr_encrypted_data (data_msg zero_msg) =
      sha256 (vr_random_data (data_msg zero_msg) @ replicate 16 0 @ replicate 16 0)"
proof -
  have "msg_wf zero_msg" by (simp add: demo_simps)
  then show ?thesis
    using verify_pass_iff_sha256 [OF connected_inv [of "demo_config False" "[]"]]
    by (simp add: connected_class_def)
qed

text \<open>The output capabilities are taken over up to the first zero word and at most seven of them;
  the entries behind keep their old contents, which the count hides.\<close>

theorem take_output_cap_spec:
  assumes "class_inv s" and "s' = take_output_cap msg s"
  shows "pdo_num s' \<le> UFCS_OUTPUT_MODE_MAX \<and>
    (\<forall>i<pdo_num s'. dm_u64 (data_msg msg) i \<noteq> 0 \<and> pdo_data s' ! i = dm_u64 (data_msg msg) i) \<and>
    (pdo_num s' < UFCS_OUTPUT_MODE_MAX \<longrightarrow> dm_u64 (data_msg msg) (pdo_num s') = 0) \<and>
    (\<forall>i<UFCS_OUTPUT_MODE_MAX. pdo_num s' \<le> i \<longrightarrow> pdo_data s' ! i = pdo_data s ! i)"
proof -
  let ?ws = "map (dm_u64 (data_msg msg)) [0..<UFCS_OUTPUT_MODE_MAX]"
  have l: "length ?ws = length (pdo_data s)" using class_inv_tablesD(1) [OF assms(1)] by simp
  have n: "pdo_num s' = fst (take_words (pdo_data s) ?ws)" "pdo_data s' = snd (take_words (pdo_data s) ?ws)"
    using assms(2) by (simp_all add: take_output_cap_def case_prod_unfold Let_def)
  have le: "pdo_num s' \<le> UFCS_OUTPUT_MODE_MAX"
    using take_words_length(1) [of ?ws "pdo_data s"] l by (simp add: n)
  then show ?thesis
    using nth_take_words [OF l, folded n] class_inv_tablesD(1) [OF assms(1)] by auto
qed

lemma take_output_cap_spec_witness:
  "pdo_num (take_output_cap zero_msg (connected_class (demo_config False) [])) \<le> UFCS_OUTPUT_MODE_MAX"
  using take_output_cap_spec [OF connected_inv refl] by blast

text \<open>C2: No requester is left waiting, for each of the twelve requests of the interface: when the handler of the
  state that the idle state selects for the request returns, on whatever path (answer, refusal, timeout, send error, no
  memory, exit), the requester is woken and the engine idle, or the engine is in the soft reset state, where the
  handler of whatever event comes next makes it idle and wakes the requester. The request to leave the protocol is
  different in one point: the requester is woken, but when the message was sent the handler does not set the state.\<close>

theorem request_handler_wakes_requester:
  assumes "pe_handler st e s = Some s'" and "t \<in> set request_events" and "idle_next t = Some st"
  shows "if st_curr s' = PE_STATE_SOFT_RESET
    then \<forall>e'. \<exists>s''. pe_handler PE_STATE_SOFT_RESET e' s' = Some s'' \<and> st_curr s'' = PE_STATE_IDEL \<and> completed (request_ack s'')
    else completed (request_ack s') \<and> (st_curr s' = PE_STATE_IDEL \<or> t = UFCS_EVENT_SEND_EXIT_UFCS_MODE)"
  using request_handlers_settle [OF assms]
  by (auto simp: settled_def ufcs_state_soft_reset_handle_def)

lemma request_handler_wakes_requester_witness:
  "\<exists>s'. pe_handler PE_STATE_GET_SOURCE_INFO \<lparr>ev_id = 0, ev_type = UFCS_EVENT_TIMEOUT, ev_msg = None, ev_data = None\<rparr>
      (connected_class (demo_config False) [In_irq 0x20 None None, In_exit]) = Some s' \<and>
    (st_curr s' \<noteq> PE_STATE_SOFT_RESET \<longrightarrow> st_curr s' = PE_STATE_IDEL \<and> completed (request_ack s'))"
proof -
  let ?r = "pe_handler PE_STATE_GET_SOURCE_INFO \<lparr>ev_id = 0, ev_type = UFCS_EVENT_TIMEOUT, ev_msg = None, ev_data = None\<rparr>
      (connected_class (demo_config False) [In_irq 0x20 None None, In_exit])"
  have "?r \<noteq> None" by code_simp
  then obtain s' where r: "?r = Some s'" by blast
  have "UFCS_EVENT_SEND_GET_SOURCE_INFO \<in> set request_events" "idle_next UFCS_EVENT_SEND_GET_SOURCE_INFO = Some PE_STATE_GET_SOURCE_INFO"
    by (simp_all add: request_events_def idle_next_def)
  from request_handler_wakes_requester [OF r this] r show ?thesis by auto
qed

text \<open>The exchanges for the capabilities and the three information words leave no response timer
  running, unless the state machine was asked to exit.\<close>

theorem exchange_stops_response_timer:
  assumes "st \<in> {PE_STATE_OUTPUT_CAP, PE_STATE_GET_SOURCE_INFO, PE_STATE_GET_DEVICE_INFO, PE_STATE_GET_ERROR_INFO}"
    and "pe_handler st e s = Some s'" and "timer_on s' SENDER_RESPONSE_TIMER"
  shows "ev_exit s'"
  using assms by (auto dest!: exchange_handles_done simp: x_done_def)

lemma exchange_stops_response_timer_witness:
  "\<exists>s'. pe_handler PE_STATE_GET_SOURCE_INFO \<lparr>ev_id = 0, ev_type = UFCS_EVENT_TIMEOUT, ev_msg = None, ev_data = None\<rparr>
      (connected_class (demo_config False) [In_irq 0x20 None None, In_exit]) = Some s' \<and>
    (timer_on s' SENDER_RESPONSE_TIMER \<longrightarrow> ev_exit s')"
proof -
  let ?r = "pe_handler PE_STATE_GET_SOURCE_INFO \<lparr>ev_id = 0, ev_type = UFCS_EVENT_TIMEOUT, ev_msg = None, ev_data = None\<rparr>
      (connected_class (demo_config False) [In_irq 0x20 None None, In_exit])"
  have "map_option (\<lambda>s'. timer_on s' SENDER_RESPONSE_TIMER) ?r \<noteq> None" by code_simp
  then obtain s' where "?r = Some s'" by blast
  with exchange_stops_response_timer [OF _ this] show ?thesis by auto
qed

end
