(* ===== verification/Ufcs_Reachable.thy ===== *)
theory Ufcs_Reachable
  imports Ufcs_Pe_Invariant
begin

text \<open>
  The functions of the interface keep the invariant, so it holds in every state that can be
  reached from registration by inputs, by rounds of the worker and of the state machine thread,
  and by calls of the interface, in any order.
\<close>

section \<open>The interface\<close>

lemma lock_pe_inv: 
  assumes "lock_pe s = Some s'" "class_inv s" shows "class_inv s'"
proof -
  let ?Q = "\<lambda>s s'. class_inv s \<longrightarrow> class_inv s'"
  have "?Q s s'"
    by (rule lock_pe.raw_induct [where P = ?Q, OF _ assms(1)])
      (auto simp: bind_eq_Some_conv split: if_splits dest: sm_round_inv)
  with assms(2) show ?thesis by simp
qed

lemma wait_request_inv: 
  assumes "wait_request_ack s = Some s'" "class_inv s" shows "class_inv s'"
proof -
  let ?Q = "\<lambda>s s'. class_inv s \<longrightarrow> class_inv s'"
  have "?Q s s'"
    by (rule wait_request_ack.raw_induct [where P = ?Q, OF _ assms(1)])
      (auto simp: bind_eq_Some_conv split: if_splits dest: sm_round_inv)
  with assms(2) show ?thesis by simp
qed

definition request_data_wf :: "event_data option \<Rightarrow> bool" where
  "request_data_wf d = (case d of Some (Verify_data _ r) \<Rightarrow> length r = UFCS_VERIFY_RANDOM_DATA_SIZE | _ \<Rightarrow> True)"

lemma request_data_wf_simps [simp]:
  "request_data_wf None" "request_data_wf (Some (Request_data r))" "request_data_wf (Some (Watchdog_data w))"
  "request_data_wf (Some (Verify_data k x)) = (length x = UFCS_VERIFY_RANDOM_DATA_SIZE)"
  by (simp_all add: request_data_wf_def)

lemma push_request_inv: "class_inv s \<Longrightarrow> request_data_wf d \<Longrightarrow> class_inv (ufcs_push_event t None d s)"
  by (rule inv_push_event) (simp_all add: request_data_wf_def)

lemma external_request_inv:
  assumes "external_request t d prep s = Some (rc, s')" and "class_inv s" and "request_data_wf d"
    and "\<And>s. class_inv s \<Longrightarrow> class_inv (prep s)"
  shows "class_inv s'"
proof (cases "fst (kzalloc s)")
  case False
  with assms(1) inv_small(1) [OF assms(2)] show ?thesis
    by (auto simp: external_request_def case_prod_unfold Let_def)
next
  case True
  with assms(1) obtain s2 where l: "lock_pe (snd (kzalloc s)) = Some s2"
    by (auto simp: external_request_def case_prod_unfold Let_def bind_eq_Some_conv)
  define s3 where "s3 = (prep s2)\<lparr>request_ack := 0\<rparr>"
  have "class_inv s2" using l by (rule lock_pe_inv) (rule inv_small(1) [OF assms(2)])
  then have i3: "class_inv s3" using assms(4) by (simp add: s3_def)
  show ?thesis
  proof (cases "handshake_success s3")
    case False
    with assms(1) True l i3 show ?thesis
      by (auto simp: external_request_def case_prod_unfold Let_def s3_def)
  next
    case hs: True
    with assms(1) True l obtain s4 where
      "wait_request_ack (ufcs_push_event t None d s3) = Some s4" and "s' = s4"
      by (auto simp: external_request_def case_prod_unfold Let_def s3_def bind_eq_Some_conv)
    with push_request_inv [OF i3 assms(3)] show ?thesis using wait_request_inv by blast
  qed
qed

lemma info_request_inv: "info_request t f s = Some (r, s') \<Longrightarrow> class_inv s \<Longrightarrow> class_inv s'"
  by (auto simp: info_request_def bind_eq_Some_conv split: if_splits dest: external_request_inv)

lemma drop_valueD: "drop_value r = Some (rc, s') \<Longrightarrow> \<exists>v. r = Some (v, s')"
  by (auto simp: drop_value_def)

lemmas info_requests =
  ufcs_get_device_info_def ufcs_get_error_info_def ufcs_get_source_info_def ufcs_get_cable_info_def
  ufcs_get_emark_info_def

lemma api_inv:
  assumes "class_inv s"
  shows "ufcs_get_device_info s = Some (r, s') \<Longrightarrow> class_inv s'"
    and "ufcs_get_error_info s = Some (r, s') \<Longrightarrow> class_inv s'"
    and "ufcs_get_source_info s = Some (r, s') \<Longrightarrow> class_inv s'"
    and "ufcs_get_cable_info s = Some (r, s') \<Longrightarrow> class_inv s'"
    and "ufcs_get_emark_info s = Some (r, s') \<Longrightarrow> class_inv s'"
  unfolding info_requests using assms by (auto elim: info_request_inv)

lemma pdo_info_inv: "ufcs_get_pdo_info n s = Some (r, s') \<Longrightarrow> class_inv s \<Longrightarrow> class_inv s'"
  by (auto simp: ufcs_get_pdo_info_def bind_eq_Some_conv split: if_splits dest: external_request_inv)

lemma power_info_inv: "ufcs_get_power_info_ext n s = Some (r, s') \<Longrightarrow> class_inv s \<Longrightarrow> class_inv s'"
  by (auto simp: ufcs_get_power_info_ext_def bind_eq_Some_conv split: if_splits dest: external_request_inv)

lemma pdo_set_inv: "ufcs_pdo_set v c s = Some (rc, s') \<Longrightarrow> class_inv s \<Longrightarrow> class_inv s'"
  by (auto simp: ufcs_pdo_set_def do_ufcs_pdo_set_def Let_def bind_eq_Some_conv split: if_splits
      dest: external_request_inv)

lemma watchdog_inv: "ufcs_config_watchdog ms s = Some (rc, s') \<Longrightarrow> class_inv s \<Longrightarrow> class_inv s'"
  by (auto simp: ufcs_config_watchdog_def bind_eq_Some_conv split: if_splits dest: external_request_inv)

lemma verify_adapter_inv:
  assumes "ufcs_verify_adapter random k auth n s = Some (rc, s')" and "class_inv s"
    and "length random = UFCS_VERIFY_RANDOM_DATA_SIZE" and "UFCS_VERIFY_AUTH_DATA_SIZE \<le> length auth"
  shows "class_inv s'"
  using assms
  by (auto simp: ufcs_verify_adapter_def bind_eq_Some_conv split: if_splits
      dest!: external_request_inv)

lemma handshake_inv:
  assumes "ufcs_handshake s = Some (rc, s')" and "class_inv s" shows "class_inv s'"
  using assms(1)
proof (cases rule: handshake_cases)
  case no_memory
  then show ?thesis using assms(2) by (simp add: inv)
next
  case (waited s2 s3 s4)
  have "class_inv s2" using assms(2) waited(1) by (simp add: inv)
  then have "class_inv s3" using waited(2) by (auto simp: inv dest!: lock_pe_inv)
  then have "class_inv s4" using waited(3) by (auto simp: inv push_request_inv dest!: wait_request_inv)
  then show ?thesis using waited(5) by (auto simp: inv)
qed

lemma send_exit_mode_inv:
  assumes "ufcs_send_exit_ufcs_mode s = Some (rc, s')" and "class_inv s" shows "class_inv s'"
  using assms
  by (auto simp: ufcs_send_exit_ufcs_mode_def case_prod_unfold Let_def bind_eq_Some_conv inv push_request_inv
      split: if_splits dest!: lock_pe_inv wait_request_inv)

lemma force_exit_inv: "ufcs_force_exit s = Some (rc, s') \<Longrightarrow> class_inv s \<Longrightarrow> class_inv s'"
  by (auto simp: ufcs_force_exit_def bind_eq_Some_conv inv split: if_splits dest!: send_exit_mode_inv)

lemma test_ctrl_inv: "ufcs_pe_test_ctrl_request_handle t s = Some (rc, s') \<Longrightarrow> class_inv s \<Longrightarrow> class_inv s'"
  by (auto simp: ufcs_pe_test_ctrl_request_handle_def Let_def split: if_splits
      dest!: drop_valueD dest: api_inv pdo_info_inv)

lemma test_data_inv: "ufcs_pe_test_data_request_handle t s = Some (rc, s') \<Longrightarrow> class_inv s \<Longrightarrow> class_inv s'"
  by (auto simp: ufcs_pe_test_data_request_handle_def Let_def split: if_splits
      dest: pdo_set_inv watchdog_inv)

lemma test_work_inv: "ufcs_pe_test_handle_work s = Some s' \<Longrightarrow> class_inv s \<Longrightarrow> class_inv s'"
  by (auto simp: ufcs_pe_test_handle_work_def Let_def inv split: if_splits
      dest!: test_ctrl_inv test_data_inv)

section \<open>Reachable states\<close>

text \<open>The memory of a new class device is zeroed; the static source buffer has its padding.\<close>

definition zeroed :: "ufcs_class \<Rightarrow> bool" where
  "zeroed s \<longleftrightarrow> s_msg (sender s) = None \<and> works s = [] \<and> err_flag_fifo s = [] \<and>
     pdo_num s = 0 \<and> pdo_data s = replicate UFCS_OUTPUT_MODE_MAX 0 \<and>
     pie_num s = 0 \<and> pie_data s = replicate UFCS_OPLUS_VND_POWER_INFO_MAX 0 \<and>
     pwr_change_info s = replicate UFCS_OUTPUT_MODE_MAX 0 \<and>
     verify_random s = replicate UFCS_VERIFY_RANDOM_DATA_SIZE 0 \<and>
     verify_auth s = replicate UFCS_VERIFY_AUTH_DATA_SIZE 0 \<and>
     source_data s = ufcs_source_data \<and> st_curr s = PE_STATE_IDEL \<and> \<not> handshake_success s"

definition registered :: "ufcs_class \<Rightarrow> ufcs_class" where
  "registered s = ufcs_policy_engine_init (ufcs_event_init (ufcs_timer_init s))"

inductive reachable :: "ufcs_class \<Rightarrow> bool" where
  start: "zeroed s \<Longrightarrow> reachable (registered s)"
| input: "reachable s \<Longrightarrow> reachable (deliver i s)"
| worker: "reachable s \<Longrightarrow> run_worker s = Some s' \<Longrightarrow> reachable s'"
| sm: "reachable s \<Longrightarrow> sm_round s = Some (go, s') \<Longrightarrow> reachable s'"
| handshake: "reachable s \<Longrightarrow> ufcs_handshake s = Some (rc, s') \<Longrightarrow> reachable s'"
| force_exit: "reachable s \<Longrightarrow> ufcs_force_exit s = Some (rc, s') \<Longrightarrow> reachable s'"
| pdo_set: "reachable s \<Longrightarrow> ufcs_intf_pdo_set v c s = Some (rc, s') \<Longrightarrow> reachable s'"
| watchdog: "reachable s \<Longrightarrow> ufcs_intf_config_watchdog ms s = Some (rc, s') \<Longrightarrow> reachable s'"
| device_info: "reachable s \<Longrightarrow> ufcs_intf_get_device_info s = Some (r, s') \<Longrightarrow> reachable s'"
| error_info: "reachable s \<Longrightarrow> ufcs_intf_get_error_info s = Some (r, s') \<Longrightarrow> reachable s'"
| source_info: "reachable s \<Longrightarrow> ufcs_intf_get_source_info s = Some (r, s') \<Longrightarrow> reachable s'"
| cable_info: "reachable s \<Longrightarrow> ufcs_intf_get_cable_info s = Some (r, s') \<Longrightarrow> reachable s'"
| emark_info: "reachable s \<Longrightarrow> ufcs_intf_get_emark_info s = Some (r, s') \<Longrightarrow> reachable s'"
| pdo_info: "reachable s \<Longrightarrow> ufcs_intf_get_pdo_info n s = Some (l, s') \<Longrightarrow> reachable s'"
| power_info: "reachable s \<Longrightarrow> ufcs_intf_get_power_info_ext n s = Some (l, s') \<Longrightarrow> reachable s'"
| verify: "reachable s \<Longrightarrow> length random = UFCS_VERIFY_RANDOM_DATA_SIZE \<Longrightarrow>
    UFCS_VERIFY_AUTH_DATA_SIZE \<le> length auth \<Longrightarrow>
    ufcs_intf_verify_adapter random k auth m s = Some (rc, s') \<Longrightarrow> reachable s'"
| test_work: "reachable s \<Longrightarrow> ufcs_pe_test_handle_work s = Some s' \<Longrightarrow> reachable s'"
| source_reset: "reachable s \<Longrightarrow> reachable (snd (ufcs_intf_source_hard_reset s))"
| cable_reset: "reachable s \<Longrightarrow> reachable (snd (ufcs_intf_cable_hard_reset s))"
| overflow: "reachable s \<Longrightarrow> reachable (ufcs_fifo_overflow_work s)"

lemma registered_inv: "zeroed s \<Longrightarrow> class_inv (registered s)"
  by (simp add: zeroed_def registered_def ufcs_policy_engine_init_def ufcs_event_init_def
      ufcs_msg_sender_init_def ufcs_timer_init_def class_inv_def sender_inv_def queue_inv_def
      table_inv_def timer_inv_def list_all_iff source_padded_def ufcs_source_data_def)

lemma reachable_inv: "reachable s \<Longrightarrow> class_inv s"
proof (induction rule: reachable.induct)
  case (pdo_set s v c rc s')
  then show ?case by (auto simp: ufcs_intf_pdo_set_def dest: pdo_set_inv [unfolded ufcs_pdo_set_def])
next
  case (overflow s)
  then show ?case by (simp add: ufcs_fifo_overflow_work_def inv)
next
  case (verify s random auth k m rc s')
  then show ?case by (auto simp: ufcs_intf_verify_adapter_def split: if_splits dest: verify_adapter_inv)
next
  case (watchdog s ms rc s')
  then show ?case by (auto simp: ufcs_intf_config_watchdog_def split: if_splits dest: watchdog_inv)
next
  case (pdo_info s n l s')
  then show ?case by (auto simp: ufcs_intf_get_pdo_info_def split: if_splits dest: pdo_info_inv)
next
  case (power_info s n l s')
  then show ?case by (auto simp: ufcs_intf_get_power_info_ext_def split: if_splits dest: power_info_inv)
qed (auto simp: inv ufcs_intf_get_device_info_def ufcs_intf_get_error_info_def
    ufcs_intf_get_source_info_def ufcs_intf_get_cable_info_def ufcs_intf_get_emark_info_def
    split: if_splits
    intro: registered_inv run_worker_inv sm_round_inv handshake_inv force_exit_inv test_work_inv
    dest: api_inv)

lemma reachable_registered: "reachable (registered ((connected_class c is)\<lparr>handshake_success := False\<rparr>))"
  by (rule reachable.start) (simp add: zeroed_def connected_class_def UFCS_OUTPUT_MODE_MAX_def UFCS_OPLUS_VND_POWER_INFO_MAX_def
      UFCS_VERIFY_RANDOM_DATA_SIZE_def UFCS_VERIFY_AUTH_DATA_SIZE_def)

text \<open>C1: In every state the driver can reach, by inputs, rounds of the worker and of the state
  machine thread and calls of the interface in any order, the invariant holds: the counter fits its
  four bits, every stored message has its fixed array sizes, the events in the list have different
  identities and well-formed payloads, no work is queued twice, the flag queue is within its
  capacity, all tables have their declared size and their counts stay within it, the padding of
  the static digest buffer is intact, and a running timer has its timeout event allocated.\<close>

theorem reachable_class_inv:
  assumes "reachable s" shows "class_inv s"
  by (rule reachable_inv [OF assms])

lemma reachable_class_inv_witness: "class_inv (registered ((connected_class (demo_config False) [])\<lparr>handshake_success := False\<rparr>))"
  by (rule reachable_class_inv [OF reachable_registered])


text \<open>The state table has no handler for the ping and the verify response state; no reachable
  state lets the state machine thread call one of these two null pointers.\<close>

theorem no_null_handler:
  assumes "reachable s" and "ufcs_get_next_event s = Some (eo, s1)"
  shows "st_curr s1 \<noteq> PE_STATE_PING \<and> st_curr s1 \<noteq> PE_STATE_VERIFY_RESPONSE"
  using get_next_event_inv [OF assms(2) reachable_inv [OF assms(1)]] by (simp add: class_inv_def)

lemma no_null_handler_witness:
  "\<exists>eo s1. ufcs_get_next_event (registered ((connected_class (demo_config False) [In_exit])\<lparr>handshake_success := False\<rparr>)) = Some (eo, s1) \<and>
    st_curr s1 \<noteq> PE_STATE_PING"
proof -
  let ?s = "registered ((connected_class (demo_config False) [In_exit])\<lparr>handshake_success := False\<rparr>)"
  have "map_option snd (ufcs_get_next_event ?s) \<noteq> None" by code_simp
  then obtain eo s1 where "ufcs_get_next_event ?s = Some (eo, s1)" by auto
  with no_null_handler [OF reachable_registered this] show ?thesis by blast
qed

end
