(* ===== verification/Chg_Voter.thy ===== *)
theory Chg_Voter
  imports Ufcs_Prelude
begin

text \<open>
  The voters of the charger (\<^verbatim>\<open>oplus_chg_voter.c\<close>): a votable collects the votes of up to 32
  clients and elects an effective result, the smallest value, the largest value or the disjunction
  of the enabled votes, and reports changes through a callback. On top of the elections there are
  value maps, vote checks, an override vote and a value forced from the proc file system.

  The functions a votable holds pointers to (the callback and the checks) belong to its clients.
  They are names of a type \<open>'f\<close>, and the environment argument says what a call returns; the calls
  of the callback are logged. A mutex that is taken twice, a call through a null pointer and an
  access to freed memory are faults.
\<close>

section \<open>Data\<close>

definition NUM_MAX_CLIENTS :: nat where "NUM_MAX_CLIENTS = 32"

definition DEBUG_FORCE_CLIENT :: string where "DEBUG_FORCE_CLIENT = ''DEBUG_FORCE_CLIENT''"

abbreviation INT_MAX :: int where "INT_MAX \<equiv> 2147483647"
abbreviation INT_MIN :: int where "INT_MIN \<equiv> - 2147483648"

text \<open>\<^verbatim>\<open>enum votable_type\<close>; the field holding it is a C \<^verbatim>\<open>int\<close>.\<close>

abbreviation (input) VOTE_MIN :: int where "VOTE_MIN \<equiv> 0"
abbreviation (input) VOTE_MAX :: int where "VOTE_MAX \<equiv> 1"
abbreviation (input) VOTE_SET_ANY :: int where "VOTE_SET_ANY \<equiv> 2"
abbreviation (input) NUM_VOTABLE_TYPES :: int where "NUM_VOTABLE_TYPES \<equiv> 3"

record client_vote =
  vote_enabled :: bool
  vote_value :: int

text \<open>The hash table of the value maps is the list of its entries, the latest first: a lookup
  walks the entries of one bucket and compares the key. \<open>vote_locked\<close> is the state of the mutex,
  \<open>callback_log\<close> the calls of the callback (result, client, step), and \<open>alloc_ok\<close> says whether the
  next allocations succeed, an exhausted list standing for success.\<close>

record 'f votable =
  v_name :: string
  override_client :: "string option"
  votes :: "client_vote list"
  num_clients :: nat
  v_type :: int
  effective_client_id :: int
  effective_result :: int
  override_result :: int
  vote_locked :: bool
  callback :: "'f option"
  client_strs :: "string option list"
  voted_on :: bool
  force_val :: u32
  force_active :: bool
  hash_table :: "(int \<times> int) list"
  check_list :: "'f list"
  callback_log :: "(int \<times> string option \<times> bool) list"
  alloc_ok :: "bool list"

record 'f vote_env =
  run_callback :: "'f \<Rightarrow> 'f votable \<Rightarrow> int \<Rightarrow> string option \<Rightarrow> bool \<Rightarrow> rc"
  run_check :: "'f \<Rightarrow> 'f votable \<Rightarrow> string \<Rightarrow> bool \<Rightarrow> int \<Rightarrow> bool \<Rightarrow> rc"

datatype fault = Deadlock | Null_call | Use_after_free

section \<open>The lock\<close>

definition lock_votable :: "'f votable \<Rightarrow> fault + 'f votable" where
  "lock_votable v = (if vote_locked v then Inl Deadlock else Inr (v\<lparr>vote_locked := True\<rparr>))"

definition unlock_votable :: "'f votable \<Rightarrow> 'f votable" where
  "unlock_votable v = v\<lparr>vote_locked := False\<rparr>"

text \<open>A body between \<^verbatim>\<open>lock_votable\<close> and \<^verbatim>\<open>unlock_votable\<close>.\<close>

definition with_lock :: "('f votable \<Rightarrow> fault + ('r \<times> 'f votable)) \<Rightarrow> 'f votable \<Rightarrow> fault + ('r \<times> 'f votable)" where
  "with_lock body v =
     (case lock_votable v of
        Inl e \<Rightarrow> Inl e
      | Inr v1 \<Rightarrow> (case body v1 of Inl e \<Rightarrow> Inl e | Inr (r, v2) \<Rightarrow> Inr (r, unlock_votable v2)))"

section \<open>Elections\<close>

definition vote_get_mapped_val :: "'f votable \<Rightarrow> int \<Rightarrow> int option" where
  "vote_get_mapped_val v original = map_of (hash_table v) original"

fun is_client_excluded :: "string option \<Rightarrow> string option \<Rightarrow> bool" where
  "is_client_excluded None _ = False"
| "is_client_excluded (Some c) exclude_str = (exclude_str = Some c)"

text \<open>The range of the loops: they stop at the first client slot that is free.\<close>

definition client_ids :: "'f votable \<Rightarrow> nat list" where
  "client_ids v = takeWhile (\<lambda>i. client_strs v ! i \<noteq> None) [0..<num_clients v]"

definition vote_set_any :: "'f votable \<Rightarrow> int \<Rightarrow> string option \<Rightarrow> int \<times> int" where
  "vote_set_any v client_id exclude_str =
     (foldl (\<lambda>eff_res i. if is_client_excluded (client_strs v ! i) exclude_str then eff_res
               else or eff_res (of_bool (vote_enabled (votes v ! i)))) 0 (client_ids v),
      client_id)"

definition mapped_vote :: "'f votable \<Rightarrow> nat \<Rightarrow> int" where
  "mapped_vote v i =
     (case vote_get_mapped_val v (vote_value (votes v ! i)) of
        Some mapped \<Rightarrow> mapped
      | None \<Rightarrow> vote_value (votes v ! i))"

text \<open>The body of the loops of \<^verbatim>\<open>vote_min\<close> and \<^verbatim>\<open>vote_max\<close>, which differ in the comparison and the
  initial value only.\<close>

definition elect_step ::
  "(int \<Rightarrow> int \<Rightarrow> bool) \<Rightarrow> 'f votable \<Rightarrow> string option \<Rightarrow> int \<times> int \<Rightarrow> nat \<Rightarrow> int \<times> int" where
  "elect_step better v exclude_str eff i =
     (if is_client_excluded (client_strs v ! i) exclude_str then eff
      else if vote_enabled (votes v ! i) then
        if better (mapped_vote v i) (fst eff) then (mapped_vote v i, int i) else eff
      else eff)"

definition elect :: "(int \<Rightarrow> int \<Rightarrow> bool) \<Rightarrow> int \<Rightarrow> 'f votable \<Rightarrow> string option \<Rightarrow> int \<times> int" where
  "elect better start v exclude_str =
     (let eff_id = snd (foldl (elect_step better v exclude_str) (start, - EINVAL) (client_ids v)) in
      if eff_id = - EINVAL then (- EINVAL, eff_id) else (vote_value (votes v ! nat eff_id), eff_id))"

definition vote_min :: "'f votable \<Rightarrow> string option \<Rightarrow> int \<times> int" where
  "vote_min = elect (\<lambda>val eff_res. eff_res > val) INT_MAX"

definition vote_max :: "'f votable \<Rightarrow> string option \<Rightarrow> int \<times> int" where
  "vote_max = elect (\<lambda>val eff_res. eff_res < val) INT_MIN"

text \<open>The switch over the type of the votable; an unknown type has no election.\<close>

definition election :: "'f votable \<Rightarrow> int \<Rightarrow> string option \<Rightarrow> (int \<times> int) option" where
  "election v client_id exclude_str =
     (if v_type v = VOTE_MIN then Some (vote_min v exclude_str)
      else if v_type v = VOTE_MAX then Some (vote_max v exclude_str)
      else if v_type v = VOTE_SET_ANY then Some (vote_set_any v client_id exclude_str)
      else None)"

definition forced_result :: "'f votable \<Rightarrow> int" where
  "forced_result v = sint (force_val v)"

definition get_effective_result_exclude_client_locked :: "'f votable \<Rightarrow> string option \<Rightarrow> int" where
  "get_effective_result_exclude_client_locked v exclude_str =
     (if exclude_str = None then - EINVAL
      else if force_active v then forced_result v
      else if override_result v \<noteq> - EINVAL then override_result v
      else (case election v 0 exclude_str of Some (result, _) \<Rightarrow> result | None \<Rightarrow> - EINVAL))"

section \<open>Clients\<close>

text \<open>\<^verbatim>\<open>kstrdup\<close> and \<^verbatim>\<open>kzalloc\<close>: whether the allocation succeeds.\<close>

definition vote_alloc :: "'f votable \<Rightarrow> bool \<times> 'f votable" where
  "vote_alloc v = (case alloc_ok v of [] \<Rightarrow> (True, v) | ok # oks \<Rightarrow> (ok, v\<lparr>alloc_ok := oks\<rparr>))"

text \<open>The position of a client, which is registered in the first free slot if it is new.\<close>

definition get_client_id :: "'f votable \<Rightarrow> string \<Rightarrow> int \<times> 'f votable" where
  "get_client_id v client_str =
     (case find (\<lambda>i. client_strs v ! i = Some client_str) [0..<num_clients v] of
        Some i \<Rightarrow> (int i, v)
      | None \<Rightarrow>
          (case find (\<lambda>i. client_strs v ! i = None) [0..<num_clients v] of
             Some i \<Rightarrow>
               let (ok, v1) = vote_alloc v in
               if ok then (int i, v1\<lparr>client_strs := (client_strs v1)[i := Some client_str]\<rparr>)
               else (- ENOMEM, v1)
           | None \<Rightarrow> (- EINVAL, v)))"

definition get_client_str :: "'f votable \<Rightarrow> int \<Rightarrow> string option" where
  "get_client_str v client_id = (if client_id = - EINVAL then None else client_strs v ! nat client_id)"

definition is_override_vote_enabled_locked :: "'f votable \<Rightarrow> bool" where
  "is_override_vote_enabled_locked v \<longleftrightarrow> override_result v \<noteq> - EINVAL"

definition is_override_vote_enabled :: "'f votable \<Rightarrow> fault + (bool \<times> 'f votable)" where
  "is_override_vote_enabled = with_lock (\<lambda>v. Inr (is_override_vote_enabled_locked v, v))"

definition is_client_vote_enabled_locked :: "'f votable \<Rightarrow> string option \<Rightarrow> bool \<times> 'f votable" where
  "is_client_vote_enabled_locked v client_str =
     (case client_str of
        None \<Rightarrow> (False, v)
      | Some c \<Rightarrow>
          let (client_id, v1) = get_client_id v c in
          if client_id < 0 then (False, v1) else (vote_enabled (votes v1 ! nat client_id), v1))"

definition is_client_vote_enabled :: "'f votable \<Rightarrow> string option \<Rightarrow> fault + (bool \<times> 'f votable)" where
  "is_client_vote_enabled v client_str =
     (if client_str = None then Inr (False, v)
      else with_lock (\<lambda>v. Inr (is_client_vote_enabled_locked v client_str)) v)"

definition get_client_vote_locked :: "'f votable \<Rightarrow> string option \<Rightarrow> int \<times> 'f votable" where
  "get_client_vote_locked v client_str =
     (case client_str of
        None \<Rightarrow> (- EINVAL, v)
      | Some c \<Rightarrow>
          let (client_id, v1) = get_client_id v c in
          if client_id < 0 then (- EINVAL, v1)
          else if v_type v1 \<noteq> VOTE_SET_ANY \<and> \<not> vote_enabled (votes v1 ! nat client_id) then (- EINVAL, v1)
          else (vote_value (votes v1 ! nat client_id), v1))"

definition get_client_vote :: "'f votable \<Rightarrow> string option \<Rightarrow> fault + (int \<times> 'f votable)" where
  "get_client_vote v client_str =
     (if client_str = None then Inr (- EINVAL, v)
      else with_lock (\<lambda>v. Inr (get_client_vote_locked v client_str)) v)"

definition get_effective_result_exclude_client :: "'f votable \<Rightarrow> string option \<Rightarrow> fault + (int \<times> 'f votable)" where
  "get_effective_result_exclude_client v exclude_str =
     (if exclude_str = None then Inr (- EINVAL, v)
      else with_lock (\<lambda>v. Inr (get_effective_result_exclude_client_locked v exclude_str, v)) v)"

definition get_effective_result_locked :: "'f votable \<Rightarrow> int" where
  "get_effective_result_locked v =
     (if force_active v then forced_result v
      else if override_result v \<noteq> - EINVAL then override_result v
      else effective_result v)"

definition get_effective_result :: "'f votable \<Rightarrow> fault + (int \<times> 'f votable)" where
  "get_effective_result = with_lock (\<lambda>v. Inr (get_effective_result_locked v, v))"

definition get_effective_client_locked :: "'f votable \<Rightarrow> string option" where
  "get_effective_client_locked v =
     (if force_active v then Some DEBUG_FORCE_CLIENT
      else if override_result v \<noteq> - EINVAL then override_client v
      else get_client_str v (effective_client_id v))"

definition get_effective_client :: "'f votable \<Rightarrow> fault + (string option \<times> 'f votable)" where
  "get_effective_client = with_lock (\<lambda>v. Inr (get_effective_client_locked v, v))"

section \<open>Voting\<close>

text \<open>A call through the callback pointer, with the call in the log.\<close>

definition call_callback ::
  "'f vote_env \<Rightarrow> int \<Rightarrow> string option \<Rightarrow> bool \<Rightarrow> 'f votable \<Rightarrow> fault + (rc \<times> 'f votable)" where
  "call_callback E result client step v =
     (case callback v of
        None \<Rightarrow> Inl Null_call
      | Some f \<Rightarrow> Inr (run_callback E f v result client step,
                      v\<lparr>callback_log := callback_log v @ [(result, client, step)]\<rparr>))"

text \<open>The vote checks in list order; the first failure ends the vote, otherwise the last result
  stays in \<open>rc\<close>.\<close>

fun run_checks ::
  "'f vote_env \<Rightarrow> 'f votable \<Rightarrow> string \<Rightarrow> bool \<Rightarrow> int \<Rightarrow> bool \<Rightarrow> 'f list \<Rightarrow> rc \<Rightarrow> rc" where
  "run_checks E v client_str enabled val step [] rc = rc"
| "run_checks E v client_str enabled val step (f # fs) rc =
     (let rc = run_check E f v client_str enabled val step in
      if rc < 0 then rc else run_checks E v client_str enabled val step fs rc)"

text \<open>The part of \<^verbatim>\<open>vote\<close> after the election.\<close>

definition announce ::
  "'f vote_env \<Rightarrow> rc \<Rightarrow> int \<times> int \<Rightarrow> bool \<Rightarrow> 'f votable \<Rightarrow> fault + (rc \<times> 'f votable)" where
  "announce E rc eff step v =
     (let (result, client_id) = eff in
      if \<not> voted_on v \<or> result \<noteq> effective_result v then
        let v1 = v\<lparr>effective_client_id := client_id, effective_result := result\<rparr> in
        if callback v1 \<noteq> None \<and> \<not> force_active v1 \<and> override_result v1 = - EINVAL
        then (case call_callback E result (get_client_str v1 client_id) step v1 of
                Inl e \<Rightarrow> Inl e
              | Inr (rc, v2) \<Rightarrow> Inr (rc, v2\<lparr>voted_on := True\<rparr>))
        else Inr (rc, v1\<lparr>voted_on := True\<rparr>)
      else Inr (rc, v\<lparr>effective_client_id := client_id, voted_on := True\<rparr>))"

text \<open>The value of a disjunction is whether the vote is enabled.\<close>

definition cast_value :: "'f votable \<Rightarrow> bool \<Rightarrow> int \<Rightarrow> int" where
  "cast_value v enabled val = (if v_type v = VOTE_SET_ANY then of_bool enabled else val)"

definition vote_locked_body ::
  "'f vote_env \<Rightarrow> string \<Rightarrow> bool \<Rightarrow> int \<Rightarrow> bool \<Rightarrow> 'f votable \<Rightarrow> fault + (rc \<times> 'f votable)" where
  "vote_locked_body E client_str enabled val step v =
     (let (client_id, v1) = get_client_id v client_str in
      if client_id < 0 then Inr (client_id, v1)
      else
        let val = cast_value v1 enabled val;
            new = \<lparr>vote_enabled = enabled, vote_value = val\<rparr> in
        if votes v1 ! nat client_id = new \<and> voted_on v1 then Inr (0, v1)
        else
          let rc = run_checks E v1 client_str enabled val step (check_list v1) 0 in
          if rc < 0 then Inr (rc, v1)
          else
            let v2 = v1\<lparr>votes := (votes v1)[nat client_id := new]\<rparr> in
            (case election v2 client_id None of
               None \<Rightarrow> Inr (- EINVAL, v2)
             | Some eff \<Rightarrow> announce E rc eff step v2))"

definition vote ::
  "'f vote_env \<Rightarrow> 'f votable \<Rightarrow> string option \<Rightarrow> bool \<Rightarrow> int \<Rightarrow> bool \<Rightarrow> fault + (rc \<times> 'f votable)" where
  "vote E v client_str enabled val step =
     (case client_str of
        None \<Rightarrow> Inr (- EINVAL, v)
      | Some c \<Rightarrow> with_lock (vote_locked_body E c enabled val step) v)"

definition vote_override_body ::
  "'f vote_env \<Rightarrow> string \<Rightarrow> bool \<Rightarrow> int \<Rightarrow> bool \<Rightarrow> 'f votable \<Rightarrow> fault + (rc \<times> 'f votable)" where
  "vote_override_body E client enabled val step v =
     (if force_active v then Inr (0, v\<lparr>override_result := (if enabled then val else - EINVAL)\<rparr>)
      else if enabled then
        (case call_callback E val (Some client) step v of
           Inl e \<Rightarrow> Inl e
         | Inr (rc, v1) \<Rightarrow>
             Inr (rc, if rc = 0 then v1\<lparr>override_client := Some client, override_result := val\<rparr> else v1))
      else
        (case call_callback E (effective_result v) (get_client_str v (effective_client_id v)) step v of
           Inl e \<Rightarrow> Inl e
         | Inr (rc, v1) \<Rightarrow> Inr (rc, v1\<lparr>override_result := - EINVAL\<rparr>)))"

definition vote_override ::
  "'f vote_env \<Rightarrow> 'f votable \<Rightarrow> string option \<Rightarrow> bool \<Rightarrow> int \<Rightarrow> bool \<Rightarrow> fault + (rc \<times> 'f votable)" where
  "vote_override E v client enabled val step =
     (case client of
        None \<Rightarrow> Inr (- EINVAL, v)
      | Some c \<Rightarrow> with_lock (vote_override_body E c enabled val step) v)"

definition rerun_election_unlock :: "'f vote_env \<Rightarrow> bool \<Rightarrow> 'f votable \<Rightarrow> fault + (rc \<times> 'f votable)" where
  "rerun_election_unlock E step v =
     (if force_active v then
        if callback v \<noteq> None then call_callback E (forced_result v) (Some DEBUG_FORCE_CLIENT) False v
        else Inr (0, v)
      else
        if callback v \<noteq> None
        then call_callback E (get_effective_result_locked v) (get_client_str v (effective_client_id v)) step v
        else Inr (0, v))"

definition rerun_election :: "'f vote_env \<Rightarrow> bool \<Rightarrow> 'f votable \<Rightarrow> fault + (rc \<times> 'f votable)" where
  "rerun_election E step = with_lock (rerun_election_unlock E step)"

section \<open>The proc files\<close>

text \<open>What the status file shows: a line for every client, and the summary (effective client, type,
  result). The text format is left out; the page the text is built in may not be available. An
  unknown type returns early, with the mutex held.\<close>

record votable_status =
  status_lines :: "(string \<times> bool \<times> int) list"
  status_client :: string
  status_type :: string
  status_result :: int

definition votable_status_read :: "bool \<Rightarrow> 'f votable \<Rightarrow> fault + ((rc + votable_status) \<times> 'f votable)" where
  "votable_status_read page_ok v =
     (if \<not> page_ok then Inr (Inl (- ENOMEM), v)
      else
        (case lock_votable v of
           Inl e \<Rightarrow> Inl e
         | Inr v1 \<Rightarrow>
             let ls = concat (map (\<lambda>i. case client_strs v1 ! i of
                        Some c \<Rightarrow> [(c, vote_enabled (votes v1 ! i), vote_value (votes v1 ! i))]
                      | None \<Rightarrow> []) [0..<num_clients v1]) in
             if v_type v1 \<in> {VOTE_MIN, VOTE_MAX, VOTE_SET_ANY}
             then Inr (Inr \<lparr>status_lines = ls,
                        status_client = (case get_effective_client_locked v1 of Some c \<Rightarrow> c | None \<Rightarrow> ''none''),
                        status_type = (if v_type v1 = VOTE_MIN then ''Min''
                                       else if v_type v1 = VOTE_MAX then ''Max'' else ''Set_any''),
                        status_result = get_effective_result_locked v1\<rparr>,
                      unlock_votable v1)
             else Inr (Inl (- EINVAL), v1)))"

text \<open>A write of \<open>len\<close> bytes to a buffer of 128: the copy from user space may fail, and \<open>parsed\<close> is
  what \<^verbatim>\<open>kstrtou32\<close> makes of the text.\<close>

definition read_user_u32 :: "int \<Rightarrow> bool \<Rightarrow> u32 option \<Rightarrow> rc + u32" where
  "read_user_u32 len copy_ok parsed =
     (if len > 127 \<or> \<not> copy_ok then Inl (- EFAULT)
      else (case parsed of None \<Rightarrow> Inl (- EINVAL) | Some val \<Rightarrow> Inr val))"

definition votable_force_active_write ::
  "'f vote_env \<Rightarrow> int \<Rightarrow> bool \<Rightarrow> u32 option \<Rightarrow> 'f votable \<Rightarrow> fault + (int \<times> 'f votable)" where
  "votable_force_active_write E len copy_ok parsed v =
     (case read_user_u32 len copy_ok parsed of
        Inl rc \<Rightarrow> Inr (rc, v)
      | Inr val \<Rightarrow>
          with_lock (\<lambda>v.
            let v1 = v\<lparr>force_active := (val \<noteq> 0)\<rparr>;
                done = (\<lambda>r. case r of Inl e \<Rightarrow> Inl e | Inr (rc, v2) \<Rightarrow> Inr (if rc < 0 then rc else len, v2)) in
            if callback v1 = None then Inr (len, v1)
            else if force_active v1
            then done (call_callback E (forced_result v1) (Some DEBUG_FORCE_CLIENT) False v1)
            else if override_result v1 \<noteq> - EINVAL
            then done (call_callback E (override_result v1) (override_client v1) False v1)
            else done (call_callback E (effective_result v1)
                        (get_client_str v1 (effective_client_id v1)) False v1)) v)"

definition votable_force_val_write ::
  "int \<Rightarrow> bool \<Rightarrow> u32 option \<Rightarrow> 'f votable \<Rightarrow> fault + (int \<times> 'f votable)" where
  "votable_force_val_write len copy_ok parsed v =
     (case read_user_u32 len copy_ok parsed of
        Inl rc \<Rightarrow> Inr (rc, v)
      | Inr val \<Rightarrow> with_lock (\<lambda>v. Inr (len, v\<lparr>force_val := val\<rparr>)) v)"

section \<open>Maps and checks\<close>

definition votable_add_map :: "int \<Rightarrow> int \<Rightarrow> 'f votable \<Rightarrow> rc \<times> 'f votable" where
  "votable_add_map original mapped v =
     (if map_of (hash_table v) original \<noteq> None then (0, v)
      else
        let (ok, v1) = vote_alloc v in
        if ok then (0, v1\<lparr>hash_table := (original, mapped) # hash_table v1\<rparr>) else (- EINVAL, v1))"

definition votable_add_check_func :: "'f option \<Rightarrow> 'f votable \<Rightarrow> rc \<times> 'f votable" where
  "votable_add_check_func func v =
     (case func of
        None \<Rightarrow> (- EINVAL, v)
      | Some f \<Rightarrow>
          let (ok, v1) = vote_alloc v in
          if ok then (0, v1\<lparr>check_list := f # check_list v1\<rparr>) else (- ENOMEM, v1))"

section \<open>The list of votables\<close>

text \<open>The votables live on a heap: \<open>v_heap\<close> maps the addresses in use to their contents, \<open>v_list\<close> is
  the global list, the latest first, \<open>debug_root\<close> whether the proc directory exists. \<open>v_ok\<close> says which of
  the next allocations and creations of proc entries succeed.\<close>

record 'f voter =
  v_heap :: "nat \<rightharpoonup> 'f votable"
  v_list :: "nat list"
  v_next :: nat
  debug_root :: bool
  v_ok :: "bool list"

definition take_ok :: "'f voter \<Rightarrow> bool \<times> 'f voter" where
  "take_ok st = (case v_ok st of [] \<Rightarrow> (True, st) | ok # oks \<Rightarrow> (ok, st\<lparr>v_ok := oks\<rparr>))"

fun find_in_list :: "(nat \<rightharpoonup> 'f votable) \<Rightarrow> string \<Rightarrow> nat list \<Rightarrow> fault + nat option" where
  "find_in_list h name [] = Inr None"
| "find_in_list h name (p # ps) =
     (case h p of
        None \<Rightarrow> Inl Use_after_free
      | Some v \<Rightarrow> if v_name v = name then Inr (Some p) else find_in_list h name ps)"

definition find_votable :: "string option \<Rightarrow> 'f voter \<Rightarrow> fault + nat option" where
  "find_votable name st =
     (case name of None \<Rightarrow> Inr None | Some n \<Rightarrow> find_in_list (v_heap st) n (v_list st))"

definition new_votable :: "string \<Rightarrow> int \<Rightarrow> 'f option \<Rightarrow> 'f votable" where
  "new_votable name votable_type cb =
     \<lparr>v_name = name, override_client = None,
      votes = replicate NUM_MAX_CLIENTS \<lparr>vote_enabled = False, vote_value = 0\<rparr>,
      num_clients = NUM_MAX_CLIENTS, v_type = votable_type, effective_client_id = - EINVAL,
      effective_result = (if votable_type = VOTE_SET_ANY then 0 else - EINVAL),
      override_result = - EINVAL, vote_locked = False, callback = cb,
      client_strs = replicate NUM_MAX_CLIENTS None, voted_on = False, force_val = 0,
      force_active = False, hash_table = [], check_list = [], callback_log = [], alloc_ok = []\<rparr>"

text \<open>The four proc entries, created one after the other after the votable is in the list; a
  failure frees the votable and returns the error.\<close>

fun create_entries :: "rc list \<Rightarrow> nat \<Rightarrow> 'f voter \<Rightarrow> (rc + nat) \<times> 'f voter" where
  "create_entries [] p st = (Inr p, st)"
| "create_entries (err # errs) p st =
     (let (ok, st1) = take_ok st in
      if ok then create_entries errs p st1 else (Inl err, st1\<lparr>v_heap := (v_heap st1)(p := None)\<rparr>))"

definition add_votable :: "string \<Rightarrow> int \<Rightarrow> 'f option \<Rightarrow> 'f voter \<Rightarrow> (rc + nat) \<times> 'f voter" where
  "add_votable name votable_type cb st =
     (let p = v_next st in
      create_entries [- ENOMEM, - EEXIST, - EEXIST, - EEXIST] p
        (st\<lparr>v_heap := (v_heap st)(p \<mapsto> new_votable name votable_type cb), v_list := p # v_list st,
            v_next := Suc p\<rparr>))"

definition create_votable ::
  "string option \<Rightarrow> int \<Rightarrow> 'f option \<Rightarrow> 'f voter \<Rightarrow> fault + ((rc + nat) \<times> 'f voter)" where
  "create_votable name votable_type cb st =
     (case name of
        None \<Rightarrow> Inr (Inl (- EINVAL), st)
      | Some n \<Rightarrow>
          (case find_votable name st of
             Inl e \<Rightarrow> Inl e
           | Inr (Some _) \<Rightarrow> Inr (Inl (- EEXIST), st)
           | Inr None \<Rightarrow>
               let (root_ok, st1) = (if debug_root st then (True, st) else take_ok st) in
               if \<not> root_ok then Inr (Inl (- ENOMEM), st1)
               else
                 let st2 = st1\<lparr>debug_root := True\<rparr> in
                 if votable_type \<ge> NUM_VOTABLE_TYPES then Inr (Inl (- EINVAL), st2)
                 else
                   let (alloc, st3) = take_ok st2 in
                   if \<not> alloc then Inr (Inl (- ENOMEM), st3)
                   else
                     let (dup, st4) = take_ok st3 in
                     if \<not> dup then Inr (Inl (- ENOMEM), st4)
                     else Inr (add_votable n votable_type cb st4)))"

definition destroy_votable :: "nat option \<Rightarrow> 'f voter \<Rightarrow> fault + 'f voter" where
  "destroy_votable votable st =
     (case votable of
        None \<Rightarrow> Inr st
      | Some p \<Rightarrow>
          (case v_heap st p of
             None \<Rightarrow> Inl Use_after_free
           | Some _ \<Rightarrow> Inr (st\<lparr>v_list := remove1 p (v_list st), v_heap := (v_heap st)(p := None)\<rparr>)))"

end
