(* ===== verification/Chg_Elections.thy ===== *)
theory Chg_Elections
  imports Chg_Voter
begin

text \<open>
  What the voters guarantee: what the elections elect, that the client table stays packed and the
  cached result up to date in every votable the operations produce, that a vote is the update of one
  ballot and the result a function of the ballots, when the callback is called, and what creating
  and looking up votables does to the global list.
\<close>

section \<open>The client table\<close>

text \<open>The registered clients, in the order of their slots.\<close>

definition clients :: "'f votable \<Rightarrow> string list" where
  "clients v = map the (takeWhile (\<lambda>c. c \<noteq> None) (client_strs v))"

definition table_ok :: "'f votable \<Rightarrow> bool" where
  "table_ok v \<longleftrightarrow> num_clients v = NUM_MAX_CLIENTS \<and> length (votes v) = NUM_MAX_CLIENTS \<and>
     length (clients v) \<le> NUM_MAX_CLIENTS \<and> distinct (clients v) \<and>
     client_strs v = map Some (clients v) @ replicate (NUM_MAX_CLIENTS - length (clients v)) None \<and>
     (\<forall>i<NUM_MAX_CLIENTS. length (clients v) \<le> i \<longrightarrow> votes v ! i = \<lparr>vote_enabled = False, vote_value = 0\<rparr>)"

lemma client_strs_nth:
  assumes "table_ok v" "i < NUM_MAX_CLIENTS"
  shows "client_strs v ! i = (if i < length (clients v) then Some (clients v ! i) else None)"
  using assms by (simp add: table_ok_def nth_append)

lemma client_ids_upt:
  assumes "table_ok v" shows "client_ids v = [0..<length (clients v)]"
proof -
  have n: "num_clients v = NUM_MAX_CLIENTS" "length (clients v) \<le> NUM_MAX_CLIENTS"
    using assms by (simp_all add: table_ok_def)
  then have "[0..<num_clients v] = [0..<length (clients v)] @ [length (clients v)..<NUM_MAX_CLIENTS]"
    by (metis le_add_diff_inverse upt_add_eq_append zero_le)
  moreover have "\<forall>i\<in>set [0..<length (clients v)]. client_strs v ! i \<noteq> None"
    using assms n(2) by (simp add: client_strs_nth)
  then have "takeWhile (\<lambda>i. client_strs v ! i \<noteq> None) ([0..<length (clients v)] @ ys) =
      [0..<length (clients v)] @ takeWhile (\<lambda>i. client_strs v ! i \<noteq> None) ys" for ys
    by (intro takeWhile_append2) blast
  moreover have "takeWhile (\<lambda>i. client_strs v ! i \<noteq> None) [length (clients v)..<NUM_MAX_CLIENTS] = []"
    using assms n(2) by (cases "length (clients v) < NUM_MAX_CLIENTS") (auto simp: upt_rec client_strs_nth)
  ultimately show ?thesis
    unfolding client_ids_def by (simp only: append_Nil2)
qed

section \<open>What the elections elect\<close>

text \<open>Both elections compare by a key: they keep the first of the clients with the smallest key,
  among those whose key is below that of the initial value.\<close>

definition voters :: "'f votable \<Rightarrow> string option \<Rightarrow> nat set" where
  "voters v exclude_str = {i. i < length (clients v) \<and> vote_enabled (votes v ! i) \<and> exclude_str \<noteq> Some (clients v ! i)}"

locale election_order =
  fixes better :: "int \<Rightarrow> int \<Rightarrow> bool" and key :: "int \<Rightarrow> int" and start :: int
  assumes better_key: "better x y \<longleftrightarrow> key x < key y"
begin

text \<open>The state of the loop after the first \<open>n\<close> clients: nobody yet, or the best client so far.\<close>

definition best_below :: "'f votable \<Rightarrow> nat set \<Rightarrow> int \<times> int \<Rightarrow> bool" where
  "best_below v cs eff \<longleftrightarrow>
     eff = (start, - EINVAL) \<and> (\<forall>j\<in>cs. key start \<le> key (mapped_vote v j)) \<or>
     (\<exists>i\<in>cs. eff = (mapped_vote v i, int i) \<and> key (mapped_vote v i) < key start \<and>
        (\<forall>j\<in>cs. key (mapped_vote v i) \<le> key (mapped_vote v j)) \<and>
        (\<forall>j\<in>cs. j < i \<longrightarrow> key (mapped_vote v i) < key (mapped_vote v j)))"

lemma best_below_insert:
  assumes "best_below v cs eff" and "\<forall>j\<in>cs. j < n"
  shows "best_below v (insert n cs) (if better (mapped_vote v n) (fst eff) then (mapped_vote v n, int n) else eff)"
proof -
  from assms(1) consider (none) "eff = (start, - EINVAL)" "\<forall>j\<in>cs. key start \<le> key (mapped_vote v j)"
    | (some) i where "i \<in> cs" "eff = (mapped_vote v i, int i)" "key (mapped_vote v i) < key start"
        "\<forall>j\<in>cs. key (mapped_vote v i) \<le> key (mapped_vote v j)"
        "\<forall>j\<in>cs. j < i \<longrightarrow> key (mapped_vote v i) < key (mapped_vote v j)"
    by (auto simp: best_below_def)
  then show ?thesis
  proof cases
    case none
    then show ?thesis by (force simp: best_below_def better_key)
  next
    case (some i)
    show ?thesis
    proof (cases "better (mapped_vote v n) (mapped_vote v i)")
      case True
      have "\<forall>j\<in>cs. key (mapped_vote v n) < key (mapped_vote v j)" "key (mapped_vote v n) < key start"
        using True some(3,4) by (force simp: better_key)+
      then show ?thesis using True some(2) by (force simp: best_below_def)
    next
      case False
      have "best_below v (insert n cs) (mapped_vote v i, int i)"
        unfolding best_below_def using some False assms(2) by (intro disjI2 bexI [of _ i]) (auto simp: better_key)
      then show ?thesis using False some(2) by simp
    qed
  qed
qed

lemma loop_best:
  assumes "table_ok v" and "n \<le> length (clients v)"
  shows "best_below v (voters v x \<inter> {..<n}) (foldl (elect_step better v x) (start, - EINVAL) [0..<n])"
  using assms(2)
proof (induction n)
  case (Suc n)
  let ?eff = "foldl (elect_step better v x) (start, - EINVAL) [0..<n]"
  have c: "client_strs v ! n = Some (clients v ! n)"
    using Suc.prems assms(1) client_strs_nth [of v n] by (auto simp: table_ok_def)
  show ?case
  proof (cases "n \<in> voters v x")
    case True
    then have "voters v x \<inter> {..<Suc n} = insert n (voters v x \<inter> {..<n})" by (auto simp: less_Suc_eq)
    moreover have "elect_step better v x ?eff n =
        (if better (mapped_vote v n) (fst ?eff) then (mapped_vote v n, int n) else ?eff)"
      using True by (simp add: elect_step_def voters_def c)
    ultimately show ?thesis using best_below_insert [of v _ ?eff n] Suc by simp
  next
    case False
    then have "voters v x \<inter> {..<Suc n} = voters v x \<inter> {..<n}" by (auto simp: less_Suc_eq)
    moreover have "elect_step better v x ?eff n = ?eff"
      using False Suc.prems by (auto simp: elect_step_def voters_def c)
    ultimately show ?thesis using Suc by simp
  qed
qed (simp add: best_below_def)

lemma elect_none:
  assumes "table_ok v" and "\<forall>j\<in>voters v x. key start \<le> key (mapped_vote v j)"
  shows "elect better start v x = (- EINVAL, - EINVAL)"
proof -
  have "voters v x \<inter> {..<length (clients v)} = voters v x" by (auto simp: voters_def)
  then show ?thesis
    using loop_best [OF assms(1) order_refl, of x] assms
    by (force simp: best_below_def elect_def client_ids_upt Let_def)
qed

lemma elect_some:
  assumes "table_ok v" and "j \<in> voters v x" and "key (mapped_vote v j) < key start"
  obtains i where "i \<in> voters v x" and "elect better start v x = (vote_value (votes v ! i), int i)"
    and "\<forall>j\<in>voters v x. key (mapped_vote v i) \<le> key (mapped_vote v j)"
    and "\<forall>j\<in>voters v x. j < i \<longrightarrow> key (mapped_vote v i) < key (mapped_vote v j)"
proof -
  have "voters v x \<inter> {..<length (clients v)} = voters v x" by (auto simp: voters_def)
  with loop_best [OF assms(1) order_refl, of x]
  have b: "best_below v (voters v x) (foldl (elect_step better v x) (start, - EINVAL) (client_ids v))"
    by (simp add: client_ids_upt [OF assms(1)])
  then show thesis using assms(2,3) that by (force simp: best_below_def elect_def Let_def)
qed

text \<open>So the outcome depends on the voters and their votes only.\<close>

lemma elect_determined:
  assumes "table_ok v" and "table_ok w" and "voters v x = voters w x"
    and "\<forall>i\<in>voters v x. votes v ! i = votes w ! i" and "hash_table v = hash_table w"
  shows "elect better start v x = elect better start w x"
proof -
  have m: "\<forall>i\<in>voters w x. mapped_vote v i = mapped_vote w i"
    using assms(3-5) by (auto simp: mapped_vote_def vote_get_mapped_val_def split: option.split)
  show ?thesis
  proof (cases "\<forall>j\<in>voters v x. key start \<le> key (mapped_vote v j)")
    case True
    then show ?thesis using elect_none [OF assms(1)] elect_none [OF assms(2)] m assms(3) by simp
  next
    case False
    then obtain j where j: "j \<in> voters v x" "key (mapped_vote v j) < key start" by force
    obtain a where a: "a \<in> voters v x" "elect better start v x = (vote_value (votes v ! a), int a)"
      "\<forall>j\<in>voters v x. key (mapped_vote v a) \<le> key (mapped_vote v j)"
      "\<forall>j\<in>voters v x. j < a \<longrightarrow> key (mapped_vote v a) < key (mapped_vote v j)"
      using elect_some [OF assms(1) j] .
    obtain b where b: "b \<in> voters w x" "elect better start w x = (vote_value (votes w ! b), int b)"
      "\<forall>j\<in>voters w x. key (mapped_vote w b) \<le> key (mapped_vote w j)"
      "\<forall>j\<in>voters w x. j < b \<longrightarrow> key (mapped_vote w b) < key (mapped_vote w j)"
      using elect_some [OF assms(2), of j x] j m assms(3) by auto
    have "a = b" using a(1,3,4) b(1,3,4) m assms(3) by (metis linorder_cases not_less)
    then show ?thesis using a(1,2) b(2) assms(4) by simp
  qed
qed

lemma elect_client:
  assumes "table_ok v" and "elect better start v x = (r, i)"
  shows "i = - EINVAL \<or> (\<exists>n\<in>voters v x. i = int n)"
proof (cases "\<forall>j\<in>voters v x. key start \<le> key (mapped_vote v j)")
  case True
  then show ?thesis using elect_none [OF assms(1)] assms(2) by simp
next
  case False
  then obtain j where "j \<in> voters v x" "key (mapped_vote v j) < key start" by force
  then show ?thesis by (rule elect_some [OF assms(1)]) (use assms(2) in auto)
qed

end

interpretation min_election: election_order "\<lambda>val eff_res. eff_res > val" id INT_MAX
  by unfold_locales simp

interpretation max_election: election_order "\<lambda>val eff_res. eff_res < val" uminus INT_MIN
  by unfold_locales simp

lemma vote_set_any_voters:
  assumes "table_ok v"
  shows "fst (vote_set_any v client_id x) = of_bool (voters v x \<noteq> {})"
proof -
  let ?f = "\<lambda>(eff_res :: int) i. if is_client_excluded (client_strs v ! i) x then eff_res
               else or eff_res (of_bool (vote_enabled (votes v ! i)))"
  have "foldl ?f 0 [0..<n] = of_bool (voters v x \<inter> {..<n} \<noteq> {})" if "n \<le> length (clients v)" for n
    using that
  proof (induction n)
    case (Suc n)
    have c: "client_strs v ! n = Some (clients v ! n)"
      using Suc.prems assms client_strs_nth [of v n] by (auto simp: table_ok_def)
    have "voters v x \<inter> {..<Suc n} = (if n \<in> voters v x then insert n (voters v x \<inter> {..<n}) else voters v x \<inter> {..<n})"
      by (auto simp: less_Suc_eq)
    then show ?case using Suc by (auto simp: c voters_def)
  qed simp
  moreover have "voters v x \<inter> {..<length (clients v)} = voters v x" by (auto simp: voters_def)
  ultimately show ?thesis by (simp add: vote_set_any_def client_ids_upt [OF assms])
qed

lemma election_determined:
  assumes "table_ok v" and "table_ok w" and "voters v x = voters w x"
    and "\<forall>i\<in>voters v x. votes v ! i = votes w ! i" and "hash_table v = hash_table w" and "v_type v = v_type w"
  shows "election v client_id x = election w client_id x"
proof -
  have "vote_set_any v client_id x = vote_set_any w client_id x"
    using vote_set_any_voters [OF assms(1), of client_id x] vote_set_any_voters [OF assms(2), of client_id x] assms(3)
    by (simp add: vote_set_any_def)
  then show ?thesis
    using min_election.elect_determined [OF assms(1-5)] max_election.elect_determined [OF assms(1-5)] assms(6)
    by (simp add: election_def vote_min_def vote_max_def)
qed

lemma election_client:
  assumes "table_ok v" and "election v client_id x = Some (r, i)"
  shows "i = client_id \<or> i = - EINVAL \<or> (\<exists>n<length (clients v). i = int n)"
  using assms min_election.elect_client [OF assms(1), of x r i] max_election.elect_client [OF assms(1), of x r i]
  by (auto simp: election_def vote_min_def vote_max_def vote_set_any_def voters_def split: if_splits)

section \<open>Registering a client\<close>

lemma clients_append:
  "client_strs v = map Some cs @ replicate n None \<Longrightarrow> clients v = cs"
  by (simp add: clients_def takeWhile_append)

lemma vote_alloc_tl: "vote_alloc v = (alloc_ok v = [] \<or> hd (alloc_ok v), v\<lparr>alloc_ok := tl (alloc_ok v)\<rparr>)"
  by (cases v) (simp add: vote_alloc_def split: list.split)

lemma get_client_id_cases:
  assumes "table_ok v" and "get_client_id v c = (cid, v1)"
  obtains (known) i where "i < length (clients v)" "clients v ! i = c" "cid = int i" "v1 = v"
  | (new) a where "c \<notin> set (clients v)" "length (clients v) < NUM_MAX_CLIENTS" "cid = int (length (clients v))"
      "v1 = v\<lparr>alloc_ok := a, client_strs := map Some (clients v @ [c]) @
              replicate (NUM_MAX_CLIENTS - Suc (length (clients v))) None\<rparr>"
  | (failed) a where "c \<notin> set (clients v)" "cid < 0" "v1 = v\<lparr>alloc_ok := a\<rparr>"
      "cid = - EINVAL \<and> length (clients v) = NUM_MAX_CLIENTS \<and> v1 = v \<or>
       cid = - ENOMEM \<and> alloc_ok v \<noteq> [] \<and> \<not> hd (alloc_ok v)"
proof -
  have n: "num_clients v = NUM_MAX_CLIENTS" and le: "length (clients v) \<le> NUM_MAX_CLIENTS"
    using assms(1) by (simp_all add: table_ok_def)
  note nth = client_strs_nth [OF assms(1)]
  show thesis
  proof (cases "find (\<lambda>i. client_strs v ! i = Some c) [0..<num_clients v]")
    case (Some i)
    then have "i < length (clients v)" "clients v ! i = c"
      using find_upt0_Some [THEN iffD1, OF Some] n nth by (auto split: if_splits)
    then show thesis using assms(2) Some by (intro known) (auto simp: get_client_id_def)
  next
    case None
    then have fresh: "c \<notin> set (clients v)"
    proof -
      have "client_strs v ! i \<noteq> Some c" if "i < NUM_MAX_CLIENTS" for i
        using None that n by (auto simp: find_None_iff)
      then show ?thesis using nth le by (auto simp: in_set_conv_nth) (metis order.strict_trans2)
    qed
    show thesis
    proof (cases "find (\<lambda>i. client_strs v ! i = None) [0..<num_clients v]")
      case free: None
      then have "length (clients v) = NUM_MAX_CLIENTS"
        using n nth le by (auto simp: find_None_iff dest!: spec [of _ "length (clients v)"])
      then show thesis using assms(2) None free fresh
        by (intro failed [of "alloc_ok v"]) (auto simp: get_client_id_def)
    next
      case free: (Some i)
      then have i: "i < NUM_MAX_CLIENTS" "\<not> i < length (clients v)"
        using find_upt0_Some [THEN iffD1, OF free] n nth by (auto split: if_splits)
      then have "i = length (clients v)"
        using find_upt0_Some [THEN iffD1, OF free] nth [of "length (clients v)"] by (cases "length (clients v) < i") auto
      obtain ok a where k: "vote_alloc v = (ok, v\<lparr>alloc_ok := a\<rparr>)" "ok \<longleftrightarrow> alloc_ok v = [] \<or> hd (alloc_ok v)"
        using vote_alloc_tl by blast
      show thesis
      proof (cases ok)
        case True
        have "(client_strs v)[i := Some c] = map Some (clients v @ [c]) @
              replicate (NUM_MAX_CLIENTS - Suc (length (clients v))) None"
        proof -
          have "NUM_MAX_CLIENTS - length (clients v) = Suc (NUM_MAX_CLIENTS - Suc (length (clients v)))"
            using i(1) \<open>i = _\<close> by simp
          then show ?thesis using assms(1) \<open>i = _\<close>
            by (simp add: table_ok_def list_update_append)
        qed
        then show thesis using assms(2) None free fresh i(1) True k \<open>i = _\<close>
          by (intro new [of a]) (auto simp: get_client_id_def)
      next
        case False
        then show thesis using assms(2) None free fresh i(1) k \<open>i = _\<close>
          by (intro failed [of a]) (auto simp: get_client_id_def)
      qed
    qed
  qed
qed

section \<open>The invariant\<close>

text \<open>The client table is packed, without duplicates, and free slots hold no vote; the cached result
  and client are those an election over the current votes gives. The client of a disjunction is the
  one that voted last.\<close>

definition cache_ok :: "'f votable \<Rightarrow> bool" where
  "cache_ok v \<longleftrightarrow>
     (if v_type v = VOTE_SET_ANY
      then effective_result v = of_bool (voters v None \<noteq> {}) \<and>
        (effective_client_id v = - EINVAL \<or> (\<exists>i<length (clients v). effective_client_id v = int i))
      else election v 0 None = Some (effective_result v, effective_client_id v))"

definition vote_inv :: "'f votable \<Rightarrow> bool" where
  "vote_inv v \<longleftrightarrow> table_ok v \<and> v_type v \<in> {VOTE_MIN, VOTE_MAX, VOTE_SET_ANY} \<and> cache_ok v \<and>
     (\<not> voted_on v \<longrightarrow> voters v None = {})"

lemma election_type:
  "v_type v \<noteq> VOTE_SET_ANY \<Longrightarrow> election v i x = election v j x"
  by (simp add: election_def)

text \<open>Nothing but the table, the votes, the maps and the cache matters.\<close>

lemma table_ok_cong:
  assumes "client_strs v = client_strs w" "votes v = votes w" "num_clients v = num_clients w"
  shows "table_ok v = table_ok w" "clients v = clients w" "voters v x = voters w x"
  using assms by (simp_all add: table_ok_def clients_def voters_def)

lemma vote_inv_cong:
  assumes "client_strs v = client_strs w" "votes v = votes w" "num_clients v = num_clients w"
    "hash_table v = hash_table w" "v_type v = v_type w" "effective_result v = effective_result w"
    "effective_client_id v = effective_client_id w" "voted_on v = voted_on w"
  shows "vote_inv v = vote_inv w"
proof -
  note t = table_ok_cong [OF assms(1-3)]
  have "table_ok w \<Longrightarrow> election v 0 None = election w 0 None"
    using t assms by (intro election_determined) auto
  then show ?thesis using t assms by (auto simp: vote_inv_def cache_ok_def)
qed

lemma vote_inv_other [simp]:
  "vote_inv (v\<lparr>vote_locked := a\<rparr>) = vote_inv v" "vote_inv (v\<lparr>callback_log := b\<rparr>) = vote_inv v"
  "vote_inv (v\<lparr>alloc_ok := c\<rparr>) = vote_inv v" "vote_inv (v\<lparr>override_result := d\<rparr>) = vote_inv v"
  "vote_inv (v\<lparr>override_client := f\<rparr>) = vote_inv v" "vote_inv (v\<lparr>force_active := g\<rparr>) = vote_inv v"
  "vote_inv (v\<lparr>force_val := h\<rparr>) = vote_inv v" "vote_inv (v\<lparr>check_list := k\<rparr>) = vote_inv v"
  by (rule vote_inv_cong; simp)+

lemma vote_inv_register:
  assumes "vote_inv v" and "c \<notin> set (clients v)" and "length (clients v) < NUM_MAX_CLIENTS"
    and "v1 = v\<lparr>alloc_ok := a, client_strs := map Some (clients v @ [c]) @
              replicate (NUM_MAX_CLIENTS - Suc (length (clients v))) None\<rparr>"
  shows "vote_inv v1" and "clients v1 = clients v @ [c]" and "voters v1 x = voters v x"
proof -
  have t: "table_ok v" using assms(1) by (simp add: vote_inv_def)
  have f: "votes v1 = votes v" "num_clients v1 = num_clients v" "hash_table v1 = hash_table v"
    "v_type v1 = v_type v" "effective_result v1 = effective_result v"
    "effective_client_id v1 = effective_client_id v" "voted_on v1 = voted_on v"
    "client_strs v1 = map Some (clients v @ [c]) @ replicate (NUM_MAX_CLIENTS - Suc (length (clients v))) None"
    by (simp_all add: assms(4))
  show c: "clients v1 = clients v @ [c]" by (rule clients_append) (rule f(8))
  have free: "votes v ! length (clients v) = \<lparr>vote_enabled = False, vote_value = 0\<rparr>"
    using t assms(3) by (simp add: table_ok_def)
  then show w: "voters v1 x = voters v x" for x
    by (auto simp: voters_def c f(1) nth_append less_Suc_eq)
  have t1: "table_ok v1" using t assms(2,3) by (simp add: table_ok_def c f)
  have "election v1 0 None = election v 0 None"
    by (rule election_determined [OF t1 t w]) (simp_all add: f)
  then show "vote_inv v1"
    using assms(1) t1 w by (auto simp: vote_inv_def cache_ok_def c less_Suc_eq f(4-7))
qed

lemma get_client_id_inv:
  assumes "vote_inv v" and "get_client_id v c = (cid, v1)"
  shows "vote_inv v1"
proof -
  have "table_ok v" using assms(1) by (simp add: vote_inv_def)
  from this assms(2) show ?thesis
    by (cases rule: get_client_id_cases) (use assms(1) vote_inv_register(1) in auto)
qed

section \<open>The ballots\<close>

text \<open>The abstract state of a votable: the value each client stands for, if it takes part.\<close>

definition ballots :: "'f votable \<Rightarrow> string \<Rightarrow> int option" where
  "ballots v c =
     (case map_of (zip (clients v) (votes v)) c of
        Some b \<Rightarrow> if vote_enabled b then Some (vote_value b) else None
      | None \<Rightarrow> None)"

lemma ballots_unknown: "c \<notin> set (clients v) \<Longrightarrow> ballots v c = None"
  by (auto simp: ballots_def dest!: map_of_SomeD set_zip_leftD split: option.split)

lemma ballots_nth:
  assumes "table_ok v" and "i < length (clients v)"
  shows "ballots v (clients v ! i) = (if vote_enabled (votes v ! i) then Some (vote_value (votes v ! i)) else None)"
proof -
  have z: "zip (clients v) (votes v) = zip (clients v) (take (length (clients v)) (votes v))"
    using take_zip [of "length (clients v)" "clients v" "votes v"] by simp
  have "length (take (length (clients v)) (votes v)) = length (clients v)"
    using assms by (simp add: table_ok_def)
  then have "map_of (zip (clients v) (take (length (clients v)) (votes v))) (clients v ! i) =
      Some (take (length (clients v)) (votes v) ! i)"
    using assms by (intro map_of_zip_nth) (simp_all add: table_ok_def)
  then show ?thesis using assms(2) by (simp add: ballots_def z)
qed

lemma ballots_eqI:
  assumes "table_ok v" and "\<And>i. i < length (clients v) \<Longrightarrow>
      f (clients v ! i) = (if vote_enabled (votes v ! i) then Some (vote_value (votes v ! i)) else None)"
    and "\<And>c. c \<notin> set (clients v) \<Longrightarrow> f c = None"
  shows "ballots v = f"
proof
  fix c
  show "ballots v c = f c"
    by (cases "c \<in> set (clients v)")
      (use assms ballots_nth [OF assms(1)] ballots_unknown [of c v] in \<open>auto simp: in_set_conv_nth\<close>)
qed

lemma ran_ballots: "table_ok v \<Longrightarrow> ran (ballots v) = (\<lambda>i. vote_value (votes v ! i)) ` voters v None"
proof (intro set_eqI iffI)
  fix y assume t: "table_ok v" and "y \<in> ran (ballots v)"
  then obtain c where c: "ballots v c = Some y" by (auto simp: ran_def)
  then have "c \<in> set (clients v)" using ballots_unknown by fastforce
  then obtain i where "i < length (clients v)" "c = clients v ! i" by (auto simp: in_set_conv_nth)
  with c show "y \<in> (\<lambda>i. vote_value (votes v ! i)) ` voters v None"
    by (auto simp: ballots_nth [OF t] voters_def split: if_splits)
next
  fix y assume t: "table_ok v" and "y \<in> (\<lambda>i. vote_value (votes v ! i)) ` voters v None"
  then obtain i where "i < length (clients v)" "vote_enabled (votes v ! i)" "y = vote_value (votes v ! i)"
    by (auto simp: voters_def)
  then have "ballots v (clients v ! i) = Some y" by (simp add: ballots_nth [OF t])
  then show "y \<in> ran (ballots v)" by (rule ranI)
qed

lemma finite_ballots: "table_ok v \<Longrightarrow> finite (ran (ballots v))"
  by (simp add: ran_ballots voters_def)

text \<open>The result that the ballots determine.\<close>

definition elected :: "int \<Rightarrow> (string \<rightharpoonup> int) \<Rightarrow> int" where
  "elected t b =
     (if t = VOTE_SET_ANY then of_bool (ran b \<noteq> {})
      else if ran b = {} then - EINVAL
      else if t = VOTE_MIN then Min (ran b) else Max (ran b))"

text \<open>The loops start from the largest and the smallest C \<^verbatim>\<open>int\<close>, and a vote for this very value does
  not beat it.\<close>

definition votes_in_range :: "'f votable \<Rightarrow> bool" where
  "votes_in_range v \<longleftrightarrow> (\<forall>y\<in>ran (ballots v). INT_MIN < y \<and> y < INT_MAX)"

lemma plain_vote: "hash_table v = [] \<Longrightarrow> mapped_vote v i = vote_value (votes v ! i)"
  by (simp add: mapped_vote_def vote_get_mapped_val_def)

lemma election_elected:
  assumes "table_ok v" and "hash_table v = []" and "votes_in_range v" and "election v i None = Some (r, j)"
  shows "r = elected (v_type v) (ballots v)"
proof -
  have rb: "ran (ballots v) = (\<lambda>i. vote_value (votes v ! i)) ` voters v None" by (rule ran_ballots [OF assms(1)])
  have m: "mapped_vote v i = vote_value (votes v ! i)" for i by (rule plain_vote [OF assms(2)])
  have fin: "finite (ran (ballots v))" by (rule finite_ballots [OF assms(1)])
  consider (none) "voters v None = {}" | (some) k where "k \<in> voters v None" by blast
  then show ?thesis
  proof cases
    case none
    then have "vote_min v None = (- EINVAL, - EINVAL)" "vote_max v None = (- EINVAL, - EINVAL)"
      unfolding vote_min_def vote_max_def
      by (simp_all add: min_election.elect_none [OF assms(1)] max_election.elect_none [OF assms(1)])
    then show ?thesis using assms(4) none vote_set_any_voters [OF assms(1), of i None]
      by (auto simp: election_def elected_def rb split: if_splits)
  next
    case (some k)
    then have k: "id (mapped_vote v k) < id INT_MAX" "- mapped_vote v k < - INT_MIN"
      using assms(3) rb by (auto simp: votes_in_range_def m)
    obtain a where "a \<in> voters v None" "vote_min v None = (vote_value (votes v ! a), int a)"
      "\<forall>j\<in>voters v None. vote_value (votes v ! a) \<le> vote_value (votes v ! j)"
      using min_election.elect_some [OF assms(1) some k(1)] unfolding vote_min_def m id_apply by metis
    then have "fst (vote_min v None) = Min (ran (ballots v))"
      using fin rb by (intro Min_eqI [symmetric]) auto
    moreover obtain b where "b \<in> voters v None" "vote_max v None = (vote_value (votes v ! b), int b)"
      "\<forall>j\<in>voters v None. - vote_value (votes v ! b) \<le> - vote_value (votes v ! j)"
      using max_election.elect_some [OF assms(1) some k(2)] unfolding vote_max_def m by metis
    then have "fst (vote_max v None) = Max (ran (ballots v))"
      using fin rb by (intro Max_eqI [symmetric]) auto
    ultimately show ?thesis using assms(4) some vote_set_any_voters [OF assms(1), of i None]
      by (auto simp: election_def elected_def rb split: if_splits)
  qed
qed





section \<open>What a vote does\<close>

definition announced :: "'f votable \<Rightarrow> int \<Rightarrow> bool" where
  "announced v r \<longleftrightarrow> (\<not> voted_on v \<or> r \<noteq> effective_result v) \<and> callback v \<noteq> None \<and>
     \<not> force_active v \<and> override_result v = - EINVAL"

lemma announce_effect:
  obtains rc' where "announce E rc (r, i) step v =
    Inr (rc', v\<lparr>effective_client_id := i, effective_result := r, voted_on := True,
      callback_log := callback_log v @ (if announced v r then [(r, get_client_str v i, step)] else [])\<rparr>)"
    and "\<not> announced v r \<Longrightarrow> rc' = rc"
proof -
  have "v\<lparr>effective_result := effective_result v, callback_log := callback_log v\<rparr> = v" by (cases v) simp
  then show thesis
    by (intro that [of "if announced v r
         then run_callback E (the (callback v)) (v\<lparr>effective_client_id := i, effective_result := r\<rparr>) r (get_client_str v i) step
         else rc"])
      (cases v; auto simp: announce_def announced_def call_callback_def get_client_str_def)+
qed

text \<open>Storing a vote and electing again.\<close>

lemma vote_stored:
  assumes "vote_inv v" and "i < length (clients v)" and "v2 = v\<lparr>votes := (votes v)[i := new]\<rparr>"
  shows "table_ok v2" and "clients v2 = clients v"
    and "ballots v2 = (ballots v)(clients v ! i := if vote_enabled new then Some (vote_value new) else None)"
proof -
  have f: "votes v2 = (votes v)[i := new]" "num_clients v2 = num_clients v" "client_strs v2 = client_strs v"
    by (simp_all add: assms(3))
  have t: "table_ok v" using assms(1) by (simp add: vote_inv_def)
  show c: "clients v2 = clients v" by (simp add: clients_def f)
  show t2: "table_ok v2" using t assms(2) by (simp add: table_ok_def c f)
  show "ballots v2 = (ballots v)(clients v ! i := if vote_enabled new then Some (vote_value new) else None)"
  proof (rule ballots_eqI [OF t2])
    fix j assume j: "j < length (clients v2)"
    have "clients v ! j = clients v ! i \<longleftrightarrow> j = i"
      using t j assms(2) by (simp add: c table_ok_def nth_eq_iff_index_eq)
    then show "((ballots v)(clients v ! i := if vote_enabled new then Some (vote_value new) else None)) (clients v2 ! j) =
        (if vote_enabled (votes v2 ! j) then Some (vote_value (votes v2 ! j)) else None)"
      using t j assms(2) by (auto simp: c f ballots_nth table_ok_def)
  next
    fix d assume "d \<notin> set (clients v2)"
    then show "((ballots v)(clients v ! i := if vote_enabled new then Some (vote_value new) else None)) d = None"
      using assms(2) ballots_unknown [of d v] by (auto simp: c)
  qed
qed

lemma elected_inv:
  assumes "table_ok v" and "v_type v \<in> {VOTE_MIN, VOTE_MAX, VOTE_SET_ANY}"
    and "election v i None = Some (r, j)" and "\<exists>n<length (clients v). i = int n"
    and "w = v\<lparr>effective_client_id := j, effective_result := r, voted_on := True, callback_log := l\<rparr>"
  shows "vote_inv w"
proof -
  have c: "client_strs w = client_strs v" "votes w = votes v" "num_clients w = num_clients v"
    and f: "hash_table w = hash_table v" "v_type w = v_type v" "effective_client_id w = j"
      "effective_result w = r" "voted_on w"
    by (simp_all add: assms(5))
  note t = table_ok_cong [OF c]
  have e: "election w i None = Some (r, j)"
    using election_determined [of w v None i] assms(1,3) c f t by simp
  have "cache_ok w"
  proof (cases "v_type v = VOTE_SET_ANY")
    case True
    then have "r = of_bool (voters w None \<noteq> {})" "j = i"
      using e vote_set_any_voters [of w i None] assms(1) f t by (auto simp: election_def vote_set_any_def)
    then show ?thesis using True assms(4) f t by (auto simp: cache_ok_def)
  next
    case False
    then show ?thesis using e f election_type [of w 0 None i] by (simp add: cache_ok_def)
  qed
  then show ?thesis using assms(1,2) f t by (simp add: vote_inv_def)
qed

text \<open>The fields that no vote touches, and those that a vote without effect leaves alone.\<close>

definition same_setup :: "'f votable \<Rightarrow> 'f votable \<Rightarrow> bool" where
  "same_setup v w \<longleftrightarrow> v_name w = v_name v \<and> override_client w = override_client v \<and> v_type w = v_type v \<and>
     override_result w = override_result v \<and> vote_locked w = vote_locked v \<and> callback w = callback v \<and>
     force_val w = force_val v \<and> force_active w = force_active v \<and> hash_table w = hash_table v \<and>
     check_list w = check_list v"

definition unaffected :: "'f votable \<Rightarrow> 'f votable \<Rightarrow> bool" where
  "unaffected v w \<longleftrightarrow> same_setup v w \<and> ballots w = ballots v \<and> effective_result w = effective_result v \<and>
     effective_client_id w = effective_client_id v \<and> voted_on w = voted_on v \<and> callback_log w = callback_log v"

lemma ballots_cong: "client_strs v = client_strs w \<Longrightarrow> votes v = votes w \<Longrightarrow> ballots v = ballots w"
  by (simp add: ballots_def clients_def fun_eq_iff)

lemma register_client:
  assumes "vote_inv v" and "get_client_id v c = (cid, v1)"
  shows "vote_inv v1" and "unaffected v v1"
    and "cid < 0 \<or> (\<exists>i<length (clients v1). cid = int i \<and> clients v1 ! i = c)"
proof -
  have t: "table_ok v" using assms(1) by (simp add: vote_inv_def)
  from t assms(2) have "vote_inv v1 \<and> unaffected v v1 \<and> (cid < 0 \<or> (\<exists>i<length (clients v1). cid = int i \<and> clients v1 ! i = c))"
  proof (cases rule: get_client_id_cases)
    case (known i)
    then show ?thesis using assms(1) by (auto simp: unaffected_def same_setup_def)
  next
    case (failed a)
    then show ?thesis using assms(1) ballots_cong [of v1 v] by (auto simp: unaffected_def same_setup_def)
  next
    case (new a)
    note r = vote_inv_register [OF assms(1) new(1,2,4)]
    have f: "votes v1 = votes v" by (simp add: new(4))
    have "ballots v1 = ballots v"
    proof (rule ballots_eqI)
      show "table_ok v1" using r(1) by (simp add: vote_inv_def)
      show "ballots v d = None" if "d \<notin> set (clients v1)" for d
        using that ballots_unknown [of d v] by (simp add: r(2))
      show "ballots v (clients v1 ! i) = (if vote_enabled (votes v1 ! i) then Some (vote_value (votes v1 ! i)) else None)"
        if "i < length (clients v1)" for i
        using that t new(1,2) ballots_nth [OF t] ballots_unknown [of c v]
        by (auto simp: r(2) f nth_append less_Suc_eq table_ok_def)
    qed
    moreover have "same_setup v v1" "effective_result v1 = effective_result v"
      "effective_client_id v1 = effective_client_id v" "voted_on v1 = voted_on v" "callback_log v1 = callback_log v"
      by (simp_all add: new(4) same_setup_def)
    ultimately show ?thesis using r(1) new(3) by (auto simp: unaffected_def r(2) nth_append)
  qed
  then show "vote_inv v1" "unaffected v v1" "cid < 0 \<or> (\<exists>i<length (clients v1). cid = int i \<and> clients v1 ! i = c)"
    by simp_all
qed

definition ballot :: "'f votable \<Rightarrow> bool \<Rightarrow> int \<Rightarrow> int option" where
  "ballot v enabled val = (if enabled then Some (cast_value v enabled val) else None)"

lemma vote_counted:
  assumes "vote_inv v" and "i < length (clients v)" and "v2 = v\<lparr>votes := (votes v)[i := new]\<rparr>"
  obtains rc w where "(case election v2 (int i) None of None \<Rightarrow> Inr (- EINVAL, v2) | Some eff \<Rightarrow> announce E rc0 eff step v2) = Inr (rc, w)"
    "vote_inv w" "same_setup v w" "voted_on w"
    "ballots w = (ballots v)(clients v ! i := if vote_enabled new then Some (vote_value new) else None)"
    "callback_log w = callback_log v @
       (if announced v (effective_result w)
        then [(effective_result w, get_client_str w (effective_client_id w), step)] else [])"
proof -
  note s = vote_stored [OF assms]
  have ty: "v_type v2 \<in> {VOTE_MIN, VOTE_MAX, VOTE_SET_ANY}" using assms(1,3) by (simp add: vote_inv_def)
  then obtain a b where e: "election v2 (int i) None = Some (a, b)"
    by (auto simp: election_def vote_set_any_def split: prod.splits) (metis surj_pair)+
  obtain rc w where w: "announce E rc0 (a, b) step v2 = Inr (rc, w)"
    "w = v2\<lparr>effective_client_id := b, effective_result := a, voted_on := True,
       callback_log := callback_log v2 @ (if announced v2 a then [(a, get_client_str v2 b, step)] else [])\<rparr>"
    by (rule announce_effect [of E rc0 a b step v2]) blast
  have "vote_inv w" by (rule elected_inv [OF s(1) ty e _ w(2)]) (use assms(2) s(2) in auto)
  moreover have "ballots w = ballots v2" by (rule ballots_cong) (simp_all add: w(2))
  moreover have "announced v2 a = announced v a" "callback_log v2 = callback_log v" "same_setup v w"
    by (simp_all add: announced_def assms(3) w(2) same_setup_def)
  moreover have "get_client_str w (effective_client_id w) = get_client_str v2 b" "effective_result w = a"
    "voted_on w" "callback_log w = callback_log v2 @ (if announced v2 a then [(a, get_client_str v2 b, step)] else [])"
    by (simp_all add: get_client_str_def w(2))
  ultimately show thesis using e w(1) s(3) by (intro that [of rc w]) simp_all
qed

text \<open>A vote is admitted when the client has a slot or gets one, and no check rejects it.\<close>

definition admits :: "'f vote_env \<Rightarrow> 'f votable \<Rightarrow> string \<Rightarrow> bool \<Rightarrow> int \<Rightarrow> bool \<Rightarrow> bool" where
  "admits E v c enabled val step \<longleftrightarrow>
     (c \<in> set (clients v) \<or> length (clients v) < NUM_MAX_CLIENTS \<and> (alloc_ok v = [] \<or> hd (alloc_ok v))) \<and>
     (\<forall>f\<in>set (check_list v). \<forall>w. 0 \<le> run_check E f w c enabled (cast_value v enabled val) step)"

lemma run_checks_accept:
  "\<forall>f\<in>set fs. 0 \<le> run_check E f v c enabled val step \<Longrightarrow> 0 \<le> rc \<Longrightarrow>
     0 \<le> run_checks E v c enabled val step fs rc"
  by (induction fs arbitrary: rc) (auto simp: Let_def)

lemma get_client_id_fails:
  assumes "table_ok v" and "get_client_id v c = (cid, v1)" and "cid < 0"
  shows "\<not> admits E v c enabled val step"
  using assms(1,2)
proof (cases rule: get_client_id_cases)
  case (failed a)
  show ?thesis using failed(1,4) unfolding admits_def by (metis less_irrefl)
qed (use assms(3) in auto)

text \<open>The three ends of a vote: rejected (no room, no memory, or a check failed), ignored as a
  repetition, or counted.\<close>

lemma vote_body_cases:
  assumes "vote_inv v"
  obtains (rejected) rc w where "vote_locked_body E c enabled val step v = Inr (rc, w)" "rc < 0"
      "vote_inv w" "unaffected v w" "\<not> admits E v c enabled val step"
  | (ignored) w where "vote_locked_body E c enabled val step v = Inr (0, w)" "vote_inv w" "unaffected v w"
      "voted_on v" "ballots v c = ballot v enabled val"
  | (counted) rc w where "vote_locked_body E c enabled val step v = Inr (rc, w)" "vote_inv w" "same_setup v w"
      "voted_on w" "ballots w = (ballots v)(c := ballot v enabled val)"
      "callback_log w = callback_log v @
         (if announced v (effective_result w)
          then [(effective_result w, get_client_str w (effective_client_id w), step)] else [])"
proof -
  obtain cid v1 where g: "get_client_id v c = (cid, v1)" by force
  note r = register_client [OF assms g]
  let ?val = "cast_value v enabled val"
  let ?new = "\<lparr>vote_enabled = enabled, vote_value = ?val\<rparr>"
  let ?rc = "run_checks E v1 c enabled ?val step (check_list v1) 0"
  have s: "same_setup v v1" "ballots v1 = ballots v" "callback_log v1 = callback_log v"
      "effective_result v1 = effective_result v" "voted_on v1 = voted_on v"
    using r(2) by (simp_all add: unaffected_def)
  have cv: "cast_value v1 enabled val = ?val" using s(1) by (simp add: cast_value_def same_setup_def)
  have t: "table_ok v" "table_ok v1" using assms r(1) by (simp_all add: vote_inv_def)
  show thesis
  proof (cases "cid < 0")
    case True
    then show thesis using g r get_client_id_fails [OF t(1) g]
      by (intro rejected [of cid v1]) (simp_all add: vote_locked_body_def)
  next
    case False
    then obtain i where i: "i < length (clients v1)" "cid = int i" "clients v1 ! i = c" using r(3) by blast
    define v2 where "v2 = v1\<lparr>votes := (votes v1)[i := ?new]\<rparr>"
    have body: "vote_locked_body E c enabled val step v =
       (if votes v1 ! i = ?new \<and> voted_on v1 then Inr (0, v1)
        else if ?rc < 0 then Inr (?rc, v1)
        else (case election v2 (int i) None of None \<Rightarrow> Inr (- EINVAL, v2) | Some eff \<Rightarrow> announce E ?rc eff step v2))"
      unfolding vote_locked_body_def Let_def g prod.case cv v2_def using False i(2)
      by (simp only: if_False nat_int)
    consider (similar) "votes v1 ! i = ?new" "voted_on v1" | (check) "\<not> (votes v1 ! i = ?new \<and> voted_on v1)" "?rc < 0"
      | (new) "\<not> (votes v1 ! i = ?new \<and> voted_on v1)" "\<not> ?rc < 0" by blast
    then show thesis
    proof cases
      case similar
      have "ballots v c = ballot v enabled val"
        using ballots_nth [OF t(2) i(1)] similar(1) i(3) s(2) by (simp add: ballot_def)
      then show thesis using similar r body s(5) by (intro ignored [of v1]) simp_all
    next
      case check
      then have "\<not> admits E v c enabled val step"
        using run_checks_accept [of "check_list v1" E v1 c enabled ?val step 0] s(1)
        by (auto simp: admits_def same_setup_def)
      then show thesis using check r body by (intro rejected [of ?rc v1]) simp_all
    next
      case new
      have bal: "(if vote_enabled ?new then Some (vote_value ?new) else None) = ballot v enabled val"
        by (simp add: ballot_def)
      obtain rc w where w: "(case election v2 (int i) None of None \<Rightarrow> Inr (- EINVAL, v2) | Some eff \<Rightarrow> announce E ?rc eff step v2) = Inr (rc, w)"
        "vote_inv w" "same_setup v1 w" "voted_on w" "ballots w = (ballots v1)(c := ballot v enabled val)"
        "callback_log w = callback_log v1 @ (if announced v1 (effective_result w)
          then [(effective_result w, get_client_str w (effective_client_id w), step)] else [])"
        by (rule vote_counted [OF r(1) i(1) v2_def, of E ?rc step, unfolded i(3) bal])
      moreover have "same_setup v w" "announced v1 = announced v"
        using w(3) s by (auto simp: same_setup_def announced_def)
      moreover have "vote_locked_body E c enabled val step v = Inr (rc, w)"
        unfolding body if_not_P [OF new(1)] if_not_P [OF new(2)] by (rule w(1))
      ultimately show thesis using s by (intro counted [of rc w]) simp_all
    qed
  qed
qed

section \<open>Reachable votables\<close>

locale locked_operation =
  fixes body :: "'f votable \<Rightarrow> fault + ('r \<times> 'f votable)"
  assumes keeps: "body v = Inr (r, w) \<Longrightarrow> vote_inv v \<Longrightarrow> vote_inv w"
begin

lemma with_lock_inv:
  "with_lock body v = Inr (r, w) \<Longrightarrow> vote_inv v \<Longrightarrow> vote_inv w \<and> \<not> vote_locked w"
  by (auto simp: with_lock_def lock_votable_def unlock_votable_def split: if_splits sum.splits dest: keeps)

end

lemma call_callback_inv: "call_callback E r c step v = Inr (rc, w) \<Longrightarrow> vote_inv v \<Longrightarrow> vote_inv w"
  by (auto simp: call_callback_def split: option.splits)

interpretation vote_op: locked_operation "vote_locked_body E c enabled val step"
proof unfold_locales
  fix v w r
  assume "vote_locked_body E c enabled val step v = Inr (r, w)" and i: "vote_inv v"
  then show "vote_inv w" by - (rule vote_body_cases [OF i, of E c enabled val step], auto)
qed

interpretation override_op: locked_operation "vote_override_body E c enabled val step"
  by unfold_locales (auto simp: vote_override_body_def split: if_splits sum.splits dest: call_callback_inv)

interpretation rerun_op: locked_operation "rerun_election_unlock E step"
  by unfold_locales (auto simp: rerun_election_unlock_def split: if_splits dest: call_callback_inv)

lemma query_inv:
  assumes "vote_inv v"
  shows "vote_inv (snd (is_client_vote_enabled_locked v c))" "vote_inv (snd (get_client_vote_locked v c))"
  using assms
  by (auto simp: is_client_vote_enabled_locked_def get_client_vote_locked_def case_prod_unfold Let_def
      split: option.splits intro: register_client(1) [OF _ surjective_pairing])

interpretation enabled_op: locked_operation "\<lambda>v. Inr (is_client_vote_enabled_locked v c)"
  by unfold_locales (auto dest: query_inv(1) [of _ c])

interpretation value_op: locked_operation "\<lambda>v. Inr (get_client_vote_locked v c)"
  by unfold_locales (auto dest: query_inv(2) [of _ c])

interpretation force_val_op: locked_operation "\<lambda>v. Inr (len, v\<lparr>force_val := val\<rparr>)"
  by unfold_locales auto

lemma vote_inv_type: "vote_inv v \<Longrightarrow> v_type v \<in> {VOTE_MIN, VOTE_MAX, VOTE_SET_ANY}"
  by (simp add: vote_inv_def)

lemma status_inv:
  "votable_status_read page_ok v = Inr (r, w) \<Longrightarrow> vote_inv v \<Longrightarrow> \<not> vote_locked v \<Longrightarrow> vote_inv w \<and> \<not> vote_locked w"
  by (auto simp: votable_status_read_def lock_votable_def unlock_votable_def Let_def
      split: if_splits sum.splits dest: vote_inv_type)

lemma force_active_inv:
  assumes "votable_force_active_write E len copy_ok parsed v = Inr (r, w)" and "vote_inv v" and "\<not> vote_locked v"
  shows "vote_inv w \<and> \<not> vote_locked w"
  using assms
  by (auto simp: votable_force_active_write_def with_lock_def lock_votable_def unlock_votable_def Let_def
      split: if_splits sum.splits dest!: call_callback_inv)

text \<open>A value map added before the first vote changes no election.\<close>

lemma add_map_inv:
  assumes "votable_add_map original mapped v = (rc, w)" and "vote_inv v" and "\<not> voted_on v"
  shows "vote_inv w"
proof -
  have f: "client_strs w = client_strs v" "votes w = votes v" "num_clients w = num_clients v" "v_type w = v_type v"
    "effective_result w = effective_result v" "effective_client_id w = effective_client_id v" "voted_on w = voted_on v"
    using assms(1) by (auto simp: votable_add_map_def vote_alloc_tl Let_def split: if_splits)
  note t = table_ok_cong [OF f(1-3)]
  have w: "voters w None = {}" "table_ok w" "voters v None = {}" "table_ok v"
    using assms(2,3) t by (auto simp: vote_inv_def)
  then have "elect b s w None = elect b s v None" if "(b, s) = ((\<lambda>val eff_res. eff_res > val), INT_MAX) \<or>
      (b, s) = ((\<lambda>val eff_res. eff_res < val), INT_MIN)" for b s
    using that min_election.elect_none [OF w(2)] min_election.elect_none [OF w(4)]
      max_election.elect_none [OF w(2)] max_election.elect_none [OF w(4)] by auto
  then have "v_type v \<noteq> VOTE_SET_ANY \<Longrightarrow> election w 0 None = election v 0 None"
    by (simp add: election_def vote_min_def vote_max_def f(4))
  then show ?thesis using assms(2,3) w t f by (auto simp: vote_inv_def cache_ok_def)
qed

lemma new_votable_inv: "t \<in> {VOTE_MIN, VOTE_MAX, VOTE_SET_ANY} \<Longrightarrow> vote_inv (new_votable n t cb)"
proof -
  have c: "clients (new_votable n t cb) = []" by (simp add: clients_def new_votable_def)
  then have w: "voters (new_votable n t cb) x = {}" for x by (simp add: voters_def)
  have o: "table_ok (new_votable n t cb)" by (simp add: table_ok_def c) (simp add: new_votable_def)
  assume "t \<in> {VOTE_MIN, VOTE_MAX, VOTE_SET_ANY}"
  then show ?thesis
    using o w min_election.elect_none [OF o, of None] max_election.elect_none [OF o, of None]
    by (auto simp: vote_inv_def cache_ok_def election_def vote_min_def vote_max_def) (auto simp: new_votable_def)
qed

text \<open>The votables of a known type that the operations produce, in any order; value maps are added
  before the first vote.\<close>

inductive vote_reachable :: "'f vote_env \<Rightarrow> 'f votable \<Rightarrow> bool" for E where
  created: "t \<in> {VOTE_MIN, VOTE_MAX, VOTE_SET_ANY} \<Longrightarrow> vote_reachable E ((new_votable n t cb)\<lparr>alloc_ok := a\<rparr>)"
| voted: "vote_reachable E v \<Longrightarrow> vote E v c enabled val step = Inr (rc, w) \<Longrightarrow> vote_reachable E w"
| overridden: "vote_reachable E v \<Longrightarrow> vote_override E v c enabled val step = Inr (rc, w) \<Longrightarrow> vote_reachable E w"
| rerun: "vote_reachable E v \<Longrightarrow> rerun_election E step v = Inr (rc, w) \<Longrightarrow> vote_reachable E w"
| asked_enabled: "vote_reachable E v \<Longrightarrow> is_client_vote_enabled v c = Inr (b, w) \<Longrightarrow> vote_reachable E w"
| asked_vote: "vote_reachable E v \<Longrightarrow> get_client_vote v c = Inr (i, w) \<Longrightarrow> vote_reachable E w"
| status: "vote_reachable E v \<Longrightarrow> votable_status_read page_ok v = Inr (s, w) \<Longrightarrow> vote_reachable E w"
| forced: "vote_reachable E v \<Longrightarrow> votable_force_active_write E len copy_ok parsed v = Inr (i, w) \<Longrightarrow> vote_reachable E w"
| force_value: "vote_reachable E v \<Longrightarrow> votable_force_val_write len copy_ok parsed v = Inr (i, w) \<Longrightarrow> vote_reachable E w"
| map_added: "vote_reachable E v \<Longrightarrow> \<not> voted_on v \<Longrightarrow> votable_add_map original mapped v = (rc, w) \<Longrightarrow> vote_reachable E w"
| check_added: "vote_reachable E v \<Longrightarrow> votable_add_check_func f v = (rc, w) \<Longrightarrow> vote_reachable E w"

lemma vote_reachable_inv: "vote_reachable E v \<Longrightarrow> vote_inv v \<and> \<not> vote_locked v"
proof (induction rule: vote_reachable.induct)
  case (created t n cb a)
  have "\<not> vote_locked (new_votable cb t a)" by (simp add: new_votable_def)
  then show ?case by (simp add: new_votable_inv [OF created])
next
  case (map_added v original mapped rc w)
  then have "vote_locked w = vote_locked v"
    by (auto simp: votable_add_map_def vote_alloc_tl Let_def split: if_splits)
  then show ?case using map_added add_map_inv by blast
next
  case (check_added v f rc w)
  then show ?case by (auto simp: votable_add_check_func_def vote_alloc_tl Let_def split: if_splits option.splits)
qed (auto simp: vote_def vote_override_def rerun_election_def is_client_vote_enabled_def get_client_vote_def
    votable_force_val_write_def split: option.splits if_splits sum.splits
    dest: vote_op.with_lock_inv override_op.with_lock_inv rerun_op.with_lock_inv enabled_op.with_lock_inv
      value_op.with_lock_inv status_inv force_active_inv force_val_op.with_lock_inv)

section \<open>Votes and results\<close>

text \<open>A votable for the current of a charger and what its functions answer, for the examples.\<close>

definition demo_env :: "nat vote_env" where
  "demo_env = \<lparr>run_callback = (\<lambda>_ _ _ _ _. 0), run_check = (\<lambda>_ _ _ _ _ _. 0)\<rparr>"

definition demo_votable :: "nat votable" where
  "demo_votable = (new_votable ''FCC'' VOTE_MIN (Some 0))\<lparr>alloc_ok := []\<rparr>"

lemma demo_reachable: "vote_reachable demo_env demo_votable"
  unfolding demo_votable_def by (rule vote_reachable.created) simp

lemma demo_votable_simps:
  "clients demo_votable = []" "alloc_ok demo_votable = []" "check_list demo_votable = []"
  "v_type demo_votable = VOTE_MIN" "voted_on demo_votable = False" "callback_log demo_votable = []"
  "hash_table demo_votable = []" "force_active demo_votable = False" "override_result demo_votable = - EINVAL"
  "callback demo_votable = Some 0" "effective_result demo_votable = - EINVAL"
  by (simp_all add: demo_votable_def new_votable_def clients_def NUM_MAX_CLIENTS_def)

lemma reachable_unlock: "vote_reachable E v \<Longrightarrow> unlock_votable (v\<lparr>vote_locked := True\<rparr>) = v"
  using vote_reachable_inv [of E v] by (cases v) (simp add: unlock_votable_def)

lemma reachable_with_lock:
  assumes "vote_reachable E v"
  shows "with_lock body v = (case body (v\<lparr>vote_locked := True\<rparr>) of Inl e \<Rightarrow> Inl e | Inr (r, w) \<Rightarrow> Inr (r, unlock_votable w))"
  using vote_reachable_inv [OF assms] by (simp add: with_lock_def lock_votable_def)

text \<open>Taking and releasing the lock changes nothing else.\<close>

lemma lock_fields [simp]:
  "ballots (v\<lparr>vote_locked := b\<rparr>) = ballots v" "clients (v\<lparr>vote_locked := b\<rparr>) = clients v"
  "ballots (unlock_votable v) = ballots v" "clients (unlock_votable v) = clients v"
  "callback_log (unlock_votable v) = callback_log v" "effective_result (unlock_votable v) = effective_result v"
  "voted_on (unlock_votable v) = voted_on v" "effective_client_id (unlock_votable v) = effective_client_id v"
  "get_client_str (unlock_votable v) i = get_client_str v i"
  "ballot (v\<lparr>vote_locked := b\<rparr>) en val = ballot v en val" "announced (v\<lparr>vote_locked := b\<rparr>) r = announced v r"
  "hash_table (unlock_votable v) = hash_table v" "v_type (unlock_votable v) = v_type v"
  "force_active (unlock_votable v) = force_active v" "override_result (unlock_votable v) = override_result v"
  "alloc_ok (unlock_votable v) = alloc_ok v" "check_list (unlock_votable v) = check_list v"
  by (simp_all add: ballots_def clients_def unlock_votable_def get_client_str_def ballot_def cast_value_def
      announced_def fun_eq_iff)

lemma admits_lock [simp]: "admits E (v\<lparr>vote_locked := b\<rparr>) c en val step = admits E v c en val step"
  by (simp add: admits_def cast_value_def)

text \<open>C9: In every votable the operations can produce, the lock is free, the client table is packed and
  has no duplicates, a free slot holds no vote, and the cached result and client are what an
  election over the current votes gives.\<close>

theorem votable_invariant:
  assumes "vote_reachable E v"
  shows "vote_inv v \<and> \<not> vote_locked v"
  by (rule vote_reachable_inv [OF assms])

lemma votable_invariant_witness: "vote_inv demo_votable \<and> \<not> vote_locked demo_votable"
  by (rule votable_invariant [OF demo_reachable])

lemma reachable_result:
  assumes "vote_reachable E v" and "hash_table v = []" and "votes_in_range v"
    and "\<not> force_active v" and "override_result v = - EINVAL"
  shows "get_effective_result v = Inr (elected (v_type v) (ballots v), v)"
proof -
  have i: "vote_inv v" using vote_reachable_inv [OF assms(1)] by simp
  then have t: "table_ok v" by (simp add: vote_inv_def)
  have "effective_result v = elected (v_type v) (ballots v)"
  proof (cases "v_type v = VOTE_SET_ANY")
    case True
    then show ?thesis using i ran_ballots [OF t] by (simp add: vote_inv_def cache_ok_def elected_def)
  next
    case False
    then show ?thesis using i election_elected [OF t assms(2,3), of 0] by (simp add: vote_inv_def cache_ok_def)
  qed
  then show ?thesis
    using assms(4,5) by (simp add: get_effective_result_def reachable_with_lock [OF assms(1)]
        get_effective_result_locked_def reachable_unlock [OF assms(1)])
qed






lemma vote_updates:
  assumes "vote_reachable E v" and "admits E v c enabled val step"
  shows "\<exists>rc w. vote E v (Some c) enabled val step = Inr (rc, w) \<and>
    ballots w = (ballots v)(c := ballot v enabled val)"
proof -
  let ?l = "v\<lparr>vote_locked := True\<rparr>"
  have "vote_inv ?l" using vote_reachable_inv [OF assms(1)] by simp
  then show ?thesis
    by (rule vote_body_cases [of ?l E c enabled val step])
      (use assms(2) in \<open>auto simp: vote_def reachable_with_lock [OF assms(1)] unaffected_def\<close>)
qed

text \<open>A vote that is admitted refines the update of one ballot: afterwards the client stands for its
  value, or for nothing if it withdrew, and all other clients stand where they stood.\<close>

theorem vote_updates_ballot:
  assumes "vote_reachable E v" and "admits E v c enabled val step"
  shows "\<exists>rc w. vote E v (Some c) enabled val step = Inr (rc, w) \<and>
    ballots w = (ballots v)(c := ballot v enabled val)"
  by (rule vote_updates [OF assms])

lemma vote_updates_ballot_witness:
  "\<exists>rc w. vote demo_env demo_votable (Some ''USER'') True 3000 False = Inr (rc, w) \<and> ballots w ''USER'' = Some 3000"
proof -
  have "admits demo_env demo_votable ''USER'' True 3000 False"
    by (simp add: admits_def demo_votable_simps demo_env_def NUM_MAX_CLIENTS_def)
  from vote_updates_ballot [OF demo_reachable this] show ?thesis
    by (auto simp: ballot_def cast_value_def demo_votable_simps)
qed

lemma vote_log:
  assumes "vote_reachable E v" and "vote E v (Some c) enabled val step = Inr (rc, w)"
  shows "callback_log w = callback_log v @
    (if (effective_result w \<noteq> effective_result v \<or> voted_on w \<and> \<not> voted_on v) \<and> callback v \<noteq> None \<and>
        \<not> force_active v \<and> override_result v = - EINVAL
     then [(effective_result w, get_client_str w (effective_client_id w), step)] else [])"
proof -
  let ?l = "v\<lparr>vote_locked := True\<rparr>"
  have "vote_inv ?l" using vote_reachable_inv [OF assms(1)] by simp
  then show ?thesis
    by (rule vote_body_cases [of ?l E c enabled val step])
      (use assms(2) in \<open>auto simp: vote_def reachable_with_lock [OF assms(1)] unaffected_def announced_def\<close>)
qed

text \<open>A vote calls the callback at most once, and exactly when it changes the result or is the first
  one to be counted, and neither a forced value nor an override is in place; the call reports the
  new result and the client behind it.\<close>

theorem vote_calls_back:
  assumes "vote_reachable E v" and "vote E v (Some c) enabled val step = Inr (rc, w)"
  shows "callback_log w = callback_log v @
    (if (effective_result w \<noteq> effective_result v \<or> voted_on w \<and> \<not> voted_on v) \<and> callback v \<noteq> None \<and>
        \<not> force_active v \<and> override_result v = - EINVAL
     then [(effective_result w, get_client_str w (effective_client_id w), step)] else [])"
  by (rule vote_log [OF assms])

lemma vote_calls_back_witness:
  "\<exists>rc w. vote demo_env demo_votable (Some ''USER'') True 3000 False = Inr (rc, w) \<and>
     callback_log w = [(3000, Some ''USER'', False)]"
proof -
  let ?r = "vote demo_env demo_votable (Some ''USER'') True 3000 False"
  have "(case ?r of Inl _ \<Rightarrow> None | Inr (rc, w) \<Rightarrow>
      Some (effective_result w, get_client_str w (effective_client_id w))) = Some (3000, Some ''USER'')"
    by code_simp
  then obtain rc w where r: "?r = Inr (rc, w)"
    and "effective_result w = 3000" "get_client_str w (effective_client_id w) = Some ''USER''"
    by (auto split: sum.splits)
  with vote_calls_back [OF demo_reachable r] show ?thesis by (auto simp: demo_votable_simps)
qed

lemma voted_reachable:
  assumes "vote_reachable E v" and "vote E v (Some c) enabled val step = Inr (rc, w)"
  shows "vote_reachable E w" and "same_setup v w"
proof -
  show "vote_reachable E w" by (rule vote_reachable.voted [OF assms])
  let ?l = "v\<lparr>vote_locked := True\<rparr>"
  have "vote_inv ?l" and "\<not> vote_locked v" using vote_reachable_inv [OF assms(1)] by simp_all
  then show "same_setup v w"
    by - (rule vote_body_cases [of ?l E c enabled val step],
      use assms(2) in \<open>auto simp: vote_def reachable_with_lock [OF assms(1)] unaffected_def same_setup_def unlock_votable_def\<close>)
qed

lemma vote_keeps_voted_on:
  assumes "vote_reachable E v" and "vote E v (Some c) enabled val step = Inr (rc, w)" and "voted_on v"
  shows "voted_on w"
proof -
  let ?l = "v\<lparr>vote_locked := True\<rparr>"
  have "vote_inv ?l" using vote_reachable_inv [OF assms(1)] by simp
  then show ?thesis
    by (rule vote_body_cases [of ?l E c enabled val step])
      (use assms(2,3) in \<open>auto simp: vote_def reachable_with_lock [OF assms(1)] unaffected_def\<close>)
qed

text \<open>A vote registers at most its own client.\<close>

lemma vote_body_table:
  assumes "vote_locked_body E c enabled val step v = Inr (rc, w)" and "get_client_id v c = (cid, v1)"
  shows "client_strs w = client_strs v1 \<and> alloc_ok w = alloc_ok v1"
  using assms
  by (auto simp: vote_locked_body_def announce_def call_callback_def Let_def case_prod_unfold
      split: if_splits option.splits)

lemma vote_registers:
  assumes "vote_reachable E v" and "vote E v (Some c) enabled val step = Inr (rc, w)" and "alloc_ok v = []"
  shows "alloc_ok w = []" and "set (clients w) \<subseteq> insert c (set (clients v))"
proof -
  let ?l = "v\<lparr>vote_locked := True\<rparr>"
  obtain cid v1 where g: "get_client_id ?l c = (cid, v1)" by force
  have t: "table_ok ?l" using vote_reachable_inv [OF assms(1)] vote_inv_other(1) by (auto simp: vote_inv_def)
  have "alloc_ok w = alloc_ok v1" and s: "client_strs w = client_strs v1"
    using assms(2) vote_body_table [OF _ g, of E enabled val step]
    by (auto simp: vote_def reachable_with_lock [OF assms(1)] unlock_votable_def split: sum.splits)
  moreover have "alloc_ok v1 = []"
    using g assms(3) by (auto simp: get_client_id_def vote_alloc_tl split: option.splits)
  ultimately show "alloc_ok w = []" by simp
  have "clients w = clients v1" using s by (simp add: clients_def)
  moreover from t g have "set (clients v1) \<subseteq> insert c (set (clients ?l))"
  proof (cases rule: get_client_id_cases)
    case (new a)
    have "clients v1 = clients ?l @ [c]" by (rule clients_append) (simp add: new(4))
    then show ?thesis by auto
  next
    case (failed a)
    then show ?thesis by (auto simp: clients_def)
  qed auto
  ultimately show "set (clients w) \<subseteq> insert c (set (clients v))" by simp
qed

text \<open>A sequence of votes, and what it does to the ballots.\<close>

fun vote_all :: "'f vote_env \<Rightarrow> 'f votable \<Rightarrow> (string \<times> bool \<times> int \<times> bool) list \<Rightarrow> fault + 'f votable" where
  "vote_all E v [] = Inr v"
| "vote_all E v ((c, enabled, val, step) # xs) =
     (case vote E v (Some c) enabled val step of Inl e \<Rightarrow> Inl e | Inr (rc, w) \<Rightarrow> vote_all E w xs)"

definition set_ballot :: "int \<Rightarrow> string \<times> bool \<times> int \<times> bool \<Rightarrow> (string \<rightharpoonup> int) \<Rightarrow> (string \<rightharpoonup> int)" where
  "set_ballot t x b = (case x of (c, enabled, val, _) \<Rightarrow>
     b(c := if enabled then Some (if t = VOTE_SET_ANY then 1 else val) else None))"

lemma vote_all_ballots:
  assumes "vote_reachable E v" and "check_list v = []" and "alloc_ok v = []"
    and "card (set (clients v) \<union> fst ` set xs) \<le> NUM_MAX_CLIENTS"
  shows "\<exists>w. vote_all E v xs = Inr w \<and> vote_reachable E w \<and> same_setup v w \<and>
    ballots w = fold (set_ballot (v_type v)) xs (ballots v)"
  using assms
proof (induction xs arbitrary: v)
  case Nil
  then show ?case by (simp add: same_setup_def)
next
  case (Cons x xs)
  obtain c en val st where x: "x = (c, en, val, st)" by (cases x)
  have d: "distinct (clients v)" using vote_reachable_inv [OF Cons.prems(1)] by (simp add: vote_inv_def table_ok_def)
  have "c \<in> set (clients v) \<or> length (clients v) < NUM_MAX_CLIENTS"
  proof (rule disjCI)
    assume "\<not> length (clients v) < NUM_MAX_CLIENTS"
    then have "card (set (clients v) \<union> fst ` set (x # xs)) \<le> card (set (clients v))"
      using Cons.prems(4) by (simp add: distinct_card [OF d])
    then have "set (clients v) = set (clients v) \<union> fst ` set (x # xs)" by (intro card_seteq) auto
    then show "c \<in> set (clients v)" by (auto simp: x)
  qed
  then have "admits E v c en val st" using Cons.prems(2,3) by (simp add: admits_def)
  then obtain rc w where w: "vote E v (Some c) en val st = Inr (rc, w)"
    "ballots w = (ballots v)(c := ballot v en val)"
    using vote_updates [OF Cons.prems(1)] by blast
  note s = voted_reachable [OF Cons.prems(1) w(1)] and g = vote_registers [OF Cons.prems(1) w(1) Cons.prems(3)]
  have "card (set (clients w) \<union> fst ` set xs) \<le> card (set (clients v) \<union> fst ` set (x # xs))"
    using g(2) by (intro card_mono) (auto simp: x)
  then obtain u where "vote_all E w xs = Inr u" "vote_reachable E u" "same_setup w u"
    "ballots u = fold (set_ballot (v_type w)) xs (ballots w)"
    using Cons.IH [OF s(1) _ g(1)] Cons.prems(2,4) s(2) by (force simp: same_setup_def)
  moreover have "set_ballot (v_type v) x (ballots v) = (ballots v)(c := ballot v en val)"
    by (simp add: x set_ballot_def ballot_def cast_value_def)
  moreover have "vote_all E v (x # xs) = vote_all E w xs" by (simp add: x w(1))
  ultimately show ?case using w(2) s(2) by (simp add: same_setup_def)
qed

text \<open>C11: From a new votable, any sequence of votes by at most 32 clients ends with the result that the
  last vote of each client determines: the order of the votes of different clients, repeated
  votes and withdrawn votes do not matter.\<close>

theorem result_of_vote_sequence:
  assumes "t \<in> {VOTE_MIN, VOTE_MAX, VOTE_SET_ANY}" and "card (fst ` set xs) \<le> NUM_MAX_CLIENTS"
    and "b = fold (set_ballot t) xs Map.empty" and "\<forall>y\<in>ran b. INT_MIN < y \<and> y < INT_MAX"
  shows "\<exists>w. vote_all E (new_votable n t cb) xs = Inr w \<and> get_effective_result w = Inr (elected t b, w)"
proof -
  let ?v = "new_votable n t cb"
  have e: "?v\<lparr>alloc_ok := []\<rparr> = ?v" by (simp add: new_votable_def)
  have r: "vote_reachable E ?v" using vote_reachable.created [OF assms(1), where n = n and cb = cb and a = "[]"] by (simp add: e)
  have f: "check_list ?v = []" "alloc_ok ?v = []" "v_type ?v = t" "hash_table ?v = []" "\<not> force_active ?v"
    "override_result ?v = - EINVAL" "clients ?v = []"
    by (simp_all add: new_votable_def clients_def NUM_MAX_CLIENTS_def)
  have "ballots ?v = Map.empty" by (simp add: ballots_def f fun_eq_iff)
  then obtain w where w: "vote_all E ?v xs = Inr w" "vote_reachable E w" "same_setup ?v w" "ballots w = b"
    using vote_all_ballots [OF r f(1,2), of xs] assms(2,3) by (auto simp: f)
  then have "get_effective_result w = Inr (elected (v_type w) (ballots w), w)"
    using assms(4) f by (intro reachable_result) (simp_all add: same_setup_def votes_in_range_def)
  then show ?thesis using w f(3) by (simp add: same_setup_def)
qed

lemma result_of_vote_sequence_witness:
  "\<exists>w. vote_all demo_env (new_votable ''FCC'' VOTE_MIN (Some 0))
       [(''USER'', True, 3000, False), (''STEP'', True, 2000, False), (''STEP'', False, 0, False)] = Inr w \<and>
     get_effective_result w = Inr (3000, w)"
proof -
  let ?xs = "[(''USER'', True, 3000, False), (''STEP'', True, 2000, False), (''STEP'', False, 0, False)]"
  have b: "[''USER'' \<mapsto> 3000] = fold (set_ballot VOTE_MIN) ?xs Map.empty"
    by (auto simp: set_ballot_def fun_eq_iff)
  have "VOTE_MIN \<in> {VOTE_MIN, VOTE_MAX, VOTE_SET_ANY}" and "card (fst ` set ?xs) \<le> NUM_MAX_CLIENTS"
    and "\<forall>y\<in>ran [''USER'' \<mapsto> 3000]. INT_MIN < y \<and> y < INT_MAX"
    by (simp_all add: NUM_MAX_CLIENTS_def)
  note result_of_vote_sequence [OF this(1,2) b this(3), of demo_env "''FCC''" "Some 0"]
  then show ?thesis by (simp only: elected_def) simp
qed

text \<open>A votable has room for 32 clients, and a mere question about a client takes a slot too: once the
  table is full, the vote of any other client is rejected with \<^verbatim>\<open>-EINVAL\<close> and has no effect.\<close>

theorem client_table_full:
  assumes "vote_reachable E v" and "c \<notin> set (clients v)" and "alloc_ok v = []"
  shows "length (clients v) \<le> NUM_MAX_CLIENTS \<and>
    (if length (clients v) < NUM_MAX_CLIENTS
     then \<exists>w. is_client_vote_enabled v (Some c) = Inr (False, w) \<and> clients w = clients v @ [c]
     else vote E v (Some c) enabled val step = Inr (- EINVAL, v))"
proof -
  let ?l = "v\<lparr>vote_locked := True\<rparr>"
  have "vote_inv ?l" using vote_reachable_inv [OF assms(1)] by simp
  then have t: "table_ok ?l" by (simp add: vote_inv_def)
  obtain cid v1 where g: "get_client_id ?l c = (cid, v1)" by force
  have le: "length (clients v) \<le> NUM_MAX_CLIENTS" using t by (simp add: table_ok_def)
  from t g show ?thesis
  proof (cases rule: get_client_id_cases)
    case (new a)
    have "clients v1 = clients v @ [c]" by (rule clients_append) (simp add: new(4))
    moreover have "\<not> vote_enabled (votes v1 ! length (clients v))"
      using t new(2,4) by (simp add: table_ok_def)
    ultimately show ?thesis using le new(2,3) g
      by (auto simp: is_client_vote_enabled_def is_client_vote_enabled_locked_def reachable_with_lock [OF assms(1)])
  next
    case (failed a)
    have "cid = - EINVAL \<and> length (clients v) = NUM_MAX_CLIENTS \<and> v1 = ?l"
      using failed(4) assms(3) by simp
    then show ?thesis using g
      by (simp add: vote_def reachable_with_lock [OF assms(1)] vote_locked_body_def reachable_unlock [OF assms(1)])
  qed (use assms(2) nth_mem in auto)
qed

lemma client_table_full_witness:
  "\<exists>w. is_client_vote_enabled demo_votable (Some ''USER'') = Inr (False, w) \<and> clients w = [''USER'']"
  using client_table_full [OF demo_reachable, of "''USER''"] by (simp add: demo_votable_simps NUM_MAX_CLIENTS_def)

section \<open>The list of votables\<close>

definition registry_ok :: "'f voter \<Rightarrow> bool" where
  "registry_ok st \<longleftrightarrow> (\<forall>p\<in>set (v_list st). v_heap st p \<noteq> None \<and> p < v_next st) \<and> distinct (v_list st)"

lemma take_ok_tl: "take_ok st = (v_ok st = [] \<or> hd (v_ok st), st\<lparr>v_ok := tl (v_ok st)\<rparr>)"
  by (cases st) (simp add: take_ok_def split: list.split)

lemma create_entries_effect:
  "create_entries errs p st = (r, st') \<Longrightarrow>
     v_list st' = v_list st \<and> v_next st' = v_next st \<and>
     (r = Inr p \<and> v_heap st' = v_heap st \<or> (\<exists>e. r = Inl e) \<and> v_heap st' = (v_heap st)(p := None))"
  by (induction errs arbitrary: st) (fastforce simp: take_ok_tl Let_def split: if_splits)+

lemma create_votable_cases:
  assumes "create_votable (Some n) t cb st = Inr (r, st')"
  obtains (early) e where "r = Inl e" "v_heap st' = v_heap st" "v_list st' = v_list st" "v_next st' = v_next st"
  | (added) "r = Inr (v_next st)" "find_votable (Some n) st = Inr None"
      "v_heap st' = (v_heap st)(v_next st \<mapsto> new_votable n t cb)"
      "v_list st' = v_next st # v_list st" "v_next st' = Suc (v_next st)"
  | (late) e where "r = Inl e" "v_heap st' = (v_heap st)(v_next st := None)"
      "v_list st' = v_next st # v_list st" "v_next st' = Suc (v_next st)"
proof -
  from assms consider (a) e where "r = Inl e" "v_heap st' = v_heap st" "v_list st' = v_list st" "v_next st' = v_next st"
    | (b) st4 where "find_votable (Some n) st = Inr None" "add_votable n t cb st4 = (r, st')"
        "v_heap st4 = v_heap st" "v_list st4 = v_list st" "v_next st4 = v_next st"
    unfolding create_votable_def take_ok_tl Let_def option.case prod.case
    by (cases "find_votable (Some n) st") (auto split: option.splits if_splits)
  then show thesis
  proof cases
    case a
    then show thesis by (rule early)
  next
    case b
    show thesis
      using create_entries_effect [OF b(2) [unfolded add_votable_def Let_def]] b(1,3-5)
      by (auto intro: added late)
  qed
qed

lemma find_in_list_upd: "p \<notin> set ps \<Longrightarrow> find_in_list (h(p := x)) n ps = find_in_list h n ps"
  by (induction ps) (auto split: option.split)

text \<open>A votable that has been created can be found under its name, all other names are found as
  before, and every entry of the list still points to a votable; a second creation under the
  name is refused.\<close>

theorem created_votable_is_found:
  assumes "registry_ok st" and "create_votable (Some n) t cb st = Inr (Inr p, st')"
  shows "registry_ok st' \<and> v_heap st' p = Some (new_votable n t cb) \<and> find_votable (Some n) st' = Inr (Some p) \<and>
    (\<forall>m. m \<noteq> n \<longrightarrow> find_votable (Some m) st' = find_votable (Some m) st) \<and>
    create_votable (Some n) t' cb' st' = Inr (Inl (- EEXIST), st')"
  using assms(2)
proof (cases rule: create_votable_cases)
  case added
  have fresh: "v_next st \<notin> set (v_list st)" using assms(1) by (auto simp: registry_ok_def)
  have "v_name (new_votable n t cb) = n" by (simp add: new_votable_def)
  then have f: "find_votable (Some m) st' = (if m = n then Inr (Some p) else find_votable (Some m) st)" for m
    using added(1) by (simp add: find_votable_def added(3,4) find_in_list_upd [OF fresh])
  moreover have "registry_ok st'" using assms(1) fresh added(3-5) by (auto simp: registry_ok_def)
  ultimately show ?thesis using added(1,3) by (simp add: create_votable_def)
qed auto

definition demo_voter :: "nat voter" where
  "demo_voter = \<lparr>v_heap = Map.empty, v_list = [], v_next = 0, debug_root = True, v_ok = []\<rparr>"

lemma created_votable_is_found_witness:
  "\<exists>st'. create_votable (Some ''FCC'') VOTE_MIN None demo_voter = Inr (Inr 0, st') \<and>
     find_votable (Some ''FCC'') st' = Inr (Some 0)"
proof -
  have "registry_ok demo_voter" by (simp add: registry_ok_def demo_voter_def)
  moreover obtain st' where r: "create_votable (Some ''FCC'') VOTE_MIN None demo_voter = Inr (Inr 0, st')"
    by (simp add: create_votable_def demo_voter_def find_votable_def take_ok_def add_votable_def)
  ultimately show ?thesis using created_votable_is_found [OF _ r] by blast
qed

text \<open>A creation that fails at one of the proc entries frees the votable but leaves it at the head of
  the list: every later lookup, and with it every later creation, reads freed memory.\<close>

theorem failed_creation_dangles:
  assumes "create_votable (Some n) t cb st = Inr (Inl e, st')" and "v_list st' \<noteq> v_list st"
  shows "find_votable (Some m) st' = Inl Use_after_free \<and> create_votable (Some m) t' cb' st' = Inl Use_after_free"
  using assms(1)
proof (cases rule: create_votable_cases)
  case (late e)
  then have "find_votable (Some m) st' = Inl Use_after_free" by (simp add: find_votable_def)
  then show ?thesis by (simp add: create_votable_def)
qed (use assms(2) in auto)

lemma failed_creation_dangles_witness:
  "\<exists>st'. create_votable (Some ''FCC'') VOTE_MIN None (demo_voter\<lparr>v_ok := [True, True, False]\<rparr>) = Inr (Inl (- ENOMEM), st') \<and>
     find_votable (Some ''ICL'') st' = Inl Use_after_free"
proof -
  obtain st' where r: "create_votable (Some ''FCC'') VOTE_MIN None (demo_voter\<lparr>v_ok := [True, True, False]\<rparr>) =
      Inr (Inl (- ENOMEM), st')" and "v_list st' \<noteq> v_list (demo_voter\<lparr>v_ok := [True, True, False]\<rparr>)"
    by (simp add: create_votable_def demo_voter_def find_votable_def take_ok_def add_votable_def)
  then show ?thesis using failed_creation_dangles [OF r] by blast
qed

section \<open>Small divergences\<close>

text \<open>A negative type passes the check of \<^verbatim>\<open>create_votable\<close>; reading the status of such a votable keeps
  the lock, and the next vote waits forever.\<close>

lemma status_of_unknown_type_keeps_lock:
  assumes "t < 0"
  shows "\<exists>w. votable_status_read True (new_votable n t cb) = Inr (Inl (- EINVAL), w) \<and>
    vote E w (Some c) enabled val step = Inl Deadlock"
  using assms
  by (simp add: votable_status_read_def lock_votable_def new_votable_def vote_def with_lock_def Let_def)

text \<open>An override while a value is forced stores the value but not the client.\<close>

lemma override_under_force_keeps_old_client:
  assumes "force_active v" and "\<not> vote_locked v" and "vote_override E v (Some c) True val step = Inr (rc, w)"
  shows "rc = 0 \<and> override_result w = val \<and> override_client w = override_client v"
  using assms
  by (auto simp: vote_override_def with_lock_def lock_votable_def unlock_votable_def vote_override_body_def)

text \<open>An enabled vote for the largest \<^verbatim>\<open>int\<close> counts as no vote at all.\<close>

lemma vote_for_INT_MAX_is_ignored:
  assumes "table_ok v" and "hash_table v = []" and "\<forall>i\<in>voters v None. vote_value (votes v ! i) = INT_MAX"
  shows "vote_min v None = (- EINVAL, - EINVAL)"
  unfolding vote_min_def
  by (rule min_election.elect_none [OF assms(1)]) (simp add: assms(3) plain_vote [OF assms(2)])

end
