(* ===== verification/Chg_Cpa.thy ===== *)
theory Chg_Cpa
  imports Chg_Elections
begin

unbundle bit_operations_syntax

text \<open>
  Charge protocol arbitration (\<^verbatim>\<open>oplus_chg_cpa.c\<close>): which of the charging protocols of the connected
  adapter (UFCS, PPS, VOOC, QC, PD, BC1.2) may run. Protocol drivers request an identification, the
  arbiter collects the requests in a bit mask and its work starts the one with the highest priority
  when no other protocol is running; requests can be locked through a votable. The model has the
  state of the arbiter with its pending works, every work function, the callbacks of the topics it
  subscribes to, the exported functions and the parsing of the device tree.

  A work function or an exported function runs as one step; the order of the steps is free. What
  the arbiter reads from its surroundings (the items of other topics, the presence of the cable,
  clock, memory for messages) is part of the state, in fields named \<open>env_...\<close>.
\<close>

section \<open>Data\<close>

datatype oplus_chg_usb_type =
    OPLUS_CHG_USB_TYPE_UNKNOWN | OPLUS_CHG_USB_TYPE_SDP | OPLUS_CHG_USB_TYPE_DCP | OPLUS_CHG_USB_TYPE_CDP
  | OPLUS_CHG_USB_TYPE_ACA | OPLUS_CHG_USB_TYPE_C | OPLUS_CHG_USB_TYPE_PD | OPLUS_CHG_USB_TYPE_PD_DRP
  | OPLUS_CHG_USB_TYPE_PD_PPS | OPLUS_CHG_USB_TYPE_PD_SDP | OPLUS_CHG_USB_TYPE_APPLE_BRICK_ID
  | OPLUS_CHG_USB_TYPE_QC2 | OPLUS_CHG_USB_TYPE_QC3 | OPLUS_CHG_USB_TYPE_VOOC | OPLUS_CHG_USB_TYPE_SVOOC
  | OPLUS_CHG_USB_TYPE_UFCS | OPLUS_CHG_USB_TYPE_MAX

text \<open>\<^verbatim>\<open>enum oplus_chg_protocol_type\<close> is compared with its bounds and used as an index and a bit
  number, so it stays a number.\<close>

abbreviation (input) CHG_PROTOCOL_INVALID :: int where "CHG_PROTOCOL_INVALID \<equiv> - 1"
abbreviation (input) CHG_PROTOCOL_BC12 :: int where "CHG_PROTOCOL_BC12 \<equiv> 0"
abbreviation (input) CHG_PROTOCOL_PD :: int where "CHG_PROTOCOL_PD \<equiv> 1"
abbreviation (input) CHG_PROTOCOL_PPS :: int where "CHG_PROTOCOL_PPS \<equiv> 2"
abbreviation (input) CHG_PROTOCOL_VOOC :: int where "CHG_PROTOCOL_VOOC \<equiv> 3"
abbreviation (input) CHG_PROTOCOL_UFCS :: int where "CHG_PROTOCOL_UFCS \<equiv> 4"
abbreviation (input) CHG_PROTOCOL_QC :: int where "CHG_PROTOCOL_QC \<equiv> 5"
abbreviation (input) CHG_PROTOCOL_MAX :: nat where "CHG_PROTOCOL_MAX \<equiv> 6"

datatype cpa_topic_item = CPA_ITEM_CHG_TYPE | CPA_ITEM_ALLOW | CPA_ITEM_TIMEOUT | CPA_ITEM_POWER

record oplus_cpa_protocol_info =
  pi_type :: int
  power_mw :: int
  max_power_mw :: int

datatype cpa_work = Protocol_switch | Chg_type_change | Fast_chg_type_change | Wired_offline
  | Wired_online | Switch_end | Switch_timeout | Ready_timeout

text \<open>\<open>cpa_works\<close> are the works that are scheduled, the two delayed ones included. The \<open>item_\<close> fields are the
  data of the four items of the topic of the arbiter, \<open>published\<close> logs the items published on it. \<open>env_msg\<close> says which messages can be allocated, and
  \<open>env_sync\<close> whether the driver of the new protocol confirms the start while the message that allows
  it is being delivered. An item of another topic that cannot be read is \<open>None\<close>.\<close>

record oplus_cpa =
  req_lock_votable :: "unit votable"
  cpa_works :: "cpa_work list"
  current_protocol_type :: int
  protocol_to_be_switched :: u32
  protocol_disable_mask :: u64
  default_protocol_type :: u32
  ready_protocol_type :: u64
  protocol_supported_type :: u32
  protocol_prio_table :: "oplus_cpa_protocol_info list"
  def_req :: bool
  request_pending :: bool
  started :: bool
  request_locked :: bool
  status_reset :: bool
  wired_online :: bool
  cc_detect :: int
  wired_type :: oplus_chg_usb_type
  wired_real_chg_type :: oplus_chg_usb_type
  vooc_started :: bool
  vooc_online :: bool
  vooc_charging :: bool
  vooc_online_keep :: bool
  vooc_sid :: u32
  ufcs_online :: bool
  ufcs_charging :: bool
  ufcs_oplus_adapter :: bool
  ufcs_adapter_id :: u32
  pps_online :: bool
  pps_online_keep :: bool
  pps_charging :: bool
  pps_oplus_adapter :: bool
  retention_topic :: bool
  retention_state :: bool
  pre_retention_state :: bool
  retention_state_ready :: bool
  wired_present :: bool
  wired_plugout_time :: u64
  pd_comleted :: bool
  protocol_wait_support :: bool
  pd_completed_ack :: completion
  protocol_wait_table :: "(int \<times> int) list"
  item_chg_type :: oplus_chg_usb_type
  item_allow :: int
  item_timeout :: int
  item_power :: int
  published :: "cpa_topic_item list"
  env_real_chg_type :: "oplus_chg_usb_type option"
  env_online :: "bool option"
  env_present :: bool
  env_jiffies :: u64
  env_msg :: "bool list"
  env_sync :: "bool list"
  env_ufcs_power :: int
  env_pps_adapter_power_mw :: int
  env_pps_power_watt :: int

definition BIT :: "int \<Rightarrow> u32" where
  "BIT t = push_bit (nat t) 1"

section \<open>Priorities\<close>

fun oplus_cpa_chg_type_to_protocol_type :: "oplus_chg_usb_type \<Rightarrow> int" where
  "oplus_cpa_chg_type_to_protocol_type chg_type =
     (if chg_type \<in> {OPLUS_CHG_USB_TYPE_QC2, OPLUS_CHG_USB_TYPE_QC3} then CHG_PROTOCOL_QC
      else if chg_type \<in> {OPLUS_CHG_USB_TYPE_PD, OPLUS_CHG_USB_TYPE_PD_DRP} then CHG_PROTOCOL_PD
      else if chg_type = OPLUS_CHG_USB_TYPE_PD_PPS then CHG_PROTOCOL_PPS
      else if chg_type \<in> {OPLUS_CHG_USB_TYPE_VOOC, OPLUS_CHG_USB_TYPE_SVOOC} then CHG_PROTOCOL_VOOC
      else if chg_type = OPLUS_CHG_USB_TYPE_UFCS then CHG_PROTOCOL_UFCS
      else if chg_type \<in> {OPLUS_CHG_USB_TYPE_SDP, OPLUS_CHG_USB_TYPE_DCP, OPLUS_CHG_USB_TYPE_CDP,
          OPLUS_CHG_USB_TYPE_ACA, OPLUS_CHG_USB_TYPE_C, OPLUS_CHG_USB_TYPE_APPLE_BRICK_ID,
          OPLUS_CHG_USB_TYPE_PD_SDP} then CHG_PROTOCOL_BC12
      else CHG_PROTOCOL_INVALID)"

text \<open>The two arrays \<^verbatim>\<open>backup_type\<close> and \<^verbatim>\<open>backup_power\<close> are filled in one pass over the priority table:
  an entry without power goes to its own position, an entry with power before the first entry that
  has some and less power, and the entries from there on move up by one.\<close>

definition backup_slot :: "int list \<Rightarrow> nat \<Rightarrow> int \<Rightarrow> nat" where
  "backup_slot backup_power i pw =
     (case find (\<lambda>m. backup_power ! m > 0 \<and> pw > backup_power ! m) [0..<i] of
        Some m \<Rightarrow> m
      | None \<Rightarrow> i)"

definition shift_up :: "nat \<Rightarrow> nat \<Rightarrow> 'a list \<Rightarrow> 'a list" where
  "shift_up m i xs = foldl (\<lambda>xs n. xs[n := xs ! (n - 1)]) xs (rev [Suc m..<Suc i])"

definition backup_step :: "oplus_cpa \<Rightarrow> int list \<times> int list \<Rightarrow> nat \<Rightarrow> int list \<times> int list" where
  "backup_step cpa b i =
     (let (backup_type, backup_power) = b;
          type = pi_type (protocol_prio_table cpa ! i);
          pw = power_mw (protocol_prio_table cpa ! i) in
      if pw \<le> 0 then (backup_type[i := type], backup_power[i := pw])
      else
        let m = backup_slot backup_power i pw in
        ((shift_up m i backup_type)[m := type], (shift_up m i backup_power)[m := pw]))"

definition backup_arrays :: "oplus_cpa \<Rightarrow> int list \<times> int list" where
  "backup_arrays cpa =
     foldl (backup_step cpa)
       (CHG_PROTOCOL_INVALID # replicate (CHG_PROTOCOL_MAX - 1) 0, replicate CHG_PROTOCOL_MAX 0)
       [0..<CHG_PROTOCOL_MAX]"

definition get_highest_priority_protocol_type :: "oplus_cpa \<Rightarrow> u32 \<Rightarrow> int" where
  "get_highest_priority_protocol_type cpa protocol =
     (case find (\<lambda>type. type \<noteq> CHG_PROTOCOL_INVALID \<and> bit protocol (nat type)) (fst (backup_arrays cpa)) of
        Some type \<Rightarrow> type
      | None \<Rightarrow> CHG_PROTOCOL_INVALID)"

definition valid_type :: "int \<Rightarrow> bool" where
  "valid_type type \<longleftrightarrow> \<not> (type \<ge> int CHG_PROTOCOL_MAX \<or> type \<le> CHG_PROTOCOL_INVALID)"

section \<open>The displayed charger type\<close>

text \<open>\<^verbatim>\<open>struct protocol_map\<close>: which protocols the adapter has, and the charger type of each.\<close>

record protocol_map =
  map_protocol :: u32
  map_type :: "oplus_chg_usb_type list"

definition empty_map :: protocol_map where
  "empty_map = \<lparr>map_protocol = 0, map_type = replicate CHG_PROTOCOL_MAX OPLUS_CHG_USB_TYPE_UNKNOWN\<rparr>"

definition map_set :: "int \<Rightarrow> oplus_chg_usb_type \<Rightarrow> protocol_map \<Rightarrow> protocol_map" where
  "map_set protocol type m =
     m\<lparr>map_protocol := map_protocol m OR BIT protocol, map_type := (map_type m)[nat protocol := type]\<rparr>"

definition oplus_cpa_protocol_add_type :: "oplus_chg_usb_type \<Rightarrow> protocol_map \<Rightarrow> protocol_map" where
  "oplus_cpa_protocol_add_type type m =
     (if type \<in> {OPLUS_CHG_USB_TYPE_QC2, OPLUS_CHG_USB_TYPE_QC3} then map_set CHG_PROTOCOL_QC type m
      else if type \<in> {OPLUS_CHG_USB_TYPE_PD, OPLUS_CHG_USB_TYPE_PD_DRP} then map_set CHG_PROTOCOL_PD type m
      else if type = OPLUS_CHG_USB_TYPE_PD_PPS then map_set CHG_PROTOCOL_PPS type m
      else if type \<in> {OPLUS_CHG_USB_TYPE_VOOC, OPLUS_CHG_USB_TYPE_SVOOC} then map_set CHG_PROTOCOL_VOOC type m
      else if type = OPLUS_CHG_USB_TYPE_UFCS then map_set CHG_PROTOCOL_UFCS type m
      else if type \<in> {OPLUS_CHG_USB_TYPE_SDP, OPLUS_CHG_USB_TYPE_DCP, OPLUS_CHG_USB_TYPE_CDP,
          OPLUS_CHG_USB_TYPE_ACA, OPLUS_CHG_USB_TYPE_C, OPLUS_CHG_USB_TYPE_APPLE_BRICK_ID,
          OPLUS_CHG_USB_TYPE_PD_SDP} then map_set CHG_PROTOCOL_BC12 type m
      else m)"

definition oplus_cpa_is_supported_protocol :: "oplus_cpa \<Rightarrow> int \<Rightarrow> bool" where
  "oplus_cpa_is_supported_protocol cpa protocol_type \<longleftrightarrow>
     valid_type protocol_type \<and> bit (protocol_supported_type cpa) (nat protocol_type)"

definition fall_back_bc12 :: "oplus_cpa \<Rightarrow> protocol_map \<Rightarrow> protocol_map" where
  "fall_back_bc12 cpa m =
     (if oplus_cpa_is_supported_protocol cpa CHG_PROTOCOL_BC12
      then map_set CHG_PROTOCOL_BC12 OPLUS_CHG_USB_TYPE_DCP m else m)"

definition remove_unsupported_step :: "oplus_cpa \<Rightarrow> protocol_map \<Rightarrow> int \<Rightarrow> protocol_map" where
  "remove_unsupported_step cpa m i =
     (if \<not> bit (map_protocol m) (nat i) then m
      else if oplus_cpa_is_supported_protocol cpa i then m
      else
        let m1 = m\<lparr>map_protocol := map_protocol m AND NOT (BIT i)\<rparr> in
        if i = CHG_PROTOCOL_PD \<or> i = CHG_PROTOCOL_PPS then
          if oplus_cpa_is_supported_protocol cpa CHG_PROTOCOL_PD
          then map_set CHG_PROTOCOL_PD OPLUS_CHG_USB_TYPE_PD m1 else fall_back_bc12 cpa m1
        else if i \<in> {CHG_PROTOCOL_VOOC, CHG_PROTOCOL_UFCS, CHG_PROTOCOL_QC} then fall_back_bc12 cpa m1
        else m1)"

definition oplus_cpa_remove_unsupported_protocol :: "oplus_cpa \<Rightarrow> protocol_map \<Rightarrow> protocol_map" where
  "oplus_cpa_remove_unsupported_protocol cpa m =
     foldl (remove_unsupported_step cpa) m (map int [0..<CHG_PROTOCOL_MAX])"

definition oplus_cpa_get_high_prio_wired_type :: "oplus_cpa \<Rightarrow> protocol_map \<Rightarrow> oplus_chg_usb_type" where
  "oplus_cpa_get_high_prio_wired_type cpa m =
     (let type = get_highest_priority_protocol_type cpa (map_protocol m) in
      if type = CHG_PROTOCOL_INVALID \<or> type \<ge> int CHG_PROTOCOL_MAX then OPLUS_CHG_USB_TYPE_UNKNOWN
      else map_type m ! nat type)"

text \<open>The fields of the VOOC adapter word.\<close>

definition sid_to_adapter_chg_type :: "u32 \<Rightarrow> u32" where "sid_to_adapter_chg_type sid = sid AND 0xf"
definition sid_to_adapter_power :: "u32 \<Rightarrow> u32" where "sid_to_adapter_power sid = drop_bit 8 sid AND 0xffff"
definition sid_to_adapter_id :: "u32 \<Rightarrow> u32" where "sid_to_adapter_id sid = drop_bit 24 sid AND 0xff"

abbreviation (input) CHARGER_TYPE_VOOC :: u32 where "CHARGER_TYPE_VOOC \<equiv> 2"
abbreviation (input) CHARGER_TYPE_SVOOC :: u32 where "CHARGER_TYPE_SVOOC \<equiv> 3"

definition item_type :: "oplus_chg_usb_type option \<Rightarrow> oplus_chg_usb_type" where
  "item_type d = (case d of Some t \<Rightarrow> t | None \<Rightarrow> OPLUS_CHG_USB_TYPE_UNKNOWN)"

definition adapter_map :: "oplus_cpa \<Rightarrow> protocol_map" where
  "adapter_map cpa =
     (let real = item_type (env_real_chg_type cpa);
          m1 = oplus_cpa_protocol_add_type real empty_map;
          vooc = (if sid_to_adapter_chg_type (vooc_sid cpa) = CHARGER_TYPE_VOOC then OPLUS_CHG_USB_TYPE_VOOC
                  else if sid_to_adapter_chg_type (vooc_sid cpa) = CHARGER_TYPE_SVOOC then OPLUS_CHG_USB_TYPE_SVOOC
                  else real);
          m2 = oplus_cpa_protocol_add_type vooc m1;
          m3 = (if ufcs_online cpa then oplus_cpa_protocol_add_type OPLUS_CHG_USB_TYPE_UFCS m2 else m2) in
      oplus_cpa_remove_unsupported_protocol cpa m3)"

definition oplus_cpa_get_final_chg_type :: "oplus_cpa \<Rightarrow> oplus_chg_usb_type" where
  "oplus_cpa_get_final_chg_type cpa =
     (let wired_type = oplus_cpa_get_high_prio_wired_type cpa (adapter_map cpa);
          protocol_type = oplus_cpa_chg_type_to_protocol_type wired_type in
      if protocol_type = CHG_PROTOCOL_INVALID then OPLUS_CHG_USB_TYPE_UNKNOWN
      else if current_protocol_type cpa = CHG_PROTOCOL_PD \<and> protocol_type = CHG_PROTOCOL_PPS
      then OPLUS_CHG_USB_TYPE_PD
      else if protocol_type \<noteq> CHG_PROTOCOL_BC12 \<and> current_protocol_type cpa \<noteq> protocol_type
      then OPLUS_CHG_USB_TYPE_DCP
      else wired_type)"

section \<open>The items of the topic\<close>

definition oplus_cpa_protocol_get_max_power :: "oplus_cpa \<Rightarrow> int" where
  "oplus_cpa_protocol_get_max_power cpa =
     foldl (\<lambda>p i. if max_power_mw (protocol_prio_table cpa ! i) > p then max_power_mw (protocol_prio_table cpa ! i) else p)
       0 [0..<CHG_PROTOCOL_MAX]"

definition oplus_cpa_get_project_watt :: "oplus_cpa \<Rightarrow> int" where
  "oplus_cpa_get_project_watt cpa =
     (let p = oplus_cpa_protocol_get_max_power cpa in if p < 0 then 0 else p)"

definition wired_power :: "oplus_cpa \<Rightarrow> int" where
  "wired_power cpa =
     (if wired_type cpa = OPLUS_CHG_USB_TYPE_PD_PPS \<and> item_allow cpa = CHG_PROTOCOL_PPS then 10000
      else if wired_type cpa \<in> {OPLUS_CHG_USB_TYPE_PD_PPS, OPLUS_CHG_USB_TYPE_QC2, OPLUS_CHG_USB_TYPE_QC3,
        OPLUS_CHG_USB_TYPE_PD, OPLUS_CHG_USB_TYPE_PD_DRP} then 18000
      else if wired_type cpa = OPLUS_CHG_USB_TYPE_SDP then 2500
      else if wired_type cpa \<in> {OPLUS_CHG_USB_TYPE_DCP, OPLUS_CHG_USB_TYPE_ACA, OPLUS_CHG_USB_TYPE_C,
        OPLUS_CHG_USB_TYPE_PD_SDP, OPLUS_CHG_USB_TYPE_APPLE_BRICK_ID} then 10000
      else if wired_type cpa = OPLUS_CHG_USB_TYPE_CDP then 7500
      else 0)"

definition oplus_cpa_get_adapter_power :: "oplus_cpa \<Rightarrow> int" where
  "oplus_cpa_get_adapter_power cpa =
     (if ufcs_online cpa then env_ufcs_power cpa * 1000
      else if pps_online cpa \<or> pps_online_keep cpa then env_pps_adapter_power_mw cpa
      else if vooc_online cpa then
        let sid = vooc_sid cpa in
        if sid_to_adapter_id sid = 0 then
          if sid_to_adapter_chg_type sid = CHARGER_TYPE_VOOC then 20000
          else if sid_to_adapter_chg_type sid = CHARGER_TYPE_SVOOC then 50000
          else 0
        else uint (sid_to_adapter_power sid) * 1000
      else wired_power cpa)"

text \<open>A UFCS or PPS connection has one of the positive protocol numbers, whatever the adapter.\<close>

definition oplus_cpa_get_actual_used_power :: "oplus_cpa \<Rightarrow> int" where
  "oplus_cpa_get_actual_used_power cpa =
     (let p = (if ufcs_online cpa then env_ufcs_power cpa * 1000
               else if pps_online cpa \<or> pps_online_keep cpa then env_pps_power_watt cpa * 1000
               else min (oplus_cpa_get_adapter_power cpa) (oplus_cpa_get_project_watt cpa)) in
      if p < 0 then 0 else p)"

definition oplus_cpa_update_chg_type :: "oplus_cpa \<Rightarrow> oplus_cpa" where
  "oplus_cpa_update_chg_type cpa = cpa\<lparr>item_chg_type := oplus_cpa_get_final_chg_type cpa\<rparr>"

definition oplus_cpa_update_allow :: "oplus_cpa \<Rightarrow> oplus_cpa" where
  "oplus_cpa_update_allow cpa = cpa\<lparr>item_allow := current_protocol_type cpa\<rparr>"

definition oplus_cpa_update_timeout :: "oplus_cpa \<Rightarrow> oplus_cpa" where
  "oplus_cpa_update_timeout cpa = cpa\<lparr>item_timeout := current_protocol_type cpa\<rparr>"

definition oplus_cpa_update_power :: "oplus_cpa \<Rightarrow> oplus_cpa" where
  "oplus_cpa_update_power cpa = cpa\<lparr>item_power := oplus_cpa_get_actual_used_power cpa\<rparr>"

fun oplus_cpa_item :: "cpa_topic_item \<Rightarrow> oplus_cpa \<Rightarrow> oplus_cpa" where
  "oplus_cpa_item CPA_ITEM_CHG_TYPE = oplus_cpa_update_chg_type"
| "oplus_cpa_item CPA_ITEM_ALLOW = oplus_cpa_update_allow"
| "oplus_cpa_item CPA_ITEM_TIMEOUT = oplus_cpa_update_timeout"
| "oplus_cpa_item CPA_ITEM_POWER = oplus_cpa_update_power"

section \<open>Works and messages\<close>

definition schedule_work :: "cpa_work \<Rightarrow> oplus_cpa \<Rightarrow> oplus_cpa" where
  "schedule_work w cpa = (if w \<in> set (cpa_works cpa) then cpa else cpa\<lparr>cpa_works := cpa_works cpa @ [w]\<rparr>)"

definition cancel_work :: "cpa_work \<Rightarrow> oplus_cpa \<Rightarrow> oplus_cpa" where
  "cancel_work w cpa = cpa\<lparr>cpa_works := filter (\<lambda>x. x \<noteq> w) (cpa_works cpa)\<rparr>"

text \<open>Allocating a message and publishing it; the result says whether there was memory. Publishing
  brings the item up to date first; the items of this topic have no thresholds, so the message is
  always sent.\<close>

definition send_item :: "cpa_topic_item \<Rightarrow> oplus_cpa \<Rightarrow> oplus_cpa" where
  "send_item item cpa = (let cpa1 = oplus_cpa_item item cpa in cpa1\<lparr>published := published cpa1 @ [item]\<rparr>)"

definition publish :: "cpa_topic_item \<Rightarrow> oplus_cpa \<Rightarrow> bool \<times> oplus_cpa" where
  "publish item cpa =
     (case env_msg cpa of
        [] \<Rightarrow> (True, send_item item cpa)
      | ok # oks \<Rightarrow>
          (ok, if ok then send_item item (cpa\<lparr>env_msg := oks\<rparr>) else cpa\<lparr>env_msg := oks\<rparr>))"

definition oplus_cpa_pd_completed_set :: "bool \<Rightarrow> oplus_cpa \<Rightarrow> oplus_cpa" where
  "oplus_cpa_pd_completed_set done cpa =
     (if done then cpa\<lparr>pd_completed_ack := complete_all (pd_completed_ack cpa)\<rparr>
      else cpa\<lparr>pd_completed_ack := 0\<rparr>)"

text \<open>The wait only delays its caller, which ignores the result; a completion that arrives while
  waiting counts as one that arrived before.\<close>

definition oplus_cpa_protocol_wait :: "oplus_cpa \<Rightarrow> int \<Rightarrow> rc" where
  "oplus_cpa_protocol_wait cpa type =
     (if \<not> protocol_wait_support cpa then - ENOTSUPP
      else if (\<exists>w\<in>set (protocol_wait_table cpa). fst w = type) \<and> \<not> completed (pd_completed_ack cpa)
      then - ETIMEDOUT else 0)"

definition oplus_cpa_switch_start :: "int \<Rightarrow> oplus_cpa \<Rightarrow> rc \<times> oplus_cpa" where
  "oplus_cpa_switch_start type cpa =
     (if type \<noteq> current_protocol_type cpa then (- EINVAL, cpa)
      else (0, (cancel_work Switch_timeout cpa)\<lparr>started := True\<rparr>))"

text \<open>\<^verbatim>\<open>oplus_mms_publish_msg_sync\<close> runs the subscribers before it returns: the driver of the protocol
  may confirm the start at once.\<close>

definition publish_allow :: "oplus_cpa \<Rightarrow> bool \<times> oplus_cpa" where
  "publish_allow cpa =
     (let (ok, cpa1) = publish CPA_ITEM_ALLOW cpa in
      if \<not> ok then (False, cpa1)
      else (case env_sync cpa1 of
              [] \<Rightarrow> (True, cpa1)
            | reply # replies \<Rightarrow>
                let cpa2 = cpa1\<lparr>env_sync := replies\<rparr> in
                (True, if reply then snd (oplus_cpa_switch_start (current_protocol_type cpa2) cpa2) else cpa2)))"

definition oplus_cpa_set_current_protocol_type :: "int \<Rightarrow> oplus_cpa \<Rightarrow> rc \<times> oplus_cpa" where
  "oplus_cpa_set_current_protocol_type type cpa =
     (if current_protocol_type cpa = type then (0, cpa)
      else
        let cpa1 = cpa\<lparr>current_protocol_type := type\<rparr>;
            cpa2 = (if type \<noteq> CHG_PROTOCOL_INVALID then snd (publish CPA_ITEM_CHG_TYPE cpa1) else cpa1);
            (ok, cpa3) = publish_allow cpa2 in
        (if ok then 0 else - ENOMEM, cpa3))"

definition oplus_cpa_is_allow_switch :: "int \<Rightarrow> u32 \<Rightarrow> bool" where
  "oplus_cpa_is_allow_switch current_type bit_target_type \<longleftrightarrow>
     current_type = CHG_PROTOCOL_PD \<and> bit_target_type = BIT CHG_PROTOCOL_PPS"

section \<open>Requests\<close>

text \<open>A running protocol that is not BC1.2 keeps others out, except that PD may give way to PPS.\<close>

definition busy_for :: "u32 \<Rightarrow> oplus_cpa \<Rightarrow> bool" where
  "busy_for target cpa \<longleftrightarrow> current_protocol_type cpa \<noteq> CHG_PROTOCOL_INVALID \<and>
     current_protocol_type cpa \<noteq> CHG_PROTOCOL_BC12 \<and>
     \<not> oplus_cpa_is_allow_switch (current_protocol_type cpa) target"

definition do_protocol_identify_request :: "int \<Rightarrow> oplus_cpa \<Rightarrow> rc \<times> oplus_cpa" where
  "do_protocol_identify_request type cpa =
     (if \<not> valid_type type then (- EINVAL, cpa)
      else if busy_for (BIT type) cpa then (- EBUSY, cpa)
      else oplus_cpa_set_current_protocol_type type (cpa\<lparr>started := False\<rparr>))"

definition wired_missing :: "oplus_cpa \<Rightarrow> bool" where
  "wired_missing cpa \<longleftrightarrow> \<not> retention_state cpa \<and> (\<not> wired_online cpa \<or> \<not> env_present cpa)"

definition protocol_identify_request :: "u32 \<Rightarrow> oplus_cpa \<Rightarrow> rc \<times> oplus_cpa" where
  "protocol_identify_request protocol cpa =
     (if wired_missing cpa then (- EFAULT, cpa)
      else
        let cpa1 = cpa\<lparr>protocol_to_be_switched := protocol_to_be_switched cpa OR protocol\<rparr> in
        if busy_for protocol cpa1 then (- EBUSY, cpa1)
        else if \<not> def_req cpa1 then (0, cpa1)
        else if request_locked cpa1 then (0, cpa1)
        else (0, schedule_work Protocol_switch cpa1))"

text \<open>The first request of a connection asks for the default protocols; when the cable is missing it
  does not count.\<close>

definition request_default :: "oplus_cpa \<Rightarrow> oplus_cpa" where
  "request_default cpa =
     (let (rc, cpa1) = protocol_identify_request (default_protocol_type cpa) (cpa\<lparr>def_req := True\<rparr>) in
      if rc < 0 \<and> rc \<noteq> - EBUSY then cpa1\<lparr>def_req := False\<rparr> else cpa1)"

definition oplus_cpa_request_lock_vote_callback :: "int \<Rightarrow> oplus_cpa \<Rightarrow> oplus_cpa" where
  "oplus_cpa_request_lock_vote_callback locked cpa =
     (if request_locked cpa = (locked \<noteq> 0) then cpa
      else
        let cpa1 = cpa\<lparr>request_locked := (locked \<noteq> 0)\<rparr> in
        if request_locked cpa1 then cpa1
        else if \<not> request_pending cpa1
        then snd (protocol_identify_request (protocol_to_be_switched cpa1) cpa1)
        else
          let cpa2 = cpa1\<lparr>request_pending := False\<rparr> in
          if def_req cpa2 then cpa2 else request_default cpa2)"

text \<open>A vote on the lock, with the callback run for the calls it makes; the callback returns 0.\<close>

definition lock_env :: "unit vote_env" where
  "lock_env = \<lparr>run_callback = (\<lambda>_ _ _ _ _. 0), run_check = (\<lambda>_ _ _ _ _ _. 0)\<rparr>"

definition vote_lock :: "string option \<Rightarrow> bool \<Rightarrow> int \<Rightarrow> oplus_cpa \<Rightarrow> fault + (rc \<times> oplus_cpa)" where
  "vote_lock client enabled val cpa =
     (case vote lock_env (req_lock_votable cpa) client enabled val False of
        Inl e \<Rightarrow> Inl e
      | Inr (rc, v) \<Rightarrow>
          Inr (rc, fold (\<lambda>(result, _, _). oplus_cpa_request_lock_vote_callback result)
                     (drop (length (callback_log (req_lock_votable cpa))) (callback_log v))
                     (cpa\<lparr>req_lock_votable := v\<rparr>)))"

section \<open>The works\<close>

text \<open>Which protocol the switch work would start, if any: the requested and enabled one of highest
  priority, unless the protocol shown at the moment ranks higher.\<close>

definition switch_candidates :: "oplus_cpa \<Rightarrow> u32" where
  "switch_candidates cpa = protocol_to_be_switched cpa AND NOT (ucast (protocol_disable_mask cpa))"

definition switch_target :: "oplus_cpa \<Rightarrow> int" where
  "switch_target cpa =
     (let candidates = switch_candidates cpa;
          type = get_highest_priority_protocol_type cpa candidates;
          shown = oplus_cpa_chg_type_to_protocol_type (oplus_cpa_get_final_chg_type cpa) in
      if type = CHG_PROTOCOL_INVALID then CHG_PROTOCOL_INVALID
      else if shown \<noteq> CHG_PROTOCOL_INVALID \<and>
        get_highest_priority_protocol_type cpa (candidates OR BIT shown) \<noteq> type then CHG_PROTOCOL_INVALID
      else type)"

definition oplus_cpa_protocol_switch_work :: "oplus_cpa \<Rightarrow> oplus_cpa" where
  "oplus_cpa_protocol_switch_work cpa =
     (let type = switch_target cpa in
      if \<not> def_req cpa \<or> wired_missing cpa \<or> type = CHG_PROTOCOL_INVALID then cpa
      else
        let (rc, cpa1) = do_protocol_identify_request type (cancel_work Switch_timeout cpa) in
        if rc < 0 then
          if rc \<noteq> - EBUSY then
            let cpa2 = snd (oplus_cpa_set_current_protocol_type CHG_PROTOCOL_INVALID cpa1) in
            snd (protocol_identify_request (protocol_to_be_switched cpa2) cpa2)
          else cpa1
        else
          let cpa2 = (if \<not> started cpa1 then schedule_work Switch_timeout cpa1 else cpa1) in
          cpa2\<lparr>protocol_to_be_switched := protocol_to_be_switched cpa2 AND NOT (BIT type)\<rparr>)"

definition oplus_cpa_switch_end_work :: "oplus_cpa \<Rightarrow> oplus_cpa" where
  "oplus_cpa_switch_end_work cpa =
     (let cpa1 = snd (oplus_cpa_set_current_protocol_type CHG_PROTOCOL_INVALID (cpa\<lparr>started := False\<rparr>));
          cpa2 = snd (publish CPA_ITEM_CHG_TYPE cpa1) in
      snd (protocol_identify_request (protocol_to_be_switched cpa2) cpa2))"

definition defaults_ready :: "oplus_cpa \<Rightarrow> bool" where
  "defaults_ready cpa \<longleftrightarrow> ready_protocol_type cpa AND ucast (default_protocol_type cpa) = ucast (default_protocol_type cpa)"

text \<open>The default branch of the switch over the charger type.\<close>

definition default_request_on_type :: "oplus_cpa \<Rightarrow> oplus_cpa" where
  "default_request_on_type cpa =
     (if def_req cpa then cpa
      else
        let cpa1 = (if \<not> defaults_ready cpa then cpa\<lparr>request_pending := True\<rparr> else cpa) in
        if request_locked cpa1 then cpa1\<lparr>request_pending := True\<rparr>
        else if \<not> wired_online cpa1 then cpa1
        else request_default cpa1)"

definition on_type_change :: "oplus_chg_usb_type \<Rightarrow> oplus_cpa \<Rightarrow> oplus_cpa" where
  "on_type_change type cpa =
     (if type \<in> {OPLUS_CHG_USB_TYPE_UNKNOWN, OPLUS_CHG_USB_TYPE_SDP, OPLUS_CHG_USB_TYPE_PD_DRP,
          OPLUS_CHG_USB_TYPE_PD_SDP, OPLUS_CHG_USB_TYPE_CDP} then cpa
      else if type = OPLUS_CHG_USB_TYPE_PD_PPS \<and> wired_real_chg_type cpa = OPLUS_CHG_USB_TYPE_PD \<and>
          bit (default_protocol_type cpa) (nat CHG_PROTOCOL_PPS) \<and>
          bit (ready_protocol_type cpa) (nat CHG_PROTOCOL_PPS) then
        if retention_state cpa then cpa
        else snd (protocol_identify_request (BIT CHG_PROTOCOL_PPS) cpa)
      else default_request_on_type cpa)"

definition oplus_cpa_chg_type_change_work :: "oplus_cpa \<Rightarrow> oplus_cpa" where
  "oplus_cpa_chg_type_change_work cpa =
     (let cpa1 =
        (if \<not> wired_online cpa then cpa
         else
           let type = item_type (env_real_chg_type cpa) in
           if wired_real_chg_type cpa \<noteq> type then (on_type_change type cpa)\<lparr>wired_real_chg_type := type\<rparr> else cpa) in
      snd (publish CPA_ITEM_CHG_TYPE cpa1))"

definition oplus_cpa_fast_chg_type_change_work :: "oplus_cpa \<Rightarrow> oplus_cpa" where
  "oplus_cpa_fast_chg_type_change_work cpa = snd (publish CPA_ITEM_CHG_TYPE cpa)"

definition oplus_cpa_protocol_switch_timeout_work :: "oplus_cpa \<Rightarrow> oplus_cpa" where
  "oplus_cpa_protocol_switch_timeout_work cpa = snd (publish CPA_ITEM_TIMEOUT cpa)"

definition DEF_VOTER :: string where "DEF_VOTER = ''DEF_VOTER''"

definition oplus_cpa_protocol_ready_timeout_work :: "oplus_cpa \<Rightarrow> fault + oplus_cpa" where
  "oplus_cpa_protocol_ready_timeout_work cpa = map_sum id snd (vote_lock (Some DEF_VOTER) False 0 cpa)"

section \<open>Power\<close>

definition prio_index :: "oplus_cpa \<Rightarrow> int \<Rightarrow> nat option" where
  "prio_index cpa type = find (\<lambda>i. pi_type (protocol_prio_table cpa ! i) = type) [0..<CHG_PROTOCOL_MAX]"

definition set_entry_power :: "nat \<Rightarrow> int \<Rightarrow> oplus_cpa \<Rightarrow> oplus_cpa" where
  "set_entry_power i p cpa =
     cpa\<lparr>protocol_prio_table := (protocol_prio_table cpa)[i := (protocol_prio_table cpa ! i)\<lparr>power_mw := p\<rparr>]\<rparr>"

definition oplus_cpa_protocol_set_power :: "int \<Rightarrow> int \<Rightarrow> oplus_cpa \<Rightarrow> rc \<times> oplus_cpa" where
  "oplus_cpa_protocol_set_power type p cpa =
     (if \<not> valid_type type then (- EINVAL, cpa)
      else
        (case prio_index cpa type of
           None \<Rightarrow> (- ENOTSUPP, cpa)
         | Some i \<Rightarrow>
             let limit = max_power_mw (protocol_prio_table cpa ! i) in
             (0, snd (publish CPA_ITEM_POWER (set_entry_power i (if p > limit then limit else p) cpa)))))"

text \<open>PD, QC and BC1.2 have a fixed power; that of the others is learned from the adapter.\<close>

definition fixed_power :: "int \<Rightarrow> bool" where
  "fixed_power type \<longleftrightarrow> type = CHG_PROTOCOL_PD \<or> type = CHG_PROTOCOL_QC \<or> type = CHG_PROTOCOL_BC12"

definition oplus_cpa_protocol_clear_power :: "int \<Rightarrow> oplus_cpa \<Rightarrow> rc \<times> oplus_cpa" where
  "oplus_cpa_protocol_clear_power type cpa =
     (if \<not> valid_type type then (- EINVAL, cpa)
      else
        (case prio_index cpa type of
           None \<Rightarrow> (- ENOTSUPP, cpa)
         | Some i \<Rightarrow>
             (0, set_entry_power i (if fixed_power type then max_power_mw (protocol_prio_table cpa ! i) else 0) cpa)))"

definition oplus_cpa_protocol_get_power :: "int \<Rightarrow> oplus_cpa \<Rightarrow> int" where
  "oplus_cpa_protocol_get_power type cpa =
     (if \<not> valid_type type then - EINVAL
      else (case prio_index cpa type of None \<Rightarrow> - ENOTSUPP | Some i \<Rightarrow> power_mw (protocol_prio_table cpa ! i)))"

definition oplus_cpa_protocol_get_max_power_by_type :: "int \<Rightarrow> oplus_cpa \<Rightarrow> int" where
  "oplus_cpa_protocol_get_max_power_by_type type cpa =
     (if \<not> valid_type type then - EINVAL
      else (case prio_index cpa type of None \<Rightarrow> - ENOTSUPP | Some i \<Rightarrow> max_power_mw (protocol_prio_table cpa ! i)))"

section \<open>Plugging in and out\<close>

definition clear_all_powers :: "oplus_cpa \<Rightarrow> oplus_cpa" where
  "clear_all_powers cpa =
     foldl (\<lambda>cpa i. if pi_type (protocol_prio_table cpa ! i) \<noteq> CHG_PROTOCOL_INVALID
                   then snd (oplus_cpa_protocol_clear_power (pi_type (protocol_prio_table cpa ! i)) cpa) else cpa)
       cpa [0..<CHG_PROTOCOL_MAX]"

definition oplus_cpa_wired_offline_work :: "oplus_cpa \<Rightarrow> oplus_cpa" where
  "oplus_cpa_wired_offline_work cpa =
     (if status_reset cpa \<or> wired_online cpa then cpa
      else
        let cpa1 = snd (oplus_cpa_set_current_protocol_type CHG_PROTOCOL_INVALID (cancel_work Switch_timeout cpa));
            cpa2 = clear_all_powers (cpa1\<lparr>protocol_to_be_switched := 0, protocol_disable_mask := 0, def_req := False,
              request_pending := False, wired_real_chg_type := OPLUS_CHG_USB_TYPE_UNKNOWN\<rparr>) in
        cpa2\<lparr>status_reset := True\<rparr>)"

text \<open>\<^verbatim>\<open>time_is_before_jiffies\<close> compares over the wrap-around of the clock; two seconds are \<open>2 * hz\<close>
  ticks.\<close>

definition oplus_wired_offline_clear_cpa_queue :: "u64 \<Rightarrow> oplus_cpa \<Rightarrow> bool" where
  "oplus_wired_offline_clear_cpa_queue hz cpa \<longleftrightarrow> sint (wired_plugout_time cpa + 2 * hz - env_jiffies cpa) < 0"

abbreviation (input) CC_DETECT_NOTPLUG :: int where "CC_DETECT_NOTPLUG \<equiv> 1"

text \<open>\<^verbatim>\<open>flush_work\<close> waits until the offline work is done if it is scheduled.\<close>

definition flush_wired_offline :: "oplus_cpa \<Rightarrow> oplus_cpa" where
  "flush_wired_offline cpa =
     (if Wired_offline \<in> set (cpa_works cpa) then oplus_cpa_wired_offline_work (cancel_work Wired_offline cpa) else cpa)"

definition oplus_cpa_wired_online_work :: "u64 \<Rightarrow> oplus_cpa \<Rightarrow> oplus_cpa" where
  "oplus_cpa_wired_online_work hz cpa =
     (let cpa1 =
        (if status_reset cpa then cpa
         else if retention_topic cpa then
           if cc_detect cpa = CC_DETECT_NOTPLUG \<or> oplus_wired_offline_clear_cpa_queue hz cpa
           then schedule_work Wired_offline cpa else cpa
         else schedule_work Wired_offline cpa);
          cpa2 = flush_wired_offline cpa1 in
      if env_online cpa2 \<noteq> Some True then cpa2
      else
        let cpa3 = cpa2\<lparr>wired_online := True, status_reset := False\<rparr> in
        if item_type (env_real_chg_type cpa3) = OPLUS_CHG_USB_TYPE_UNKNOWN then cpa3
        else schedule_work Chg_type_change cpa3)"

section \<open>Topics\<close>

text \<open>The items of the other topics, with the data the callback reads (an item that cannot be read
  leaves the zero it was initialised with). Messages of the timer and items a callback does not name
  have no effect.\<close>

datatype wired_item =
    WIRED_ITEM_ONLINE bool | WIRED_ITEM_REAL_CHG_TYPE | WIRED_ITEM_CC_DETECT int
  | WIRED_ITEM_CHG_TYPE oplus_chg_usb_type | WIRED_ITEM_PD_COMPLETED bool | WIRED_ITEM_PRESENT bool

datatype vooc_item =
    VOOC_ITEM_VOOC_STARTED bool | VOOC_ITEM_VOOC_CHARGING bool | VOOC_ITEM_ONLINE bool | VOOC_ITEM_SID u32
  | VOOC_ITEM_ONLINE_KEEP bool

datatype ufcs_item =
    UFCS_ITEM_ONLINE bool | UFCS_ITEM_CHARGING "bool option" | UFCS_ITEM_ADAPTER_ID "u32 option"
  | UFCS_ITEM_OPLUS_ADAPTER "bool option"

datatype pps_item =
    PPS_ITEM_ONLINE bool | PPS_ITEM_CHARGING "bool option" | PPS_ITEM_OPLUS_ADAPTER "bool option"

datatype retention_item = RETENTION_ITEM_CONNECT_STATUS bool | RETENTION_ITEM_STATE_READY

definition wired_item_online :: "bool \<Rightarrow> oplus_cpa \<Rightarrow> oplus_cpa" where
  "wired_item_online online cpa =
     (if \<not> online then
        let cpa1 = oplus_cpa_pd_completed_set False (cpa\<lparr>wired_online := False, pd_comleted := False\<rparr>);
            cpa2 = (if \<not> retention_topic cpa1 then schedule_work Wired_offline cpa1
                    else if (retention_state_ready cpa1 \<or> pre_retention_state cpa1) \<and> \<not> retention_state cpa1
                    then schedule_work Wired_offline cpa1 else cpa1) in
        cpa2\<lparr>pre_retention_state := retention_state cpa2\<rparr>
      else
        schedule_work Wired_online
          (if \<not> retention_state cpa then cpa\<lparr>retention_state_ready := False\<rparr> else cpa))"

definition retention_item_connect_status :: "bool \<Rightarrow> oplus_cpa \<Rightarrow> oplus_cpa" where
  "retention_item_connect_status status cpa =
     (let cpa1 = (if \<not> status \<and> retention_state cpa then schedule_work Wired_offline cpa else cpa);
          cpa2 = cpa1\<lparr>retention_state := status\<rparr>;
          cpa3 = (if status then cpa2\<lparr>pre_retention_state := True\<rparr> else cpa2) in
      if wired_present cpa3 \<and> \<not> status then cpa3\<lparr>pre_retention_state := False\<rparr> else cpa3)"

fun oplus_cpa_wired_subs_callback :: "wired_item \<Rightarrow> oplus_cpa \<Rightarrow> oplus_cpa" where
  "oplus_cpa_wired_subs_callback (WIRED_ITEM_ONLINE b) cpa = wired_item_online b cpa"
| "oplus_cpa_wired_subs_callback WIRED_ITEM_REAL_CHG_TYPE cpa = schedule_work Chg_type_change cpa"
| "oplus_cpa_wired_subs_callback (WIRED_ITEM_CC_DETECT d) cpa =
     (let cpa1 = cpa\<lparr>cc_detect := d\<rparr> in
      if retention_topic cpa1 \<and> \<not> wired_online cpa1 \<and> d = CC_DETECT_NOTPLUG
      then schedule_work Wired_offline cpa1 else cpa1)"
| "oplus_cpa_wired_subs_callback (WIRED_ITEM_CHG_TYPE t) cpa = cpa\<lparr>wired_type := t\<rparr>"
| "oplus_cpa_wired_subs_callback (WIRED_ITEM_PD_COMPLETED b) cpa = oplus_cpa_pd_completed_set b (cpa\<lparr>pd_comleted := b\<rparr>)"
| "oplus_cpa_wired_subs_callback (WIRED_ITEM_PRESENT b) cpa =
     (let cpa1 = cpa\<lparr>wired_present := b\<rparr> in
      if \<not> b then cpa1\<lparr>wired_plugout_time := env_jiffies cpa1\<rparr> else cpa1)"

fun oplus_cpa_vooc_subs_callback :: "vooc_item \<Rightarrow> oplus_cpa \<Rightarrow> oplus_cpa" where
  "oplus_cpa_vooc_subs_callback (VOOC_ITEM_VOOC_STARTED b) cpa = cpa\<lparr>vooc_started := b\<rparr>"
| "oplus_cpa_vooc_subs_callback (VOOC_ITEM_VOOC_CHARGING b) cpa = cpa\<lparr>vooc_charging := b\<rparr>"
| "oplus_cpa_vooc_subs_callback (VOOC_ITEM_ONLINE b) cpa = cpa\<lparr>vooc_online := b\<rparr>"
| "oplus_cpa_vooc_subs_callback (VOOC_ITEM_SID sid) cpa = schedule_work Fast_chg_type_change (cpa\<lparr>vooc_sid := sid\<rparr>)"
| "oplus_cpa_vooc_subs_callback (VOOC_ITEM_ONLINE_KEEP b) cpa = cpa\<lparr>vooc_online_keep := b\<rparr>"

fun oplus_cpa_ufcs_subs_callback :: "ufcs_item \<Rightarrow> oplus_cpa \<Rightarrow> oplus_cpa" where
  "oplus_cpa_ufcs_subs_callback (UFCS_ITEM_ONLINE b) cpa = schedule_work Fast_chg_type_change (cpa\<lparr>ufcs_online := b\<rparr>)"
| "oplus_cpa_ufcs_subs_callback (UFCS_ITEM_CHARGING d) cpa = (case d of Some b \<Rightarrow> cpa\<lparr>ufcs_charging := b\<rparr> | None \<Rightarrow> cpa)"
| "oplus_cpa_ufcs_subs_callback (UFCS_ITEM_ADAPTER_ID d) cpa = (case d of Some x \<Rightarrow> cpa\<lparr>ufcs_adapter_id := x\<rparr> | None \<Rightarrow> cpa)"
| "oplus_cpa_ufcs_subs_callback (UFCS_ITEM_OPLUS_ADAPTER d) cpa = (case d of Some b \<Rightarrow> cpa\<lparr>ufcs_oplus_adapter := b\<rparr> | None \<Rightarrow> cpa)"

fun oplus_cpa_pps_subs_callback :: "pps_item \<Rightarrow> oplus_cpa \<Rightarrow> oplus_cpa" where
  "oplus_cpa_pps_subs_callback (PPS_ITEM_ONLINE b) cpa = schedule_work Fast_chg_type_change (cpa\<lparr>pps_online := b\<rparr>)"
| "oplus_cpa_pps_subs_callback (PPS_ITEM_CHARGING d) cpa = (case d of Some b \<Rightarrow> cpa\<lparr>pps_charging := b\<rparr> | None \<Rightarrow> cpa)"
| "oplus_cpa_pps_subs_callback (PPS_ITEM_OPLUS_ADAPTER d) cpa = (case d of Some b \<Rightarrow> cpa\<lparr>pps_oplus_adapter := b\<rparr> | None \<Rightarrow> cpa)"

fun oplus_cpa_retention_subs_callback :: "retention_item \<Rightarrow> oplus_cpa \<Rightarrow> oplus_cpa" where
  "oplus_cpa_retention_subs_callback (RETENTION_ITEM_CONNECT_STATUS b) cpa = retention_item_connect_status b cpa"
| "oplus_cpa_retention_subs_callback RETENTION_ITEM_STATE_READY cpa =
     (let cpa1 = cpa\<lparr>retention_state_ready := True\<rparr> in
      if \<not> retention_state cpa1 \<and> \<not> wired_online cpa1 then schedule_work Wired_offline cpa1 else cpa1)"

text \<open>A message on one of the topics.\<close>

datatype topic_event = Wired_topic wired_item | Vooc_topic vooc_item | Ufcs_topic ufcs_item | Pps_topic pps_item
  | Retention_topic retention_item

fun topic_callback :: "topic_event \<Rightarrow> oplus_cpa \<Rightarrow> oplus_cpa" where
  "topic_callback (Wired_topic i) = oplus_cpa_wired_subs_callback i"
| "topic_callback (Vooc_topic i) = oplus_cpa_vooc_subs_callback i"
| "topic_callback (Ufcs_topic i) = oplus_cpa_ufcs_subs_callback i"
| "topic_callback (Pps_topic i) = oplus_cpa_pps_subs_callback i"
| "topic_callback (Retention_topic i) = oplus_cpa_retention_subs_callback i"

text \<open>The first reading of a topic when it becomes available.\<close>

definition oplus_cpa_subscribe_wired_topic :: "bool \<Rightarrow> bool \<Rightarrow> oplus_cpa \<Rightarrow> oplus_cpa" where
  "oplus_cpa_subscribe_wired_topic online present cpa =
     (let cpa1 = (if online then schedule_work Wired_online cpa else cpa);
          cpa2 = cpa1\<lparr>wired_present := present\<rparr> in
      if \<not> present then cpa2\<lparr>wired_plugout_time := env_jiffies cpa2\<rparr> else cpa2)"

definition oplus_cpa_subscribe_vooc_topic :: "bool \<Rightarrow> bool \<Rightarrow> bool \<Rightarrow> bool \<Rightarrow> u32 \<Rightarrow> oplus_cpa \<Rightarrow> oplus_cpa" where
  "oplus_cpa_subscribe_vooc_topic st ch on keep sid cpa =
     cpa\<lparr>vooc_started := st, vooc_charging := ch, vooc_online := on, vooc_online_keep := keep, vooc_sid := sid\<rparr>"

definition oplus_cpa_subscribe_ufcs_topic ::
  "bool \<Rightarrow> bool option \<Rightarrow> u32 option \<Rightarrow> bool option \<Rightarrow> oplus_cpa \<Rightarrow> oplus_cpa" where
  "oplus_cpa_subscribe_ufcs_topic on ch adapter opl cpa =
     oplus_cpa_ufcs_subs_callback (UFCS_ITEM_OPLUS_ADAPTER opl) (oplus_cpa_ufcs_subs_callback (UFCS_ITEM_ADAPTER_ID adapter)
       (oplus_cpa_ufcs_subs_callback (UFCS_ITEM_CHARGING ch) (cpa\<lparr>ufcs_online := on\<rparr>)))"

definition oplus_cpa_subscribe_pps_topic :: "bool \<Rightarrow> bool option \<Rightarrow> bool option \<Rightarrow> oplus_cpa \<Rightarrow> oplus_cpa" where
  "oplus_cpa_subscribe_pps_topic on ch opl cpa =
     oplus_cpa_pps_subs_callback (PPS_ITEM_OPLUS_ADAPTER opl) (oplus_cpa_pps_subs_callback (PPS_ITEM_CHARGING ch) (cpa\<lparr>pps_online := on\<rparr>))"

definition oplus_cpa_subscribe_retention_topic :: "bool option \<Rightarrow> oplus_cpa \<Rightarrow> oplus_cpa" where
  "oplus_cpa_subscribe_retention_topic status cpa =
     (let cpa1 = cpa\<lparr>retention_topic := True\<rparr> in
      case status of Some b \<Rightarrow> cpa1\<lparr>retention_state := b\<rparr> | None \<Rightarrow> cpa1)"

section \<open>Exported functions\<close>

definition oplus_cpa_request :: "int \<Rightarrow> oplus_cpa \<Rightarrow> rc \<times> oplus_cpa" where
  "oplus_cpa_request type cpa =
     (if \<not> valid_type type then (- EINVAL, cpa)
      else if \<not> retention_state cpa \<and> \<not> wired_online cpa then (- EFAULT, cpa)
      else
        let type = (if type = CHG_PROTOCOL_PPS \<and> \<not> oplus_cpa_is_supported_protocol cpa type
                    then CHG_PROTOCOL_PD else type) in
        protocol_identify_request (BIT type) cpa)"

definition oplus_cpa_protocol_ready :: "int \<Rightarrow> oplus_cpa \<Rightarrow> fault + (rc \<times> oplus_cpa)" where
  "oplus_cpa_protocol_ready type cpa =
     (if \<not> valid_type type then Inr (- EINVAL, cpa)
      else
        let cpa1 = cpa\<lparr>ready_protocol_type := set_bit (nat type) (ready_protocol_type cpa)\<rparr> in
        if \<not> defaults_ready cpa1 then Inr (0, cpa1)
        else map_sum id (\<lambda>(_, cpa2). (0, cpa2)) (vote_lock (Some DEF_VOTER) False 0 (cancel_work Ready_timeout cpa1)))"

definition oplus_cpa_switch_end :: "int \<Rightarrow> oplus_cpa \<Rightarrow> rc \<times> oplus_cpa" where
  "oplus_cpa_switch_end type cpa =
     (if type \<noteq> current_protocol_type cpa then (- EINVAL, cpa)
      else (of_bool (Switch_end \<notin> set (cpa_works cpa)), schedule_work Switch_end cpa))"

definition oplus_cpa_curr_high_prio_protocol_type :: "oplus_cpa \<Rightarrow> int" where
  "oplus_cpa_curr_high_prio_protocol_type cpa =
     get_highest_priority_protocol_type cpa
       (if current_protocol_type cpa > CHG_PROTOCOL_INVALID \<and> current_protocol_type cpa < int CHG_PROTOCOL_MAX
        then protocol_to_be_switched cpa OR BIT (current_protocol_type cpa) else protocol_to_be_switched cpa)"

definition oplus_cpa_request_lock :: "string option \<Rightarrow> oplus_cpa \<Rightarrow> fault + (rc \<times> oplus_cpa)" where
  "oplus_cpa_request_lock name cpa =
     (if name = None then Inr (- EINVAL, cpa) else vote_lock name True 1 cpa)"

definition oplus_cpa_request_unlock :: "string option \<Rightarrow> oplus_cpa \<Rightarrow> fault + (rc \<times> oplus_cpa)" where
  "oplus_cpa_request_unlock name cpa =
     (if name = None then Inr (- EINVAL, cpa) else vote_lock name False 0 cpa)"

definition oplus_cpa_protocol_disable :: "int \<Rightarrow> oplus_cpa \<Rightarrow> rc \<times> oplus_cpa" where
  "oplus_cpa_protocol_disable type cpa =
     (if \<not> valid_type type then (- EINVAL, cpa)
      else (0, cpa\<lparr>protocol_disable_mask := set_bit (nat type) (protocol_disable_mask cpa)\<rparr>))"

definition oplus_cpa_protocol_enable :: "int \<Rightarrow> oplus_cpa \<Rightarrow> rc \<times> oplus_cpa" where
  "oplus_cpa_protocol_enable type cpa =
     (if \<not> valid_type type then (- EINVAL, cpa)
      else (0, cpa\<lparr>protocol_disable_mask := unset_bit (nat type) (protocol_disable_mask cpa)\<rparr>))"

section \<open>The device tree\<close>

text \<open>A property of the device tree is a list of 32-bit cells, or absent.\<close>

definition read_cell :: "u32 list \<Rightarrow> nat \<Rightarrow> u32 option" where
  "read_cell cells i = (if i < length cells then Some (cells ! i) else None)"

definition the_cells :: "u32 list option \<Rightarrow> u32 list" where
  "the_cells cells = (case cells of Some cs \<Rightarrow> cs | None \<Rightarrow> [])"

text \<open>The number of pairs of a property of pairs: too many pairs are cut off.\<close>

definition pair_count :: "u32 list option \<Rightarrow> nat" where
  "pair_count cells =
     (case cells of None \<Rightarrow> 0 | Some cs \<Rightarrow> if length cs div 2 > CHG_PROTOCOL_MAX then CHG_PROTOCOL_MAX else length cs div 2)"

definition no_protocol :: oplus_cpa_protocol_info where
  "no_protocol = \<lparr>pi_type = CHG_PROTOCOL_INVALID, power_mw = 0, max_power_mw = 0\<rparr>"

definition bc12_protocol :: oplus_cpa_protocol_info where
  "bc12_protocol = \<lparr>pi_type = CHG_PROTOCOL_BC12, power_mw = 10000, max_power_mw = 10000\<rparr>"

definition parse_protocol :: "u32 list \<Rightarrow> oplus_cpa_protocol_info list \<times> u32 \<Rightarrow> nat \<Rightarrow> oplus_cpa_protocol_info list \<times> u32" where
  "parse_protocol cells acc i =
     (let (table, supported) = acc in
      case read_cell cells (2 * i) of
        None \<Rightarrow> (table[i := no_protocol], supported)
      | Some d \<Rightarrow>
          if unat d \<ge> CHG_PROTOCOL_MAX then (table[i := no_protocol], supported)
          else
            let supported = supported OR BIT (int (unat d)) in
            (case read_cell cells (2 * i + 1) of
               None \<Rightarrow> (table[i := no_protocol], supported)
             | Some w \<Rightarrow>
                 let p = sint (w * 1000); t = int (unat d) in
                 (table[i := \<lparr>pi_type = t, power_mw = (if fixed_power t then p else 0), max_power_mw = p\<rparr>], supported)))"

definition parse_default :: "u32 list \<Rightarrow> u32 \<Rightarrow> nat \<Rightarrow> u32" where
  "parse_default cells m i =
     (case read_cell cells i of
        None \<Rightarrow> m
      | Some d \<Rightarrow> if unat d \<ge> CHG_PROTOCOL_MAX then m else m OR BIT (int (unat d)))"

abbreviation (input) PROTOCAL_WAIT_TIMEOUT_MS :: int where "PROTOCAL_WAIT_TIMEOUT_MS \<equiv> 1000"

text \<open>A wait entry; when its time cannot be read the code invalidates an entry of the priority table.\<close>

definition parse_wait ::
  "u32 list \<Rightarrow> (int \<times> int) list \<times> oplus_cpa_protocol_info list \<Rightarrow> nat \<Rightarrow> (int \<times> int) list \<times> oplus_cpa_protocol_info list" where
  "parse_wait cells acc i =
     (let (waits, table) = acc in
      case read_cell cells (2 * i) of
        None \<Rightarrow> (waits @ [(CHG_PROTOCOL_INVALID, PROTOCAL_WAIT_TIMEOUT_MS)], table)
      | Some d \<Rightarrow>
          if unat d \<ge> CHG_PROTOCOL_MAX then (waits @ [(CHG_PROTOCOL_INVALID, PROTOCAL_WAIT_TIMEOUT_MS)], table)
          else
            (case read_cell cells (2 * i + 1) of
               None \<Rightarrow> (waits @ [(int (unat d), PROTOCAL_WAIT_TIMEOUT_MS)],
                        table[i := (table ! i)\<lparr>pi_type := CHG_PROTOCOL_INVALID\<rparr>])
             | Some ms \<Rightarrow> (waits @ [(int (unat d), sint ms)], table)))"

definition oplus_cpa_parse_dt ::
  "u32 list option \<Rightarrow> u32 list option \<Rightarrow> u32 list option \<Rightarrow> oplus_cpa \<Rightarrow> oplus_cpa" where
  "oplus_cpa_parse_dt protocol_list default_list wait_list cpa =
     (let num = pair_count protocol_list;
          (table, supported) = foldl (parse_protocol (the_cells protocol_list))
             (protocol_prio_table cpa, protocol_supported_type cpa) [0..<num];
          table = (if num < CHG_PROTOCOL_MAX
                   then take num table @ bc12_protocol # replicate (CHG_PROTOCOL_MAX - num - 1) no_protocol else table);
          supported = (if num < CHG_PROTOCOL_MAX then supported OR BIT CHG_PROTOCOL_BC12 else supported);
          def_num = min (length (the_cells default_list)) CHG_PROTOCOL_MAX;
          defaults = foldl (parse_default (the_cells default_list)) (default_protocol_type cpa) [0..<def_num];
          (waits, table) = foldl (parse_wait (the_cells wait_list)) ([], table) [0..<pair_count wait_list] in
      cpa\<lparr>protocol_prio_table := table, protocol_supported_type := supported, default_protocol_type := defaults,
          protocol_wait_support := wait_list \<noteq> None, protocol_wait_table := waits\<rparr>)"

section \<open>Probe\<close>

text \<open>The structure is zeroed; the surroundings are those of \<open>env\<close>.\<close>

definition zeroed_cpa :: "oplus_cpa \<Rightarrow> oplus_cpa" where
  "zeroed_cpa env = env
     \<lparr>cpa_works := [], current_protocol_type := CHG_PROTOCOL_INVALID, protocol_to_be_switched := 0,
      protocol_disable_mask := 0, default_protocol_type := BIT CHG_PROTOCOL_BC12, ready_protocol_type := 0,
      protocol_supported_type := 0,
      protocol_prio_table := replicate CHG_PROTOCOL_MAX \<lparr>pi_type = 0, power_mw = 0, max_power_mw = 0\<rparr>,
      def_req := False, request_pending := False, started := False, request_locked := False, status_reset := True,
      wired_online := False, cc_detect := 0, wired_type := OPLUS_CHG_USB_TYPE_UNKNOWN,
      wired_real_chg_type := OPLUS_CHG_USB_TYPE_UNKNOWN, vooc_started := False, vooc_online := False,
      vooc_charging := False, vooc_online_keep := False, vooc_sid := 0, ufcs_online := False, ufcs_charging := False,
      ufcs_oplus_adapter := False, ufcs_adapter_id := 0, pps_online := False, pps_online_keep := False,
      pps_charging := False, pps_oplus_adapter := False, retention_topic := False, retention_state := False,
      pre_retention_state := False, retention_state_ready := False, wired_present := False, wired_plugout_time := 0,
      pd_comleted := False, protocol_wait_support := False, pd_completed_ack := 0, protocol_wait_table := [],
      item_chg_type := OPLUS_CHG_USB_TYPE_UNKNOWN, item_allow := 0, item_timeout := 0, item_power := 0, published := []\<rparr>"

text \<open>\<open>created\<close> is the result of creating the votable, \<open>topic_rc\<close> that of registering the topic. Without
  memory the probe succeeds and leaves no device.\<close>

definition oplus_cpa_probe ::
  "bool \<Rightarrow> u32 list option \<Rightarrow> u32 list option \<Rightarrow> u32 list option \<Rightarrow> rc + unit votable \<Rightarrow> rc \<Rightarrow> oplus_cpa \<Rightarrow>
     fault + (rc \<times> oplus_cpa option)" where
  "oplus_cpa_probe mem_ok protocol_list default_list wait_list created topic_rc env =
     (if \<not> mem_ok then Inr (0, None)
      else
        let cpa1 = oplus_cpa_parse_dt protocol_list default_list wait_list (zeroed_cpa env) in
        case created of
          Inl rc \<Rightarrow> Inr (rc, None)
        | Inr v \<Rightarrow>
            (case vote_lock (Some DEF_VOTER) True 1 (cpa1\<lparr>req_lock_votable := v\<rparr>) of
               Inl e \<Rightarrow> Inl e
             | Inr (_, cpa2) \<Rightarrow>
                 if topic_rc < 0 then Inr (topic_rc, None)
                 else Inr (0, Some (schedule_work Ready_timeout cpa2))))"

section \<open>Steps\<close>

fun run_cpa_work :: "u64 \<Rightarrow> cpa_work \<Rightarrow> oplus_cpa \<Rightarrow> fault + oplus_cpa" where
  "run_cpa_work hz Protocol_switch cpa = Inr (oplus_cpa_protocol_switch_work cpa)"
| "run_cpa_work hz Chg_type_change cpa = Inr (oplus_cpa_chg_type_change_work cpa)"
| "run_cpa_work hz Fast_chg_type_change cpa = Inr (oplus_cpa_fast_chg_type_change_work cpa)"
| "run_cpa_work hz Wired_offline cpa = Inr (oplus_cpa_wired_offline_work cpa)"
| "run_cpa_work hz Wired_online cpa = Inr (oplus_cpa_wired_online_work hz cpa)"
| "run_cpa_work hz Switch_end cpa = Inr (oplus_cpa_switch_end_work cpa)"
| "run_cpa_work hz Switch_timeout cpa = Inr (oplus_cpa_protocol_switch_timeout_work cpa)"
| "run_cpa_work hz Ready_timeout cpa = oplus_cpa_protocol_ready_timeout_work cpa"

text \<open>One step of the arbiter: the surroundings change, a topic reports, a scheduled work runs, or a
  driver calls.\<close>

inductive cpa_step :: "u64 \<Rightarrow> oplus_cpa \<Rightarrow> oplus_cpa \<Rightarrow> bool" for hz where
  surroundings: "cpa_step hz cpa (cpa\<lparr>env_real_chg_type := a, env_online := b, env_present := c, env_jiffies := d,
    env_msg := e, env_sync := f, env_ufcs_power := g, env_pps_adapter_power_mw := h, env_pps_power_watt := i\<rparr>)"
| topic: "cpa_step hz cpa (topic_callback ev cpa)"
| wired_topic: "cpa_step hz cpa (oplus_cpa_subscribe_wired_topic on present cpa)"
| vooc_topic: "cpa_step hz cpa (oplus_cpa_subscribe_vooc_topic st ch on keep sid cpa)"
| ufcs_topic: "cpa_step hz cpa (oplus_cpa_subscribe_ufcs_topic on ch' adapter opl cpa)"
| pps_topic: "cpa_step hz cpa (oplus_cpa_subscribe_pps_topic on ch' opl cpa)"
| retention: "cpa_step hz cpa (oplus_cpa_subscribe_retention_topic status cpa)"
| work: "w \<in> set (cpa_works cpa) \<Longrightarrow> run_cpa_work hz w (cancel_work w cpa) = Inr cpa' \<Longrightarrow> cpa_step hz cpa cpa'"
| request: "cpa_step hz cpa (snd (oplus_cpa_request type cpa))"
| ready: "oplus_cpa_protocol_ready type cpa = Inr (rc, cpa') \<Longrightarrow> cpa_step hz cpa cpa'"
| switch_start: "cpa_step hz cpa (snd (oplus_cpa_switch_start type cpa))"
| switch_end: "cpa_step hz cpa (snd (oplus_cpa_switch_end type cpa))"
| lock: "oplus_cpa_request_lock name cpa = Inr (rc, cpa') \<Longrightarrow> cpa_step hz cpa cpa'"
| unlock: "oplus_cpa_request_unlock name cpa = Inr (rc, cpa') \<Longrightarrow> cpa_step hz cpa cpa'"
| disable: "cpa_step hz cpa (snd (oplus_cpa_protocol_disable type cpa))"
| enable: "cpa_step hz cpa (snd (oplus_cpa_protocol_enable type cpa))"
| set_power: "cpa_step hz cpa (snd (oplus_cpa_protocol_set_power type p cpa))"
| clear_power: "cpa_step hz cpa (snd (oplus_cpa_protocol_clear_power type cpa))"

end
