(* ===== verification/Chg_Priority.thy ===== *)
theory Chg_Priority
  imports Chg_Cpa "HOL-Library.Multiset"
begin

unbundle bit_operations_syntax

text \<open>
  The order in which the arbiter prefers the protocols. The code fills two arrays in one pass with
  shifts; here they are shown to be an insertion sort of the priority table, so that the choice of
  the arbiter is a requested protocol that no other requested protocol with known power exceeds.
\<close>

section \<open>The priority order\<close>

text \<open>The pass over the priority table as an insertion into a list.\<close>

definition prio_insert :: "(int \<times> int) list \<Rightarrow> int \<times> int \<Rightarrow> (int \<times> int) list" where
  "prio_insert bs e =
     (if snd e \<le> 0 then bs @ [e]
      else takeWhile (\<lambda>b. \<not> (0 < snd b \<and> snd b < snd e)) bs @ e # dropWhile (\<lambda>b. \<not> (0 < snd b \<and> snd b < snd e)) bs)"

definition prio_entries :: "oplus_cpa \<Rightarrow> (int \<times> int) list" where
  "prio_entries cpa = map (\<lambda>e. (pi_type e, power_mw e)) (protocol_prio_table cpa)"

definition priority_order :: "oplus_cpa \<Rightarrow> (int \<times> int) list" where
  "priority_order cpa = foldl prio_insert [] (prio_entries cpa)"

lemma length_shift_up [simp]: "length (shift_up m i xs) = length xs"
proof -
  have "length (foldl (\<lambda>xs n. xs[n := xs ! (n - 1)]) xs ns) = length xs" for ns :: "nat list"
    by (induction ns arbitrary: xs) simp_all
  then show ?thesis by (simp add: shift_up_def)
qed

lemma nth_shift_up:
  "i < length xs \<Longrightarrow> k < length xs \<Longrightarrow>
     shift_up m i xs ! k = (if m < k \<and> k \<le> i then xs ! (k - 1) else xs ! k)"
proof (induction i arbitrary: xs)
  case 0
  then show ?case by (cases "m = 0") (auto simp: shift_up_def)
next
  case (Suc i)
  show ?case
  proof (cases "m < Suc i")
    case True
    then have "shift_up m (Suc i) xs = shift_up m i (xs[Suc i := xs ! i])"
      by (simp add: shift_up_def)
    then show ?thesis using Suc.IH [of "xs[Suc i := xs ! i]"] Suc.prems True by (auto simp: nth_list_update)
  next
    case False
    then show ?thesis by (auto simp: shift_up_def)
  qed
qed

lemma shift_insert:
  assumes "m \<le> i" and "i < length xs"
  shows "take (Suc i) ((shift_up m i xs)[m := x]) = take m (take i xs) @ x # drop m (take i xs)"
proof (rule nth_equalityI)
  show "length (take (Suc i) ((shift_up m i xs)[m := x])) = length (take m (take i xs) @ x # drop m (take i xs))"
    using assms by simp
  fix k assume "k < length (take (Suc i) ((shift_up m i xs)[m := x]))"
  then have "k \<le> i" "k < length xs" using assms by auto
  then show "take (Suc i) ((shift_up m i xs)[m := x]) ! k = (take m (take i xs) @ x # drop m (take i xs)) ! k"
    using assms by (auto simp: nth_append nth_list_update nth_shift_up nth_Cons')
qed

lemma drop_shift_insert:
  assumes "m \<le> i" and "i < length xs"
  shows "drop (Suc i) ((shift_up m i xs)[m := x]) = drop (Suc i) xs"
  using assms by (intro nth_equalityI) (auto simp: nth_shift_up nth_list_update)

text \<open>The slot is the length of the prefix that the insertion keeps.\<close>

lemma backup_slot_prefix:
  assumes "i \<le> length ps"
  shows "backup_slot ps i pw = length (takeWhile (\<lambda>p. \<not> (0 < p \<and> p < pw)) (take i ps))"
proof -
  let ?P = "\<lambda>p. \<not> (0 < p \<and> p < pw)"
  have n: "length (takeWhile ?P (take i ps)) \<le> i" using length_takeWhile_le [of ?P "take i ps"] assms by simp
  have below: "?P (ps ! m)" if "m < length (takeWhile ?P (take i ps))" for m
    using that nth_mem [OF that] n set_takeWhileD [of "takeWhile ?P (take i ps) ! m" ?P "take i ps"]
    by (simp add: takeWhile_nth)
  show ?thesis
  proof (cases "length (takeWhile ?P (take i ps)) < i")
    case True
    have "\<not> ?P (ps ! length (takeWhile ?P (take i ps)))"
      using nth_length_takeWhile [of ?P "take i ps"] True assms by simp
    then have "find (\<lambda>m. ps ! m > 0 \<and> pw > ps ! m) [0..<i] = Some (length (takeWhile ?P (take i ps)))"
      using True below by (auto simp: find_Some_iff intro!: exI [of _ "length (takeWhile ?P (take i ps))"])
    then show ?thesis by (simp add: backup_slot_def)
  next
    case False
    then have e: "length (takeWhile ?P (take i ps)) = i" using n by simp
    then have "find (\<lambda>m. ps ! m > 0 \<and> pw > ps ! m) [0..<i] = None"
      using below by (auto simp: find_None_iff)
    then show ?thesis using e by (simp add: backup_slot_def)
  qed
qed

lemma prio_insert_split:
  assumes "0 < snd e" and "m = length (takeWhile (\<lambda>p. \<not> (0 < p \<and> p < snd e)) (map snd bs))"
  shows "prio_insert bs e = take m bs @ e # drop m bs"
proof -
  have "m = length (takeWhile (\<lambda>b. \<not> (0 < snd b \<and> snd b < snd e)) bs)"
    using assms(2) by (simp add: takeWhile_map o_def)
  then have "take m bs = takeWhile (\<lambda>b. \<not> (0 < snd b \<and> snd b < snd e)) bs"
    and "drop m bs = dropWhile (\<lambda>b. \<not> (0 < snd b \<and> snd b < snd e)) bs"
    by (simp_all only: takeWhile_eq_take [symmetric] dropWhile_eq_drop [symmetric])
  then show ?thesis using assms(1) by (simp add: prio_insert_def)
qed

lemma length_prio_insert [simp]: "length (prio_insert bs e) = Suc (length bs)"
proof -
  have "length (takeWhile P bs) + length (dropWhile P bs) = length bs" for P
    by (metis length_append takeWhile_dropWhile_id)
  then show ?thesis by (simp add: prio_insert_def)
qed

lemma length_priority [simp]: "length (foldl prio_insert bs es) = length bs + length es"
  by (induction es arbitrary: bs) simp_all

lemma backup_step_insert:
  assumes "i < length ts" and "length ps = length ts" and "i < length (protocol_prio_table cpa)"
    and "take i ts = map fst bs" and "take i ps = map snd bs" and "backup_step cpa (ts, ps) i = (ts', ps')"
  shows "length ts' = length ts \<and> length ps' = length ts \<and>
    take (Suc i) ts' = map fst (prio_insert bs (prio_entries cpa ! i)) \<and>
    take (Suc i) ps' = map snd (prio_insert bs (prio_entries cpa ! i))"
proof -
  let ?e = "protocol_prio_table cpa ! i"
  have e: "prio_entries cpa ! i = (pi_type ?e, power_mw ?e)" using assms(3) by (simp add: prio_entries_def)
  show ?thesis
  proof (cases "power_mw ?e \<le> 0")
    case True
    then show ?thesis using assms e
      by (auto simp: backup_step_def prio_insert_def take_Suc_conv_app_nth)
  next
    case False
    let ?m = "backup_slot ps i (power_mw ?e)"
    have m: "?m = length (takeWhile (\<lambda>p. \<not> (0 < p \<and> p < power_mw ?e)) (map snd bs))"
      using backup_slot_prefix [of i ps "power_mw ?e"] assms(1,2,5) by simp
    have le: "?m \<le> i"
      using length_takeWhile_le [of "\<lambda>p. \<not> (0 < p \<and> p < power_mw ?e)" "map snd bs"] m assms(1,2,5)
        length_take [of i ps] by (metis length_map min.absorb2 less_imp_le_nat)
    have ins: "prio_insert bs (prio_entries cpa ! i) = take ?m bs @ (pi_type ?e, power_mw ?e) # drop ?m bs"
      unfolding e using False m by (intro prio_insert_split) simp_all
    have "ts' = (shift_up ?m i ts)[?m := pi_type ?e]" "ps' = (shift_up ?m i ps)[?m := power_mw ?e]"
      using assms(6) False by (simp_all add: backup_step_def Let_def)
    then show ?thesis
      using shift_insert [OF le, of ts "pi_type ?e"] shift_insert [OF le, of ps "power_mw ?e"] assms(1,2,4,5)
      by (simp add: ins take_map drop_map)
  qed
qed

lemma backup_prefix:
  assumes "length (protocol_prio_table cpa) = CHG_PROTOCOL_MAX" and "n \<le> CHG_PROTOCOL_MAX"
    and "foldl (backup_step cpa) (CHG_PROTOCOL_INVALID # replicate (CHG_PROTOCOL_MAX - 1) 0, replicate CHG_PROTOCOL_MAX 0) [0..<n] = (ts, ps)"
  shows "length ts = CHG_PROTOCOL_MAX \<and> length ps = CHG_PROTOCOL_MAX \<and>
    take n ts = map fst (foldl prio_insert [] (take n (prio_entries cpa))) \<and>
    take n ps = map snd (foldl prio_insert [] (take n (prio_entries cpa)))"
  using assms(2,3)
proof (induction n arbitrary: ts ps)
  case 0
  then show ?case by auto
next
  case (Suc n)
  obtain ts1 ps1 where b: "foldl (backup_step cpa) (CHG_PROTOCOL_INVALID # replicate (CHG_PROTOCOL_MAX - 1) 0,
      replicate CHG_PROTOCOL_MAX 0) [0..<n] = (ts1, ps1)" by force
  note ih = Suc.IH [OF _ b]
  have "backup_step cpa (ts1, ps1) n = (ts, ps)" using Suc.prems(2) b by simp
  then show ?case
    using backup_step_insert [of n ts1 ps1 cpa "foldl prio_insert [] (take n (prio_entries cpa))" ts ps]
      ih Suc.prems(1) assms(1)
    by (simp add: take_Suc_conv_app_nth prio_entries_def)
qed

lemma backup_arrays_priority:
  assumes "length (protocol_prio_table cpa) = CHG_PROTOCOL_MAX"
  shows "fst (backup_arrays cpa) = map fst (priority_order cpa)"
proof -
  have p: "length (fst (backup_arrays cpa)) = CHG_PROTOCOL_MAX"
    "take CHG_PROTOCOL_MAX (fst (backup_arrays cpa)) = map fst (foldl prio_insert [] (take CHG_PROTOCOL_MAX (prio_entries cpa)))"
    using backup_prefix [OF assms order_refl, of "fst (backup_arrays cpa)" "snd (backup_arrays cpa)"]
    unfolding backup_arrays_def by simp_all
  have "length (prio_entries cpa) = CHG_PROTOCOL_MAX" using assms by (simp add: prio_entries_def)
  then show ?thesis using p by (simp add: priority_order_def)
qed

text \<open>The order is a rearrangement of the table that puts more power before less.\<close>

lemma mset_prio_insert: "mset (prio_insert bs e) = add_mset e (mset bs)"
proof -
  have "mset (takeWhile P bs) + mset (dropWhile P bs) = mset bs" for P
    by (metis mset_append takeWhile_dropWhile_id)
  then show ?thesis by (simp add: prio_insert_def)
qed

lemma mset_priority: "mset (foldl prio_insert bs es) = mset bs + mset es"
  by (induction es arbitrary: bs) (simp_all add: mset_prio_insert)

definition power_sorted :: "(int \<times> int) list \<Rightarrow> bool" where
  "power_sorted bs = sorted_wrt (\<lambda>a b. 0 < snd a \<longrightarrow> 0 < snd b \<longrightarrow> snd b \<le> snd a) bs"

lemma prio_insert_sorted:
  assumes "power_sorted bs" shows "power_sorted (prio_insert bs e)"
proof (cases "snd e \<le> 0")
  case True
  then show ?thesis using assms by (simp add: power_sorted_def prio_insert_def sorted_wrt_append)
next
  case False
  let ?P = "\<lambda>b. \<not> (0 < snd b \<and> snd b < snd e)"
  let ?t = "takeWhile ?P bs" and ?d = "dropWhile ?P bs"
  have "power_sorted (?t @ ?d)" using assms by simp
  note s = this [unfolded power_sorted_def sorted_wrt_append]
  have t: "\<forall>a\<in>set ?t. 0 < snd a \<longrightarrow> snd e \<le> snd a" by (auto dest: set_takeWhileD)
  have d: "\<forall>b\<in>set ?d. 0 < snd b \<longrightarrow> snd b \<le> snd e"
  proof (cases ?d)
    case Nil
    then show ?thesis unfolding Nil by simp
  next
    case (Cons b d)
    have "0 < snd b" "snd b < snd e" using Cons by (auto simp: dropWhile_eq_Cons_conv)
    then show ?thesis using s Cons by auto
  qed
  show ?thesis using s t d False by (auto simp: power_sorted_def prio_insert_def sorted_wrt_append)
qed

lemma priority_sorted: "power_sorted (priority_order cpa)"
proof -
  have "power_sorted bs \<Longrightarrow> power_sorted (foldl prio_insert bs es)" for bs es
    by (induction es arbitrary: bs) (simp_all add: prio_insert_sorted)
  then show ?thesis by (simp add: priority_order_def power_sorted_def)
qed

lemma set_priority: "set (priority_order cpa) = set (prio_entries cpa)"
  using mset_priority [of "[]" "prio_entries cpa"] by (simp add: priority_order_def flip: set_mset_mset)

text \<open>The protocols that can be chosen, with their powers.\<close>

definition eligible :: "oplus_cpa \<Rightarrow> u32 \<Rightarrow> (int \<times> int) list" where
  "eligible cpa protocol = filter (\<lambda>(t, _). t \<noteq> CHG_PROTOCOL_INVALID \<and> bit protocol (nat t)) (priority_order cpa)"

lemma find_map_filter: "find P (map f xs) = (case filter (P \<circ> f) xs of [] \<Rightarrow> None | x # _ \<Rightarrow> Some (f x))"
  by (induction xs) simp_all

lemma highest_eligible:
  assumes "length (protocol_prio_table cpa) = CHG_PROTOCOL_MAX"
  shows "get_highest_priority_protocol_type cpa protocol =
    (case eligible cpa protocol of [] \<Rightarrow> CHG_PROTOCOL_INVALID | (t, _) # _ \<Rightarrow> t)"
  by (simp add: get_highest_priority_protocol_type_def backup_arrays_priority [OF assms] find_map_filter
      eligible_def o_def case_prod_unfold split: list.split)

lemma eligible_set:
  "(t, p) \<in> set (eligible cpa protocol) \<longleftrightarrow>
     (\<exists>e\<in>set (protocol_prio_table cpa). t = pi_type e \<and> p = power_mw e) \<and> t \<noteq> CHG_PROTOCOL_INVALID \<and> bit protocol (nat t)"
  by (auto simp: eligible_def set_priority prio_entries_def)

lemma eligible_sorted: "power_sorted (eligible cpa protocol)"
  unfolding eligible_def power_sorted_def
  by (rule sorted_wrt_filter) (rule priority_sorted [unfolded power_sorted_def])

text \<open>A concrete arbiter: UFCS and PPS with a known power, VOOC without, and BC1.2.\<close>

definition demo_table :: "oplus_cpa_protocol_info list" where
  "demo_table =
    [\<lparr>pi_type = CHG_PROTOCOL_UFCS, power_mw = 65000, max_power_mw = 100000\<rparr>,
     \<lparr>pi_type = CHG_PROTOCOL_PPS, power_mw = 80000, max_power_mw = 125000\<rparr>,
     \<lparr>pi_type = CHG_PROTOCOL_VOOC, power_mw = 0, max_power_mw = 100000\<rparr>,
     bc12_protocol, no_protocol, no_protocol]"

definition demo_surroundings :: oplus_cpa where
  "demo_surroundings =
    \<lparr>req_lock_votable = new_votable ''CPA_REQ_LOCK'' VOTE_SET_ANY (Some ()), cpa_works = [],
     current_protocol_type = 0, protocol_to_be_switched = 0, protocol_disable_mask = 0, default_protocol_type = 0,
     ready_protocol_type = 0, protocol_supported_type = 0, protocol_prio_table = demo_table, def_req = False,
     request_pending = False, started = False, request_locked = False, status_reset = False, wired_online = False,
     cc_detect = 0, wired_type = OPLUS_CHG_USB_TYPE_UNKNOWN, wired_real_chg_type = OPLUS_CHG_USB_TYPE_UNKNOWN,
     vooc_started = False, vooc_online = False, vooc_charging = False, vooc_online_keep = False, vooc_sid = 0,
     ufcs_online = False, ufcs_charging = False, ufcs_oplus_adapter = False, ufcs_adapter_id = 0, pps_online = False,
     pps_online_keep = False, pps_charging = False, pps_oplus_adapter = False, retention_topic = False,
     retention_state = False, pre_retention_state = False, retention_state_ready = False, wired_present = False,
     wired_plugout_time = 0, pd_comleted = False, protocol_wait_support = False, pd_completed_ack = 0,
     protocol_wait_table = [], item_chg_type = OPLUS_CHG_USB_TYPE_UNKNOWN, item_allow = 0, item_timeout = 0, item_power = 0,
     published = [], env_real_chg_type = Some OPLUS_CHG_USB_TYPE_DCP, env_online = Some True,
     env_present = True, env_jiffies = 0, env_msg = [], env_sync = [], env_ufcs_power = 0,
     env_pps_adapter_power_mw = 0, env_pps_power_watt = 0\<rparr>"

text \<open>C12: The choice is exactly the first requested entry of the insertion-sorted priority table. So it is none exactly when
  no entry of the table was asked for, otherwise it is one that was asked for; and when the power of the chosen protocol
  is known (positive), none of the candidates has a larger known power. A chosen protocol of unknown power is not
  compared: it is taken because of its place in the table.\<close>

theorem highest_priority:
  assumes "length (protocol_prio_table cpa) = CHG_PROTOCOL_MAX"
    and "t = get_highest_priority_protocol_type cpa protocol"
  shows "t = (case filter (\<lambda>(t, _). t \<noteq> CHG_PROTOCOL_INVALID \<and> bit protocol (nat t)) (foldl prio_insert [] (prio_entries cpa)) of
        [] \<Rightarrow> CHG_PROTOCOL_INVALID | (t, _) # _ \<Rightarrow> t) \<and>
    (t = CHG_PROTOCOL_INVALID \<longleftrightarrow>
      (\<forall>e\<in>set (protocol_prio_table cpa). pi_type e = CHG_PROTOCOL_INVALID \<or> \<not> bit protocol (nat (pi_type e)))) \<and>
    (t \<noteq> CHG_PROTOCOL_INVALID \<longrightarrow> bit protocol (nat t) \<and>
      (\<exists>e\<in>set (protocol_prio_table cpa). pi_type e = t \<and>
        (0 < power_mw e \<longrightarrow>
          (\<forall>e'\<in>set (protocol_prio_table cpa). pi_type e' \<noteq> CHG_PROTOCOL_INVALID \<longrightarrow> bit protocol (nat (pi_type e')) \<longrightarrow>
             power_mw e' \<le> power_mw e))))"
proof (cases "eligible cpa protocol")
  case Nil
  then have t: "t = CHG_PROTOCOL_INVALID" by (simp add: assms(2) highest_eligible [OF assms(1)])
  have "(pi_type e, power_mw e) \<notin> set (eligible cpa protocol)" for e by (simp add: Nil)
  then have "\<forall>e\<in>set (protocol_prio_table cpa). pi_type e = CHG_PROTOCOL_INVALID \<or> \<not> bit protocol (nat (pi_type e))"
    by (auto simp: eligible_set)
  then show ?thesis using Nil t unfolding eligible_def priority_order_def by simp
next
  case (Cons x xs)
  obtain p where x: "x = (t, p)"
    using Cons assms(2) by (cases x) (simp add: highest_eligible [OF assms(1)])
  then have tp: "(t, p) \<in> set (eligible cpa protocol)" by (simp add: Cons)
  then obtain e where e: "e \<in> set (protocol_prio_table cpa)" "t = pi_type e" "p = power_mw e"
    and t: "t \<noteq> CHG_PROTOCOL_INVALID" "bit protocol (nat t)"
    by (auto simp: eligible_set)
  have "q \<le> p" if "(s, q) \<in> set (eligible cpa protocol)" "0 < p" for s q
    using that eligible_sorted [of cpa protocol] by (cases "0 < q") (auto simp: Cons x power_sorted_def)
  then have pw: "power_mw e' \<le> power_mw e" if "e' \<in> set (protocol_prio_table cpa)" "pi_type e' \<noteq> CHG_PROTOCOL_INVALID"
      "bit protocol (nat (pi_type e'))" "0 < power_mw e" for e'
    using that e(3) eligible_set [of "pi_type e'" "power_mw e'" cpa protocol] by blast
  have c: "t = (case filter (\<lambda>(t, _). t \<noteq> CHG_PROTOCOL_INVALID \<and> bit protocol (nat t)) (foldl prio_insert [] (prio_entries cpa)) of
      [] \<Rightarrow> CHG_PROTOCOL_INVALID | (t, _) # _ \<Rightarrow> t)"
    using Cons x unfolding eligible_def priority_order_def by simp
  show ?thesis
  proof (intro conjI)
    show "(t = CHG_PROTOCOL_INVALID) = (\<forall>e\<in>set (protocol_prio_table cpa). pi_type e = CHG_PROTOCOL_INVALID \<or> \<not> bit protocol (nat (pi_type e)))"
      using e t by blast
    show "t \<noteq> CHG_PROTOCOL_INVALID \<longrightarrow> bit protocol (nat t) \<and>
      (\<exists>e\<in>set (protocol_prio_table cpa). pi_type e = t \<and>
        (0 < power_mw e \<longrightarrow>
          (\<forall>e'\<in>set (protocol_prio_table cpa). pi_type e' \<noteq> CHG_PROTOCOL_INVALID \<longrightarrow> bit protocol (nat (pi_type e')) \<longrightarrow>
             power_mw e' \<le> power_mw e)))"
      using e t pw by blast
  qed (rule c)
qed

theorem highest_priority_witness:
  "get_highest_priority_protocol_type demo_surroundings 29 = CHG_PROTOCOL_PPS \<and>
   (\<exists>e\<in>set demo_table. pi_type e = CHG_PROTOCOL_PPS \<and>
      (0 < power_mw e \<longrightarrow>
        (\<forall>e'\<in>set demo_table. pi_type e' \<noteq> CHG_PROTOCOL_INVALID \<longrightarrow> bit (29 :: u32) (nat (pi_type e')) \<longrightarrow>
           power_mw e' \<le> power_mw e)))"
proof -
  have l: "length (protocol_prio_table demo_surroundings) = CHG_PROTOCOL_MAX" by code_simp
  have g: "get_highest_priority_protocol_type demo_surroundings 29 = CHG_PROTOCOL_PPS" by code_simp
  have t: "protocol_prio_table demo_surroundings = demo_table" by (simp add: demo_surroundings_def)
  show ?thesis using highest_priority [OF l refl, of 29] unfolding g t by simp
qed

text \<open>An entry of unknown power keeps its place before later ones of any power.\<close>

lemma unknown_power_chosen_first:
  "get_highest_priority_protocol_type (demo_surroundings\<lparr>protocol_prio_table :=
      [\<lparr>pi_type = CHG_PROTOCOL_VOOC, power_mw = 0, max_power_mw = 100000\<rparr>,
       \<lparr>pi_type = CHG_PROTOCOL_PD, power_mw = 18000, max_power_mw = 18000\<rparr>, no_protocol, no_protocol, no_protocol, no_protocol]\<rparr>)
    (BIT CHG_PROTOCOL_VOOC OR BIT CHG_PROTOCOL_PD) = CHG_PROTOCOL_VOOC"
  by code_simp

end
