(* ===== verification/Chg_Cpa_Invariant.thy ===== *)
theory Chg_Cpa_Invariant
  imports Chg_Priority
begin

unbundle bit_operations_syntax

text \<open>
  The invariant of the charge protocol arbiter: every operation keeps it (collection \<open>cpa\<close>), the probe
  establishes it, so every reachable state has it. The votable of the request lock stays one that the
  operations of the voter produce, and the cached lock state is its result. The last section shows
  which protocol a step can make the current one.
\<close>

section \<open>The invariant\<close>

definition entry_ok :: "oplus_cpa_protocol_info \<Rightarrow> bool" where
  "entry_ok e \<longleftrightarrow> (pi_type e = CHG_PROTOCOL_INVALID \<or> valid_type (pi_type e)) \<and>
     0 \<le> max_power_mw e \<and> power_mw e \<le> max_power_mw e"

text \<open>The votable of the lock is one its operations produce, and the cached lock state is its result.\<close>

definition lock_inv :: "unit votable \<Rightarrow> bool \<Rightarrow> bool" where
  "lock_inv v locked \<longleftrightarrow> vote_reachable lock_env v \<and> v_type v = VOTE_SET_ANY \<and> callback v \<noteq> None \<and>
     \<not> force_active v \<and> override_result v = - EINVAL \<and> locked = (effective_result v \<noteq> 0)"

definition cpa_inv :: "oplus_cpa \<Rightarrow> bool" where
  "cpa_inv cpa \<longleftrightarrow> (current_protocol_type cpa = CHG_PROTOCOL_INVALID \<or> valid_type (current_protocol_type cpa)) \<and>
     distinct (cpa_works cpa) \<and> length (protocol_prio_table cpa) = CHG_PROTOCOL_MAX \<and>
     list_all entry_ok (protocol_prio_table cpa) \<and> lock_inv (req_lock_votable cpa) (request_locked cpa)"

named_theorems cpa \<open>operations that keep the invariant of the arbiter\<close>

lemma cpa_inv_irrelevant [simp]:
  "cpa_inv (cpa\<lparr>protocol_to_be_switched := x0\<rparr>) = cpa_inv cpa" "cpa_inv (cpa\<lparr>protocol_disable_mask := x1\<rparr>) = cpa_inv cpa"
  "cpa_inv (cpa\<lparr>default_protocol_type := x2\<rparr>) = cpa_inv cpa" "cpa_inv (cpa\<lparr>ready_protocol_type := x3\<rparr>) = cpa_inv cpa"
  "cpa_inv (cpa\<lparr>protocol_supported_type := x4\<rparr>) = cpa_inv cpa" "cpa_inv (cpa\<lparr>def_req := x5\<rparr>) = cpa_inv cpa"
  "cpa_inv (cpa\<lparr>request_pending := x6\<rparr>) = cpa_inv cpa" "cpa_inv (cpa\<lparr>started := x7\<rparr>) = cpa_inv cpa"
  "cpa_inv (cpa\<lparr>status_reset := x8\<rparr>) = cpa_inv cpa" "cpa_inv (cpa\<lparr>wired_online := x9\<rparr>) = cpa_inv cpa"
  "cpa_inv (cpa\<lparr>cc_detect := x10\<rparr>) = cpa_inv cpa" "cpa_inv (cpa\<lparr>wired_type := x11\<rparr>) = cpa_inv cpa"
  "cpa_inv (cpa\<lparr>wired_real_chg_type := x12\<rparr>) = cpa_inv cpa" "cpa_inv (cpa\<lparr>vooc_started := x13\<rparr>) = cpa_inv cpa"
  "cpa_inv (cpa\<lparr>vooc_online := x14\<rparr>) = cpa_inv cpa" "cpa_inv (cpa\<lparr>vooc_charging := x15\<rparr>) = cpa_inv cpa"
  "cpa_inv (cpa\<lparr>vooc_online_keep := x16\<rparr>) = cpa_inv cpa" "cpa_inv (cpa\<lparr>vooc_sid := x17\<rparr>) = cpa_inv cpa"
  "cpa_inv (cpa\<lparr>ufcs_online := x18\<rparr>) = cpa_inv cpa" "cpa_inv (cpa\<lparr>ufcs_charging := x19\<rparr>) = cpa_inv cpa"
  "cpa_inv (cpa\<lparr>ufcs_oplus_adapter := x20\<rparr>) = cpa_inv cpa" "cpa_inv (cpa\<lparr>ufcs_adapter_id := x21\<rparr>) = cpa_inv cpa"
  "cpa_inv (cpa\<lparr>pps_online := x22\<rparr>) = cpa_inv cpa" "cpa_inv (cpa\<lparr>pps_online_keep := x23\<rparr>) = cpa_inv cpa"
  "cpa_inv (cpa\<lparr>pps_charging := x24\<rparr>) = cpa_inv cpa" "cpa_inv (cpa\<lparr>pps_oplus_adapter := x25\<rparr>) = cpa_inv cpa"
  "cpa_inv (cpa\<lparr>retention_topic := x26\<rparr>) = cpa_inv cpa" "cpa_inv (cpa\<lparr>retention_state := x27\<rparr>) = cpa_inv cpa"
  "cpa_inv (cpa\<lparr>pre_retention_state := x28\<rparr>) = cpa_inv cpa" "cpa_inv (cpa\<lparr>retention_state_ready := x29\<rparr>) = cpa_inv cpa"
  "cpa_inv (cpa\<lparr>wired_present := x30\<rparr>) = cpa_inv cpa" "cpa_inv (cpa\<lparr>wired_plugout_time := x31\<rparr>) = cpa_inv cpa"
  "cpa_inv (cpa\<lparr>pd_comleted := x32\<rparr>) = cpa_inv cpa" "cpa_inv (cpa\<lparr>protocol_wait_support := x33\<rparr>) = cpa_inv cpa"
  "cpa_inv (cpa\<lparr>pd_completed_ack := x34\<rparr>) = cpa_inv cpa" "cpa_inv (cpa\<lparr>protocol_wait_table := x35\<rparr>) = cpa_inv cpa"
  "cpa_inv (cpa\<lparr>published := x36\<rparr>) = cpa_inv cpa" "cpa_inv (cpa\<lparr>env_real_chg_type := x37\<rparr>) = cpa_inv cpa"
  "cpa_inv (cpa\<lparr>env_online := x38\<rparr>) = cpa_inv cpa" "cpa_inv (cpa\<lparr>env_present := x39\<rparr>) = cpa_inv cpa"
  "cpa_inv (cpa\<lparr>env_jiffies := x40\<rparr>) = cpa_inv cpa" "cpa_inv (cpa\<lparr>env_msg := x41\<rparr>) = cpa_inv cpa"
  "cpa_inv (cpa\<lparr>env_sync := x42\<rparr>) = cpa_inv cpa" "cpa_inv (cpa\<lparr>env_ufcs_power := x43\<rparr>) = cpa_inv cpa"
  "cpa_inv (cpa\<lparr>env_pps_adapter_power_mw := x44\<rparr>) = cpa_inv cpa" "cpa_inv (cpa\<lparr>env_pps_power_watt := x45\<rparr>) = cpa_inv cpa"
  "cpa_inv (cpa\<lparr>item_chg_type := x46\<rparr>) = cpa_inv cpa" "cpa_inv (cpa\<lparr>item_allow := x47\<rparr>) = cpa_inv cpa"
  "cpa_inv (cpa\<lparr>item_timeout := x48\<rparr>) = cpa_inv cpa" "cpa_inv (cpa\<lparr>item_power := x49\<rparr>) = cpa_inv cpa"
  by (simp_all add: cpa_inv_def)

lemmas item_updates = send_item_def oplus_cpa_update_chg_type_def oplus_cpa_update_allow_def
  oplus_cpa_update_timeout_def oplus_cpa_update_power_def

lemma valid_types: "valid_type t \<longleftrightarrow> t \<in> {0, 1, 2, 3, 4, 5}"
  by (auto simp: valid_type_def)

lemma inv_type: "cpa_inv cpa \<Longrightarrow> t = CHG_PROTOCOL_INVALID \<or> valid_type t \<Longrightarrow> cpa_inv (cpa\<lparr>current_protocol_type := t\<rparr>)"
  by (simp add: cpa_inv_def)

lemma inv_works [cpa]:
  "cpa_inv cpa \<Longrightarrow> cpa_inv (schedule_work w cpa)" "cpa_inv cpa \<Longrightarrow> cpa_inv (cancel_work w cpa)"
  by (auto simp: cpa_inv_def schedule_work_def cancel_work_def)

lemma inv_publish [cpa]: "cpa_inv cpa \<Longrightarrow> cpa_inv (snd (publish i cpa))"
  by (cases i) (auto simp: publish_def item_updates Let_def split: list.split)

lemma inv_start [cpa]: "cpa_inv cpa \<Longrightarrow> cpa_inv (snd (oplus_cpa_switch_start t cpa))"
  by (simp add: oplus_cpa_switch_start_def cpa)

lemma inv_publish_allow [cpa]: "cpa_inv cpa \<Longrightarrow> cpa_inv (snd (publish_allow cpa))"
  using inv_publish [of cpa CPA_ITEM_ALLOW] inv_start
  by (auto simp: publish_allow_def case_prod_unfold Let_def split: list.split)

lemma inv_set_current [cpa]:
  "cpa_inv cpa \<Longrightarrow> t = CHG_PROTOCOL_INVALID \<or> valid_type t \<Longrightarrow> cpa_inv (snd (oplus_cpa_set_current_protocol_type t cpa))"
  by (auto simp: oplus_cpa_set_current_protocol_type_def case_prod_unfold Let_def cpa inv_type)

lemma inv_do_identify [cpa]: "cpa_inv cpa \<Longrightarrow> cpa_inv (snd (do_protocol_identify_request t cpa))"
  by (simp add: do_protocol_identify_request_def cpa)

lemma inv_identify [cpa]: "cpa_inv cpa \<Longrightarrow> cpa_inv (snd (protocol_identify_request m cpa))"
  by (simp add: protocol_identify_request_def Let_def cpa)

lemma inv_request_default [cpa]: "cpa_inv cpa \<Longrightarrow> cpa_inv (request_default cpa)"
  using inv_identify [of "cpa\<lparr>def_req := True\<rparr>" "default_protocol_type cpa"]
  by (auto simp: request_default_def case_prod_unfold Let_def)

lemma inv_switch_work [cpa]: "cpa_inv cpa \<Longrightarrow> cpa_inv (oplus_cpa_protocol_switch_work cpa)"
  by (simp add: oplus_cpa_protocol_switch_work_def case_prod_unfold Let_def cpa)

lemma inv_end_work [cpa]: "cpa_inv cpa \<Longrightarrow> cpa_inv (oplus_cpa_switch_end_work cpa)"
  by (simp add: oplus_cpa_switch_end_work_def Let_def cpa)

lemma inv_default_request [cpa]: "cpa_inv cpa \<Longrightarrow> cpa_inv (default_request_on_type cpa)"
  by (simp add: default_request_on_type_def Let_def cpa)

lemma inv_type_change [cpa]: "cpa_inv cpa \<Longrightarrow> cpa_inv (oplus_cpa_chg_type_change_work cpa)"
  by (simp add: oplus_cpa_chg_type_change_work_def on_type_change_def Let_def cpa)

lemma inv_small_works [cpa]:
  "cpa_inv cpa \<Longrightarrow> cpa_inv (oplus_cpa_fast_chg_type_change_work cpa)"
  "cpa_inv cpa \<Longrightarrow> cpa_inv (oplus_cpa_protocol_switch_timeout_work cpa)"
  by (simp_all add: oplus_cpa_fast_chg_type_change_work_def oplus_cpa_protocol_switch_timeout_work_def cpa)

lemma prio_index_less: "prio_index cpa t = Some i \<Longrightarrow> i < CHG_PROTOCOL_MAX \<and> pi_type (protocol_prio_table cpa ! i) = t"
  by (auto simp: prio_index_def find_Some_iff simp del: upt_conv_Cons)

lemma inv_entry_power:
  assumes "cpa_inv cpa" and "i < CHG_PROTOCOL_MAX" and "p \<le> max_power_mw (protocol_prio_table cpa ! i)"
  shows "cpa_inv (set_entry_power i p cpa)"
proof -
  have "entry_ok (protocol_prio_table cpa ! i)" using assms(1,2) by (simp add: cpa_inv_def list_all_length)
  then have "entry_ok ((protocol_prio_table cpa ! i)\<lparr>power_mw := p\<rparr>)" using assms(3) by (simp add: entry_ok_def)
  then show ?thesis
    using assms(1) by (auto simp: cpa_inv_def set_entry_power_def list_all_iff dest!: set_update_subset_insert [THEN subsetD])
qed

lemma entry_max: "cpa_inv cpa \<Longrightarrow> i < CHG_PROTOCOL_MAX \<Longrightarrow> 0 \<le> max_power_mw (protocol_prio_table cpa ! i)"
  by (simp add: cpa_inv_def list_all_length entry_ok_def)

lemma inv_set_power [cpa]: "cpa_inv cpa \<Longrightarrow> cpa_inv (snd (oplus_cpa_protocol_set_power t p cpa))"
  by (auto simp: oplus_cpa_protocol_set_power_def Let_def split: option.split dest!: prio_index_less
      intro!: inv_publish inv_entry_power)

lemma inv_clear_power [cpa]: "cpa_inv cpa \<Longrightarrow> cpa_inv (snd (oplus_cpa_protocol_clear_power t cpa))"
  by (auto simp: oplus_cpa_protocol_clear_power_def split: option.split dest!: prio_index_less
      intro!: inv_entry_power entry_max)

lemma inv_clear_all [cpa]: "cpa_inv cpa \<Longrightarrow> cpa_inv (clear_all_powers cpa)"
proof -
  have "cpa_inv cpa \<Longrightarrow> cpa_inv (foldl (\<lambda>cpa i. if pi_type (protocol_prio_table cpa ! i) \<noteq> CHG_PROTOCOL_INVALID
        then snd (oplus_cpa_protocol_clear_power (pi_type (protocol_prio_table cpa ! i)) cpa) else cpa) cpa is)" for "is" :: "nat list"
    by (induction "is" arbitrary: cpa) (simp_all add: cpa)
  then show "cpa_inv cpa \<Longrightarrow> cpa_inv (clear_all_powers cpa)" by (simp only: clear_all_powers_def)
qed

lemma inv_offline [cpa]: "cpa_inv cpa \<Longrightarrow> cpa_inv (oplus_cpa_wired_offline_work cpa)"
  by (simp add: oplus_cpa_wired_offline_work_def Let_def cpa)

lemma inv_online [cpa]: "cpa_inv cpa \<Longrightarrow> cpa_inv (oplus_cpa_wired_online_work hz cpa)"
  by (simp add: oplus_cpa_wired_online_work_def flush_wired_offline_def Let_def cpa)

lemma inv_callbacks [cpa]:
  "cpa_inv cpa \<Longrightarrow> cpa_inv (oplus_cpa_wired_subs_callback wi cpa)"
  "cpa_inv cpa \<Longrightarrow> cpa_inv (oplus_cpa_vooc_subs_callback vi cpa)"
  "cpa_inv cpa \<Longrightarrow> cpa_inv (oplus_cpa_ufcs_subs_callback ui cpa)"
  "cpa_inv cpa \<Longrightarrow> cpa_inv (oplus_cpa_pps_subs_callback pi cpa)"
  "cpa_inv cpa \<Longrightarrow> cpa_inv (oplus_cpa_retention_subs_callback ri cpa)"
  by (cases wi; simp add: wired_item_online_def oplus_cpa_pd_completed_set_def Let_def cpa)
    ((cases vi; simp add: cpa), (cases ui; simp add: cpa split: option.split), (cases pi; simp add: cpa split: option.split),
     (cases ri; simp add: retention_item_connect_status_def Let_def cpa))

lemma inv_topic [cpa]: "cpa_inv cpa \<Longrightarrow> cpa_inv (topic_callback ev cpa)"
  by (cases ev) (simp_all add: cpa)

section \<open>The lock\<close>

lemma identify_lock [simp]:
  "req_lock_votable (snd (protocol_identify_request m cpa)) = req_lock_votable cpa"
  "request_locked (snd (protocol_identify_request m cpa)) = request_locked cpa"
  by (simp_all add: protocol_identify_request_def schedule_work_def Let_def)

lemma request_default_lock [simp]:
  "req_lock_votable (request_default cpa) = req_lock_votable cpa"
  "request_locked (request_default cpa) = request_locked cpa"
  by (simp_all add: request_default_def case_prod_unfold Let_def)

lemma callback_lock [simp]:
  "req_lock_votable (oplus_cpa_request_lock_vote_callback l cpa) = req_lock_votable cpa"
  "request_locked (oplus_cpa_request_lock_vote_callback l cpa) = (l \<noteq> 0)"
  by (auto simp: oplus_cpa_request_lock_vote_callback_def Let_def)

text \<open>A vote on the lock runs the callback exactly when the result changes.\<close>

lemma vote_lock_effect:
  assumes "vote_lock (Some c) enabled val cpa = Inr (rc, cpa')" and "vote_reachable lock_env (req_lock_votable cpa)"
    and "callback (req_lock_votable cpa) \<noteq> None" "\<not> force_active (req_lock_votable cpa)"
    "override_result (req_lock_votable cpa) = - EINVAL"
  obtains v where "vote lock_env (req_lock_votable cpa) (Some c) enabled val False = Inr (rc, v)"
    and "cpa' = (if effective_result v \<noteq> effective_result (req_lock_votable cpa) \<or> voted_on v \<and> \<not> voted_on (req_lock_votable cpa)
         then oplus_cpa_request_lock_vote_callback (effective_result v) (cpa\<lparr>req_lock_votable := v\<rparr>)
         else cpa\<lparr>req_lock_votable := v\<rparr>)"
proof -
  obtain v where v: "vote lock_env (req_lock_votable cpa) (Some c) enabled val False = Inr (rc, v)"
    and c: "cpa' = fold (\<lambda>(result, _, _). oplus_cpa_request_lock_vote_callback result)
       (drop (length (callback_log (req_lock_votable cpa))) (callback_log v)) (cpa\<lparr>req_lock_votable := v\<rparr>)"
    using assms(1) by (auto simp: vote_lock_def split: sum.splits)
  show thesis by (rule that [OF v]) (use c vote_log [OF assms(2) v] assms(3-5) in auto)
qed

lemma vote_lock_inv:
  assumes "vote_lock (Some c) enabled val cpa = Inr (rc, cpa')" and "lock_inv (req_lock_votable cpa) (request_locked cpa)"
  shows "lock_inv (req_lock_votable cpa') (request_locked cpa')"
proof -
  have r: "vote_reachable lock_env (req_lock_votable cpa)" "callback (req_lock_votable cpa) \<noteq> None"
    "\<not> force_active (req_lock_votable cpa)" "override_result (req_lock_votable cpa) = - EINVAL"
    using assms(2) by (simp_all add: lock_inv_def)
  obtain v where v: "vote lock_env (req_lock_votable cpa) (Some c) enabled val False = Inr (rc, v)"
    and c: "cpa' = (if effective_result v \<noteq> effective_result (req_lock_votable cpa) \<or> voted_on v \<and> \<not> voted_on (req_lock_votable cpa)
         then oplus_cpa_request_lock_vote_callback (effective_result v) (cpa\<lparr>req_lock_votable := v\<rparr>)
         else cpa\<lparr>req_lock_votable := v\<rparr>)"
    by (rule vote_lock_effect [OF assms(1) r])
  note s = voted_reachable [OF r(1) v]
  then show ?thesis using assms(2) c by (auto simp: lock_inv_def same_setup_def)
qed

lemma callback_inv:
  assumes "cpa_inv (cpa\<lparr>request_locked := (l \<noteq> 0)\<rparr>)" shows "cpa_inv (oplus_cpa_request_lock_vote_callback l cpa)"
proof (cases "request_locked cpa = (l \<noteq> 0)")
  case True
  then have "cpa\<lparr>request_locked := (l \<noteq> 0)\<rparr> = cpa" by (cases cpa) simp
  then have "cpa_inv cpa" using assms by (simp only:)
  then show ?thesis using True by (simp add: oplus_cpa_request_lock_vote_callback_def)
next
  case False
  then show ?thesis using assms
    by (cases "l = 0") (simp_all add: oplus_cpa_request_lock_vote_callback_def Let_def cpa)
qed

lemma inv_vote_lock:
  assumes "vote_lock (Some c) enabled val cpa = Inr (rc, cpa')" and "cpa_inv cpa"
  shows "cpa_inv cpa'"
proof -
  have l: "lock_inv (req_lock_votable cpa) (request_locked cpa)" using assms(2) by (simp add: cpa_inv_def)
  note l' = vote_lock_inv [OF assms(1) l]
  obtain v where c: "cpa' = oplus_cpa_request_lock_vote_callback (effective_result v) (cpa\<lparr>req_lock_votable := v\<rparr>) \<or>
      cpa' = cpa\<lparr>req_lock_votable := v\<rparr>"
    by (rule vote_lock_effect [OF assms(1)]) (use l in \<open>auto simp: lock_inv_def split: if_splits\<close>)
  then show ?thesis
  proof
    assume e: "cpa' = oplus_cpa_request_lock_vote_callback (effective_result v) (cpa\<lparr>req_lock_votable := v\<rparr>)"
    then have "lock_inv v (effective_result v \<noteq> 0)" using l' by simp
    then show ?thesis unfolding e using assms(2) by (intro callback_inv) (simp add: cpa_inv_def)
  next
    assume "cpa' = cpa\<lparr>req_lock_votable := v\<rparr>"
    then show ?thesis using assms(2) l' by (simp add: cpa_inv_def)
  qed
qed

lemma map_sum_Inr: "map_sum f g x = Inr y \<longleftrightarrow> (\<exists>z. x = Inr z \<and> y = g z)"
  by (cases x) auto

lemma step_inv: "cpa_step hz cpa cpa' \<Longrightarrow> cpa_inv cpa \<Longrightarrow> cpa_inv cpa'"
proof (induction rule: cpa_step.induct)
  case (work w cpa cpa')
  then have "cpa_inv (cancel_work w cpa)" by (simp add: cpa)
  then show ?case using work(2)
    by (cases w) (auto simp: cpa oplus_cpa_protocol_ready_timeout_work_def map_sum_Inr dest: inv_vote_lock)
next
  case (ready type cpa rc cpa')
  then show ?case
    by (auto simp: oplus_cpa_protocol_ready_def Let_def cpa map_sum_Inr split: if_splits dest!: inv_vote_lock)
next
  case (lock name cpa rc cpa')
  then show ?case by (auto simp: oplus_cpa_request_lock_def split: if_splits dest: inv_vote_lock)
next
  case (unlock name cpa rc cpa')
  then show ?case by (auto simp: oplus_cpa_request_unlock_def split: if_splits dest: inv_vote_lock)
qed (simp_all add: cpa oplus_cpa_subscribe_wired_topic_def oplus_cpa_subscribe_vooc_topic_def
    oplus_cpa_subscribe_ufcs_topic_def oplus_cpa_subscribe_pps_topic_def oplus_cpa_subscribe_retention_topic_def
    oplus_cpa_request_def oplus_cpa_switch_end_def oplus_cpa_protocol_disable_def oplus_cpa_protocol_enable_def
    Let_def split: option.split)

section \<open>Probe\<close>

text \<open>The cells of the protocol list stay below two megawatts, so that no power overflows.\<close>

definition dt_sane :: "u32 list option \<Rightarrow> bool" where
  "dt_sane cells \<longleftrightarrow> (\<forall>w\<in>set (the_cells cells). unat w \<le> 2147483)"

lemma watt_in_range:
  assumes "unat (w :: u32) \<le> 2147483" shows "0 \<le> sint (w * 1000)"
proof -
  have "unat w * unat (1000 :: u32) < 2 ^ LENGTH(32)" using assms by simp
  then have "unat (w * 1000) = unat w * 1000" using unat_mult_lem [of w 1000] by simp
  then have "unat (w * 1000) div 2 ^ 31 = 0" using assms by simp
  then have "unat (drop_bit 31 (w * 1000)) = 0"
    using trans [OF unat_drop_bit_eq drop_bit_eq_div, of 31 "w * 1000"] by simp
  then have "drop_bit 31 (w * 1000) = 0" by (simp only: unat_eq_zero)
  then have "\<not> bit (w * 1000) 31" by (simp only: bit_iff_odd_drop_bit even_zero not_not)
  then show ?thesis by (simp add: sint_uint signed_take_bit_nonnegative_iff bit_uint_iff)
qed

lemma read_cell_in: "read_cell cells i = Some w \<Longrightarrow> w \<in> set cells"
  by (auto simp: read_cell_def split: if_splits)

lemma list_all_update: "list_all P xs \<Longrightarrow> P x \<Longrightarrow> list_all P (xs[i := x])"
  by (auto simp: list_all_iff dest!: set_update_subset_insert [THEN subsetD])

lemma parse_protocol_ok:
  assumes "\<forall>w\<in>set cells. unat w \<le> 2147483" and "list_all entry_ok (fst acc)"
  shows "list_all entry_ok (fst (parse_protocol cells acc i)) \<and> length (fst (parse_protocol cells acc i)) = length (fst acc)"
  using assms watt_in_range
  by (auto simp: parse_protocol_def case_prod_unfold Let_def no_protocol_def entry_ok_def valid_type_def
      split: option.split intro!: list_all_update dest!: read_cell_in simp del: of_nat_unat)

lemma parse_wait_ok:
  assumes "list_all entry_ok (snd acc)" and "i < length (snd acc)"
  shows "list_all entry_ok (snd (parse_wait cells acc i)) \<and> length (snd (parse_wait cells acc i)) = length (snd acc)"
  using assms
  by (auto simp: parse_wait_def case_prod_unfold Let_def entry_ok_def list_all_length
      split: option.split simp del: nth_list_update) (auto simp: nth_list_update)

lemma foldl_invariant: "P a \<Longrightarrow> (\<And>a i. i \<in> set is \<Longrightarrow> P a \<Longrightarrow> P (f a i)) \<Longrightarrow> P (foldl f a is)"
  by (induction "is" arbitrary: a) simp_all

lemma pair_count_le: "pair_count cells \<le> CHG_PROTOCOL_MAX"
  by (simp add: pair_count_def split: option.split)

definition table_good :: "oplus_cpa_protocol_info list \<Rightarrow> bool" where
  "table_good es \<longleftrightarrow> length es = CHG_PROTOCOL_MAX \<and> list_all entry_ok es"

lemma parse_dt_table:
  assumes "dt_sane pl" and "table_good (protocol_prio_table cpa)"
  shows "table_good (protocol_prio_table (oplus_cpa_parse_dt pl dl wl cpa))"
proof -
  let ?p = "foldl (parse_protocol (the_cells pl)) (protocol_prio_table cpa, protocol_supported_type cpa) [0..<pair_count pl]"
  have p: "table_good (fst ?p)"
    using parse_protocol_ok [of "the_cells pl"] assms
    by (intro foldl_invariant [of "\<lambda>acc. table_good (fst acc)"]) (auto simp: table_good_def dt_sane_def)
  let ?t = "if pair_count pl < CHG_PROTOCOL_MAX
     then take (pair_count pl) (fst ?p) @ bc12_protocol # replicate (CHG_PROTOCOL_MAX - pair_count pl - 1) no_protocol else fst ?p"
  have "table_good ?t"
    using p by (auto simp: table_good_def list_all_iff bc12_protocol_def no_protocol_def entry_ok_def valid_type_def
        dest: in_set_takeD)
  then have "table_good (snd (foldl (parse_wait (the_cells wl)) ([], ?t) [0..<pair_count wl]))"
    using parse_wait_ok [of _ _ "the_cells wl"] pair_count_le [of wl]
    by (intro foldl_invariant [of "\<lambda>acc. table_good (snd acc)"]) (auto simp: table_good_def)
  then show ?thesis by (simp add: oplus_cpa_parse_dt_def case_prod_unfold Let_def)
qed

inductive cpa_reachable :: "u64 \<Rightarrow> oplus_cpa \<Rightarrow> bool" for hz where
  probed: "dt_sane pl \<Longrightarrow> oplus_cpa_probe True pl dl wl
      (Inr ((new_votable ''CPA_REQ_LOCK'' VOTE_SET_ANY (Some ()))\<lparr>alloc_ok := a\<rparr>)) 0 env = Inr (0, Some cpa) \<Longrightarrow> cpa_reachable hz cpa"
| stepped: "cpa_reachable hz cpa \<Longrightarrow> cpa_step hz cpa cpa' \<Longrightarrow> cpa_reachable hz cpa'"

lemma new_lock_inv: "lock_inv ((new_votable n VOTE_SET_ANY (Some ()))\<lparr>alloc_ok := a\<rparr>) False"
  unfolding lock_inv_def
  by (intro conjI vote_reachable.created) (simp_all add: new_votable_def)

lemma cpa_reachable_inv: "cpa_reachable hz cpa \<Longrightarrow> cpa_inv cpa"
proof (induction rule: cpa_reachable.induct)
  case (probed pl dl wl a env cpa)
  let ?v = "(new_votable ''CPA_REQ_LOCK'' VOTE_SET_ANY (Some ()))\<lparr>alloc_ok := a\<rparr>"
  let ?c = "oplus_cpa_parse_dt pl dl wl (zeroed_cpa env)"
  have "table_good (protocol_prio_table ?c)"
    using probed(1) by (intro parse_dt_table) (simp_all add: zeroed_cpa_def table_good_def list_all_iff entry_ok_def valid_type_def)
  moreover have "current_protocol_type ?c = CHG_PROTOCOL_INVALID" "cpa_works ?c = []" "\<not> request_locked ?c"
    by (simp_all add: oplus_cpa_parse_dt_def case_prod_unfold Let_def zeroed_cpa_def)
  ultimately have "cpa_inv (?c\<lparr>req_lock_votable := ?v\<rparr>)"
    using new_lock_inv by (simp add: cpa_inv_def table_good_def)
  moreover obtain rc cpa2 where "vote_lock (Some DEF_VOTER) True 1 (?c\<lparr>req_lock_votable := ?v\<rparr>) = Inr (rc, cpa2)"
    and "cpa = schedule_work Ready_timeout cpa2"
    using probed(2) by (auto simp: oplus_cpa_probe_def Let_def split: sum.splits)
  ultimately show ?case using inv_vote_lock by (auto simp: cpa)
qed (rule step_inv)

section \<open>Who runs\<close>

lemma current_publish [simp]: "current_protocol_type (snd (publish i cpa)) = current_protocol_type cpa"
  by (cases i) (simp_all add: publish_def item_updates Let_def split: list.split)

lemma current_works [simp]:
  "current_protocol_type (schedule_work w cpa) = current_protocol_type cpa"
  "current_protocol_type (cancel_work w cpa) = current_protocol_type cpa"
  by (simp_all add: schedule_work_def cancel_work_def)

lemma current_start [simp]: "current_protocol_type (snd (oplus_cpa_switch_start t cpa)) = current_protocol_type cpa"
  by (simp add: oplus_cpa_switch_start_def)

lemma current_publish_allow [simp]: "current_protocol_type (snd (publish_allow cpa)) = current_protocol_type cpa"
  using current_publish [of CPA_ITEM_ALLOW cpa]
  by (auto simp: publish_allow_def case_prod_unfold Let_def simp del: current_publish split: list.split)

lemma current_set [simp]: "current_protocol_type (snd (oplus_cpa_set_current_protocol_type t cpa)) = t"
  by (auto simp: oplus_cpa_set_current_protocol_type_def case_prod_unfold Let_def)

lemma current_identify [simp]:
  "current_protocol_type (snd (protocol_identify_request m cpa)) = current_protocol_type cpa"
  by (simp add: protocol_identify_request_def Let_def)

lemma current_default [simp]: "current_protocol_type (request_default cpa) = current_protocol_type cpa"
  by (simp add: request_default_def case_prod_unfold Let_def)

lemma current_callback [simp]:
  "current_protocol_type (oplus_cpa_request_lock_vote_callback l cpa) = current_protocol_type cpa"
  by (simp add: oplus_cpa_request_lock_vote_callback_def Let_def)

lemma current_vote_lock:
  "vote_lock c en val cpa = Inr (rc, cpa') \<Longrightarrow> current_protocol_type cpa' = current_protocol_type cpa"
proof -
  have "current_protocol_type (fold (\<lambda>(result, _, _). oplus_cpa_request_lock_vote_callback result) xs cpa) = current_protocol_type cpa"
    for xs :: "(int \<times> string option \<times> bool) list" and cpa
    by (induction xs arbitrary: cpa) auto
  then show "vote_lock c en val cpa = Inr (rc, cpa') \<Longrightarrow> current_protocol_type cpa' = current_protocol_type cpa"
    by (auto simp: vote_lock_def split: sum.splits)
qed

lemma current_power [simp]:
  "current_protocol_type (snd (oplus_cpa_protocol_set_power t p cpa)) = current_protocol_type cpa"
  "current_protocol_type (snd (oplus_cpa_protocol_clear_power t cpa)) = current_protocol_type cpa"
  by (simp_all add: oplus_cpa_protocol_set_power_def oplus_cpa_protocol_clear_power_def set_entry_power_def Let_def
      split: option.split)

lemma current_clear_all [simp]: "current_protocol_type (clear_all_powers cpa) = current_protocol_type cpa"
  unfolding clear_all_powers_def
  by (rule foldl_invariant [where P = "\<lambda>c. current_protocol_type c = current_protocol_type cpa"]) simp_all

lemma current_offline:
  "current_protocol_type (oplus_cpa_wired_offline_work cpa) \<in> {current_protocol_type cpa, CHG_PROTOCOL_INVALID}"
  by (simp add: oplus_cpa_wired_offline_work_def Let_def)

lemma BIT_inject: "valid_type s \<Longrightarrow> valid_type t \<Longrightarrow> BIT s = BIT t \<longleftrightarrow> s = t"
  by (auto simp: BIT_def valid_types)

text \<open>What a step may do to the current protocol.\<close>

definition may_follow :: "int \<Rightarrow> int \<Rightarrow> bool" where
  "may_follow s t \<longleftrightarrow> t = s \<or> t = CHG_PROTOCOL_INVALID \<or> s = CHG_PROTOCOL_INVALID \<or> s = CHG_PROTOCOL_BC12 \<or>
     s = CHG_PROTOCOL_PD \<and> t = CHG_PROTOCOL_PPS"

lemma may_follow_do_identify:
  "may_follow (current_protocol_type cpa) (current_protocol_type (snd (do_protocol_identify_request t cpa)))"
  using BIT_inject [of t CHG_PROTOCOL_PPS]
  by (auto simp: do_protocol_identify_request_def may_follow_def busy_for_def oplus_cpa_is_allow_switch_def valid_types)

lemma may_follow_switch_work:
  "may_follow (current_protocol_type cpa) (current_protocol_type (oplus_cpa_protocol_switch_work cpa))"
  using may_follow_do_identify [of "cancel_work Switch_timeout cpa" "switch_target cpa"]
  by (auto simp: oplus_cpa_protocol_switch_work_def case_prod_unfold Let_def may_follow_def)

lemma may_follow_refl [simp]: "may_follow s s"
  by (simp add: may_follow_def)

lemma current_reports [simp]:
  "current_protocol_type (oplus_cpa_fast_chg_type_change_work cpa) = current_protocol_type cpa"
  "current_protocol_type (oplus_cpa_protocol_switch_timeout_work cpa) = current_protocol_type cpa"
  by (simp_all add: oplus_cpa_fast_chg_type_change_work_def oplus_cpa_protocol_switch_timeout_work_def)

lemma current_type_change [simp]:
  "current_protocol_type (oplus_cpa_chg_type_change_work cpa) = current_protocol_type cpa"
  by (simp add: oplus_cpa_chg_type_change_work_def on_type_change_def default_request_on_type_def Let_def)

lemma current_switch_end [simp]: "current_protocol_type (oplus_cpa_switch_end_work cpa) = CHG_PROTOCOL_INVALID"
  by (simp add: oplus_cpa_switch_end_work_def Let_def)

lemma current_flush:
  "current_protocol_type (flush_wired_offline cpa) \<in> {current_protocol_type cpa, CHG_PROTOCOL_INVALID}"
  using current_offline [of "cancel_work Wired_offline cpa"] by (simp add: flush_wired_offline_def)

lemma current_online:
  "current_protocol_type (oplus_cpa_wired_online_work hz cpa) \<in> {current_protocol_type cpa, CHG_PROTOCOL_INVALID}"
proof -
  obtain c where "current_protocol_type c = current_protocol_type cpa"
    and "current_protocol_type (oplus_cpa_wired_online_work hz cpa) = current_protocol_type (flush_wired_offline c)"
    by (rule that [of "if status_reset cpa then cpa
         else if retention_topic cpa then
           if cc_detect cpa = CC_DETECT_NOTPLUG \<or> oplus_wired_offline_clear_cpa_queue hz cpa
           then schedule_work Wired_offline cpa else cpa
         else schedule_work Wired_offline cpa"]) (simp_all only: oplus_cpa_wired_online_work_def Let_def current_works if_cancel
           oplus_cpa.simps oplus_cpa.update_convs split: if_split, simp_all)
  then show ?thesis using current_flush [of c] by simp
qed

lemma may_follow_work:
  assumes "run_cpa_work hz w cpa = Inr cpa'"
  shows "may_follow (current_protocol_type cpa) (current_protocol_type cpa')"
proof -
  have *: "may_follow (current_protocol_type cpa) t" if "t \<in> {current_protocol_type cpa, CHG_PROTOCOL_INVALID}" for t
    using that by (auto simp: may_follow_def)
  show ?thesis
    using assms * [OF current_offline] * [OF current_online] may_follow_switch_work [of cpa]
    by (cases w) (auto simp: oplus_cpa_protocol_ready_timeout_work_def map_sum_Inr * dest!: current_vote_lock)
qed

lemma current_callbacks [simp]:
  "current_protocol_type (oplus_cpa_wired_subs_callback wi cpa) = current_protocol_type cpa"
  "current_protocol_type (oplus_cpa_vooc_subs_callback vi cpa) = current_protocol_type cpa"
  "current_protocol_type (oplus_cpa_ufcs_subs_callback ui cpa) = current_protocol_type cpa"
  "current_protocol_type (oplus_cpa_pps_subs_callback pi cpa) = current_protocol_type cpa"
  "current_protocol_type (oplus_cpa_retention_subs_callback ri cpa) = current_protocol_type cpa"
  by (cases wi; simp add: wired_item_online_def oplus_cpa_pd_completed_set_def Let_def)
    ((cases vi; simp), (cases ui; simp split: option.split), (cases pi; simp split: option.split),
     (cases ri; simp add: retention_item_connect_status_def Let_def))

lemma may_follow_step: "cpa_step hz cpa cpa' \<Longrightarrow> may_follow (current_protocol_type cpa) (current_protocol_type cpa')"
proof (induction rule: cpa_step.induct)
  case (work w cpa cpa')
  then show ?case using may_follow_work [of hz w "cancel_work w cpa"] by simp
next
  case (topic cpa ev)
  then show ?case
    by (cases ev) simp_all
next
  case (ready type cpa rc cpa')
  then show ?case
    by (auto simp: may_follow_def oplus_cpa_protocol_ready_def Let_def map_sum_Inr split: if_splits dest!: current_vote_lock)
next
  case (lock name cpa rc cpa')
  then show ?case by (auto simp: may_follow_def oplus_cpa_request_lock_def split: if_splits dest: current_vote_lock)
next
  case (unlock name cpa rc cpa')
  then show ?case by (auto simp: may_follow_def oplus_cpa_request_unlock_def split: if_splits dest: current_vote_lock)
qed (simp_all add: may_follow_def oplus_cpa_subscribe_wired_topic_def oplus_cpa_subscribe_vooc_topic_def
    oplus_cpa_subscribe_ufcs_topic_def oplus_cpa_subscribe_pps_topic_def oplus_cpa_subscribe_retention_topic_def
    oplus_cpa_request_def oplus_cpa_switch_end_def oplus_cpa_protocol_disable_def oplus_cpa_protocol_enable_def
    Let_def split: option.split)

end
