(* ===== verification/Chg_Arbitration.thy ===== *)
theory Chg_Arbitration
  imports Chg_Cpa_Invariant
begin

unbundle bit_operations_syntax

text \<open>
  Correctness of the charge protocol arbiter: the lock of the requests as a lock with many holders (an
  interface that the votable of the arbiter is shown to implement), which protocol may follow a running
  one, what the switch work and the end of a protocol leave pending, the powers, and the reset when the
  cable is unplugged.
\<close>

section \<open>The switch\<close>

lemma highest_in_table:
  assumes "length (protocol_prio_table cpa) = CHG_PROTOCOL_MAX" "get_highest_priority_protocol_type cpa m \<noteq> CHG_PROTOCOL_INVALID"
  shows "\<exists>e\<in>set (protocol_prio_table cpa). pi_type e = get_highest_priority_protocol_type cpa m"
  using assms(2) eligible_set [of "fst (hd (eligible cpa m))" "snd (hd (eligible cpa m))" cpa m]
  by (auto simp: highest_eligible [OF assms(1)] split: list.splits)

lemma switch_target_valid:
  assumes "cpa_inv cpa" and "switch_target cpa \<noteq> CHG_PROTOCOL_INVALID"
  shows "valid_type (switch_target cpa)"
proof -
  have t: "switch_target cpa = get_highest_priority_protocol_type cpa (switch_candidates cpa)"
    using assms(2) by (auto simp: switch_target_def Let_def split: if_splits)
  then obtain e where "e \<in> set (protocol_prio_table cpa)" "pi_type e = switch_target cpa"
    using highest_in_table [of cpa "switch_candidates cpa"] assms by (auto simp: cpa_inv_def)
  then show ?thesis using assms by (auto simp: cpa_inv_def list_all_iff entry_ok_def)
qed

definition request_fields :: "oplus_cpa \<Rightarrow> u32 \<times> u64 \<times> bool \<times> bool \<times> bool \<times> bool \<times> bool" where
  "request_fields cpa = (protocol_to_be_switched cpa, protocol_disable_mask cpa, def_req cpa, request_locked cpa,
     wired_online cpa, retention_state cpa, env_present cpa)"

lemma fields_publish [simp]: "request_fields (snd (publish i cpa)) = request_fields cpa"
  by (cases i) (simp_all add: publish_def item_updates Let_def request_fields_def split: list.split)

lemma fields_works [simp]:
  "request_fields (schedule_work w cpa) = request_fields cpa" "request_fields (cancel_work w cpa) = request_fields cpa"
  "request_fields (cpa\<lparr>started := b\<rparr>) = request_fields cpa"
  "request_fields (cpa\<lparr>env_sync := r\<rparr>) = request_fields cpa"
  "request_fields (cpa\<lparr>current_protocol_type := t\<rparr>) = request_fields cpa"
  by (simp_all add: schedule_work_def cancel_work_def request_fields_def)

lemma fields_publish_allow [simp]: "request_fields (snd (publish_allow cpa)) = request_fields cpa"
  using fields_publish [of CPA_ITEM_ALLOW cpa]
  by (auto simp: publish_allow_def case_prod_unfold Let_def oplus_cpa_switch_start_def simp del: fields_publish split: list.split)

lemma fields_set [simp]: "request_fields (snd (oplus_cpa_set_current_protocol_type t cpa)) = request_fields cpa"
  by (auto simp: oplus_cpa_set_current_protocol_type_def case_prod_unfold Let_def)

lemma set_current_rc: "fst (oplus_cpa_set_current_protocol_type t cpa) \<in> {0, - ENOMEM}"
  by (auto simp: oplus_cpa_set_current_protocol_type_def case_prod_unfold Let_def)

lemma wired_missing_fields:
  "request_fields cpa = request_fields cpa' \<Longrightarrow> wired_missing cpa = wired_missing cpa'"
  by (simp add: request_fields_def wired_missing_def)

text \<open>Asking again for what is pending keeps it, and schedules the switch when nothing runs.\<close>

lemma ask_again:
  assumes "current_protocol_type cpa = CHG_PROTOCOL_INVALID" and "def_req cpa" and "\<not> wired_missing cpa"
  shows "snd (protocol_identify_request (protocol_to_be_switched cpa) cpa) =
    (if request_locked cpa then cpa else schedule_work Protocol_switch cpa)"
proof -
  have "cpa\<lparr>protocol_to_be_switched := protocol_to_be_switched cpa OR protocol_to_be_switched cpa\<rparr> = cpa"
    by (cases cpa) simp
  then show ?thesis using assms by (simp add: protocol_identify_request_def busy_for_def Let_def)
qed

lemma pending_schedule [simp]: "protocol_to_be_switched (schedule_work w cpa) = protocol_to_be_switched cpa"
  by (simp add: schedule_work_def)

lemma scheduled [simp]: "w \<in> set (cpa_works (schedule_work w cpa))"
  by (simp add: schedule_work_def)

lemma fields_of:
  assumes "request_fields cpa' = request_fields cpa"
  shows "protocol_to_be_switched cpa' = protocol_to_be_switched cpa" "def_req cpa' = def_req cpa"
    "request_locked cpa' = request_locked cpa" "wired_missing cpa' = wired_missing cpa"
  using assms by (simp_all add: request_fields_def wired_missing_def)

lemma switch_work_outcome:
  assumes "cpa_inv cpa" and "def_req cpa" and "\<not> wired_missing cpa"
    and t: "t = switch_target cpa" "t \<noteq> CHG_PROTOCOL_INVALID" and "\<not> busy_for (BIT t) cpa"
    and c': "cpa' = oplus_cpa_protocol_switch_work cpa"
  shows "current_protocol_type cpa' = t \<and> (started cpa' \<or> Switch_timeout \<in> set (cpa_works cpa')) \<and>
      protocol_to_be_switched cpa' = protocol_to_be_switched cpa AND NOT (BIT t) \<or>
    current_protocol_type cpa' = CHG_PROTOCOL_INVALID \<and> protocol_to_be_switched cpa' = protocol_to_be_switched cpa \<and>
      (request_locked cpa' \<or> Protocol_switch \<in> set (cpa_works cpa'))"
proof -
  let ?c0 = "(cancel_work Switch_timeout cpa)\<lparr>started := False\<rparr>"
  obtain rc c1 where s: "oplus_cpa_set_current_protocol_type t ?c0 = (rc, c1)" by force
  have rc: "rc \<in> {0, - ENOMEM}" using set_current_rc [of t ?c0] s by simp
  have c1: "current_protocol_type c1 = t" "request_fields c1 = request_fields cpa"
    using s current_set [of t ?c0] fields_set [of t ?c0] by simp_all
  have "busy_for (BIT t) (cancel_work Switch_timeout cpa) = busy_for (BIT t) cpa" by (simp add: busy_for_def)
  then have d: "do_protocol_identify_request t (cancel_work Switch_timeout cpa) = (rc, c1)"
    using switch_target_valid [OF assms(1)] t assms(6) s by (simp add: do_protocol_identify_request_def)
  show ?thesis
  proof (cases "rc = 0")
    case True
    then have "cpa' = (if \<not> started c1 then schedule_work Switch_timeout c1 else c1)
        \<lparr>protocol_to_be_switched := protocol_to_be_switched c1 AND NOT (BIT t)\<rparr>"
      using c' assms(2,3) d t by (simp add: oplus_cpa_protocol_switch_work_def Let_def schedule_work_def)
    then show ?thesis using c1 fields_of(1) [OF c1(2)] by simp
  next
    case False
    let ?c2 = "snd (oplus_cpa_set_current_protocol_type CHG_PROTOCOL_INVALID c1)"
    have e: "cpa' = snd (protocol_identify_request (protocol_to_be_switched ?c2) ?c2)"
      using c' assms(2,3) d t rc False by (simp add: oplus_cpa_protocol_switch_work_def Let_def)
    have "request_fields ?c2 = request_fields cpa" using c1(2) by simp
    note f = fields_of [OF this]
    show ?thesis using e ask_again [of ?c2] f assms(2,3) by simp
  qed
qed

text \<open>Publishing may confirm a start, which cancels the timeout only.\<close>

lemma works_publish: "cpa_works (snd (publish i cpa)) = cpa_works cpa"
  by (cases i) (simp_all add: publish_def item_updates Let_def split: list.split)

lemma works_set: "Protocol_switch \<in> set (cpa_works (snd (oplus_cpa_set_current_protocol_type t cpa))) \<longleftrightarrow> Protocol_switch \<in> set (cpa_works cpa)"
  using works_publish [of CPA_ITEM_ALLOW] works_publish [of CPA_ITEM_CHG_TYPE]
  by (auto simp: oplus_cpa_set_current_protocol_type_def publish_allow_def oplus_cpa_switch_start_def cancel_work_def
      case_prod_unfold Let_def split: list.splits if_splits)

text \<open>The end of a protocol, exactly as far as the switch work is concerned.\<close>

lemma end_work_exact:
  assumes c': "cpa' = oplus_cpa_switch_end_work cpa"
  shows "current_protocol_type cpa' = CHG_PROTOCOL_INVALID \<and> protocol_to_be_switched cpa' = protocol_to_be_switched cpa \<and>
    (Protocol_switch \<in> set (cpa_works cpa') \<longleftrightarrow>
       Protocol_switch \<in> set (cpa_works cpa) \<or> \<not> wired_missing cpa \<and> def_req cpa \<and> \<not> request_locked cpa)"
proof -
  let ?c2 = "snd (publish CPA_ITEM_CHG_TYPE (snd (oplus_cpa_set_current_protocol_type CHG_PROTOCOL_INVALID (cpa\<lparr>started := False\<rparr>))))"
  have "request_fields ?c2 = request_fields cpa" by simp
  note f = fields_of [OF this]
  have w: "Protocol_switch \<in> set (cpa_works ?c2) \<longleftrightarrow> Protocol_switch \<in> set (cpa_works cpa)"
    by (simp add: works_publish works_set)
  have cur: "current_protocol_type ?c2 = CHG_PROTOCOL_INVALID" by simp
  have or: "?c2\<lparr>protocol_to_be_switched := protocol_to_be_switched ?c2 OR protocol_to_be_switched ?c2\<rparr> = ?c2"
    by (cases ?c2) simp
  have "cpa' = snd (protocol_identify_request (protocol_to_be_switched ?c2) ?c2)"
    using c' by (simp add: oplus_cpa_switch_end_work_def Let_def)
  also have "\<dots> = (if wired_missing cpa \<or> \<not> def_req cpa \<or> request_locked cpa then ?c2 else schedule_work Protocol_switch ?c2)"
    unfolding protocol_identify_request_def Let_def or using f cur by (simp add: busy_for_def)
  finally show ?thesis using f w cur by (simp add: schedule_work_def)
qed

section \<open>Powers\<close>

lemma publish_table [simp]: "protocol_prio_table (snd (publish i cpa)) = protocol_prio_table cpa"
  by (cases i) (simp_all add: publish_def item_updates Let_def split: list.split)

lemma prio_index_cong:
  "map pi_type (protocol_prio_table cpa) = map pi_type (protocol_prio_table cpa') \<Longrightarrow>
     length (protocol_prio_table cpa) = CHG_PROTOCOL_MAX \<Longrightarrow> prio_index cpa t = prio_index cpa' t"
proof -
  assume m: "map pi_type (protocol_prio_table cpa) = map pi_type (protocol_prio_table cpa')"
    and l: "length (protocol_prio_table cpa) = CHG_PROTOCOL_MAX"
  have "pi_type (protocol_prio_table cpa ! i) = pi_type (protocol_prio_table cpa' ! i)" if "i < CHG_PROTOCOL_MAX" for i
    using that m l by (metis length_map nth_map)
  then show "prio_index cpa t = prio_index cpa' t"
    unfolding prio_index_def by (intro find_cong) (auto simp del: upt_conv_Cons)
qed

lemma types_set_entry [simp]:
  "map pi_type (protocol_prio_table (set_entry_power i p cpa)) = map pi_type (protocol_prio_table cpa)"
  by (cases "i < length (protocol_prio_table cpa)")
    (simp_all add: set_entry_power_def map_update list_update_same_conv list_update_beyond)

lemma set_power_table:
  assumes "valid_type t" and "prio_index cpa t = Some i"
  shows "protocol_prio_table (snd (oplus_cpa_protocol_set_power t p cpa)) =
    protocol_prio_table (set_entry_power i (min p (max_power_mw (protocol_prio_table cpa ! i))) cpa)"
  using assms by (simp add: oplus_cpa_protocol_set_power_def Let_def min_def)

lemma get_power_after:
  assumes "cpa_inv cpa" and "valid_type t" and "protocol_prio_table cpa' = protocol_prio_table (set_entry_power i p cpa)"
    and "i < CHG_PROTOCOL_MAX"
  shows "oplus_cpa_protocol_get_power t cpa' = (if prio_index cpa t = Some i then p else oplus_cpa_protocol_get_power t cpa)"
proof -
  have l: "length (protocol_prio_table cpa) = CHG_PROTOCOL_MAX" using assms(1) by (simp add: cpa_inv_def)
  have "prio_index cpa' t = prio_index cpa t"
  proof (rule prio_index_cong)
    show "map pi_type (protocol_prio_table cpa') = map pi_type (protocol_prio_table cpa)" by (simp add: assms(3))
    show "length (protocol_prio_table cpa') = CHG_PROTOCOL_MAX" using assms(3) l by (simp add: set_entry_power_def)
  qed
  then show ?thesis
    using assms l by (auto simp: oplus_cpa_protocol_get_power_def set_entry_power_def nth_list_update split: option.split)
qed

lemma other_index: "prio_index cpa t = Some i \<Longrightarrow> s \<noteq> t \<Longrightarrow> prio_index cpa s \<noteq> Some i"
  using prio_index_less by blast

lemma set_power_result:
  assumes "cpa_inv cpa" and "valid_type t" and s: "oplus_cpa_protocol_set_power t p cpa = (rc, cpa')"
  shows "(rc = 0 \<longrightarrow> oplus_cpa_protocol_get_power t cpa' = min p (oplus_cpa_protocol_get_max_power_by_type t cpa)) \<and>
    (rc \<noteq> 0 \<longrightarrow> rc = - ENOTSUPP \<and> cpa' = cpa \<and> oplus_cpa_protocol_get_power t cpa = - ENOTSUPP) \<and>
    (valid_type u \<longrightarrow> u \<noteq> t \<longrightarrow> oplus_cpa_protocol_get_power u cpa' = oplus_cpa_protocol_get_power u cpa)"
proof (cases "prio_index cpa t")
  case None
  then show ?thesis using s assms(2) by (auto simp: oplus_cpa_protocol_set_power_def oplus_cpa_protocol_get_power_def)
next
  case (Some i)
  then have i: "i < CHG_PROTOCOL_MAX" using prio_index_less by blast
  have rc: "rc = 0" using s Some assms(2) by (simp add: oplus_cpa_protocol_set_power_def Let_def)
  have t: "protocol_prio_table cpa' = protocol_prio_table (set_entry_power i (min p (max_power_mw (protocol_prio_table cpa ! i))) cpa)"
    using set_power_table [OF assms(2) Some, of p] s by simp
  show ?thesis
    using get_power_after [OF assms(1) assms(2) t i] get_power_after [OF assms(1) _ t i, of u] rc Some assms(2)
      other_index [OF Some, of u]
    by (auto simp: oplus_cpa_protocol_get_max_power_by_type_def)
qed

text \<open>What a protocol counts with when nothing is known of the adapter.\<close>

definition initial_power :: "int \<Rightarrow> oplus_cpa \<Rightarrow> int" where
  "initial_power t cpa = (if fixed_power t then oplus_cpa_protocol_get_max_power_by_type t cpa else 0)"

definition table_setup :: "oplus_cpa \<Rightarrow> (int \<times> int) list" where
  "table_setup cpa = map (\<lambda>e. (pi_type e, max_power_mw e)) (protocol_prio_table cpa)"

lemma setup_set_entry [simp]: "table_setup (set_entry_power i p cpa) = table_setup cpa"
  by (cases "i < length (protocol_prio_table cpa)")
    (simp_all add: table_setup_def set_entry_power_def map_update list_update_same_conv list_update_beyond)

lemma setup_clear [simp]: "table_setup (snd (oplus_cpa_protocol_clear_power t cpa)) = table_setup cpa"
  by (simp add: oplus_cpa_protocol_clear_power_def split: option.split)

lemma setup_cong:
  assumes "table_setup cpa = table_setup cpa'" and "length (protocol_prio_table cpa) = CHG_PROTOCOL_MAX"
  shows "prio_index cpa t = prio_index cpa' t" "initial_power t cpa = initial_power t cpa'"
proof -
  have n: "(pi_type (protocol_prio_table cpa ! i), max_power_mw (protocol_prio_table cpa ! i)) =
      (pi_type (protocol_prio_table cpa' ! i), max_power_mw (protocol_prio_table cpa' ! i))" if "i < CHG_PROTOCOL_MAX" for i
    using that assms unfolding table_setup_def by (metis (no_types, lifting) length_map nth_map)
  have "map fst (table_setup cpa) = map fst (table_setup cpa')" using assms(1) by simp
  then show p: "prio_index cpa t = prio_index cpa' t"
    by (intro prio_index_cong assms(2)) (simp add: table_setup_def o_def)
  show "initial_power t cpa = initial_power t cpa'"
    using n p by (auto simp: initial_power_def oplus_cpa_protocol_get_max_power_by_type_def split: option.split dest!: prio_index_less)
qed

lemma clear_power_result:
  assumes "cpa_inv cpa" and "valid_type u" and "prio_index cpa u \<noteq> None"
  shows "oplus_cpa_protocol_get_power u (snd (oplus_cpa_protocol_clear_power t cpa)) =
    (if t = u then initial_power u cpa else oplus_cpa_protocol_get_power u cpa)"
proof (cases "prio_index cpa t")
  case None
  then show ?thesis using assms by (auto simp: oplus_cpa_protocol_clear_power_def)
next
  case (Some i)
  then have i: "i < CHG_PROTOCOL_MAX" using prio_index_less by blast
  let ?p = "if fixed_power t then max_power_mw (protocol_prio_table cpa ! i) else 0"
  show ?thesis
  proof (cases "valid_type t")
    case True
    then have "protocol_prio_table (snd (oplus_cpa_protocol_clear_power t cpa)) = protocol_prio_table (set_entry_power i ?p cpa)"
      using Some by (simp add: oplus_cpa_protocol_clear_power_def)
    from get_power_after [OF assms(1,2) this i] show ?thesis
      using Some assms(2) other_index [OF Some, of u]
      by (auto simp: initial_power_def oplus_cpa_protocol_get_max_power_by_type_def)
  next
    case False
    then show ?thesis using assms(2) by (auto simp: oplus_cpa_protocol_clear_power_def)
  qed
qed

definition clear_step :: "oplus_cpa \<Rightarrow> nat \<Rightarrow> oplus_cpa" where
  "clear_step cpa i = (if pi_type (protocol_prio_table cpa ! i) \<noteq> CHG_PROTOCOL_INVALID
     then snd (oplus_cpa_protocol_clear_power (pi_type (protocol_prio_table cpa ! i)) cpa) else cpa)"

lemma clear_all_steps: "clear_all_powers cpa = foldl clear_step cpa [0..<CHG_PROTOCOL_MAX]"
  by (simp only: clear_all_powers_def clear_step_def [abs_def])

lemma clear_step_keeps [simp]: "table_setup (clear_step cpa i) = table_setup cpa" "cpa_inv cpa \<Longrightarrow> cpa_inv (clear_step cpa i)"
  by (simp_all add: clear_step_def cpa)

lemma clear_steps:
  assumes "cpa_inv cpa" and u: "valid_type u" "prio_index cpa u = Some k"
  shows "table_setup (foldl clear_step cpa [0..<n]) = table_setup cpa \<and> cpa_inv (foldl clear_step cpa [0..<n]) \<and>
    (k < n \<longrightarrow> oplus_cpa_protocol_get_power u (foldl clear_step cpa [0..<n]) = initial_power u cpa)"
proof (induction n)
  case 0
  then show ?case using assms(1) by simp
next
  case (Suc n)
  let ?c = "foldl clear_step cpa [0..<n]"
  have len: "length (protocol_prio_table ?c) = CHG_PROTOCOL_MAX" using Suc by (simp add: cpa_inv_def)
  have i: "prio_index ?c u = Some k" "initial_power u ?c = initial_power u cpa"
    using setup_cong [OF _ len, of cpa u] Suc u(2) by simp_all
  have at_k: "pi_type (protocol_prio_table ?c ! k) = u" using prio_index_less [OF i(1)] by simp
  have "u \<noteq> CHG_PROTOCOL_INVALID" using u(1) by (simp add: valid_type_def)
  then have "oplus_cpa_protocol_get_power u (clear_step ?c n) =
      (if pi_type (protocol_prio_table ?c ! n) = u then initial_power u cpa else oplus_cpa_protocol_get_power u ?c)"
    using clear_power_result [of ?c u] Suc u(1) i by (auto simp: clear_step_def)
  then show ?case using Suc at_k by (auto simp: less_Suc_eq)
qed

lemma clear_all_result:
  assumes "cpa_inv cpa" and "valid_type u"
  shows "oplus_cpa_protocol_get_power u (clear_all_powers cpa) =
    (if prio_index cpa u = None then - ENOTSUPP else initial_power u cpa)"
proof (cases "prio_index cpa u")
  case None
  have "table_setup (foldl clear_step cpa ns) = table_setup cpa" for ns
    by (rule foldl_invariant [where P = "\<lambda>c. table_setup c = table_setup cpa"]) simp_all
  then have "table_setup cpa = table_setup (clear_all_powers cpa)" unfolding clear_all_steps by (rule sym)
  then have "prio_index (clear_all_powers cpa) u = None"
    using setup_cong(1) [of cpa "clear_all_powers cpa" u] None assms(1) by (simp add: cpa_inv_def)
  then show ?thesis using None assms(2) by (simp add: oplus_cpa_protocol_get_power_def)
next
  case (Some k)
  then show ?thesis
    using clear_steps [OF assms Some, of CHG_PROTOCOL_MAX] prio_index_less [OF Some] unfolding clear_all_steps
    by (simp del: upt_conv_Cons)
qed

lemma clear_all_keeps:
  "protocol_to_be_switched (clear_all_powers cpa) = protocol_to_be_switched cpa"
  "protocol_disable_mask (clear_all_powers cpa) = protocol_disable_mask cpa"
  "def_req (clear_all_powers cpa) = def_req cpa"
  "request_pending (clear_all_powers cpa) = request_pending cpa"
  "cpa_works (clear_all_powers cpa) = cpa_works cpa"
proof -
  have "(protocol_to_be_switched (clear_all_powers cpa), protocol_disable_mask (clear_all_powers cpa),
      def_req (clear_all_powers cpa), request_pending (clear_all_powers cpa), cpa_works (clear_all_powers cpa)) =
    (protocol_to_be_switched cpa, protocol_disable_mask cpa, def_req cpa, request_pending cpa, cpa_works cpa)"
    unfolding clear_all_steps
    by (rule foldl_invariant [where P = "\<lambda>c. (protocol_to_be_switched c, protocol_disable_mask c, def_req c, request_pending c, cpa_works c) =
        (protocol_to_be_switched cpa, protocol_disable_mask cpa, def_req cpa, request_pending cpa, cpa_works cpa)"])
      (auto simp: clear_step_def oplus_cpa_protocol_clear_power_def set_entry_power_def split: option.split)
  then show "protocol_to_be_switched (clear_all_powers cpa) = protocol_to_be_switched cpa"
    "protocol_disable_mask (clear_all_powers cpa) = protocol_disable_mask cpa"
    "def_req (clear_all_powers cpa) = def_req cpa"
    "request_pending (clear_all_powers cpa) = request_pending cpa"
    "cpa_works (clear_all_powers cpa) = cpa_works cpa" by simp_all
qed

lemma setup_publish [simp]: "protocol_prio_table (snd (publish_allow cpa)) = protocol_prio_table cpa"
  using publish_table [of CPA_ITEM_ALLOW cpa]
  by (auto simp: publish_allow_def case_prod_unfold Let_def oplus_cpa_switch_start_def cancel_work_def
      simp del: publish_table split: list.split)

lemma table_set_current [simp]: "protocol_prio_table (snd (oplus_cpa_set_current_protocol_type t cpa)) = protocol_prio_table cpa"
  by (auto simp: oplus_cpa_set_current_protocol_type_def case_prod_unfold Let_def)

lemma index_table: "protocol_prio_table cpa = protocol_prio_table cpa' \<Longrightarrow>
   prio_index cpa u = prio_index cpa' u \<and> initial_power u cpa = initial_power u cpa' \<and>
   oplus_cpa_protocol_get_power u cpa = oplus_cpa_protocol_get_power u cpa'"
  by (simp add: prio_index_def initial_power_def oplus_cpa_protocol_get_max_power_by_type_def
      oplus_cpa_protocol_get_power_def cong: option.case_cong)

lemma offline_resets:
  assumes "cpa_inv cpa" and "\<not> status_reset cpa" and "\<not> wired_online cpa" and c': "cpa' = oplus_cpa_wired_offline_work cpa"
  shows "current_protocol_type cpa' = CHG_PROTOCOL_INVALID \<and> protocol_to_be_switched cpa' = 0 \<and>
    protocol_disable_mask cpa' = 0 \<and> \<not> def_req cpa' \<and> \<not> request_pending cpa' \<and> status_reset cpa' \<and>
    (valid_type u \<longrightarrow> oplus_cpa_protocol_get_power u cpa' = (if prio_index cpa u = None then - ENOTSUPP else initial_power u cpa))"
proof -
  let ?c1 = "(snd (oplus_cpa_set_current_protocol_type CHG_PROTOCOL_INVALID (cancel_work Switch_timeout cpa)))
     \<lparr>protocol_to_be_switched := 0, protocol_disable_mask := 0, def_req := False,
      request_pending := False, wired_real_chg_type := OPLUS_CHG_USB_TYPE_UNKNOWN\<rparr>"
  have e: "cpa' = (clear_all_powers ?c1)\<lparr>status_reset := True\<rparr>"
    using c' assms(2,3) by (simp add: oplus_cpa_wired_offline_work_def Let_def)
  have i: "cpa_inv ?c1" using assms(1) by (simp add: cpa)
  have t: "protocol_prio_table ?c1 = protocol_prio_table cpa" by (simp add: cancel_work_def)
  have "oplus_cpa_protocol_get_power u cpa' = (if prio_index cpa u = None then - ENOTSUPP else initial_power u cpa)"
    if "valid_type u"
    using clear_all_result [OF i that] index_table [OF t, of u] index_table [of cpa' "clear_all_powers ?c1" u] by (simp add: e)
  then show ?thesis by (simp add: e clear_all_keeps)
qed

section \<open>A lock with many holders\<close>

primrec run_calls :: "(string \<Rightarrow> bool \<Rightarrow> 's \<Rightarrow> 's option) \<Rightarrow> (string \<times> bool) list \<Rightarrow> 's \<Rightarrow> 's option" where
  "run_calls call [] s = Some s"
| "run_calls call (c # cs) s = (case call (fst c) (snd c) s of None \<Rightarrow> None | Some s1 \<Rightarrow> run_calls call cs s1)"

definition hold :: "string \<times> bool \<Rightarrow> string set \<Rightarrow> string set" where
  "hold c H = (if snd c then insert (fst c) H else H - {fst c})"

locale client_lock =
  fixes good :: "'s \<Rightarrow> bool" and call :: "string \<Rightarrow> bool \<Rightarrow> 's \<Rightarrow> 's option"
    and holders :: "'s \<Rightarrow> string set" and locked :: "'s \<Rightarrow> bool"
  assumes call_good: "good s \<Longrightarrow> call c on s = Some s' \<Longrightarrow> good s'"
    and call_holders: "good s \<Longrightarrow> call c on s = Some s' \<Longrightarrow> holders s' = hold (c, on) (holders s)"
    and locked_held: "good s \<Longrightarrow> locked s \<longleftrightarrow> holders s \<noteq> {}"
begin

lemma run_holders:
  "good s \<Longrightarrow> run_calls call cs s = Some s' \<Longrightarrow> good s' \<and> holders s' = fold hold cs (holders s)"
proof (induction cs arbitrary: s)
  case (Cons c cs)
  then obtain s1 where s1: "call (fst c) (snd c) s = Some s1" "run_calls call cs s1 = Some s'"
    by (auto split: option.splits)
  then have "good s1" "holders s1 = hold c (holders s)"
    using call_good call_holders Cons.prems(1) by (auto simp: hold_def)
  then show ?case using Cons.IH s1(2) by simp
qed simp

lemma locked_by_somebody:
  "good s \<Longrightarrow> run_calls call cs s = Some s' \<Longrightarrow> locked s' \<longleftrightarrow> fold hold cs (holders s) \<noteq> {}"
  using run_holders locked_held by metis

end

text \<open>A call that the votable accepts returns no error.\<close>

definition lock_call :: "string \<Rightarrow> bool \<Rightarrow> oplus_cpa \<Rightarrow> oplus_cpa option" where
  "lock_call c on cpa =
     (case if on then oplus_cpa_request_lock (Some c) cpa else oplus_cpa_request_unlock (Some c) cpa of
        Inr (rc, cpa') \<Rightarrow> if rc \<ge> 0 then Some cpa' else None
      | Inl _ \<Rightarrow> None)"

definition lock_holders :: "oplus_cpa \<Rightarrow> string set" where
  "lock_holders cpa = dom (ballots (req_lock_votable cpa))"

lemma lock_call_vote:
  assumes "lock_call c on cpa = Some cpa'"
  obtains rc where "vote_lock (Some c) on (of_bool on) cpa = Inr (rc, cpa')" "rc \<ge> 0"
  using assms by (cases on)
    (auto simp: lock_call_def oplus_cpa_request_lock_def oplus_cpa_request_unlock_def split: sum.splits if_splits)

lemma vote_accepted:
  assumes "vote_reachable E v" and "vote E v (Some c) enabled val step = Inr (rc, w)" and "rc \<ge> 0"
  shows "ballots w = (ballots v)(c := ballot v enabled val)"
proof -
  let ?l = "v\<lparr>vote_locked := True\<rparr>"
  have "vote_inv ?l" using vote_reachable_inv [OF assms(1)] by simp
  then show ?thesis
    by (rule vote_body_cases [of ?l E c enabled val step])
      (use assms(2,3) in \<open>auto simp: vote_def reachable_with_lock [OF assms(1)] unaffected_def\<close>)
qed

lemma lock_call_holders:
  assumes "cpa_inv cpa" and "lock_call c on cpa = Some cpa'"
  shows "lock_holders cpa' = hold (c, on) (lock_holders cpa)"
proof -
  obtain rc where vl: "vote_lock (Some c) on (of_bool on) cpa = Inr (rc, cpa')" "rc \<ge> 0"
    by (rule lock_call_vote [OF assms(2)])
  have l: "vote_reachable lock_env (req_lock_votable cpa)" "callback (req_lock_votable cpa) \<noteq> None"
    "\<not> force_active (req_lock_votable cpa)" "override_result (req_lock_votable cpa) = - EINVAL"
    using assms(1) by (simp_all add: cpa_inv_def lock_inv_def)
  obtain v where v: "vote lock_env (req_lock_votable cpa) (Some c) on (of_bool on) False = Inr (rc, v)"
    and "req_lock_votable cpa' = v"
    by (rule vote_lock_effect [OF vl(1) l]) (auto split: if_splits)
  moreover note vote_accepted [OF l(1) v vl(2)]
  ultimately show ?thesis by (auto simp: lock_holders_def hold_def ballot_def)
qed

lemma locked_iff_held:
  assumes "cpa_inv cpa" shows "request_locked cpa \<longleftrightarrow> lock_holders cpa \<noteq> {}"
proof -
  let ?v = "req_lock_votable cpa"
  have l: "lock_inv ?v (request_locked cpa)" using assms by (simp add: cpa_inv_def)
  then have i: "vote_inv ?v" using vote_reachable_inv by (auto simp: lock_inv_def)
  then have t: "table_ok ?v" by (simp add: vote_inv_def)
  have "request_locked cpa \<longleftrightarrow> voters ?v None \<noteq> {}" using l i by (auto simp: lock_inv_def vote_inv_def cache_ok_def)
  also have "\<dots> \<longleftrightarrow> ran (ballots ?v) \<noteq> {}" by (simp add: ran_ballots [OF t])
  finally show ?thesis by (auto simp: ran_def lock_holders_def dom_def simp del: dom_eq_empty_conv)
qed

interpretation request_lock: client_lock cpa_inv lock_call lock_holders request_locked
  by unfold_locales (auto simp: lock_call_holders locked_iff_held elim!: lock_call_vote dest: inv_vote_lock)

section \<open>A run of the arbiter\<close>

definition demo_probe :: "fault + (rc \<times> oplus_cpa option)" where
  "demo_probe = oplus_cpa_probe True (Some [4, 100, 2, 125, 3, 100]) (Some [4, 3]) None
     (Inr ((new_votable ''CPA_REQ_LOCK'' VOTE_SET_ANY (Some ()))\<lparr>alloc_ok := []\<rparr>)) 0 demo_surroundings"

definition demo0 :: oplus_cpa where
  "demo0 = the (snd (projr demo_probe))"

text \<open>The cable is plugged in, its type becomes known while the requests are locked, the lock is
  released by the timeout, and the switch work starts the default protocol of highest priority.\<close>

definition demo1 :: oplus_cpa where "demo1 = topic_callback (Wired_topic (WIRED_ITEM_ONLINE True)) demo0"
definition demo2 :: oplus_cpa where "demo2 = oplus_cpa_wired_online_work 250 (cancel_work Wired_online demo1)"
definition demo3 :: oplus_cpa where "demo3 = oplus_cpa_chg_type_change_work (cancel_work Chg_type_change demo2)"
definition demo4 :: oplus_cpa where "demo4 = projr (oplus_cpa_protocol_ready_timeout_work (cancel_work Ready_timeout demo3))"
definition demo5 :: oplus_cpa where "demo5 = oplus_cpa_protocol_switch_work (cancel_work Protocol_switch demo4)"

lemma demo0_reachable: "cpa_reachable 250 demo0"
proof (rule cpa_reachable.probed)
  show "dt_sane (Some [4, 100, 2, 125, 3, 100])" by (simp add: dt_sane_def the_cells_def)
  have "fst (projr demo_probe) = 0 \<and> \<not> isl demo_probe \<and> snd (projr demo_probe) \<noteq> None" by code_simp
  then have "demo_probe = Inr (0, Some demo0)"
    unfolding demo0_def by (metis option.collapse prod.collapse sum.collapse(2))
  then show "oplus_cpa_probe True (Some [4, 100, 2, 125, 3, 100]) (Some [4, 3]) None
     (Inr ((new_votable ''CPA_REQ_LOCK'' VOTE_SET_ANY (Some ()))\<lparr>alloc_ok := []\<rparr>)) 0 demo_surroundings = Inr (0, Some demo0)"
    by (simp add: demo_probe_def)
qed

lemma work_reachable:
  "cpa_reachable hz cpa \<Longrightarrow> w \<in> set (cpa_works cpa) \<Longrightarrow> run_cpa_work hz w (cancel_work w cpa) = Inr cpa' \<Longrightarrow> cpa_reachable hz cpa'"
  by (rule cpa_reachable.stepped [OF _ cpa_step.work])

lemma demo1_reachable: "cpa_reachable 250 demo1"
  unfolding demo1_def by (rule cpa_reachable.stepped [OF demo0_reachable cpa_step.topic])

lemma demo2_reachable: "cpa_reachable 250 demo2"
proof (rule work_reachable [OF demo1_reachable])
  show "Wired_online \<in> set (cpa_works demo1)" by code_simp
qed (simp add: demo2_def)

lemma demo3_reachable: "cpa_reachable 250 demo3"
proof (rule work_reachable [OF demo2_reachable])
  show "Chg_type_change \<in> set (cpa_works demo2)" by code_simp
qed (simp add: demo3_def)

lemma demo4_reachable: "cpa_reachable 250 demo4"
proof (rule work_reachable [OF demo3_reachable])
  show "Ready_timeout \<in> set (cpa_works demo3)" by code_simp
  have "\<not> isl (oplus_cpa_protocol_ready_timeout_work (cancel_work Ready_timeout demo3))" by code_simp
  then show "run_cpa_work 250 Ready_timeout (cancel_work Ready_timeout demo3) = Inr demo4"
    by (simp add: demo4_def)
qed

lemma demo5_reachable: "cpa_reachable 250 demo5"
proof (rule work_reachable [OF demo4_reachable])
  show "Protocol_switch \<in> set (cpa_works demo4)" by code_simp
qed (simp add: demo5_def)

lemma demo5_state: "current_protocol_type demo5 = CHG_PROTOCOL_UFCS \<and> protocol_to_be_switched demo5 = 9 \<and>
   def_req demo5 \<and> \<not> wired_missing demo5 \<and> \<not> request_locked demo5"
  by code_simp

section \<open>Properties\<close>

text \<open>C13: In every state the arbiter reaches from its probe, by works, topics and calls in any order, the
  current protocol is none or one of the known ones, a work is scheduled at most once, the priority
  table has its six entries and no entry counts with more than its maximal power.\<close>

theorem arbiter_invariant:
  assumes "cpa_reachable hz cpa"
  shows "(current_protocol_type cpa = CHG_PROTOCOL_INVALID \<or> valid_type (current_protocol_type cpa)) \<and>
    distinct (cpa_works cpa) \<and> length (protocol_prio_table cpa) = CHG_PROTOCOL_MAX \<and>
    (\<forall>e\<in>set (protocol_prio_table cpa). power_mw e \<le> max_power_mw e)"
  using cpa_reachable_inv [OF assms] by (auto simp: cpa_inv_def list_all_iff entry_ok_def)

theorem arbiter_invariant_witness:
  "current_protocol_type demo5 = CHG_PROTOCOL_UFCS \<and> valid_type (current_protocol_type demo5) \<and> distinct (cpa_works demo5)"
  using arbiter_invariant [OF demo5_reachable] demo5_state by simp

text \<open>C14: The requests are locked exactly as long as somebody holds the lock: after any sequence of accepted
  lock and unlock calls, the arbiter is locked if and only if some client is left that locked and has
  not unlocked since, counting those that held the lock before.\<close>

theorem locked_until_last_release:
  assumes "cpa_reachable hz cpa" and "run_calls lock_call calls cpa = Some cpa'"
  shows "request_locked cpa' \<longleftrightarrow> fold hold calls (lock_holders cpa) \<noteq> {}"
  using request_lock.locked_by_somebody [OF cpa_reachable_inv [OF assms(1)] assms(2)] .

theorem locked_until_last_release_witness:
  "\<exists>cpa'. run_calls lock_call [(''A'', True), (''B'', True), (''A'', False)] demo5 = Some cpa' \<and> request_locked cpa'"
proof -
  have "\<not> Option.is_none (run_calls lock_call [(''A'', True), (''B'', True), (''A'', False)] demo5)" by code_simp
  then obtain cpa' where c: "run_calls lock_call [(''A'', True), (''B'', True), (''A'', False)] demo5 = Some cpa'"
    by (auto simp: Option.is_none_def)
  show ?thesis using locked_until_last_release [OF demo5_reachable c] c by (auto simp: hold_def)
qed

text \<open>C15: A running protocol other than BC1.2 is never replaced by a step: it goes on, or it ends and no
  protocol is current, or PD gives way to PPS.\<close>

theorem running_protocol_not_replaced:
  assumes "cpa_step hz cpa cpa'" and "current_protocol_type cpa \<notin> {CHG_PROTOCOL_INVALID, CHG_PROTOCOL_BC12}"
  shows "current_protocol_type cpa' \<in> {current_protocol_type cpa, CHG_PROTOCOL_INVALID} \<or>
    current_protocol_type cpa = CHG_PROTOCOL_PD \<and> current_protocol_type cpa' = CHG_PROTOCOL_PPS"
  using may_follow_step [OF assms(1)] assms(2) by (auto simp: may_follow_def)

theorem running_protocol_not_replaced_witness:
  "current_protocol_type (snd (oplus_cpa_request CHG_PROTOCOL_PPS demo5)) \<in> {CHG_PROTOCOL_UFCS, CHG_PROTOCOL_INVALID}"
  using running_protocol_not_replaced [OF cpa_step.request [of 250 demo5 CHG_PROTOCOL_PPS]] demo5_state by simp

text \<open>When the switch work finds a protocol to start and nothing keeps it out, either that protocol
  becomes the current one, its request is taken back and it has confirmed its start or a timeout
  watches over it, or there was no memory for the message, and then no request is lost: no protocol is
  current, and the switch is scheduled again unless the requests are locked.\<close>

theorem switch_starts_target:
  assumes "cpa_reachable hz cpa" and "c = cancel_work Protocol_switch cpa" and "def_req c" and "\<not> wired_missing c"
    and "t = switch_target c" and "t \<noteq> CHG_PROTOCOL_INVALID" and "\<not> busy_for (BIT t) c"
    and "cpa' = oplus_cpa_protocol_switch_work c"
  shows "current_protocol_type cpa' = t \<and> (started cpa' \<or> Switch_timeout \<in> set (cpa_works cpa')) \<and>
      protocol_to_be_switched cpa' = protocol_to_be_switched cpa AND NOT (BIT t) \<or>
    current_protocol_type cpa' = CHG_PROTOCOL_INVALID \<and> protocol_to_be_switched cpa' = protocol_to_be_switched cpa \<and>
      (request_locked cpa' \<or> Protocol_switch \<in> set (cpa_works cpa'))"
proof -
  have "cpa_inv c" using cpa_reachable_inv [OF assms(1)] assms(2) by (simp add: cpa)
  moreover have "protocol_to_be_switched c = protocol_to_be_switched cpa" using assms(2) by (simp add: cancel_work_def)
  ultimately show ?thesis using switch_work_outcome [OF _ assms(3-8)] by simp
qed

theorem switch_starts_target_witness:
  "current_protocol_type demo5 = CHG_PROTOCOL_UFCS \<and> (started demo5 \<or> Switch_timeout \<in> set (cpa_works demo5))"
proof -
  have "def_req (cancel_work Protocol_switch demo4) \<and> \<not> wired_missing (cancel_work Protocol_switch demo4) \<and>
      switch_target (cancel_work Protocol_switch demo4) = CHG_PROTOCOL_UFCS \<and>
      \<not> busy_for (BIT CHG_PROTOCOL_UFCS) (cancel_work Protocol_switch demo4)"
    by code_simp
  then show ?thesis
    using switch_starts_target [OF demo4_reachable refl _ _ _ _ _ demo5_def, of CHG_PROTOCOL_UFCS] demo5_state by simp
qed

text \<open>C16: When a protocol ends, the end work is scheduled, and when it runs, from whatever state: no protocol is current, the
  requests that came while the protocol ran are still pending, and the switch work that serves them is scheduled exactly if it was
  before, or the cable is there (or the connection is retained), the default request was made and the requests are not
  locked.\<close>

theorem ended_protocol_hands_over:
  assumes "oplus_cpa_switch_end (current_protocol_type cpa) cpa = (rc, cpa1)"
    and "cpa' = oplus_cpa_switch_end_work (cancel_work Switch_end cpa1)"
  shows "Switch_end \<in> set (cpa_works cpa1) \<and> current_protocol_type cpa' = CHG_PROTOCOL_INVALID \<and>
    protocol_to_be_switched cpa' = protocol_to_be_switched cpa \<and>
    (Protocol_switch \<in> set (cpa_works cpa') \<longleftrightarrow>
       Protocol_switch \<in> set (cpa_works cpa) \<or> \<not> wired_missing cpa \<and> def_req cpa \<and> \<not> request_locked cpa)"
proof -
  have c1: "cpa1 = schedule_work Switch_end cpa" using assms(1) by (simp add: oplus_cpa_switch_end_def)
  have "request_fields (cancel_work Switch_end cpa1) = request_fields cpa" by (simp add: c1)
  note f = fields_of [OF this]
  have "Protocol_switch \<in> set (cpa_works (cancel_work Switch_end cpa1)) \<longleftrightarrow> Protocol_switch \<in> set (cpa_works cpa)"
    by (simp add: c1 cancel_work_def schedule_work_def)
  then show ?thesis using end_work_exact [OF assms(2)] f c1 by simp
qed

theorem ended_protocol_hands_over_witness:
  "Protocol_switch \<in> set (cpa_works (oplus_cpa_switch_end_work
     (cancel_work Switch_end (snd (oplus_cpa_switch_end CHG_PROTOCOL_UFCS demo5)))))"
proof -
  have "\<not> wired_missing demo5 \<and> def_req demo5 \<and> \<not> request_locked demo5" using demo5_state by simp
  then show ?thesis
    using ended_protocol_hands_over [of demo5, OF surjective_pairing refl] demo5_state by auto
qed

text \<open>Setting the power of a protocol and reading it back gives the power set, cut off at the maximal
  power of the protocol; a protocol that is not in the table is refused and nothing changes; the power
  of every other protocol stays.\<close>

theorem power_is_clamped:
  assumes "cpa_reachable hz cpa" and "valid_type t" and "oplus_cpa_protocol_set_power t p cpa = (rc, cpa')"
  shows "(rc = 0 \<longrightarrow> oplus_cpa_protocol_get_power t cpa' = min p (oplus_cpa_protocol_get_max_power_by_type t cpa)) \<and>
    (rc \<noteq> 0 \<longrightarrow> rc = - ENOTSUPP \<and> cpa' = cpa \<and> oplus_cpa_protocol_get_power t cpa = - ENOTSUPP) \<and>
    (\<forall>u. valid_type u \<longrightarrow> u \<noteq> t \<longrightarrow> oplus_cpa_protocol_get_power u cpa' = oplus_cpa_protocol_get_power u cpa)"
  using set_power_result [OF cpa_reachable_inv [OF assms(1)] assms(2,3)] by blast

theorem power_is_clamped_witness:
  "oplus_cpa_protocol_get_power CHG_PROTOCOL_PPS (snd (oplus_cpa_protocol_set_power CHG_PROTOCOL_PPS 200000 demo5)) = 125000"
proof -
  have "fst (oplus_cpa_protocol_set_power CHG_PROTOCOL_PPS 200000 demo5) = 0 \<and>
      oplus_cpa_protocol_get_max_power_by_type CHG_PROTOCOL_PPS demo5 = 125000" by code_simp
  then show ?thesis
    using power_is_clamped [OF demo5_reachable _ surjective_pairing, of CHG_PROTOCOL_PPS 200000] by (simp add: valid_type_def)
qed

text \<open>When the cable is gone, the offline work brings the arbiter back to its initial choice: no
  current protocol, no requests, nothing disabled, no pending first request, and every listed protocol
  counts with its maximal power if that is fixed and with none if it is learned from the adapter.\<close>

theorem plug_out_resets:
  assumes "cpa_reachable hz cpa" and "\<not> status_reset cpa" and "\<not> wired_online cpa"
    and "cpa' = oplus_cpa_wired_offline_work (cancel_work Wired_offline cpa)"
  shows "current_protocol_type cpa' = CHG_PROTOCOL_INVALID \<and> protocol_to_be_switched cpa' = 0 \<and>
    protocol_disable_mask cpa' = 0 \<and> \<not> def_req cpa' \<and> \<not> request_pending cpa' \<and> status_reset cpa' \<and>
    (\<forall>u. valid_type u \<longrightarrow> oplus_cpa_protocol_get_power u cpa' =
       (if prio_index cpa u = None then - ENOTSUPP
        else if fixed_power u then oplus_cpa_protocol_get_max_power_by_type u cpa else 0))"
proof -
  let ?c = "cancel_work Wired_offline cpa"
  have i: "cpa_inv ?c" "\<not> status_reset ?c" "\<not> wired_online ?c" "protocol_prio_table ?c = protocol_prio_table cpa"
    using cpa_reachable_inv [OF assms(1)] assms(2,3) by (simp_all add: cpa) (simp_all add: cancel_work_def)
  show ?thesis
    using offline_resets [OF i(1-3) assms(4)] index_table [OF i(4)] unfolding initial_power_def [symmetric] by auto
qed

theorem plug_out_resets_witness:
  "current_protocol_type (oplus_cpa_wired_offline_work (cancel_work Wired_offline (topic_callback (Wired_topic (WIRED_ITEM_ONLINE False)) demo5)))
     = CHG_PROTOCOL_INVALID"
proof -
  have r: "cpa_reachable 250 (topic_callback (Wired_topic (WIRED_ITEM_ONLINE False)) demo5)"
    by (rule cpa_reachable.stepped [OF demo5_reachable cpa_step.topic])
  have "\<not> status_reset (topic_callback (Wired_topic (WIRED_ITEM_ONLINE False)) demo5) \<and>
      \<not> wired_online (topic_callback (Wired_topic (WIRED_ITEM_ONLINE False)) demo5)" by code_simp
  then show ?thesis using plug_out_resets [OF r _ _ refl] by blast
qed

end
