(* ===== verification/Chg_Mms.thy ===== *)
theory Chg_Mms
  imports Ufcs_Prelude
begin

unbundle bit_operations_syntax

text \<open>
  The message service of the charger (\<^verbatim>\<open>mms/oplus_mms.c\<close>): topics with items, messages that are
  published on a topic and delivered to its subscribers, at once or by a work in the order of their
  priorities, and the list of those who wait for a topic to appear.

  A topic is a record. The functions an item holds to refresh its data belong to the driver of the
  topic: they read the state of that driver, of type \<open>'d\<close>. The callbacks of the subscribers are
  logged. A pointer to a string is the address of the message whose buffer holds it; \<open>bufs\<close> are the
  buffers that are allocated, and an address is used once only. Pointers that can be null where the
  code checks for it are options.
\<close>

section \<open>Data\<close>

definition TOPIC_NAME_MAX :: nat where "TOPIC_NAME_MAX = 128"
definition TOPIC_MSG_STR_BUF :: nat where "TOPIC_MSG_STR_BUF = 1024"

datatype mms_msg_type = MSG_TYPE_TIMER | MSG_TYPE_ITEM

datatype mms_msg_prio = MSG_PRIO_HIGH | MSG_PRIO_MEDIUM | MSG_PRIO_LOW

primrec prio_code :: "mms_msg_prio \<Rightarrow> nat" where
  "prio_code MSG_PRIO_HIGH = 0"
| "prio_code MSG_PRIO_MEDIUM = 1"
| "prio_code MSG_PRIO_LOW = 2"

text \<open>The enumerators are compared as numbers.\<close>

instantiation mms_msg_prio :: linorder
begin

definition less_eq_mms_msg_prio :: "mms_msg_prio \<Rightarrow> mms_msg_prio \<Rightarrow> bool" where
  "less_eq_mms_msg_prio p q \<longleftrightarrow> prio_code p \<le> prio_code q"

definition less_mms_msg_prio :: "mms_msg_prio \<Rightarrow> mms_msg_prio \<Rightarrow> bool" where
  "less_mms_msg_prio p q \<longleftrightarrow> prio_code p < prio_code q"

instance
proof
  fix p q :: mms_msg_prio
  show "p \<le> q \<Longrightarrow> q \<le> p \<Longrightarrow> p = q" by (cases p; cases q) (simp_all add: less_eq_mms_msg_prio_def)
qed (auto simp: less_eq_mms_msg_prio_def less_mms_msg_prio_def)

end

datatype mms_msg_payload = MSG_LOAD_NULL | MSG_LOAD_INT | MSG_LOAD_STR

text \<open>\<^verbatim>\<open>union mms_msg_data\<close> has the size of a pointer; its \<^verbatim>\<open>intval\<close> is the lower half.\<close>

type_synonym mms_msg_data = u64

definition intval :: "mms_msg_data \<Rightarrow> int" where
  "intval d = sint (ucast d :: u32)"

definition set_intval :: "int \<Rightarrow> mms_msg_data \<Rightarrow> mms_msg_data" where
  "set_intval i d = (d AND NOT 0xFFFFFFFF) OR ucast (word_of_int i :: u32)"

record 'd mms_item_desc =
  item_id :: u32
  str_data :: bool
  up_thr_enable :: bool
  down_thr_enable :: bool
  dead_thr_enable :: bool
  update_thr_up :: int
  update_thr_down :: int
  dead_zone_thr :: int
  upd :: "('d \<Rightarrow> mms_msg_data) option"

record 'd mms_item =
  desc :: "'d mms_item_desc"
  updated :: bool
  disabled :: bool
  item_data :: mms_msg_data
  pre_data :: mms_msg_data

text \<open>The buffer of a message with a number is \<open>m_int\<close>; that of a message with a string is in \<open>bufs\<close>
  under its address.\<close>

record mms_msg =
  m_addr :: u64
  m_type :: mms_msg_type
  m_prio :: mms_msg_prio
  m_item_id :: u32
  m_payload :: mms_msg_payload
  m_sync :: bool
  m_int :: int

record mms_subscribe =
  subs_addr :: u64
  subs_name :: string

text \<open>\<open>update_work\<close> is the delay of the scheduled work, \<open>msg_work\<close> and \<open>callback_work\<close> say whether these works
  are scheduled. \<open>delivered\<close> logs the calls of the callbacks.\<close>

record 'd oplus_mms =
  mms_name :: string
  item_table :: "'d mms_item list"
  drv_data :: 'd
  static_update_interval :: int
  normal_update_interval :: int
  subscribe_list :: "mms_subscribe list"
  msg_list :: "mms_msg list"
  update_work :: "int option"
  msg_work :: bool
  callback_work :: bool
  changed :: bool
  initialized :: bool
  removing :: bool
  use_cnt :: int
  force_update :: bool
  debug_item_id :: u32
  bufs :: "u64 \<Rightarrow> string option"
  delivered :: "(string \<times> mms_msg_type \<times> u32 \<times> bool) list"

section \<open>Items\<close>

text \<open>The position of an item in the table.\<close>

definition oplus_mms_get_item :: "'d oplus_mms \<Rightarrow> u32 \<Rightarrow> nat option" where
  "oplus_mms_get_item mms iid = find (\<lambda>i. item_id (desc (item_table mms ! i)) = iid) [0..<length (item_table mms)]"

definition set_item :: "nat \<Rightarrow> 'd mms_item \<Rightarrow> 'd oplus_mms \<Rightarrow> 'd oplus_mms" where
  "set_item i it mms = mms\<lparr>item_table := (item_table mms)[i := it]\<rparr>"

definition oplus_mms_item_is_str :: "'d oplus_mms option \<Rightarrow> u32 \<Rightarrow> bool" where
  "oplus_mms_item_is_str mms iid =
     (case mms of
        None \<Rightarrow> False
      | Some m \<Rightarrow>
          (case oplus_mms_get_item m iid of None \<Rightarrow> False | Some i \<Rightarrow> str_data (desc (item_table m ! i))))"

text \<open>\<^verbatim>\<open>set_update_mode\<close> of the description of the topic is code of its driver, which may change the state of
  the driver.\<close>

definition oplus_mms_set_update_mode ::
  "('d \<Rightarrow> bool \<Rightarrow> 'd) option \<Rightarrow> 'd oplus_mms option \<Rightarrow> bool \<Rightarrow> rc \<times> 'd oplus_mms option" where
  "oplus_mms_set_update_mode set_mode mms update =
     (case mms of
        None \<Rightarrow> (- ENODEV, None)
      | Some m \<Rightarrow>
          let m1 = m\<lparr>force_update := update\<rparr> in
          (0, Some (case set_mode of None \<Rightarrow> m1 | Some f \<Rightarrow> m1\<lparr>drv_data := f (drv_data m1) update\<rparr>)))"

definition oplus_mms_get_update_mode :: "'d oplus_mms option \<Rightarrow> int" where
  "oplus_mms_get_update_mode mms = (case mms of None \<Rightarrow> 0 | Some m \<Rightarrow> if force_update m then 1 else 0)"

definition set_item_disabled :: "bool \<Rightarrow> 'd oplus_mms option \<Rightarrow> u32 \<Rightarrow> rc \<times> 'd oplus_mms option" where
  "set_item_disabled b mms iid =
     (case mms of
        None \<Rightarrow> (- ENODEV, None)
      | Some m \<Rightarrow>
          (case oplus_mms_get_item m iid of
             None \<Rightarrow> (- EINVAL, mms)
           | Some i \<Rightarrow> (0, Some (set_item i ((item_table m ! i)\<lparr>disabled := b\<rparr>) m))))"

definition oplus_mms_set_item_enable :: "'d oplus_mms option \<Rightarrow> u32 \<Rightarrow> rc \<times> 'd oplus_mms option" where
  "oplus_mms_set_item_enable = set_item_disabled False"

definition oplus_mms_set_item_disable :: "'d oplus_mms option \<Rightarrow> u32 \<Rightarrow> rc \<times> 'd oplus_mms option" where
  "oplus_mms_set_item_disable = set_item_disabled True"

text \<open>The thresholds. The difference of the dead zone is computed in a C \<^verbatim>\<open>int\<close>.\<close>

definition crosses_up :: "'d mms_item \<Rightarrow> bool" where
  "crosses_up it \<longleftrightarrow> intval (item_data it) > intval (pre_data it) \<and>
     intval (pre_data it) < update_thr_up (desc it) \<and> intval (item_data it) \<ge> update_thr_up (desc it)"

definition crosses_down :: "'d mms_item \<Rightarrow> bool" where
  "crosses_down it \<longleftrightarrow> intval (item_data it) < intval (pre_data it) \<and>
     intval (pre_data it) > update_thr_down (desc it) \<and> intval (item_data it) < update_thr_down (desc it)"

definition c_abs :: "u32 \<Rightarrow> u32" where
  "c_abs w = (if sint w < 0 then - w else w)"

definition leaves_dead_zone :: "'d mms_item \<Rightarrow> bool" where
  "leaves_dead_zone it \<longleftrightarrow>
     sint (c_abs ((ucast (item_data it) :: u32) - ucast (pre_data it))) \<ge> dead_zone_thr (desc it)"

definition report_int :: "'d mms_item \<Rightarrow> 'd mms_item" where
  "report_int it = it\<lparr>pre_data := set_intval (intval (item_data it)) (pre_data it), updated := True\<rparr>"

text \<open>Whether new data is worth a message, the part that \<^verbatim>\<open>oplus_mms_item_update\<close> and
  \<^verbatim>\<open>oplus_mms_item_update_by_msg\<close> have in common. The test of the lower threshold asks for the threshold, not
  for \<^verbatim>\<open>down_thr_enable\<close>.\<close>

definition check_thresholds :: "'d mms_item \<Rightarrow> 'd mms_item" where
  "check_thresholds it =
     (if str_data (desc it) then it\<lparr>pre_data := item_data it, updated := True\<rparr>
      else if up_thr_enable (desc it) \<and> crosses_up it then report_int it
      else
        let it1 = (if up_thr_enable (desc it) then it\<lparr>updated := False\<rparr> else it) in
        if update_thr_down (desc it) \<noteq> 0 \<and> crosses_down it1 then report_int it1
        else
          let it2 = (if update_thr_down (desc it) \<noteq> 0 then it1\<lparr>updated := False\<rparr> else it1) in
          if dead_thr_enable (desc it) \<and> leaves_dead_zone it2 then report_int it2
          else if dead_thr_enable (desc it) then it2\<lparr>updated := False\<rparr>
          else it2)"

definition refresh_item :: "mms_msg_data \<Rightarrow> bool \<Rightarrow> 'd mms_item \<Rightarrow> 'd mms_item" where
  "refresh_item d check_update it =
     (let it1 = it\<lparr>item_data := d\<rparr> in
      if \<not> check_update then it1\<lparr>updated := False\<rparr> else check_thresholds (it1\<lparr>updated := True\<rparr>))"

definition oplus_mms_item_update :: "'d oplus_mms \<Rightarrow> u32 \<Rightarrow> bool \<Rightarrow> bool \<times> 'd oplus_mms" where
  "oplus_mms_item_update mms iid check_update =
     (case oplus_mms_get_item mms iid of
        None \<Rightarrow> (False, mms)
      | Some i \<Rightarrow>
          (case upd (desc (item_table mms ! i)) of
             None \<Rightarrow> (False, mms)
           | Some f \<Rightarrow>
               let it = refresh_item (f (drv_data mms)) check_update (item_table mms ! i) in
               (updated it, set_item i it mms)))"

text \<open>\<open>out\<close> says whether the caller passes a place for the data.\<close>

definition oplus_mms_get_item_data ::
  "'d oplus_mms option \<Rightarrow> u32 \<Rightarrow> bool \<Rightarrow> bool \<Rightarrow> (rc + mms_msg_data) \<times> 'd oplus_mms option" where
  "oplus_mms_get_item_data mms iid out update =
     (case mms of
        None \<Rightarrow> (Inl (- ENODEV), None)
      | Some m \<Rightarrow>
          if \<not> out then (Inl (- EINVAL), mms)
          else
            (case oplus_mms_get_item m iid of
               None \<Rightarrow> (Inl (- EINVAL), mms)
             | Some i \<Rightarrow>
                 if disabled (item_table m ! i) then (Inl (- ENOTSUPP), mms)
                 else
                   let m1 = (if update \<or> force_update m then snd (oplus_mms_item_update m iid False) else m) in
                   (Inr (item_data (item_table m1 ! i)), Some m1)))"

definition load_payload :: "mms_msg \<Rightarrow> 'd mms_item \<Rightarrow> 'd mms_item" where
  "load_payload msg it =
     (if m_payload msg = MSG_LOAD_INT then it\<lparr>item_data := set_intval (m_int msg) (item_data it)\<rparr>
      else it\<lparr>item_data := m_addr msg\<rparr>)"

definition oplus_mms_item_update_by_msg :: "'d oplus_mms \<Rightarrow> u32 \<Rightarrow> mms_msg \<Rightarrow> rc \<times> 'd oplus_mms" where
  "oplus_mms_item_update_by_msg mms iid msg =
     (case oplus_mms_get_item mms iid of
        None \<Rightarrow> (- EINVAL, mms)
      | Some i \<Rightarrow>
          if m_payload msg = MSG_LOAD_NULL then (- EINVAL, mms)
          else (0, set_item i (check_thresholds (load_payload msg (item_table mms ! i))) mms))"

section \<open>Messages\<close>

text \<open>\<open>mem\<close> is the address the allocation returns, if there is memory.\<close>

definition oplus_mms_alloc_msg :: "u64 option \<Rightarrow> mms_msg_type \<Rightarrow> mms_msg_prio \<Rightarrow> u32 \<Rightarrow> mms_msg option" where
  "oplus_mms_alloc_msg mem type prio iid =
     map_option (\<lambda>a. \<lparr>m_addr = a, m_type = type, m_prio = prio, m_item_id = iid, m_payload = MSG_LOAD_NULL,
       m_sync = False, m_int = 0\<rparr>) mem"

definition oplus_mms_alloc_int_msg ::
  "u64 option \<Rightarrow> mms_msg_type \<Rightarrow> mms_msg_prio \<Rightarrow> u32 \<Rightarrow> int \<Rightarrow> mms_msg option" where
  "oplus_mms_alloc_int_msg mem type prio iid d =
     map_option (\<lambda>a. \<lparr>m_addr = a, m_type = type, m_prio = prio, m_item_id = iid, m_payload = MSG_LOAD_INT,
       m_sync = False, m_int = d\<rparr>) mem"

text \<open>\<open>text\<close> is what the format and its arguments expand to; \<^verbatim>\<open>vsnprintf\<close> cuts it off.\<close>

definition oplus_mms_alloc_str_msg ::
  "u64 option \<Rightarrow> mms_msg_type \<Rightarrow> mms_msg_prio \<Rightarrow> u32 \<Rightarrow> string \<Rightarrow> 'd oplus_mms \<Rightarrow> (mms_msg \<times> 'd oplus_mms) option" where
  "oplus_mms_alloc_str_msg mem type prio iid text mms =
     map_option (\<lambda>a. (\<lparr>m_addr = a, m_type = type, m_prio = prio, m_item_id = iid, m_payload = MSG_LOAD_STR,
         m_sync = False, m_int = 0\<rparr>, mms\<lparr>bufs := (bufs mms)(a \<mapsto> take (TOPIC_MSG_STR_BUF - 1) text)\<rparr>)) mem"

definition kfree_msg :: "mms_msg \<Rightarrow> 'd oplus_mms \<Rightarrow> 'd oplus_mms" where
  "kfree_msg msg mms = mms\<lparr>bufs := (bufs mms)(m_addr msg := None)\<rparr>"

definition run_callbacks :: "mms_msg \<Rightarrow> 'd oplus_mms \<Rightarrow> 'd oplus_mms" where
  "run_callbacks msg mms =
     mms\<lparr>delivered := delivered mms @
       map (\<lambda>subs. (subs_name subs, m_type msg, m_item_id msg, m_sync msg)) (subscribe_list mms)\<rparr>"

definition oplus_mms_notify_caller :: "mms_msg \<Rightarrow> 'd oplus_mms \<Rightarrow> 'd oplus_mms" where
  "oplus_mms_notify_caller msg mms =
     run_callbacks msg
       (if m_payload msg \<noteq> MSG_LOAD_NULL then snd (oplus_mms_item_update_by_msg mms (m_item_id msg) msg) else mms)"

text \<open>The three actions of publishing after the message was found worth it: queueing it behind the
  messages of the same or a higher priority, keeping the device awake, and scheduling the work.\<close>

definition insert_msg :: "mms_msg \<Rightarrow> mms_msg list \<Rightarrow> mms_msg list" where
  "insert_msg msg q =
     takeWhile (\<lambda>temp. \<not> m_prio temp > m_prio msg) q @ msg # dropWhile (\<lambda>temp. \<not> m_prio temp > m_prio msg) q"

definition enqueue_msg :: "mms_msg \<Rightarrow> 'd oplus_mms \<Rightarrow> 'd oplus_mms" where
  "enqueue_msg msg mms = mms\<lparr>msg_list := insert_msg msg (msg_list mms)\<rparr>"

definition stay_awake :: "'d oplus_mms \<Rightarrow> 'd oplus_mms" where
  "stay_awake mms = (if \<not> changed mms then mms\<lparr>changed := True\<rparr> else mms)"

definition queue_msg_work :: "'d oplus_mms \<Rightarrow> 'd oplus_mms" where
  "queue_msg_work mms = mms\<lparr>msg_work := True\<rparr>"

definition publish_update :: "mms_msg \<Rightarrow> 'd oplus_mms \<Rightarrow> bool \<times> 'd oplus_mms" where
  "publish_update msg mms =
     (if m_type msg \<noteq> MSG_TYPE_TIMER \<and> m_payload msg = MSG_LOAD_NULL
      then oplus_mms_item_update mms (m_item_id msg) True else (True, mms))"

definition do_oplus_mms_publish_msg :: "mms_msg \<Rightarrow> 'd oplus_mms \<Rightarrow> rc \<times> 'd oplus_mms" where
  "do_oplus_mms_publish_msg msg mms =
     (let (update, m1) = publish_update msg mms in
      if \<not> update then (0, kfree_msg msg m1)
      else if m_sync msg then (1, oplus_mms_notify_caller msg m1)
      else (1, queue_msg_work (stay_awake (enqueue_msg msg m1))))"

definition oplus_mms_publish_msg :: "'d oplus_mms option \<Rightarrow> mms_msg option \<Rightarrow> rc \<times> 'd oplus_mms option" where
  "oplus_mms_publish_msg mms msg =
     (case (mms, msg) of
        (Some m, Some x) \<Rightarrow>
          let (rc, m1) = do_oplus_mms_publish_msg x m in (if rc < 0 then rc else 0, Some m1)
      | _ \<Rightarrow> (- EINVAL, mms))"

definition oplus_mms_publish_msg_sync :: "'d oplus_mms option \<Rightarrow> mms_msg option \<Rightarrow> rc \<times> 'd oplus_mms option" where
  "oplus_mms_publish_msg_sync mms msg =
     (case (mms, msg) of
        (Some m, Some x) \<Rightarrow>
          let (rc, m1) = do_oplus_mms_publish_msg (x\<lparr>m_sync := True\<rparr>) m in
          if rc \<le> 0 then (rc, Some m1) else (0, Some (kfree_msg x m1))
      | _ \<Rightarrow> (- EINVAL, mms))"

section \<open>The works\<close>

text \<open>Scheduling a work that is already scheduled leaves its delay.\<close>

definition queue_update_work :: "int \<Rightarrow> 'd oplus_mms \<Rightarrow> 'd oplus_mms" where
  "queue_update_work ms mms = (if update_work mms = None then mms\<lparr>update_work := Some ms\<rparr> else mms)"

text \<open>\<open>update\<close> of the description of the topic is code of its driver.\<close>

definition oplus_mms_update_work :: "('d oplus_mms \<Rightarrow> bool \<Rightarrow> 'd oplus_mms) \<Rightarrow> 'd oplus_mms \<Rightarrow> 'd oplus_mms" where
  "oplus_mms_update_work update mms =
     (let m1 = update mms True in
      if normal_update_interval m1 > 0 then queue_update_work (normal_update_interval m1) m1 else m1)"

definition oplus_mms_topic_update :: "('d oplus_mms \<Rightarrow> bool \<Rightarrow> 'd oplus_mms) \<Rightarrow> 'd oplus_mms \<Rightarrow> bool \<Rightarrow> 'd oplus_mms" where
  "oplus_mms_topic_update update mms publish = update mms publish"

text \<open>The message work delivers the first message, takes it off the list and schedules itself again;
  with no message left it lets the device sleep.\<close>

definition relax :: "'d oplus_mms \<Rightarrow> 'd oplus_mms" where
  "relax mms = (if changed mms then mms\<lparr>changed := False\<rparr> else mms)"

definition take_off :: "mms_msg \<Rightarrow> 'd oplus_mms \<Rightarrow> 'd oplus_mms" where
  "take_off msg mms = queue_msg_work (kfree_msg msg (mms\<lparr>msg_list := remove1 msg (msg_list mms)\<rparr>))"

definition oplus_mms_msg_work :: "'d oplus_mms \<Rightarrow> 'd oplus_mms" where
  "oplus_mms_msg_work mms =
     (case msg_list mms of
        [] \<Rightarrow> relax mms
      | msg # _ \<Rightarrow> take_off msg (oplus_mms_notify_caller msg mms))"

section \<open>Subscriptions\<close>

definition find_subs :: "string \<Rightarrow> 'd oplus_mms \<Rightarrow> mms_subscribe option" where
  "find_subs name mms = find (\<lambda>s. subs_name s = name) (subscribe_list mms)"

definition add_subs :: "u64 \<Rightarrow> string \<Rightarrow> 'd oplus_mms \<Rightarrow> mms_subscribe \<times> 'd oplus_mms" where
  "add_subs a name mms =
     (let subs = \<lparr>subs_addr = a, subs_name = name\<rparr> in
      (subs, mms\<lparr>subscribe_list := subscribe_list mms @ [subs], use_cnt := use_cnt mms + 1\<rparr>))"

text \<open>\<open>args\<close> says whether the private data and the callback are given, \<open>mem\<close> is the allocated address. The
  names are compared after they were cut off to the size of the name buffer.\<close>

definition oplus_mms_subscribe ::
  "'d oplus_mms option \<Rightarrow> bool \<Rightarrow> string \<Rightarrow> u64 option \<Rightarrow> (rc + mms_subscribe) \<times> 'd oplus_mms option" where
  "oplus_mms_subscribe mms args text mem =
     (case mms of
        None \<Rightarrow> (Inl (- EINVAL), None)
      | Some m \<Rightarrow>
          if \<not> args then (Inl (- EINVAL), mms)
          else
            let name = take (TOPIC_NAME_MAX - 1) text in
            (case find_subs name m of
               Some subs \<Rightarrow> (Inr subs, mms)
             | None \<Rightarrow>
                 (case mem of
                    None \<Rightarrow> (Inl (- ENOMEM), mms)
                  | Some a \<Rightarrow> let (subs, m1) = add_subs a name m in (Inr subs, Some m1))))"

definition oplus_mms_unsubscribe :: "mms_subscribe option \<Rightarrow> 'd oplus_mms \<Rightarrow> rc \<times> 'd oplus_mms" where
  "oplus_mms_unsubscribe subs mms =
     (case subs of
        None \<Rightarrow> (- ENODEV, mms)
      | Some s \<Rightarrow>
          (0, mms\<lparr>subscribe_list := filter (\<lambda>x. subs_addr x \<noteq> subs_addr s) (subscribe_list mms), use_cnt := use_cnt mms - 1\<rparr>))"

definition move_subs :: "bool \<Rightarrow> mms_subscribe option \<Rightarrow> 'd oplus_mms option \<Rightarrow> rc \<times> 'd oplus_mms option" where
  "move_subs to_top subs mms =
     (case (subs, mms) of
        (None, _) \<Rightarrow> (- EINVAL, mms)
      | (Some s, None) \<Rightarrow> (- ENODEV, None)
      | (Some s, Some m) \<Rightarrow>
          if s \<in> set (subscribe_list m) then
            let rest = remove1 s (subscribe_list m) in
            (0, Some (m\<lparr>subscribe_list := (if to_top then s # rest else rest @ [s])\<rparr>))
          else (- EINVAL, mms))"

definition oplus_mms_subs_move_to_top :: "mms_subscribe option \<Rightarrow> 'd oplus_mms option \<Rightarrow> rc \<times> 'd oplus_mms option" where
  "oplus_mms_subs_move_to_top = move_subs True"

definition oplus_mms_subs_move_to_down :: "mms_subscribe option \<Rightarrow> 'd oplus_mms option \<Rightarrow> rc \<times> 'd oplus_mms option" where
  "oplus_mms_subs_move_to_down = move_subs False"

section \<open>The update interval\<close>

definition oplus_mms_set_publish_interval :: "'d oplus_mms option \<Rightarrow> int \<Rightarrow> rc \<times> 'd oplus_mms option" where
  "oplus_mms_set_publish_interval mms ms =
     (case mms of None \<Rightarrow> (- ENODEV, None) | Some m \<Rightarrow> (0, Some (m\<lparr>normal_update_interval := ms\<rparr>)))"

definition oplus_mms_stop_publish :: "'d oplus_mms option \<Rightarrow> rc \<times> 'd oplus_mms option" where
  "oplus_mms_stop_publish mms =
     (case mms of
        None \<Rightarrow> (- ENODEV, None)
      | Some m \<Rightarrow> (0, Some (m\<lparr>normal_update_interval := 0, update_work := None\<rparr>)))"

definition oplus_mms_restore_publish :: "'d oplus_mms option \<Rightarrow> rc \<times> 'd oplus_mms option" where
  "oplus_mms_restore_publish mms =
     (case mms of
        None \<Rightarrow> (- ENODEV, None)
      | Some m \<Rightarrow>
          let m1 = m\<lparr>normal_update_interval := static_update_interval m\<rparr> in
          (0, Some (queue_update_work (normal_update_interval m1) m1)))"

definition oplus_mms_update_interval :: "'d oplus_mms option \<Rightarrow> int" where
  "oplus_mms_update_interval mms = (case mms of None \<Rightarrow> 0 | Some m \<Rightarrow> normal_update_interval m)"

section \<open>The debug attributes\<close>

definition item_id_store :: "int option \<Rightarrow> 'd oplus_mms \<Rightarrow> rc \<times> 'd oplus_mms" where
  "item_id_store val mms = (case val of None \<Rightarrow> (- EINVAL, mms) | Some v \<Rightarrow> (0, mms\<lparr>debug_item_id := word_of_int v\<rparr>))"

text \<open>What is read: an error, a number, or a string, which is \<open>None\<close> when the buffer is gone.\<close>

datatype shown = Shown_error rc | Shown_int int | Shown_str "string option"

definition data_show :: "'d oplus_mms \<Rightarrow> shown" where
  "data_show mms =
     (case fst (oplus_mms_get_item_data (Some mms) (debug_item_id mms) True False) of
        Inl rc \<Rightarrow> Shown_error rc
      | Inr d \<Rightarrow>
          if oplus_mms_item_is_str (Some mms) (debug_item_id mms) then Shown_str (bufs mms d)
          else Shown_int (intval d))"

definition subscribe_show :: "'d oplus_mms \<Rightarrow> string" where
  "subscribe_show mms = concat (map (\<lambda>s. subs_name s @ [CHR 0x0A]) (subscribe_list mms))"

end
