(* ===== verification/Chg_Mms_Queue.thy ===== *)
theory Chg_Mms_Queue
  imports Chg_Mms "HOL-Library.Multiset"
begin

text \<open>
  The message queue of a topic while any number of publishers and the message work run at the same
  time. Publishing queues the message, keeps the device awake and schedules the work in three
  actions under different locks; the work looks at the list, delivers, and takes the message off in
  separate actions too. The list is shown to be one first-in first-out queue per priority (an
  interface it is an instance of), no message is lost or delivered twice, the works come to an end,
  and the device can fall asleep with a message waiting.
\<close>

section \<open>A queue with priorities\<close>

text \<open>What a queue with priorities promises: one lane per priority, putting appends to the lane, and the
  first element is the first of the lane of the highest priority that has one.\<close>

locale priority_fifo =
  fixes ok :: "'q \<Rightarrow> bool" and lane :: "'q \<Rightarrow> 'p :: linorder \<Rightarrow> 'm list" and prio :: "'m \<Rightarrow> 'p"
    and put :: "'m \<Rightarrow> 'q \<Rightarrow> 'q" and first :: "'q \<Rightarrow> 'm option" and del :: "'m \<Rightarrow> 'q \<Rightarrow> 'q"
  assumes put_ok: "ok q \<Longrightarrow> ok (put m q)"
    and put_lane: "ok q \<Longrightarrow> lane (put m q) = (lane q)(prio m := lane q (prio m) @ [m])"
    and first_None: "ok q \<Longrightarrow> first q = None \<Longrightarrow> lane q p = []"
    and first_lane: "ok q \<Longrightarrow> first q = Some m \<Longrightarrow> \<exists>ms. lane q (prio m) = m # ms"
    and first_least: "ok q \<Longrightarrow> first q = Some m \<Longrightarrow> p < prio m \<Longrightarrow> lane q p = []"
    and del_ok: "ok q \<Longrightarrow> ok (del m q)"
    and del_lane: "ok q \<Longrightarrow> lane q (prio m) = m # ms \<Longrightarrow> lane (del m q) = (lane q)(prio m := ms)"
begin

text \<open>An element that was first can be taken off after others were put.\<close>

lemma puts_lane:
  "ok q \<Longrightarrow> ok (fold put ms q) \<and> lane (fold put ms q) p = lane q p @ filter (\<lambda>m. prio m = p) ms"
  by (induction ms arbitrary: q) (simp_all add: put_ok put_lane)

lemma first_then_puts_then_del:
  assumes "ok q" and "first q = Some m"
  shows "\<exists>ms. lane q (prio m) = m # ms \<and>
    lane (del m (fold put xs q)) = (\<lambda>p. (if p = prio m then ms else lane q p) @ filter (\<lambda>x. prio x = p) xs)"
proof -
  obtain ms where ms: "lane q (prio m) = m # ms" using first_lane [OF assms] by blast
  have l: "lane (fold put xs q) p = lane q p @ filter (\<lambda>x. prio x = p) xs" for p
    using puts_lane [OF assms(1)] by blast
  have "lane (fold put xs q) (prio m) = m # (ms @ filter (\<lambda>x. prio x = prio m) xs)" by (simp add: l ms)
  from del_lane [OF _ this] have "lane (del m (fold put xs q)) =
      (lane (fold put xs q))(prio m := ms @ filter (\<lambda>x. prio x = prio m) xs)"
    using puts_lane [OF assms(1)] by blast
  then show ?thesis using ms by (intro exI [of _ ms]) (auto simp: l)
qed

end

definition lane :: "mms_msg list \<Rightarrow> mms_msg_prio \<Rightarrow> mms_msg list" where
  "lane q p = filter (\<lambda>m. m_prio m = p) q"

definition in_order :: "mms_msg list \<Rightarrow> bool" where
  "in_order q \<longleftrightarrow> sorted (map m_prio q)"

definition first_msg :: "mms_msg list \<Rightarrow> mms_msg option" where
  "first_msg q = (case q of [] \<Rightarrow> None | m # _ \<Rightarrow> Some m)"

lemma in_order_append:
  "in_order (xs @ ys) \<longleftrightarrow> in_order xs \<and> in_order ys \<and> (\<forall>x\<in>set xs. \<forall>y\<in>set ys. m_prio x \<le> m_prio y)"
  by (simp add: in_order_def sorted_append ball_simps)

lemma in_order_Cons: "in_order (y # ys) \<longleftrightarrow> in_order ys \<and> (\<forall>x\<in>set ys. m_prio y \<le> m_prio x)"
  by (simp add: in_order_def ball_simps conj_commute)

lemma before_insert: "x \<in> set (takeWhile (\<lambda>x. \<not> m_prio x > m_prio m) q) \<Longrightarrow> m_prio x \<le> m_prio m"
  by (drule set_takeWhileD) (simp add: not_less)

lemma after_insert:
  assumes "in_order q" and "x \<in> set (dropWhile (\<lambda>x. \<not> m_prio x > m_prio m) q)"
  shows "m_prio m < m_prio x"
proof (cases "dropWhile (\<lambda>x. \<not> m_prio x > m_prio m) q")
  case Nil
  then show ?thesis using assms(2) by (simp only: list.set empty_iff)
next
  case (Cons y ys)
  have y: "m_prio m < m_prio y" using Cons by (simp add: dropWhile_eq_Cons_conv)
  have "in_order (takeWhile (\<lambda>x. \<not> m_prio x > m_prio m) q @ (y # ys))" using assms(1) Cons by (metis takeWhile_dropWhile_id)
  then have "\<forall>z\<in>set ys. m_prio y \<le> m_prio z" by (simp only: in_order_append in_order_Cons) blast
  then show ?thesis using assms(2) y unfolding Cons by (auto intro: less_le_trans)
qed

lemma insert_in_order:
  assumes "in_order q" shows "in_order (insert_msg m q)"
proof -
  let ?t = "takeWhile (\<lambda>x. \<not> m_prio x > m_prio m) q" and ?d = "dropWhile (\<lambda>x. \<not> m_prio x > m_prio m) q"
  have "in_order (?t @ ?d)" using assms by simp
  then have td: "in_order ?t" "in_order ?d" "\<forall>x\<in>set ?t. \<forall>y\<in>set ?d. m_prio x \<le> m_prio y"
    unfolding in_order_append by blast+
  have "\<forall>x\<in>set ?d. m_prio m \<le> m_prio x" using after_insert [OF assms] by (blast intro: less_imp_le)
  moreover have "\<forall>x\<in>set ?t. m_prio x \<le> m_prio m" by (blast intro: before_insert)
  ultimately show ?thesis using td unfolding insert_msg_def in_order_append in_order_Cons by simp
qed

lemma insert_lane:
  assumes "in_order q" shows "lane (insert_msg m q) = (lane q)(m_prio m := lane q (m_prio m) @ [m])"
proof
  fix p
  let ?t = "takeWhile (\<lambda>x. \<not> m_prio x > m_prio m) q" and ?d = "dropWhile (\<lambda>x. \<not> m_prio x > m_prio m) q"
  have "lane (?t @ ?d) p = lane ?t p @ lane ?d p" for p by (simp only: lane_def filter_append)
  then have q: "lane q p = lane ?t p @ lane ?d p" for p by (simp only: takeWhile_dropWhile_id)
  have d: "lane ?d (m_prio m) = []" unfolding lane_def filter_empty_conv
  proof (intro ballI notI)
    fix x assume "x \<in> set ?d" and "m_prio x = m_prio m"
    then show False using after_insert [OF assms, of x m] by simp
  qed
  have "lane (insert_msg m q) p = lane ?t p @ (if m_prio m = p then [m] else []) @ lane ?d p"
    by (simp only: insert_msg_def lane_def filter_append filter.simps) simp
  then show "lane (insert_msg m q) p = ((lane q)(m_prio m := lane q (m_prio m) @ [m])) p"
    using d by (cases "p = m_prio m") (simp_all add: q)
qed

lemma remove_lane:
  "lane q (m_prio m) = m # ms \<Longrightarrow> lane (remove1 m q) = (lane q)(m_prio m := ms)"
  by (rule ext) (auto simp: lane_def filter_remove1)

lemma remove_in_order: "in_order q \<Longrightarrow> in_order (remove1 m q)"
  unfolding in_order_def by (induction q) (auto dest!: set_remove1_subset [THEN subsetD])

interpretation msg_queue: priority_fifo in_order lane m_prio insert_msg first_msg remove1
proof
  fix q m p assume "in_order q" "first_msg q = Some m" "p < m_prio m"
  then show "lane q p = []"
    by (cases q) (auto simp: first_msg_def lane_def in_order_def filter_empty_conv)
qed (auto simp: insert_in_order insert_lane remove_in_order remove_lane first_msg_def lane_def split: list.splits)

section \<open>Publishers and the work\<close>

text \<open>Where the message work is: not running, having found the list empty, about to call the
  subscribers, or about to take the message off the list.\<close>

datatype work_pc = Work_idle | Saw_empty | Delivering mms_msg | Removing mms_msg

text \<open>\<open>noting\<close> and \<open>kicking\<close> count the publishers that have queued their message and have yet to keep the
  device awake, and those that have yet to schedule the work. \<open>arrived\<close> and \<open>served\<close> record the messages
  that were queued and those that were delivered.\<close>

record 'd mms_sys =
  topic :: "'d oplus_mms"
  work_pc :: work_pc
  noting :: nat
  kicking :: nat
  arrived :: "mms_msg list"
  served :: "mms_msg list"

text \<open>The steps that need no new message.\<close>

inductive internal_step :: "'d mms_sys \<Rightarrow> 'd mms_sys \<Rightarrow> bool" where
  awake: "noting s = Suc n \<Longrightarrow>
    internal_step s (s\<lparr>topic := stay_awake (topic s), noting := n, kicking := Suc (kicking s)\<rparr>)"
| kick: "kicking s = Suc n \<Longrightarrow> internal_step s (s\<lparr>topic := queue_msg_work (topic s), kicking := n\<rparr>)"
| run_empty: "msg_work (topic s) \<Longrightarrow> work_pc s = Work_idle \<Longrightarrow> msg_list (topic s) = [] \<Longrightarrow>
    internal_step s (s\<lparr>topic := (topic s)\<lparr>msg_work := False\<rparr>, work_pc := Saw_empty\<rparr>)"
| sleep: "work_pc s = Saw_empty \<Longrightarrow> internal_step s (s\<lparr>topic := relax (topic s), work_pc := Work_idle\<rparr>)"
| run_msg: "msg_work (topic s) \<Longrightarrow> work_pc s = Work_idle \<Longrightarrow> msg_list (topic s) = m # q \<Longrightarrow>
    internal_step s (s\<lparr>topic := (topic s)\<lparr>msg_work := False\<rparr>, work_pc := Delivering m\<rparr>)"
| deliver: "work_pc s = Delivering m \<Longrightarrow>
    internal_step s (s\<lparr>topic := oplus_mms_notify_caller m (topic s), work_pc := Removing m, served := served s @ [m]\<rparr>)"
| remove: "work_pc s = Removing m \<Longrightarrow>
    internal_step s (s\<lparr>topic := take_off m (topic s), work_pc := Work_idle\<rparr>)"

text \<open>A step of the system: a publisher queues a message, the system goes on, or something else happens
  to the topic that touches neither the queue nor its work (a reading, a synchronous message, a new
  subscriber).\<close>

definition same_queue :: "'d oplus_mms \<Rightarrow> 'd oplus_mms \<Rightarrow> bool" where
  "same_queue m m' \<longleftrightarrow> msg_list m' = msg_list m \<and> changed m' = changed m \<and> msg_work m' = msg_work m"

inductive sys_step :: "'d mms_sys \<Rightarrow> 'd mms_sys \<Rightarrow> bool" where
  add: "m \<notin> set (arrived s) \<Longrightarrow>
    sys_step s (s\<lparr>topic := enqueue_msg m (topic s), noting := Suc (noting s), arrived := arrived s @ [m]\<rparr>)"
| internal: "internal_step s s' \<Longrightarrow> sys_step s s'"
| aside: "same_queue (topic s) t \<Longrightarrow> sys_step s (s\<lparr>topic := t\<rparr>)"

definition quiet_sys :: "'d oplus_mms \<Rightarrow> 'd mms_sys" where
  "quiet_sys t = \<lparr>topic = t, work_pc = Work_idle, noting = 0, kicking = 0, arrived = [], served = []\<rparr>"

inductive sys_reachable :: "'d mms_sys \<Rightarrow> bool" where
  start: "msg_list t = [] \<Longrightarrow> \<not> changed t \<Longrightarrow> \<not> msg_work t \<Longrightarrow> sys_reachable (quiet_sys t)"
| stepped: "sys_reachable s \<Longrightarrow> sys_step s s' \<Longrightarrow> sys_reachable s'"

inductive_cases internal_stepE: "internal_step s s'"

text \<open>Publishing as one call is the three actions in a row.\<close>

lemma publish_is_three_actions:
  assumes "publish_update msg mms = (True, m1)" and "\<not> m_sync msg"
  shows "do_oplus_mms_publish_msg msg mms = (1, queue_msg_work (stay_awake (enqueue_msg msg m1)))"
  using assms by (simp add: do_oplus_mms_publish_msg_def)

section \<open>The invariant\<close>

definition waiting :: "'d mms_sys \<Rightarrow> mms_msg list" where
  "waiting s = (case work_pc s of Removing m \<Rightarrow> remove1 m (msg_list (topic s)) | _ \<Rightarrow> msg_list (topic s))"

fun busy_with :: "work_pc \<Rightarrow> mms_msg option" where
  "busy_with (Delivering m) = Some m"
| "busy_with (Removing m) = Some m"
| "busy_with _ = None"

definition sys_inv :: "'d mms_sys \<Rightarrow> bool" where
  "sys_inv s \<longleftrightarrow> in_order (msg_list (topic s)) \<and>
     (\<forall>p. lane (arrived s) p = lane (served s) p @ lane (waiting s) p) \<and>
     (\<forall>m. busy_with (work_pc s) = Some m \<longrightarrow> (\<exists>ms. lane (msg_list (topic s)) (m_prio m) = m # ms)) \<and>
     (msg_list (topic s) \<noteq> [] \<longrightarrow>
        msg_work (topic s) \<or> busy_with (work_pc s) \<noteq> None \<or> noting s > 0 \<or> kicking s > 0)"

lemma item_update_queue [simp]:
  "msg_list (snd (oplus_mms_item_update_by_msg mms i m)) = msg_list mms"
  "changed (snd (oplus_mms_item_update_by_msg mms i m)) = changed mms"
  "msg_work (snd (oplus_mms_item_update_by_msg mms i m)) = msg_work mms"
  by (simp_all add: oplus_mms_item_update_by_msg_def set_item_def split: option.split)

lemma notify_queue [simp]:
  "msg_list (oplus_mms_notify_caller m mms) = msg_list mms"
  "changed (oplus_mms_notify_caller m mms) = changed mms"
  "msg_work (oplus_mms_notify_caller m mms) = msg_work mms"
  by (simp_all add: oplus_mms_notify_caller_def run_callbacks_def)

lemma queue_parts [simp]:
  "msg_list (stay_awake mms) = msg_list mms" "msg_list (queue_msg_work mms) = msg_list mms"
  "msg_list (relax mms) = msg_list mms" "msg_work (stay_awake mms) = msg_work mms"
  "msg_work (queue_msg_work mms)" "msg_work (relax mms) = msg_work mms"
  "msg_list (take_off m mms) = remove1 m (msg_list mms)" "msg_work (take_off m mms)"
  "msg_list (enqueue_msg m mms) = insert_msg m (msg_list mms)" "msg_work (enqueue_msg m mms) = msg_work mms"
  by (simp_all add: stay_awake_def queue_msg_work_def relax_def take_off_def kfree_msg_def enqueue_msg_def)

lemma lane_append [simp]: "lane (xs @ ys) p = lane xs p @ lane ys p" "lane [x] p = (if m_prio x = p then [x] else [])"
  by (simp_all add: lane_def)

text \<open>Taking off a message that is the first of its lane.\<close>

lemma off_lane:
  "lane q (m_prio m) = m # ms \<Longrightarrow> lane q p = (if m_prio m = p then [m] else []) @ lane (remove1 m q) p"
  using remove_lane [of q m ms] by auto

lemma add_inv:
  assumes "sys_inv s"
  shows "sys_inv (s\<lparr>topic := enqueue_msg m (topic s), noting := Suc (noting s), arrived := arrived s @ [m]\<rparr>)"
proof -
  let ?q = "msg_list (topic s)"
  have o: "in_order ?q" using assms by (simp add: sys_inv_def)
  note l = insert_lane [OF o, of m]
  have "lane (remove1 x (insert_msg m ?q)) p = lane (remove1 x ?q) p @ (if m_prio m = p then [m] else [])"
    if x: "lane ?q (m_prio x) = x # ms" for x ms p
  proof -
    have "lane (insert_msg m ?q) (m_prio x) = x # (ms @ (if m_prio m = m_prio x then [m] else []))"
      using x by (cases "m_prio x = m_prio m") (simp_all add: l)
    from remove_lane [OF this] remove_lane [OF x] show ?thesis by (auto simp: l)
  qed
  then show ?thesis
    using assms insert_in_order [OF o]
    by (auto simp: sys_inv_def waiting_def l split: work_pc.splits)
qed

lemma internal_inv:
  assumes "internal_step s s'" and "sys_inv s"
  shows "sys_inv s'"
  using assms(1)
proof cases
  case (run_msg m q)
  then have "\<exists>ms. lane (msg_list (topic s)) (m_prio m) = m # ms" by (simp add: lane_def)
  then show ?thesis using assms(2) run_msg by (simp add: sys_inv_def waiting_def)
next
  case (deliver m)
  then obtain ms where ms: "lane (msg_list (topic s)) (m_prio m) = m # ms" using assms(2) by (auto simp: sys_inv_def)
  then show ?thesis using assms(2) deliver off_lane [OF ms] by (auto simp: sys_inv_def waiting_def)
next
  case (remove m)
  then show ?thesis using assms(2) by (auto simp: sys_inv_def waiting_def remove_in_order)
qed (use assms(2) in \<open>auto simp: sys_inv_def waiting_def split: work_pc.splits\<close>)

lemma sys_reachable_inv: "sys_reachable s \<Longrightarrow> sys_inv s"
proof (induction rule: sys_reachable.induct)
  case (start t)
  then show ?case by (simp add: sys_inv_def quiet_sys_def waiting_def lane_def in_order_def)
next
  case (stepped s s')
  from stepped(2) stepped(3) show ?case
  proof cases
    case (aside t)
    then show ?thesis using stepped(3) by (auto simp: sys_inv_def waiting_def same_queue_def split: work_pc.splits)
  qed (auto intro: add_inv internal_inv stepped(3))
qed

section \<open>Progress\<close>

text \<open>Every internal step brings the system closer to its rest.\<close>

primrec pc_weight :: "work_pc \<Rightarrow> nat" where
  "pc_weight Work_idle = 0"
| "pc_weight Saw_empty = 1"
| "pc_weight (Delivering m) = 2"
| "pc_weight (Removing m) = 1"

definition unrest :: "'d mms_sys \<Rightarrow> nat" where
  "unrest s = 8 * length (msg_list (topic s)) + 6 * noting s + 4 * kicking s +
     (if msg_work (topic s) then 3 else 0) + pc_weight (work_pc s)"

lemma busy_in_list:
  assumes "sys_inv s" and "busy_with (work_pc s) = Some m" shows "m \<in> set (msg_list (topic s))"
proof -
  obtain ms where "lane (msg_list (topic s)) (m_prio m) = m # ms" using assms by (auto simp: sys_inv_def)
  then have "m \<in> set (lane (msg_list (topic s)) (m_prio m))" by simp
  then show ?thesis by (simp add: lane_def)
qed

lemma internal_less:
  assumes "sys_inv s" and "internal_step s s'" shows "unrest s' < unrest s"
  using assms(2)
proof cases
  case (remove m)
  then have "m \<in> set (msg_list (topic s))" using busy_in_list [OF assms(1)] by simp
  then have "Suc (length (remove1 m (msg_list (topic s)))) = length (msg_list (topic s))"
    by (simp add: length_remove1) (metis Suc_pred length_pos_if_in_set)
  then show ?thesis using remove by (simp add: unrest_def)
qed (simp_all add: unrest_def)

lemma at_rest:
  assumes "sys_inv s" and "\<nexists>s'. internal_step s s'"
  shows "msg_list (topic s) = [] \<and> work_pc s = Work_idle \<and> \<not> msg_work (topic s)"
proof -
  have pc: "work_pc s = Work_idle" using assms(2) internal_step.intros(4,6,7) [of s] by (cases "work_pc s") blast+
  have n: "noting s = 0" using assms(2) internal_step.intros(1) [of s] by (cases "noting s") blast+
  have k: "kicking s = 0" using assms(2) internal_step.intros(2) [of s] by (cases "kicking s") blast+
  have w: "\<not> msg_work (topic s)"
    using assms(2) internal_step.intros(3,5) [of s] pc by (cases "msg_list (topic s)") blast+
  then show ?thesis using assms(1) pc n k by (auto simp: sys_inv_def)
qed

lemma mset_lanes: "mset q = (\<Sum>p\<in>{MSG_PRIO_HIGH, MSG_PRIO_MEDIUM, MSG_PRIO_LOW}. mset (lane q p))"
proof (induction q)
  case (Cons m q)
  then show ?case by (cases "m_prio m") (simp_all add: lane_def)
qed (simp add: lane_def)

lemma lanes_mset: "(\<And>p. lane xs p = lane ys p) \<Longrightarrow> mset xs = mset ys"
  by (subst (1 2) mset_lanes) simp

section \<open>A run\<close>

definition demo_topic :: "unit oplus_mms" where
  "demo_topic = \<lparr>mms_name = ''demo'', item_table = [], drv_data = (), static_update_interval = 0,
     normal_update_interval = 0, subscribe_list = [\<lparr>subs_addr = 1, subs_name = ''a''\<rparr>], msg_list = [],
     update_work = None, msg_work = False, callback_work = False, changed = False, initialized = True,
     removing = False, use_cnt = 1, force_update = False, debug_item_id = 0, bufs = (\<lambda>_. None), delivered = []\<rparr>"

definition demo_mms_msg :: "u64 \<Rightarrow> mms_msg_prio \<Rightarrow> mms_msg" where
  "demo_mms_msg a p = \<lparr>m_addr = a, m_type = MSG_TYPE_TIMER, m_prio = p, m_item_id = 0, m_payload = MSG_LOAD_NULL,
     m_sync = False, m_int = 0\<rparr>"

abbreviation low_msg :: mms_msg where "low_msg \<equiv> demo_mms_msg 1 MSG_PRIO_LOW"
abbreviation high_msg :: mms_msg where "high_msg \<equiv> demo_mms_msg 2 MSG_PRIO_HIGH"

text \<open>Schedules: the steps by name, so that a run can be computed.\<close>

datatype sys_action = Add mms_msg | Awake | Kick | Run | Sleep | Deliver | Remove

fun act :: "sys_action \<Rightarrow> 'd mms_sys \<Rightarrow> 'd mms_sys option" where
  "act (Add m) s = (if m \<in> set (arrived s) then None
     else Some (s\<lparr>topic := enqueue_msg m (topic s), noting := Suc (noting s), arrived := arrived s @ [m]\<rparr>))"
| "act Awake s = (case noting s of 0 \<Rightarrow> None
     | Suc n \<Rightarrow> Some (s\<lparr>topic := stay_awake (topic s), noting := n, kicking := Suc (kicking s)\<rparr>))"
| "act Kick s = (case kicking s of 0 \<Rightarrow> None | Suc n \<Rightarrow> Some (s\<lparr>topic := queue_msg_work (topic s), kicking := n\<rparr>))"
| "act Run s = (if \<not> msg_work (topic s) \<or> work_pc s \<noteq> Work_idle then None
     else Some (s\<lparr>topic := (topic s)\<lparr>msg_work := False\<rparr>,
        work_pc := (case msg_list (topic s) of [] \<Rightarrow> Saw_empty | m # _ \<Rightarrow> Delivering m)\<rparr>))"
| "act Sleep s = (if work_pc s = Saw_empty then Some (s\<lparr>topic := relax (topic s), work_pc := Work_idle\<rparr>) else None)"
| "act Deliver s = (case work_pc s of Delivering m \<Rightarrow>
       Some (s\<lparr>topic := oplus_mms_notify_caller m (topic s), work_pc := Removing m, served := served s @ [m]\<rparr>) | _ \<Rightarrow> None)"
| "act Remove s = (case work_pc s of Removing m \<Rightarrow> Some (s\<lparr>topic := take_off m (topic s), work_pc := Work_idle\<rparr>) | _ \<Rightarrow> None)"

lemma act_step: "act a s = Some s' \<Longrightarrow> sys_step s s'"
  by (cases a) (auto split: if_splits nat.splits work_pc.splits list.splits
      intro: sys_step.add internal_step.intros [THEN sys_step.internal])

primrec run_sched :: "sys_action list \<Rightarrow> 'd mms_sys \<Rightarrow> 'd mms_sys option" where
  "run_sched [] s = Some s"
| "run_sched (a # as) s = (case act a s of None \<Rightarrow> None | Some s1 \<Rightarrow> run_sched as s1)"

lemma run_sched_reachable: "run_sched as s = Some s' \<Longrightarrow> sys_reachable s \<Longrightarrow> sys_reachable s'"
  by (induction as arbitrary: s) (auto split: option.splits dest: sys_reachable.stepped [OF _ act_step])

lemma quiet_demo_reachable: "sys_reachable (quiet_sys demo_topic)"
  by (rule sys_reachable.start) (simp_all add: demo_topic_def)

text \<open>Two messages are published, and the work delivers the second one, which has the higher priority.\<close>

definition demo_sys :: "unit mms_sys" where
  "demo_sys = the (run_sched [Add low_msg, Add high_msg, Awake, Kick, Run, Deliver] (quiet_sys demo_topic))"

lemma demo_sys_reachable: "sys_reachable demo_sys"
proof -
  have "\<not> Option.is_none (run_sched [Add low_msg, Add high_msg, Awake, Kick, Run, Deliver] (quiet_sys demo_topic))"
    by code_simp
  then have "run_sched [Add low_msg, Add high_msg, Awake, Kick, Run, Deliver] (quiet_sys demo_topic) = Some demo_sys"
    unfolding demo_sys_def by (auto simp: Option.is_none_def)
  then show ?thesis by (rule run_sched_reachable) (rule quiet_demo_reachable)
qed

lemma demo_sys_state:
  "served demo_sys = [high_msg] \<and> waiting demo_sys = [low_msg] \<and> msg_list (topic demo_sys) = [high_msg, low_msg]"
  by code_simp

section \<open>Properties\<close>

text \<open>C17: However publishers and the message work interleave, the messages of each priority are delivered
  in the order in which they were published, each of them once: those that arrived are those served
  followed by those still waiting, in this order.\<close>

theorem delivery_in_order:
  assumes "sys_reachable s"
  shows "filter (\<lambda>m. m_prio m = p) (arrived s) =
    filter (\<lambda>m. m_prio m = p) (served s) @ filter (\<lambda>m. m_prio m = p) (waiting s)"
  using sys_reachable_inv [OF assms] by (simp add: sys_inv_def lane_def)

theorem delivery_in_order_witness:
  "filter (\<lambda>m. m_prio m = MSG_PRIO_LOW) (arrived demo_sys) = [low_msg]"
  using delivery_in_order [OF demo_sys_reachable, of MSG_PRIO_LOW] demo_sys_state by (simp add: demo_mms_msg_def)

text \<open>The message the work chooses has the highest priority of all that wait.\<close>

theorem chosen_has_highest_priority:
  assumes "sys_reachable s" and "msg_list (topic s) = m # q" and "x \<in> set q"
  shows "m_prio m \<le> m_prio x"
  using sys_reachable_inv [OF assms(1)] assms(2,3) by (simp add: sys_inv_def in_order_Cons)

theorem chosen_has_highest_priority_witness: "m_prio high_msg \<le> m_prio low_msg"
  using chosen_has_highest_priority [OF demo_sys_reachable] demo_sys_state by simp

text \<open>C18: No message is left behind. Every step of publishers and work that needs no new message brings the
  system closer to its rest, so they come to an end, and when none of them can go on, all messages that
  were published were delivered.\<close>

theorem all_messages_delivered:
  assumes "sys_reachable s"
  shows "(\<forall>s'. internal_step s s' \<longrightarrow> unrest s' < unrest s) \<and>
    ((\<nexists>s'. internal_step s s') \<longrightarrow> msg_list (topic s) = [] \<and> mset (served s) = mset (arrived s))"
proof -
  note i = sys_reachable_inv [OF assms]
  have "mset (served s) = mset (arrived s)" if "\<nexists>s'. internal_step s s'"
    using at_rest [OF i that] i by (intro lanes_mset) (simp add: sys_inv_def waiting_def lane_def)
  then show ?thesis using internal_less [OF i] at_rest [OF i] by blast
qed

theorem all_messages_delivered_witness:
  "unrest (demo_sys\<lparr>topic := take_off high_msg (topic demo_sys), work_pc := Work_idle\<rparr>) < unrest demo_sys"
proof -
  have "work_pc demo_sys = Removing high_msg" by code_simp
  from internal_step.remove [OF this] show ?thesis using all_messages_delivered [OF demo_sys_reachable] by blast
qed

text \<open>The device may fall asleep although a message waits: the message work can find the list empty and
  release the wakeup source only after a publisher has queued a message and has seen the source still
  held. No publisher is under way then, and the message waits for a work of a queue that stops in suspend.\<close>

theorem sleeps_with_message_waiting:
  "\<exists>s :: unit mms_sys. sys_reachable s \<and> noting s = 0 \<and> kicking s = 0 \<and> work_pc s = Work_idle \<and>
     msg_list (topic s) \<noteq> [] \<and> \<not> changed (topic s)"
proof -
  let ?as = "[Add low_msg, Awake, Kick, Run, Deliver, Remove, Run, Add high_msg, Awake, Sleep, Kick]"
  let ?s = "the (run_sched ?as (quiet_sys demo_topic))"
  have "\<not> Option.is_none (run_sched ?as (quiet_sys demo_topic)) \<and> noting ?s = 0 \<and> kicking ?s = 0 \<and>
      work_pc ?s = Work_idle \<and> msg_list (topic ?s) \<noteq> [] \<and> \<not> changed (topic ?s)"
    by code_simp
  moreover from this have "run_sched ?as (quiet_sys demo_topic) = Some ?s" by (metis option.collapse Option.is_none_def)
  ultimately show ?thesis using run_sched_reachable quiet_demo_reachable by blast
qed

end
