(* ===== verification/Chg_Mms_Items.thy ===== *)
theory Chg_Mms_Items
  imports Chg_Mms
begin

unbundle bit_operations_syntax

text \<open>
  The items of a topic: the union of a number and a pointer, when new data is worth a message, how far
  the reported value can lag behind, and what a reader finds after messages with a payload.
\<close>

section \<open>The union\<close>

lemma intval_range: "- (2 ^ 31) \<le> intval d" "intval d < 2 ^ 31"
  using sint_range_size [of "ucast d :: u32"] by (simp_all add: intval_def word_size)

lemma low_half: "(ucast (set_intval i d) :: u32) = word_of_int i"
proof (rule bit_word_eqI)
  fix n assume n: "n < LENGTH(32)"
  have "bit (mask 32 :: u64) n" using n by (simp add: bit_mask_iff)
  moreover have "(mask 32 :: u64) = 0xFFFFFFFF" by (simp add: mask_eq_exp_minus_1)
  ultimately have "bit (0xFFFFFFFF :: u64) n" by metis
  then show "bit (ucast (set_intval i d) :: u32) n = bit (word_of_int i :: u32) n"
    using n by (simp add: set_intval_def bit_simps)
qed

lemma intval_set: "intval (set_intval i d) = sint (word_of_int i :: u32)"
  by (simp add: intval_def low_half)

lemma sint_in_range: "- (2 ^ 31) \<le> i \<Longrightarrow> i < 2 ^ 31 \<Longrightarrow> sint (word_of_int i :: u32) = i"
  by (simp add: int_word_sint)

lemma intval_set_intval [simp]: "intval (set_intval (intval e) d) = intval e"
  using intval_range [of e] by (simp only: intval_set) (rule sint_in_range)

section \<open>Thresholds\<close>

text \<open>The decision as one condition: an item without thresholds always reports, a string always does, and
  otherwise one of the active thresholds has to be met.\<close>

definition reports :: "'d mms_item \<Rightarrow> bool" where
  "reports it \<longleftrightarrow> str_data (desc it) \<or> up_thr_enable (desc it) \<and> crosses_up it \<or>
     update_thr_down (desc it) \<noteq> 0 \<and> crosses_down it \<or> dead_thr_enable (desc it) \<and> leaves_dead_zone it"

definition no_thresholds :: "'d mms_item_desc \<Rightarrow> bool" where
  "no_thresholds d \<longleftrightarrow> \<not> str_data d \<and> \<not> up_thr_enable d \<and> update_thr_down d = 0 \<and> \<not> dead_thr_enable d"

lemma thresholds_updated [simp]:
  "crosses_up (it\<lparr>updated := b\<rparr>) = crosses_up it" "crosses_down (it\<lparr>updated := b\<rparr>) = crosses_down it"
  "leaves_dead_zone (it\<lparr>updated := b\<rparr>) = leaves_dead_zone it" "reports (it\<lparr>updated := b\<rparr>) = reports it"
  by (simp_all add: crosses_up_def crosses_down_def leaves_dead_zone_def reports_def)

definition reported_data :: "'d mms_item \<Rightarrow> mms_msg_data" where
  "reported_data it = (if \<not> reports it then pre_data it
     else if str_data (desc it) then item_data it else set_intval (intval (item_data it)) (pre_data it))"

lemma check_thresholds_eq:
  "check_thresholds it = it\<lparr>pre_data := reported_data it, updated := (if no_thresholds (desc it) then updated it else reports it)\<rparr>"
  by (auto simp: check_thresholds_def reported_data_def no_thresholds_def reports_def report_int_def Let_def)

lemma get_item_less: "oplus_mms_get_item mms iid = Some i \<Longrightarrow> i < length (item_table mms) \<and> item_id (desc (item_table mms ! i)) = iid"
  by (auto simp: oplus_mms_get_item_def find_Some_iff)

lemma item_update_eq:
  assumes "oplus_mms_get_item mms iid = Some i" and "upd (desc (item_table mms ! i)) = Some f"
    and "it = (item_table mms ! i)\<lparr>item_data := f (drv_data mms)\<rparr>"
  shows "oplus_mms_item_update mms iid True =
    (no_thresholds (desc it) \<or> reports it,
     set_item i (it\<lparr>pre_data := reported_data it, updated := no_thresholds (desc it) \<or> reports it\<rparr>) mms)"
proof -
  have "reported_data (it\<lparr>updated := True\<rparr>) = reported_data it" by (simp add: reported_data_def)
  then show ?thesis
    using assms by (simp add: oplus_mms_item_update_def refresh_item_def Let_def check_thresholds_eq)
qed

text \<open>The value subscribers know of is never further from the data than the dead zone.\<close>

lemma diff_in_range:
  assumes "\<bar>sint (x :: u32)\<bar> < 2 ^ 30" and "\<bar>sint y\<bar> < 2 ^ 30"
  shows "sint (c_abs (x - y)) = \<bar>sint x - sint y\<bar>"
proof -
  have d: "sint (x - y) = sint x - sint y"
    using assms sint_in_range [of "sint x - sint y"] by (simp add: of_int_diff)
  show ?thesis
  proof (cases "sint (x - y) < 0")
    case True
    have "sint (- (x - y)) = - sint (x - y)"
      using assms d sint_in_range [of "- sint (x - y)"] by simp
    then show ?thesis using True d by (simp add: c_abs_def)
  next
    case False
    then show ?thesis using d by (simp add: c_abs_def)
  qed
qed

lemma leaves_iff:
  assumes "\<bar>intval (item_data it)\<bar> < 2 ^ 30" and "\<bar>intval (pre_data it)\<bar> < 2 ^ 30"
  shows "leaves_dead_zone it \<longleftrightarrow> \<bar>intval (item_data it) - intval (pre_data it)\<bar> \<ge> dead_zone_thr (desc it)"
  using assms by (simp add: leaves_dead_zone_def intval_def diff_in_range)

lemma reported_lag:
  assumes "dead_thr_enable (desc it)" "0 < dead_zone_thr (desc it)"
    and "\<bar>intval (item_data it)\<bar> < 2 ^ 30" and "\<bar>intval (pre_data it)\<bar> < 2 ^ 30"
  shows "\<bar>intval (item_data it) - intval (reported_data it)\<bar> < dead_zone_thr (desc it)"
  using assms leaves_iff [OF assms(3,4)] by (auto simp: reported_data_def reports_def)

section \<open>Payloads\<close>

lemma nth_set_item [simp]: "i < length (item_table mms) \<Longrightarrow> item_table (set_item i it mms) ! i = it"
  by (simp add: set_item_def)

lemma get_set_item [simp]:
  assumes "desc it = desc (item_table mms ! i)"
  shows "oplus_mms_get_item (set_item i it mms) iid = oplus_mms_get_item mms iid"
proof -
  have "item_id (desc ((item_table mms)[i := it] ! k)) = item_id (desc (item_table mms ! k))" if "k < length (item_table mms)" for k
    using that assms by (cases "k = i") simp_all
  then show ?thesis unfolding oplus_mms_get_item_def set_item_def by (intro find_cong) simp_all
qed

lemma notify_item:
  assumes "oplus_mms_get_item mms (m_item_id msg) = Some i" and "m_payload msg \<noteq> MSG_LOAD_NULL"
  shows "oplus_mms_notify_caller msg mms = run_callbacks msg (set_item i (check_thresholds (load_payload msg (item_table mms ! i))) mms)"
  using assms by (simp add: oplus_mms_notify_caller_def oplus_mms_item_update_by_msg_def)

lemma payload_desc [simp]:
  "desc (check_thresholds it) = desc it" "desc (load_payload msg it) = desc it"
  "item_data (check_thresholds it) = item_data it" "disabled (check_thresholds it) = disabled it"
  "disabled (load_payload msg it) = disabled it"
  by (simp_all add: check_thresholds_eq load_payload_def)

lemma sync_payload:
  assumes "oplus_mms_get_item mms (m_item_id msg) = Some i" and "m_payload msg \<noteq> MSG_LOAD_NULL"
    and "\<not> disabled (item_table mms ! i)" and "\<not> force_update mms"
    and "oplus_mms_publish_msg_sync (Some mms) (Some msg) = (rc, Some mms')"
  shows "rc = 0" and "oplus_mms_get_item_data (Some mms') (m_item_id msg) True False =
      (Inr (item_data (load_payload msg (item_table mms ! i))), Some mms')"
    and "bufs mms' (m_addr msg) = None" and "oplus_mms_get_item mms' iid = oplus_mms_get_item mms iid"
    and "desc (item_table mms' ! i) = desc (item_table mms ! i)" and "debug_item_id mms' = debug_item_id mms"
proof -
  let ?it = "check_thresholds (load_payload (msg\<lparr>m_sync := True\<rparr>) (item_table mms ! i))"
  have i: "i < length (item_table mms)" using get_item_less [OF assms(1)] by simp
  have l: "load_payload (msg\<lparr>m_sync := True\<rparr>) it = load_payload msg it" for it :: "'a mms_item"
    by (simp add: load_payload_def)
  have p: "rc = 0 \<and> mms' = kfree_msg msg (run_callbacks (msg\<lparr>m_sync := True\<rparr>) (set_item i ?it mms))"
    using assms(1,2,5) notify_item [of mms "msg\<lparr>m_sync := True\<rparr>" i]
    by (simp add: oplus_mms_publish_msg_sync_def do_oplus_mms_publish_msg_def publish_update_def)
  then show "rc = 0" "bufs mms' (m_addr msg) = None" by (simp_all add: kfree_msg_def)
  have t: "item_table mms' = item_table (set_item i ?it mms)" using p by (simp add: kfree_msg_def run_callbacks_def)
  have "oplus_mms_get_item mms' x = oplus_mms_get_item (set_item i ?it mms) x" for x
    by (simp add: oplus_mms_get_item_def t)
  then show g: "oplus_mms_get_item mms' iid = oplus_mms_get_item mms iid" for iid by simp
  show "desc (item_table mms' ! i) = desc (item_table mms ! i)" using i by (simp add: t)
  have "\<not> force_update mms'" "debug_item_id mms' = debug_item_id mms"
    using p assms(4) by (simp_all add: kfree_msg_def run_callbacks_def set_item_def)
  then show "debug_item_id mms' = debug_item_id mms" and
    "oplus_mms_get_item_data (Some mms') (m_item_id msg) True False =
      (Inr (item_data (load_payload msg (item_table mms ! i))), Some mms')"
    using assms(1,3) g i by (simp_all add: oplus_mms_get_item_data_def t l)
qed

lemma publish_sync_returns:
  obtains rc mms' where "oplus_mms_publish_msg_sync (Some mms) (Some msg) = (rc, Some mms')"
proof -
  obtain a b where "do_oplus_mms_publish_msg (msg\<lparr>m_sync := True\<rparr>) mms = (a, b)" by force
  then show thesis
    using that [of a b] that [of 0 "kfree_msg msg b"] by (cases "a \<le> 0") (simp_all add: oplus_mms_publish_msg_sync_def)
qed

section \<open>A topic\<close>

definition demo_desc :: "int mms_item_desc" where
  "demo_desc = \<lparr>item_id = 1, str_data = False, up_thr_enable = False, down_thr_enable = False, dead_thr_enable = True,
     update_thr_up = 0, update_thr_down = 0, dead_zone_thr = 10, upd = Some (\<lambda>d. set_intval d 0)\<rparr>"

definition demo_item :: "int mms_item_desc \<Rightarrow> int mms_item" where
  "demo_item d = \<lparr>desc = d, updated = False, disabled = False, item_data = 100, pre_data = 100\<rparr>"

text \<open>Item 1 is a number with a dead zone of 10, item 2 a string; the driver measures 105.\<close>

definition demo_items :: "int oplus_mms" where
  "demo_items = \<lparr>mms_name = ''demo'', item_table = [demo_item demo_desc, demo_item (demo_desc\<lparr>item_id := 2, str_data := True\<rparr>)],
     drv_data = 105, static_update_interval = 0, normal_update_interval = 0, subscribe_list = [], msg_list = [],
     update_work = None, msg_work = False, callback_work = False, changed = False, initialized = True,
     removing = False, use_cnt = 1, force_update = False, debug_item_id = 2, bufs = (\<lambda>_. None), delivered = []\<rparr>"

lemma demo_get_item: "oplus_mms_get_item demo_items 1 = Some 0" "oplus_mms_get_item demo_items 2 = Some 1"
  by (simp_all add: oplus_mms_get_item_def demo_items_def demo_item_def demo_desc_def upt_rec)

section \<open>Properties\<close>

text \<open>When an item is refreshed for a message, the message is sent exactly when the item has no thresholds or
  one of the active ones is met by the new data: a string, the upper threshold crossed from below, the
  lower one from above, or the dead zone around the last reported value left. The reported value changes
  only with a message, to the new data.\<close>

theorem message_worth_sending:
  assumes "oplus_mms_get_item mms iid = Some i" and "upd (desc (item_table mms ! i)) = Some f"
    and "it = (item_table mms ! i)\<lparr>item_data := f (drv_data mms)\<rparr>"
    and "oplus_mms_item_update mms iid True = (send, mms')"
  shows "(send \<longleftrightarrow> no_thresholds (desc it) \<or> reports it) \<and> item_data (item_table mms' ! i) = f (drv_data mms) \<and>
    pre_data (item_table mms' ! i) =
      (if \<not> reports it then pre_data it
       else if str_data (desc it) then item_data it else set_intval (intval (item_data it)) (pre_data it))"
  using item_update_eq [OF assms(1-3)] assms(3,4) get_item_less [OF assms(1)] by (auto simp: reported_data_def)

theorem message_worth_sending_witness:
  "\<not> fst (oplus_mms_item_update demo_items 1 True) \<and> fst (oplus_mms_item_update (demo_items\<lparr>drv_data := 110\<rparr>) 1 True)"
proof -
  have d: "upd (desc (item_table demo_items ! 0)) = Some (\<lambda>d. set_intval d 0)"
    "upd (desc (item_table (demo_items\<lparr>drv_data := 110\<rparr>) ! 0)) = Some (\<lambda>d. set_intval d 0)"
    by (simp_all add: demo_items_def demo_item_def demo_desc_def)
  have g: "oplus_mms_get_item (demo_items\<lparr>drv_data := 110\<rparr>) 1 = Some 0"
    using demo_get_item(1) by (simp add: oplus_mms_get_item_def)
  have r: "\<not> reports ((item_table demo_items ! 0)\<lparr>item_data := set_intval 105 0\<rparr>)"
    "reports ((item_table demo_items ! 0)\<lparr>item_data := set_intval 110 0\<rparr>)"
    "\<not> no_thresholds (desc (item_table demo_items ! 0))" "drv_data demo_items = 105" by code_simp+
  show ?thesis
    using message_worth_sending [OF demo_get_item(1) d(1) refl surjective_pairing]
      message_worth_sending [OF g d(2) refl surjective_pairing] r by simp
qed

text \<open>An item with a dead zone never leaves its subscribers further behind: after a refresh for a message,
  sent or not, the value they were told of differs from the data by less than the dead zone, as long as
  the values stay below half of the range of an \<open>int\<close>.\<close>

theorem lag_within_dead_zone:
  assumes "oplus_mms_get_item mms iid = Some i" and "upd (desc (item_table mms ! i)) = Some f"
    and "dead_thr_enable (desc (item_table mms ! i))" and "0 < dead_zone_thr (desc (item_table mms ! i))"
    and "\<bar>intval (f (drv_data mms))\<bar> < 2 ^ 30" and "\<bar>intval (pre_data (item_table mms ! i))\<bar> < 2 ^ 30"
    and "it = item_table (snd (oplus_mms_item_update mms iid True)) ! i"
  shows "\<bar>intval (item_data it) - intval (pre_data it)\<bar> < dead_zone_thr (desc it)"
  using item_update_eq [OF assms(1,2) refl] assms(7) get_item_less [OF assms(1)]
    reported_lag [of "(item_table mms ! i)\<lparr>item_data := f (drv_data mms)\<rparr>"] assms(3-6) by simp

theorem lag_within_dead_zone_witness:
  "\<bar>intval (item_data (item_table (snd (oplus_mms_item_update demo_items 1 True)) ! 0)) -
     intval (pre_data (item_table (snd (oplus_mms_item_update demo_items 1 True)) ! 0))\<bar> < 10"
proof -
  have d: "upd (desc (item_table demo_items ! 0)) = Some (\<lambda>d. set_intval d 0)"
    by (simp add: demo_items_def demo_item_def demo_desc_def)
  have "dead_thr_enable (desc (item_table demo_items ! 0))" "0 < dead_zone_thr (desc (item_table demo_items ! 0))"
    "\<bar>intval (set_intval (drv_data demo_items) 0)\<bar> < 2 ^ 30" "\<bar>intval (pre_data (item_table demo_items ! 0))\<bar> < 2 ^ 30"
    by code_simp+
  note lag = lag_within_dead_zone [OF demo_get_item(1) d this refl]
  have "dead_zone_thr (desc (item_table (snd (oplus_mms_item_update demo_items 1 True)) ! 0)) = 10" by code_simp
  then show ?thesis using lag by (simp only:)
qed

text \<open>A number published synchronously is what a reader of the item gets afterwards.\<close>

theorem published_number_is_read:
  assumes "oplus_mms_get_item mms iid = Some i" and "\<not> disabled (item_table mms ! i)" and "\<not> force_update mms"
    and "oplus_mms_alloc_int_msg (Some a) type prio iid d = Some msg" and "- (2 ^ 31) \<le> d" and "d < 2 ^ 31"
    and "oplus_mms_publish_msg_sync (Some mms) (Some msg) = (rc, Some mms')"
  shows "rc = 0 \<and> map_sum (\<lambda>e. e) intval (fst (oplus_mms_get_item_data (Some mms') iid True False)) = Inr d"
proof -
  have m: "m_item_id msg = iid" "m_payload msg = MSG_LOAD_INT" "m_int msg = d"
    using assms(4) by (auto simp: oplus_mms_alloc_int_msg_def)
  have g: "oplus_mms_get_item mms (m_item_id msg) = Some i" "m_payload msg \<noteq> MSG_LOAD_NULL" using assms(1) m by simp_all
  note r = sync_payload [OF g assms(2,3,7)]
  show ?thesis using r(1,2) m assms(5,6) by (simp add: load_payload_def intval_set sint_in_range)
qed

theorem published_number_is_read_witness:
  "\<exists>mms'. map_sum (\<lambda>e. e) intval (fst (oplus_mms_get_item_data (Some mms') 1 True False)) = Inr 42 \<and>
     snd (oplus_mms_publish_msg_sync (Some demo_items) (oplus_mms_alloc_int_msg (Some 7) MSG_TYPE_ITEM MSG_PRIO_HIGH 1 42)) = Some mms'"
proof -
  let ?msg = "\<lparr>m_addr = 7, m_type = MSG_TYPE_ITEM, m_prio = MSG_PRIO_HIGH, m_item_id = 1, m_payload = MSG_LOAD_INT,
     m_sync = False, m_int = 42\<rparr>"
  have a: "oplus_mms_alloc_int_msg (Some 7) MSG_TYPE_ITEM MSG_PRIO_HIGH 1 42 = Some ?msg"
    by (simp add: oplus_mms_alloc_int_msg_def)
  obtain rc mms' where p: "oplus_mms_publish_msg_sync (Some demo_items) (Some ?msg) = (rc, Some mms')"
    by (rule publish_sync_returns)
  have "\<not> disabled (item_table demo_items ! 0)" "\<not> force_update demo_items" by code_simp+
  from published_number_is_read [OF demo_get_item(1) this a _ _ p] p a show ?thesis by auto
qed

text \<open>A string published synchronously cannot be read any more once the message is delivered: the item
  keeps a pointer into the message, which its sender frees, and the debug attribute reads freed memory.\<close>

theorem string_item_dangles:
  assumes "oplus_mms_get_item mms iid = Some i" and "\<not> disabled (item_table mms ! i)" and "\<not> force_update mms"
    and "str_data (desc (item_table mms ! i))" and "debug_item_id mms = iid"
    and "oplus_mms_alloc_str_msg (Some a) type prio iid txt mms = Some (msg, mms1)"
    and "oplus_mms_publish_msg_sync (Some mms1) (Some msg) = (rc, Some mms')"
  shows "rc = 0 \<and> bufs mms1 a = Some (take (TOPIC_MSG_STR_BUF - 1) txt) \<and> data_show mms' = Shown_str None"
proof -
  have m: "m_item_id msg = iid" "m_payload msg = MSG_LOAD_STR" "m_addr msg = a"
    and 1: "mms1 = mms\<lparr>bufs := (bufs mms)(a \<mapsto> take (TOPIC_MSG_STR_BUF - 1) txt)\<rparr>"
    using assms(6) by (auto simp: oplus_mms_alloc_str_msg_def)
  have g: "oplus_mms_get_item mms1 (m_item_id msg) = Some i" "m_payload msg \<noteq> MSG_LOAD_NULL"
    "\<not> disabled (item_table mms1 ! i)" "\<not> force_update mms1"
    using assms(1-3) m by (simp_all add: 1 oplus_mms_get_item_def)
  note r = sync_payload [OF g assms(7)]
  have "oplus_mms_item_is_str (Some mms') iid"
    using r(4) [of iid] r(5) g(1) m assms(4) by (simp add: oplus_mms_item_is_str_def 1)
  then show ?thesis using r(1-3,6) m assms(5) by (simp add: data_show_def load_payload_def 1)
qed

theorem string_item_dangles_witness:
  "\<exists>msg mms1 mms'. oplus_mms_alloc_str_msg (Some 9) MSG_TYPE_ITEM MSG_PRIO_HIGH 2 ''hot'' demo_items = Some (msg, mms1) \<and>
     snd (oplus_mms_publish_msg_sync (Some mms1) (Some msg)) = Some mms' \<and> data_show mms' = Shown_str None"
proof -
  obtain msg mms1 where a: "oplus_mms_alloc_str_msg (Some 9) MSG_TYPE_ITEM MSG_PRIO_HIGH 2 ''hot'' demo_items = Some (msg, mms1)"
    by (auto simp: oplus_mms_alloc_str_msg_def)
  obtain rc mms' where p: "oplus_mms_publish_msg_sync (Some mms1) (Some msg) = (rc, Some mms')"
    by (rule publish_sync_returns)
  have "\<not> disabled (item_table demo_items ! 1)" "\<not> force_update demo_items" "str_data (desc (item_table demo_items ! 1))"
    "debug_item_id demo_items = 2" by code_simp+
  from string_item_dangles [OF demo_get_item(2) this a p] a p show ?thesis by auto
qed

end
