(* ===== verification/Chg_Mms_Registry.thy ===== *)
theory Chg_Mms_Registry
  imports Chg_Mms "HOL-Library.Multiset"
begin

text \<open>
  Registering topics and waiting for them. A driver that needs a topic asks for it by name and is called
  back when the topic exists, at once or when it is registered later. Asking and registering run at the
  same time on different processors; the steps below are the actions between which they can interleave.
\<close>

section \<open>Operations\<close>

text \<open>The class has the devices of the topics; a waiter is a name with a callback and its data, \<open>'k\<close> for
  short, and \<open>called\<close> logs the callbacks.\<close>

record ('d, 'k) mms_class =
  class_devices :: "'d oplus_mms list"
  wait_list :: "(string \<times> 'k) list"
  called :: "(string \<times> 'k) list"

definition set_device :: "nat \<Rightarrow> 'd oplus_mms \<Rightarrow> ('d, 'k) mms_class \<Rightarrow> ('d, 'k) mms_class" where
  "set_device i t c = c\<lparr>class_devices := (class_devices c)[i := t]\<rparr>"

definition find_device :: "string \<Rightarrow> ('d, 'k) mms_class \<Rightarrow> nat option" where
  "find_device name c = find (\<lambda>i. mms_name (class_devices c ! i) = name) [0..<length (class_devices c)]"

definition oplus_mms_get_by_name :: "string \<Rightarrow> ('d, 'k) mms_class \<Rightarrow> nat option \<times> ('d, 'k) mms_class" where
  "oplus_mms_get_by_name name c =
     (case find_device name c of
        None \<Rightarrow> (None, c)
      | Some i \<Rightarrow> (Some i, set_device i ((class_devices c ! i)\<lparr>use_cnt := use_cnt (class_devices c ! i) + 1\<rparr>) c))"

definition oplus_mms_put :: "nat \<Rightarrow> ('d, 'k) mms_class \<Rightarrow> ('d, 'k) mms_class" where
  "oplus_mms_put i c = set_device i ((class_devices c ! i)\<lparr>use_cnt := use_cnt (class_devices c ! i) - 1\<rparr>) c"

text \<open>The waiters of a topic are moved to a list of their own, each to its front, and called from there.\<close>

definition oplus_mms_call :: "string \<Rightarrow> ('d, 'k) mms_class \<Rightarrow> ('d, 'k) mms_class" where
  "oplus_mms_call name c =
     c\<lparr>wait_list := filter (\<lambda>h. fst h \<noteq> name) (wait_list c),
       called := called c @ rev (filter (\<lambda>h. fst h = name) (wait_list c))\<rparr>"

definition wait_lookup :: "string \<Rightarrow> 'k \<Rightarrow> ('d, 'k) mms_class \<Rightarrow> bool \<times> ('d, 'k) mms_class" where
  "wait_lookup name k c =
     (case oplus_mms_get_by_name name c of
        (Some _, c1) \<Rightarrow> (True, c1\<lparr>called := called c1 @ [(name, k)]\<rparr>)
      | (None, c1) \<Rightarrow> (False, c1))"

definition wait_enqueue :: "string \<Rightarrow> 'k \<Rightarrow> ('d, 'k) mms_class \<Rightarrow> ('d, 'k) mms_class" where
  "wait_enqueue name k c = c\<lparr>wait_list := (name, k) # wait_list c\<rparr>"

definition wait_recheck :: "string \<Rightarrow> ('d, 'k) mms_class \<Rightarrow> ('d, 'k) mms_class" where
  "wait_recheck name c =
     (case oplus_mms_get_by_name name c of
        (None, c1) \<Rightarrow> c1
      | (Some i, c1) \<Rightarrow> if \<not> initialized (class_devices c1 ! i) then c1 else oplus_mms_call name c1)"

definition oplus_mms_wait_topic :: "string \<Rightarrow> 'k \<Rightarrow> bool \<Rightarrow> ('d, 'k) mms_class \<Rightarrow> rc \<times> ('d, 'k) mms_class" where
  "oplus_mms_wait_topic name k mem c =
     (let (found, c1) = wait_lookup name k c in
      if found then (0, c1)
      else if \<not> mem then (- ENODEV, c1)
      else (0, wait_recheck name (wait_enqueue name k c1)))"

definition oplus_mms_callback_work :: "nat \<Rightarrow> ('d, 'k) mms_class \<Rightarrow> ('d, 'k) mms_class" where
  "oplus_mms_callback_work i c =
     oplus_mms_call (mms_name (class_devices c ! i)) (set_device i ((class_devices c ! i)\<lparr>callback_work := False\<rparr>) c)"

text \<open>The description of a topic; the table of the items is missing when it is empty.\<close>

record 'd oplus_mms_desc =
  d_name :: "string option"
  d_items :: "'d mms_item list"
  d_update_interval :: int
  d_update :: bool

text \<open>\<open>interval\<close> is that of the configuration, 0 when there is none.\<close>

definition new_topic :: "'d oplus_mms_desc \<Rightarrow> 'd \<Rightarrow> int \<Rightarrow> 'd oplus_mms" where
  "new_topic d drv interval =
     (let st = (if interval \<noteq> 0 then interval else d_update_interval d) in
      \<lparr>mms_name = (case d_name d of Some n \<Rightarrow> n | None \<Rightarrow> []), item_table = map (\<lambda>it. it\<lparr>disabled := False\<rparr>) (d_items d),
       drv_data = drv, static_update_interval = st, normal_update_interval = st, subscribe_list = [], msg_list = [],
       update_work = None, msg_work = False, callback_work = False, changed = False, initialized = False,
       removing = False, use_cnt = 0, force_update = False, debug_item_id = 0, bufs = (\<lambda>_. None), delivered = []\<rparr>)"

definition register_init :: "nat \<Rightarrow> ('d, 'k) mms_class \<Rightarrow> ('d, 'k) mms_class" where
  "register_init i c =
     set_device i ((class_devices c ! i)\<lparr>use_cnt := use_cnt (class_devices c ! i) + 1, initialized := True\<rparr>) c"

definition register_schedule :: "nat \<Rightarrow> ('d, 'k) mms_class \<Rightarrow> ('d, 'k) mms_class" where
  "register_schedule i c = set_device i ((queue_update_work 0 (class_devices c ! i))\<lparr>callback_work := True\<rparr>) c"

text \<open>\<open>mem\<close>, \<open>name_rc\<close>, \<open>add_rc\<close> and \<open>wakeup_rc\<close> are the results of the allocation, of naming and adding the device
  and of setting up its wakeup source. The result is the position of the device.\<close>

definition do_oplus_mms_register ::
  "'d oplus_mms_desc \<Rightarrow> 'd \<Rightarrow> int \<Rightarrow> bool \<Rightarrow> rc \<Rightarrow> rc \<Rightarrow> rc \<Rightarrow> ('d, 'k) mms_class \<Rightarrow> (rc + nat) \<times> ('d, 'k) mms_class" where
  "do_oplus_mms_register d drv interval mem name_rc add_rc wakeup_rc c =
     (if d_name d = None \<or> d_items d = [] then (Inl (- EINVAL), c)
      else if d_update_interval d \<noteq> 0 \<and> \<not> d_update d then (Inl (- EINVAL), c)
      else if \<not> mem then (Inl (- ENOMEM), c)
      else if name_rc \<noteq> 0 then (Inl name_rc, c)
      else if add_rc \<noteq> 0 then (Inl add_rc, c)
      else
        let i = length (class_devices c);
            c1 = c\<lparr>class_devices := class_devices c @ [new_topic d drv interval]\<rparr> in
        if wakeup_rc \<noteq> 0 then (Inl wakeup_rc, c1)
        else (Inr i, register_schedule i (register_init i c1)))"

text \<open>Unregistering warns when somebody still holds the topic.\<close>

definition oplus_mms_unregister :: "nat \<Rightarrow> ('d, 'k) mms_class \<Rightarrow> bool \<times> ('d, 'k) mms_class" where
  "oplus_mms_unregister i c =
     (use_cnt (class_devices c ! i) - 1 \<noteq> 0,
      c\<lparr>class_devices := take i (class_devices c) @ drop (Suc i) (class_devices c)\<rparr>)"

section \<open>Interleaved steps\<close>

text \<open>\<open>looked\<close> are the waiters that did not find their topic and have yet to enter the list, \<open>rechecks\<close> the names
  that waiters will look up once more, \<open>scheduling\<close> the topics that are initialized and whose callback work has
  yet to be scheduled, \<open>asked\<close> all waiters so far except those that got an error.\<close>

record ('d, 'k) reg_sys =
  cls :: "('d, 'k) mms_class"
  looked :: "(string \<times> 'k) list"
  rechecks :: "string list"
  scheduling :: "string list"
  asked :: "(string \<times> 'k) list"

text \<open>Other operations change topics without touching what registration and waiting look at.\<close>

definition same_registration :: "'d oplus_mms \<Rightarrow> 'd oplus_mms \<Rightarrow> bool" where
  "same_registration t u \<longleftrightarrow> mms_name u = mms_name t \<and> initialized u = initialized t \<and> callback_work u = callback_work t"

inductive reg_step :: "('d, 'k) reg_sys \<Rightarrow> ('d, 'k) reg_sys \<Rightarrow> bool" where
  ask: "(n, k) \<notin> set (asked s) \<Longrightarrow> wait_lookup n k (cls s) = (found, c) \<Longrightarrow>
    reg_step s (s\<lparr>cls := c, looked := (if found then looked s else (n, k) # looked s), asked := (n, k) # asked s\<rparr>)"
| enter: "(n, k) \<in> set (looked s) \<Longrightarrow>
    reg_step s (s\<lparr>cls := wait_enqueue n k (cls s), looked := remove1 (n, k) (looked s), rechecks := n # rechecks s\<rparr>)"
| no_memory: "(n, k) \<in> set (looked s) \<Longrightarrow>
    reg_step s (s\<lparr>looked := remove1 (n, k) (looked s), asked := remove1 (n, k) (asked s)\<rparr>)"
| recheck: "n \<in> set (rechecks s) \<Longrightarrow>
    reg_step s (s\<lparr>cls := wait_recheck n (cls s), rechecks := remove1 n (rechecks s)\<rparr>)"
| add_device: "mms_name t \<notin> mms_name ` set (class_devices (cls s)) \<Longrightarrow> \<not> initialized t \<Longrightarrow> \<not> callback_work t \<Longrightarrow>
    reg_step s (s\<lparr>cls := (cls s)\<lparr>class_devices := class_devices (cls s) @ [t]\<rparr>\<rparr>)"
| init: "i < length (class_devices (cls s)) \<Longrightarrow> \<not> initialized (class_devices (cls s) ! i) \<Longrightarrow>
    reg_step s (s\<lparr>cls := register_init i (cls s), scheduling := mms_name (class_devices (cls s) ! i) # scheduling s\<rparr>)"
| schedule: "i < length (class_devices (cls s)) \<Longrightarrow> n = mms_name (class_devices (cls s) ! i) \<Longrightarrow> n \<in> set (scheduling s) \<Longrightarrow>
    reg_step s (s\<lparr>cls := register_schedule i (cls s), scheduling := remove1 n (scheduling s)\<rparr>)"
| callback: "i < length (class_devices (cls s)) \<Longrightarrow> callback_work (class_devices (cls s) ! i) \<Longrightarrow>
    reg_step s (s\<lparr>cls := oplus_mms_callback_work i (cls s)\<rparr>)"
| unregister: "i < length (class_devices (cls s)) \<Longrightarrow> initialized (class_devices (cls s) ! i) \<Longrightarrow>
    mms_name (class_devices (cls s) ! i) \<notin> set (scheduling s) \<Longrightarrow>
    reg_step s (s\<lparr>cls := snd (oplus_mms_unregister i (cls s))\<rparr>)"
| other: "i < length (class_devices (cls s)) \<Longrightarrow> same_registration (class_devices (cls s) ! i) t \<Longrightarrow>
    reg_step s (s\<lparr>cls := set_device i t (cls s)\<rparr>)"

definition empty_class :: "('d, 'k) reg_sys" where
  "empty_class = \<lparr>cls = \<lparr>class_devices = [], wait_list = [], called = []\<rparr>, looked = [], rechecks = [], scheduling = [], asked = []\<rparr>"

inductive reg_reachable :: "('d, 'k) reg_sys \<Rightarrow> bool" where
  empty: "reg_reachable empty_class"
| stepped: "reg_reachable s \<Longrightarrow> reg_step s s' \<Longrightarrow> reg_reachable s'"

section \<open>The invariant\<close>

text \<open>What registration and waiting look at of a topic.\<close>

definition reg_key :: "'d oplus_mms \<Rightarrow> string \<times> bool \<times> bool" where
  "reg_key t = (mms_name t, initialized t, callback_work t)"

definition keys :: "('d, 'k) mms_class \<Rightarrow> (string \<times> bool \<times> bool) list" where
  "keys c = map reg_key (class_devices c)"

text \<open>A waiter in the list whose topic is initialized will be called: by the callback work of the topic, which is
  scheduled or about to be, or by somebody who looks once more.\<close>

definition will_be_called ::
  "(string \<times> 'k) list \<Rightarrow> (string \<times> bool \<times> bool) list \<Rightarrow> string list \<Rightarrow> string list \<Rightarrow> bool" where
  "will_be_called ws ks sch rec \<longleftrightarrow>
     (\<forall>h\<in>set ws. \<forall>(n, init, work)\<in>set ks. n = fst h \<longrightarrow> init \<longrightarrow> work \<or> n \<in> set sch \<or> n \<in> set rec)"

definition reg_inv :: "('d, 'k) reg_sys \<Rightarrow> bool" where
  "reg_inv s \<longleftrightarrow> distinct (asked s) \<and>
     mset (asked s) = mset (looked s) + (mset (wait_list (cls s)) + mset (called (cls s))) \<and>
     distinct (map fst (keys (cls s))) \<and>
     will_be_called (wait_list (cls s)) (keys (cls s)) (scheduling s) (rechecks s)"

lemma set_device_parts [simp]:
  "class_devices (set_device i t c) = (class_devices c)[i := t]" "wait_list (set_device i t c) = wait_list c"
  "called (set_device i t c) = called c" "keys (set_device i t c) = (keys c)[i := reg_key t]"
  by (simp_all add: set_device_def keys_def map_update)

lemma call_parts [simp]: "class_devices (oplus_mms_call n c) = class_devices c" "keys (oplus_mms_call n c) = keys c"
  "wait_list (oplus_mms_call n c) = filter (\<lambda>h. fst h \<noteq> n) (wait_list c)"
  by (simp_all add: oplus_mms_call_def keys_def)

lemma keys_same: "reg_key t = reg_key (class_devices c ! i) \<Longrightarrow> (keys c)[i := reg_key t] = keys c"
  by (cases "i < length (class_devices c)") (simp_all add: keys_def list_update_beyond list_update_same_conv)

lemma names_same: "fst x = fst (ks ! i) \<Longrightarrow> map fst (ks[i := x]) = map fst ks"
  by (cases "i < length ks") (simp_all add: map_update list_update_beyond list_update_same_conv)

lemma find_device_Some: "find_device n c = Some i \<Longrightarrow> i < length (class_devices c) \<and> mms_name (class_devices c ! i) = n"
  by (auto simp: find_device_def find_Some_iff)

lemma find_device_None: "find_device n c = None \<Longrightarrow> n \<notin> fst ` set (keys c)"
  by (auto simp: find_device_def find_None_iff keys_def reg_key_def in_set_conv_nth)

lemma reg_key_use_cnt [simp]: "reg_key (t\<lparr>use_cnt := u\<rparr>) = reg_key t"
  by (simp add: reg_key_def)

text \<open>Looking a topic up only counts its users.\<close>

lemma get_by_name_parts:
  assumes "oplus_mms_get_by_name n c = (r, c1)"
  shows "wait_list c1 = wait_list c" "called c1 = called c" "keys c1 = keys c" "r = find_device n c"
  using assms by (auto simp: oplus_mms_get_by_name_def keys_same split: option.splits)

lemma filter_split_mset: "mset (filter (\<lambda>h. \<not> P h) xs) + mset (filter P xs) = mset xs"
  by (induction xs) simp_all

lemma call_mset: "mset (wait_list (oplus_mms_call n c)) + mset (called (oplus_mms_call n c)) = mset (wait_list c) + mset (called c)"
  using filter_split_mset [of "\<lambda>h. fst h = n" "wait_list c"] by (simp add: oplus_mms_call_def)

lemma will_be_called_removed:
  "will_be_called ws ks sch rec \<Longrightarrow> will_be_called (filter (\<lambda>h. fst h \<noteq> n) ws) ks sch (remove1 n rec)"
  by (fastforce simp: will_be_called_def in_set_remove1)

text \<open>Somebody who looked and found no initialized topic is not needed.\<close>

lemma will_be_called_absent:
  "will_be_called ws ks sch rec \<Longrightarrow> \<forall>(n', init, work)\<in>set ks. n' = n \<longrightarrow> \<not> init \<Longrightarrow> will_be_called ws ks sch (remove1 n rec)"
  by (fastforce simp: will_be_called_def in_set_remove1)

lemma not_initialized_name:
  assumes "distinct (map fst (keys c))" and "i < length (class_devices c)" and "\<not> initialized (class_devices c ! i)"
  shows "\<forall>(n, init, work)\<in>set (keys c). n = mms_name (class_devices c ! i) \<longrightarrow> \<not> init"
proof -
  have "(mms_name (class_devices c ! i), initialized (class_devices c ! i), callback_work (class_devices c ! i)) \<in> set (keys c)"
    using assms(2) by (auto simp: keys_def reg_key_def)
  then show ?thesis using assms(1,3) eq_key_imp_eq_value [OF assms(1)] by fastforce
qed

lemma recheck_inv:
  assumes "distinct (map fst (keys c))" and "will_be_called (wait_list c) (keys c) sch rec" and "c' = wait_recheck n c"
  shows "keys c' = keys c" and "mset (wait_list c') + mset (called c') = mset (wait_list c) + mset (called c)"
    and "will_be_called (wait_list c') (keys c') sch (remove1 n rec)"
proof -
  obtain r c1 where g: "oplus_mms_get_by_name n c = (r, c1)" by force
  note p = get_by_name_parts [OF g]
  have "keys c' = keys c \<and> mset (wait_list c') + mset (called c') = mset (wait_list c) + mset (called c) \<and>
    will_be_called (wait_list c') (keys c') sch (remove1 n rec)"
  proof (cases r)
    case None
    have "\<forall>(n', init, work)\<in>set (keys c). n' = n \<longrightarrow> \<not> init" using find_device_None [of n c] None p(4) by force
    then show ?thesis using None g p assms(2,3) will_be_called_absent by (auto simp: wait_recheck_def)
  next
    case (Some i)
    have f: "i < length (class_devices c)" "mms_name (class_devices c ! i) = n" using find_device_Some Some p(4) by metis+
    have "initialized (class_devices c1 ! i) = initialized (class_devices c ! i)"
      using g Some f by (auto simp: oplus_mms_get_by_name_def split: option.splits)
    then show ?thesis
      using Some g p assms f not_initialized_name [OF assms(1) f(1)] call_mset [of n c1]
      by (cases "initialized (class_devices c ! i)")
        (auto simp: wait_recheck_def will_be_called_removed will_be_called_absent)
  qed
  then show "keys c' = keys c" "mset (wait_list c') + mset (called c') = mset (wait_list c) + mset (called c)"
    "will_be_called (wait_list c') (keys c') sch (remove1 n rec)" by blast+
qed

lemma ask_inv:
  assumes "reg_inv s" and "(n, k) \<notin> set (asked s)" and "wait_lookup n k (cls s) = (found, c)"
  shows "reg_inv (s\<lparr>cls := c, looked := (if found then looked s else (n, k) # looked s), asked := (n, k) # asked s\<rparr>)"
proof -
  obtain r c1 where g: "oplus_mms_get_by_name n (cls s) = (r, c1)" by force
  note p = get_by_name_parts [OF g]
  consider "found" "c = c1\<lparr>called := called c1 @ [(n, k)]\<rparr>" | "\<not> found" "c = c1"
    using assms(3) g by (auto simp: wait_lookup_def split: option.splits)
  then show ?thesis
  proof cases
    case 1
    then have "keys c = keys c1" by (simp add: keys_def)
    then show ?thesis using 1 assms(1,2) p by (simp add: reg_inv_def)
  qed (use assms(1,2) p in \<open>simp add: reg_inv_def\<close>)
qed

lemma key_nth: "i < length (class_devices c) \<Longrightarrow> keys c ! i = reg_key (class_devices c ! i)"
  by (simp add: keys_def)

lemma update_inv:
  assumes "reg_inv s" and "i < length (class_devices (cls s))" and "mms_name t = mms_name (class_devices (cls s) ! i)"
    and "will_be_called (wait_list (cls s)) ((keys (cls s))[i := reg_key t]) sch (rechecks s)"
  shows "reg_inv (s\<lparr>cls := set_device i t (cls s), scheduling := sch\<rparr>)"
proof -
  have "fst (reg_key t) = fst (keys (cls s) ! i)" using assms(2,3) by (simp add: key_nth) (simp add: reg_key_def)
  then have "map fst ((keys (cls s))[i := reg_key t]) = map fst (keys (cls s))" by (rule names_same)
  then show ?thesis using assms(1,4) unfolding reg_inv_def by simp
qed

lemma will_be_called_update:
  assumes "will_be_called ws ks sch rec"
    and "\<And>n'. n' \<in> set sch \<Longrightarrow> n' \<noteq> n \<Longrightarrow> n' \<in> set sch'" and "init \<longrightarrow> work \<or> n \<in> set sch'"
    and "i < length ks" and "distinct (map fst ks)" and "fst (ks ! i) = n"
  shows "will_be_called ws (ks[i := (n, init, work)]) sch' rec"
proof -
  have other: "fst x \<noteq> n" if "x \<in> set (ks[i := (n, init, work)])" "x \<noteq> (n, init, work)" for x
  proof -
    from that(1) obtain j where "j < length ks" "ks[i := (n, init, work)] ! j = x" by (auto simp: in_set_conv_nth)
    with that(2) have "j \<noteq> i" "ks ! j = x" using assms(4) by (auto simp: nth_list_update split: if_splits)
    with \<open>j < length ks\<close> show ?thesis
      using assms(4-6) nth_eq_iff_index_eq [OF assms(5), of i j] by auto
  qed
  have "snd (snd x) \<or> fst x \<in> set sch' \<or> fst x \<in> set rec"
    if h: "h \<in> set ws" and x: "x \<in> set (ks[i := (n, init, work)])" "fst x = fst h" "fst (snd x)" for h x
  proof (cases "x = (n, init, work)")
    case True
    then show ?thesis using assms(3) x(3) by auto
  next
    case False
    then have "x \<in> set ks" "fst x \<noteq> n"
      using x(1) other [OF x(1)] set_update_subset_insert [of ks i "(n, init, work)"] by auto
    moreover have "snd (snd x) \<or> fst x \<in> set sch \<or> fst x \<in> set rec"
      using assms(1) h x(2,3) \<open>x \<in> set ks\<close> unfolding will_be_called_def by (cases x) auto
    ultimately show ?thesis using assms(2) by blast
  qed
  then show ?thesis unfolding will_be_called_def by fastforce
qed

lemma will_be_called_subset: "will_be_called ws ks sch rec \<Longrightarrow> set ks' \<subseteq> set ks \<Longrightarrow> will_be_called ws ks' sch rec"
  unfolding will_be_called_def by blast

text \<open>The parts of the invariant that a change of one topic needs.\<close>

lemma reg_inv_parts:
  assumes "reg_inv s"
  shows "distinct (map fst (keys (cls s)))" "will_be_called (wait_list (cls s)) (keys (cls s)) (scheduling s) (rechecks s)"
    and "length (keys (cls s)) = length (class_devices (cls s))"
    and "i < length (class_devices (cls s)) \<Longrightarrow> fst (keys (cls s) ! i) = mms_name (class_devices (cls s) ! i)"
  using assms by (simp_all add: reg_inv_def key_nth reg_key_def) (simp add: keys_def)

lemma enter_inv:
  assumes "reg_inv s" and "(n, k) \<in> set (looked s)"
  shows "reg_inv (s\<lparr>cls := wait_enqueue n k (cls s), looked := remove1 (n, k) (looked s), rechecks := n # rechecks s\<rparr>)"
proof -
  have "keys (wait_enqueue n k (cls s)) = keys (cls s)" by (simp add: wait_enqueue_def keys_def)
  then show ?thesis using assms by (fastforce simp: reg_inv_def wait_enqueue_def will_be_called_def)
qed

lemma add_device_inv:
  assumes "reg_inv s" and "mms_name t \<notin> mms_name ` set (class_devices (cls s))" "\<not> initialized t"
  shows "reg_inv (s\<lparr>cls := (cls s)\<lparr>class_devices := class_devices (cls s) @ [t]\<rparr>\<rparr>)"
proof -
  have "keys ((cls s)\<lparr>class_devices := class_devices (cls s) @ [t]\<rparr>) = keys (cls s) @ [reg_key t]" by (simp add: keys_def)
  moreover have "fst (reg_key t) \<notin> fst ` set (keys (cls s))" using assms(2) by (force simp: keys_def reg_key_def)
  ultimately show ?thesis using assms(1,3) by (auto simp: reg_inv_def will_be_called_def reg_key_def)
qed

lemma init_inv:
  assumes "reg_inv s" and "i < length (class_devices (cls s))"
  shows "reg_inv (s\<lparr>cls := register_init i (cls s), scheduling := mms_name (class_devices (cls s) ! i) # scheduling s\<rparr>)"
proof -
  let ?n = "mms_name (class_devices (cls s) ! i)"
  have "will_be_called (wait_list (cls s)) ((keys (cls s))[i := (?n, True, callback_work (class_devices (cls s) ! i))])
      (?n # scheduling s) (rechecks s)"
    by (rule will_be_called_update [OF reg_inv_parts(2) [OF assms(1)] _ _ _ reg_inv_parts(1) [OF assms(1)]])
      (use assms(2) reg_inv_parts(3,4) [OF assms(1)] in auto)
  then show ?thesis using update_inv [OF assms] by (simp add: register_init_def reg_key_def)
qed

lemma schedule_inv:
  assumes "reg_inv s" and "i < length (class_devices (cls s))" and n: "n = mms_name (class_devices (cls s) ! i)"
  shows "reg_inv (s\<lparr>cls := register_schedule i (cls s), scheduling := remove1 n (scheduling s)\<rparr>)"
proof -
  let ?t = "(queue_update_work 0 (class_devices (cls s) ! i))\<lparr>callback_work := True\<rparr>"
  have q: "mms_name ?t = n" "initialized ?t = initialized (class_devices (cls s) ! i)"
    using n by (simp_all add: queue_update_work_def)
  have "will_be_called (wait_list (cls s)) ((keys (cls s))[i := (n, initialized (class_devices (cls s) ! i), True)])
      (remove1 n (scheduling s)) (rechecks s)"
    by (rule will_be_called_update [OF reg_inv_parts(2) [OF assms(1)] _ _ _ reg_inv_parts(1) [OF assms(1)]])
      (use assms(2) n reg_inv_parts(3,4) [OF assms(1)] in \<open>auto simp: in_set_remove1\<close>)
  then show ?thesis using update_inv [OF assms(1,2), of ?t] q n by (simp add: register_schedule_def reg_key_def)
qed

lemma callback_work_inv:
  assumes "reg_inv s" and "i < length (class_devices (cls s))"
  shows "reg_inv (s\<lparr>cls := oplus_mms_callback_work i (cls s)\<rparr>)"
proof -
  let ?t = "(class_devices (cls s) ! i)\<lparr>callback_work := False\<rparr>" and ?n = "mms_name (class_devices (cls s) ! i)"
  have "will_be_called (filter (\<lambda>h. fst h \<noteq> ?n) (wait_list (cls s))) ((keys (cls s))[i := reg_key ?t]) (scheduling s) (rechecks s)"
    using reg_inv_parts(2,3) [OF assms(1)] assms(2) set_update_subset_insert [of "keys (cls s)" i "reg_key ?t"]
    by (fastforce simp: will_be_called_def reg_key_def)
  moreover have "map fst ((keys (cls s))[i := reg_key ?t]) = map fst (keys (cls s))"
    by (rule names_same) (use reg_inv_parts(4) [OF assms] in \<open>simp add: reg_key_def\<close>)
  ultimately show ?thesis
    using assms(1) call_mset [of ?n "set_device i ?t (cls s)"] by (simp add: reg_inv_def oplus_mms_callback_work_def)
qed

lemma unregister_inv:
  assumes "reg_inv s" and "i < length (class_devices (cls s))"
  shows "reg_inv (s\<lparr>cls := snd (oplus_mms_unregister i (cls s))\<rparr>)"
proof -
  let ?c = "snd (oplus_mms_unregister i (cls s))" and ?k = "keys (cls s)"
  have k: "keys ?c = take i ?k @ drop (Suc i) ?k" "wait_list ?c = wait_list (cls s)" "called ?c = called (cls s)"
    by (simp_all add: oplus_mms_unregister_def keys_def take_map drop_map)
  have "?k = take i ?k @ ?k ! i # drop (Suc i) ?k"
    using assms(2) reg_inv_parts(3) [OF assms(1)] by (intro id_take_nth_drop) simp
  then have "distinct (map fst (take i ?k @ ?k ! i # drop (Suc i) ?k))" using reg_inv_parts(1) [OF assms(1)] by metis
  then have "distinct (map fst (take i ?k @ drop (Suc i) ?k))" by auto
  moreover have "will_be_called (wait_list (cls s)) (take i ?k @ drop (Suc i) ?k) (scheduling s) (rechecks s)"
    by (rule will_be_called_subset [OF reg_inv_parts(2) [OF assms(1)]]) (auto dest: in_set_takeD in_set_dropD)
  ultimately show ?thesis using assms(1) k by (simp add: reg_inv_def)
qed

lemma step_reg_inv:
  assumes "reg_step s s'" and "reg_inv s"
  shows "reg_inv s'"
  using assms(1)
proof cases
  case (ask n k found c)
  then show ?thesis using ask_inv [OF assms(2) ask(2,3)] by (simp only:)
next
  case (no_memory n k)
  have "(n, k) \<in># mset (asked s)" using assms(2) no_memory(2) by (simp add: reg_inv_def)
  then show ?thesis using assms(2) no_memory by (simp add: reg_inv_def distinct_remove1)
next
  case (recheck n)
  then show ?thesis using assms(2) recheck_inv [OF reg_inv_parts(1,2) [OF assms(2)] refl, of n] by (simp add: reg_inv_def)
next
  case (other i t)
  have "reg_key t = reg_key (class_devices (cls s) ! i)" using other(3) by (simp add: same_registration_def reg_key_def)
  then show ?thesis using other assms(2) by (simp add: reg_inv_def keys_same)
next
  case (schedule i n)
  then show ?thesis using schedule_inv [OF assms(2) schedule(2,3)] by simp
qed (use assms(2) enter_inv add_device_inv init_inv callback_work_inv unregister_inv in auto)

lemma reg_reachable_inv: "reg_reachable s \<Longrightarrow> reg_inv s"
proof (induction rule: reg_reachable.induct)
  case empty
  then show ?case by (simp add: empty_class_def reg_inv_def keys_def will_be_called_def)
qed (rule step_reg_inv)

section \<open>A run\<close>

text \<open>A driver asks for a topic before it is registered, and is called when it looks once more.\<close>

definition demo_desc_t :: "unit oplus_mms_desc" where
  "demo_desc_t = \<lparr>d_name = Some ''t'', d_items =
     [\<lparr>desc = \<lparr>item_id = 1, str_data = False, up_thr_enable = False, down_thr_enable = False, dead_thr_enable = False,
        update_thr_up = 0, update_thr_down = 0, dead_zone_thr = 0, upd = None\<rparr>,
       updated = False, disabled = False, item_data = 0, pre_data = 0\<rparr>], d_update_interval = 0, d_update = True\<rparr>"

definition demo_reg1 :: "(unit, nat) reg_sys" where
  "demo_reg1 = empty_class\<lparr>looked := [(''t'', 1)], asked := [(''t'', 1)]\<rparr>"
definition demo_reg2 :: "(unit, nat) reg_sys" where
  "demo_reg2 = demo_reg1\<lparr>cls := wait_enqueue ''t'' 1 (cls demo_reg1), looked := [], rechecks := [''t'']\<rparr>"
definition demo_reg3 :: "(unit, nat) reg_sys" where
  "demo_reg3 = demo_reg2\<lparr>cls := (cls demo_reg2)\<lparr>class_devices := class_devices (cls demo_reg2) @ [new_topic demo_desc_t () 0]\<rparr>\<rparr>"
definition demo_reg4 :: "(unit, nat) reg_sys" where
  "demo_reg4 = demo_reg3\<lparr>cls := register_init 0 (cls demo_reg3), scheduling := [''t'']\<rparr>"
definition demo_reg5 :: "(unit, nat) reg_sys" where
  "demo_reg5 = demo_reg4\<lparr>cls := wait_recheck ''t'' (cls demo_reg4), rechecks := []\<rparr>"
definition demo_reg6 :: "(unit, nat) reg_sys" where
  "demo_reg6 = demo_reg5\<lparr>cls := register_schedule 0 (cls demo_reg5), scheduling := []\<rparr>"
definition demo_reg7 :: "(unit, nat) reg_sys" where
  "demo_reg7 = demo_reg6\<lparr>cls := oplus_mms_callback_work 0 (cls demo_reg6)\<rparr>"

lemma demo_reg_reachable: "reg_reachable demo_reg7"
proof -
  have s1: "reg_step (empty_class :: (unit, nat) reg_sys) demo_reg1"
    using reg_step.ask [of "''t''" 1 "empty_class :: (unit, nat) reg_sys" False "cls empty_class"]
    by (simp add: empty_class_def demo_reg1_def wait_lookup_def oplus_mms_get_by_name_def find_device_def)
  have s2: "reg_step demo_reg1 demo_reg2"
    using reg_step.enter [of "''t''" 1 demo_reg1] by (simp add: demo_reg2_def demo_reg1_def empty_class_def)
  have s3: "reg_step demo_reg2 demo_reg3"
    unfolding demo_reg3_def by (rule reg_step.add_device) code_simp+
  have "0 < length (class_devices (cls demo_reg3)) \<and> \<not> initialized (class_devices (cls demo_reg3) ! 0) \<and>
      mms_name (class_devices (cls demo_reg3) ! 0) = ''t'' \<and> scheduling demo_reg3 = []" by code_simp
  then have s4: "reg_step demo_reg3 demo_reg4" using reg_step.init [of 0 demo_reg3] by (simp add: demo_reg4_def)
  have "rechecks demo_reg4 = [''t'']" by code_simp
  then have s5: "reg_step demo_reg4 demo_reg5" using reg_step.recheck [of "''t''" demo_reg4] by (simp add: demo_reg5_def)
  have "0 < length (class_devices (cls demo_reg5)) \<and> ''t'' = mms_name (class_devices (cls demo_reg5) ! 0) \<and>
      scheduling demo_reg5 = [''t'']" by code_simp
  then have s6: "reg_step demo_reg5 demo_reg6" using reg_step.schedule [of 0 demo_reg5 "''t''"] by (simp add: demo_reg6_def)
  have "0 < length (class_devices (cls demo_reg6)) \<and> callback_work (class_devices (cls demo_reg6) ! 0)" by code_simp
  then have s7: "reg_step demo_reg6 demo_reg7" unfolding demo_reg7_def by (intro reg_step.callback) simp_all
  note go = reg_reachable.stepped
  show ?thesis by (rule go [OF go [OF go [OF go [OF go [OF go [OF go [OF reg_reachable.empty s1] s2] s3] s4] s5] s6] s7])
qed

section \<open>Properties\<close>

text \<open>C19: However asking for topics and registering them interleave, no waiter is forgotten and none is called
  twice: the callbacks that ran are distinct and belong to waiters, and when nobody is in the middle of
  asking or registering and no callback work is scheduled, everybody who asked for a topic that is
  registered has been called.\<close>

theorem waiters_called_once:
  assumes "reg_reachable s"
  shows "distinct (called (cls s)) \<and> set (called (cls s)) \<subseteq> set (asked s) \<and>
    (looked s = [] \<longrightarrow> rechecks s = [] \<longrightarrow> scheduling s = [] \<longrightarrow> (\<forall>t\<in>set (class_devices (cls s)). \<not> callback_work t) \<longrightarrow>
      (\<forall>(n, k)\<in>set (asked s). \<forall>t\<in>set (class_devices (cls s)). mms_name t = n \<longrightarrow> initialized t \<longrightarrow>
         (n, k) \<in> set (called (cls s))))"
proof -
  have i: "distinct (asked s)" "mset (asked s) = mset (looked s @ wait_list (cls s) @ called (cls s))"
    and w: "will_be_called (wait_list (cls s)) (keys (cls s)) (scheduling s) (rechecks s)"
    using reg_reachable_inv [OF assms] by (simp_all add: reg_inv_def)
  have d: "distinct (looked s @ wait_list (cls s) @ called (cls s))" using i mset_eq_imp_distinct_iff by metis
  have a: "set (asked s) = set (looked s @ wait_list (cls s) @ called (cls s))" using i(2) by (rule mset_eq_setD)
  have "(n, k) \<in> set (called (cls s))"
    if "looked s = []" "rechecks s = []" "scheduling s = []" "\<forall>t\<in>set (class_devices (cls s)). \<not> callback_work t"
      "(n, k) \<in> set (asked s)" "t \<in> set (class_devices (cls s))" "mms_name t = n" "initialized t" for n k t
  proof (rule ccontr)
    assume "(n, k) \<notin> set (called (cls s))"
    then have "(n, k) \<in> set (wait_list (cls s))" using that(1,5) a by simp
    moreover have "(n, True, False) \<in> set (keys (cls s))"
      using that(4,6-8) by (force simp: keys_def reg_key_def)
    ultimately show False using w that(2,3) by (force simp: will_be_called_def)
  qed
  then show ?thesis using d a by auto
qed

theorem waiters_called_once_witness: "(''t'', 1) \<in> set (called (cls demo_reg7)) \<and> distinct (called (cls demo_reg7))"
proof -
  have "looked demo_reg7 = [] \<and> rechecks demo_reg7 = [] \<and> scheduling demo_reg7 = [] \<and>
      (\<forall>t\<in>set (class_devices (cls demo_reg7)). \<not> callback_work t) \<and>
      (\<exists>t\<in>set (class_devices (cls demo_reg7)). mms_name t = ''t'' \<and> initialized t) \<and> asked demo_reg7 = [(''t'', 1)]"
    by code_simp
  then show ?thesis using waiters_called_once [OF demo_reg_reachable] by auto
qed

text \<open>When the wakeup source of a new topic cannot be set up, the registration fails and the topic stays:
  it is found by its name, although its driver was told that there is none, and it never becomes initialized.\<close>

theorem failed_registration_stays:
  assumes "d_name d = Some n" and "d_items d \<noteq> []" and "d_update d" and "find_device n c = None"
    and "wakeup_rc \<noteq> 0" and "do_oplus_mms_register d drv interval True 0 0 wakeup_rc c = (r, c')"
  shows "r = Inl wakeup_rc \<and> (\<exists>i. fst (oplus_mms_get_by_name n c') = Some i \<and> \<not> initialized (class_devices c' ! i))"
proof -
  have c': "r = Inl wakeup_rc" "c' = c\<lparr>class_devices := class_devices c @ [new_topic d drv interval]\<rparr>"
    using assms by (auto simp: do_oplus_mms_register_def Let_def)
  have n: "mms_name (new_topic d drv interval) = n" "\<not> initialized (new_topic d drv interval)"
    using assms(1) by (simp_all add: new_topic_def Let_def)
  have "find_device n c' \<noteq> None" using find_device_None [of n c'] n(1) by (force simp: c'(2) keys_def reg_key_def)
  then obtain i where i: "find_device n c' = Some i" by blast
  have "i = length (class_devices c)"
  proof (rule ccontr)
    assume "i \<noteq> length (class_devices c)"
    then have "i < length (class_devices c)" "mms_name (class_devices c ! i) = n"
      using find_device_Some [OF i] by (auto simp: c'(2) nth_append split: if_splits)
    then show False using find_device_None [OF assms(4)] by (force simp: keys_def reg_key_def)
  qed
  then show ?thesis using c' n i by (simp add: oplus_mms_get_by_name_def)
qed

theorem failed_registration_stays_witness:
  "\<exists>i. fst (oplus_mms_get_by_name ''t'' (snd (do_oplus_mms_register demo_desc_t () 0 True 0 0 (- ENOMEM)
      (cls (empty_class :: (unit, nat) reg_sys))))) = Some i"
  using failed_registration_stays [of demo_desc_t "''t''" "cls (empty_class :: (unit, nat) reg_sys)" "- ENOMEM" "()" 0, OF _ _ _ _ _ surjective_pairing]
  by (auto simp: demo_desc_t_def find_device_def empty_class_def)

end
