(* ===== verification/Chg_Strategy.thy ===== *)
theory Chg_Strategy
  imports Chg_Mms_Registry Chg_Mms_Items
begin

text \<open>
  The charging strategies (\<^verbatim>\<open>strategy/\<close>): the list of registered strategies and the calls that go through it
  (\<^verbatim>\<open>oplus_strategy.c\<close>), what all strategies use to read temperatures, voltages and currents from the topics
  of the message service, the device tree as they read it, and what their users rely on. The strategies
  themselves are in theories of their own.
\<close>

section \<open>Reading topics\<close>

definition STRATEGY_USE_BATT_TEMP :: u32 where "STRATEGY_USE_BATT_TEMP = 0"
definition STRATEGY_USE_SHELL_TEMP :: u32 where "STRATEGY_USE_SHELL_TEMP = 1"
definition STRATEGY_USE_MAIN_BATT_TEMP :: u32 where "STRATEGY_USE_MAIN_BATT_TEMP = 2"
definition STRATEGY_USE_SUB_BATT_TEMP :: u32 where "STRATEGY_USE_SUB_BATT_TEMP = 3"

definition GAUGE_ITEM_VOL_MAX :: u32 where "GAUGE_ITEM_VOL_MAX = 2"
definition GAUGE_ITEM_CURR :: u32 where "GAUGE_ITEM_CURR = 5"
definition GAUGE_ITEM_TEMP :: u32 where "GAUGE_ITEM_TEMP = 6"
definition COMM_ITEM_UI_SOC :: u32 where "COMM_ITEM_UI_SOC = 11"
definition COMM_ITEM_SHELL_TEMP :: u32 where "COMM_ITEM_SHELL_TEMP = 14"

text \<open>What a strategy finds around it: the topics, the clock, and the pointers to topics that its file keeps
  once they were found. A pointer is the position of the topic in the class.\<close>

record ('d, 'k) strategy_env =
  topics :: "('d, 'k) mms_class"
  jiffies :: u64
  comm_topic :: "nat option"
  gauge_topic :: "nat option"
  main_gauge_topic :: "nat option"
  sub_gauge_topic :: "nat option"

definition topic_available :: "string \<Rightarrow> nat option \<Rightarrow> ('d, 'k) mms_class \<Rightarrow> nat option \<times> ('d, 'k) mms_class" where
  "topic_available name p c = (case p of Some i \<Rightarrow> (p, c) | None \<Rightarrow> oplus_mms_get_by_name name c)"

definition is_comm_topic_available :: "('d, 'k) strategy_env \<Rightarrow> nat option \<times> ('d, 'k) strategy_env" where
  "is_comm_topic_available e =
     (let (p, c) = topic_available ''common'' (comm_topic e) (topics e) in (p, e\<lparr>comm_topic := p, topics := c\<rparr>))"

definition is_gauge_topic_available :: "('d, 'k) strategy_env \<Rightarrow> nat option \<times> ('d, 'k) strategy_env" where
  "is_gauge_topic_available e =
     (let (p, c) = topic_available ''gauge'' (gauge_topic e) (topics e) in (p, e\<lparr>gauge_topic := p, topics := c\<rparr>))"

definition is_main_gauge_topic_available :: "('d, 'k) strategy_env \<Rightarrow> nat option \<times> ('d, 'k) strategy_env" where
  "is_main_gauge_topic_available e =
     (let (p, c) = topic_available ''gauge:0'' (main_gauge_topic e) (topics e) in (p, e\<lparr>main_gauge_topic := p, topics := c\<rparr>))"

definition is_sub_gauge_topic_available :: "('d, 'k) strategy_env \<Rightarrow> nat option \<times> ('d, 'k) strategy_env" where
  "is_sub_gauge_topic_available e =
     (let (p, c) = topic_available ''gauge:1'' (sub_gauge_topic e) (topics e) in (p, e\<lparr>sub_gauge_topic := p, topics := c\<rparr>))"

text \<open>\<open>read_item\<close> is the call of \<^verbatim>\<open>oplus_mms_get_item_data\<close> on the topic at a position, \<open>read_from\<close> that on a topic that
  may not have been found.\<close>

definition read_item :: "nat \<Rightarrow> u32 \<Rightarrow> bool \<Rightarrow> ('d, 'k) strategy_env \<Rightarrow> (rc + int) \<times> ('d, 'k) strategy_env" where
  "read_item i iid update e =
     (let (r, t) = oplus_mms_get_item_data (Some (class_devices (topics e) ! i)) iid True update in
      (map_sum (\<lambda>rc. rc) intval r,
       case t of None \<Rightarrow> e | Some t \<Rightarrow> e\<lparr>topics := set_device i t (topics e)\<rparr>))"

definition read_from ::
  "nat option \<times> ('d, 'k) strategy_env \<Rightarrow> u32 \<Rightarrow> bool \<Rightarrow> (rc + int) \<times> ('d, 'k) strategy_env" where
  "read_from found iid update =
     (case found of (None, e) \<Rightarrow> (Inl (- ENODEV), e) | (Some i, e) \<Rightarrow> read_item i iid update e)"

text \<open>The temperature of the battery or of the shell; \<open>update\<close> says whether the strategy has the gauge
  refresh it.\<close>

definition strategy_get_temp :: "bool \<Rightarrow> u32 \<Rightarrow> ('d, 'k) strategy_env \<Rightarrow> (rc + int) \<times> ('d, 'k) strategy_env" where
  "strategy_get_temp update type e =
     (if type = STRATEGY_USE_BATT_TEMP then read_from (is_gauge_topic_available e) GAUGE_ITEM_TEMP update
      else if type = STRATEGY_USE_SHELL_TEMP then read_from (is_comm_topic_available e) COMM_ITEM_SHELL_TEMP False
      else (Inl (- EINVAL), e))"

section \<open>The device tree\<close>

text \<open>The functions of the kernel that read the device tree, as the strategies call them: the number of
  cells of a property, one cell, a given number of cells, a string, a child.\<close>

record 'n of_api =
  of_property_count :: "'n \<Rightarrow> string \<Rightarrow> int"
  of_property_read_u32 :: "'n \<Rightarrow> string \<Rightarrow> rc + u32"
  of_property_read_u32_array :: "'n \<Rightarrow> string \<Rightarrow> nat \<Rightarrow> rc + u32 list"
  of_property_read_string :: "'n \<Rightarrow> string \<Rightarrow> rc + string"
  of_get_child_by_name :: "'n \<Rightarrow> string \<Rightarrow> 'n option"

text \<open>What it documents: reading an array succeeds with the number of cells asked for.\<close>

definition of_api_reads :: "'n of_api \<Rightarrow> bool" where
  "of_api_reads api \<longleftrightarrow> (\<forall>n p k ws. of_property_read_u32_array api n p k = Inr ws \<longrightarrow> length ws = k)"

definition read_data_from_node :: "'n of_api \<Rightarrow> 'n \<Rightarrow> string \<Rightarrow> nat \<Rightarrow> rc + u32 list" where
  "read_data_from_node api node prop len_max =
     (let rc = of_property_count api node prop in
      if rc < 0 then Inl rc
      else if rc \<noteq> int len_max then Inl (- EINVAL)
      else of_property_read_u32_array api node prop (nat rc))"

lemma read_data_length:
  "of_api_reads api \<Longrightarrow> read_data_from_node api node prop n = Inr ws \<Longrightarrow> length ws = n"
  by (auto simp: of_api_reads_def read_data_from_node_def Let_def split: if_splits)

section \<open>Numbers\<close>

text \<open>Subtraction of C \<^verbatim>\<open>int\<close>s; the kernel is built so that it wraps around.\<close>

definition c_sub :: "int \<Rightarrow> int \<Rightarrow> int" where
  "c_sub a b = sint (word_of_int (a - b) :: u32)"

lemma c_sub_small:
  assumes "\<bar>a\<bar> < 2 ^ 30" and "\<bar>b\<bar> < 2 ^ 30"
  shows "c_sub a b = a - b"
  unfolding c_sub_def using assms by (intro sint_in_range) simp_all

definition s32 :: "bytes \<Rightarrow> nat \<Rightarrow> int" where
  "s32 bs off = sint (le_word (get_bytes off 4 bs) :: u32)"

datatype strategy_fault = Out_of_bounds | Null_pointer

section \<open>Registered strategies\<close>

text \<open>\<^verbatim>\<open>struct oplus_chg_strategy_desc\<close>: the functions of a strategy with state \<open>'s\<close> and result \<open>'r\<close>, over the
  surroundings \<open>'e\<close> and device tree nodes \<open>'n\<close>. \<open>None\<close> as the result of \<open>strategy_get_data\<close> is a call that does
  not return; the other options are functions a strategy may lack.\<close>

record ('n, 'e, 's, 'r) oplus_chg_strategy_desc =
  strategy_name :: string
  strategy_alloc :: "bytes \<Rightarrow> rc + 's"
  strategy_alloc_by_node :: "('n \<Rightarrow> rc + 's) option"
  strategy_init :: "'s \<Rightarrow> 'e \<Rightarrow> rc \<times> 's \<times> 'e"
  strategy_get_data :: "'s \<Rightarrow> 'e \<Rightarrow> ((rc + 'r) \<times> 's \<times> 'e) option"
  strategy_set_process_data :: "('s \<Rightarrow> string \<Rightarrow> u64 \<Rightarrow> 'e \<Rightarrow> rc \<times> 's) option"
  strategy_get_custom_data :: "('s \<Rightarrow> string \<Rightarrow> 'e \<Rightarrow> (rc + 'r) \<times> 's \<times> 'e) option"

record ('n, 'e, 's, 'r) oplus_chg_strategy =
  strategy_desc :: "('n, 'e, 's, 'r) oplus_chg_strategy_desc"
  strategy_initialized :: bool
  strategy_state :: 's

definition strategy_desc_find_by_name ::
  "string \<Rightarrow> ('n, 'e, 's, 'r) oplus_chg_strategy_desc list \<Rightarrow> ('n, 'e, 's, 'r) oplus_chg_strategy_desc option" where
  "strategy_desc_find_by_name name l = find (\<lambda>d. strategy_name d = name) l"

definition oplus_chg_strategy_register ::
  "('n, 'e, 's, 'r) oplus_chg_strategy_desc option \<Rightarrow> ('n, 'e, 's, 'r) oplus_chg_strategy_desc list \<Rightarrow>
     rc \<times> ('n, 'e, 's, 'r) oplus_chg_strategy_desc list" where
  "oplus_chg_strategy_register d l =
     (case d of
        None \<Rightarrow> (- EINVAL, l)
      | Some x \<Rightarrow> if list_ex (\<lambda>t. strategy_name t = strategy_name x) l then (- EINVAL, l) else (0, x # l))"

definition new_strategy :: "('n, 'e, 's, 'r) oplus_chg_strategy_desc \<Rightarrow> rc + 's \<Rightarrow> ('n, 'e, 's, 'r) oplus_chg_strategy option" where
  "new_strategy d r =
     (case r of
        Inl _ \<Rightarrow> None
      | Inr s \<Rightarrow> Some \<lparr>strategy_desc = d, strategy_initialized = False, strategy_state = s\<rparr>)"

definition oplus_chg_strategy_alloc ::
  "('n, 'e, 's, 'r) oplus_chg_strategy_desc list \<Rightarrow> string option \<Rightarrow> bytes option \<Rightarrow> ('n, 'e, 's, 'r) oplus_chg_strategy option" where
  "oplus_chg_strategy_alloc l name buf =
     (case (name, buf) of
        (Some n, Some b) \<Rightarrow>
          (case strategy_desc_find_by_name n l of None \<Rightarrow> None | Some d \<Rightarrow> new_strategy d (strategy_alloc d b))
      | _ \<Rightarrow> None)"

definition oplus_chg_strategy_alloc_by_node ::
  "('n, 'e, 's, 'r) oplus_chg_strategy_desc list \<Rightarrow> string option \<Rightarrow> 'n option \<Rightarrow> ('n, 'e, 's, 'r) oplus_chg_strategy option" where
  "oplus_chg_strategy_alloc_by_node l name node =
     (case (name, node) of
        (Some n, Some x) \<Rightarrow>
          (case strategy_desc_find_by_name n l of
             None \<Rightarrow> None
           | Some d \<Rightarrow> (case strategy_alloc_by_node d of None \<Rightarrow> None | Some f \<Rightarrow> new_strategy d (f x)))
      | _ \<Rightarrow> None)"

definition oplus_chg_strategy_init ::
  "('n, 'e, 's, 'r) oplus_chg_strategy option \<Rightarrow> 'e \<Rightarrow> rc \<times> ('n, 'e, 's, 'r) oplus_chg_strategy option \<times> 'e" where
  "oplus_chg_strategy_init strategy e =
     (case strategy of
        None \<Rightarrow> (- EINVAL, None, e)
      | Some st \<Rightarrow>
          let (rc, s, e) = strategy_init (strategy_desc st) (strategy_state st) e;
              st = st\<lparr>strategy_state := s\<rparr> in
          if rc < 0 then (rc, Some st, e) else (0, Some (st\<lparr>strategy_initialized := True\<rparr>), e))"

text \<open>\<open>out\<close> says whether the caller passes a place for the result.\<close>

definition oplus_chg_strategy_get_data ::
  "('n, 'e, 's, 'r) oplus_chg_strategy option \<Rightarrow> bool \<Rightarrow> 'e \<Rightarrow>
     ((rc + 'r) \<times> ('n, 'e, 's, 'r) oplus_chg_strategy option \<times> 'e) option" where
  "oplus_chg_strategy_get_data strategy out e =
     (case strategy of
        None \<Rightarrow> Some (Inl (- EINVAL), None, e)
      | Some st \<Rightarrow>
          if \<not> out then Some (Inl (- EINVAL), strategy, e)
          else map_option (\<lambda>(r, s, e). (r, Some (st\<lparr>strategy_state := s\<rparr>), e))
            (strategy_get_data (strategy_desc st) (strategy_state st) e))"

definition oplus_chg_strategy_set_process_data ::
  "('n, 'e, 's, 'r) oplus_chg_strategy option \<Rightarrow> string option \<Rightarrow> u64 \<Rightarrow> 'e \<Rightarrow> rc \<times> ('n, 'e, 's, 'r) oplus_chg_strategy option" where
  "oplus_chg_strategy_set_process_data strategy type arg e =
     (case (strategy, type) of
        (Some st, Some t) \<Rightarrow>
          (case strategy_set_process_data (strategy_desc st) of
             None \<Rightarrow> (- ENOTSUPP, strategy)
           | Some f \<Rightarrow> let (rc, s) = f (strategy_state st) t arg e in (rc, Some (st\<lparr>strategy_state := s\<rparr>)))
      | _ \<Rightarrow> (- EINVAL, strategy))"

definition oplus_chg_strategy_get_custom_data ::
  "('n, 'e, 's, 'r) oplus_chg_strategy option \<Rightarrow> string \<Rightarrow> bool \<Rightarrow> 'e \<Rightarrow>
     (rc + 'r) \<times> ('n, 'e, 's, 'r) oplus_chg_strategy option \<times> 'e" where
  "oplus_chg_strategy_get_custom_data strategy type out e =
     (case strategy of
        None \<Rightarrow> (Inl (- EINVAL), None, e)
      | Some st \<Rightarrow>
          if \<not> out then (Inl (- EINVAL), strategy, e)
          else
            (case strategy_get_custom_data (strategy_desc st) of
               None \<Rightarrow> (Inl (- ENOTSUPP), strategy, e)
             | Some f \<Rightarrow> let (r, s, e) = f (strategy_state st) type e in (r, Some (st\<lparr>strategy_state := s\<rparr>), e)))"

text \<open>The names stay distinct, and a strategy that was registered is found by its name.\<close>

lemma register_distinct:
  "distinct (map strategy_name l) \<Longrightarrow> distinct (map strategy_name (snd (oplus_chg_strategy_register d l)))"
  by (auto simp: oplus_chg_strategy_register_def list_ex_iff split: option.split)

lemma register_found:
  "oplus_chg_strategy_register (Some d) l = (0, l') \<Longrightarrow> strategy_desc_find_by_name (strategy_name d) l' = Some d"
  by (auto simp: oplus_chg_strategy_register_def strategy_desc_find_by_name_def split: if_splits)

section \<open>What the users of a strategy rely on\<close>

text \<open>A strategy is initialized and asked for its result again and again, each time in other surroundings.\<close>

datatype 'e strategy_call = Call_init 'e | Call_get 'e

primrec call_env :: "'e strategy_call \<Rightarrow> 'e" where
  "call_env (Call_init e) = e"
| "call_env (Call_get e) = e"

fun run_strategy ::
  "('s \<Rightarrow> 'e \<Rightarrow> rc \<times> 's \<times> 'e) \<Rightarrow> ('s \<Rightarrow> 'e \<Rightarrow> ((rc + 'r) \<times> 's \<times> 'e) option) \<Rightarrow>
     'e strategy_call list \<Rightarrow> 's \<Rightarrow> ((rc + 'r) list \<times> 's) option" where
  "run_strategy init get [] s = Some ([], s)"
| "run_strategy init get (Call_init e # cs) s = run_strategy init get cs (fst (snd (init s e)))"
| "run_strategy init get (Call_get e # cs) s =
     (case get s e of
        None \<Rightarrow> None
      | Some (r, s', _) \<Rightarrow> map_option (\<lambda>(rs, s''). (r # rs, s'')) (run_strategy init get cs s'))"

text \<open>In plausible surroundings every call returns, keeps the strategy in good shape, and what it returns is
  fine.\<close>

locale charging_strategy =
  fixes good :: "'s \<Rightarrow> bool" and plausible :: "'e \<Rightarrow> bool" and fine :: "'r \<Rightarrow> bool"
    and init :: "'s \<Rightarrow> 'e \<Rightarrow> rc \<times> 's \<times> 'e" and get :: "'s \<Rightarrow> 'e \<Rightarrow> ((rc + 'r) \<times> 's \<times> 'e) option"
  assumes init_good: "good s \<Longrightarrow> plausible e \<Longrightarrow> good (fst (snd (init s e)))"
    and get_good: "good s \<Longrightarrow> plausible e \<Longrightarrow>
      \<exists>r s' e'. get s e = Some (r, s', e') \<and> good s' \<and> (\<forall>x. r = Inr x \<longrightarrow> fine x)"
begin

lemma run_fine:
  "good s \<Longrightarrow> (\<forall>c\<in>set cs. plausible (call_env c)) \<Longrightarrow>
   \<exists>rs s'. run_strategy init get cs s = Some (rs, s') \<and> good s' \<and> (\<forall>x. Inr x \<in> set rs \<longrightarrow> fine x)"
proof (induction cs arbitrary: s)
  case (Cons c cs)
  show ?case
  proof (cases c)
    case (Call_init e)
    then show ?thesis using Cons init_good [of s e] by simp
  next
    case (Call_get e)
    then obtain r s' e' where g: "get s e = Some (r, s', e')" "good s'" "\<And>x. r = Inr x \<Longrightarrow> fine x"
      using get_good [of s e] Cons.prems by auto
    obtain rs s'' where "run_strategy init get cs s' = Some (rs, s'')" "good s''" "\<And>x. Inr x \<in> set rs \<Longrightarrow> fine x"
      using Cons.IH [OF g(2)] Cons.prems by auto
    then show ?thesis using Call_get g by auto
  qed
qed simp

end

section \<open>Surroundings for examples\<close>

definition demo_reading :: "u32 \<Rightarrow> int \<Rightarrow> unit mms_item" where
  "demo_reading iid v =
     \<lparr>desc = \<lparr>item_id = iid, str_data = False, up_thr_enable = False, down_thr_enable = False, dead_thr_enable = False,
        update_thr_up = 0, update_thr_down = 0, dead_zone_thr = 0, upd = None\<rparr>,
      updated = False, disabled = False, item_data = set_intval v 0, pre_data = 0\<rparr>"

definition demo_readings :: "string \<Rightarrow> unit mms_item list \<Rightarrow> unit oplus_mms" where
  "demo_readings name items = new_topic \<lparr>d_name = Some name, d_items = items, d_update_interval = 0, d_update = True\<rparr> () 0"

definition demo_measured :: "int \<Rightarrow> int \<Rightarrow> int \<Rightarrow> int \<Rightarrow> int \<Rightarrow> u64 \<Rightarrow> (unit, nat) strategy_env" where
  "demo_measured soc shell vbat ibat temp now =
     \<lparr>topics = \<lparr>class_devices =
        [demo_readings ''common'' [demo_reading COMM_ITEM_UI_SOC soc, demo_reading COMM_ITEM_SHELL_TEMP shell],
         demo_readings ''gauge'' [demo_reading GAUGE_ITEM_VOL_MAX vbat, demo_reading GAUGE_ITEM_CURR ibat, demo_reading GAUGE_ITEM_TEMP temp]],
        wait_list = [], called = []\<rparr>,
      jiffies = now, comm_topic = None, gauge_topic = None, main_gauge_topic = None, sub_gauge_topic = None\<rparr>"

end
