(* ===== verification/Chg_Strategy_Inr.thy ===== *)
theory Chg_Strategy_Inr
  imports Chg_Strategy
begin

unbundle bit_operations_syntax

text \<open>
  The strategy that switches by regions of a temperature with a hysteresis
  (\<^verbatim>\<open>strategy/oplus_strategy_inr_switch.c\<close>). The thresholds between the regions come from the device tree; after
  a step to the neighbouring region the threshold in between is moved away, so that the temperature has to
  come back further. Restoring the thresholds copies as many bytes as there are words.
\<close>

section \<open>Operations\<close>

definition INR_DATA_MIN_SIZE :: nat where "INR_DATA_MIN_SIZE = 3"

record inr_strategy =
  default_data :: "u32 list"
  dynamic_data :: "u32 list"
  anti_thr :: int
  ref_type :: u32
  inr_index :: nat
  inr_ref_data :: int

definition inr_strategy_get_index :: "inr_strategy \<Rightarrow> int \<Rightarrow> nat" where
  "inr_strategy_get_index s temp =
     (case find (\<lambda>i. temp \<le> sint (dynamic_data s ! i)) [0..<length (dynamic_data s)] of
        Some i \<Rightarrow> i
      | None \<Rightarrow> length (dynamic_data s))"

definition inr_strategy_get_ref_data :: "inr_strategy \<Rightarrow> ('d, 'k) strategy_env \<Rightarrow> (rc + int) \<times> ('d, 'k) strategy_env" where
  "inr_strategy_get_ref_data s e =
     (if ref_type s = STRATEGY_USE_BATT_TEMP then read_from (is_gauge_topic_available e) GAUGE_ITEM_TEMP False
      else if ref_type s = STRATEGY_USE_SHELL_TEMP then read_from (is_comm_topic_available e) COMM_ITEM_SHELL_TEMP False
      else if ref_type s = STRATEGY_USE_MAIN_BATT_TEMP then read_from (is_main_gauge_topic_available e) GAUGE_ITEM_TEMP False
      else if ref_type s = STRATEGY_USE_SUB_BATT_TEMP then read_from (is_sub_gauge_topic_available e) GAUGE_ITEM_TEMP False
      else (Inl (- EINVAL), e))"

text \<open>Words in memory; \<open>copy_words n\<close> is \<^verbatim>\<open>memcpy\<close> of \<open>n\<close> bytes between arrays of words.\<close>

definition words_at :: "nat \<Rightarrow> bytes \<Rightarrow> u32 list" where
  "words_at n b = map (\<lambda>i. le_word (get_bytes (4 * i) 4 b)) [0..<n]"

definition bytes_of :: "u32 list \<Rightarrow> bytes" where
  "bytes_of ws = concat (map (le_bytes 4) ws)"

definition copy_words :: "nat \<Rightarrow> u32 list \<Rightarrow> u32 list \<Rightarrow> u32 list" where
  "copy_words n src dst = words_at (length dst) (put_bytes 0 (take n (bytes_of src)) (bytes_of dst))"

text \<open>\<open>mem\<close> says which of the three allocations succeed.\<close>

definition inr_strategy_alloc :: "bool \<times> bool \<times> bool \<Rightarrow> bytes option \<Rightarrow> rc + inr_strategy" where
  "inr_strategy_alloc mem buf =
     (case buf of
        None \<Rightarrow> Inl (- EINVAL)
      | Some b \<Rightarrow>
          if length b < INR_DATA_MIN_SIZE * 4 \<or> length b mod 4 \<noteq> 0 then Inl (- EINVAL)
          else
            let num = (length b - 4 - 4) div 4;
                type = le_word (get_bytes 0 4 b) :: u32;
                table = words_at num (drop 8 b) in
            if \<not> fst mem then Inl (- ENOMEM)
            else if type \<noteq> STRATEGY_USE_BATT_TEMP \<and> type \<noteq> STRATEGY_USE_SHELL_TEMP \<and>
              type \<noteq> STRATEGY_USE_MAIN_BATT_TEMP \<and> type \<noteq> STRATEGY_USE_SUB_BATT_TEMP then Inl (- EINVAL)
            else if \<not> fst (snd mem) then Inl (- ENOMEM)
            else if \<not> snd (snd mem) then Inl (- ENOMEM)
            else Inr \<lparr>default_data = table, dynamic_data = table, anti_thr = s32 b 4, ref_type = type,
              inr_index = 0, inr_ref_data = 0\<rparr>)"

definition inr_strategy_init :: "inr_strategy \<Rightarrow> ('d, 'k) strategy_env \<Rightarrow> rc \<times> inr_strategy \<times> ('d, 'k) strategy_env" where
  "inr_strategy_init s e =
     (case inr_strategy_get_ref_data s e of
        (Inl rc, e) \<Rightarrow> (rc, s, e)
      | (Inr r, e) \<Rightarrow> (0, s\<lparr>inr_ref_data := r, inr_index := inr_strategy_get_index s r\<rparr>, e))"

definition inr_strategy_ref_region_thr_update :: "nat \<Rightarrow> nat \<Rightarrow> inr_strategy \<Rightarrow> inr_strategy" where
  "inr_strategy_ref_region_thr_update pre cur s =
     (let n = length (dynamic_data s);
          dyn = copy_words n (default_data s) (dynamic_data s) in
      s\<lparr>dynamic_data :=
        (if pre > cur \<and> pre - cur = 1 \<and> cur < n then dyn[cur := default_data s ! cur + word_of_int (anti_thr s)]
         else if pre < cur \<and> cur - pre = 1 \<and> pre < n then dyn[pre := default_data s ! pre - word_of_int (anti_thr s)]
         else dyn)\<rparr>)"

definition inr_strategy_get_data ::
  "inr_strategy \<Rightarrow> ('d, 'k) strategy_env \<Rightarrow> (rc + nat) \<times> inr_strategy \<times> ('d, 'k) strategy_env" where
  "inr_strategy_get_data s e =
     (case inr_strategy_get_ref_data s e of
        (Inl rc, e) \<Rightarrow> (Inl rc, s, e)
      | (Inr r, e) \<Rightarrow>
          let index = inr_strategy_get_index s r;
              s1 = (if inr_index s \<noteq> index then inr_strategy_ref_region_thr_update (inr_index s) index s else s) in
          (Inr index, s1\<lparr>inr_index := index\<rparr>, e))"

definition inr_strategy_desc ::
  "bool \<times> bool \<times> bool \<Rightarrow> ('n, ('d, 'k) strategy_env, inr_strategy, nat) oplus_chg_strategy_desc" where
  "inr_strategy_desc mem =
     \<lparr>strategy_name = ''inr_switch'', strategy_alloc = (\<lambda>buf. inr_strategy_alloc mem (Some buf)), strategy_alloc_by_node = None,
      strategy_init = inr_strategy_init, strategy_get_data = (\<lambda>s e. Some (inr_strategy_get_data s e)),
      strategy_set_process_data = None, strategy_get_custom_data = None\<rparr>"

section \<open>Copying bytes of words\<close>

lemma length_bytes_of [simp]: "length (bytes_of ws) = 4 * length ws"
  by (induction ws) (simp_all add: bytes_of_def)

lemma length_words_at [simp]: "length (words_at n b) = n"
  by (simp add: words_at_def)

lemma bytes_of_slice: "i < length ws \<Longrightarrow> get_bytes (4 * i) 4 (bytes_of ws) = le_bytes 4 (ws ! i)"
proof (induction ws arbitrary: i)
  case (Cons w ws)
  show ?case
  proof (cases i)
    case 0
    then show ?thesis by (simp add: bytes_of_def get_bytes_def)
  next
    case (Suc j)
    then have "get_bytes (4 * i) 4 (bytes_of (w # ws)) = get_bytes (4 * j) 4 (bytes_of ws)"
      by (simp add: bytes_of_def get_bytes_def)
    then show ?thesis using Cons Suc by simp
  qed
qed simp

lemma nth_copy_words:
  assumes "length src = length dst" and "n \<le> 4 * length dst" and "i < length dst"
  shows "copy_words n src dst ! i =
    (if 4 * i + 4 \<le> n then src ! i
     else if n \<le> 4 * i then dst ! i
     else le_word (take (n - 4 * i) (le_bytes 4 (src ! i)) @ drop (n - 4 * i) (le_bytes 4 (dst ! i))))"
proof -
  let ?b = "put_bytes 0 (take n (bytes_of src)) (bytes_of dst)"
  have b: "?b = take n (bytes_of src) @ drop n (bytes_of dst)" using assms(1,2) by (simp add: put_bytes_def)
  have s: "take 4 (drop (4 * i) (bytes_of src)) = le_bytes 4 (src ! i)" "take 4 (drop (4 * i) (bytes_of dst)) = le_bytes 4 (dst ! i)"
    using bytes_of_slice [of i src] bytes_of_slice [of i dst] assms by (simp_all add: get_bytes_def)
  have "copy_words n src dst ! i = le_word (get_bytes (4 * i) 4 ?b)"
    using assms(3) by (simp add: copy_words_def words_at_def)
  moreover have "get_bytes (4 * i) 4 ?b =
    (if 4 * i + 4 \<le> n then le_bytes 4 (src ! i) else if n \<le> 4 * i then le_bytes 4 (dst ! i)
     else take (n - 4 * i) (le_bytes 4 (src ! i)) @ drop (n - 4 * i) (le_bytes 4 (dst ! i)))"
  proof -
    consider "4 * i + 4 \<le> n" | "n \<le> 4 * i" | "4 * i < n" "n < 4 * i + 4" by linarith
    then show ?thesis
    proof cases
      case 1
      have "length (take n (bytes_of src)) = n" using assms(1,2) by simp
      then have "get_bytes (4 * i) 4 ?b = take 4 (take (n - 4 * i) (drop (4 * i) (bytes_of src)))"
        using 1 unfolding b get_bytes_def by (simp only: drop_append take_append length_drop drop_take) simp
      moreover have "4 \<le> n - 4 * i" using 1 by linarith
      ultimately show ?thesis using s(1) 1 by (simp add: min_def)
    next
      case 2
      then show ?thesis using s(2) assms(1,2) by (simp add: b get_bytes_def)
    next
      case 3
      have "drop (n - 4 * i) (take 4 (drop (4 * i) (bytes_of dst))) = take (4 - (n - 4 * i)) (drop n (bytes_of dst))"
        using 3 by (simp add: drop_take)
      moreover have "take (n - 4 * i) (take 4 (drop (4 * i) (bytes_of src))) = drop (4 * i) (take n (bytes_of src))"
        using 3 by (simp add: drop_take min_def)
      ultimately show ?thesis using 3 assms(1,2) s by (simp add: b get_bytes_def min_def)
    qed
  qed
  ultimately show ?thesis by (simp add: le_word_le_bytes del: le_bytes.simps)
qed

lemma length_copy_words [simp]: "length (copy_words n src dst) = length dst"
  by (simp add: copy_words_def)

section \<open>The contract\<close>

definition inr_good :: "nat \<Rightarrow> inr_strategy \<Rightarrow> bool" where
  "inr_good n s \<longleftrightarrow> length (default_data s) = n \<and> length (dynamic_data s) = n \<and> inr_index s \<le> n"

lemma inr_index_le: "inr_strategy_get_index s t \<le> length (dynamic_data s)"
  by (auto simp: inr_strategy_get_index_def find_Some_iff split: option.split)

lemma thr_update_lengths [simp]:
  "length (dynamic_data (inr_strategy_ref_region_thr_update p c s)) = length (dynamic_data s)"
  "default_data (inr_strategy_ref_region_thr_update p c s) = default_data s"
  by (simp_all add: inr_strategy_ref_region_thr_update_def Let_def)

lemma inr_init_good: "inr_good n s \<Longrightarrow> inr_good n (fst (snd (inr_strategy_init s e)))"
  using inr_index_le [of s] by (auto simp: inr_good_def inr_strategy_init_def split: prod.split sum.split)

lemma inr_get_good:
  "inr_good n s \<Longrightarrow> inr_strategy_get_data s e = (r, s', e') \<Longrightarrow> inr_good n s' \<and> (\<forall>x. r = Inr x \<longrightarrow> x \<le> n \<and> x = inr_index s')"
  using inr_index_le [of s] by (auto simp: inr_good_def inr_strategy_get_data_def Let_def split: prod.splits sum.splits)

interpretation inr: charging_strategy "inr_good n" "\<lambda>_. True" "\<lambda>x. x \<le> n" inr_strategy_init
    "\<lambda>s e. Some (inr_strategy_get_data s e)" for n
proof
  show "\<exists>r s' e'. Some (inr_strategy_get_data s e) = Some (r, s', e') \<and> inr_good n s' \<and> (\<forall>x. r = Inr x \<longrightarrow> x \<le> n)"
    if "inr_good n s" for s and e :: "('d, 'k) strategy_env"
    using inr_get_good [OF that] by (metis prod_cases3)
qed (rule inr_init_good)

section \<open>Hysteresis\<close>

lemma get_index_le: "i < length (dynamic_data s) \<Longrightarrow> t \<le> sint (dynamic_data s ! i) \<Longrightarrow> inr_strategy_get_index s t \<le> i"
  by (auto simp: inr_strategy_get_index_def find_Some_iff find_None_iff not_less split: option.split) (metis not_le)

lemma get_index_at: "inr_strategy_get_index s t = i \<Longrightarrow> i < length (dynamic_data s) \<Longrightarrow> t \<le> sint (dynamic_data s ! i)"
  by (auto simp: inr_strategy_get_index_def find_Some_iff split: option.splits)

lemma thr_update_down:
  assumes "length (default_data s) = length (dynamic_data s)" and "c < length (dynamic_data s)"
  shows "dynamic_data (inr_strategy_ref_region_thr_update (c + 1) c s) ! c = default_data s ! c + word_of_int (anti_thr s)"
  using assms by (simp add: inr_strategy_ref_region_thr_update_def Let_def)

lemma thr_update_up:
  assumes "length (default_data s) = length (dynamic_data s)" and "p < length (dynamic_data s)"
  shows "dynamic_data (inr_strategy_ref_region_thr_update p (p + 1) s) ! p = default_data s ! p - word_of_int (anti_thr s)"
  using assms by (simp add: inr_strategy_ref_region_thr_update_def Let_def)

lemma sint_plus_small:
  fixes w :: u32
  assumes "\<bar>sint w\<bar> < 2 ^ 30" and "\<bar>i\<bar> < 2 ^ 30"
  shows "sint (w + word_of_int i) = sint w + i" "sint (w - word_of_int i) = sint w - i"
proof -
  have "w + word_of_int i = word_of_int (sint w + i)" "w - word_of_int i = word_of_int (sint w - i)" by simp_all
  moreover have "sint (word_of_int (sint w + i) :: u32) = sint w + i" "sint (word_of_int (sint w - i) :: u32) = sint w - i"
    using assms by (intro sint_in_range; simp)+
  ultimately show "sint (w + word_of_int i) = sint w + i" "sint (w - word_of_int i) = sint w - i" by presburger+
qed

section \<open>Properties\<close>

text \<open>After a step to the neighbouring region the strategy does not step back before the temperature has passed the
  threshold between the two by the hysteresis.\<close>

theorem inr_no_flutter:
  assumes "inr_good n s" and "inr_strategy_get_data s e = (Inr i, s', e')"
    and "\<forall>w\<in>set (default_data s). \<bar>sint w\<bar> < 2 ^ 30" and "\<bar>anti_thr s\<bar> < 2 ^ 30"
    and "inr_index s = i + 1 \<and> t \<le> sint (default_data s ! i) + anti_thr s \<or>
      i = inr_index s + 1 \<and> t > sint (default_data s ! inr_index s) - anti_thr s"
  shows "inr_strategy_get_index s' t \<noteq> inr_index s"
proof -
  have l: "length (default_data s) = n" "length (dynamic_data s) = n" "inr_index s \<le> n" using assms(1) by (auto simp: inr_good_def)
  have i: "i \<le> n" using inr_get_good [OF assms(1,2)] by simp
  let ?u = "inr_strategy_ref_region_thr_update (inr_index s) i s"
  have d: "dynamic_data s' = dynamic_data ?u" if "inr_index s \<noteq> i"
    using assms(2) that by (auto simp: inr_strategy_get_data_def Let_def split: prod.splits sum.splits)
  have w: "\<bar>sint (default_data s ! j)\<bar> < 2 ^ 30" if "j < n" for j using assms(3) l(1) that by auto
  from assms(5) show ?thesis
  proof
    assume a: "inr_index s = i + 1 \<and> t \<le> sint (default_data s ! i) + anti_thr s"
    then have n: "i < n" using l by simp
    have "sint (dynamic_data s' ! i) = sint (default_data s ! i) + anti_thr s"
      using d a n l thr_update_down [of s i] sint_plus_small [OF w assms(4)] by simp
    then have "inr_strategy_get_index s' t \<le> i" using a d n l by (intro get_index_le) simp_all
    then show ?thesis using a by simp
  next
    assume a: "i = inr_index s + 1 \<and> t > sint (default_data s ! inr_index s) - anti_thr s"
    then have n: "inr_index s < n" using i by simp
    have "sint (dynamic_data s' ! inr_index s) = sint (default_data s ! inr_index s) - anti_thr s"
      using d a n l thr_update_up [of s "inr_index s"] sint_plus_small [OF w assms(4)] by simp
    then show ?thesis using a d n l get_index_at [of s' t "inr_index s"] by auto
  qed
qed

text \<open>Five thresholds between 15 and 40 degrees with a hysteresis of two degrees.\<close>

definition demo_inr :: inr_strategy where
  "demo_inr = \<lparr>default_data = [150, 250, 300, 350, 400], dynamic_data = [150, 250, 300, 350, 400], anti_thr = 20,
     ref_type = STRATEGY_USE_SHELL_TEMP, inr_index = 2, inr_ref_data = 0\<rparr>"

theorem inr_no_flutter_witness:
  "inr_strategy_get_index (fst (snd (inr_strategy_get_data demo_inr (demo_measured 50 240 3800 0 250 0)))) 265 \<noteq> 2"
proof -
  let ?r = "inr_strategy_get_data demo_inr (demo_measured 50 240 3800 0 250 0)"
  have f: "inr_good 5 demo_inr \<and> fst ?r = Inr 1 \<and> (\<forall>w\<in>set (default_data demo_inr). \<bar>sint w\<bar> < 2 ^ 30) \<and> \<bar>anti_thr demo_inr\<bar> < 2 ^ 30 \<and>
      inr_index demo_inr = 1 + 1 \<and> 265 \<le> sint (default_data demo_inr ! 1) + anti_thr demo_inr" by code_simp
  then have "?r = (Inr 1, fst (snd ?r), snd (snd ?r))" by (metis prod.collapse)
  from inr_no_flutter [OF _ this, of 5 265] f show ?thesis by simp
qed

text \<open>The thresholds behind the first quarter of the table are never restored: a step over more than one region
  leaves them as they were moved before. The threshold at the end of the first quarter can become one that
  is neither the original nor a moved one.\<close>

theorem inr_thresholds_not_restored:
  assumes "length (default_data s) = n" and "length (dynamic_data s) = n" and "j < n" and "n \<le> 4 * j"
    and "pre > cur + 1 \<or> cur > pre + 1"
  shows "dynamic_data (inr_strategy_ref_region_thr_update pre cur s) ! j = dynamic_data s ! j"
  using assms nth_copy_words [of "default_data s" "dynamic_data s" n j]
  by (auto simp: inr_strategy_ref_region_thr_update_def Let_def)

text \<open>A step from the third region to the second moves the threshold of 25 degrees to 27 and leaves it there for
  a later step over two regions to mix the bytes of the two to 50.6.\<close>

theorem inr_thresholds_not_restored_witness:
  "dynamic_data (inr_strategy_ref_region_thr_update 1 4 (demo_inr\<lparr>dynamic_data := [150, 250, 320, 350, 400]\<rparr>)) ! 2 = 320 \<and>
   dynamic_data (inr_strategy_ref_region_thr_update 1 4 (inr_strategy_ref_region_thr_update 2 1 demo_inr)) ! 1 = 506"
proof
  show "dynamic_data (inr_strategy_ref_region_thr_update 1 4 (demo_inr\<lparr>dynamic_data := [150, 250, 320, 350, 400]\<rparr>)) ! 2 = 320"
    by (subst inr_thresholds_not_restored [of _ 5]) (simp_all add: demo_inr_def)
  show "dynamic_data (inr_strategy_ref_region_thr_update 1 4 (inr_strategy_ref_region_thr_update 2 1 demo_inr)) ! 1 = 506"
    by code_simp
qed

end
