(* ===== verification/Chg_Strategy_Puc.thy ===== *)
theory Chg_Strategy_Puc
  imports Chg_Strategy
begin

text \<open>
  The charging curves of PPS and UFCS (\<^verbatim>\<open>strategy/oplus_strategy_pps_ufcs_curve.c\<close> and its second version
  \<^verbatim>\<open>oplus_strategy_pps_ufcs_curve_v2.c\<close>). The state of charge and the temperature at the start select one of
  a matrix of curves; a curve is a sequence of levels with targets for voltage and current, which are left
  when their time is up or the battery has been above the target voltage for some time.
\<close>

section \<open>Operations\<close>

definition PUC_BATT_CURVE_SOC_RANGE_MAX :: nat where "PUC_BATT_CURVE_SOC_RANGE_MAX = 6"
definition PUC_BATT_CURVE_TEMP_RANGE_MAX :: nat where "PUC_BATT_CURVE_TEMP_RANGE_MAX = 6"
definition VBAT_OVER_TIME_MS :: u32 where "VBAT_OVER_TIME_MS = 2500"

record puc_strategy_data =
  target_vbus :: int
  target_vbat :: int
  target_ibus :: int
  last_exit :: int
  target_time :: int

record puc_strategy_ret_data =
  ret_vbus :: int
  ret_vbat :: int
  ret_ibus :: int
  ret_index :: nat
  ret_last_gear :: bool
  ret_exit :: bool

text \<open>\<open>curve\<close> is the position of the selected curve in the matrix.\<close>

record puc_strategy =
  soc_curves :: "puc_strategy_data list list list"
  soc_range_data :: "u32 list"
  temp_range_data :: "int list"
  puc_temp_type :: u32
  curve :: "(nat \<times> nat) option"
  curr_level :: nat
  level_timeout :: u64
  over_time :: u64

definition puc_strategy_soc :: "string list" where
  "puc_strategy_soc = [''strategy_soc_range_min'', ''strategy_soc_range_low'', ''strategy_soc_range_mid_low'',
     ''strategy_soc_range_mid'', ''strategy_soc_range_mid_high'', ''strategy_soc_range_high'']"

definition puc_strategy_temp :: "string list" where
  "puc_strategy_temp = [''strategy_temp_little_cold'', ''strategy_temp_cool'', ''strategy_temp_little_cool'',
     ''strategy_temp_normal_low'', ''strategy_temp_normal_high'', ''strategy_temp_warm'']"

definition puc_strategy_get_soc :: "('d, 'k) strategy_env \<Rightarrow> (rc + int) \<times> ('d, 'k) strategy_env" where
  "puc_strategy_get_soc e = read_from (is_comm_topic_available e) COMM_ITEM_UI_SOC False"

definition puc_strategy_get_vbat :: "('d, 'k) strategy_env \<Rightarrow> (rc + int) \<times> ('d, 'k) strategy_env" where
  "puc_strategy_get_vbat e = read_from (is_gauge_topic_available e) GAUGE_ITEM_VOL_MAX True"

definition puc_strategy_get_temp :: "'a puc_strategy_scheme \<Rightarrow> ('d, 'k) strategy_env \<Rightarrow> (rc + int) \<times> ('d, 'k) strategy_env" where
  "puc_strategy_get_temp p e = strategy_get_temp True (puc_temp_type p) e"

text \<open>The searches for the regions; \<open>None\<close> is the invalid region. The state of charge is compared as an unsigned
  number.\<close>

definition soc_region :: "u32 list \<Rightarrow> int \<Rightarrow> nat option" where
  "soc_region rng soc =
     map_option (\<lambda>i. i - 1) (find (\<lambda>i. (word_of_int soc :: u32) \<le> rng ! i) [1..<PUC_BATT_CURVE_SOC_RANGE_MAX + 1])"

definition temp_region :: "nat \<Rightarrow> int list \<Rightarrow> int \<Rightarrow> nat option" where
  "temp_region regions rng temp =
     (case find (\<lambda>i. temp < rng ! i) [0..<regions + 1] of
        None \<Rightarrow> None
      | Some i \<Rightarrow> if i \<noteq> 0 then Some (i - 1) else None)"

definition puc_get_soc_region :: "'a puc_strategy_scheme \<Rightarrow> ('d, 'k) strategy_env \<Rightarrow> nat option \<times> ('d, 'k) strategy_env" where
  "puc_get_soc_region p e =
     (case puc_strategy_get_soc e of
        (Inl rc, e) \<Rightarrow> (None, e)
      | (Inr soc, e) \<Rightarrow> (soc_region (soc_range_data p) soc, e))"

definition puc_get_temp_region :: "'a puc_strategy_scheme \<Rightarrow> ('d, 'k) strategy_env \<Rightarrow> nat option \<times> ('d, 'k) strategy_env" where
  "puc_get_temp_region p e =
     (case puc_strategy_get_temp p e of
        (Inl rc, e) \<Rightarrow> (None, e)
      | (Inr temp, e) \<Rightarrow> (temp_region PUC_BATT_CURVE_TEMP_RANGE_MAX (temp_range_data p) temp, e))"

text \<open>Reading the matrix. Five words are a level. When the number of words cannot be found out the code returns
  the result of the last read, which is 0: a null pointer, which its caller takes for an error too.\<close>

definition puc_data_of :: "u32 list \<Rightarrow> puc_strategy_data" where
  "puc_data_of ws = \<lparr>target_vbus = sint (ws ! 0), target_vbat = sint (ws ! 1), target_ibus = sint (ws ! 2),
     last_exit = sint (ws ! 3), target_time = sint (ws ! 4)\<rparr>"

definition puc_read_curve :: "'n of_api \<Rightarrow> bool \<Rightarrow> 'n \<Rightarrow> string \<Rightarrow> rc + puc_strategy_data list" where
  "puc_read_curve api mem node prop =
     (let len = of_property_count api node prop in
      if len < 0 then Inl 0
      else if (len * 4) mod 20 \<noteq> 0 then Inl (- EINVAL)
      else if \<not> mem then Inl (- ENOMEM)
      else
        (case of_property_read_u32_array api node prop (nat len) of
           Inl rc \<Rightarrow> Inl rc
         | Inr ws \<Rightarrow> Inr (map (\<lambda>i. puc_data_of (get_bytes (5 * i) 5 ws)) [0..<nat len div 5])))"

fun read_all :: "('a \<Rightarrow> rc + 'b) \<Rightarrow> 'a list \<Rightarrow> rc + 'b list" where
  "read_all f [] = Inr []"
| "read_all f (x # xs) =
     (case f x of Inl rc \<Rightarrow> Inl rc | Inr y \<Rightarrow> (case read_all f xs of Inl rc \<Rightarrow> Inl rc | Inr ys \<Rightarrow> Inr (y # ys)))"

definition puc_read_soc_node :: "'n of_api \<Rightarrow> (nat \<Rightarrow> bool) \<Rightarrow> string list \<Rightarrow> 'n \<Rightarrow> nat \<Rightarrow> rc + puc_strategy_data list list" where
  "puc_read_soc_node api mem temps node i =
     (case of_get_child_by_name api node (puc_strategy_soc ! i) of
        None \<Rightarrow> Inl (- ENODEV)
      | Some soc_node \<Rightarrow>
          read_all (\<lambda>j. puc_read_curve api (mem (1 + length temps * i + j)) soc_node (temps ! j)) [0..<length temps])"

text \<open>\<open>mem k\<close> says whether the \<open>k\<close>-th allocation succeeds.\<close>

definition puc_strategy_alloc_by_node :: "'n of_api \<Rightarrow> (nat \<Rightarrow> bool) \<Rightarrow> 'n option \<Rightarrow> rc + puc_strategy" where
  "puc_strategy_alloc_by_node api mem node =
     (case node of
        None \<Rightarrow> Inl (- EINVAL)
      | Some n \<Rightarrow>
          if \<not> mem 0 then Inl (- ENOMEM)
          else
            let type = (case of_property_read_u32 api n ''oplus,temp_type'' of Inl _ \<Rightarrow> STRATEGY_USE_SHELL_TEMP | Inr d \<Rightarrow> d) in
            (case read_data_from_node api n ''oplus,soc_range'' (PUC_BATT_CURVE_SOC_RANGE_MAX + 1) of
               Inl rc \<Rightarrow> Inl rc
             | Inr socs \<Rightarrow>
                 (case read_data_from_node api n ''oplus,temp_range'' (PUC_BATT_CURVE_TEMP_RANGE_MAX + 1) of
                    Inl rc \<Rightarrow> Inl rc
                  | Inr temps \<Rightarrow>
                      (case read_all (puc_read_soc_node api mem puc_strategy_temp n) [0..<PUC_BATT_CURVE_SOC_RANGE_MAX] of
                         Inl rc \<Rightarrow> Inl rc
                       | Inr m \<Rightarrow> Inr \<lparr>soc_curves = m, soc_range_data = socs, temp_range_data = map sint temps,
                           puc_temp_type = type, curve = None, curr_level = 0, level_timeout = 0, over_time = 0\<rparr>))))"

text \<open>The clock wraps around. \<open>ms\<close> is the kernel's \<^verbatim>\<open>msecs_to_jiffies\<close>.\<close>

definition time_is_before_jiffies :: "u64 \<Rightarrow> u64 \<Rightarrow> bool" where
  "time_is_before_jiffies t now \<longleftrightarrow> sint (t - now) < 0"

definition level_deadline :: "(u32 \<Rightarrow> u64) \<Rightarrow> u64 \<Rightarrow> puc_strategy_data \<Rightarrow> u64" where
  "level_deadline ms now d = (if target_time d > 0 then now + ms (word_of_int (target_time d) * 1000) else 0)"

definition the_curve :: "'a puc_strategy_scheme \<Rightarrow> puc_strategy_data list" where
  "the_curve p = (case curve p of None \<Rightarrow> [] | Some (i, j) \<Rightarrow> soc_curves p ! i ! j)"

definition start_curve :: "(u32 \<Rightarrow> u64) \<Rightarrow> u64 \<Rightarrow> int \<Rightarrow> nat \<times> nat \<Rightarrow> 'a puc_strategy_scheme \<Rightarrow> rc \<times> 'a puc_strategy_scheme" where
  "start_curve ms now vbat ij p =
     (let p1 = p\<lparr>curve := Some ij\<rparr>; c = the_curve p1 in
      case find (\<lambda>i. vbat < target_vbat (c ! i)) [0..<length c] of
        None \<Rightarrow> (- EINVAL, p1)
      | Some i \<Rightarrow> (0, p1\<lparr>curr_level := i, level_timeout := level_deadline ms now (c ! i), over_time := 0\<rparr>))"

definition puc_strategy_init ::
  "(u32 \<Rightarrow> u64) \<Rightarrow> puc_strategy \<Rightarrow> ('d, 'k) strategy_env \<Rightarrow> rc \<times> puc_strategy \<times> ('d, 'k) strategy_env" where
  "puc_strategy_init ms p e =
     (case puc_get_soc_region p e of
        (None, e) \<Rightarrow> (- EFAULT, p, e)
      | (Some i, e) \<Rightarrow>
          (case puc_get_temp_region p e of
             (None, e) \<Rightarrow> (- EFAULT, p, e)
           | (Some j, e) \<Rightarrow>
               (case puc_strategy_get_vbat e of
                  (Inl rc, e) \<Rightarrow> (rc, p, e)
                | (Inr vbat, e) \<Rightarrow> let (rc, p) = start_curve ms (jiffies e) vbat (i, j) p in (rc, p, e))))"

text \<open>Whether the level is left, the part before the label \<^verbatim>\<open>out\<close>, and the part after it.\<close>

definition puc_advance :: "(u32 \<Rightarrow> u64) \<Rightarrow> u64 \<Rightarrow> int \<Rightarrow> 'a puc_strategy_scheme \<Rightarrow> bool \<times> 'a puc_strategy_scheme" where
  "puc_advance ms now vbat p =
     (let data = the_curve p ! curr_level p in
      if level_timeout p > 0 \<and> time_is_before_jiffies (level_timeout p) now then (True, p\<lparr>curr_level := curr_level p + 1\<rparr>)
      else if vbat > target_vbat data then
        if over_time p = 0 then (False, p\<lparr>over_time := ms VBAT_OVER_TIME_MS + now\<rparr>)
        else if time_is_before_jiffies (over_time p) now then (True, p\<lparr>over_time := 0, curr_level := curr_level p + 1\<rparr>)
        else (False, p)
      else (False, p\<lparr>over_time := 0\<rparr>))"

definition puc_out ::
  "(u32 \<Rightarrow> u64) \<Rightarrow> u64 \<Rightarrow> bool \<times> 'a puc_strategy_scheme \<Rightarrow> puc_strategy_ret_data \<times> 'a puc_strategy_scheme" where
  "puc_out ms now up =
     (let (update, p) = up in
      if curr_level p \<ge> length (the_curve p) then
        (\<lparr>ret_vbus = 0, ret_vbat = 0, ret_ibus = 0, ret_index = 0, ret_last_gear = False, ret_exit = True\<rparr>, p)
      else
        let data = the_curve p ! curr_level p in
        (\<lparr>ret_vbus = target_vbus data, ret_vbat = target_vbat data, ret_ibus = target_ibus data, ret_index = curr_level p,
          ret_last_gear = (last_exit data \<noteq> 0), ret_exit = False\<rparr>,
         if update then p\<lparr>level_timeout := level_deadline ms now data, over_time := 0\<rparr> else p))"

definition puc_strategy_get_data ::
  "(u32 \<Rightarrow> u64) \<Rightarrow> 'a puc_strategy_scheme \<Rightarrow> ('d, 'k) strategy_env \<Rightarrow>
     (rc + puc_strategy_ret_data) \<times> 'a puc_strategy_scheme \<times> ('d, 'k) strategy_env" where
  "puc_strategy_get_data ms p e =
     (if curve p = None then (Inl (- EINVAL), p, e)
      else if curr_level p \<ge> length (the_curve p) then let (r, p) = puc_out ms (jiffies e) (False, p) in (Inr r, p, e)
      else
        (case puc_strategy_get_vbat e of
           (Inl rc, e) \<Rightarrow> (Inl rc, p, e)
         | (Inr vbat, e) \<Rightarrow>
             let (r, p) = puc_out ms (jiffies e) (puc_advance ms (jiffies e) vbat p) in (Inr r, p, e)))"

definition puc_strategy_get_metadata :: "'a puc_strategy_scheme \<Rightarrow> strategy_fault + puc_strategy_data list" where
  "puc_strategy_get_metadata p = (if curve p = None then Inl Null_pointer else Inr (the_curve p))"

definition puc_strategy_desc ::
  "'n of_api \<Rightarrow> (nat \<Rightarrow> bool) \<Rightarrow> (u32 \<Rightarrow> u64) \<Rightarrow> ('n, ('d, 'k) strategy_env, puc_strategy, puc_strategy_ret_data) oplus_chg_strategy_desc" where
  "puc_strategy_desc api mem ms =
     \<lparr>strategy_name = ''pps_ufcs_curve'', strategy_alloc = (\<lambda>_. Inl (- ENOTSUPP)),
      strategy_alloc_by_node = Some (\<lambda>n. puc_strategy_alloc_by_node api mem (Some n)),
      strategy_init = puc_strategy_init ms, strategy_get_data = (\<lambda>s e. Some (puc_strategy_get_data ms s e)),
      strategy_set_process_data = None, strategy_get_custom_data = None\<rparr>"

section \<open>The second version\<close>

text \<open>The user can fix the temperature region and the state of charge the selection starts from. All the rest is as
  in the first version, with one temperature region more. After allocation the fixed region is the coldest.\<close>

definition PUC2_TEMP_RANGE_MAX :: nat where "PUC2_TEMP_RANGE_MAX = 7"

record puc2_strategy = puc_strategy +
  fixed_temp_region :: nat
  allow_soc :: int

definition puc2_get_fastchg_allow_soc_region ::
  "puc2_strategy \<Rightarrow> ('d, 'k) strategy_env \<Rightarrow> nat option \<times> ('d, 'k) strategy_env" where
  "puc2_get_fastchg_allow_soc_region p e =
     (case puc_strategy_get_soc e of
        (Inl rc, e) \<Rightarrow> (None, e)
      | (Inr soc, e) \<Rightarrow>
          if sint (c_abs (word_of_int (c_sub (allow_soc p) soc))) > 1 then (None, e)
          else (soc_region (soc_range_data p) (allow_soc p), e))"

definition puc2_get_temp_region :: "puc2_strategy \<Rightarrow> ('d, 'k) strategy_env \<Rightarrow> nat option \<times> ('d, 'k) strategy_env" where
  "puc2_get_temp_region p e =
     (case puc_strategy_get_temp p e of
        (Inl rc, e) \<Rightarrow> (None, e)
      | (Inr temp, e) \<Rightarrow>
          let r = temp_region PUC2_TEMP_RANGE_MAX (temp_range_data p) temp in
          (if r \<noteq> Some (fixed_temp_region p) \<and> fixed_temp_region p \<noteq> PUC2_TEMP_RANGE_MAX then Some (fixed_temp_region p) else r, e))"

definition puc2_strategy_init ::
  "(u32 \<Rightarrow> u64) \<Rightarrow> puc2_strategy \<Rightarrow> ('d, 'k) strategy_env \<Rightarrow> rc \<times> puc2_strategy \<times> ('d, 'k) strategy_env" where
  "puc2_strategy_init ms p e =
     (let (i, e) = puc_get_soc_region p e;
          (i, e) = (case i of None \<Rightarrow> puc2_get_fastchg_allow_soc_region p e | Some _ \<Rightarrow> (i, e)) in
      case i of
        None \<Rightarrow> (- EFAULT, p, e)
      | Some i \<Rightarrow>
          (case puc2_get_temp_region p e of
             (None, e) \<Rightarrow> (- EFAULT, p, e)
           | (Some j, e) \<Rightarrow>
               (case puc_strategy_get_vbat e of
                  (Inl rc, e) \<Rightarrow> (rc, p, e)
                | (Inr vbat, e) \<Rightarrow> let (rc, p) = start_curve ms (jiffies e) vbat (i, j) p in (rc, p, e))))"

definition puc2_strategy_set_process_data :: "puc2_strategy \<Rightarrow> string \<Rightarrow> u64 \<Rightarrow> rc \<times> puc2_strategy" where
  "puc2_strategy_set_process_data p type arg =
     (if type = ''temp_region'' then
        if arg < 1 \<or> arg > of_nat PUC2_TEMP_RANGE_MAX then (- EINVAL, p\<lparr>fixed_temp_region := PUC2_TEMP_RANGE_MAX\<rparr>)
        else (0, p\<lparr>fixed_temp_region := unat (arg - 1)\<rparr>)
      else if type = ''allow_soc'' then
        if arg < ucast (soc_range_data p ! 0) \<or> arg > ucast (soc_range_data p ! PUC_BATT_CURVE_SOC_RANGE_MAX)
        then (- EINVAL, p\<lparr>allow_soc := int PUC_BATT_CURVE_SOC_RANGE_MAX\<rparr>)
        else (0, p\<lparr>allow_soc := sint (ucast arg :: u32)\<rparr>)
      else (- ENOTSUPP, p))"

section \<open>Shape\<close>

text \<open>The matrix has a row for each range of the state of charge and a curve for each temperature region, the
  ranges have one bound more, and the selected curve is in the matrix.\<close>

definition puc_shape :: "nat \<Rightarrow> puc_strategy_data list list list \<Rightarrow> bool" where
  "puc_shape nt m \<longleftrightarrow> length m = PUC_BATT_CURVE_SOC_RANGE_MAX \<and> list_all (\<lambda>row. length row = nt) m"

definition puc_good :: "nat \<Rightarrow> puc_strategy_data list list list \<Rightarrow> 'a puc_strategy_scheme \<Rightarrow> bool" where
  "puc_good nt m p \<longleftrightarrow> soc_curves p = m \<and> puc_shape nt m \<and>
     length (soc_range_data p) = PUC_BATT_CURVE_SOC_RANGE_MAX + 1 \<and> length (temp_range_data p) = nt + 1 \<and>
     (case curve p of None \<Rightarrow> True | Some (i, j) \<Rightarrow> i < PUC_BATT_CURVE_SOC_RANGE_MAX \<and> j < nt)"

lemma read_all_Inr: "read_all f xs = Inr ys \<Longrightarrow> length ys = length xs \<and> (\<forall>i<length xs. f (xs ! i) = Inr (ys ! i))"
proof (induction xs arbitrary: ys)
  case (Cons x xs)
  then obtain y zs where "f x = Inr y" "read_all f xs = Inr zs" "ys = y # zs" by (auto split: sum.splits)
  then show ?case using Cons.IH [of zs] by (auto simp: nth_Cons split: nat.split)
qed simp

lemma alloc_good:
  assumes "of_api_reads api" and "puc_strategy_alloc_by_node api mem node = Inr p"
  shows "puc_good PUC_BATT_CURVE_TEMP_RANGE_MAX (soc_curves p) p \<and> curve p = None"
proof -
  obtain n socs temps m where r: "read_data_from_node api n ''oplus,soc_range'' (PUC_BATT_CURVE_SOC_RANGE_MAX + 1) = Inr socs"
      "read_data_from_node api n ''oplus,temp_range'' (PUC_BATT_CURVE_TEMP_RANGE_MAX + 1) = Inr temps"
      "read_all (puc_read_soc_node api mem puc_strategy_temp n) [0..<PUC_BATT_CURVE_SOC_RANGE_MAX] = Inr m"
    and p: "soc_curves p = m" "soc_range_data p = socs" "temp_range_data p = map sint temps" "curve p = None"
    using assms(2) by (auto simp: puc_strategy_alloc_by_node_def Let_def split: option.splits if_splits sum.splits)
  have "length (m ! i) = PUC_BATT_CURVE_TEMP_RANGE_MAX" if "i < length m" for i
  proof -
    have "puc_read_soc_node api mem puc_strategy_temp n i = Inr (m ! i)" using that read_all_Inr [OF r(3)] by simp
    then obtain f where "read_all f [0..<length puc_strategy_temp] = Inr (m ! i)"
      by (auto simp: puc_read_soc_node_def split: option.splits)
    from read_all_Inr [OF this] show ?thesis by (simp add: puc_strategy_temp_def PUC_BATT_CURVE_TEMP_RANGE_MAX_def)
  qed
  then show ?thesis using p read_data_length [OF assms(1)] r(1,2) read_all_Inr [OF r(3)]
    by (auto simp: puc_good_def puc_shape_def list_all_length)
qed

text \<open>The regions that are found.\<close>

lemma soc_region_bound: "soc_region rng soc = Some i \<Longrightarrow> i < PUC_BATT_CURVE_SOC_RANGE_MAX"
  by (auto simp: soc_region_def find_upt_Some PUC_BATT_CURVE_SOC_RANGE_MAX_def simp del: upt_Suc upt_rec_numeral)

lemma temp_region_bound: "temp_region n rng t = Some i \<Longrightarrow> i < n"
  by (auto simp: temp_region_def find_upt_Some split: option.splits if_splits simp del: upt_Suc)

lemma start_curve_good:
  assumes "puc_good nt m p" and "i < PUC_BATT_CURVE_SOC_RANGE_MAX" and "j < nt"
  shows "puc_good nt m (snd (start_curve ms now vbat (i, j) p))"
  using assms by (auto simp: start_curve_def puc_good_def Let_def split: option.split)

lemma puc_init_good:
  assumes "puc_good PUC_BATT_CURVE_TEMP_RANGE_MAX m p"
  shows "puc_good PUC_BATT_CURVE_TEMP_RANGE_MAX m (fst (snd (puc_strategy_init ms p e)))"
  using assms start_curve_good [OF assms]
  by (auto simp: puc_strategy_init_def puc_get_soc_region_def puc_get_temp_region_def
    dest!: soc_region_bound temp_region_bound split: prod.splits sum.splits option.splits) (metis snd_conv)+

lemma the_curve_updates [simp]:
  "the_curve (p\<lparr>curr_level := a\<rparr>) = the_curve p" "the_curve (p\<lparr>level_timeout := b\<rparr>) = the_curve p" "the_curve (p\<lparr>over_time := c\<rparr>) = the_curve p"
  by (simp_all add: the_curve_def split: option.split)

lemma the_curve_in:
  assumes "puc_good nt m p" and "k < length (the_curve p)"
  shows "\<exists>row\<in>set m. \<exists>c\<in>set row. the_curve p ! k \<in> set c"
proof (cases "curve p")
  case (Some ij)
  obtain i j where ij: "ij = (i, j)" by fastforce
  then have "i < length m" "j < length (m ! i)" "the_curve p = m ! i ! j"
    using assms(1) Some by (auto simp: puc_good_def puc_shape_def the_curve_def list_all_length)
  then show ?thesis using assms(2) by (metis nth_mem)
qed (use assms(2) in \<open>simp add: the_curve_def\<close>)

section \<open>One call\<close>

definition targets_of :: "puc_strategy_data \<Rightarrow> puc_strategy_ret_data \<Rightarrow> bool" where
  "targets_of d r \<longleftrightarrow> \<not> ret_exit r \<and> ret_vbus r = target_vbus d \<and> ret_vbat r = target_vbat d \<and> ret_ibus r = target_ibus d"

lemma jiffies_topic [simp]: "snd (is_gauge_topic_available e) = e' \<Longrightarrow> jiffies e' = jiffies e"
  by (auto simp: is_gauge_topic_available_def split: prod.splits)

lemma jiffies_read_item: "read_item i iid u e = (r, e') \<Longrightarrow> jiffies e' = jiffies e"
  by (auto simp: read_item_def split: prod.splits option.splits)

lemma jiffies_get_vbat: "puc_strategy_get_vbat e = (r, e') \<Longrightarrow> jiffies e' = jiffies e"
  by (auto simp: puc_strategy_get_vbat_def read_from_def split: prod.splits option.splits dest!: jiffies_read_item)

text \<open>What a call makes of the state, for every reading of the voltage.\<close>

definition puc_next :: "(u32 \<Rightarrow> u64) \<Rightarrow> 'a puc_strategy_scheme \<Rightarrow> ('d, 'k) strategy_env \<Rightarrow> 'a puc_strategy_scheme" where
  "puc_next ms p e = fst (snd (puc_strategy_get_data ms p e))"

definition vbat_of :: "('d, 'k) strategy_env \<Rightarrow> rc + int" where
  "vbat_of e = fst (puc_strategy_get_vbat e)"

lemma puc_next_eq:
  "puc_next ms p e =
     (if curr_level p \<ge> length (the_curve p) then p
      else case vbat_of e of Inl _ \<Rightarrow> p | Inr v \<Rightarrow> snd (puc_out ms (jiffies e) (puc_advance ms (jiffies e) v p)))"
  by (auto simp: puc_next_def puc_strategy_get_data_def vbat_of_def puc_out_def the_curve_def [of p] Let_def
    dest: jiffies_get_vbat split: prod.splits sum.splits option.splits)

lemma puc_advance_frame:
  "the_curve (snd (puc_advance ms now v p)) = the_curve p" "curve (snd (puc_advance ms now v p)) = curve p"
  "soc_curves (snd (puc_advance ms now v p)) = soc_curves p" "soc_range_data (snd (puc_advance ms now v p)) = soc_range_data p"
  "temp_range_data (snd (puc_advance ms now v p)) = temp_range_data p"
  "curr_level (snd (puc_advance ms now v p)) = curr_level p + (if fst (puc_advance ms now v p) then 1 else 0)"
  by (simp_all add: puc_advance_def Let_def)

lemma puc_out_frame:
  "the_curve (snd (puc_out ms now up)) = the_curve (snd up)" "curve (snd (puc_out ms now up)) = curve (snd up)"
  "soc_curves (snd (puc_out ms now up)) = soc_curves (snd up)" "soc_range_data (snd (puc_out ms now up)) = soc_range_data (snd up)"
  "temp_range_data (snd (puc_out ms now up)) = temp_range_data (snd up)" "curr_level (snd (puc_out ms now up)) = curr_level (snd up)"
  by (auto simp: puc_out_def Let_def split: prod.split)

lemmas puc_frame = puc_advance_frame puc_out_frame

lemma puc_next_frame:
  "the_curve (puc_next ms p e) = the_curve p" "curve (puc_next ms p e) = curve p" "soc_curves (puc_next ms p e) = soc_curves p"
  "soc_range_data (puc_next ms p e) = soc_range_data p" "temp_range_data (puc_next ms p e) = temp_range_data p"
  by (auto simp: puc_next_eq puc_frame split: sum.split)

lemma puc_next_level: "curr_level p \<le> curr_level (puc_next ms p e) \<and> curr_level (puc_next ms p e) \<le> curr_level p + 1"
  by (auto simp: puc_next_eq puc_frame split: sum.split)

lemma puc_next_good: "puc_good nt m p \<Longrightarrow> puc_good nt m (puc_next ms p e)"
  by (simp add: puc_good_def puc_next_frame)

lemma puc_result:
  assumes "puc_strategy_get_data ms p e = (Inr r, p', e')"
  shows "if curr_level p' \<ge> length (the_curve p') then ret_exit r else targets_of (the_curve p' ! curr_level p') r \<and> ret_index r = curr_level p'"
  using assms
  by (auto simp: puc_strategy_get_data_def puc_out_def targets_of_def Let_def split: prod.splits sum.splits if_splits)

lemma puc_get_data_next: "puc_strategy_get_data ms p e = (r, p', e') \<Longrightarrow> p' = puc_next ms p e"
  by (simp add: puc_next_def)

lemma puc_get_good:
  assumes "puc_good nt m p"
  shows "\<exists>r p' e'. Some (puc_strategy_get_data ms p e) = Some (r, p', e') \<and> puc_good nt m p' \<and>
    (\<forall>x. r = Inr x \<longrightarrow> ret_exit x \<or> (\<exists>row\<in>set m. \<exists>c\<in>set row. \<exists>d\<in>set c. targets_of d x))"
proof (cases "puc_strategy_get_data ms p e")
  case (fields r p' e')
  have g: "puc_good nt m p'" using puc_next_good [OF assms] puc_get_data_next [OF fields] by simp
  have "ret_exit x \<or> (\<exists>row\<in>set m. \<exists>c\<in>set row. \<exists>d\<in>set c. targets_of d x)" if "r = Inr x" for x
    using puc_result [OF fields [unfolded that]] the_curve_in [OF g, of "curr_level p'"] by (auto split: if_splits)
  then show ?thesis using fields g by auto
qed

interpretation puc: charging_strategy "puc_good PUC_BATT_CURVE_TEMP_RANGE_MAX m" "\<lambda>_. True"
    "\<lambda>x. ret_exit x \<or> (\<exists>row\<in>set m. \<exists>c\<in>set row. \<exists>d\<in>set c. targets_of d x)"
    "puc_strategy_init ms" "\<lambda>s e. Some (puc_strategy_get_data ms s e)" for m ms
  using puc_init_good puc_get_good by unfold_locales blast+

section \<open>Histories\<close>

text \<open>When the mark of an excess is set, it goes back to a call since which the voltage has always been above the
  target of the level.\<close>

definition above :: "'a puc_strategy_scheme \<Rightarrow> ('d, 'k) strategy_env \<Rightarrow> bool" where
  "above p e \<longleftrightarrow> (case vbat_of e of Inl _ \<Rightarrow> True | Inr v \<Rightarrow> v > target_vbat (the_curve p ! curr_level p))"

definition marked_since :: "(u32 \<Rightarrow> u64) \<Rightarrow> ('d, 'k) strategy_env list \<Rightarrow> 'a puc_strategy_scheme \<Rightarrow> bool" where
  "marked_since ms es p \<longleftrightarrow>
     (over_time p \<noteq> 0 \<longrightarrow> curr_level p < length (the_curve p) \<longrightarrow>
       (\<exists>es1 e0 es2. es = es1 @ e0 # es2 \<and> over_time p = ms VBAT_OVER_TIME_MS + jiffies e0 \<and> (\<forall>x\<in>set (e0 # es2). above p x)))"

lemma above_cong: "the_curve q = the_curve p \<Longrightarrow> curr_level q = curr_level p \<Longrightarrow> above q = above p"
  by (rule ext) (simp add: above_def split: sum.split)

lemma marked_since_same:
  assumes "marked_since ms es p" and "over_time q = over_time p" and "the_curve q = the_curve p" and "curr_level q = curr_level p"
    and "curr_level p < length (the_curve p) \<longrightarrow> above p e"
  shows "marked_since ms (es @ [e]) q"
proof -
  have a: "above q = above p" using assms(3,4) by (rule above_cong)
  show ?thesis unfolding marked_since_def assms(2-4) a
  proof (intro impI)
    assume o: "over_time p \<noteq> 0" "curr_level p < length (the_curve p)"
    then obtain es1 e0 es2 where "es = es1 @ e0 # es2" "over_time p = ms VBAT_OVER_TIME_MS + jiffies e0" "\<forall>x\<in>set (e0 # es2). above p x"
      using assms(1) by (auto simp: marked_since_def)
    then show "\<exists>es1 e0 es2. es @ [e] = es1 @ e0 # es2 \<and> over_time p = ms VBAT_OVER_TIME_MS + jiffies e0 \<and> (\<forall>x\<in>set (e0 # es2). above p x)"
      using assms(5) o(2) by (intro exI [of _ es1] exI [of _ e0] exI [of _ "es2 @ [e]"]) auto
  qed
qed

lemma marked_since_new:
  "over_time q = ms VBAT_OVER_TIME_MS + jiffies e \<Longrightarrow> above q e \<Longrightarrow> marked_since ms (es @ [e]) q"
  unfolding marked_since_def by (intro impI exI [of _ es] exI [of _ e] exI [of _ "[]"]) simp

lemma marked_since_next:
  assumes "marked_since ms es p"
  shows "marked_since ms (es @ [e]) (puc_next ms p e)"
proof (cases "curr_level p < length (the_curve p)")
  case False
  then show ?thesis by (simp add: puc_next_eq marked_since_def)
next
  case True
  show ?thesis
  proof (cases "vbat_of e")
    case (Inl rc)
    then show ?thesis using True assms by (simp add: puc_next_eq above_def marked_since_same)
  next
    case (Inr v)
    let ?a = "puc_advance ms (jiffies e) v p"
    have n: "puc_next ms p e = snd (puc_out ms (jiffies e) ?a)" using True Inr by (simp add: puc_next_eq)
    show ?thesis
    proof (cases "fst ?a")
      case True
      then have "over_time (puc_next ms p e) = 0 \<or> curr_level (puc_next ms p e) \<ge> length (the_curve (puc_next ms p e))"
        by (auto simp: n puc_out_def Let_def split: prod.split)
      then show ?thesis by (auto simp: marked_since_def)
    next
      case False
      then have q: "puc_next ms p e = snd ?a" by (auto simp: n puc_out_def Let_def split: prod.split)
      have l: "the_curve (snd ?a) = the_curve p" "curr_level (snd ?a) = curr_level p" using False by (simp_all add: puc_frame)
      from False consider "over_time (snd ?a) = 0"
        | "v > target_vbat (the_curve p ! curr_level p)" "over_time (snd ?a) = ms VBAT_OVER_TIME_MS + jiffies e"
        | "v > target_vbat (the_curve p ! curr_level p)" "over_time (snd ?a) = over_time p"
        by (auto simp: puc_advance_def Let_def split: if_splits)
      then show ?thesis
      proof cases
        case 2
        have "above (snd ?a) e" using 2(1) Inr l by (simp add: above_def)
        then show ?thesis unfolding q using 2(2) by (intro marked_since_new)
      next
        case 3
        have "above p e" using 3(1) Inr by (simp add: above_def)
        then show ?thesis unfolding q using marked_since_same [OF assms 3(2) l] by blast
      qed (simp add: q marked_since_def)
    qed
  qed
qed

lemma marked_since_run: "over_time p = 0 \<Longrightarrow> marked_since ms es (foldl (puc_next ms) p es)"
proof (induction es rule: rev_induct)
  case Nil
  then show ?case by (simp add: marked_since_def)
qed (simp add: marked_since_next)

lemma puc_next_level_eq:
  "curr_level p < length (the_curve p) \<Longrightarrow> vbat_of e = Inr v \<Longrightarrow>
   curr_level (puc_next ms p e) = curr_level p + (if fst (puc_advance ms (jiffies e) v p) then 1 else 0)"
  by (simp add: puc_next_eq puc_frame)

lemma left_by_voltage:
  assumes "curr_level (puc_next ms p e) = curr_level p + 1"
    and "\<not> (level_timeout p > 0 \<and> time_is_before_jiffies (level_timeout p) (jiffies e))"
  shows "over_time p \<noteq> 0 \<and> curr_level p < length (the_curve p) \<and> above p e \<and> time_is_before_jiffies (over_time p) (jiffies e)"
proof -
  have l: "curr_level p < length (the_curve p)"
  proof (rule ccontr)
    assume "\<not> ?thesis"
    then have "puc_next ms p e = p" by (simp add: puc_next_eq)
    then show False using assms(1) by simp
  qed
  have "\<exists>v. vbat_of e = Inr v"
  proof (rule ccontr)
    assume "\<not> ?thesis"
    then obtain rc where "vbat_of e = Inl rc" by (cases "vbat_of e") auto
    then have "puc_next ms p e = p" by (simp add: puc_next_eq)
    then show False using assms(1) by simp
  qed
  then obtain v where v: "vbat_of e = Inr v" ..
  let ?a = "puc_advance ms (jiffies e) v p"
  have "fst ?a" using assms(1) unfolding puc_next_level_eq [OF l v] by (cases "fst ?a") simp_all
  then have "over_time p \<noteq> 0 \<and> v > target_vbat (the_curve p ! curr_level p) \<and> time_is_before_jiffies (over_time p) (jiffies e)"
    using assms(2) by (simp add: puc_advance_def Let_def split: if_splits)
  then show ?thesis using l v by (simp add: above_def)
qed

section \<open>The end of the curve\<close>

text \<open>Calls that are far enough apart, each with a time.\<close>

fun spaced :: "nat \<Rightarrow> nat \<Rightarrow> ('d, 'k) strategy_env list \<Rightarrow> bool" where
  "spaced gap t [] = True"
| "spaced gap t (e # es) = (t + gap < unat (jiffies e) \<and> spaced gap (unat (jiffies e)) es)"

lemma sint_u64: "- (2 ^ 63) \<le> i \<Longrightarrow> i < 2 ^ 63 \<Longrightarrow> sint (word_of_int i :: u64) = i"
  by (simp add: int_word_sint)

lemma before_iff:
  fixes a b :: u64
  assumes "unat a < unat b" and "unat b < 2 ^ 63"
  shows "time_is_before_jiffies a b"
proof -
  have b: "int (unat b) < 2 ^ 63" using assms(2) by (metis of_nat_less_iff of_nat_numeral of_nat_power)
  have eq: "a - b = word_of_int (int (unat a) - int (unat b))" by simp
  have "sint (a - b) = int (unat a) - int (unat b)" unfolding eq using assms(1) b by (intro sint_u64) linarith+
  then show ?thesis using assms(1) unfolding time_is_before_jiffies_def by linarith
qed

text \<open>As long as the level is not the last, a call in time either marks the excess or leaves the level.\<close>

definition calls_left :: "'a puc_strategy_scheme \<Rightarrow> nat" where
  "calls_left p = 2 * (length (the_curve p) - curr_level p) - (if over_time p \<noteq> 0 then 1 else 0)"

lemma puc_next_progress:
  assumes "curr_level p < length (the_curve p)" and "vbat_of e = Inr v" and "v > target_vbat (the_curve p ! curr_level p)"
    and "over_time p \<noteq> 0 \<longrightarrow> time_is_before_jiffies (over_time p) (jiffies e)" and "ms VBAT_OVER_TIME_MS + jiffies e \<noteq> 0"
  shows "calls_left (puc_next ms p e) < calls_left p \<and>
    (over_time (puc_next ms p e) \<noteq> 0 \<longrightarrow> curr_level (puc_next ms p e) \<ge> length (the_curve p) \<or>
      over_time (puc_next ms p e) = ms VBAT_OVER_TIME_MS + jiffies e)"
proof -
  let ?a = "puc_advance ms (jiffies e) v p"
  have n: "puc_next ms p e = snd (puc_out ms (jiffies e) ?a)" using assms(1,2) by (simp add: puc_next_eq)
  show ?thesis
  proof (cases "fst ?a")
    case True
    then have "curr_level (puc_next ms p e) = curr_level p + 1" by (simp add: puc_next_level_eq [OF assms(1,2)])
    moreover have "over_time (puc_next ms p e) = 0 \<or> curr_level (puc_next ms p e) \<ge> length (the_curve p)"
      using True puc_advance_frame(1) [of ms "jiffies e" v p] by (auto simp: n puc_out_def Let_def split: prod.split)
    ultimately show ?thesis using assms(1) by (auto simp: calls_left_def puc_next_frame)
  next
    case False
    then have q: "puc_next ms p e = snd ?a" by (auto simp: n puc_out_def Let_def split: prod.split)
    have "over_time p = 0 \<and> snd ?a = p\<lparr>over_time := ms VBAT_OVER_TIME_MS + jiffies e\<rparr>"
      using False assms(3,4) by (auto simp: puc_advance_def Let_def split: if_splits)
    then show ?thesis using assms(1,5) by (simp add: q calls_left_def)
  qed
qed

lemma puc_run_exits:
  assumes "\<forall>e\<in>set es. \<exists>v. vbat_of e = Inr v \<and> (\<forall>d\<in>set (the_curve p). v > target_vbat d) \<and> unat (jiffies e) < 2 ^ 62"
    and "spaced (unat (ms VBAT_OVER_TIME_MS)) t es" and "unat (ms VBAT_OVER_TIME_MS) < 2 ^ 62"
    and "over_time p \<noteq> 0 \<longrightarrow> curr_level p < length (the_curve p) \<longrightarrow> unat (over_time p) \<le> t + unat (ms VBAT_OVER_TIME_MS)"
    and "calls_left p \<le> length es"
  shows "curr_level (foldl (puc_next ms) p es) \<ge> length (the_curve p)"
  using assms
proof (induction es arbitrary: p t)
  case Nil
  then show ?case by (auto simp: calls_left_def split: if_splits)
next
  case (Cons e es)
  let ?q = "puc_next ms p e" and ?g = "unat (ms VBAT_OVER_TIME_MS)"
  obtain v where v: "vbat_of e = Inr v" "\<forall>d\<in>set (the_curve p). v > target_vbat d" "unat (jiffies e) < 2 ^ 62"
    using Cons.prems(1) by auto
  show ?case
  proof (cases "curr_level p < length (the_curve p)")
    case True
    have "unat (jiffies e) < 2 ^ 63" using v(3) by simp
    then have b: "over_time p \<noteq> 0 \<longrightarrow> time_is_before_jiffies (over_time p) (jiffies e)"
      using Cons.prems(2,4) True by (auto intro!: before_iff)
    have u: "unat (ms VBAT_OVER_TIME_MS + jiffies e) = ?g + unat (jiffies e)"
      using v(3) Cons.prems(3) by (simp add: unat_word_ariths)
    moreover have "0 < unat (jiffies e)" using Cons.prems(2) by simp
    ultimately have nz: "ms VBAT_OVER_TIME_MS + jiffies e \<noteq> 0" by (metis add_is_0 neq0_conv unat_0)
    have "v > target_vbat (the_curve p ! curr_level p)" using v(2) True by simp
    note n = puc_next_progress [of p e v ms, OF True v(1) this b nz]
    have "curr_level (foldl (puc_next ms) ?q es) \<ge> length (the_curve ?q)"
    proof (rule Cons.IH [of ?q "unat (jiffies e)"])
      show "over_time ?q \<noteq> 0 \<longrightarrow> curr_level ?q < length (the_curve ?q) \<longrightarrow> unat (over_time ?q) \<le> unat (jiffies e) + ?g"
      proof (intro impI)
        assume "over_time ?q \<noteq> 0" "curr_level ?q < length (the_curve ?q)"
        then have "over_time ?q = ms VBAT_OVER_TIME_MS + jiffies e" using n unfolding puc_next_frame by linarith
        then show "unat (over_time ?q) \<le> unat (jiffies e) + ?g" using u by (metis add.commute order.refl)
      qed
      show "calls_left ?q \<le> length es" using n Cons.prems(5) by simp
    qed (use Cons.prems in \<open>auto simp: puc_next_frame\<close>)
    then show ?thesis by (simp add: puc_next_frame)
  next
    case False
    then have "?q = p" by (simp add: puc_next_eq)
    moreover have "foldl (puc_next ms) p es = p" using False by (induction es) (simp_all add: puc_next_eq)
    ultimately show ?thesis using False by simp
  qed
qed

section \<open>An example\<close>

text \<open>A device tree with a single level in all curves, and curves of two levels to run through.\<close>

definition demo_of_api :: "unit of_api" where
  "demo_of_api =
     \<lparr>of_property_count = (\<lambda>_ p. if p = ''oplus,soc_range'' \<or> p = ''oplus,temp_range'' then 7 else 5),
      of_property_read_u32 = (\<lambda>_ _. Inl (- EINVAL)),
      of_property_read_u32_array = (\<lambda>_ p k. Inr (map (\<lambda>i.
        if p = ''oplus,soc_range'' then 20 * of_nat i else if p = ''oplus,temp_range'' then 50 * of_nat i
        else [10000, 4400, 6000, 1, 0] ! (i mod 5)) [0..<k])),
      of_property_read_string = (\<lambda>_ _. Inl (- EINVAL)), of_get_child_by_name = (\<lambda>n _. Some n)\<rparr>"

lemma demo_of_api_reads: "of_api_reads demo_of_api"
  by (simp add: of_api_reads_def demo_of_api_def)

definition demo_level :: "int \<Rightarrow> puc_strategy_data" where
  "demo_level v = \<lparr>target_vbus = 10000, target_vbat = v, target_ibus = 6000, last_exit = 1, target_time = 0\<rparr>"

definition demo_puc :: puc_strategy where
  "demo_puc = \<lparr>soc_curves = [[[demo_level 4200, demo_level 4400]]], soc_range_data = [], temp_range_data = [], puc_temp_type = 1,
     curve = Some (0, 0), curr_level = 0, level_timeout = 0, over_time = 0\<rparr>"

definition demo_ms :: "u32 \<Rightarrow> u64" where "demo_ms m = ucast m"

section \<open>Properties\<close>

text \<open>C39: A strategy that was read from the device tree keeps its shape in any sequence of calls: the selected curve
  is one of the matrix, and what a call returns is the end of the curve or the targets of a level of the matrix.\<close>

theorem puc_well_formed:
  assumes "of_api_reads api" and "puc_strategy_alloc_by_node api mem node = Inr p"
  shows "\<exists>rs p'. run_strategy (puc_strategy_init ms) (\<lambda>s e. Some (puc_strategy_get_data ms s e)) cs p = Some (rs, p') \<and>
    puc_good PUC_BATT_CURVE_TEMP_RANGE_MAX (soc_curves p) p' \<and>
    (\<forall>x. Inr x \<in> set rs \<longrightarrow> ret_exit x \<or> (\<exists>row\<in>set (soc_curves p). \<exists>c\<in>set row. \<exists>d\<in>set c. targets_of d x))"
  using alloc_good [OF assms] by (intro puc.run_fine) simp_all

theorem puc_well_formed_witness:
  "\<exists>p rs p'. puc_strategy_alloc_by_node demo_of_api (\<lambda>_. True) (Some ()) = Inr p \<and>
     run_strategy (puc_strategy_init demo_ms) (\<lambda>s e. Some (puc_strategy_get_data demo_ms s e))
       [Call_init (demo_measured 50 120 3900 0 120 5), Call_get (demo_measured 50 120 3900 0 120 6)] p = Some (rs, p') \<and>
     puc_good PUC_BATT_CURVE_TEMP_RANGE_MAX (soc_curves p) p'"
proof -
  have "\<not> isl (puc_strategy_alloc_by_node demo_of_api (\<lambda>_. True) (Some ()))" by code_simp
  then obtain p where p: "puc_strategy_alloc_by_node demo_of_api (\<lambda>_. True) (Some ()) = Inr p" by (auto simp: isl_def) (metis sum.exhaust)
  from puc_well_formed [OF demo_of_api_reads this, of demo_ms] p show ?thesis by blast
qed

text \<open>C40: No level is left without cause. When its time is not up, the voltage has been above the target of the
  level at every reading since a call that is longer ago than the time an excess has to last.\<close>

theorem puc_level_left_for_cause:
  assumes "over_time p = 0" and "q = foldl (puc_next ms) p es" and "curr_level (puc_next ms q e) = curr_level q + 1"
    and "\<not> (level_timeout q > 0 \<and> time_is_before_jiffies (level_timeout q) (jiffies e))"
  shows "\<exists>es1 e0 es2. es = es1 @ e0 # es2 \<and> time_is_before_jiffies (ms VBAT_OVER_TIME_MS + jiffies e0) (jiffies e) \<and>
    (\<forall>x\<in>set (e0 # es2 @ [e]). above q x)"
proof -
  note l = left_by_voltage [OF assms(3,4)]
  have "marked_since ms es q" using marked_since_run [OF assms(1)] assms(2) by simp
  then obtain es1 e0 es2 where "es = es1 @ e0 # es2" "over_time q = ms VBAT_OVER_TIME_MS + jiffies e0" "\<forall>x\<in>set (e0 # es2). above q x"
    using l unfolding marked_since_def by blast
  with l show ?thesis by (intro exI [of _ es1] exI [of _ e0] exI [of _ es2]) auto
qed

theorem puc_level_left_for_cause_witness:
  "\<exists>es1 e0 es2. [demo_measured 50 120 4300 0 120 1000] = es1 @ e0 # es2 \<and>
     time_is_before_jiffies (demo_ms VBAT_OVER_TIME_MS + jiffies e0) 4000"
proof -
  let ?es = "[demo_measured 50 120 4300 0 120 1000]" and ?e = "demo_measured 50 120 4300 0 120 4000"
  let ?q = "foldl (puc_next demo_ms) demo_puc ?es"
  have "over_time demo_puc = 0" "jiffies ?e = 4000" by code_simp+
  moreover have "curr_level (puc_next demo_ms ?q ?e) = curr_level ?q + 1" by code_simp
  moreover have "\<not> (level_timeout ?q > 0 \<and> time_is_before_jiffies (level_timeout ?q) (jiffies ?e))" by code_simp
  ultimately show ?thesis using puc_level_left_for_cause [of demo_puc ?q demo_ms ?es ?e] by metis
qed

text \<open>Charging comes to an end: when the voltage stays above all targets of the curve and the calls are further
  apart than the time an excess has to last, two calls for each level are enough, and every later call
  reports the end.\<close>

theorem puc_reaches_exit:
  assumes "curve p \<noteq> None" and "over_time p = 0" and "2 * (length (the_curve p) - curr_level p) \<le> length es"
    and "\<forall>e\<in>set es. \<exists>v. vbat_of e = Inr v \<and> (\<forall>d\<in>set (the_curve p). v > target_vbat d) \<and> unat (jiffies e) < 2 ^ 62"
    and "spaced (unat (ms VBAT_OVER_TIME_MS)) t es" and "unat (ms VBAT_OVER_TIME_MS) < 2 ^ 62"
  shows "\<exists>r. fst (puc_strategy_get_data ms (foldl (puc_next ms) p es) e) = Inr r \<and> ret_exit r"
proof -
  have f: "curve (foldl (puc_next ms) p es) = curve p \<and> the_curve (foldl (puc_next ms) p es) = the_curve p" for es
    by (induction es arbitrary: p) (simp_all add: puc_next_frame)
  have "curr_level (foldl (puc_next ms) p es) \<ge> length (the_curve p)"
    using puc_run_exits [of es p ms t, OF assms(4-6)] assms(2,3) by (simp add: calls_left_def)
  then show ?thesis using f [of es] assms(1) by (auto simp: puc_strategy_get_data_def puc_out_def)
qed

theorem puc_reaches_exit_witness:
  "\<exists>r. fst (puc_strategy_get_data demo_ms (foldl (puc_next demo_ms) demo_puc
     (map (demo_measured 50 120 4500 0 120) [3000, 6000, 9000, 12000])) (demo_measured 50 120 4500 0 120 15000)) = Inr r \<and> ret_exit r"
proof -
  let ?es = "map (demo_measured 50 120 4500 0 120) [3000, 6000, 9000, 12000]"
  have "list_all (\<lambda>e. vbat_of e = Inr 4500 \<and> list_all (\<lambda>d. 4500 > target_vbat d) (the_curve demo_puc)) ?es" by code_simp
  moreover have "list_all (\<lambda>e. unat (jiffies e) < 2 ^ 62) ?es" by (simp add: demo_measured_def)
  ultimately have v: "\<forall>e\<in>set ?es. \<exists>v. vbat_of e = Inr v \<and> (\<forall>d\<in>set (the_curve demo_puc). v > target_vbat d) \<and> unat (jiffies e) < 2 ^ 62"
    unfolding list_all_iff by blast
  have g: "unat (demo_ms VBAT_OVER_TIME_MS) = 2500" by (simp add: demo_ms_def VBAT_OVER_TIME_MS_def)
  have "spaced (unat (demo_ms VBAT_OVER_TIME_MS)) 0 ?es" "unat (demo_ms VBAT_OVER_TIME_MS) < 2 ^ 62"
    unfolding g by (simp_all add: demo_measured_def)
  moreover have "curve demo_puc \<noteq> None \<and> over_time demo_puc = 0 \<and> 2 * (length (the_curve demo_puc) - curr_level demo_puc) \<le> length ?es"
    by code_simp
  ultimately show ?thesis using puc_reaches_exit [OF _ _ _ v] by blast
qed

end
