(* ===== verification/Chg_Strategy_Lcf.thy ===== *)
theory Chg_Strategy_Lcf
  imports Chg_Strategy_Puc
begin

text \<open>
  The strategy that finds a battery full at a low current (\<^verbatim>\<open>strategy/oplus_strategy_low_curr_full.c\<close>). A table
  selected by the temperature gives pairs of a current and a voltage; the battery is full when the current
  has been below and the voltage above one of them at seven calls in a row. The temperature region follows
  with a delay that is counted in two static variables, which all strategies of this kind share.
\<close>

section \<open>Operations\<close>

definition LOW_CURR_FULL_SYS_MAX :: nat where "LOW_CURR_FULL_SYS_MAX = 6"
definition LCF_TEMP_STATUS_OVER_COUNTS :: int where "LCF_TEMP_STATUS_OVER_COUNTS = 2"
definition LCF_LOW_CURR_FULL_COUNTS :: nat where "LCF_LOW_CURR_FULL_COUNTS = 6"
definition STRATEGY_TEMP_RANGE_MAX :: nat where "STRATEGY_TEMP_RANGE_MAX = 6"
definition NAME_LENGTH :: nat where "NAME_LENGTH = 16"

definition lcf_strategy_temp_range_name :: "string list" where
  "lcf_strategy_temp_range_name = [''strategy_temp_range_t0'', ''strategy_temp_range_t1'', ''strategy_temp_range_t2'',
     ''strategy_temp_range_t3'', ''strategy_temp_range_t4'', ''strategy_temp_range_t5'']"

record low_curr_full_curve =
  iterm :: u32
  vterm :: u32
  lcf_exit :: bool

text \<open>The region \<open>STRATEGY_TEMP_RANGE_MAX\<close> is the invalid one.\<close>

record lcf_strategy =
  lcf_temp_type :: u32
  temp_range :: "int list"
  temp_index :: nat
  temp_status :: nat
  curves_temp_range :: "low_curr_full_curve list list"
  low_curr_full_conut :: nat
  topic_name :: string
  lcf_topic :: "nat option"
  alarm_offset :: int

record lcf_static =
  t_cnts :: int
  pre_index :: nat

definition lcf_strategy_get_temp :: "lcf_strategy \<Rightarrow> ('d, 'k) strategy_env \<Rightarrow> (rc + int) \<times> ('d, 'k) strategy_env" where
  "lcf_strategy_get_temp s e = strategy_get_temp False (lcf_temp_type s) e"

definition is_gauge_topic_available_by_lcy ::
  "lcf_strategy \<Rightarrow> ('d, 'k) strategy_env \<Rightarrow> nat option \<times> lcf_strategy \<times> ('d, 'k) strategy_env" where
  "is_gauge_topic_available_by_lcy s e =
     (let (p, c) = topic_available (topic_name s) (lcf_topic s) (topics e) in (p, s\<lparr>lcf_topic := p\<rparr>, e\<lparr>topics := c\<rparr>))"

definition lcf_strategy_get_vbat ::
  "lcf_strategy \<Rightarrow> ('d, 'k) strategy_env \<Rightarrow> (rc + int) \<times> lcf_strategy \<times> ('d, 'k) strategy_env" where
  "lcf_strategy_get_vbat s e =
     (let (p, s, e) = is_gauge_topic_available_by_lcy s e; (r, e) = read_from (p, e) GAUGE_ITEM_VOL_MAX False in (r, s, e))"

definition lcf_strategy_get_ibat ::
  "lcf_strategy \<Rightarrow> ('d, 'k) strategy_env \<Rightarrow> (rc + int) \<times> lcf_strategy \<times> ('d, 'k) strategy_env" where
  "lcf_strategy_get_ibat s e =
     (let (p, s, e) = is_gauge_topic_available_by_lcy s e; (r, e) = read_from (p, e) GAUGE_ITEM_CURR False in
      (map_sum (\<lambda>rc. rc) (c_sub 0) r, s, e))"

definition lcf_region :: "int list \<Rightarrow> int \<Rightarrow> nat option" where
  "lcf_region rng temp = find (\<lambda>i. temp \<ge> rng ! i \<and> temp < rng ! (i + 1)) [0..<STRATEGY_TEMP_RANGE_MAX]"

definition lcf_get_temp_region :: "lcf_strategy \<Rightarrow> ('d, 'k) strategy_env \<Rightarrow> nat \<times> ('d, 'k) strategy_env" where
  "lcf_get_temp_region s e =
     (case lcf_strategy_get_temp s e of
        (Inl rc, e) \<Rightarrow> (STRATEGY_TEMP_RANGE_MAX, e)
      | (Inr temp, e) \<Rightarrow>
          (case lcf_region (temp_range s) temp of None \<Rightarrow> STRATEGY_TEMP_RANGE_MAX | Some i \<Rightarrow> i, e))"

text \<open>The curves are read into arrays of six entries of three words, as many words as the device tree has.\<close>

definition lcf_curve_of :: "u32 list \<Rightarrow> low_curr_full_curve" where
  "lcf_curve_of ws = \<lparr>iterm = ws ! 0, vterm = ws ! 1, lcf_exit = ((ucast (ws ! 2) :: u8) \<noteq> 0)\<rparr>"

definition lcf_read_curves :: "'n of_api \<Rightarrow> 'n \<Rightarrow> string \<Rightarrow> strategy_fault + rc + low_curr_full_curve list" where
  "lcf_read_curves api node prop =
     (let rc = of_property_count api node prop in
      if rc < 0 then Inr (Inl rc)
      else
        (case read_data_from_node api node prop (nat rc) of
           Inl rc \<Rightarrow> Inr (Inl rc)
         | Inr ws \<Rightarrow>
             if length ws > 3 * LOW_CURR_FULL_SYS_MAX then Inl Out_of_bounds
             else Inr (Inr (map (\<lambda>i. lcf_curve_of (get_bytes (3 * i) 3 ws)) [0..<nat rc div 3]))))"

fun lcf_read_all :: "('a \<Rightarrow> strategy_fault + rc + 'b) \<Rightarrow> 'a list \<Rightarrow> strategy_fault + rc + 'b list" where
  "lcf_read_all f [] = Inr (Inr [])"
| "lcf_read_all f (x # xs) =
     (case f x of
        Inl e \<Rightarrow> Inl e
      | Inr (Inl rc) \<Rightarrow> Inr (Inl rc)
      | Inr (Inr y) \<Rightarrow>
          (case lcf_read_all f xs of Inl e \<Rightarrow> Inl e | Inr (Inl rc) \<Rightarrow> Inr (Inl rc) | Inr (Inr ys) \<Rightarrow> Inr (Inr (y # ys))))"

definition lcf_strategy_alloc_by_node :: "'n of_api \<Rightarrow> bool \<Rightarrow> 'n option \<Rightarrow> strategy_fault + rc + lcf_strategy" where
  "lcf_strategy_alloc_by_node api mem node =
     (case node of
        None \<Rightarrow> Inr (Inl (- EINVAL))
      | Some n \<Rightarrow>
          if \<not> mem then Inr (Inl (- ENOMEM))
          else
            let name = (case of_property_read_string api n ''oplus,gauge_topic_name'' of Inl _ \<Rightarrow> ''gauge'' | Inr t \<Rightarrow> take (NAME_LENGTH - 1) t);
                type = (case of_property_read_u32 api n ''oplus,temp_type'' of Inl _ \<Rightarrow> STRATEGY_USE_SHELL_TEMP | Inr d \<Rightarrow> d);
                offset = (case of_property_read_u32 api n ''oplus,alarm_offset'' of Inl _ \<Rightarrow> 0 | Inr d \<Rightarrow> sint d) in
            (case read_data_from_node api n ''oplus,temp_range'' (STRATEGY_TEMP_RANGE_MAX + 1) of
               Inl rc \<Rightarrow> Inr (Inl rc)
             | Inr rng \<Rightarrow>
                 (case of_get_child_by_name api n ''strategy_temp_range_curves'' of
                    None \<Rightarrow> Inr (Inl (- ENODEV))
                  | Some curves_node \<Rightarrow>
                      (case lcf_read_all (lcf_read_curves api curves_node) lcf_strategy_temp_range_name of
                         Inl e \<Rightarrow> Inl e
                       | Inr (Inl rc) \<Rightarrow> Inr (Inl rc)
                       | Inr (Inr m) \<Rightarrow> Inr (Inr \<lparr>lcf_temp_type = type, temp_range = map sint rng, temp_index = 0, temp_status = 0,
                           curves_temp_range = m, low_curr_full_conut = 0, topic_name = name, lcf_topic = None,
                           alarm_offset = offset\<rparr>)))))"

definition lcf_strategy_init :: "lcf_strategy \<Rightarrow> ('d, 'k) strategy_env \<Rightarrow> rc \<times> lcf_strategy \<times> ('d, 'k) strategy_env" where
  "lcf_strategy_init s e =
     (let (r, e) = lcf_get_temp_region s e in (0, s\<lparr>temp_status := r, temp_index := r, low_curr_full_conut := 0\<rparr>, e))"

definition update_low_curr_temp_status ::
  "lcf_strategy \<Rightarrow> lcf_static \<Rightarrow> ('d, 'k) strategy_env \<Rightarrow> lcf_strategy \<times> lcf_static \<times> ('d, 'k) strategy_env" where
  "update_low_curr_temp_status s g e =
     (let (r, e) = lcf_get_temp_region s e;
          s = s\<lparr>temp_index := r\<rparr> in
      if temp_index s \<noteq> pre_index g then
        let g = g\<lparr>t_cnts := t_cnts g + 1\<rparr> in
        if t_cnts g \<ge> LCF_TEMP_STATUS_OVER_COUNTS
        then (s\<lparr>temp_status := temp_index s\<rparr>, g\<lparr>pre_index := temp_index s, t_cnts := 0\<rparr>, e)
        else (s, g, e)
      else (s, g, e))"

text \<open>\<^verbatim>\<open>__lcf_strategy_get_data\<close> up to the decision about the current, and the rest, which counts.\<close>

definition lcf_below :: "int \<Rightarrow> int \<Rightarrow> int \<Rightarrow> low_curr_full_curve \<Rightarrow> bool" where
  "lcf_below offset vbatt ibatt c \<longleftrightarrow> ibatt \<le> sint (iterm c + word_of_int offset) \<and> vbatt \<ge> sint (vterm c)"

definition lcf_low_curr ::
  "int \<Rightarrow> lcf_strategy \<Rightarrow> lcf_static \<Rightarrow> ('d, 'k) strategy_env \<Rightarrow> (rc + bool) \<times> lcf_strategy \<times> lcf_static \<times> ('d, 'k) strategy_env" where
  "lcf_low_curr offset s g e =
     (let (s, g, e) = update_low_curr_temp_status s g e in
      if temp_status s \<ge> STRATEGY_TEMP_RANGE_MAX then (Inl (- EINVAL), s, g, e)
      else
        (case lcf_strategy_get_vbat s e of
           (Inl rc, s, e) \<Rightarrow> (Inl rc, s, g, e)
         | (Inr vbatt, s, e) \<Rightarrow>
             (case lcf_strategy_get_ibat s e of
                (Inl rc, s, e) \<Rightarrow> (Inl rc, s, g, e)
              | (Inr ibatt, s, e) \<Rightarrow>
                  (Inr (list_ex (lcf_below offset vbatt ibatt) (curves_temp_range s ! temp_status s)), s, g, e))))"

definition count_low :: "bool \<Rightarrow> nat \<Rightarrow> int \<times> nat" where
  "count_low low_curr n =
     (if low_curr then if n + 1 > LCF_LOW_CURR_FULL_COUNTS then (1, 0) else (0, n + 1) else (0, 0))"

definition do_lcf_strategy_get_data ::
  "int \<Rightarrow> lcf_strategy \<Rightarrow> lcf_static \<Rightarrow> ('d, 'k) strategy_env \<Rightarrow> (rc + int) \<times> lcf_strategy \<times> lcf_static \<times> ('d, 'k) strategy_env" where
  "do_lcf_strategy_get_data offset s g e =
     (case lcf_low_curr offset s g e of
        (Inl rc, s, g, e) \<Rightarrow> (Inl rc, s, g, e)
      | (Inr low, s, g, e) \<Rightarrow>
          let (r, n) = count_low low (low_curr_full_conut s) in (Inr r, s\<lparr>low_curr_full_conut := n\<rparr>, g, e))"

definition lcf_strategy_get_data ::
  "lcf_strategy \<Rightarrow> lcf_static \<Rightarrow> ('d, 'k) strategy_env \<Rightarrow> (rc + int) \<times> lcf_strategy \<times> lcf_static \<times> ('d, 'k) strategy_env" where
  "lcf_strategy_get_data = do_lcf_strategy_get_data 0"

definition lcf_strategy_get_custom_data ::
  "lcf_strategy \<Rightarrow> string \<Rightarrow> lcf_static \<Rightarrow> ('d, 'k) strategy_env \<Rightarrow> (rc + int) \<times> lcf_strategy \<times> lcf_static \<times> ('d, 'k) strategy_env" where
  "lcf_strategy_get_custom_data s type g e =
     (if type \<noteq> ''alarm'' then (Inl (- ENOTSUPP), s, g, e)
      else if alarm_offset s = 0 then (Inl (- EINVAL), s, g, e)
      else do_lcf_strategy_get_data (alarm_offset s) s g e)"

section \<open>Counting\<close>

text \<open>A strategy is asked again and again; \<open>lcf_flags\<close> says for each call that got its measurements whether the current was
  low.\<close>

fun lcf_run :: "lcf_strategy \<Rightarrow> lcf_static \<Rightarrow> ('d, 'k) strategy_env list \<Rightarrow> lcf_strategy \<times> lcf_static" where
  "lcf_run s g [] = (s, g)"
| "lcf_run s g (e # es) = (case lcf_strategy_get_data s g e of (r, s', g', _) \<Rightarrow> lcf_run s' g' es)"



definition streak :: "bool list \<Rightarrow> nat" where
  "streak bs = length (takeWhile (\<lambda>b. b) (rev bs))"

lemma streak_simps [simp]: "streak [] = 0" "streak (bs @ [True]) = streak bs + 1" "streak (bs @ [False]) = 0"
  by (simp_all add: streak_def)








section \<open>Regions\<close>

text \<open>Both searches for the temperature region find the interval of the temperature.\<close>

lemma temp_region_iff:
  assumes "sorted rng" and "length rng = n + 1"
  shows "temp_region n rng t = Some i \<longleftrightarrow> i < n \<and> rng ! i \<le> t \<and> t < rng ! (i + 1)"
proof -
  have m: "rng ! a \<le> rng ! b" if "a \<le> b" "b \<le> n" for a b using assms that by (simp add: sorted_iff_nth_mono)
  have "find (\<lambda>i. t < rng ! i) [0..<n + 1] = Some (i + 1) \<longleftrightarrow> i < n \<and> rng ! i \<le> t \<and> t < rng ! (i + 1)"
    unfolding find_upt_Some using m by (auto simp: not_less less_Suc_eq_le simp del: upt_Suc) (meson leI le_less_trans less_or_eq_imp_le order_trans)+
  moreover have "temp_region n rng t = Some i \<longleftrightarrow> find (\<lambda>i. t < rng ! i) [0..<n + 1] = Some (i + 1)"
    by (auto simp: temp_region_def simp del: upt_Suc split: option.splits if_splits)
  ultimately show ?thesis by simp
qed

lemma lcf_region_iff:
  assumes "sorted rng" and "length rng = STRATEGY_TEMP_RANGE_MAX + 1"
  shows "lcf_region rng t = Some i \<longleftrightarrow> i < STRATEGY_TEMP_RANGE_MAX \<and> rng ! i \<le> t \<and> t < rng ! (i + 1)"
proof -
  have "\<not> t < rng ! (j + 1)" if "j < i" "i < STRATEGY_TEMP_RANGE_MAX" "rng ! i \<le> t" for j
    using sorted_nth_mono [OF assms(1), of "j + 1" i] that assms(2) by simp
  then show ?thesis unfolding lcf_region_def find_upt_Some by auto
qed

section \<open>The temperature status\<close>

lemma status_frame:
  "lcf_strategy_get_vbat s e = (r, s', e') \<Longrightarrow> temp_status s' = temp_status s \<and> lcf_temp_type s' = lcf_temp_type s \<and> temp_range s' = temp_range s"
  "lcf_strategy_get_ibat s e = (r, s', e') \<Longrightarrow> temp_status s' = temp_status s \<and> lcf_temp_type s' = lcf_temp_type s \<and> temp_range s' = temp_range s"
  by (auto simp: lcf_strategy_get_vbat_def lcf_strategy_get_ibat_def is_gauge_topic_available_by_lcy_def Let_def split: prod.splits)

lemma same_region_keeps_status:
  assumes "fst (lcf_get_temp_region s e) = pre_index g" and "lcf_strategy_get_data s g e = (r, s', g', e')"
  shows "temp_status s' = temp_status s \<and> lcf_temp_type s' = lcf_temp_type s \<and> temp_range s' = temp_range s \<and> g' = g"
proof -
  let ?s = "s\<lparr>temp_index := pre_index g\<rparr>"
  have u: "update_low_curr_temp_status s g e = (?s, g, snd (lcf_get_temp_region s e))"
    using assms(1) by (simp add: update_low_curr_temp_status_def Let_def case_prod_beta)
  obtain low s2 g2 e2 where l: "lcf_low_curr 0 s g e = (low, s2, g2, e2)" by (metis prod_cases4)
  then have "temp_status s2 = temp_status s \<and> lcf_temp_type s2 = lcf_temp_type s \<and> temp_range s2 = temp_range s \<and> g2 = g"
    using u by (auto simp: lcf_low_curr_def dest!: status_frame split: prod.splits if_splits sum.splits)
  then show ?thesis using assms(2) l
    by (auto simp: lcf_strategy_get_data_def do_lcf_strategy_get_data_def Let_def split: prod.splits sum.splits)
qed

lemma region_cong:
  "lcf_temp_type s' = lcf_temp_type s \<Longrightarrow> temp_range s' = temp_range s \<Longrightarrow> lcf_get_temp_region s' e = lcf_get_temp_region s e"
  by (simp add: lcf_get_temp_region_def lcf_strategy_get_temp_def split: prod.split sum.split)

section \<open>Examples\<close>

definition demo_lcf :: lcf_strategy where
  "demo_lcf = \<lparr>lcf_temp_type = STRATEGY_USE_SHELL_TEMP, temp_range = [0, 100, 200, 300, 400, 500, 600], temp_index = 1, temp_status = 1,
     curves_temp_range = replicate 6 [\<lparr>iterm = 500, vterm = 4400, lcf_exit = True\<rparr>], low_curr_full_conut = 0,
     topic_name = ''gauge'', lcf_topic = None, alarm_offset = 0\<rparr>"

definition demo_lcf_static :: lcf_static where
  "demo_lcf_static = \<lparr>t_cnts = 0, pre_index = 1\<rparr>"

definition long_of_api :: "unit of_api" where
  "long_of_api = demo_of_api\<lparr>of_property_count := (\<lambda>_ p. if p = ''oplus,temp_range'' then 7 else 21)\<rparr>"

section \<open>Properties\<close>



text \<open>The curves of PPS and UFCS and the strategy for the low current search for the temperature region in
  different ways, and find the same one: the interval of the range, when its bounds are in order.\<close>

theorem regions_agree:
  assumes "sorted rng" and "length rng = 7"
  shows "lcf_region rng t = temp_region 6 rng t"
proof -
  have "lcf_region rng t = Some i \<longleftrightarrow> temp_region 6 rng t = Some i" for i
    using lcf_region_iff [OF assms(1), of t i] temp_region_iff [OF assms(1), of 6 t i] assms(2) by (simp add: STRATEGY_TEMP_RANGE_MAX_def)
  then show ?thesis by (metis option.exhaust)
qed

theorem regions_agree_witness: "lcf_region [0, 50, 120, 200, 350, 440, 500] 130 = temp_region 6 [0, 50, 120, 200, 350, 440, 500] 130"
  by (rule regions_agree) simp_all

text \<open>The static counters make two strategies disturb each other. When one of them has followed the temperature to
  a new region, another one keeps its old status as long as the temperature stays there.\<close>

theorem lcf_second_strategy_stuck:
  assumes "\<forall>e\<in>set es. fst (lcf_get_temp_region s e) = pre_index g"
  shows "temp_status (fst (lcf_run s g es)) = temp_status s"
  using assms
proof (induction es arbitrary: s)
  case (Cons e es)
  obtain r s' g' e' where d: "lcf_strategy_get_data s g e = (r, s', g', e')" by (metis prod_cases4)
  have k: "temp_status s' = temp_status s" "lcf_temp_type s' = lcf_temp_type s" "temp_range s' = temp_range s" "g' = g"
    using same_region_keeps_status [OF _ d] Cons.prems by auto
  have "lcf_get_temp_region s' x = lcf_get_temp_region s x" if "x \<in> set es" for x
    using k by (intro region_cong)
  then have "temp_status (fst (lcf_run s' g es)) = temp_status s'" using Cons.prems by (intro Cons.IH) simp
  then show ?case using d k by simp
qed simp

theorem lcf_second_strategy_stuck_witness:
  "temp_status (fst (lcf_run demo_lcf demo_lcf_static (replicate 2 (demo_measured 90 350 4450 (- 300) 250 0)))) = 3 \<and>
   temp_status (fst (lcf_run demo_lcf (snd (lcf_run demo_lcf demo_lcf_static (replicate 2 (demo_measured 90 350 4450 (- 300) 250 0))))
     (replicate 9 (demo_measured 90 350 4450 (- 300) 250 0)))) = 1"
proof -
  let ?e = "demo_measured 90 350 4450 (- 300) 250 0"
  let ?r = "lcf_run demo_lcf demo_lcf_static (replicate 2 ?e)"
  have f: "temp_status (fst ?r) = 3 \<and> fst (lcf_get_temp_region demo_lcf ?e) = pre_index (snd ?r) \<and> temp_status demo_lcf = 1" by code_simp
  then show ?thesis using lcf_second_strategy_stuck [of "replicate 9 ?e" demo_lcf "snd ?r"] by simp
qed

text \<open>Reading the curves from the device tree writes behind their array: a property with more than eighteen words
  is accepted whatever its length.\<close>

theorem lcf_curves_overflow:
  assumes "of_api_reads api" and "of_property_count api node prop > 3 * int LOW_CURR_FULL_SYS_MAX"
    and "read_data_from_node api node prop (nat (of_property_count api node prop)) = Inr ws"
  shows "lcf_read_curves api node prop = Inl Out_of_bounds"
  using assms read_data_length [OF assms(1,3)] by (simp add: lcf_read_curves_def Let_def)

theorem lcf_curves_overflow_witness: "lcf_read_curves long_of_api () ''strategy_temp_range_t0'' = Inl Out_of_bounds"
proof -
  have "of_api_reads long_of_api" using demo_of_api_reads by (simp add: long_of_api_def of_api_reads_def)
  moreover have "of_property_count long_of_api () ''strategy_temp_range_t0'' = 21" by code_simp
  moreover have "\<exists>ws. read_data_from_node long_of_api () ''strategy_temp_range_t0'' (nat 21) = Inr ws"
    by (simp add: read_data_from_node_def long_of_api_def demo_of_api_def)
  ultimately show ?thesis using lcf_curves_overflow [of long_of_api "()" "''strategy_temp_range_t0''"] by (auto simp: LOW_CURR_FULL_SYS_MAX_def)
qed

end
