(* ===== verification/Chg_Strategy_Ddrc.thy ===== *)
theory Chg_Strategy_Ddrc
  imports Chg_Strategy_Lcf
begin

text \<open>
  The discharge curves (\<^verbatim>\<open>strategy/oplus_strategy_ddrc.c\<close>): a ratio and the temperature select one of a matrix of
  curves. The gauge may give the temperature region itself; otherwise it is found in a range. The last
  region stands for everything that cannot be found out.
\<close>

section \<open>Operations\<close>

definition DDRC_RATIO_RANGE_MAX :: nat where "DDRC_RATIO_RANGE_MAX = 5"
definition DDRC_TEMP_RANGE_MAX :: nat where "DDRC_TEMP_RANGE_MAX = 3"
definition GAUGE_ITEM_RATIO_VALUE :: u32 where "GAUGE_ITEM_RATIO_VALUE = 30"
definition GAUGE_ITEM_RATIO_TRANGE :: u32 where "GAUGE_ITEM_RATIO_TRANGE = 31"

definition ddrc_strategy_ratio :: "string list" where
  "ddrc_strategy_ratio = [''strategy_ratio_range_min'', ''strategy_ratio_range_low'', ''strategy_ratio_range_mid_low'',
     ''strategy_ratio_range_mid'', ''strategy_ratio_range_mid_high'', ''strategy_ratio_range_high'']"

definition ddrc_strategy_temp :: "string list" where
  "ddrc_strategy_temp = [''strategy_temp_cold'', ''strategy_temp_cool'', ''strategy_temp_normal'', ''strategy_temp_warm'']"

record ddrc_strategy_data =
  ddrc_count :: int
  vbat0 :: int
  vbat1 :: int
  ddrc_index :: int

record ddrc_temp_curves =
  ddrc_data :: "ddrc_strategy_data list"
  index_r :: nat
  index_t :: nat

record ddrc_strategy =
  ratio_curves :: "ddrc_temp_curves list list"
  ratio_range_data :: "u32 list"
  ddrc_temp_range :: "int list"
  ddrc_temp_type :: u32
  ddrc_curve :: "(nat \<times> nat) option"
  ddrc_topic_name :: string
  ddrc_topic :: "nat option"

definition is_gauge_topic_available_by_ddrc ::
  "ddrc_strategy \<Rightarrow> ('d, 'k) strategy_env \<Rightarrow> nat option \<times> ddrc_strategy \<times> ('d, 'k) strategy_env" where
  "is_gauge_topic_available_by_ddrc s e =
     (let (p, c) = topic_available (ddrc_topic_name s) (ddrc_topic s) (topics e) in (p, s\<lparr>ddrc_topic := p\<rparr>, e\<lparr>topics := c\<rparr>))"

definition ddrc_strategy_get_ratio ::
  "ddrc_strategy \<Rightarrow> ('d, 'k) strategy_env \<Rightarrow> (rc + int) \<times> ddrc_strategy \<times> ('d, 'k) strategy_env" where
  "ddrc_strategy_get_ratio s e =
     (let (p, s, e) = is_gauge_topic_available_by_ddrc s e; (r, e) = read_from (p, e) GAUGE_ITEM_RATIO_VALUE True in (r, s, e))"

definition ddrc_strategy_get_temp :: "ddrc_strategy \<Rightarrow> ('d, 'k) strategy_env \<Rightarrow> (rc + int) \<times> ('d, 'k) strategy_env" where
  "ddrc_strategy_get_temp s e = strategy_get_temp True (ddrc_temp_type s) e"

definition first_region :: "nat \<Rightarrow> (nat \<Rightarrow> bool) \<Rightarrow> nat" where
  "first_region n P = (case find P [0..<n] of None \<Rightarrow> n | Some i \<Rightarrow> i)"

definition ddrc_get_ratio_region :: "ddrc_strategy \<Rightarrow> ('d, 'k) strategy_env \<Rightarrow> nat \<times> ddrc_strategy \<times> ('d, 'k) strategy_env" where
  "ddrc_get_ratio_region s e =
     (case ddrc_strategy_get_ratio s e of
        (Inl rc, s, e) \<Rightarrow> (DDRC_RATIO_RANGE_MAX, s, e)
      | (Inr ratio, s, e) \<Rightarrow>
          (first_region DDRC_RATIO_RANGE_MAX (\<lambda>i. (word_of_int ratio :: u32) < ratio_range_data s ! i), s, e))"

definition ddrc_get_temp_region :: "ddrc_strategy \<Rightarrow> ('d, 'k) strategy_env \<Rightarrow> nat \<times> ('d, 'k) strategy_env" where
  "ddrc_get_temp_region s e =
     (case is_gauge_topic_available e of
        (None, e) \<Rightarrow> (DDRC_TEMP_RANGE_MAX, e)
      | (Some p, e) \<Rightarrow>
          let (r, e) = read_item p GAUGE_ITEM_RATIO_TRANGE True e in
          if (case r of Inl _ \<Rightarrow> True | Inr d \<Rightarrow> d < 0 \<or> d > int DDRC_TEMP_RANGE_MAX) then
            (case ddrc_strategy_get_temp s e of
               (Inl rc, e) \<Rightarrow> (DDRC_TEMP_RANGE_MAX, e)
             | (Inr temp, e) \<Rightarrow> (first_region DDRC_TEMP_RANGE_MAX (\<lambda>i. temp \<le> ddrc_temp_range s ! i), e))
          else (case r of Inl _ \<Rightarrow> DDRC_TEMP_RANGE_MAX | Inr d \<Rightarrow> nat d, e))"

definition ddrc_data_of :: "u32 list \<Rightarrow> ddrc_strategy_data" where
  "ddrc_data_of ws = \<lparr>ddrc_count = sint (ws ! 0), vbat0 = sint (ws ! 1), vbat1 = sint (ws ! 2), ddrc_index = sint (ws ! 3)\<rparr>"

definition ddrc_read_curve :: "'n of_api \<Rightarrow> bool \<Rightarrow> 'n \<Rightarrow> string \<Rightarrow> rc + ddrc_temp_curves" where
  "ddrc_read_curve api mem node prop =
     (let len = of_property_count api node prop in
      if len < 0 then Inl 0
      else if (len * 4) mod 16 \<noteq> 0 then Inl (- EINVAL)
      else if \<not> mem then Inl (- ENOMEM)
      else
        (case of_property_read_u32_array api node prop (nat len) of
           Inl rc \<Rightarrow> Inl rc
         | Inr ws \<Rightarrow> Inr \<lparr>ddrc_data = map (\<lambda>i. ddrc_data_of (get_bytes (4 * i) 4 ws)) [0..<nat len div 4], index_r = 0, index_t = 0\<rparr>))"

definition ddrc_read_ratio_node :: "'n of_api \<Rightarrow> (nat \<Rightarrow> bool) \<Rightarrow> 'n \<Rightarrow> nat \<Rightarrow> rc + ddrc_temp_curves list" where
  "ddrc_read_ratio_node api mem node i =
     (case of_get_child_by_name api node (ddrc_strategy_ratio ! i) of
        None \<Rightarrow> Inl (- ENODEV)
      | Some soc_node \<Rightarrow>
          read_all (\<lambda>j. ddrc_read_curve api (mem (1 + (DDRC_TEMP_RANGE_MAX + 1) * i + j)) soc_node (ddrc_strategy_temp ! j))
            [0..<DDRC_TEMP_RANGE_MAX + 1])"

definition ddrc_strategy_alloc_by_node :: "'n of_api \<Rightarrow> (nat \<Rightarrow> bool) \<Rightarrow> 'n option \<Rightarrow> rc + ddrc_strategy" where
  "ddrc_strategy_alloc_by_node api mem node =
     (case node of
        None \<Rightarrow> Inl (- EINVAL)
      | Some n \<Rightarrow>
          if \<not> mem 0 then Inl (- ENOMEM)
          else
            let name = (case of_property_read_string api n ''oplus,gauge_topic_name'' of Inl _ \<Rightarrow> ''gauge'' | Inr t \<Rightarrow> take (NAME_LENGTH - 1) t);
                type = (case of_property_read_u32 api n ''oplus,temp_type'' of Inl _ \<Rightarrow> STRATEGY_USE_SHELL_TEMP | Inr d \<Rightarrow> d) in
            (case read_data_from_node api n ''oplus,ratio_range'' DDRC_RATIO_RANGE_MAX of
               Inl rc \<Rightarrow> Inl rc
             | Inr ratios \<Rightarrow>
                 (case read_data_from_node api n ''oplus,temp_range'' DDRC_TEMP_RANGE_MAX of
                    Inl rc \<Rightarrow> Inl rc
                  | Inr temps \<Rightarrow>
                      (case read_all (ddrc_read_ratio_node api mem n) [0..<DDRC_RATIO_RANGE_MAX + 1] of
                         Inl rc \<Rightarrow> Inl rc
                       | Inr m \<Rightarrow> Inr \<lparr>ratio_curves = m, ratio_range_data = ratios, ddrc_temp_range = map sint temps,
                           ddrc_temp_type = type, ddrc_curve = None, ddrc_topic_name = name, ddrc_topic = None\<rparr>))))"

definition ddrc_strategy_init :: "ddrc_strategy \<Rightarrow> ('d, 'k) strategy_env \<Rightarrow> rc \<times> ddrc_strategy \<times> ('d, 'k) strategy_env" where
  "ddrc_strategy_init s e =
     (let (r, s, e) = ddrc_get_ratio_region s e;
          (t, e) = ddrc_get_temp_region s e;
          c = (ratio_curves s ! r ! t)\<lparr>index_r := r, index_t := t\<rparr> in
      (0, s\<lparr>ratio_curves := (ratio_curves s)[r := (ratio_curves s ! r)[t := c]], ddrc_curve := Some (r, t)\<rparr>, e))"

text \<open>The data of the strategy and its metadata are the selected curve; before the initialization there is none and
  the pointer to it is null.\<close>

definition ddrc_strategy_get_data :: "ddrc_strategy \<Rightarrow> strategy_fault + ddrc_temp_curves" where
  "ddrc_strategy_get_data s = (case ddrc_curve s of None \<Rightarrow> Inl Null_pointer | Some (r, t) \<Rightarrow> Inr (ratio_curves s ! r ! t))"

definition ddrc_strategy_get_metadata :: "ddrc_strategy \<Rightarrow> strategy_fault + ddrc_temp_curves" where
  "ddrc_strategy_get_metadata s = (case ddrc_curve s of None \<Rightarrow> Inl Null_pointer | Some (r, t) \<Rightarrow> Inr (ratio_curves s ! r ! t))"

definition ddrc_call :: "ddrc_strategy \<Rightarrow> ('d, 'k) strategy_env \<Rightarrow> ((rc + ddrc_temp_curves) \<times> ddrc_strategy \<times> ('d, 'k) strategy_env) option" where
  "ddrc_call s e = (case ddrc_strategy_get_data s of Inl _ \<Rightarrow> None | Inr c \<Rightarrow> Some (Inr c, s, e))"

section \<open>Selection\<close>

text \<open>The curves of the matrix without the positions that the initialization notes in them.\<close>

definition ddrc_tables :: "ddrc_strategy \<Rightarrow> ddrc_strategy_data list list list" where
  "ddrc_tables s = map (map ddrc_data) (ratio_curves s)"

definition ddrc_good :: "ddrc_strategy_data list list list \<Rightarrow> ddrc_strategy \<Rightarrow> bool" where
  "ddrc_good m s \<longleftrightarrow> ddrc_tables s = m \<and> length m = DDRC_RATIO_RANGE_MAX + 1 \<and> list_all (\<lambda>row. length row = DDRC_TEMP_RANGE_MAX + 1) m \<and>
     (case ddrc_curve s of None \<Rightarrow> True | Some (r, t) \<Rightarrow> r \<le> DDRC_RATIO_RANGE_MAX \<and> t \<le> DDRC_TEMP_RANGE_MAX \<and>
        index_r (ratio_curves s ! r ! t) = r \<and> index_t (ratio_curves s ! r ! t) = t)"

lemma first_region_le: "first_region n P \<le> n"
  by (auto simp: first_region_def find_upt_Some split: option.split)

lemma ratio_region_frame:
  "ddrc_get_ratio_region s e = (r, s', e') \<Longrightarrow> r \<le> DDRC_RATIO_RANGE_MAX \<and> ratio_curves s' = ratio_curves s \<and> ddrc_curve s' = ddrc_curve s"
  by (auto simp: ddrc_get_ratio_region_def ddrc_strategy_get_ratio_def is_gauge_topic_available_by_ddrc_def Let_def first_region_le
    split: prod.splits sum.splits)

lemma temp_region_le: "ddrc_get_temp_region s e = (t, e') \<Longrightarrow> t \<le> DDRC_TEMP_RANGE_MAX"
  by (auto simp: ddrc_get_temp_region_def Let_def first_region_le split: prod.splits sum.splits option.splits if_splits)

lemma map_map_update:
  assumes "f x = f (m ! r ! t)"
  shows "map (map f) (m[r := (m ! r)[t := x]]) = map (map f) m"
proof -
  have "map f ((m ! r)[t := x]) = map f (m ! r)" using assms by (metis list_update_id map_update)
  then show ?thesis by (metis list_update_id map_update)
qed

lemma ddrc_init_good:
  assumes "list_all (\<lambda>row. length row = DDRC_TEMP_RANGE_MAX + 1) m" and "length m = DDRC_RATIO_RANGE_MAX + 1" and "ddrc_tables s = m"
  shows "ddrc_good m (fst (snd (ddrc_strategy_init s e))) \<and> ddrc_curve (fst (snd (ddrc_strategy_init s e))) \<noteq> None"
proof -
  obtain r s1 e1 where r: "ddrc_get_ratio_region s e = (r, s1, e1)" by (metis prod_cases3)
  obtain t e2 where t: "ddrc_get_temp_region s1 e1 = (t, e2)" by fastforce
  note f = ratio_region_frame [OF r] and b = temp_region_le [OF t]
  let ?m = "ratio_curves s"
  have "length ?m = length m" using assms(3) by (auto simp: ddrc_tables_def)
  then have l: "r < length ?m" using f assms(2) by simp
  have "length (?m ! r) = length (m ! r)" using assms(3) l by (auto simp: ddrc_tables_def)
  then have "t < length (?m ! r)" using b assms(1,2) f by (simp add: list_all_length)
  moreover have "ddrc_tables (s1\<lparr>ratio_curves := ?m[r := (?m ! r)[t := (?m ! r ! t)\<lparr>index_r := r, index_t := t\<rparr>]], ddrc_curve := Some (r, t)\<rparr>) = m"
    using assms(3) by (simp add: ddrc_tables_def map_map_update)
  ultimately show ?thesis using r t f b l assms(1,2) by (simp add: ddrc_strategy_init_def Let_def ddrc_good_def)
qed

interpretation ddrc: charging_strategy "\<lambda>s. ddrc_good m s \<and> ddrc_curve s \<noteq> None" "\<lambda>_. True"
    "\<lambda>c. ddrc_data c \<in> set (concat m) \<and> index_r c \<le> DDRC_RATIO_RANGE_MAX \<and> index_t c \<le> DDRC_TEMP_RANGE_MAX \<and>
      ddrc_data c = m ! index_r c ! index_t c" ddrc_strategy_init ddrc_call for m
proof
  show "ddrc_good m (fst (snd (ddrc_strategy_init s e))) \<and> ddrc_curve (fst (snd (ddrc_strategy_init s e))) \<noteq> None"
    if "ddrc_good m s \<and> ddrc_curve s \<noteq> None" for s and e :: "('d, 'k) strategy_env"
    using that by (intro ddrc_init_good) (auto simp: ddrc_good_def)
next
  fix s and e :: "('d, 'k) strategy_env"
  assume g: "ddrc_good m s \<and> ddrc_curve s \<noteq> None"
  then obtain r t where c: "ddrc_curve s = Some (r, t)" "r \<le> DDRC_RATIO_RANGE_MAX" "t \<le> DDRC_TEMP_RANGE_MAX"
      "index_r (ratio_curves s ! r ! t) = r" "index_t (ratio_curves s ! r ! t) = t" by (auto simp: ddrc_good_def)
  have m: "m = map (map ddrc_data) (ratio_curves s)" "r < length m" "t < length (m ! r)"
    using g c(2,3) by (auto simp: ddrc_good_def ddrc_tables_def list_all_length)
  then have "ddrc_data (ratio_curves s ! r ! t) = m ! r ! t" by auto
  moreover have "m ! r ! t \<in> set (concat m)" using m(2,3) by simp (metis nth_mem)
  ultimately show "\<exists>r s' e'. ddrc_call s e = Some (r, s', e') \<and> (ddrc_good m s' \<and> ddrc_curve s' \<noteq> None) \<and>
      (\<forall>x. r = Inr x \<longrightarrow> ddrc_data x \<in> set (concat m) \<and> index_r x \<le> DDRC_RATIO_RANGE_MAX \<and> index_t x \<le> DDRC_TEMP_RANGE_MAX \<and>
        ddrc_data x = m ! index_r x ! index_t x)"
    using g c by (simp add: ddrc_call_def ddrc_strategy_get_data_def)
qed

lemma ddrc_alloc_shape:
  assumes "ddrc_strategy_alloc_by_node api mem node = Inr s"
  shows "length (ddrc_tables s) = DDRC_RATIO_RANGE_MAX + 1 \<and> list_all (\<lambda>row. length row = DDRC_TEMP_RANGE_MAX + 1) (ddrc_tables s)"
proof -
  obtain n m where r: "read_all (ddrc_read_ratio_node api mem n) [0..<DDRC_RATIO_RANGE_MAX + 1] = Inr m" and p: "ratio_curves s = m"
    using assms by (auto simp: ddrc_strategy_alloc_by_node_def Let_def simp del: upt_Suc split: option.splits if_splits sum.splits)
  note l = read_all_Inr [OF r]
  have "length (m ! i) = DDRC_TEMP_RANGE_MAX + 1" if "i < length m" for i
  proof -
    have "ddrc_read_ratio_node api mem n i = Inr (m ! i)" using that l by (simp del: upt_Suc)
    then obtain f where "read_all f [0..<DDRC_TEMP_RANGE_MAX + 1] = Inr (m ! i)"
      by (auto simp: ddrc_read_ratio_node_def simp del: upt_Suc split: option.splits)
    from read_all_Inr [OF this] show ?thesis by (simp del: upt_Suc)
  qed
  then show ?thesis using p l by (simp add: ddrc_tables_def list_all_length del: upt_Suc)
qed

section \<open>Properties\<close>

text \<open>After its first initialization a strategy read from the device tree returns, at every call, the curve at the
  position it names, which is a position of the matrix, whatever the gauge reports.\<close>

theorem ddrc_selects_in_matrix:
  assumes "ddrc_strategy_alloc_by_node api mem node = Inr s"
  shows "\<exists>cs s'. run_strategy ddrc_strategy_init ddrc_call (Call_init e # es) s = Some (cs, s') \<and>
    (\<forall>c. Inr c \<in> set cs \<longrightarrow> index_r c \<le> DDRC_RATIO_RANGE_MAX \<and> index_t c \<le> DDRC_TEMP_RANGE_MAX \<and>
      ddrc_data c = ddrc_tables s ! index_r c ! index_t c)"
proof -
  note a = ddrc_alloc_shape [OF assms]
  have "ddrc_good (ddrc_tables s) (fst (snd (ddrc_strategy_init s e))) \<and> ddrc_curve (fst (snd (ddrc_strategy_init s e))) \<noteq> None"
    using a by (intro ddrc_init_good) simp_all
  from ddrc.run_fine [OF this, of es] show ?thesis by auto
qed

end
