(* ===== verification/Chg_Strategy_Ddrc2.thy ===== *)
theory Chg_Strategy_Ddrc2
  imports Chg_Strategy_Ddrc
begin

text \<open>
  The second version of the discharge curves (\<^verbatim>\<open>strategy/oplus_strategy_ddrc_v2.c\<close>): the number of temperature regions
  is read from the device tree, which must have as many curves for each ratio. The ratio and the temperature are
  found with the functions of the first version, whose text is repeated in the second; the structure is that of the
  first, with \<^verbatim>\<open>temp_range_num\<close> as the length of the list of limits. On three limits both versions agree.
\<close>

section \<open>Operations\<close>

definition ddrc2_get_temp_region :: "ddrc_strategy \<Rightarrow> ('d, 'k) strategy_env \<Rightarrow> nat \<times> ('d, 'k) strategy_env" where
  "ddrc2_get_temp_region s e =
     (let n = length (ddrc_temp_range s) in
      if n = 0 then (0, e)
      else
        (case is_gauge_topic_available e of
           (None, e) \<Rightarrow> (n, e)
         | (Some p, e) \<Rightarrow>
             let (r, e) = read_item p GAUGE_ITEM_RATIO_TRANGE True e in
             if (case r of Inl _ \<Rightarrow> True | Inr d \<Rightarrow> d < 0 \<or> d > int n) then
               (case ddrc_strategy_get_temp s e of
                  (Inl rc, e) \<Rightarrow> (n, e)
                | (Inr temp, e) \<Rightarrow> (first_region n (\<lambda>i. temp \<le> ddrc_temp_range s ! i), e))
             else (case r of Inl _ \<Rightarrow> n | Inr d \<Rightarrow> nat d, e)))"

text \<open>As many limits are read as the device tree has.\<close>

definition ddrc2_read_signed :: "'n of_api \<Rightarrow> bool \<Rightarrow> 'n \<Rightarrow> string \<Rightarrow> rc + int list" where
  "ddrc2_read_signed api mem node prop =
     (let rc = of_property_count api node prop in
      if rc < 0 then Inl rc
      else if \<not> mem then Inl (- ENOMEM)
      else (case of_property_read_u32_array api node prop (nat rc) of Inl rc \<Rightarrow> Inl rc | Inr ws \<Rightarrow> Inr (map sint ws)))"

definition ddrc2_topic_name :: "'n of_api \<Rightarrow> 'n \<Rightarrow> string" where
  "ddrc2_topic_name api node =
     (case of_property_read_string api node ''oplus,gauge_topic_name'' of Inl _ \<Rightarrow> ''gauge'' | Inr t \<Rightarrow> take (NAME_LENGTH - 1) t)"

definition ddrc2_temp_type :: "'n of_api \<Rightarrow> 'n \<Rightarrow> u32" where
  "ddrc2_temp_type api node = (case of_property_read_u32 api node ''oplus,temp_type'' of Inl _ \<Rightarrow> STRATEGY_USE_SHELL_TEMP | Inr d \<Rightarrow> d)"

definition ddrc2_read_data :: "'n of_api \<Rightarrow> bool \<Rightarrow> 'n \<Rightarrow> rc + u32 list \<times> int list" where
  "ddrc2_read_data api mem node =
     (case read_data_from_node api node ''oplus,ratio_range'' DDRC_RATIO_RANGE_MAX of
        Inl rc \<Rightarrow> Inl rc
      | Inr ratios \<Rightarrow>
          (case ddrc2_read_signed api mem node ''oplus,temp_range'' of
             Inl rc \<Rightarrow> Inl rc
           | Inr temps \<Rightarrow> Inr (ratios, temps)))"

fun decimal :: "nat \<Rightarrow> string" where
  "decimal n = (if n < 10 then [''0123456789'' ! n] else decimal (n div 10) @ [''0123456789'' ! (n mod 10)])"

declare decimal.simps [simp del]

text \<open>A curve is read into the table of its row; whether there was memory for this table is not checked before.\<close>

definition ddrc2_get_temp_curve ::
  "'n of_api \<Rightarrow> bool \<Rightarrow> bool \<Rightarrow> 'n \<Rightarrow> nat \<Rightarrow> strategy_fault + rc + ddrc_temp_curves" where
  "ddrc2_get_temp_curve api table_mem mem soc_node j =
     (let name = ''strategy_temp_'' @ decimal j; len = of_property_count api soc_node name in
      if len < 0 then Inr (Inl (- EINVAL))
      else if (len * 4) mod 16 \<noteq> 0 then Inr (Inl (- EINVAL))
      else if \<not> table_mem then Inl Null_pointer
      else if \<not> mem then Inr (Inl (- ENOMEM))
      else
        (case of_property_read_u32_array api soc_node name (nat len) of
           Inl rc \<Rightarrow> Inr (Inl rc)
         | Inr ws \<Rightarrow>
             Inr (Inr \<lparr>ddrc_data = map (\<lambda>i. ddrc_data_of (get_bytes (4 * i) 4 ws)) [0..<nat len div 4], index_r = 0, index_t = 0\<rparr>)))"

text \<open>Loops that end at the first error, or at a fault.\<close>

fun read_each :: "('a \<Rightarrow> strategy_fault + rc + 'b) \<Rightarrow> 'a list \<Rightarrow> strategy_fault + rc + 'b list" where
  "read_each f [] = Inr (Inr [])"
| "read_each f (x # xs) =
     (case f x of
        Inl flt \<Rightarrow> Inl flt
      | Inr (Inl rc) \<Rightarrow> Inr (Inl rc)
      | Inr (Inr y) \<Rightarrow>
          (case read_each f xs of Inl flt \<Rightarrow> Inl flt | Inr (Inl rc) \<Rightarrow> Inr (Inl rc) | Inr (Inr ys) \<Rightarrow> Inr (Inr (y # ys))))"

text \<open>\<open>props\<close> lists the names of the properties of a node. Memory is asked for first for the table of a row, then for each
  of its curves.\<close>

definition ddrc2_get_temp_row ::
  "'n of_api \<Rightarrow> ('n \<Rightarrow> string list) \<Rightarrow> (nat \<Rightarrow> bool) \<Rightarrow> nat \<Rightarrow> 'n \<Rightarrow> nat \<Rightarrow> strategy_fault + rc + ddrc_temp_curves list" where
  "ddrc2_get_temp_row api props mem n node i =
     (case of_get_child_by_name api node (ddrc_strategy_ratio ! i) of
        None \<Rightarrow> Inr (Inl (- ENODEV))
      | Some soc_node \<Rightarrow>
          let temp_num = length (filter (\<lambda>p. take 14 p = ''strategy_temp_'') (props soc_node)); first = 2 + i * (n + 2) in
          if temp_num \<noteq> n + 1 then Inr (Inl (- EINVAL))
          else read_each (\<lambda>j. ddrc2_get_temp_curve api (mem first) (mem (first + 1 + j)) soc_node j) [0..<temp_num])"

definition ddrc2_get_temp_curves ::
  "'n of_api \<Rightarrow> ('n \<Rightarrow> string list) \<Rightarrow> (nat \<Rightarrow> bool) \<Rightarrow> nat \<Rightarrow> 'n \<Rightarrow> strategy_fault + rc + ddrc_temp_curves list list" where
  "ddrc2_get_temp_curves api props mem n node = read_each (ddrc2_get_temp_row api props mem n node) [0..<DDRC_RATIO_RANGE_MAX + 1]"

definition ddrc2_strategy_alloc_by_node ::
  "'n of_api \<Rightarrow> ('n \<Rightarrow> string list) \<Rightarrow> (nat \<Rightarrow> bool) \<Rightarrow> 'n option \<Rightarrow> strategy_fault + rc + ddrc_strategy" where
  "ddrc2_strategy_alloc_by_node api props mem node =
     (case node of
        None \<Rightarrow> Inr (Inl (- EINVAL))
      | Some n \<Rightarrow>
          if \<not> mem 0 then Inr (Inl (- ENOMEM))
          else
            (case ddrc2_read_data api (mem 1) n of
               Inl rc \<Rightarrow> Inr (Inl rc)
             | Inr (ratios, temps) \<Rightarrow>
                 (case ddrc2_get_temp_curves api props mem (length temps) n of
                    Inl flt \<Rightarrow> Inl flt
                  | Inr (Inl rc) \<Rightarrow> Inr (Inl rc)
                  | Inr (Inr m) \<Rightarrow> Inr (Inr \<lparr>ratio_curves = m, ratio_range_data = ratios, ddrc_temp_range = temps,
                      ddrc_temp_type = ddrc2_temp_type api n, ddrc_curve = None, ddrc_topic_name = ddrc2_topic_name api n,
                      ddrc_topic = None\<rparr>))))"

definition ddrc2_strategy_alloc :: "bytes \<Rightarrow> rc + ddrc_strategy" where
  "ddrc2_strategy_alloc buf = Inl (- ENOTSUPP)"

definition ddrc2_strategy_init :: "ddrc_strategy \<Rightarrow> ('d, 'k) strategy_env \<Rightarrow> rc \<times> ddrc_strategy \<times> ('d, 'k) strategy_env" where
  "ddrc2_strategy_init s e =
     (let (r, s, e) = ddrc_get_ratio_region s e;
          (t, e) = ddrc2_get_temp_region s e;
          c = (ratio_curves s ! r ! t)\<lparr>index_r := r, index_t := t\<rparr> in
      (0, s\<lparr>ratio_curves := (ratio_curves s)[r := (ratio_curves s ! r)[t := c]], ddrc_curve := Some (r, t)\<rparr>, e))"

definition ddrc2_strategy_get_data :: "ddrc_strategy \<Rightarrow> strategy_fault + ddrc_temp_curves" where
  "ddrc2_strategy_get_data s = (case ddrc_curve s of None \<Rightarrow> Inl Null_pointer | Some (r, t) \<Rightarrow> Inr (ratio_curves s ! r ! t))"

definition ddrc2_strategy_get_metadata :: "ddrc_strategy \<Rightarrow> strategy_fault + ddrc_temp_curves" where
  "ddrc2_strategy_get_metadata s = (case ddrc_curve s of None \<Rightarrow> Inl Null_pointer | Some (r, t) \<Rightarrow> Inr (ratio_curves s ! r ! t))"

definition ddrc2_call :: "ddrc_strategy \<Rightarrow> ('d, 'k) strategy_env \<Rightarrow> ((rc + ddrc_temp_curves) \<times> ddrc_strategy \<times> ('d, 'k) strategy_env) option" where
  "ddrc2_call s e = (case ddrc2_strategy_get_data s of Inl _ \<Rightarrow> None | Inr c \<Rightarrow> Some (Inr c, s, e))"

section \<open>Selection\<close>

text \<open>On three limits the second version is the first.\<close>

lemma temp_regions_agree:
  assumes "length (ddrc_temp_range s) = DDRC_TEMP_RANGE_MAX"
  shows "ddrc2_get_temp_region s e = ddrc_get_temp_region s e"
  unfolding ddrc2_get_temp_region_def ddrc_get_temp_region_def assms DDRC_TEMP_RANGE_MAX_def by simp

lemma ratio_region_temps: "ddrc_get_ratio_region s e = (r, s', e') \<Longrightarrow> ddrc_temp_range s' = ddrc_temp_range s"
  by (auto simp: ddrc_get_ratio_region_def ddrc_strategy_get_ratio_def is_gauge_topic_available_by_ddrc_def Let_def
    split: prod.splits sum.splits)

theorem ddrc_versions_agree:
  assumes "length (ddrc_temp_range s) = DDRC_TEMP_RANGE_MAX"
  shows "ddrc2_strategy_init s e = ddrc_strategy_init s e"
proof -
  obtain r s' e' where r: "ddrc_get_ratio_region s e = (r, s', e')" by (metis prod_cases3)
  show ?thesis using temp_regions_agree [of s' e'] ratio_region_temps [OF r] assms
    by (simp add: ddrc2_strategy_init_def ddrc_strategy_init_def r)
qed

definition ddrc2_good :: "ddrc_strategy_data list list list \<Rightarrow> nat \<Rightarrow> ddrc_strategy \<Rightarrow> bool" where
  "ddrc2_good m n s \<longleftrightarrow> ddrc_tables s = m \<and> length m = DDRC_RATIO_RANGE_MAX + 1 \<and> list_all (\<lambda>row. length row = n + 1) m \<and>
     length (ddrc_temp_range s) = n \<and>
     (case ddrc_curve s of None \<Rightarrow> True | Some (r, t) \<Rightarrow> r \<le> DDRC_RATIO_RANGE_MAX \<and> t \<le> n \<and>
        index_r (ratio_curves s ! r ! t) = r \<and> index_t (ratio_curves s ! r ! t) = t)"

lemma temp_region2_le: "ddrc2_get_temp_region s e = (t, e') \<Longrightarrow> t \<le> length (ddrc_temp_range s)"
  by (auto simp: ddrc2_get_temp_region_def Let_def first_region_le split: prod.splits sum.splits option.splits if_splits)

lemma ddrc2_init_good:
  assumes "list_all (\<lambda>row. length row = n + 1) m" and "length m = DDRC_RATIO_RANGE_MAX + 1" and "ddrc_tables s = m"
    and "length (ddrc_temp_range s) = n"
  shows "ddrc2_good m n (fst (snd (ddrc2_strategy_init s e))) \<and> ddrc_curve (fst (snd (ddrc2_strategy_init s e))) \<noteq> None"
proof -
  obtain r s1 e1 where r: "ddrc_get_ratio_region s e = (r, s1, e1)" by (metis prod_cases3)
  obtain t e2 where t: "ddrc2_get_temp_region s1 e1 = (t, e2)" by fastforce
  note f = ratio_region_frame [OF r] ratio_region_temps [OF r] and b = temp_region2_le [OF t]
  let ?m = "ratio_curves s"
  have "length ?m = length m" using assms(3) by (auto simp: ddrc_tables_def)
  then have l: "r < length ?m" using f(1) assms(2) by simp
  have "length (?m ! r) = length (m ! r)" using assms(3) l by (auto simp: ddrc_tables_def)
  then have "t < length (?m ! r)" using b assms(1,2,4) f by (simp add: list_all_length)
  moreover have "ddrc_tables (s1\<lparr>ratio_curves := ?m[r := (?m ! r)[t := (?m ! r ! t)\<lparr>index_r := r, index_t := t\<rparr>]], ddrc_curve := Some (r, t)\<rparr>) = m"
    using assms(3) by (simp add: ddrc_tables_def map_map_update)
  ultimately show ?thesis using r t f b l assms(1,2,4) by (simp add: ddrc2_strategy_init_def Let_def ddrc2_good_def)
qed

interpretation ddrc2: charging_strategy "\<lambda>s. ddrc2_good m n s \<and> ddrc_curve s \<noteq> None" "\<lambda>_. True"
    "\<lambda>c. index_r c \<le> DDRC_RATIO_RANGE_MAX \<and> index_t c \<le> n \<and> ddrc_data c = m ! index_r c ! index_t c" ddrc2_strategy_init ddrc2_call for m n
proof
  show "ddrc2_good m n (fst (snd (ddrc2_strategy_init s e))) \<and> ddrc_curve (fst (snd (ddrc2_strategy_init s e))) \<noteq> None"
    if "ddrc2_good m n s \<and> ddrc_curve s \<noteq> None" for s and e :: "('d, 'k) strategy_env"
    using that by (intro ddrc2_init_good) (auto simp: ddrc2_good_def)
next
  fix s and e :: "('d, 'k) strategy_env"
  assume g: "ddrc2_good m n s \<and> ddrc_curve s \<noteq> None"
  then obtain r t where c: "ddrc_curve s = Some (r, t)" "r \<le> DDRC_RATIO_RANGE_MAX" "t \<le> n"
      "index_r (ratio_curves s ! r ! t) = r" "index_t (ratio_curves s ! r ! t) = t" by (auto simp: ddrc2_good_def)
  have "m = map (map ddrc_data) (ratio_curves s)" "r < length m" "t < length (m ! r)"
    using g c(2,3) by (auto simp: ddrc2_good_def ddrc_tables_def list_all_length)
  then have "ddrc_data (ratio_curves s ! r ! t) = m ! r ! t" by auto
  then show "\<exists>r s' e'. ddrc2_call s e = Some (r, s', e') \<and> (ddrc2_good m n s' \<and> ddrc_curve s' \<noteq> None) \<and>
      (\<forall>x. r = Inr x \<longrightarrow> index_r x \<le> DDRC_RATIO_RANGE_MAX \<and> index_t x \<le> n \<and> ddrc_data x = m ! index_r x ! index_t x)"
    using g c by (simp add: ddrc2_call_def ddrc2_strategy_get_data_def)
qed

lemma read_each_Inr: "read_each f xs = Inr (Inr ys) \<Longrightarrow> length ys = length xs \<and> (\<forall>i<length xs. f (xs ! i) = Inr (Inr (ys ! i)))"
  by (induction xs arbitrary: ys) (auto simp: nth_Cons split: sum.splits nat.split)

lemma ddrc2_alloc_shape:
  assumes "ddrc2_strategy_alloc_by_node api props mem node = Inr (Inr s)"
  shows "length (ddrc_tables s) = DDRC_RATIO_RANGE_MAX + 1 \<and>
    list_all (\<lambda>row. length row = length (ddrc_temp_range s) + 1) (ddrc_tables s)"
proof -
  obtain n m temps where r: "ddrc2_get_temp_curves api props mem (length temps) n = Inr (Inr m)"
    and p: "ratio_curves s = m" "ddrc_temp_range s = temps"
    using assms by (auto simp: ddrc2_strategy_alloc_by_node_def split: option.splits if_splits sum.splits)
  note l = read_each_Inr [OF r [unfolded ddrc2_get_temp_curves_def]]
  have "length (m ! i) = length temps + 1" if "i < length m" for i
  proof -
    have "ddrc2_get_temp_row api props mem (length temps) n i = Inr (Inr (m ! i))" using that l by (simp del: upt_Suc)
    then obtain f where "read_each f [0..<length temps + 1] = Inr (Inr (m ! i))"
      by (auto simp: ddrc2_get_temp_row_def Let_def simp del: upt_Suc split: option.splits if_splits)
    from read_each_Inr [OF this] show ?thesis by (simp del: upt_Suc)
  qed
  then show ?thesis using p l by (simp add: ddrc_tables_def list_all_length del: upt_Suc)
qed

section \<open>Properties\<close>

text \<open>However many limits the device tree has, after the first initialization every call returns the curve at the
  position it names, which is a position of the matrix.\<close>

theorem ddrc2_selects_in_matrix:
  assumes "ddrc2_strategy_alloc_by_node api props mem node = Inr (Inr s)"
  shows "\<exists>cs s'. run_strategy ddrc2_strategy_init ddrc2_call (Call_init e # es) s = Some (cs, s') \<and>
    (\<forall>c. Inr c \<in> set cs \<longrightarrow> index_r c \<le> DDRC_RATIO_RANGE_MAX \<and> index_t c \<le> length (ddrc_temp_range s) \<and>
      ddrc_data c = ddrc_tables s ! index_r c ! index_t c)"
proof -
  note a = ddrc2_alloc_shape [OF assms]
  have "ddrc2_good (ddrc_tables s) (length (ddrc_temp_range s)) (fst (snd (ddrc2_strategy_init s e))) \<and>
      ddrc_curve (fst (snd (ddrc2_strategy_init s e))) \<noteq> None"
    using a by (intro ddrc2_init_good) simp_all
  from ddrc2.run_fine [OF this, of es] show ?thesis by auto
qed

text \<open>Memory that is missing for the table of a row is not noticed: the first curve is written through a null pointer.\<close>

lemma missing_table_is_written:
  assumes "of_get_child_by_name api n ''strategy_ratio_range_min'' = Some c"
    and "length (filter (\<lambda>p. take 14 p = ''strategy_temp_'') (props c)) = k + 1"
    and "of_property_count api c ''strategy_temp_0'' \<ge> 0" and "of_property_count api c ''strategy_temp_0'' mod 4 = 0" and "\<not> mem 2"
  shows "ddrc2_get_temp_curves api props mem k n = Inl Null_pointer"
proof -
  have "(of_property_count api c ''strategy_temp_0'' * 4) mod 16 = 0" using assms(4) by presburger
  then have "ddrc2_get_temp_curve api (mem 2) x c 0 = Inl Null_pointer" for x
    using assms(3,5) by (simp add: ddrc2_get_temp_curve_def decimal.simps)
  then show ?thesis
    using assms(1,2) by (simp add: ddrc2_get_temp_curves_def ddrc2_get_temp_row_def ddrc_strategy_ratio_def Let_def upt_rec [of 0])
qed

end
