(* ===== verification/Chg_Strategy_Pcc.thy ===== *)
theory Chg_Strategy_Pcc
  imports Chg_Strategy
begin

text \<open>
  The strategy that approaches a target current step by step (\<^verbatim>\<open>strategy/oplus_strategy_pcc.c\<close>): a lower target is
  requested at once, a higher one by one unit in each cycle, beginning a while after the last reduction.
\<close>

section \<open>Operations\<close>

definition PCC_UNKNOW_PROTOCOL :: u32 where "PCC_UNKNOW_PROTOCOL = 0"
definition PCC_INVALID_PROTOCOL :: u32 where "PCC_INVALID_PROTOCOL = 2"

record pcc_strategy =
  pcc_protocol :: u32
  ibus_target :: int
  ibus_req :: int
  curr_down_moment :: u64

definition pcc_strategy_alloc_by_node :: "'n of_api \<Rightarrow> bool \<Rightarrow> 'n option \<Rightarrow> rc + pcc_strategy" where
  "pcc_strategy_alloc_by_node api mem node =
     (case node of
        None \<Rightarrow> Inl (- EINVAL)
      | Some n \<Rightarrow>
          if \<not> mem then Inl (- ENOMEM)
          else
            (case of_property_read_u32 api n ''oplus,chg_protocol'' of
               Inl _ \<Rightarrow> Inl (- EINVAL)
             | Inr d \<Rightarrow>
                 if d \<ge> PCC_INVALID_PROTOCOL \<or> d \<le> PCC_UNKNOW_PROTOCOL then Inl (- EINVAL)
                 else Inr \<lparr>pcc_protocol = d, ibus_target = 0, ibus_req = 0, curr_down_moment = 0\<rparr>))"

definition pcc_strategy_init :: "pcc_strategy \<Rightarrow> 'e \<Rightarrow> rc \<times> pcc_strategy \<times> 'e" where
  "pcc_strategy_init p e = (0, p\<lparr>ibus_req := 10, ibus_target := 0, curr_down_moment := 0\<rparr>, e)"

text \<open>Milliseconds from the clock; \<open>hz\<close> is its frequency.\<close>

definition moment :: "u64 \<Rightarrow> ('d, 'k) strategy_env \<Rightarrow> u64" where
  "moment hz e = (jiffies e * 1000) div hz"

definition pcc_strategy_update_ibus_target :: "u64 \<Rightarrow> int \<Rightarrow> ('d, 'k) strategy_env \<Rightarrow> pcc_strategy \<Rightarrow> pcc_strategy" where
  "pcc_strategy_update_ibus_target hz target e p =
     (let p = p\<lparr>ibus_target := target\<rparr> in
      if ibus_req p > target then p\<lparr>ibus_req := target, curr_down_moment := moment hz e\<rparr> else p)"

definition pcc_strategy_cal_step_curr :: "pcc_strategy \<Rightarrow> pcc_strategy" where
  "pcc_strategy_cal_step_curr p =
     (if ibus_req p \<ge> ibus_target p then p\<lparr>ibus_req := ibus_target p\<rparr>
      else
        let p = p\<lparr>ibus_req := ibus_req p + 1\<rparr> in
        if ibus_req p > ibus_target p then p\<lparr>ibus_req := ibus_target p\<rparr> else p)"

definition pcc_strategy_update_ibus_req :: "u64 \<Rightarrow> ('d, 'k) strategy_env \<Rightarrow> pcc_strategy \<Rightarrow> pcc_strategy" where
  "pcc_strategy_update_ibus_req hz e p =
     (if ibus_target p = ibus_req p then p
      else if curr_down_moment p \<noteq> 0 \<and> moment hz e < curr_down_moment p + 100 then p
      else pcc_strategy_cal_step_curr p)"

definition pcc_strategy_set_process_data :: "u64 \<Rightarrow> pcc_strategy \<Rightarrow> string \<Rightarrow> u64 \<Rightarrow> ('d, 'k) strategy_env \<Rightarrow> rc \<times> pcc_strategy" where
  "pcc_strategy_set_process_data hz p type arg e =
     (if type = ''curr_target'' then (0, pcc_strategy_update_ibus_target hz (sint (ucast arg :: u32)) e p)
      else if type = ''curr_pcc_cycle_t'' then (0, pcc_strategy_update_ibus_req hz e p)
      else (- ENOTSUPP, p))"

definition pcc_strategy_get_data :: "pcc_strategy \<Rightarrow> 'e \<Rightarrow> (rc + int) \<times> pcc_strategy \<times> 'e" where
  "pcc_strategy_get_data p e = (Inr (ibus_req p), p, e)"

definition pcc_strategy_desc ::
  "'n of_api \<Rightarrow> bool \<Rightarrow> u64 \<Rightarrow> ('n, ('d, 'k) strategy_env, pcc_strategy, int) oplus_chg_strategy_desc" where
  "pcc_strategy_desc api mem hz =
     \<lparr>strategy_name = ''pcc_strategy'', strategy_alloc = (\<lambda>_. Inl (- ENOTSUPP)),
      strategy_alloc_by_node = Some (\<lambda>n. pcc_strategy_alloc_by_node api mem (Some n)), strategy_init = pcc_strategy_init,
      strategy_get_data = (\<lambda>s e. Some (pcc_strategy_get_data s e)),
      strategy_set_process_data = Some (pcc_strategy_set_process_data hz), strategy_get_custom_data = None\<rparr>"

section \<open>The request\<close>

text \<open>Calls of \<^verbatim>\<open>strategy_set_process_data\<close> in a row.\<close>

definition pcc_calls :: "u64 \<Rightarrow> (string \<times> u64 \<times> ('d, 'k) strategy_env) list \<Rightarrow> pcc_strategy \<Rightarrow> pcc_strategy" where
  "pcc_calls hz cs p = foldl (\<lambda>p (type, arg, e). snd (pcc_strategy_set_process_data hz p type arg e)) p cs"

lemma req_le_target_step: "ibus_req p \<le> ibus_target p \<Longrightarrow>
    ibus_req (snd (pcc_strategy_set_process_data hz p type arg e)) \<le> ibus_target (snd (pcc_strategy_set_process_data hz p type arg e))"
  by (auto simp: pcc_strategy_set_process_data_def pcc_strategy_update_ibus_target_def pcc_strategy_update_ibus_req_def
    pcc_strategy_cal_step_curr_def Let_def)

lemma req_le_target: "ibus_req p \<le> ibus_target p \<Longrightarrow> ibus_req (pcc_calls hz cs p) \<le> ibus_target (pcc_calls hz cs p)"
  unfolding pcc_calls_def by (induction cs arbitrary: p) (auto simp: req_le_target_step)

lemma cycle_step:
  "ibus_req p \<le> ibus_target p \<Longrightarrow> curr_down_moment p = 0 \<or> curr_down_moment p + 100 \<le> moment hz e \<Longrightarrow>
   pcc_strategy_update_ibus_req hz e p = p\<lparr>ibus_req := min (ibus_target p) (ibus_req p + 1)\<rparr>"
  by (auto simp: pcc_strategy_update_ibus_req_def pcc_strategy_cal_step_curr_def Let_def min_def)

section \<open>Properties\<close>

text \<open>After a target was set, the request never exceeds the target in force, whatever is called; and cycles
  that are late enough after the last reduction bring it to the target by one unit each and keep it there.\<close>

theorem pcc_approaches_target:
  assumes "q = pcc_calls hz (c # cs) p" and "fst c = ''curr_target''"
    and "\<forall>e\<in>set es. curr_down_moment q = 0 \<or> curr_down_moment q + 100 \<le> moment hz e"
  shows "ibus_req q \<le> ibus_target q \<and>
    pcc_calls hz (map (\<lambda>e. (''curr_pcc_cycle_t'', 0, e)) es) q = q\<lparr>ibus_req := min (ibus_target q) (ibus_req q + int (length es))\<rparr>"
proof -
  have "ibus_req (pcc_calls hz [c] p) \<le> ibus_target (pcc_calls hz [c] p)"
    using assms(2) by (cases c) (simp add: pcc_calls_def pcc_strategy_set_process_data_def pcc_strategy_update_ibus_target_def Let_def)
  then have q: "ibus_req q \<le> ibus_target q" using req_le_target [of "pcc_calls hz [c] p" hz cs] assms(1) by (simp add: pcc_calls_def)
  have "pcc_calls hz (map (\<lambda>e. (''curr_pcc_cycle_t'', 0, e)) es) q = q\<lparr>ibus_req := min (ibus_target q) (ibus_req q + int (length es))\<rparr>"
    using q assms(3)
  proof (induction es arbitrary: q)
    case Nil
    then show ?case by (simp add: pcc_calls_def)
  next
    case (Cons e es)
    let ?q = "q\<lparr>ibus_req := min (ibus_target q) (ibus_req q + 1)\<rparr>"
    have "pcc_calls hz (map (\<lambda>e. (''curr_pcc_cycle_t'', 0, e)) (e # es)) q = pcc_calls hz (map (\<lambda>e. (''curr_pcc_cycle_t'', 0, e)) es) ?q"
      using cycle_step [of q hz e] Cons.prems by (simp add: pcc_calls_def pcc_strategy_set_process_data_def)
    also have "\<dots> = ?q\<lparr>ibus_req := min (ibus_target q) (ibus_req ?q + int (length es))\<rparr>"
      using Cons.IH [of ?q] Cons.prems by simp
    also have "\<dots> = q\<lparr>ibus_req := min (ibus_target q) (ibus_req q + int (length (e # es)))\<rparr>"
      by (simp add: min_def)
    finally show ?case .
  qed
  with q show ?thesis ..
qed

theorem pcc_approaches_target_witness:
  "ibus_req (pcc_calls 250 (map (\<lambda>e. (''curr_pcc_cycle_t'', 0, e)) (replicate 3 (demo_measured 50 250 4000 0 250 500)))
     (pcc_calls 250 [(''curr_target'', 5, demo_measured 50 250 4000 0 250 100), (''curr_target'', 7, demo_measured 50 250 4000 0 250 200)]
       \<lparr>pcc_protocol = 1, ibus_target = 0, ibus_req = 10, curr_down_moment = 0\<rparr>)) = 7"
proof -
  let ?e = "demo_measured 50 250 4000 0 250 500"
  let ?c = "(''curr_target'', 5, demo_measured 50 250 4000 0 250 100)" and ?d = "(''curr_target'', 7, demo_measured 50 250 4000 0 250 200)"
  let ?p = "\<lparr>pcc_protocol = 1, ibus_target = 0, ibus_req = 10, curr_down_moment = 0\<rparr>"
  let ?q = "pcc_calls 250 [?c, ?d] ?p"
  have f: "ibus_req ?q = 5 \<and> ibus_target ?q = 7 \<and> curr_down_moment ?q + 100 \<le> moment 250 ?e" by code_simp
  then show ?thesis using pcc_approaches_target [of ?q 250 ?c "[?d]" ?p "replicate 3 ?e"] by simp
qed

end
