(* ===== verification/Chg_Strategy_Cgcl.thy ===== *)
theory Chg_Strategy_Cgcl
  imports Chg_Strategy
begin

text \<open>
  The strategy that limits the current by the temperature (\<^verbatim>\<open>strategy/oplus_strategy_cgcl.c\<close>). A table from the
  device tree has, for each region, the temperatures at which it is left upwards and downwards and the
  regions that come next. A loop follows these links until the region fits; nothing checks the table, so
  that the loop may leave the table or run forever.
\<close>

section \<open>Operations\<close>

record cgcl_strategy_data =
  cool_temp :: int
  heat_temp :: int
  curr_data :: int
  heat_next_index :: int
  cool_next_index :: int

record cgcl_strategy =
  cgcl_data :: "cgcl_strategy_data list"
  temp_min :: int
  temp_max :: int
  cgcl_temp_type :: u32
  region_index :: int
  region_temp :: int

definition CGCL_DATA_SIZE :: nat where "CGCL_DATA_SIZE = 20"

definition cgcl_entry :: "cgcl_strategy \<Rightarrow> int \<Rightarrow> strategy_fault + cgcl_strategy_data" where
  "cgcl_entry c i = (if 0 \<le> i \<and> i < int (length (cgcl_data c)) then Inr (cgcl_data c ! nat i) else Inl Out_of_bounds)"

definition cgcl_strategy_get_index :: "cgcl_strategy \<Rightarrow> int \<Rightarrow> int" where
  "cgcl_strategy_get_index c temp =
     (case find (\<lambda>i. temp \<le> heat_temp (cgcl_data c ! i)) [0..<length (cgcl_data c)] of
        Some i \<Rightarrow> int i
      | None \<Rightarrow> int (length (cgcl_data c)) - 1)"

definition buf_is_zero :: "bytes \<Rightarrow> bool" where
  "buf_is_zero buf = list_all (\<lambda>b. b = 0) buf"

definition cgcl_strategy_get_data_table_num :: "bytes \<Rightarrow> nat" where
  "cgcl_strategy_get_data_table_num buf =
     (let n = length buf div CGCL_DATA_SIZE in
      case find (\<lambda>i. buf_is_zero (get_bytes (i * CGCL_DATA_SIZE) CGCL_DATA_SIZE buf)) [0..<n] of
        Some i \<Rightarrow> i
      | None \<Rightarrow> n)"

definition cgcl_strategy_get_temp :: "cgcl_strategy \<Rightarrow> ('d, 'k) strategy_env \<Rightarrow> (rc + int) \<times> ('d, 'k) strategy_env" where
  "cgcl_strategy_get_temp c e = strategy_get_temp False (cgcl_temp_type c) e"

text \<open>The table lies behind the first word, which is the kind of temperature. \<open>mem\<close> and \<open>data_mem\<close> say whether the
  two allocations succeed; the code checks the first pointer after both.\<close>

definition cgcl_data_at :: "bytes \<Rightarrow> nat \<Rightarrow> cgcl_strategy_data" where
  "cgcl_data_at buf off =
     \<lparr>cool_temp = s32 buf off, heat_temp = s32 buf (off + 4), curr_data = s32 buf (off + 8),
      heat_next_index = s32 buf (off + 12), cool_next_index = s32 buf (off + 16)\<rparr>"

definition cgcl_strategy_alloc :: "bool \<Rightarrow> bool \<Rightarrow> bytes option \<Rightarrow> strategy_fault + rc + cgcl_strategy" where
  "cgcl_strategy_alloc mem data_mem buf =
     (case buf of
        None \<Rightarrow> Inr (Inl (- EINVAL))
      | Some b \<Rightarrow>
          let data_size = unat (of_nat (length b) - 4 :: u64) in
          if data_size mod CGCL_DATA_SIZE \<noteq> 0 then Inr (Inl (- EINVAL))
          else
            let num = cgcl_strategy_get_data_table_num (drop 4 b);
                type = le_word (get_bytes 0 4 b) :: u32 in
            if num = 0 then Inr (Inl (- EINVAL))
            else if \<not> mem then Inr (Inl (- ENOMEM))
            else if type \<noteq> STRATEGY_USE_BATT_TEMP \<and> type \<noteq> STRATEGY_USE_SHELL_TEMP then Inr (Inl (- EINVAL))
            else if \<not> data_mem then Inl Null_pointer
            else
              let table = map (\<lambda>i. cgcl_data_at b (4 + i * CGCL_DATA_SIZE)) [0..<num] in
              Inr (Inr \<lparr>cgcl_data = table, temp_min = cool_temp (table ! 0), temp_max = heat_temp (table ! (num - 1)),
                cgcl_temp_type = type, region_index = 0, region_temp = 0\<rparr>))"

definition cgcl_strategy_init :: "cgcl_strategy \<Rightarrow> ('d, 'k) strategy_env \<Rightarrow> rc \<times> cgcl_strategy \<times> ('d, 'k) strategy_env" where
  "cgcl_strategy_init c e =
     (case cgcl_strategy_get_temp c e of
        (Inl rc, e) \<Rightarrow> (rc, c, e)
      | (Inr temp, e) \<Rightarrow> (0, c\<lparr>region_temp := temp, region_index := cgcl_strategy_get_index c temp\<rparr>, e))"

text \<open>One round of the loop and the loop. Every round reads the entry of the current region.\<close>

definition cgcl_round :: "int \<Rightarrow> cgcl_strategy \<Rightarrow> strategy_fault + cgcl_strategy" where
  "cgcl_round temp c =
     (let temp_diff = c_sub temp (region_temp c) in
      case cgcl_entry c (region_index c) of
        Inl f \<Rightarrow> Inl f
      | Inr x \<Rightarrow>
          if temp_diff > 0 \<and> temp > heat_temp x then
            (case cgcl_entry c (heat_next_index x) of
               Inl f \<Rightarrow> Inl f
             | Inr y \<Rightarrow> Inr (c\<lparr>region_index := heat_next_index x,
                 region_temp := (if temp > heat_temp y \<and> heat_temp y < temp_max c then heat_temp y else temp)\<rparr>))
          else if temp_diff < 0 \<and> temp \<le> cool_temp x then
            (case cgcl_entry c (cool_next_index x) of
               Inl f \<Rightarrow> Inl f
             | Inr y \<Rightarrow> Inr (c\<lparr>region_index := cool_next_index x,
                 region_temp := (if temp \<le> cool_temp y \<and> cool_temp y > temp_min c then cool_temp y else temp)\<rparr>))
          else Inr (c\<lparr>region_temp := temp\<rparr>))"

partial_function (option) cgcl_loop :: "int \<Rightarrow> cgcl_strategy \<Rightarrow> (strategy_fault + cgcl_strategy) option" where
  "cgcl_loop temp c =
     (if c_sub temp (region_temp c) = 0 then Some (Inr c)
      else case cgcl_round temp c of Inl f \<Rightarrow> Some (Inl f) | Inr c' \<Rightarrow> cgcl_loop temp c')"

declare cgcl_loop.simps [code]

definition cgcl_strategy_get_data ::
  "cgcl_strategy \<Rightarrow> ('d, 'k) strategy_env \<Rightarrow> (strategy_fault + (rc + int) \<times> cgcl_strategy \<times> ('d, 'k) strategy_env) option" where
  "cgcl_strategy_get_data c e =
     (case cgcl_strategy_get_temp c e of
        (Inl rc, e) \<Rightarrow> Some (Inr (Inl rc, c, e))
      | (Inr temp, e) \<Rightarrow>
          (case cgcl_loop temp c of
             None \<Rightarrow> None
           | Some (Inl f) \<Rightarrow> Some (Inl f)
           | Some (Inr c) \<Rightarrow>
               (case cgcl_entry c (region_index c) of
                  Inl f \<Rightarrow> Some (Inl f)
                | Inr x \<Rightarrow> Some (Inr (Inr (curr_data x), c, e)))))"

text \<open>As its users see it, a call that faults does not return either.\<close>

definition cgcl_call ::
  "cgcl_strategy \<Rightarrow> ('d, 'k) strategy_env \<Rightarrow> ((rc + int) \<times> cgcl_strategy \<times> ('d, 'k) strategy_env) option" where
  "cgcl_call c e = (case cgcl_strategy_get_data c e of Some (Inr r) \<Rightarrow> Some r | _ \<Rightarrow> None)"

definition cgcl_strategy_desc :: "bool \<Rightarrow> ('n, ('d, 'k) strategy_env, cgcl_strategy, int) oplus_chg_strategy_desc" where
  "cgcl_strategy_desc mem =
     \<lparr>strategy_name = ''cgcl'',
      strategy_alloc = (\<lambda>buf. case cgcl_strategy_alloc mem True (Some buf) of Inl _ \<Rightarrow> Inl (- EFAULT) | Inr r \<Rightarrow> r),
      strategy_alloc_by_node = None, strategy_init = cgcl_strategy_init, strategy_get_data = cgcl_call,
      strategy_set_process_data = None, strategy_get_custom_data = None\<rparr>"

section \<open>Termination\<close>

text \<open>A table is sound when its links stay inside and lead to regions with higher, or lower, thresholds, unless
  the end of the scale is reached.\<close>

definition cgcl_sound :: "cgcl_strategy \<Rightarrow> bool" where
  "cgcl_sound c \<longleftrightarrow>
     (\<forall>x\<in>set (cgcl_data c). \<bar>heat_temp x\<bar> < 2 ^ 30 \<and> \<bar>cool_temp x\<bar> < 2 ^ 30 \<and>
       (\<exists>y\<in>set (cgcl_data c). cgcl_entry c (heat_next_index x) = Inr y \<and> (heat_temp y < temp_max c \<longrightarrow> heat_temp x < heat_temp y)) \<and>
       (\<exists>y\<in>set (cgcl_data c). cgcl_entry c (cool_next_index x) = Inr y \<and> (cool_temp y > temp_min c \<longrightarrow> cool_temp y < cool_temp x)))"

definition cgcl_good :: "cgcl_strategy_data list \<Rightarrow> int \<Rightarrow> int \<Rightarrow> u32 \<Rightarrow> cgcl_strategy \<Rightarrow> bool" where
  "cgcl_good table lo hi tt c \<longleftrightarrow> cgcl_data c = table \<and> temp_min c = lo \<and> temp_max c = hi \<and> cgcl_temp_type c = tt \<and> cgcl_sound c \<and>
     0 \<le> region_index c \<and> region_index c < int (length table) \<and> \<bar>region_temp c\<bar> < 2 ^ 30"

lemma cgcl_entry_in: "0 \<le> i \<Longrightarrow> i < int (length (cgcl_data c)) \<Longrightarrow> cgcl_entry c i = Inr (cgcl_data c ! nat i)"
  by (simp add: cgcl_entry_def)

lemma cgcl_entry_update [simp]: "cgcl_entry (c\<lparr>region_index := i\<rparr>) j = cgcl_entry c j"
  "cgcl_entry (c\<lparr>region_temp := t\<rparr>) j = cgcl_entry c j"
  by (simp_all add: cgcl_entry_def)

lemma cgcl_sound_update [simp]: "cgcl_sound (c\<lparr>region_index := i\<rparr>) = cgcl_sound c"
  "cgcl_sound (c\<lparr>region_temp := t\<rparr>) = cgcl_sound c"
  by (simp_all add: cgcl_sound_def cgcl_entry_def)

lemma cgcl_entry_Inr: "cgcl_entry c i = Inr y \<longleftrightarrow> 0 \<le> i \<and> i < int (length (cgcl_data c)) \<and> y = cgcl_data c ! nat i"
  by (auto simp: cgcl_entry_def)

lemma cgcl_loop_done [simp]: "region_temp c = temp \<Longrightarrow> cgcl_loop temp c = Some (Inr c)"
  by (simp add: cgcl_loop.simps c_sub_def)

lemma cgcl_loop_round:
  "c_sub temp (region_temp c) \<noteq> 0 \<Longrightarrow> cgcl_round temp c = Inr c' \<Longrightarrow> cgcl_loop temp c = cgcl_loop temp c'"
  by (simp add: cgcl_loop.simps [of temp c])

text \<open>The entry of the current region, and the entries its links lead to.\<close>

lemma cgcl_good_entry:
  assumes "cgcl_good table lo hi tt c"
  obtains x y z where "x \<in> set table" "cgcl_entry c (region_index c) = Inr x"
    "y \<in> set table" "cgcl_entry c (heat_next_index x) = Inr y" "heat_temp y < hi \<longrightarrow> heat_temp x < heat_temp y" "\<bar>heat_temp y\<bar> < 2 ^ 30"
    "z \<in> set table" "cgcl_entry c (cool_next_index x) = Inr z" "cool_temp z > lo \<longrightarrow> cool_temp z < cool_temp x" "\<bar>cool_temp z\<bar> < 2 ^ 30"
proof -
  let ?x = "cgcl_data c ! nat (region_index c)"
  have x: "?x \<in> set table" "cgcl_entry c (region_index c) = Inr ?x"
    using assms by (auto simp: cgcl_good_def cgcl_entry_def)
  obtain y where y: "y \<in> set table" "cgcl_entry c (heat_next_index ?x) = Inr y" "heat_temp y < hi \<longrightarrow> heat_temp ?x < heat_temp y"
    using assms x(1) by (auto simp: cgcl_good_def cgcl_sound_def)
  obtain z where z: "z \<in> set table" "cgcl_entry c (cool_next_index ?x) = Inr z" "cool_temp z > lo \<longrightarrow> cool_temp z < cool_temp ?x"
    using assms x(1) by (auto simp: cgcl_good_def cgcl_sound_def)
  have "\<bar>heat_temp y\<bar> < 2 ^ 30" "\<bar>cool_temp z\<bar> < 2 ^ 30" using assms y(1) z(1) by (auto simp: cgcl_good_def cgcl_sound_def)
  with that [OF x y _ z] show ?thesis by blast
qed

lemma cgcl_good_step:
  "cgcl_good table lo hi tt c \<Longrightarrow> cgcl_entry c i = Inr y \<Longrightarrow> \<bar>t\<bar> < 2 ^ 30 \<Longrightarrow>
   cgcl_good table lo hi tt (c\<lparr>region_index := i, region_temp := t\<rparr>)"
  by (auto simp: cgcl_good_def cgcl_entry_Inr)

lemma cgcl_good_temp: "cgcl_good table lo hi tt c \<Longrightarrow> \<bar>t\<bar> < 2 ^ 30 \<Longrightarrow> cgcl_good table lo hi tt (c\<lparr>region_temp := t\<rparr>)"
  by (simp add: cgcl_good_def)

lemma card_above:
  fixes f :: "'a \<Rightarrow> int"
  assumes "finite A" and "y \<in> A" and "f x < f y"
  shows "card {z\<in>A. f y < f z} < card {z\<in>A. f x < f z}"
  using assms by (intro psubset_card_mono) auto

lemma cgcl_heats:
  assumes "cgcl_good table lo hi tt c" and "\<bar>temp\<bar> < 2 ^ 30" and "region_temp c < temp"
  shows "\<exists>c'. cgcl_loop temp c = Some (Inr c') \<and> cgcl_good table lo hi tt c' \<and> region_temp c' = temp"
  using assms
proof (induction "card {z\<in>set table. heat_temp (cgcl_data c ! nat (region_index c)) < heat_temp z}" arbitrary: c rule: less_induct)
  case less
  obtain x y where x: "cgcl_entry c (region_index c) = Inr x" and y: "y \<in> set table" "cgcl_entry c (heat_next_index x) = Inr y"
      "heat_temp y < hi \<longrightarrow> heat_temp x < heat_temp y" "\<bar>heat_temp y\<bar> < 2 ^ 30"
    using less.prems(1) by (rule cgcl_good_entry)
  have d: "c_sub temp (region_temp c) = temp - region_temp c"
    using less.prems(1,2) by (intro c_sub_small) (simp_all add: cgcl_good_def)
  show ?case
  proof (cases "temp > heat_temp x")
    case True
    define t where "t = (if temp > heat_temp y \<and> heat_temp y < hi then heat_temp y else temp)"
    let ?c = "c\<lparr>region_index := heat_next_index x, region_temp := t\<rparr>"
    have r: "cgcl_loop temp c = cgcl_loop temp ?c"
      using d x y(2) True less.prems(1,3) by (intro cgcl_loop_round) (simp_all add: cgcl_round_def cgcl_good_def t_def)
    have g: "cgcl_good table lo hi tt ?c" using less.prems(1,2) y(2,4) by (intro cgcl_good_step) (simp_all add: t_def)
    show ?thesis
    proof (cases "t = temp")
      case False
      then have t: "temp > heat_temp y" "heat_temp y < hi" "t = heat_temp y" by (auto simp: t_def split: if_splits)
      have "card {z\<in>set table. heat_temp y < heat_temp z} < card {z\<in>set table. heat_temp x < heat_temp z}"
        using y(1,3) t(2) by (intro card_above) simp_all
      then show ?thesis using less.hyps [OF _ g less.prems(2)] t x y(2) r by (simp add: cgcl_entry_Inr)
    qed (use r g in simp)
  next
    case False
    then have "cgcl_loop temp c = cgcl_loop temp (c\<lparr>region_temp := temp\<rparr>)"
      using d x less.prems(3) by (intro cgcl_loop_round) (simp_all add: cgcl_round_def)
    then show ?thesis using cgcl_good_temp [OF less.prems(1,2)] by simp
  qed
qed

lemma cgcl_cools:
  assumes "cgcl_good table lo hi tt c" and "\<bar>temp\<bar> < 2 ^ 30" and "temp < region_temp c"
  shows "\<exists>c'. cgcl_loop temp c = Some (Inr c') \<and> cgcl_good table lo hi tt c' \<and> region_temp c' = temp"
  using assms
proof (induction "card {z\<in>set table. - cool_temp (cgcl_data c ! nat (region_index c)) < - cool_temp z}" arbitrary: c rule: less_induct)
  case less
  obtain x y where x: "cgcl_entry c (region_index c) = Inr x" and y: "y \<in> set table" "cgcl_entry c (cool_next_index x) = Inr y"
      "cool_temp y > lo \<longrightarrow> cool_temp y < cool_temp x" "\<bar>cool_temp y\<bar> < 2 ^ 30"
    using less.prems(1) by (rule cgcl_good_entry)
  have d: "c_sub temp (region_temp c) = temp - region_temp c"
    using less.prems(1,2) by (intro c_sub_small) (simp_all add: cgcl_good_def)
  show ?case
  proof (cases "temp \<le> cool_temp x")
    case True
    define t where "t = (if temp \<le> cool_temp y \<and> cool_temp y > lo then cool_temp y else temp)"
    let ?c = "c\<lparr>region_index := cool_next_index x, region_temp := t\<rparr>"
    have r: "cgcl_loop temp c = cgcl_loop temp ?c"
      using d x y(2) True less.prems(1,3) by (intro cgcl_loop_round) (simp_all add: cgcl_round_def cgcl_good_def t_def)
    have g: "cgcl_good table lo hi tt ?c" using less.prems(1,2) y(2,4) by (intro cgcl_good_step) (simp_all add: t_def)
    show ?thesis
    proof (cases "t = temp")
      case False
      then have t: "temp < cool_temp y" "cool_temp y > lo" "t = cool_temp y" by (auto simp: t_def split: if_splits)
      have "card {z\<in>set table. - cool_temp y < - cool_temp z} < card {z\<in>set table. - cool_temp x < - cool_temp z}"
        using y(1,3) t(2) by (intro card_above) simp_all
      then show ?thesis using less.hyps [OF _ g less.prems(2)] t x y(2) r by (simp add: cgcl_entry_Inr)
    qed (use r g in simp)
  next
    case False
    then have "cgcl_loop temp c = cgcl_loop temp (c\<lparr>region_temp := temp\<rparr>)"
      using d x less.prems(3) by (intro cgcl_loop_round) (simp_all add: cgcl_round_def)
    then show ?thesis using cgcl_good_temp [OF less.prems(1,2)] by simp
  qed
qed

lemma cgcl_settles:
  assumes "cgcl_good table lo hi tt c" and "\<bar>temp\<bar> < 2 ^ 30"
  shows "\<exists>c'. cgcl_loop temp c = Some (Inr c') \<and> cgcl_good table lo hi tt c' \<and> region_temp c' = temp"
  using cgcl_heats [OF assms] cgcl_cools [OF assms] assms(1) by (cases temp "region_temp c" rule: linorder_cases) auto

section \<open>The contract\<close>

text \<open>Plausible surroundings have no temperature beyond a hundred million degrees.\<close>

definition plausible_temp :: "bool \<Rightarrow> u32 \<Rightarrow> ('d, 'k) strategy_env \<Rightarrow> bool" where
  "plausible_temp update type e \<longleftrightarrow> (case fst (strategy_get_temp update type e) of Inl _ \<Rightarrow> True | Inr t \<Rightarrow> \<bar>t\<bar> < 2 ^ 30)"

lemma cgcl_index_bounds:
  "cgcl_data c \<noteq> [] \<Longrightarrow> 0 \<le> cgcl_strategy_get_index c t \<and> cgcl_strategy_get_index c t < int (length (cgcl_data c))"
  by (auto simp: cgcl_strategy_get_index_def find_upt_Some split: option.split)

lemma cgcl_init_good:
  assumes "cgcl_good table lo hi tt c" and "plausible_temp False tt e"
  shows "cgcl_good table lo hi tt (fst (snd (cgcl_strategy_init c e)))"
proof -
  have "cgcl_data c \<noteq> []" using assms(1) by (auto simp: cgcl_good_def)
  from cgcl_index_bounds [OF this] show ?thesis using assms
    by (auto simp: cgcl_good_def cgcl_strategy_init_def cgcl_strategy_get_temp_def plausible_temp_def split: prod.splits sum.splits)
qed

lemma cgcl_get_data_settles:
  assumes "cgcl_good table lo hi tt c" and "cgcl_strategy_get_temp c e = (Inr temp, e')" and "plausible_temp False tt e"
  obtains c' where "cgcl_loop temp c = Some (Inr c')" "cgcl_good table lo hi tt c'" "region_temp c' = temp"
    "cgcl_strategy_get_data c e = Some (Inr (Inr (curr_data (table ! nat (region_index c'))), c', e'))"
proof -
  have "\<bar>temp\<bar> < 2 ^ 30" using assms by (simp add: plausible_temp_def cgcl_good_def cgcl_strategy_get_temp_def)
  from cgcl_settles [OF assms(1) this] obtain c' where c: "cgcl_loop temp c = Some (Inr c')" "cgcl_good table lo hi tt c'" "region_temp c' = temp"
    by blast
  moreover have "cgcl_entry c' (region_index c') = Inr (table ! nat (region_index c'))"
    using c(2) by (simp add: cgcl_good_def cgcl_entry_def)
  ultimately show ?thesis using that assms(2) by (simp add: cgcl_strategy_get_data_def)
qed

lemma cgcl_call_good:
  assumes "cgcl_good table lo hi tt c" and "plausible_temp False tt e"
  shows "\<exists>r c' e'. cgcl_call c e = Some (r, c', e') \<and> cgcl_good table lo hi tt c' \<and>
    (\<forall>x. r = Inr x \<longrightarrow> x \<in> curr_data ` set table)"
proof (cases "cgcl_strategy_get_temp c e")
  case (Pair r e')
  show ?thesis
  proof (cases r)
    case (Inl rc)
    then show ?thesis using Pair assms(1) by (simp add: cgcl_call_def cgcl_strategy_get_data_def)
  next
    case (Inr temp)
    with Pair obtain c' where "cgcl_good table lo hi tt c'"
      "cgcl_strategy_get_data c e = Some (Inr (Inr (curr_data (table ! nat (region_index c'))), c', e'))"
      using cgcl_get_data_settles [OF assms(1) _ assms(2)] by metis
    then show ?thesis by (auto simp: cgcl_call_def cgcl_good_def)
  qed
qed

interpretation cgcl: charging_strategy "cgcl_good table lo hi tt" "plausible_temp False tt" "\<lambda>x. x \<in> curr_data ` set table"
    cgcl_strategy_init cgcl_call for table lo hi tt
  using cgcl_init_good cgcl_call_good by unfold_locales blast+

section \<open>Regular tables\<close>

text \<open>A regular table has its regions in the order of their thresholds and links neighbours.\<close>

definition cgcl_regular :: "cgcl_strategy \<Rightarrow> bool" where
  "cgcl_regular c \<longleftrightarrow>
     (let n = length (cgcl_data c); d = (!) (cgcl_data c) in
      0 < n \<and> temp_max c = heat_temp (d (n - 1)) \<and> temp_min c = cool_temp (d 0) \<and>
      list_all (\<lambda>i. heat_next_index (d i) = int (min (i + 1) (n - 1)) \<and> cool_next_index (d i) = int (i - 1) \<and>
        \<bar>heat_temp (d i)\<bar> < 2 ^ 30 \<and> \<bar>cool_temp (d i)\<bar> < 2 ^ 30 \<and>
        (i + 1 < n \<longrightarrow> heat_temp (d i) < heat_temp (d (i + 1)) \<and> cool_temp (d i) < cool_temp (d (i + 1)))) [0..<n])"

lemma regularD:
  assumes "cgcl_regular c"
  shows "cgcl_data c \<noteq> []" "temp_max c = heat_temp (cgcl_data c ! (length (cgcl_data c) - 1))" "temp_min c = cool_temp (cgcl_data c ! 0)"
    and "\<And>i. i < length (cgcl_data c) \<Longrightarrow> heat_next_index (cgcl_data c ! i) = int (min (i + 1) (length (cgcl_data c) - 1)) \<and>
      cool_next_index (cgcl_data c ! i) = int (i - 1) \<and> \<bar>heat_temp (cgcl_data c ! i)\<bar> < 2 ^ 30 \<and> \<bar>cool_temp (cgcl_data c ! i)\<bar> < 2 ^ 30"
    and "\<And>i. i + 1 < length (cgcl_data c) \<Longrightarrow> heat_temp (cgcl_data c ! i) < heat_temp (cgcl_data c ! (i + 1)) \<and>
      cool_temp (cgcl_data c ! i) < cool_temp (cgcl_data c ! (i + 1))"
  using assms by (auto simp: cgcl_regular_def Let_def list_all_iff)

lemma regular_sorted:
  assumes "cgcl_regular c" and "i < j" and "j < length (cgcl_data c)"
  shows "heat_temp (cgcl_data c ! i) < heat_temp (cgcl_data c ! j) \<and> cool_temp (cgcl_data c ! i) < cool_temp (cgcl_data c ! j)"
  using assms(2,3)
proof (induction j)
  case (Suc j)
  then show ?case using regularD(5) [OF assms(1), of j] by (cases "i = j") force+
qed simp

lemma regular_update [simp]: "cgcl_regular (c\<lparr>region_index := i\<rparr>) = cgcl_regular c" "cgcl_regular (c\<lparr>region_temp := t\<rparr>) = cgcl_regular c"
  by (simp_all add: cgcl_regular_def)

lemma regular_sound:
  assumes r: "cgcl_regular c"
  shows "cgcl_sound c"
  unfolding cgcl_sound_def
proof
  fix x assume "x \<in> set (cgcl_data c)"
  then obtain i where i: "i < length (cgcl_data c)" "x = cgcl_data c ! i" by (auto simp: in_set_conv_nth)
  let ?n = "length (cgcl_data c)" and ?y = "cgcl_data c ! min (i + 1) (length (cgcl_data c) - 1)"
  have y: "?y \<in> set (cgcl_data c)" "cgcl_entry c (heat_next_index x) = Inr ?y" "heat_temp ?y < temp_max c \<longrightarrow> heat_temp x < heat_temp ?y"
    using i regularD(2,4) [OF r] regular_sorted [OF r, of i "i + 1"] by (auto simp: cgcl_entry_def min_def)
  have z: "cgcl_data c ! (i - 1) \<in> set (cgcl_data c)" "cgcl_entry c (cool_next_index x) = Inr (cgcl_data c ! (i - 1))"
      "cool_temp (cgcl_data c ! (i - 1)) > temp_min c \<longrightarrow> cool_temp (cgcl_data c ! (i - 1)) < cool_temp x"
    using i regularD(3,4) [OF r] regular_sorted [OF r, of "i - 1" i] by (auto simp: cgcl_entry_def)
  show "\<bar>heat_temp x\<bar> < 2 ^ 30 \<and> \<bar>cool_temp x\<bar> < 2 ^ 30 \<and>
       (\<exists>y\<in>set (cgcl_data c). cgcl_entry c (heat_next_index x) = Inr y \<and> (heat_temp y < temp_max c \<longrightarrow> heat_temp x < heat_temp y)) \<and>
       (\<exists>y\<in>set (cgcl_data c). cgcl_entry c (cool_next_index x) = Inr y \<and> (cool_temp y > temp_min c \<longrightarrow> cool_temp y < cool_temp x))"
    using i y z regularD(4) [OF r] by blast
qed

text \<open>Where heating and cooling lead.\<close>

definition heats_to :: "cgcl_strategy \<Rightarrow> int \<Rightarrow> nat \<Rightarrow> nat \<Rightarrow> bool" where
  "heats_to c temp i j \<longleftrightarrow> i \<le> j \<and> j < length (cgcl_data c) \<and> (\<forall>k\<in>{i..<j}. heat_temp (cgcl_data c ! k) < temp) \<and>
     (temp \<le> heat_temp (cgcl_data c ! j) \<or> j = length (cgcl_data c) - 1)"

definition cools_to :: "cgcl_strategy \<Rightarrow> int \<Rightarrow> nat \<Rightarrow> nat \<Rightarrow> bool" where
  "cools_to c temp i j \<longleftrightarrow>
     (if cool_temp (cgcl_data c ! i) < temp then j = i
      else j \<le> i - 1 \<and> (\<forall>k\<in>{j<..<i}. temp < cool_temp (cgcl_data c ! k)) \<and> (cool_temp (cgcl_data c ! j) \<le> temp \<or> j = 0))"

lemma regular_heats:
  assumes "cgcl_regular c" and "region_index c = int i" and "i < length (cgcl_data c)"
    and "region_temp c < temp" and "\<bar>region_temp c\<bar> < 2 ^ 30" and "\<bar>temp\<bar> < 2 ^ 30"
  shows "\<exists>j. cgcl_loop temp c = Some (Inr (c\<lparr>region_index := int j, region_temp := temp\<rparr>)) \<and> heats_to c temp i j"
  using assms
proof (induction "length (cgcl_data c) - i" arbitrary: c i rule: less_induct)
  case less
  note r = less.prems(1)
  let ?n = "length (cgcl_data c)" and ?x = "cgcl_data c ! i"
  define j where "j = min (i + 1) (?n - 1)"
  have j: "i \<le> j" "j < ?n" "heat_next_index ?x = int j" using less.prems(3) regularD(4) [OF r, of i] by (auto simp: j_def)
  have d: "c_sub temp (region_temp c) = temp - region_temp c" using less.prems(5,6) by (intro c_sub_small)
  have x: "cgcl_entry c (region_index c) = Inr ?x" "cgcl_entry c (int j) = Inr (cgcl_data c ! j)"
    using less.prems(2,3) j by (simp_all add: cgcl_entry_def)
  show ?case
  proof (cases "temp > heat_temp ?x")
    case False
    then have "cgcl_loop temp c = cgcl_loop temp (c\<lparr>region_temp := temp\<rparr>)"
      using d x less.prems(4) by (intro cgcl_loop_round) (simp_all add: cgcl_round_def)
    moreover have "c\<lparr>region_temp := temp\<rparr> = c\<lparr>region_index := int i, region_temp := temp\<rparr>" using less.prems(2) by simp
    ultimately show ?thesis using False less.prems(3) by (intro exI [of _ i]) (simp add: heats_to_def)
  next
    case True
    define t where "t = (if temp > heat_temp (cgcl_data c ! j) \<and> heat_temp (cgcl_data c ! j) < temp_max c then heat_temp (cgcl_data c ! j) else temp)"
    let ?c = "c\<lparr>region_index := int j, region_temp := t\<rparr>"
    have l: "cgcl_loop temp c = cgcl_loop temp ?c"
      using d x j(3) True less.prems(4) by (intro cgcl_loop_round) (simp_all add: cgcl_round_def t_def)
    show ?thesis
    proof (cases "t = temp")
      case False
      then have t: "t < temp" "heat_temp (cgcl_data c ! j) < temp_max c" "\<bar>t\<bar> < 2 ^ 30"
        using regularD(4) [OF r j(2)] by (auto simp: t_def split: if_splits)
      then have i: "j = i + 1" using regularD(2) [OF r] less.prems(3) by (auto simp: j_def min_def split: if_splits)
      then have "?n - j < ?n - i" using j(2) by simp
      then obtain k where "cgcl_loop temp ?c = Some (Inr (c\<lparr>region_index := int k, region_temp := temp\<rparr>))" "heats_to ?c temp j k"
        using less.hyps [of ?c j] r j(2) t less.prems(6) by auto
      then show ?thesis using l True i by (intro exI [of _ k]) (auto simp: heats_to_def Suc_le_eq le_less)
    next
      case True
      have "temp \<le> heat_temp (cgcl_data c ! j) \<or> j = ?n - 1"
      proof (rule disjCI)
        assume "j \<noteq> ?n - 1"
        then have "heat_temp (cgcl_data c ! j) < temp_max c" using regularD(2) [OF r] regular_sorted [OF r, of j "?n - 1"] j(2) by simp
        then show "temp \<le> heat_temp (cgcl_data c ! j)" using True by (simp add: t_def split: if_splits)
      qed
      moreover have "heat_temp (cgcl_data c ! k) < temp" if "i \<le> k" "k < j" for k
      proof -
        have "k = i" using that by (simp add: j_def)
        then show ?thesis using \<open>temp > heat_temp ?x\<close> by simp
      qed
      ultimately have "heats_to c temp i j" using j by (simp add: heats_to_def)
      then show ?thesis using l True by auto
    qed
  qed
qed

lemma regular_cools:
  assumes "cgcl_regular c" and "region_index c = int i" and "i < length (cgcl_data c)"
    and "temp < region_temp c" and "\<bar>region_temp c\<bar> < 2 ^ 30" and "\<bar>temp\<bar> < 2 ^ 30"
  shows "\<exists>j. cgcl_loop temp c = Some (Inr (c\<lparr>region_index := int j, region_temp := temp\<rparr>)) \<and> cools_to c temp i j"
  using assms
proof (induction i arbitrary: c rule: less_induct)
  case (less i)
  note r = less.prems(1)
  let ?x = "cgcl_data c ! i" and ?y = "cgcl_data c ! (i - 1)"
  have j: "cool_next_index ?x = int (i - 1)" using less.prems(3) regularD(4) [OF r, of i] by auto
  have d: "c_sub temp (region_temp c) = temp - region_temp c" using less.prems(5,6) by (intro c_sub_small)
  have x: "cgcl_entry c (region_index c) = Inr ?x" "cgcl_entry c (int (i - 1)) = Inr ?y"
    using less.prems(2,3) by (simp_all add: cgcl_entry_def)
  show ?case
  proof (cases "temp \<le> cool_temp ?x")
    case False
    then have "cgcl_loop temp c = cgcl_loop temp (c\<lparr>region_temp := temp\<rparr>)"
      using d x less.prems(4) by (intro cgcl_loop_round) (simp_all add: cgcl_round_def)
    moreover have "c\<lparr>region_temp := temp\<rparr> = c\<lparr>region_index := int i, region_temp := temp\<rparr>" using less.prems(2) by simp
    ultimately show ?thesis using False by (intro exI [of _ i]) (simp add: cools_to_def)
  next
    case True
    define t where "t = (if temp \<le> cool_temp ?y \<and> cool_temp ?y > temp_min c then cool_temp ?y else temp)"
    let ?c = "c\<lparr>region_index := int (i - 1), region_temp := t\<rparr>"
    have l: "cgcl_loop temp c = cgcl_loop temp ?c"
      using d x j True less.prems(4) by (intro cgcl_loop_round) (simp_all add: cgcl_round_def t_def)
    show ?thesis
    proof (cases "t = temp")
      case False
      then have t: "temp < t" "t = cool_temp ?y" "cool_temp ?y > temp_min c" by (auto simp: t_def split: if_splits)
      then have i: "i - 1 < i" "i - 1 < length (cgcl_data c)" "\<bar>t\<bar> < 2 ^ 30"
        using regularD(3,4) [OF r] less.prems(3) by (cases i; auto)+
      then obtain k where k: "cgcl_loop temp ?c = Some (Inr (c\<lparr>region_index := int k, region_temp := temp\<rparr>))" "cools_to ?c temp (i - 1) k"
        using less.IH [of "i - 1" ?c] r t(1) less.prems(6) by auto
      then have k': "k \<le> i - 1 - 1" "\<forall>m\<in>{k<..<i - 1}. temp < cool_temp (cgcl_data c ! m)" "cool_temp (cgcl_data c ! k) \<le> temp \<or> k = 0"
        using t(1,2) by (simp_all add: cools_to_def)
      have "temp < cool_temp (cgcl_data c ! m)" if "k < m" "m < i" for m
        using that k'(2) t(1,2) by (cases "m = i - 1") simp_all
      with k' True have "cools_to c temp i k" by (simp add: cools_to_def)
      then show ?thesis using l k(1) by auto
    next
      case t: True
      have "cool_temp ?y \<le> temp \<or> i - 1 = 0"
      proof (rule disjCI)
        assume "i - 1 \<noteq> 0"
        then have "temp_min c < cool_temp ?y" using regularD(3) [OF r] regular_sorted [OF r, of 0 "i - 1"] less.prems(3) by simp
        then show "cool_temp ?y \<le> temp" using t by (simp add: t_def split: if_splits)
      qed
      then have "cools_to c temp i (i - 1)" using True by (auto simp: cools_to_def)
      then show ?thesis using l t by auto
    qed
  qed
qed

lemma regular_follows:
  assumes "cgcl_regular c" and "region_index c = int i" and "i < length (cgcl_data c)"
    and "\<bar>region_temp c\<bar> < 2 ^ 30" and "\<bar>temp\<bar> < 2 ^ 30"
  shows "\<exists>j. j < length (cgcl_data c) \<and> cgcl_loop temp c = Some (Inr (c\<lparr>region_index := int j, region_temp := temp\<rparr>)) \<and>
    (region_temp c < temp \<longrightarrow> heats_to c temp i j) \<and> (temp < region_temp c \<longrightarrow> cools_to c temp i j) \<and>
    (temp = region_temp c \<longrightarrow> j = i)"
proof (cases temp "region_temp c" rule: linorder_cases)
  case less
  with regular_cools [OF assms(1-3) this assms(4,5)] obtain j where
    j: "cgcl_loop temp c = Some (Inr (c\<lparr>region_index := int j, region_temp := temp\<rparr>))" "cools_to c temp i j" by blast
  then have "j < length (cgcl_data c)" using assms(3) by (auto simp: cools_to_def split: if_splits)
  then show ?thesis using j less by (intro exI [of _ j]) simp
next
  case equal
  then have "c = c\<lparr>region_index := int i, region_temp := temp\<rparr>" using assms(2) by simp
  with equal assms(3) show ?thesis by (intro exI [of _ i]) simp
next
  case greater
  with regular_heats [OF assms(1-3) this assms(4,5)] obtain j where
    j: "cgcl_loop temp c = Some (Inr (c\<lparr>region_index := int j, region_temp := temp\<rparr>))" "heats_to c temp i j" by blast
  then show ?thesis using greater by (intro exI [of _ j]) (simp add: heats_to_def)
qed

text \<open>A table of three regions as the device tree gives it, and one whose first region leads to itself.\<close>

definition demo_cgcl_buf :: "int \<Rightarrow> bytes" where
  "demo_cgcl_buf next = concat (map (\<lambda>x. le_bytes 4 (word_of_int x :: u32))
     [1, - 100, 350, 6000, next, 0, 330, 400, 4000, 2, 0, 380, 450, 2000, 2, 1])"

definition demo_cgcl :: "int \<Rightarrow> cgcl_strategy" where
  "demo_cgcl next = (case cgcl_strategy_alloc True True (Some (demo_cgcl_buf next)) of Inr (Inr c) \<Rightarrow> c
     | _ \<Rightarrow> \<lparr>cgcl_data = [], temp_min = 0, temp_max = 0, cgcl_temp_type = 0, region_index = 0, region_temp = 0\<rparr>)"

definition demo_cgcl_at :: "int \<Rightarrow> cgcl_strategy" where
  "demo_cgcl_at next = \<lparr>cgcl_data =
     [\<lparr>cool_temp = - 100, heat_temp = 350, curr_data = 6000, heat_next_index = next, cool_next_index = 0\<rparr>,
      \<lparr>cool_temp = 330, heat_temp = 400, curr_data = 4000, heat_next_index = 2, cool_next_index = 0\<rparr>,
      \<lparr>cool_temp = 380, heat_temp = 450, curr_data = 2000, heat_next_index = 2, cool_next_index = 1\<rparr>],
     temp_min = - 100, temp_max = 450, cgcl_temp_type = 1, region_index = 0, region_temp = 0\<rparr>"

lemma demo_cgcl_eq: "demo_cgcl 0 = demo_cgcl_at 0" "demo_cgcl 1 = demo_cgcl_at 1"
  by code_simp+

lemma demo_cgcl_regular: "cgcl_regular (demo_cgcl 1)"
  unfolding demo_cgcl_eq by code_simp

lemma demo_cgcl_good: "cgcl_good (cgcl_data (demo_cgcl 1)) (temp_min (demo_cgcl 1)) (temp_max (demo_cgcl 1)) 1 (demo_cgcl 1)"
proof -
  have "0 \<le> region_index (demo_cgcl 1) \<and> region_index (demo_cgcl 1) < int (length (cgcl_data (demo_cgcl 1))) \<and>
    \<bar>region_temp (demo_cgcl 1)\<bar> < 2 ^ 30 \<and> cgcl_temp_type (demo_cgcl 1) = 1" unfolding demo_cgcl_eq by code_simp
  then show ?thesis using regular_sound [OF demo_cgcl_regular] by (simp add: cgcl_good_def)
qed

section \<open>Properties\<close>

text \<open>C21: With a sound table every call returns, however the temperature jumps, and the current is one of the
  table; the region stays inside.\<close>

theorem cgcl_always_returns:
  assumes "cgcl_good table lo hi tt c" and "\<forall>x\<in>set cs. plausible_temp False tt (call_env x)"
  shows "\<exists>rs c'. run_strategy cgcl_strategy_init cgcl_call cs c = Some (rs, c') \<and>
    0 \<le> region_index c' \<and> region_index c' < int (length table) \<and> (\<forall>x. Inr x \<in> set rs \<longrightarrow> x \<in> curr_data ` set table)"
  using cgcl.run_fine [OF assms] by (auto simp: cgcl_good_def)

theorem cgcl_always_returns_witness:
  "\<exists>c'. run_strategy cgcl_strategy_init cgcl_call [Call_init (demo_measured 50 300 3800 0 250 0), Call_get (demo_measured 50 420 3800 0 250 0)] (demo_cgcl 1)
     = Some ([Inr 2000], c')"
proof -
  let ?cs = "[Call_init (demo_measured 50 300 3800 0 250 0), Call_get (demo_measured 50 420 3800 0 250 0)]"
  have p: "\<forall>x\<in>set ?cs. plausible_temp False 1 (call_env x)" by code_simp
  have "map_option fst (run_strategy cgcl_strategy_init cgcl_call ?cs (demo_cgcl 1)) = Some [Inr 2000]" unfolding demo_cgcl_eq by code_simp
  with cgcl_always_returns [OF demo_cgcl_good p] show ?thesis by auto
qed

text \<open>C22: With a regular table a rising temperature leads to the first region from the present one on whose upper
  threshold it does not exceed, or to the last. A falling one leaves the region only at its lower
  threshold, and leads to the next region below whose lower threshold it has reached, or to the first.\<close>

theorem cgcl_follows_temperature:
  assumes "cgcl_regular c" and "region_index c = int i" and "i < length (cgcl_data c)"
    and "\<bar>region_temp c\<bar> < 2 ^ 30" and "\<bar>temp\<bar> < 2 ^ 30"
  shows "\<exists>j. cgcl_loop temp c = Some (Inr (c\<lparr>region_index := int j, region_temp := temp\<rparr>)) \<and>
    (region_temp c < temp \<longrightarrow> heats_to c temp i j) \<and> (temp < region_temp c \<longrightarrow> cools_to c temp i j) \<and>
    (temp = region_temp c \<longrightarrow> j = i)"
  using regular_follows [OF assms] by blast

theorem cgcl_follows_temperature_witness:
  "\<exists>j. cgcl_loop 420 (demo_cgcl 1) = Some (Inr ((demo_cgcl 1)\<lparr>region_index := int j, region_temp := 420\<rparr>)) \<and> heats_to (demo_cgcl 1) 420 0 j"
proof -
  have "region_index (demo_cgcl 1) = int 0 \<and> 0 < length (cgcl_data (demo_cgcl 1)) \<and> region_temp (demo_cgcl 1) = 0" unfolding demo_cgcl_eq by code_simp
  then show ?thesis using cgcl_follows_temperature [OF demo_cgcl_regular, of 0 420] by auto
qed

text \<open>A table in which a region leads to itself when it gets warmer is accepted, and makes the loop run
  forever once the temperature exceeds the threshold of this region.\<close>

theorem cgcl_self_link_hangs:
  assumes "cgcl_entry c (region_index c) = Inr x" and "heat_next_index x = region_index c"
    and "heat_temp x < temp_max c" and "heat_temp x < temp" and "region_temp c < temp"
    and "\<bar>heat_temp x\<bar> < 2 ^ 30" and "\<bar>region_temp c\<bar> < 2 ^ 30" and "\<bar>temp\<bar> < 2 ^ 30"
  shows "cgcl_loop temp c = None"
proof -
  let ?stuck = "\<lambda>t c. cgcl_entry c (region_index c) = Inr x \<and> heat_next_index x = region_index c \<and> heat_temp x < temp_max c \<and>
    heat_temp x < t \<and> region_temp c < t \<and> \<bar>heat_temp x\<bar> < 2 ^ 30 \<and> \<bar>region_temp c\<bar> < 2 ^ 30 \<and> \<bar>t\<bar> < 2 ^ 30"
  have "\<not> ?stuck t c" if "cgcl_loop t c = Some r" for t c r
  proof (rule cgcl_loop.raw_induct [where P = "\<lambda>t c r. \<not> ?stuck t c", OF _ that])
    fix f t c r
    assume ih: "\<And>t c r. f t c = Some r \<Longrightarrow> \<not> ?stuck t c"
      and eq: "(if c_sub t (region_temp c) = 0 then Some (Inr c)
        else case cgcl_round t c of Inl e \<Rightarrow> Some (Inl e) | Inr c' \<Rightarrow> f t c') = Some r"
    show "\<not> ?stuck t c"
    proof
      assume s: "?stuck t c"
      then have "c_sub t (region_temp c) = t - region_temp c" by (intro c_sub_small) simp_all
      with s have "f t (c\<lparr>region_index := region_index c, region_temp := heat_temp x\<rparr>) = Some r"
        using eq by (simp add: cgcl_round_def)
      from ih [OF this] s show False by simp
    qed
  qed
  then show ?thesis using assms by (cases "cgcl_loop temp c") auto
qed

theorem cgcl_self_link_hangs_witness: "cgcl_loop 420 (demo_cgcl 0) = None"
proof -
  let ?c = "demo_cgcl 0" and ?x = "cgcl_data (demo_cgcl 0) ! 0"
  have "cgcl_entry ?c (region_index ?c) = Inr ?x \<and> heat_next_index ?x = region_index ?c \<and> heat_temp ?x < temp_max ?c \<and>
      heat_temp ?x < 420 \<and> region_temp ?c < 420 \<and> \<bar>heat_temp ?x\<bar> < 2 ^ 30 \<and> \<bar>region_temp ?c\<bar> < 2 ^ 30 \<and>
      \<bar>420 :: int\<bar> < 2 ^ 30" unfolding demo_cgcl_eq by code_simp
  then show ?thesis by (elim conjE) (rule cgcl_self_link_hangs)
qed

end
