(* ===== verification/Chg_Strategy_Topics.thy ===== *)
theory Chg_Strategy_Topics
  imports Chg_Strategy_Cgcl
begin

text \<open>
  The message service and the strategies together: what a driver publishes is what the strategies read, and so
  what they decide on.
\<close>

lemma refresh_item_fields [simp]:
  "item_data (refresh_item d b it) = d" "desc (refresh_item d b it) = desc it" "disabled (refresh_item d b it) = disabled it"
  by (auto simp: refresh_item_def Let_def)

text \<open>A message without a payload makes the topic ask its driver for the value of the item, and store it, whether the
  message is then sent or found not worth it.\<close>

lemma publish_stores:
  assumes "oplus_mms_get_item m (m_item_id msg) = Some k" and "upd (desc (item_table m ! k)) = Some f"
    and "m_type msg \<noteq> MSG_TYPE_TIMER" and "m_payload msg = MSG_LOAD_NULL"
    and "oplus_mms_publish_msg (Some m) (Some msg) = (rc, Some t)"
  shows "item_table t = (item_table m)[k := refresh_item (f (drv_data m)) True (item_table m ! k)]"
    and "mms_name t = mms_name m" and "drv_data t = drv_data m"
  using assms
  by (auto simp: oplus_mms_publish_msg_def do_oplus_mms_publish_msg_def publish_update_def oplus_mms_item_update_def
    oplus_mms_notify_caller_def run_callbacks_def kfree_msg_def set_item_def enqueue_msg_def
    stay_awake_def queue_msg_work_def Let_def split: prod.splits if_splits)

text \<open>What is stored is read, and so it is if the topic asks its driver again at the reading.\<close>

lemma stored_is_read:
  assumes "oplus_mms_get_item m iid = Some k" and "upd (desc (item_table m ! k)) = Some f" and "\<not> disabled (item_table m ! k)"
    and "item_table t = (item_table m)[k := refresh_item (f (drv_data m)) True (item_table m ! k)]" and "drv_data t = drv_data m"
  shows "fst (oplus_mms_get_item_data (Some t) iid True False) = Inr (f (drv_data m))"
proof -
  have k: "k < length (item_table m)" using get_item_less [OF assms(1)] by simp
  then have d: "desc (item_table t ! i) = desc (item_table m ! i)" for i by (cases "i = k") (simp_all add: assms(4))
  have g: "oplus_mms_get_item t iid = Some k" using assms(1) d by (simp add: oplus_mms_get_item_def assms(4))
  have "upd (desc (item_table t ! k)) = Some f" using d assms(2) by simp
  then have "item_data (item_table (snd (oplus_mms_item_update t iid False)) ! k) = f (drv_data m)"
    using g k assms(5) by (simp add: oplus_mms_item_update_def set_item_def Let_def assms(4))
  then show ?thesis using g k assms(3) by (simp add: oplus_mms_get_item_data_def Let_def assms(4))
qed

lemma find_device_names:
  assumes "map mms_name (class_devices c) = map mms_name (class_devices d)"
  shows "find_device n c = find_device n d"
proof -
  have l: "length (class_devices c) = length (class_devices d)" using assms by (metis length_map)
  have "mms_name (class_devices c ! i) = mms_name (class_devices d ! i)" if "i < length (class_devices d)" for i
    using assms l that by (metis nth_map)
  then show ?thesis unfolding find_device_def l by (intro find_cong) auto
qed

lemma read_use_cnt: "fst (oplus_mms_get_item_data (Some (t\<lparr>use_cnt := u\<rparr>)) iid True False) = fst (oplus_mms_get_item_data (Some t) iid True False)"
proof -
  have g: "oplus_mms_get_item (t\<lparr>use_cnt := u\<rparr>) iid = oplus_mms_get_item t iid" by (simp add: oplus_mms_get_item_def)
  have "item_table (snd (oplus_mms_item_update (t\<lparr>use_cnt := u\<rparr>) iid False)) = item_table (snd (oplus_mms_item_update t iid False))"
    by (simp add: oplus_mms_item_update_def g set_item_def Let_def split: option.split)
  then show ?thesis by (simp add: oplus_mms_get_item_data_def g Let_def split: option.split)
qed

lemma fst_read_item:
  "fst (read_item i iid u e) = map_sum (\<lambda>rc. rc) intval (fst (oplus_mms_get_item_data (Some (class_devices (topics e) ! i)) iid True u))"
  by (simp add: read_item_def split: prod.split)

lemma read_topic:
  assumes "find_device name (topics e) = Some i" and "p = None \<or> p = Some i"
    and "topic_available name p (topics e) = (q, c)"
  shows "fst (read_from (q, e\<lparr>topics := c\<rparr>) iid False) =
    map_sum (\<lambda>rc. rc) intval (fst (oplus_mms_get_item_data (Some (class_devices (topics e) ! i)) iid True False))"
proof -
  let ?t = "class_devices (topics e) ! i"
  have i: "i < length (class_devices (topics e))" using find_device_Some [OF assms(1)] by simp
  have "q = Some i \<and> (\<exists>u. class_devices c ! i = ?t\<lparr>use_cnt := u\<rparr>)"
  proof (cases p)
    case None
    then have "q = Some i" "c = set_device i (?t\<lparr>use_cnt := use_cnt ?t + 1\<rparr>) (topics e)"
      using assms(1,3) by (auto simp: topic_available_def oplus_mms_get_by_name_def)
    then show ?thesis using i by (auto simp: set_device_def)
  next
    case (Some j)
    then have "q = Some i" "c = topics e" using assms(2,3) by (auto simp: topic_available_def)
    then show ?thesis by (intro conjI exI [of _ "use_cnt ?t"]) simp_all
  qed
  then obtain u where "q = Some i" "class_devices c ! i = ?t\<lparr>use_cnt := u\<rparr>" by blast
  then show ?thesis using read_use_cnt [of u "class_devices (topics e) ! i" iid] by (simp add: read_from_def fst_read_item)
qed

text \<open>What the driver of a topic of the class reports when a message for the item is published is what is read from there.\<close>

lemma published_is_read:
  assumes "find_device name c = Some i" and m: "m = class_devices c ! i" and "oplus_mms_get_item m iid = Some k"
    and "upd (desc (item_table m ! k)) = Some f" and "\<not> disabled (item_table m ! k)"
    and "oplus_mms_alloc_msg (Some a) MSG_TYPE_ITEM prio iid = Some msg"
    and "oplus_mms_publish_msg (Some m) (Some msg) = (rc, Some t)"
    and "topics e = set_device i t c" and "p = None \<or> p = Some i" and "topic_available name p (topics e) = (q, c')"
  shows "fst (read_from (q, e\<lparr>topics := c'\<rparr>) iid False) = Inr (intval (f (drv_data m)))"
proof -
  have msg: "m_item_id msg = iid" "m_payload msg = MSG_LOAD_NULL" "m_type msg \<noteq> MSG_TYPE_TIMER"
    using assms(6) by (auto simp: oplus_mms_alloc_msg_def)
  have i: "i < length (class_devices c)" using find_device_Some [OF assms(1)] by simp
  have "oplus_mms_get_item m (m_item_id msg) = Some k" using assms(3) msg(1) by simp
  note s = publish_stores [OF this assms(4) msg(3,2) assms(7)]
  have "map mms_name (class_devices (topics e)) = map mms_name (class_devices c)"
    using assms(8) s(2) m by (simp add: set_device_def map_update) (metis list_update_id map_update)
  then have f: "find_device name (topics e) = Some i" using find_device_names assms(1) by metis
  have t: "class_devices (topics e) ! i = t" using assms(8) i by (simp add: set_device_def)
  show ?thesis
    using read_topic [OF f assms(9,10)] stored_is_read [OF assms(3,4,5) s(1,3)] by (simp add: t)
qed

text \<open>C20: From the driver to the limit of the current, the way the driver of the common topic goes: it publishes a message
  without a payload for the temperature of the shell, the topic asks it for the value, and when the strategy is asked
  next, the current it returns is that of the region this temperature leads to: up the table if it got warmer, down if it
  got colder, the same region if it did not change. This is for a regular table, an item that is not disabled, and a
  strategy for the temperature of the shell with a temperature it has seen before; whether the message is found worth
  sending, and whether the topic asks again at every reading, does not matter.\<close>

theorem published_temperature_limits_current:
  assumes "find_device ''common'' c = Some i" and "m = class_devices c ! i"
    and "oplus_mms_get_item m COMM_ITEM_SHELL_TEMP = Some k" and "upd (desc (item_table m ! k)) = Some f"
    and "\<not> disabled (item_table m ! k)"
    and "oplus_mms_alloc_msg (Some a) MSG_TYPE_ITEM prio COMM_ITEM_SHELL_TEMP = Some msg"
    and "oplus_mms_publish_msg (Some m) (Some msg) = (rc, Some t)"
    and "topics e = set_device i t c" and "comm_topic e = None \<or> comm_topic e = Some i"
    and "temp = intval (f (drv_data m))" and "\<bar>temp\<bar> < 2 ^ 30"
    and "cgcl_regular s" and "cgcl_temp_type s = STRATEGY_USE_SHELL_TEMP" and "region_index s = int n" and "n < length (cgcl_data s)"
    and "\<bar>region_temp s\<bar> < 2 ^ 30"
  shows "\<exists>j e'. cgcl_strategy_get_data s e =
      Some (Inr (Inr (curr_data (cgcl_data s ! j)), s\<lparr>region_index := int j, region_temp := temp\<rparr>, e')) \<and>
    (region_temp s < temp \<longrightarrow> heats_to s temp n j) \<and> (temp < region_temp s \<longrightarrow> cools_to s temp n j) \<and>
    (temp = region_temp s \<longrightarrow> j = n)"
proof -
  obtain q c' where q: "topic_available ''common'' (comm_topic e) (topics e) = (q, c')" by fastforce
  have "fst (read_from (q, e\<lparr>topics := c'\<rparr>) COMM_ITEM_SHELL_TEMP False) = Inr temp"
    using published_is_read [OF assms(1-9) q] assms(10) by simp
  then have "fst (read_from (q, e\<lparr>comm_topic := q, topics := c'\<rparr>) COMM_ITEM_SHELL_TEMP False) = Inr temp"
    by (simp add: read_from_def fst_read_item split: option.splits)
  then obtain e' where r: "cgcl_strategy_get_temp s e = (Inr temp, e')"
    using q assms(13) by (cases "cgcl_strategy_get_temp s e")
      (simp add: cgcl_strategy_get_temp_def strategy_get_temp_def STRATEGY_USE_SHELL_TEMP_def STRATEGY_USE_BATT_TEMP_def is_comm_topic_available_def)
  have "\<exists>j. j < length (cgcl_data s) \<and> cgcl_loop temp s = Some (Inr (s\<lparr>region_index := int j, region_temp := temp\<rparr>)) \<and>
    (region_temp s < temp \<longrightarrow> heats_to s temp n j) \<and> (temp < region_temp s \<longrightarrow> cools_to s temp n j) \<and> (temp = region_temp s \<longrightarrow> j = n)"
    by (rule regular_follows [OF assms(12,14,15,16,11)])
  then obtain j where "j < length (cgcl_data s)" "cgcl_loop temp s = Some (Inr (s\<lparr>region_index := int j, region_temp := temp\<rparr>))"
    and j: "region_temp s < temp \<longrightarrow> heats_to s temp n j" "temp < region_temp s \<longrightarrow> cools_to s temp n j" "temp = region_temp s \<longrightarrow> j = n"
    by blast
  then have "cgcl_strategy_get_data s e = Some (Inr (Inr (curr_data (cgcl_data s ! j)), s\<lparr>region_index := int j, region_temp := temp\<rparr>, e'))"
    using r by (simp add: cgcl_strategy_get_data_def cgcl_entry_def)
  then show ?thesis using j by blast
qed

text \<open>A common topic whose driver holds the temperature of the shell, 42 degrees, while the topic still has 30.\<close>

definition demo_comm :: "int oplus_mms" where
  "demo_comm = new_topic \<lparr>d_name = Some ''common'', d_items =
     [\<lparr>desc = \<lparr>item_id = COMM_ITEM_SHELL_TEMP, str_data = False, up_thr_enable = False, down_thr_enable = False, dead_thr_enable = False,
          update_thr_up = 0, update_thr_down = 0, dead_zone_thr = 0, upd = Some (\<lambda>temp. set_intval temp 0)\<rparr>,
        updated = False, disabled = False, item_data = set_intval 300 0, pre_data = 0\<rparr>], d_update_interval = 0, d_update = True\<rparr> 420 0"

definition demo_temp_msg :: mms_msg where
  "demo_temp_msg = the (oplus_mms_alloc_msg (Some 1) MSG_TYPE_ITEM MSG_PRIO_HIGH COMM_ITEM_SHELL_TEMP)"

definition demo_topics :: "(int, nat) mms_class" where
  "demo_topics = \<lparr>class_devices = [demo_comm], wait_list = [], called = []\<rparr>"

definition demo_after :: "(int, nat) strategy_env" where
  "demo_after = \<lparr>topics = set_device 0 (the (snd (oplus_mms_publish_msg (Some demo_comm) (Some demo_temp_msg)))) demo_topics,
     jiffies = 0, comm_topic = None, gauge_topic = None, main_gauge_topic = None, sub_gauge_topic = None\<rparr>"

theorem published_temperature_limits_current_witness:
  "\<exists>j e'. cgcl_strategy_get_data (demo_cgcl 1) demo_after =
     Some (Inr (Inr (curr_data (cgcl_data (demo_cgcl 1) ! j)), (demo_cgcl 1)\<lparr>region_index := int j, region_temp := 420\<rparr>, e')) \<and>
     heats_to (demo_cgcl 1) 420 0 j"
proof -
  let ?f = "\<lambda>temp. set_intval temp 0"
  have g: "find_device ''common'' demo_topics = Some 0" "oplus_mms_get_item demo_comm COMM_ITEM_SHELL_TEMP = Some 0"
    "\<not> disabled (item_table demo_comm ! 0)" by code_simp+
  have d: "demo_comm = class_devices demo_topics ! 0" by (simp add: demo_topics_def)
  have u: "upd (desc (item_table demo_comm ! 0)) = Some ?f" "drv_data demo_comm = 420" by (simp_all add: demo_comm_def new_topic_def)
  have c: "cgcl_temp_type (demo_cgcl 1) = STRATEGY_USE_SHELL_TEMP \<and> region_index (demo_cgcl 1) = int 0 \<and> 0 < length (cgcl_data (demo_cgcl 1)) \<and>
      region_temp (demo_cgcl 1) < 420 \<and> \<bar>region_temp (demo_cgcl 1)\<bar> < 2 ^ 30" unfolding demo_cgcl_eq by code_simp
  have a: "oplus_mms_alloc_msg (Some 1) MSG_TYPE_ITEM MSG_PRIO_HIGH COMM_ITEM_SHELL_TEMP = Some demo_temp_msg"
    by (simp add: demo_temp_msg_def oplus_mms_alloc_msg_def)
  obtain rc t where p: "oplus_mms_publish_msg (Some demo_comm) (Some demo_temp_msg) = (rc, Some t)"
    by (cases "do_oplus_mms_publish_msg demo_temp_msg demo_comm") (simp add: oplus_mms_publish_msg_def)
  then have e: "topics demo_after = set_device 0 t demo_topics" "comm_topic demo_after = None" by (simp_all add: demo_after_def)
  have n: "420 = intval (?f (drv_data demo_comm))" unfolding u(2) by code_simp
  have "\<bar>420 :: int\<bar> < 2 ^ 30" by simp
  from published_temperature_limits_current [OF g(1) d g(2) u(1) g(3) a p e(1) disjI1 [OF e(2)] n this demo_cgcl_regular, of 0] c
  show ?thesis by blast
qed

end
