(* ===== verification/Chg_Base64.thy ===== *)
theory Chg_Base64
  imports Ufcs_Prelude
begin

unbundle bit_operations_syntax

text \<open>
  The text form in which the battery smoothing reports its records (\<^verbatim>\<open>base64_encode\<close> of
  \<^verbatim>\<open>strategy/oplus_strategy_battery_smooth.c\<close>). The code shifts bytes through a 32-bit accumulator and takes six
  bits off whenever it can; it is shown to be the encoding of RFC 4648, which a decoder inverts.
\<close>

section \<open>The encoder\<close>

definition base64_table :: string where
  "base64_table = ''ABCDEFGHIJKLMNOPQRSTUVWXYZabcdefghijklmnopqrstuvwxyz0123456789+/''"

text \<open>The loop that takes sextets off the accumulator.\<close>

function emit_sextets :: "u32 \<Rightarrow> int \<Rightarrow> string \<Rightarrow> int \<times> string" where
  "emit_sextets ac bits out =
     (let bits' = bits - 6; out' = out @ [base64_table ! unat (drop_bit (nat bits') ac AND 0x3f)] in
      if bits' \<ge> 6 then emit_sextets ac bits' out' else (bits', out'))"
  by auto
termination
  by (relation "measure (\<lambda>(ac, bits, out). nat bits)") auto

declare emit_sextets.simps [simp del]

definition shift_byte :: "u32 \<Rightarrow> u8 \<Rightarrow> u32" where
  "shift_byte ac b = push_bit 8 ac OR ucast b"

definition base64_byte :: "u8 \<Rightarrow> u32 \<times> int \<times> string \<Rightarrow> u32 \<times> int \<times> string" where
  "base64_byte b = (\<lambda>(ac, bits, out).
     let ac' = shift_byte ac b in (ac', emit_sextets ac' (bits + 8) out))"

function pad_base64 :: "int \<Rightarrow> string \<Rightarrow> string" where
  "pad_base64 bits out = (if bits < 0 then pad_base64 (bits + 2) (out @ ''='') else out)"
  by auto
termination
  by (relation "measure (\<lambda>(bits, out). nat (- bits))") auto

declare pad_base64.simps [simp del]

definition base64_encode :: "bytes \<Rightarrow> string" where
  "base64_encode src =
     (let (ac, bits, out) = fold base64_byte src (0, 0, []) in
      if bits \<noteq> 0 then pad_base64 (bits - 6) (out @ [base64_table ! unat (push_bit (nat (6 - bits)) ac AND 0x3f)])
      else pad_base64 bits out)"

text \<open>The macros for the sizes of the buffers.\<close>

definition BASE64_ENCODE_LEN :: "nat \<Rightarrow> nat" where
  "BASE64_ENCODE_LEN raw_len = (raw_len + 2) div 3 * 4 + 1"

definition BASE64_DECODE_LEN :: "nat \<Rightarrow> nat" where
  "BASE64_DECODE_LEN encoded_len = encoded_len * 3 div 4"

section \<open>The standard\<close>

fun rfc4648 :: "bytes \<Rightarrow> string" where
  "rfc4648 [] = []"
| "rfc4648 [a] = [base64_table ! (unat a div 4), base64_table ! (unat a mod 4 * 16), CHR ''='', CHR ''='']"
| "rfc4648 [a, b] =
     [base64_table ! (unat a div 4), base64_table ! (unat a mod 4 * 16 + unat b div 16),
      base64_table ! (unat b mod 16 * 4), CHR ''='']"
| "rfc4648 (a # b # c # bs) =
     [base64_table ! (unat a div 4), base64_table ! (unat a mod 4 * 16 + unat b div 16),
      base64_table ! (unat b mod 16 * 4 + unat c div 64), base64_table ! (unat c mod 64)] @ rfc4648 bs"

definition sextet_of :: "char \<Rightarrow> nat" where
  "sextet_of c = length (takeWhile (\<lambda>x. x \<noteq> c) base64_table)"

fun rfc4648_decode :: "string \<Rightarrow> bytes option" where
  "rfc4648_decode [] = Some []"
| "rfc4648_decode (p # q # r # s # cs) =
     (let a = of_nat (sextet_of p * 4 + sextet_of q div 16);
          b = of_nat (sextet_of q mod 16 * 16 + sextet_of r div 4);
          c = of_nat (sextet_of r mod 4 * 64 + sextet_of s) in
      if s = CHR ''='' then if cs \<noteq> [] then None else if r = CHR ''='' then Some [a] else Some [a, b]
      else map_option (\<lambda>bs. a # b # c # bs) (rfc4648_decode cs))"
| "rfc4648_decode _ = None"

section \<open>The encoder follows the standard\<close>

lemma unat_u8: "unat (b :: u8) < 256"
  using unsigned_less [of b, where ?'a = nat] by simp

lemma sextet_value: "unat (drop_bit k (ac :: u32) AND 0x3f) = unat ac div 2 ^ k mod 64"
proof -
  have "drop_bit k ac AND 0x3f = take_bit 6 (drop_bit k ac)" by (simp add: take_bit_eq_mask mask_eq_exp_minus_1)
  then show ?thesis using unsigned_less [of ac, where ?'a = nat]
    by (simp only: unsigned_take_bit_eq unsigned_drop_bit_eq) (simp add: drop_bit_eq_div take_bit_eq_mod)
qed

lemma accumulate: "unat (shift_byte ac b) = (unat ac * 256 + unat b) mod 2 ^ 32"
proof -
  have "push_bit 8 ac OR ucast b = push_bit 8 ac + ucast b"
    by (rule sym, rule disjunctive_add) (auto simp: bit_simps dest: bit_imp_le_length)
  also have "\<dots> = of_nat (unat ac * 256 + unat b)"
    by (simp add: push_bit_eq_mult)
  finally have e: "push_bit 8 ac OR ucast b = of_nat (unat ac * 256 + unat b)" .
  show ?thesis unfolding shift_byte_def e unat_of_nat by simp
qed

text \<open>What a sextet is depends only on the bits below it.\<close>

lemma mod_div_mod: "m div 2 ^ k mod 64 = m mod 2 ^ (k + 6) div 2 ^ k mod (64 :: nat)"
proof -
  have "m mod (2 ^ k * 64) = 2 ^ k * (m div 2 ^ k mod 64) + m mod 2 ^ k" by (rule mod_mult2_eq)
  then show ?thesis by (simp add: power_add)
qed

lemma emitted:
  "emit_sextets ac 8 out = (2, out @ [base64_table ! (unat ac div 4 mod 64)])"
  "emit_sextets ac 10 out = (4, out @ [base64_table ! (unat ac div 16 mod 64)])"
  "emit_sextets ac 12 out = (0, out @ [base64_table ! (unat ac div 64 mod 64), base64_table ! (unat ac mod 64)])"
  using sextet_value [of 2 ac] sextet_value [of 4 ac] sextet_value [of 6 ac] sextet_value [of 0 ac]
  by (simp_all add: emit_sextets.simps [of _ 8] emit_sextets.simps [of _ 10] emit_sextets.simps [of _ 12] emit_sextets.simps [of _ 6])

text \<open>Three bytes: the accumulator holds the last ones in its lower bits.\<close>

lemma shift_in: "b < 256 \<Longrightarrow> (w * 256 + b) mod (256 * n) = w mod n * 256 + (b :: nat)"
  using mod_mult2_eq [of "w * 256 + b" 256 n] by simp

lemma accumulate_mod:
  "n dvd 2 ^ 24 \<Longrightarrow> unat (shift_byte ac b) mod (256 * n) = unat ac mod n * 256 + unat b"
proof -
  assume "n dvd 2 ^ 24"
  then have "256 * n dvd 256 * 2 ^ 24" by (rule mult_dvd_mono [OF dvd_refl])
  then have d: "256 * n dvd (2 :: nat) ^ 32" by simp
  show ?thesis unfolding accumulate mod_mod_cancel [OF d] by (rule shift_in [OF unat_u8])
qed

lemma first_sextet: "w1 = shift_byte ac a \<Longrightarrow> unat (w1 :: u32) div 4 mod 64 = unat (a :: u8) div 4"
  using accumulate_mod [of 1 ac a] mod_div_mod [of "unat w1" 2] unat_u8 [of a] by simp

lemma second_sextet:
  assumes "w1 = shift_byte ac a" and "w2 = shift_byte w1 b"
  shows "unat (w2 :: u32) div 16 mod 64 = unat (a :: u8) mod 4 * 16 + unat (b :: u8) div 16"
proof -
  have "unat w1 mod 4 = unat a mod 4"
    using mod_mod_cancel [of 4 256 "unat w1"] accumulate_mod [of 1 ac a] assms(1) by simp
  then have "unat w2 mod 1024 = unat a mod 4 * 256 + unat b" using accumulate_mod [of 4 w1 b] assms(2) by simp
  then have "unat w2 div 16 mod 64 = (unat a mod 4 * 256 + unat b) div 16 mod 64" using mod_div_mod [of "unat w2" 4] by simp
  also have "(unat a mod 4 * 256 + unat b) div 16 = unat a mod 4 * 16 + unat b div 16" by simp
  finally show ?thesis using unat_u8 [of b] by simp
qed

lemma third_sextet:
  assumes "w2 = shift_byte w1 b" and "w3 = shift_byte w2 c"
  shows "unat (w3 :: u32) div 64 mod 64 = unat (b :: u8) mod 16 * 4 + unat (c :: u8) div 64"
proof -
  have "unat w2 mod 16 = unat b mod 16"
    using mod_mod_cancel [of 16 256 "unat w2"] accumulate_mod [of 1 w1 b] assms(1) by simp
  then have "unat w3 mod 4096 = unat b mod 16 * 256 + unat c" using accumulate_mod [of 16 w2 c] assms(2) by simp
  then have "unat w3 div 64 mod 64 = (unat b mod 16 * 256 + unat c) div 64 mod 64" using mod_div_mod [of "unat w3" 6] by simp
  also have "(unat b mod 16 * 256 + unat c) div 64 = unat b mod 16 * 4 + unat c div 64" by simp
  finally show ?thesis using unat_u8 [of c] by simp
qed

lemma last_sextet: "w = shift_byte ac c \<Longrightarrow> unat (w :: u32) mod 2 ^ k = unat (c :: u8) mod 2 ^ k" if "k \<le> 8" for k
proof -
  assume w: "w = shift_byte ac c"
  have "(2 :: nat) ^ k dvd 256" using le_imp_power_dvd [OF that, of "2 :: nat"] by simp
  then show ?thesis using mod_mod_cancel [of "2 ^ k" 256 "unat w"] accumulate_mod [of 1 ac c] w by simp
qed

lemma shifted_sextet: "unat (push_bit k (w :: u32) AND 0x3f) = unat w * 2 ^ k mod 64"
proof -
  have "push_bit k w AND 0x3f = take_bit 6 (push_bit k w)" by (simp add: take_bit_eq_mask mask_eq_exp_minus_1)
  also have "\<dots> = take_bit 6 (of_nat (unat w * 2 ^ k))" by (simp add: push_bit_eq_mult)
  finally have e: "push_bit k w AND 0x3f = take_bit 6 (of_nat (unat w * 2 ^ k))" .
  show ?thesis unfolding e
    by (simp only: unsigned_take_bit_eq unat_of_nat) (simp add: take_bit_eq_mod mod_mod_cancel)
qed

lemma one_left: "w1 = shift_byte ac a \<Longrightarrow> unat (push_bit 4 (w1 :: u32) AND 0x3f) = unat (a :: u8) mod 4 * 16"
  using last_sextet [of 2 w1 ac a] mult_mod_right [of 16 "unat w1" 4] by (simp add: shifted_sextet mult.commute)

lemma two_left: "w2 = shift_byte w1 b \<Longrightarrow> unat (push_bit 2 (w2 :: u32) AND 0x3f) = unat (b :: u8) mod 16 * 4"
  using last_sextet [of 4 w2 w1 b] mult_mod_right [of 4 "unat w2" 16] by (simp add: shifted_sextet mult.commute)

definition finish_base64 :: "u32 \<times> int \<times> string \<Rightarrow> string" where
  "finish_base64 = (\<lambda>(ac, bits, out).
     if bits \<noteq> 0 then pad_base64 (bits - 6) (out @ [base64_table ! unat (push_bit (nat (6 - bits)) ac AND 0x3f)])
     else pad_base64 bits out)"

lemma padding:
  "pad_base64 (- 4) out = out @ ''==''" "pad_base64 (- 2) out = out @ ''=''" "pad_base64 0 out = out"
  by (simp_all add: pad_base64.simps)

lemma base64_step:
  "base64_byte a (ac, 0, out) =
     (shift_byte ac a, 2, out @ [base64_table ! (unat a div 4)])"
  "w1 = shift_byte ac a \<Longrightarrow> base64_byte b (w1, 2, out) =
     (shift_byte w1 b, 4, out @ [base64_table ! (unat a mod 4 * 16 + unat b div 16)])"
  "w2 = shift_byte w1 b \<Longrightarrow> base64_byte c (w2, 4, out) =
     (shift_byte w2 c, 0, out @ [base64_table ! (unat b mod 16 * 4 + unat c div 64), base64_table ! (unat c mod 64)])"
  using last_sextet [of 6 "shift_byte w2 c" w2 c]
  by (simp_all only: base64_byte_def Let_def case_prod_conv)
    (simp_all add: emitted first_sextet [OF refl] second_sextet [OF _ refl] third_sextet [OF _ refl])

lemma finish_rfc4648: "finish_base64 (fold base64_byte bs (ac, 0, out)) = out @ rfc4648 bs"
proof (induction bs arbitrary: ac out rule: rfc4648.induct)
  case (2 a)
  then show ?case by (simp add: base64_step finish_base64_def padding one_left [OF refl])
next
  case (3 a b)
  then show ?case by (simp add: base64_step(1) base64_step(2) [OF refl] finish_base64_def padding two_left [OF refl])
next
  case (4 a b c bs)
  then show ?case by (simp add: base64_step(1) base64_step(2) [OF refl] base64_step(3) [OF refl])
qed (simp add: finish_base64_def padding)

lemma encode_rfc4648: "base64_encode bs = rfc4648 bs"
  using finish_rfc4648 [of bs 0 "[]"] by (simp add: base64_encode_def finish_base64_def)

lemma length_rfc4648: "length (rfc4648 bs) = (length bs + 2) div 3 * 4"
  by (induction bs rule: rfc4648.induct) (simp_all, presburger)

lemma length_encode: "length (base64_encode bs) = (length bs + 2) div 3 * 4"
  by (simp add: encode_rfc4648 length_rfc4648)

section \<open>Decoding\<close>

lemma sextet_of_nth:
  assumes "distinct xs" and "n < length xs"
  shows "length (takeWhile (\<lambda>x. x \<noteq> xs ! n) xs) = n"
proof -
  have "takeWhile (\<lambda>x. x \<noteq> xs ! n) xs = take n xs"
    using assms by (intro takeWhile_eq_take_P_nth) (auto simp: nth_eq_iff_index_eq)
  then show ?thesis using assms(2) by simp
qed

lemma table_distinct: "distinct base64_table" and table_length: "length base64_table = 64" and pad_not_in_table: "CHR ''='' \<notin> set base64_table"
  by (simp_all add: base64_table_def)

lemma sextet_of_table: "n < 64 \<Longrightarrow> sextet_of (base64_table ! n) = n"
  by (simp add: sextet_of_def sextet_of_nth table_distinct table_length)

lemma table_no_pad: "n < 64 \<Longrightarrow> base64_table ! n \<noteq> CHR ''=''"
  using pad_not_in_table by (metis nth_mem table_length)

lemma sextets_bounded:
  "unat (a :: u8) div 4 < 64" "unat (a :: u8) mod 4 * 16 + unat (b :: u8) div 16 < 64"
  "unat (b :: u8) mod 16 * 4 + unat (c :: u8) div 64 < 64" "unat (a :: u8) mod 4 * 16 < 64" "unat (b :: u8) mod 16 * 4 < 64"
  using unat_u8 [of a] unat_u8 [of b] unat_u8 [of c] by linarith+

lemma decode_rfc4648: "rfc4648_decode (rfc4648 bs) = Some bs"
proof (induction bs rule: rfc4648.induct)
  case (2 a)
  then show ?case using unat_u8 [of a] by (simp add: Let_def sextet_of_table sextets_bounded)
next
  case (3 a b)
  have "(unat a mod 4 * 16 + unat b div 16) div 16 = unat a mod 4" "(unat a mod 4 * 16 + unat b div 16) mod 16 = unat b div 16"
    using unat_u8 [of b] by simp_all
  then show ?case by (simp add: Let_def sextet_of_table sextets_bounded table_no_pad)
next
  case (4 a b c bs)
  have "(unat a mod 4 * 16 + unat b div 16) div 16 = unat a mod 4" "(unat a mod 4 * 16 + unat b div 16) mod 16 = unat b div 16"
    "(unat b mod 16 * 4 + unat c div 64) div 4 = unat b mod 16" "(unat b mod 16 * 4 + unat c div 64) mod 4 = unat c div 64"
    using unat_u8 [of b] unat_u8 [of c] by simp_all
  then show ?case using 4 by (simp add: Let_def sextet_of_table sextets_bounded table_no_pad)
qed simp

text \<open>C29: The text of any bytes is that of RFC 4648: it has the length for which the macro reserves the buffer, and a
  decoder of the standard gives the bytes back.\<close>

theorem base64_is_rfc4648:
  "base64_encode bs = rfc4648 bs \<and> length (base64_encode bs) + 1 = BASE64_ENCODE_LEN (length bs) \<and>
   rfc4648_decode (base64_encode bs) = Some bs"
  by (simp add: encode_rfc4648 length_rfc4648 decode_rfc4648 BASE64_ENCODE_LEN_def)

end
