(* ===== verification/Chg_Smooth.thy ===== *)
theory Chg_Smooth
  imports Chg_Strategy_Puc Chg_Base64 "HOL-Library.Signed_Division"
begin

unbundle bit_operations_syntax

text \<open>
  The battery smoothing (\<^verbatim>\<open>strategy/oplus_strategy_battery_smooth.c\<close>): the percentage that is shown is found in a map
  of 101 charges, which is bent piece by piece when the charger is plugged in or out so that reserves at the
  ends of the battery stay hidden. Every bending is recorded, in a queue that is uploaded through the error topic
  and in a log that keeps the newest records. This theory has the model; what it does is shown in
  \<open>Chg_Smooth_Map\<close> and \<open>Chg_Smooth_Order\<close> (the maps), \<open>Chg_Smooth_Log\<close> (the records) and \<open>Chg_Smooth_Steps\<close>
  (the operations together).
\<close>

section \<open>Faults\<close>

text \<open>What the code does beyond returning an error: it reads the map outside of its bounds, writes past the end of a
  text buffer, or does not return.\<close>

abbreviation (input) ENOSPC :: int where "ENOSPC \<equiv> 28"
abbreviation (input) EOVERFLOW :: int where "EOVERFLOW \<equiv> 75"

datatype bs_fault = Bad_index | Buffer_overflow | Endless_loop

definition and_then :: "'e + 'a \<Rightarrow> ('a \<Rightarrow> 'e + 'b) \<Rightarrow> 'e + 'b" where
  "and_then m f = (case m of Inl e \<Rightarrow> Inl e | Inr x \<Rightarrow> f x)"

lemma and_then_simps [simp]: "and_then (Inl e) f = Inl e" "and_then (Inr x) f = f x"
  by (simp_all add: and_then_def)

lemma and_then_Inr: "and_then m f = Inr y \<longleftrightarrow> (\<exists>x. m = Inr x \<and> f x = Inr y)"
  by (cases m) auto

lemma and_then_Inl: "and_then m f = Inl e \<longleftrightarrow> m = Inl e \<or> (\<exists>x. m = Inr x \<and> f x = Inl e)"
  by (cases m) auto

section \<open>Numbers\<close>

abbreviation (input) MIN_SOC :: int where "MIN_SOC \<equiv> 0"
abbreviation (input) MAX_SOC :: int where "MAX_SOC \<equiv> 100"
abbreviation (input) SOC_TABLE_SIZE :: nat where "SOC_TABLE_SIZE \<equiv> 101"
abbreviation (input) MIN_CHG_SPLIT_SOC :: int where "MIN_CHG_SPLIT_SOC \<equiv> 20"
abbreviation (input) MAX_CHG_SPLIT_SOC :: int where "MAX_CHG_SPLIT_SOC \<equiv> MAX_SOC"
abbreviation (input) MAX_DISCHG_DELTA_SOC :: int where "MAX_DISCHG_DELTA_SOC \<equiv> 5"
abbreviation (input) MIN_DISCHG_SOC :: int where "MIN_DISCHG_SOC \<equiv> 15"
abbreviation (input) MAX_SOC_DIFF_SOC_CENTI :: int where "MAX_SOC_DIFF_SOC_CENTI \<equiv> 300"
abbreviation (input) MIN_SLOPE :: int where "MIN_SLOPE \<equiv> 70"
abbreviation (input) MAX_SLOPE :: int where "MAX_SLOPE \<equiv> 150"
abbreviation (input) MIN_RESERVE :: int where "MIN_RESERVE \<equiv> 0"
abbreviation (input) MAX_RESERVE :: int where "MAX_RESERVE \<equiv> 1000"
abbreviation (input) PERCENT_SCALE :: int where "PERCENT_SCALE \<equiv> 100"
abbreviation (input) FULL_SCALE :: int where "FULL_SCALE \<equiv> 10000"
abbreviation (input) UPDATE_MAP_DEBOUNCE_MS :: u32 where "UPDATE_MAP_DEBOUNCE_MS \<equiv> 10000"
abbreviation (input) TRACK_CACHE_SIZE :: nat where "TRACK_CACHE_SIZE \<equiv> TOPIC_MSG_STR_BUF - 1"
abbreviation (input) TRACK_FIFO_SIZE :: nat where "TRACK_FIFO_SIZE \<equiv> BASE64_DECODE_LEN TRACK_CACHE_SIZE"
abbreviation (input) BATTERY_LOG_FIFO_SIZE :: nat where "BATTERY_LOG_FIFO_SIZE \<equiv> 256"
abbreviation (input) BATTERY_LOG_CACHE_SIZE :: nat where "BATTERY_LOG_CACHE_SIZE \<equiv> BASE64_ENCODE_LEN BATTERY_LOG_FIFO_SIZE"
abbreviation (input) UPLOAD_PERIOD :: int where "UPLOAD_PERIOD \<equiv> 86400"
abbreviation (input) VALID_UTC_TIME :: int where "VALID_UTC_TIME \<equiv> 1577808000"

definition GAUGE_ITEM_SOC :: u32 where "GAUGE_ITEM_SOC = 0"
definition GAUGE_ITEM_FCC :: u32 where "GAUGE_ITEM_FCC = 7"
definition GAUGE_ITEM_RM :: u32 where "GAUGE_ITEM_RM = 10"
definition GAUGE_ITEM_SOC_CENTI :: u32 where "GAUGE_ITEM_SOC_CENTI = 37"

definition ERR_ITEM_BS_INFO :: u32 where "ERR_ITEM_BS_INFO = 31"

text \<open>Products and sums of C \<^verbatim>\<open>int\<close>s; like \<open>c_sub\<close> they wrap around.\<close>

definition c_mul :: "int \<Rightarrow> int \<Rightarrow> int" where
  "c_mul a b = sint (word_of_int (a * b) :: u32)"

definition c_add :: "int \<Rightarrow> int \<Rightarrow> int" where
  "c_add a b = sint (word_of_int (a + b) :: u32)"

definition clamp_val :: "int \<Rightarrow> int \<Rightarrow> int \<Rightarrow> int" where
  "clamp_val v lo hi = (if v < lo then lo else if v > hi then hi else v)"

definition DESGIN_CAP_TO_FCC :: "int \<Rightarrow> int" where
  "DESGIN_CAP_TO_FCC cap = c_mul cap 90 sdiv 100"

section \<open>Queues of bytes\<close>

text \<open>\<^verbatim>\<open>struct kfifo\<close> of bytes. Its size is rounded up to a power of two when it is allocated; putting and taking more
  than there is room or data for puts and takes what is possible.\<close>

record kfifo =
  kf_size :: nat
  kf_data :: bytes

definition roundup_pow_of_two :: "nat \<Rightarrow> nat" where
  "roundup_pow_of_two n = (case find (\<lambda>k. n \<le> 2 ^ k) [0..<64] of Some k \<Rightarrow> 2 ^ k | None \<Rightarrow> 0)"

definition kfifo_alloc :: "bool \<Rightarrow> nat \<Rightarrow> kfifo option" where
  "kfifo_alloc mem n = (if mem then Some \<lparr>kf_size = roundup_pow_of_two n, kf_data = []\<rparr> else None)"

definition kfifo_avail :: "kfifo \<Rightarrow> nat" where
  "kfifo_avail f = kf_size f - length (kf_data f)"

definition kfifo_in :: "bytes \<Rightarrow> kfifo \<Rightarrow> nat \<times> kfifo" where
  "kfifo_in bs f = (let put = take (kfifo_avail f) bs in (length put, f\<lparr>kf_data := kf_data f @ put\<rparr>))"

definition kfifo_out :: "nat \<Rightarrow> kfifo \<Rightarrow> bytes \<times> kfifo" where
  "kfifo_out n f = (take n (kf_data f), f\<lparr>kf_data := drop n (kf_data f)\<rparr>)"

section \<open>State\<close>

record reserve_cfg =
  start_soc :: int
  end_soc :: int
  dischg_reserve :: int
  full_reserve :: int
  chg_reserve :: int
  chg_split_soc :: int

text \<open>\<open>map_update_work\<close> is the delay of the scheduled work. A text buffer is the text up to its terminating zero.
  \<open>log_registered\<close> says whether the strategy is known to the battery log. The field \<^verbatim>\<open>tm\<close> of the code is written
  and never read.\<close>

record bs_strategy =
  cfgs :: "reserve_cfg list"
  bs_gauge_topic :: "nat option"
  bs_err_topic :: "nat option"
  bs_soc :: int
  soc_centi :: int
  smooth_soc :: int
  smooth_soc_centi :: int
  smooth_map :: "int list"
  smooth_map_lower :: int
  smooth_map_upper :: int
  chg_online :: bool
  chg_full :: bool
  inited :: bool
  batt_rm :: int
  batt_fcc :: int
  last_map_update_jiffies :: u64
  map_update_work :: "u64 option"
  map_update_pending :: bool
  last_chg_online :: bool
  track_fifo :: kfifo
  track_cache :: string
  battery_log_fifo :: kfifo
  battery_log_cache :: string
  last_send_time :: int
  log_registered :: bool

text \<open>The surroundings of a call: the topics and the clock, the wall clock in seconds, the offset of the time zone if
  it can be read, the design capacity that the gauge reports, and what memory there is for the buffer of raw
  data, for an old record (when the log holds the given number of bytes), and for a message.\<close>

record ('d, 'k) smooth_env =
  sur :: "('d, 'k) strategy_env"
  real_time :: int
  gmt_offset :: "int option"
  batt_capacity_mah :: int
  raw_mem :: bool
  old_mem :: "nat \<Rightarrow> bool"
  msg_mem :: "u64 option"

definition set_topics :: "('d, 'k) mms_class \<Rightarrow> ('d, 'k) smooth_env \<Rightarrow> ('d, 'k) smooth_env" where
  "set_topics c e = e\<lparr>sur := (sur e)\<lparr>topics := c\<rparr>\<rparr>"

definition bs_get_current_time_s :: "('d, 'k) smooth_env \<Rightarrow> int" where
  "bs_get_current_time_s e = real_time e + (case gmt_offset e of Some g \<Rightarrow> g | None \<Rightarrow> 0)"

section \<open>Records\<close>

text \<open>\<^verbatim>\<open>enum map_type\<close> and the part of \<^verbatim>\<open>struct bs_track\<close> that depends on it, as its bytes.\<close>

abbreviation (input) MAP_TYPE_INIT_SPLIT_EQ_MAX :: nat where "MAP_TYPE_INIT_SPLIT_EQ_MAX \<equiv> 0"
abbreviation (input) MAP_TYPE_INIT_SPLIT_NQ_MAX :: nat where "MAP_TYPE_INIT_SPLIT_NQ_MAX \<equiv> 1"
abbreviation (input) MAP_TYPE_CHG_SPLIT_EQ_MAX :: nat where "MAP_TYPE_CHG_SPLIT_EQ_MAX \<equiv> 2"
abbreviation (input) MAP_TYPE_CHG_SMOOTH_EQ_SPLIT :: nat where "MAP_TYPE_CHG_SMOOTH_EQ_SPLIT \<equiv> 3"
abbreviation (input) MAP_TYPE_CHG_SMOOTH_LT_SPLIT :: nat where "MAP_TYPE_CHG_SMOOTH_LT_SPLIT \<equiv> 4"
abbreviation (input) MAP_TYPE_CHG_SMOOTH_GT_SPLIT :: nat where "MAP_TYPE_CHG_SMOOTH_GT_SPLIT \<equiv> 5"
abbreviation (input) MAP_TYPE_DISCHG_SMOOTH_EQ_MAX :: nat where "MAP_TYPE_DISCHG_SMOOTH_EQ_MAX \<equiv> 6"
abbreviation (input) MAP_TYPE_DISCHG_FULL :: nat where "MAP_TYPE_DISCHG_FULL \<equiv> 7"
abbreviation (input) MAP_TYPE_DISCHG_NO_RESERVE :: nat where "MAP_TYPE_DISCHG_NO_RESERVE \<equiv> 8"
abbreviation (input) MAP_TYPE_DISCHG_OTHER :: nat where "MAP_TYPE_DISCHG_OTHER \<equiv> 9"

record bs_track =
  track_type :: nat
  track_body :: bytes

definition b8 :: "int \<Rightarrow> bytes" where
  "b8 i = [word_of_int i]"

definition b16 :: "int \<Rightarrow> bytes" where
  "b16 i = le_bytes 2 (word_of_int i :: u16)"

definition extra_len_map :: "nat list" where
  "extra_len_map = [2, 3, 7, 5, 10, 8, 8, 6, 6, 7]"

definition bs_track_calc_size :: "nat \<Rightarrow> nat" where
  "bs_track_calc_size type = (if type \<ge> length extra_len_map then 0 else 10 + extra_len_map ! type)"

definition track_bytes :: "int \<Rightarrow> bs_track \<Rightarrow> bytes" where
  "track_bytes utc t =
     [of_nat (bs_track_calc_size (track_type t)), of_nat (track_type t)] @ le_bytes 8 (word_of_int utc :: u64) @ track_body t"

text \<open>Both queues are emptied and encoded in the same way. The text is written before its length is compared with the
  size of the buffer, and the terminating zero after it.\<close>

definition fifo_pop_and_encode :: "nat \<Rightarrow> nat \<Rightarrow> bool \<Rightarrow> kfifo \<Rightarrow> string \<Rightarrow> bs_fault + rc \<times> kfifo \<times> string" where
  "fifo_pop_and_encode fifo_size cache_size mem f cache =
     (let total_len = length (kf_data f) in
      if total_len = 0 then Inr (- ENODATA, f, cache)
      else if total_len > fifo_size then Inr (- EOVERFLOW, f, cache)
      else if \<not> mem then Inr (- ENOMEM, f, cache)
      else
        let (raw_data, f') = kfifo_out total_len f in
        if length raw_data \<noteq> total_len then Inr (- EIO, f', cache)
        else
          let text = base64_encode raw_data in
          if length text \<ge> cache_size then Inl Buffer_overflow
          else Inr (0, f', text))"

definition bs_track_fifo_pop_and_encode :: "bool \<Rightarrow> bs_strategy \<Rightarrow> bs_fault + rc \<times> bs_strategy" where
  "bs_track_fifo_pop_and_encode mem b =
     and_then (fifo_pop_and_encode TRACK_FIFO_SIZE TRACK_CACHE_SIZE mem (track_fifo b) (track_cache b)) (\<lambda>(rc, f, cache).
       Inr (rc, b\<lparr>track_fifo := f, track_cache := cache\<rparr>))"

definition bs_battery_log_fifo_pop_and_encode :: "bool \<Rightarrow> bs_strategy \<Rightarrow> bs_fault + rc \<times> bs_strategy" where
  "bs_battery_log_fifo_pop_and_encode mem b =
     and_then (fifo_pop_and_encode BATTERY_LOG_FIFO_SIZE BATTERY_LOG_CACHE_SIZE mem (battery_log_fifo b) (battery_log_cache b))
       (\<lambda>(rc, f, cache). Inr (rc, b\<lparr>battery_log_fifo := f, battery_log_cache := cache\<rparr>))"

definition is_err_topic_available :: "bs_strategy \<Rightarrow> ('d, 'k) smooth_env \<Rightarrow> nat option \<times> bs_strategy \<times> ('d, 'k) smooth_env" where
  "is_err_topic_available b e =
     (let (p, c) = topic_available ''error'' (bs_err_topic b) (topics (sur e)) in (p, b\<lparr>bs_err_topic := p\<rparr>, set_topics c e))"

definition bs_track_upload ::
  "bs_strategy \<Rightarrow> ('d, 'k) smooth_env \<Rightarrow> bs_fault + rc \<times> bs_strategy \<times> ('d, 'k) smooth_env" where
  "bs_track_upload b e =
     and_then (bs_track_fifo_pop_and_encode (raw_mem e) b) (\<lambda>(rc, b1).
       if rc \<noteq> 0 then Inr (rc, b1, e)
       else
         let (p, b2, e2) = is_err_topic_available b1 e in
         (case p of
            None \<Rightarrow> Inr (- ENODEV, b2, e2)
          | Some i \<Rightarrow>
              let b3 = b2\<lparr>track_cache := []\<rparr> in
              (case oplus_mms_alloc_str_msg (msg_mem e) MSG_TYPE_ITEM MSG_PRIO_MEDIUM ERR_ITEM_BS_INFO (track_cache b2)
                 (class_devices (topics (sur e2)) ! i) of
                 None \<Rightarrow> Inr (- ENOMEM, b3, e2)
               | Some (msg, t) \<Rightarrow>
                   let (rc, t') = oplus_mms_publish_msg_sync (Some t) (Some msg);
                       t'' = (case t' of Some x \<Rightarrow> x | None \<Rightarrow> t) in
                   if rc < 0 then Inr (rc, b3, set_topics (set_device i (kfree_msg msg t'') (topics (sur e2))) e2)
                   else Inr (rc, b3\<lparr>last_send_time := bs_get_current_time_s e\<rparr>, set_topics (set_device i t'' (topics (sur e2))) e2))))"

text \<open>Old records are dropped until the new one fits. A record starts with its length; a length of zero would be
  dropped forever.\<close>

partial_function (option) make_room :: "(nat \<Rightarrow> bool) \<Rightarrow> nat \<Rightarrow> kfifo \<Rightarrow> (rc \<times> kfifo) option" where
  "make_room mem total_need f =
     (if kfifo_avail f < total_need then
        (case kf_data f of
           [] \<Rightarrow> Some (- ENOSPC, f)
         | old_len # _ \<Rightarrow>
             if \<not> mem (length (kf_data f)) then Some (- ENOMEM, f)
             else
               let (old, f') = kfifo_out (unat old_len) f in
               if length old \<noteq> unat old_len then Some (- EIO, f') else make_room mem total_need f')
      else Some (0, f))"

definition bs_battery_log_fifo_push :: "(nat \<Rightarrow> bool) \<Rightarrow> bytes \<Rightarrow> kfifo \<Rightarrow> bs_fault + rc \<times> kfifo" where
  "bs_battery_log_fifo_push mem track f =
     (case make_room mem (length track) f of
        None \<Rightarrow> Inl Endless_loop
      | Some (rc, f') \<Rightarrow>
          if rc \<noteq> 0 then Inr (rc, f')
          else let (n, f'') = kfifo_in track f' in Inr (if n \<noteq> length track then - EIO else 0, f''))"

definition bs_track_push_to_fifo ::
  "bs_track \<Rightarrow> bs_strategy \<Rightarrow> ('d, 'k) smooth_env \<Rightarrow> bs_fault + rc \<times> bs_strategy \<times> ('d, 'k) smooth_env" where
  "bs_track_push_to_fifo track b e =
     (let total_need = bs_track_calc_size (track_type track) in
      if total_need = 0 then Inr (- EINVAL, b, e)
      else
        let bytes = track_bytes (bs_get_current_time_s e) track in
        and_then
          (if kfifo_avail (track_fifo b) < total_need then bs_track_upload b e else Inr (0, b, e)) (\<lambda>(_, b1, e1).
        let (n, f) = kfifo_in bytes (track_fifo b1) in
        and_then (bs_battery_log_fifo_push (old_mem e) bytes (battery_log_fifo b1)) (\<lambda>(_, l).
        Inr (if n \<noteq> total_need then - EIO else 0, b1\<lparr>track_fifo := f, battery_log_fifo := l\<rparr>, e1))))"

section \<open>Finding the configuration\<close>

text \<open>A binary search over the ranges.\<close>

function search_cfg :: "reserve_cfg list \<Rightarrow> int \<Rightarrow> int \<Rightarrow> int \<Rightarrow> reserve_cfg option" where
  "search_cfg cs soc left right =
     (if left \<le> right then
        let mid = left + (right - left) div 2; cfg = cs ! nat mid in
        if soc \<ge> start_soc cfg \<and> soc \<le> end_soc cfg then Some cfg
        else if soc < start_soc cfg then search_cfg cs soc left (mid - 1)
        else search_cfg cs soc (mid + 1) right
      else None)"
  by auto
termination
  by (relation "measure (\<lambda>(cs, soc, left, right). nat (right - left + 1))") auto

declare search_cfg.simps [simp del]

definition find_reserve_cfg_by_soc :: "bs_strategy \<Rightarrow> int \<Rightarrow> reserve_cfg option" where
  "find_reserve_cfg_by_soc b soc =
     (if cfgs b = [] then None
      else search_cfg (cfgs b) (clamp_val soc MIN_SOC MAX_SOC) 0 (int (length (cfgs b)) - 1))"

section \<open>The map\<close>

text \<open>\<open>map_at\<close> reads an entry. \<open>smooth_soc_to_soc_centi\<close> lays a straight line through the entries from
  \<open>start_index\<close> to \<open>end_index\<close>; the callers pass coordinates that are not negative, so the differences and the
  64-bit products are exact (\<open>line_fits_64_bits\<close>).\<close>

definition map_at :: "int list \<Rightarrow> int \<Rightarrow> bs_fault + int" where
  "map_at m i = (if 0 \<le> i \<and> i < int (length m) then Inr (m ! nat i) else Inl Bad_index)"

definition line_slope :: "int \<Rightarrow> int \<Rightarrow> int \<Rightarrow> int \<Rightarrow> int" where
  "line_slope x1 x2 y1 y2 = ((y2 - y1) * PERCENT_SCALE * PERCENT_SCALE) sdiv (x2 - x1)"

definition line_at :: "int \<Rightarrow> int \<Rightarrow> int \<Rightarrow> int \<Rightarrow> int \<Rightarrow> int" where
  "line_at x1 x2 y1 y2 i =
     clamp_val (y1 + ((i * PERCENT_SCALE - x1) * line_slope x1 x2 y1 y2) sdiv (PERCENT_SCALE * PERCENT_SCALE)) 0 FULL_SCALE"

definition smooth_soc_to_soc_centi :: "int \<Rightarrow> int \<Rightarrow> int \<Rightarrow> int \<Rightarrow> int \<Rightarrow> int \<Rightarrow> int list \<Rightarrow> rc \<times> int list" where
  "smooth_soc_to_soc_centi start_index end_index x1 x2 y1 y2 m =
     (if start_index < 0 \<or> end_index \<ge> int SOC_TABLE_SIZE \<or> start_index > end_index \<or> x1 \<ge> x2 \<or> y1 \<ge> y2 then (- EINVAL, m)
      else (0, fold (\<lambda>i m. m[nat i := line_at x1 x2 y1 y2 i]) [start_index..end_index] m))"

abbreviation (input) bend :: "int \<Rightarrow> int \<Rightarrow> int \<Rightarrow> int \<Rightarrow> int \<Rightarrow> int \<Rightarrow> int list \<Rightarrow> int list" where
  "bend start_index end_index x1 x2 y1 y2 m \<equiv> snd (smooth_soc_to_soc_centi start_index end_index x1 x2 y1 y2 m)"

definition fix_ends :: "int list \<Rightarrow> int list" where
  "fix_ends m = m[nat MIN_SOC := 0, nat MAX_SOC := FULL_SCALE]"

text \<open>The map of a new strategy; the entry at the split is read between the two lines.\<close>

definition initial_map :: "reserve_cfg \<Rightarrow> bs_fault + int list" where
  "initial_map cfg =
     (let m = map (\<lambda>i. int i * PERCENT_SCALE) [0..<SOC_TABLE_SIZE]; split = chg_split_soc cfg in
      if split = MAX_SOC then Inr (bend 0 MAX_SOC 0 FULL_SCALE 0 (FULL_SCALE - chg_reserve cfg) m)
      else
        and_then (map_at m split) (\<lambda>v.
        let m1 = bend 0 split 0 (split * PERCENT_SCALE) 0 (v - chg_reserve cfg) m in
        and_then (map_at m1 split) (\<lambda>v1.
        Inr (bend (split + 1) MAX_SOC (split * PERCENT_SCALE) FULL_SCALE v1 FULL_SCALE m1))))"

definition initial_track :: "reserve_cfg \<Rightarrow> bs_track" where
  "initial_track cfg =
     (if chg_split_soc cfg = MAX_SOC then \<lparr>track_type = MAP_TYPE_INIT_SPLIT_EQ_MAX, track_body = b16 (chg_reserve cfg)\<rparr>
      else \<lparr>track_type = MAP_TYPE_INIT_SPLIT_NQ_MAX, track_body = b8 (chg_split_soc cfg) @ b16 (chg_reserve cfg)\<rparr>)"

definition bs_init_map :: "bs_strategy \<Rightarrow> ('d, 'k) smooth_env \<Rightarrow> bs_fault + bs_strategy \<times> ('d, 'k) smooth_env" where
  "bs_init_map b e =
     (case find_reserve_cfg_by_soc b 0 of
        None \<Rightarrow> Inr (b, e)
      | Some cfg \<Rightarrow>
          and_then (initial_map cfg) (\<lambda>m.
          and_then (bs_track_push_to_fifo (initial_track cfg) (b\<lparr>smooth_map := fix_ends m\<rparr>) e) (\<lambda>(_, b, e).
          Inr (b, e))))"

text \<open>The maps for charging. Each handler notes what it starts from, bends the map, and records the note.\<close>

definition split_eq_max_map :: "reserve_cfg \<Rightarrow> bs_strategy \<Rightarrow> bs_fault + int list" where
  "split_eq_max_map cfg b =
     (let s = smooth_soc b; m = smooth_map b; whole = bend 0 MAX_SOC 0 FULL_SCALE 0 (FULL_SCALE - chg_reserve cfg) in
      if s < MAX_SOC - 1 \<and> s \<noteq> MIN_SOC then
        let m1 = bend 0 s 0 (smooth_soc_centi b) 0 (soc_centi b) m in
        and_then (map_at m1 s) (\<lambda>v.
        Inr (if v \<le> FULL_SCALE - chg_reserve cfg
             then bend (s + 1) MAX_SOC (s * PERCENT_SCALE) FULL_SCALE v (FULL_SCALE - chg_reserve cfg) m1
             else whole m1))
      else Inr (whole m))"

definition split_eq_max_track :: "reserve_cfg \<Rightarrow> bs_strategy \<Rightarrow> bs_track" where
  "split_eq_max_track cfg b =
     \<lparr>track_type = MAP_TYPE_CHG_SPLIT_EQ_MAX,
      track_body = b8 (smooth_soc b) @ b16 (smooth_soc_centi b) @ b16 (soc_centi b) @ b16 (chg_reserve cfg)\<rparr>"

definition record_map :: "bs_track \<Rightarrow> int list \<Rightarrow> bs_strategy \<Rightarrow> ('d, 'k) smooth_env \<Rightarrow> bs_fault + bs_strategy \<times> ('d, 'k) smooth_env" where
  "record_map track m b e =
     and_then (bs_track_push_to_fifo track (b\<lparr>smooth_map := m\<rparr>) e) (\<lambda>(_, b, e). Inr (b, e))"

definition handle_chg_map_split_eq_max ::
  "reserve_cfg \<Rightarrow> bs_strategy \<Rightarrow> ('d, 'k) smooth_env \<Rightarrow> bs_fault + bs_strategy \<times> ('d, 'k) smooth_env" where
  "handle_chg_map_split_eq_max cfg b e =
     and_then (split_eq_max_map cfg b) (\<lambda>m. record_map (split_eq_max_track cfg b) m b e)"

definition smooth_eq_split_map :: "reserve_cfg \<Rightarrow> bs_strategy \<Rightarrow> bs_fault + int list" where
  "smooth_eq_split_map cfg b =
     (let s = smooth_soc b; m = smooth_map b in
      if s < MAX_SOC \<and> s \<noteq> MIN_SOC then
        and_then (map_at m s) (\<lambda>v.
        let m1 = bend 0 s 0 (s * PERCENT_SCALE) 0 (v - chg_reserve cfg) m in
        and_then (map_at m1 s) (\<lambda>v1.
        Inr (bend (s + 1) MAX_SOC (s * PERCENT_SCALE) FULL_SCALE v1 FULL_SCALE m1)))
      else Inr (bend 0 MAX_SOC 0 FULL_SCALE 0 FULL_SCALE m))"

definition smooth_eq_split_track :: "reserve_cfg \<Rightarrow> bs_strategy \<Rightarrow> bs_fault + bs_track" where
  "smooth_eq_split_track cfg b =
     and_then (map_at (smooth_map b) (smooth_soc b)) (\<lambda>v.
     Inr \<lparr>track_type = MAP_TYPE_CHG_SMOOTH_EQ_SPLIT, track_body = b8 (smooth_soc b) @ b16 v @ b16 (chg_reserve cfg)\<rparr>)"

definition handle_chg_map_smooth_eq_split ::
  "reserve_cfg \<Rightarrow> bs_strategy \<Rightarrow> ('d, 'k) smooth_env \<Rightarrow> bs_fault + bs_strategy \<times> ('d, 'k) smooth_env" where
  "handle_chg_map_smooth_eq_split cfg b e =
     and_then (smooth_eq_split_track cfg b) (\<lambda>track.
     and_then (smooth_eq_split_map cfg b) (\<lambda>m. record_map track m b e))"

text \<open>The entries up to the shown percentage are anchored at the present charge.\<close>

definition anchor_map :: "bs_strategy \<Rightarrow> int list" where
  "anchor_map b =
     (if smooth_soc b = MIN_SOC then (smooth_map b)[nat MIN_SOC := 0]
      else bend 0 (smooth_soc b) 0 (smooth_soc_centi b) 0 (soc_centi b) (smooth_map b))"

definition smooth_lt_split_map :: "reserve_cfg \<Rightarrow> bs_strategy \<Rightarrow> bs_fault + int list" where
  "smooth_lt_split_map cfg b =
     (let s = smooth_soc b; split = chg_split_soc cfg; m1 = anchor_map b in
      and_then (map_at m1 s) (\<lambda>v. and_then (map_at m1 split) (\<lambda>u.
      if v < u - chg_reserve cfg then
        let m2 = bend (s + 1) split (s * PERCENT_SCALE) (split * PERCENT_SCALE) v (u - chg_reserve cfg) m1 in
        and_then (map_at m2 split) (\<lambda>u2.
        Inr (bend (split + 1) MAX_SOC (split * PERCENT_SCALE) FULL_SCALE u2 FULL_SCALE m2))
      else Inr (bend (s + 1) MAX_SOC (s * PERCENT_SCALE) FULL_SCALE v FULL_SCALE m1))))"

definition smooth_lt_split_track :: "reserve_cfg \<Rightarrow> bs_strategy \<Rightarrow> bs_fault + bs_track" where
  "smooth_lt_split_track cfg b =
     and_then (map_at (smooth_map b) (chg_split_soc cfg)) (\<lambda>u.
     Inr \<lparr>track_type = MAP_TYPE_CHG_SMOOTH_LT_SPLIT,
       track_body = b8 (smooth_soc b) @ b16 (smooth_soc_centi b) @ b16 (soc_centi b) @ b16 u @ b16 (chg_reserve cfg) @ b8 (chg_split_soc cfg)\<rparr>)"

definition handle_chg_map_smooth_lt_split ::
  "reserve_cfg \<Rightarrow> bs_strategy \<Rightarrow> ('d, 'k) smooth_env \<Rightarrow> bs_fault + bs_strategy \<times> ('d, 'k) smooth_env" where
  "handle_chg_map_smooth_lt_split cfg b e =
     and_then (smooth_lt_split_track cfg b) (\<lambda>track.
     and_then (smooth_lt_split_map cfg b) (\<lambda>m. record_map track m b e))"

definition smooth_gt_split_map :: "reserve_cfg \<Rightarrow> bs_strategy \<Rightarrow> bs_fault + int list" where
  "smooth_gt_split_map cfg b =
     (let s = smooth_soc b; split = chg_split_soc cfg in
      and_then (map_at (smooth_map b) split) (\<lambda>u.
      let m1 = bend 0 split 0 (split * PERCENT_SCALE) 0 (u - chg_reserve cfg) (smooth_map b) in
      and_then (map_at m1 split) (\<lambda>u1. and_then (map_at m1 s) (\<lambda>v.
      if u1 < v then
        let m2 = bend (split + 1) s (split * PERCENT_SCALE) (s * PERCENT_SCALE) u1 v m1 in
        and_then (map_at m2 s) (\<lambda>v2.
        Inr (bend (s + 1) MAX_SOC (s * PERCENT_SCALE) FULL_SCALE v2 FULL_SCALE m2))
      else Inr (bend (split + 1) MAX_SOC (split * PERCENT_SCALE) FULL_SCALE u1 FULL_SCALE m1)))))"

definition smooth_gt_split_track :: "reserve_cfg \<Rightarrow> bs_strategy \<Rightarrow> bs_fault + bs_track" where
  "smooth_gt_split_track cfg b =
     and_then (map_at (smooth_map b) (chg_split_soc cfg)) (\<lambda>u. and_then (map_at (smooth_map b) (smooth_soc b)) (\<lambda>v.
     Inr \<lparr>track_type = MAP_TYPE_CHG_SMOOTH_GT_SPLIT,
       track_body = b8 (chg_split_soc cfg) @ b16 u @ b16 (chg_reserve cfg) @ b16 v @ b8 (smooth_soc b)\<rparr>))"

definition handle_chg_map_smooth_gt_split ::
  "reserve_cfg \<Rightarrow> bs_strategy \<Rightarrow> ('d, 'k) smooth_env \<Rightarrow> bs_fault + bs_strategy \<times> ('d, 'k) smooth_env" where
  "handle_chg_map_smooth_gt_split cfg b e =
     and_then (smooth_gt_split_track cfg b) (\<lambda>track.
     and_then (smooth_gt_split_map cfg b) (\<lambda>m. record_map track m b e))"

definition bs_update_chg_map :: "bs_strategy \<Rightarrow> ('d, 'k) smooth_env \<Rightarrow> bs_fault + bs_strategy \<times> ('d, 'k) smooth_env" where
  "bs_update_chg_map b e =
     (case find_reserve_cfg_by_soc b (smooth_soc b) of
        None \<Rightarrow> Inr (b, e)
      | Some cfg \<Rightarrow>
          and_then
            (if chg_split_soc cfg = MAX_SOC then handle_chg_map_split_eq_max cfg b e
             else if smooth_soc b = chg_split_soc cfg then handle_chg_map_smooth_eq_split cfg b e
             else if smooth_soc b < chg_split_soc cfg then handle_chg_map_smooth_lt_split cfg b e
             else handle_chg_map_smooth_gt_split cfg b e)
            (\<lambda>(b, e). Inr (b\<lparr>smooth_map := fix_ends (smooth_map b)\<rparr>, e)))"

text \<open>The maps for discharging.\<close>

definition is_dischg_no_reserve :: "bs_strategy \<Rightarrow> bool" where
  "is_dischg_no_reserve b \<longleftrightarrow>
     bs_soc b < MIN_DISCHG_SOC \<or> smooth_soc b < MIN_DISCHG_SOC \<or> smooth_soc b > c_add (bs_soc b) MAX_DISCHG_DELTA_SOC"

definition dischg_no_reserve_map :: "bs_strategy \<Rightarrow> bs_fault + int list" where
  "dischg_no_reserve_map b =
     (let s = smooth_soc b; m1 = anchor_map b in
      and_then (map_at m1 s) (\<lambda>v. Inr (bend (s + 1) MAX_SOC (s * PERCENT_SCALE) FULL_SCALE v FULL_SCALE m1)))"

definition dischg_other_map :: "reserve_cfg \<Rightarrow> bs_strategy \<Rightarrow> bs_fault + int list" where
  "dischg_other_map cfg b =
     (let s = smooth_soc b in
      and_then (map_at (smooth_map b) (s - 1)) (\<lambda>u.
      let m1 = bend 0 (s - 1) 0 ((s - 1) * PERCENT_SCALE) 0 (u - dischg_reserve cfg) (smooth_map b) in
      and_then (map_at m1 s) (\<lambda>v. Inr (bend (s + 1) MAX_SOC (s * PERCENT_SCALE) FULL_SCALE v FULL_SCALE m1))))"

definition dischg_map :: "reserve_cfg \<Rightarrow> int \<Rightarrow> bs_strategy \<Rightarrow> bs_fault + int list" where
  "dischg_map cfg extra_reserve b =
     (if smooth_soc b = MAX_SOC then
        Inr (bend 0 MAX_SOC 0 (smooth_soc_centi b) 0 (c_sub (c_sub (soc_centi b) (dischg_reserve cfg)) extra_reserve) (smooth_map b))
      else if chg_full b then
        Inr (bend 0 MAX_SOC 0 FULL_SCALE 0 (c_sub (c_sub (soc_centi b) (dischg_reserve cfg)) extra_reserve) (smooth_map b))
      else if is_dischg_no_reserve b then dischg_no_reserve_map b
      else dischg_other_map cfg b)"

definition dischg_track :: "reserve_cfg \<Rightarrow> int \<Rightarrow> bs_strategy \<Rightarrow> bs_fault + bs_track" where
  "dischg_track cfg extra_reserve b =
     (if smooth_soc b = MAX_SOC then
        Inr \<lparr>track_type = MAP_TYPE_DISCHG_SMOOTH_EQ_MAX,
          track_body = b16 (smooth_soc_centi b) @ b16 (soc_centi b) @ b16 (dischg_reserve cfg) @ b16 extra_reserve\<rparr>
      else if chg_full b then
        Inr \<lparr>track_type = MAP_TYPE_DISCHG_FULL, track_body = b16 (soc_centi b) @ b16 (dischg_reserve cfg) @ b16 extra_reserve\<rparr>
      else if is_dischg_no_reserve b then
        Inr \<lparr>track_type = MAP_TYPE_DISCHG_NO_RESERVE,
          track_body = b8 (smooth_soc b) @ b16 (smooth_soc_centi b) @ b16 (soc_centi b) @ b8 (bs_soc b)\<rparr>
      else
        and_then (map_at (smooth_map b) (smooth_soc b - 1)) (\<lambda>u. and_then (map_at (smooth_map b) (smooth_soc b)) (\<lambda>v.
        Inr \<lparr>track_type = MAP_TYPE_DISCHG_OTHER,
          track_body = b8 (smooth_soc b) @ b16 u @ b16 v @ b16 (dischg_reserve cfg)\<rparr>)))"

definition bs_update_dischg_map :: "bs_strategy \<Rightarrow> ('d, 'k) smooth_env \<Rightarrow> bs_fault + bs_strategy \<times> ('d, 'k) smooth_env" where
  "bs_update_dischg_map b e =
     (case find_reserve_cfg_by_soc b (smooth_soc b) of
        None \<Rightarrow> Inr (b, e)
      | Some cfg \<Rightarrow>
          let extra_reserve = (if chg_full b then full_reserve cfg else 0) in
          and_then (dischg_track cfg extra_reserve b) (\<lambda>track.
          and_then (dischg_map cfg extra_reserve b) (\<lambda>m.
          record_map track (fix_ends m) (b\<lparr>chg_full := False\<rparr>) e)))"

section \<open>The shown percentage\<close>

definition bs_update_smmoth_soc :: "bs_strategy \<Rightarrow> bs_strategy" where
  "bs_update_smmoth_soc b =
     (let m = smooth_map b in
      case find (\<lambda>i. soc_centi b \<le> m ! i) [0..<SOC_TABLE_SIZE] of
        Some i \<Rightarrow>
          if i = 0 then b\<lparr>smooth_soc := 0, smooth_map_lower := 0, smooth_map_upper := 0, smooth_soc_centi := 0\<rparr>
          else
            let lower = m ! (i - 1); upper = m ! i;
                numerator = (soc_centi b - lower) * PERCENT_SCALE; denominator = upper - lower in
            b\<lparr>smooth_soc := int i, smooth_map_lower := lower, smooth_map_upper := upper,
              smooth_soc_centi :=
                (if denominator = 0 then int i * PERCENT_SCALE
                 else clamp_val ((int i - 1) * PERCENT_SCALE + numerator sdiv denominator) 0 FULL_SCALE)\<rparr>
      | None \<Rightarrow>
          b\<lparr>smooth_soc := MAX_SOC, smooth_map_lower := m ! (SOC_TABLE_SIZE - 2), smooth_map_upper := m ! (SOC_TABLE_SIZE - 1),
            smooth_soc_centi := FULL_SCALE\<rparr>)"

text \<open>A read that fails leaves the variable with the item that was read before.\<close>

definition get_gauge :: "nat \<Rightarrow> u32 \<Rightarrow> bool \<Rightarrow> int \<times> ('d, 'k) smooth_env \<Rightarrow> int \<times> ('d, 'k) smooth_env" where
  "get_gauge i iid update = (\<lambda>(d, e).
     case read_item i iid update (sur e) of
       (Inl _, s) \<Rightarrow> (d, e\<lparr>sur := s\<rparr>)
     | (Inr v, s) \<Rightarrow> (v, e\<lparr>sur := s\<rparr>))"

definition bs_is_gauge_topic_available :: "bs_strategy \<Rightarrow> ('d, 'k) smooth_env \<Rightarrow> nat option \<times> bs_strategy \<times> ('d, 'k) smooth_env" where
  "bs_is_gauge_topic_available b e =
     (let (p, c) = topic_available ''gauge'' (bs_gauge_topic b) (topics (sur e)) in (p, b\<lparr>bs_gauge_topic := p\<rparr>, set_topics c e))"

definition charge_of :: "int \<Rightarrow> int \<Rightarrow> int \<Rightarrow> int \<Rightarrow> int" where
  "charge_of d soc rm fcc =
     (if d < 0 then if fcc \<le> 0 then c_mul soc PERCENT_SCALE else clamp_val ((rm * FULL_SCALE) sdiv fcc) 0 FULL_SCALE
      else clamp_val d 0 FULL_SCALE)"

definition plausible_charge :: "int \<Rightarrow> int \<Rightarrow> int" where
  "plausible_charge soc centi =
     (if sint (c_abs (word_of_int (c_sub (c_mul soc PERCENT_SCALE) centi))) \<ge> MAX_SOC_DIFF_SOC_CENTI
      then c_mul soc PERCENT_SCALE else centi)"

definition bs_update_data :: "bs_strategy \<Rightarrow> ('d, 'k) smooth_env \<Rightarrow> rc \<times> bs_strategy \<times> ('d, 'k) smooth_env" where
  "bs_update_data b e =
     (if \<not> inited b then (- EAGAIN, b, e)
      else
        let (p, b, e) = bs_is_gauge_topic_available b e in
        case p of
          None \<Rightarrow> (- ENODEV, b, e)
        | Some i \<Rightarrow>
            let (d1, e) = get_gauge i GAUGE_ITEM_RM False (0, e);
                rm = (if d1 < 0 then 0 else d1);
                (d2, e) = get_gauge i GAUGE_ITEM_FCC False (d1, e);
                fcc = (if d2 \<le> 0 then DESGIN_CAP_TO_FCC (batt_capacity_mah e) else d2);
                (d3, e) = get_gauge i GAUGE_ITEM_SOC_CENTI True (d2, e);
                centi = charge_of d3 (bs_soc b) rm fcc;
                (d4, e) = get_gauge i GAUGE_ITEM_SOC False (d3, e) in
            (0, bs_update_smmoth_soc
               (b\<lparr>batt_rm := rm, batt_fcc := fcc, bs_soc := d4, soc_centi := plausible_charge d4 centi\<rparr>), e))"

definition bs_update_map :: "bs_strategy \<Rightarrow> ('d, 'k) smooth_env \<Rightarrow> bs_fault + bs_strategy \<times> ('d, 'k) smooth_env" where
  "bs_update_map b e =
     (if \<not> inited b then Inr (b, e)
      else
        let (_, b, e) = bs_update_data b e in
        if chg_online b then bs_update_chg_map b e else bs_update_dischg_map b e)"

definition bs_map_update_work :: "bs_strategy \<Rightarrow> ('d, 'k) smooth_env \<Rightarrow> bs_fault + bs_strategy \<times> ('d, 'k) smooth_env" where
  "bs_map_update_work b e =
     (let b = b\<lparr>map_update_work := None\<rparr> in
      if map_update_pending b then
        and_then
          (if chg_online b \<noteq> last_chg_online b then
             and_then (bs_update_map b e) (\<lambda>(b, e).
             Inr (b\<lparr>last_chg_online := chg_online b, last_map_update_jiffies := jiffies (sur e)\<rparr>, e))
           else Inr (b, e))
          (\<lambda>(b, e). Inr (b\<lparr>map_update_pending := False\<rparr>, e))
      else Inr (b, e))"

section \<open>Allocation\<close>

definition is_valid_reserve :: "int \<Rightarrow> bool" where
  "is_valid_reserve reserve \<longleftrightarrow> (let a = sint (c_abs (word_of_int reserve)) in a \<ge> MIN_RESERVE \<and> a \<le> MAX_RESERVE)"

definition validate_reserve_value :: "reserve_cfg \<Rightarrow> rc" where
  "validate_reserve_value cfg =
     (if \<not> is_valid_reserve (dischg_reserve cfg) then - EINVAL
      else if \<not> is_valid_reserve (full_reserve cfg) then - EINVAL
      else if \<not> is_valid_reserve (chg_reserve cfg) then - EINVAL
      else 0)"

definition validate_reserve_soc_range :: "reserve_cfg \<Rightarrow> rc" where
  "validate_reserve_soc_range cfg =
     (if start_soc cfg < MIN_SOC \<or> end_soc cfg > MAX_SOC then - EINVAL
      else if start_soc cfg > end_soc cfg then - EINVAL
      else if chg_split_soc cfg < MIN_CHG_SPLIT_SOC \<or> chg_split_soc cfg > MAX_CHG_SPLIT_SOC then - EINVAL
      else 0)"

definition slope_out_of_range :: "int \<Rightarrow> int \<Rightarrow> bool" where
  "slope_out_of_range numerator denominator \<longleftrightarrow>
     numerator sdiv denominator < MIN_SLOPE \<or> numerator sdiv denominator > MAX_SLOPE"

definition validate_reserve_chg_slope :: "reserve_cfg \<Rightarrow> rc" where
  "validate_reserve_chg_slope cfg =
     (let split = chg_split_soc cfg; low = split * PERCENT_SCALE - chg_reserve cfg in
      if split > 0 \<and> slope_out_of_range low split then - EINVAL
      else if split < MAX_SOC \<and> slope_out_of_range (FULL_SCALE - low) (MAX_SOC - split) then - EINVAL
      else 0)"

definition validate_reserve_continuity :: "reserve_cfg list \<Rightarrow> rc" where
  "validate_reserve_continuity cs =
     (if cs = [] then - EINVAL
      else if start_soc (hd cs) \<noteq> MIN_SOC then - EINVAL
      else if end_soc (last cs) \<noteq> MAX_SOC then - EINVAL
      else if list_ex (\<lambda>i. start_soc (cs ! i) \<noteq> end_soc (cs ! (i - 1)) + 1) [1..<length cs] then - EINVAL
      else 0)"

definition validate_cfg :: "reserve_cfg \<Rightarrow> rc" where
  "validate_cfg cfg =
     (if validate_reserve_value cfg \<noteq> 0 then validate_reserve_value cfg
      else if validate_reserve_soc_range cfg \<noteq> 0 then validate_reserve_soc_range cfg
      else validate_reserve_chg_slope cfg)"

definition validate_cfgs :: "reserve_cfg list \<Rightarrow> rc" where
  "validate_cfgs cs =
     (case find (\<lambda>cfg. validate_cfg cfg \<noteq> 0) cs of
        Some cfg \<Rightarrow> validate_cfg cfg
      | None \<Rightarrow> validate_reserve_continuity cs)"

definition cfg_of :: "u32 list \<Rightarrow> reserve_cfg" where
  "cfg_of ws =
     \<lparr>start_soc = sint (ws ! 0), end_soc = sint (ws ! 1), dischg_reserve = sint (ws ! 2), full_reserve = sint (ws ! 3),
      chg_reserve = sint (ws ! 4), chg_split_soc = sint (ws ! 5)\<rparr>"

definition parse_reserve_config :: "'n of_api \<Rightarrow> bool \<Rightarrow> 'n \<Rightarrow> rc + reserve_cfg list" where
  "parse_reserve_config api mem node =
     (let count = of_property_count api node ''oplus_spec,reserve_table_centipercent'' in
      if count \<le> 0 \<or> count mod 6 \<noteq> 0 \<or> count div 6 > int SOC_TABLE_SIZE then Inl (- EINVAL)
      else if \<not> mem then Inl (- ENOMEM)
      else
        (case of_property_read_u32_array api node ''oplus_spec,reserve_table_centipercent'' (nat count) of
           Inl rc \<Rightarrow> Inl rc
         | Inr ws \<Rightarrow>
             let cs = map (\<lambda>k. cfg_of (take 6 (drop (6 * k) ws))) [0..<nat count div 6] in
             if validate_cfgs cs \<noteq> 0 then Inl (validate_cfgs cs) else Inr cs))"

text \<open>The memory is asked for in the order of the code: the strategy, its configurations, the first queue and its text,
  the log and its text.\<close>

definition new_bs :: "reserve_cfg list \<Rightarrow> kfifo \<Rightarrow> kfifo \<Rightarrow> int \<Rightarrow> bs_strategy" where
  "new_bs cs f l now =
     \<lparr>cfgs = cs, bs_gauge_topic = None, bs_err_topic = None, bs_soc = 0, soc_centi = 0, smooth_soc = - EINVAL,
      smooth_soc_centi = 0, smooth_map = replicate SOC_TABLE_SIZE 0, smooth_map_lower = 0, smooth_map_upper = 0,
      chg_online = True, chg_full = False, inited = False, batt_rm = 0, batt_fcc = 0, last_map_update_jiffies = 0,
      map_update_work = None, map_update_pending = False, last_chg_online = False, track_fifo = f, track_cache = [],
      battery_log_fifo = l, battery_log_cache = [], last_send_time = now, log_registered = False\<rparr>"

definition bs_track_init :: "bool \<Rightarrow> bool \<Rightarrow> rc + kfifo" where
  "bs_track_init fifo_mem cache_mem =
     (case kfifo_alloc fifo_mem TRACK_FIFO_SIZE of
        None \<Rightarrow> Inl (- ENOMEM)
      | Some f \<Rightarrow> if cache_mem then Inr f else Inl (- ENOMEM))"

definition bs_battery_log_init :: "bool \<Rightarrow> bool \<Rightarrow> rc + kfifo" where
  "bs_battery_log_init fifo_mem cache_mem =
     (case kfifo_alloc fifo_mem BATTERY_LOG_FIFO_SIZE of
        None \<Rightarrow> Inl (- ENOMEM)
      | Some l \<Rightarrow> if cache_mem then Inr l else Inl (- ENOMEM))"

definition bs_strategy_alloc_by_node ::
  "'n of_api \<Rightarrow> (nat \<Rightarrow> bool) \<Rightarrow> 'n option \<Rightarrow> ('d, 'k) smooth_env \<Rightarrow> bs_fault + (rc + bs_strategy) \<times> ('d, 'k) smooth_env" where
  "bs_strategy_alloc_by_node api mem node e =
     (case node of
        None \<Rightarrow> Inr (Inl (- EINVAL), e)
      | Some n \<Rightarrow>
          if \<not> mem 0 then Inr (Inl (- ENOMEM), e)
          else
            (case parse_reserve_config api (mem 1) n of
               Inl rc \<Rightarrow> Inr (Inl rc, e)
             | Inr cs \<Rightarrow>
                 (case bs_track_init (mem 2) (mem 3) of
                    Inl rc \<Rightarrow> Inr (Inl rc, e)
                  | Inr f \<Rightarrow>
                      (case bs_battery_log_init (mem 4) (mem 5) of
                         Inl rc \<Rightarrow> Inr (Inl rc, e)
                       | Inr l \<Rightarrow>
                           and_then (bs_init_map (new_bs cs f l (bs_get_current_time_s e)) e) (\<lambda>(b, e).
                           Inr (Inr (b\<lparr>last_map_update_jiffies := jiffies (sur e), map_update_pending := False,
                             last_chg_online := chg_online b\<rparr>), e))))))"

section \<open>Operations\<close>

definition bs_strategy_init :: "bs_strategy \<Rightarrow> ('d, 'k) smooth_env \<Rightarrow> rc \<times> bs_strategy \<times> ('d, 'k) smooth_env" where
  "bs_strategy_init b e = (0, b\<lparr>inited := True, log_registered := True\<rparr>, e)"

definition send_due :: "bs_strategy \<Rightarrow> int \<Rightarrow> int \<times> bool" where
  "send_due b now =
     (let last_sent = (if last_send_time b < VALID_UTC_TIME \<and> now \<ge> VALID_UTC_TIME then now else last_send_time b) in
      (last_sent, now - last_sent \<ge> UPLOAD_PERIOD \<and> last_sent \<ge> VALID_UTC_TIME))"

text \<open>The percentage is returned as it is, whether the gauge could be read or not.\<close>

definition bs_strategy_get_data :: "bs_strategy \<Rightarrow> ('d, 'k) smooth_env \<Rightarrow> bs_fault + int \<times> bs_strategy \<times> ('d, 'k) smooth_env" where
  "bs_strategy_get_data b e =
     (let (_, b, e) = bs_update_data b e; now = bs_get_current_time_s e; (last_sent, due) = send_due b now;
          soc = smooth_soc b; b = b\<lparr>last_send_time := last_sent\<rparr> in
      if due then
        and_then (bs_track_upload b e) (\<lambda>(rc, b, e). Inr (soc, if rc \<noteq> 0 then b\<lparr>last_send_time := now\<rparr> else b, e))
      else Inr (soc, b, e))"

text \<open>\<^verbatim>\<open>sysfs_streq\<close> ignores one newline at the end.\<close>

definition sysfs_streq :: "string \<Rightarrow> string \<Rightarrow> bool" where
  "sysfs_streq s t \<longleftrightarrow> s = t \<or> s = t @ [CHR 0x0A] \<or> s @ [CHR 0x0A] = t"

definition time_is_before_eq_jiffies :: "u64 \<Rightarrow> u64 \<Rightarrow> bool" where
  "time_is_before_eq_jiffies t now \<longleftrightarrow> sint (now - t) \<ge> 0"

definition bs_strategy_set_process_data ::
  "(u32 \<Rightarrow> u64) \<Rightarrow> bs_strategy \<Rightarrow> string \<Rightarrow> u64 \<Rightarrow> ('d, 'k) smooth_env \<Rightarrow> rc \<times> bs_strategy \<times> ('d, 'k) smooth_env" where
  "bs_strategy_set_process_data ms b type arg e =
     (if sysfs_streq type ''chg_online'' then
        if chg_online b \<noteq> (arg \<noteq> 0) then
          (0, b\<lparr>chg_online := (arg \<noteq> 0), map_update_pending := True,
             map_update_work := Some
               (if time_is_before_eq_jiffies (last_map_update_jiffies b + ms UPDATE_MAP_DEBOUNCE_MS) (jiffies (sur e)) then 0
                else ms UPDATE_MAP_DEBOUNCE_MS)\<rparr>, e)
        else (0, b, e)
      else if sysfs_streq type ''chg_full'' then (0, b\<lparr>chg_full := (arg \<noteq> 0)\<rparr>, e)
      else (- ENOTSUPP, b, e))"

text \<open>The line for the battery log: the numbers that are printed and the text of the log.\<close>

definition bs_dump_log_data :: "bool \<Rightarrow> bs_strategy \<Rightarrow> bs_fault + (int list \<times> string) \<times> bs_strategy" where
  "bs_dump_log_data mem b =
     and_then (bs_battery_log_fifo_pop_and_encode mem b) (\<lambda>(_, b).
     Inr (([soc_centi b sdiv PERCENT_SCALE, soc_centi b smod PERCENT_SCALE, smooth_soc b,
            smooth_soc_centi b sdiv PERCENT_SCALE, smooth_soc_centi b smod PERCENT_SCALE,
            smooth_map_lower b sdiv PERCENT_SCALE, smooth_map_lower b smod PERCENT_SCALE,
            smooth_map_upper b sdiv PERCENT_SCALE, smooth_map_upper b smod PERCENT_SCALE], battery_log_cache b),
          b\<lparr>battery_log_cache := []\<rparr>))"

end
