(* ===== verification/Chg_Smooth_Map.thy ===== *)
theory Chg_Smooth_Map
  imports Chg_Smooth
begin

text \<open>
  The lemmas about the map of the battery smoothing: the binary search over the configurations, straight lines and
  their ranges, and what bending a part of the map keeps.
\<close>

section \<open>The configurations\<close>

definition cfg_ok :: "reserve_cfg \<Rightarrow> bool" where
  "cfg_ok cfg \<longleftrightarrow> validate_cfg cfg = 0"

definition cfgs_ok :: "reserve_cfg list \<Rightarrow> bool" where
  "cfgs_ok cs \<longleftrightarrow> (\<forall>cfg\<in>set cs. cfg_ok cfg) \<and> validate_reserve_continuity cs = 0"

lemma validated_ok: "validate_cfgs cs = 0 \<Longrightarrow> cfgs_ok cs"
  by (cases "find (\<lambda>cfg. validate_cfg cfg \<noteq> 0) cs")
    (auto simp: validate_cfgs_def cfgs_ok_def cfg_ok_def find_None_iff find_Some_iff)

lemma parsed_ok: "parse_reserve_config api mem node = Inr cs \<Longrightarrow> cfgs_ok cs"
  unfolding parse_reserve_config_def Let_def
  by (simp split: if_split_asm sum.split_asm add: validated_ok)

lemma cfg_ok_range:
  "cfg_ok cfg \<Longrightarrow> 0 \<le> start_soc cfg \<and> start_soc cfg \<le> end_soc cfg \<and> end_soc cfg \<le> 100 \<and>
     20 \<le> chg_split_soc cfg \<and> chg_split_soc cfg \<le> 100"
  by (auto simp: cfg_ok_def validate_cfg_def validate_reserve_soc_range_def split: if_splits)

lemma continuous:
  assumes "validate_reserve_continuity cs = 0"
  shows "cs \<noteq> []" and "start_soc (cs ! 0) = 0" and "end_soc (cs ! (length cs - 1)) = 100"
    and "0 < i \<Longrightarrow> i < length cs \<Longrightarrow> start_soc (cs ! i) = end_soc (cs ! (i - 1)) + 1"
  using assms by (auto simp: validate_reserve_continuity_def hd_conv_nth last_conv_nth list_ex_iff split: if_splits)

text \<open>The ranges lie one behind the other, so the ones before and after a range are below and above it.\<close>

lemma ranges_ordered:
  assumes "cfgs_ok cs" and "i < j" and "j < length cs"
  shows "end_soc (cs ! i) < start_soc (cs ! j)"
  using assms(2,3)
proof (induction j)
  case (Suc j)
  have next_range: "start_soc (cs ! Suc j) = end_soc (cs ! j) + 1"
    using continuous(4) [of cs "Suc j"] assms(1) Suc.prems by (simp add: cfgs_ok_def)
  have "start_soc (cs ! j) \<le> end_soc (cs ! j)"
    using cfg_ok_range [of "cs ! j"] assms(1) Suc.prems by (simp add: cfgs_ok_def)
  then show ?case using Suc next_range by (cases "i = j") auto
qed simp

text \<open>The binary search finds the range, if it is between the two ends.\<close>

lemma search_finds:
  assumes ok: "cfgs_ok cs" and k: "k < length cs" "start_soc (cs ! k) \<le> soc" "soc \<le> end_soc (cs ! k)"
  shows "0 \<le> left \<Longrightarrow> right < int (length cs) \<Longrightarrow> left \<le> int k \<Longrightarrow> int k \<le> right \<Longrightarrow> search_cfg cs soc left right = Some (cs ! k)"
proof (induction "nat (right - left + 1)" arbitrary: left right rule: less_induct)
  case less
  define mid where "mid = left + (right - left) div 2"
  have mid: "left \<le> mid" "mid \<le> right" "0 \<le> mid" "nat mid < length cs" using less.prems by (auto simp: mid_def)
  consider "nat mid = k" | "nat mid < k" | "k < nat mid" by linarith
  then show ?case
  proof cases
    case 1
    then show ?thesis using k mid by (subst search_cfg.simps) (simp add: Let_def flip: mid_def)
  next
    case 2
    then have "end_soc (cs ! nat mid) < soc" using ranges_ordered [OF ok 2 k(1)] k by simp
    moreover have "search_cfg cs soc (mid + 1) right = Some (cs ! k)" using 2 mid less.prems by (intro less.hyps) auto
    moreover have "start_soc (cs ! nat mid) \<le> end_soc (cs ! nat mid)"
      using cfg_ok_range [of "cs ! nat mid"] ok mid by (simp add: cfgs_ok_def)
    ultimately show ?thesis using mid by (subst search_cfg.simps) (simp add: Let_def flip: mid_def)
  next
    case 3
    then have "soc < start_soc (cs ! nat mid)" using ranges_ordered [OF ok 3 mid(4)] k by simp
    moreover have "search_cfg cs soc left (mid - 1) = Some (cs ! k)" using 3 mid less.prems by (intro less.hyps) auto
    ultimately show ?thesis using mid by (subst search_cfg.simps) (simp add: Let_def flip: mid_def)
  qed
qed

text \<open>Every percentage is in one of the ranges.\<close>

lemma range_exists:
  assumes ok: "cfgs_ok cs" and "0 \<le> soc" "soc \<le> 100"
  shows "\<exists>k<length cs. start_soc (cs ! k) \<le> soc \<and> soc \<le> end_soc (cs ! k)"
proof -
  have c: "validate_reserve_continuity cs = 0" using ok by (simp add: cfgs_ok_def)
  have "n < length cs \<Longrightarrow> soc \<le> end_soc (cs ! n) \<Longrightarrow> \<exists>k\<le>n. start_soc (cs ! k) \<le> soc \<and> soc \<le> end_soc (cs ! k)" for n
  proof (induction n)
    case 0
    then show ?case using continuous(2) [OF c] assms(2) by simp
  next
    case (Suc n)
    show ?case
    proof (cases "start_soc (cs ! Suc n) \<le> soc")
      case False
      then have "soc \<le> end_soc (cs ! n)" using continuous(4) [OF c, of "Suc n"] Suc.prems by simp
      then show ?thesis using Suc by (auto intro: le_SucI)
    qed (use Suc.prems in auto)
  qed
  then obtain k where "k \<le> length cs - 1" "start_soc (cs ! k) \<le> soc" "soc \<le> end_soc (cs ! k)"
    using continuous(1,3) [OF c] assms(3) by (metis One_nat_def diff_less length_greater_0_conv zero_less_one)
  then show ?thesis using continuous(1) [OF c] by (intro exI [of _ k]) (auto simp: Suc_le_eq neq_Nil_conv)
qed

lemma clamp_range: "lo \<le> hi \<Longrightarrow> lo \<le> clamp_val v lo hi \<and> clamp_val v lo hi \<le> hi"
  by (simp add: clamp_val_def)

lemma clamp_id: "lo \<le> v \<Longrightarrow> v \<le> hi \<Longrightarrow> clamp_val v lo hi = v"
  by (simp add: clamp_val_def)

lemma find_cfg:
  assumes ok: "cfgs_ok (cfgs b)"
  shows "\<exists>k<length (cfgs b). find_reserve_cfg_by_soc b soc = Some (cfgs b ! k) \<and>
    start_soc (cfgs b ! k) \<le> clamp_val soc 0 100 \<and> clamp_val soc 0 100 \<le> end_soc (cfgs b ! k)"
proof -
  obtain k where k: "k < length (cfgs b)" "start_soc (cfgs b ! k) \<le> clamp_val soc 0 100" "clamp_val soc 0 100 \<le> end_soc (cfgs b ! k)"
    using range_exists [OF ok, of "clamp_val soc 0 100"] clamp_range [of 0 100 soc] by auto
  have "find_reserve_cfg_by_soc b soc = Some (cfgs b ! k)"
    using search_finds [OF ok k, of 0 "int (length (cfgs b)) - 1"] k(1) by (auto simp: find_reserve_cfg_by_soc_def)
  then show ?thesis using k by blast
qed

lemma found_ok: "cfgs_ok (cfgs b) \<Longrightarrow> find_reserve_cfg_by_soc b soc = Some cfg \<Longrightarrow> cfg_ok cfg"
  using find_cfg [of b soc] by (auto simp: cfgs_ok_def)

section \<open>Lines\<close>

lemma sdiv_nonneg: "0 \<le> a \<Longrightarrow> 0 < b \<Longrightarrow> (a :: int) sdiv b = a div b"
  by (auto simp: signed_divide_int_def sgn_if)

lemma slope_nonneg: "x1 < x2 \<Longrightarrow> y1 < y2 \<Longrightarrow> 0 \<le> line_slope x1 x2 y1 y2"
  by (simp add: line_slope_def sdiv_nonneg pos_imp_zdiv_nonneg_iff)

lemma slope_rise: "x1 < x2 \<Longrightarrow> y1 < y2 \<Longrightarrow> line_slope x1 x2 y1 y2 * (x2 - x1) \<le> (y2 - y1) * 10000"
  by (simp add: line_slope_def sdiv_nonneg) (metis diff_gt_0_iff_gt mult.commute pos_mod_sign div_mult_mod_eq le_add_same_cancel1)

lemma line_range: "0 \<le> line_at x1 x2 y1 y2 i \<and> line_at x1 x2 y1 y2 i \<le> 10000"
  using clamp_range [of 0 10000] by (simp add: line_at_def)

definition rise :: "int \<Rightarrow> int \<Rightarrow> int \<Rightarrow> int \<Rightarrow> int \<Rightarrow> int" where
  "rise x1 x2 y1 y2 i = ((i * 100 - x1) * line_slope x1 x2 y1 y2) div 10000"

lemma line_rise:
  "x1 < x2 \<Longrightarrow> y1 < y2 \<Longrightarrow> x1 \<le> i * 100 \<Longrightarrow> line_at x1 x2 y1 y2 i = clamp_val (y1 + rise x1 x2 y1 y2 i) 0 10000"
  by (simp add: line_at_def rise_def sdiv_nonneg slope_nonneg)

lemma rise_mono: "x1 < x2 \<Longrightarrow> y1 < y2 \<Longrightarrow> i \<le> j \<Longrightarrow> rise x1 x2 y1 y2 i \<le> rise x1 x2 y1 y2 j"
  unfolding rise_def by (intro zdiv_mono1 mult_right_mono) (simp_all add: slope_nonneg)

lemma rise_nonneg: "x1 < x2 \<Longrightarrow> y1 < y2 \<Longrightarrow> x1 \<le> i * 100 \<Longrightarrow> 0 \<le> rise x1 x2 y1 y2 i"
  by (simp add: rise_def pos_imp_zdiv_nonneg_iff slope_nonneg)

lemma rise_le:
  assumes "x1 < x2" and "y1 < y2" and "i * 100 \<le> x2"
  shows "rise x1 x2 y1 y2 i \<le> y2 - y1"
proof -
  have "(i * 100 - x1) * line_slope x1 x2 y1 y2 \<le> (x2 - x1) * line_slope x1 x2 y1 y2"
    using assms by (intro mult_right_mono) (simp_all add: slope_nonneg)
  also have "\<dots> \<le> (y2 - y1) * 10000" using slope_rise [OF assms(1,2)] by (simp add: mult.commute)
  finally show ?thesis unfolding rise_def using zdiv_mono1 [of _ "(y2 - y1) * 10000" 10000] by simp
qed

lemma clamp_mono: "v \<le> w \<Longrightarrow> clamp_val v lo hi \<le> clamp_val w lo hi" if "lo \<le> hi" for v w lo hi
  using that by (simp add: clamp_val_def)

lemma line_mono: "x1 < x2 \<Longrightarrow> y1 < y2 \<Longrightarrow> x1 \<le> i * 100 \<Longrightarrow> i \<le> j \<Longrightarrow> line_at x1 x2 y1 y2 i \<le> line_at x1 x2 y1 y2 j"
  by (simp add: line_rise clamp_mono rise_mono)

lemma line_above: "x1 < x2 \<Longrightarrow> y1 < y2 \<Longrightarrow> x1 \<le> i * 100 \<Longrightarrow> 0 \<le> y1 \<Longrightarrow> y1 \<le> 10000 \<Longrightarrow> y1 \<le> line_at x1 x2 y1 y2 i"
  using rise_nonneg [of x1 x2 y1 y2 i] by (simp add: line_rise clamp_val_def)

lemma line_below: "x1 < x2 \<Longrightarrow> y1 < y2 \<Longrightarrow> x1 \<le> i * 100 \<Longrightarrow> i * 100 \<le> x2 \<Longrightarrow> 0 \<le> y2 \<Longrightarrow> line_at x1 x2 y1 y2 i \<le> y2"
  using rise_le [of x1 x2 y1 y2 i] by (simp add: line_rise clamp_val_def)

text \<open>For the coordinates that occur, what the code computes in 32 and 64 bits does not overflow.\<close>

lemma line_fits_64_bits:
  assumes "0 \<le> x1" "x1 < x2" "x2 \<le> 10000" "0 \<le> y1" "y1 < y2" "y2 < 2 ^ 31" "0 \<le> i" "i \<le> 100"
  shows "y2 - y1 < 2 ^ 31" and "(y2 - y1) * 100 * 100 < 2 ^ 63" and "\<bar>(i * 100 - x1) * line_slope x1 x2 y1 y2\<bar> < 2 ^ 63"
proof -
  let ?s = "line_slope x1 x2 y1 y2"
  have "?s \<le> ?s * (x2 - x1)" using slope_nonneg [OF assms(2,5)] assms(2) by (simp add: mult_le_cancel_left1)
  then have s: "0 \<le> ?s" "?s \<le> 2 ^ 31 * 10000" using slope_nonneg [OF assms(2,5)] slope_rise [OF assms(2,5)] assms by simp_all
  have "\<bar>i * 100 - x1\<bar> \<le> 10000" using assms by simp
  then have "\<bar>i * 100 - x1\<bar> * ?s \<le> 10000 * (2 ^ 31 * 10000)" using s by (intro mult_mono) simp_all
  then show "\<bar>(i * 100 - x1) * ?s\<bar> < 2 ^ 63" using s(1) by (simp add: abs_mult)
qed (use assms in simp_all)

section \<open>Bending the map\<close>

definition map_ok :: "int list \<Rightarrow> bool" where
  "map_ok m \<longleftrightarrow> length m = SOC_TABLE_SIZE \<and> (\<forall>v\<in>set m. 0 \<le> v \<and> v \<le> FULL_SCALE)"

definition rising :: "int \<Rightarrow> int list \<Rightarrow> bool" where
  "rising k m \<longleftrightarrow> (\<forall>i j. 0 \<le> i \<longrightarrow> i \<le> j \<longrightarrow> j \<le> k \<longrightarrow> m ! nat i \<le> m ! nat j)"

lemma length_fold_update: "length (fold (\<lambda>i m. m[nat i := f i]) is m) = length m"
  by (induction "is" arbitrary: m) simp_all

lemma nth_fold_update:
  "\<forall>i\<in>set is. 0 \<le> i \<Longrightarrow> 0 \<le> j \<Longrightarrow> nat j < length m \<Longrightarrow>
   fold (\<lambda>i m. m[nat i := f i]) is m ! nat j = (if j \<in> set is then f j else m ! nat j)"
  by (induction "is" arbitrary: m) (auto simp: nth_list_update eq_nat_nat_iff)

definition can_bend :: "int \<Rightarrow> int \<Rightarrow> int \<Rightarrow> int \<Rightarrow> int \<Rightarrow> int \<Rightarrow> bool" where
  "can_bend s e x1 x2 y1 y2 \<longleftrightarrow> 0 \<le> s \<and> e \<le> 100 \<and> s \<le> e \<and> x1 < x2 \<and> y1 < y2"

lemma bend_not: "\<not> can_bend s e x1 x2 y1 y2 \<Longrightarrow> bend s e x1 x2 y1 y2 m = m"
  by (auto simp: smooth_soc_to_soc_centi_def can_bend_def)

lemma length_bend [simp]: "length (bend s e x1 x2 y1 y2 m) = length m"
  by (simp add: smooth_soc_to_soc_centi_def length_fold_update)

lemma bend_at:
  "0 \<le> j \<Longrightarrow> nat j < length m \<Longrightarrow>
   bend s e x1 x2 y1 y2 m ! nat j = (if can_bend s e x1 x2 y1 y2 \<and> s \<le> j \<and> j \<le> e then line_at x1 x2 y1 y2 j else m ! nat j)"
  by (auto simp: smooth_soc_to_soc_centi_def can_bend_def nth_fold_update)

lemma map_ok_nth: "map_ok m \<Longrightarrow> 0 \<le> j \<Longrightarrow> j \<le> 100 \<Longrightarrow> 0 \<le> m ! nat j \<and> m ! nat j \<le> 10000"
  by (simp add: map_ok_def)

lemma map_okI:
  assumes "length m = 101" and "\<And>j. 0 \<le> j \<Longrightarrow> j \<le> 100 \<Longrightarrow> 0 \<le> m ! nat j \<and> m ! nat j \<le> 10000"
  shows "map_ok m"
proof -
  have "0 \<le> m ! i \<and> m ! i \<le> 10000" if "i < 101" for i using assms(2) [of "int i"] that by simp
  then show ?thesis using assms(1) by (auto simp: map_ok_def in_set_conv_nth)
qed

lemma bend_ok [simp]: "map_ok m \<Longrightarrow> map_ok (bend s e x1 x2 y1 y2 m)"
  by (rule map_okI) (auto simp: map_ok_def bend_at line_range)

lemma map_at_ok: "map_ok m \<Longrightarrow> 0 \<le> i \<Longrightarrow> i \<le> 100 \<Longrightarrow> map_at m i = Inr (m ! nat i)"
  by (simp add: map_at_def map_ok_def)

lemma map_ok_length: "map_ok m \<Longrightarrow> length m = 101"
  by (simp add: map_ok_def)

lemma fix_ends_ok [simp]: "map_ok m \<Longrightarrow> map_ok (fix_ends m)"
  by (rule map_okI) (auto simp: map_ok_def fix_ends_def nth_list_update)

lemma fix_ends_at:
  "map_ok m \<Longrightarrow> 0 \<le> j \<Longrightarrow> j \<le> 100 \<Longrightarrow> fix_ends m ! nat j = (if j = 0 then 0 else if j = 100 then 10000 else m ! nat j)"
  by (auto simp: map_ok_def fix_ends_def nth_list_update)

text \<open>How bending keeps the order: the first line starts at the left end, every other one behind a part that is in
  order and not above its start.\<close>

lemma risingD: "rising k m \<Longrightarrow> 0 \<le> i \<Longrightarrow> i \<le> j \<Longrightarrow> j \<le> k \<Longrightarrow> m ! nat i \<le> m ! nat j"
  by (simp add: rising_def)

lemma rising_less: "rising k m \<Longrightarrow> l \<le> k \<Longrightarrow> rising l m"
  by (simp add: rising_def)

lemma rising_first:
  assumes "map_ok m" and "can_bend 0 e 0 x2 0 y2"
  shows "rising e (bend 0 e 0 x2 0 y2 m)"
  using assms by (auto simp: rising_def bend_at map_ok_length can_bend_def intro!: line_mono)

lemma rising_next:
  assumes "map_ok m" and "can_bend s e x1 x2 y1 y2" and "rising (s - 1) m" and "1 \<le> s" and "x1 \<le> s * 100"
    and "0 \<le> y1" and "y1 \<le> 10000" and "m ! nat (s - 1) \<le> y1"
  shows "rising e (bend s e x1 x2 y1 y2 m)"
  unfolding rising_def
proof (intro allI impI)
  fix i j assume ij: "0 \<le> i" "i \<le> j" "j \<le> e"
  have len: "nat i < length m" "nat j < length m" using assms(1,2) ij by (auto simp: map_ok_length can_bend_def)
  consider "j < s" | "i < s" "s \<le> j" | "s \<le> i" by linarith
  then show "bend s e x1 x2 y1 y2 m ! nat i \<le> bend s e x1 x2 y1 y2 m ! nat j"
  proof cases
    case 1
    then show ?thesis using ij len risingD [OF assms(3), of i j] by (simp add: bend_at)
  next
    case 2
    then have "m ! nat i \<le> y1" using risingD [OF assms(3) ij(1), of "s - 1"] assms(8) by simp
    also have "y1 \<le> line_at x1 x2 y1 y2 j" using 2 assms by (intro line_above) (auto simp: can_bend_def)
    finally show ?thesis using 2 ij len assms(2) by (simp add: bend_at)
  next
    case 3
    then show ?thesis using ij len assms(2,5) line_mono [of x1 x2 y1 y2 i j] by (simp add: bend_at can_bend_def)
  qed
qed

lemma rising_fix_ends: "map_ok m \<Longrightarrow> rising 100 m \<Longrightarrow> rising 100 (fix_ends m)"
  unfolding rising_def using map_ok_nth [of m] by (auto simp: fix_ends_at)

text \<open>A bending from the left end up to a value that is not above the old one lowers the entries there.\<close>

lemma bend_lower_end:
  assumes "map_ok m" and "0 \<le> e" "e \<le> 100" and "r \<ge> 0" and "y2 = m ! nat e - r"
  shows "bend 0 e 0 (e * 100) 0 y2 m ! nat e \<le> m ! nat e"
  using assms line_below [of 0 "e * 100" 0 y2 e] by (auto simp: bend_at map_ok_length can_bend_def)

lemma rising_bend_first:
  assumes "map_ok m" and "rising 100 m" and "e \<le> 100"
  shows "rising e (bend 0 e 0 x2 0 y2 m)"
  using rising_first [OF assms(1), of e x2 y2] bend_not [of 0 e 0 x2 0 y2 m] rising_less [OF assms(2,3)]
  by (cases "can_bend 0 e 0 x2 0 y2") auto

text \<open>The last line reaches the upper end; when it cannot be laid because it starts there already, what lies behind was
  at the upper end before.\<close>

lemma rising_last:
  assumes "map_ok m" and "rising s m" and "0 \<le> s" and "m ! nat s < 10000 \<or> (\<forall>j. s < j \<and> j \<le> 100 \<longrightarrow> m ! nat j = 10000)"
  shows "rising 100 (bend (s + 1) 100 (s * 100) 10000 (m ! nat s) 10000 m)"
proof (cases "can_bend (s + 1) 100 (s * 100) 10000 (m ! nat s) 10000")
  case True
  then show ?thesis using assms map_ok_nth [OF assms(1,3)]
    by (intro rising_next) (auto simp: can_bend_def)
next
  case False
  show ?thesis
  proof (cases "s < 100")
    case True
    then have top: "\<forall>j. s < j \<and> j \<le> 100 \<longrightarrow> m ! nat j = 10000" using assms(3,4) False by (auto simp: can_bend_def)
    have "m ! nat i \<le> m ! nat j" if "0 \<le> i" "i \<le> j" "j \<le> 100" for i j
      using that top risingD [OF assms(2), of i j] map_ok_nth [OF assms(1), of i] by (cases "j \<le> s") auto
    then show ?thesis using False by (simp add: bend_not rising_def)
  next
    case False': False
    then show ?thesis using False rising_less [OF assms(2), of 100] by (simp add: bend_not)
  qed
qed

end
