(* ===== verification/Chg_Smooth_Order.thy ===== *)
theory Chg_Smooth_Order
  imports Chg_Smooth_Map
begin

text \<open>
  What the maps of the battery smoothing are for: the handlers read them inside their bounds and keep their entries in
  range and in order, the shown percentage follows the charge, and unplugging the charger does not change it.
\<close>

section \<open>The maps of the code\<close>

lemma le_sdiv: "0 < b \<Longrightarrow> 0 < k \<Longrightarrow> k \<le> a sdiv b \<Longrightarrow> k * b \<le> (a :: int)"
proof -
  assume b: "0 < b" and k: "0 < k" "k \<le> a sdiv b"
  have "0 \<le> a"
  proof (rule ccontr)
    assume "\<not> 0 \<le> a"
    then have "a sdiv b = - ((- a) div b)" using b by (simp add: signed_divide_int_def)
    moreover have "0 \<le> (- a) div b" using b \<open>\<not> 0 \<le> a\<close> by (simp add: pos_imp_zdiv_nonneg_iff)
    ultimately show False using k by simp
  qed
  then have "k \<le> a div b" using k b by (simp add: sdiv_nonneg)
  then have "k * b \<le> a div b * b" using b by simp
  also have "\<dots> \<le> a" using b by (metis div_mult_mod_eq le_add_same_cancel1 pos_mod_sign)
  finally show ?thesis .
qed

lemma cfg_ok_reserve: "cfg_ok cfg \<Longrightarrow> chg_reserve cfg \<le> 30 * chg_split_soc cfg"
proof -
  assume ok: "cfg_ok cfg"
  have "0 < chg_split_soc cfg" using cfg_ok_range [OF ok] by simp
  moreover have "70 \<le> (chg_split_soc cfg * 100 - chg_reserve cfg) sdiv chg_split_soc cfg"
    using ok cfg_ok_range [OF ok]
    by (auto simp: cfg_ok_def validate_cfg_def validate_reserve_chg_slope_def slope_out_of_range_def Let_def split: if_splits)
  ultimately show ?thesis using le_sdiv [of "chg_split_soc cfg" 70] by fastforce
qed

lemma anchor_ok: "map_ok (smooth_map b) \<Longrightarrow> map_ok (anchor_map b)"
  by (auto simp: anchor_map_def intro!: map_okI) (auto simp: map_ok_def nth_list_update)

lemma anchor_above:
  "map_ok (smooth_map b) \<Longrightarrow> 0 \<le> smooth_soc b \<Longrightarrow> smooth_soc b < j \<Longrightarrow> j \<le> 100 \<Longrightarrow> anchor_map b ! nat j = smooth_map b ! nat j"
  by (simp add: anchor_map_def bend_at map_ok_length)

lemma rising_anchor:
  assumes "map_ok (smooth_map b)" and "rising 100 (smooth_map b)" and "0 \<le> smooth_soc b" and "smooth_soc b \<le> 100"
  shows "rising (smooth_soc b) (anchor_map b)"
proof (cases "smooth_soc b = 0")
  case True
  then show ?thesis by (auto simp: rising_def)
next
  case False
  then show ?thesis using rising_bend_first [OF assms(1,2,4)] by (simp add: anchor_map_def)
qed

lemma top_above: "map_ok m \<Longrightarrow> rising 100 m \<Longrightarrow> 0 \<le> i \<Longrightarrow> i \<le> j \<Longrightarrow> j \<le> 100 \<Longrightarrow> m ! nat i = 10000 \<Longrightarrow> m ! nat j = 10000"
  using risingD [of 100 m i j] map_ok_nth [of m j] by simp

lemma bend_end:
  "map_ok m \<Longrightarrow> can_bend s e x1 x2 y1 y2 \<Longrightarrow> x1 \<le> e * 100 \<Longrightarrow> e * 100 \<le> x2 \<Longrightarrow> 0 \<le> y1 \<Longrightarrow> bend s e x1 x2 y1 y2 m ! nat e \<le> y2"
  using line_below [of x1 x2 y1 y2 e] by (auto simp: bend_at map_ok_length can_bend_def)

lemma bend_beyond: "map_ok m \<Longrightarrow> 0 \<le> j \<Longrightarrow> e < j \<Longrightarrow> j \<le> 100 \<Longrightarrow> bend s e x1 x2 y1 y2 m ! nat j = m ! nat j"
  by (simp add: bend_at map_ok_length)

text \<open>The coincidence: the anchored value is exactly the end that the next line should have, and this line is not laid.\<close>

definition meets_top :: "reserve_cfg \<Rightarrow> bs_strategy \<Rightarrow> bool" where
  "meets_top cfg b \<longleftrightarrow> 0 < smooth_soc b \<and> smooth_soc b < MAX_SOC \<and>
     anchor_map b ! nat (smooth_soc b) =
       (if chg_online b \<and> chg_split_soc cfg = MAX_SOC then FULL_SCALE - chg_reserve cfg else FULL_SCALE)"

text \<open>Each map is computed without leaving the bounds, its entries stay in range, and they stay in order.\<close>

definition computes :: "bool \<Rightarrow> bs_fault + int list \<Rightarrow> bool" where
  "computes ordered r \<longleftrightarrow> (\<exists>m. r = Inr m \<and> map_ok m \<and> (ordered \<longrightarrow> rising 100 m))"

lemma computesI: "map_ok m \<Longrightarrow> (ordered \<Longrightarrow> rising 100 m) \<Longrightarrow> computes ordered (Inr m)"
  by (simp add: computes_def)

lemma split_eq_max_computes:
  assumes m: "map_ok (smooth_map b)" and s: "0 \<le> smooth_soc b" "smooth_soc b \<le> 100" and cfg: "cfg_ok cfg"
    and split: "chg_split_soc cfg = 100" "chg_online b"
  shows "computes (rising 100 (smooth_map b) \<and> \<not> meets_top cfg b) (split_eq_max_map cfg b)"
proof (cases "smooth_soc b < 99 \<and> smooth_soc b \<noteq> 0")
  case True
  let ?s = "smooth_soc b" and ?r = "chg_reserve cfg" and ?m1 = "anchor_map b"
  let ?v = "?m1 ! nat ?s"
  have a: "bend 0 ?s 0 (smooth_soc_centi b) 0 (soc_centi b) (smooth_map b) = ?m1" using True by (simp add: anchor_map_def)
  note ok = anchor_ok [OF m] and v = map_ok_nth [OF anchor_ok [OF m] s]
  have r: "?r < 10000" using cfg_ok_reserve [OF cfg] split by simp
  have e: "split_eq_max_map cfg b =
    Inr (if ?v \<le> 10000 - ?r then bend (?s + 1) 100 (?s * 100) 10000 ?v (10000 - ?r) ?m1
         else bend 0 100 0 10000 0 (10000 - ?r) ?m1)"
    using True by (simp add: split_eq_max_map_def Let_def a map_at_ok [OF ok s])
  show ?thesis
  proof (cases "?v \<le> 10000 - ?r")
    case le: True
    show ?thesis unfolding e using le ok
    proof (simp, intro computesI bend_ok)
      assume o: "rising 100 (smooth_map b) \<and> \<not> meets_top cfg b"
      then have "?v < 10000 - ?r" using True le split s by (auto simp: meets_top_def)
      then show "rising 100 (bend (?s + 1) 100 (?s * 100) 10000 ?v (10000 - ?r) ?m1)"
        using True s v rising_anchor [OF m _ s] o by (intro rising_next [OF ok]) (auto simp: can_bend_def)
    qed
  next
    case False
    show ?thesis unfolding e using False ok r by (simp, intro computesI bend_ok rising_first) (auto simp: can_bend_def)
  qed
next
  case False
  then have "split_eq_max_map cfg b = Inr (bend 0 100 0 10000 0 (10000 - chg_reserve cfg) (smooth_map b))"
    by (auto simp: split_eq_max_map_def Let_def)
  then show ?thesis using m rising_bend_first [OF m, of 100] by (auto intro!: computesI)
qed

lemma smooth_eq_split_computes:
  assumes m: "map_ok (smooth_map b)" and s: "0 < smooth_soc b" "smooth_soc b < 100" and r: "ordered \<Longrightarrow> 0 \<le> chg_reserve cfg"
    and o: "ordered \<Longrightarrow> rising 100 (smooth_map b)"
  shows "computes ordered (smooth_eq_split_map cfg b)"
proof -
  let ?s = "smooth_soc b" and ?m = "smooth_map b"
  let ?m1 = "bend 0 ?s 0 (?s * 100) 0 (?m ! nat ?s - chg_reserve cfg) ?m"
  have s': "0 \<le> ?s" "?s \<le> 100" using s by simp_all
  have ok: "map_ok ?m1" using m by simp
  have e: "smooth_eq_split_map cfg b = Inr (bend (?s + 1) 100 (?s * 100) 10000 (?m1 ! nat ?s) 10000 ?m1)"
    using s by (simp add: smooth_eq_split_map_def Let_def map_at_ok [OF m s'] map_at_ok [OF ok s'])
  show ?thesis unfolding e
  proof (rule computesI [OF bend_ok [OF ok]])
    assume ord: ordered
    have "?m1 ! nat ?s \<le> ?m ! nat ?s" using bend_lower_end [OF m s' r [OF ord] refl] .
    then have "?m1 ! nat ?s < 10000 \<or> (\<forall>j. ?s < j \<and> j \<le> 100 \<longrightarrow> ?m1 ! nat j = 10000)"
      using map_ok_nth [OF m s'] top_above [OF m o [OF ord] s'(1)] m s by (auto simp: bend_at map_ok_length)
    then show "rising 100 (bend (?s + 1) 100 (?s * 100) 10000 (?m1 ! nat ?s) 10000 ?m1)"
      using rising_bend_first [OF m o [OF ord] s'(2)] ok s' by (intro rising_last) auto
  qed
qed

lemma smooth_lt_split_computes:
  assumes m: "map_ok (smooth_map b)" and s: "0 \<le> smooth_soc b" "smooth_soc b < chg_split_soc cfg" and c: "chg_split_soc cfg < 100"
    and r: "ordered \<Longrightarrow> 0 \<le> chg_reserve cfg" and o: "ordered \<Longrightarrow> rising 100 (smooth_map b)" and t: "ordered \<Longrightarrow> \<not> meets_top cfg b"
  shows "computes ordered (smooth_lt_split_map cfg b)"
proof -
  let ?s = "smooth_soc b" and ?c = "chg_split_soc cfg" and ?r = "chg_reserve cfg" and ?m = "smooth_map b" and ?m1 = "anchor_map b"
  let ?v = "?m1 ! nat ?s" and ?u = "?m ! nat ?c"
  let ?m2 = "bend (?s + 1) ?c (?s * 100) (?c * 100) ?v (?u - ?r) ?m1"
  have s': "?s \<le> 100" and c': "0 \<le> ?c" "?c \<le> 100" using s c by simp_all
  note ok = anchor_ok [OF m]
  note v = map_ok_nth [OF ok s(1) s']
  have u: "?m1 ! nat ?c = ?u" using anchor_above [OF m s c'(2)] .
  have e: "smooth_lt_split_map cfg b =
    Inr (if ?v < ?u - ?r then bend (?c + 1) 100 (?c * 100) 10000 (?m2 ! nat ?c) 10000 ?m2
         else bend (?s + 1) 100 (?s * 100) 10000 ?v 10000 ?m1)"
    using u by (simp add: smooth_lt_split_map_def Let_def map_at_ok [OF ok s(1) s'] map_at_ok [OF ok c'] map_at_ok [OF bend_ok [OF ok] c'])
  show ?thesis
  proof (cases "?v < ?u - ?r")
    case True
    have "rising 100 (bend (?c + 1) 100 (?c * 100) 10000 (?m2 ! nat ?c) 10000 ?m2)" if ord: ordered
    proof (rule rising_last [OF bend_ok [OF ok] _ c'(1)])
      have can: "can_bend (?s + 1) ?c (?s * 100) (?c * 100) ?v (?u - ?r)" using True s c by (simp add: can_bend_def)
      show "rising ?c ?m2"
        using rising_anchor [OF m o [OF ord] s(1) s'] s v by (intro rising_next [OF ok can]) simp_all
      have "?m2 ! nat ?c \<le> ?u - ?r"
        using s c v by (intro bend_end [OF ok can]) simp_all
      moreover have "?m2 ! nat j = ?m ! nat j" if "?c < j" "j \<le> 100" for j
        using that s anchor_above [OF m s(1), of j] bend_beyond [OF ok, of j] by simp
      ultimately show "?m2 ! nat ?c < 10000 \<or> (\<forall>j. ?c < j \<and> j \<le> 100 \<longrightarrow> ?m2 ! nat j = 10000)"
        using r [OF ord] map_ok_nth [OF m c'] top_above [OF m o [OF ord] c'(1)] by force
    qed
    then show ?thesis unfolding e using True ok by (auto intro!: computesI)
  next
    case False
    have "rising 100 (bend (?s + 1) 100 (?s * 100) 10000 ?v 10000 ?m1)" if ord: ordered
    proof (rule rising_last [OF ok rising_anchor [OF m o [OF ord] s(1) s'] s(1)])
      show "?v < 10000 \<or> (\<forall>j. ?s < j \<and> j \<le> 100 \<longrightarrow> ?m1 ! nat j = 10000)"
        using t [OF ord] v s c by (cases "?s = 0") (auto simp: meets_top_def anchor_map_def map_ok_length [OF m])
    qed
    then show ?thesis unfolding e using False ok by (auto intro!: computesI)
  qed
qed

lemma smooth_gt_split_computes:
  assumes m: "map_ok (smooth_map b)" and s: "chg_split_soc cfg < smooth_soc b" "smooth_soc b \<le> 100" and c: "0 \<le> chg_split_soc cfg"
    and r: "ordered \<Longrightarrow> 0 \<le> chg_reserve cfg" and o: "ordered \<Longrightarrow> rising 100 (smooth_map b)"
  shows "computes ordered (smooth_gt_split_map cfg b)"
proof -
  let ?s = "smooth_soc b" and ?c = "chg_split_soc cfg" and ?m = "smooth_map b"
  define m1 where "m1 = bend 0 ?c 0 (?c * 100) 0 (?m ! nat ?c - chg_reserve cfg) ?m"
  let ?m1 = m1
  let ?u = "m1 ! nat ?c" and ?v = "?m ! nat ?s"
  let ?m2 = "bend (?c + 1) ?s (?c * 100) (?s * 100) ?u ?v ?m1"
  have s': "0 \<le> ?s" and c': "?c \<le> 100" using s c by simp_all
  have ok: "map_ok ?m1" using m by (simp add: m1_def)
  have v: "?m1 ! nat ?s = ?v" using s s' bend_beyond [OF m] by (simp add: m1_def)
  note ub = map_ok_nth [OF ok c c'] and vb = map_ok_nth [OF m s' s(2)]
  have above: "?m1 ! nat j = ?m ! nat j" if "?c < j" "j \<le> 100" for j
    using that c bend_beyond [OF m] by (simp add: m1_def)
  have e: "smooth_gt_split_map cfg b =
    Inr (if ?u < ?v then bend (?s + 1) 100 (?s * 100) 10000 (?m2 ! nat ?s) 10000 ?m2
         else bend (?c + 1) 100 (?c * 100) 10000 ?u 10000 ?m1)"
    using v by (simp add: smooth_gt_split_map_def Let_def map_at_ok [OF m c c'] map_at_ok [OF ok c c'] map_at_ok [OF ok s' s(2)]
      map_at_ok [OF bend_ok [OF ok] s' s(2)] flip: m1_def)
  have first: "rising ?c ?m1" if ordered using rising_bend_first [OF m o [OF that] c'] by (simp add: m1_def)
  show ?thesis
  proof (cases "?u < ?v")
    case True
    have "rising 100 (bend (?s + 1) 100 (?s * 100) 10000 (?m2 ! nat ?s) 10000 ?m2)" if ord: ordered
    proof (rule rising_last [OF bend_ok [OF ok] _ s'])
      have can: "can_bend (?c + 1) ?s (?c * 100) (?s * 100) ?u ?v" using True s c by (simp add: can_bend_def)
      show "rising ?s ?m2" using first [OF ord] c ub by (intro rising_next [OF ok can]) simp_all
      have "?m2 ! nat ?s \<le> ?v"
        using s c ub by (intro bend_end [OF ok can]) simp_all
      moreover have "?m2 ! nat j = ?m ! nat j" if "?s < j" "j \<le> 100" for j
        using that s' s above [of j] bend_beyond [OF ok, of j] by simp
      ultimately show "?m2 ! nat ?s < 10000 \<or> (\<forall>j. ?s < j \<and> j \<le> 100 \<longrightarrow> ?m2 ! nat j = 10000)"
        using vb top_above [OF m o [OF ord] s'] by force
    qed
    then show ?thesis unfolding e using True ok by (auto intro!: computesI)
  next
    case False
    have "rising 100 (bend (?c + 1) 100 (?c * 100) 10000 ?u 10000 ?m1)" if ord: ordered
    proof (rule rising_last [OF ok first [OF ord] c])
      have "?u \<le> ?m ! nat ?c" using bend_lower_end [OF m c c' r [OF ord] refl] by (simp add: m1_def)
      then show "?u < 10000 \<or> (\<forall>j. ?c < j \<and> j \<le> 100 \<longrightarrow> ?m1 ! nat j = 10000)"
        using map_ok_nth [OF m c c'] top_above [OF m o [OF ord] c] above by force
    qed
    then show ?thesis unfolding e using False ok by (auto intro!: computesI)
  qed
qed

lemma dischg_computes:
  assumes m: "map_ok (smooth_map b)" and s: "0 \<le> smooth_soc b" "smooth_soc b \<le> 100"
    and r: "ordered \<Longrightarrow> 0 \<le> dischg_reserve cfg" and o: "ordered \<Longrightarrow> rising 100 (smooth_map b)"
    and t: "ordered \<Longrightarrow> \<not> meets_top cfg b" and off: "\<not> chg_online b"
  shows "computes ordered (dischg_map cfg extra b)"
proof -
  let ?s = "smooth_soc b" and ?m = "smooth_map b"
  consider "?s = 100 \<or> chg_full b" | "?s \<noteq> 100" "\<not> chg_full b" "is_dischg_no_reserve b" | "?s \<noteq> 100" "\<not> chg_full b" "\<not> is_dischg_no_reserve b"
    by blast
  then show ?thesis
  proof cases
    case 1
    then show ?thesis using m rising_bend_first [OF m o, of 100] by (auto simp: dischg_map_def intro!: computesI)
  next
    case 2
    let ?m1 = "anchor_map b"
    note ok = anchor_ok [OF m]
    have "rising 100 (bend (?s + 1) 100 (?s * 100) 10000 (?m1 ! nat ?s) 10000 ?m1)" if ord: ordered
    proof (rule rising_last [OF ok rising_anchor [OF m o [OF ord] s] s(1)])
      show "?m1 ! nat ?s < 10000 \<or> (\<forall>j. ?s < j \<and> j \<le> 100 \<longrightarrow> ?m1 ! nat j = 10000)"
        using t [OF ord] map_ok_nth [OF ok s] s 2 off by (cases "?s = 0") (auto simp: meets_top_def anchor_map_def map_ok_length [OF m])
    qed
    then show ?thesis using 2 ok
      by (auto simp: dischg_map_def dischg_no_reserve_map_def Let_def map_at_ok [OF ok s] intro!: computesI)
  next
    case 3
    then have s1: "0 \<le> ?s - 1" "?s - 1 \<le> 100" "?s < 100" using s by (auto simp: is_dischg_no_reserve_def)
    define m1 where "m1 = bend 0 (?s - 1) 0 ((?s - 1) * 100) 0 (?m ! nat (?s - 1) - dischg_reserve cfg) ?m"
    let ?m1 = m1
    have ok: "map_ok ?m1" using m by (simp add: m1_def)
    have above: "?m1 ! nat j = ?m ! nat j" if "?s \<le> j" "j \<le> 100" for j
      using that s bend_beyond [OF m] by (simp add: m1_def)
    have "rising 100 (bend (?s + 1) 100 (?s * 100) 10000 (?m1 ! nat ?s) 10000 ?m1)" if ord: ordered
    proof (rule rising_last [OF ok _ s(1)])
      have "?m1 ! nat (?s - 1) \<le> ?m ! nat (?s - 1)" using bend_lower_end [OF m s1(1,2) r [OF ord] refl] by (simp add: m1_def)
      also have "\<dots> \<le> ?m1 ! nat ?s" using risingD [OF o [OF ord] s1(1), of ?s] s above [of ?s] by simp
      finally have le: "?m1 ! nat (?s - 1) \<le> ?m1 ! nat ?s" .
      have r1: "rising (?s - 1) ?m1" using rising_bend_first [OF m o [OF ord] s1(2)] by (simp add: m1_def)
      show "rising ?s ?m1" unfolding rising_def
      proof (intro allI impI)
        fix i j assume ij: "0 \<le> i" "i \<le> j" "j \<le> ?s"
        show "?m1 ! nat i \<le> ?m1 ! nat j"
        proof (cases "j = ?s \<and> i \<noteq> ?s")
          case True
          then show ?thesis using risingD [OF r1 ij(1), of "?s - 1"] le ij by simp
        next
          case False
          then show ?thesis using risingD [OF r1 ij(1,2)] ij by (cases "i = ?s") auto
        qed
      qed
      show "?m1 ! nat ?s < 10000 \<or> (\<forall>j. ?s < j \<and> j \<le> 100 \<longrightarrow> ?m1 ! nat j = 10000)"
      proof (cases "?m ! nat ?s = 10000")
        case True
        then have "?m1 ! nat j = 10000" if "?s < j" "j \<le> 100" for j
          using top_above [OF m o [OF ord] s(1), of j] above [of j] that by simp
        then show ?thesis by blast
      next
        case False
        then show ?thesis using map_ok_nth [OF m s] above [of ?s] s by simp
      qed
    qed
    moreover have m1: "bend 0 (?s - 1) 0 (?s * 100 - 100) 0 (?m ! nat (?s - 1) - dischg_reserve cfg) ?m = m1"
      by (simp add: m1_def)
    moreover have "dischg_map cfg extra b = Inr (bend (?s + 1) 100 (?s * 100) 10000 (?m1 ! nat ?s) 10000 ?m1)"
      using 3 by (simp add: dischg_map_def dischg_other_map_def Let_def map_at_ok [OF m s1(1,2)] map_at_ok [OF ok s] m1)
    ultimately show ?thesis using ok by (auto intro!: computesI)
  qed
qed

text \<open>The map of a new strategy is in order for every accepted configuration.\<close>

lemma initial_computes:
  assumes cfg: "cfg_ok cfg"
  shows "computes True (initial_map cfg)"
proof -
  define m where "m = map (\<lambda>i. int i * 100) [0..<101]"
  have m: "map_ok m" "rising 100 m" by (auto simp: m_def map_ok_def rising_def)
  let ?c = "chg_split_soc cfg" and ?r = "chg_reserve cfg"
  have c: "20 \<le> ?c" "?c \<le> 100" using cfg_ok_range [OF cfg] by simp_all
  have r: "?r \<le> 30 * ?c" using cfg_ok_reserve [OF cfg] .
  show ?thesis
  proof (cases "?c = 100")
    case True
    then have "initial_map cfg = Inr (bend 0 100 0 10000 0 (10000 - ?r) m)" by (simp add: initial_map_def m_def Let_def)
    then show ?thesis using m rising_bend_first [OF m, of 100] by (auto intro!: computesI)
  next
    case False
    define m1 where "m1 = bend 0 ?c 0 (?c * 100) 0 (m ! nat ?c - ?r) m"
    have c': "0 \<le> ?c" using c by simp
    have v: "m ! nat ?c = ?c * 100" using c by (simp add: m_def nth_map_upt nat_less_iff)
    have ok: "map_ok m1" using m by (simp add: m1_def)
    have e: "initial_map cfg = Inr (bend (?c + 1) 100 (?c * 100) 10000 (m1 ! nat ?c) 10000 m1)"
      using False by (simp add: initial_map_def Let_def map_at_ok [OF m(1) c' c(2)] map_at_ok [OF ok c' c(2)] flip: m_def m1_def)
    have can: "can_bend 0 ?c 0 (?c * 100) 0 (m ! nat ?c - ?r)" using c r v by (simp add: can_bend_def)
    have "m1 ! nat ?c \<le> ?c * 100 - ?r" unfolding m1_def using c v by (intro order.trans [OF bend_end [OF m(1) can]]) simp_all
    moreover have "70 \<le> (10000 - (?c * 100 - ?r)) sdiv (100 - ?c)"
      using cfg cfg_ok_range [OF cfg] False
      by (auto simp: cfg_ok_def validate_cfg_def validate_reserve_chg_slope_def slope_out_of_range_def Let_def split: if_splits)
    then have "70 * (100 - ?c) \<le> 10000 - (?c * 100 - ?r)" using False c by (intro le_sdiv) simp_all
    ultimately have "m1 ! nat ?c < 10000" using False c by simp
    then have "rising 100 (bend (?c + 1) 100 (?c * 100) 10000 (m1 ! nat ?c) 10000 m1)"
      using rising_bend_first [OF m c(2)] c' by (intro rising_last [OF ok]) (simp_all add: m1_def)
    then show ?thesis unfolding e using ok by (auto intro!: computesI)
  qed
qed

section \<open>The shown percentage\<close>

definition ends_ok :: "int list \<Rightarrow> bool" where
  "ends_ok m \<longleftrightarrow> map_ok m \<and> m ! 0 = 0 \<and> m ! 100 = FULL_SCALE"

lemma ends_fixed: "map_ok m \<Longrightarrow> ends_ok (fix_ends m)"
  using fix_ends_at [of m 0] fix_ends_at [of m 100] by (simp add: ends_ok_def)

text \<open>\<open>shown_as m c i\<close>: with the map \<open>m\<close> the charge \<open>c\<close> is shown_as as \<open>i\<close> percent.\<close>

definition shown_as :: "int list \<Rightarrow> int \<Rightarrow> nat \<Rightarrow> bool" where
  "shown_as m c i \<longleftrightarrow> i \<le> 100 \<and> c \<le> m ! i \<and> (\<forall>j<i. m ! j < c)"

lemma shown_exists:
  assumes "ends_ok m" and "c \<le> 10000"
  shows "\<exists>i. shown_as m c i"
proof -
  have top: "c \<le> m ! 100" using assms by (simp add: ends_ok_def)
  let ?i = "LEAST i. c \<le> m ! i"
  have "c \<le> m ! ?i" using top by (rule LeastI)
  moreover have "?i \<le> 100" using top by (rule Least_le)
  moreover have "m ! j < c" if "j < ?i" for j using not_less_Least [OF that] by simp
  ultimately show ?thesis unfolding shown_as_def by blast
qed

lemma shown_as_find: "shown_as m c i \<longleftrightarrow> find (\<lambda>i. c \<le> m ! i) [0..<101] = Some i"
  by (auto simp: shown_as_def find_upt0_Some)

lemma shown_mono: "shown_as m c i \<Longrightarrow> shown_as m d j \<Longrightarrow> c \<le> d \<Longrightarrow> i \<le> j"
  unfolding shown_as_def by (meson not_less order.trans leD)

definition centi :: "int list \<Rightarrow> int \<Rightarrow> nat \<Rightarrow> int" where
  "centi m c i = (if i = 0 then 0 else (int i - 1) * 100 + ((c - m ! (i - 1)) * 100) div (m ! i - m ! (i - 1)))"

lemma centi_range:
  assumes "shown_as m c i"
  shows "0 \<le> centi m c i \<and> int i * 100 - 100 \<le> centi m c i \<and> centi m c i \<le> int i * 100"
proof (cases i)
  case (Suc k)
  then have lt: "m ! k < c" "c \<le> m ! i" using assms by (auto simp: shown_as_def)
  then have "0 \<le> ((c - m ! k) * 100) div (m ! i - m ! k)" by (simp add: pos_imp_zdiv_nonneg_iff)
  moreover have "(c - m ! k) * 100 \<le> 100 * (m ! i - m ! k)" using lt by simp
  then have "((c - m ! k) * 100) div (m ! i - m ! k) \<le> (100 * (m ! i - m ! k)) div (m ! i - m ! k)"
    using lt by (intro zdiv_mono1) simp_all
  then have "((c - m ! k) * 100) div (m ! i - m ! k) \<le> 100"
    using lt nonzero_mult_div_cancel_right [of "m ! i - m ! k" 100] by simp
  ultimately show ?thesis using Suc by (simp add: centi_def)
qed (simp add: centi_def)

lemma centi_mono:
  assumes "shown_as m c i" and "shown_as m d j" and "c \<le> d"
  shows "centi m c i \<le> centi m d j"
proof (cases "i = j")
  case True
  then show ?thesis using assms
    by (cases i) (auto simp: centi_def shown_as_def intro!: zdiv_mono1)
next
  case False
  then have "i < j" using shown_mono [OF assms] by simp
  then show ?thesis using centi_range [OF assms(1)] centi_range [OF assms(2)] by simp
qed

lemma update_shows:
  assumes "shown_as (smooth_map b) (soc_centi b) i"
  shows "smooth_soc (bs_update_smmoth_soc b) = int i \<and> smooth_soc_centi (bs_update_smmoth_soc b) = centi (smooth_map b) (soc_centi b) i"
proof (cases "i = 0")
  case True
  then show ?thesis using assms [unfolded shown_as_find] by (simp add: bs_update_smmoth_soc_def Let_def centi_def)
next
  case False
  let ?m = "smooth_map b" and ?c = "soc_centi b"
  have lt: "?m ! (i - 1) < ?c" "?c \<le> ?m ! i" "i \<le> 100" using assms False by (auto simp: shown_as_def)
  have "((?c - ?m ! (i - 1)) * 100) sdiv (?m ! i - ?m ! (i - 1)) = ((?c - ?m ! (i - 1)) * 100) div (?m ! i - ?m ! (i - 1))"
    using lt by (intro sdiv_nonneg) simp_all
  then show ?thesis using False lt centi_range [OF assms] assms [unfolded shown_as_find]
    by (simp add: bs_update_smmoth_soc_def Let_def centi_def clamp_id)
qed

text \<open>C24: For every map with entries in range and the ends at empty and full, the shown percentage is the first entry
  that the charge does not exceed; the hundredths lie in its interval; and both follow the charge without ever
  going the other way.\<close>

theorem percentage_follows_charge:
  assumes "ends_ok (smooth_map b)" and "c \<le> d" and "d \<le> FULL_SCALE"
    and "low = bs_update_smmoth_soc (b\<lparr>soc_centi := c\<rparr>)" and "high = bs_update_smmoth_soc (b\<lparr>soc_centi := d\<rparr>)"
  shows "shown_as (smooth_map b) d (nat (smooth_soc high)) \<and> 0 \<le> smooth_soc high \<and>
    smooth_soc high * 100 - 100 \<le> smooth_soc_centi high \<and> smooth_soc_centi high \<le> smooth_soc high * 100 \<and>
    smooth_soc low \<le> smooth_soc high \<and> smooth_soc_centi low \<le> smooth_soc_centi high"
proof -
  obtain i j where i: "shown_as (smooth_map b) c i" and j: "shown_as (smooth_map b) d j"
    using shown_exists [OF assms(1)] assms(2,3) by (meson order.trans)
  show ?thesis
    using update_shows [of "b\<lparr>soc_centi := c\<rparr>" i] update_shows [of "b\<lparr>soc_centi := d\<rparr>" j] i j
      shown_mono [OF i j assms(2)] centi_range [OF j] centi_mono [OF i j assms(2)] assms(4,5) by simp
qed

definition demo_cfg :: reserve_cfg where
  "demo_cfg = \<lparr>start_soc = 0, end_soc = 100, dischg_reserve = 100, full_reserve = 50, chg_reserve = 200, chg_split_soc = 95\<rparr>"

definition straight_map :: "int list" where
  "straight_map = map (\<lambda>i. int i * 100) [0..<101]"

definition demo_smooth :: bs_strategy where
  "demo_smooth = (new_bs [demo_cfg] \<lparr>kf_size = 1024, kf_data = []\<rparr> \<lparr>kf_size = 256, kf_data = []\<rparr> 0)
     \<lparr>smooth_map := straight_map, inited := True\<rparr>"

lemma straight_at: "i \<le> 100 \<Longrightarrow> straight_map ! i = int i * 100"
  by (simp add: straight_map_def nth_map_upt)

lemma straight_ok: "map_ok straight_map" "ends_ok straight_map" "rising 100 straight_map"
  by (auto simp: straight_map_def map_ok_def ends_ok_def rising_def)

theorem percentage_follows_charge_witness:
  "shown_as straight_map 5050 (nat (smooth_soc (bs_update_smmoth_soc (demo_smooth\<lparr>soc_centi := 5050\<rparr>)))) \<and>
   smooth_soc (bs_update_smmoth_soc (demo_smooth\<lparr>soc_centi := 1234\<rparr>)) \<le> smooth_soc (bs_update_smmoth_soc (demo_smooth\<lparr>soc_centi := 5050\<rparr>))"
  using percentage_follows_charge [of demo_smooth 1234 5050 _ _, OF _ _ _ refl refl] straight_ok(2) by (simp add: demo_smooth_def)

section \<open>Which configuration is used\<close>

definition covers :: "int \<Rightarrow> reserve_cfg \<Rightarrow> bool" where
  "covers soc cfg \<longleftrightarrow> start_soc cfg \<le> clamp_val soc MIN_SOC MAX_SOC \<and> clamp_val soc MIN_SOC MAX_SOC \<le> end_soc cfg"

text \<open>C27: With configurations that were accepted from the device tree the binary search always finds one, for any
  percentage, valid or not: it is the one that a linear search finds, and no other one covers the percentage.\<close>

theorem search_finds_the_configuration:
  assumes "parse_reserve_config api mem node = Inr (cfgs b)"
  shows "\<exists>k<length (cfgs b). find_reserve_cfg_by_soc b soc = Some (cfgs b ! k) \<and>
    find (covers soc) (cfgs b) = Some (cfgs b ! k) \<and> (\<forall>j<length (cfgs b). covers soc (cfgs b ! j) = (j = k))"
proof -
  have ok: "cfgs_ok (cfgs b)" using parsed_ok [OF assms] .
  obtain k where k: "k < length (cfgs b)" "find_reserve_cfg_by_soc b soc = Some (cfgs b ! k)" "covers soc (cfgs b ! k)"
    using find_cfg [OF ok, of soc] by (auto simp: covers_def)
  have only: "j = k" if "j < length (cfgs b)" "covers soc (cfgs b ! j)" for j
    using ranges_ordered [OF ok, of j k] ranges_ordered [OF ok, of k j] that k by (cases j k rule: linorder_cases) (simp_all add: covers_def)
  have "\<forall>j<k. \<not> covers soc (cfgs b ! j)"
  proof (intro allI impI notI)
    fix j assume "j < k" and "covers soc (cfgs b ! j)"
    then show False using only [of j] k(1) by simp
  qed
  then have "find (covers soc) (cfgs b) = Some (cfgs b ! k)" unfolding find_Some_iff using k(1,3) by blast
  then show ?thesis using k only by blast
qed

definition smooth_api :: "unit of_api" where
  "smooth_api = demo_of_api\<lparr>of_property_count := (\<lambda>_ _. 6), of_property_read_u32_array := (\<lambda>_ _ k. Inr (take k [0, 100, 100, 50, 200, 95]))\<rparr>"

lemma smooth_api_parsed: "parse_reserve_config smooth_api True () = Inr [demo_cfg]"
  by (simp add: parse_reserve_config_def smooth_api_def cfg_of_def demo_cfg_def validate_cfgs_def validate_cfg_def validate_reserve_value_def
    is_valid_reserve_def c_abs_def validate_reserve_soc_range_def validate_reserve_chg_slope_def slope_out_of_range_def
    validate_reserve_continuity_def signed_divide_int_def Let_def upt_rec)

theorem search_finds_the_configuration_witness:
  "\<exists>k<length (cfgs demo_smooth). find_reserve_cfg_by_soc demo_smooth (- EINVAL) = Some (cfgs demo_smooth ! k) \<and>
     find (covers (- EINVAL)) (cfgs demo_smooth) = Some (cfgs demo_smooth ! k)"
proof -
  have "parse_reserve_config smooth_api True () = Inr (cfgs demo_smooth)" by (simp add: smooth_api_parsed demo_smooth_def new_bs_def)
  from search_finds_the_configuration [OF this, of "- EINVAL"] show ?thesis by blast
qed

section \<open>Order is kept\<close>

text \<open>Whether a reserve that is subtracted is negative; then a line may end above the entries behind it.\<close>

definition no_negative_reserve :: "reserve_cfg \<Rightarrow> bool" where
  "no_negative_reserve cfg \<longleftrightarrow> 0 \<le> chg_reserve cfg \<and> 0 \<le> dischg_reserve cfg"

lemma chg_map_computes:
  assumes m: "map_ok (smooth_map b)" and s: "0 \<le> smooth_soc b" "smooth_soc b \<le> 100" and cfg: "cfg_ok cfg" and on: "chg_online b"
    and o: "ordered \<Longrightarrow> rising 100 (smooth_map b) \<and> no_negative_reserve cfg \<and> \<not> meets_top cfg b"
  shows "chg_split_soc cfg = 100 \<Longrightarrow> computes ordered (split_eq_max_map cfg b)"
    and "chg_split_soc cfg \<noteq> 100 \<Longrightarrow> smooth_soc b = chg_split_soc cfg \<Longrightarrow> computes ordered (smooth_eq_split_map cfg b)"
    and "chg_split_soc cfg \<noteq> 100 \<Longrightarrow> smooth_soc b < chg_split_soc cfg \<Longrightarrow> computes ordered (smooth_lt_split_map cfg b)"
    and "chg_split_soc cfg \<noteq> 100 \<Longrightarrow> chg_split_soc cfg < smooth_soc b \<Longrightarrow> computes ordered (smooth_gt_split_map cfg b)"
proof -
  note c = cfg_ok_range [OF cfg]
  show "computes ordered (split_eq_max_map cfg b)" if "chg_split_soc cfg = 100"
    using split_eq_max_computes [OF m s cfg that on] o by (auto simp: computes_def)
  show "computes ordered (smooth_eq_split_map cfg b)" if "chg_split_soc cfg \<noteq> 100" "smooth_soc b = chg_split_soc cfg"
    using that c o by (intro smooth_eq_split_computes [OF m]) (auto simp: no_negative_reserve_def)
  show "computes ordered (smooth_lt_split_map cfg b)" if "chg_split_soc cfg \<noteq> 100" "smooth_soc b < chg_split_soc cfg"
    using that c o s by (intro smooth_lt_split_computes [OF m]) (auto simp: no_negative_reserve_def)
  show "computes ordered (smooth_gt_split_map cfg b)" if "chg_split_soc cfg \<noteq> 100" "chg_split_soc cfg < smooth_soc b"
    using that c o s by (intro smooth_gt_split_computes [OF m]) (auto simp: no_negative_reserve_def)
qed

end
