(* ===== verification/Chg_Smooth_Log.thy ===== *)
theory Chg_Smooth_Log
  imports Chg_Smooth "HOL-Library.Sublist"
begin

text \<open>
  The records of the battery smoothing. The log is shown to be a log of the newest records (an interface it is an
  instance of), whose text always fits its buffer and decodes to them. The queue for the upload is larger than
  what an upload accepts; what an upload does depends on how much it holds.
\<close>

section \<open>Logs of the newest records\<close>

text \<open>The longest end of a list whose sizes add up to at most \<open>c\<close>.\<close>

fun newest :: "('r \<Rightarrow> nat) \<Rightarrow> nat \<Rightarrow> 'r list \<Rightarrow> 'r list" where
  "newest sz c [] = []"
| "newest sz c (x # xs) = (if sum_list (map sz (x # xs)) \<le> c then x # xs else newest sz c xs)"

lemma newest_fits: "sum_list (map sz (newest sz c xs)) \<le> c"
  by (induction xs) auto

lemma newest_suffix: "suffix (newest sz c xs) xs"
  by (induction xs) (auto intro: suffix_ConsI)

lemma newest_all: "sum_list (map sz xs) \<le> c \<Longrightarrow> newest sz c xs = xs"
  by (cases xs) auto

lemma newest_maximal: "suffix ys xs \<Longrightarrow> sum_list (map sz ys) \<le> c \<Longrightarrow> suffix ys (newest sz c xs)"
  by (induction xs) (auto simp: suffix_Cons)

lemma newest_append: "sz r \<le> c \<Longrightarrow> newest sz c (xs @ [r]) = newest sz (c - sz r) xs @ [r]"
  by (induction xs) auto

lemma newest_newest: "newest sz c (newest sz c xs @ ys) = newest sz c (xs @ ys)"
  by (induction xs) (auto simp: not_le)

locale newest_log =
  fixes good :: "'s \<Rightarrow> bool" and content :: "'s \<Rightarrow> 'r list" and push :: "'r \<Rightarrow> 's \<Rightarrow> 's" and item :: "'r \<Rightarrow> bool"
    and sz :: "'r \<Rightarrow> nat" and cap :: nat
  assumes good_fits: "good s \<Longrightarrow> sum_list (map sz (content s)) \<le> cap"
    and item_fits: "item r \<Longrightarrow> sz r \<le> cap"
    and push_good: "good s \<Longrightarrow> item r \<Longrightarrow> good (push r s)"
    and push_content: "good s \<Longrightarrow> item r \<Longrightarrow> content (push r s) = newest sz (cap - sz r) (content s) @ [r]"
begin

lemma run_good: "good s \<Longrightarrow> \<forall>r\<in>set rs. item r \<Longrightarrow> good (fold push rs s)"
  by (induction rs arbitrary: s) (simp_all add: push_good)

lemma run_content: "good s \<Longrightarrow> \<forall>r\<in>set rs. item r \<Longrightarrow> content (fold push rs s) = newest sz cap (content s @ rs)"
proof (induction rs arbitrary: s)
  case Nil
  then show ?case by (simp add: newest_all good_fits)
next
  case (Cons r rs)
  then have "content (fold push (r # rs) s) = newest sz cap (newest sz cap (content s @ [r]) @ rs)"
    by (simp add: push_good push_content newest_append item_fits)
  then show ?case by (simp add: newest_newest)
qed

end

section \<open>The log of the battery smoothing\<close>

definition is_record :: "bytes \<Rightarrow> bool" where
  "is_record r \<longleftrightarrow> r \<noteq> [] \<and> unat (hd r) = length r"

text \<open>The records that a sequence of bytes starts with.\<close>

function records :: "bytes \<Rightarrow> bytes list" where
  "records bs =
     (if bs = [] \<or> unat (hd bs) = 0 \<or> unat (hd bs) > length bs then []
      else take (unat (hd bs)) bs # records (drop (unat (hd bs)) bs))"
  by auto
termination
  by (relation "measure length") auto

declare records.simps [simp del]

lemma records_Nil [simp]: "records [] = []"
  by (simp add: records.simps)

lemma records_append: "is_record r \<Longrightarrow> records (r @ bs) = r # records bs"
  by (subst records.simps) (auto simp: is_record_def)

lemma records_concat: "\<forall>r\<in>set rs. is_record r \<Longrightarrow> records (concat rs) = rs"
  by (induction rs) (simp_all add: records_append)

lemma is_record_records: "r \<in> set (records bs) \<Longrightarrow> is_record r"
proof (induction bs rule: records.induct)
  case (1 bs)
  show ?case
  proof (cases "bs = [] \<or> unat (hd bs) = 0 \<or> unat (hd bs) > length bs")
    case True
    then show ?thesis using 1 by (simp add: records.simps [of bs])
  next
    case False
    then have "is_record (take (unat (hd bs)) bs)" by (auto simp: is_record_def hd_take)
    then show ?thesis using 1 False by (auto simp: records.simps [of bs])
  qed
qed

definition log_ok :: "nat \<Rightarrow> kfifo \<Rightarrow> bool" where
  "log_ok n l \<longleftrightarrow> kf_size l = n \<and> length (kf_data l) \<le> n \<and> concat (records (kf_data l)) = kf_data l"

lemma log_ok_concat:
  "\<forall>r\<in>set rs. is_record r \<Longrightarrow> length (concat rs) \<le> n \<Longrightarrow> log_ok n \<lparr>kf_size = n, kf_data = concat rs\<rparr>"
  by (simp add: log_ok_def records_concat)

text \<open>Making room ends for a log of records, whatever memory there is; with memory it drops no more than it must.\<close>

lemma make_room_step:
  assumes "is_record r" and "n - length (concat (r # rs)) < need"
  shows "make_room mem need \<lparr>kf_size = n, kf_data = concat (r # rs)\<rparr> =
    (if mem (length (concat (r # rs))) then make_room mem need \<lparr>kf_size = n, kf_data = concat rs\<rparr>
     else Some (- ENOMEM, \<lparr>kf_size = n, kf_data = concat (r # rs)\<rparr>))"
  using assms by (cases r; subst make_room.simps) (simp_all add: kfifo_avail_def kfifo_out_def is_record_def)

lemma make_room_ends:
  "\<forall>r\<in>set rs. is_record r \<Longrightarrow> 0 < need \<Longrightarrow> need \<le> n \<Longrightarrow>
   \<exists>rc rs'. make_room mem need \<lparr>kf_size = n, kf_data = concat rs\<rparr> = Some (rc, \<lparr>kf_size = n, kf_data = concat rs'\<rparr>) \<and>
     suffix rs' rs \<and> (rc = 0 \<longrightarrow> length (concat rs') + need \<le> n \<or> rs' = []) \<and>
     (mem = (\<lambda>_. True) \<longrightarrow> rc = 0 \<and> rs' = newest length (n - need) rs)"
proof (induction rs)
  case Nil
  then show ?case by (subst make_room.simps) (auto simp: kfifo_avail_def intro!: exI [of _ "[]"])
next
  case (Cons r rs)
  show ?case
  proof (cases "n - length (concat (r # rs)) < need")
    case True
    then have small: "\<not> length (concat (r # rs)) \<le> n - need" using Cons.prems by simp
    show ?thesis
    proof (cases "mem (length (concat (r # rs)))")
      case mem: True
      obtain rc rs' where "make_room mem need \<lparr>kf_size = n, kf_data = concat rs\<rparr> = Some (rc, \<lparr>kf_size = n, kf_data = concat rs'\<rparr>)"
        "suffix rs' rs" "rc = 0 \<longrightarrow> length (concat rs') + need \<le> n \<or> rs' = []"
        "mem = (\<lambda>_. True) \<longrightarrow> rc = 0 \<and> rs' = newest length (n - need) rs"
        using Cons by auto
      moreover have "make_room mem need \<lparr>kf_size = n, kf_data = concat (r # rs)\<rparr> = make_room mem need \<lparr>kf_size = n, kf_data = concat rs\<rparr>"
        using make_room_step [of r n rs need mem] Cons.prems True mem by (simp del: concat.simps)
      moreover have "newest length (n - need) (r # rs) = newest length (n - need) rs" using small by (simp add: length_concat)
      ultimately show ?thesis by (intro exI [of _ rc] exI [of _ rs']) (simp add: suffix_ConsI del: concat.simps newest.simps)
    next
      case False
      then show ?thesis using make_room_step [of r n rs need mem] Cons.prems True
        by (intro exI [of _ "- ENOMEM"] exI [of _ "r # rs"]) (auto simp del: concat.simps)
    qed
  next
    case False
    then have fit: "length (concat (r # rs)) + need \<le> n" using Cons.prems by simp
    then have "make_room mem need \<lparr>kf_size = n, kf_data = concat (r # rs)\<rparr> = Some (0, \<lparr>kf_size = n, kf_data = concat (r # rs)\<rparr>)"
      using False by (subst make_room.simps) (simp add: kfifo_avail_def)
    moreover have "newest length (n - need) (r # rs) = r # rs" using fit by (intro newest_all) (simp add: length_concat)
    ultimately show ?thesis using fit by (intro exI [of _ 0] exI [of _ "r # rs"]) auto
  qed
qed

lemma length_sum: "length (concat rs) = sum_list (map length rs)"
  by (simp add: length_concat)

lemma push_record:
  assumes l: "log_ok n l" and r: "is_record r" "length r \<le> n"
  shows "\<exists>rc l'. bs_battery_log_fifo_push mem r l = Inr (rc, l') \<and> log_ok n l' \<and>
    (mem = (\<lambda>_. True) \<longrightarrow> rc = 0 \<and> records (kf_data l') = newest length (n - length r) (records (kf_data l)) @ [r])"
proof -
  let ?rs = "records (kf_data l)"
  have l_eq: "l = \<lparr>kf_size = n, kf_data = concat ?rs\<rparr>" using l by (simp add: log_ok_def)
  have recs: "\<forall>r\<in>set ?rs. is_record r" by (simp add: is_record_records)
  have pos: "0 < length r" using r(1) by (simp add: is_record_def)
  obtain rc rs' where m: "make_room mem (length r) l = Some (rc, \<lparr>kf_size = n, kf_data = concat rs'\<rparr>)" "suffix rs' ?rs"
    "rc = 0 \<longrightarrow> length (concat rs') + length r \<le> n \<or> rs' = []"
    "mem = (\<lambda>_. True) \<longrightarrow> rc = 0 \<and> rs' = newest length (n - length r) ?rs"
    using make_room_ends [OF recs pos r(2), of mem] l_eq by metis
  have recs': "\<forall>r\<in>set rs'. is_record r" using recs m(2) by (auto dest: set_mono_suffix)
  have le: "length (concat rs') \<le> n"
    using m(2) l unfolding suffix_def log_ok_def by (metis concat_append length_append le_add2 le_trans)
  show ?thesis
  proof (cases "rc = 0")
    case False
    then show ?thesis using m recs' le by (auto simp: bs_battery_log_fifo_push_def intro: log_ok_concat)
  next
    case True
    then have fit: "length r \<le> n - length (concat rs')" using m(3) r(2) by auto
    then have "bs_battery_log_fifo_push mem r l = Inr (0, \<lparr>kf_size = n, kf_data = concat (rs' @ [r])\<rparr>)"
      using m(1) True by (simp add: bs_battery_log_fifo_push_def kfifo_in_def kfifo_avail_def Let_def)
    moreover have "log_ok n \<lparr>kf_size = n, kf_data = concat (rs' @ [r])\<rparr>"
      using recs' r(1) fit le by (intro log_ok_concat) auto
    moreover have "records (concat (rs' @ [r])) = rs' @ [r]" using recs' r(1) by (intro records_concat) auto
    ultimately show ?thesis using m(4) by auto
  qed
qed

definition push_log :: "bytes \<Rightarrow> kfifo \<Rightarrow> kfifo" where
  "push_log r l = (case bs_battery_log_fifo_push (\<lambda>_. True) r l of Inl _ \<Rightarrow> l | Inr (_, l') \<Rightarrow> l')"

interpretation battery_log: newest_log "log_ok 256" "\<lambda>l. records (kf_data l)" push_log "\<lambda>r. is_record r \<and> length r \<le> 256" length 256
proof
  show "log_ok 256 l \<Longrightarrow> sum_list (map length (records (kf_data l))) \<le> 256" for l
    using length_sum [of "records (kf_data l)"] by (simp add: log_ok_def)
  show "is_record r \<and> length r \<le> 256 \<Longrightarrow> length r \<le> 256" for r :: bytes by simp
  show "log_ok 256 (push_log r l)" if "log_ok 256 l" "is_record r \<and> length r \<le> 256" for l r
    using push_record [of 256 l r "\<lambda>_. True"] that by (auto simp: push_log_def)
  show "records (kf_data (push_log r l)) = newest length (256 - length r) (records (kf_data l)) @ [r]"
    if "log_ok 256 l" "is_record r \<and> length r \<le> 256" for l r
    using push_record [of 256 l r "\<lambda>_. True"] that by (auto simp: push_log_def)
qed

section \<open>What records there are\<close>

definition track_ok :: "bs_track \<Rightarrow> bool" where
  "track_ok t \<longleftrightarrow> track_type t < length extra_len_map \<and> length (track_body t) = extra_len_map ! track_type t"

lemma extra_len_bounds: "i < length extra_len_map \<Longrightarrow> 2 \<le> extra_len_map ! i \<and> extra_len_map ! i \<le> 10"
  by (auto simp: extra_len_map_def nth_Cons split: nat.splits)

lemma track_size: "track_ok t \<Longrightarrow> 12 \<le> bs_track_calc_size (track_type t) \<and> bs_track_calc_size (track_type t) \<le> 20"
  using extra_len_bounds [of "track_type t"] by (auto simp: track_ok_def bs_track_calc_size_def)

lemma length_le_bytes_u64: "length (le_bytes n (w :: u64)) = n"
  by (induction n arbitrary: w) simp_all

lemma length_track_bytes: "track_ok t \<Longrightarrow> length (track_bytes utc t) = bs_track_calc_size (track_type t)"
  by (simp add: track_bytes_def track_ok_def bs_track_calc_size_def length_le_bytes_u64)

lemma track_record: "track_ok t \<Longrightarrow> is_record (track_bytes utc t) \<and> length (track_bytes utc t) \<le> 20"
  using length_track_bytes [of t utc] track_size [of t]
  by (auto simp: is_record_def track_bytes_def unat_of_nat)

lemma track_fits: "track_ok t \<Longrightarrow> is_record (track_bytes utc t) \<and> length (track_bytes utc t) \<le> 256"
  using track_record [of t utc] by simp

section \<open>Text buffers\<close>

lemma sizes: "TRACK_FIFO_SIZE = 767" "TRACK_CACHE_SIZE = 1023" "BATTERY_LOG_CACHE_SIZE = 345"
  "roundup_pow_of_two TRACK_FIFO_SIZE = 1024" "roundup_pow_of_two BATTERY_LOG_FIFO_SIZE = 256"
  by (simp_all add: BASE64_DECODE_LEN_def BASE64_ENCODE_LEN_def TOPIC_MSG_STR_BUF_def roundup_pow_of_two_def upt_rec)

lemma pop_and_encode:
  "fifo_pop_and_encode fifo_size cache_size True f cache =
     (let n = length (kf_data f) in
      if n = 0 then Inr (- ENODATA, f, cache)
      else if n > fifo_size then Inr (- EOVERFLOW, f, cache)
      else if (n + 2) div 3 * 4 \<ge> cache_size then Inl Buffer_overflow
      else Inr (0, f\<lparr>kf_data := []\<rparr>, base64_encode (kf_data f)))"
  by (simp add: fifo_pop_and_encode_def kfifo_out_def Let_def length_encode)

text \<open>What an upload does with the queue, by the number of bytes in it: nothing is there, or the text of the bytes
  is made and the queue emptied, or the text is written past the end of its buffer, or the upload is refused and
  the queue stays as it is. The buffer overflows for 766 and 767 bytes.\<close>

theorem track_upload_by_fill:
  "bs_track_fifo_pop_and_encode True b =
     (let n = length (kf_data (track_fifo b)) in
      if n = 0 then Inr (- ENODATA, b)
      else if n \<le> 765 then
        Inr (0, b\<lparr>track_fifo := (track_fifo b)\<lparr>kf_data := []\<rparr>, track_cache := rfc4648 (kf_data (track_fifo b))\<rparr>)
      else if n \<le> 767 then Inl Buffer_overflow
      else Inr (- EOVERFLOW, b))"
proof -
  let ?n = "length (kf_data (track_fifo b))"
  have "256 \<le> (?n + 2) div 3 \<longleftrightarrow> ?n > 765" by (auto simp: less_eq_div_iff_mult_less_eq)
  then have "(?n + 2) div 3 * 4 \<ge> 1023 \<longleftrightarrow> ?n > 765" by linarith
  then show ?thesis
    by (simp add: bs_track_fifo_pop_and_encode_def pop_and_encode BASE64_DECODE_LEN_def TOPIC_MSG_STR_BUF_def Let_def encode_rfc4648)
qed

lemma log_never_overflows:
  "log_ok 256 (battery_log_fifo b) \<Longrightarrow> kf_data (battery_log_fifo b) \<noteq> [] \<Longrightarrow>
   bs_battery_log_fifo_pop_and_encode True b =
     Inr (0, b\<lparr>battery_log_fifo := (battery_log_fifo b)\<lparr>kf_data := []\<rparr>, battery_log_cache := base64_encode (kf_data (battery_log_fifo b))\<rparr>)"
proof -
  assume l: "log_ok 256 (battery_log_fifo b)" and ne: "kf_data (battery_log_fifo b) \<noteq> []"
  have "\<not> (length (kf_data (battery_log_fifo b)) + 2) div 3 * 4 \<ge> 345" using l unfolding log_ok_def by linarith
  then show ?thesis using l ne by (simp add: bs_battery_log_fifo_pop_and_encode_def pop_and_encode Let_def log_ok_def BASE64_ENCODE_LEN_def)
qed

fun log_all :: "bytes list \<Rightarrow> kfifo \<Rightarrow> bs_fault + kfifo" where
  "log_all [] l = Inr l"
| "log_all (r # rs) l = and_then (bs_battery_log_fifo_push (\<lambda>_. True) r l) (\<lambda>(_, l). log_all rs l)"

lemma log_all_fold: "log_ok 256 l \<Longrightarrow> \<forall>r\<in>set rs. is_record r \<and> length r \<le> 256 \<Longrightarrow> log_all rs l = Inr (fold push_log rs l)"
proof (induction rs arbitrary: l)
  case (Cons r rs)
  then obtain rc l' where "bs_battery_log_fifo_push (\<lambda>_. True) r l = Inr (rc, l')" "log_ok 256 l'"
    using push_record [of 256 l r "\<lambda>_. True"] by auto
  then show ?case using Cons by (simp add: push_log_def)
qed simp

text \<open>The numbers of the line for the battery log.\<close>

definition log_numbers :: "bs_strategy \<Rightarrow> int list" where
  "log_numbers b =
     [soc_centi b sdiv PERCENT_SCALE, soc_centi b smod PERCENT_SCALE, smooth_soc b,
      smooth_soc_centi b sdiv PERCENT_SCALE, smooth_soc_centi b smod PERCENT_SCALE,
      smooth_map_lower b sdiv PERCENT_SCALE, smooth_map_lower b smod PERCENT_SCALE,
      smooth_map_upper b sdiv PERCENT_SCALE, smooth_map_upper b smod PERCENT_SCALE]"

lemma dump_after_records:
  assumes "battery_log_fifo b = \<lparr>kf_size = 256, kf_data = []\<rparr>" and "\<forall>(utc, t)\<in>set ts. track_ok t" and "ts \<noteq> []"
  shows "\<exists>l text b'. log_all (map (\<lambda>(utc, t). track_bytes utc t) ts) (battery_log_fifo b) = Inr l \<and>
    bs_dump_log_data True (b\<lparr>battery_log_fifo := l\<rparr>) = Inr ((log_numbers b, text), b') \<and> length text \<le> 344 \<and>
    rfc4648_decode text = Some (concat (newest length 256 (map (\<lambda>(utc, t). track_bytes utc t) ts)))"
proof -
  let ?rs = "map (\<lambda>(utc, t). track_bytes utc t) ts" and ?l0 = "\<lparr>kf_size = 256, kf_data = []\<rparr>"
  have ok: "\<forall>r\<in>set ?rs. is_record r \<and> length r \<le> 256" using assms(2) track_fits by auto
  have l0: "log_ok 256 ?l0" by (simp add: log_ok_def)
  let ?l = "fold push_log ?rs ?l0"
  have all: "log_all ?rs (battery_log_fifo b) = Inr ?l" using log_all_fold [OF l0 ok] assms(1) by simp
  have good: "log_ok 256 ?l" using battery_log.run_good [OF l0 ok] .
  have "records (kf_data ?l) = newest length 256 ?rs" using battery_log.run_content [OF l0 ok] by simp
  then have data: "kf_data ?l = concat (newest length 256 ?rs)" using good by (simp add: log_ok_def)
  have "suffix [last ?rs] ?rs" using assms(3) by (metis append_butlast_last_id map_is_Nil_conv suffix_def)
  then have "suffix [last ?rs] (newest length 256 ?rs)"
    using ok assms(3) by (intro newest_maximal) (auto simp: last_map last_in_set)
  then have "kf_data ?l \<noteq> []" using ok assms(3) data
    by (auto simp: suffix_def is_record_def last_map)
  moreover have "length (rfc4648 (kf_data ?l)) \<le> 344"
  proof -
    have "length (kf_data ?l) \<le> 256" using good by (simp add: log_ok_def)
    then show ?thesis unfolding length_rfc4648 by linarith
  qed
  ultimately show ?thesis
    using all good data
    by (auto simp: bs_dump_log_data_def log_never_overflows encode_rfc4648 decode_rfc4648 log_numbers_def)
qed

text \<open>However many records are written, the log holds the newest of them that fit into its 256 bytes, all whole; the
  line for the battery log stays inside its buffer and decodes to them.\<close>

theorem log_text_has_newest:
  assumes "battery_log_fifo b = \<lparr>kf_size = 256, kf_data = []\<rparr>" and "\<forall>(utc, t)\<in>set ts. track_ok t" and "ts \<noteq> []"
  shows "\<exists>l ns text b'. log_all (map (\<lambda>(utc, t). track_bytes utc t) ts) (battery_log_fifo b) = Inr l \<and>
    bs_dump_log_data True (b\<lparr>battery_log_fifo := l\<rparr>) = Inr ((ns, text), b') \<and>
    rfc4648_decode text = Some (concat (newest length 256 (map (\<lambda>(utc, t). track_bytes utc t) ts)))"
  using dump_after_records [OF assms] by blast

definition demo_bs :: bs_strategy where
  "demo_bs = new_bs [\<lparr>start_soc = 0, end_soc = 100, dischg_reserve = 100, full_reserve = 50, chg_reserve = 200, chg_split_soc = 95\<rparr>]
     \<lparr>kf_size = 1024, kf_data = []\<rparr> \<lparr>kf_size = 256, kf_data = []\<rparr> 0"

definition demo_tracks :: "(int \<times> bs_track) list" where
  "demo_tracks = map (\<lambda>i. (int i, \<lparr>track_type = MAP_TYPE_INIT_SPLIT_EQ_MAX, track_body = b16 (int i)\<rparr>)) [0..<30]"

lemma demo_tracks_ok: "\<forall>(utc, t)\<in>set demo_tracks. track_ok t"
  by (auto simp: demo_tracks_def track_ok_def extra_len_map_def b16_def numeral_2_eq_2)

theorem log_text_has_newest_witness:
  "\<exists>l ns text b'. log_all (map (\<lambda>(utc, t). track_bytes utc t) demo_tracks) (battery_log_fifo demo_bs) = Inr l \<and>
    bs_dump_log_data True (demo_bs\<lparr>battery_log_fifo := l\<rparr>) = Inr ((ns, text), b') \<and>
    rfc4648_decode text = Some (concat (newest length 256 (map (\<lambda>(utc, t). track_bytes utc t) demo_tracks)))"
proof -
  have 1: "battery_log_fifo demo_bs = \<lparr>kf_size = 256, kf_data = []\<rparr>" by (simp add: demo_bs_def new_bs_def)
  have 3: "demo_tracks \<noteq> []" by (simp add: demo_tracks_def)
  show ?thesis using log_text_has_newest [OF 1 demo_tracks_ok 3] .
qed

end
