(* ===== verification/Chg_Smooth_Steps.thy ===== *)
theory Chg_Smooth_Steps
  imports Chg_Smooth_Order Chg_Smooth_Log
begin

text \<open>
  The battery smoothing as a whole: what every operation keeps of the state, which calls can go wrong and when, the
  states that are reached from an accepted device tree, and the queue that is never emptied again once it holds
  more than an upload accepts.
\<close>

section \<open>The queues\<close>

definition queues_ok :: "bs_strategy \<Rightarrow> bool" where
  "queues_ok b \<longleftrightarrow> kf_size (track_fifo b) = 1024 \<and> length (kf_data (track_fifo b)) \<le> 1024 \<and> log_ok 256 (battery_log_fifo b)"

lemma upload_refused: "767 < length (kf_data (track_fifo b)) \<Longrightarrow> bs_track_upload b e = Inr (- EOVERFLOW, b, e)"
  by (auto simp: bs_track_upload_def bs_track_fifo_pop_and_encode_def fifo_pop_and_encode_def Let_def BASE64_DECODE_LEN_def TOPIC_MSG_STR_BUF_def)

lemma in_ok: "length (kf_data f) \<le> kf_size f \<Longrightarrow>
    kf_size (snd (kfifo_in bs f)) = kf_size f \<and> length (kf_data (snd (kfifo_in bs f))) \<le> kf_size f"
  by (auto simp: kfifo_in_def kfifo_avail_def Let_def)

text \<open>A record takes at least twelve bytes, unless the queue is full.\<close>

definition longer :: "kfifo \<Rightarrow> kfifo \<Rightarrow> bool" where
  "longer f f' \<longleftrightarrow> prefix (kf_data f) (kf_data f') \<and> min 1024 (length (kf_data f) + 12) \<le> length (kf_data f')"

lemma in_longer: "kf_size f = 1024 \<Longrightarrow> 12 \<le> length bs \<Longrightarrow> longer f (snd (kfifo_in bs f))"
  by (auto simp: longer_def kfifo_in_def kfifo_avail_def Let_def)

text \<open>Writing a record never leaves the bounds, never empties the queue and leaves everything else alone.\<close>

lemma push_effect:
  assumes q: "queues_ok b" and t: "track_ok t"
  shows "\<exists>rc f l. bs_track_push_to_fifo t b e = Inr (rc, b\<lparr>track_fifo := f, battery_log_fifo := l\<rparr>, e) \<and>
    queues_ok (b\<lparr>track_fifo := f, battery_log_fifo := l\<rparr>) \<and> longer (track_fifo b) f"
proof -
  let ?need = "bs_track_calc_size (track_type t)" and ?bytes = "track_bytes (bs_get_current_time_s e) t"
  let ?f = "snd (kfifo_in ?bytes (track_fifo b))"
  have need: "?need \<noteq> 0" "?need \<le> 20" using track_size [OF t] by simp_all
  have up: "(if kfifo_avail (track_fifo b) < ?need then bs_track_upload b e else Inr (0, b, e)) = Inr (rc, b, e)"
    if "rc = (if kfifo_avail (track_fifo b) < ?need then - EOVERFLOW else 0)" for rc
  proof (cases "kfifo_avail (track_fifo b) < ?need")
    case True
    then have "767 < length (kf_data (track_fifo b))" using need q by (simp add: kfifo_avail_def queues_ok_def)
    then show ?thesis using True that by (simp add: upload_refused)
  qed (use that in simp)
  obtain rc l where l: "bs_battery_log_fifo_push (old_mem e) ?bytes (battery_log_fifo b) = Inr (rc, l)" "log_ok 256 l"
    using push_record [of 256 "battery_log_fifo b" ?bytes "old_mem e"] q track_fits [OF t] by (auto simp: queues_ok_def)
  have "\<exists>rc. bs_track_push_to_fifo t b e = Inr (rc, b\<lparr>track_fifo := ?f, battery_log_fifo := l\<rparr>, e)"
    using need l(1) by (simp add: bs_track_push_to_fifo_def Let_def up [OF refl] split_beta)
  moreover have "queues_ok (b\<lparr>track_fifo := ?f, battery_log_fifo := l\<rparr>)"
    using q l(2) in_ok [of "track_fifo b" ?bytes] by (simp add: queues_ok_def)
  moreover have "longer (track_fifo b) ?f"
    using q track_size [OF t] length_track_bytes [OF t] by (intro in_longer) (simp_all add: queues_ok_def)
  ultimately show ?thesis by blast
qed

text \<open>What an update of the map changes: the map, the two queues and, when unplugged, the note of a full charge.\<close>

definition bent :: "bool \<Rightarrow> bs_strategy \<Rightarrow> bs_strategy \<Rightarrow> bool" where
  "bent ordered b b' \<longleftrightarrow> (\<exists>m f l full. b' = b\<lparr>smooth_map := m, chg_full := full, track_fifo := f, battery_log_fifo := l\<rparr> \<and>
     ends_ok m \<and> (ordered \<longrightarrow> rising 100 m) \<and> queues_ok b' \<and> longer (track_fifo b) f)"

lemma updates_commute [simp]:
  "b\<lparr>track_fifo := f, battery_log_fifo := l, smooth_map := m\<rparr> = b\<lparr>smooth_map := m, track_fifo := f, battery_log_fifo := l\<rparr>"
  by (cases b) simp

lemma bentI:
  "ends_ok m \<Longrightarrow> (ordered \<Longrightarrow> rising 100 m) \<Longrightarrow> queues_ok (b\<lparr>track_fifo := f, battery_log_fifo := l\<rparr>) \<Longrightarrow>
   longer (track_fifo b) f \<Longrightarrow> bent ordered b (b\<lparr>smooth_map := m, chg_full := full, track_fifo := f, battery_log_fifo := l\<rparr>)"
  unfolding bent_def queues_ok_def by (intro exI [of _ m] exI [of _ f] exI [of _ l] exI [of _ full]) simp

lemma queues_irrelevant [simp]:
  "queues_ok (b\<lparr>smooth_map := m\<rparr>) = queues_ok b" "queues_ok (b\<lparr>chg_full := full\<rparr>) = queues_ok b"
  by (simp_all add: queues_ok_def)

lemma record_map_effect:
  assumes q: "queues_ok b" and t: "track_ok t"
  shows "\<exists>f l. record_map t m b e = Inr (b\<lparr>smooth_map := m, track_fifo := f, battery_log_fifo := l\<rparr>, e) \<and>
    queues_ok (b\<lparr>track_fifo := f, battery_log_fifo := l\<rparr>) \<and> longer (track_fifo b) f"
proof -
  obtain rc f l where p: "bs_track_push_to_fifo t (b\<lparr>smooth_map := m\<rparr>) e =
      Inr (rc, b\<lparr>smooth_map := m, track_fifo := f, battery_log_fifo := l\<rparr>, e)"
    "queues_ok (b\<lparr>smooth_map := m, track_fifo := f, battery_log_fifo := l\<rparr>)" "longer (track_fifo b) f"
    using push_effect [of "b\<lparr>smooth_map := m\<rparr>" t e] q t by auto
  then show ?thesis by (auto simp: record_map_def queues_ok_def)
qed

section \<open>The updates of the map\<close>

lemma length_le_bytes_u16: "length (le_bytes n (w :: u16)) = n"
  by (induction n arbitrary: w) simp_all

lemma length_b [simp]: "length (b8 i) = 1" "length (b16 i) = 2"
  by (simp_all add: b8_def b16_def length_le_bytes_u16)

lemma track_okI: "k < 10 \<Longrightarrow> length body = extra_len_map ! k \<Longrightarrow> track_ok \<lparr>track_type = k, track_body = body\<rparr>"
  by (simp add: track_ok_def extra_len_map_def)

lemma extra_lens:
  "extra_len_map ! 0 = 2" "extra_len_map ! 1 = 3" "extra_len_map ! 2 = 7" "extra_len_map ! 3 = 5" "extra_len_map ! 4 = 10"
  "extra_len_map ! 5 = 8" "extra_len_map ! 6 = 8" "extra_len_map ! 7 = 6" "extra_len_map ! 8 = 6" "extra_len_map ! 9 = 7"
  by (simp_all add: extra_len_map_def)

lemma handled:
  assumes "computes ordered r" and "queues_ok b" and "track_ok t"
  shows "\<exists>b'. and_then (and_then r (\<lambda>m. record_map t m b e)) (\<lambda>(b, e). Inr (b\<lparr>smooth_map := fix_ends (smooth_map b)\<rparr>, e)) = Inr (b', e) \<and>
    bent ordered b b'"
proof -
  obtain m where m: "r = Inr m" "map_ok m" "ordered \<Longrightarrow> rising 100 m" using assms(1) by (auto simp: computes_def)
  obtain f l where r: "record_map t m b e = Inr (b\<lparr>smooth_map := m, track_fifo := f, battery_log_fifo := l\<rparr>, e)"
    "queues_ok (b\<lparr>track_fifo := f, battery_log_fifo := l\<rparr>)" "longer (track_fifo b) f"
    using record_map_effect [OF assms(2,3)] by blast
  have "bent ordered b (b\<lparr>smooth_map := fix_ends m, chg_full := chg_full b, track_fifo := f, battery_log_fifo := l\<rparr>)"
    using m r by (intro bentI) (auto simp: ends_fixed rising_fix_ends)
  then show ?thesis using m(1) r(1) by simp
qed


text \<open>With a percentage in range each update succeeds, whatever is in the queues.\<close>

lemma chg_map_updates:
  assumes m: "map_ok (smooth_map b)" and q: "queues_ok b" and s: "0 \<le> smooth_soc b" "smooth_soc b \<le> 100" and on: "chg_online b"
    and cfg: "find_reserve_cfg_by_soc b (smooth_soc b) = Some cfg" "cfg_ok cfg"
    and o: "ordered \<Longrightarrow> rising 100 (smooth_map b) \<and> no_negative_reserve cfg \<and> \<not> meets_top cfg b"
  shows "\<exists>b'. bs_update_chg_map b e = Inr (b', e) \<and> bent ordered b b'"
proof -
  note c = chg_map_computes [OF m s cfg(2) on, of ordered]
  have split: "0 \<le> chg_split_soc cfg" "chg_split_soc cfg \<le> 100" using cfg_ok_range [OF cfg(2)] by simp_all
  note at_soc = map_at_ok [OF m s] and at_split = map_at_ok [OF m split]
  have f: "bs_update_chg_map b e =
      and_then
        (if chg_split_soc cfg = 100 then handle_chg_map_split_eq_max cfg b e
         else if smooth_soc b = chg_split_soc cfg then handle_chg_map_smooth_eq_split cfg b e
         else if smooth_soc b < chg_split_soc cfg then handle_chg_map_smooth_lt_split cfg b e
         else handle_chg_map_smooth_gt_split cfg b e)
        (\<lambda>(b, e). Inr (b\<lparr>smooth_map := fix_ends (smooth_map b)\<rparr>, e))"
    by (simp add: bs_update_chg_map_def cfg(1))
  consider "chg_split_soc cfg = 100" | "chg_split_soc cfg \<noteq> 100" "chg_split_soc cfg = smooth_soc b"
    | "chg_split_soc cfg \<noteq> 100" "smooth_soc b < chg_split_soc cfg" | "chg_split_soc cfg \<noteq> 100" "chg_split_soc cfg < smooth_soc b"
    by linarith
  then show ?thesis
  proof cases
    case 1
    then have "computes ordered (split_eq_max_map cfg b)" using c(1) o by blast
    from handled [OF this q, of _ e] show ?thesis using 1
      by (simp add: f handle_chg_map_split_eq_max_def split_eq_max_track_def track_okI extra_lens)
  next
    case 2
    have "computes ordered (smooth_eq_split_map cfg b)" using c(2) [OF o 2(1) 2(2) [symmetric]] .
    from handled [OF this q, of _ e] show ?thesis using 2
      by (simp add: f handle_chg_map_smooth_eq_split_def smooth_eq_split_track_def at_soc track_okI extra_lens)
  next
    case 3
    then have "computes ordered (smooth_lt_split_map cfg b)" using c(3) o by blast
    from handled [OF this q, of _ e] show ?thesis using 3
      by (simp add: f handle_chg_map_smooth_lt_split_def smooth_lt_split_track_def at_split track_okI extra_lens)
  next
    case 4
    then have "computes ordered (smooth_gt_split_map cfg b)" using c(4) o by blast
    from handled [OF this q, of _ e] show ?thesis using 4
      by (simp add: f handle_chg_map_smooth_gt_split_def smooth_gt_split_track_def at_soc at_split track_okI extra_lens)
  qed
qed

lemma dischg_track_ok:
  assumes m: "map_ok (smooth_map b)" and s: "0 \<le> smooth_soc b" "smooth_soc b \<le> 100"
  shows "\<exists>t. dischg_track cfg extra b = Inr t \<and> track_ok t"
proof -
  have "smooth_map b \<noteq> []" using m by (auto simp: map_ok_def)
  moreover have "map_at (smooth_map b) (smooth_soc b - 1) = Inr (smooth_map b ! nat (smooth_soc b - 1))" if "\<not> is_dischg_no_reserve b"
    using that s by (intro map_at_ok [OF m]) (auto simp: is_dischg_no_reserve_def)
  ultimately show ?thesis using map_at_ok [OF m s] by (auto simp: dischg_track_def track_okI extra_lens)
qed

lemma dischg_bends:
  assumes q: "queues_ok b" and cfg: "find_reserve_cfg_by_soc b (smooth_soc b) = Some cfg"
    and t: "dischg_track cfg (if chg_full b then full_reserve cfg else 0) b = Inr t" "track_ok t"
    and c: "computes ordered (dischg_map cfg (if chg_full b then full_reserve cfg else 0) b)"
  shows "\<exists>b' m. bs_update_dischg_map b e = Inr (b', e) \<and> bent ordered b b' \<and>
    dischg_map cfg (if chg_full b then full_reserve cfg else 0) b = Inr m \<and> smooth_map b' = fix_ends m \<and> soc_centi b' = soc_centi b"
proof -
  let ?extra = "if chg_full b then full_reserve cfg else 0"
  obtain m' where m': "dischg_map cfg ?extra b = Inr m'" "map_ok m'" "ordered \<Longrightarrow> rising 100 m'" using c by (auto simp: computes_def)
  obtain f l where r: "record_map t (fix_ends m') (b\<lparr>chg_full := False\<rparr>) e =
      Inr (b\<lparr>chg_full := False, smooth_map := fix_ends m', track_fifo := f, battery_log_fifo := l\<rparr>, e)"
    "queues_ok (b\<lparr>chg_full := False, track_fifo := f, battery_log_fifo := l\<rparr>)" "longer (track_fifo b) f"
    using record_map_effect [of "b\<lparr>chg_full := False\<rparr>" t "fix_ends m'" e] q t(2) by auto
  have "bent ordered b (b\<lparr>smooth_map := fix_ends m', chg_full := False, track_fifo := f, battery_log_fifo := l\<rparr>)"
    using m' r by (intro bentI) (auto simp: ends_fixed rising_fix_ends queues_ok_def)
  moreover have "b\<lparr>smooth_map := fix_ends m', chg_full := False, track_fifo := f, battery_log_fifo := l\<rparr> =
      b\<lparr>chg_full := False, smooth_map := fix_ends m', track_fifo := f, battery_log_fifo := l\<rparr>"
    by (cases b) simp
  ultimately have "bent ordered b (b\<lparr>chg_full := False, smooth_map := fix_ends m', track_fifo := f, battery_log_fifo := l\<rparr>)"
    by (simp only:)
  then show ?thesis using m'(1) t(1) r(1) by (simp add: bs_update_dischg_map_def cfg)
qed

lemma dischg_map_updates:
  assumes m: "map_ok (smooth_map b)" and q: "queues_ok b" and s: "0 \<le> smooth_soc b" "smooth_soc b \<le> 100" and off: "\<not> chg_online b"
    and cfg: "find_reserve_cfg_by_soc b (smooth_soc b) = Some cfg"
    and o: "ordered \<Longrightarrow> rising 100 (smooth_map b) \<and> no_negative_reserve cfg \<and> \<not> meets_top cfg b"
  shows "\<exists>b' m. bs_update_dischg_map b e = Inr (b', e) \<and> bent ordered b b' \<and>
    dischg_map cfg (if chg_full b then full_reserve cfg else 0) b = Inr m \<and> smooth_map b' = fix_ends m \<and> soc_centi b' = soc_centi b"
proof -
  obtain t where t: "dischg_track cfg (if chg_full b then full_reserve cfg else 0) b = Inr t" "track_ok t"
    using dischg_track_ok [OF m s] by blast
  show ?thesis
    using dischg_bends [OF q cfg t dischg_computes [OF m s, of ordered cfg]] o off by (auto simp: no_negative_reserve_def)
qed

text \<open>Before the first reading of the gauge the percentage is an error code; then an entry outside of the map is read,
  except when the charger is off and the battery was full.\<close>

lemma unknown_percentage:
  assumes ok: "cfgs_ok (cfgs b)" and m: "map_ok (smooth_map b)" and q: "queues_ok b" and s: "smooth_soc b = - EINVAL"
  shows "chg_online b \<Longrightarrow> bs_update_chg_map b e = Inl Bad_index"
    and "\<not> chg_full b \<Longrightarrow> bs_update_dischg_map b e = Inl Bad_index"
    and "chg_full b \<Longrightarrow> \<exists>b'. bs_update_dischg_map b e = Inr (b', e) \<and> bent False b b'"
proof -
  obtain cfg where cfg: "find_reserve_cfg_by_soc b (- EINVAL) = Some cfg" "cfg_ok cfg"
    using find_cfg [OF ok, of "- EINVAL"] found_ok [OF ok] by auto
  have split: "0 \<le> chg_split_soc cfg" "chg_split_soc cfg \<le> 100" "20 \<le> chg_split_soc cfg" using cfg_ok_range [OF cfg(2)] by simp_all
  have out: "map_at m' (- EINVAL) = Inl Bad_index" for m' by (simp add: map_at_def)
  show "bs_update_chg_map b e = Inl Bad_index"
    using cfg split out s map_at_ok [OF m split(1,2)]
    by (auto simp: bs_update_chg_map_def handle_chg_map_split_eq_max_def split_eq_max_map_def handle_chg_map_smooth_lt_split_def
      smooth_lt_split_track_def smooth_lt_split_map_def Let_def)
  show "bs_update_dischg_map b e = Inl Bad_index" if "\<not> chg_full b"
    using cfg out s that by (simp add: bs_update_dischg_map_def dischg_track_def dischg_map_def is_dischg_no_reserve_def dischg_no_reserve_map_def Let_def)
  show "\<exists>b'. bs_update_dischg_map b e = Inr (b', e) \<and> bent False b b'" if full: "chg_full b"
  proof -
    obtain t where "dischg_track cfg (if chg_full b then full_reserve cfg else 0) b = Inr t" "track_ok t"
      using full s by (auto simp: dischg_track_def track_okI extra_lens)
    moreover have "computes False (dischg_map cfg (if chg_full b then full_reserve cfg else 0) b)"
      using full s m by (auto simp: dischg_map_def intro!: computesI)
    ultimately show ?thesis using dischg_bends [OF q, of cfg] cfg(1) s by fastforce
  qed
qed

definition bs_remap :: "bs_strategy \<Rightarrow> ('d, 'k) smooth_env \<Rightarrow> bs_fault + bs_strategy \<times> ('d, 'k) smooth_env" where
  "bs_remap b e = (if chg_online b then bs_update_chg_map b e else bs_update_dischg_map b e)"

lemma remap_bends:
  assumes "cfgs_ok (cfgs b)" and "map_ok (smooth_map b)" and "queues_ok b" and "0 \<le> smooth_soc b" and "smooth_soc b \<le> 100"
    and "ordered \<Longrightarrow> rising 100 (smooth_map b) \<and> (\<forall>cfg. find_reserve_cfg_by_soc b (smooth_soc b) = Some cfg \<longrightarrow> no_negative_reserve cfg \<and> \<not> meets_top cfg b)"
  shows "\<exists>b'. bs_remap b e = Inr (b', e) \<and> bent ordered b b'"
proof -
  obtain cfg where cfg: "find_reserve_cfg_by_soc b (smooth_soc b) = Some cfg" "cfg_ok cfg"
    using find_cfg [OF assms(1), of "smooth_soc b"] found_ok [OF assms(1)] by auto
  have o: "rising 100 (smooth_map b) \<and> no_negative_reserve cfg \<and> \<not> meets_top cfg b" if ordered using assms(6) that cfg(1) by blast
  show ?thesis
  proof (cases "chg_online b")
    case True
    show ?thesis using chg_map_updates [OF assms(2-5) True cfg o] True by (simp add: bs_remap_def)
  next
    case False
    obtain b' where "bs_update_dischg_map b e = Inr (b', e)" "bent ordered b b'"
      using dischg_map_updates [OF assms(2-5) False cfg(1) o] by blast
    then show ?thesis using False by (simp add: bs_remap_def)
  qed
qed

text \<open>C26: Whenever the charger is plugged in or out, with accepted configurations and a percentage in range, the map is
  bent without leaving its bounds, its entries stay in range and its ends fixed; and it stays in order, unless a
  reserve is negative or the charge is just at the coincidence at which the code does not lay the next line.\<close>

theorem map_stays_in_order:
  assumes "parse_reserve_config api mem node = Inr (cfgs b)" and "ends_ok (smooth_map b)" and "queues_ok b"
    and "0 \<le> smooth_soc b" and "smooth_soc b \<le> MAX_SOC"
  shows "\<exists>b'. bs_remap b e = Inr (b', e) \<and> ends_ok (smooth_map b') \<and> queues_ok b' \<and>
    (rising MAX_SOC (smooth_map b) \<and> (\<forall>cfg\<in>set (cfgs b). no_negative_reserve cfg \<and> \<not> meets_top cfg b) \<longrightarrow>
     rising MAX_SOC (smooth_map b'))"
proof -
  note ok = parsed_ok [OF assms(1)]
  have "cfg \<in> set (cfgs b)" if "find_reserve_cfg_by_soc b (smooth_soc b) = Some cfg" for cfg
    using find_cfg [OF ok, of "smooth_soc b"] that by auto
  moreover have "map_ok (smooth_map b)" using assms(2) by (simp add: ends_ok_def)
  ultimately obtain b' where "bs_remap b e = Inr (b', e)"
    "bent (rising 100 (smooth_map b) \<and> (\<forall>cfg\<in>set (cfgs b). no_negative_reserve cfg \<and> \<not> meets_top cfg b)) b b'"
    using remap_bends [OF ok _ assms(3-5), of "rising 100 (smooth_map b) \<and> (\<forall>cfg\<in>set (cfgs b). no_negative_reserve cfg \<and> \<not> meets_top cfg b)" e]
    by blast
  then show ?thesis by (auto simp: bent_def)
qed

definition demo_around :: "(unit, nat) smooth_env" where
  "demo_around =
     \<lparr>sur = demo_measured 50 300 4000 0 300 0, real_time = 0, gmt_offset = None, batt_capacity_mah = 5000, raw_mem = True,
      old_mem = (\<lambda>_. True), msg_mem = Some 0\<rparr>"

lemma demo_smooth_ok:
  "parse_reserve_config smooth_api True () = Inr (cfgs (demo_smooth\<lparr>smooth_soc := p, soc_centi := c, chg_online := on, bs_soc := v\<rparr>))"
  "ends_ok (smooth_map (demo_smooth\<lparr>smooth_soc := p, soc_centi := c, chg_online := on, bs_soc := v\<rparr>))"
  "queues_ok (demo_smooth\<lparr>smooth_soc := p, soc_centi := c, chg_online := on, bs_soc := v\<rparr>)"
  using straight_ok(2) by (simp_all add: smooth_api_parsed demo_smooth_def new_bs_def queues_ok_def log_ok_def)

theorem map_stays_in_order_witness:
  "\<exists>b'. bs_remap (demo_smooth\<lparr>smooth_soc := 50, soc_centi := 5000, chg_online := False, bs_soc := 50\<rparr>) demo_around = Inr (b', demo_around) \<and>
     ends_ok (smooth_map b') \<and> rising 100 (smooth_map b')"
proof -
  let ?b = "demo_smooth\<lparr>smooth_soc := 50, soc_centi := 5000, chg_online := False, bs_soc := 50\<rparr>"
  have m: "smooth_map ?b = straight_map" "cfgs ?b = [demo_cfg]" "smooth_soc_centi ?b = 0" by (simp_all add: demo_smooth_def new_bs_def)
  have "bend 0 50 0 0 0 5000 straight_map = straight_map" by (simp add: smooth_soc_to_soc_centi_def)
  then have "anchor_map ?b ! nat (smooth_soc ?b) = 5000" using m straight_at [of 50] by (simp add: anchor_map_def)
  then have "\<not> meets_top demo_cfg ?b" "no_negative_reserve demo_cfg" by (simp_all add: meets_top_def demo_cfg_def no_negative_reserve_def)
  then have o: "rising 100 (smooth_map ?b) \<and> (\<forall>cfg\<in>set (cfgs ?b). no_negative_reserve cfg \<and> \<not> meets_top cfg ?b)"
    using straight_ok(3) unfolding m by simp
  show ?thesis using map_stays_in_order [OF demo_smooth_ok [where p = 50 and c = 5000 and on = False and v = 50], where e = demo_around] o by auto
qed

text \<open>The percentage when the charger is taken off: the entries below it are lowered by the reserve or stay.\<close>

lemma dischg_other_keeps:
  assumes ends: "ends_ok (smooth_map b)" and s: "1 < smooth_soc b" "smooth_soc b < 100" and r: "0 \<le> dischg_reserve cfg"
    and old: "shown_as (smooth_map b) c (nat (smooth_soc b))" and new: "dischg_other_map cfg b = Inr m"
  shows "shown_as (fix_ends m) c (nat (smooth_soc b))"
proof -
  let ?s = "smooth_soc b" and ?m = "smooth_map b"
  let ?u = "?m ! nat (?s - 1)"
  have ok: "map_ok ?m" using ends by (simp add: ends_ok_def)
  define m1 where "m1 = bend 0 (?s - 1) 0 ((?s - 1) * 100) 0 (?u - dischg_reserve cfg) ?m"
  have ok1: "map_ok m1" using ok by (simp add: m1_def)
  have b1: "0 \<le> ?s - 1" "?s - 1 \<le> 100" and b2: "0 \<le> ?s" "?s \<le> 100" using s by simp_all
  have "bend 0 (?s - 1) 0 (?s * 100 - 100) 0 (?u - dischg_reserve cfg) ?m = m1" by (simp add: m1_def)
  then have m: "m = bend (?s + 1) 100 (?s * 100) 10000 (m1 ! nat ?s) 10000 m1"
    using new by (simp add: dischg_other_map_def Let_def map_at_ok [OF ok b1] map_at_ok [OF ok1 b2])
  have okm: "map_ok m" using ok1 by (simp add: m)
  have below: "m ! nat j = m1 ! nat j" if "0 \<le> j" "j \<le> ?s" for j using that s by (simp add: m bend_at map_ok_length [OF ok1])
  have at: "m1 ! nat ?s = ?m ! nat ?s" using s by (simp add: m1_def bend_at map_ok_length [OF ok])
  have u: "?u < c" using old s by (auto simp: shown_as_def)
  have low: "m1 ! nat j < c" if j: "0 \<le> j" "j < ?s" for j
  proof (cases "can_bend 0 (?s - 1) 0 ((?s - 1) * 100) 0 (?u - dischg_reserve cfg)")
    case True
    then have "line_at 0 ((?s - 1) * 100) 0 (?u - dischg_reserve cfg) j \<le> ?u - dischg_reserve cfg"
      using j by (intro line_below) (auto simp: can_bend_def)
    then show ?thesis using True j s u r by (simp add: m1_def bend_at map_ok_length [OF ok])
  next
    case False
    have "?m ! nat j < c" using old j by (auto simp: shown_as_def)
    then show ?thesis using j s False by (simp add: m1_def bend_at map_ok_length [OF ok])
  qed
  have "0 < c" using low [of 0] map_ok_nth [OF ok1, of 0] s by simp
  then have lows: "fix_ends m ! nat j < c" if "0 \<le> j" "j < ?s" for j
    using low [OF that] below [of j] that s by (simp add: fix_ends_at [OF okm])
  have "fix_ends m ! j < c" if "j < nat ?s" for j using lows [of "int j"] that by simp
  moreover have "c \<le> fix_ends m ! nat ?s" using old at below [of ?s] s by (simp add: fix_ends_at [OF okm] shown_as_def)
  ultimately show ?thesis using s by (simp add: shown_as_def)
qed

text \<open>C25: Taking the charger off does not change the percentage: in the ordinary case (neither full nor at the top, nor
  low or far above the gauge) the percentage that the new map gives for the same charge is the one that was shown,
  although the reserve is now hidden below it.\<close>

theorem unplug_keeps_percentage:
  assumes "parse_reserve_config api mem node = Inr (cfgs b)" and "ends_ok (smooth_map b)" and "queues_ok b"
    and "smooth_soc (bs_update_smmoth_soc b) = smooth_soc b" and "soc_centi b \<le> FULL_SCALE" and "\<not> chg_online b"
    and "smooth_soc b \<noteq> MAX_SOC" and "\<not> chg_full b" and "\<not> is_dischg_no_reserve b" and "\<forall>cfg\<in>set (cfgs b). 0 \<le> dischg_reserve cfg"
  shows "\<exists>b'. bs_remap b e = Inr (b', e) \<and> smooth_soc (bs_update_smmoth_soc b') = smooth_soc b"
proof -
  obtain i where i: "shown_as (smooth_map b) (soc_centi b) i" using shown_exists [OF assms(2,5)] by blast
  then have s: "smooth_soc b = int i" "i < 100" "15 \<le> i"
    using update_shows [OF i] assms(4,7,9) by (auto simp: shown_as_def is_dischg_no_reserve_def)
  obtain cfg where cfg: "find_reserve_cfg_by_soc b (smooth_soc b) = Some cfg" "cfg \<in> set (cfgs b)"
    using find_cfg [OF parsed_ok [OF assms(1)], of "smooth_soc b"] by auto
  have ok: "map_ok (smooth_map b)" using assms(2) by (simp add: ends_ok_def)
  have range: "0 \<le> smooth_soc b" "smooth_soc b \<le> 100" using s by simp_all
  obtain b' m where b': "bs_update_dischg_map b e = Inr (b', e)" "dischg_map cfg 0 b = Inr m" "smooth_map b' = fix_ends m" "soc_centi b' = soc_centi b"
    using dischg_map_updates [OF ok assms(3) range assms(6) cfg(1), of False e] assms(8) by auto
  have other: "dischg_other_map cfg b = Inr m" using b'(2) assms(7,8,9) by (simp add: dischg_map_def)
  have "shown_as (fix_ends m) (soc_centi b) (nat (smooth_soc b))"
    using dischg_other_keeps [OF assms(2) _ _ _ _ other] s i cfg(2) assms(10) by simp
  then have "smooth_soc (bs_update_smmoth_soc b') = smooth_soc b" using update_shows [of b' i] b' s by simp
  then show ?thesis using b'(1) assms(6) by (simp add: bs_remap_def)
qed


lemma shown_straight: "0 \<le> c \<Longrightarrow> c \<le> 10000 \<Longrightarrow> c mod 100 = 0 \<Longrightarrow> shown_as straight_map c (nat (c div 100))"
  by (auto simp: shown_as_def straight_at nat_less_iff le_nat_iff)

theorem unplug_keeps_percentage_witness:
  "\<exists>b'. bs_remap (demo_smooth\<lparr>smooth_soc := 50, soc_centi := 5000, chg_online := False, bs_soc := 50\<rparr>) demo_around = Inr (b', demo_around) \<and>
     smooth_soc (bs_update_smmoth_soc b') = 50"
proof -
  let ?b = "demo_smooth\<lparr>smooth_soc := 50, soc_centi := 5000, chg_online := False, bs_soc := 50\<rparr>"
  have f: "smooth_map ?b = straight_map" "cfgs ?b = [demo_cfg]" "\<not> chg_full ?b" by (simp_all add: demo_smooth_def new_bs_def)
  have "shown_as (smooth_map ?b) (soc_centi ?b) 50" using shown_straight [of 5000] by (simp add: f(1))
  then have "smooth_soc (bs_update_smmoth_soc ?b) = smooth_soc ?b" using update_shows [of ?b 50] by simp
  moreover have "\<not> is_dischg_no_reserve ?b" by (simp add: is_dischg_no_reserve_def c_add_def)
  ultimately show ?thesis
    using unplug_keeps_percentage [OF demo_smooth_ok [where p = 50 and c = 5000 and on = False and v = 50], where e = demo_around] f by (simp add: demo_cfg_def)
qed


section \<open>The strategy and its calls\<close>

definition bs_inv :: "bs_strategy \<Rightarrow> bool" where
  "bs_inv b \<longleftrightarrow> cfgs_ok (cfgs b) \<and> ends_ok (smooth_map b) \<and> queues_ok b \<and> smooth_soc b \<le> 100 \<and> (smooth_soc b = - EINVAL \<or> 0 \<le> smooth_soc b)"

datatype bs_call = Bs_init | Bs_get_data | Bs_set_process_data string u64 | Bs_map_work | Bs_dump_log

definition bs_run ::
  "(u32 \<Rightarrow> u64) \<Rightarrow> bs_call \<Rightarrow> bs_strategy \<Rightarrow> ('d, 'k) smooth_env \<Rightarrow> bs_fault + bs_strategy \<times> ('d, 'k) smooth_env" where
  "bs_run ms c b e =
     (case c of
        Bs_init \<Rightarrow> Inr (snd (bs_strategy_init b e))
      | Bs_get_data \<Rightarrow> and_then (bs_strategy_get_data b e) (\<lambda>r. Inr (snd r))
      | Bs_set_process_data type arg \<Rightarrow> Inr (snd (bs_strategy_set_process_data ms b type arg e))
      | Bs_map_work \<Rightarrow> bs_map_update_work b e
      | Bs_dump_log \<Rightarrow> and_then (bs_dump_log_data (raw_mem e) b) (\<lambda>r. Inr (snd r, e)))"

text \<open>Reading the gauge changes neither the configurations, the map nor the queues, and leaves a percentage in range if it
  can be read.\<close>

definition gauge_there :: "bs_strategy \<Rightarrow> ('d, 'k) smooth_env \<Rightarrow> bool" where
  "gauge_there b e \<longleftrightarrow> fst (topic_available ''gauge'' (bs_gauge_topic b) (topics (sur e))) \<noteq> None"

definition untouched :: "bs_strategy \<Rightarrow> bs_strategy \<Rightarrow> bool" where
  "untouched b b' \<longleftrightarrow> cfgs b' = cfgs b \<and> smooth_map b' = smooth_map b \<and> track_fifo b' = track_fifo b \<and>
     battery_log_fifo b' = battery_log_fifo b \<and> inited b' = inited b \<and> chg_online b' = chg_online b \<and> chg_full b' = chg_full b"

lemma percent_range:
  "smooth_soc (bs_update_smmoth_soc b) \<in> {0..100} \<and> untouched b (bs_update_smmoth_soc b)"
  by (auto simp: bs_update_smmoth_soc_def Let_def untouched_def find_Some_iff split: option.splits)

lemma update_data_effect:
  assumes "bs_update_data b e = (rc, b', e')"
  shows "untouched b b'" and "inited b \<Longrightarrow> gauge_there b e \<Longrightarrow> smooth_soc b' \<in> {0..100}"
    and "\<not> (inited b \<and> gauge_there b e) \<Longrightarrow> smooth_soc b' = smooth_soc b"
proof -
  let ?g = "bs_is_gauge_topic_available b e"
  have g: "fst ?g = fst (topic_available ''gauge'' (bs_gauge_topic b) (topics (sur e)))" "untouched b (fst (snd ?g))"
    "smooth_soc (fst (snd ?g)) = smooth_soc b"
    by (simp_all add: bs_is_gauge_topic_available_def untouched_def split_beta Let_def)
  have u: "untouched b b1 \<Longrightarrow> untouched b (bs_update_smmoth_soc (b1\<lparr>batt_rm := rm, batt_fcc := fcc, bs_soc := v, soc_centi := c\<rparr>))" for b1 rm fcc v c
    using percent_range [of "b1\<lparr>batt_rm := rm, batt_fcc := fcc, bs_soc := v, soc_centi := c\<rparr>"] by (simp add: untouched_def)
  consider "\<not> inited b" | "inited b" "fst ?g = None" | i where "inited b" "fst ?g = Some i" by blast
  then have "untouched b b' \<and> (inited b \<and> gauge_there b e \<longrightarrow> smooth_soc b' \<in> {0..100}) \<and> (\<not> (inited b \<and> gauge_there b e) \<longrightarrow> smooth_soc b' = smooth_soc b)"
  proof cases
    case 1
    then show ?thesis using assms by (auto simp: bs_update_data_def untouched_def)
  next
    case 2
    then show ?thesis using assms g by (auto simp: bs_update_data_def gauge_there_def split: prod.splits)
  next
    case 3
    then show ?thesis using assms g u [OF g(2)] percent_range
      by (auto simp: bs_update_data_def gauge_there_def Let_def simp del: atLeastAtMost_iff split: prod.splits)
  qed
  then show "untouched b b'" and "inited b \<Longrightarrow> gauge_there b e \<Longrightarrow> smooth_soc b' \<in> {0..100}"
    and "\<not> (inited b \<and> gauge_there b e) \<Longrightarrow> smooth_soc b' = smooth_soc b" by blast+
qed

lemma untouched_queues: "untouched b b' \<Longrightarrow> queues_ok b' = queues_ok b"
  by (simp add: untouched_def queues_ok_def)

lemma update_data_inv:
  assumes "bs_inv b" and "bs_update_data b e = (rc, b', e')"
  shows "bs_inv b'"
  using assms update_data_effect [OF assms(2)] untouched_queues [of b b']
  by (cases "inited b \<and> gauge_there b e") (auto simp: bs_inv_def untouched_def)


lemma track_pop:
  "fifo_pop_and_encode TRACK_FIFO_SIZE TRACK_CACHE_SIZE mem f cache =
     (let n = length (kf_data f) in
      if n = 0 then Inr (- ENODATA, f, cache)
      else if n > 767 then Inr (- EOVERFLOW, f, cache)
      else if \<not> mem then Inr (- ENOMEM, f, cache)
      else if n > 765 then Inl Buffer_overflow
      else Inr (0, f\<lparr>kf_data := []\<rparr>, base64_encode (kf_data f)))"
proof -
  let ?n = "length (kf_data f)"
  have "256 \<le> (?n + 2) div 3 \<longleftrightarrow> ?n > 765" by (auto simp: less_eq_div_iff_mult_less_eq)
  then have "length (base64_encode (kf_data f)) \<ge> 1023 \<longleftrightarrow> ?n > 765" unfolding length_encode by linarith
  then show ?thesis by (simp add: fifo_pop_and_encode_def kfifo_out_def Let_def BASE64_DECODE_LEN_def TOPIC_MSG_STR_BUF_def)
qed

text \<open>An upload takes everything out of the queue or leaves it as it is.\<close>

lemma upload_effect:
  assumes "queues_ok b"
  shows "case bs_track_upload b e of
      Inl f \<Rightarrow> f = Buffer_overflow \<and> raw_mem e \<and> length (kf_data (track_fifo b)) \<in> {766, 767}
    | Inr (rc, b', e') \<Rightarrow> \<not> (raw_mem e \<and> length (kf_data (track_fifo b)) \<in> {766, 767}) \<and> untouched b (b'\<lparr>track_fifo := track_fifo b\<rparr>) \<and> smooth_soc b' = smooth_soc b \<and>
        (track_fifo b' = track_fifo b \<or> track_fifo b' = (track_fifo b)\<lparr>kf_data := []\<rparr> \<and> length (kf_data (track_fifo b)) \<le> 767)"
proof -
  let ?n = "length (kf_data (track_fifo b))"
  have p: "case fifo_pop_and_encode TRACK_FIFO_SIZE TRACK_CACHE_SIZE (raw_mem e) (track_fifo b) (track_cache b) of
      Inl f \<Rightarrow> f = Buffer_overflow \<and> raw_mem e \<and> ?n \<in> {766, 767}
    | Inr (rc, f, cache) \<Rightarrow> \<not> (raw_mem e \<and> ?n \<in> {766, 767}) \<and> (f = track_fifo b \<or> f = (track_fifo b)\<lparr>kf_data := []\<rparr> \<and> ?n \<le> 767)"
    unfolding track_pop Let_def by auto
  show ?thesis
  proof (cases "fifo_pop_and_encode TRACK_FIFO_SIZE TRACK_CACHE_SIZE (raw_mem e) (track_fifo b) (track_cache b)")
    case (Inl f)
    then show ?thesis using p unfolding bs_track_upload_def bs_track_fifo_pop_and_encode_def by simp
  next
    case (Inr r)
    obtain rc f cache where r: "r = (rc, f, cache)" by (cases r)
    then have f: "\<not> (raw_mem e \<and> ?n \<in> {766, 767})" "f = track_fifo b \<or> f = (track_fifo b)\<lparr>kf_data := []\<rparr> \<and> ?n \<le> 767" using p Inr by (simp_all del: insert_iff)
    show ?thesis using f(2) f(1) [simplified] unfolding bs_track_upload_def bs_track_fifo_pop_and_encode_def Inr r
      by (auto simp: Let_def is_err_topic_available_def untouched_def split: prod.split option.split)
  qed
qed


text \<open>What can go wrong in a call, and what every call that does not go wrong keeps.\<close>

definition fault_of :: "bs_call \<Rightarrow> bs_strategy \<Rightarrow> ('d, 'k) smooth_env \<Rightarrow> bs_fault option" where
  "fault_of c b e =
     (if c = Bs_map_work \<and> inited b \<and> map_update_pending b \<and> chg_online b \<noteq> last_chg_online b \<and>
        smooth_soc b = - EINVAL \<and> \<not> gauge_there b e \<and> \<not> (chg_full b \<and> \<not> chg_online b) then Some Bad_index
      else if c = Bs_get_data \<and> snd (send_due b (bs_get_current_time_s e)) \<and> raw_mem e \<and> length (kf_data (track_fifo b)) \<in> {766, 767}
      then Some Buffer_overflow else None)"

definition keeps :: "bs_strategy \<Rightarrow> bs_strategy \<Rightarrow> bool" where
  "keeps b b' \<longleftrightarrow> bs_inv b' \<and> (767 < length (kf_data (track_fifo b)) \<longrightarrow> prefix (kf_data (track_fifo b)) (kf_data (track_fifo b')))"

lemma bent_keeps: "bs_inv b \<Longrightarrow> bent ordered b b' \<Longrightarrow> keeps b b'"
  by (auto simp: bent_def keeps_def bs_inv_def queues_ok_def longer_def)

lemma bs_inv_map_ok: "bs_inv b \<Longrightarrow> map_ok (smooth_map b)"
  by (simp add: bs_inv_def ends_ok_def)

lemma remap_effect:
  assumes inv: "bs_inv b"
  shows "case bs_remap b e of
      Inl f \<Rightarrow> f = Bad_index \<and> smooth_soc b = - EINVAL \<and> \<not> (chg_full b \<and> \<not> chg_online b)
    | Inr (b', e') \<Rightarrow> e' = e \<and> keeps b b' \<and> (smooth_soc b = - EINVAL \<longrightarrow> chg_full b \<and> \<not> chg_online b)"
proof (cases "smooth_soc b = - EINVAL")
  case False
  then obtain b' where "bs_remap b e = Inr (b', e)" "bent False b b'"
    using remap_bends [of b False e] inv bs_inv_map_ok [OF inv] by (auto simp: bs_inv_def)
  then show ?thesis using bent_keeps [OF inv] False by simp
next
  case True
  have i: "cfgs_ok (cfgs b)" "queues_ok b" using inv by (simp_all add: bs_inv_def)
  note u = unknown_percentage [OF i(1) bs_inv_map_ok [OF inv] i(2) True, of e]
  show ?thesis
  proof (cases "chg_full b \<and> \<not> chg_online b")
    case full: True
    then obtain b' where "bs_update_dischg_map b e = Inr (b', e)" "bent False b b'" using u(3) by blast
    then show ?thesis using bent_keeps [OF inv] full by (simp add: bs_remap_def)
  next
    case False
    then have "bs_remap b e = Inl Bad_index" using u(1,2) by (cases "chg_online b") (simp_all add: bs_remap_def)
    then show ?thesis using True False by simp
  qed
qed

lemma update_map_remap: "inited b \<Longrightarrow> bs_update_data b e = (rc, b1, e1) \<Longrightarrow> bs_update_map b e = bs_remap b1 e1"
  by (simp add: bs_update_map_def bs_remap_def)

lemma untouched_keeps: "untouched b b1 \<Longrightarrow> keeps b1 b' \<Longrightarrow> keeps b b'"
  by (simp add: untouched_def keeps_def)

lemma work_effect:
  assumes inv: "bs_inv b"
  shows "case bs_map_update_work b e of Inl f \<Rightarrow> fault_of Bs_map_work b e = Some f | Inr (b', e') \<Rightarrow> fault_of Bs_map_work b e = None \<and> keeps b b'"
proof -
  have k: "keeps b (b\<lparr>map_update_work := None\<rparr>)" "keeps b (b\<lparr>map_update_work := None, map_update_pending := False\<rparr>)"
    using inv by (simp_all add: keeps_def bs_inv_def queues_ok_def)
  show ?thesis
  proof (cases "map_update_pending b \<and> chg_online b \<noteq> last_chg_online b")
    case True
    let ?b = "b\<lparr>map_update_work := None\<rparr>"
    have inv': "bs_inv ?b" using k(1) by (simp add: keeps_def)
    show ?thesis
    proof (cases "inited b")
      case on: True
      obtain rc b1 e1 where d: "bs_update_data ?b e = (rc, b1, e1)" by (cases "bs_update_data ?b e")
      note ef = update_data_effect [OF d]
      have r: "case bs_remap b1 e1 of
          Inl f \<Rightarrow> f = Bad_index \<and> smooth_soc b1 = - EINVAL \<and> \<not> (chg_full b1 \<and> \<not> chg_online b1)
        | Inr (b', e') \<Rightarrow> e' = e1 \<and> keeps b1 b' \<and> (smooth_soc b1 = - EINVAL \<longrightarrow> chg_full b1 \<and> \<not> chg_online b1)"
        using remap_effect [OF update_data_inv [OF inv' d]] .
      have same: "chg_full b1 = chg_full b" "chg_online b1 = chg_online b" using ef(1) by (simp_all add: untouched_def)
      have kb: "keeps b1 b' \<Longrightarrow> keeps b (b'\<lparr>last_chg_online := x, last_map_update_jiffies := y, map_update_pending := False\<rparr>)" for b' x y
        using untouched_keeps [OF ef(1)] by (simp add: keeps_def bs_inv_def queues_ok_def)
      have bad: "smooth_soc b1 = - EINVAL \<longleftrightarrow> smooth_soc b = - EINVAL \<and> \<not> gauge_there b e"
        using ef(2,3) on by (cases "gauge_there ?b e") (auto simp: gauge_there_def)
      show ?thesis
      proof (cases "bs_remap b1 e1")
        case (Inl f)
        then have "bs_map_update_work b e = Inl f" using True on update_map_remap [OF _ d] by (simp add: bs_map_update_work_def)
        then show ?thesis using Inl r bad same True on by (auto simp: fault_of_def)
      next
        case (Inr p)
        obtain b' where p: "p = (b', e1)" "keeps b1 b'" "smooth_soc b1 = - EINVAL \<longrightarrow> chg_full b1 \<and> \<not> chg_online b1"
          using r Inr by (cases p) simp
        then have "bs_map_update_work b e =
            Inr (b'\<lparr>last_chg_online := chg_online b', last_map_update_jiffies := jiffies (sur e1), map_update_pending := False\<rparr>, e1)"
          using Inr True on update_map_remap [OF _ d] by (simp add: bs_map_update_work_def)
        then show ?thesis using kb [OF p(2)] p(3) bad same by (auto simp: fault_of_def)
      qed
    next
      case False
      then show ?thesis using True inv by (simp add: bs_map_update_work_def bs_update_map_def keeps_def bs_inv_def queues_ok_def fault_of_def)
    qed
  next
    case False
    then show ?thesis using k by (auto simp: bs_map_update_work_def Let_def fault_of_def)
  qed
qed


text \<open>Reading the gauge changes nothing of the surroundings but the topics.\<close>

definition same_around :: "('d, 'k) smooth_env \<Rightarrow> ('d, 'k) smooth_env \<Rightarrow> bool" where
  "same_around e e' \<longleftrightarrow> e'\<lparr>sur := sur e\<rparr> = e"

lemma same_around_gauge: "get_gauge i iid u (d, e1) = (v, e2) \<Longrightarrow> same_around e e1 \<Longrightarrow> same_around e e2"
  by (auto simp: get_gauge_def same_around_def split: prod.splits sum.splits)

lemma update_data_around:
  assumes "bs_update_data b e = (rc, b', e')"
  shows "same_around e e' \<and> last_send_time b' = last_send_time b"
proof (cases "inited b")
  case False
  then show ?thesis using assms by (auto simp: bs_update_data_def same_around_def)
next
  case True
  obtain p b0 e0 where g: "bs_is_gauge_topic_available b e = (p, b0, e0)" by (cases "bs_is_gauge_topic_available b e")
  have 0: "same_around e e0" "last_send_time b0 = last_send_time b"
    using g by (auto simp: same_around_def bs_is_gauge_topic_available_def set_topics_def Let_def split: prod.splits)
  have l: "last_send_time (bs_update_smmoth_soc b1) = last_send_time b1" for b1
    by (simp add: bs_update_smmoth_soc_def Let_def split: option.split)
  show ?thesis
  proof (cases p)
    case None
    then show ?thesis using assms g True 0 by (simp add: bs_update_data_def)
  next
    case (Some i)
    obtain d1 e1 where 1: "get_gauge i GAUGE_ITEM_RM False (0, e0) = (d1, e1)" by (cases "get_gauge i GAUGE_ITEM_RM False (0, e0)")
    obtain d2 e2 where 2: "get_gauge i GAUGE_ITEM_FCC False (d1, e1) = (d2, e2)" by (cases "get_gauge i GAUGE_ITEM_FCC False (d1, e1)")
    obtain d3 e3 where 3: "get_gauge i GAUGE_ITEM_SOC_CENTI True (d2, e2) = (d3, e3)" by (cases "get_gauge i GAUGE_ITEM_SOC_CENTI True (d2, e2)")
    obtain d4 e4 where 4: "get_gauge i GAUGE_ITEM_SOC False (d3, e3) = (d4, e4)" by (cases "get_gauge i GAUGE_ITEM_SOC False (d3, e3)")
    have "same_around e e4"
      by (rule same_around_gauge [OF 4 same_around_gauge [OF 3 same_around_gauge [OF 2 same_around_gauge [OF 1 0(1)]]]])
    moreover have "e' = e4" "last_send_time b' = last_send_time b0"
      using assms g True Some 1 2 3 4 l by (auto simp: bs_update_data_def Let_def)
    ultimately show ?thesis using 0(2) by simp
  qed
qed

lemma get_effect:
  assumes inv: "bs_inv b"
  shows "case bs_strategy_get_data b e of
      Inl f \<Rightarrow> fault_of Bs_get_data b e = Some f
    | Inr (v, b', e') \<Rightarrow> fault_of Bs_get_data b e = None \<and> keeps b b' \<and> (inited b \<and> gauge_there b e \<longrightarrow> v \<in> {0..100}) \<and>
        (length (kf_data (track_fifo b')) = length (kf_data (track_fifo b)) \<or> kf_data (track_fifo b') = []) \<and> inited b' = inited b"
proof -
  obtain rc b1 e1 where d: "bs_update_data b e = (rc, b1, e1)" by (cases "bs_update_data b e")
  note ef = update_data_effect [OF d] and ar = update_data_around [OF d]
  have inv1: "bs_inv b1" using update_data_inv [OF inv d] .
  obtain last due where s: "send_due b1 (bs_get_current_time_s e1) = (last, due)" by (cases "send_due b1 (bs_get_current_time_s e1)")
  have now: "bs_get_current_time_s e1 = bs_get_current_time_s e" "raw_mem e1 = raw_mem e"
    using ar by (cases e; cases e1; simp add: same_around_def bs_get_current_time_s_def)+
  have "send_due b1 t = send_due b t" for t using ar by (simp add: send_due_def Let_def)
  then have due: "snd (send_due b (bs_get_current_time_s e)) = due" using s now by simp
  let ?b = "b1\<lparr>last_send_time := last\<rparr>"
  have k: "keeps b ?b" using untouched_keeps [OF ef(1), of ?b] inv1 by (simp add: keeps_def bs_inv_def queues_ok_def)
  have fifo: "track_fifo b1 = track_fifo b" "inited b1 = inited b" using ef(1) by (simp_all add: untouched_def)
  show ?thesis
  proof (cases due)
    case False
    then show ?thesis using k ef(2) d s due fifo by (simp add: bs_strategy_get_data_def Let_def fault_of_def)
  next
    case True
    have q: "queues_ok ?b" using k by (simp add: keeps_def bs_inv_def)
    note up = upload_effect [OF q, of e1]
    show ?thesis
    proof (cases "bs_track_upload ?b e1")
      case (Inl f)
      then have "raw_mem e1 \<and> length (kf_data (track_fifo b)) \<in> {766, 767} \<and> f = Buffer_overflow"
        using up fifo by simp
      then show ?thesis using Inl d s True due now by (simp add: bs_strategy_get_data_def Let_def fault_of_def)
    next
      case (Inr r)
      obtain rc b2 e2 where r: "r = (rc, b2, e2)" by (cases r)
      note u = up [unfolded Inr r, simplified sum.case prod.case]
      have same: "cfgs b2 = cfgs b1" "smooth_map b2 = smooth_map b1" "battery_log_fifo b2 = battery_log_fifo b1" "smooth_soc b2 = smooth_soc b1"
        "inited b2 = inited b1"
        using u by (simp_all add: untouched_def)
      have emptied: "track_fifo b2 = track_fifo b1 \<or> track_fifo b2 = (track_fifo b1)\<lparr>kf_data := []\<rparr> \<and> length (kf_data (track_fifo b1)) \<le> 767"
        using u by simp
      have "\<not> (raw_mem e1 \<and> length (kf_data (track_fifo b)) \<in> {766, 767})"
        using u fifo by simp
      then have "fault_of Bs_get_data b e = None" using now by (simp add: fault_of_def)
      moreover have "keeps b (if rc \<noteq> 0 then b2\<lparr>last_send_time := t\<rparr> else b2)" for t
        using emptied same inv1 fifo by (elim disjE) (simp_all add: keeps_def bs_inv_def queues_ok_def)
      moreover have "inited b2 = inited b"
        "length (kf_data (track_fifo b2)) = length (kf_data (track_fifo b)) \<or> kf_data (track_fifo b2) = []"
        using emptied same fifo by auto
      ultimately show ?thesis using Inr r d s True ef(2) by (auto simp: bs_strategy_get_data_def Let_def)
    qed
  qed
qed


lemma dump_effect:
  assumes inv: "bs_inv b"
  shows "\<exists>out b'. bs_dump_log_data mem b = Inr (out, b') \<and> keeps b b'"
proof -
  have l: "log_ok 256 (battery_log_fifo b)" using inv by (simp add: bs_inv_def queues_ok_def)
  have n: "length (kf_data (battery_log_fifo b)) \<le> 256" using l by (simp add: log_ok_def)
  have fit: "length (base64_encode (kf_data (battery_log_fifo b))) < 345" using n unfolding length_encode by linarith
  have "\<exists>rc f cache. fifo_pop_and_encode BATTERY_LOG_FIFO_SIZE BATTERY_LOG_CACHE_SIZE mem (battery_log_fifo b) (battery_log_cache b) = Inr (rc, f, cache) \<and>
      (f = battery_log_fifo b \<or> f = (battery_log_fifo b)\<lparr>kf_data := []\<rparr>)"
    using n fit by (simp add: fifo_pop_and_encode_def kfifo_out_def Let_def BASE64_ENCODE_LEN_def)
  then obtain rc f cache where
    f: "fifo_pop_and_encode BATTERY_LOG_FIFO_SIZE BATTERY_LOG_CACHE_SIZE mem (battery_log_fifo b) (battery_log_cache b) = Inr (rc, f, cache)"
    "f = battery_log_fifo b \<or> f = (battery_log_fifo b)\<lparr>kf_data := []\<rparr>" by blast
  have "log_ok 256 f" using f(2) l by (auto simp: log_ok_def)
  then have "keeps b (b\<lparr>battery_log_fifo := f, battery_log_cache := []\<rparr>)" using inv by (simp add: keeps_def bs_inv_def queues_ok_def)
  then show ?thesis unfolding bs_dump_log_data_def bs_battery_log_fifo_pop_and_encode_def f(1) by simp
qed

lemma set_effect:
  assumes inv: "bs_inv b"
  shows "keeps b (fst (snd (bs_strategy_set_process_data ms b type arg e)))"
  using inv by (simp add: bs_strategy_set_process_data_def keeps_def bs_inv_def queues_ok_def)

lemma run_effect:
  assumes inv: "bs_inv b"
  shows "case bs_run ms c b e of Inl f \<Rightarrow> fault_of c b e = Some f | Inr (b', e') \<Rightarrow> fault_of c b e = None \<and> keeps b b'"
proof (cases c)
  case Bs_init
  then show ?thesis using inv by (simp add: bs_run_def bs_strategy_init_def fault_of_def keeps_def bs_inv_def queues_ok_def)
next
  case Bs_get_data
  then show ?thesis using get_effect [OF inv, of e] by (auto simp: bs_run_def split: sum.splits)
next
  case (Bs_set_process_data type arg)
  then show ?thesis using set_effect [OF inv, of ms type arg e] by (auto simp: bs_run_def fault_of_def split: prod.split)
next
  case Bs_map_work
  then show ?thesis using work_effect [OF inv, of e] unfolding bs_run_def Bs_map_work by simp
next
  case Bs_dump_log
  then show ?thesis using dump_effect [OF inv, of "raw_mem e"] by (auto simp: bs_run_def fault_of_def)
qed

section \<open>Reachable states\<close>

text \<open>The map work runs only when it is scheduled; between calls the surroundings change as they like.\<close>

inductive bs_step :: "(u32 \<Rightarrow> u64) \<Rightarrow> bs_strategy \<times> ('d, 'k) smooth_env \<Rightarrow> bs_strategy \<times> ('d, 'k) smooth_env \<Rightarrow> bool" for ms where
  called: "bs_run ms c b e = Inr (b', e') \<Longrightarrow> (c = Bs_map_work \<longrightarrow> map_update_work b \<noteq> None) \<Longrightarrow> bs_step ms (b, e) (b', e')"
| surroundings: "bs_step ms (b, e) (b, e')"

inductive_cases bs_stepE: "bs_step ms (b, e) (b', e')"

inductive bs_reachable :: "(u32 \<Rightarrow> u64) \<Rightarrow> 'n of_api \<Rightarrow> bs_strategy \<times> ('d, 'k) smooth_env \<Rightarrow> bool" for ms api where
  allocated: "bs_strategy_alloc_by_node api mem node e = Inr (Inr b, e') \<Longrightarrow> bs_reachable ms api (b, e')"
| stepped: "bs_reachable ms api s \<Longrightarrow> bs_step ms s s' \<Longrightarrow> bs_reachable ms api s'"

lemma init_map_effect:
  assumes cs: "cfgs_ok cs" and f: "kf_size f = 1024" "kf_data f = []" and l: "log_ok 256 l"
  shows "\<exists>m f' l'. bs_init_map (new_bs cs f l t) e = Inr ((new_bs cs f l t)\<lparr>smooth_map := m, track_fifo := f', battery_log_fifo := l'\<rparr>, e) \<and>
    bs_inv ((new_bs cs f l t)\<lparr>smooth_map := m, track_fifo := f', battery_log_fifo := l'\<rparr>) \<and> rising 100 m"
proof -
  let ?b = "new_bs cs f l t"
  have c: "cfgs ?b = cs" "smooth_soc ?b = - EINVAL" and q: "queues_ok ?b"
    using f l by (simp_all add: new_bs_def queues_ok_def)
  obtain cfg where cfg: "find_reserve_cfg_by_soc ?b 0 = Some cfg" "cfg_ok cfg"
    using find_cfg [of ?b 0] found_ok [of ?b 0] cs unfolding c by auto
  obtain m where m: "initial_map cfg = Inr m" "map_ok m" "rising 100 m" using initial_computes [OF cfg(2)] by (auto simp: computes_def)
  have t: "track_ok (initial_track cfg)" by (simp add: initial_track_def track_ok_def extra_len_map_def)
  obtain f' l' where r: "record_map (initial_track cfg) (fix_ends m) ?b e =
      Inr (?b\<lparr>smooth_map := fix_ends m, track_fifo := f', battery_log_fifo := l'\<rparr>, e)" "queues_ok (?b\<lparr>track_fifo := f', battery_log_fifo := l'\<rparr>)"
    using record_map_effect [OF q t] by blast
  have "bs_init_map ?b e = record_map (initial_track cfg) (fix_ends m) ?b e" by (simp add: bs_init_map_def record_map_def cfg(1) m(1))
  moreover have "bs_inv (?b\<lparr>smooth_map := fix_ends m, track_fifo := f', battery_log_fifo := l'\<rparr>)"
    using cs r(2) c ends_fixed [OF m(2)] by (simp add: bs_inv_def queues_ok_def)
  ultimately show ?thesis using r(1) rising_fix_ends [OF m(2,3)] by metis
qed

lemma alloc_effect:
  "case bs_strategy_alloc_by_node api mem node e of
     Inl f \<Rightarrow> False
   | Inr (Inl rc, e') \<Rightarrow> True
   | Inr (Inr b, e') \<Rightarrow> bs_inv b \<and> rising 100 (smooth_map b)"
proof (cases "node = None \<or> \<not> mem 0")
  case True
  then show ?thesis by (cases node) (auto simp: bs_strategy_alloc_by_node_def)
next
  case False
  then obtain n where n: "node = Some n" "mem 0" by auto
  show ?thesis
  proof (cases "parse_reserve_config api (mem 1) n")
    case (Inl rc)
    then show ?thesis using n by (simp add: bs_strategy_alloc_by_node_def)
  next
    case (Inr cs)
    let ?f = "\<lparr>kf_size = 1024, kf_data = []\<rparr>" and ?l = "\<lparr>kf_size = 256, kf_data = []\<rparr>"
    have f: "bs_track_init m1 m2 = (if m1 \<and> m2 then Inr ?f else Inl (- ENOMEM))" for m1 m2
      using sizes(4) by (simp add: bs_track_init_def kfifo_alloc_def)
    have l: "bs_battery_log_init m1 m2 = (if m1 \<and> m2 then Inr ?l else Inl (- ENOMEM))" for m1 m2
      using sizes(5) by (simp add: bs_battery_log_init_def kfifo_alloc_def)
    obtain b' where b': "bs_init_map (new_bs cs ?f ?l (bs_get_current_time_s e)) e = Inr (b', e)" "bs_inv b'" "rising 100 (smooth_map b')"
      using init_map_effect [OF parsed_ok [OF Inr], of ?f ?l "bs_get_current_time_s e" e] by (auto simp: log_ok_def)
    then show ?thesis using n Inr
      by (simp add: bs_strategy_alloc_by_node_def f l bs_inv_def queues_ok_def)
  qed
qed

lemma step_keeps: "bs_step ms s s' \<Longrightarrow> bs_inv (fst s) \<Longrightarrow> keeps (fst s) (fst s')"
proof (induction rule: bs_step.induct)
  case (called c b e b' e')
  then show ?case using run_effect [where ms = ms and c = c and b = b and e = e] by simp
qed (simp add: keeps_def)

lemma bs_reachable_inv: "bs_reachable ms api s \<Longrightarrow> bs_inv (fst s)"
proof (induction rule: bs_reachable.induct)
  case (allocated mem node e b e')
  then show ?case using alloc_effect [of api mem node e] by simp
next
  case (stepped s s')
  then show ?case using step_keeps [of ms s s'] by (simp add: keeps_def)
qed


text \<open>C23: In every state that is reached from an accepted device tree, by calls in any order and with anything changing
  around them, the percentage is in range or still unknown, the map has its ends and range, and the queues are
  sound. A call goes wrong in exactly two cases: the first map update runs before the gauge could be read, and then
  reads in front of the map; or an upload is due while the queue holds 766 or 767 bytes, and then it writes behind
  its buffer.\<close>

theorem smooth_invariant_and_faults:
  assumes "bs_reachable ms api (b, e)"
  shows "bs_inv b \<and> (bs_run ms c b e = Inl f \<longleftrightarrow> fault_of c b e = Some f)"
proof -
  have inv: "bs_inv b" using bs_reachable_inv [OF assms] by simp
  then show ?thesis using run_effect [OF inv, where ms = ms and c = c and e = e] by (auto split: sum.splits)
qed

text \<open>C30: Once the queue holds more than 767 bytes nothing is ever taken out of it again: whatever is called, what it
  held stays at its front, and every upload is refused.\<close>

theorem full_queue_is_stuck:
  assumes "bs_reachable ms api (b, e)" and "length (kf_data (track_fifo b)) > TRACK_FIFO_SIZE" and "(bs_step ms)\<^sup>*\<^sup>* (b, e) (b', e')"
  shows "prefix (kf_data (track_fifo b)) (kf_data (track_fifo b')) \<and> bs_track_upload b' e' = Inr (- EOVERFLOW, b', e')"
proof -
  have n: "767 < length (kf_data (track_fifo b))" using assms(2) by (simp add: BASE64_DECODE_LEN_def TOPIC_MSG_STR_BUF_def)
  from assms(3) have "bs_inv (fst (b', e')) \<and> prefix (kf_data (track_fifo b)) (kf_data (track_fifo (fst (b', e'))))"
  proof (induction rule: rtranclp_induct)
    case base
    then show ?case using bs_reachable_inv [OF assms(1)] by simp
  next
    case (step s s')
    have "keeps (fst s) (fst s')" using step_keeps [OF step(2)] step(3) by simp
    moreover have "767 < length (kf_data (track_fifo (fst s)))" using step(3) n prefix_length_le by fastforce
    ultimately show ?case using step(3) prefix_order.trans unfolding keeps_def by blast
  qed
  moreover from this have "767 < length (kf_data (track_fifo b'))" using n prefix_length_le by fastforce
  ultimately show ?thesis by (simp add: upload_refused)
qed

section \<open>The interface of the strategies\<close>

text \<open>While the gauge is registered and the queue not at the two sizes, the battery smoothing keeps the promise of every
  strategy: each call returns, and a percentage.\<close>

definition bs_get :: "bs_strategy \<Rightarrow> ('d, 'k) smooth_env \<Rightarrow> ((rc + int) \<times> bs_strategy \<times> ('d, 'k) smooth_env) option" where
  "bs_get b e = (case bs_strategy_get_data b e of Inl _ \<Rightarrow> None | Inr (v, b', e') \<Rightarrow> Some (Inr v, b', e'))"

definition bs_good :: "bs_strategy \<Rightarrow> bool" where
  "bs_good b \<longleftrightarrow> bs_inv b \<and> inited b \<and> length (kf_data (track_fifo b)) \<notin> {766, 767}"

definition gauge_registered :: "('d, 'k) smooth_env \<Rightarrow> bool" where
  "gauge_registered e \<longleftrightarrow> find_device ''gauge'' (topics (sur e)) \<noteq> None"

lemma registered_there: "gauge_registered e \<Longrightarrow> gauge_there b e"
  by (auto simp: gauge_registered_def gauge_there_def topic_available_def oplus_mms_get_by_name_def split: option.split)

lemma bs_get_good:
  assumes "bs_good b" and "gauge_registered e"
  shows "\<exists>r b' e'. bs_get b e = Some (r, b', e') \<and> bs_good b' \<and> (\<forall>x. r = Inr x \<longrightarrow> x \<in> {0..100})"
proof -
  have good: "bs_inv b" "inited b" "length (kf_data (track_fifo b)) \<notin> {766, 767}" using assms(1) by (simp_all add: bs_good_def)
  have "fault_of Bs_get_data b e = None" using good(3) by (simp add: fault_of_def)
  then show ?thesis using get_effect [OF good(1), of e] good registered_there [OF assms(2)]
    by (auto simp: bs_get_def bs_good_def keeps_def split: sum.splits)
qed

interpretation smooth: charging_strategy bs_good gauge_registered "\<lambda>x. x \<in> {0..100}" bs_strategy_init bs_get
proof
  show "bs_good (fst (snd (bs_strategy_init b e)))" if "bs_good b" for b and e :: "('d, 'k) smooth_env"
    using that by (simp add: bs_strategy_init_def bs_good_def bs_inv_def queues_ok_def)
qed (rule bs_get_good)

section \<open>The queue fills\<close>

definition plugged :: "bs_strategy \<Rightarrow> bool" where
  "plugged b \<longleftrightarrow> inited b \<and> last_chg_online b = chg_online b"

lemma plug_grows:
  assumes inv: "bs_inv b" and p: "plugged b" and g: "gauge_registered e"
  shows "\<exists>b1 b' e'. bs_run ms (Bs_set_process_data ''chg_online'' (if chg_online b then 0 else 1)) b e = Inr (b1, e) \<and>
    map_update_work b1 \<noteq> None \<and> bs_run ms Bs_map_work b1 e = Inr (b', e') \<and> plugged b' \<and> longer (track_fifo b) (track_fifo b')"
proof -
  let ?arg = "if chg_online b then 0 else 1 :: u64"
  define d where "d = (if time_is_before_eq_jiffies (last_map_update_jiffies b + ms UPDATE_MAP_DEBOUNCE_MS) (jiffies (sur e)) then 0
    else ms UPDATE_MAP_DEBOUNCE_MS)"
  have set: "bs_strategy_set_process_data ms b ''chg_online'' ?arg e =
      (0, b\<lparr>chg_online := \<not> chg_online b, map_update_pending := True, map_update_work := Some d\<rparr>, e)"
    by (simp add: bs_strategy_set_process_data_def sysfs_streq_def d_def)
  define b1 where "b1 = b\<lparr>chg_online := \<not> chg_online b, map_update_pending := True, map_update_work := Some d\<rparr>"
  let ?b = "b1\<lparr>map_update_work := None\<rparr>"
  have b1: "inited ?b" "track_fifo ?b = track_fifo b" "map_update_pending ?b" "chg_online ?b \<noteq> last_chg_online ?b"
    using p by (auto simp: b1_def plugged_def)
  have inv1: "bs_inv ?b" using inv by (simp add: b1_def bs_inv_def queues_ok_def)
  obtain rc b2 e2 where u: "bs_update_data ?b e = (rc, b2, e2)" by (cases "bs_update_data ?b e")
  note ef = update_data_effect [OF u]
  have soc: "0 \<le> smooth_soc b2 \<and> smooth_soc b2 \<le> 100" using ef(2) [OF b1(1) registered_there [OF g]] by simp
  have inv2: "bs_inv b2" using update_data_inv [OF inv1 u] .
  obtain b3 where b3: "bs_remap b2 e2 = Inr (b3, e2)" "bent False b2 b3"
    using remap_bends [of b2 False e2] inv2 bs_inv_map_ok [OF inv2] soc by (auto simp: bs_inv_def)
  have f: "longer (track_fifo b) (track_fifo b3)" "inited b3" using b3(2) ef(1) b1 by (auto simp: bent_def untouched_def)
  have "bs_map_update_work b1 e =
      Inr (b3\<lparr>last_chg_online := chg_online b3, last_map_update_jiffies := jiffies (sur e2), map_update_pending := False\<rparr>, e2)"
    using b1(3,4) update_map_remap [OF b1(1) u] b3(1) by (simp add: bs_map_update_work_def)
  moreover have "bs_run ms (Bs_set_process_data ''chg_online'' ?arg) b e = Inr (b1, e)" unfolding bs_run_def b1_def using set by simp
  moreover have "map_update_work b1 \<noteq> None" by (simp add: b1_def)
  ultimately show ?thesis using f unfolding bs_run_def by (auto simp: plugged_def)
qed

lemma alloc_succeeds:
  assumes "parse_reserve_config api True n = Inr cs"
  shows "\<exists>b. bs_strategy_alloc_by_node api (\<lambda>_. True) (Some n) e = Inr (Inr b, e) \<and> last_chg_online b = chg_online b \<and>
    chg_online b \<and> \<not> chg_full b \<and> smooth_soc b = - EINVAL \<and> bs_gauge_topic b = None"
proof -
  let ?f = "\<lparr>kf_size = 1024, kf_data = []\<rparr>" and ?l = "\<lparr>kf_size = 256, kf_data = []\<rparr>"
  have f: "bs_track_init True True = Inr ?f" "bs_battery_log_init True True = Inr ?l"
    using sizes(4,5) by (simp_all add: bs_track_init_def bs_battery_log_init_def kfifo_alloc_def)
  obtain m f' l' where "bs_init_map (new_bs cs ?f ?l (bs_get_current_time_s e)) e =
      Inr ((new_bs cs ?f ?l (bs_get_current_time_s e))\<lparr>smooth_map := m, track_fifo := f', battery_log_fifo := l'\<rparr>, e)"
    using init_map_effect [OF parsed_ok [OF assms], of ?f ?l "bs_get_current_time_s e" e] by (auto simp: log_ok_def)
  then show ?thesis using assms by (simp add: bs_strategy_alloc_by_node_def f new_bs_def)
qed

lemma reachable_run: "bs_reachable ms api (b, e) \<Longrightarrow> bs_run ms c b e = Inr (b', e') \<Longrightarrow>
    (c = Bs_map_work \<longrightarrow> map_update_work b \<noteq> None) \<Longrightarrow> bs_reachable ms api (b', e')"
  by (blast intro: bs_reachable.stepped bs_step.called)

text \<open>Each plugging adds a record, so enough of them without an upload fill the queue, on every accepted device tree.\<close>

lemma queue_fills:
  assumes "parse_reserve_config api True n = Inr cs" and "gauge_registered (e :: ('d, 'k) smooth_env)"
  shows "\<exists>b e' :: ('d, 'k) smooth_env. bs_reachable ms api (b, e') \<and> plugged b \<and> min 1024 (12 * k) \<le> length (kf_data (track_fifo b))"
proof (induction k)
  case 0
  obtain b where b: "bs_strategy_alloc_by_node api (\<lambda>_. True) (Some n) e = Inr (Inr b, e)" "last_chg_online b = chg_online b"
    using alloc_succeeds [OF assms(1), of e] by blast
  have "bs_run ms Bs_init b e = Inr (b\<lparr>inited := True, log_registered := True\<rparr>, e)" by (simp add: bs_run_def bs_strategy_init_def)
  from reachable_run [OF bs_reachable.allocated [OF b(1)] this]
  have "bs_reachable ms api (b\<lparr>inited := True, log_registered := True\<rparr>, e)" by simp
  moreover have "plugged (b\<lparr>inited := True, log_registered := True\<rparr>)" using b(2) by (simp add: plugged_def)
  ultimately show ?case by fastforce
next
  case (Suc k)
  then obtain b and e' :: "('d, 'k) smooth_env" where b: "bs_reachable ms api (b, e')" "plugged b" "min 1024 (12 * k) \<le> length (kf_data (track_fifo b))"
    by blast
  have r: "bs_reachable ms api (b, e)" using b(1) by (blast intro: bs_reachable.stepped bs_step.surroundings)
  have inv: "bs_inv b" using bs_reachable_inv [OF r] by simp
  obtain b1 b' e2 where s: "bs_run ms (Bs_set_process_data ''chg_online'' (if chg_online b then 0 else 1)) b e = Inr (b1, e)"
    "map_update_work b1 \<noteq> None" "bs_run ms Bs_map_work b1 e = Inr (b', e2)" "plugged b'" "longer (track_fifo b) (track_fifo b')"
    using plug_grows [OF inv b(2) assms(2), of ms] by blast
  have "bs_reachable ms api (b', e2)"
    using reachable_run [OF reachable_run [OF r s(1)] s(3)] s(2) by simp
  moreover have "min 1024 (12 * Suc k) \<le> length (kf_data (track_fifo b'))"
    using s(5) b(3) by (auto simp: longer_def min_def split: if_splits)
  ultimately show ?case using s(4) by blast
qed


section \<open>Examples\<close>

definition demo_bare :: "(unit, nat) smooth_env" where
  "demo_bare = demo_around\<lparr>sur := (sur demo_around)\<lparr>topics := \<lparr>class_devices = [], wait_list = [], called = []\<rparr>\<rparr>\<rparr>"

lemma demo_registered: "gauge_registered demo_around"
  by (simp add: gauge_registered_def demo_around_def demo_measured_def find_device_def demo_readings_def new_topic_def upt_rec)

lemma bare_no_gauge: "bs_gauge_topic b = None \<Longrightarrow> \<not> gauge_there b demo_bare"
  by (simp add: gauge_there_def demo_bare_def topic_available_def oplus_mms_get_by_name_def find_device_def)

theorem smooth_invariant_and_faults_witness:
  "\<exists>b. bs_reachable (\<lambda>_. 1) smooth_api (b, demo_bare) \<and> bs_run (\<lambda>_. 1) Bs_map_work b demo_bare = Inl Bad_index"
proof -
  obtain b where b: "bs_strategy_alloc_by_node smooth_api (\<lambda>_. True) (Some ()) demo_bare = Inr (Inr b, demo_bare)" "last_chg_online b = chg_online b"
    "chg_online b" "\<not> chg_full b" "smooth_soc b = - EINVAL" "bs_gauge_topic b = None"
    using alloc_succeeds [OF smooth_api_parsed, of demo_bare] by blast
  let ?b1 = "b\<lparr>inited := True, log_registered := True\<rparr>"
  let ?b2 = "fst (snd (bs_strategy_set_process_data (\<lambda>_. 1) ?b1 ''chg_online'' 0 demo_bare))"
  have "bs_run (\<lambda>_. 1) Bs_init b demo_bare = Inr (?b1, demo_bare)" by (simp add: bs_run_def bs_strategy_init_def)
  from reachable_run [OF bs_reachable.allocated [OF b(1)] this] have r1: "bs_reachable (\<lambda>_. 1) smooth_api (?b1, demo_bare)" by simp
  have "bs_run (\<lambda>_. 1) (Bs_set_process_data ''chg_online'' 0) ?b1 demo_bare = Inr (?b2, demo_bare)"
    by (simp add: bs_run_def bs_strategy_set_process_data_def sysfs_streq_def)
  from reachable_run [OF r1 this] have r2: "bs_reachable (\<lambda>_. 1) smooth_api (?b2, demo_bare)" by simp
  have "fault_of Bs_map_work ?b2 demo_bare = Some Bad_index"
    using b bare_no_gauge [of ?b2] by (simp add: fault_of_def bs_strategy_set_process_data_def sysfs_streq_def)
  then have "bs_run (\<lambda>_. 1) Bs_map_work ?b2 demo_bare = Inl Bad_index" using smooth_invariant_and_faults [OF r2] by blast
  then show ?thesis using r2 by blast
qed

theorem full_queue_is_stuck_witness:
  "\<exists>b (e :: (unit, nat) smooth_env). bs_reachable (\<lambda>_. 1) smooth_api (b, e) \<and> bs_track_upload b e = Inr (- EOVERFLOW, b, e)"
proof -
  obtain b and e :: "(unit, nat) smooth_env" where b: "bs_reachable (\<lambda>_. 1) smooth_api (b, e)" "min 1024 (12 * 64) \<le> length (kf_data (track_fifo b))"
    using queue_fills [OF smooth_api_parsed demo_registered, of "\<lambda>_. 1" 64] by blast
  have "length (kf_data (track_fifo b)) > TRACK_FIFO_SIZE" using b(2) by (simp add: BASE64_DECODE_LEN_def TOPIC_MSG_STR_BUF_def)
  from full_queue_is_stuck [OF b(1) this rtranclp.rtrancl_refl] b(1) show ?thesis by blast
qed

text \<open>After it was initialised, and while the gauge is registered and the queue is not at the two bad sizes, every
  sequence of calls returns, and every percentage that is returned is between 0 and 100.\<close>

theorem smooth_returns_percentages:
  assumes "bs_reachable ms api (b, e)" and "inited b" and "length (kf_data (track_fifo b)) \<notin> {766, 767}"
    and "\<forall>c\<in>set cs. gauge_registered (call_env c)"
  shows "\<exists>rs b'. run_strategy bs_strategy_init bs_get cs b = Some (rs, b') \<and> (\<forall>x. Inr x \<in> set rs \<longrightarrow> x \<in> {0..100})"
  using smooth.run_fine [of b cs] assms bs_reachable_inv [OF assms(1)] by (auto simp: bs_good_def)

theorem smooth_returns_percentages_witness:
  "\<exists>b rs b'. run_strategy bs_strategy_init bs_get [Call_get demo_around, Call_init demo_around, Call_get demo_around] b = Some (rs, b') \<and>
     (\<forall>x. Inr x \<in> set rs \<longrightarrow> x \<in> {0..100})"
proof -
  obtain b and e :: "(unit, nat) smooth_env" where b: "bs_reachable (\<lambda>_. 1) smooth_api (b, e)" "plugged b" "min 1024 (12 * 64) \<le> length (kf_data (track_fifo b))"
    using queue_fills [OF smooth_api_parsed demo_registered, of "\<lambda>_. 1" 64] by blast
  have "length (kf_data (track_fifo b)) \<notin> {766, 767}" "inited b" using b(2,3) by (auto simp: plugged_def)
  from smooth_returns_percentages [OF b(1) this(2,1), of "[Call_get demo_around, Call_init demo_around, Call_get demo_around]"] demo_registered
  show ?thesis by auto
qed

end
