(* ===== verification/Chg_Msg_Filter.thy ===== *)
theory Chg_Msg_Filter
  imports Ufcs_Prelude
begin

text \<open>
  The message filter (\<^verbatim>\<open>mms/oplus_msg_filter.c\<close>): requests for an update are gathered in a queue and served by a delayed
  work, not more often than a dead zone allows and not later than the grace of the request. A request, the firing of
  the timer, the start and the end of the work are steps; the caller of the filter, the timer and the work
  interleave. Here a call is taken as one step; \<open>Chg_Msg_Race\<close> has its single reads and writes, which no lock
  protects. Pointers are not NULL: the checks for this, which return \<open>- EINVAL\<close> or no queue, are left out, except
  for the function that serves the updates.
\<close>

section \<open>Time\<close>

text \<open>\<^verbatim>\<open>jiffies\<close> and the comparison of \<^verbatim>\<open>linux/jiffies.h\<close>; \<^verbatim>\<open>MAX_JIFFY_OFFSET\<close> is a quarter of the range.\<close>

definition MAX_JIFFY_OFFSET :: u64 where "MAX_JIFFY_OFFSET = 2 ^ 62 - 2"

definition time_after_eq :: "u64 \<Rightarrow> u64 \<Rightarrow> bool" where
  "time_after_eq a b \<longleftrightarrow> sint (a - b) \<ge> 0"

definition calculate_jiffies_diff :: "u64 \<Rightarrow> u64 \<Rightarrow> u64" where
  "calculate_jiffies_diff start end_j = (if time_after_eq end_j start then end_j - start else MAX_JIFFY_OFFSET - start + end_j + 1)"

section \<open>Delayed works\<close>

text \<open>A delayed work is idle, waits for its timer, or waits for a worker. A delay of zero queues it at once and leaves the
  expiry of the timer as it was; scheduling a pending work does nothing, modifying it replaces its delay.\<close>

datatype dwork_state = Dw_idle | Dw_timer | Dw_queued

record delayed_work =
  dw_state :: dwork_state
  expires :: u64

definition delayed_work_pending :: "delayed_work \<Rightarrow> bool" where
  "delayed_work_pending w \<longleftrightarrow> dw_state w \<noteq> Dw_idle"

definition arm :: "u64 \<Rightarrow> u64 \<Rightarrow> delayed_work \<Rightarrow> delayed_work" where
  "arm now delay w = (if delay = 0 then w\<lparr>dw_state := Dw_queued\<rparr> else w\<lparr>dw_state := Dw_timer, expires := now + delay\<rparr>)"

definition schedule_delayed_work :: "u64 \<Rightarrow> u64 \<Rightarrow> delayed_work \<Rightarrow> delayed_work" where
  "schedule_delayed_work now delay w = (if delayed_work_pending w then w else arm now delay w)"

definition mod_delayed_work :: "u64 \<Rightarrow> u64 \<Rightarrow> delayed_work \<Rightarrow> delayed_work" where
  "mod_delayed_work now delay w = arm now delay w"

section \<open>State\<close>

definition OPLUS_MSG_QUEUE_NAME_MAX :: nat where "OPLUS_MSG_QUEUE_NAME_MAX = 32"
definition MSG_FILTER_MAGIC :: u32 where "MSG_FILTER_MAGIC = 0x10012009"

record 'd oplus_msg_queue =
  q_name :: string
  private_data :: 'd
  update_work :: delayed_work
  last_update_jiffies :: u64
  update_request_jiffies :: u64
  first_update :: bool

text \<open>The list has the newest queue first. The function for the update is a parameter of the steps below.\<close>

record 'd oplus_msg_filter =
  magic :: u32
  queue_list :: "'d oplus_msg_queue list"
  dead_zone_jiffies :: u64
  max_delay_jiffies :: u64

section \<open>Queues by name\<close>

definition oplus_msg_filter_init :: "(u32 \<Rightarrow> u64) \<Rightarrow> u32 \<Rightarrow> u32 \<Rightarrow> bool \<Rightarrow> rc \<times> 'd oplus_msg_filter option" where
  "oplus_msg_filter_init ms dead_zone_ms max_delay_ms has_update =
     (if \<not> has_update then (- EINVAL, None)
      else (0, Some \<lparr>magic = MSG_FILTER_MAGIC, queue_list = [], dead_zone_jiffies = ms dead_zone_ms, max_delay_jiffies = ms max_delay_ms\<rparr>))"

definition name_matches :: "string \<Rightarrow> 'd oplus_msg_queue \<Rightarrow> bool" where
  "name_matches name q \<longleftrightarrow> take OPLUS_MSG_QUEUE_NAME_MAX (q_name q) = take OPLUS_MSG_QUEUE_NAME_MAX name"

definition oplus_msg_filter_find_queue :: "'d oplus_msg_filter \<Rightarrow> string \<Rightarrow> nat option" where
  "oplus_msg_filter_find_queue f name =
     (if magic f \<noteq> MSG_FILTER_MAGIC then None
      else find (\<lambda>i. name_matches name (queue_list f ! i)) [0..<length (queue_list f)])"

definition new_queue :: "string \<Rightarrow> 'd \<Rightarrow> 'd oplus_msg_queue" where
  "new_queue name d =
     \<lparr>q_name = take (OPLUS_MSG_QUEUE_NAME_MAX - 1) name, private_data = d, update_work = \<lparr>dw_state = Dw_idle, expires = 0\<rparr>,
      last_update_jiffies = 0, update_request_jiffies = 0, first_update = True\<rparr>"

definition oplus_msg_filter_create_queue :: "bool \<Rightarrow> 'd oplus_msg_filter \<Rightarrow> string \<Rightarrow> 'd \<Rightarrow> rc \<times> 'd oplus_msg_filter" where
  "oplus_msg_filter_create_queue mem f name d =
     (if magic f \<noteq> MSG_FILTER_MAGIC then (- EFAULT, f)
      else if oplus_msg_filter_find_queue f name \<noteq> None then (- EFAULT, f)
      else if \<not> mem then (- ENOMEM, f)
      else (0, f\<lparr>queue_list := new_queue name d # queue_list f\<rparr>))"

text \<open>Releasing frees every queue, whether its work is pending or not; the pending ones are the second result.\<close>

definition oplus_msg_filter_release_queue :: "'d oplus_msg_filter \<Rightarrow> rc \<times> 'd oplus_msg_queue list \<times> 'd oplus_msg_filter" where
  "oplus_msg_filter_release_queue f =
     (if magic f \<noteq> MSG_FILTER_MAGIC then (- EFAULT, [], f)
      else (0, filter (\<lambda>q. delayed_work_pending (update_work q)) (queue_list f), f\<lparr>queue_list := []\<rparr>))"

section \<open>Requests\<close>

text \<open>\<open>running\<close> says that the work of the queue is being executed. The result is the time since the last update, if the
  request has to be looked at further.\<close>

definition oplus_msg_queue_check_reschedule ::
  "'d oplus_msg_filter \<Rightarrow> bool \<Rightarrow> u64 \<Rightarrow> 'd oplus_msg_queue \<Rightarrow> u64 option \<times> 'd oplus_msg_queue" where
  "oplus_msg_queue_check_reschedule f running now q =
     (let q = (if update_request_jiffies q = 0 then q\<lparr>update_request_jiffies := now\<rparr> else q) in
      if running then (None, q)
      else if first_update q then (None, q\<lparr>first_update := False, update_work := schedule_delayed_work now 0 (update_work q)\<rparr>)
      else
        let running_time = calculate_jiffies_diff (last_update_jiffies q) now in
        if running_time \<ge> max_delay_jiffies f then (None, q\<lparr>update_work := schedule_delayed_work now 0 (update_work q)\<rparr>)
        else (Some running_time, q))"

definition oplus_msg_queue_get_remaining_time :: "'d oplus_msg_filter \<Rightarrow> u64 \<Rightarrow> 'd oplus_msg_queue \<Rightarrow> u64" where
  "oplus_msg_queue_get_remaining_time f now q =
     (let remaining_time = calculate_jiffies_diff now (expires (update_work q)) in
      if remaining_time > max_delay_jiffies f then 0 else remaining_time)"

definition oplus_msg_queue_update ::
  "'d oplus_msg_filter \<Rightarrow> bool \<Rightarrow> u64 \<Rightarrow> 'd oplus_msg_queue \<Rightarrow> u64 \<Rightarrow> rc \<times> 'd oplus_msg_queue" where
  "oplus_msg_queue_update f running now q grace =
     (case oplus_msg_queue_check_reschedule f running now q of
        (None, q) \<Rightarrow> (0, q)
      | (Some running_time, q) \<Rightarrow>
          if delayed_work_pending (update_work q) then
            if oplus_msg_queue_get_remaining_time f now q \<le> grace then (0, q)
            else
              let g = (if running_time + grace < dead_zone_jiffies f then dead_zone_jiffies f - running_time else grace) in
              (0, q\<lparr>update_work := mod_delayed_work now g (update_work q)\<rparr>)
          else
            let g = (if running_time + grace > max_delay_jiffies f then max_delay_jiffies f - running_time else grace) in
            (0, q\<lparr>update_work := schedule_delayed_work now (max (dead_zone_jiffies f) g) (update_work q)\<rparr>))"

text \<open>The calls by queue and by name, with a grace or with the maximal delay.\<close>

definition oplus_msg_filter_update_gp ::
  "(u32 \<Rightarrow> u64) \<Rightarrow> 'd oplus_msg_filter \<Rightarrow> bool \<Rightarrow> u64 \<Rightarrow> 'd oplus_msg_queue \<Rightarrow> u32 \<Rightarrow> rc \<times> 'd oplus_msg_queue" where
  "oplus_msg_filter_update_gp ms f running now q grace_ms =
     (if magic f \<noteq> MSG_FILTER_MAGIC then (- EFAULT, q) else oplus_msg_queue_update f running now q (ms grace_ms))"

definition oplus_msg_filter_update ::
  "'d oplus_msg_filter \<Rightarrow> bool \<Rightarrow> u64 \<Rightarrow> 'd oplus_msg_queue \<Rightarrow> rc \<times> 'd oplus_msg_queue" where
  "oplus_msg_filter_update f running now q =
     (if magic f \<noteq> MSG_FILTER_MAGIC then (- EFAULT, q) else oplus_msg_queue_update f running now q (max_delay_jiffies f))"

definition update_at ::
  "'d oplus_msg_filter \<Rightarrow> (nat \<Rightarrow> bool) \<Rightarrow> u64 \<Rightarrow> string \<Rightarrow> u64 \<Rightarrow> rc \<times> 'd oplus_msg_filter" where
  "update_at f running now name grace =
     (if magic f \<noteq> MSG_FILTER_MAGIC then (- EFAULT, f)
      else
        (case oplus_msg_filter_find_queue f name of
           None \<Rightarrow> (- EFAULT, f)
         | Some i \<Rightarrow>
             let (rc, q) = oplus_msg_queue_update f (running i) now (queue_list f ! i) grace in (rc, f\<lparr>queue_list := (queue_list f)[i := q]\<rparr>)))"

definition oplus_msg_filter_update_by_name_gp ::
  "(u32 \<Rightarrow> u64) \<Rightarrow> 'd oplus_msg_filter \<Rightarrow> (nat \<Rightarrow> bool) \<Rightarrow> u64 \<Rightarrow> string \<Rightarrow> u32 \<Rightarrow> rc \<times> 'd oplus_msg_filter" where
  "oplus_msg_filter_update_by_name_gp ms f running now name grace_ms = update_at f running now name (ms grace_ms)"

definition oplus_msg_filter_update_by_name ::
  "'d oplus_msg_filter \<Rightarrow> (nat \<Rightarrow> bool) \<Rightarrow> u64 \<Rightarrow> string \<Rightarrow> rc \<times> 'd oplus_msg_filter" where
  "oplus_msg_filter_update_by_name f running now name = update_at f running now name (max_delay_jiffies f)"

text \<open>The work: it forgets the request, calls the function, and notes the time. The function is called between the two.\<close>

definition update_work_begin :: "'d oplus_msg_queue \<Rightarrow> 'd oplus_msg_queue" where
  "update_work_begin q = q\<lparr>update_work := (update_work q)\<lparr>dw_state := Dw_idle\<rparr>, update_request_jiffies := 0\<rparr>"

definition update_work_end :: "u64 \<Rightarrow> 'd oplus_msg_queue \<Rightarrow> 'd oplus_msg_queue" where
  "update_work_end now q = q\<lparr>last_update_jiffies := now\<rparr>"

section \<open>Names\<close>

lemma find_queue_head:
  "magic f = MSG_FILTER_MAGIC \<Longrightarrow> oplus_msg_filter_find_queue (f\<lparr>queue_list := q # qs\<rparr>) name =
     (if name_matches name q then Some 0 else map_option Suc (oplus_msg_filter_find_queue (f\<lparr>queue_list := qs\<rparr>) name))"
proof -
  have "find P (map Suc xs) = map_option Suc (find (\<lambda>i. P (Suc i)) xs)" for P xs by (induction xs) auto
  then show "magic f = MSG_FILTER_MAGIC \<Longrightarrow> ?thesis"
    by (simp add: oplus_msg_filter_find_queue_def upt_conv_Cons map_Suc_upt [symmetric] del: upt_Suc)
qed

lemma short_name_matches:
  "length name < 32 \<Longrightarrow> length other < 32 \<Longrightarrow> name_matches other (new_queue name d) \<longleftrightarrow> other = name"
  by (auto simp: name_matches_def new_queue_def OPLUS_MSG_QUEUE_NAME_MAX_def)

lemma long_name_never_matches: "32 \<le> length name \<Longrightarrow> \<not> name_matches name (new_queue name' d)"
proof -
  assume n: "32 \<le> length name"
  have "length (take 32 (take 31 name')) < length (take 32 name)" using n by simp
  then show ?thesis unfolding name_matches_def new_queue_def OPLUS_MSG_QUEUE_NAME_MAX_def by (auto dest: arg_cong [of _ _ length])
qed


text \<open>A queue is found by exactly the name it was created with, if the name is short enough; a longer name is cut off when
  it is stored, never found, and can be created again and again.\<close>

theorem create_then_find:
  assumes "magic f = MSG_FILTER_MAGIC" and "length other < OPLUS_MSG_QUEUE_NAME_MAX"
    and "oplus_msg_filter_create_queue True f name d = (0, f')"
  shows "oplus_msg_filter_find_queue f' name = (if length name < OPLUS_MSG_QUEUE_NAME_MAX then Some 0 else None) \<and>
    (length name < OPLUS_MSG_QUEUE_NAME_MAX \<and> other \<noteq> name \<longrightarrow>
     oplus_msg_filter_find_queue f' other = map_option Suc (oplus_msg_filter_find_queue f other)) \<and>
    (OPLUS_MSG_QUEUE_NAME_MAX \<le> length name \<longrightarrow> fst (oplus_msg_filter_create_queue True f' name d) = 0)"
proof -
  have none: "oplus_msg_filter_find_queue f name = None" and f': "f' = f\<lparr>queue_list := new_queue name d # queue_list f\<rparr>"
    using assms(1,3) by (auto simp: oplus_msg_filter_create_queue_def split: if_splits)
  have h: "oplus_msg_filter_find_queue f' n =
      (if name_matches n (new_queue name d) then Some 0 else map_option Suc (oplus_msg_filter_find_queue f n))" for n
    using find_queue_head [OF assms(1), of "new_queue name d" "queue_list f" n] f' by simp
  show ?thesis
  proof (cases "length name < 32")
    case True
    then show ?thesis using h none
      by (simp add: OPLUS_MSG_QUEUE_NAME_MAX_def short_name_matches [OF True True] short_name_matches [OF True assms(2) [unfolded OPLUS_MSG_QUEUE_NAME_MAX_def]])
  next
    case False
    then have "oplus_msg_filter_find_queue f' name = None" using h none by (simp add: long_name_never_matches)
    then show ?thesis using False assms(1) f' by (simp add: oplus_msg_filter_create_queue_def OPLUS_MSG_QUEUE_NAME_MAX_def)
  qed
qed

section \<open>Time differences\<close>

lemma signed_small: "- 9223372036854775808 \<le> i \<Longrightarrow> i < 9223372036854775808 \<Longrightarrow> signed_take_bit 63 i = (i :: int)"
  by (rule signed_take_bit_int_eq_self) simp_all

lemma uint_small:
  assumes "unat (a :: u64) < 2 ^ 62"
  shows "0 \<le> uint a \<and> uint a < 4611686018427387904"
proof -
  have "unat a < 4611686018427387904" using assms by simp
  moreover have "uint a = int (unat a)" by (simp only: uint_nat)
  ultimately show ?thesis by linarith
qed

lemma sint_small: "unat (a :: u64) < 2 ^ 62 \<Longrightarrow> sint a = uint a"
proof -
  assume a: "unat a < 2 ^ 62"
  have "sint a = signed_take_bit 63 (uint a)" by (simp add: sint_uint)
  also have "\<dots> = uint a" by (rule signed_small) (use uint_small [OF a] in linarith)+
  finally show ?thesis .
qed

lemma time_after_eq_small: "unat a < 2 ^ 62 \<Longrightarrow> unat b < 2 ^ 62 \<Longrightarrow> time_after_eq a b \<longleftrightarrow> b \<le> a"
proof -
  assume a: "unat a < 2 ^ 62" and b: "unat b < 2 ^ 62"
  have "sint (a - b) = signed_take_bit 63 (uint a - uint b)"
    using sint_word_ariths(2) [of a b] sint_small [OF a] sint_small [OF b] by simp
  also have "\<dots> = uint a - uint b" by (rule signed_small) (use uint_small [OF a] uint_small [OF b] in linarith)+
  finally show ?thesis by (simp add: time_after_eq_def word_le_def)
qed

lemma diff_past:
  "unat e < 2 ^ 62 \<Longrightarrow> s \<le> e \<Longrightarrow> unat (calculate_jiffies_diff s e) = unat e - unat s"
proof -
  assume e: "unat e < 2 ^ 62" and s: "s \<le> e"
  have "unat s < 2 ^ 62" using e s by (simp add: word_le_nat_alt)
  then show ?thesis using time_after_eq_small [OF e] s by (simp add: calculate_jiffies_diff_def unat_sub)
qed

text \<open>A difference to the future is very large, so the remaining time of a timer that has passed counts as none.\<close>

lemma diff_future:
  assumes "unat s < 2 ^ 61" and "e < s"
  shows "2 ^ 60 < unat (calculate_jiffies_diff s e)"
proof -
  have e: "unat e < unat s" using assms(2) by (simp add: word_less_nat_alt)
  have "\<not> time_after_eq e s" using time_after_eq_small [of e s] assms e by (simp add: not_le)
  then have c: "calculate_jiffies_diff s e = MAX_JIFFY_OFFSET - s + e + 1" by (simp add: calculate_jiffies_diff_def)
  have m: "unat MAX_JIFFY_OFFSET = 2 ^ 62 - 2" by (simp add: MAX_JIFFY_OFFSET_def)
  have "s \<le> MAX_JIFFY_OFFSET" using assms(1) m by (simp add: word_le_nat_alt)
  then have "unat (MAX_JIFFY_OFFSET - s) = 2 ^ 62 - 2 - unat s" using m by (simp add: unat_sub)
  then have "unat (MAX_JIFFY_OFFSET - s + e + 1) = 2 ^ 62 - 2 - unat s + unat e + 1"
    using assms(1) e by (simp add: unat_word_ariths)
  then show ?thesis using c assms(1) by simp
qed


section \<open>A queue at work\<close>

text \<open>One queue with its work, the clock, and the end of the last update. The timer fires when its time has come, a worker
  takes the queued work up, and time passes while the function of the filter runs.\<close>

record 'd filter_sys =
  sys_q :: "'d oplus_msg_queue"
  sys_now :: u64
  sys_running :: bool
  sys_done :: "u64 option"

definition request :: "'d oplus_msg_filter \<Rightarrow> u64 \<Rightarrow> 'd filter_sys \<Rightarrow> 'd filter_sys" where
  "request f g s = s\<lparr>sys_q := snd (oplus_msg_queue_update f (sys_running s) (sys_now s) (sys_q s) g)\<rparr>"

definition set_state :: "dwork_state \<Rightarrow> 'd oplus_msg_queue \<Rightarrow> 'd oplus_msg_queue" where
  "set_state st q = q\<lparr>update_work := (update_work q)\<lparr>dw_state := st\<rparr>\<rparr>"

definition finish :: "'d filter_sys \<Rightarrow> 'd filter_sys" where
  "finish s = s\<lparr>sys_q := update_work_end (sys_now s) (sys_q s), sys_running := False, sys_done := Some (sys_now s)\<rparr>"

definition start_work :: "'d filter_sys \<Rightarrow> 'd filter_sys" where
  "start_work s = s\<lparr>sys_q := update_work_begin (sys_q s), sys_running := True\<rparr>"

definition st_of :: "'d filter_sys \<Rightarrow> dwork_state" where
  "st_of s = dw_state (update_work (sys_q s))"

definition exp_of :: "'d filter_sys \<Rightarrow> u64" where
  "exp_of s = expires (update_work (sys_q s))"

inductive filter_step :: "'d oplus_msg_filter \<Rightarrow> 'd filter_sys \<Rightarrow> 'd filter_sys \<Rightarrow> bool" for f where
  requested: "unat g < 2 ^ 60 \<Longrightarrow> filter_step f s (request f g s)"
| tick: "unat (sys_now s) + unat k < 2 ^ 61 \<Longrightarrow> filter_step f s (s\<lparr>sys_now := sys_now s + k\<rparr>)"
| fire: "st_of s = Dw_timer \<Longrightarrow> exp_of s \<le> sys_now s \<Longrightarrow> filter_step f s (s\<lparr>sys_q := set_state Dw_queued (sys_q s)\<rparr>)"
| start: "st_of s = Dw_queued \<Longrightarrow> \<not> sys_running s \<Longrightarrow> filter_step f s (start_work s)"
| finish: "sys_running s \<Longrightarrow> filter_step f s (finish s)"

inductive filter_reachable :: "'d oplus_msg_filter \<Rightarrow> 'd filter_sys \<Rightarrow> bool" for f where
  created: "unat t < 2 ^ 61 \<Longrightarrow> filter_reachable f \<lparr>sys_q = new_queue name d, sys_now = t, sys_running = False, sys_done = None\<rparr>"
| stepped: "filter_reachable f s \<Longrightarrow> filter_step f s s' \<Longrightarrow> filter_reachable f s'"

definition sane :: "'d oplus_msg_filter \<Rightarrow> bool" where
  "sane f \<longleftrightarrow> unat (dead_zone_jiffies f) \<le> unat (max_delay_jiffies f) \<and> unat (max_delay_jiffies f) < 2 ^ 60"

text \<open>The invariant, in numbers: \<open>d\<close> and \<open>m\<close> are the dead zone and the maximal delay, \<open>l\<close> the end of the last update.\<close>

definition timing :: "nat \<Rightarrow> nat \<Rightarrow> nat \<Rightarrow> nat \<Rightarrow> nat \<Rightarrow> dwork_state \<Rightarrow> bool" where
  "timing d m l now e st \<longleftrightarrow> l \<le> now \<and> e \<le> l + m + d \<and> (st = Dw_timer \<longrightarrow> l + d \<le> e \<and> e \<le> now + m) \<and> (st = Dw_queued \<longrightarrow> l + d \<le> now)"

definition filter_inv :: "'d oplus_msg_filter \<Rightarrow> 'd filter_sys \<Rightarrow> bool" where
  "filter_inv f s \<longleftrightarrow> unat (sys_now s) < 2 ^ 61 \<and> (sys_running s \<longrightarrow> st_of s = Dw_idle \<and> \<not> first_update (sys_q s)) \<and>
     (first_update (sys_q s) \<longrightarrow> st_of s = Dw_idle) \<and>
     (case sys_done s of
        None \<Rightarrow> last_update_jiffies (sys_q s) = 0 \<and> exp_of s = 0 \<and>
          (\<not> first_update (sys_q s) \<and> \<not> sys_running s \<longrightarrow> st_of s = Dw_queued)
      | Some l \<Rightarrow> last_update_jiffies (sys_q s) = l \<and> \<not> first_update (sys_q s) \<and>
          timing (unat (dead_zone_jiffies f)) (unat (max_delay_jiffies f)) (unat l) (unat (sys_now s)) (unat (exp_of s)) (st_of s))"

text \<open>What a request does to the work, case by case.\<close>

lemma request_running: "sys_running s \<Longrightarrow> update_work (sys_q (request f g s)) = update_work (sys_q s)"
  by (simp add: request_def oplus_msg_queue_update_def oplus_msg_queue_check_reschedule_def Let_def)

lemma request_first:
  "\<not> sys_running s \<Longrightarrow> first_update (sys_q s) \<Longrightarrow>
   update_work (sys_q (request f g s)) = schedule_delayed_work (sys_now s) 0 (update_work (sys_q s))"
  by (simp add: request_def oplus_msg_queue_update_def oplus_msg_queue_check_reschedule_def Let_def)

lemma request_later:
  assumes "\<not> sys_running s" and "\<not> first_update (sys_q s)" and "r = calculate_jiffies_diff (last_update_jiffies (sys_q s)) (sys_now s)"
  shows "update_work (sys_q (request f g s)) =
    (let w = update_work (sys_q s); now = sys_now s; d = dead_zone_jiffies f; m = max_delay_jiffies f in
     if m \<le> r then schedule_delayed_work now 0 w
     else if delayed_work_pending w then
       if oplus_msg_queue_get_remaining_time f now (sys_q s) \<le> g then w
       else arm now (if r + g < d then d - r else g) w
     else arm now (max d (if r + g > m then m - r else g)) w)"
  using assms
  by (simp add: request_def oplus_msg_queue_update_def oplus_msg_queue_check_reschedule_def oplus_msg_queue_get_remaining_time_def
    mod_delayed_work_def schedule_delayed_work_def Let_def)

lemma request_frame:
  "sys_now (request f g s) = sys_now s" "sys_running (request f g s) = sys_running s" "sys_done (request f g s) = sys_done s"
  "last_update_jiffies (sys_q (request f g s)) = last_update_jiffies (sys_q s)"
  "first_update (sys_q (request f g s)) = (first_update (sys_q s) \<and> sys_running s)"
  by (auto simp: request_def oplus_msg_queue_update_def oplus_msg_queue_check_reschedule_def Let_def split: if_splits)


lemma remaining_time:
  assumes "unat now < 2 ^ 61" and "unat (expires (update_work q)) < 2 ^ 62" and "unat (max_delay_jiffies f) < 2 ^ 60"
  shows "unat (oplus_msg_queue_get_remaining_time f now q) =
    (let e = unat (expires (update_work q)); n = unat now in if e < n \<or> unat (max_delay_jiffies f) < e - n then 0 else e - n)"
proof (cases "expires (update_work q) < now")
  case True
  then have "max_delay_jiffies f < calculate_jiffies_diff now (expires (update_work q))"
    using diff_future [OF assms(1) True] assms(3) by (simp add: word_less_nat_alt)
  then show ?thesis using True by (simp add: oplus_msg_queue_get_remaining_time_def Let_def word_less_nat_alt)
next
  case False
  then have "unat (calculate_jiffies_diff now (expires (update_work q))) = unat (expires (update_work q)) - unat now"
    using diff_past [of "expires (update_work q)" now] assms(2) by (simp add: not_less)
  then show ?thesis using False by (auto simp: oplus_msg_queue_get_remaining_time_def Let_def word_less_nat_alt not_less)
qed

lemma unat_arm: "unat now + unat delay < 2 ^ 64 \<Longrightarrow>
    arm now delay w = (if unat delay = 0 then w\<lparr>dw_state := Dw_queued\<rparr> else w\<lparr>dw_state := Dw_timer, expires := now + delay\<rparr>) \<and>
    unat (now + delay) = unat now + unat delay"
  by (auto simp: arm_def unat_word_ariths unat_eq_0)

lemma arm_times:
  assumes "unat now + unat delay < 2 ^ 64" and "unat (expires w) \<le> l + m + d" and "l \<le> unat now"
    and "l + d \<le> unat now + unat delay" and "unat delay \<le> m" and "unat now + unat delay \<le> l + m + d" and "unat delay \<le> b"
  shows "timing d m l (unat now) (unat (expires (arm now delay w))) (dw_state (arm now delay w)) \<and>
    dw_state (arm now delay w) \<noteq> Dw_idle \<and>
    (dw_state (arm now delay w) = Dw_queued \<or> unat (expires (arm now delay w)) \<le> unat now + b)"
  using assms unat_arm [OF assms(1), of w] by (auto simp: timing_def)

text \<open>The heart: a request keeps the timing, leaves the work pending and due within its grace or the dead zone, and does
  not postpone a timer.\<close>

lemma request_timing:
  assumes f: "sane f" and inv: "filter_inv f s" and idle: "\<not> sys_running s" and done_at: "sys_done s = Some l" and g: "unat g < 2 ^ 60"
  defines "s' \<equiv> request f g s"
  shows "timing (unat (dead_zone_jiffies f)) (unat (max_delay_jiffies f)) (unat l) (unat (sys_now s)) (unat (exp_of s')) (st_of s') \<and>
    st_of s' \<noteq> Dw_idle \<and>
    (st_of s' = Dw_queued \<or> unat (exp_of s') \<le> unat (sys_now s) + max (unat (dead_zone_jiffies f)) (unat g)) \<and>
    (st_of s = Dw_timer \<longrightarrow> st_of s' = Dw_queued \<or> unat (exp_of s') \<le> unat (exp_of s))"
proof -
  let ?n = "sys_now s" and ?w = "update_work (sys_q s)" and ?d = "dead_zone_jiffies f" and ?m = "max_delay_jiffies f"
  let ?D = "unat (dead_zone_jiffies f)" and ?M = "unat (max_delay_jiffies f)" and ?L = "unat l" and ?N = "unat (sys_now s)"
  let ?E = "unat (expires (update_work (sys_q s)))" and ?G = "unat g"
  have f: "?D \<le> ?M" "?M < 2 ^ 60" using assms(1) by (simp_all add: sane_def)
  have n: "?N < 2 ^ 61" and t: "timing ?D ?M ?L ?N ?E (dw_state ?w)" and later: "\<not> first_update (sys_q s)"
    and last: "last_update_jiffies (sys_q s) = l"
    using inv done_at by (simp_all add: filter_inv_def st_of_def exp_of_def)
  have ln: "?L \<le> ?N" and e: "?E \<le> ?L + ?M + ?D" using t by (simp_all add: timing_def)
  define r where "r = calculate_jiffies_diff l ?n"
  have r: "unat r = ?N - ?L" using diff_past [of ?n l] n ln by (simp add: r_def word_le_nat_alt)
  have E62: "?E < 2 ^ 62" using e ln n f by simp
  note rem = remaining_time [OF n E62 f(2)]
  note q = request_later [OF idle later, of r f g, unfolded last Let_def, OF r_def]
  have u: "st_of s' = dw_state (update_work (sys_q s'))" "exp_of s' = expires (update_work (sys_q s'))" "st_of s = dw_state ?w" "exp_of s = expires ?w"
    by (simp_all add: st_of_def exp_of_def)
  consider (late) "?m \<le> r" | (soon) "r < ?m" "delayed_work_pending ?w" "oplus_msg_queue_get_remaining_time f ?n (sys_q s) \<le> g"
    | (earlier) "r < ?m" "delayed_work_pending ?w" "g < oplus_msg_queue_get_remaining_time f ?n (sys_q s)"
    | (new) "r < ?m" "\<not> delayed_work_pending ?w" by (meson not_le)
  then show ?thesis
  proof cases
    case late
    then have w: "update_work (sys_q s') = schedule_delayed_work ?n 0 ?w" using q by (simp add: s'_def)
    have "?M \<le> ?N - ?L" using late r by (simp add: word_le_nat_alt)
    then show ?thesis using t f ln unfolding u w
      by (cases "dw_state ?w") (auto simp: schedule_delayed_work_def delayed_work_pending_def arm_def timing_def)
  next
    case soon
    then have w: "update_work (sys_q s') = ?w" using q by (simp add: s'_def not_le)
    have R: "?E < ?N \<or> ?M < ?E - ?N \<or> ?E - ?N \<le> ?G" using soon(3) rem by (auto simp: word_le_nat_alt Let_def split: if_splits)
    show ?thesis using t soon(2) R f unfolding u w
      by (cases "dw_state ?w") (auto simp: delayed_work_pending_def timing_def)
  next
    case earlier
    define g' where "g' = (if r + g < ?d then ?d - r else g)"
    have w: "update_work (sys_q s') = arm ?n g' ?w" using q earlier by (simp add: s'_def g'_def not_le)
    have R: "?N \<le> ?E" "?E - ?N \<le> ?M" "?G < ?E - ?N" using earlier(3) rem by (auto simp: word_less_nat_alt Let_def split: if_splits)
    have rm: "?N - ?L < ?M" using earlier(1) r by (simp add: word_less_nat_alt)
    have sum: "unat (r + g) = ?N - ?L + ?G" using r rm f g by (simp add: unat_word_ariths)
    have g': "unat g' = (if ?N - ?L + ?G < ?D then ?D - (?N - ?L) else ?G)"
      using sum r by (auto simp: g'_def word_less_nat_alt unat_sub word_le_nat_alt)
    have "timing ?D ?M ?L ?N (unat (expires (arm ?n g' ?w))) (dw_state (arm ?n g' ?w)) \<and> dw_state (arm ?n g' ?w) \<noteq> Dw_idle \<and>
        (dw_state (arm ?n g' ?w) = Dw_queued \<or> unat (expires (arm ?n g' ?w)) \<le> ?N + max ?D ?G)"
      using R rm e ln n f g' g by (intro arm_times) (auto split: if_splits)
    moreover have "dw_state (arm ?n g' ?w) = Dw_queued \<or> unat (expires (arm ?n g' ?w)) \<le> ?E" if "dw_state ?w = Dw_timer"
    proof -
      have "?L + ?D \<le> ?E" using t that by (simp add: timing_def)
      then have "?N + unat g' \<le> ?E" using R ln g' by (auto split: if_splits)
      then show ?thesis using unat_arm [of ?n g' ?w] E62 by (auto split: if_splits)
    qed
    ultimately show ?thesis unfolding u w by blast
  next
    case new
    define g' where "g' = (if r + g > ?m then ?m - r else g)"
    have w: "update_work (sys_q s') = arm ?n (max ?d g') ?w" using q new by (simp add: s'_def g'_def not_le)
    have rm: "?N - ?L < ?M" using new(1) r by (simp add: word_less_nat_alt)
    have sum: "unat (r + g) = ?N - ?L + ?G" using r rm f g by (simp add: unat_word_ariths)
    have g': "unat g' = (if ?N - ?L + ?G > ?M then ?M - (?N - ?L) else ?G)"
      using sum r rm by (auto simp: g'_def word_less_nat_alt unat_sub word_le_nat_alt)
    have mx: "unat (max ?d g') = max ?D (unat g')" by (simp add: max_def word_le_nat_alt)
    have "timing ?D ?M ?L ?N (unat (expires (arm ?n (max ?d g') ?w))) (dw_state (arm ?n (max ?d g') ?w)) \<and>
        dw_state (arm ?n (max ?d g') ?w) \<noteq> Dw_idle \<and>
        (dw_state (arm ?n (max ?d g') ?w) = Dw_queued \<or> unat (expires (arm ?n (max ?d g') ?w)) \<le> ?N + max ?D ?G)"
      using rm e ln n f g' g mx by (intro arm_times) (auto simp: max_def split: if_splits)
    moreover have "dw_state ?w \<noteq> Dw_timer" using new(2) by (simp add: delayed_work_pending_def)
    ultimately show ?thesis unfolding u w by blast
  qed
qed


text \<open>Before the first update is done the work is queued at once, and requests leave it there.\<close>

lemma request_before_first:
  assumes f: "sane f" and inv: "filter_inv f s" and idle: "\<not> sys_running s" and none: "sys_done s = None" and g: "unat g < 2 ^ 60"
  shows "st_of (request f g s) = Dw_queued \<and> exp_of (request f g s) = 0"
proof (cases "first_update (sys_q s)")
  case True
  then have "update_work (sys_q (request f g s)) = schedule_delayed_work (sys_now s) 0 (update_work (sys_q s))" "st_of s = Dw_idle" "exp_of s = 0"
    using request_first [OF idle True] inv none by (simp_all add: filter_inv_def)
  then show ?thesis by (simp add: st_of_def exp_of_def schedule_delayed_work_def delayed_work_pending_def arm_def)
next
  case False
  have q: "st_of s = Dw_queued" "exp_of s = 0" "unat (sys_now s) < 2 ^ 61" using inv none idle False by (simp_all add: filter_inv_def)
  have "unat (oplus_msg_queue_get_remaining_time f (sys_now s) (sys_q s)) = 0"
    using remaining_time [of "sys_now s" "sys_q s" f] q f by (simp add: exp_of_def sane_def Let_def)
  then have rem: "oplus_msg_queue_get_remaining_time f (sys_now s) (sys_q s) \<le> g" by (simp add: unat_eq_0)
  have p: "delayed_work_pending (update_work (sys_q s))" using q(1) by (simp add: delayed_work_pending_def st_of_def)
  have "update_work (sys_q (request f g s)) = update_work (sys_q s)"
    using request_later [OF idle False refl, of f g] rem p by (simp add: Let_def schedule_delayed_work_def)
  then show ?thesis using q by (simp add: st_of_def exp_of_def)
qed

lemma request_keeps: "sane f \<Longrightarrow> filter_inv f s \<Longrightarrow> unat g < 2 ^ 60 \<Longrightarrow> filter_inv f (request f g s)"
proof (cases "sys_running s")
  case True
  assume inv: "filter_inv f s"
  have "st_of (request f g s) = st_of s" "exp_of (request f g s) = exp_of s" using request_running [OF True] by (simp_all add: st_of_def exp_of_def)
  with inv True show ?thesis by (auto simp: filter_inv_def request_frame split: option.splits)
next
  case False
  assume a: "sane f" "filter_inv f s" "unat g < 2 ^ 60"
  show ?thesis
  proof (cases "sys_done s")
    case None
    then show ?thesis using request_before_first [OF a(1,2) False None a(3)] a(2) False by (simp add: filter_inv_def request_frame)
  next
    case (Some l)
    then show ?thesis using request_timing [OF a(1,2) False Some a(3)] a(2) False by (simp add: filter_inv_def request_frame)
  qed
qed

lemma step_keeps_inv: "filter_step f s s' \<Longrightarrow> sane f \<Longrightarrow> filter_inv f s \<Longrightarrow> filter_inv f s'"
proof (induction rule: filter_step.induct)
  case (requested g s)
  then show ?case by (simp add: request_keeps)
next
  case (tick s k)
  then have "unat (sys_now s + k) = unat (sys_now s) + unat k" by (simp add: unat_word_ariths)
  then show ?case using tick by (auto simp: filter_inv_def st_of_def exp_of_def timing_def split: option.splits)
next
  case (fire s)
  then have "unat (exp_of s) \<le> unat (sys_now s)" by (simp add: word_le_nat_alt)
  then show ?case using fire
    by (cases "sys_done s") (auto simp: filter_inv_def st_of_def exp_of_def timing_def set_state_def)
next
  case (start s)
  then show ?case by (auto simp: filter_inv_def st_of_def exp_of_def timing_def update_work_begin_def start_work_def split: option.splits)
next
  case (finish s)
  then show ?case
    by (cases "sys_done s") (auto simp: filter_inv_def st_of_def exp_of_def timing_def update_work_end_def finish_def)
qed

lemma filter_reachable_inv: "filter_reachable f s \<Longrightarrow> sane f \<Longrightarrow> filter_inv f s"
proof (induction rule: filter_reachable.induct)
  case (created t name d)
  then show ?case by (simp add: filter_inv_def new_queue_def st_of_def exp_of_def)
next
  case (stepped s s')
  then show ?case using step_keeps_inv by blast
qed

section \<open>Properties\<close>

text \<open>As long as no request is interrupted: however requests, timer and work interleave, an update starts only when the dead zone since the end of the update
  before it is over.\<close>

theorem updates_keep_dead_zone:
  assumes "filter_reachable f s" and "sane f" and "sys_done s = Some l"
    and "filter_step f s s'" and "\<not> sys_running s" and "sys_running s'"
  shows "unat l + unat (dead_zone_jiffies f) \<le> unat (sys_now s)"
proof -
  have inv: "filter_inv f s" using filter_reachable_inv [OF assms(1,2)] .
  from assms(4,5,6) have "st_of s = Dw_queued"
    by (cases rule: filter_step.cases) (simp_all add: request_frame finish_def)
  then show ?thesis using inv assms(3) by (simp add: filter_inv_def timing_def)
qed

text \<open>C37: After a request that does not come while an update is running, the work is pending and due within the grace of the
  request or the dead zone, whichever is longer; and a timer that was set is never set later.\<close>

theorem request_is_served_in_time:
  assumes "filter_reachable f s" and "sane f" and "\<not> sys_running s" and "unat g < 2 ^ 60" and "s' = request f g s"
  shows "st_of s' \<noteq> Dw_idle \<and>
    (st_of s' = Dw_queued \<or> unat (exp_of s') \<le> unat (sys_now s) + max (unat (dead_zone_jiffies f)) (unat g)) \<and>
    (st_of s = Dw_timer \<longrightarrow> st_of s' = Dw_queued \<or> unat (exp_of s') \<le> unat (exp_of s))"
proof -
  have inv: "filter_inv f s" using filter_reachable_inv [OF assms(1,2)] .
  show ?thesis
  proof (cases "sys_done s")
    case None
    then show ?thesis using request_before_first [OF assms(2) inv assms(3) None assms(4)] assms(5) by simp
  next
    case (Some l)
    then show ?thesis using request_timing [OF assms(2) inv assms(3) Some assms(4)] assms(5) by blast
  qed
qed

text \<open>A request that comes while the update is running is forgotten: it schedules nothing, and when the update ends, no
  work is pending, although the note of the request stays.\<close>

theorem request_while_running_is_lost:
  assumes "filter_reachable f s" and "sane f" and "sys_running s" and "sys_now s \<noteq> 0"
  shows "st_of (finish (request f g s)) = Dw_idle \<and> \<not> sys_running (finish (request f g s)) \<and>
    update_request_jiffies (sys_q (finish (request f g s))) \<noteq> 0"
proof -
  have "st_of s = Dw_idle" using filter_reachable_inv [OF assms(1,2)] assms(3) by (simp add: filter_inv_def)
  then show ?thesis using request_running [OF assms(3), of f g] assms(3,4)
    by (auto simp: finish_def st_of_def update_work_end_def request_def oplus_msg_queue_update_def oplus_msg_queue_check_reschedule_def Let_def)
qed

section \<open>Examples\<close>

definition demo_filter :: "nat oplus_msg_filter" where
  "demo_filter = \<lparr>magic = MSG_FILTER_MAGIC, queue_list = [], dead_zone_jiffies = 500, max_delay_jiffies = 5000\<rparr>"

definition demo_fresh :: "nat filter_sys" where
  "demo_fresh = \<lparr>sys_q = new_queue ''usb'' 0, sys_now = 1000, sys_running = False, sys_done = None\<rparr>"

definition demo_running :: "nat filter_sys" where
  "demo_running = start_work (request demo_filter 100 demo_fresh)"

lemma demo_sane: "sane demo_filter"
  by (simp add: sane_def demo_filter_def)

lemma demo_fresh_reachable: "filter_reachable demo_filter demo_fresh"
  unfolding demo_fresh_def by (rule filter_reachable.created) simp

lemma demo_first: "st_of (request demo_filter 100 demo_fresh) = Dw_queued" "\<not> sys_running (request demo_filter 100 demo_fresh)"
  by (simp_all add: demo_fresh_def request_frame st_of_def request_first new_queue_def schedule_delayed_work_def delayed_work_pending_def arm_def)

lemma demo_running_reachable: "filter_reachable demo_filter demo_running"
proof -
  have "filter_step demo_filter demo_fresh (request demo_filter 100 demo_fresh)" by (rule filter_step.requested) simp
  with demo_fresh_reachable have "filter_reachable demo_filter (request demo_filter 100 demo_fresh)" by (rule filter_reachable.stepped)
  moreover have "filter_step demo_filter (request demo_filter 100 demo_fresh) demo_running"
    unfolding demo_running_def by (rule filter_step.start [OF demo_first])
  ultimately show ?thesis by (rule filter_reachable.stepped)
qed

definition demo_done :: "nat filter_sys" where
  "demo_done = finish demo_running"

lemma demo_done_reachable: "filter_reachable demo_filter demo_done"
  unfolding demo_done_def
  by (rule filter_reachable.stepped [OF demo_running_reachable filter_step.finish]) (simp add: demo_running_def start_work_def)

theorem request_is_served_in_time_witness:
  "st_of (request demo_filter 3000 demo_done) \<noteq> Dw_idle \<and>
   (st_of (request demo_filter 3000 demo_done) = Dw_queued \<or>
    unat (exp_of (request demo_filter 3000 demo_done)) \<le> unat (sys_now demo_done) + max 500 3000)"
  using request_is_served_in_time [OF demo_done_reachable demo_sane _ _ refl, of 3000]
  by (simp add: demo_filter_def demo_done_def finish_def)

theorem request_while_running_is_lost_witness:
  "st_of (finish (request demo_filter 0 demo_running)) = Dw_idle"
  using request_while_running_is_lost [OF demo_running_reachable demo_sane, of 0]
  by (simp add: demo_running_def demo_fresh_def request_frame start_work_def)

text \<open>A run to a second update: a request at the end of the first, and time until the work is queued.\<close>

definition demo_waiting :: "nat filter_sys" where
  "demo_waiting = (request demo_filter 0 demo_done)\<lparr>sys_now := sys_now demo_done + 5000\<rparr>"

lemma demo_waiting_reachable: "filter_reachable demo_filter demo_waiting"
proof -
  have "filter_step demo_filter demo_done (request demo_filter 0 demo_done)" by (rule filter_step.requested) simp
  with demo_done_reachable have r: "filter_reachable demo_filter (request demo_filter 0 demo_done)" by (rule filter_reachable.stepped)
  have now: "sys_now (request demo_filter 0 demo_done) = 1000"
    by (simp add: request_frame demo_done_def finish_def demo_running_def start_work_def demo_fresh_def)
  then have "filter_step demo_filter (request demo_filter 0 demo_done) demo_waiting"
    unfolding demo_waiting_def using filter_step.tick [of "request demo_filter 0 demo_done" 5000 demo_filter] by (simp add: request_frame)
  with r show ?thesis by (rule filter_reachable.stepped)
qed

lemma demo_waiting_state: "st_of demo_waiting = Dw_queued \<or> st_of demo_waiting = Dw_timer \<and> exp_of demo_waiting \<le> sys_now demo_waiting"
proof -
  have i: "filter_inv demo_filter demo_done" using filter_reachable_inv [OF demo_done_reachable demo_sane] .
  have d: "sys_done demo_done = Some 1000" "\<not> sys_running demo_done" "sys_now demo_done = 1000"
    by (simp_all add: demo_done_def finish_def demo_running_def start_work_def demo_fresh_def request_frame)
  have "st_of (request demo_filter 0 demo_done) \<noteq> Dw_idle \<and>
      (st_of (request demo_filter 0 demo_done) = Dw_queued \<or> unat (exp_of (request demo_filter 0 demo_done)) \<le> 1500)"
    using request_timing [OF demo_sane i d(2,1), of 0] d(3) by (simp add: demo_filter_def)
  moreover have "st_of demo_waiting = st_of (request demo_filter 0 demo_done)" "exp_of demo_waiting = exp_of (request demo_filter 0 demo_done)"
    "sys_now demo_waiting = 6000"
    by (simp_all add: demo_waiting_def st_of_def exp_of_def d(3))
  ultimately show ?thesis by (cases "st_of demo_waiting") (auto simp: word_le_nat_alt)
qed

theorem updates_keep_dead_zone_witness:
  "\<exists>s s'. filter_step demo_filter s s' \<and> sys_running s' \<and> sys_done s = Some 1000 \<and> 1000 + 500 \<le> unat (sys_now s)"
proof -
  have w: "sys_done demo_waiting = Some 1000" "\<not> sys_running demo_waiting"
    by (simp_all add: demo_waiting_def demo_done_def finish_def demo_running_def start_work_def demo_fresh_def request_frame)
  obtain s where s: "filter_reachable demo_filter s" "st_of s = Dw_queued" "sys_done s = Some 1000" "\<not> sys_running s"
  proof (cases "st_of demo_waiting = Dw_queued")
    case True
    then show ?thesis using that demo_waiting_reachable w by blast
  next
    case False
    then have "filter_step demo_filter demo_waiting (demo_waiting\<lparr>sys_q := set_state Dw_queued (sys_q demo_waiting)\<rparr>)"
      using demo_waiting_state by (intro filter_step.fire) auto
    from that [OF filter_reachable.stepped [OF demo_waiting_reachable this]] w show ?thesis by (simp add: st_of_def set_state_def)
  qed
  have st: "filter_step demo_filter s (start_work s)" by (rule filter_step.start [OF s(2,4)])
  have "sys_running (start_work s)" by (simp add: start_work_def)
  from updates_keep_dead_zone [OF s(1) demo_sane s(3) st s(4) this] st this s(3) show ?thesis
    by (intro exI [of _ s] exI [of _ "start_work s"]) (simp only: demo_filter_def oplus_msg_filter.simps, simp)
qed

text \<open>An urgent request can be postponed: it queues the work at once, but leaves the old expiry in the timer, and the next
  request, less urgent, takes this for the time that remains and sets the timer anew.\<close>

definition demo_idle_queue :: "nat oplus_msg_queue" where
  "demo_idle_queue = (new_queue ''usb'' 0)\<lparr>first_update := False\<rparr>"

lemma small_diff: "s \<le> e \<Longrightarrow> unat e < 2 ^ 62 \<Longrightarrow> calculate_jiffies_diff s e = e - s"
  using time_after_eq_small [of e s] by (simp add: calculate_jiffies_diff_def word_le_nat_alt)

lemma urgent_request_postponed:
  defines "q1 \<equiv> snd (oplus_msg_queue_update demo_filter False 600 demo_idle_queue 3000)"
  defines "q2 \<equiv> snd (oplus_msg_queue_update demo_filter False 600 q1 0)"
  defines "q3 \<equiv> snd (oplus_msg_queue_update demo_filter False 600 q2 1000)"
  shows "update_work q1 = \<lparr>dw_state = Dw_timer, expires = 3600\<rparr>"
    and "update_work q2 = \<lparr>dw_state = Dw_queued, expires = 3600\<rparr>"
    and "update_work q3 = \<lparr>dw_state = Dw_timer, expires = 1600\<rparr>"
proof -
  have d: "calculate_jiffies_diff 0 600 = 600" "calculate_jiffies_diff 600 3600 = 3000" by (simp_all add: small_diff)
  note defs = oplus_msg_queue_update_def oplus_msg_queue_check_reschedule_def oplus_msg_queue_get_remaining_time_def
    mod_delayed_work_def schedule_delayed_work_def delayed_work_pending_def arm_def Let_def demo_filter_def d
  have 1: "q1 = demo_idle_queue\<lparr>update_request_jiffies := 600, update_work := \<lparr>dw_state = Dw_timer, expires = 3600\<rparr>\<rparr>"
    by (simp add: q1_def demo_idle_queue_def new_queue_def defs max_def)
  have 2: "q2 = demo_idle_queue\<lparr>update_request_jiffies := 600, update_work := \<lparr>dw_state = Dw_queued, expires = 3600\<rparr>\<rparr>"
    by (simp add: q2_def 1 demo_idle_queue_def new_queue_def defs)
  have 3: "update_work q3 = \<lparr>dw_state = Dw_timer, expires = 1600\<rparr>"
    by (simp add: q3_def 2 demo_idle_queue_def new_queue_def defs)
  show "update_work q1 = \<lparr>dw_state = Dw_timer, expires = 3600\<rparr>" "update_work q2 = \<lparr>dw_state = Dw_queued, expires = 3600\<rparr>"
    "update_work q3 = \<lparr>dw_state = Dw_timer, expires = 1600\<rparr>" using 3 by (simp_all add: 1 2)
qed

end
