(* ===== verification/Chg_Msg_Race.thy ===== *)
theory Chg_Msg_Race
  imports Chg_Msg_Filter
begin

text \<open>
  The requests of the message filter (\<^verbatim>\<open>mms/oplus_msg_filter.c\<close>) as they really run: \<^verbatim>\<open>oplus_msg_queue_update\<close> takes no
  lock, so a request is a sequence of reads and writes of the queue, and between any two of them other requests, the
  timer and the work may go on. A request that is not interrupted does what \<open>oplus_msg_queue_update\<close> of
  \<open>Chg_Msg_Filter\<close> says; one that is overtaken by an update may break the dead zone, and only such a one.
\<close>

section \<open>Requests in progress\<close>

text \<open>Where a request is, with the values it has read. \<open>Ph_read\<close> and \<open>Ph_remain\<close> are the two reads for a difference,
  which the compiler may order; the delays have been computed in \<open>Ph_mod\<close> and \<open>Ph_new\<close>.\<close>

datatype req_phase =
    Ph_note | Ph_busy | Ph_first | Ph_clear | Ph_first_sched
  | Ph_read "u64 option" "u64 option" | Ph_late
  | Ph_pending u64 | Ph_remain u64 "u64 option" "u64 option" | Ph_mod u64 | Ph_new u64 | Ph_done

text \<open>\<open>r_seen\<close> is the number of updates that had started when the request found that none was running. It is for the
  statements only, and so are \<open>ra_starts\<close>, the end of the last update \<open>ra_ended\<close>, and \<open>ra_stale\<close>: whether the pending
  work was set by a request that an update overtook.\<close>

record race_req =
  r_grace :: u64
  r_phase :: req_phase
  r_seen :: nat

datatype worker = Resting | Updating | Returning

record 'd race_sys =
  ra_q :: "'d oplus_msg_queue"
  ra_now :: u64
  ra_worker :: worker
  ra_reqs :: "race_req list"
  ra_starts :: nat
  ra_ended :: "u64 option"
  ra_stale :: bool

text \<open>A request that sets the work: scheduling a pending work has no effect.\<close>

definition sched_by :: "race_req \<Rightarrow> u64 \<Rightarrow> 'd race_sys \<Rightarrow> 'd race_sys" where
  "sched_by r delay s =
     (if delayed_work_pending (update_work (ra_q s)) then s
      else s\<lparr>ra_q := (ra_q s)\<lparr>update_work := schedule_delayed_work (ra_now s) delay (update_work (ra_q s))\<rparr>,
             ra_stale := (r_seen r \<noteq> ra_starts s)\<rparr>)"

definition mod_by :: "race_req \<Rightarrow> u64 \<Rightarrow> 'd race_sys \<Rightarrow> 'd race_sys" where
  "mod_by r delay s =
     s\<lparr>ra_q := (ra_q s)\<lparr>update_work := mod_delayed_work (ra_now s) delay (update_work (ra_q s))\<rparr>,
       ra_stale := (r_seen r \<noteq> ra_starts s)\<rparr>"

text \<open>The next read or write of a request. The flag says which of two values is read first.\<close>

fun after_read :: "'d oplus_msg_filter \<Rightarrow> u64 option \<Rightarrow> u64 option \<Rightarrow> req_phase" where
  "after_read f (Some lu) (Some now) =
     (let running_time = calculate_jiffies_diff lu now in
      if running_time \<ge> max_delay_jiffies f then Ph_late else Ph_pending running_time)"
| "after_read f lu now = Ph_read lu now"

fun after_remain :: "'d oplus_msg_filter \<Rightarrow> u64 \<Rightarrow> u64 \<Rightarrow> u64 option \<Rightarrow> u64 option \<Rightarrow> req_phase" where
  "after_remain f grace running_time (Some now) (Some expiry) =
     (let d = calculate_jiffies_diff now expiry; remaining_time = (if d > max_delay_jiffies f then 0 else d) in
      if remaining_time \<le> grace then Ph_done
      else Ph_mod (if running_time + grace < dead_zone_jiffies f then dead_zone_jiffies f - running_time else grace))"
| "after_remain f grace running_time now expiry = Ph_remain running_time now expiry"

fun advance :: "'d oplus_msg_filter \<Rightarrow> bool \<Rightarrow> race_req \<Rightarrow> 'd race_sys \<Rightarrow> race_req \<times> 'd race_sys" where
  "advance f left r s =
     (case r_phase r of
        Ph_note \<Rightarrow> (r\<lparr>r_phase := Ph_busy\<rparr>,
          if update_request_jiffies (ra_q s) = 0 then s\<lparr>ra_q := (ra_q s)\<lparr>update_request_jiffies := ra_now s\<rparr>\<rparr> else s)
      | Ph_busy \<Rightarrow> (if ra_worker s \<noteq> Resting then r\<lparr>r_phase := Ph_done\<rparr> else r\<lparr>r_phase := Ph_first, r_seen := ra_starts s\<rparr>, s)
      | Ph_first \<Rightarrow> (r\<lparr>r_phase := (if first_update (ra_q s) then Ph_clear else Ph_read None None)\<rparr>, s)
      | Ph_clear \<Rightarrow> (r\<lparr>r_phase := Ph_first_sched\<rparr>, s\<lparr>ra_q := (ra_q s)\<lparr>first_update := False\<rparr>\<rparr>)
      | Ph_first_sched \<Rightarrow> (r\<lparr>r_phase := Ph_done\<rparr>, sched_by r 0 s)
      | Ph_read lu now \<Rightarrow>
          (if left \<and> lu = None \<or> now \<noteq> None then (r\<lparr>r_phase := after_read f (Some (last_update_jiffies (ra_q s))) now\<rparr>, s)
           else (r\<lparr>r_phase := after_read f lu (Some (ra_now s))\<rparr>, s))
      | Ph_late \<Rightarrow> (r\<lparr>r_phase := Ph_done\<rparr>, sched_by r 0 s)
      | Ph_pending rt \<Rightarrow>
          (r\<lparr>r_phase :=
             (if delayed_work_pending (update_work (ra_q s)) then Ph_remain rt None None
              else Ph_new (max (dead_zone_jiffies f)
                (if rt + r_grace r > max_delay_jiffies f then max_delay_jiffies f - rt else r_grace r)))\<rparr>, s)
      | Ph_remain rt now expiry \<Rightarrow>
          (if left \<and> now = None \<or> expiry \<noteq> None then (r\<lparr>r_phase := after_remain f (r_grace r) rt (Some (ra_now s)) expiry\<rparr>, s)
           else (r\<lparr>r_phase := after_remain f (r_grace r) rt now (Some (expires (update_work (ra_q s))))\<rparr>, s))
      | Ph_mod delay \<Rightarrow> (r\<lparr>r_phase := Ph_done\<rparr>, mod_by r delay s)
      | Ph_new delay \<Rightarrow> (r\<lparr>r_phase := Ph_done\<rparr>, sched_by r delay s)
      | Ph_done \<Rightarrow> (r, s))"

section \<open>Interleaving\<close>

text \<open>The clock stays below \<open>2 ^ 61\<close> and the grace of a call below \<open>2 ^ 60\<close> jiffies. Who goes on: a caller arrives with a grace, a request takes its next step, time passes, the timer fires, a worker
  takes the work up, the work notes the time after the function of the filter, and it returns.\<close>

datatype race_event = Ev_call u64 | Ev_req nat bool | Ev_tick u64 | Ev_fire | Ev_start | Ev_note | Ev_return

fun race_step :: "'d oplus_msg_filter \<Rightarrow> race_event \<Rightarrow> 'd race_sys \<Rightarrow> 'd race_sys option" where
  "race_step f (Ev_call grace) s =
     (if uint grace < 1152921504606846976 then Some (s\<lparr>ra_reqs := ra_reqs s @ [\<lparr>r_grace = grace, r_phase = Ph_note, r_seen = 0\<rparr>]\<rparr>) else None)"
| "race_step f (Ev_req i left) s =
     (if i < length (ra_reqs s)
      then let (r, s1) = advance f left (ra_reqs s ! i) s in Some (s1\<lparr>ra_reqs := (ra_reqs s1)[i := r]\<rparr>)
      else None)"
| "race_step f (Ev_tick k) s = (if uint (ra_now s) + uint k < 2305843009213693952 then Some (s\<lparr>ra_now := ra_now s + k\<rparr>) else None)"
| "race_step f Ev_fire s =
     (if dw_state (update_work (ra_q s)) = Dw_timer \<and> expires (update_work (ra_q s)) \<le> ra_now s
      then Some (s\<lparr>ra_q := set_state Dw_queued (ra_q s)\<rparr>) else None)"
| "race_step f Ev_start s =
     (if dw_state (update_work (ra_q s)) = Dw_queued \<and> ra_worker s = Resting
      then Some (s\<lparr>ra_q := update_work_begin (ra_q s), ra_worker := Updating, ra_starts := ra_starts s + 1, ra_stale := False\<rparr>)
      else None)"
| "race_step f Ev_note s =
     (if ra_worker s = Updating
      then Some (s\<lparr>ra_q := update_work_end (ra_now s) (ra_q s), ra_worker := Returning, ra_ended := Some (ra_now s)\<rparr>) else None)"
| "race_step f Ev_return s = (if ra_worker s = Returning then Some (s\<lparr>ra_worker := Resting\<rparr>) else None)"

fun race_run :: "'d oplus_msg_filter \<Rightarrow> race_event list \<Rightarrow> 'd race_sys \<Rightarrow> 'd race_sys option" where
  "race_run f [] s = Some s"
| "race_run f (e # es) s = (case race_step f e s of None \<Rightarrow> None | Some s1 \<Rightarrow> race_run f es s1)"

definition race_start :: "string \<Rightarrow> 'd \<Rightarrow> u64 \<Rightarrow> 'd race_sys" where
  "race_start name d t = \<lparr>ra_q = new_queue name d, ra_now = t, ra_worker = Resting, ra_reqs = [], ra_starts = 0, ra_ended = None, ra_stale = False\<rparr>"

section \<open>A request on its own\<close>

text \<open>The steps of the only request, until it is done. Twelve are more than any path has.\<close>

fun alone :: "nat \<Rightarrow> 'd oplus_msg_filter \<Rightarrow> bool \<Rightarrow> race_req \<Rightarrow> 'd race_sys \<Rightarrow> race_req \<times> 'd race_sys" where
  "alone 0 f left r s = (r, s)"
| "alone (Suc n) f left r s = (case advance f left r s of (r1, s1) \<Rightarrow> alone n f left r1 s1)"


declare advance.simps [simp del] alone.simps(2) [simp del]




lemma phase_update [simp]: "mod_by (r\<lparr>r_phase := p\<rparr>) d s = mod_by r d s" "sched_by (r\<lparr>r_phase := p\<rparr>) d s = sched_by r d s"
  by (simp_all add: mod_by_def sched_by_def)










section \<open>The invariant\<close>

text \<open>In numbers: \<open>d\<close> and \<open>m\<close> are the dead zone and the maximal delay, \<open>l\<close> is the end of the last update. The work is due
  outside the dead zone, and so are the delays a request has computed from what it has read.\<close>

definition due_ok :: "nat \<Rightarrow> nat \<Rightarrow> nat \<Rightarrow> delayed_work \<Rightarrow> bool" where
  "due_ok d l now w \<longleftrightarrow> (dw_state w = Dw_timer \<longrightarrow> l + d \<le> unat (expires w)) \<and> (dw_state w = Dw_queued \<longrightarrow> l + d \<le> now)"

fun phase_ok :: "nat \<Rightarrow> nat \<Rightarrow> nat \<Rightarrow> nat \<Rightarrow> req_phase \<Rightarrow> bool" where
  "phase_ok d m l now (Ph_read lu n) \<longleftrightarrow> (\<forall>x. lu = Some x \<longrightarrow> unat x = l) \<and> (\<forall>x. n = Some x \<longrightarrow> l \<le> unat x \<and> unat x \<le> now)"
| "phase_ok d m l now Ph_late \<longleftrightarrow> l + d \<le> now"
| "phase_ok d m l now (Ph_pending rt) \<longleftrightarrow> l + unat rt \<le> now \<and> unat rt < m"
| "phase_ok d m l now (Ph_remain rt _ _) \<longleftrightarrow> l + unat rt \<le> now \<and> unat rt < m"
| "phase_ok d m l now (Ph_mod delay) \<longleftrightarrow> l + d \<le> now + unat delay \<and> unat delay < 2 ^ 61"
| "phase_ok d m l now (Ph_new delay) \<longleftrightarrow> d \<le> unat delay \<and> unat delay < 2 ^ 61"
| "phase_ok d m l now _ \<longleftrightarrow> True"

definition checked :: "req_phase \<Rightarrow> bool" where
  "checked p \<longleftrightarrow> p \<notin> {Ph_note, Ph_busy, Ph_done}"

definition req_ok :: "'d oplus_msg_filter \<Rightarrow> 'd race_sys \<Rightarrow> race_req \<Rightarrow> bool" where
  "req_ok f s r \<longleftrightarrow> unat (r_grace r) < 2 ^ 60 \<and> r_seen r \<le> ra_starts s \<and>
     (r_phase r \<in> {Ph_clear, Ph_first_sched} \<longrightarrow> r_seen r = 0) \<and>
     (first_update (ra_q s) \<longrightarrow> r_phase r \<in> {Ph_note, Ph_busy, Ph_first, Ph_clear, Ph_done}) \<and>
     (checked (r_phase r) \<and> r_seen r = ra_starts s \<longrightarrow>
       ra_worker s = Resting \<and>
       (\<forall>l. ra_ended s = Some l \<longrightarrow>
         phase_ok (unat (dead_zone_jiffies f)) (unat (max_delay_jiffies f)) (unat l) (unat (ra_now s)) (r_phase r)))"

definition queue_ok :: "'d oplus_msg_filter \<Rightarrow> 'd race_sys \<Rightarrow> bool" where
  "queue_ok f s \<longleftrightarrow> unat (ra_now s) < 2 ^ 61 \<and>
     (first_update (ra_q s) \<longrightarrow> ra_starts s = 0 \<and> dw_state (update_work (ra_q s)) = Dw_idle) \<and>
     (ra_starts s = 0 \<longrightarrow> ra_ended s = None \<and> ra_worker s = Resting) \<and>
     (ra_worker s \<noteq> Resting \<and> dw_state (update_work (ra_q s)) \<noteq> Dw_idle \<longrightarrow> ra_stale s) \<and>
     (\<forall>l. ra_ended s = Some l \<longrightarrow> last_update_jiffies (ra_q s) = l \<and> unat l \<le> unat (ra_now s) \<and>
        (\<not> ra_stale s \<longrightarrow> due_ok (unat (dead_zone_jiffies f)) (unat l) (unat (ra_now s)) (update_work (ra_q s))))"

definition race_inv :: "'d oplus_msg_filter \<Rightarrow> 'd race_sys \<Rightarrow> bool" where
  "race_inv f s \<longleftrightarrow> queue_ok f s \<and> list_all (req_ok f s) (ra_reqs s)"

text \<open>Time passing, and whatever one request does, leaves the others right.\<close>

lemma phase_ok_later: "phase_ok d m l now p \<Longrightarrow> now \<le> now' \<Longrightarrow> phase_ok d m l now' p"
  by (induction d m l now p rule: phase_ok.induct) auto

lemma others_ok:
  assumes "req_ok f s r" and "ra_starts s' = ra_starts s" and "ra_worker s' = ra_worker s" and "ra_ended s' = ra_ended s"
    and "ra_now s' = ra_now s" and "first_update (ra_q s') \<longrightarrow> first_update (ra_q s)"
  shows "req_ok f s' r"
  using assms by (auto simp: req_ok_def)

lemma arm_due:
  assumes "l + d \<le> unat now + unat delay" and "unat now < 2 ^ 61" and "unat delay < 2 ^ 61"
  shows "due_ok d l (unat now) (arm now delay w)"
  using unat_arm [of now delay w] assms by (auto simp: due_ok_def)

text \<open>Setting the work by a request whose delay is right.\<close>

lemma set_work_ok:
  assumes "queue_ok f s" and "\<not> first_update (ra_q s)"
    and "r_seen r = ra_starts s \<Longrightarrow> ra_worker s = Resting \<and>
      (\<forall>l. ra_ended s = Some l \<longrightarrow> unat l + unat (dead_zone_jiffies f) \<le> unat (ra_now s) + unat delay \<and> unat delay < 2 ^ 61)"
    and "s' = sched_by r delay s \<or> s' = mod_by r delay s"
  shows "queue_ok f s'"
proof (cases "s' = s")
  case False
  then have s': "s' = s\<lparr>ra_q := (ra_q s)\<lparr>update_work := arm (ra_now s) delay (update_work (ra_q s))\<rparr>, ra_stale := (r_seen r \<noteq> ra_starts s)\<rparr>"
    using assms(4) by (auto simp: sched_by_def mod_by_def schedule_delayed_work_def mod_delayed_work_def split: if_splits)
  show ?thesis unfolding s' using assms(1-3) arm_due [of _ "unat (dead_zone_jiffies f)" "ra_now s" delay "update_work (ra_q s)"]
    by (auto simp: queue_ok_def)
qed (use assms(1) in simp)

lemma set_work_frame [simp]:
  "ra_starts (sched_by r d s) = ra_starts s" "ra_worker (sched_by r d s) = ra_worker s" "ra_ended (sched_by r d s) = ra_ended s"
  "ra_now (sched_by r d s) = ra_now s" "first_update (ra_q (sched_by r d s)) = first_update (ra_q s)" "ra_reqs (sched_by r d s) = ra_reqs s"
  "ra_starts (mod_by r d s) = ra_starts s" "ra_worker (mod_by r d s) = ra_worker s" "ra_ended (mod_by r d s) = ra_ended s"
  "ra_now (mod_by r d s) = ra_now s" "first_update (ra_q (mod_by r d s)) = first_update (ra_q s)" "ra_reqs (mod_by r d s) = ra_reqs s"
  by (simp_all add: sched_by_def mod_by_def)

text \<open>What a request computes from the two values it read.\<close>

lemma after_read_ok:
  assumes "sane f" and "unat n < 2 ^ 61" and "unat l \<le> unat n" and "unat n \<le> now"
  shows "phase_ok (unat (dead_zone_jiffies f)) (unat (max_delay_jiffies f)) (unat l) now (after_read f (Some l) (Some n))"
proof -
  have r: "unat (calculate_jiffies_diff l n) = unat n - unat l" using diff_past [of n l] assms(2,3) by (simp add: word_le_nat_alt)
  then show ?thesis using assms by (auto simp: Let_def sane_def word_le_nat_alt)
qed

lemma after_remain_ok:
  assumes "sane f" and "l + unat rt \<le> now" and "unat rt < unat (max_delay_jiffies f)" and "unat g < 2 ^ 60"
  shows "phase_ok (unat (dead_zone_jiffies f)) (unat (max_delay_jiffies f)) l now (after_remain f g rt (Some n) (Some e))"
proof -
  have f: "unat (dead_zone_jiffies f) < 2 ^ 60" "unat rt < 2 ^ 60" using assms(1,3) by (simp_all add: sane_def)
  have sum: "unat (rt + g) = unat rt + unat g" using f(2) assms(4) by (simp add: unat_word_ariths)
  let ?g = "if rt + g < dead_zone_jiffies f then dead_zone_jiffies f - rt else g"
  have g: "unat ?g = (if unat rt + unat g < unat (dead_zone_jiffies f) then unat (dead_zone_jiffies f) - unat rt else unat g)"
    using sum by (auto simp: word_less_nat_alt unat_sub word_le_nat_alt)
  have "phase_ok (unat (dead_zone_jiffies f)) (unat (max_delay_jiffies f)) l now (Ph_mod ?g)"
    unfolding phase_ok.simps g using assms(2,4) f by auto
  then show ?thesis by (simp add: Let_def)
qed

lemma new_delay_ok:
  assumes "sane f" and "unat g < 2 ^ 60" and "unat rt < unat (max_delay_jiffies f)"
  shows "phase_ok (unat (dead_zone_jiffies f)) m l now
    (Ph_new (max (dead_zone_jiffies f) (if rt + g > max_delay_jiffies f then max_delay_jiffies f - rt else g)))"
proof -
  let ?g = "if rt + g > max_delay_jiffies f then max_delay_jiffies f - rt else g"
  have f: "unat (dead_zone_jiffies f) < 2 ^ 60" "unat (max_delay_jiffies f) < 2 ^ 60" using assms(1) by (simp_all add: sane_def)
  have "unat (max_delay_jiffies f - rt) \<le> unat (max_delay_jiffies f)" using assms(3) by (simp add: unat_sub word_le_nat_alt)
  then have "unat ?g < 2 ^ 60" using f(2) assms(2) by simp
  moreover have "unat (max (dead_zone_jiffies f) ?g) = max (unat (dead_zone_jiffies f)) (unat ?g)" by (simp add: max_def word_le_nat_alt)
  ultimately show ?thesis using f(1) unfolding phase_ok.simps by simp
qed

text \<open>A step of a request keeps the queue and itself right.\<close>

lemma advance_frame:
  assumes "advance f left r s = (r', s')"
  shows "ra_starts s' = ra_starts s \<and> ra_worker s' = ra_worker s \<and> ra_ended s' = ra_ended s \<and> ra_now s' = ra_now s \<and>
    (first_update (ra_q s') \<longrightarrow> first_update (ra_q s)) \<and> ra_reqs s' = ra_reqs s \<and> r_grace r' = r_grace r"
  using assms by (cases "r_phase r") (auto simp: advance.simps split: if_splits)

text \<open>A request that only changes its own phase.\<close>

lemma phase_change:
  assumes "queue_ok f s" and "req_ok f s r" and "checked (r_phase r)" and "\<not> first_update (ra_q s)"
    and "p \<notin> {Ph_clear, Ph_first_sched}"
    and "\<And>l. r_seen r = ra_starts s \<Longrightarrow> ra_ended s = Some l \<Longrightarrow> last_update_jiffies (ra_q s) = l \<Longrightarrow> unat l \<le> unat (ra_now s) \<Longrightarrow>
      unat (ra_now s) < 2 ^ 61 \<Longrightarrow> unat (r_grace r) < 2 ^ 60 \<Longrightarrow>
      phase_ok (unat (dead_zone_jiffies f)) (unat (max_delay_jiffies f)) (unat l) (unat (ra_now s)) (r_phase r) \<Longrightarrow>
      phase_ok (unat (dead_zone_jiffies f)) (unat (max_delay_jiffies f)) (unat l) (unat (ra_now s)) p"
  shows "req_ok f s (r\<lparr>r_phase := p\<rparr>)"
  using assms by (auto simp: req_ok_def queue_ok_def)

text \<open>A request that sets the work and is done.\<close>

lemma set_work_done:
  assumes "queue_ok f s" and "req_ok f s r" and "checked (r_phase r)" and "\<not> first_update (ra_q s)"
    and "s' = sched_by r delay s \<or> s' = mod_by r delay s"
    and "\<And>l. r_seen r = ra_starts s \<Longrightarrow> ra_ended s = Some l \<Longrightarrow> unat l \<le> unat (ra_now s) \<Longrightarrow>
      phase_ok (unat (dead_zone_jiffies f)) (unat (max_delay_jiffies f)) (unat l) (unat (ra_now s)) (r_phase r) \<Longrightarrow>
      unat l + unat (dead_zone_jiffies f) \<le> unat (ra_now s) + unat delay \<and> unat delay < 2 ^ 61"
  shows "queue_ok f s' \<and> req_ok f s' (r\<lparr>r_phase := Ph_done\<rparr>)"
proof
  show "queue_ok f s'"
  proof (rule set_work_ok [OF assms(1,4) _ assms(5)])
    assume "r_seen r = ra_starts s"
    then show "ra_worker s = Resting \<and> (\<forall>l. ra_ended s = Some l \<longrightarrow>
        unat l + unat (dead_zone_jiffies f) \<le> unat (ra_now s) + unat delay \<and> unat delay < 2 ^ 61)"
      using assms(1-3,6) by (auto simp: req_ok_def queue_ok_def)
  qed
  show "req_ok f s' (r\<lparr>r_phase := Ph_done\<rparr>)" using assms(2,5) by (auto simp: req_ok_def checked_def)
qed

lemma not_first: "req_ok f s r \<Longrightarrow> r_phase r \<notin> {Ph_note, Ph_busy, Ph_first, Ph_clear, Ph_done} \<Longrightarrow> \<not> first_update (ra_q s)"
  by (auto simp: req_ok_def)

lemma read_step_ok:
  assumes "sane f" and "queue_ok f s" and "req_ok f s r" and "r_phase r = Ph_read lu n" and "advance f left r s = (r', s')"
  shows "req_ok f s r'"
proof -
  note change = phase_change [OF assms(2,3) _ not_first [OF assms(3)]]
  have a: "after_read f x y \<notin> {Ph_clear, Ph_first_sched}" for x y by (cases x; cases y) (simp_all add: Let_def)
  consider "r' = r\<lparr>r_phase := after_read f (Some (last_update_jiffies (ra_q s))) n\<rparr>" | "r' = r\<lparr>r_phase := after_read f lu (Some (ra_now s))\<rparr>"
    using assms(4,5) by (auto simp: advance.simps split: if_splits)
  then show ?thesis
  proof cases
    case 1
    show ?thesis unfolding 1
    proof (rule change)
      fix l assume l: "last_update_jiffies (ra_q s) = l" "unat l \<le> unat (ra_now s)" "unat (ra_now s) < 2 ^ 61"
        and "phase_ok (unat (dead_zone_jiffies f)) (unat (max_delay_jiffies f)) (unat l) (unat (ra_now s)) (r_phase r)"
      then show "phase_ok (unat (dead_zone_jiffies f)) (unat (max_delay_jiffies f)) (unat l) (unat (ra_now s))
          (after_read f (Some (last_update_jiffies (ra_q s))) n)"
        using after_read_ok [OF assms(1), of _ l "unat (ra_now s)"] assms(4) by (cases n) (simp_all del: after_read.simps(1))
    qed (use assms(4) a in \<open>simp_all add: checked_def\<close>)
  next
    case 2
    show ?thesis unfolding 2
    proof (rule change)
      fix l assume l: "last_update_jiffies (ra_q s) = l" "unat l \<le> unat (ra_now s)" "unat (ra_now s) < 2 ^ 61"
        and p: "phase_ok (unat (dead_zone_jiffies f)) (unat (max_delay_jiffies f)) (unat l) (unat (ra_now s)) (r_phase r)"
      then have u: "lu = Some x \<Longrightarrow> x = l" for x using assms(4) by (auto simp: word_unat_eq_iff)
      show "phase_ok (unat (dead_zone_jiffies f)) (unat (max_delay_jiffies f)) (unat l) (unat (ra_now s)) (after_read f lu (Some (ra_now s)))"
      proof (cases lu)
        case None
        then show ?thesis using l by simp
      next
        case (Some x)
        then show ?thesis using after_read_ok [OF assms(1) l(3,2) order_refl] u by simp
      qed
    qed (use assms(4) a in \<open>simp_all add: checked_def\<close>)
  qed
qed

lemma remain_step_ok:
  assumes "sane f" and "queue_ok f s" and "req_ok f s r" and "r_phase r = Ph_remain rt n e" and "advance f left r s = (r', s')"
  shows "req_ok f s r'"
proof -
  note change = phase_change [OF assms(2,3) _ not_first [OF assms(3)]]
  obtain x y where r': "r' = r\<lparr>r_phase := after_remain f (r_grace r) rt x y\<rparr>"
    using assms(4,5) by (auto simp: advance.simps split: if_splits)
  have a: "after_remain f (r_grace r) rt x y \<notin> {Ph_clear, Ph_first_sched}" by (cases x; cases y) (simp_all add: Let_def)
  show ?thesis unfolding r'
  proof (rule change)
    fix l assume "unat (r_grace r) < 2 ^ 60"
      and "phase_ok (unat (dead_zone_jiffies f)) (unat (max_delay_jiffies f)) (unat l) (unat (ra_now s)) (r_phase r)"
    then show "phase_ok (unat (dead_zone_jiffies f)) (unat (max_delay_jiffies f)) (unat l) (unat (ra_now s))
        (after_remain f (r_grace r) rt x y)"
      using after_remain_ok [OF assms(1), of "unat l" rt "unat (ra_now s)" "r_grace r"] assms(4)
      by (cases x; cases y) (simp_all del: after_remain.simps(1))
  qed (use assms(4) a in \<open>simp_all add: checked_def\<close>)
qed

lemma note_ok [simp]: "queue_ok f (s\<lparr>ra_q := (ra_q s)\<lparr>update_request_jiffies := x\<rparr>\<rparr>) = queue_ok f s"
  by (simp add: queue_ok_def)

lemma first_cleared: "queue_ok f s \<Longrightarrow> queue_ok f (s\<lparr>ra_q := (ra_q s)\<lparr>first_update := False\<rparr>\<rparr>)"
  by (simp add: queue_ok_def)

text \<open>The phases before the time is read.\<close>

lemma early_ok:
  assumes "queue_ok f s" and "req_ok f s r" and "r_phase r \<in> {Ph_note, Ph_busy, Ph_first, Ph_clear}" and "advance f left r s = (r', s')"
  shows "queue_ok f s' \<and> req_ok f s' r'"
proof -
  have t: "ra_starts s = 0 \<Longrightarrow> ra_worker s = Resting" "first_update (ra_q s) \<Longrightarrow> ra_starts s = 0" using assms(1) by (simp_all add: queue_ok_def)
  consider "r_phase r = Ph_note" | "r_phase r = Ph_busy" | "r_phase r = Ph_first" | "r_phase r = Ph_clear" using assms(3) by blast
  then show ?thesis
  proof cases
    case 1
    then have "r' = r\<lparr>r_phase := Ph_busy\<rparr>" "s' = s \<or> s' = s\<lparr>ra_q := (ra_q s)\<lparr>update_request_jiffies := ra_now s\<rparr>\<rparr>"
      using assms(4) by (auto simp: advance.simps split: if_splits)
    then show ?thesis using assms(1,2) by (auto simp: req_ok_def checked_def)
  next
    case 2
    then have "s' = s" "r' = (if ra_worker s \<noteq> Resting then r\<lparr>r_phase := Ph_done\<rparr> else r\<lparr>r_phase := Ph_first, r_seen := ra_starts s\<rparr>)"
      using assms(4) by (auto simp: advance.simps)
    then show ?thesis using assms(1,2) by (simp add: req_ok_def checked_def)
  next
    case 3
    then have "s' = s" "r' = r\<lparr>r_phase := (if first_update (ra_q s) then Ph_clear else Ph_read None None)\<rparr>"
      using assms(4) by (auto simp: advance.simps)
    then show ?thesis using assms(1,2) t 3 by (auto simp: req_ok_def checked_def)
  next
    case 4
    then have "s' = s\<lparr>ra_q := (ra_q s)\<lparr>first_update := False\<rparr>\<rparr>" "r' = r\<lparr>r_phase := Ph_first_sched\<rparr>"
      using assms(4) by (simp_all add: advance.simps)
    then show ?thesis using first_cleared [OF assms(1)] assms(2) 4 by (simp add: req_ok_def checked_def)
  qed
qed

lemma advance_ok:
  assumes "sane f" and "queue_ok f s" and "req_ok f s r" and "advance f left r s = (r', s')"
  shows "queue_ok f s' \<and> req_ok f s' r'"
proof (cases "r_phase r")
  case (Ph_read lu n)
  then have "s' = s" using assms(4) by (auto simp: advance.simps split: if_splits)
  with read_step_ok [OF assms(1-3) Ph_read assms(4)] assms(2) show ?thesis by simp
next
  case Ph_note
  then show ?thesis using early_ok [OF assms(2,3) _ assms(4)] by simp
next
  case Ph_busy
  then show ?thesis using early_ok [OF assms(2,3) _ assms(4)] by simp
next
  case Ph_first
  then show ?thesis using early_ok [OF assms(2,3) _ assms(4)] by simp
next
  case Ph_clear
  then show ?thesis using early_ok [OF assms(2,3) _ assms(4)] by simp
next
  case Ph_first_sched
  then have "(r', s') = (r\<lparr>r_phase := Ph_done\<rparr>, sched_by r 0 s)" using assms(4) by (simp add: advance.simps)
  moreover have "r_seen r = 0" using assms(3) Ph_first_sched by (simp add: req_ok_def)
  ultimately show ?thesis
    using set_work_done [OF assms(2,3) _ not_first [OF assms(3)], of s' 0] assms(2) Ph_first_sched by (simp add: checked_def queue_ok_def)
next
  case Ph_late
  then have "(r', s') = (r\<lparr>r_phase := Ph_done\<rparr>, sched_by r 0 s)" using assms(4) by (simp add: advance.simps)
  then show ?thesis using set_work_done [OF assms(2,3) _ not_first [OF assms(3)], of s' 0] Ph_late by (simp add: checked_def)
next
  case (Ph_pending rt)
  have "unat (r_grace r) < 2 ^ 60" using assms(3) by (simp add: req_ok_def)
  note new = new_delay_ok [OF assms(1) this, of rt]
  have "s' = s \<and> (r' = r\<lparr>r_phase := Ph_remain rt None None\<rparr> \<or>
    r' = r\<lparr>r_phase := Ph_new (max (dead_zone_jiffies f) (if rt + r_grace r > max_delay_jiffies f then max_delay_jiffies f - rt else r_grace r))\<rparr>)"
    using assms(4) Ph_pending by (auto simp: advance.simps)
  then show ?thesis
    using phase_change [OF assms(2,3) _ not_first [OF assms(3)], of "Ph_remain rt None None"]
      phase_change [OF assms(2,3) _ not_first [OF assms(3)], of
        "Ph_new (max (dead_zone_jiffies f) (if rt + r_grace r > max_delay_jiffies f then max_delay_jiffies f - rt else r_grace r))"]
      new Ph_pending assms(2) by (auto simp: checked_def simp del: phase_ok.simps(6))
next
  case (Ph_remain rt n e)
  then have "s' = s" using assms(4) by (auto simp: advance.simps split: if_splits)
  with remain_step_ok [OF assms(1-3) Ph_remain assms(4)] assms(2) show ?thesis by simp
next
  case (Ph_mod d)
  then have "(r', s') = (r\<lparr>r_phase := Ph_done\<rparr>, mod_by r d s)" using assms(4) by (simp add: advance.simps)
  then show ?thesis using set_work_done [OF assms(2,3) _ not_first [OF assms(3)], of s' d] Ph_mod by (simp add: checked_def)
next
  case (Ph_new d)
  then have "(r', s') = (r\<lparr>r_phase := Ph_done\<rparr>, sched_by r d s)" using assms(4) by (simp add: advance.simps)
  then show ?thesis using set_work_done [OF assms(2,3) _ not_first [OF assms(3)], of s' d] Ph_new by (simp add: checked_def)
next
  case Ph_done
  then show ?thesis using assms by (simp add: advance.simps)
qed

text \<open>Every event keeps the invariant.\<close>

lemma grace_bound: "uint (g :: u64) < 1152921504606846976 \<Longrightarrow> unat g < 2 ^ 60"
proof -
  assume "uint g < 1152921504606846976"
  moreover have "uint g = int (unat g)" by (simp only: uint_nat)
  ultimately have "int (unat g) < 1152921504606846976" by (simp only:)
  then have "unat g < 1152921504606846976" by linarith
  then show ?thesis by simp
qed

lemma clock_bound: "uint (a :: u64) + uint b < 2305843009213693952 \<Longrightarrow> unat a + unat b < 2 ^ 61"
proof -
  assume "uint a + uint b < 2305843009213693952"
  moreover have "uint a = int (unat a)" "uint b = int (unat b)" by (simp_all only: uint_nat)
  ultimately have "int (unat a) + int (unat b) < 2305843009213693952" by (simp only:)
  then have "unat a + unat b < 2305843009213693952" by linarith
  then show ?thesis by simp
qed

lemma race_inv_update:
  assumes "race_inv f s" and "queue_ok f s'" and "ra_reqs s' = ra_reqs s"
    and "\<And>r. r \<in> set (ra_reqs s) \<Longrightarrow> req_ok f s r \<Longrightarrow> req_ok f s' r"
  shows "race_inv f s'"
  using assms by (auto simp: race_inv_def list_all_iff)

lemma race_step_inv:
  assumes "race_step f e s = Some s'" and "sane f" and "race_inv f s"
  shows "race_inv f s'"
proof (cases e)
  case (Ev_call g)
  then have "s' = s\<lparr>ra_reqs := ra_reqs s @ [\<lparr>r_grace = g, r_phase = Ph_note, r_seen = 0\<rparr>]\<rparr>" "uint g < 1152921504606846976"
    using assms(1) by (simp_all split: if_splits)
  moreover from this(2) have "unat g < 2 ^ 60" by (rule grace_bound)
  ultimately have "s' = s\<lparr>ra_reqs := ra_reqs s @ [\<lparr>r_grace = g, r_phase = Ph_note, r_seen = 0\<rparr>]\<rparr>" "unat g < 2 ^ 60" by simp_all
  then show ?thesis using assms(3) by (simp add: race_inv_def queue_ok_def list_all_iff req_ok_def checked_def)
next
  case (Ev_req i left)
  then obtain r s1 where i: "i < length (ra_reqs s)" and a: "advance f left (ra_reqs s ! i) s = (r, s1)" and s': "s' = s1\<lparr>ra_reqs := (ra_reqs s1)[i := r]\<rparr>"
    using assms(1) by (auto split: if_splits prod.splits)
  note fr = advance_frame [OF a]
  have "queue_ok f s" "req_ok f s (ra_reqs s ! i)" using assms(3) i by (simp_all add: race_inv_def list_all_length)
  from advance_ok [OF assms(2) this a] have ok: "queue_ok f s1" "req_ok f s1 r" by simp_all
  have "req_ok f s1 x" if "x \<in> set (ra_reqs s)" for x
    using others_ok [of f s x s1] fr assms(3) that by (simp add: race_inv_def list_all_iff)
  then have "\<forall>x\<in>set ((ra_reqs s)[i := r]). req_ok f s1 x" using ok(2) set_update_subset_insert [of "ra_reqs s" i r] by blast
  moreover have "req_ok f s' x = req_ok f s1 x" "queue_ok f s' = queue_ok f s1" for x by (simp_all add: s' req_ok_def queue_ok_def)
  ultimately show ?thesis using ok(1) fr by (simp add: race_inv_def list_all_iff s')
next
  case (Ev_tick k)
  then have s': "s' = s\<lparr>ra_now := ra_now s + k\<rparr>" and "uint (ra_now s) + uint k < 2305843009213693952"
    using assms(1) by (simp_all split: if_splits)
  from this(2) have k: "unat (ra_now s) + unat k < 2 ^ 61" by (rule clock_bound)
  then have n: "unat (ra_now s') = unat (ra_now s) + unat k" by (simp add: s' unat_word_ariths)
  show ?thesis
  proof (rule race_inv_update [OF assms(3)])
    show "queue_ok f s'" using assms(3) k n by (auto simp: race_inv_def queue_ok_def due_ok_def s')
    show "req_ok f s' r" if "req_ok f s r" for r
      using that n phase_ok_later [of _ _ _ "unat (ra_now s)" "r_phase r" "unat (ra_now s')"] by (auto simp: req_ok_def s')
  qed (simp add: s')
next
  case Ev_fire
  then have s': "s' = s\<lparr>ra_q := set_state Dw_queued (ra_q s)\<rparr>" and w: "dw_state (update_work (ra_q s)) = Dw_timer"
      "unat (expires (update_work (ra_q s))) \<le> unat (ra_now s)"
    using assms(1) by (simp_all add: word_le_nat_alt split: if_splits)
  show ?thesis
  proof (rule race_inv_update [OF assms(3)])
    show "queue_ok f s'" using assms(3) w by (auto simp: race_inv_def queue_ok_def due_ok_def s' set_state_def)
    show "req_ok f s' r" if "req_ok f s r" for r using that by (auto simp: req_ok_def s' set_state_def)
  qed (simp add: s')
next
  case Ev_start
  then have s': "s' = s\<lparr>ra_q := update_work_begin (ra_q s), ra_worker := Updating, ra_starts := ra_starts s + 1, ra_stale := False\<rparr>"
      and w: "dw_state (update_work (ra_q s)) = Dw_queued"
    using assms(1) by (simp_all split: if_splits)
  show ?thesis
  proof (rule race_inv_update [OF assms(3)])
    show "queue_ok f s'" using assms(3) w by (auto simp: race_inv_def queue_ok_def due_ok_def s' update_work_begin_def)
    show "req_ok f s' r" if "req_ok f s r" for r using that by (auto simp: req_ok_def s' update_work_begin_def)
  qed (simp add: s')
next
  case Ev_note
  then have s': "s' = s\<lparr>ra_q := update_work_end (ra_now s) (ra_q s), ra_worker := Returning, ra_ended := Some (ra_now s)\<rparr>"
      and w: "ra_worker s = Updating"
    using assms(1) by (simp_all split: if_splits)
  show ?thesis
  proof (rule race_inv_update [OF assms(3)])
    show "queue_ok f s'" using assms(3) w by (auto simp: race_inv_def queue_ok_def due_ok_def s' update_work_end_def)
    show "req_ok f s' r" if "req_ok f s r" for r using that w by (auto simp: req_ok_def s' update_work_end_def)
  qed (simp add: s')
next
  case Ev_return
  then have s': "s' = s\<lparr>ra_worker := Resting\<rparr>" and w: "ra_worker s = Returning" using assms(1) by (simp_all split: if_splits)
  show ?thesis
  proof (rule race_inv_update [OF assms(3)])
    show "queue_ok f s'" using assms(3) w by (auto simp: race_inv_def queue_ok_def s')
    show "req_ok f s' r" if "req_ok f s r" for r using that w by (auto simp: req_ok_def s')
  qed (simp add: s')
qed

lemma race_run_inv: "race_run f es s = Some s' \<Longrightarrow> sane f \<Longrightarrow> race_inv f s \<Longrightarrow> race_inv f s'"
  by (induction es arbitrary: s) (auto simp: race_step_inv split: option.splits)

lemma race_start_inv: "unat t < 2 ^ 61 \<Longrightarrow> race_inv f (race_start name d t)"
  by (simp add: race_inv_def queue_ok_def race_start_def new_queue_def)

section \<open>Alone and among others\<close>





section \<open>Properties\<close>


text \<open>C35: However the reads and writes of any number of requests interleave with the clock, the timer and the work: when an
  update starts inside the dead zone after the end of the update before it, then the work was set by a request that an
  update overtook, that is, one started between its check that none was running and its setting of the work. All others
  keep the dead zone.\<close>

theorem dead_zone_broken_only_by_overtaken:
  assumes "race_run f es (race_start name d t) = Some s" and "sane f" and "unat t < 2 ^ 61"
    and "race_step f Ev_start s = Some s'" and "ra_ended s = Some l"
  shows "ra_stale s \<or> unat l + unat (dead_zone_jiffies f) \<le> unat (ra_now s)"
proof -
  have "race_inv f s" using race_run_inv [OF assms(1,2) race_start_inv [OF assms(3)]] .
  moreover have "dw_state (update_work (ra_q s)) = Dw_queued" using assms(4) by (simp split: if_splits)
  ultimately show ?thesis using assms(5) by (auto simp: race_inv_def queue_ok_def due_ok_def)
qed

text \<open>The first update, ended at 1000, and the first request after the maximal delay, which sets the work in time.\<close>

definition demo_first_update :: "race_event list" where
  "demo_first_update = [Ev_call 0] @ replicate 5 (Ev_req 0 True) @ [Ev_start, Ev_note, Ev_return, Ev_tick 5500]"

definition demo_in_time :: "race_event list" where
  "demo_in_time = demo_first_update @ [Ev_call 0] @ replicate 6 (Ev_req 1 True)"

theorem dead_zone_broken_only_by_overtaken_witness:
  "\<exists>s. race_run demo_filter demo_in_time (race_start ''usb'' 0 1000) = Some s \<and> race_step demo_filter Ev_start s \<noteq> None \<and>
     \<not> ra_stale s \<and> 1000 + 500 \<le> unat (ra_now s)"
proof -
  let ?r = "race_run demo_filter demo_in_time (race_start ''usb'' 0 1000)"
  have "(case ?r of None \<Rightarrow> False | Some s \<Rightarrow> (case race_step demo_filter Ev_start s of None \<Rightarrow> False | Some _ \<Rightarrow> True) \<and>
      ra_ended s = Some 1000 \<and> \<not> ra_stale s)"
    by code_simp
  then obtain s s' where s: "?r = Some s" "race_step demo_filter Ev_start s = Some s'" "ra_ended s = Some 1000" "\<not> ra_stale s"
    by (auto split: option.splits simp del: race_step.simps)
  have "unat (1000 :: u64) < 2 ^ 61" by simp
  from dead_zone_broken_only_by_overtaken [OF s(1) demo_sane this s(2,3)] s show ?thesis by (simp add: demo_filter_def)
qed



text \<open>Two callers that overlap: both find the last update longer ago than the maximal delay. The work set by the second
  runs and ends, then the first sets it again, and the next update starts at once, inside the dead zone of 500.\<close>

definition demo_race :: "race_event list" where
  "demo_race = demo_first_update @ [Ev_call 0, Ev_call 0] @ replicate 5 (Ev_req 1 True) @ replicate 6 (Ev_req 2 True) @
     [Ev_start, Ev_note, Ev_return, Ev_req 1 True]"

theorem overlapping_requests_break_dead_zone:
  "case race_run demo_filter demo_race (race_start ''usb'' 0 1000) of
     None \<Rightarrow> False
   | Some s \<Rightarrow> ra_ended s = Some 6500 \<and> ra_now s = 6500 \<and> ra_stale s \<and> (race_step demo_filter Ev_start s \<noteq> None)"
  by code_simp

end
