(* ===== verification/Chg_Battery_Log.thy ===== *)
theory Chg_Battery_Log
  imports Chg_Smooth_Log
begin

text \<open>
  The battery log (\<^verbatim>\<open>oplus_battery_log.c\<close>): drivers register operations under the name of a device, and a read of the
  log calls them in the order of the devices and puts their texts together in the buffer of the reader. Operations
  that are registered before the device is there are kept and registered by its probe. At the end the
  operations of the battery smoothing are registered and its records are read through the log.
\<close>

section \<open>Data\<close>

definition BATTERY_LOG_INVAID_OP :: int where "BATTERY_LOG_INVAID_OP = - 22"
definition BATTERY_LOG_MAX_SIZE :: int where "BATTERY_LOG_MAX_SIZE = 1024"
definition BATTERY_LOG_RESERVED_SIZE :: int where "BATTERY_LOG_RESERVED_SIZE = 16"

abbreviation (input) BATTERY_LOG_DUMP_LOG_HEAD :: int where "BATTERY_LOG_DUMP_LOG_HEAD \<equiv> 0"
abbreviation (input) BATTERY_LOG_DUMP_LOG_CONTENT :: int where "BATTERY_LOG_DUMP_LOG_CONTENT \<equiv> 1"
abbreviation (input) BATTERY_LOG_TYPE_END :: int where "BATTERY_LOG_TYPE_END \<equiv> 2"

definition BATTERY_LOG_DEVICE_ID_END :: nat where "BATTERY_LOG_DEVICE_ID_END = 4"

definition g_battery_log_device_id_table :: "string list" where
  "g_battery_log_device_id_table = [''comm_info'', ''vooc'', ''buck_ic'', ''bs_info'']"

text \<open>An operation gets the size of the buffer and the world \<open>'s\<close> of the drivers, and yields a return code, the text it
  leaves in the cleared buffer, and the world after it.\<close>

type_synonym 's log_op = "int \<Rightarrow> 's \<Rightarrow> rc \<times> string \<times> 's"

record 's battery_log_ops =
  ops_dev_name :: "string option"
  dump_log_head :: "'s log_op option"
  dump_log_content :: "'s log_op option"

record 's battery_log_dev =
  battery_log_support :: bool
  total_ops :: u32
  dev_ops :: "'s battery_log_ops option list"

text \<open>The globals: the device, and the operations that were registered before it was there, for which there are four
  places and a counter that is never set back.\<close>

record 's battery_log =
  g_battery_log_dev :: "'s battery_log_dev option"
  g_ops_register_fail :: "'s battery_log_ops list"

datatype bl_fault = Write_past_register_fail

section \<open>Registration\<close>

definition battery_log_get_device_id :: "string \<Rightarrow> nat option" where
  "battery_log_get_device_id str =
     find (\<lambda>i. take (length str) (g_battery_log_device_id_table ! i) = str) [0..<length g_battery_log_device_id_table]"

definition ops_register_dev :: "'s battery_log_ops \<Rightarrow> 's battery_log_dev \<Rightarrow> rc \<times> 's battery_log_dev" where
  "ops_register_dev ops d =
     (case ops_dev_name ops of
        None \<Rightarrow> (- EINVAL, d)
      | Some name \<Rightarrow>
          (case battery_log_get_device_id name of
             None \<Rightarrow> (- EINVAL, d)
           | Some i \<Rightarrow> (0, d\<lparr>dev_ops := (dev_ops d)[i := Some ops], total_ops := total_ops d + 1\<rparr>)))"

definition battery_log_ops_register :: "'s battery_log_ops \<Rightarrow> 's battery_log \<Rightarrow> bl_fault + rc \<times> 's battery_log" where
  "battery_log_ops_register ops l =
     (if ops_dev_name ops = None then Inr (- EINVAL, l)
      else
        (case g_battery_log_dev l of
           None \<Rightarrow>
             if BATTERY_LOG_DEVICE_ID_END \<le> length (g_ops_register_fail l) then Inl Write_past_register_fail
             else Inr (- EINVAL, l\<lparr>g_ops_register_fail := g_ops_register_fail l @ [ops]\<rparr>)
         | Some d \<Rightarrow> let (rc, d') = ops_register_dev ops d in Inr (rc, l\<lparr>g_battery_log_dev := Some d'\<rparr>)))"

definition new_dev :: "bool \<Rightarrow> 's battery_log_dev" where
  "new_dev support = \<lparr>battery_log_support = support, total_ops = 0, dev_ops = replicate BATTERY_LOG_DEVICE_ID_END None\<rparr>"

definition oplus_battery_log_probe :: "bool \<Rightarrow> bool \<Rightarrow> 's battery_log \<Rightarrow> rc \<times> 's battery_log" where
  "oplus_battery_log_probe mem support l =
     (if \<not> mem then (- ENOMEM, l)
      else (0, l\<lparr>g_battery_log_dev := Some (fold (\<lambda>ops d. snd (ops_register_dev ops d)) (g_ops_register_fail l) (new_dev support))\<rparr>))"

definition oplus_battery_log_remove :: "'s battery_log \<Rightarrow> rc \<times> 's battery_log" where
  "oplus_battery_log_remove l =
     (if g_battery_log_dev l = None then (- ENODEV, l) else (0, l\<lparr>g_battery_log_dev := None\<rparr>))"

definition oplus_battery_log_support :: "'s battery_log \<Rightarrow> int" where
  "oplus_battery_log_support l = (case g_battery_log_dev l of None \<Rightarrow> - ENODEV | Some d \<Rightarrow> of_bool (battery_log_support d))"

section \<open>Reading\<close>

definition battery_log_check_type :: "int \<Rightarrow> rc" where
  "battery_log_check_type type = (if 0 \<le> type \<and> type < BATTERY_LOG_TYPE_END then 0 else - EINVAL)"

text \<open>The result has the text that the operation leaves in the buffer of the log, none when the operation is missing.\<close>

definition battery_log_operate_ops :: "'s battery_log_ops \<Rightarrow> int \<Rightarrow> int \<Rightarrow> 's \<Rightarrow> rc \<times> string \<times> 's" where
  "battery_log_operate_ops ops type sz w =
     (case (if type = BATTERY_LOG_DUMP_LOG_HEAD then dump_log_head ops
            else if type = BATTERY_LOG_DUMP_LOG_CONTENT then dump_log_content ops else None) of
        None \<Rightarrow> (BATTERY_LOG_INVAID_OP, [], w)
      | Some f \<Rightarrow> f sz w)"

text \<open>The number of bytes for \<^verbatim>\<open>strncat\<close> is unsigned: a negative number is larger than any string.\<close>

definition strncat :: "string \<Rightarrow> string \<Rightarrow> int \<Rightarrow> string" where
  "strncat buf src n = buf @ (if n < 0 then src else take (nat n) src)"

fun operate_loop :: "'s battery_log_ops option list \<Rightarrow> int \<Rightarrow> int \<Rightarrow> string \<Rightarrow> int \<Rightarrow> 's \<Rightarrow> string \<times> int \<times> 's" where
  "operate_loop [] type sz buf used w = (buf, used, w)"
| "operate_loop (None # rest) type sz buf used w = operate_loop rest type sz buf used w"
| "operate_loop (Some ops # rest) type sz buf used w =
     (case battery_log_operate_ops ops type (BATTERY_LOG_MAX_SIZE - 1) w of
        (ret, text, w') \<Rightarrow>
          if ret \<noteq> 0 then
            if ret = BATTERY_LOG_INVAID_OP then operate_loop rest type sz buf used w'
            else (buf, used, w')
          else
            let unused = sz - BATTERY_LOG_RESERVED_SIZE - used; buf_size = int (length text) in
            if unused > buf_size then operate_loop rest type sz (strncat buf text buf_size) (used + buf_size) w'
            else (strncat buf text unused, used + unused, w'))"

definition battery_log_common_operate :: "int \<Rightarrow> string \<Rightarrow> int \<Rightarrow> 's battery_log \<Rightarrow> 's \<Rightarrow> rc \<times> string \<times> 's" where
  "battery_log_common_operate type buf sz l w =
     (if battery_log_check_type type \<noteq> 0 then (- EINVAL, buf, w)
      else
        (case g_battery_log_dev l of
           None \<Rightarrow> (- EINVAL, buf, w)
         | Some d \<Rightarrow>
             let (buf, used, w) = operate_loop (dev_ops d) type sz buf 0 w in
             (used + 1, strncat buf [CHR 0x0A] 1, w)))"

text \<open>The two files of the battery (\<^verbatim>\<open>oplus_configfs.c\<close>), read into an empty page.\<close>

definition battery_log_show :: "int \<Rightarrow> 's battery_log \<Rightarrow> 's \<Rightarrow> rc \<times> string \<times> 's" where
  "battery_log_show type l w =
     (if oplus_battery_log_support l \<noteq> 1 then (- ENODEV, [], w)
      else battery_log_common_operate type [] BATTERY_LOG_MAX_SIZE l w)"

definition battery_log_head_show :: "'s battery_log \<Rightarrow> 's \<Rightarrow> rc \<times> string \<times> 's" where
  "battery_log_head_show = battery_log_show BATTERY_LOG_DUMP_LOG_HEAD"

definition battery_log_content_show :: "'s battery_log \<Rightarrow> 's \<Rightarrow> rc \<times> string \<times> 's" where
  "battery_log_content_show = battery_log_show BATTERY_LOG_DUMP_LOG_CONTENT"

section \<open>Names\<close>

lemma device_ids:
  "battery_log_get_device_id ''comm_info'' = Some 0" "battery_log_get_device_id ''vooc'' = Some 1"
  "battery_log_get_device_id ''buck_ic'' = Some 2" "battery_log_get_device_id ''bs_info'' = Some 3"
  by (simp_all add: battery_log_get_device_id_def g_battery_log_device_id_table_def upt_rec)

text \<open>The comparison stops at the end of the name that is asked for, so every beginning of a name is taken for it.\<close>

lemma device_id_prefix: "battery_log_get_device_id ''b'' = Some 2" "battery_log_get_device_id [] = Some 0"
  by (simp_all add: battery_log_get_device_id_def g_battery_log_device_id_table_def upt_rec)

lemma device_id_range: "battery_log_get_device_id s = Some i \<Longrightarrow> i < BATTERY_LOG_DEVICE_ID_END"
  by (auto simp: battery_log_get_device_id_def g_battery_log_device_id_table_def BATTERY_LOG_DEVICE_ID_END_def upt_rec split: if_splits)

section \<open>What a read returns\<close>

text \<open>The specification: the texts of the operations, those that are missing skipped, up to the first that fails.\<close>

fun log_texts :: "'s battery_log_ops option list \<Rightarrow> int \<Rightarrow> 's \<Rightarrow> string list" where
  "log_texts [] type w = []"
| "log_texts (None # rest) type w = log_texts rest type w"
| "log_texts (Some ops # rest) type w =
     (case battery_log_operate_ops ops type 1023 w of
        (ret, text, w') \<Rightarrow>
          if ret = 0 then text # log_texts rest type w'
          else if ret = - 22 then log_texts rest type w'
          else [])"

lemma operate_loop_text:
  "0 \<le> used \<Longrightarrow> used + 16 \<le> sz \<Longrightarrow>
   (let t = take (nat (sz - 16 - used)) (concat (log_texts ops type w)); r = operate_loop ops type sz buf used w in
    fst r = buf @ t \<and> fst (snd r) = used + int (length t))"
proof (induction ops arbitrary: buf used w)
  case Nil
  then show ?case by simp
next
  case (Cons x rest)
  show ?case
  proof (cases x)
    case None
    then show ?thesis using Cons by (simp add: Let_def)
  next
    case (Some ops)
    obtain ret tx w' where r: "battery_log_operate_ops ops type 1023 w = (ret, tx, w')" by (cases "battery_log_operate_ops ops type 1023 w") auto
    consider (fine) "ret = 0" "int (length tx) < sz - 16 - used" | (full) "ret = 0" "sz - 16 - used \<le> int (length tx)" | (failed) "ret \<noteq> 0"
      by linarith
    then show ?thesis
    proof cases
      case fine
      then have n: "nat (sz - 16 - used) - length tx = nat (sz - 16 - (used + int (length tx)))" "length tx \<le> nat (sz - 16 - used)"
        by linarith+
      have "0 \<le> used + int (length tx)" "used + int (length tx) + 16 \<le> sz" using fine Cons.prems by linarith+
      from Cons.IH [OF this, of w' "buf @ tx"] show ?thesis using Some r fine n
        by (simp add: BATTERY_LOG_MAX_SIZE_def BATTERY_LOG_RESERVED_SIZE_def strncat_def Let_def)
    next
      case full
      then have "nat (sz - 16 - used) \<le> length tx" by linarith
      then show ?thesis using Some r full Cons.prems
        by (simp add: BATTERY_LOG_MAX_SIZE_def BATTERY_LOG_RESERVED_SIZE_def strncat_def Let_def)
    next
      case failed
      then show ?thesis using Some r Cons by (simp add: BATTERY_LOG_MAX_SIZE_def BATTERY_LOG_INVAID_OP_def Let_def)
    qed
  qed
qed

lemma common_operate_text:
  fixes l :: "'s battery_log" and w :: 's
  assumes "g_battery_log_dev l = Some d" and "type = 0 \<or> type = 1" and "16 \<le> sz"
  defines "t \<equiv> take (nat (sz - 16)) (concat (log_texts (dev_ops d) type w))"
  shows "\<exists>w'. battery_log_common_operate type buf sz l w = (int (length t) + 1, buf @ t @ [CHR 0x0A], w')"
proof -
  have "battery_log_check_type type = 0" using assms(2) by (auto simp: battery_log_check_type_def)
  moreover obtain r where r: "operate_loop (dev_ops d) type sz buf 0 w = r" by blast
  moreover have "fst r = buf @ t" "fst (snd r) = int (length t)"
    using operate_loop_text [of 0 sz "dev_ops d" type w buf] assms(3) r by (simp_all add: t_def Let_def)
  ultimately show ?thesis using assms(1) by (cases r) (simp add: battery_log_common_operate_def strncat_def Let_def)
qed

text \<open>C31: Reading the log into a buffer of at least 16 bytes appends the texts of the operations up to the first that fails,
  cut at 16 bytes less than the size, and a newline; the result is the number of characters that were added, and with
  the end of the string they fit into the buffer.\<close>

theorem battery_log_text:
  assumes "g_battery_log_dev l = Some d" and "type = 0 \<or> type = 1" and "16 \<le> sz"
    and "battery_log_common_operate type [] sz l w = (rc, out, w')"
  shows "out = take (nat (sz - 16)) (concat (log_texts (dev_ops d) type w)) @ [CHR 0x0A] \<and> rc = int (length out) \<and>
    int (length out) + 1 \<le> sz"
  using common_operate_text [OF assms(1-3), where w = w and buf = "[]"] assms(3,4) by auto

text \<open>A buffer of fewer than 16 bytes makes the room that is left negative, and the whole text is written.\<close>

definition demo_op :: "string \<Rightarrow> string \<Rightarrow> unit battery_log_ops" where
  "demo_op name text = \<lparr>ops_dev_name = Some name, dump_log_head = None, dump_log_content = Some (\<lambda>_ w. (0, text, w))\<rparr>"

definition demo_log :: "unit battery_log" where
  "demo_log = \<lparr>g_battery_log_dev = Some ((new_dev True)\<lparr>dev_ops := [None, Some (demo_op ''vooc'' ''vooc,1,2''), None, Some (demo_op ''bs_info'' '',3'')]\<rparr>),
     g_ops_register_fail = []\<rparr>"

lemma small_buffer_overflows: "battery_log_common_operate 1 [] 8 demo_log () = (- 7, ''vooc,1,2'' @ [CHR 0x0A], ())"
  by (simp add: battery_log_common_operate_def battery_log_check_type_def demo_log_def new_dev_def demo_op_def battery_log_operate_ops_def
    BATTERY_LOG_MAX_SIZE_def BATTERY_LOG_RESERVED_SIZE_def strncat_def Let_def)

theorem battery_log_text_witness:
  "\<exists>w'. battery_log_common_operate 1 [] 1024 demo_log () = (11, ''vooc,1,2,3'' @ [CHR 0x0A], w')"
proof -
  obtain rc out w' where r: "battery_log_common_operate 1 [] 1024 demo_log () = (rc, out, w')" by (cases "battery_log_common_operate 1 [] 1024 demo_log ()") auto
  have d: "g_battery_log_dev demo_log = Some ((new_dev True)\<lparr>dev_ops := [None, Some (demo_op ''vooc'' ''vooc,1,2''), None, Some (demo_op ''bs_info'' '',3'')]\<rparr>)"
    by (simp add: demo_log_def)
  have t: "log_texts [None, Some (demo_op ''vooc'' ''vooc,1,2''), None, Some (demo_op ''bs_info'' '',3'')] 1 () = [''vooc,1,2'', '',3'']"
    by (simp add: demo_op_def battery_log_operate_ops_def)
  show ?thesis using battery_log_text [OF d _ _ r] r t by simp
qed

section \<open>Registration before and after the probe\<close>

fun register_all :: "'s battery_log_ops list \<Rightarrow> 's battery_log \<Rightarrow> bl_fault + 's battery_log" where
  "register_all [] l = Inr l"
| "register_all (x # xs) l = and_then (battery_log_ops_register x l) (\<lambda>(_, l). register_all xs l)"

lemma register_early:
  "\<forall>x\<in>set xs. ops_dev_name x \<noteq> None \<Longrightarrow> g_battery_log_dev l = None \<Longrightarrow> length (g_ops_register_fail l) \<le> 4 \<Longrightarrow>
   register_all xs l = (if length (g_ops_register_fail l) + length xs \<le> 4 then Inr (l\<lparr>g_ops_register_fail := g_ops_register_fail l @ xs\<rparr>)
     else Inl Write_past_register_fail)"
  by (induction xs arbitrary: l) (auto simp: battery_log_ops_register_def BATTERY_LOG_DEVICE_ID_END_def)

lemma register_late:
  "\<forall>x\<in>set xs. ops_dev_name x \<noteq> None \<Longrightarrow> g_battery_log_dev l = Some d \<Longrightarrow>
   register_all xs l = Inr (l\<lparr>g_battery_log_dev := Some (fold (\<lambda>ops d. snd (ops_register_dev ops d)) xs d)\<rparr>)"
  by (induction xs arbitrary: l d) (auto simp: battery_log_ops_register_def Let_def split_beta)

text \<open>Drivers that register before the probe get the same places as drivers that register after it in the same order;
  but from the fifth on the registration writes past its array.\<close>

theorem early_registration_is_late_registration:
  fixes xs :: "'s battery_log_ops list"
  assumes "\<forall>x\<in>set xs. ops_dev_name x \<noteq> None"
  defines "start \<equiv> \<lparr>g_battery_log_dev = None, g_ops_register_fail = []\<rparr>"
  shows "(length xs \<le> 4 \<longrightarrow>
      (\<exists>early late. register_all xs start = Inr early \<and> register_all xs (snd (oplus_battery_log_probe True yes start)) = Inr late \<and>
         g_battery_log_dev (snd (oplus_battery_log_probe True yes early)) = g_battery_log_dev late)) \<and>
    (4 < length xs \<longrightarrow> register_all xs start = Inl Write_past_register_fail)"
  using register_early [OF assms(1), of start] register_late [OF assms(1), of "snd (oplus_battery_log_probe True yes start)" "new_dev yes"]
  by (simp add: start_def oplus_battery_log_probe_def)

theorem early_registration_is_late_registration_witness:
  "register_all (replicate 5 (demo_op ''vooc'' ''v'')) \<lparr>g_battery_log_dev = None, g_ops_register_fail = []\<rparr> = Inl Write_past_register_fail"
  using early_registration_is_late_registration [of "replicate 5 (demo_op ''vooc'' ''v'')"] by (simp add: demo_op_def)

text \<open>When the device is removed and found again, only the drivers that had been too early are there.\<close>

lemma reprobe_forgets_late:
  assumes "\<forall>x\<in>set late. ops_dev_name x \<noteq> None" and "g_battery_log_dev l = Some d" and "register_all late l = Inr l'"
  shows "g_battery_log_dev (snd (oplus_battery_log_probe True yes (snd (oplus_battery_log_remove l')))) =
    Some (fold (\<lambda>ops d. snd (ops_register_dev ops d)) (g_ops_register_fail l) (new_dev yes))"
  using register_late [OF assms(1,2)] assms(3) by (auto simp: oplus_battery_log_remove_def oplus_battery_log_probe_def)

section \<open>The records of the battery smoothing in the log\<close>

text \<open>The decimal digits that \<^verbatim>\<open>snprintf\<close> prints for \<^verbatim>\<open>%d\<close> and \<^verbatim>\<open>%02d\<close>.\<close>

fun dec_nat :: "nat \<Rightarrow> string" where
  "dec_nat n = (if n < 10 then [char_of (48 + n)] else dec_nat (n div 10) @ [char_of (48 + n mod 10)])"

declare dec_nat.simps [simp del]

definition dec :: "int \<Rightarrow> string" where
  "dec n = (if n < 0 then ''-'' else []) @ dec_nat (nat \<bar>n\<bar>)"

definition dec2 :: "int \<Rightarrow> string" where
  "dec2 n = (if 0 \<le> n \<and> n < 10 then ''0'' else []) @ dec n"

text \<open>The line of the battery smoothing; its nine numbers are those of \<open>bs_dump_log_data\<close>.\<close>

definition bs_log_line :: "int list \<Rightarrow> string \<Rightarrow> string" where
  "bs_log_line ns formula =
     (let sep = (\<lambda>n. '','' @ dec n); frac = (\<lambda>n. ''.'' @ dec2 n) in
      concat (map2 (\<lambda>f n. f n) [sep, frac, sep, sep, frac, sep, frac, sep, frac] ns) @ '','' @ formula)"

text \<open>The world of the operations of the smoothing is the smoothing, or a fault of it.\<close>

type_synonym bs_world = "bs_fault + bs_strategy"

definition bs_log_content :: "bool \<Rightarrow> bs_world log_op" where
  "bs_log_content mem sz w =
     (case w of
        Inl e \<Rightarrow> (0, [], Inl e)
      | Inr b \<Rightarrow>
          (case bs_dump_log_data mem b of
             Inl e \<Rightarrow> (0, [], Inl e)
           | Inr ((ns, formula), b') \<Rightarrow> (0, take (nat (sz - 1)) (bs_log_line ns formula), Inr b')))"

definition bs_get_log_head :: "bs_world log_op" where
  "bs_get_log_head sz w =
     (0, take (nat (sz - 1)) '',bs_soc_centi,bs_smooth_soc,bs_smooth_soc_centi,bs_smooth_map_lower,bs_smooth_map_upper,bs_formula'', w)"

definition battlog_bs_ops :: "bool \<Rightarrow> bs_world battery_log_ops" where
  "battlog_bs_ops mem =
     \<lparr>ops_dev_name = Some ''bs_info'', dump_log_head = Some bs_get_log_head, dump_log_content = Some (bs_log_content mem)\<rparr>"

lemma dec_nat_length: "n < 10 ^ Suc k \<Longrightarrow> length (dec_nat n) \<le> Suc k"
proof (induction k arbitrary: n)
  case 0
  then show ?case by (simp add: dec_nat.simps)
next
  case (Suc k)
  then have "n div 10 < 10 ^ Suc k" by (simp add: less_mult_imp_div_less)
  then show ?case using Suc.IH [of "n div 10"] by (subst dec_nat.simps) simp
qed

lemma dec_length: "\<bar>n\<bar> \<le> 2147483648 \<Longrightarrow> length (dec n) \<le> 11"
proof -
  assume "\<bar>n\<bar> \<le> 2147483648"
  then have "length (dec_nat (nat \<bar>n\<bar>)) \<le> 10" using dec_nat_length [of "nat \<bar>n\<bar>" 9] by simp
  then show ?thesis by (cases "n < 0") (simp_all add: dec_def)
qed

lemma dec2_length: "\<bar>n\<bar> \<le> 2147483648 \<Longrightarrow> length (dec2 n) \<le> 11"
proof (cases "0 \<le> n \<and> n < 10")
  case True
  then have "nat n < 10 ^ Suc 0" by (simp add: nat_less_iff)
  from dec_nat_length [OF this] show ?thesis using True by (simp add: dec2_def dec_def)
next
  case False
  assume "\<bar>n\<bar> \<le> 2147483648"
  then show ?thesis using dec_length False by (auto simp: dec2_def)
qed

lemma apply_all_length:
  "\<forall>f\<in>set fs. \<forall>n\<in>set ns. length (f n) \<le> 12 \<Longrightarrow> length (concat (map2 (\<lambda>f n. f n) fs ns)) \<le> 12 * length (fs :: (int \<Rightarrow> string) list)"
proof (induction fs arbitrary: ns)
  case (Cons f fs)
  show ?case
  proof (cases ns)
    case (Cons n ns')
    then have "length (f n) \<le> 12" "length (concat (map2 (\<lambda>f n. f n) fs ns')) \<le> 12 * length fs"
      using Cons.prems Cons.IH [of ns'] by simp_all
    then show ?thesis using Cons by simp
  qed simp
qed simp

lemma bs_log_line_length: "\<forall>n\<in>set ns. \<bar>n\<bar> \<le> 2147483648 \<Longrightarrow> length (bs_log_line ns formula) \<le> 109 + length formula"
proof -
  assume b: "\<forall>n\<in>set ns. \<bar>n\<bar> \<le> 2147483648"
  note apply_all_length [of "[\<lambda>n. '','' @ dec n, \<lambda>n. ''.'' @ dec2 n, \<lambda>n. '','' @ dec n, \<lambda>n. '','' @ dec n, \<lambda>n. ''.'' @ dec2 n, \<lambda>n. '','' @ dec n,
    \<lambda>n. ''.'' @ dec2 n, \<lambda>n. '','' @ dec n, \<lambda>n. ''.'' @ dec2 n]" ns]
  then show ?thesis using b dec_length dec2_length by (simp add: bs_log_line_def Let_def)
qed

lemma operate_only_bs:
  assumes "bs_dump_log_data True b = Inr ((ns, formula), b')" and "length (bs_log_line ns formula) \<le> 1007"
  shows "operate_loop [None, None, None, Some (battlog_bs_ops True)] 1 1024 [] 0 (Inr b) =
    (bs_log_line ns formula, int (length (bs_log_line ns formula)), Inr b')"
  using assms by (simp add: battery_log_operate_ops_def battlog_bs_ops_def bs_log_content_def BATTERY_LOG_MAX_SIZE_def
    BATTERY_LOG_RESERVED_SIZE_def strncat_def Let_def)

text \<open>C28: When the smoothing has registered its operations and written any number of records, the file of the log shows its
  line, whose last field decodes to the newest records that fit into 256 bytes, whole and uncut.\<close>

theorem battery_log_shows_newest_records:
  assumes "battery_log_fifo b = \<lparr>kf_size = 256, kf_data = []\<rparr>" and "\<forall>(utc, t)\<in>set ts. track_ok t" and "ts \<noteq> []"
    and "\<forall>n\<in>set (log_numbers b). \<bar>n\<bar> \<le> 2147483648"
  shows "\<exists>fifo l line formula w rc.
    log_all (map (\<lambda>(utc, t). track_bytes utc t) ts) (battery_log_fifo b) = Inr fifo \<and>
    battery_log_ops_register (battlog_bs_ops True)
      (snd (oplus_battery_log_probe True True \<lparr>g_battery_log_dev = None, g_ops_register_fail = []\<rparr>)) = Inr (0, l) \<and>
    battery_log_content_show l (Inr (b\<lparr>battery_log_fifo := fifo\<rparr>)) = (rc, line @ '','' @ formula @ [CHR 0x0A], w) \<and>
    rfc4648_decode formula = Some (concat (newest length 256 (map (\<lambda>(utc, t). track_bytes utc t) ts)))"
proof -
  obtain fifo formula b' where r: "log_all (map (\<lambda>(utc, t). track_bytes utc t) ts) (battery_log_fifo b) = Inr fifo"
      "bs_dump_log_data True (b\<lparr>battery_log_fifo := fifo\<rparr>) = Inr ((log_numbers b, formula), b')" "length formula \<le> 344"
      "rfc4648_decode formula = Some (concat (newest length 256 (map (\<lambda>(utc, t). track_bytes utc t) ts)))"
    using dump_after_records [OF assms(1-3)] by blast
  let ?ops = "[None, None, None, Some (battlog_bs_ops True)]"
  have "length (bs_log_line (log_numbers b) formula) \<le> 1007" using bs_log_line_length [OF assms(4), of formula] r(3) by simp
  note op = operate_only_bs [OF r(2) this]
  define l where "l = \<lparr>g_battery_log_dev = Some \<lparr>battery_log_support = True, total_ops = 1, dev_ops = ?ops\<rparr>, g_ops_register_fail = []\<rparr>"
  have "battery_log_ops_register (battlog_bs_ops True)
      (snd (oplus_battery_log_probe True True \<lparr>g_battery_log_dev = None, g_ops_register_fail = []\<rparr>)) = Inr (0, l)"
    by (simp add: l_def battery_log_ops_register_def oplus_battery_log_probe_def ops_register_dev_def battlog_bs_ops_def device_ids
      new_dev_def BATTERY_LOG_DEVICE_ID_END_def eval_nat_numeral)
  moreover have "\<exists>line. bs_log_line (log_numbers b) formula = line @ '','' @ formula" by (simp add: bs_log_line_def Let_def)
  moreover have "battery_log_content_show l (Inr (b\<lparr>battery_log_fifo := fifo\<rparr>)) =
      (int (length (bs_log_line (log_numbers b) formula)) + 1, bs_log_line (log_numbers b) formula @ [CHR 0x0A], Inr b')"
    using op by (simp add: l_def battery_log_content_show_def battery_log_show_def oplus_battery_log_support_def
      battery_log_common_operate_def battery_log_check_type_def strncat_def BATTERY_LOG_MAX_SIZE_def)
  ultimately show ?thesis using r(1,4) by fastforce
qed

theorem battery_log_shows_newest_records_witness:
  "\<exists>fifo l line formula w rc.
    log_all (map (\<lambda>(utc, t). track_bytes utc t) demo_tracks) (battery_log_fifo demo_bs) = Inr fifo \<and>
    battery_log_ops_register (battlog_bs_ops True)
      (snd (oplus_battery_log_probe True True \<lparr>g_battery_log_dev = None, g_ops_register_fail = []\<rparr>)) = Inr (0, l) \<and>
    battery_log_content_show l (Inr (demo_bs\<lparr>battery_log_fifo := fifo\<rparr>)) = (rc, line @ '','' @ formula @ [CHR 0x0A], w) \<and>
    rfc4648_decode formula = Some (concat (newest length 256 (map (\<lambda>(utc, t). track_bytes utc t) demo_tracks)))"
proof -
  have 1: "battery_log_fifo demo_bs = \<lparr>kf_size = 256, kf_data = []\<rparr>" by (simp add: demo_bs_def new_bs_def)
  have 2: "\<forall>n\<in>set (log_numbers demo_bs). \<bar>n\<bar> \<le> 2147483648"
    by (simp add: log_numbers_def demo_bs_def new_bs_def signed_divide_int_def signed_modulo_int_def)
  show ?thesis using battery_log_shows_newest_records [OF 1 demo_tracks_ok _ 2] by (simp add: demo_tracks_def)
qed

end
