(* ===== verification/Chg_Mutual.thy ===== *)
theory Chg_Mutual
  imports Ufcs_Prelude "HOL-Library.Sublist"
begin

text \<open>
  Commands to user space (\<^verbatim>\<open>oplus_chg_mutual.c\<close>): a driver leaves a command in a box, a service in user space reads it
  through a file and writes the answer to the same file, which goes to the drivers that have registered for it. Callers,
  readers and writers run at the same time; their steps are the sections between two locks or waits.
\<close>

unbundle bit_operations_syntax

section \<open>Data\<close>

definition MUTUAL_CMD_DATA_LEN :: nat where "MUTUAL_CMD_DATA_LEN = 256"
definition mutual_cmd_size :: nat where "mutual_cmd_size = 264"

abbreviation (input) CMD_ACK_OK :: int where "CMD_ACK_OK \<equiv> 0"
abbreviation (input) CMD_ERROR_CHIP_NULL :: int where "CMD_ERROR_CHIP_NULL \<equiv> 1"
abbreviation (input) CMD_ERROR_DATA_NULL :: int where "CMD_ERROR_DATA_NULL \<equiv> 2"
abbreviation (input) CMD_ERROR_DATA_INVALID :: int where "CMD_ERROR_DATA_INVALID \<equiv> 3"
abbreviation (input) CMD_ERROR_HIDL_NOT_READY :: int where "CMD_ERROR_HIDL_NOT_READY \<equiv> 4"
abbreviation (input) CMD_ERROR_TIME_OUT :: int where "CMD_ERROR_TIME_OUT \<equiv> 5"

abbreviation ENOENT :: int where "ENOENT \<equiv> 2"

record oplus_mutual_cmd =
  mc_cmd :: u32
  mc_data_size :: u32
  mc_data_buf :: bytes

record oplus_chg_mutual =
  mutual_cmd_data_ok :: bool
  mutual_hidl_handle_cmd_ready :: bool
  mutual_cmd :: oplus_mutual_cmd
  mutual_cmd_ack :: completion

text \<open>A notifier has an address \<open>nt_block\<close>; \<open>priv_data\<close> says whether it points to the chip.\<close>

record oplus_chg_mutual_notifier =
  nt_block :: nat
  nt_name :: "string option"
  nt_cmd :: u32
  priv_data :: bool

record mutual_module =
  g_mutual_chip :: "oplus_chg_mutual option"
  mutual_list :: "oplus_chg_mutual_notifier list"
  chg_mutual_notifier :: "nat list"

datatype mutual_fault = Use_after_free | Delete_unlisted

section \<open>Registration\<close>

definition mutual_chip_find_by_cmd :: "mutual_module \<Rightarrow> u32 \<Rightarrow> bool" where
  "mutual_chip_find_by_cmd m cmd =
     (case find (\<lambda>t. nt_name t \<noteq> None \<and> nt_cmd t = cmd) (mutual_list m) of None \<Rightarrow> False | Some t \<Rightarrow> priv_data t)"

text \<open>The chain of notifiers refuses a block that it has, and a block that it does not have when it is taken off.\<close>

definition oplus_chg_reg_mutual_notifier :: "oplus_chg_mutual_notifier \<Rightarrow> mutual_module \<Rightarrow> rc \<times> mutual_module" where
  "oplus_chg_reg_mutual_notifier n m =
     (if nt_name n = None then (- ENOENT, m)
      else if \<exists>t\<in>set (mutual_list m). nt_name t \<noteq> None \<and> nt_cmd t = nt_cmd n then (- EINVAL, m)
      else
        let m1 = m\<lparr>mutual_list := n\<lparr>priv_data := g_mutual_chip m \<noteq> None\<rparr> # mutual_list m\<rparr> in
        if nt_block n \<in> set (chg_mutual_notifier m) then (- EEXIST, m1)
        else (0, m1\<lparr>chg_mutual_notifier := chg_mutual_notifier m @ [nt_block n]\<rparr>))"

definition oplus_chg_unreg_mutual_notifier :: "nat \<Rightarrow> mutual_module \<Rightarrow> mutual_fault + rc \<times> mutual_module" where
  "oplus_chg_unreg_mutual_notifier a m =
     (if a \<notin> nt_block ` set (mutual_list m) then Inl Delete_unlisted
      else
        let m1 = m\<lparr>mutual_list := filter (\<lambda>t. nt_block t \<noteq> a) (mutual_list m)\<rparr> in
        if a \<notin> set (chg_mutual_notifier m) then Inr (- ENOENT, m1)
        else Inr (0, m1\<lparr>chg_mutual_notifier := remove1 a (chg_mutual_notifier m)\<rparr>))"

definition no_mutual_cmd :: oplus_mutual_cmd where
  "no_mutual_cmd = \<lparr>mc_cmd = 0, mc_data_size = 0, mc_data_buf = replicate MUTUAL_CMD_DATA_LEN 0\<rparr>"

definition oplus_chg_mutual_init :: "oplus_chg_mutual" where
  "oplus_chg_mutual_init =
     \<lparr>mutual_cmd_data_ok = False, mutual_hidl_handle_cmd_ready = False, mutual_cmd = no_mutual_cmd, mutual_cmd_ack = 0\<rparr>"

definition oplus_chg_mutual_module_init :: "bool \<Rightarrow> rc \<Rightarrow> mutual_module \<Rightarrow> rc \<times> mutual_module" where
  "oplus_chg_mutual_module_init mem class_rc m =
     (if \<not> mem then (- ENOMEM, m)
      else if class_rc < 0 then (class_rc, m)
      else (0, m\<lparr>g_mutual_chip := Some oplus_chg_mutual_init\<rparr>))"

definition oplus_chg_mutual_module_exit :: "mutual_module \<Rightarrow> mutual_module" where
  "oplus_chg_mutual_module_exit m = m\<lparr>g_mutual_chip := None\<rparr>"

section \<open>Sending a command\<close>

text \<open>The checks of \<open>oplus_chg_set_mutual_cmd\<close> before it takes its lock; the result is an error number or the command.
  The data has \<open>sz\<close> bytes. A notifier that points to a chip which is gone is a fault.\<close>

definition fill_mutual_cmd :: "u32 \<Rightarrow> u32 \<Rightarrow> bytes \<Rightarrow> oplus_mutual_cmd" where
  "fill_mutual_cmd cmd sz data =
     \<lparr>mc_cmd = cmd, mc_data_size = sz, mc_data_buf = put_bytes 0 (take (unat sz) data) (replicate MUTUAL_CMD_DATA_LEN 0)\<rparr>"

definition set_mutual_cmd_check ::
  "mutual_module \<Rightarrow> u32 \<Rightarrow> u32 \<Rightarrow> bytes option \<Rightarrow> mutual_fault + int + oplus_mutual_cmd" where
  "set_mutual_cmd_check m cmd sz data =
     (if sz \<noteq> 0 \<and> data = None \<or> sz = 0 \<and> data \<noteq> None then Inr (Inl CMD_ERROR_DATA_NULL)
      else if \<not> mutual_chip_find_by_cmd m cmd then Inr (Inl CMD_ERROR_CHIP_NULL)
      else if unat sz > MUTUAL_CMD_DATA_LEN then Inr (Inl CMD_ERROR_DATA_INVALID)
      else
        (case g_mutual_chip m of
           None \<Rightarrow> Inl Use_after_free
         | Some chip \<Rightarrow>
             if \<not> mutual_hidl_handle_cmd_ready chip then Inr (Inl CMD_ERROR_HIDL_NOT_READY)
             else Inr (Inr (fill_mutual_cmd cmd sz (case data of None \<Rightarrow> [] | Some d \<Rightarrow> d)))))"

text \<open>Then it fills the box, clears the completion, and waits for it at most three seconds.\<close>

definition fill_box :: "oplus_mutual_cmd \<Rightarrow> oplus_chg_mutual \<Rightarrow> oplus_chg_mutual" where
  "fill_box c chip = chip\<lparr>mutual_cmd := c, mutual_cmd_data_ok := True\<rparr>"

definition clear_ack :: "oplus_chg_mutual \<Rightarrow> oplus_chg_mutual" where
  "clear_ack chip = chip\<lparr>mutual_cmd_ack := 0\<rparr>"

definition wait_ack :: "oplus_chg_mutual \<Rightarrow> int \<times> oplus_chg_mutual" where
  "wait_ack chip =
     (if completed (mutual_cmd_ack chip) then (CMD_ACK_OK, chip\<lparr>mutual_cmd_ack := completion_taken (mutual_cmd_ack chip)\<rparr>)
      else (CMD_ERROR_TIME_OUT, chip))"

section \<open>The file\<close>

definition mutual_info_to_param :: "u32 \<Rightarrow> u32 \<Rightarrow> u32" where
  "mutual_info_to_param cmd sz = push_bit 16 (cmd AND 0xff) OR (sz AND 0xffff)"

definition mutual_info_to_cmd :: "u64 \<Rightarrow> u64" where
  "mutual_info_to_cmd param = drop_bit 16 param AND 0xff"

definition mutual_info_to_data_size :: "u64 \<Rightarrow> u64" where
  "mutual_info_to_data_size param = param AND 0xffff"

text \<open>A reader says that it is there, and takes the command when there is one.\<close>

definition reader_ready :: "oplus_chg_mutual \<Rightarrow> oplus_chg_mutual" where
  "reader_ready chip = chip\<lparr>mutual_hidl_handle_cmd_ready := True\<rparr>"

definition take_cmd :: "oplus_chg_mutual \<Rightarrow> oplus_mutual_cmd \<times> oplus_chg_mutual" where
  "take_cmd chip = (mutual_cmd chip, chip\<lparr>mutual_cmd_data_ok := False\<rparr>)"

definition cmd_bytes :: "oplus_mutual_cmd \<Rightarrow> bytes" where
  "cmd_bytes c = le_bytes 4 (mc_cmd c) @ le_bytes 4 (mc_data_size c) @ mc_data_buf c"

definition cmd_of_bytes :: "bytes \<Rightarrow> oplus_mutual_cmd" where
  "cmd_of_bytes buf = \<lparr>mc_cmd = le_word (get_bytes 0 4 buf), mc_data_size = le_word (get_bytes 4 4 buf), mc_data_buf = get_bytes 8 256 buf\<rparr>"

text \<open>An answer: the event for the notifiers, if there is one, and the completion.\<close>

definition oplus_chg_response_mutual_cmd :: "bytes \<Rightarrow> oplus_chg_mutual \<Rightarrow> (u64 \<times> bytes) option \<times> oplus_chg_mutual" where
  "oplus_chg_response_mutual_cmd buf chip =
     (if length buf \<noteq> mutual_cmd_size then (None, chip)
      else
        let c = cmd_of_bytes buf in
        (Some (ucast (mutual_info_to_param (mc_cmd c) (mc_data_size c)), mc_data_buf c),
         chip\<lparr>mutual_cmd_ack := complete (mutual_cmd_ack chip)\<rparr>))"

section \<open>Interleaved steps\<close>

text \<open>A caller that has the lock has filled nothing yet, has filled the box, or waits; \<open>Waiting\<close> notes how many answers
  there were when it cleared the completion. Readers wait for their lock (\<open>rd_waiting\<close>), hold it until they see a
  command (\<open>rd_locked\<close>), and are on their way to take it (\<open>rd_past\<close>). \<open>posted\<close>, \<open>fetched\<close>, \<open>answers\<close>, \<open>mut_events\<close> and
  \<open>results\<close> record what happened.\<close>

datatype caller = Locked oplus_mutual_cmd | Posted oplus_mutual_cmd | Waiting oplus_mutual_cmd nat

record mut_sys =
  mchip :: oplus_chg_mutual
  entered :: "oplus_mutual_cmd list"
  holder :: "caller option"
  rd_waiting :: nat
  rd_locked :: bool
  rd_past :: nat
  posted :: "oplus_mutual_cmd list"
  fetched_cmds :: "oplus_mutual_cmd list"
  answers :: nat
  mut_events :: "(u64 \<times> bytes) list"
  results :: "(oplus_mutual_cmd \<times> int) list"

definition readers :: "mut_sys \<Rightarrow> nat" where
  "readers s = rd_waiting s + of_bool (rd_locked s) + rd_past s"

definition mut_post :: "oplus_mutual_cmd \<Rightarrow> mut_sys \<Rightarrow> mut_sys" where
  "mut_post c s = s\<lparr>mchip := fill_box c (mchip s), holder := Some (Posted c), posted := posted s @ [c]\<rparr>"

definition mut_clear :: "oplus_mutual_cmd \<Rightarrow> mut_sys \<Rightarrow> mut_sys" where
  "mut_clear c s = s\<lparr>mchip := clear_ack (mchip s), holder := Some (Waiting c (answers s))\<rparr>"

definition mut_return :: "oplus_mutual_cmd \<Rightarrow> mut_sys \<Rightarrow> mut_sys" where
  "mut_return c s = (let (rc, chip) = wait_ack (mchip s) in s\<lparr>mchip := chip, holder := None, results := results s @ [(c, rc)]\<rparr>)"

definition mut_take :: "mut_sys \<Rightarrow> mut_sys" where
  "mut_take s = (let (c, chip) = take_cmd (mchip s) in s\<lparr>mchip := chip, rd_past := rd_past s - 1, fetched_cmds := fetched_cmds s @ [c]\<rparr>)"

definition mut_answer :: "bytes \<Rightarrow> mut_sys \<Rightarrow> mut_sys" where
  "mut_answer buf s =
     (case oplus_chg_response_mutual_cmd buf (mchip s) of
        (None, chip) \<Rightarrow> s\<lparr>mchip := chip\<rparr>
      | (Some e, chip) \<Rightarrow> s\<lparr>mchip := chip, answers := answers s + 1, mut_events := mut_events s @ [e]\<rparr>)"

text \<open>At most \<open>n\<close> readers are in the file at the same time.\<close>

inductive mut_step :: "nat \<Rightarrow> mut_sys \<Rightarrow> mut_sys \<Rightarrow> bool" for n where
  enter: "g_mutual_chip m = Some (mchip s) \<Longrightarrow> set_mutual_cmd_check m cmd sz data = Inr (Inr c) \<Longrightarrow>
    (\<forall>d. data = Some d \<longrightarrow> length d = unat sz) \<Longrightarrow> mut_step n s (s\<lparr>entered := c # entered s\<rparr>)"
| lock: "holder s = None \<Longrightarrow> c \<in> set (entered s) \<Longrightarrow>
    mut_step n s (s\<lparr>holder := Some (Locked c), entered := remove1 c (entered s)\<rparr>)"
| post: "holder s = Some (Locked c) \<Longrightarrow> mut_step n s (mut_post c s)"
| clear: "holder s = Some (Posted c) \<Longrightarrow> mut_step n s (mut_clear c s)"
| return: "holder s = Some (Waiting c k) \<Longrightarrow> mut_step n s (mut_return c s)"
| arrive: "readers s < n \<Longrightarrow> mut_step n s (s\<lparr>mchip := reader_ready (mchip s), rd_waiting := rd_waiting s + 1\<rparr>)"
| read_lock: "0 < rd_waiting s \<Longrightarrow> \<not> rd_locked s \<Longrightarrow> mut_step n s (s\<lparr>rd_waiting := rd_waiting s - 1, rd_locked := True\<rparr>)"
| see: "rd_locked s \<Longrightarrow> mutual_cmd_data_ok (mchip s) \<Longrightarrow> mut_step n s (s\<lparr>rd_locked := False, rd_past := rd_past s + 1\<rparr>)"
| interrupted: "rd_locked s \<Longrightarrow> mut_step n s (s\<lparr>rd_locked := False\<rparr>)"
| take: "0 < rd_past s \<Longrightarrow> mut_step n s (mut_take s)"
| answer: "mut_step n s (mut_answer buf s)"

definition mut_start :: mut_sys where
  "mut_start = \<lparr>mchip = oplus_chg_mutual_init, entered = [], holder = None, rd_waiting = 0, rd_locked = False, rd_past = 0,
     posted = [], fetched_cmds = [], answers = 0, mut_events = [], results = []\<rparr>"

inductive mut_reachable :: "nat \<Rightarrow> mut_sys \<Rightarrow> bool" for n where
  start: "mut_reachable n mut_start"
| step: "mut_reachable n s \<Longrightarrow> mut_step n s s' \<Longrightarrow> mut_reachable n s'"

section \<open>Registration, proved\<close>

text \<open>No two notifiers have the same command, so the search finds the one that there is.\<close>

definition commands_differ :: "mutual_module \<Rightarrow> bool" where
  "commands_differ m \<longleftrightarrow> distinct (map nt_cmd (mutual_list m)) \<and> (\<forall>t\<in>set (mutual_list m). nt_name t \<noteq> None)"

lemma register_keeps_differ: "commands_differ m \<Longrightarrow> commands_differ (snd (oplus_chg_reg_mutual_notifier n m))"
  by (auto simp: commands_differ_def oplus_chg_reg_mutual_notifier_def Let_def)

lemma unregister_keeps_differ: "commands_differ m \<Longrightarrow> oplus_chg_unreg_mutual_notifier a m = Inr (rc, m') \<Longrightarrow> commands_differ m'"
  by (auto simp: commands_differ_def oplus_chg_unreg_mutual_notifier_def Let_def distinct_map_filter split: if_splits)

text \<open>A notifier that registers before the module is there never gets the chip, and its commands are refused for ever.\<close>

lemma registered_too_early:
  assumes "g_mutual_chip m = None" and "oplus_chg_reg_mutual_notifier n m = (0, m')"
  shows "sz \<noteq> 0 \<Longrightarrow> set_mutual_cmd_check (snd (oplus_chg_mutual_module_init True 0 m')) (nt_cmd n) sz (Some d) = Inr (Inl CMD_ERROR_CHIP_NULL)"
  using assms by (auto simp: oplus_chg_reg_mutual_notifier_def set_mutual_cmd_check_def mutual_chip_find_by_cmd_def
    oplus_chg_mutual_module_init_def Let_def split: if_splits)

text \<open>A notifier that is still registered when the module is removed points to freed memory.\<close>

lemma removed_module_is_used:
  assumes "g_mutual_chip m = Some chip" and "oplus_chg_reg_mutual_notifier n m = (0, m')"
  shows "set_mutual_cmd_check (oplus_chg_mutual_module_exit m') (nt_cmd n) 0 None = Inl Use_after_free"
  using assms by (auto simp: oplus_chg_reg_mutual_notifier_def set_mutual_cmd_check_def mutual_chip_find_by_cmd_def
    oplus_chg_mutual_module_exit_def Let_def split: if_splits)

section \<open>The box\<close>

definition well_filled :: "oplus_mutual_cmd \<Rightarrow> bool" where
  "well_filled c \<longleftrightarrow> length (mc_data_buf c) = 256 \<and> unat (mc_data_size c) \<le> 256 \<and> drop (unat (mc_data_size c)) (mc_data_buf c) = replicate (256 - unat (mc_data_size c)) 0"

lemma fill_well: "length d = unat sz \<Longrightarrow> unat sz \<le> 256 \<Longrightarrow> well_filled (fill_mutual_cmd cmd sz d)"
  by (simp add: well_filled_def fill_mutual_cmd_def put_bytes_def MUTUAL_CMD_DATA_LEN_def)

lemma checked_well:
  "set_mutual_cmd_check m cmd sz data = Inr (Inr c) \<Longrightarrow> (\<forall>d. data = Some d \<longrightarrow> length d = unat sz) \<Longrightarrow> well_filled c"
  by (auto simp: set_mutual_cmd_check_def MUTUAL_CMD_DATA_LEN_def fill_well split: if_splits option.splits)

fun cmd_of :: "caller \<Rightarrow> oplus_mutual_cmd" where
  "cmd_of (Locked c) = c" | "cmd_of (Posted c) = c" | "cmd_of (Waiting c k) = c"

definition box_inv :: "mut_sys \<Rightarrow> bool" where
  "box_inv s \<longleftrightarrow> (\<forall>c\<in>set (entered s) \<union> cmd_of ` set_option (holder s) \<union> set (posted s). well_filled c) \<and> set (fetched_cmds s) \<subseteq> set (posted s) \<and>
     (mutual_cmd_data_ok (mchip s) \<or> 0 < rd_past s \<longrightarrow> posted s \<noteq> [] \<and> mutual_cmd (mchip s) = last (posted s))"

definition ack_inv :: "mut_sys \<Rightarrow> bool" where
  "ack_inv s \<longleftrightarrow> (\<forall>c k. holder s = Some (Waiting c k) \<longrightarrow> k \<le> answers s \<and> (completed (mutual_cmd_ack (mchip s)) \<longrightarrow> k < answers s))"

definition single_inv :: "mut_sys \<Rightarrow> bool" where
  "single_inv s \<longleftrightarrow> readers s \<le> 1 \<and> (0 < rd_past s \<longrightarrow> mutual_cmd_data_ok (mchip s)) \<and>
     subseq (fetched_cmds s) (if mutual_cmd_data_ok (mchip s) then butlast (posted s) else posted s)"

lemmas mut_defs = mut_post_def mut_clear_def mut_return_def mut_take_def mut_answer_def fill_box_def clear_ack_def wait_ack_def
  reader_ready_def take_cmd_def oplus_chg_response_mutual_cmd_def readers_def Let_def

lemma box_step: "mut_step n s s' \<Longrightarrow> box_inv s \<Longrightarrow> box_inv s'"
proof (induction rule: mut_step.induct)
  case (enter m s cmd sz data c)
  then show ?case using checked_well [of m cmd sz data c] by (auto simp: box_inv_def)
next
  case (lock s c)
  then show ?case by (auto simp: box_inv_def dest: set_remove1_subset [THEN subsetD])
next
  case (post s c)
  then show ?case by (auto simp: box_inv_def mut_defs)
next
  case (clear s c)
  then show ?case by (auto simp: box_inv_def mut_defs)
next
  case (return s c k)
  then show ?case by (auto simp: box_inv_def mut_defs)
next
  case (answer s buf)
  then show ?case by (auto simp: box_inv_def mut_defs)
qed (auto simp: box_inv_def mut_defs)

lemma ack_step: "mut_step n s s' \<Longrightarrow> ack_inv s \<Longrightarrow> ack_inv s'"
  by (induction rule: mut_step.induct) (auto simp: ack_inv_def mut_defs)

lemma subseq_posted: "subseq xs (butlast ys) \<Longrightarrow> subseq xs ys"
  by (meson prefixeq_butlast prefix_imp_subseq subseq_order.trans)

lemma single_step: "mut_step n s s' \<Longrightarrow> n \<le> 1 \<Longrightarrow> box_inv s \<Longrightarrow> single_inv s \<Longrightarrow> single_inv s'"
proof (induction rule: mut_step.induct)
  case (post s c)
  then show ?case by (auto simp: single_inv_def mut_defs intro: subseq_posted split: if_splits)
next
  case (take s)
  then have sub: "subseq (fetched_cmds s) (butlast (posted s))" and ne: "posted s \<noteq> []" and c: "mutual_cmd (mchip s) = last (posted s)"
    by (auto simp: single_inv_def box_inv_def)
  have "subseq (fetched_cmds s @ [last (posted s)]) (butlast (posted s) @ [last (posted s)])" using sub by simp
  then have "subseq (fetched_cmds s @ [last (posted s)]) (posted s)" using ne by simp
  then show ?case using take c by (auto simp: single_inv_def mut_defs)
qed (auto simp: single_inv_def mut_defs)

lemma mut_inv: "mut_reachable n s \<Longrightarrow> box_inv s \<and> ack_inv s \<and> (n \<le> 1 \<longrightarrow> single_inv s)"
proof (induction rule: mut_reachable.induct)
  case start
  then show ?case by (simp add: box_inv_def ack_inv_def single_inv_def mut_start_def oplus_chg_mutual_init_def readers_def)
next
  case (step s s')
  then show ?case using box_step ack_step single_step by blast
qed

section \<open>Properties\<close>

text \<open>C32: With one reader at a time, however callers, the reader and writers interleave, the commands that are read are a
  subsequence of those that were sent: each is read at most once, whole, and in order.\<close>

theorem commands_read_in_order:
  assumes "mut_reachable 1 s"
  shows "subseq (fetched_cmds s) (posted s) \<and> (\<forall>c\<in>set (fetched_cmds s). well_filled c)"
proof -
  have "subseq (fetched_cmds s) (posted s)"
    using mut_inv [OF assms] by (auto simp: single_inv_def intro: subseq_posted split: if_splits)
  moreover have "\<forall>c\<in>set (fetched_cmds s). well_filled c" using mut_inv [OF assms] by (auto simp: box_inv_def)
  ultimately show ?thesis by simp
qed

text \<open>C33: A caller returns success only if an answer of the right size came after it had sent its command.\<close>

theorem success_needs_answer:
  assumes "mut_reachable n s" and "mut_step n s s'" and "holder s = Some (Waiting c k)" and "results s' = results s @ [(c, CMD_ACK_OK)]"
  shows "k < answers s"
proof -
  have inv: "ack_inv s" using mut_inv [OF assms(1)] by blast
  from assms(2-4) have "completed (mutual_cmd_ack (mchip s))"
    by (cases rule: mut_step.cases) (auto simp: mut_defs split: if_splits)
  then show ?thesis using inv assms(3) by (simp add: ack_inv_def)
qed

text \<open>The bits of the parameter for the notifiers.\<close>

lemma masks: "(0xff :: 'a::len word) = mask 8" "(0xffff :: 'a::len word) = mask 16"
  by (simp_all add: mask_eq_exp_minus_1)

lemma param_fields: "mutual_info_to_cmd (ucast (mutual_info_to_param cmd sz)) = ucast (cmd AND 0xff)"
    "mutual_info_to_data_size (ucast (mutual_info_to_param cmd sz)) = ucast (sz AND 0xffff)"
  unfolding mutual_info_to_cmd_def mutual_info_to_data_size_def mutual_info_to_param_def masks
  by (rule bit_word_eqI, auto simp: bit_simps)+

lemma and_mask_small: "unat (w :: u32) < 2 ^ k \<Longrightarrow> w AND mask k = w"
  by (simp add: take_bit_eq_mask [symmetric] word_unat_eq_iff unsigned_take_bit_eq take_bit_nat_eq_self)

lemma cmd_roundtrip: "length (mc_data_buf c) = 256 \<Longrightarrow> length (cmd_bytes c) = 264 \<and> cmd_of_bytes (cmd_bytes c) = c"
  using le_word_le_bytes [of 4 "mc_cmd c"] le_word_le_bytes [of 4 "mc_data_size c"]
  by (cases c) (simp add: cmd_of_bytes_def cmd_bytes_def get_bytes_def)

text \<open>C34: What a caller sends, a reader gets as bytes; when these bytes come back as the answer, the notifiers see the command
  and its size in the parameter and the data beside it, and the caller is woken.\<close>

theorem echo_reaches_notifiers:
  assumes "set_mutual_cmd_check m cmd sz (Some d) = Inr (Inr c)" and "length d = unat sz" and "unat cmd < 256"
  shows "\<exists>p chip. oplus_chg_response_mutual_cmd (cmd_bytes (fst (take_cmd (fill_box c chip0)))) (clear_ack (fill_box c chip0)) =
      (Some (p, d @ replicate (256 - length d) 0), chip) \<and>
    mutual_info_to_cmd p = ucast cmd \<and> mutual_info_to_data_size p = ucast sz \<and> fst (wait_ack chip) = CMD_ACK_OK"
proof -
  have c: "c = fill_mutual_cmd cmd sz d" and sz: "unat sz \<le> 256"
    using assms(1) by (auto simp: set_mutual_cmd_check_def MUTUAL_CMD_DATA_LEN_def split: if_splits option.splits)
  have f: "mc_cmd c = cmd" "mc_data_size c = sz" "mc_data_buf c = d @ replicate (256 - length d) 0"
    using assms(2) sz by (simp_all add: c fill_mutual_cmd_def put_bytes_def MUTUAL_CMD_DATA_LEN_def)
  have "length (mc_data_buf c) = 256" using f(3) assms(2) sz by simp
  note r = cmd_roundtrip [OF this]
  have a: "cmd AND 0xff = cmd" "sz AND 0xffff = sz"
    using assms(3) sz and_mask_small [of cmd 8] and_mask_small [of sz 16] by (simp_all add: masks)
  show ?thesis using r f a
    by (simp add: oplus_chg_response_mutual_cmd_def take_cmd_def fill_box_def clear_ack_def wait_ack_def mutual_cmd_size_def Let_def param_fields)
qed

section \<open>Runs\<close>

text \<open>Runs that are computed: two notifiers are registered, the caller that entered last takes the lock, and the data is empty.\<close>

definition demo_module :: "oplus_chg_mutual \<Rightarrow> mutual_module" where
  "demo_module chip = \<lparr>g_mutual_chip = Some chip, mutual_list = [\<lparr>nt_block = 0, nt_name = Some ''calib_obtain'', nt_cmd = 1, priv_data = True\<rparr>,
     \<lparr>nt_block = 1, nt_name = Some ''prechg_r'', nt_cmd = 5, priv_data = True\<rparr>], chg_mutual_notifier = [1, 0]\<rparr>"

definition demo_cmd :: "u32 \<Rightarrow> oplus_mutual_cmd" where "demo_cmd cmd = fill_mutual_cmd cmd 0 []"

datatype mut_action = A_enter u32 | A_lock | A_post | A_clear | A_return | A_arrive | A_read_lock | A_see | A_take | A_answer u32

fun mut_act :: "nat \<Rightarrow> mut_action \<Rightarrow> mut_sys \<Rightarrow> mut_sys option" where
  "mut_act n (A_enter cmd) s =
     (if set_mutual_cmd_check (demo_module (mchip s)) cmd 0 None = Inr (Inr (demo_cmd cmd)) then Some (s\<lparr>entered := demo_cmd cmd # entered s\<rparr>) else None)"
| "mut_act n A_lock s =
     (case (holder s, entered s) of (None, c # cs) \<Rightarrow> Some (s\<lparr>holder := Some (Locked c), entered := cs\<rparr>) | _ \<Rightarrow> None)"
| "mut_act n A_post s = (case holder s of Some (Locked c) \<Rightarrow> Some (mut_post c s) | _ \<Rightarrow> None)"
| "mut_act n A_clear s = (case holder s of Some (Posted c) \<Rightarrow> Some (mut_clear c s) | _ \<Rightarrow> None)"
| "mut_act n A_return s = (case holder s of Some (Waiting c k) \<Rightarrow> Some (mut_return c s) | _ \<Rightarrow> None)"
| "mut_act n A_arrive s = (if readers s < n then Some (s\<lparr>mchip := reader_ready (mchip s), rd_waiting := rd_waiting s + 1\<rparr>) else None)"
| "mut_act n A_read_lock s = (if 0 < rd_waiting s \<and> \<not> rd_locked s then Some (s\<lparr>rd_waiting := rd_waiting s - 1, rd_locked := True\<rparr>) else None)"
| "mut_act n A_see s = (if rd_locked s \<and> mutual_cmd_data_ok (mchip s) then Some (s\<lparr>rd_locked := False, rd_past := rd_past s + 1\<rparr>) else None)"
| "mut_act n A_take s = (if 0 < rd_past s then Some (mut_take s) else None)"
| "mut_act n (A_answer cmd) s = Some (mut_answer (cmd_bytes (demo_cmd cmd)) s)"

fun mut_run :: "nat \<Rightarrow> mut_action list \<Rightarrow> mut_sys \<Rightarrow> mut_sys option" where
  "mut_run n [] s = Some s"
| "mut_run n (a # as) s = (case mut_act n a s of None \<Rightarrow> None | Some s' \<Rightarrow> mut_run n as s')"

lemma mut_act_step: "mut_act n a s = Some s' \<Longrightarrow> mut_step n s s'"
proof (induction n a s rule: mut_act.induct)
  case (1 n cmd s)
  then show ?case using mut_step.enter [of "demo_module (mchip s)" s cmd 0 None "demo_cmd cmd" n]
    by (auto simp: demo_module_def split: if_splits)
next
  case (2 n s)
  then obtain c cs where s: "holder s = None" "entered s = c # cs" "s' = s\<lparr>holder := Some (Locked c), entered := cs\<rparr>"
    by (auto split: option.splits list.splits)
  then show ?case using mut_step.lock [of s c n] by simp
qed (auto split: option.splits caller.splits if_splits intro: mut_step.intros mut_step.intros [simplified])

lemma mut_run_reachable: "mut_reachable n s \<Longrightarrow> mut_run n as s = Some s' \<Longrightarrow> mut_reachable n s'"
  by (induction as arbitrary: s) (auto split: option.splits dest: mut_act_step intro: mut_reachable.step)

lemma demo_cmd_bytes: "length (cmd_bytes (demo_cmd cmd)) = 264"
  by (simp add: cmd_bytes_def demo_cmd_def fill_mutual_cmd_def MUTUAL_CMD_DATA_LEN_def put_bytes_def)

lemma demo_answer: "oplus_chg_response_mutual_cmd (cmd_bytes (demo_cmd cmd)) chip =
    (Some (ucast (mutual_info_to_param cmd 0), replicate 256 0), chip\<lparr>mutual_cmd_ack := complete (mutual_cmd_ack chip)\<rparr>)"
proof -
  have b: "length (mc_data_buf (demo_cmd cmd)) = 256" "mc_cmd (demo_cmd cmd) = cmd" "mc_data_size (demo_cmd cmd) = 0"
    "mc_data_buf (demo_cmd cmd) = replicate 256 0"
    by (simp_all add: demo_cmd_def fill_mutual_cmd_def MUTUAL_CMD_DATA_LEN_def put_bytes_def)
  show ?thesis using cmd_roundtrip [OF b(1)] b by (simp add: oplus_chg_response_mutual_cmd_def mutual_cmd_size_def Let_def)
qed

lemma demo_check: "mutual_hidl_handle_cmd_ready chip \<Longrightarrow> cmd = 1 \<or> cmd = 5 \<Longrightarrow>
    set_mutual_cmd_check (demo_module chip) cmd 0 None = Inr (Inr (demo_cmd cmd))"
  by (auto simp: set_mutual_cmd_check_def mutual_chip_find_by_cmd_def demo_module_def demo_cmd_def)

lemmas mut_eval = demo_check demo_answer mut_post_def mut_clear_def mut_return_def mut_take_def mut_answer_def fill_box_def clear_ack_def
  wait_ack_def reader_ready_def take_cmd_def readers_def mut_start_def oplus_chg_mutual_init_def

definition sent_and_taken :: "mut_action list" where
  "sent_and_taken = [A_arrive, A_enter 1, A_lock, A_post, A_read_lock, A_see, A_take]"

lemma run_append: "mut_run n (as @ bs) s = (case mut_run n as s of None \<Rightarrow> None | Some s' \<Rightarrow> mut_run n bs s')"
  by (induction as arbitrary: s) (auto split: option.splits)

definition demo_taken :: mut_sys where
  "demo_taken = mut_start\<lparr>mchip := oplus_chg_mutual_init\<lparr>mutual_hidl_handle_cmd_ready := True, mutual_cmd := demo_cmd 1\<rparr>,
     holder := Some (Posted (demo_cmd 1)), posted := [demo_cmd 1], fetched_cmds := [demo_cmd 1]\<rparr>"

lemma run_taken: "mut_run 1 sent_and_taken mut_start = Some demo_taken"
  by (simp add: sent_and_taken_def mut_eval demo_taken_def)

lemma demo_taken_reachable: "mut_reachable 1 demo_taken"
  using mut_run_reachable [OF mut_reachable.start run_taken] .

theorem commands_read_in_order_witness:
  "subseq [demo_cmd 1] (posted demo_taken) \<and> well_filled (demo_cmd 1)"
  using commands_read_in_order [OF demo_taken_reachable] by (simp add: demo_taken_def)

theorem success_needs_answer_witness:
  "\<exists>s s'. mut_reachable 1 s \<and> mut_step 1 s s' \<and> results s' = [(demo_cmd 1, CMD_ACK_OK)] \<and> 0 < answers s"
proof -
  define s where "s = demo_taken\<lparr>mchip := (mchip demo_taken)\<lparr>mutual_cmd_ack := complete 0\<rparr>, holder := Some (Waiting (demo_cmd 1) 0), answers := 1,
    mut_events := [(ucast (mutual_info_to_param 1 0), replicate 256 0)]\<rparr>"
  have "mut_run 1 [A_clear, A_answer 1] demo_taken = Some s" by (simp add: mut_eval demo_taken_def s_def)
  then have r: "mut_reachable 1 s" using mut_run_reachable [OF demo_taken_reachable] by blast
  have h: "holder s = Some (Waiting (demo_cmd 1) 0)" "results s = []" by (simp_all add: s_def demo_taken_def mut_start_def)
  have st: "mut_step 1 s (mut_return (demo_cmd 1) s)" by (rule mut_step.return [OF h(1)])
  have res: "results (mut_return (demo_cmd 1) s) = results s @ [(demo_cmd 1, CMD_ACK_OK)]" by (simp add: mut_return_def wait_ack_def s_def)
  show ?thesis using success_needs_answer [OF r st h(1) res] r st res h(2) by auto
qed

theorem echo_reaches_notifiers_witness:
  "\<exists>p chip. oplus_chg_response_mutual_cmd (cmd_bytes (fst (take_cmd (fill_box (fill_mutual_cmd 5 2 [7, 8]) (oplus_chg_mutual_init)))))
      (clear_ack (fill_box (fill_mutual_cmd 5 2 [7, 8]) oplus_chg_mutual_init)) = (Some (p, [7, 8] @ replicate 254 0), chip) \<and>
    mutual_info_to_cmd p = 5 \<and> mutual_info_to_data_size p = 2"
proof -
  have "set_mutual_cmd_check (demo_module (reader_ready oplus_chg_mutual_init)) 5 2 (Some [7, 8]) = Inr (Inr (fill_mutual_cmd 5 2 [7, 8]))"
    by (simp add: set_mutual_cmd_check_def mutual_chip_find_by_cmd_def demo_module_def reader_ready_def MUTUAL_CMD_DATA_LEN_def)
  from echo_reaches_notifiers [OF this, of oplus_chg_mutual_init] show ?thesis by auto
qed

text \<open>The answer may come before the caller clears the completion; then it is lost, and the caller times out although its
  command was read and answered.\<close>

lemma early_answer_lost:
  "\<exists>s. mut_reachable 1 s \<and> results s = [(demo_cmd 1, CMD_ERROR_TIME_OUT)] \<and> fetched_cmds s = [demo_cmd 1] \<and> answers s = 1"
proof -
  have "mut_run 1 [A_answer 1, A_clear, A_return] demo_taken = Some (demo_taken\<lparr>holder := None, answers := 1,
      mut_events := [(ucast (mutual_info_to_param 1 0), replicate 256 0)], results := [(demo_cmd 1, CMD_ERROR_TIME_OUT)]\<rparr>)"
    by (simp add: mut_eval demo_taken_def)
  from mut_run_reachable [OF demo_taken_reachable this] show ?thesis by (intro exI conjI) (assumption, simp_all add: demo_taken_def)
qed

text \<open>An answer that is late wakes the next caller, whose command was not even read.\<close>

lemma late_answer_taken_by_next:
  "\<exists>s. mut_reachable 1 s \<and> results s = [(demo_cmd 1, CMD_ERROR_TIME_OUT), (demo_cmd 5, CMD_ACK_OK)] \<and> posted s = [demo_cmd 1, demo_cmd 5] \<and>
     fetched_cmds s = [demo_cmd 1]"
proof -
  have "mut_run 1 [A_clear, A_return, A_enter 5, A_lock, A_post, A_clear, A_answer 1, A_return] demo_taken =
      Some (demo_taken\<lparr>mchip := (mchip demo_taken)\<lparr>mutual_cmd_data_ok := True, mutual_cmd := demo_cmd 5\<rparr>, holder := None, answers := 1,
      posted := [demo_cmd 1, demo_cmd 5], mut_events := [(ucast (mutual_info_to_param 1 0), replicate 256 0)],
      results := [(demo_cmd 1, CMD_ERROR_TIME_OUT), (demo_cmd 5, CMD_ACK_OK)]\<rparr>)"
    by (simp add: mut_eval demo_taken_def)
  from mut_run_reachable [OF demo_taken_reachable this] show ?thesis by (intro exI conjI) (assumption, simp_all add: demo_taken_def)
qed

text \<open>Two readers may take the same command.\<close>

lemma two_readers_take_twice:
  "\<exists>s. mut_reachable 2 s \<and> posted s = [demo_cmd 1] \<and> fetched_cmds s = [demo_cmd 1, demo_cmd 1]"
proof -
  have "mut_run 2 [A_arrive, A_arrive, A_enter 1, A_lock, A_post, A_read_lock, A_see, A_read_lock, A_see, A_take, A_take] mut_start =
      Some (demo_taken\<lparr>fetched_cmds := [demo_cmd 1, demo_cmd 1]\<rparr>)"
    by (simp add: mut_eval demo_taken_def)
  from mut_run_reachable [OF mut_reachable.start this] show ?thesis by (intro exI conjI) (assumption, simp_all add: demo_taken_def mut_start_def)
qed

end
