(* ===== verification/Spec2Isabelle.thy ===== *)
theory Spec2Isabelle
  imports Ufcs_Core Ufcs_Reachable Chg_Arbitration Chg_Mms_Queue Chg_Mms_Items Chg_Mms_Registry
    Chg_Strategy_Inr Chg_Strategy_Ddrc2 Chg_Strategy_Pcc Chg_Strategy_Topics Chg_Smooth_Steps
    Chg_Msg_Race Chg_Battery_Log Chg_Mutual
begin

text \<open>
  The second generation of the OPLUS charger (\<^verbatim>\<open>src/oplus/kernel/charger/v2\<close>): the stack of the universal fast
  charging specification (UFCS), the voters by which drivers agree on limits, the arbiter between the charging
  protocols, the message service by which drivers exchange measurements, and the strategies that turn
  measurements into limits. The parts meet as follows. A chip driver registers with the UFCS stack and feeds it
  interrupts and frames; the charge policy drives the stack through its interface. Drivers publish measurements as
  items of topics; strategies look topics up by name and read their items. The arbiter listens to five topics,
  holds its lock of requests in a votable, and starts one protocol at a time, UFCS among them.

  \<^bold>\<open>Conventions.\<close> Machine integers are words (\<open>u8\<close> to \<open>u64\<close>), or \<open>int\<close> where the code uses a C \<^verbatim>\<open>int\<close>; where a
  computation can leave the range of the C type the conversion is written out (\<open>c_sub\<close>, \<open>sint\<close>, \<open>word_of_int\<close>).
  Error numbers are negative integers as in the kernel; functions that return a value or an error use a sum, memory
  faults (an index outside of an array, a NULL pointer, a use after free) are errors of their own.
  Sleeping is explicit: a wait that nothing can end has the value \<open>None\<close>. Loops that may not end are partial
  functions into options, and their termination is a theorem (\<open>worker_terminates\<close>, for stacks without acknowledgements
  and CRC checking; \<open>cgcl_always_returns\<close>, for sound tables);
  where fuel bounds an input, the bound is the length of the list of inputs that is consumed. Concurrency is a step
  relation whose actions are the sections between two locks of the code, or single reads and writes where it has none.

  \<^bold>\<open>UFCS.\<close>
  \<^item> \<open>Ufcs_Prelude\<close>: types, error numbers, completions, slices of buffers, searches, and the interfaces of queues
    (locales \<open>fifo\<close>, \<open>unbounded_fifo\<close>, \<open>bounded_fifo\<close>).
  \<^item> \<open>Ufcs_Msg\<close>, \<open>Ufcs_Fields\<close>: messages and bit fields of \<^verbatim>\<open>ufcs_msg.h\<close>; every field macro is an instance of the
    locale \<open>wire_codec\<close> (what is encoded is decoded).
  \<^item> \<open>Ufcs_Codec\<close>: CRC, packing and unpacking of frames (\<^verbatim>\<open>ufcs_event.c\<close>, \<^verbatim>\<open>ufcs_event_data.c\<close>,
    \<^verbatim>\<open>ufcs_event_vendor.c\<close>); what the receiver gets of each frame, bounds of the buffers, detection of corrupted bytes, and where the code
    writes past an array.
  \<^item> \<open>Ufcs_Sha256\<close>: the digest of \<^verbatim>\<open>ufcs_sha256.c\<close> equals SHA-256 as the standard defines it.
  \<^item> \<open>Ufcs_Class\<close>: the state of the class device, timers (\<^verbatim>\<open>ufcs_timer.c\<close>), event list, error flags, interrupts.
    The event list and the flag queue are interpretations of the queue interfaces.
  \<^item> \<open>Ufcs_Sender\<close>, \<open>Ufcs_Event\<close>: the send work with its retries, the receive and event works, the worker thread; what
    each return code means, that the worker ends without acknowledgements and CRC, and that it can wait for itself with them.
  \<^item> \<open>Ufcs_Pe_Exchange\<close>, \<open>Ufcs_Policy_Engine\<close>: the exchanges and the 21 states of the policy engine
    (\<^verbatim>\<open>ufcs_policy_engine.c\<close>, \<^verbatim>\<open>ufcs_pe_cable.c\<close>, \<^verbatim>\<open>ufcs_pe_vendor.c\<close>, \<^verbatim>\<open>ufcs_pe_test.c\<close>).
  \<^item> \<open>Ufcs_Intf\<close>, \<open>Ufcs_Core\<close>: the functions other drivers call (\<^verbatim>\<open>ufcs_intf.c\<close>), registration (\<^verbatim>\<open>ufcs_core.c\<close>).
  \<^item> \<open>Ufcs_Invariant\<close>, \<open>Ufcs_Pe_Invariant\<close>, \<open>Ufcs_Reachable\<close>: the invariant of the device holds in every reachable
    state, and a request handler has woken its requester when it returns. Locales \<open>sender_worker\<close>, \<open>pe_loop\<close>,
    \<open>exchange_contract\<close>, \<open>sub_exchange_contract\<close> state what the loops of the handlers keep.

  \<^bold>\<open>Voters and arbitration.\<close>
  \<^item> \<open>Chg_Voter\<close>: all operations of \<^verbatim>\<open>oplus_chg_voter.c\<close>. \<open>Chg_Elections\<close>: the result is the forced value, the override
    or an election over the ballots (with their value maps), after any sequence of calls (locales \<open>election_order\<close>, \<open>locked_operation\<close>).
  \<^item> \<open>Chg_Cpa\<close>: \<^verbatim>\<open>oplus_chg_cpa.c\<close> with its works and callbacks. \<open>Chg_Priority\<close>: the choice of a protocol is that of
    an insertion sort. \<open>Chg_Cpa_Invariant\<close>, \<open>Chg_Arbitration\<close>: the invariant, the lock with many holders (locale
    \<open>client_lock\<close>, which the votable implements), which protocol may follow which, and what stays pending.

  \<^bold>\<open>Message service\<close> (\<^verbatim>\<open>mms/oplus_mms.c\<close>).
  \<^item> \<open>Chg_Mms\<close>: items, topics, messages, subscriptions. \<open>Chg_Mms_Items\<close>: when data is worth a message and what
    readers get.
  \<^item> \<open>Chg_Mms_Queue\<close>: publishers and the message work as interleaved actions; the list is a first-in first-out queue
    for each priority (locale \<open>priority_fifo\<close>), every message is delivered.
  \<^item> \<open>Chg_Mms_Registry\<close>: registering topics and waiting for them, interleaved; no waiter is forgotten or called twice.
  \<^item> \<open>Chg_Msg_Filter\<close>: \<^verbatim>\<open>mms/oplus_msg_filter.c\<close>, which gathers requests for updates; with calls as atomic steps,
    requests, timer and work interleave and a request is served within its grace. Delayed works behave as the
    kernel documents them: a delay of zero queues the work at once, scheduling a pending work does nothing. Times
    stay below 2^61 and delays below 2^60, far beyond what a 64-bit \<^verbatim>\<open>jiffies\<close> counts.
  \<^item> \<open>Chg_Msg_Race\<close>: the same requests as single reads and writes, since the code takes no lock. Uninterrupted they are the
    atomic calls; interleaved, an update can start inside the dead zone, but only when the work was set by a request
    that an update overtook.

  \<^bold>\<open>Strategies\<close> (\<^verbatim>\<open>strategy/\<close>).
  \<^item> \<open>Chg_Strategy\<close>: the registry (\<^verbatim>\<open>oplus_strategy.c\<close>), the topics the strategies read, and the interface of a strategy
    (locale \<open>charging_strategy\<close>: from a good state, initialising and asking return good states and fine
    answers, so any sequence of calls does).
  \<^item> \<open>Chg_Strategy_Cgcl\<close>, \<open>Chg_Strategy_Inr\<close>, \<open>Chg_Strategy_Puc\<close>, \<open>Chg_Strategy_Lcf\<close>, \<open>Chg_Strategy_Pcc\<close>,
    \<open>Chg_Strategy_Ddrc\<close>, \<open>Chg_Strategy_Ddrc2\<close>: one theory for each strategy, most of them with an interpretation of that interface, and what
    is special to it: termination and the region that a temperature leads to, hysteresis, when a level is left and
    that the end is reached, when the battery counts as full, how a request approaches its target.
  \<^item> \<open>Chg_Strategy_Topics\<close>: from the message of the driver, without payload, to the limit of the current.

  \<^bold>\<open>Battery smoothing\<close> (\<^verbatim>\<open>strategy/oplus_strategy_battery_smooth.c\<close>), the strategy behind the percentage that is shown.
  \<^item> \<open>Chg_Base64\<close>: the encoder of the records equals Base64 as RFC 4648 defines it, and decodes.
  \<^item> \<open>Chg_Smooth\<close>: the strategy: configurations, the map of 101 charges and the handlers that bend it, the two queues of
    records, allocation, calls and the delayed work. Reading outside of the map and writing past a text buffer are
    faults. A kernel queue of bytes (\<^verbatim>\<open>struct kfifo\<close>) has a size that is rounded up to a power of two.
  \<^item> \<open>Chg_Smooth_Map\<close>, \<open>Chg_Smooth_Order\<close>: the binary search agrees with a linear one, the maps stay in range and in
    order, the percentage follows the charge, and the configurations that the parser accepts suffice for it.
  \<^item> \<open>Chg_Smooth_Log\<close>: the log keeps the newest records (locale \<open>newest_log\<close>), what an upload does by the fill.
  \<^item> \<open>Chg_Smooth_Steps\<close>: the invariant of all reachable states, exactly which calls go wrong, unplugging does not
    change the percentage, a full queue is never emptied; an interpretation of \<open>charging_strategy\<close>.

  \<^bold>\<open>Battery log and commands to user space.\<close>
  \<^item> \<open>Chg_Battery_Log\<close> (\<^verbatim>\<open>oplus_battery_log.c\<close>): registering operations under the names of devices and reading their texts
    together; what a read returns and that it fits, that registering early is as good as late, and the newest records
    of the battery smoothing read through it.
  \<^item> \<open>Chg_Mutual\<close> (\<^verbatim>\<open>oplus_chg_mutual.c\<close>): a box for one command, read and answered by a service in user space; callers, readers
    and writers interleave. Commands are read once and in order, success needs an answer, and runs show which
    answers get lost or go to the wrong caller. How many readers there may be is a parameter of the steps.

  \<^bold>\<open>Parameters.\<close> The device tree is a record of functions (\<open>of_api\<close>), with the documented law that an array that is
  read has the asked length; \<^verbatim>\<open>msecs_to_jiffies\<close> is a function; whether an allocation succeeds is an argument, and so are the wall clock, the time
  zone and the design capacity of the battery (\<open>smooth_env\<close>). The
  chip driver behind UFCS is a list of answers to the register accesses; the adapter is a list of inputs.

  \<^bold>\<open>Not modelled.\<close> The text of log messages and of sysfs and proc files; the debug interface of UFCS; allocation of
  strategies from parameter heads and the configuration store behind it; the release of strategies, which
  frees their memory; the choice of the device tree node by region and the removal of the arbiter; the policy files
  (\<^verbatim>\<open>oplus_chg_comm.c\<close> and others), which are separate programs on top; chip drivers, whose behaviour is in
  hardware; and the other modules of the repository, which are unrelated drivers.
\<close>

end
